(* ===== verification/Prelude.thy ===== *)
theory Prelude
  imports Main "HOL-Library.AList"
begin

text \<open>
  Generic vocabulary of the development: instants and the Python idioms \<open>x or None\<close>,
  \<open>x or 0\<close>, \<open>int(x)\<close>; insertion-ordered dictionaries as association lists;
  folds that stop at the first exception; rows of a table updated by a predicate.
  The collections \<open>row_simps\<close> and \<open>dict_simps\<close> carry the component proofs.
\<close>

named_theorems row_simps "facts on tables seen as lists of rows"
named_theorems dict_simps "facts on insertion-ordered dictionaries"

section \<open>Instants and Python truth values\<close>

text \<open>
  An instant is the number of microseconds since the epoch in UTC: the resolution of
  Python's \<open>datetime\<close>. The columns \<open>expire\<close> and \<open>on_hold_expire_duration\<close> hold seconds.
\<close>

type_synonym instant = int

definition usecs :: int where
  "usecs = 1000000"

text \<open>\<open>expire <= now_ts\<close> where \<open>expire\<close> is in seconds and \<open>now_ts\<close> is \<open>now.timestamp()\<close>.\<close>

definition secs_le_now :: "int \<Rightarrow> instant \<Rightarrow> bool" where
  "secs_le_now s now = (s * usecs \<le> now)"

text \<open>\<open>int(now.timestamp())\<close>, which truncates towards zero.\<close>

definition int_timestamp :: "instant \<Rightarrow> int" where
  "int_timestamp t = (if 0 \<le> t then t div usecs else - ((- t) div usecs))"

definition truthy :: "int option \<Rightarrow> bool" where
  "truthy x = (case x of None \<Rightarrow> False | Some v \<Rightarrow> v \<noteq> 0)"

definition or_none :: "int option \<Rightarrow> int option" where
  "or_none x = (if truthy x then x else None)"

definition or_zero :: "int option \<Rightarrow> int" where
  "or_zero x = (case x of None \<Rightarrow> 0 | Some v \<Rightarrow> v)"

definition str_or_none :: "string option \<Rightarrow> string option" where
  "str_or_none x = (case x of None \<Rightarrow> None | Some s \<Rightarrow> if s = '''' then None else Some s)"

lemma truthy_simps [simp]: "\<not> truthy None" "truthy (Some v) \<longleftrightarrow> v \<noteq> 0"
  by (simp_all add: truthy_def)

lemma or_none_simps [simp]: "or_none None = None" "or_none (Some v) = (if v = 0 then None else Some v)"
  by (simp_all add: or_none_def)

lemma or_zero_simps [simp]: "or_zero None = 0" "or_zero (Some v) = v"
  by (simp_all add: or_zero_def)

lemma truthy_iff: "truthy x \<longleftrightarrow> (\<exists>v. x = Some v \<and> v \<noteq> 0)"
  by (cases x) auto

lemma truthy_or_none [simp]: "truthy (or_none x) = truthy x"
  by (cases x) auto

lemma str_or_none_simps [simp]: "str_or_none None = None"
  "str_or_none (Some s) = (if s = '''' then None else Some s)"
  by (simp_all add: str_or_none_def)

lemma int_timestamp_le: "0 \<le> t \<Longrightarrow> int_timestamp t * usecs \<le> t"
  by (simp add: int_timestamp_def usecs_def)

lemma int_timestamp_gt: "0 \<le> t \<Longrightarrow> t < (int_timestamp t + 1) * usecs"
  by (simp add: int_timestamp_def usecs_def)

section \<open>Text\<close>

text \<open>\<open>str.lower\<close> and \<open>str.strip\<close> on ASCII text.\<close>

definition lower_char :: "char \<Rightarrow> char" where
  "lower_char c = (let n = (of_char c :: nat) in
     if 65 \<le> n \<and> n \<le> 90 then char_of (n + 32) else c)"

definition lower :: "string \<Rightarrow> string" where
  "lower s = map lower_char s"

definition is_space :: "char \<Rightarrow> bool" where
  "is_space c = (let n = (of_char c :: nat) in (9 \<le> n \<and> n \<le> 13) \<or> (28 \<le> n \<and> n \<le> 32))"

definition is_digit :: "char \<Rightarrow> bool" where
  "is_digit c = (let n = (of_char c :: nat) in 48 \<le> n \<and> n \<le> 57)"

text \<open>\<open>str(n)\<close> of an integer, and \<open>s.split(c)\<close>.\<close>

definition digit_char :: "nat \<Rightarrow> char" where
  "digit_char n = char_of (48 + n)"

fun nat_text :: "nat \<Rightarrow> string" where
  "nat_text n = (if n < 10 then [digit_char n] else nat_text (n div 10) @ [digit_char (n mod 10)])"

declare nat_text.simps [simp del]

definition int_text :: "int \<Rightarrow> string" where
  "int_text i = (if i < 0 then ''-'' @ nat_text (nat (- i)) else nat_text (nat i))"

fun split_on :: "char \<Rightarrow> string \<Rightarrow> string list" where
  "split_on x [] = [[]]"
| "split_on x (c # s) = (case split_on x s of
     [] \<Rightarrow> [[c]]
   | w # ws \<Rightarrow> if c = x then [] # w # ws else (c # w) # ws)"

definition strip :: "string \<Rightarrow> string" where
  "strip s = rev (dropWhile is_space (rev (dropWhile is_space s)))"

definition starts_with :: "string \<Rightarrow> string \<Rightarrow> bool" where
  "starts_with p s = (take (length p) s = p)"

definition ends_with :: "string \<Rightarrow> string \<Rightarrow> bool" where
  "ends_with p s = (length p \<le> length s \<and> drop (length s - length p) s = p)"

lemma of_char_lower_char: "(of_char (lower_char c) :: nat) =
    (let n = (of_char c :: nat) in if 65 \<le> n \<and> n \<le> 90 then n + 32 else n)"
  by (auto simp: lower_char_def Let_def)

lemma lower_char_idem [simp]: "lower_char (lower_char c) = lower_char c"
  using of_char_lower_char [of c] by (auto simp: lower_char_def Let_def split: if_splits)

lemma lower_idem [simp]: "lower (lower s) = lower s"
  by (simp add: lower_def)

lemma lower_length [simp]: "length (lower s) = length s"
  by (simp add: lower_def)

section \<open>Dictionaries\<close>

text \<open>
  A Python dict iterates in insertion order and keeps the place of a key that is assigned
  again: an association list with \<^const>\<open>AList.update\<close>. \<open>dict_add\<close> is
  \<open>d[k] += v\<close> on a \<open>defaultdict(int)\<close>, or \<open>d[k] = d.get(k, 0) + v\<close>.
\<close>

definition dict_get0 :: "('k \<times> int) list \<Rightarrow> 'k \<Rightarrow> int" where
  "dict_get0 d k = (case map_of d k of None \<Rightarrow> 0 | Some v \<Rightarrow> v)"

definition dict_add :: "'k \<Rightarrow> int \<Rightarrow> ('k \<times> int) list \<Rightarrow> ('k \<times> int) list" where
  "dict_add k v d = AList.update k (dict_get0 d k + v) d"

definition dict_total :: "('k \<times> int) list \<Rightarrow> int" where
  "dict_total d = sum_list (map snd d)"

lemma dict_get0_Nil [dict_simps]: "dict_get0 [] k = 0"
  by (simp add: dict_get0_def)

lemma dict_get0_add [dict_simps]:
  "dict_get0 (dict_add k v d) k' = dict_get0 d k' + (if k = k' then v else 0)"
  by (simp add: dict_get0_def dict_add_def update_conv')

lemma dict_keys_add [dict_simps]: "fst ` set (dict_add k v d) = insert k (fst ` set d)"
  by (simp add: dict_add_def dom_update)

lemma dict_distinct_add [dict_simps]:
  "distinct (map fst d) \<Longrightarrow> distinct (map fst (dict_add k v d))"
  by (simp add: dict_add_def distinct_update)

lemma dict_total_update:
  "distinct (map fst d) \<Longrightarrow> dict_total (AList.update k v d) = dict_total d - dict_get0 d k + v"
proof (induction d)
  case Nil
  then show ?case by (simp add: dict_total_def dict_get0_def)
next
  case (Cons p d)
  then show ?case
    by (cases p) (auto simp: dict_total_def dict_get0_def)
qed

lemma dict_total_Nil [dict_simps]: "dict_total [] = 0"
  by (simp add: dict_total_def)

lemma dict_total_add [dict_simps]:
  "distinct (map fst d) \<Longrightarrow> dict_total (dict_add k v d) = dict_total d + v"
  by (simp add: dict_add_def dict_total_update)

section \<open>Loops that stop at an exception\<close>

fun fold_res :: "('a \<Rightarrow> 's \<Rightarrow> 'e + 's) \<Rightarrow> 'a list \<Rightarrow> 's \<Rightarrow> 'e + 's" where
  "fold_res f [] s = Inr s"
| "fold_res f (x # xs) s = (case f x s of Inl e \<Rightarrow> Inl e | Inr s' \<Rightarrow> fold_res f xs s')"

lemma fold_res_invariant:
  assumes "fold_res f xs s = Inr s'" and "P s"
    and "\<And>x t t'. x \<in> set xs \<Longrightarrow> P t \<Longrightarrow> f x t = Inr t' \<Longrightarrow> P t'"
  shows "P s'"
  using assms
proof (induction xs arbitrary: s)
  case Nil
  then show ?case by simp
next
  case (Cons x xs)
  from Cons.prems(1) obtain t where t: "f x s = Inr t" "fold_res f xs t = Inr s'"
    by (auto split: sum.splits)
  have "P t" using Cons.prems(2,3) t(1) by auto
  then show ?case using Cons.IH [OF t(2)] Cons.prems(3) by auto
qed

section \<open>Tables\<close>

text \<open>
  A table is the list of its rows. \<open>update_where\<close> is a set-based SQL UPDATE: every row that
  the WHERE clause selects is replaced, its right-hand sides reading the old row.
\<close>

definition update_where :: "('r \<Rightarrow> bool) \<Rightarrow> ('r \<Rightarrow> 'r) \<Rightarrow> 'r list \<Rightarrow> 'r list" where
  "update_where sel upd rows = map (\<lambda>r. if sel r then upd r else r) rows"

definition count_where :: "('r \<Rightarrow> bool) \<Rightarrow> 'r list \<Rightarrow> int" where
  "count_where sel rows = int (length (filter sel rows))"

lemma update_where_simps [row_simps]:
  "update_where sel upd [] = []"
  "update_where sel upd (r # rows) = (if sel r then upd r else r) # update_where sel upd rows"
  by (simp_all add: update_where_def)

lemma length_update_where [row_simps]: "length (update_where sel upd rows) = length rows"
  by (simp add: update_where_def)

lemma map_update_where [row_simps]:
  "(\<And>r. f (upd r) = f r) \<Longrightarrow> map f (update_where sel upd rows) = map f rows"
  by (simp add: update_where_def)

lemma set_update_where:
  "r \<in> set (update_where sel upd rows) \<longleftrightarrow> (\<exists>q \<in> set rows. r = (if sel q then upd q else q))"
  by (auto simp: update_where_def)

lemma count_where_Nil [row_simps]: "count_where sel [] = 0"
  by (simp add: count_where_def)

lemma count_where_Cons [row_simps]:
  "count_where sel (r # rows) = (if sel r then 1 else 0) + count_where sel rows"
  by (simp add: count_where_def)

lemma count_where_nonneg [simp]: "0 \<le> count_where sel rows"
  by (simp add: count_where_def)

lemma count_where_append [row_simps]:
  "count_where sel (xs @ ys) = count_where sel xs + count_where sel ys"
  by (simp add: count_where_def)

lemma count_where_mono:
  "(\<And>r. r \<in> set rows \<Longrightarrow> p r \<Longrightarrow> q r) \<Longrightarrow> count_where p rows \<le> count_where q rows"
  by (induction rows) (auto simp: row_simps)

lemma count_where_cong:
  "(\<And>r. r \<in> set rows \<Longrightarrow> p r = q r) \<Longrightarrow> count_where p rows = count_where q rows"
  by (induction rows) (auto simp: row_simps)

lemma count_where_disj:
  "count_where (\<lambda>r. p r \<or> q r) rows \<le> count_where p rows + count_where q rows"
  by (induction rows) (auto simp: row_simps)

lemma count_where_update:
  "count_where p (update_where sel upd rows) =
     count_where (\<lambda>r. \<not> sel r \<and> p r) rows + count_where (\<lambda>r. sel r \<and> p (upd r)) rows"
  by (induction rows) (auto simp: row_simps)

lemma count_where_zero_iff: "count_where p rows = 0 \<longleftrightarrow> (\<forall>r \<in> set rows. \<not> p r)"
  by (induction rows) (auto simp: row_simps add_nonneg_eq_0_iff)

end
