(* ===== verification/Entities.thy ===== *)
theory Entities
  imports Prelude
begin

text \<open>
  The tables of \<open>app/db/models.py\<close> that the user and admin logic works on, the enums of
  \<open>app/models/user.py\<close>, \<open>app/models/admin.py\<close> and \<open>app/models/proxy.py\<close>, and the exceptions
  the operations raise. One record per row class, one field per column; a relationship
  collection (\<open>next_plans\<close>, \<open>usage_logs\<close>, \<open>node_usages\<close>, \<open>proxies\<close>) is a list in the row
  that owns it. Primary keys of the child rows and \<open>created_at\<close> of the logs' parents are left
  out, because no modelled operation reads them.
\<close>

section \<open>Enumerations\<close>

datatype user_status = Active | Disabled | Limited | Expired | On_hold | Deleted

datatype admin_status = Admin_active | Admin_disabled | Admin_deleted

datatype admin_role = Standard | Reseller | Sudo | Full_access

datatype reset_strategy = No_reset | Day | Week | Month | Year

datatype proxy_type = VMess | VLESS | Trojan | Shadowsocks

fun user_status_value :: "user_status \<Rightarrow> string" where
  "user_status_value Active = ''active''"
| "user_status_value Disabled = ''disabled''"
| "user_status_value Limited = ''limited''"
| "user_status_value Expired = ''expired''"
| "user_status_value On_hold = ''on_hold''"
| "user_status_value Deleted = ''deleted''"

definition user_status_of :: "string \<Rightarrow> user_status option" where
  "user_status_of s = List.find (\<lambda>st. user_status_value st = s)
     [Active, Disabled, Limited, Expired, On_hold, Deleted]"

fun role_value :: "admin_role \<Rightarrow> string" where
  "role_value Standard = ''standard''"
| "role_value Reseller = ''reseller''"
| "role_value Sudo = ''sudo''"
| "role_value Full_access = ''full_access''"

definition role_of :: "string \<Rightarrow> admin_role option" where
  "role_of s = List.find (\<lambda>r. role_value r = s) [Standard, Reseller, Sudo, Full_access]"

fun proxy_value :: "proxy_type \<Rightarrow> string" where
  "proxy_value VMess = ''vmess''"
| "proxy_value VLESS = ''vless''"
| "proxy_value Trojan = ''trojan''"
| "proxy_value Shadowsocks = ''shadowsocks''"

lemma user_status_of_value [simp]: "user_status_of (user_status_value st) = Some st"
  by (cases st) (simp_all add: user_status_of_def)

lemma user_status_value_of: "user_status_of s = Some st \<Longrightarrow> user_status_value st = s"
  by (auto simp: user_status_of_def split: if_splits)

lemma user_status_value_inject [simp]:
  "user_status_value a = user_status_value b \<longleftrightarrow> a = b"
  by (metis option.inject user_status_of_value)

lemma role_of_value [simp]: "role_of (role_value r) = Some r"
  by (cases r) (simp_all add: role_of_def)

lemma role_value_inject [simp]: "role_value a = role_value b \<longleftrightarrow> a = b"
  by (metis option.inject role_of_value)

section \<open>Exceptions\<close>

datatype exn =
    Users_limit_reached (exn_limit: int) (exn_active: int) (exn_admin_modification: bool)
  | Integrity_error string
  | Http_error int string
  | Value_error string
  | Type_error
  | Attribute_error
  | Key_error
  | Index_error
  | Operational_error
  | Data_error
  | Overflow_error
  | Runtime_error
  | Invalid_request_error

type_synonym 'a result = "exn + 'a"

text \<open>
  A Python \<open>datetime\<close> is naive or aware, and ordering one of each raises \<open>TypeError\<close>. The
  \<open>DateTime\<close> columns have no time zone, so what a query loads is naive;
  \<open>datetime.now(timezone.utc)\<close> is aware. Where the code compares the two kinds, or converts
  between them, the model does so too; elsewhere a column is its instant in UTC.
\<close>

datatype datetime = Naive instant | Aware instant

fun dt_le :: "datetime \<Rightarrow> datetime \<Rightarrow> bool result" where
  "dt_le (Naive a) (Naive b) = Inr (a \<le> b)"
| "dt_le (Aware a) (Aware b) = Inr (a \<le> b)"
| "dt_le _ _ = Inl Type_error"

fun dt_less :: "datetime \<Rightarrow> datetime \<Rightarrow> bool result" where
  "dt_less (Naive a) (Naive b) = Inr (a < b)"
| "dt_less (Aware a) (Aware b) = Inr (a < b)"
| "dt_less _ _ = Inl Type_error"

text \<open>\<open>_to_utc_aware\<close>: a naive value is taken as UTC.\<close>

fun to_utc_aware :: "datetime \<Rightarrow> datetime" where
  "to_utc_aware (Naive t) = Aware t"
| "to_utc_aware (Aware t) = Aware t"

lemma dt_less_utc_aware [simp]:
  "dt_less (to_utc_aware x) (to_utc_aware y) \<noteq> Inl e"
  by (cases x; cases y) simp_all

section \<open>Users\<close>

record next_plan =
  np_data_limit :: int
  np_expire :: "int option"
  add_remaining_traffic :: bool
  fire_on_either :: bool
  increase_data_limit :: bool
  start_on_first_connect :: bool
  trigger_on :: string
  position :: int

record usage_log =
  used_traffic_at_reset :: int
  reset_at :: instant

record node_usage =
  nu_created_at :: instant
  nu_node_id :: "int option"
  nu_used_traffic :: int

datatype setting = SNone | SStr string | SBool bool

type_synonym settings = "(string \<times> setting) list"

record proxy =
  ptype :: proxy_type
  psettings :: settings
  pexcluded :: "string list"

record user =
  uid :: int
  username :: string
  credential_key :: "string option"
  flow :: "string option"
  proxies :: "proxy list"
  status :: user_status
  used_traffic :: int
  node_usages :: "node_usage list"
  data_limit :: "int option"
  data_limit_reset_strategy :: reset_strategy
  usage_logs :: "usage_log list"
  expire :: "int option"
  admin_id :: "int option"
  sub_revoked_at :: "instant option"
  sub_updated_at :: "instant option"
  sub_last_user_agent :: "string option"
  created_at :: instant
  user_note :: "string option"
  telegram_id :: "string option"
  contact_number :: "string option"
  online_at :: "instant option"
  on_hold_expire_duration :: "int option"
  on_hold_timeout :: "instant option"
  ip_limit :: int
  auto_delete_in_days :: "int option"
  edit_at :: "instant option"
  last_status_change :: "instant option"
  service_id :: "int option"
  next_plans :: "next_plan list"

definition next_plan_of :: "user \<Rightarrow> next_plan option" where
  "next_plan_of u = (case next_plans u of [] \<Rightarrow> None | p # _ \<Rightarrow> Some p)"

definition lifetime_used_traffic :: "user \<Rightarrow> int" where
  "lifetime_used_traffic u = sum_list (map used_traffic_at_reset (usage_logs u)) + used_traffic u"

definition last_traffic_reset_time :: "user \<Rightarrow> instant" where
  "last_traffic_reset_time u =
     (if usage_logs u = [] then created_at u else reset_at (last (usage_logs u)))"

text \<open>The column defaults: a row as an insert without further values leaves it.\<close>

definition new_user :: "int \<Rightarrow> string \<Rightarrow> instant \<Rightarrow> user" where
  "new_user i name now = \<lparr>uid = i, username = name, credential_key = None, flow = None,
     proxies = [], status = Active, used_traffic = 0, node_usages = [], data_limit = None,
     data_limit_reset_strategy = No_reset, usage_logs = [], expire = None, admin_id = None,
     sub_revoked_at = None, sub_updated_at = None, sub_last_user_agent = None,
     created_at = now, user_note = None, telegram_id = None, contact_number = None,
     online_at = None, on_hold_expire_duration = None, on_hold_timeout = None, ip_limit = 0,
     auto_delete_in_days = None, edit_at = None, last_status_change = Some now,
     service_id = None, next_plans = []\<rparr>"

end
