(* ===== verification/Permissions.thy ===== *)
theory Permissions
  imports Entities
begin

text \<open>
  The role and permission model of \<open>app/models/admin.py\<close>: the permission settings, the
  defaults of the four roles, the merge of overrides, the effective permissions of an account
  and the checks \<open>ensure_user_permission\<close>, \<open>normalize_data_limit\<close>, \<open>ensure_user_constraints\<close>
  and \<open>ensure_can_manage_admin\<close>. The pydantic coercions of JSON values are the parameters \<open>cb\<close>
  (to bool) and \<open>ci\<close> (to int); what is used of them is that they accept a value that already
  has the type.
\<close>

named_theorems perm_simps "unfolding of permission records and checks"

section \<open>JSON values and the dictionary merge\<close>

datatype json =
    JNull
  | JBool bool
  | JInt int
  | JStr string
  | JArr "json list"
  | JObj "(string \<times> json) list"

type_synonym json_dict = "(string \<times> json) list"

text \<open>The nested function \<open>_merge\<close> of \<open>AdminPermissions.merge\<close>.\<close>

fun merge_dict :: "json_dict \<Rightarrow> json_dict \<Rightarrow> json_dict" where
  "merge_dict base [] = base"
| "merge_dict base ((k, JObj ov) # rest) =
     (case map_of base k of
        Some (JObj b) \<Rightarrow> merge_dict (AList.update k (JObj (merge_dict b ov)) base) rest
      | _ \<Rightarrow> merge_dict (AList.update k (JObj ov) base) rest)"
| "merge_dict base ((k, v) # rest) = merge_dict (AList.update k v base) rest"

section \<open>Permission settings\<close>

datatype user_permission =
    Perm_create | Perm_delete | Perm_reset_usage | Perm_revoke | Perm_create_on_hold
  | Perm_allow_unlimited_data | Perm_allow_unlimited_expire | Perm_allow_next_plan
  | Perm_advanced_actions | Perm_set_flow | Perm_allow_custom_key

datatype admin_management_permission = Mgmt_view | Mgmt_edit | Mgmt_manage_sudo

datatype section_access =
    Sec_usage | Sec_admins | Sec_services | Sec_hosts | Sec_nodes | Sec_integrations | Sec_xray

record user_permission_settings =
  create :: bool
  delete :: bool
  reset_usage :: bool
  revoke :: bool
  create_on_hold :: bool
  allow_unlimited_data :: bool
  allow_unlimited_expire :: bool
  allow_next_plan :: bool
  advanced_actions :: bool
  set_flow :: bool
  allow_custom_key :: bool
  max_data_limit_per_user :: "int option"

record admin_management_permissions =
  can_view :: bool
  can_edit :: bool
  can_manage_sudo :: bool

record section_permission_settings =
  sec_usage :: bool
  sec_admins :: bool
  sec_services :: bool
  sec_hosts :: bool
  sec_nodes :: bool
  sec_integrations :: bool
  sec_xray :: bool

record admin_permissions =
  perm_users :: user_permission_settings
  admin_management :: admin_management_permissions
  sections :: section_permission_settings
  self_permissions :: "(string \<times> bool) list"

text \<open>The defaults of the classes' fields.\<close>

definition default_users :: user_permission_settings where
  "default_users = \<lparr>create = True, delete = False, reset_usage = False, revoke = False,
     create_on_hold = False, allow_unlimited_data = False, allow_unlimited_expire = False,
     allow_next_plan = False, advanced_actions = True, set_flow = False,
     allow_custom_key = False, max_data_limit_per_user = None\<rparr>"

definition default_management :: admin_management_permissions where
  "default_management = \<lparr>can_view = False, can_edit = False, can_manage_sudo = False\<rparr>"

definition default_sections :: section_permission_settings where
  "default_sections = \<lparr>sec_usage = False, sec_admins = False, sec_services = False,
     sec_hosts = True, sec_nodes = False, sec_integrations = False, sec_xray = False\<rparr>"

definition default_self :: "(string \<times> bool) list" where
  "default_self = [(''self_myaccount'', True), (''self_change_password'', True),
     (''self_api_keys'', True)]"

fun user_allows :: "user_permission_settings \<Rightarrow> user_permission \<Rightarrow> bool" where
  "user_allows p Perm_create = create p"
| "user_allows p Perm_delete = delete p"
| "user_allows p Perm_reset_usage = reset_usage p"
| "user_allows p Perm_revoke = revoke p"
| "user_allows p Perm_create_on_hold = create_on_hold p"
| "user_allows p Perm_allow_unlimited_data = allow_unlimited_data p"
| "user_allows p Perm_allow_unlimited_expire = allow_unlimited_expire p"
| "user_allows p Perm_allow_next_plan = allow_next_plan p"
| "user_allows p Perm_advanced_actions = advanced_actions p"
| "user_allows p Perm_set_flow = set_flow p"
| "user_allows p Perm_allow_custom_key = allow_custom_key p"

fun management_allows :: "admin_management_permissions \<Rightarrow> admin_management_permission \<Rightarrow> bool" where
  "management_allows p Mgmt_view = can_view p"
| "management_allows p Mgmt_edit = can_edit p"
| "management_allows p Mgmt_manage_sudo = can_manage_sudo p"

fun section_allows :: "section_permission_settings \<Rightarrow> section_access \<Rightarrow> bool" where
  "section_allows p Sec_usage = sec_usage p"
| "section_allows p Sec_admins = sec_admins p"
| "section_allows p Sec_services = sec_services p"
| "section_allows p Sec_hosts = sec_hosts p"
| "section_allows p Sec_nodes = sec_nodes p"
| "section_allows p Sec_integrations = sec_integrations p"
| "section_allows p Sec_xray = sec_xray p"

section \<open>Role defaults\<close>

definition all_sections :: "bool \<Rightarrow> section_permission_settings" where
  "all_sections b = \<lparr>sec_usage = b, sec_admins = b, sec_services = b, sec_hosts = b,
     sec_nodes = b, sec_integrations = b, sec_xray = b\<rparr>"

text \<open>
  \<open>ROLE_DEFAULT_PERMISSIONS\<close>. The entries of the roles other than \<open>standard\<close> do not mention
  \<open>advanced_actions\<close> and take the class's default for it.
\<close>

definition role_default_permissions :: "admin_role \<Rightarrow> admin_permissions" where
  "role_default_permissions r = (case r of
     Standard \<Rightarrow> \<lparr>
       perm_users = \<lparr>create = True, delete = True, reset_usage = True, revoke = True,
         create_on_hold = True, allow_unlimited_data = True, allow_unlimited_expire = True,
         allow_next_plan = True, advanced_actions = True, set_flow = False,
         allow_custom_key = False, max_data_limit_per_user = None\<rparr>,
       admin_management = \<lparr>can_view = False, can_edit = False, can_manage_sudo = False\<rparr>,
       sections = all_sections False,
       self_permissions = default_self\<rparr>
   | Reseller \<Rightarrow> \<lparr>
       perm_users = \<lparr>create = True, delete = True, reset_usage = True, revoke = True,
         create_on_hold = True, allow_unlimited_data = True, allow_unlimited_expire = True,
         allow_next_plan = True, advanced_actions = advanced_actions default_users,
         set_flow = False, allow_custom_key = False, max_data_limit_per_user = None\<rparr>,
       admin_management = \<lparr>can_view = False, can_edit = False, can_manage_sudo = False\<rparr>,
       sections = all_sections False,
       self_permissions = default_self\<rparr>
   | Sudo \<Rightarrow> \<lparr>
       perm_users = \<lparr>create = True, delete = True, reset_usage = True, revoke = True,
         create_on_hold = True, allow_unlimited_data = True, allow_unlimited_expire = True,
         allow_next_plan = True, advanced_actions = advanced_actions default_users,
         set_flow = True, allow_custom_key = True, max_data_limit_per_user = None\<rparr>,
       admin_management = \<lparr>can_view = True, can_edit = True, can_manage_sudo = False\<rparr>,
       sections = all_sections True,
       self_permissions = default_self\<rparr>
   | Full_access \<Rightarrow> \<lparr>
       perm_users = \<lparr>create = True, delete = True, reset_usage = True, revoke = True,
         create_on_hold = True, allow_unlimited_data = True, allow_unlimited_expire = True,
         allow_next_plan = True, advanced_actions = advanced_actions default_users,
         set_flow = True, allow_custom_key = True, max_data_limit_per_user = None\<rparr>,
       admin_management = \<lparr>can_view = True, can_edit = True, can_manage_sudo = True\<rparr>,
       sections = all_sections True,
       self_permissions = default_self\<rparr>)"

section \<open>Dumping and validating\<close>

definition json_of_int_option :: "int option \<Rightarrow> json" where
  "json_of_int_option x = (case x of None \<Rightarrow> JNull | Some n \<Rightarrow> JInt n)"

text \<open>\<open>model_dump\<close>: every field, in the order of declaration.\<close>

definition dump_users :: "user_permission_settings \<Rightarrow> json_dict" where
  "dump_users p = [(''create'', JBool (create p)), (''delete'', JBool (delete p)),
     (''reset_usage'', JBool (reset_usage p)), (''revoke'', JBool (revoke p)),
     (''create_on_hold'', JBool (create_on_hold p)),
     (''allow_unlimited_data'', JBool (allow_unlimited_data p)),
     (''allow_unlimited_expire'', JBool (allow_unlimited_expire p)),
     (''allow_next_plan'', JBool (allow_next_plan p)),
     (''advanced_actions'', JBool (advanced_actions p)), (''set_flow'', JBool (set_flow p)),
     (''allow_custom_key'', JBool (allow_custom_key p)),
     (''max_data_limit_per_user'', json_of_int_option (max_data_limit_per_user p))]"

definition dump_management :: "admin_management_permissions \<Rightarrow> json_dict" where
  "dump_management p = [(''can_view'', JBool (can_view p)), (''can_edit'', JBool (can_edit p)),
     (''can_manage_sudo'', JBool (can_manage_sudo p))]"

definition dump_sections :: "section_permission_settings \<Rightarrow> json_dict" where
  "dump_sections p = [(''usage'', JBool (sec_usage p)), (''admins'', JBool (sec_admins p)),
     (''services'', JBool (sec_services p)), (''hosts'', JBool (sec_hosts p)),
     (''nodes'', JBool (sec_nodes p)), (''integrations'', JBool (sec_integrations p)),
     (''xray'', JBool (sec_xray p))]"

definition dump_permissions :: "admin_permissions \<Rightarrow> json_dict" where
  "dump_permissions p = [(''users'', JObj (dump_users (perm_users p))),
     (''admin_management'', JObj (dump_management (admin_management p))),
     (''sections'', JObj (dump_sections (sections p))),
     (''self_permissions'', JObj (map (\<lambda>(k, b). (k, JBool b)) (self_permissions p)))]"

text \<open>
  \<open>model_validate\<close> on a dict: a missing field takes its default, unknown fields are ignored,
  a value that does not coerce is a validation error (a subclass of \<open>ValueError\<close>).
\<close>

definition bool_field :: "(json \<Rightarrow> bool option) \<Rightarrow> json_dict \<Rightarrow> string \<Rightarrow> bool \<Rightarrow> bool result" where
  "bool_field cb d k dflt = (case map_of d k of
     None \<Rightarrow> Inr dflt
   | Some v \<Rightarrow> (case cb v of None \<Rightarrow> Inl (Value_error k) | Some b \<Rightarrow> Inr b))"

definition int_option_field :: "(json \<Rightarrow> int option) \<Rightarrow> json_dict \<Rightarrow> string \<Rightarrow> int option result" where
  "int_option_field ci d k = (case map_of d k of
     None \<Rightarrow> Inr None
   | Some JNull \<Rightarrow> Inr None
   | Some v \<Rightarrow> (case ci v of None \<Rightarrow> Inl (Value_error k) | Some n \<Rightarrow> Inr (Some n)))"

definition then_res :: "'a result \<Rightarrow> ('a \<Rightarrow> 'b result) \<Rightarrow> 'b result" where
  "then_res r f = (case r of Inl e \<Rightarrow> Inl e | Inr x \<Rightarrow> f x)"

lemma then_res_simps [simp]: "then_res (Inl e) f = Inl e" "then_res (Inr x) f = f x"
  by (simp_all add: then_res_def)

definition validate_users :: "(json \<Rightarrow> bool option) \<Rightarrow> (json \<Rightarrow> int option) \<Rightarrow> json_dict \<Rightarrow>
    user_permission_settings result" where
  "validate_users cb ci d =
     then_res (bool_field cb d ''create'' (create default_users)) (\<lambda>c.
     then_res (bool_field cb d ''delete'' (delete default_users)) (\<lambda>de.
     then_res (bool_field cb d ''reset_usage'' (reset_usage default_users)) (\<lambda>ru.
     then_res (bool_field cb d ''revoke'' (revoke default_users)) (\<lambda>rv.
     then_res (bool_field cb d ''create_on_hold'' (create_on_hold default_users)) (\<lambda>oh.
     then_res (bool_field cb d ''allow_unlimited_data'' (allow_unlimited_data default_users)) (\<lambda>ud.
     then_res (bool_field cb d ''allow_unlimited_expire'' (allow_unlimited_expire default_users)) (\<lambda>ue.
     then_res (bool_field cb d ''allow_next_plan'' (allow_next_plan default_users)) (\<lambda>np.
     then_res (bool_field cb d ''advanced_actions'' (advanced_actions default_users)) (\<lambda>aa.
     then_res (bool_field cb d ''set_flow'' (set_flow default_users)) (\<lambda>sf.
     then_res (bool_field cb d ''allow_custom_key'' (allow_custom_key default_users)) (\<lambda>ck.
     then_res (int_option_field ci d ''max_data_limit_per_user'') (\<lambda>mx.
     Inr \<lparr>create = c, delete = de, reset_usage = ru, revoke = rv, create_on_hold = oh,
       allow_unlimited_data = ud, allow_unlimited_expire = ue, allow_next_plan = np,
       advanced_actions = aa, set_flow = sf, allow_custom_key = ck,
       max_data_limit_per_user = mx\<rparr>))))))))))))"

definition validate_management ::
    "(json \<Rightarrow> bool option) \<Rightarrow> json_dict \<Rightarrow> admin_management_permissions result" where
  "validate_management cb d =
     then_res (bool_field cb d ''can_view'' (can_view default_management)) (\<lambda>v.
     then_res (bool_field cb d ''can_edit'' (can_edit default_management)) (\<lambda>e.
     then_res (bool_field cb d ''can_manage_sudo'' (can_manage_sudo default_management)) (\<lambda>m.
     Inr \<lparr>can_view = v, can_edit = e, can_manage_sudo = m\<rparr>)))"

definition validate_sections ::
    "(json \<Rightarrow> bool option) \<Rightarrow> json_dict \<Rightarrow> section_permission_settings result" where
  "validate_sections cb d =
     then_res (bool_field cb d ''usage'' (sec_usage default_sections)) (\<lambda>us.
     then_res (bool_field cb d ''admins'' (sec_admins default_sections)) (\<lambda>ad.
     then_res (bool_field cb d ''services'' (sec_services default_sections)) (\<lambda>se.
     then_res (bool_field cb d ''hosts'' (sec_hosts default_sections)) (\<lambda>ho.
     then_res (bool_field cb d ''nodes'' (sec_nodes default_sections)) (\<lambda>no.
     then_res (bool_field cb d ''integrations'' (sec_integrations default_sections)) (\<lambda>it.
     then_res (bool_field cb d ''xray'' (sec_xray default_sections)) (\<lambda>xr.
     Inr \<lparr>sec_usage = us, sec_admins = ad, sec_services = se, sec_hosts = ho, sec_nodes = no,
       sec_integrations = it, sec_xray = xr\<rparr>)))))))"

fun validate_self :: "(json \<Rightarrow> bool option) \<Rightarrow> json_dict \<Rightarrow> (string \<times> bool) list result" where
  "validate_self cb [] = Inr []"
| "validate_self cb ((k, v) # d) = (case cb v of
     None \<Rightarrow> Inl (Value_error k)
   | Some b \<Rightarrow> then_res (validate_self cb d) (\<lambda>r. Inr ((k, b) # r)))"

definition object_field :: "json_dict \<Rightarrow> string \<Rightarrow> 'a \<Rightarrow> (json_dict \<Rightarrow> 'a result) \<Rightarrow> 'a result" where
  "object_field d k dflt f = (case map_of d k of
     None \<Rightarrow> Inr dflt
   | Some (JObj o') \<Rightarrow> f o'
   | Some _ \<Rightarrow> Inl (Value_error k))"

definition validate_permissions :: "(json \<Rightarrow> bool option) \<Rightarrow> (json \<Rightarrow> int option) \<Rightarrow> json_dict \<Rightarrow>
    admin_permissions result" where
  "validate_permissions cb ci d =
     then_res (object_field d ''users'' default_users (validate_users cb ci)) (\<lambda>u.
     then_res (object_field d ''admin_management'' default_management (validate_management cb)) (\<lambda>m.
     then_res (object_field d ''sections'' default_sections (validate_sections cb)) (\<lambda>s.
     then_res (object_field d ''self_permissions'' default_self (validate_self cb)) (\<lambda>p.
     Inr \<lparr>perm_users = u, admin_management = m, sections = s, self_permissions = p\<rparr>))))"

text \<open>\<open>AdminPermissions.merge\<close>, with the overrides given as a dict or as another model.\<close>

definition merge_overrides :: "(json \<Rightarrow> bool option) \<Rightarrow> (json \<Rightarrow> int option) \<Rightarrow>
    admin_permissions \<Rightarrow> json_dict \<Rightarrow> admin_permissions result" where
  "merge_overrides cb ci p overrides =
     validate_permissions cb ci (merge_dict (dump_permissions p) overrides)"

definition merge_permissions :: "(json \<Rightarrow> bool option) \<Rightarrow> (json \<Rightarrow> int option) \<Rightarrow>
    admin_permissions \<Rightarrow> admin_permissions \<Rightarrow> admin_permissions result" where
  "merge_permissions cb ci p q = merge_overrides cb ci p (dump_permissions q)"

section \<open>Effective permissions of an account\<close>

definition resolve_role :: "admin_role option \<Rightarrow> admin_role" where
  "resolve_role v = (case v of Some r \<Rightarrow> r | None \<Rightarrow> Standard)"

text \<open>\<open>_build_permissions\<close>: full access ignores every override; an empty dict is no override.\<close>

definition build_permissions :: "(json \<Rightarrow> bool option) \<Rightarrow> (json \<Rightarrow> int option) \<Rightarrow> admin_role \<Rightarrow>
    json_dict option \<Rightarrow> admin_permissions result" where
  "build_permissions cb ci role raw =
     (if role = Full_access then Inr (role_default_permissions role)
      else case raw of
          None \<Rightarrow> Inr (role_default_permissions role)
        | Some d \<Rightarrow> (if d = [] then Inr (role_default_permissions role)
                     else merge_overrides cb ci (role_default_permissions role) d))"

text \<open>The fields of the pydantic \<open>Admin\<close> that the checks read.\<close>

record principal =
  pr_id :: "int option"
  pr_username :: string
  pr_role :: admin_role
  pr_permissions :: admin_permissions
  pr_status :: admin_status
  pr_disabled_reason :: "string option"

definition has_full_access :: "principal \<Rightarrow> bool" where
  "has_full_access a = (pr_role a = Full_access)"

fun user_permission_value :: "user_permission \<Rightarrow> string" where
  "user_permission_value Perm_create = ''create''"
| "user_permission_value Perm_delete = ''delete''"
| "user_permission_value Perm_reset_usage = ''reset_usage''"
| "user_permission_value Perm_revoke = ''revoke''"
| "user_permission_value Perm_create_on_hold = ''create_on_hold''"
| "user_permission_value Perm_allow_unlimited_data = ''allow_unlimited_data''"
| "user_permission_value Perm_allow_unlimited_expire = ''allow_unlimited_expire''"
| "user_permission_value Perm_allow_next_plan = ''allow_next_plan''"
| "user_permission_value Perm_advanced_actions = ''advanced_actions''"
| "user_permission_value Perm_set_flow = ''set_flow''"
| "user_permission_value Perm_allow_custom_key = ''allow_custom_key''"

text \<open>\<open>USER_PERMISSION_MESSAGES\<close>, which has no entry for \<open>advanced_actions\<close>.\<close>

definition user_permission_messages :: "(user_permission \<times> string) list" where
  "user_permission_messages =
     [(Perm_create, ''create users''), (Perm_delete, ''delete users''),
      (Perm_reset_usage, ''reset user usage''), (Perm_revoke, ''revoke user subscriptions''),
      (Perm_create_on_hold, ''create or move users to on-hold''),
      (Perm_allow_unlimited_data, ''create unlimited data users''),
      (Perm_allow_unlimited_expire, ''create unlimited duration users''),
      (Perm_allow_next_plan, ''use next plan features''), (Perm_set_flow, ''set user flow''),
      (Perm_allow_custom_key, ''set custom credential key'')]"

definition ensure_user_permission :: "principal \<Rightarrow> user_permission \<Rightarrow> unit result" where
  "ensure_user_permission a permission =
     (if has_full_access a then Inr ()
      else if user_allows (perm_users (pr_permissions a)) permission then Inr ()
      else let readable = (case map_of user_permission_messages permission of
               Some m \<Rightarrow> m
             | None \<Rightarrow> map (\<lambda>c. if c = CHR ''_'' then CHR '' '' else c)
                 (user_permission_value permission))
           in Inl (Http_error 403 (''You're not allowed to '' @ readable @ ''.'')))"

definition normalize_data_limit :: "principal \<Rightarrow> int option \<Rightarrow> int option" where
  "normalize_data_limit a dl =
     (if has_full_access a then dl
      else let perms = perm_users (pr_permissions a) in
      (case dl of
         None \<Rightarrow> None
       | Some n \<Rightarrow>
           if n = 0 then
             (if \<not> user_allows perms Perm_allow_unlimited_data then
                (case max_data_limit_per_user perms of Some m \<Rightarrow> Some m | None \<Rightarrow> None)
              else Some 0)
           else (case max_data_limit_per_user perms of
                   Some m \<Rightarrow> if n > m then Some m else Some n
                 | None \<Rightarrow> Some n)))"

text \<open>\<open>next_plan\<close> is \<open>None\<close>, or the value of its key \<open>expire\<close> for a non-empty dict.\<close>

definition ensure_user_constraints :: "principal \<Rightarrow> string option \<Rightarrow> int option \<Rightarrow>
    int option option \<Rightarrow> unit result" where
  "ensure_user_constraints a status_value expire_value next_plan_expire =
     (if has_full_access a then Inr ()
      else let perms = perm_users (pr_permissions a) in
      if status_value = Some ''on_hold'' \<and> \<not> user_allows perms Perm_create_on_hold then
        Inl (Http_error 403 ''You're not allowed to create or move users to on-hold.'')
      else if expire_value = Some 0 \<and> \<not> user_allows perms Perm_allow_unlimited_expire then
        Inl (Http_error 403 ''Unlimited validity users are not allowed for your role.'')
      else (case next_plan_expire of
          None \<Rightarrow> Inr ()
        | Some next_expire \<Rightarrow>
            if \<not> user_allows perms Perm_allow_next_plan then
              Inl (Http_error 403 ''You are not allowed to configure next plans.'')
            else if next_expire = Some 0 \<and> \<not> user_allows perms Perm_allow_unlimited_expire then
              Inl (Http_error 403
                ''Next plan with unlimited duration is not allowed for your role.'')
            else Inr ()))"

definition ensure_can_manage_admin :: "principal \<Rightarrow> principal \<Rightarrow> unit result" where
  "ensure_can_manage_admin a target =
     (if pr_username target = pr_username a then Inr ()
      else if pr_role target = Full_access then
        (if \<not> has_full_access a then
           Inl (Http_error 403 ''Only full access admins can manage other full access accounts.'')
         else Inl (Http_error 403 ''Full access admins cannot manage other full access accounts.''))
      else if has_full_access a then Inr ()
      else let perms = admin_management (pr_permissions a) in
      if \<not> management_allows perms Mgmt_edit then
        Inl (Http_error 403 ''You're not allowed to manage other admins.'')
      else if pr_role target \<in> {Sudo, Full_access} \<and> \<not> management_allows perms Mgmt_manage_sudo then
        Inl (Http_error 403 ''You're not allowed to manage sudo admins.'')
      else Inr ())"

section \<open>Lemmas\<close>

subsection \<open>Dumping, merging, validating\<close>

definition coerces :: "(json \<Rightarrow> bool option) \<Rightarrow> (json \<Rightarrow> int option) \<Rightarrow> bool" where
  "coerces cb ci \<longleftrightarrow> (\<forall>b. cb (JBool b) = Some b) \<and> (\<forall>n. ci (JInt n) = Some n)"

lemma validate_users_dump [perm_simps]:
  "coerces cb ci \<Longrightarrow> validate_users cb ci (dump_users p) = Inr p"
  by (simp add: validate_users_def dump_users_def bool_field_def int_option_field_def
      json_of_int_option_def coerces_def split: option.splits)

lemma validate_management_dump [perm_simps]:
  "coerces cb ci \<Longrightarrow> validate_management cb (dump_management p) = Inr p"
  by (simp add: validate_management_def dump_management_def bool_field_def coerces_def)

lemma validate_sections_dump [perm_simps]:
  "coerces cb ci \<Longrightarrow> validate_sections cb (dump_sections p) = Inr p"
  by (simp add: validate_sections_def dump_sections_def bool_field_def coerces_def)

lemma validate_self_dump [perm_simps]:
  "coerces cb ci \<Longrightarrow> validate_self cb (map (\<lambda>(k, b). (k, JBool b)) s) = Inr s"
  by (induction s) (auto simp: coerces_def)

lemma validate_dump_permissions:
  assumes "coerces cb ci"
  shows "validate_permissions cb ci (dump_permissions p) = Inr p"
  using assms by (simp add: validate_permissions_def dump_permissions_def object_field_def perm_simps)

definition flat :: "json_dict \<Rightarrow> bool" where
  "flat d = list_all (\<lambda>(k, v). case v of JObj _ \<Rightarrow> False | _ \<Rightarrow> True) d"

text \<open>On values that are not objects the merge is the fold of the assignments.\<close>

lemma merge_dict_flat:
  "flat ov \<Longrightarrow> merge_dict base ov = fold (\<lambda>(k, v). AList.update k v) ov base"
proof (induction ov arbitrary: base)
  case Nil
  then show ?case by simp
next
  case (Cons p ov)
  obtain k v where p: "p = (k, v)" by (cases p)
  show ?case using Cons by (cases v) (auto simp: p flat_def)
qed

lemma flat_dumps [simp]: "flat (dump_users p)" "flat (dump_management m)" "flat (dump_sections s)"
  "flat (map (\<lambda>(k, b). (k, JBool b)) sp)"
  by (auto simp: flat_def dump_users_def dump_management_def dump_sections_def
      json_of_int_option_def list_all_iff split: option.splits)

lemma merge_dump_users [perm_simps]: "merge_dict (dump_users p) (dump_users q) = dump_users q"
  by (cases "max_data_limit_per_user q") (simp_all add: dump_users_def json_of_int_option_def)

lemma merge_dump_management [perm_simps]:
  "merge_dict (dump_management p) (dump_management q) = dump_management q"
  by (simp add: merge_dict_flat dump_management_def)

lemma merge_dump_sections [perm_simps]:
  "merge_dict (dump_sections p) (dump_sections q) = dump_sections q"
  by (simp add: merge_dict_flat dump_sections_def)

lemma update_map_JBool:
  "AList.update k (JBool b) (map (\<lambda>(k, b). (k, JBool b)) s)
   = map (\<lambda>(k, b). (k, JBool b)) (AList.update k b s)"
  by (induction s) auto

lemma merge_dump_self [perm_simps]:
  "merge_dict (map (\<lambda>(k, b). (k, JBool b)) s) (map (\<lambda>(k, b). (k, JBool b)) t)
   = map (\<lambda>(k, b). (k, JBool b)) (fold (\<lambda>(k, b). AList.update k b) t s)"
proof -
  have "fold (\<lambda>(k, v). AList.update k v) (map (\<lambda>(k, b). (k, JBool b)) t)
      (map (\<lambda>(k, b). (k, JBool b)) s)
    = map (\<lambda>(k, b). (k, JBool b)) (fold (\<lambda>(k, b). AList.update k b) t s)"
    by (induction t arbitrary: s) (auto simp: update_map_JBool)
  then show ?thesis by (simp add: merge_dict_flat)
qed

lemma merge_dump_permissions [perm_simps]:
  "merge_dict (dump_permissions p) (dump_permissions q)
   = dump_permissions (q\<lparr>self_permissions :=
       fold (\<lambda>(k, b). AList.update k b) (self_permissions q) (self_permissions p)\<rparr>)"
  by (simp add: dump_permissions_def perm_simps)

text \<open>
  Merging a complete model takes everything but the entries of \<open>self_permissions\<close> from it.
\<close>

lemma merge_permissions_eq:
  "coerces cb ci \<Longrightarrow> merge_permissions cb ci p q = Inr (q\<lparr>self_permissions :=
     fold (\<lambda>(k, b). AList.update k b) (self_permissions q) (self_permissions p)\<rparr>)"
  by (simp add: merge_permissions_def merge_overrides_def merge_dump_permissions
      validate_dump_permissions)

subsection \<open>Role defaults\<close>

lemma role_defaults_sections [perm_simps]:
  "sections (role_default_permissions r) = all_sections (r \<in> {Sudo, Full_access})"
  by (cases r) (simp_all add: role_default_permissions_def)

lemma role_defaults_manage_sudo [perm_simps]:
  "can_manage_sudo (admin_management (role_default_permissions r)) = (r = Full_access)"
  by (cases r) (simp_all add: role_default_permissions_def)

lemma role_defaults_can_edit [perm_simps]:
  "can_edit (admin_management (role_default_permissions r)) = (r \<in> {Sudo, Full_access})"
  by (cases r) (simp_all add: role_default_permissions_def)

lemma role_defaults_set_flow [perm_simps]:
  "set_flow (perm_users (role_default_permissions r)) = (r \<in> {Sudo, Full_access})"
  by (cases r) (simp_all add: role_default_permissions_def)

lemma role_defaults_users_common [perm_simps]:
  "advanced_actions (perm_users (role_default_permissions r))"
  "max_data_limit_per_user (perm_users (role_default_permissions r)) = None"
  by (cases r; simp add: role_default_permissions_def default_users_def)+

text \<open>The order of privilege, in which standard and reseller are alike: a higher role allows whatever a lower
  one allows.\<close>

fun role_rank :: "admin_role \<Rightarrow> nat" where
  "role_rank Standard = 0"
| "role_rank Reseller = 0"
| "role_rank Sudo = 1"
| "role_rank Full_access = 2"

instantiation admin_role :: preorder
begin

definition less_eq_admin_role :: "admin_role \<Rightarrow> admin_role \<Rightarrow> bool" where
  "less_eq_admin_role r r' \<longleftrightarrow> role_rank r \<le> role_rank r'"

definition less_admin_role :: "admin_role \<Rightarrow> admin_role \<Rightarrow> bool" where
  "less_admin_role r r' \<longleftrightarrow> role_rank r < role_rank r'"

instance
  by standard (auto simp: less_eq_admin_role_def less_admin_role_def)

end

lemmas role_order = less_eq_admin_role_def less_admin_role_def

lemma role_defaults_monotone_users:
  "r \<le> r' \<Longrightarrow> user_allows (perm_users (role_default_permissions r)) p \<Longrightarrow>
   user_allows (perm_users (role_default_permissions r')) p"
  by (cases r; cases r'; cases p; simp add: role_order role_default_permissions_def default_users_def)

lemma role_defaults_monotone_management:
  "r \<le> r' \<Longrightarrow>
   management_allows (admin_management (role_default_permissions r)) m \<Longrightarrow>
   management_allows (admin_management (role_default_permissions r')) m"
  by (cases r; cases r'; cases m; simp add: role_order role_default_permissions_def)

lemma role_defaults_monotone_sections:
  "r \<le> r' \<Longrightarrow> section_allows (sections (role_default_permissions r)) s \<Longrightarrow>
   section_allows (sections (role_default_permissions r')) s"
  by (cases r; cases r'; cases s; simp add: role_order role_default_permissions_def all_sections_def)

end
