(* ===== verification/Database.thy ===== *)
theory Database
  imports Permissions
begin

text \<open>
  The database: the tables of \<open>app/db/models.py\<close> as lists of rows, and the interface every
  repository function relies on, \<open>row_table\<close>: fetch a row by its primary key, write a changed
  row back at commit. SQLAlchemy sessions are created with \<open>autoflush=False\<close>
  (\<open>app/db/base.py\<close>), so a query sees what was committed or flushed and not the pending
  attributes of the session's objects. A function therefore reads the tables as they were at
  its last commit, changes row objects of its own, and returns the tables with these rows
  written back; a function that raises before its commit returns no tables, and the pending
  changes are lost with the session.
\<close>

section \<open>Rows\<close>

record admin =
  aid :: int
  admin_username :: string
  hashed_password :: string
  admin_role :: admin_role
  admin_permissions_json :: "json_dict option"
  password_reset_at :: "instant option"
  admin_telegram_id :: "int option"
  subscription_domain :: "string option"
  subscription_settings :: json_dict
  users_usage :: int
  lifetime_usage :: int
  admin_data_limit :: "int option"
  users_limit :: "int option"
  admin_status :: admin_status
  disabled_reason :: "string option"
  admin_usage_logs :: "int list"

datatype host_security = Inbound_default | Security_none | Security_tls

record proxy_host =
  host_id :: int
  host_remark :: string
  host_address :: string
  host_port :: "int option"
  host_sort :: int
  host_path :: "string option"
  host_sni :: "string option"
  host_host :: "string option"
  host_security :: host_security
  host_alpn :: string
  host_fingerprint :: string
  host_inbound_tag :: string
  host_allowinsecure :: "bool option"
  host_is_disabled :: "bool option"
  host_mux_enable :: "bool option"
  host_fragment_setting :: "string option"
  host_noise_setting :: "string option"
  host_random_user_agent :: "bool option"
  host_use_sni_as_host :: "bool option"

record host_link =
  link_host_id :: int
  link_sort :: int

record service =
  sid :: int
  service_name :: string
  service_description :: "string option"
  service_created_at :: instant
  host_links :: "host_link list"
  service_used_traffic :: int
  service_lifetime_used_traffic :: int
  service_users_usage :: int

record admin_service_link =
  link_admin_id :: int
  link_service_id :: int
  link_used_traffic :: int
  link_lifetime_used_traffic :: int

record api_key =
  key_id :: int
  key_admin_id :: int
  key_hash :: string
  key_expires_at :: "instant option"
  key_last_used_at :: "instant option"

record db =
  users :: "user list"
  admins :: "admin list"
  services :: "service list"
  admin_service_links :: "admin_service_link list"
  api_keys :: "api_key list"
  inbound_tags :: "string list"
  hosts :: "proxy_host list"

definition new_admin :: "int \<Rightarrow> string \<Rightarrow> string \<Rightarrow> admin" where
  "new_admin i name hash = \<lparr>aid = i, admin_username = name, hashed_password = hash,
     admin_role = Standard, admin_permissions_json = Some [], password_reset_at = None,
     admin_telegram_id = None, subscription_domain = None, subscription_settings = [],
     users_usage = 0, lifetime_usage = 0, admin_data_limit = None, users_limit = None,
     admin_status = Admin_active, disabled_reason = None, admin_usage_logs = []\<rparr>"

section \<open>Fetching and writing back\<close>

definition fetch_by :: "('r \<Rightarrow> int) \<Rightarrow> int \<Rightarrow> 'r list \<Rightarrow> 'r option" where
  "fetch_by key k rows = List.find (\<lambda>r. key r = k) rows"

definition store_by :: "('r \<Rightarrow> int) \<Rightarrow> 'r \<Rightarrow> 'r list \<Rightarrow> 'r list" where
  "store_by key r rows = map (\<lambda>q. if key q = key r then r else q) rows"

abbreviation fetch_user :: "int \<Rightarrow> user list \<Rightarrow> user option" where
  "fetch_user \<equiv> fetch_by uid"

abbreviation store_user :: "user \<Rightarrow> user list \<Rightarrow> user list" where
  "store_user \<equiv> store_by uid"

abbreviation fetch_admin :: "int \<Rightarrow> admin list \<Rightarrow> admin option" where
  "fetch_admin \<equiv> fetch_by aid"

abbreviation store_admin :: "admin \<Rightarrow> admin list \<Rightarrow> admin list" where
  "store_admin \<equiv> store_by aid"

abbreviation fetch_service :: "int \<Rightarrow> service list \<Rightarrow> service option" where
  "fetch_service \<equiv> fetch_by sid"

abbreviation store_service :: "service \<Rightarrow> service list \<Rightarrow> service list" where
  "store_service \<equiv> store_by sid"

abbreviation fetch_host :: "int \<Rightarrow> proxy_host list \<Rightarrow> proxy_host option" where
  "fetch_host \<equiv> fetch_by host_id"

abbreviation store_host :: "proxy_host \<Rightarrow> proxy_host list \<Rightarrow> proxy_host list" where
  "store_host \<equiv> store_by host_id"

text \<open>The key SQLite hands out to a new row: one more than the largest.\<close>

definition next_key :: "('r \<Rightarrow> int) \<Rightarrow> 'r list \<Rightarrow> int" where
  "next_key key rows = foldr max (map key rows) 0 + 1"

definition save_user :: "user \<Rightarrow> db \<Rightarrow> db" where
  "save_user u d = d\<lparr>users := store_user u (users d)\<rparr>"

definition save_admin :: "admin \<Rightarrow> db \<Rightarrow> db" where
  "save_admin a d = d\<lparr>admins := store_admin a (admins d)\<rparr>"

text \<open>The relationship \<open>User.admin\<close>.\<close>

definition admin_of :: "db \<Rightarrow> user \<Rightarrow> admin option" where
  "admin_of d u = (case admin_id u of None \<Rightarrow> None | Some a \<Rightarrow> fetch_admin a (admins d))"

section \<open>The interface of a table\<close>

locale row_table =
  fixes key :: "'r \<Rightarrow> int"
    and fetch :: "int \<Rightarrow> 'r list \<Rightarrow> 'r option"
    and store :: "'r \<Rightarrow> 'r list \<Rightarrow> 'r list"
  assumes fetch_key: "fetch k rows = Some r \<Longrightarrow> key r = k \<and> r \<in> set rows"
    and fetch_None: "fetch k rows = None \<longleftrightarrow> k \<notin> key ` set rows"
    and fetch_store: "fetch k (store r rows) =
      (if k = key r \<and> fetch k rows \<noteq> None then Some r else fetch k rows)"
    and store_keys: "map key (store r rows) = map key rows"
    and count_store: "distinct (map key rows) \<Longrightarrow> fetch (key r) rows = Some q \<Longrightarrow>
      count_where p (store r rows) =
        count_where p rows - (if p q then 1 else 0) + (if p r then 1 else 0)"
begin

lemma fetch_store_same: "fetch (key r) rows \<noteq> None \<Longrightarrow> fetch (key r) (store r rows) = Some r"
  by (simp add: fetch_store)

lemma fetch_store_other: "k \<noteq> key r \<Longrightarrow> fetch k (store r rows) = fetch k rows"
  by (simp add: fetch_store)

lemma fetch_member:
  assumes "distinct (map key rows)" and "r \<in> set rows"
  shows "fetch (key r) rows = Some r"
proof -
  obtain q where q: "fetch (key r) rows = Some q"
    using assms(2) fetch_None [of "key r" rows] by (cases "fetch (key r) rows") auto
  then have "key q = key r" "q \<in> set rows" using fetch_key by blast+
  with assms have "q = r" by (auto simp: distinct_map dest: inj_onD)
  with q show ?thesis by simp
qed

lemma store_distinct: "distinct (map key rows) \<Longrightarrow> distinct (map key (store r rows))"
  by (simp add: store_keys)

text \<open>Writing back any number of objects keeps the keys and the rows of other keys.\<close>

lemma fold_store_keys: "map key (fold store objs rows) = map key rows"
  by (induction objs arbitrary: rows) (simp_all add: store_keys)

lemma fetch_fold_store_other:
  "k \<notin> key ` set objs \<Longrightarrow> fetch k (fold store objs rows) = fetch k rows"
  by (induction objs arbitrary: rows) (simp_all add: fetch_store_other)

lemma fetch_fold_store:
  assumes "distinct (map key objs)" and "r \<in> set objs" and "fetch (key r) rows \<noteq> None"
  shows "fetch (key r) (fold store objs rows) = Some r"
  using assms
proof (induction objs arbitrary: rows)
  case Nil
  then show ?case by simp
next
  case (Cons q objs)
  show ?case
  proof (cases "r = q")
    case True
    with Cons.prems have "key r \<notin> key ` set objs" by auto
    with True Cons.prems(3) show ?thesis
      by (simp add: fetch_fold_store_other fetch_store_same)
  next
    case False
    with Cons.prems have r: "r \<in> set objs" by simp
    then have "key r \<in> key ` set objs" by (rule imageI)
    moreover have "key q \<notin> key ` set objs" using Cons.prems(1) by simp
    ultimately have "key r \<noteq> key q" by metis
    with r Cons.prems show ?thesis by (simp add: Cons.IH fetch_store_other)
  qed
qed

text \<open>
  Writing back a list of changed objects: \<open>ps\<close> pairs the row that was read with the object.
\<close>

lemma count_fold_store:
  assumes "distinct (map key rows)" and "distinct (map (key \<circ> fst) ps)"
    and "\<And>q r. (q, r) \<in> set ps \<Longrightarrow> key r = key q \<and> fetch (key q) rows = Some q"
  shows "count_where p (fold store (map snd ps) rows) =
    count_where p rows - count_where p (map fst ps) + count_where p (map snd ps)"
  using assms
proof (induction ps arbitrary: rows)
  case Nil
  then show ?case by (simp add: count_where_def)
next
  case (Cons x ps)
  obtain q r where x: "x = (q, r)" by (cases x)
  have qr: "key r = key q" "fetch (key q) rows = Some q" using Cons.prems(3) x by auto
  have c: "count_where p (store r rows) =
      count_where p rows - (if p q then 1 else 0) + (if p r then 1 else 0)"
    using count_store [OF Cons.prems(1), of r q] qr by simp
  have "count_where p (fold store (map snd ps) (store r rows)) =
      count_where p (store r rows) - count_where p (map fst ps) + count_where p (map snd ps)"
  proof (rule Cons.IH)
    show "distinct (map key (store r rows))" using Cons.prems(1) by (rule store_distinct)
    show "distinct (map (key \<circ> fst) ps)" using Cons.prems(2) by (simp add: comp_def)
    fix q' r' assume qr': "(q', r') \<in> set ps"
    then have "key q' \<in> (key \<circ> fst) ` set ps" by force
    moreover have "key q \<notin> (key \<circ> fst) ` set ps" using Cons.prems(2) x by simp
    ultimately have "key q' \<noteq> key q" by metis
    then show "key r' = key q' \<and> fetch (key q') (store r rows) = Some q'"
      using Cons.prems(3) [of q' r'] qr' qr by (simp add: fetch_store_other)
  qed
  then show ?case by (simp add: x c row_simps)
qed

text \<open>
  A predicate that the stored object satisfies only if the old row did is never counted more
  often after the write.
\<close>

lemma count_store_le:
  "distinct (map key rows) \<Longrightarrow> fetch (key r) rows = Some q \<Longrightarrow> (p r \<Longrightarrow> p q) \<Longrightarrow>
   count_where p (store r rows) \<le> count_where p rows"
  by (simp add: count_store)

end

lemma fetch_by_key: "fetch_by key k rows = Some r \<Longrightarrow> key r = k \<and> r \<in> set rows"
  by (auto simp: fetch_by_def find_Some_iff)

lemma fetch_by_None: "fetch_by key k rows = None \<longleftrightarrow> k \<notin> key ` set rows"
  by (auto simp: fetch_by_def find_None_iff)

lemma fetch_by_Nil [simp]: "fetch_by key k [] = None"
  by (simp add: fetch_by_def)

lemma fetch_by_Cons [simp]:
  "fetch_by key k (r # rows) = (if key r = k then Some r else fetch_by key k rows)"
  by (simp add: fetch_by_def)

lemma store_by_simps [simp]: "store_by key r [] = []"
  "store_by key r (q # rows) = (if key q = key r then r else q) # store_by key r rows"
  by (simp_all add: store_by_def)

lemma fetch_append: "fetch_by key k (xs @ ys) = (case fetch_by key k xs of None \<Rightarrow> fetch_by key k ys | Some r \<Rightarrow> Some r)"
  by (induction xs) auto

lemma fetch_by_store_by: "fetch_by key k (store_by key r rows) =
    (if k = key r \<and> fetch_by key k rows \<noteq> None then Some r else fetch_by key k rows)"
  by (induction rows) auto

lemma map_key_store_by: "map key (store_by key r rows) = map key rows"
  by (induction rows) auto

lemma store_by_fresh: "key r \<notin> key ` set rows \<Longrightarrow> store_by key r rows = rows"
  by (induction rows) auto

lemma count_where_store_by:
  "distinct (map key rows) \<Longrightarrow> fetch_by key (key r) rows = Some q \<Longrightarrow>
   count_where p (store_by key r rows) =
     count_where p rows - (if p q then 1 else 0) + (if p r then 1 else 0)"
proof (induction rows)
  case Nil
  then show ?case by simp
next
  case (Cons x rows)
  then show ?case
    by (cases "key x = key r") (auto simp: row_simps store_by_fresh)
qed

lemmas table_laws = fetch_by_key fetch_by_None fetch_by_store_by map_key_store_by
  count_where_store_by

interpretation user_table: row_table uid "fetch_by uid" "store_by uid"
  by unfold_locales (auto simp: table_laws)

interpretation admin_table: row_table aid "fetch_by aid" "store_by aid"
  by unfold_locales (auto simp: table_laws)

interpretation service_table: row_table sid "fetch_by sid" "store_by sid"
  by unfold_locales (auto simp: table_laws)

interpretation host_table: row_table host_id "fetch_by host_id" "store_by host_id"
  by unfold_locales (auto simp: table_laws)

lemma next_key_above: "r \<in> set rows \<Longrightarrow> key r < next_key key rows"
  by (induction rows) (auto simp: next_key_def)

lemma next_key_fresh: "next_key key rows \<notin> key ` set rows"
  by (auto dest: next_key_above [of _ _ key])

section \<open>Well-formed databases\<close>

definition wf_db :: "db \<Rightarrow> bool" where
  "wf_db d \<longleftrightarrow> distinct (map uid (users d)) \<and> distinct (map aid (admins d))"

lemma wf_db_save_user [simp]: "wf_db (save_user u d) = wf_db d"
  by (simp add: wf_db_def save_user_def map_key_store_by)

lemma wf_db_save_admin [simp]: "wf_db (save_admin a d) = wf_db d"
  by (simp add: wf_db_def save_admin_def map_key_store_by)

lemma save_user_simps [simp]:
  "users (save_user u d) = store_user u (users d)" "admins (save_user u d) = admins d"
  "services (save_user u d) = services d"
  "admin_service_links (save_user u d) = admin_service_links d"
  "inbound_tags (save_user u d) = inbound_tags d" "hosts (save_user u d) = hosts d"
  by (simp_all add: save_user_def)

lemma save_admin_simps [simp]:
  "admins (save_admin a d) = store_admin a (admins d)" "users (save_admin a d) = users d"
  by (simp_all add: save_admin_def)

end
