(* ===== verification/Lifecycle.thy ===== *)
theory Lifecycle
  imports Database
begin

text \<open>
  The life cycle of a user, from \<open>app/db/crud/user.py\<close>: the quota on an admin's active users,
  the operations that change one user's status, expiry or plan, and the bulk operations. The
  clock is the argument \<open>now\<close>. An operation that may raise returns \<open>Inl\<close> and no database
  (nothing was committed).
\<close>

named_theorems cycle_simps "what the life-cycle operations do to the fields of a row"

section \<open>The quota on active users\<close>

definition is_user_limit_enforced :: "admin option \<Rightarrow> bool" where
  "is_user_limit_enforced a = (case a of None \<Rightarrow> False
     | Some adm \<Rightarrow> (case users_limit adm of None \<Rightarrow> False | Some n \<Rightarrow> n > 0))"

definition active_under :: "int \<Rightarrow> int list \<Rightarrow> user \<Rightarrow> bool" where
  "active_under a excl u = (admin_id u = Some a \<and> status u = Active \<and> uid u \<notin> set excl)"

definition get_active_users_count :: "db \<Rightarrow> admin \<Rightarrow> int list \<Rightarrow> int" where
  "get_active_users_count d a excl = count_where (active_under (aid a) excl) (users d)"

definition ensure_active_user_capacity ::
    "db \<Rightarrow> admin option \<Rightarrow> int \<Rightarrow> int list \<Rightarrow> unit result" where
  "ensure_active_user_capacity d a required_slots excl =
     (if \<not> is_user_limit_enforced a \<or> required_slots \<le> 0 then Inr ()
      else case a of None \<Rightarrow> Inr ()
      | Some adm \<Rightarrow>
        (let active_count = get_active_users_count d adm excl;
             remaining_slots = or_zero (users_limit adm) - active_count
         in if remaining_slots < required_slots
            then Inl (Users_limit_reached (or_zero (users_limit adm)) active_count False)
            else Inr ()))"

section \<open>Removing users\<close>

text \<open>
  \<open>remove_user\<close> and \<open>remove_users\<close>. A commit raises \<open>DataError\<close> where the status enum of the
  database lacks \<open>deleted\<close>: \<open>fails1\<close> and \<open>fails2\<close> say whether the first and the second commit
  do, \<open>ensured\<close> is the answer of \<open>_ensure_user_deleted_status\<close>.
\<close>

definition delete_rows :: "user list \<Rightarrow> db \<Rightarrow> db" where
  "delete_rows us d = d\<lparr>users := filter (\<lambda>u. uid u \<notin> uid ` set us) (users d)\<rparr>"

definition remove_user :: "bool \<Rightarrow> bool \<Rightarrow> bool \<Rightarrow> db \<Rightarrow> user \<Rightarrow> db result" where
  "remove_user fails1 ensured fails2 d u =
     (if status u = Deleted then Inr d
      else let deleted = u\<lparr>status := Deleted\<rparr> in
      if \<not> fails1 then Inr (save_user deleted d)
      else if \<not> ensured then Inr (delete_rows [u] d)
      else if \<not> fails2 then Inr (save_user deleted d)
      else Inl Data_error)"

definition remove_users :: "bool \<Rightarrow> bool \<Rightarrow> bool \<Rightarrow> db \<Rightarrow> user list \<Rightarrow> db result" where
  "remove_users fails1 ensured fails2 d us =
     (let updated = list_ex (\<lambda>u. status u \<noteq> Deleted) us;
          marked = d\<lparr>users := fold store_user (map (\<lambda>u. u\<lparr>status := Deleted\<rparr>) us) (users d)\<rparr>
      in if \<not> updated then Inr d
         else if \<not> fails1 then Inr marked
         else if \<not> ensured then Inr (delete_rows us d)
         else if \<not> fails2 then Inr marked
         else Inl Data_error)"

definition hard_delete_user :: "db \<Rightarrow> user \<Rightarrow> db" where
  "hard_delete_user d u = delete_rows [u] d"

section \<open>Single-user transitions\<close>

definition update_user_status :: "instant \<Rightarrow> db \<Rightarrow> user \<Rightarrow> user_status \<Rightarrow> db" where
  "update_user_status now d u st =
     save_user (u\<lparr>status := st, last_status_change := Some now\<rparr>) d"

definition set_owner :: "db \<Rightarrow> user \<Rightarrow> admin \<Rightarrow> db" where
  "set_owner d u a = save_user (u\<lparr>admin_id := Some (aid a)\<rparr>) d"

text \<open>\<open>start_user_expire\<close> adds the hold duration to the clock; without one it raises.\<close>

definition start_user_expire :: "instant \<Rightarrow> db \<Rightarrow> user \<Rightarrow> db result" where
  "start_user_expire now d u = (case on_hold_expire_duration u of
     None \<Rightarrow> Inl Type_error
   | Some dur \<Rightarrow> Inr (save_user (u\<lparr>expire := Some (int_timestamp now + dur),
       on_hold_expire_duration := None, on_hold_timeout := None\<rparr>) d))"

fun renumber :: "int \<Rightarrow> next_plan list \<Rightarrow> next_plan list" where
  "renumber i [] = []"
| "renumber i (p # ps) = p\<lparr>position := i\<rparr> # renumber (i + 1) ps"

text \<open>
  \<open>reset_user_by_next\<close> on the row object, with the object it leaves behind: \<open>Inr False\<close> where
  it returns early and has changed nothing, \<open>Inl\<close> where the quota check raises, after the log
  was added and the node usages cleared.
\<close>

definition plan_data_limit :: "next_plan \<Rightarrow> user \<Rightarrow> int" where
  "plan_data_limit plan u =
     (let current_limit = or_zero (data_limit u) in
      if increase_data_limit plan then current_limit + np_data_limit plan
      else np_data_limit plan +
        (if add_remaining_traffic plan then 0 else max (current_limit - used_traffic u) 0))"

definition reset_user_by_next_obj :: "instant \<Rightarrow> db \<Rightarrow> user \<Rightarrow> bool result \<times> user" where
  "reset_user_by_next_obj now d u = (case next_plan_of u of
     None \<Rightarrow> (Inr False, u)
   | Some plan \<Rightarrow>
     (if start_on_first_connect plan \<and> online_at u = None \<and> used_traffic u = 0 then (Inr False, u)
      else
        let logged = u\<lparr>usage_logs := usage_logs u @
              [\<lparr>used_traffic_at_reset = used_traffic u, reset_at = now\<rparr>], node_usages := []\<rparr>
        in case (if status u \<noteq> Active
                 then ensure_active_user_capacity d (admin_of d u) 1 [uid u] else Inr ()) of
             Inl e \<Rightarrow> (Inl e, logged)
           | Inr _ \<Rightarrow> (Inr True, logged\<lparr>
               status := Active,
               data_limit := Some (plan_data_limit plan u),
               expire := (if truthy (np_expire plan) then np_expire plan else expire u),
               used_traffic := 0,
               next_plans := renumber 0 (tl (next_plans u))\<rparr>)))"

definition reset_user_by_next :: "instant \<Rightarrow> db \<Rightarrow> user \<Rightarrow> (bool \<times> db) result" where
  "reset_user_by_next now d u = (case reset_user_by_next_obj now d u of
     (Inl e, _) \<Rightarrow> Inl e
   | (Inr applied, u') \<Rightarrow> Inr (applied, if applied then save_user u' d else d))"

definition sync_user_status_from_expire :: "instant \<Rightarrow> db \<Rightarrow> user \<Rightarrow> user result" where
  "sync_user_status_from_expire now d u =
     (if status u \<notin> {Active, Expired} then Inr u
      else let target = (case expire u of None \<Rightarrow> Active
             | Some e \<Rightarrow> if e = 0 \<or> \<not> secs_le_now e now then Active else Expired) in
      if target = status u then Inr u
      else let u' = u\<lparr>status := target, last_status_change := Some now\<rparr> in
      if target = Active then
        then_res (ensure_active_user_capacity d (admin_of d u) 1 [uid u]) (\<lambda>_. Inr u')
      else Inr u')"

definition sync_user_status_from_usage :: "instant \<Rightarrow> db \<Rightarrow> user \<Rightarrow> user result" where
  "sync_user_status_from_usage now d u =
     (if status u \<in> {Expired, Disabled} then Inr u
      else let limit = or_zero (data_limit u) in
      if limit > 0 \<and> used_traffic u \<ge> limit then
        (if status u \<noteq> Limited then Inr (u\<lparr>status := Limited, last_status_change := Some now\<rparr>)
         else Inr u)
      else if status u = On_hold then Inr u
      else if status u \<noteq> Active then
        then_res (ensure_active_user_capacity d (admin_of d u) 1 [uid u])
          (\<lambda>_. Inr (u\<lparr>status := Active, last_status_change := Some now\<rparr>))
      else Inr u)"

section \<open>Bulk operations\<close>

text \<open>\<open>_build_user_bulk_query\<close>: live users, optionally of one admin and of one service.\<close>

definition bulk_query :: "admin option \<Rightarrow> int option \<Rightarrow> bool \<Rightarrow> user \<Rightarrow> bool" where
  "bulk_query a svc without u =
     (status u \<noteq> Deleted \<and>
      (case a of None \<Rightarrow> True | Some adm \<Rightarrow> admin_id u = Some (aid adm)) \<and>
      (if without then service_id u = None
       else case svc of None \<Rightarrow> True | Some s \<Rightarrow> service_id u = Some s))"

text \<open>\<open>_resolve_status_scope\<close> on enum members (\<open>Inl\<close>) and strings (\<open>Inr\<close>).\<close>

definition resolve_status_scope ::
    "(user_status + string) list option \<Rightarrow> user_status list \<Rightarrow> user_status list" where
  "resolve_status_scope scope dflt = (case scope of None \<Rightarrow> dflt
   | Some ss \<Rightarrow> if ss = [] then dflt
       else filter (\<lambda>st. st \<noteq> Deleted) (List.map_filter (\<lambda>x. case x of Inl st \<Rightarrow> Some st
              | Inr s \<Rightarrow> user_status_of s) ss))"

definition shifted_expire_status :: "instant \<Rightarrow> int \<Rightarrow> user \<Rightarrow> user_status" where
  "shifted_expire_status now new_expire u =
     (if status u = Disabled then Disabled
      else if status u = Limited then Limited
      else if secs_le_now new_expire now then Expired
      else if status u = Expired then Active
      else status u)"

definition adjust_all_users_expire :: "instant \<Rightarrow> int \<Rightarrow> admin option \<Rightarrow> int option \<Rightarrow> bool \<Rightarrow>
    (user_status + string) list option \<Rightarrow> db \<Rightarrow> int \<times> db" where
  "adjust_all_users_expire now delta a svc without scope0 d =
     (if delta = 0 then (0, d)
      else let scope = resolve_status_scope scope0 [Active];
               expire_scope = filter (\<lambda>st. st \<noteq> On_hold) scope;
               sel1 = (\<lambda>u. bulk_query a svc without u \<and> status u \<in> set expire_scope
                          \<and> expire u \<noteq> None);
               upd1 = (\<lambda>u. let new_expire = or_zero (expire u) + delta;
                               st = shifted_expire_status now new_expire u
                           in u\<lparr>status := st, expire := Some new_expire,
                                last_status_change :=
                                  (if st \<noteq> status u then Some now else last_status_change u)\<rparr>);
               (n1, rows1) = (if expire_scope = [] then (0, users d)
                  else (count_where sel1 (users d), update_where sel1 upd1 (users d)));
               sel2 = (\<lambda>u. bulk_query a svc without u \<and> status u = On_hold
                          \<and> on_hold_expire_duration u \<noteq> None);
               upd2 = (\<lambda>u. let dur = or_zero (on_hold_expire_duration u) + delta
                           in u\<lparr>on_hold_expire_duration := Some (if dur < 0 then 0 else dur)\<rparr>);
               (n2, rows2) = (if On_hold \<notin> set scope then (0, rows1)
                  else (count_where sel2 rows1, update_where sel2 upd2 rows1))
           in (n1 + n2, d\<lparr>users := rows2\<rparr>))"

definition adjust_all_users_usage :: "instant \<Rightarrow> int \<Rightarrow> admin option \<Rightarrow> int option \<Rightarrow> db \<Rightarrow>
    (int \<times> db) result" where
  "adjust_all_users_usage now delta a svc d =
     (if delta = 0 then Inr (0, d)
      else let objs = filter (bulk_query a svc False) (users d) in
      then_res (fold_res (\<lambda>u acc. then_res
            (sync_user_status_from_usage now d (u\<lparr>used_traffic := max (used_traffic u + delta) 0\<rparr>))
            (\<lambda>u'. Inr (acc @ [u']))) objs [])
        (\<lambda>objs'. Inr (int (length objs'), d\<lparr>users := fold store_user objs' (users d)\<rparr>)))"

definition move_users_to_service :: "service \<Rightarrow> admin option \<Rightarrow> int option \<Rightarrow> bool \<Rightarrow> db \<Rightarrow> int \<times> db" where
  "move_users_to_service target a svc without d =
     (let sel = (\<lambda>u. bulk_query a svc without u \<and>
                     (service_id u = None \<or> service_id u \<noteq> Some (sid target)))
      in (count_where sel (users d),
          d\<lparr>users := update_where sel (\<lambda>u. u\<lparr>service_id := Some (sid target)\<rparr>) (users d)\<rparr>))"

definition clear_users_service :: "admin option \<Rightarrow> int option \<Rightarrow> bool \<Rightarrow> db \<Rightarrow> int \<times> db" where
  "clear_users_service a svc without d =
     (let sel = (\<lambda>u. bulk_query a svc without u \<and> (without \<or> service_id u \<noteq> None))
      in (count_where sel (users d),
          d\<lparr>users := update_where sel (\<lambda>u. u\<lparr>service_id := None\<rparr>) (users d)\<rparr>))"

definition adjusted_limit :: "int \<Rightarrow> user \<Rightarrow> int" where
  "adjusted_limit delta u =
     (if or_zero (data_limit u) + delta < 0 then 0 else or_zero (data_limit u) + delta)"

definition adjusted_limit_status :: "int \<Rightarrow> user \<Rightarrow> user_status" where
  "adjusted_limit_status delta u =
     (if status u = Disabled then Disabled
      else if status u = On_hold then On_hold
      else if status u = Expired then Expired
      else if adjusted_limit delta u > 0 \<and> used_traffic u \<ge> adjusted_limit delta u then Limited
      else Active)"

definition adjust_all_users_limit :: "instant \<Rightarrow> int \<Rightarrow> admin option \<Rightarrow> int option \<Rightarrow> bool \<Rightarrow>
    (user_status + string) list option \<Rightarrow> db \<Rightarrow> int \<times> db" where
  "adjust_all_users_limit now delta a svc without scope0 d =
     (if delta = 0 then (0, d)
      else let scope = resolve_status_scope scope0 [Active];
               sel = (\<lambda>u. bulk_query a svc without u \<and> data_limit u \<noteq> None \<and>
                        or_zero (data_limit u) > 0 \<and>
                        (if scope \<noteq> [] then status u \<in> set scope else status u = Active));
               upd = (\<lambda>u. let st = adjusted_limit_status delta u
                          in u\<lparr>status := st, data_limit := Some (adjusted_limit delta u),
                               last_status_change :=
                                 (if st \<noteq> status u then Some now else last_status_change u)\<rparr>)
           in (count_where sel (users d), d\<lparr>users := update_where sel upd (users d)\<rparr>))"

definition days :: "int \<Rightarrow> int" where
  "days n = n * 86400 * usecs"

definition delete_users_by_status_age :: "instant \<Rightarrow> user_status list \<Rightarrow> int \<Rightarrow> admin option \<Rightarrow>
    int option \<Rightarrow> bool \<Rightarrow> db \<Rightarrow> int \<times> db" where
  "delete_users_by_status_age now statuses n a svc without d =
     (let cutoff = now - days n;
          sel = (\<lambda>u. bulk_query a svc without u \<and> status u \<in> set statuses \<and>
                   (case last_status_change u of None \<Rightarrow> False | Some t \<Rightarrow> t \<le> cutoff))
      in (count_where sel (users d),
          d\<lparr>users := update_where sel (\<lambda>u. u\<lparr>status := Deleted\<rparr>) (users d)\<rparr>))"

definition disable_all_active_users :: "instant \<Rightarrow> admin option \<Rightarrow> db \<Rightarrow> db" where
  "disable_all_active_users now a d =
     d\<lparr>users := update_where
        (\<lambda>u. status u \<in> {Active, On_hold} \<and>
             (case a of None \<Rightarrow> True | Some adm \<Rightarrow> admin_id u = Some (aid adm)))
        (\<lambda>u. u\<lparr>status := Disabled, last_status_change := Some now\<rparr>) (users d)\<rparr>"

text \<open>
  The loop of \<open>activate_all_disabled_users\<close>: \<open>remaining\<close> is \<open>remaining_slots\<close>, \<open>None\<close> for no
  quota. The result is the row objects as the loop leaves them.
\<close>

definition reactivation_target :: "instant \<Rightarrow> user \<Rightarrow> user_status" where
  "reactivation_target now u =
     (if truthy (expire u) \<and> secs_le_now (or_zero (expire u)) now then Expired
      else if or_zero (data_limit u) > 0 \<and> used_traffic u \<ge> or_zero (data_limit u) then Limited
      else if expire u = None \<and> on_hold_expire_duration u \<noteq> None \<and> online_at u = None then On_hold
      else Active)"

definition retarget :: "instant \<Rightarrow> user_status \<Rightarrow> user \<Rightarrow> user" where
  "retarget now st u =
     (if status u \<noteq> st then u\<lparr>status := st, last_status_change := Some now\<rparr> else u)"

fun activate_loop :: "instant \<Rightarrow> int option \<Rightarrow> user list \<Rightarrow> user list" where
  "activate_loop now remaining [] = []"
| "activate_loop now remaining (u # us) =
     (let target = reactivation_target now u in
      if target \<noteq> Active then retarget now target u # activate_loop now remaining us
      else case remaining of
          None \<Rightarrow> retarget now Active u # activate_loop now None us
        | Some n \<Rightarrow> if n \<le> 0 then u # activate_loop now (Some n) us
                    else retarget now Active u # activate_loop now (Some (n - 1)) us)"

definition activate_all_disabled_users :: "instant \<Rightarrow> admin option \<Rightarrow> db \<Rightarrow> db" where
  "activate_all_disabled_users now a d =
     (let objs = sort_key created_at (filter (\<lambda>u. status u = Disabled \<and>
             (case a of None \<Rightarrow> True | Some adm \<Rightarrow> admin_id u = Some (aid adm))) (users d));
          remaining = (case a of Some adm \<Rightarrow>
              if is_user_limit_enforced a
              then Some (max (or_zero (users_limit adm) - get_active_users_count d adm []) 0)
              else None | None \<Rightarrow> None)
      in d\<lparr>users := fold store_user (activate_loop now remaining objs) (users d)\<rparr>)"

text \<open>\<open>bulk_update_user_status\<close>; without an admin every owner of an affected user is checked.\<close>

definition bulk_update_user_status :: "instant \<Rightarrow> user_status \<Rightarrow> admin option \<Rightarrow> int option \<Rightarrow>
    bool \<Rightarrow> db \<Rightarrow> (int \<times> db) result" where
  "bulk_update_user_status now target a svc without d =
     (let sel = (\<lambda>u. bulk_query a svc without u \<and> status u \<noteq> target);
          fresh = (\<lambda>u. sel u \<and> status u \<noteq> Active);
          check = (if target \<noteq> Active then Inr ()
            else case a of
              Some adm \<Rightarrow> ensure_active_user_capacity d a (count_where fresh (users d)) []
            | None \<Rightarrow> fold_res (\<lambda>owner _. ensure_active_user_capacity d
                  (case owner of None \<Rightarrow> None | Some i \<Rightarrow> fetch_admin i (admins d))
                  (count_where (\<lambda>u. fresh u \<and> admin_id u = owner) (users d)) [])
                (remdups (map admin_id (filter fresh (users d)))) ())
      in then_res check (\<lambda>_. Inr (count_where sel (users d),
           d\<lparr>users := update_where sel
               (\<lambda>u. u\<lparr>status := target, last_status_change := Some now\<rparr>) (users d)\<rparr>)))"

text \<open>
  \<open>autodelete_expired_users\<close> compares \<open>last_status_change + timedelta(days=...)\<close>, which the
  query loads naive, with \<open>datetime.now(timezone.utc)\<close>; \<open>dflt\<close> is \<open>USERS_AUTODELETE_DAYS\<close>.
\<close>

definition autodelete_due :: "instant \<Rightarrow> int \<Rightarrow> user \<Rightarrow> bool result" where
  "autodelete_due now dflt u = (case last_status_change u of
     None \<Rightarrow> Inl Type_error
   | Some t \<Rightarrow> dt_le (Naive (t + days (case auto_delete_in_days u of None \<Rightarrow> dflt | Some n \<Rightarrow> n)))
        (Aware now))"

definition autodelete_candidate :: "int \<Rightarrow> bool \<Rightarrow> user \<Rightarrow> bool" where
  "autodelete_candidate dflt include_limited u =
     ((case auto_delete_in_days u of None \<Rightarrow> dflt | Some n \<Rightarrow> n) \<ge> 0 \<and>
      (status u = Expired \<or> (include_limited \<and> status u = Limited)))"

definition autodelete_expired_users :: "bool \<Rightarrow> bool \<Rightarrow> bool \<Rightarrow> instant \<Rightarrow> int \<Rightarrow> bool \<Rightarrow> db \<Rightarrow>
    (user list \<times> db) result" where
  "autodelete_expired_users fails1 ensured fails2 now dflt include_limited d =
     then_res (fold_res (\<lambda>u acc. then_res (autodelete_due now dflt u)
           (\<lambda>due. Inr (if due then acc @ [u] else acc)))
         (filter (autodelete_candidate dflt include_limited) (users d)) [])
       (\<lambda>expired_users. if expired_users = [] then Inr ([], d)
          else then_res (remove_users fails1 ensured fails2 d expired_users)
                 (\<lambda>d'. Inr (expired_users, d')))"

end
