(* ===== verification/Credentials.thy ===== *)
theory Credentials
  imports Entities "HOL-Library.Word"
begin

unbundle bit_operations_syntax

text \<open>
  The credential logic of \<open>app/utils/credentials.py\<close>, and the settings model of
  \<open>app/models/proxy.py\<close> it works on. A user has one key of 32 hex digits; the UUIDs of VMess
  and VLESS are the key's bytes under a mask of the protocol, the passwords of Trojan and
  Shadowsocks are digests of it. A settings object and its dict are the same association list.
  Parameters: \<open>masks\<close> (the masks stored in the database), \<open>sha256_hex\<close>, the fresh random values,
  and \<open>validate\<close>, pydantic's \<open>model_validate\<close> of a protocol's settings class as a dict.
\<close>

type_synonym byte = "8 word"

section \<open>Hex text\<close>

definition hex_digits :: string where
  "hex_digits = ''0123456789abcdef''"

definition hex_value :: "char \<Rightarrow> nat option" where
  "hex_value c = map_of (zip hex_digits [0..<16]) (lower_char c)"

definition hex_char :: "nat \<Rightarrow> char" where
  "hex_char n = hex_digits ! n"

definition is_hex :: "char \<Rightarrow> bool" where
  "is_hex c = (hex_value c \<noteq> None)"

definition hex_of_byte :: "byte \<Rightarrow> string" where
  "hex_of_byte b = [hex_char (unat b div 16), hex_char (unat b mod 16)]"

definition hex_of_bytes :: "byte list \<Rightarrow> string" where
  "hex_of_bytes bs = concat (map hex_of_byte bs)"

text \<open>\<open>bytes.fromhex\<close> on an even number of hex digits.\<close>

fun bytes_of_hex :: "string \<Rightarrow> byte list option" where
  "bytes_of_hex [] = Some []"
| "bytes_of_hex [c] = None"
| "bytes_of_hex (c # c' # s) = (case (hex_value c, hex_value c', bytes_of_hex s) of
     (Some a, Some b, Some bs) \<Rightarrow> Some (word_of_nat (16 * a + b) # bs)
   | _ \<Rightarrow> None)"

section \<open>UUID text\<close>

function remove_sub :: "string \<Rightarrow> string \<Rightarrow> string" where
  "remove_sub p s = (if s = [] then []
     else if p \<noteq> [] \<and> starts_with p s then remove_sub p (drop (length p) s)
     else hd s # remove_sub p (tl s))"
  by pat_completeness auto
termination
  by (relation "measure (\<lambda>(p, s). length s)") auto

declare remove_sub.simps [simp del]

text \<open>
  \<open>int(s, 16)\<close> on what is left of a UUID's text: surrounding blanks, a plus sign, a \<open>0x\<close> prefix
  and single underscores between digits are accepted.
\<close>

fun underscores_ok :: "string \<Rightarrow> bool" where
  "underscores_ok [] = False"
| "underscores_ok [c] = is_hex c"
| "underscores_ok (c # c' # s) =
     (is_hex c \<and> (if c' = CHR ''_'' then underscores_ok s else underscores_ok (c' # s)))"

definition int16_digits :: "string \<Rightarrow> string option" where
  "int16_digits s0 =
     (let s = strip s0;
          s = (if take 1 s = ''+'' then drop 1 s else s);
          s = (if lower (take 2 s) = ''0x''
               then (if take 1 (drop 2 s) = ''_'' then drop 3 s else drop 2 s) else s)
      in if underscores_ok s then Some (lower (filter (\<lambda>c. c \<noteq> CHR ''_'') s)) else None)"

definition strip_braces :: "string \<Rightarrow> string" where
  "strip_braces s = (let p = (\<lambda>c. c = CHR ''{'' \<or> c = CHR ''}'')
     in rev (dropWhile p (rev (dropWhile p s))))"

text \<open>\<open>uuid.UUID(text)\<close>: the 16 bytes, or \<open>ValueError\<close>.\<close>

definition parse_uuid :: "string \<Rightarrow> byte list option" where
  "parse_uuid text =
     (let h = filter (\<lambda>c. c \<noteq> CHR ''-'')
            (strip_braces (remove_sub ''uuid:'' (remove_sub ''urn:'' text)))
      in if length h \<noteq> 32 then None
         else (case int16_digits h of None \<Rightarrow> None
               | Some ds \<Rightarrow> bytes_of_hex (replicate (32 - length ds) CHR ''0'' @ ds)))"

definition uuid_str :: "byte list \<Rightarrow> string" where
  "uuid_str bs = (let h = hex_of_bytes bs in
     take 8 h @ ''-'' @ take 4 (drop 8 h) @ ''-'' @ take 4 (drop 12 h) @ ''-'' @
     take 4 (drop 16 h) @ ''-'' @ drop 20 h)"

section \<open>Flows\<close>

definition normalize_flow_value :: "string option \<Rightarrow> string option" where
  "normalize_flow_value flow' = (case flow' of None \<Rightarrow> None
   | Some f \<Rightarrow> (let n = lower (strip f) in
       if n = '''' then None
       else if n \<notin> {''xtls-rprx-vision'', ''xtls-rprx-vision-udp443''} then None
       else Some n))"

definition normalize_flow_for_server :: "string option \<Rightarrow> string option" where
  "normalize_flow_for_server flow' = (case normalize_flow_value flow' of None \<Rightarrow> None
   | Some n \<Rightarrow> if ends_with ''-udp443'' n then Some (take (length n - length ''-udp443'') n)
       else Some n)"

section \<open>Keys, UUIDs and passwords\<close>

definition uuid_protocols :: "proxy_type set" where
  "uuid_protocols = {VMess, VLESS}"

definition password_protocols :: "proxy_type set" where
  "password_protocols = {Trojan, Shadowsocks}"

type_synonym masks = "proxy_type \<Rightarrow> byte list option"

definition apply_mask :: "byte list \<Rightarrow> byte list \<Rightarrow> byte list result" where
  "apply_mask value mk = (if length mk < length value then Inl Index_error
     else Inr (map2 (XOR) value mk))"

definition mask_bytes :: "masks \<Rightarrow> proxy_type option \<Rightarrow> byte list \<Rightarrow> byte list result" where
  "mask_bytes masks p bs =
     (case (case p of None \<Rightarrow> None | Some t \<Rightarrow> masks t) of
        None \<Rightarrow> Inr bs
      | Some m \<Rightarrow> if m = [] then Inr bs else apply_mask bs m)"

definition normalize_key :: "string \<Rightarrow> string result" where
  "normalize_key key =
     (let cleaned = lower (strip (filter (\<lambda>c. c \<noteq> CHR ''-'') key))
      in if length cleaned \<noteq> 32 \<or> \<not> list_all (\<lambda>c. c \<in> set hex_digits) cleaned
         then Inl (Value_error ''credential key must be a 32 character hex string'')
         else Inr cleaned)"

definition key_to_uuid :: "masks \<Rightarrow> string \<Rightarrow> proxy_type option \<Rightarrow> byte list result" where
  "key_to_uuid masks key p = (case normalize_key key of Inl e \<Rightarrow> Inl e
   | Inr n \<Rightarrow> (case bytes_of_hex n of
       None \<Rightarrow> Inl (Value_error ''non-hexadecimal number found in fromhex() arg'')
     | Some bs \<Rightarrow> mask_bytes masks p bs))"

definition uuid_to_key :: "masks \<Rightarrow> string \<Rightarrow> proxy_type option \<Rightarrow> string result" where
  "uuid_to_key masks value p = (case parse_uuid value of
     None \<Rightarrow> Inl (Value_error ''badly formed hexadecimal UUID string'')
   | Some bs \<Rightarrow> (case mask_bytes masks p bs of Inl e \<Rightarrow> Inl e | Inr k \<Rightarrow> Inr (hex_of_bytes k)))"

definition key_to_password :: "(string \<Rightarrow> string) \<Rightarrow> string \<Rightarrow> string \<Rightarrow> string result" where
  "key_to_password sha256_hex key label = (case normalize_key key of Inl e \<Rightarrow> Inl e
   | Inr n \<Rightarrow> Inr (take 32 (sha256_hex (label @ '':'' @ n))))"

section \<open>Settings\<close>

definition setting_get :: "settings \<Rightarrow> string \<Rightarrow> setting" where
  "setting_get s k = (case map_of s k of None \<Rightarrow> SNone | Some v \<Rightarrow> v)"

fun setting_true :: "setting \<Rightarrow> bool" where
  "setting_true SNone = False"
| "setting_true (SStr s) = (s \<noteq> '''')"
| "setting_true (SBool b) = b"

definition has_setting :: "settings \<Rightarrow> string \<Rightarrow> bool" where
  "has_setting s k = setting_true (setting_get s k)"

definition set_default :: "string \<Rightarrow> setting \<Rightarrow> settings \<Rightarrow> settings" where
  "set_default k v s = (if map_of s k = None then AList.update k v s else s)"

definition chacha20_poly1305 :: string where
  "chacha20_poly1305 = ''chacha20-ietf-poly1305''"

text \<open>\<open>ProxySettings.from_dict\<close>: a second attempt with a cleaned or dropped id.\<close>

definition from_dict :: "(proxy_type \<Rightarrow> settings \<Rightarrow> settings option) \<Rightarrow> proxy_type \<Rightarrow> settings \<Rightarrow>
    settings result" where
  "from_dict validate p s = (case validate p s of Some m \<Rightarrow> Inr m
   | None \<Rightarrow>
      (let s' = (if p \<in> uuid_protocols
          then AList.update ''id'' (case setting_get s ''id'' of
                 SStr raw \<Rightarrow> (case parse_uuid (filter (\<lambda>c. is_hex c \<or> c = CHR ''-'') raw) of
                    Some bs \<Rightarrow> SStr (uuid_str bs) | None \<Rightarrow> SNone)
               | _ \<Rightarrow> SNone) s
          else s)
       in case validate p s' of Some m \<Rightarrow> Inr m | None \<Rightarrow> Inl (Value_error ''validation'')))"

definition serialize_proxy_settings :: "masks \<Rightarrow> string \<Rightarrow> string \<Rightarrow> settings \<Rightarrow> proxy_type \<Rightarrow>
    string option \<Rightarrow> bool \<Rightarrow> bool \<Rightarrow> settings result" where
  "serialize_proxy_settings masks fresh_uuid fresh_password settings p credential_key'
      preserve_existing_uuid allow_auto_generate =
     (let data = AList.delete ''flow'' settings in
      case str_or_none credential_key' of
        Some key \<Rightarrow>
          (case (if p \<in> uuid_protocols then
               (case key_to_uuid masks key (Some p) of Inl e \<Rightarrow> Inl e
                | Inr derived \<Rightarrow> if \<not> preserve_existing_uuid \<or> \<not> has_setting data ''id''
                     then Inr (AList.update ''id'' (SStr (uuid_str derived)) data) else Inr data)
              else Inr data) of
             Inl e \<Rightarrow> Inl e
           | Inr data1 \<Rightarrow> Inr (if p \<in> password_protocols then AList.delete ''password'' data1 else data1))
      | None \<Rightarrow>
          if \<not> allow_auto_generate then Inr data
          else let
            d1 = (if p \<in> uuid_protocols \<and> \<not> has_setting data ''id''
                  then AList.update ''id'' (SStr fresh_uuid) data else data);
            d2 = (if p \<in> password_protocols \<and> \<not> has_setting d1 ''password''
                  then AList.update ''password'' (SStr fresh_password) d1 else d1);
            d3 = (if p = Shadowsocks \<and> \<not> has_setting d2 ''method''
                  then AList.update ''method'' (SStr chacha20_poly1305) d2 else d2)
          in Inr d3)"

text \<open>\<open>apply_credentials_to_settings\<close> on a settings object of a known protocol.\<close>

definition apply_credentials_to_settings :: "masks \<Rightarrow> (string \<Rightarrow> string) \<Rightarrow> settings \<Rightarrow> proxy_type \<Rightarrow>
    string option \<Rightarrow> settings result" where
  "apply_credentials_to_settings masks sha256_hex s p credential_key' =
     (case str_or_none credential_key' of None \<Rightarrow> Inr s
      | Some key \<Rightarrow> (case normalize_key key of Inl e \<Rightarrow> Inl e
        | Inr n \<Rightarrow>
           (case (if p \<in> uuid_protocols then
                    (case key_to_uuid masks n (Some p) of Inl e \<Rightarrow> Inl e
                     | Inr u \<Rightarrow> Inr (AList.update ''id'' (SStr (uuid_str u)) s))
                  else Inr s) of Inl e \<Rightarrow> Inl e
            | Inr s1 \<Rightarrow>
               (if p \<in> password_protocols then
                  (case key_to_password sha256_hex n (proxy_value p) of Inl e \<Rightarrow> Inl e
                   | Inr pw \<Rightarrow>
                      (let s2 = AList.update ''password'' (SStr pw) s1
                       in Inr (if p = Shadowsocks \<and> setting_get s2 ''method'' = SNone
                               then AList.update ''method'' (SStr chacha20_poly1305) s2 else s2)))
                else Inr s1))))"

definition sanitize_uuid :: "setting \<Rightarrow> string option" where
  "sanitize_uuid v = (case v of
     SStr s \<Rightarrow> (case parse_uuid (strip s) of Some bs \<Rightarrow> Some (uuid_str bs)
        | None \<Rightarrow> (case parse_uuid (filter (\<lambda>c. is_hex c \<or> c = CHR ''-'') (strip s)) of
             Some bs \<Rightarrow> Some (uuid_str bs) | None \<Rightarrow> None))
   | _ \<Rightarrow> None)"

datatype settings_arg = Settings_model settings | Settings_dict settings | Settings_other

text \<open>The stored value first, then the one derived from the key, then a generated one.\<close>

definition runtime_password :: "(string \<Rightarrow> string) \<Rightarrow> string \<Rightarrow> proxy_type \<Rightarrow> string option \<Rightarrow>
    settings \<Rightarrow> settings result" where
  "runtime_password sha256_hex fresh_password p normalized_key data =
     (if has_setting data ''password'' then Inr data
      else case normalized_key of
        Some n \<Rightarrow> (case key_to_password sha256_hex n (proxy_value p) of Inl e \<Rightarrow> Inl e
           | Inr pw \<Rightarrow> Inr (AList.update ''password'' (SStr pw) data))
      | None \<Rightarrow> Inr (set_default ''password'' (SStr fresh_password) data))"

definition runtime_proxy_settings :: "(proxy_type \<Rightarrow> settings \<Rightarrow> settings option) \<Rightarrow> masks \<Rightarrow>
    (string \<Rightarrow> string) \<Rightarrow> string \<Rightarrow> settings_arg \<Rightarrow> proxy_type \<Rightarrow> string option \<Rightarrow> string option \<Rightarrow>
    settings result" where
  "runtime_proxy_settings validate masks sha256_hex fresh_password arg p credential_key' flow' =
     (let data0 = (case arg of Settings_model s \<Rightarrow> s
            | Settings_dict s \<Rightarrow> (case validate p s of Some m \<Rightarrow> m | None \<Rightarrow> s)
            | Settings_other \<Rightarrow> []);
          data1 = (case map_of data0 ''ivCheck'' of
              Some v \<Rightarrow> if map_of data0 ''iv_check'' = None then AList.update ''iv_check'' v data0 else data0
            | None \<Rightarrow> data0);
          flow_value = (case flow' of Some f \<Rightarrow> Some f
            | None \<Rightarrow> (case setting_get data1 ''flow'' of SStr f \<Rightarrow> Some f | _ \<Rightarrow> None));
          data = AList.delete ''flow'' data1;
          current_id = (if has_setting data ''id'' then setting_get data ''id''
                        else setting_get data ''uuid'');
          sanitized_id = sanitize_uuid current_id
      in case (case str_or_none credential_key' of None \<Rightarrow> Inr None
               | Some k \<Rightarrow> (case normalize_key k of Inl e \<Rightarrow> Inl e | Inr n \<Rightarrow> Inr (Some n))) of
           Inl e \<Rightarrow> Inl e
         | Inr normalized_key \<Rightarrow>
        (case (if p \<in> uuid_protocols then
            (case sanitized_id of Some i \<Rightarrow> Inr (AList.update ''id'' (SStr i) data)
             | None \<Rightarrow> (case normalized_key of
                 Some n \<Rightarrow> (case key_to_uuid masks n (Some p) of Inl e \<Rightarrow> Inl e
                    | Inr u \<Rightarrow> Inr (AList.update ''id'' (SStr (uuid_str u)) data))
               | None \<Rightarrow> Inl (Value_error ''UUID is required'')))
           else Inr data) of
           Inl e \<Rightarrow> Inl e
         | Inr d1 \<Rightarrow>
        (case (if p \<in> password_protocols
               then runtime_password sha256_hex fresh_password p normalized_key d1 else Inr d1) of
           Inl e \<Rightarrow> Inl e
         | Inr d2 \<Rightarrow>
            (let d3 = (if p = Shadowsocks then set_default ''iv_check'' (SBool False)
                        (set_default ''method'' (SStr chacha20_poly1305) d2) else d2)
             in Inr (case normalize_flow_for_server flow_value of
                  Some f \<Rightarrow> AList.update ''flow'' (SStr f) d3 | None \<Rightarrow> d3)))))"

text \<open>
  \<open>_derive_key_from_proxies\<close>: the accumulator is \<open>candidate\<close>; an id that does not parse and
  two ids that disagree raise.
\<close>

fun derive_key :: "masks \<Rightarrow> (proxy_type \<times> settings) list \<Rightarrow> string option \<Rightarrow> string option result" where
  "derive_key masks [] candidate = Inr candidate"
| "derive_key masks ((p, s) # rest) candidate =
     (if p \<notin> uuid_protocols then derive_key masks rest candidate
      else if \<not> has_setting s ''id'' then derive_key masks rest candidate
      else case setting_get s ''id'' of
        SStr v \<Rightarrow> (case uuid_to_key masks v (Some p) of Inl e \<Rightarrow> Inl e
          | Inr derived \<Rightarrow>
             if str_or_none candidate \<noteq> None \<and> candidate \<noteq> Some derived
             then Inl (Value_error ''VMess and VLESS UUIDs must match when deriving credential keys'')
             else derive_key masks rest (Some derived))
      | _ \<Rightarrow> Inl (Value_error ''badly formed hexadecimal UUID string''))"

definition derive_key_from_proxies :: "masks \<Rightarrow> (proxy_type \<times> settings) list \<Rightarrow>
    string option result" where
  "derive_key_from_proxies masks proxies' = derive_key masks proxies' None"

definition strip_proxy_credentials :: "(proxy_type \<times> settings) list \<Rightarrow> (proxy_type \<times> settings) list" where
  "strip_proxy_credentials proxies' = map (\<lambda>(p, s).
     let s1 = (if p \<in> uuid_protocols \<and> has_setting s ''id'' then AList.update ''id'' SNone s else s)
     in (p, if p \<in> password_protocols \<and> has_setting s1 ''password''
            then AList.update ''password'' SNone s1 else s1)) proxies'"

text \<open>\<open>ensure_user_credential_key\<close>: the key and the proxies of the payload as it leaves them.\<close>

definition ensure_user_credential_key :: "masks \<Rightarrow> string \<Rightarrow> string option \<Rightarrow>
    (proxy_type \<times> settings) list \<Rightarrow> (string \<times> (proxy_type \<times> settings) list) result" where
  "ensure_user_credential_key masks fresh_key key proxies' =
     (case (case str_or_none key of
              Some k \<Rightarrow> normalize_key k
            | None \<Rightarrow> (case derive_key_from_proxies masks proxies' of Inl e \<Rightarrow> Inl e
                | Inr c \<Rightarrow> Inr (case str_or_none c of Some k \<Rightarrow> k | None \<Rightarrow> fresh_key))) of
        Inl e \<Rightarrow> Inl e
      | Inr k \<Rightarrow> Inr (k, strip_proxy_credentials proxies'))"

end
