(* ===== verification/UserCrud.thy ===== *)
theory UserCrud
  imports Lifecycle Credentials "HOL-Library.Char_ord" "HOL-Library.List_Lexorder"
begin

text \<open>
  Creating and modifying a user: \<open>create_user\<close>, \<open>update_user\<close>, \<open>revoke_user_sub\<close>,
  \<open>update_user_sub\<close> of \<open>app/db/crud/user.py\<close>, and what they call of \<open>ServiceRepository\<close>
  (\<open>app/db/crud/other.py\<close>) and of \<open>app/db/crud/proxy.py\<close>. \<open>get_or_create_inbound\<close> commits, so
  these functions may commit part of their work before they raise: they run on a \<open>session\<close>, the
  committed tables with the one row object they change. A user has one proxy row per protocol.
  The \<open>environment\<close> holds what comes from outside: the core's configuration, the stored masks,
  pydantic's validation of a settings class, and the fresh random values.
\<close>

record core_config =
  protocol_of_tag :: "string \<Rightarrow> string option"
  tags_of_protocol :: "proxy_type \<Rightarrow> string list"

record environment =
  core :: core_config
  env_masks :: masks
  env_validate :: "proxy_type \<Rightarrow> settings \<Rightarrow> settings option"
  fresh_uuid :: "proxy_type \<Rightarrow> string"
  fresh_password :: "proxy_type \<Rightarrow> string"
  fresh_key :: string

record session =
  committed :: db
  obj :: user
  doomed :: "proxy_type list"

section \<open>Sessions\<close>

definition live_proxies :: "session \<Rightarrow> proxy list" where
  "live_proxies s = filter (\<lambda>x. ptype x \<notin> set (doomed s)) (proxies (obj s))"

definition flush_obj :: "session \<Rightarrow> session" where
  "flush_obj s = (let u = (obj s)\<lparr>proxies := live_proxies s\<rparr> in
     s\<lparr>committed := save_user u (committed s), obj := u, doomed := []\<rparr>)"

text \<open>
  \<open>get_or_create\<close>: a new inbound is committed together with everything pending, and gets a default
  host unless it is the automatic inbound of a service, \<open>setservice-\<close> and digits in any case. The
  host is committed by a second transaction, with no code between that could fail.
\<close>

definition should_skip_default_host :: "string \<Rightarrow> bool" where
  "should_skip_default_host tag \<longleftrightarrow> starts_with ''setservice-'' (lower tag) \<and>
     (let digits = drop 11 tag;
          body = (if digits \<noteq> [] \<and> last digits = CHR 0x0A then butlast digits else digits)
      in body \<noteq> [] \<and> list_all is_digit body)"

lemma skipped_default_hosts: "should_skip_default_host ''SETSERVICE-7''" "\<not> should_skip_default_host ''setservice-''"
  by code_simp+

definition default_host :: "int \<Rightarrow> string \<Rightarrow> proxy_host" where
  "default_host i tag = \<lparr>host_id = i, host_remark = CHR 0xF0 # CHR 0x9F # CHR 0x9A # CHR 0x80 # '' Rebecca ({USERNAME}) [{PROTOCOL} - {TRANSPORT}]'',
     host_address = ''{SERVER_IP}'', host_port = None, host_sort = 0, host_path = None,
     host_sni = None, host_host = None, host_security = Inbound_default, host_alpn = ''none'',
     host_fingerprint = ''none'', host_inbound_tag = tag, host_allowinsecure = None,
     host_is_disabled = Some False, host_mux_enable = Some False, host_fragment_setting = None,
     host_noise_setting = None, host_random_user_agent = Some False, host_use_sni_as_host = Some False\<rparr>"

definition create_inbound_row :: "string \<Rightarrow> db \<Rightarrow> db" where
  "create_inbound_row tag d = d\<lparr>inbound_tags := inbound_tags d @ [tag],
     hosts := (if should_skip_default_host tag then hosts d
       else hosts d @ [default_host (next_key host_id (hosts d)) tag])\<rparr>"

lemma create_inbound_row_simps [simp]:
  "users (create_inbound_row tag d) = users d" "admins (create_inbound_row tag d) = admins d"
  "services (create_inbound_row tag d) = services d"
  "admin_service_links (create_inbound_row tag d) = admin_service_links d"
  "inbound_tags (create_inbound_row tag d) = inbound_tags d @ [tag]"
  by (simp_all add: create_inbound_row_def)

definition get_or_create_inbound :: "string \<Rightarrow> session \<Rightarrow> session" where
  "get_or_create_inbound tag s =
     (if tag \<in> set (inbound_tags (committed s)) then s
      else let s' = flush_obj s in s'\<lparr>committed := create_inbound_row tag (committed s')\<rparr>)"

definition find_proxy :: "proxy_type \<Rightarrow> user \<Rightarrow> proxy option" where
  "find_proxy p u = List.find (\<lambda>x. ptype x = p) (proxies u)"

definition change_proxy :: "proxy_type \<Rightarrow> (proxy \<Rightarrow> proxy) \<Rightarrow> user \<Rightarrow> user" where
  "change_proxy p f u = u\<lparr>proxies := update_where (\<lambda>x. ptype x = p) f (proxies u)\<rparr>"

definition add_proxy :: "proxy_type \<Rightarrow> settings \<Rightarrow> user \<Rightarrow> user" where
  "add_proxy p st u =
     u\<lparr>proxies := proxies u @ [\<lparr>ptype = p, psettings = st, pexcluded = []\<rparr>]\<rparr>"

definition change_obj :: "(user \<Rightarrow> user) \<Rightarrow> session \<Rightarrow> session" where
  "change_obj f s = s\<lparr>obj := f (obj s)\<rparr>"

text \<open>
  A step of such a function: it returns or raises, and leaves a session either way.
\<close>

type_synonym step = "session \<Rightarrow> unit result \<times> session"

fun run_all :: "('a \<Rightarrow> step) \<Rightarrow> 'a list \<Rightarrow> step" where
  "run_all f [] s = (Inr (), s)"
| "run_all f (x # xs) s = (case f x s of (Inl e, s') \<Rightarrow> (Inl e, s') | (Inr _, s') \<Rightarrow> run_all f xs s')"

definition and_then :: "step \<Rightarrow> step \<Rightarrow> step" where
  "and_then f g s = (case f s of (Inl e, s') \<Rightarrow> (Inl e, s') | (Inr _, s') \<Rightarrow> g s')"

definition pure_step :: "(user \<Rightarrow> user) \<Rightarrow> step" where
  "pure_step f s = (Inr (), change_obj f s)"

definition serialize_in :: "environment \<Rightarrow> settings \<Rightarrow> proxy_type \<Rightarrow> string option \<Rightarrow> bool \<Rightarrow> bool \<Rightarrow>
    settings result" where
  "serialize_in env st p key preserve allow =
     serialize_proxy_settings (env_masks env) (fresh_uuid env p) (fresh_password env p)
       st p key preserve allow"

section \<open>Services\<close>

definition proxy_type_of :: "string \<Rightarrow> proxy_type option" where
  "proxy_type_of s = List.find (\<lambda>p. proxy_value p = s) [VMess, VLESS, Trojan, Shadowsocks]"

definition allow_tag :: "proxy_type \<Rightarrow> string \<Rightarrow> (proxy_type \<times> string list) list \<Rightarrow>
    (proxy_type \<times> string list) list" where
  "allow_tag p tag allowed =
     AList.update p (List.insert tag (case map_of allowed p of None \<Rightarrow> [] | Some ts \<Rightarrow> ts)) allowed"

fun allowed_from_links :: "core_config \<Rightarrow> proxy_host list \<Rightarrow> host_link list \<Rightarrow>
    (proxy_type \<times> string list) list \<Rightarrow> (proxy_type \<times> string list) list" where
  "allowed_from_links cfg hs [] allowed = allowed"
| "allowed_from_links cfg hs (l # ls) allowed =
     (case fetch_host (link_host_id l) hs of
        None \<Rightarrow> allowed_from_links cfg hs ls allowed
      | Some h \<Rightarrow>
          if host_is_disabled h = Some True then allowed_from_links cfg hs ls allowed
          else case protocol_of_tag cfg (host_inbound_tag h) of
            None \<Rightarrow> allowed_from_links cfg hs ls allowed
          | Some protocol \<Rightarrow> (case proxy_type_of protocol of
              None \<Rightarrow> allowed_from_links cfg hs ls allowed
            | Some p \<Rightarrow> allowed_from_links cfg hs ls (allow_tag p (host_inbound_tag h) allowed)))"

definition compute_allowed_inbounds :: "core_config \<Rightarrow> proxy_host list \<Rightarrow> service \<Rightarrow>
    (proxy_type \<times> string list) list" where
  "compute_allowed_inbounds cfg hs svc = allowed_from_links cfg hs (host_links svc) []"

definition ensure_admin_service_link :: "admin option \<Rightarrow> service \<Rightarrow> db \<Rightarrow> db" where
  "ensure_admin_service_link a svc d = (case a of None \<Rightarrow> d
   | Some adm \<Rightarrow>
      if list_ex (\<lambda>l. link_admin_id l = aid adm \<and> link_service_id l = sid svc) (admin_service_links d)
      then d
      else d\<lparr>admin_service_links := admin_service_links d @ [\<lparr>link_admin_id = aid adm,
        link_service_id = sid svc, link_used_traffic = 0, link_lifetime_used_traffic = 0\<rparr>]\<rparr>)"

text \<open>One turn of the loop over the allowed protocols; \<open>existing\<close> was read before the loop.\<close>

definition apply_protocol :: "environment \<Rightarrow> proxy_type list \<Rightarrow> proxy_type \<times> string list \<Rightarrow> step" where
  "apply_protocol env existing pt s = (case pt of (p, tags) \<Rightarrow>
     (let u = obj s;
          current = (if p \<in> set existing then find_proxy p u else None);
          excluded = sort (remdups (filter (\<lambda>t. t \<notin> set tags) (tags_of_protocol (core env) p)))
      in case env_validate env p (case current of None \<Rightarrow> [] | Some x \<Rightarrow> psettings x) of
           None \<Rightarrow> (Inl (Value_error ''validation''), s)
         | Some m \<Rightarrow>
            (case serialize_in env m p (credential_key u) (p \<in> set existing) True of
               Inl e \<Rightarrow> (Inl e, s)
             | Inr st \<Rightarrow>
                (let s1 = change_obj (if p \<in> set existing
                        then change_proxy p (\<lambda>x. x\<lparr>psettings := st\<rparr>) else add_proxy p st) s;
                     s2 = fold get_or_create_inbound excluded s1
                 in pure_step (change_proxy p (\<lambda>x. x\<lparr>pexcluded := excluded\<rparr>)) s2))))"

text \<open>
  \<open>apply_service_to_user\<close>: deleting a proxy of an object that is not persistent raises. The
  allowed protocols are a set; the model takes them in the order of the dict.
\<close>

definition apply_service_to_user :: "environment \<Rightarrow> instant \<Rightarrow> bool \<Rightarrow> service \<Rightarrow>
    (proxy_type \<times> string list) list \<Rightarrow> step" where
  "apply_service_to_user env now persistent svc allowed s =
     (let types = map ptype (proxies (obj s));
          rejected = filter (\<lambda>p. p \<notin> fst ` set allowed) types;
          existing = filter (\<lambda>p. p \<in> fst ` set allowed) types
      in if \<not> persistent \<and> rejected \<noteq> [] then (Inl Invalid_request_error, s)
         else and_then (run_all (apply_protocol env existing) allowed)
           (pure_step (\<lambda>u. u\<lparr>service_id := Some (sid svc), edit_at := Some now\<rparr>))
           (s\<lparr>doomed := doomed s @ rejected\<rparr>))"

section \<open>Payloads\<close>

record plan_model =
  pm_data_limit :: "int option"
  pm_expire :: "int option"
  pm_add_remaining_traffic :: bool
  pm_fire_on_either :: bool
  pm_increase_data_limit :: bool
  pm_start_on_first_connect :: bool
  pm_trigger_on :: string

definition plan_of_model :: "int \<Rightarrow> plan_model \<Rightarrow> next_plan" where
  "plan_of_model idx pm = \<lparr>np_data_limit = or_zero (pm_data_limit pm), np_expire = pm_expire pm,
     add_remaining_traffic = pm_add_remaining_traffic pm, fire_on_either = pm_fire_on_either pm,
     increase_data_limit = pm_increase_data_limit pm,
     start_on_first_connect = pm_start_on_first_connect pm,
     trigger_on = (if pm_trigger_on pm = '''' then ''either'' else pm_trigger_on pm),
     position = idx\<rparr>"

fun plans_of_models :: "int \<Rightarrow> plan_model list \<Rightarrow> next_plan list" where
  "plans_of_models i [] = []"
| "plans_of_models i (pm # pms) = plan_of_model i pm # plans_of_models (i + 1) pms"

record user_create =
  uc_username :: string
  uc_credential_key :: "string option"
  uc_proxies :: "(proxy_type \<times> settings) list"
  uc_flow :: "string option"
  uc_status :: "user_status option"
  uc_data_limit :: "int option"
  uc_expire :: "int option"
  uc_strategy :: reset_strategy
  uc_inbounds :: "(proxy_type \<times> string list) list"
  uc_note :: "string option"
  uc_telegram_id :: "string option"
  uc_contact_number :: "string option"
  uc_on_hold_expire_duration :: "int option"
  uc_on_hold_timeout :: "instant option"
  uc_ip_limit :: int
  uc_auto_delete_in_days :: "int option"
  uc_next_plan :: "plan_model option"
  uc_next_plans :: "plan_model list option"

text \<open>\<open>fields_set\<close> is pydantic's \<open>model_fields_set\<close>: the fields the request names.\<close>

record user_modify =
  fields_set :: "string list"
  um_proxies :: "(proxy_type \<times> settings) list"
  um_flow :: "string option"
  um_status :: "user_status option"
  um_data_limit :: "int option"
  um_expire :: "int option"
  um_strategy :: "reset_strategy option"
  um_inbounds :: "(proxy_type \<times> string list) list"
  um_note :: "string option"
  um_telegram_id :: "string option"
  um_contact_number :: "string option"
  um_on_hold_expire_duration :: "int option"
  um_on_hold_timeout :: "instant option"
  um_ip_limit :: int
  um_next_plan :: "plan_model option"
  um_next_plans :: "plan_model list option"

text \<open>The property \<open>excluded_inbounds\<close>: of one protocol, and for the keys of a modification.\<close>

definition excluded_for :: "core_config \<Rightarrow> (proxy_type \<times> string list) list \<Rightarrow> proxy_type \<Rightarrow> string list" where
  "excluded_for cfg inbounds p =
     filter (\<lambda>t. t \<notin> set (case map_of inbounds p of None \<Rightarrow> [] | Some ts \<Rightarrow> ts)) (tags_of_protocol cfg p)"

definition modify_excluded_inbounds :: "core_config \<Rightarrow> user_modify \<Rightarrow> (proxy_type \<times> string list) list" where
  "modify_excluded_inbounds cfg m = map (\<lambda>(p, _). (p, excluded_for cfg (um_inbounds m) p)) (um_inbounds m)"

section \<open>Creating a user\<close>

definition has_static_credentials :: "(proxy_type \<times> settings) list \<Rightarrow> bool" where
  "has_static_credentials ps = list_ex (\<lambda>(p, st).
     (p \<in> uuid_protocols \<and> has_setting st ''id'') \<or>
     (p \<in> password_protocols \<and> has_setting st ''password'')) ps"

definition create_proxy :: "environment \<Rightarrow> string option \<Rightarrow> user_create \<Rightarrow> proxy_type \<times> settings \<Rightarrow>
    step" where
  "create_proxy env key m pst s = (case pst of (p, st) \<Rightarrow>
     (let excluded = excluded_for (core env) (uc_inbounds m) p;
          s1 = fold get_or_create_inbound excluded s
      in case serialize_in env st p key True (str_or_none key \<noteq> None) of
           Inl e \<Rightarrow> (Inl e, s1)
         | Inr data \<Rightarrow> pure_step (\<lambda>u. u\<lparr>proxies := proxies u @
              [\<lparr>ptype = p, psettings = data, pexcluded = excluded\<rparr>]\<rparr>) s1))"

definition created_row :: "instant \<Rightarrow> int \<Rightarrow> user_create \<Rightarrow> admin option \<Rightarrow> string option \<Rightarrow>
    proxy list \<Rightarrow> user" where
  "created_row now i m a key ps = (new_user i (uc_username m) now)\<lparr>
     credential_key := key, flow := uc_flow m, proxies := ps,
     status := (case uc_status m of None \<Rightarrow> Active | Some st \<Rightarrow> st),
     data_limit := or_none (uc_data_limit m), expire := or_none (uc_expire m),
     admin_id := map_option aid a, data_limit_reset_strategy := uc_strategy m,
     user_note := uc_note m, telegram_id := uc_telegram_id m, contact_number := uc_contact_number m,
     on_hold_expire_duration := or_none (uc_on_hold_expire_duration m),
     on_hold_timeout := uc_on_hold_timeout m, auto_delete_in_days := uc_auto_delete_in_days m,
     ip_limit := uc_ip_limit m,
     next_plans := (case uc_next_plans m of
         Some (p # ps) \<Rightarrow> plans_of_models 0 (p # ps)
       | _ \<Rightarrow> (case uc_next_plan m of None \<Rightarrow> [] | Some p \<Rightarrow> [plan_of_model 0 p]))\<rparr>"

definition username_taken :: "db \<Rightarrow> string \<Rightarrow> bool" where
  "username_taken d name =
     list_ex (\<lambda>u. lower (username u) = lower name \<and> status u \<noteq> Deleted) (users d)"

text \<open>
  Building the object: its key, its proxies and the service. \<open>i\<close> is the primary key the database
  hands out. Until \<open>db.add\<close> the object is not in the session, so the commits of
  \<open>get_or_create_inbound\<close> do not write it: \<open>i\<close> is not in the table.
\<close>

definition created_key :: "environment \<Rightarrow> user_create \<Rightarrow> string option" where
  "created_key env m =
     (if str_or_none (uc_credential_key m) = None \<and> \<not> has_static_credentials (uc_proxies m)
      then Some (fresh_key env) else uc_credential_key m)"

definition create_service :: "environment \<Rightarrow> instant \<Rightarrow> service option \<Rightarrow> step" where
  "create_service env now svc = (case svc of None \<Rightarrow> pure_step id
     | Some sv \<Rightarrow> (\<lambda>s. apply_service_to_user env now False sv
         (compute_allowed_inbounds (core env) (hosts (committed s)) sv) s))"

definition create_draft :: "environment \<Rightarrow> instant \<Rightarrow> int \<Rightarrow> db \<Rightarrow> user_create \<Rightarrow> admin option \<Rightarrow>
    service option \<Rightarrow> unit result \<times> session" where
  "create_draft env now i d m a svc =
     and_then (run_all (create_proxy env (created_key env m) m) (uc_proxies m))
       (create_service env now svc)
       \<lparr>committed = d, obj = created_row now i m a (created_key env m) [], doomed = []\<rparr>"

definition create_user :: "environment \<Rightarrow> instant \<Rightarrow> int \<Rightarrow> db \<Rightarrow> user_create \<Rightarrow> admin option \<Rightarrow>
    service option \<Rightarrow> user result \<times> db" where
  "create_user env now i d m a svc =
     (if username_taken d (uc_username m)
      then (Inl (Integrity_error ''User username already exists''), d)
      else case (case a of None \<Rightarrow> Inr () | Some _ \<Rightarrow> ensure_active_user_capacity d a 1 []) of
        Inl e \<Rightarrow> (Inl e, d)
      | Inr _ \<Rightarrow>
         (case create_draft env now i d m a svc of
            (Inl e, s) \<Rightarrow> (Inl e, committed s)
          | (Inr _, s) \<Rightarrow>
             (let d' = (case svc of None \<Rightarrow> committed s
                 | Some sv \<Rightarrow> ensure_admin_service_link a sv (committed s))
              in (Inr (obj s), d'\<lparr>users := users d' @ [obj s]\<rparr>))))"

section \<open>Modifying a user\<close>

text \<open>
  The loop over \<open>modify.proxies\<close>. Without a key the stored credential is kept where the request
  has none.
\<close>

definition keep_stored :: "settings \<Rightarrow> proxy_type \<Rightarrow> settings \<Rightarrow> settings" where
  "keep_stored old p st =
     (let st1 = (if p \<in> uuid_protocols \<and> has_setting old ''id'' \<and> \<not> has_setting st ''id''
          then AList.update ''id'' (setting_get old ''id'') st else st)
      in if p \<in> password_protocols \<and> has_setting old ''password'' \<and> \<not> has_setting st1 ''password''
         then AList.update ''password'' (setting_get old ''password'') st1 else st1)"

definition modify_proxy :: "environment \<Rightarrow> proxy_type \<times> settings \<Rightarrow> step" where
  "modify_proxy env pst s = (case pst of (p, st) \<Rightarrow>
     (let key = credential_key (obj s); has_key = (str_or_none key \<noteq> None) in
      case find_proxy p (obj s) of
        Some x \<Rightarrow>
          (case serialize_in env (if has_key then st else keep_stored (psettings x) p st) p key
              (has_setting (psettings x) ''id'' \<and> p \<in> uuid_protocols) has_key of
             Inl e \<Rightarrow> (Inl e, s)
           | Inr data \<Rightarrow> pure_step (change_proxy p (\<lambda>x. x\<lparr>psettings := data\<rparr>)) s)
      | None \<Rightarrow>
          (case serialize_in env st p key False has_key of
             Inl e \<Rightarrow> (Inl e, s) | Inr data \<Rightarrow> pure_step (add_proxy p data) s)))"

definition modify_proxies :: "environment \<Rightarrow> user_modify \<Rightarrow> step" where
  "modify_proxies env m s =
     (if um_proxies m = [] then (Inr (), s)
      else and_then (run_all (modify_proxy env) (um_proxies m))
        (\<lambda>s. (Inr (), s\<lparr>doomed := doomed s @
           filter (\<lambda>p. p \<notin> fst ` set (um_proxies m)) (map ptype (proxies (obj s)))\<rparr>)) s)"

definition modify_excluded :: "proxy_type \<times> string list \<Rightarrow> session \<Rightarrow> session" where
  "modify_excluded pt s = (case pt of (p, tags) \<Rightarrow>
     (if find_proxy p (obj s) = None then s
      else change_obj (change_proxy p (\<lambda>x. x\<lparr>pexcluded := tags\<rparr>))
        (fold get_or_create_inbound tags s)))"

definition modify_limit :: "user_modify \<Rightarrow> user \<Rightarrow> user" where
  "modify_limit m u =
     (if ''data_limit'' \<in> set (fields_set m) then
        let u1 = u\<lparr>data_limit := or_none (um_data_limit m)\<rparr> in
        if status u1 \<in> {Expired, Disabled} then u1
        else u1\<lparr>status :=
          (if (case data_limit u1 of None \<Rightarrow> True | Some l \<Rightarrow> used_traffic u1 < l) \<and>
              status u1 \<noteq> On_hold
           then Active else Limited)\<rparr>
      else u)"

definition modify_expire :: "instant \<Rightarrow> user_modify \<Rightarrow> user \<Rightarrow> user" where
  "modify_expire now m u =
     (if ''expire'' \<in> set (fields_set m) then
        let u1 = u\<lparr>expire := or_none (um_expire m)\<rparr> in
        if status u1 \<in> {Active, Expired} then
          u1\<lparr>status := (case expire u1 of None \<Rightarrow> Active
            | Some e \<Rightarrow> if \<not> secs_le_now e now then Active else Expired)\<rparr>
        else u1
      else u)"

definition modify_plans :: "user_modify \<Rightarrow> user \<Rightarrow> user" where
  "modify_plans m u = (case um_next_plans m of
     Some pms \<Rightarrow> u\<lparr>next_plans := plans_of_models 0 pms\<rparr>
   | None \<Rightarrow> (case um_next_plan m of
       Some pm \<Rightarrow> u\<lparr>next_plans := [plan_of_model 0 pm]\<rparr>
     | None \<Rightarrow> if ''next_plan'' \<in> set (fields_set m) \<or> ''next_plans'' \<in> set (fields_set m)
         then u\<lparr>next_plans := []\<rparr> else u))"

definition modify_contact :: "user_modify \<Rightarrow> user \<Rightarrow> user" where
  "modify_contact m u =
     (let u1 = (case um_note m of None \<Rightarrow> u | Some n \<Rightarrow> u\<lparr>user_note := str_or_none (Some n)\<rparr>);
          u2 = (if um_telegram_id m \<noteq> None \<or> ''telegram_id'' \<in> set (fields_set m)
                then u1\<lparr>telegram_id := str_or_none (um_telegram_id m)\<rparr> else u1);
          u3 = (if um_contact_number m \<noteq> None \<or> ''contact_number'' \<in> set (fields_set m)
                then u2\<lparr>contact_number := str_or_none (um_contact_number m)\<rparr> else u2)
      in u3)"

definition modify_settings :: "user_modify \<Rightarrow> user \<Rightarrow> user" where
  "modify_settings m u =
     (let u1 = (case um_strategy m of None \<Rightarrow> u | Some st \<Rightarrow> u\<lparr>data_limit_reset_strategy := st\<rparr>);
          u2 = (if ''ip_limit'' \<in> set (fields_set m) then u1\<lparr>ip_limit := um_ip_limit m\<rparr> else u1);
          u3 = (case um_on_hold_timeout m of None \<Rightarrow> u2 | Some t \<Rightarrow> u2\<lparr>on_hold_timeout := Some t\<rparr>);
          u4 = (case um_on_hold_expire_duration m of None \<Rightarrow> u3
            | Some t \<Rightarrow> u3\<lparr>on_hold_expire_duration := Some t\<rparr>)
      in u4)"

definition modify_fields :: "instant \<Rightarrow> user_modify \<Rightarrow> user \<Rightarrow> user" where
  "modify_fields now m u =
     (let u1 = (if ''flow'' \<in> set (fields_set m) then u\<lparr>flow := um_flow m\<rparr> else u);
          u2 = (case um_status m of None \<Rightarrow> u1 | Some st \<Rightarrow> u1\<lparr>status := st\<rparr>)
      in modify_plans m (modify_settings m (modify_contact m
           (modify_expire now m (modify_limit m u2)))))"

definition set_service :: "environment \<Rightarrow> instant \<Rightarrow> service option \<Rightarrow> bool \<Rightarrow> step" where
  "set_service env now svc service_set =
     (if \<not> service_set then pure_step id
      else case svc of None \<Rightarrow> pure_step (\<lambda>u. u\<lparr>service_id := None\<rparr>)
      | Some sv \<Rightarrow> (\<lambda>s. apply_service_to_user env now True sv
          (compute_allowed_inbounds (core env) (hosts (committed s)) sv) s))"

text \<open>
  The quota check counts the committed rows. The link of the admin to the service is pending
  until the last commit.
\<close>

definition check_activation :: "user_status \<Rightarrow> step" where
  "check_activation original s =
     (if status (obj s) = Active \<and> original \<noteq> Active then
        (ensure_active_user_capacity (committed s) (admin_of (committed s) (obj s)) 1 [uid (obj s)], s)
      else (Inr (), s))"

definition update_user :: "environment \<Rightarrow> instant \<Rightarrow> db \<Rightarrow> user \<Rightarrow> user_modify \<Rightarrow> service option \<Rightarrow>
    bool \<Rightarrow> admin option \<Rightarrow> user result \<times> db" where
  "update_user env now d u m svc service_set a =
     (case and_then (modify_proxies env m)
        (and_then (\<lambda>s. (Inr (), fold modify_excluded (modify_excluded_inbounds (core env) m) s))
        (and_then (pure_step (modify_fields now m))
        (and_then (set_service env now svc service_set)
          (check_activation (status u)))))
        \<lparr>committed = d, obj = u, doomed = []\<rparr> of
      (Inl e, s) \<Rightarrow> (Inl e, committed s)
    | (Inr _, s) \<Rightarrow>
       (let s' = flush_obj (change_obj (\<lambda>u. u\<lparr>edit_at := Some now\<rparr>) s)
        in (Inr (obj s'), (case svc of
             Some sv \<Rightarrow> if service_set then ensure_admin_service_link a sv (committed s') else committed s'
           | None \<Rightarrow> committed s'))))"

section \<open>Revoking a subscription\<close>

definition apply_key_to_proxy :: "environment \<Rightarrow> string \<Rightarrow> proxy \<Rightarrow> proxy result" where
  "apply_key_to_proxy env normalized x =
     then_res (from_dict (env_validate env) (ptype x) (psettings x)) (\<lambda>st.
     then_res (serialize_in env st (ptype x) (Some normalized)
         (has_setting (psettings x) ''id'' \<and> ptype x \<in> uuid_protocols) True)
       (\<lambda>data. Inr (x\<lparr>psettings := data\<rparr>)))"

definition revoke_legacy_proxy :: "environment \<Rightarrow> string \<Rightarrow> proxy \<Rightarrow> proxy result" where
  "revoke_legacy_proxy env key x =
     then_res (from_dict (env_validate env) (ptype x) (psettings x)) (\<lambda>st.
       (let st1 = (if ptype x \<in> uuid_protocols then AList.update ''id'' SNone st else st);
            st2 = (if ptype x \<in> password_protocols then AList.update ''password'' SNone st1 else st1)
        in then_res (serialize_in env st2 (ptype x) (Some key) False True)
             (\<lambda>data. Inr (x\<lparr>psettings := data\<rparr>))))"

fun map_res :: "('a \<Rightarrow> 'b result) \<Rightarrow> 'a list \<Rightarrow> 'b list result" where
  "map_res f [] = Inr []"
| "map_res f (x # xs) = then_res (f x) (\<lambda>y. then_res (map_res f xs) (\<lambda>ys. Inr (y # ys)))"

definition has_legacy_credentials :: "user \<Rightarrow> bool" where
  "has_legacy_credentials u =
     has_static_credentials (map (\<lambda>x. (ptype x, psettings x)) (proxies u))"

definition apply_key_to_existing_proxies :: "environment \<Rightarrow> user \<Rightarrow> string \<Rightarrow> user result" where
  "apply_key_to_existing_proxies env u key =
     then_res (normalize_key key) (\<lambda>n.
     then_res (map_res (apply_key_to_proxy env n) (proxies u)) (\<lambda>ps. Inr (u\<lparr>proxies := ps\<rparr>)))"

definition revoke_user_sub :: "environment \<Rightarrow> instant \<Rightarrow> db \<Rightarrow> user \<Rightarrow> (user \<times> db) result" where
  "revoke_user_sub env now d u =
     (let new_key = fresh_key env;
          u1 = u\<lparr>sub_revoked_at := Some now, credential_key := Some new_key\<rparr>
      in then_res
          (if has_legacy_credentials u
           then then_res (map_res (revoke_legacy_proxy env new_key) (proxies u))
             (\<lambda>ps. Inr (u1\<lparr>proxies := ps\<rparr>))
           else apply_key_to_existing_proxies env u1 new_key)
          (\<lambda>u2. Inr (u2, save_user u2 d)))"

section \<open>Recording a subscription request\<close>

text \<open>
  \<open>update_user_sub\<close>: up to three attempts. \<open>tables n\<close> is what attempt \<open>n\<close> finds committed, since
  other transactions run between the attempts, and \<open>outcome n\<close> the outcome of its commit: whether
  the error is \<open>1020\<close>, record changed. A row that has disappeared after a rollback re-raises.
\<close>

datatype commit_outcome = Commit_ok | Record_changed | Other_operational_error

definition touch_sub :: "instant \<Rightarrow> string \<Rightarrow> user \<Rightarrow> user" where
  "touch_sub now agent u = u\<lparr>sub_updated_at := Some now, sub_last_user_agent := Some agent\<rparr>"

fun update_sub_attempts :: "(nat \<Rightarrow> db) \<Rightarrow> (nat \<Rightarrow> commit_outcome) \<Rightarrow> instant \<Rightarrow> string \<Rightarrow> int \<Rightarrow>
    nat \<Rightarrow> nat \<Rightarrow> (user \<times> db) result" where
  "update_sub_attempts tables outcome now agent i attempt 0 = Inl Operational_error"
| "update_sub_attempts tables outcome now agent i attempt (Suc left) =
     (case fetch_user i (users (tables attempt)) of
        None \<Rightarrow> Inl (Value_error ''User not found'')
      | Some u \<Rightarrow> (let u' = touch_sub now agent u in
          case outcome attempt of
            Commit_ok \<Rightarrow> Inr (u', save_user u' (tables attempt))
          | Other_operational_error \<Rightarrow> Inl Operational_error
          | Record_changed \<Rightarrow>
              if left = 0 \<or> fetch_user i (users (tables (Suc attempt))) = None
              then Inl Operational_error
              else update_sub_attempts tables outcome now agent i (Suc attempt) left))"

definition update_user_sub :: "(nat \<Rightarrow> db) \<Rightarrow> (nat \<Rightarrow> commit_outcome) \<Rightarrow> instant \<Rightarrow> user \<Rightarrow> string \<Rightarrow>
    (user \<times> db) result" where
  "update_user_sub tables outcome now u agent =
     (if uid u = 0 then Inl (Value_error ''User object must have an id attribute'')
      else update_sub_attempts tables outcome now agent (uid u) 0 3)"

end
