(* ===== verification/Hosts.thy ===== *)
theory Hosts
  imports UserCrud
begin

text \<open>
  Inbounds and their hosts: \<open>ProxyInboundRepository\<close> and the functions around it
  (\<open>app/db/crud/proxy.py\<close>), \<open>ServiceRepository.refresh_users\<close> (\<open>app/db/crud/other.py\<close>), and the
  host endpoints of \<open>app/routers/system.py\<close>. The repository flushes and leaves the commit to its
  caller, but \<open>get_or_create\<close> commits, so its methods run on a \<open>txn\<close>: what is committed, and the
  tables with everything flushed or pending. An exception loses what is not committed.
\<close>

text \<open>
  Bringing the users of a service in line with its hosts: \<open>ServiceRepository.refresh_users\<close>
  (\<open>app/db/crud/other.py\<close>), \<open>refresh_service_users_by_id\<close> (\<open>app/db/crud/service.py\<close>),
  \<open>_update_hosts\<close> (\<open>app/db/crud/proxy.py\<close>), and the host endpoints of \<open>app/routers/system.py\<close> with
  the background task they queue. \<open>apply_service_to_user\<close> may commit, through
  \<open>get_or_create_inbound\<close>; such a commit writes everything pending in the session.
\<close>

section \<open>Transactions\<close>

record txn =
  durable :: db
  working :: db

type_synonym 'a op = "txn \<Rightarrow> 'a result \<times> txn"

definition begin_txn :: "db \<Rightarrow> txn" where
  "begin_txn d = \<lparr>durable = d, working = d\<rparr>"

definition op_bind :: "'a op \<Rightarrow> ('a \<Rightarrow> 'b op) \<Rightarrow> 'b op" where
  "op_bind f g t = (case f t of (Inl e, t') \<Rightarrow> (Inl e, t') | (Inr x, t') \<Rightarrow> g x t')"

definition op_return :: "'a \<Rightarrow> 'a op" where
  "op_return x t = (Inr x, t)"

definition op_raise :: "exn \<Rightarrow> 'a op" where
  "op_raise e t = (Inl e, t)"

definition op_work :: "(db \<Rightarrow> 'a \<times> db) \<Rightarrow> 'a op" where
  "op_work f t = (case f (working t) of (x, d) \<Rightarrow> (Inr x, t\<lparr>working := d\<rparr>))"

definition op_commit :: "unit op" where
  "op_commit t = (Inr (), t\<lparr>durable := working t\<rparr>)"

text \<open>What the database holds when the request is over.\<close>

definition outcome :: "'a op \<Rightarrow> db \<Rightarrow> 'a result \<times> db" where
  "outcome f d = (case f (begin_txn d) of (r, t) \<Rightarrow> (r, durable t))"

fun op_each :: "('a \<Rightarrow> 'b op) \<Rightarrow> 'a list \<Rightarrow> 'b list op" where
  "op_each f [] = op_return []"
| "op_each f (x # xs) = op_bind (f x) (\<lambda>y. op_bind (op_each f xs) (\<lambda>ys. op_return (y # ys)))"

section \<open>Host payloads\<close>

record host_payload =
  hp_id :: "int option"
  hp_remark :: string
  hp_address :: string
  hp_port :: "int option"
  hp_sort :: "int option"
  hp_sni :: "string option"
  hp_host :: "string option"
  hp_path :: "string option"
  hp_security :: host_security
  hp_alpn :: "string option"
  hp_fingerprint :: "string option"
  hp_allowinsecure :: "bool option"
  hp_is_disabled :: bool
  hp_mux_enable :: "bool option"
  hp_fragment_setting :: "string option"
  hp_noise_setting :: "string option"
  hp_random_user_agent :: "bool option"
  hp_use_sni_as_host :: "bool option"

text \<open>
  The enums \<open>ProxyHostALPN\<close> and \<open>ProxyHostFingerprint\<close>, by the names of their members: a member's
  value is its name, and the value of \<open>none\<close> is empty.
\<close>

definition alpn_names :: "string list" where
  "alpn_names = [''none'', ''h3'', ''h2'', ''http/1.1'', ''h3,h2,http/1.1'', ''h3,h2'', ''h2,http/1.1'']"

definition fingerprint_names :: "string list" where
  "fingerprint_names = [''none'', ''chrome'', ''firefox'', ''safari'', ''ios'', ''android'', ''edge'',
     ''360'', ''qq'', ''random'', ''randomized'']"

definition normalize_enum :: "string list \<Rightarrow> string option \<Rightarrow> string" where
  "normalize_enum names v = (case v of None \<Rightarrow> ''none''
     | Some x \<Rightarrow> if strip x = '''' then ''none'' else if x \<in> set names then x else ''none'')"

definition apply_proxy_host_payload :: "proxy_host \<Rightarrow> host_payload \<Rightarrow> int option \<Rightarrow> proxy_host" where
  "apply_proxy_host_payload h p sort_value = h\<lparr>
     host_remark := hp_remark p, host_address := hp_address p, host_port := hp_port p,
     host_sort := (case sort_value of Some s \<Rightarrow> s | None \<Rightarrow>
       (case hp_sort p of Some s \<Rightarrow> s | None \<Rightarrow> host_sort h)),
     host_path := hp_path p, host_sni := hp_sni p, host_host := hp_host p,
     host_security := hp_security p, host_alpn := normalize_enum alpn_names (hp_alpn p),
     host_fingerprint := normalize_enum fingerprint_names (hp_fingerprint p),
     host_allowinsecure := hp_allowinsecure p, host_is_disabled := Some (hp_is_disabled p),
     host_mux_enable := hp_mux_enable p, host_fragment_setting := hp_fragment_setting p,
     host_noise_setting := hp_noise_setting p, host_random_user_agent := hp_random_user_agent p,
     host_use_sni_as_host := hp_use_sni_as_host p\<rparr>"

text \<open>
  Three columns are \<open>NOT NULL\<close> with a default. An insert takes the default where the object has
  \<open>None\<close>; an update writes the \<open>None\<close>, and the database refuses it.
\<close>

definition insert_defaults :: "proxy_host \<Rightarrow> proxy_host" where
  "insert_defaults h = h\<lparr>
     host_mux_enable := Some (case host_mux_enable h of None \<Rightarrow> False | Some b \<Rightarrow> b),
     host_random_user_agent := Some (case host_random_user_agent h of None \<Rightarrow> False | Some b \<Rightarrow> b),
     host_use_sni_as_host := Some (case host_use_sni_as_host h of None \<Rightarrow> False | Some b \<Rightarrow> b)\<rparr>"

definition host_complete :: "proxy_host \<Rightarrow> bool" where
  "host_complete h \<longleftrightarrow> host_mux_enable h \<noteq> None \<and> host_random_user_agent h \<noteq> None \<and>
     host_use_sni_as_host h \<noteq> None"

fun insert_hosts :: "proxy_host list \<Rightarrow> proxy_host list \<Rightarrow> proxy_host list" where
  "insert_hosts [] table = table"
| "insert_hosts (h # hs) table =
     insert_hosts hs (table @ [(insert_defaults h)\<lparr>host_id := next_key host_id table\<rparr>])"

text \<open>\<open>ProxyHost(inbound=inbound)\<close>: the object before its payload is copied into it.\<close>

definition draft_host :: "string \<Rightarrow> proxy_host" where
  "draft_host tag = default_host 0 tag"

section \<open>The repository\<close>

definition hosts_of :: "string \<Rightarrow> db \<Rightarrow> proxy_host list" where
  "hosts_of tag d = filter (\<lambda>h. host_inbound_tag h = tag) (hosts d)"

definition get_or_create :: "string \<Rightarrow> unit op" where
  "get_or_create tag t =
     (if tag \<in> set (inbound_tags (working t)) then (Inr (), t)
      else let d = create_inbound_row tag (working t) in (Inr (), \<lparr>durable = d, working = d\<rparr>))"

definition add_host_rows :: "string \<Rightarrow> host_payload \<Rightarrow> db \<Rightarrow> proxy_host list \<times> db" where
  "add_host_rows tag p d =
     (let sorts = map host_sort (hosts_of tag d);
          next_sort = (case sorts of [] \<Rightarrow> 0 | s # ss \<Rightarrow> foldr max ss s + 1);
          sort_value = (case hp_sort p of Some s \<Rightarrow> s | None \<Rightarrow> next_sort);
          new = apply_proxy_host_payload (draft_host tag) p (Some sort_value);
          d' = d\<lparr>hosts := insert_hosts [new] (hosts d)\<rparr>
      in (hosts_of tag d', d'))"

definition add_host :: "string \<Rightarrow> host_payload \<Rightarrow> proxy_host list op" where
  "add_host tag p = op_bind (get_or_create tag) (\<lambda>_. op_bind (op_work (add_host_rows tag p))
     (\<lambda>hs. op_bind op_commit (\<lambda>_. op_return hs)))"

definition list_hosts :: "string \<Rightarrow> proxy_host list op" where
  "list_hosts tag = op_bind (get_or_create tag) (\<lambda>_ t.
     (Inr (sort_key host_sort (sort_key host_id (hosts_of tag (working t)))), t))"

definition delete_inbound :: "string \<Rightarrow> bool op" where
  "delete_inbound tag t =
     (let d = working t in
      if tag \<notin> set (inbound_tags d) then (Inr False, t)
      else if hosts_of tag d \<noteq> [] then (Inl (Value_error ''Inbound has hosts assigned''), t)
      else (Inr True, t\<lparr>working := d\<lparr>
        users := map (\<lambda>u. u\<lparr>proxies := map (\<lambda>x. x\<lparr>pexcluded := filter (\<lambda>g. g \<noteq> tag) (pexcluded x)\<rparr>)
          (proxies u)\<rparr>) (users d),
        inbound_tags := filter (\<lambda>g. g \<noteq> tag) (inbound_tags d)\<rparr>\<rparr>))"

text \<open>\<open>_detach_hosts_from_services\<close>: the services that lose a link, by id.\<close>

definition linked_services :: "db \<Rightarrow> proxy_host \<Rightarrow> int list" where
  "linked_services d h =
     map sid (filter (\<lambda>sv. host_id h \<in> set (map link_host_id (host_links sv))) (services d))"

definition detach_hosts :: "proxy_host list \<Rightarrow> db \<Rightarrow> int list \<times> db" where
  "detach_hosts hs d =
     (remdups (concat (map (linked_services d) hs)),
      d\<lparr>services := map (\<lambda>sv. sv\<lparr>host_links :=
          filter (\<lambda>l. link_host_id l \<notin> host_id ` set hs) (host_links sv)\<rparr>) (services d)\<rparr>)"

definition delete_hosts :: "proxy_host list \<Rightarrow> db \<Rightarrow> db" where
  "delete_hosts hs d = d\<lparr>hosts := filter (\<lambda>h. host_id h \<notin> host_id ` set hs) (hosts d)\<rparr>"

text \<open>
  \<open>bulk_replace_hosts\<close>. A payload with the id of a row changes that row, in whatever inbound it was;
  every other payload makes a new row. \<open>split_payloads\<close> is the loop: the changed rows and the new
  ones, each with its payload and its place.
\<close>

definition sort_or :: "int \<Rightarrow> int option \<Rightarrow> int" where
  "sort_or idx s = (case s of Some v \<Rightarrow> v | None \<Rightarrow> idx)"

fun split_payloads :: "string \<Rightarrow> db \<Rightarrow> int \<Rightarrow> host_payload list \<Rightarrow>
    proxy_host list \<times> proxy_host list" where
  "split_payloads tag d idx [] = ([], [])"
| "split_payloads tag d idx (p # ps) =
     (let sort_value = Some (sort_or idx (hp_sort p));
          (changed, new) = split_payloads tag d (idx + 1) ps
      in case (case hp_id p of None \<Rightarrow> None | Some i \<Rightarrow> fetch_host i (hosts d)) of
           Some h \<Rightarrow> (apply_proxy_host_payload (h\<lparr>host_inbound_tag := tag\<rparr>) p sort_value # changed, new)
         | None \<Rightarrow> (changed, apply_proxy_host_payload (draft_host tag) p sort_value # new))"

definition payload_ids :: "host_payload list \<Rightarrow> int list" where
  "payload_ids ps = concat (map (\<lambda>p. case hp_id p of None \<Rightarrow> [] | Some i \<Rightarrow> [i]) ps)"

text \<open>
  \<open>rows\<close> are the rows of the inbound after the loop, \<open>removed\<close> those that no payload names. Of
  these the kept ones stay in the inbound.
\<close>

definition replace_rows :: "string \<Rightarrow> host_payload list \<Rightarrow> int list \<Rightarrow> db \<Rightarrow>
    (proxy_host list \<times> int list) result \<times> db" where
  "replace_rows tag ps kept d =
     (let (changed, new) = split_payloads tag d 0 ps;
          removed = filter (\<lambda>h. host_id h \<notin> set (payload_ids ps)) (hosts_of tag d);
          to_delete = filter (\<lambda>h. host_id h \<notin> set kept) removed;
          kept_rows = filter (\<lambda>h. host_id h \<in> set kept) removed;
          (lost, d1) = (if to_delete = [] then ([], d) else detach_hosts to_delete d);
          disabled = filter (\<lambda>h. host_is_disabled h = Some True) (changed @ kept_rows);
          (hidden, d2) = (if disabled = [] then ([], d1) else detach_hosts disabled d1);
          d3 = delete_hosts to_delete d2;
          d4 = d3\<lparr>hosts := insert_hosts new (fold store_host changed (hosts d3))\<rparr>
      in if list_all host_complete changed
         then (Inr (hosts_of tag d4, remdups (lost @ hidden)), d4)
         else (Inl (Integrity_error ''NOT NULL constraint failed''), d))"

definition bulk_replace_hosts :: "string \<Rightarrow> host_payload list \<Rightarrow> int list \<Rightarrow>
    (proxy_host list \<times> int list) op" where
  "bulk_replace_hosts tag ps kept = op_bind (get_or_create tag) (\<lambda>_ t.
     (case replace_rows tag ps kept (working t) of (r, d) \<Rightarrow> (r, t\<lparr>working := d\<rparr>)))"

definition remove_all_hosts :: "string \<Rightarrow> int list op" where
  "remove_all_hosts tag = op_work (\<lambda>d. (let hs = hosts_of tag d in
     if hs = [] then ([], d) else case detach_hosts hs d of (svcs, d') \<Rightarrow> (svcs, delete_hosts hs d')))"

definition disable_hosts :: "string \<Rightarrow> int list op" where
  "disable_hosts tag = op_work (\<lambda>d. (let hs = hosts_of tag d in
     case detach_hosts hs d of (svcs, d') \<Rightarrow> (svcs, d'\<lparr>hosts :=
       update_where (\<lambda>h. host_inbound_tag h = tag) (\<lambda>h. h\<lparr>host_is_disabled := Some True\<rparr>) (hosts d')\<rparr>)))"

section \<open>Refreshing users\<close>

definition refresh_one :: "environment \<Rightarrow> instant \<Rightarrow> service \<Rightarrow> (proxy_type \<times> string list) list \<Rightarrow>
    user \<Rightarrow> user op" where
  "refresh_one env now svc allowed u t =
     (case apply_service_to_user env now True svc allowed
         \<lparr>committed = working t, obj = u, doomed = []\<rparr> of (r, s) \<Rightarrow>
       (let s' = flush_obj s;
            t' = \<lparr>durable = (if inbound_tags (committed s) = inbound_tags (working t)
                             then durable t else committed s),
                  working = committed s'\<rparr>
        in (case r of Inl e \<Rightarrow> (Inl e, t') | Inr _ \<Rightarrow> (Inr (obj s'), t'))))"

definition service_users :: "db \<Rightarrow> int \<Rightarrow> user list" where
  "service_users d i = filter (\<lambda>u. service_id u = Some i) (users d)"

definition refresh_users :: "environment \<Rightarrow> instant \<Rightarrow> service \<Rightarrow> (proxy_type \<times> string list) list \<Rightarrow>
    user list op" where
  "refresh_users env now svc allowed t =
     op_each (refresh_one env now svc allowed)
       (filter (\<lambda>u. status u \<noteq> Deleted) (service_users (working t) (sid svc))) t"

text \<open>\<open>repo.get\<close>: the links come in the order of \<open>sort\<close>.\<close>

definition get_service :: "db \<Rightarrow> int \<Rightarrow> service option" where
  "get_service d i = map_option (\<lambda>sv. sv\<lparr>host_links := sort_key link_sort (host_links sv)\<rparr>)
     (fetch_service i (services d))"

definition refresh_by_id :: "environment \<Rightarrow> instant \<Rightarrow> int \<Rightarrow> user list op" where
  "refresh_by_id env now i t = (case get_service (working t) i of
     None \<Rightarrow> (Inr [], t)
   | Some svc \<Rightarrow> refresh_users env now svc
       (compute_allowed_inbounds (core env) (hosts (working t)) svc) t)"

definition refresh_service_users_by_id :: "environment \<Rightarrow> instant \<Rightarrow> int \<Rightarrow> user list op" where
  "refresh_service_users_by_id env now i = op_bind (refresh_by_id env now i)
     (\<lambda>us. if us = [] then op_return us else op_bind op_commit (\<lambda>_. op_return us))"

section \<open>Replacing the hosts of an inbound\<close>

definition update_hosts :: "environment \<Rightarrow> instant \<Rightarrow> string \<Rightarrow> host_payload list \<Rightarrow> int list \<Rightarrow> bool \<Rightarrow>
    (proxy_host list \<times> user list) op" where
  "update_hosts env now tag ps kept refresh =
     op_bind (bulk_replace_hosts tag ps kept) (\<lambda>(hs, affected).
     op_bind (if refresh then op_each (refresh_by_id env now) affected else op_return [])
       (\<lambda>us. op_bind op_commit (\<lambda>_. op_return (hs, concat us))))"

definition update_hosts_simple :: "string \<Rightarrow> host_payload list \<Rightarrow> int list \<Rightarrow> proxy_host list op" where
  "update_hosts_simple tag ps kept =
     op_bind (bulk_replace_hosts tag ps kept) (\<lambda>(hs, affected).
     op_bind op_commit (\<lambda>_. op_return hs))"

section \<open>The host endpoints\<close>

definition ensure_hosts_permission :: "principal \<Rightarrow> unit result" where
  "ensure_hosts_permission a =
     (if pr_role a \<in> {Sudo, Full_access} then Inr ()
      else if sec_hosts (sections (pr_permissions a)) then Inr ()
      else Inl (Http_error 403 ''You're not allowed''))"

definition op_check :: "unit result \<Rightarrow> unit op" where
  "op_check r t = (r, t)"

definition services_of_host :: "int \<Rightarrow> db \<Rightarrow> int list" where
  "services_of_host i d =
     map sid (filter (\<lambda>sv. list_ex (\<lambda>l. link_host_id l = i) (host_links sv)) (services d))"

text \<open>\<open>update_host_status\<close> answers with the host, and queues a refresh of the services linked to it.\<close>

definition update_host_status :: "principal \<Rightarrow> int \<Rightarrow> bool \<Rightarrow> (proxy_host \<times> int list) op" where
  "update_host_status a i disabled =
     op_bind (op_check (ensure_hosts_permission a)) (\<lambda>_ t.
       (case fetch_host i (hosts (working t)) of
          None \<Rightarrow> (Inl (Http_error 404 ''Host not found''), t)
        | Some h \<Rightarrow>
            (let h' = h\<lparr>host_is_disabled := Some disabled\<rparr>;
                 d = (working t)\<lparr>hosts := store_host h' (hosts (working t))\<rparr>
             in (Inr (h', services_of_host i d), \<lparr>durable = d, working = d\<rparr>))))"

definition services_of_inbounds :: "string list \<Rightarrow> db \<Rightarrow> int list" where
  "services_of_inbounds tags d = map sid (filter (\<lambda>sv. list_ex (\<lambda>l.
     (case fetch_host (link_host_id l) (hosts d) of None \<Rightarrow> False
      | Some h \<Rightarrow> host_inbound_tag h \<in> set tags)) (host_links sv)) (services d))"

text \<open>
  \<open>modify_hosts\<close>: one commit per inbound, then the services to refresh are looked up, among the
  links that are left. \<open>known\<close> are the tags of the core's configuration: for the answer the hosts of
  every one of them are read, which creates the row of an inbound the tables do not have. The result
  is the services queued for a refresh, and the answer.
\<close>

definition replace_and_find :: "(string \<times> host_payload list) list \<Rightarrow> int list op" where
  "replace_and_find payload =
     (let kept = concat (map (\<lambda>(_, ps). payload_ids ps) payload) in
      op_bind (op_each (\<lambda>(tag, ps). update_hosts_simple tag ps kept) payload) (\<lambda>_ t.
        (Inr (services_of_inbounds (map fst payload) (working t)), t)))"

definition modify_hosts :: "principal \<Rightarrow> string list \<Rightarrow> (string \<times> host_payload list) list \<Rightarrow>
    (int list \<times> (string \<times> proxy_host list) list) op" where
  "modify_hosts a known payload =
     op_bind (op_check (ensure_hosts_permission a)) (\<lambda>_.
     op_bind (op_check (if list_all (\<lambda>(tag, _). tag \<in> set known) payload then Inr ()
         else Inl (Http_error 400 ''Inbound doesn't exist''))) (\<lambda>_.
     op_bind (replace_and_find payload) (\<lambda>ids.
     op_bind (op_each list_hosts known) (\<lambda>hss. op_return (ids, zip known hss)))))"

text \<open>
  The queued task: it has a session of its own, commits after each service, and stops with a log
  line at the first exception.
\<close>

definition refresh_and_commit :: "environment \<Rightarrow> instant \<Rightarrow> int \<Rightarrow> user list op" where
  "refresh_and_commit env now i t = (case get_service (working t) i of
     None \<Rightarrow> (Inr [], t)
   | Some svc \<Rightarrow> op_bind (refresh_by_id env now i)
       (\<lambda>us. op_bind op_commit (\<lambda>_. op_return us)) t)"

definition service_users_refresh :: "environment \<Rightarrow> instant \<Rightarrow> int list \<Rightarrow> db \<Rightarrow> db" where
  "service_users_refresh env now ids d =
     snd (outcome (op_each (refresh_and_commit env now) (sort (remdups ids))) d)"

end
