(* ===== verification/Quota.thy ===== *)
theory Quota
  imports Lifecycle
begin

text \<open>
  The quota on an admin's active users. \<open>within_quota\<close> is the invariant; the locale
  \<open>guarded_change\<close> is the contract of an operation on one row that checks the quota before it
  makes a row active, and every such operation of the code interprets it. The bulk operations
  that compute the free slots up front are treated separately, and so are the loops that check
  each row against the tables of the last commit, which do not keep the invariant.
\<close>

text \<open>
  Resetting traffic counters, from \<open>app/db/crud/usage.py\<close>: \<open>reset_user_data_usage\<close> for one
  user and \<open>reset_all_users_data_usage\<close> for all of them. A reset keeps the lifetime total by
  logging what it clears; the bulk reset drops the logs.
\<close>

definition within_quota :: "db \<Rightarrow> bool" where
  "within_quota d \<longleftrightarrow> (\<forall>a \<in> set (admins d). is_user_limit_enforced (Some a) \<longrightarrow>
     get_active_users_count d a [] \<le> or_zero (users_limit a))"

section \<open>Counting\<close>

lemma enforced_Some [cycle_simps]:
  "is_user_limit_enforced (Some a) \<longleftrightarrow> (\<exists>n. users_limit a = Some n \<and> n > 0)"
  by (auto simp: is_user_limit_enforced_def split: option.splits)

lemma enforced_None [cycle_simps]: "\<not> is_user_limit_enforced None"
  by (simp add: is_user_limit_enforced_def)

lemma capacity_granted:
  assumes "ensure_active_user_capacity d (Some a) n excl = Inr ()"
    and "is_user_limit_enforced (Some a)" and "n > 0"
  shows "get_active_users_count d a excl + n \<le> or_zero (users_limit a)"
  using assms by (auto simp: ensure_active_user_capacity_def Let_def split: if_splits)

lemma capacity_refused_iff:
  "ensure_active_user_capacity d (Some a) n excl \<noteq> Inr () \<longleftrightarrow>
     is_user_limit_enforced (Some a) \<and> n > 0 \<and>
     get_active_users_count d a excl + n > or_zero (users_limit a)"
  by (auto simp: ensure_active_user_capacity_def Let_def)

lemma count_exclude:
  assumes "distinct (map uid us)" and "fetch_user i us = Some q"
  shows "count_where (active_under a []) us =
     count_where (active_under a [i]) us + (if active_under a [] q then 1 else 0)"
  using assms
proof (induction us)
  case Nil
  then show ?case by simp
next
  case (Cons u us)
  show ?case
  proof (cases "uid u = i")
    case True
    have "count_where (active_under a []) us = count_where (active_under a [i]) us"
      by (rule count_where_cong) (use Cons.prems True in \<open>auto simp: active_under_def image_iff\<close>)
    moreover have "\<not> active_under a [i] u" and "u = q"
      using True Cons.prems by (simp_all add: active_under_def)
    ultimately show ?thesis by (simp add: row_simps)
  next
    case False
    then have "active_under a [i] u = active_under a [] u" by (simp add: active_under_def)
    with False Cons show ?thesis by (simp add: row_simps)
  qed
qed

lemma active_under_other [simp]: "uid u \<noteq> i \<Longrightarrow> active_under a [i] u = active_under a [] u"
  by (simp add: active_under_def)

lemma admin_of_member: "wf_db d \<Longrightarrow> a \<in> set (admins d) \<Longrightarrow> admin_id u = Some (aid a) \<Longrightarrow>
    admin_of d u = Some a"
proof -
  assume wf: "wf_db d" and a: "a \<in> set (admins d)" and u: "admin_id u = Some (aid a)"
  obtain b where b: "fetch_admin (aid a) (admins d) = Some b"
    using a admin_table.fetch_None [of "aid a" "admins d"]
    by (cases "fetch_admin (aid a) (admins d)") auto
  then have "b \<in> set (admins d)" "aid b = aid a"
    using admin_table.fetch_key by blast+
  with wf a have "b = a" by (auto simp: wf_db_def distinct_map dest: inj_onD)
  with b u show ?thesis by (simp add: admin_of_def)
qed

section \<open>Operations that check before they activate\<close>

locale guarded_change =
  fixes change :: "db \<Rightarrow> user \<Rightarrow> user result"
  assumes change_owner: "change d u = Inr u' \<Longrightarrow> uid u' = uid u \<and> admin_id u' = admin_id u"
    and change_guard: "change d u = Inr u' \<Longrightarrow> status u' = Active \<Longrightarrow> status u \<noteq> Active \<Longrightarrow>
      ensure_active_user_capacity d (admin_of d u) 1 [uid u] = Inr ()"
begin

lemma keeps_quota:
  assumes wf: "wf_db d" and u: "fetch_user (uid u) (users d) = Some u"
    and quota: "within_quota d" and res: "change d u = Inr u'"
  shows "within_quota (save_user u' d)"
  unfolding within_quota_def
proof (intro ballI impI)
  fix a assume "a \<in> set (admins (save_user u' d))" and enf: "is_user_limit_enforced (Some a)"
  then have a: "a \<in> set (admins d)" by simp
  have own: "uid u' = uid u" "admin_id u' = admin_id u" using change_owner [OF res] by auto
  have dist: "distinct (map uid (users d))" using wf by (simp add: wf_db_def)
  let ?act = "\<lambda>w. active_under (aid a) [] w"
  have cnt: "get_active_users_count (save_user u' d) a [] =
      get_active_users_count d a [] - (if ?act u then 1 else 0) + (if ?act u' then 1 else 0)"
    using user_table.count_store [OF dist, of u' u] u own
    by (simp add: get_active_users_count_def)
  show "get_active_users_count (save_user u' d) a [] \<le> or_zero (users_limit a)"
  proof (cases "?act u' \<and> \<not> ?act u")
    case True
    then have st: "status u' = Active" "status u \<noteq> Active" and adm: "admin_id u = Some (aid a)"
      using own by (auto simp: active_under_def)
    have "ensure_active_user_capacity d (Some a) 1 [uid u] = Inr ()"
      using change_guard [OF res st] admin_of_member [OF wf a adm] by simp
    from capacity_granted [OF this enf]
    have "get_active_users_count d a [uid u] + 1 \<le> or_zero (users_limit a)" by simp
    with count_exclude [OF dist u, of "aid a"] cnt True show ?thesis
      by (simp add: get_active_users_count_def)
  next
    case False
    with cnt have "get_active_users_count (save_user u' d) a [] \<le> get_active_users_count d a []"
      by auto
    also have "\<dots> \<le> or_zero (users_limit a)" using quota a enf by (simp add: within_quota_def)
    finally show ?thesis .
  qed
qed

lemma keeps_wf: "wf_db d \<Longrightarrow> change d u = Inr u' \<Longrightarrow> wf_db (save_user u' d)"
  by simp

end

lemma then_res_Inr: "then_res r f = Inr y \<longleftrightarrow> (\<exists>x. r = Inr x \<and> f x = Inr y)"
  by (cases r) auto

interpretation sync_expire: guarded_change "sync_user_status_from_expire now" for now
  by unfold_locales
    (auto simp: sync_user_status_from_expire_def Let_def then_res_Inr split: if_splits)

interpretation sync_usage: guarded_change "sync_user_status_from_usage now" for now
  by unfold_locales
    (auto simp: sync_user_status_from_usage_def Let_def then_res_Inr split: if_splits)

text \<open>The row that \<open>reset_user_by_next\<close> commits, as a change of one row.\<close>

definition next_plan_change :: "instant \<Rightarrow> db \<Rightarrow> user \<Rightarrow> user result" where
  "next_plan_change now d u = (case reset_user_by_next_obj now d u of
     (Inl e, _) \<Rightarrow> Inl e | (Inr _, u') \<Rightarrow> Inr u')"

interpretation next_plan: guarded_change "next_plan_change now" for now
proof unfold_locales
  fix d u u' assume "next_plan_change now d u = Inr u'"
  then show "uid u' = uid u \<and> admin_id u' = admin_id u"
    by (auto simp: next_plan_change_def reset_user_by_next_obj_def Let_def
        split: option.splits if_splits sum.splits)
next
  fix d u u' assume "next_plan_change now d u = Inr u'" "status u' = Active" "status u \<noteq> Active"
  then show "ensure_active_user_capacity d (admin_of d u) 1 [uid u] = Inr ()"
    by (auto simp: next_plan_change_def reset_user_by_next_obj_def Let_def
        split: option.splits if_splits sum.splits)
qed

section \<open>Bulk operations that reserve the slots\<close>

lemma fold_res_checks:
  "fold_res (\<lambda>x _. f x) xs () = Inr () \<longleftrightarrow> (\<forall>x \<in> set xs. f x = Inr ())"
  by (induction xs) (auto split: sum.splits)

lemma count_activated:
  assumes "\<And>u. sel u \<Longrightarrow> status u \<noteq> Active"
  shows "count_where (active_under a [])
      (update_where sel (\<lambda>u. u\<lparr>status := Active, last_status_change := t\<rparr>) us) =
    count_where (active_under a []) us + count_where (\<lambda>u. sel u \<and> admin_id u = Some a) us"
proof -
  have "count_where (\<lambda>u. \<not> sel u \<and> active_under a [] u) us = count_where (active_under a []) us"
    by (rule count_where_cong) (use assms in \<open>auto simp: active_under_def\<close>)
  then show ?thesis by (simp add: count_where_update active_under_def)
qed

lemma count_deactivated:
  assumes "st \<noteq> Active"
  shows "count_where (active_under a excl)
      (update_where sel (\<lambda>u. u\<lparr>status := st, last_status_change := t\<rparr>) us)
    \<le> count_where (active_under a excl) us"
proof -
  have "count_where (\<lambda>u. sel u \<and> active_under a excl
      (u\<lparr>status := st, last_status_change := t\<rparr>)) us = 0"
    using assms by (simp add: count_where_zero_iff active_under_def)
  moreover have "count_where (\<lambda>u. \<not> sel u \<and> active_under a excl u) us
      \<le> count_where (active_under a excl) us"
    by (rule count_where_mono) simp
  ultimately show ?thesis by (simp add: count_where_update)
qed

lemma bulk_status_keeps_quota:
  assumes wf: "wf_db d" and quota: "within_quota d"
    and adm: "\<And>x. a = Some x \<Longrightarrow> x \<in> set (admins d)"
    and res: "bulk_update_user_status now target a svc without d = Inr (n, d')"
  shows "within_quota d'"
  unfolding within_quota_def
proof (intro ballI impI)
  fix b assume b: "b \<in> set (admins d')" and enf: "is_user_limit_enforced (Some b)"
  let ?sel = "\<lambda>u. bulk_query a svc without u \<and> status u \<noteq> target"
  have d': "admins d' = admins d"
    "users d' = update_where ?sel (\<lambda>u. u\<lparr>status := target, last_status_change := Some now\<rparr>) (users d)"
    using res by (auto simp: bulk_update_user_status_def Let_def then_res_Inr)
  have b_in: "b \<in> set (admins d)" using b d'(1) by simp
  have old: "count_where (active_under (aid b) []) (users d) \<le> or_zero (users_limit b)"
    using quota b_in enf by (simp add: within_quota_def get_active_users_count_def)
  have "count_where (active_under (aid b) []) (users d') \<le> or_zero (users_limit b)"
  proof (cases "target = Active")
    case False
    then show ?thesis using count_deactivated [of target] old unfolding d'(2)
      by (meson order_trans)
  next
    case True
    let ?new = "count_where (\<lambda>u. ?sel u \<and> admin_id u = Some (aid b)) (users d)"
    have cnt: "count_where (active_under (aid b) []) (users d') =
        count_where (active_under (aid b) []) (users d) + ?new"
      using count_activated [of ?sel "aid b" "Some now" "users d"] True unfolding d'(2) by auto
    show ?thesis
    proof (cases "?new > 0")
      case False
      then have "?new = 0" using count_where_nonneg [of _ "users d"] by (metis less_le)
      with cnt old show ?thesis by simp
    next
      case pos: True
      then have "\<not> (\<forall>u \<in> set (users d). \<not> (?sel u \<and> admin_id u = Some (aid b)))"
        using count_where_zero_iff [of "\<lambda>u. ?sel u \<and> admin_id u = Some (aid b)" "users d"] by auto
      then obtain u where u: "u \<in> set (users d)" "?sel u" "admin_id u = Some (aid b)" by auto
      have "get_active_users_count d b [] + ?new \<le> or_zero (users_limit b)"
      proof (cases a)
        case (Some x)
        have "aid x = aid b" using u Some by (simp add: bulk_query_def)
        then have "x = b" using adm [OF Some] b_in wf by (auto simp: wf_db_def distinct_map dest: inj_onD)
        moreover have "?new = count_where ?sel (users d)"
          by (rule count_where_cong) (use Some \<open>x = b\<close> in \<open>auto simp: bulk_query_def\<close>)
        ultimately show ?thesis using res Some True pos capacity_granted [OF _ enf]
          by (auto simp: bulk_update_user_status_def Let_def then_res_Inr)
      next
        case None
        have "fetch_admin (aid b) (admins d) = Some b"
          using admin_of_member [OF wf b_in, of "u"] u(3) by (simp add: admin_of_def)
        moreover have all: "\<forall>owner \<in> admin_id ` set (filter (\<lambda>u. ?sel u \<and> status u \<noteq> Active) (users d)).
            ensure_active_user_capacity d
              (case owner of None \<Rightarrow> None | Some i \<Rightarrow> fetch_admin i (admins d))
              (count_where (\<lambda>u. (?sel u \<and> status u \<noteq> Active) \<and> admin_id u = owner) (users d)) [] = Inr ()"
          using res None True
          by (simp add: bulk_update_user_status_def Let_def then_res_Inr fold_res_checks)
        moreover have "Some (aid b) \<in> admin_id ` set (filter (\<lambda>u. ?sel u \<and> status u \<noteq> Active) (users d))"
          using u True by (force simp: image_iff)
        moreover have "count_where (\<lambda>u. (?sel u \<and> status u \<noteq> Active) \<and> admin_id u = Some (aid b))
            (users d) = ?new"
          by (rule count_where_cong) (use True in auto)
        ultimately have "ensure_active_user_capacity d (Some b) ?new [] = Inr ()"
          using bspec [OF all, of "Some (aid b)"] by simp
        then show ?thesis using capacity_granted [OF _ enf] pos by blast
      qed
      then show ?thesis using cnt by (simp add: get_active_users_count_def)
    qed
  qed
  then show "get_active_users_count d' b [] \<le> or_zero (users_limit b)"
    by (simp add: get_active_users_count_def)
qed

subsection \<open>Reactivation\<close>

lemma activate_loop_length [simp]: "length (activate_loop now r us) = length us"
  by (induction now r us rule: activate_loop.induct) (auto simp: Let_def split: option.splits)

lemma activate_loop_key: "map uid (activate_loop now r us) = map uid us"
  by (induction now r us rule: activate_loop.induct)
    (auto simp: Let_def retarget_def split: option.splits)

lemma activate_loop_owner: "map admin_id (activate_loop now r us) = map admin_id us"
  by (induction now r us rule: activate_loop.induct)
    (auto simp: Let_def retarget_def split: option.splits)

text \<open>The loop makes at most as many rows active as there are slots.\<close>

lemma activate_loop_slots:
  "\<forall>u \<in> set us. status u = Disabled \<Longrightarrow>
   count_where (\<lambda>u. status u = Active) (activate_loop now (Some n) us) \<le> max n 0"
proof (induction us arbitrary: n)
  case Nil
  then show ?case by (simp add: row_simps)
next
  case (Cons u us)
  note IH = Cons.IH [of n] Cons.IH [of "n - 1"]
  show ?case using IH Cons.prems by (auto simp: Let_def row_simps retarget_def)
qed

lemma activate_loop_owners:
  "\<forall>u \<in> set us. admin_id u = x \<Longrightarrow> \<forall>u \<in> set (activate_loop now r us). admin_id u = x"
  by (metis activate_loop_owner image_set imageE imageI)

text \<open>Rows of a table written back by a loop that keeps their keys.\<close>

lemma count_loop_written:
  assumes dist: "distinct (map uid us)" and sub: "set objs \<subseteq> set us"
    and objs: "distinct (map uid objs)" and keys: "map uid objs' = map uid objs"
  shows "count_where p (fold store_user objs' us) =
    count_where p us - count_where p objs + count_where p objs'"
proof -
  have len: "length objs = length objs'" using keys map_eq_imp_length_eq by metis
  let ?ps = "zip objs objs'"
  have "count_where p (fold store_user (map snd ?ps) us) =
      count_where p us - count_where p (map fst ?ps) + count_where p (map snd ?ps)"
  proof (rule user_table.count_fold_store [OF dist])
    show "distinct (map (uid \<circ> fst) ?ps)" using objs len by (simp flip: map_map)
    fix q r assume qr: "(q, r) \<in> set ?ps"
    then obtain i where i: "i < length objs" "q = objs ! i" "r = objs' ! i"
      using len by (auto simp: in_set_zip)
    then have "uid r = uid q" using keys len by (metis nth_map)
    moreover have "q \<in> set us" using sub i nth_mem by blast
    ultimately show "uid r = uid q \<and> fetch_user (uid q) us = Some q"
      using user_table.fetch_member [OF dist] by simp
  qed
  then show ?thesis using len by simp
qed

lemma distinct_uid_sort: "distinct (map uid (sort_key f us)) = distinct (map uid us)"
  by (simp add: distinct_map)

lemma distinct_uid_filter: "distinct (map uid us) \<Longrightarrow> distinct (map uid (filter P us))"
  by (simp add: distinct_map inj_on_def)

lemma activate_all_keeps_quota:
  assumes wf: "wf_db d" and quota: "within_quota d" and a: "a \<in> set (admins d)"
  shows "within_quota (activate_all_disabled_users now (Some a) d)"
  unfolding within_quota_def
proof (intro ballI impI)
  let ?d' = "activate_all_disabled_users now (Some a) d"
  fix b assume b: "b \<in> set (admins ?d')" and enf: "is_user_limit_enforced (Some b)"
  define objs where "objs = sort_key created_at
    (filter (\<lambda>u. status u = Disabled \<and> admin_id u = Some (aid a)) (users d))"
  define r where "r = (if is_user_limit_enforced (Some a)
    then Some (max (or_zero (users_limit a) - get_active_users_count d a []) 0) else None)"
  let ?loop = "activate_loop now r objs" and ?p = "active_under (aid b) []"
  have d': "users ?d' = fold store_user ?loop (users d)" "admins ?d' = admins d"
    by (simp_all add: activate_all_disabled_users_def Let_def objs_def r_def)
  have b_in: "b \<in> set (admins d)" using b d' by simp
  have dist: "distinct (map uid (users d))" using wf by (simp add: wf_db_def)
  have objs: "set objs \<subseteq> set (users d)" "distinct (map uid objs)"
    "\<forall>u \<in> set objs. status u = Disabled" "\<forall>u \<in> set objs. admin_id u = Some (aid a)"
    using distinct_uid_filter [OF dist] by (auto simp: objs_def distinct_uid_sort)
  have old: "count_where ?p (users d) \<le> or_zero (users_limit b)"
    using quota b_in enf by (simp add: within_quota_def get_active_users_count_def)
  have "count_where ?p objs = 0"
    using objs(3) by (simp add: count_where_zero_iff active_under_def)
  then have cnt: "count_where ?p (users ?d') = count_where ?p (users d) + count_where ?p ?loop"
    using count_loop_written [OF dist objs(1,2) activate_loop_key] by (simp add: d')
  have "count_where ?p ?loop \<le> or_zero (users_limit b) - count_where ?p (users d)"
  proof (cases "b = a")
    case True
    have "count_where ?p ?loop \<le> count_where (\<lambda>u. status u = Active) ?loop"
      by (rule count_where_mono) (simp add: active_under_def)
    also have "\<dots> \<le> max (or_zero (users_limit a) - get_active_users_count d a []) 0"
      using activate_loop_slots [OF objs(3), of now
          "max (or_zero (users_limit a) - get_active_users_count d a []) 0"] enf True
      by (simp add: r_def)
    finally show ?thesis using old True by (simp add: get_active_users_count_def)
  next
    case False
    then have "aid b \<noteq> aid a"
      using wf a b_in by (auto simp: wf_db_def distinct_map dest: inj_onD)
    then have "count_where ?p ?loop = 0"
      using activate_loop_owners [OF objs(4)] by (auto simp: count_where_zero_iff active_under_def)
    with old show ?thesis by simp
  qed
  with cnt show "get_active_users_count ?d' b [] \<le> or_zero (users_limit b)"
    by (simp add: get_active_users_count_def)
qed

text \<open>
  Deleting the first next plan and assigning \<open>None\<close> to \<open>next_plan\<close> goes through the property's
  setter, which empties the whole list.
\<close>

definition drop_next_plan :: "user \<Rightarrow> user" where
  "drop_next_plan u = (if next_plan_of u \<noteq> None then u\<lparr>next_plans := []\<rparr> else u)"

text \<open>The row object as the function has changed it when it comes to the quota check.\<close>

definition reset_logged :: "instant \<Rightarrow> user \<Rightarrow> user" where
  "reset_logged now u = u\<lparr>usage_logs := usage_logs u @
       [\<lparr>used_traffic_at_reset = used_traffic u, reset_at = now\<rparr>],
     used_traffic := 0, node_usages := []\<rparr>"

definition reset_user_data_usage_obj :: "instant \<Rightarrow> db \<Rightarrow> user \<Rightarrow> user result" where
  "reset_user_data_usage_obj now d u =
     (let should_activate = (status u \<notin> {Expired, Disabled})
      in then_res
        (if should_activate \<and> status u \<noteq> Active
         then ensure_active_user_capacity d (admin_of d u) 1 [uid u] else Inr ())
        (\<lambda>_. Inr (drop_next_plan
           (if should_activate then (reset_logged now u)\<lparr>status := Active\<rparr> else reset_logged now u))))"

definition reset_user_data_usage :: "instant \<Rightarrow> db \<Rightarrow> user \<Rightarrow> (user \<times> db) result" where
  "reset_user_data_usage now d u =
     then_res (reset_user_data_usage_obj now d u) (\<lambda>u'. Inr (u', save_user u' d))"

definition reset_all_obj :: "db \<Rightarrow> user \<Rightarrow> user result" where
  "reset_all_obj d u =
     (let should_activate = (status u \<notin> {On_hold, Expired, Disabled}) in
      then_res
        (if should_activate \<and> status u \<noteq> Active
         then ensure_active_user_capacity d (admin_of d u) 1 [uid u] else Inr ())
        (\<lambda>_. let u' = u\<lparr>used_traffic := 0\<rparr>;
                  u'' = (if should_activate then u'\<lparr>status := Active\<rparr> else u')
             in Inr (drop_next_plan (u''\<lparr>usage_logs := [], node_usages := []\<rparr>))))"

definition reset_all_users_data_usage :: "admin option \<Rightarrow> db \<Rightarrow> db result" where
  "reset_all_users_data_usage a d =
     then_res (fold_res (\<lambda>u acc. then_res (reset_all_obj d u) (\<lambda>u'. Inr (acc @ [u'])))
         (filter (\<lambda>u. status u \<noteq> Deleted \<and>
             (case a of None \<Rightarrow> True | Some adm \<Rightarrow> admin_id u = Some (aid adm))) (users d)) [])
       (\<lambda>objs. Inr (d\<lparr>users := fold store_user objs (users d)\<rparr>))"

section \<open>Lemmas\<close>

lemma drop_next_plan_simps [cycle_simps]:
  "uid (drop_next_plan u) = uid u" "admin_id (drop_next_plan u) = admin_id u"
  "status (drop_next_plan u) = status u" "used_traffic (drop_next_plan u) = used_traffic u"
  "usage_logs (drop_next_plan u) = usage_logs u" "next_plans (drop_next_plan u) = []"
  "data_limit (drop_next_plan u) = data_limit u" "expire (drop_next_plan u) = expire u"
  "node_usages (drop_next_plan u) = node_usages u"
  by (auto simp: drop_next_plan_def next_plan_of_def split: list.splits)

interpretation usage_reset: guarded_change "reset_user_data_usage_obj now" for now
  by unfold_locales
    (auto simp: reset_user_data_usage_obj_def reset_logged_def Let_def then_res_Inr cycle_simps split: if_splits)

lemma reset_obj_effect:
  assumes "reset_user_data_usage_obj now d u = Inr u'"
  shows "used_traffic u' = 0" "next_plans u' = []" "node_usages u' = []"
    "lifetime_used_traffic u' = lifetime_used_traffic u"
    "status u' = (if status u \<in> {Expired, Disabled} then status u else Active)"
    "data_limit u' = data_limit u" "expire u' = expire u"
  using assms by (auto simp: reset_user_data_usage_obj_def reset_logged_def Let_def then_res_Inr cycle_simps
      lifetime_used_traffic_def split: if_splits)

lemma reset_by_next_effect:
  assumes "reset_user_by_next_obj now d u = (Inr True, u')"
  shows "used_traffic u' = 0" "status u' = Active" "node_usages u' = []"
    "lifetime_used_traffic u' = lifetime_used_traffic u"
    "length (next_plans u') = length (next_plans u) - 1"
  using assms
proof -
  have len: "length (renumber i ps) = length ps" for i ps
    by (induction i ps rule: renumber.induct) auto
  show "used_traffic u' = 0" "status u' = Active" "node_usages u' = []"
    "lifetime_used_traffic u' = lifetime_used_traffic u"
    "length (next_plans u') = length (next_plans u) - 1"
    using assms by (auto simp: reset_user_by_next_obj_def Let_def lifetime_used_traffic_def len
        split: option.splits if_splits sum.splits)
qed

lemma reset_by_next_waits:
  "reset_user_by_next_obj now d u = (Inr False, u') \<Longrightarrow> u' = u"
  by (auto simp: reset_user_by_next_obj_def Let_def split: option.splits if_splits sum.splits)

end
