(* ===== verification/Admins.thy ===== *)
theory Admins
  imports Quota
begin

text \<open>
  The admin repository, \<open>app/db/crud/admin.py\<close>: lookup, creation, update, permissions, API
  keys, the data limit of an admin and its enforcement, and the removal of an admin with all
  that belongs to it. \<open>enforce\<close> and \<open>enable\<close> operations commit in the middle, so the operations
  that call them return what is committed together with the result. The external parts are
  parameters: \<open>restart_ok\<close> says whether restarting Xray returned, \<open>hash1\<close> and \<open>hash2\<close> are two
  salted hashes of the new password, \<open>sha\<close> is the token digest.
\<close>

named_theorems admin_simps "unfolding of the admin operations"

definition exhausted_reason :: string where
  "exhausted_reason = ''admin_data_limit_exhausted''"

section \<open>Lookup\<close>

definition get_admin_by_id :: "db \<Rightarrow> int \<Rightarrow> admin option" where
  "get_admin_by_id d i = List.find (\<lambda>a. admin_status a \<noteq> Admin_deleted \<and> aid a = i) (admins d)"

definition get_admin :: "db \<Rightarrow> string option \<Rightarrow> int option \<Rightarrow> admin option" where
  "get_admin d name i = (case i of
     Some n \<Rightarrow> get_admin_by_id d n
   | None \<Rightarrow> (case name of
       None \<Rightarrow> None
     | Some s \<Rightarrow> if s = '''' then None else List.find (\<lambda>a. admin_status a \<noteq> Admin_deleted \<and>
            lower (admin_username a) = lower s) (admins d)))"

definition get_admin_by_telegram_id :: "db \<Rightarrow> int \<Rightarrow> admin option" where
  "get_admin_by_telegram_id d t =
     List.find (\<lambda>a. admin_telegram_id a = Some t \<and> admin_status a \<noteq> Admin_deleted) (admins d)"

definition get_admin_api_key_by_token :: "(string \<Rightarrow> string) \<Rightarrow> db \<Rightarrow> string \<Rightarrow> api_key option" where
  "get_admin_api_key_by_token sha d token = List.find (\<lambda>k. key_hash k = sha token) (api_keys d)"

definition create_admin_api_key :: "(string \<Rightarrow> string) \<Rightarrow> int \<Rightarrow> string \<Rightarrow> db \<Rightarrow> admin \<Rightarrow>
    instant option \<Rightarrow> (api_key \<times> string) \<times> db" where
  "create_admin_api_key sha fresh_id random d a expires =
     (let token = ''rk_'' @ random;
          record' = \<lparr>key_id = fresh_id, key_admin_id = aid a, key_hash = sha token,
            key_expires_at = expires, key_last_used_at = None\<rparr>
      in ((record', token), d\<lparr>api_keys := api_keys d @ [record']\<rparr>))"

definition delete_admin_api_key :: "db \<Rightarrow> admin \<Rightarrow> int \<Rightarrow> bool \<times> db" where
  "delete_admin_api_key d a i =
     (case List.find (\<lambda>k. key_id k = i \<and> key_admin_id k = aid a) (api_keys d) of
        None \<Rightarrow> (False, d)
      | Some k \<Rightarrow> (True, d\<lparr>api_keys := filter (\<lambda>q. key_id q \<noteq> key_id k) (api_keys d)\<rparr>))"

section \<open>Permissions\<close>

text \<open>\<open>_normalize_permissions_for_role\<close>: role defaults, then the stored ones, then the incoming.\<close>

definition normalize_permissions_for_role :: "(json \<Rightarrow> bool option) \<Rightarrow> (json \<Rightarrow> int option) \<Rightarrow>
    admin_role \<Rightarrow> admin_permissions option \<Rightarrow> json_dict option \<Rightarrow> admin_permissions result" where
  "normalize_permissions_for_role cb ci role incoming current =
     (let base = role_default_permissions role in
      then_res (case current of None \<Rightarrow> Inr None
                | Some cur \<Rightarrow> then_res (validate_permissions cb ci cur) (\<lambda>p. Inr (Some p))) (\<lambda>existing.
      then_res (case existing of None \<Rightarrow> Inr base | Some p \<Rightarrow> merge_permissions cb ci base p) (\<lambda>merged.
      (case incoming of None \<Rightarrow> Inr merged | Some q \<Rightarrow> merge_permissions cb ci merged q))))"

definition validate_max_data_limit :: "admin_permissions \<Rightarrow> unit result" where
  "validate_max_data_limit p =
     (if allow_unlimited_data (perm_users p) \<and> max_data_limit_per_user (perm_users p) \<noteq> None
      then Inl (Value_error ''Cannot set max_data_limit_per_user when allow_unlimited_data is enabled. Disable unlimited data first to set a maximum limit.'')
      else Inr ())"

definition set_user_permission :: "user_permission \<Rightarrow> bool \<Rightarrow> user_permission_settings \<Rightarrow>
    user_permission_settings" where
  "set_user_permission perm b p = (case perm of
     Perm_create \<Rightarrow> p\<lparr>create := b\<rparr> | Perm_delete \<Rightarrow> p\<lparr>delete := b\<rparr>
   | Perm_reset_usage \<Rightarrow> p\<lparr>reset_usage := b\<rparr> | Perm_revoke \<Rightarrow> p\<lparr>revoke := b\<rparr>
   | Perm_create_on_hold \<Rightarrow> p\<lparr>create_on_hold := b\<rparr>
   | Perm_allow_unlimited_data \<Rightarrow> p\<lparr>allow_unlimited_data := b\<rparr>
   | Perm_allow_unlimited_expire \<Rightarrow> p\<lparr>allow_unlimited_expire := b\<rparr>
   | Perm_allow_next_plan \<Rightarrow> p\<lparr>allow_next_plan := b\<rparr>
   | Perm_advanced_actions \<Rightarrow> p\<lparr>advanced_actions := b\<rparr> | Perm_set_flow \<Rightarrow> p\<lparr>set_flow := b\<rparr>
   | Perm_allow_custom_key \<Rightarrow> p\<lparr>allow_custom_key := b\<rparr>)"

text \<open>One admin of the loop of \<open>bulk_update_standard_admin_permissions\<close>: the new row if it changed.\<close>

definition bulk_permission_row :: "(json \<Rightarrow> bool option) \<Rightarrow> (json \<Rightarrow> int option) \<Rightarrow>
    user_permission list \<Rightarrow> bool \<Rightarrow> admin \<Rightarrow> admin option result" where
  "bulk_permission_row cb ci permissions disable a =
     then_res (normalize_permissions_for_role cb ci Standard None (admin_permissions_json a))
       (\<lambda>perms. let default_users' = perm_users (role_default_permissions Standard);
            after = perms\<lparr>perm_users := fold (\<lambda>perm p. set_user_permission perm
                  (if disable then False else user_allows default_users' perm) p)
                permissions (perm_users perms)\<rparr>
        in Inr (if dump_permissions after \<noteq> dump_permissions perms
                then Some (a\<lparr>admin_permissions_json := Some (dump_permissions after)\<rparr>) else None))"

definition bulk_update_standard_admin_permissions :: "(json \<Rightarrow> bool option) \<Rightarrow>
    (json \<Rightarrow> int option) \<Rightarrow> user_permission list \<Rightarrow> string \<Rightarrow> db \<Rightarrow> (int \<times> db) result" where
  "bulk_update_standard_admin_permissions cb ci permissions mode d =
     (if mode \<notin> {''disable'', ''restore''} then Inl (Value_error ''Unsupported bulk permission mode'')
      else if permissions = [] then Inr (0, d)
      else let targets = filter (\<lambda>a. admin_status a \<noteq> Admin_deleted \<and> admin_role a = Standard)
             (admins d)
      in then_res (fold_res (\<lambda>a acc. then_res
            (bulk_permission_row cb ci permissions (mode = ''disable'') a)
            (\<lambda>r. Inr (case r of None \<Rightarrow> acc | Some a' \<Rightarrow> acc @ [a']))) targets [])
          (\<lambda>changed. Inr (int (length changed),
             d\<lparr>admins := fold store_admin changed (admins d)\<rparr>)))"

section \<open>Service links\<close>

definition sync_admin_services :: "db \<Rightarrow> int \<Rightarrow> int list option \<Rightarrow> db" where
  "sync_admin_services d a service_ids = (case service_ids of None \<Rightarrow> d
   | Some ids \<Rightarrow>
      (let existing = map link_service_id
             (filter (\<lambda>l. link_admin_id l = a) (admin_service_links d));
           to_add = filter (\<lambda>s. s \<notin> set existing) (remdups ids);
           valid = filter (\<lambda>s. s \<in> sid ` set (services d)) to_add;
           kept = filter (\<lambda>l. \<not> (link_admin_id l = a \<and> link_service_id l \<notin> set ids))
             (admin_service_links d)
       in d\<lparr>admin_service_links := kept @ map (\<lambda>s. \<lparr>link_admin_id = a, link_service_id = s,
            link_used_traffic = 0, link_lifetime_used_traffic = 0\<rparr>) valid\<rparr>))"

section \<open>The data limit of an admin\<close>

definition disabled_due_to_data_limit :: "admin \<Rightarrow> bool" where
  "disabled_due_to_data_limit a =
     (admin_status a = Admin_disabled \<and> disabled_reason a = Some exhausted_reason)"

definition admin_usage_within_limit :: "admin \<Rightarrow> bool" where
  "admin_usage_within_limit a = (case admin_data_limit a of None \<Rightarrow> True
     | Some limit \<Rightarrow> users_usage a < limit)"

text \<open>
  \<open>_maybe_enable_admin_after_data_limit\<close> on the row object: \<open>_restore_admin_users_and_nodes\<close>
  reactivates the users, which commits, and restarts Xray; an exception of the restart leaves
  the admin disabled. The result is the return value, the object and the database.
\<close>

definition maybe_enable_admin :: "instant \<Rightarrow> bool \<Rightarrow> db \<Rightarrow> admin \<Rightarrow> bool result \<times> admin \<times> db" where
  "maybe_enable_admin now restart_ok d a =
     (if \<not> disabled_due_to_data_limit a then (Inr False, a, d)
      else if \<not> admin_usage_within_limit a then (Inr False, a, d)
      else let d1 = activate_all_disabled_users now (Some a) d in
      if restart_ok
      then (Inr True, a\<lparr>admin_status := Admin_active, disabled_reason := None\<rparr>, save_admin a d1)
      else (Inl Runtime_error, a, save_admin a d1))"

text \<open>
  \<open>enforce_admin_data_limit\<close>: the return value, the row object, the database with the object
  flushed, and whether it was committed (which \<open>disable_all_active_users\<close> does). Removing the
  users from Xray is best effort.
\<close>

definition enforce_admin_data_limit :: "instant \<Rightarrow> db \<Rightarrow> admin \<Rightarrow> bool \<times> admin \<times> db \<times> bool" where
  "enforce_admin_data_limit now d a =
     (let limit = or_zero (admin_data_limit a); usage = users_usage a in
      if limit = 0 \<or> usage < limit then (False, a, d, False)
      else if admin_status a = Admin_disabled \<and> disabled_reason a \<noteq> Some exhausted_reason
        then (False, a, d, False)
      else let active_users = filter (\<lambda>u. admin_id u = Some (aid a) \<and>
                 status u \<in> {Active, On_hold}) (users d);
               a' = a\<lparr>admin_status := Admin_disabled, disabled_reason := Some exhausted_reason\<rparr>;
               flushed = save_admin a' d
           in if active_users \<noteq> []
              then (True, a', disable_all_active_users now (Some a') flushed, True)
              else (True, a', flushed, False))"

definition reset_admin_usage :: "instant \<Rightarrow> bool \<Rightarrow> db \<Rightarrow> admin \<Rightarrow> unit result \<times> db" where
  "reset_admin_usage now restart_ok d a =
     (if users_usage a = 0 then (Inr (), d)
      else let a1 = a\<lparr>admin_usage_logs := admin_usage_logs a @ [users_usage a], users_usage := 0\<rparr>
      in case maybe_enable_admin now restart_ok d a1 of
           (Inl e, _, d1) \<Rightarrow> (Inl e, d1)
         | (Inr _, a2, d1) \<Rightarrow> (Inr (), save_admin a2 d1))"

section \<open>Creating and updating\<close>

record admin_create =
  ac_username :: string
  ac_role :: admin_role
  ac_permissions :: admin_permissions
  ac_telegram_id :: "int option"
  ac_subscription_domain :: "string option"
  ac_subscription_settings :: "json_dict option"
  ac_data_limit :: "int option"
  ac_users_limit :: "int option"
  ac_services :: "int list option"

definition nonempty :: "string \<Rightarrow> string option" where
  "nonempty s = (if s = '''' then None else Some s)"

definition stripped_domain :: "string option \<Rightarrow> string option" where
  "stripped_domain s = (case s of None \<Rightarrow> None | Some x \<Rightarrow> nonempty (strip x))"

text \<open>
  \<open>create_admin\<close> commits the new row and then adds its service links, without a commit after
  them: the result holds the row, the committed database, and the session's view with the
  pending links.
\<close>

definition create_admin :: "(json \<Rightarrow> bool option) \<Rightarrow> (json \<Rightarrow> int option) \<Rightarrow> int \<Rightarrow> string \<Rightarrow> db \<Rightarrow>
    admin_create \<Rightarrow> (admin \<times> db \<times> db) result" where
  "create_admin cb ci fresh_id hash d c =
     (if \<exists>a \<in> set (admins d). lower (admin_username a) = lower (ac_username c) \<and>
           admin_status a \<noteq> Admin_deleted
      then Inl (Integrity_error (ac_username c))
      else then_res (if ac_role c = Full_access then Inr (role_default_permissions Full_access)
                else normalize_permissions_for_role cb ci (ac_role c) (Some (ac_permissions c)) None)
        (\<lambda>perms. then_res (validate_max_data_limit perms) (\<lambda>_.
          let a = \<lparr>aid = fresh_id, admin_username = ac_username c, hashed_password = hash,
                admin_role = ac_role c, admin_permissions_json = Some (dump_permissions perms),
                password_reset_at = None, admin_telegram_id = or_none (ac_telegram_id c),
                subscription_domain = stripped_domain (ac_subscription_domain c),
                subscription_settings = (case ac_subscription_settings c of None \<Rightarrow> [] | Some x \<Rightarrow> x),
                users_usage = 0, lifetime_usage = 0, admin_data_limit = ac_data_limit c,
                users_limit = ac_users_limit c, admin_status = Admin_active,
                disabled_reason = None, admin_usage_logs = []\<rparr>;
            d1 = d\<lparr>admins := admins d @ [a]\<rparr>
          in Inr (a, d1, sync_admin_services d1 fresh_id (ac_services c)))))"

text \<open>A field of \<open>AdminModify\<close> outside \<open>model_fields_set\<close> is \<open>None\<close>, one inside it \<open>Some\<close>.\<close>

record admin_modify =
  am_password :: "string option"
  am_role :: "admin_role option"
  am_permissions :: "admin_permissions option"
  am_services :: "int list option"
  am_telegram_id :: "int option option"
  am_subscription_domain :: "string option option"
  am_subscription_settings :: "json_dict option option"
  am_data_limit :: "int option option"
  am_users_limit :: "int option option"

text \<open>
  The assignments to the row before the limits: those of the plain fields, each made when the field
  is set, and the role with its permissions.
\<close>

definition assign_field :: "'v option \<Rightarrow> ('v \<Rightarrow> 'r \<Rightarrow> 'r) \<Rightarrow> 'r \<Rightarrow> 'r" where
  "assign_field x f r = (case x of None \<Rightarrow> r | Some v \<Rightarrow> f v r)"

definition update_admin_fields :: "string \<Rightarrow> string \<Rightarrow> instant \<Rightarrow> admin_modify \<Rightarrow> admin \<Rightarrow> admin" where
  "update_admin_fields hash1 hash2 now m a =
     assign_field (am_data_limit m) (\<lambda>v a. a\<lparr>admin_data_limit := v\<rparr>)
     (assign_field (am_subscription_settings m)
        (\<lambda>v a. a\<lparr>subscription_settings := (case v of None \<Rightarrow> [] | Some s \<Rightarrow> s)\<rparr>)
     (assign_field (am_subscription_domain m) (\<lambda>v a. a\<lparr>subscription_domain := stripped_domain v\<rparr>)
     (assign_field (am_telegram_id m) (\<lambda>v a. a\<lparr>admin_telegram_id := or_none v\<rparr>)
     (if am_password m \<noteq> None \<and> hashed_password a \<noteq> hash1
      then a\<lparr>hashed_password := hash2, password_reset_at := Some now\<rparr> else a))))"

definition update_admin_profile :: "(json \<Rightarrow> bool option) \<Rightarrow> (json \<Rightarrow> int option) \<Rightarrow> string \<Rightarrow>
    string \<Rightarrow> instant \<Rightarrow> admin \<Rightarrow> admin_modify \<Rightarrow> admin result" where
  "update_admin_profile cb ci hash1 hash2 now a m =
     (let target_role = (case am_role m of Some r \<Rightarrow> r | None \<Rightarrow> admin_role a);
          a1 = a\<lparr>admin_role := target_role\<rparr>
      in then_res
        (if target_role = Full_access
         then Inr (a1\<lparr>admin_permissions_json :=
                 Some (dump_permissions (role_default_permissions Full_access))\<rparr>)
         else case am_permissions m of None \<Rightarrow> Inr a1
           | Some p \<Rightarrow> then_res (normalize_permissions_for_role cb ci target_role (Some p)
                 (admin_permissions_json a)) (\<lambda>perms.
               then_res (validate_max_data_limit perms) (\<lambda>_.
               Inr (a1\<lparr>admin_permissions_json := Some (dump_permissions perms)\<rparr>))))
        (\<lambda>a2. Inr (update_admin_fields hash1 hash2 now m a2)))"

definition check_users_limit :: "db \<Rightarrow> admin \<Rightarrow> admin_modify \<Rightarrow> admin result" where
  "check_users_limit d a m = (case am_users_limit m of None \<Rightarrow> Inr a
   | Some v \<Rightarrow> (let active_count = get_active_users_count d a [] in
      if v \<noteq> None \<and> or_zero v > 0 \<and> active_count > or_zero v
      then Inl (Users_limit_reached (or_zero v) active_count True)
      else Inr (a\<lparr>users_limit := v\<rparr>)))"

text \<open>
  \<open>partial_update_admin\<close>, and \<open>update_admin\<close>, which also replaces the service links. The
  exceptions before the limits leave the database as it was.
\<close>

definition partial_update_admin :: "(json \<Rightarrow> bool option) \<Rightarrow> (json \<Rightarrow> int option) \<Rightarrow> string \<Rightarrow>
    string \<Rightarrow> instant \<Rightarrow> bool \<Rightarrow> db \<Rightarrow> admin \<Rightarrow> admin_modify \<Rightarrow> unit result \<times> db" where
  "partial_update_admin cb ci hash1 hash2 now restart_ok d a m =
     (case then_res (update_admin_profile cb ci hash1 hash2 now a m)
             (\<lambda>a1. check_users_limit d a1 m) of
        Inl e \<Rightarrow> (Inl e, d)
      | Inr a1 \<Rightarrow>
         (let (a2, d2) = (if am_data_limit m \<noteq> None
               then (case enforce_admin_data_limit now d a1 of (_, a', d', _) \<Rightarrow> (a', d'))
               else (a1, d))
          in case maybe_enable_admin now restart_ok d2 a2 of
               (Inl e, _, d3) \<Rightarrow> (Inl e, d3)
             | (Inr _, a3, d3) \<Rightarrow> (Inr (), save_admin a3 d3)))"

definition update_admin :: "(json \<Rightarrow> bool option) \<Rightarrow> (json \<Rightarrow> int option) \<Rightarrow> string \<Rightarrow>
    string \<Rightarrow> instant \<Rightarrow> bool \<Rightarrow> db \<Rightarrow> admin \<Rightarrow> admin_modify \<Rightarrow> unit result \<times> db" where
  "update_admin cb ci hash1 hash2 now restart_ok d a m =
     (case partial_update_admin cb ci hash1 hash2 now restart_ok d a m of
        (Inl e, d') \<Rightarrow> (Inl e, d')
      | (Inr _, d') \<Rightarrow> (Inr (), sync_admin_services d' (aid a) (am_services m)))"

definition disable_admin :: "db \<Rightarrow> admin \<Rightarrow> string \<Rightarrow> db" where
  "disable_admin d a reason = d\<lparr>admins := update_where (\<lambda>q. aid q = aid a)
     (\<lambda>q. q\<lparr>admin_status := Admin_disabled, disabled_reason := Some reason\<rparr>) (admins d)\<rparr>"

definition enable_admin :: "db \<Rightarrow> admin \<Rightarrow> db" where
  "enable_admin d a = d\<lparr>admins := update_where (\<lambda>q. aid q = aid a)
     (\<lambda>q. q\<lparr>admin_status := Admin_active, disabled_reason := None\<rparr>) (admins d)\<rparr>"

definition remove_admin :: "db \<Rightarrow> admin \<Rightarrow> db" where
  "remove_admin d a = d\<lparr>users := filter (\<lambda>u. admin_id u \<noteq> Some (aid a)) (users d),
     api_keys := filter (\<lambda>k. key_admin_id k \<noteq> aid a) (api_keys d),
     admin_service_links := filter (\<lambda>l. link_admin_id l \<noteq> aid a) (admin_service_links d),
     admins := filter (\<lambda>q. aid q \<noteq> aid a) (admins d)\<rparr>"

end
