(* ===== verification/AdminAuth.thy ===== *)
theory AdminAuth
  imports Admins Quota
begin

text \<open>
  Who a request acts for: \<open>Admin.get_admin\<close> and the dependencies built on it
  (\<open>app/models/admin.py\<close>, \<open>app/dependencies.py\<close>), and the admin tokens of \<open>app/utils/jwt.py\<close>.
  Parameters: \<open>decode\<close> is \<open>jwt.decode\<close> with the secret of the panel, as the claims or \<open>None\<close>
  for any \<open>PyJWTError\<close>; \<open>sudoers\<close> is the configured dictionary of names and passwords; \<open>verify\<close>
  is the password hash check; \<open>sha\<close> the digest of API keys.
\<close>

section \<open>Tokens\<close>

record claims =
  cl_sub :: "string option"
  cl_role :: "string option"
  cl_access :: "string option"
  cl_iat :: "instant option"

record payload =
  pl_username :: string
  pl_role :: string
  pl_created_at :: "datetime option"

definition create_admin_token :: "string \<Rightarrow> string \<Rightarrow> instant \<Rightarrow> claims" where
  "create_admin_token name role now =
     \<lparr>cl_sub = Some name, cl_role = Some role, cl_access = None, cl_iat = Some now\<rparr>"

definition get_admin_payload :: "claims option \<Rightarrow> payload option" where
  "get_admin_payload c = (case c of None \<Rightarrow> None
   | Some cl \<Rightarrow>
      (case (str_or_none (cl_sub cl),
             (case str_or_none (cl_role cl) of Some r \<Rightarrow> Some r | None \<Rightarrow> str_or_none (cl_access cl))) of
         (Some name, Some role) \<Rightarrow>
           (if role = ''admin'' then Some \<lparr>pl_username = name, pl_role = ''standard'',
                pl_created_at = map_option Aware (cl_iat cl)\<rparr>
            else if role \<notin> {''standard'', ''sudo'', ''full_access''} then None
            else Some \<lparr>pl_username = name, pl_role = role, pl_created_at = map_option Aware (cl_iat cl)\<rparr>)
       | _ \<Rightarrow> None))"

section \<open>Accounts\<close>

text \<open>\<open>cls.model_validate(dbadmin)\<close>, with \<open>apply_role_and_permissions\<close>.\<close>

definition principal_of :: "(json \<Rightarrow> bool option) \<Rightarrow> (json \<Rightarrow> int option) \<Rightarrow> admin \<Rightarrow>
    principal result" where
  "principal_of cb ci a = then_res (build_permissions cb ci (admin_role a) (admin_permissions_json a))
     (\<lambda>p. Inr \<lparr>pr_id = Some (aid a), pr_username = admin_username a, pr_role = admin_role a,
        pr_permissions = p, pr_status = admin_status a, pr_disabled_reason = disabled_reason a\<rparr>)"

definition sudoer_principal :: "string \<Rightarrow> admin_role \<Rightarrow> principal" where
  "sudoer_principal name role = \<lparr>pr_id = None, pr_username = name, pr_role = role,
     pr_permissions = role_default_permissions role, pr_status = Admin_active,
     pr_disabled_reason = None\<rparr>"

text \<open>
  The branch for API keys. \<open>expires_at\<close> is naive as loaded and is compared with an aware clock.
\<close>

definition admin_by_api_key :: "(json \<Rightarrow> bool option) \<Rightarrow> (json \<Rightarrow> int option) \<Rightarrow> (string \<Rightarrow> string) \<Rightarrow>
    instant \<Rightarrow> db \<Rightarrow> string \<Rightarrow> principal option result \<times> db" where
  "admin_by_api_key cb ci sha now d token = (case get_admin_api_key_by_token sha d token of
     None \<Rightarrow> (Inr None, d)
   | Some k \<Rightarrow>
      (case (case key_expires_at k of None \<Rightarrow> Inr False | Some t \<Rightarrow> dt_less (Naive t) (Aware now)) of
         Inl e \<Rightarrow> (Inl e, d)
       | Inr True \<Rightarrow> (Inr None, d)
       | Inr False \<Rightarrow> (case get_admin_by_id d (key_admin_id k) of
            None \<Rightarrow> (Inr None, d)
          | Some a \<Rightarrow> if admin_status a \<noteq> Admin_active then (Inr None, d)
              else let d' = d\<lparr>api_keys := map (\<lambda>q. if key_id q = key_id k
                       then q\<lparr>key_last_used_at := Some now\<rparr> else q) (api_keys d)\<rparr>
                in (then_res (principal_of cb ci a) (\<lambda>p. Inr (Some p)), d'))))"

definition token_outdated :: "admin \<Rightarrow> payload \<Rightarrow> bool result" where
  "token_outdated a pl = (case password_reset_at a of None \<Rightarrow> Inr False
   | Some t \<Rightarrow> (case pl_created_at pl of None \<Rightarrow> Inr True
       | Some c \<Rightarrow> dt_less (to_utc_aware c) (to_utc_aware (Naive t))))"

definition authenticate :: "(json \<Rightarrow> bool option) \<Rightarrow> (json \<Rightarrow> int option) \<Rightarrow> (string \<Rightarrow> string) \<Rightarrow>
    (string \<Rightarrow> claims option) \<Rightarrow> (string \<times> string) list \<Rightarrow> instant \<Rightarrow> db \<Rightarrow> string \<Rightarrow>
    principal option result \<times> db" where
  "authenticate cb ci sha decode sudoers now d token =
     (case get_admin_payload (decode token) of
        None \<Rightarrow> admin_by_api_key cb ci sha now d token
      | Some pl \<Rightarrow>
         (let role = (case role_of (pl_role pl) of Some r \<Rightarrow> r | None \<Rightarrow> Standard) in
          if map_of sudoers (pl_username pl) \<noteq> None
          then (Inr (Some (sudoer_principal (pl_username pl) role)), d)
          else case get_admin d (Some (pl_username pl)) None of
            None \<Rightarrow> (Inr None, d)
          | Some a \<Rightarrow> (case token_outdated a pl of
              Inl e \<Rightarrow> (Inl e, d)
            | Inr True \<Rightarrow> (Inr None, d)
            | Inr False \<Rightarrow> (then_res (principal_of cb ci a) (\<lambda>p. Inr (Some p)), d))))"

section \<open>Dependencies\<close>

definition get_current :: "principal option result \<Rightarrow> principal result" where
  "get_current r = then_res r (\<lambda>p. case p of
     None \<Rightarrow> Inl (Http_error 401 ''Could not validate credentials'') | Some a \<Rightarrow> Inr a)"

definition check_sudo_admin :: "principal option result \<Rightarrow> principal result" where
  "check_sudo_admin r = then_res (get_current r) (\<lambda>a.
     if pr_role a \<notin> {Sudo, Full_access} then Inl (Http_error 403 ''You're not allowed'') else Inr a)"

definition require_active :: "principal option result \<Rightarrow> principal result" where
  "require_active r = then_res (get_current r) (\<lambda>a.
     if pr_role a \<in> {Sudo, Full_access} then Inr a
     else if pr_status a = Admin_disabled then Inl (Http_error 403 ''Your account has been disabled'')
     else Inr a)"

text \<open>The login: the configured names first, then the stored accounts.\<close>

definition validate_admin :: "(string \<Rightarrow> string \<Rightarrow> bool) \<Rightarrow> (string \<times> string) list \<Rightarrow> db \<Rightarrow> string \<Rightarrow>
    string \<Rightarrow> (string \<times> admin_role) option" where
  "validate_admin verify sudoers d name password =
     (if map_of sudoers name = Some password then Some (name, Full_access)
      else case get_admin d (Some name) None of
        Some a \<Rightarrow> if verify password (hashed_password a) then Some (admin_username a, admin_role a) else None
      | None \<Rightarrow> None)"

text \<open>\<open>crud.get_user\<close> by name: \<open>cached\<close> is what the Redis cache answers.\<close>

definition db_user_by_name :: "db \<Rightarrow> string \<Rightarrow> user option" where
  "db_user_by_name d name = List.find (\<lambda>u. status u \<noteq> Deleted \<and> lower (username u) = lower name) (users d)"

definition get_user :: "(string \<Rightarrow> user option) \<Rightarrow> db \<Rightarrow> string \<Rightarrow> user option" where
  "get_user cached d name = (case (if name = '''' then None else cached name) of
     Some c \<Rightarrow> (case db_user_by_name d name of Some u \<Rightarrow> Some u | None \<Rightarrow> Some c)
   | None \<Rightarrow> if name = '''' then None else db_user_by_name d name)"

definition get_validated_user :: "(string \<Rightarrow> user option) \<Rightarrow> db \<Rightarrow> string \<Rightarrow> principal \<Rightarrow> user result" where
  "get_validated_user cached d name a = (case get_user cached d name of
     None \<Rightarrow> Inl (Http_error 404 ''User not found'')
   | Some u \<Rightarrow>
      if pr_role a \<in> {Sudo, Full_access} \<or>
         (case admin_of d u of None \<Rightarrow> False | Some owner \<Rightarrow> admin_username owner = pr_username a)
      then Inr u else Inl (Http_error 403 ''You're not allowed''))"

definition get_service_for_admin :: "db \<Rightarrow> int \<Rightarrow> principal \<Rightarrow> service result" where
  "get_service_for_admin d i a = (case fetch_service i (services d) of
     None \<Rightarrow> Inl (Http_error 404 ''Service not found'')
   | Some s \<Rightarrow>
      if pr_role a \<notin> {Sudo, Full_access} \<and>
         (case pr_id a of None \<Rightarrow> True
          | Some k \<Rightarrow> k \<notin> link_admin_id ` set (filter (\<lambda>l. link_service_id l = sid s) (admin_service_links d)))
      then Inl (Http_error 403 ''You're not allowed'') else Inr s)"

text \<open>\<open>get_expired_users_list\<close> between two instants.\<close>

definition get_expired_users_list :: "db \<Rightarrow> principal \<Rightarrow> instant \<Rightarrow> instant \<Rightarrow> user list" where
  "get_expired_users_list d a after before =
     (let dbadmin = get_admin d (Some (pr_username a)) None;
          scope = (if pr_role a \<notin> {Sudo, Full_access} then dbadmin else None)
      in filter (\<lambda>u. status u \<in> {Expired, Limited} \<and>
           (case scope of None \<Rightarrow> True | Some adm \<Rightarrow> admin_id u = Some (aid adm)) \<and>
           (case expire u of None \<Rightarrow> False
            | Some e \<Rightarrow> e \<noteq> 0 \<and> after \<le> e * usecs \<and> e * usecs \<le> before)) (users d))"

section \<open>Lemmas\<close>

lemma token_round_trip:
  assumes "name \<noteq> ''''"
  shows "get_admin_payload (Some (create_admin_token name (role_value r) now)) =
    (if r = Reseller then None
     else Some \<lparr>pl_username = name, pl_role = role_value r, pl_created_at = Some (Aware now)\<rparr>)"
  using assms by (cases r) (simp_all add: get_admin_payload_def create_admin_token_def)

lemma principal_of_row:
  assumes "principal_of cb ci a = Inr p"
  shows "pr_id p = Some (aid a) \<and> pr_username p = admin_username a \<and> pr_role p = admin_role a \<and>
    pr_status p = admin_status a \<and> build_permissions cb ci (admin_role a) (admin_permissions_json a) =
      Inr (pr_permissions p)"
  using assms by (cases "build_permissions cb ci (admin_role a) (admin_permissions_json a)")
    (auto simp: principal_of_def)

lemma get_admin_live: "get_admin d name i = Some a \<Longrightarrow> a \<in> set (admins d) \<and> admin_status a \<noteq> Admin_deleted"
  by (auto simp: get_admin_def get_admin_by_id_def find_Some_iff split: option.splits if_splits)

lemma get_admin_by_id_live:
  "get_admin_by_id d i = Some a \<Longrightarrow> a \<in> set (admins d) \<and> admin_status a \<noteq> Admin_deleted \<and> aid a = i"
  by (auto simp: get_admin_by_id_def find_Some_iff)

text \<open>
  An accepted request acts for a configured name, with the role that its token names, or for a live
  row, with what \<open>principal_of\<close> makes of the row.
\<close>

lemma authenticate_sound:
  assumes "authenticate cb ci sha decode sudoers now d token = (Inr (Some p), d')"
  shows "(\<exists>pl. get_admin_payload (decode token) = Some pl \<and> map_of sudoers (pl_username pl) \<noteq> None \<and>
      p = sudoer_principal (pl_username pl) (case role_of (pl_role pl) of Some r \<Rightarrow> r | None \<Rightarrow> Standard)) \<or>
    (\<exists>a \<in> set (admins d). admin_status a \<noteq> Admin_deleted \<and> principal_of cb ci a = Inr p)"
proof (cases "get_admin_payload (decode token)")
  case None
  then obtain k a where "get_admin_by_id d k = Some a" "principal_of cb ci a = Inr p"
    using assms
    by (auto simp: authenticate_def admin_by_api_key_def then_res_Inr Let_def
        split: option.splits sum.splits bool.splits if_splits)
  then show ?thesis using get_admin_by_id_live by blast
next
  case (Some pl)
  show ?thesis
  proof (cases "map_of sudoers (pl_username pl)")
    case None
    then obtain a where "get_admin d (Some (pl_username pl)) None = Some a" "principal_of cb ci a = Inr p"
      using assms Some
      by (auto simp: authenticate_def then_res_Inr Let_def
          split: option.splits sum.splits bool.splits if_splits)
    then show ?thesis using get_admin_live by blast
  next
    case (Some y)
    then show ?thesis using assms \<open>get_admin_payload _ = Some pl\<close> by (simp add: authenticate_def Let_def)
  qed
qed

lemma require_active_sound:
  assumes "require_active r = Inr p"
  shows "r = Inr (Some p) \<and> (pr_status p = Admin_disabled \<longrightarrow> pr_role p \<in> {Sudo, Full_access})"
  using assms by (auto simp: require_active_def get_current_def then_res_def
      split: sum.splits option.splits if_splits)

end
