(* ===== verification/UserSchema.thy ===== *)
theory UserSchema
  imports Credentials Database Complex_Main
begin

text \<open>
  The validators of the user requests in \<open>app/models/user.py\<close>: names, notes, contact data, limits,
  statuses, inbounds and the bulk action. A \<open>ValueError\<close> becomes a refused request, any other
  exception an internal error. Texts are ASCII. A value as it comes from JSON is a \<open>raw\<close>; \<open>float()\<close> of
  a text is the parameter \<open>to_float\<close>.
\<close>

text \<open>
  Lemmas on the validators: the pattern of names in plain terms, and what the accepted requests have.
\<close>

named_theorems schema_simps "characters and texts of requests"

section \<open>Regular expressions\<close>

text \<open>
  As much of Python's \<open>re\<close> as the patterns use, on positions: \<open>matches r s\<close> relates where a match of
  \<open>r\<close> in \<open>s\<close> begins and where it ends. \<open>$\<close> also matches before a newline at the end.
\<close>

datatype regex =
    Char_in "char set"
  | Cat regex regex
  | Star regex
  | Times nat nat regex
  | Lookahead regex
  | Word_boundary
  | Dollar

definition is_word :: "char \<Rightarrow> bool" where
  "is_word c = (let n = of_char c :: nat in
     (48 \<le> n \<and> n \<le> 57) \<or> (65 \<le> n \<and> n \<le> 90) \<or> n = 95 \<or> (97 \<le> n \<and> n \<le> 122))"

definition word_at :: "string \<Rightarrow> nat \<Rightarrow> bool" where
  "word_at s i = (i < length s \<and> is_word (s ! i))"

fun matches :: "regex \<Rightarrow> string \<Rightarrow> (nat \<times> nat) set" where
  "matches (Char_in C) s = {(i, j). i < length s \<and> s ! i \<in> C \<and> j = Suc i}"
| "matches (Cat a b) s = matches a s O matches b s"
| "matches (Star a) s = (matches a s)\<^sup>*"
| "matches (Times lo hi a) s = (\<Union>n \<in> {lo..hi}. matches a s ^^ n)"
| "matches (Lookahead a) s = {(i, j). i = j \<and> i \<in> Domain (matches a s)}"
| "matches Word_boundary s = {(i, j). i = j \<and> (0 < i \<and> word_at s (i - 1)) \<noteq> word_at s i}"
| "matches Dollar s = {(i, j). i = j \<and> (i = length s \<or> (Suc i = length s \<and> s ! i = CHR 0x0A))}"

definition re_match :: "regex \<Rightarrow> string \<Rightarrow> bool" where
  "re_match r s = (0 \<in> Domain (matches r s))"

section \<open>Names\<close>

definition name_char :: "char \<Rightarrow> bool" where
  "name_char c = (is_word c \<or> c = CHR ''-'' \<or> c = CHR ''@'' \<or> c = CHR ''.'')"

definition plus :: "regex \<Rightarrow> regex" where
  "plus r = Cat r (Star r)"

definition username_regexp :: regex where
  "username_regexp = Cat (Lookahead (Cat (Times 3 32 (Char_in {c. is_word c})) Word_boundary))
     (Cat (plus (Char_in {c. name_char c}))
       (Cat (Star (Cat (Char_in {CHR ''_''}) (plus (Char_in {c. name_char c})))) Dollar))"

text \<open>What the pattern comes to.\<close>

definition without_newline :: "string \<Rightarrow> string" where
  "without_newline s = (if s \<noteq> [] \<and> last s = CHR 0x0A then butlast s else s)"

definition username_ok :: "string \<Rightarrow> bool" where
  "username_ok s = (let b = without_newline s; run = length (takeWhile is_word b)
     in list_all name_char b \<and> 3 \<le> run \<and> run \<le> 32)"

definition validate_username :: "string \<Rightarrow> string result" where
  "validate_username v = (if username_ok v then Inr v
     else Inl (Value_error ''Username only can be 3 to 32 characters''))"

definition validate_note :: "string option \<Rightarrow> string option result" where
  "validate_note v = (case v of None \<Rightarrow> Inr None
     | Some n \<Rightarrow> if length n > 500 then Inl (Value_error ''note too long'') else Inr (Some n))"

section \<open>Values from JSON\<close>

datatype raw = Raw_null | Raw_bool bool | Raw_int int | Raw_float rat | Raw_inf bool | Raw_nan
  | Raw_str string | Raw_other

definition truncate_rat :: "rat \<Rightarrow> int" where
  "truncate_rat q = (if q < 0 then - \<lfloor>- q\<rfloor> else \<lfloor>q\<rfloor>)"

text \<open>\<open>int()\<close> of a float.\<close>

definition int_of_float :: "raw \<Rightarrow> int result" where
  "int_of_float v = (case v of Raw_float q \<Rightarrow> Inr (truncate_rat q)
     | Raw_inf _ \<Rightarrow> Inl Overflow_error
     | _ \<Rightarrow> Inl (Value_error ''cannot convert float NaN to integer''))"

definition bool_int :: "bool \<Rightarrow> int" where
  "bool_int b = (if b then 1 else 0)"

text \<open>\<open>cast_to_int\<close> and the bound of the field \<open>data_limit\<close>.\<close>

definition validate_data_limit :: "raw \<Rightarrow> int option result" where
  "validate_data_limit v = (case (case v of
       Raw_null \<Rightarrow> Inr None
     | Raw_float q \<Rightarrow> map_sum id Some (int_of_float v)
     | Raw_inf b \<Rightarrow> map_sum id Some (int_of_float v)
     | Raw_nan \<Rightarrow> map_sum id Some (int_of_float v)
     | Raw_int n \<Rightarrow> Inr (Some n)
     | Raw_bool b \<Rightarrow> Inr (Some (bool_int b))
     | _ \<Rightarrow> Inl (Value_error ''data_limit must be an integer or a float, not a string'')) of
     Inr (Some n) \<Rightarrow> if n < 0 then Inl (Value_error ''greater_than_equal'') else Inr (Some n)
   | r \<Rightarrow> r)"

text \<open>
  \<open>_normalize_ip_limit\<close>. A text goes through \<open>int(float(text))\<close>, where only \<open>TypeError\<close> and
  \<open>ValueError\<close> are caught.
\<close>

definition normalize_ip_limit :: "(string \<Rightarrow> raw option) \<Rightarrow> raw \<Rightarrow> int result" where
  "normalize_ip_limit to_float v =
     (let bound = (\<lambda>n. if n > 0 then n else 0) in case v of
       Raw_null \<Rightarrow> Inr 0
     | Raw_str s \<Rightarrow> (if strip s = '''' \<or> strip s = ''-'' then Inr 0
         else case to_float (strip s) of
           None \<Rightarrow> Inl (Value_error ''ip_limit must be a number or '-' for unlimited'')
         | Some f \<Rightarrow> (case int_of_float f of
             Inr n \<Rightarrow> Inr (bound n)
           | Inl Overflow_error \<Rightarrow> Inl Overflow_error
           | Inl _ \<Rightarrow> Inl (Value_error ''ip_limit must be a number or '-' for unlimited'')))
     | Raw_float q \<Rightarrow> Inr (bound (truncate_rat q))
     | Raw_inf _ \<Rightarrow> Inl (Value_error ''ip_limit must be a finite number'')
     | Raw_nan \<Rightarrow> Inl (Value_error ''ip_limit must be a finite number'')
     | Raw_int n \<Rightarrow> Inr (bound n)
     | Raw_bool b \<Rightarrow> Inr (bound (bool_int b))
     | Raw_other \<Rightarrow> Inl (Value_error ''ip_limit must be numeric''))"

definition validate_timeout :: "raw \<Rightarrow> raw" where
  "validate_timeout v = (if v \<in> {Raw_null, Raw_int 0, Raw_float 0, Raw_bool False} then Raw_null else v)"

definition telegram_char :: "char \<Rightarrow> bool" where
  "telegram_char c = (is_word c \<or> c \<in> set ''.@+- '')"

definition contact_char :: "char \<Rightarrow> bool" where
  "contact_char c = ((48 \<le> (of_char c :: nat) \<and> (of_char c :: nat) \<le> 57) \<or> c \<in> set ''+-() '')"

definition validate_text :: "(char \<Rightarrow> bool) \<Rightarrow> raw \<Rightarrow> string option result" where
  "validate_text allowed v = (case v of
     Raw_null \<Rightarrow> Inr None
   | Raw_str s \<Rightarrow> if strip s = '''' then Inr None
       else if list_all allowed (strip s) then Inr (Some (strip s))
       else Inl (Value_error ''Invalid format'')
   | _ \<Rightarrow> Inl (Value_error ''Invalid format''))"

definition validate_telegram_id :: "raw \<Rightarrow> string option result" where
  "validate_telegram_id = validate_text telegram_char"

definition validate_contact_number :: "raw \<Rightarrow> string option result" where
  "validate_contact_number = validate_text contact_char"

section \<open>Flow and status\<close>

definition validate_flow :: "string option \<Rightarrow> string option result" where
  "validate_flow v = (if str_or_none v = None then Inr None
     else case normalize_flow_value v of Some f \<Rightarrow> Inr (Some f)
       | None \<Rightarrow> Inl (Value_error ''Unsupported flow value''))"

definition flow_setting :: "(proxy_type \<times> settings) list \<Rightarrow> proxy_type \<Rightarrow> string option" where
  "flow_setting ps p = (case map_of ps p of None \<Rightarrow> None
     | Some st \<Rightarrow> (case setting_get st ''flow'' of SStr f \<Rightarrow> normalize_flow_value (Some f) | _ \<Rightarrow> None))"

definition extract_flow_from_proxies :: "(proxy_type \<times> settings) list \<Rightarrow> string option" where
  "extract_flow_from_proxies ps =
     (case flow_setting ps VLESS of Some f \<Rightarrow> Some f | None \<Rightarrow> flow_setting ps Trojan)"

definition derive_flow :: "string option \<Rightarrow> (proxy_type \<times> settings) list \<Rightarrow> string option" where
  "derive_flow fl ps = (if str_or_none fl \<noteq> None then fl
     else case extract_flow_from_proxies ps of Some f \<Rightarrow> Some f | None \<Rightarrow> fl)"

definition validate_status :: "int option \<Rightarrow> int option \<Rightarrow> user_status option \<Rightarrow> user_status option result" where
  "validate_status hold_duration expires st =
     (if st \<noteq> Some On_hold then Inr st
      else if \<not> truthy hold_duration
      then Inl (Value_error ''User cannot be on hold without a valid on_hold_expire_duration.'')
      else if truthy expires then Inl (Value_error ''User cannot be on hold with specified expire.'')
      else Inr st)"

section \<open>Inbounds\<close>

text \<open>
  \<open>UserCreate.validate_inbounds\<close>. \<open>known\<close> are the tags of the core, \<open>tags\<close> those of a protocol,
  \<open>host_map\<close> the map from tags to their hosts' \<open>is_disabled\<close>, \<open>None\<close> when it cannot be had. The model has
  no \<open>service_id\<close>, so the branch without a service is always taken. The \<open>ValueError\<close> for a tag
  without enabled hosts is raised inside the \<open>try\<close> that swallows it.
\<close>

definition host_check :: "(string \<rightharpoonup> bool list) option \<Rightarrow> string \<Rightarrow> unit result" where
  "host_check host_map tag = (case host_map of None \<Rightarrow> Inl Runtime_error
     | Some m \<Rightarrow> (case m tag of None \<Rightarrow> Inr ()
         | Some hs \<Rightarrow> if list_all (\<lambda>disabled. disabled) hs
             then Inl (Value_error ''Inbound has no enabled hosts'') else Inr ()))"

definition swallow :: "unit result \<Rightarrow> unit result" where
  "swallow r = (case r of Inl _ \<Rightarrow> Inr () | Inr u \<Rightarrow> Inr u)"

fun check_tags :: "(string \<Rightarrow> bool) \<Rightarrow> (string \<rightharpoonup> bool list) option \<Rightarrow> string list \<Rightarrow> unit result" where
  "check_tags known host_map [] = Inr ()"
| "check_tags known host_map (t # ts) = (if \<not> known t then Inl (Value_error ''Inbound doesn't exist'')
     else case swallow (host_check host_map t) of Inl e \<Rightarrow> Inl e | Inr _ \<Rightarrow> check_tags known host_map ts)"

definition default_tags :: "(proxy_type \<Rightarrow> string list) \<Rightarrow> (string \<rightharpoonup> bool list) option \<Rightarrow> proxy_type \<Rightarrow>
    string list" where
  "default_tags tags host_map p = (case host_map of None \<Rightarrow> tags p
     | Some m \<Rightarrow> filter (\<lambda>t. case m t of None \<Rightarrow> False | Some hs \<Rightarrow> list_ex (\<lambda>disabled. \<not> disabled) hs) (tags p))"

fun complete_inbounds :: "(string \<Rightarrow> bool) \<Rightarrow> (proxy_type \<Rightarrow> string list) \<Rightarrow>
    (string \<rightharpoonup> bool list) option \<Rightarrow> proxy_type list \<Rightarrow> (proxy_type \<times> string list) list \<Rightarrow>
    (proxy_type \<times> string list) list result" where
  "complete_inbounds known tags host_map [] inb = Inr inb"
| "complete_inbounds known tags host_map (p # ps) inb =
     (case map_of inb p of
        Some (t # ts) \<Rightarrow> (case check_tags known host_map (t # ts) of Inl e \<Rightarrow> Inl e
          | Inr _ \<Rightarrow> complete_inbounds known tags host_map ps inb)
      | _ \<Rightarrow> complete_inbounds known tags host_map ps (AList.update p (default_tags tags host_map p) inb))"

definition validate_create_inbounds :: "(string \<Rightarrow> bool) \<Rightarrow> (proxy_type \<Rightarrow> string list) \<Rightarrow>
    (string \<rightharpoonup> bool list) option \<Rightarrow> proxy_type list \<Rightarrow> (proxy_type \<times> string list) list \<Rightarrow>
    (proxy_type \<times> string list) list result" where
  "validate_create_inbounds known tags host_map ps inb =
     complete_inbounds known tags host_map ps (filter (\<lambda>(p, _). p \<in> set ps) inb)"

definition validate_modify_inbounds :: "(string \<Rightarrow> bool) \<Rightarrow> (proxy_type \<times> string list) list \<Rightarrow>
    (proxy_type \<times> string list) list result" where
  "validate_modify_inbounds known inb =
     (if list_all (\<lambda>(_, ts). list_all known ts) inb then Inr inb
      else Inl (Value_error ''Inbound doesn't exist''))"

section \<open>Bulk actions\<close>

datatype bulk_action = Extend_expire | Reduce_expire | Increase_traffic | Decrease_traffic
  | Cleanup_status | Activate_users | Disable_users | Change_service

record bulk_request =
  br_action :: bulk_action
  br_days :: "int option"
  br_gigabytes :: "rat option"
  br_statuses :: "user_status list option"
  br_scope :: "user_status list option"
  br_service_id :: "int option"
  br_target_service_id :: "int option"
  br_service_id_is_null :: "bool option"
  br_admin_username :: "string option"

fun first_occurrences :: "'a list \<Rightarrow> 'a list \<Rightarrow> 'a list" where
  "first_occurrences seen [] = []"
| "first_occurrences seen (x # xs) =
     (if x \<in> set seen then first_occurrences seen xs else x # first_occurrences (x # seen) xs)"

definition validate_action :: "bulk_request \<Rightarrow> bulk_request result" where
  "validate_action q =
     (let cleaned = (case br_scope q of None \<Rightarrow> [] | Some sc \<Rightarrow> filter (\<lambda>st. st \<noteq> Deleted) sc);
          scoped = (br_scope q \<noteq> None \<and> br_scope q \<noteq> Some []);
          resolved = (case br_statuses q of Some (s # ss) \<Rightarrow> s # ss | _ \<Rightarrow> [Expired, Limited]) in
      if br_action q \<in> {Extend_expire, Reduce_expire, Cleanup_status} \<and>
         (case br_days q of None \<Rightarrow> True | Some n \<Rightarrow> n \<le> 0)
      then Inl (Value_error ''days must be a positive integer'')
      else if br_action q \<in> {Increase_traffic, Decrease_traffic} \<and>
         (case br_gigabytes q of None \<Rightarrow> True | Some g \<Rightarrow> g \<le> 0)
      then Inl (Value_error ''gigabytes must be a positive number'')
      else if br_action q = Cleanup_status \<and> \<not> list_all (\<lambda>st. st \<in> {Expired, Limited}) resolved
      then Inl (Value_error ''cleanup_status only accepts expired or limited'')
      else if scoped \<and> cleaned = [] then Inl (Value_error ''scope cannot be empty or include deleted'')
      else if (case br_service_id q of None \<Rightarrow> False | Some i \<Rightarrow> i \<le> 0)
      then Inl (Value_error ''service_id must be a positive integer'')
      else if br_action q = Change_service \<and> (case br_target_service_id q of None \<Rightarrow> False | Some i \<Rightarrow> i \<le> 0)
      then Inl (Value_error ''target_service_id must be a positive integer'')
      else if br_service_id_is_null q = Some True \<and> br_service_id q \<noteq> None
      then Inl (Value_error ''service_id and service_id_is_null cannot both be set'')
      else Inr (q\<lparr>br_statuses := (if br_action q = Cleanup_status then Some resolved else br_statuses q),
                br_scope := (if scoped then Some (first_occurrences [] cleaned) else br_scope q)\<rparr>))"

section \<open>Credentials of a response\<close>

text \<open>\<open>extract_credentials\<close>: the id or the password of each stored proxy, under the protocol's name.\<close>

definition shown_credential :: "proxy_type \<times> settings \<Rightarrow> (string \<times> string) list" where
  "shown_credential ps = (case ps of (p, st) \<Rightarrow>
     (case setting_get st (if p \<in> uuid_protocols then ''id'' else ''password'') of
        SStr v \<Rightarrow> if v = '''' then [] else [(proxy_value p, v)]
      | _ \<Rightarrow> []))"

definition extract_credentials :: "(proxy_type \<times> settings) list \<Rightarrow> (string \<times> string) list" where
  "extract_credentials ps = concat (map shown_credential ps)"

text \<open>The links of a response in the order of preference, and the one that is chosen.\<close>

definition subscription_links :: "string \<Rightarrow> string \<Rightarrow> string option \<Rightarrow> string \<Rightarrow> (string \<times> string) list" where
  "subscription_links prefix name key token =
     (case str_or_none key of None \<Rightarrow> []
      | Some k \<Rightarrow> [(''username-key'', prefix @ ''/'' @ name @ ''/'' @ k), (''key'', prefix @ ''/'' @ k)]) @
     [(''token'', prefix @ ''/'' @ token)]"

definition link_order :: "string \<Rightarrow> string list" where
  "link_order preferred =
     (if preferred = ''username-key'' then [''username-key'', ''token'', ''key'']
      else if preferred = ''key'' then [''key'', ''token'', ''username-key'']
      else if preferred = ''token'' then [''token'', ''key'', ''username-key'']
      else [''key'', ''username-key'', ''token''])"

definition chosen_link :: "string \<Rightarrow> (string \<times> string) list \<Rightarrow> string" where
  "chosen_link preferred links = (case List.find (\<lambda>k. map_of links k \<noteq> None) (link_order preferred) of
     Some k \<Rightarrow> the (map_of links k)
   | None \<Rightarrow> (case links of [] \<Rightarrow> '''' | (_, l) # _ \<Rightarrow> l))"

section \<open>The pattern of names\<close>

definition span :: "char set \<Rightarrow> string \<Rightarrow> nat \<Rightarrow> nat \<Rightarrow> bool" where
  "span C s i j \<longleftrightarrow> i \<le> j \<and> (\<forall>k. i \<le> k \<and> k < j \<longrightarrow> k < length s \<and> s ! k \<in> C)"

lemma relpow_chars: "(i, j) \<in> matches (Char_in C) s ^^ n \<longleftrightarrow> j = i + n \<and> span C s i j"
proof (induction n arbitrary: j)
  case (Suc n)
  have "(i, j) \<in> matches (Char_in C) s ^^ Suc n \<longleftrightarrow>
      (\<exists>m. (i, m) \<in> matches (Char_in C) s ^^ n \<and> m < length s \<and> s ! m \<in> C \<and> j = Suc m)"
    by (auto simp: relcomp_unfold)
  also have "\<dots> \<longleftrightarrow> (\<exists>m. m = i + n \<and> span C s i m \<and> m < length s \<and> s ! m \<in> C \<and> j = Suc m)"
    by (simp only: Suc.IH) blast
  also have "\<dots> \<longleftrightarrow> j = i + Suc n \<and> span C s i j"
    by (auto simp: span_def less_Suc_eq)
  finally show ?case .
qed (auto simp: span_def)

lemma star_chars: "(i, j) \<in> matches (Star (Char_in C)) s \<longleftrightarrow> span C s i j"
proof -
  have "(i, j) \<in> matches (Star (Char_in C)) s \<longleftrightarrow> (\<exists>n. (i, j) \<in> matches (Char_in C) s ^^ n)"
    by (simp only: matches.simps rtrancl_power)
  also have "\<dots> \<longleftrightarrow> (\<exists>n. j = i + n \<and> span C s i j)" by (simp only: relpow_chars)
  also have "\<dots> \<longleftrightarrow> span C s i j" by (auto simp: span_def le_iff_add)
  finally show ?thesis .
qed

lemma plus_chars: "(i, j) \<in> matches (plus (Char_in C)) s \<longleftrightarrow> i < j \<and> span C s i j"
proof -
  have "(i, j) \<in> matches (plus (Char_in C)) s \<longleftrightarrow> i < length s \<and> s ! i \<in> C \<and> span C s (Suc i) j"
    using star_chars [of "Suc i" j C s] by (auto simp: plus_def relcomp_unfold simp del: matches.simps(3))
  also have "\<dots> \<longleftrightarrow> i < j \<and> span C s i j"
    by (auto simp: span_def Suc_le_eq) (metis le_neq_implies_less not_less_eq_eq Suc_leI)
  finally show ?thesis .
qed

lemma span_trans: "span C s i j \<Longrightarrow> span C s j k \<Longrightarrow> span C s i k"
  by (auto simp: span_def) (meson leI)+

lemma underscores_in: "CHR ''_'' \<in> C \<Longrightarrow>
    (i, j) \<in> matches (Star (Cat (Char_in {CHR ''_''}) (plus (Char_in C)))) s \<Longrightarrow> span C s i j"
proof -
  assume u: "CHR ''_'' \<in> C" and "(i, j) \<in> matches (Star (Cat (Char_in {CHR ''_''}) (plus (Char_in C)))) s"
  then have "(i, j) \<in> (matches (Cat (Char_in {CHR ''_''}) (plus (Char_in C))) s)\<^sup>*" by simp
  then show "span C s i j"
  proof (induction rule: rtrancl_induct)
    case base
    then show ?case by (auto simp: span_def)
  next
    case (step m j)
    then have "m < length s" "s ! m = CHR ''_''" "span C s (Suc m) j"
      using plus_chars by (auto simp: relcomp_unfold)
    then have "k < length s \<and> s ! k \<in> C" if "m \<le> k" "k < j" for k
      using that u by (cases "k = m") (auto simp: span_def)
    moreover have "m \<le> j" using \<open>span C s (Suc m) j\<close> by (simp add: span_def)
    ultimately have "span C s m j" by (simp add: span_def)
    with step.IH show ?case by (rule span_trans)
  qed
qed

lemma run_length: "(span (Collect P) s 0 n \<and> \<not> (n < length s \<and> P (s ! n))) \<longleftrightarrow> length (takeWhile P s) = n"
proof
  assume a: "span (Collect P) s 0 n \<and> \<not> (n < length s \<and> P (s ! n))"
  have "n \<le> length s"
  proof (cases n)
    case (Suc m)
    then have "m < length s" using a by (simp add: span_def)
    then show ?thesis using Suc by simp
  qed simp
  moreover have "takeWhile P s = take n s"
    using a calculation by (intro takeWhile_eq_take_P_nth) (auto simp: span_def)
  ultimately show "length (takeWhile P s) = n" by simp
next
  assume n: "length (takeWhile P s) = n"
  have "k < length s \<and> P (s ! k)" if "k < n" for k
    using that n length_takeWhile_le [of P s] nth_mem [of k "takeWhile P s"]
    by (auto simp: takeWhile_nth dest: set_takeWhileD)
  then show "span (Collect P) s 0 n \<and> \<not> (n < length s \<and> P (s ! n))"
    using n nth_length_takeWhile [of P s] by (auto simp: span_def)
qed

lemma word_lookahead: "0 \<in> Domain (matches (Cat (Times 3 32 (Char_in {c. is_word c})) Word_boundary) s) \<longleftrightarrow>
    3 \<le> length (takeWhile is_word s) \<and> length (takeWhile is_word s) \<le> 32"
proof -
  have b: "((n, n) \<in> matches Word_boundary s) = (\<not> (n < length s \<and> is_word (s ! n)))"
    if "span {c. is_word c} s 0 n" "3 \<le> n" for n
    using that by (auto simp: span_def word_at_def)
  have "0 \<in> Domain (matches (Cat (Times 3 32 (Char_in {c. is_word c})) Word_boundary) s) \<longleftrightarrow>
      (\<exists>n. 3 \<le> n \<and> n \<le> 32 \<and> span {c. is_word c} s 0 n \<and> (n, n) \<in> matches Word_boundary s)"
    by (auto simp: Domain_unfold relcomp_unfold relpow_chars simp del: matches.simps(1))
  also have "\<dots> \<longleftrightarrow> (\<exists>n. 3 \<le> n \<and> n \<le> 32 \<and> span {c. is_word c} s 0 n \<and> \<not> (n < length s \<and> is_word (s ! n)))"
    using b by blast
  also have "\<dots> \<longleftrightarrow> (\<exists>n. 3 \<le> n \<and> n \<le> 32 \<and> length (takeWhile is_word s) = n)"
    using run_length [of is_word s] by blast
  finally show ?thesis by blast
qed

lemma name_body:
  assumes "CHR ''_'' \<in> C"
  shows "0 \<in> Domain (matches (Cat (plus (Char_in C))
      (Cat (Star (Cat (Char_in {CHR ''_''}) (plus (Char_in C)))) Dollar)) s) \<longleftrightarrow>
    (\<exists>j. 0 < j \<and> span C s 0 j \<and> (j = length s \<or> (Suc j = length s \<and> s ! j = CHR 0x0A)))"
    (is "?l = ?r")
proof
  let ?S = "Star (Cat (Char_in {CHR ''_''}) (plus (Char_in C)))"
  assume ?l
  then obtain i j where ij: "(0, i) \<in> matches (plus (Char_in C)) s" "(i, j) \<in> matches ?S s"
    "j = length s \<or> (Suc j = length s \<and> s ! j = CHR 0x0A)"
    by (auto simp: Domain_unfold relcomp_unfold simp del: matches.simps(3))
  have "0 < i" "span C s 0 i" using ij(1) plus_chars by blast+
  moreover have ij2: "span C s i j" by (rule underscores_in [OF assms ij(2)])
  moreover have "i \<le> j" using ij2 by (simp add: span_def)
  ultimately show ?r using ij(3) span_trans by (metis less_le_trans)
next
  let ?S = "Star (Cat (Char_in {CHR ''_''}) (plus (Char_in C)))"
  assume ?r
  then obtain j where j: "0 < j" "span C s 0 j" "j = length s \<or> (Suc j = length s \<and> s ! j = CHR 0x0A)" by blast
  have "(0, j) \<in> matches (plus (Char_in C)) s" using j plus_chars by blast
  moreover have "(j, j) \<in> matches ?S s" by simp
  moreover have "(j, j) \<in> matches Dollar s" using j(3) by simp
  ultimately show ?l by (auto simp: Domain_unfold relcomp_unfold simp del: matches.simps(3,7))
qed

lemma newline_no_name: "\<not> name_char CHR 0x0A" "\<not> is_word CHR 0x0A"
  by (simp_all add: name_char_def is_word_def)

lemma span_whole: "span (Collect P) s 0 (length s) = list_all P s"
  by (auto simp: span_def list_all_length)

lemma regexp_is_username_ok: "re_match username_regexp s = username_ok s"
proof -
  let ?C = "{c. name_char c}"
  have und: "CHR ''_'' \<in> ?C" by (simp add: name_char_def is_word_def)
  have "re_match username_regexp s \<longleftrightarrow>
      0 \<in> Domain (matches (Cat (Times 3 32 (Char_in {c. is_word c})) Word_boundary) s) \<and>
      0 \<in> Domain (matches (Cat (plus (Char_in ?C))
        (Cat (Star (Cat (Char_in {CHR ''_''}) (plus (Char_in ?C)))) Dollar)) s)"
    by (auto simp: re_match_def username_regexp_def Domain_unfold relcomp_unfold
        simp del: matches.simps(1,3,4,6,7))
  also have "\<dots> \<longleftrightarrow> (3 \<le> length (takeWhile is_word s) \<and> length (takeWhile is_word s) \<le> 32) \<and>
      (\<exists>j. 0 < j \<and> span ?C s 0 j \<and> (j = length s \<or> (Suc j = length s \<and> s ! j = CHR 0x0A)))"
    by (simp only: word_lookahead name_body [OF und])
  also have "\<dots> \<longleftrightarrow> username_ok s"
  proof (cases s rule: rev_cases)
    case Nil
    then show ?thesis by (simp add: username_ok_def without_newline_def)
  next
    case (snoc b c)
    show ?thesis
    proof (cases "c = CHR 0x0A")
      case False
      then have w: "without_newline s = s" using snoc by (simp add: without_newline_def)
      have "(\<exists>j. 0 < j \<and> span ?C s 0 j \<and> (j = length s \<or> (Suc j = length s \<and> s ! j = CHR 0x0A))) = list_all name_char s"
      proof -
        have "Suc j = length s \<Longrightarrow> s ! j = c" "length s > 0" for j using snoc by (auto simp: nth_append)
        with False span_whole [of name_char s] show ?thesis by blast
      qed
      then show ?thesis by (auto simp: username_ok_def w Let_def)
    next
      case True
      then have w: "without_newline s = b" using snoc by (simp add: without_newline_def)
      have t: "takeWhile is_word s = takeWhile is_word b"
        using True snoc newline_no_name(2) by (simp add: takeWhile_append) (metis takeWhile_eq_all_conv)
      have "\<not> span ?C s 0 (length s)" using True snoc newline_no_name(1) span_whole [of name_char s] by simp
      moreover have "span ?C s 0 (length b) = span ?C b 0 (length b)"
        using snoc by (auto simp: span_def nth_append)
      then have "(\<exists>j. 0 < j \<and> span ?C s 0 j \<and> (j = length s \<or> (Suc j = length s \<and> s ! j = CHR 0x0A))) =
          (b \<noteq> [] \<and> list_all name_char b)"
      proof -
        have "Suc j = length s \<longleftrightarrow> j = length b" "s ! length b = CHR 0x0A" for j
          using True snoc by (auto simp: nth_append)
        then show ?thesis
          using \<open>\<not> span ?C s 0 (length s)\<close> \<open>span ?C s 0 (length b) = span ?C b 0 (length b)\<close>
            span_whole [of name_char b] by auto
      qed
      then show ?thesis by (auto simp: username_ok_def w t Let_def)
    qed
  qed
  finally show ?thesis .
qed

section \<open>Accepted names\<close>

lemma name_char_plain: "name_char c \<Longrightarrow> c \<noteq> CHR '','' \<and> (of_char c :: nat) < 128"
  by (auto simp: name_char_def is_word_def Let_def)

lemma accepted_name:
  assumes "username_ok s"
  shows "CHR '','' \<notin> set s" "\<forall>c \<in> set s. (of_char c :: nat) < 128" "3 \<le> length s"
proof -
  let ?b = "without_newline s"
  have b: "list_all name_char ?b" "3 \<le> length (takeWhile is_word ?b)"
    using assms by (auto simp: username_ok_def Let_def)
  have s: "set s \<subseteq> set ?b \<union> {CHR 0x0A}"
    by (cases s rule: rev_cases) (auto simp: without_newline_def)
  have "\<forall>c \<in> set ?b. c \<noteq> CHR '','' \<and> (of_char c :: nat) < 128"
    using b(1) name_char_plain by (auto simp: list_all_iff)
  moreover have "CHR 0x0A \<noteq> CHR '',''" "(of_char CHR 0x0A :: nat) < 128" by simp_all
  ultimately have "\<forall>c \<in> set s. c \<noteq> CHR '','' \<and> (of_char c :: nat) < 128" using s by blast
  then show "CHR '','' \<notin> set s" "\<forall>c \<in> set s. (of_char c :: nat) < 128" by auto
  have "length (takeWhile is_word ?b) \<le> length ?b" by (rule length_takeWhile_le)
  then show "3 \<le> length s" using b(2) by (auto simp: without_newline_def split: if_splits)
qed

lemma long_name: "username_ok (''abc-'' @ replicate n CHR ''a'')"
  by (simp add: username_ok_def without_newline_def name_char_def is_word_def list_all_iff Let_def)

section \<open>Bulk actions\<close>

lemma first_occurrences_set: "set (first_occurrences seen xs) = set xs - set seen"
  and first_occurrences_distinct: "distinct (first_occurrences seen xs)"
  by (induction seen xs rule: first_occurrences.induct) (auto simp: insert_Diff_if)

lemma validated_action:
  assumes "validate_action q = Inr q'"
  shows "br_action q' = br_action q"
    "br_action q \<in> {Extend_expire, Reduce_expire, Cleanup_status} \<Longrightarrow> \<exists>n > 0. br_days q' = Some n"
    "br_action q = Cleanup_status \<Longrightarrow> \<exists>ss. br_statuses q' = Some ss \<and> ss \<noteq> [] \<and> set ss \<subseteq> {Expired, Limited}"
    "br_scope q = Some sc \<Longrightarrow> sc \<noteq> [] \<Longrightarrow>
      \<exists>ss. br_scope q' = Some ss \<and> ss \<noteq> [] \<and> distinct ss \<and> set ss = set sc - {Deleted}"
proof -
  show "br_action q' = br_action q"
    using assms by (auto simp: validate_action_def Let_def split: if_splits)
  show "br_action q \<in> {Extend_expire, Reduce_expire, Cleanup_status} \<Longrightarrow> \<exists>n > 0. br_days q' = Some n"
    using assms by (auto simp: validate_action_def Let_def split: if_splits option.splits)
  show "br_action q = Cleanup_status \<Longrightarrow> \<exists>ss. br_statuses q' = Some ss \<and> ss \<noteq> [] \<and> set ss \<subseteq> {Expired, Limited}"
    using assms by (auto simp: validate_action_def Let_def list_all_iff split: if_splits option.splits list.splits)
  show "\<exists>ss. br_scope q' = Some ss \<and> ss \<noteq> [] \<and> distinct ss \<and> set ss = set sc - {Deleted}"
    if "br_scope q = Some sc" "sc \<noteq> []"
  proof -
    let ?c = "filter (\<lambda>st. st \<noteq> Deleted) sc"
    have "br_scope q' = Some (first_occurrences [] ?c)" "?c \<noteq> []"
      using assms that by (auto simp: validate_action_def Let_def split: if_splits)
    moreover have "set (first_occurrences [] ?c) = set ?c" by (simp add: first_occurrences_set)
    moreover have "set ?c = set sc - {Deleted}" by auto
    ultimately show ?thesis using first_occurrences_distinct [of "[]" ?c] by (metis set_empty)
  qed
qed

section \<open>Inbounds\<close>

lemma check_tags_known: "check_tags known host_map ts = (if list_all known ts then Inr ()
    else Inl (Value_error ''Inbound doesn't exist''))"
  by (induction ts) (auto simp: swallow_def split: sum.split)

end
