(* ===== verification/Ports.thy ===== *)
theory Ports
  imports Permissions
begin

text \<open>
  The choice of a free port for an automatic inbound, \<open>_collect_ports\<close> to \<open>_pick_available_port\<close> of
  \<open>app/routers/service.py\<close>. A port entry is any JSON value. Strings are ASCII, so \<open>isdigit\<close> is
  having decimal digits only. A stored configuration has a list under \<open>inbounds\<close>, or nothing.
\<close>

definition isdigit :: "string \<Rightarrow> bool" where
  "isdigit s = (s \<noteq> [] \<and> list_all is_digit s)"

definition digits_value :: "string \<Rightarrow> int" where
  "digits_value s = foldl (\<lambda>n c. 10 * n + (int (of_char c) - 48)) 0 s"

text \<open>What has been collected: single ports and closed ranges.\<close>

type_synonym used_ports = "int list \<times> (int \<times> int) list"

definition collect_chunk :: "string \<Rightarrow> used_ports \<Rightarrow> used_ports" where
  "collect_chunk chunk acc = (case acc of (used, ranges) \<Rightarrow>
     (let part = strip chunk in
      if part = '''' then acc
      else if isdigit part then (digits_value part # used, ranges)
      else if CHR ''-'' \<in> set part then
        (let start_str = strip (takeWhile (\<lambda>c. c \<noteq> CHR ''-'') part);
             end_str = strip (tl (dropWhile (\<lambda>c. c \<noteq> CHR ''-'') part)) in
         if isdigit start_str \<and> isdigit end_str then
           (let a = digits_value start_str; b = digits_value end_str
            in (used, (if a > b then (b, a) else (a, b)) # ranges))
         else acc)
      else acc))"

fun collect_ports :: "json \<Rightarrow> used_ports \<Rightarrow> used_ports" where
  "collect_ports JNull acc = acc"
| "collect_ports (JBool b) acc = ((if b then 1 else 0) # fst acc, snd acc)"
| "collect_ports (JInt n) acc = (n # fst acc, snd acc)"
| "collect_ports (JStr s) acc = fold collect_chunk (split_on CHR '','' s) acc"
| "collect_ports (JArr vs) acc = fold collect_ports vs acc"
| "collect_ports (JObj kvs) acc = acc"

definition config_inbounds :: "json_dict \<Rightarrow> json list" where
  "config_inbounds cfg = (case map_of cfg ''inbounds'' of Some (JArr xs) \<Rightarrow> xs | _ \<Rightarrow> [])"

definition inbound_field :: "json \<Rightarrow> string \<Rightarrow> json" where
  "inbound_field inbound k = (case inbound of
     JObj kvs \<Rightarrow> (case map_of kvs k of None \<Rightarrow> JNull | Some v \<Rightarrow> v) | _ \<Rightarrow> JNull)"

definition extract_used_ports :: "int option \<Rightarrow> json_dict \<Rightarrow> used_ports" where
  "extract_used_ports api_port cfg =
     (let (used, ranges) =
        fold (\<lambda>ib. collect_ports (inbound_field ib ''port'')) (config_inbounds cfg) ([], [])
      in ((case api_port of None \<Rightarrow> used | Some p \<Rightarrow> p # used), ranges))"

definition is_port_used :: "int \<Rightarrow> used_ports \<Rightarrow> bool" where
  "is_port_used port acc = (port \<in> set (fst acc) \<or> list_ex (\<lambda>(a, b). a \<le> port \<and> port \<le> b) (snd acc))"

text \<open>\<open>draws\<close> are the values \<open>random.randint\<close> returns, at most 200 of which are tried.\<close>

definition pick_available_port :: "int list \<Rightarrow> int option \<Rightarrow> json_dict \<Rightarrow> int \<Rightarrow> int \<Rightarrow> int result" where
  "pick_available_port draws api_port cfg min_port max_port =
     (let used = extract_used_ports api_port cfg in
      case List.find (\<lambda>p. \<not> is_port_used p used) (take 200 draws) of
        Some p \<Rightarrow> Inr p
      | None \<Rightarrow> (case List.find (\<lambda>p. \<not> is_port_used p used) [min_port..max_port] of
          Some p \<Rightarrow> Inr p
        | None \<Rightarrow> Inl (Http_error 500 ''No available port found'')))"

section \<open>Lemmas\<close>

lemma collect_chunk_mono: "is_port_used p acc \<Longrightarrow> is_port_used p (collect_chunk c acc)"
  by (cases acc) (auto simp: collect_chunk_def is_port_used_def Let_def)

lemma fold_mono: "(\<And>x acc. x \<in> set xs \<Longrightarrow> P acc \<Longrightarrow> P (f x acc)) \<Longrightarrow> P acc \<Longrightarrow> P (fold f xs acc)"
  by (induction xs arbitrary: acc) simp_all

lemma collect_ports_mono: "is_port_used p acc \<Longrightarrow> is_port_used p (collect_ports v acc)"
proof (induction v acc rule: collect_ports.induct)
  case (4 s acc)
  then show ?case
    by (auto intro!: fold_mono [where P = "is_port_used p"] collect_chunk_mono)
next
  case (5 vs acc)
  then show ?case by (auto intro!: fold_mono [where P = "is_port_used p"])
qed (auto simp: is_port_used_def)

lemma extract_blocks:
  assumes "ib \<in> set (config_inbounds cfg)"
    and "\<And>acc. is_port_used p (collect_ports (inbound_field ib ''port'') acc)"
  shows "is_port_used p (extract_used_ports api cfg)"
proof -
  let ?f = "\<lambda>ib. collect_ports (inbound_field ib ''port'')"
  obtain xs ys where split: "config_inbounds cfg = xs @ ib # ys"
    using assms(1) by (meson split_list)
  have "is_port_used p (fold ?f ys (?f ib (fold ?f xs ([], []))))"
    by (rule fold_mono [where P = "is_port_used p"]) (use assms(2) collect_ports_mono in auto)
  then show ?thesis
    by (auto simp: extract_used_ports_def is_port_used_def split split: option.split prod.split)
qed

lemma api_port_used: "is_port_used p (extract_used_ports (Some p) cfg)"
  by (simp add: extract_used_ports_def is_port_used_def split: prod.split)

lemma collect_chunk_range:
  assumes "takeWhile (\<lambda>c. c \<noteq> CHR ''-'') (strip c) = s"
    and "dropWhile (\<lambda>c. c \<noteq> CHR ''-'') (strip c) = CHR ''-'' # e"
    and "isdigit (strip s)" and "isdigit (strip e)"
    and "min (digits_value (strip s)) (digits_value (strip e)) \<le> p"
    and "p \<le> max (digits_value (strip s)) (digits_value (strip e))"
  shows "is_port_used p (collect_chunk c acc)"
proof -
  have "CHR ''-'' \<in> set (dropWhile (\<lambda>c. c \<noteq> CHR ''-'') (strip c))" using assms(2) by simp
  then have mem: "CHR ''-'' \<in> set (strip c)" using set_dropWhileD by metis
  then have "strip c \<noteq> []" by auto
  moreover have "\<not> isdigit (strip c)"
  proof
    assume "isdigit (strip c)"
    with mem have "is_digit (CHR ''-'')" by (auto simp: isdigit_def list_all_iff)
    then show False by (simp add: is_digit_def)
  qed
  ultimately show ?thesis using assms mem
    by (cases acc) (auto simp: collect_chunk_def is_port_used_def Let_def)
qed

lemma picked_port:
  assumes "pick_available_port draws api cfg lo hi = Inr p"
  shows "\<not> is_port_used p (extract_used_ports api cfg)"
    and "p \<in> set draws \<or> lo \<le> p \<and> p \<le> hi"
proof -
  let ?free = "\<lambda>p. \<not> is_port_used p (extract_used_ports api cfg)"
  have "List.find ?free (take 200 draws) = Some p \<or> List.find ?free [lo..hi] = Some p"
    using assms by (auto simp: pick_available_port_def Let_def split: option.splits)
  moreover have "?free q \<and> q \<in> set xs" if "List.find ?free xs = Some q" for xs q
    using that by (auto simp: find_Some_iff)
  ultimately have "?free p \<and> (p \<in> set (take 200 draws) \<or> p \<in> set [lo..hi])" by blast
  then show "\<not> is_port_used p (extract_used_ports api cfg)"
    and "p \<in> set draws \<or> lo \<le> p \<and> p \<le> hi"
    by (auto dest: in_set_takeD)
qed

lemma no_port:
  assumes "pick_available_port draws api cfg lo hi = Inl e" and "lo \<le> p" and "p \<le> hi"
  shows "is_port_used p (extract_used_ports api cfg)"
  using assms by (auto simp: pick_available_port_def Let_def find_None_iff split: option.splits)

end
