(* ===== verification/Services.thy ===== *)
theory Services
  imports Hosts AdminAuth UserSchema Ports
begin

text \<open>
  \<open>ServiceRepository\<close> of \<open>app/db/crud/other.py\<close> and the service endpoints of
  \<open>app/routers/service.py\<close>. A method of the repository commits once, at its end, so it is a function
  from the tables to a result or to new tables; the endpoints roll back when it raises.
\<close>

text \<open>
  The service endpoints of \<open>app/routers/service.py\<close> and \<open>ServiceRepository.list\<close>
  (\<open>app/db/crud/other.py\<close>). An endpoint is a function of the signed-in admin, its payload and the
  tables; it answers with a result, and leaves the tables as its transaction did. What it tells the
  core and the caches afterwards is left out.
\<close>

section \<open>Payloads\<close>

type_synonym assignment = "int \<times> int option"

record service_create =
  sc_name :: string
  sc_description :: "string option"
  sc_hosts :: "assignment list"
  sc_admin_ids :: "int list"

record service_modify =
  sm_name :: "string option"
  sm_description :: "string option"
  sm_hosts :: "assignment list option"
  sm_admin_ids :: "int list option"

definition ensure_unique_hosts :: "assignment list \<Rightarrow> assignment list result" where
  "ensure_unique_hosts hs = (if length hs \<noteq> length (remdups (map fst hs))
     then Inl (Value_error ''Duplicate host ids are not allowed in a service'') else Inr hs)"

datatype delete_mode = Delete_users | Transfer_users

record service_delete =
  sd_mode :: delete_mode
  sd_target_service_id :: "int option"
  sd_unlink_admins :: bool

definition validate_target :: "service_delete \<Rightarrow> service_delete result" where
  "validate_target p = (case sd_target_service_id p of
     Some i \<Rightarrow> if i < 1 then Inl (Value_error ''target_service_id must be a positive integer when provided'')
       else Inr p
   | None \<Rightarrow> Inr p)"

section \<open>Hosts and admins of a service\<close>

text \<open>The loop over the assignments; \<open>existing\<close> are the hosts that were linked before.\<close>

fun assign_links :: "int list \<Rightarrow> int \<Rightarrow> assignment list \<Rightarrow> host_link list \<Rightarrow> host_link list" where
  "assign_links existing idx [] links = links"
| "assign_links existing idx ((h, s) # as) links =
     (let sort_value = sort_or idx s
      in assign_links existing (idx + 1) as
           (if h \<in> set existing
            then update_where (\<lambda>l. link_host_id l = h) (\<lambda>l. l\<lparr>link_sort := sort_value\<rparr>) links
            else links @ [\<lparr>link_host_id = h, link_sort = sort_value\<rparr>]))"

definition assign_hosts :: "db \<Rightarrow> service \<Rightarrow> assignment list \<Rightarrow> service result" where
  "assign_hosts d svc as =
     (let desired = map fst as;
          found = filter (\<lambda>h. host_id h \<in> set desired) (hosts d) in
      if length found \<noteq> length (remdups desired)
      then Inl (Value_error ''One or more hosts could not be found'')
      else Inr (svc\<lparr>host_links := assign_links (map link_host_id (host_links svc)) 0 as
             (filter (\<lambda>l. link_host_id l \<in> set desired) (host_links svc))\<rparr>))"

definition admin_links_of :: "db \<Rightarrow> int \<Rightarrow> admin_service_link list" where
  "admin_links_of d i = filter (\<lambda>l. link_service_id l = i) (admin_service_links d)"

definition assign_admins :: "int \<Rightarrow> int list \<Rightarrow> db \<Rightarrow> db result" where
  "assign_admins i ids d =
     (let existing = map link_admin_id (admin_links_of d i);
          kept = filter (\<lambda>l. link_service_id l \<noteq> i \<or> link_admin_id l \<in> set ids) (admin_service_links d);
          found = filter (\<lambda>a. aid a \<in> set ids \<and> admin_status a \<noteq> Admin_deleted) (admins d) in
      if ids = [] then Inr (d\<lparr>admin_service_links := kept\<rparr>)
      else if length found \<noteq> length (remdups ids)
      then Inl (Value_error ''One or more admins could not be found'')
      else Inr (d\<lparr>admin_service_links := kept @
        map (\<lambda>a. \<lparr>link_admin_id = aid a, link_service_id = i, link_used_traffic = 0,
            link_lifetime_used_traffic = 0\<rparr>)
          (filter (\<lambda>a. aid a \<notin> set existing) found)\<rparr>))"

section \<open>Creating and changing a service\<close>

text \<open>The constraints a flush checks: unique names, and one link per service and host.\<close>

definition name_free :: "db \<Rightarrow> int \<Rightarrow> string \<Rightarrow> bool" where
  "name_free d i name = list_all (\<lambda>sv. sid sv = i \<or> service_name sv \<noteq> name) (services d)"

definition links_unique :: "service \<Rightarrow> bool" where
  "links_unique svc = distinct (map link_host_id (host_links svc))"

definition flush_service :: "service \<Rightarrow> db \<Rightarrow> db result" where
  "flush_service svc d =
     (if \<not> name_free d (sid svc) (service_name svc) \<or> \<not> links_unique svc
      then Inl (Integrity_error ''UNIQUE constraint failed'')
      else Inr (d\<lparr>services := store_service svc (services d)\<rparr>))"

definition create_service_row :: "instant \<Rightarrow> service_create \<Rightarrow> db \<Rightarrow> (int \<times> db) result" where
  "create_service_row now p d =
     (let i = next_key sid (services d);
          svc = \<lparr>sid = i, service_name = strip (sc_name p),
            service_description = str_or_none (sc_description p), service_created_at = now,
            host_links = [], service_used_traffic = 0, service_lifetime_used_traffic = 0,
            service_users_usage = 0\<rparr>;
          d1 = d\<lparr>services := services d @ [svc]\<rparr> in
      if sc_hosts p = [] then Inl (Value_error ''Service must include at least one host'')
      else if \<not> name_free d i (service_name svc) then Inl (Integrity_error ''UNIQUE constraint failed'')
      else then_res (assign_hosts d1 svc (sc_hosts p)) (\<lambda>svc'.
        then_res (assign_admins i (sc_admin_ids p) d1) (\<lambda>d2.
        then_res (flush_service svc' d2) (\<lambda>d3. Inr (i, d3)))))"

definition update_service_row :: "core_config \<Rightarrow> service \<Rightarrow> service_modify \<Rightarrow> db \<Rightarrow>
    (service \<times> (proxy_type \<times> string list) list option \<times> (proxy_type \<times> string list) list option \<times> db) result"
    where
  "update_service_row cfg svc m d =
     then_res (case sm_hosts m of None \<Rightarrow> Inr svc
       | Some hs \<Rightarrow> if hs = [] then Inl (Value_error ''Service must include at least one host'')
           else assign_hosts d svc hs) (\<lambda>svc1.
     (let before = (case sm_hosts m of None \<Rightarrow> None
            | Some _ \<Rightarrow> Some (compute_allowed_inbounds cfg (hosts d) svc));
          svc2 = (case sm_name m of None \<Rightarrow> svc1 | Some n \<Rightarrow> svc1\<lparr>service_name := strip n\<rparr>);
          svc3 = (case sm_description m of None \<Rightarrow> svc2
            | Some x \<Rightarrow> svc2\<lparr>service_description := str_or_none (Some x)\<rparr>)
      in then_res (case sm_admin_ids m of None \<Rightarrow> Inr d | Some ids \<Rightarrow> assign_admins (sid svc) ids d) (\<lambda>d1.
         then_res (flush_service svc3 d1) (\<lambda>d2.
           Inr (svc3, before, map_option (\<lambda>_. compute_allowed_inbounds cfg (hosts d2) svc3) before, d2)))))"

text \<open>
  Deleting a service. The users the code moves are still in the loaded collection \<open>service.users\<close> of
  the row that is deleted, and the relationship has no \<open>passive_deletes\<close>. What the ORM does to the
  foreign keys of that collection at the flush is its own matter: \<open>clears\<close> says whether it sets
  them to \<open>NULL\<close>, as SQLAlchemy documents for a one-to-many relationship without a delete cascade.
\<close>

definition remove_service :: "bool \<Rightarrow> service \<Rightarrow> delete_mode \<Rightarrow> service option \<Rightarrow> bool \<Rightarrow> db \<Rightarrow>
    (user list \<times> user list \<times> db) result" where
  "remove_service clears svc mode target unlink d =
     (let us = service_users d (sid svc);
          d1 = d\<lparr>services := filter (\<lambda>s. sid s \<noteq> sid svc) (services d),
                 admin_service_links :=
                   filter (\<lambda>l. link_service_id l \<noteq> sid svc) (admin_service_links d)\<rparr>;
          moved = map (\<lambda>u. u\<lparr>service_id := (if clears then None else map_option sid target)\<rparr>) us in
      if admin_links_of d (sid svc) \<noteq> [] \<and> \<not> unlink
      then Inl (Value_error ''Service has admins assigned. Unlink them before deleting.'')
      else if us = [] then Inr ([], [], d1)
      else case mode of
        Transfer_users \<Rightarrow>
          if map_option sid target = Some (sid svc)
          then Inl (Value_error ''A different target service is required for transferring users'')
          else Inr ([], moved, d1\<lparr>users := fold store_user moved (users d)\<rparr>)
      | Delete_users \<Rightarrow> Inr (us, [], delete_rows us d1))"

definition reset_service_usage :: "service \<Rightarrow> db \<Rightarrow> db" where
  "reset_service_usage svc d = d\<lparr>services := store_service (svc\<lparr>service_used_traffic := 0\<rparr>) (services d),
     admin_service_links := update_where (\<lambda>l. link_service_id l = sid svc)
       (\<lambda>l. l\<lparr>link_used_traffic := 0\<rparr>) (admin_service_links d)\<rparr>"

section \<open>Listing\<close>

text \<open>SQL \<open>LIKE\<close>, with its wildcards; \<open>name_ilike\<close> on ASCII text.\<close>

fun name_like :: "string \<Rightarrow> string \<Rightarrow> bool" where
  "name_like [] s = (s = [])"
| "name_like (c # p) s =
     (if c = CHR ''%'' then name_like p s \<or> (case s of [] \<Rightarrow> False | _ # s' \<Rightarrow> name_like (c # p) s')
      else (case s of [] \<Rightarrow> False | x # s' \<Rightarrow> (c = CHR ''_'' \<or> c = x) \<and> name_like p s'))"

definition name_ilike :: "string \<Rightarrow> string \<Rightarrow> bool" where
  "name_ilike pattern s = name_like (lower pattern) (lower s)"

record service_listing =
  sl_services :: "service list"
  sl_total :: int
  sl_host_counts :: "(int \<times> int) list"
  sl_user_counts :: "(int \<times> int) list"

definition page :: "int \<Rightarrow> int option \<Rightarrow> 'a list \<Rightarrow> 'a list" where
  "page offset limit xs = (let ys = drop (nat offset) xs in
     case limit of None \<Rightarrow> ys | Some n \<Rightarrow> if n = 0 then ys else take (nat n) ys)"

definition nonzero_counts :: "(int \<Rightarrow> int) \<Rightarrow> service list \<Rightarrow> (int \<times> int) list" where
  "nonzero_counts f svcs = filter (\<lambda>(_, n). n \<noteq> 0) (map (\<lambda>sv. (sid sv, f (sid sv))) svcs)"

definition list_services :: "string option \<Rightarrow> principal \<Rightarrow> int \<Rightarrow> int option \<Rightarrow> db \<Rightarrow> service_listing" where
  "list_services name a offset limit d =
     (let named = (case str_or_none name of None \<Rightarrow> services d
            | Some n \<Rightarrow> filter (\<lambda>sv. name_ilike (''%'' @ n @ ''%'') (service_name sv)) (services d));
          visible = (if pr_role a \<in> {Sudo, Full_access} then named
            else filter (\<lambda>sv. list_ex (\<lambda>l. Some (link_admin_id l) = pr_id a) (admin_links_of d (sid sv))) named);
          shown = page offset limit (sort_key (\<lambda>sv. - service_created_at sv) visible)
      in \<lparr>sl_services = shown, sl_total = int (length visible),
          sl_host_counts = nonzero_counts (\<lambda>i. case fetch_service i (services d) of None \<Rightarrow> 0
              | Some sv \<Rightarrow> int (length (host_links sv))) shown,
          sl_user_counts = nonzero_counts (\<lambda>i. int (length (service_users d i))) shown\<rparr>)"

text \<open>The hosts of a service that count: enabled, with an inbound the configuration knows.\<close>

definition valid_hosts :: "(string \<Rightarrow> bool) \<Rightarrow> db \<Rightarrow> service \<Rightarrow> (proxy_host \<times> host_link) list" where
  "valid_hosts known d svc = List.map_filter (\<lambda>l. case fetch_host (link_host_id l) (hosts d) of
       None \<Rightarrow> None
     | Some h \<Rightarrow> if host_is_disabled h = Some True \<or> \<not> known (host_inbound_tag h) then None
         else Some (h, l)) (host_links svc)"

record service_detail =
  det_service :: service
  det_hosts :: "(proxy_host \<times> host_link) list"
  det_admins :: "(admin \<times> admin_service_link) list"
  det_user_count :: int
  det_broken :: bool

definition service_to_detail :: "(string \<Rightarrow> bool) \<Rightarrow> db \<Rightarrow> service \<Rightarrow> service_detail" where
  "service_to_detail known d svc =
     (let hs = valid_hosts known d svc in
      \<lparr>det_service = svc, det_hosts = hs,
       det_admins = List.map_filter (\<lambda>l. map_option (\<lambda>a. (a, l)) (fetch_admin (link_admin_id l) (admins d)))
         (admin_links_of d (sid svc)),
       det_user_count = int (length (service_users d (sid svc))),
       det_broken = (hs = [])\<rparr>)"

section \<open>Who may see a service\<close>

definition admin_ids_of :: "db \<Rightarrow> service \<Rightarrow> int list" where
  "admin_ids_of d svc = map link_admin_id (admin_links_of d (sid svc))"

definition ensure_service_visibility :: "db \<Rightarrow> service \<Rightarrow> principal \<Rightarrow> unit result" where
  "ensure_service_visibility d svc a =
     (if pr_role a \<in> {Sudo, Full_access} then Inr ()
      else case pr_id a of None \<Rightarrow> Inl (Http_error 403 ''You're not allowed'')
        | Some i \<Rightarrow> if i \<in> set (admin_ids_of d svc) then Inr ()
            else Inl (Http_error 403 ''You're not allowed''))"

definition need_service :: "db \<Rightarrow> int \<Rightarrow> service result" where
  "need_service d i = (case get_service d i of
     None \<Rightarrow> Inl (Http_error 404 ''Service not found'') | Some svc \<Rightarrow> Inr svc)"

definition need_sudo :: "principal \<Rightarrow> unit result" where
  "need_sudo a = (if pr_role a \<in> {Sudo, Full_access} then Inr () else Inl (Http_error 403 ''You're not allowed''))"

definition get_service_detail :: "(string \<Rightarrow> bool) \<Rightarrow> int \<Rightarrow> principal \<Rightarrow> db \<Rightarrow> service_detail result" where
  "get_service_detail known i a d =
     then_res (need_service d i) (\<lambda>svc.
     then_res (ensure_service_visibility d svc a) (\<lambda>_. Inr (service_to_detail known d svc)))"

definition get_service_users :: "int \<Rightarrow> int \<Rightarrow> int option \<Rightarrow> principal \<Rightarrow> db \<Rightarrow> (user list \<times> int) result" where
  "get_service_users i offset limit a d =
     then_res (need_service d i) (\<lambda>svc.
     then_res (ensure_service_visibility d svc a) (\<lambda>_.
       (let us = filter (\<lambda>u. status u \<noteq> Deleted) (service_users d i)
        in Inr (page offset limit us, int (length us)))))"

section \<open>Changing services\<close>

text \<open>A \<open>ValueError\<close> of the repository becomes an answer with code 400.\<close>

definition value_error_400 :: "'a result \<Rightarrow> 'a result" where
  "value_error_400 r = (case r of Inl (Value_error m) \<Rightarrow> Inl (Http_error 400 m) | _ \<Rightarrow> r)"

definition create_service_endpoint :: "instant \<Rightarrow> service_create \<Rightarrow> principal \<Rightarrow> db \<Rightarrow> (int \<times> db) result" where
  "create_service_endpoint now p a d =
     then_res (need_sudo a) (\<lambda>_. value_error_400 (create_service_row now p d))"

text \<open>\<open>modify_service\<close>, with the refresh of the service's users that runs after the commit.\<close>

definition modify_service :: "environment \<Rightarrow> instant \<Rightarrow> int \<Rightarrow> service_modify \<Rightarrow> principal \<Rightarrow> db \<Rightarrow>
    db result" where
  "modify_service env now i m a d =
     then_res (need_sudo a) (\<lambda>_.
     then_res (need_service d i) (\<lambda>svc.
     then_res (value_error_400 (update_service_row (core env) svc m d)) (\<lambda>(svc', before, after, d').
       Inr (if sm_hosts m \<noteq> None then service_users_refresh env now [i] d' else d'))))"

definition delete_service :: "bool \<Rightarrow> int \<Rightarrow> service_delete \<Rightarrow> principal \<Rightarrow> db \<Rightarrow>
    (user list \<times> user list \<times> db) result" where
  "delete_service clears i p a d =
     then_res (need_sudo a) (\<lambda>_.
     then_res (need_service d i) (\<lambda>svc.
     then_res (case sd_target_service_id p of
         Some k \<Rightarrow> if sd_mode p = Transfer_users then
             (if k = sid svc then Inl (Http_error 400 ''Target service must be different'')
              else case get_service d k of
                None \<Rightarrow> Inl (Http_error 404 ''Target service not found'') | Some t \<Rightarrow> Inr (Some t))
           else Inr None
       | None \<Rightarrow> Inr None) (\<lambda>target.
       value_error_400 (remove_service clears svc (sd_mode p) target (sd_unlink_admins p) d))))"

definition reset_usage_endpoint :: "int \<Rightarrow> principal \<Rightarrow> db \<Rightarrow> db result" where
  "reset_usage_endpoint i a d =
     then_res (need_sudo a) (\<lambda>_.
     then_res (need_service d i) (\<lambda>svc. Inr (reset_service_usage svc d)))"

section \<open>Actions on the users of a service\<close>

text \<open>Python's \<open>round\<close>, half to even, and the byte count of an amount in gigabytes.\<close>

definition py_round :: "rat \<Rightarrow> int" where
  "py_round q = (let f = floor q; r = q - of_int f in
     if r < 1 / 2 then f else if r > 1 / 2 then f + 1 else if even f then f else f + 1)"

definition gigabytes_delta :: "rat \<Rightarrow> int" where
  "gigabytes_delta g = max 1 (py_round (g * 1073741824))"

definition the_days :: "bulk_request \<Rightarrow> int" where
  "the_days q = or_zero (br_days q)"

definition the_gigabytes :: "bulk_request \<Rightarrow> rat" where
  "the_gigabytes q = (case br_gigabytes q of None \<Rightarrow> 0 | Some g \<Rightarrow> g)"

text \<open>
  The dispatch that both action endpoints share: what the action does to the users of \<open>target\<close>, when
  there is one, and of the given service. The payload has passed \<open>validate_action\<close>, so \<open>days\<close>,
  \<open>gigabytes\<close> and \<open>statuses\<close> are there where they are used.
\<close>

definition run_action :: "instant \<Rightarrow> bulk_request \<Rightarrow> admin option \<Rightarrow> int option \<Rightarrow> bool \<Rightarrow> db \<Rightarrow>
    (int \<times> db) result" where
  "run_action now q target svc without d =
     (let scope = map_option (map Inl) (br_scope q) in
      case br_action q of
        Extend_expire \<Rightarrow> Inr (adjust_all_users_expire now (the_days q * 86400) target svc without scope d)
      | Reduce_expire \<Rightarrow> Inr (adjust_all_users_expire now (- the_days q * 86400) target svc without scope d)
      | Increase_traffic \<Rightarrow>
          Inr (adjust_all_users_limit now (gigabytes_delta (the_gigabytes q)) target svc without scope d)
      | Decrease_traffic \<Rightarrow>
          Inr (adjust_all_users_limit now (- gigabytes_delta (the_gigabytes q)) target svc without scope d)
      | Cleanup_status \<Rightarrow> Inr (delete_users_by_status_age now
          (case br_statuses q of None \<Rightarrow> [] | Some ss \<Rightarrow> ss) (the_days q) target svc without d)
      | Activate_users \<Rightarrow> bulk_update_user_status now Active target svc without d
      | Disable_users \<Rightarrow> bulk_update_user_status now Disabled target svc without d
      | Change_service \<Rightarrow> Inl (Http_error 400 ''Unsupported action''))"

definition need_admin :: "db \<Rightarrow> string \<Rightarrow> admin result" where
  "need_admin d name = (case get_admin d (Some name) None of
     None \<Rightarrow> Inl (Http_error 404 ''Admin not found'') | Some adm \<Rightarrow> Inr adm)"

text \<open>The admin whose users are meant: anybody for sudo, the caller for the others.\<close>

definition action_target :: "service \<Rightarrow> bulk_request \<Rightarrow> principal \<Rightarrow> db \<Rightarrow> admin option result" where
  "action_target svc q a d =
     (if pr_role a \<in> {Sudo, Full_access} then
        (case str_or_none (br_admin_username q) of
           None \<Rightarrow> Inr None
         | Some name \<Rightarrow> then_res (need_admin d name) (\<lambda>adm.
             if aid adm \<notin> set (admin_ids_of d svc)
             then Inl (Http_error 403 ''Admin not assigned to this service'') else Inr (Some adm)))
      else then_res (need_admin d (pr_username a)) (\<lambda>adm.
        if aid adm \<notin> set (admin_ids_of d svc)
        then Inl (Http_error 403 ''Service not assigned to admin'') else Inr (Some adm)))"

text \<open>Any other exception of an action is answered with code 500, after a rollback.\<close>

definition other_error_500 :: "'a result \<Rightarrow> 'a result" where
  "other_error_500 r = (case r of
     Inl (Http_error c m) \<Rightarrow> Inl (Http_error c m)
   | Inl e \<Rightarrow> Inl (Http_error 500 ''action failed'') | Inr x \<Rightarrow> Inr x)"

definition service_users_action :: "instant \<Rightarrow> int \<Rightarrow> bulk_request \<Rightarrow> principal \<Rightarrow> db \<Rightarrow>
    (int \<times> db) result" where
  "service_users_action now i q a d =
     then_res (need_service d i) (\<lambda>svc.
     then_res (ensure_user_permission a Perm_advanced_actions) (\<lambda>_.
     then_res (action_target svc q a d) (\<lambda>target.
       other_error_500 (run_action now q target (Some (sid svc)) False d))))"

section \<open>Automatic inbounds\<close>

definition auto_inbound_tag :: "int \<Rightarrow> string" where
  "auto_inbound_tag i = ''setservice-'' @ int_text i"

definition has_inbound :: "string \<Rightarrow> json_dict \<Rightarrow> bool" where
  "has_inbound tag cfg = list_ex (\<lambda>ib. inbound_field ib ''tag'' = JStr tag) (config_inbounds cfg)"

definition auto_inbound :: "string \<Rightarrow> int \<Rightarrow> json" where
  "auto_inbound tag port = JObj [(''tag'', JStr tag), (''listen'', JStr ''::''), (''port'', JInt port),
     (''protocol'', JStr ''shadowsocks''),
     (''settings'', JObj [(''clients'', JArr []), (''network'', JStr ''tcp,udp'')])]"

definition set_inbounds :: "json list \<Rightarrow> json_dict \<Rightarrow> json_dict" where
  "set_inbounds ibs cfg = AList.update ''inbounds'' (JArr ibs) cfg"

text \<open>
  \<open>apply_config\<close> checks and stores the configuration in a session of its own: \<open>accepts\<close> is its
  answer. The endpoints leave the stored configuration and the tables.
\<close>

definition apply_config :: "(json_dict \<Rightarrow> unit result) \<Rightarrow> json_dict \<Rightarrow> json_dict \<Rightarrow> unit result \<times> json_dict" where
  "apply_config accepts new old = (case accepts new of Inl e \<Rightarrow> (Inl e, old) | Inr _ \<Rightarrow> (Inr (), new))"

definition create_auto_inbound :: "(json_dict \<Rightarrow> unit result) \<Rightarrow> int list \<Rightarrow> int option \<Rightarrow> int \<Rightarrow>
    principal \<Rightarrow> json_dict \<Rightarrow> db \<Rightarrow> (string \<times> int) result \<times> json_dict \<times> db" where
  "create_auto_inbound accepts draws api_port i a cfg d =
     (let tag = auto_inbound_tag i in
      case then_res (need_sudo a) (\<lambda>_. then_res (need_service d i) (\<lambda>_.
           if has_inbound tag cfg then Inl (Http_error 400 ''Auto inbound already exists'')
           else pick_available_port draws api_port cfg 10000 60000)) of
        Inl e \<Rightarrow> (Inl e, cfg, d)
      | Inr port \<Rightarrow>
         (case apply_config accepts (set_inbounds (config_inbounds cfg @ [auto_inbound tag port]) cfg) cfg of
            (Inl e, cfg') \<Rightarrow> (Inl e, cfg', d)
          | (Inr _, cfg') \<Rightarrow> (Inr (tag, port), cfg', snd (outcome (get_or_create tag) d))))"

fun drop_first :: "('a \<Rightarrow> bool) \<Rightarrow> 'a list \<Rightarrow> 'a list" where
  "drop_first p [] = []"
| "drop_first p (x # xs) = (if p x then xs else x # drop_first p xs)"

definition delete_auto_inbound :: "(json_dict \<Rightarrow> unit result) \<Rightarrow> int \<Rightarrow> principal \<Rightarrow> json_dict \<Rightarrow> db \<Rightarrow>
    unit result \<times> json_dict \<times> db" where
  "delete_auto_inbound accepts i a cfg d =
     (let tag = auto_inbound_tag i in
      case then_res (need_sudo a) (\<lambda>_. then_res (need_service d i) (\<lambda>_.
           if has_inbound tag cfg then Inr () else Inl (Http_error 404 ''Auto inbound not found''))) of
        Inl e \<Rightarrow> (Inl e, cfg, d)
      | Inr _ \<Rightarrow>
         (case apply_config accepts (set_inbounds
              (drop_first (\<lambda>ib. inbound_field ib ''tag'' = JStr tag) (config_inbounds cfg)) cfg) cfg of
            (Inl e, cfg') \<Rightarrow> (Inl e, cfg', d)
          | (Inr _, cfg') \<Rightarrow>
             (case outcome (op_bind (delete_inbound tag) (\<lambda>_. op_commit)) d of
                (r, d') \<Rightarrow> (value_error_400 r, cfg', d'))))"

end
