(* ===== verification/UserRoutes.thy ===== *)
theory UserRoutes
  imports Services Quota
begin

text \<open>
  The user endpoints of \<open>app/routers/user.py\<close>: checks of the signed-in admin and of the payload,
  then the function of \<open>app/db/crud\<close>, then the answer to its exceptions. An endpoint is a function of
  the admin its dependencies let in; it answers with a result and leaves the tables. Messages to the
  core, reports and caches are left out. Pydantic's parsing of a request body is a parameter, its
  validators are those of \<open>UserSchema\<close>.
\<close>

section \<open>Shared checks\<close>

definition privileged :: "principal \<Rightarrow> bool" where
  "privileged a = (pr_role a \<in> {Sudo, Full_access})"

text \<open>Continue when a check passes; a refused request leaves the tables.\<close>

definition checked :: "'a result \<Rightarrow> ('a \<Rightarrow> 'b result \<times> db) \<Rightarrow> db \<Rightarrow> 'b result \<times> db" where
  "checked r f d = (case r of Inl e \<Rightarrow> (Inl e, d) | Inr x \<Rightarrow> f x)"

definition keep_tables :: "('a \<times> db) result \<Rightarrow> db \<Rightarrow> 'a result \<times> db" where
  "keep_tables r d = (case r of Inl e \<Rightarrow> (Inl e, d) | Inr (x, d') \<Rightarrow> (Inr x, d'))"

definition users_limit_400 :: "'a result \<Rightarrow> 'a result" where
  "users_limit_400 r = (case r of
     Inl (Users_limit_reached l n b) \<Rightarrow> Inl (Http_error 400 ''Users limit reached'') | _ \<Rightarrow> r)"

definition ensure_flow_permission :: "principal \<Rightarrow> bool \<Rightarrow> unit result" where
  "ensure_flow_permission a has_flow =
     (if \<not> has_flow \<or> privileged a \<or> set_flow (perm_users (pr_permissions a)) then Inr ()
      else Inl (Http_error 403 ''You're not allowed to set user flow.''))"

definition ensure_custom_key_permission :: "principal \<Rightarrow> bool \<Rightarrow> unit result" where
  "ensure_custom_key_permission a has_key =
     (if \<not> has_key \<or> privileged a \<or> allow_custom_key (perm_users (pr_permissions a)) then Inr ()
      else Inl (Http_error 403 ''You're not allowed to set a custom credential key.''))"

text \<open>The cap of the admin on a data limit, where the code compares both zero and a larger value.\<close>

definition no_unlimited :: "principal \<Rightarrow> int option \<Rightarrow> unit result" where
  "no_unlimited a dl = (case (dl, max_data_limit_per_user (perm_users (pr_permissions a))) of
     (Some n, Some cap) \<Rightarrow>
       if n = 0 \<and> \<not> user_allows (perm_users (pr_permissions a)) Perm_allow_unlimited_data
       then Inl (Http_error 400 ''Unlimited data is not allowed.'') else Inr ()
   | _ \<Rightarrow> Inr ())"

definition within_cap :: "principal \<Rightarrow> int option \<Rightarrow> unit result" where
  "within_cap a dl = then_res (no_unlimited a dl) (\<lambda>_.
     (case (dl, max_data_limit_per_user (perm_users (pr_permissions a))) of
        (Some n, Some cap) \<Rightarrow>
          if n > 0 \<and> n > cap then Inl (Http_error 400 ''Data limit exceeds maximum'') else Inr ()
      | _ \<Rightarrow> Inr ()))"

definition plan_limit :: "plan_model option \<Rightarrow> int option" where
  "plan_limit p = (case p of None \<Rightarrow> None | Some pm \<Rightarrow> pm_data_limit pm)"

section \<open>Services selected by an inbound\<close>

text \<open>\<open>_detect_auto_service_from_inbounds\<close>: the service the single tag \<open>setservice-<id>\<close> names.\<close>

definition auto_service_digits :: "string \<Rightarrow> string option" where
  "auto_service_digits tag =
     (if starts_with ''setservice-'' (lower tag) \<and> isdigit (drop 11 tag) then Some (drop 11 tag) else None)"

lemma auto_service_tags: "auto_service_digits ''SetService-12'' = Some ''12''" "auto_service_digits ''service-12'' = None"
  by code_simp+

definition inbound_tags_of :: "json \<Rightarrow> string list" where
  "inbound_tags_of v = (case v of
     JArr xs \<Rightarrow> List.map_filter (\<lambda>x. case x of JStr s \<Rightarrow> Some s | _ \<Rightarrow> None) xs
   | JStr s \<Rightarrow> [s] | _ \<Rightarrow> [])"

definition detect_auto_service :: "int option \<Rightarrow> json \<Rightarrow> int option result" where
  "detect_auto_service svc inbounds =
     (if svc \<noteq> None then Inr None
      else case inbounds of
        JObj kvs \<Rightarrow>
          (let tags = remdups (filter (\<lambda>t. t \<noteq> []) (map strip (concat (map (inbound_tags_of \<circ> snd) kvs))));
               auto = filter (\<lambda>t. auto_service_digits t \<noteq> None) tags
           in case auto of
                [] \<Rightarrow> Inr None
              | [t] \<Rightarrow>
                  if length tags \<noteq> 1
                  then Inl (Http_error 400 ''Service inbound must be selected alone without any additional inbounds.'')
                  else if digits_value (the (auto_service_digits t)) \<le> 0
                  then Inl (Http_error 400 ''Invalid service inbound tag'')
                  else Inr (Some (digits_value (the (auto_service_digits t))))
              | _ \<Rightarrow> Inl (Http_error 400 ''Only one service inbound can be selected at a time.''))
      | _ \<Rightarrow> Inr None)"

section \<open>Creating a user\<close>

text \<open>
  The request: \<open>service_id\<close> and \<open>inbounds\<close> as sent, whether \<open>proxies\<close> has any, and the two
  validations, of \<open>UserServiceCreate\<close> and of \<open>UserCreate\<close>; the latter with the proxies and inbounds
  of a service in place of those sent.
\<close>

record add_request =
  aq_raw_read :: bool
  aq_service_id :: "int option"
  aq_inbounds :: json
  aq_has_proxies :: bool
  aq_service_model :: "user_create result"
  aq_model :: "((proxy_type \<times> settings) list \<times> (proxy_type \<times> string list) list) option \<Rightarrow>
    user_create result"

text \<open>The checks on a validated model, the key of the new user, and the insert.\<close>

definition create_checks :: "principal \<Rightarrow> user_create \<Rightarrow> unit result" where
  "create_checks a m =
     then_res (within_cap a (uc_data_limit m)) (\<lambda>_.
     then_res (within_cap a (plan_limit (uc_next_plan m))) (\<lambda>_.
     ensure_user_constraints a (map_option user_status_value (uc_status m)) (uc_expire m)
       (map_option pm_expire (uc_next_plan m))))"

definition create_answer :: "user result \<times> db \<Rightarrow> user result \<times> db" where
  "create_answer r = (case r of
     (Inl (Users_limit_reached l n b), d) \<Rightarrow> (Inl (Http_error 400 ''Users limit reached''), d)
   | (Inl (Value_error m), d) \<Rightarrow> (Inl (Http_error 400 m), d)
   | (Inl (Integrity_error m), d) \<Rightarrow> (Inl (Http_error 409 ''User already exists''), d)
   | _ \<Rightarrow> r)"

definition keyed_create :: "environment \<Rightarrow> instant \<Rightarrow> int \<Rightarrow> user_create \<Rightarrow> admin option \<Rightarrow>
    service option \<Rightarrow> db \<Rightarrow> user result \<times> db" where
  "keyed_create env now i m owner svc d =
     checked (ensure_user_credential_key (env_masks env) (fresh_key env) (uc_credential_key m) (uc_proxies m))
       (\<lambda>(key, ps). create_user env now i d (m\<lparr>uc_credential_key := Some key, uc_proxies := ps\<rparr>) owner svc) d"

definition add_service_user :: "environment \<Rightarrow> instant \<Rightarrow> int \<Rightarrow> add_request \<Rightarrow> int \<Rightarrow> principal \<Rightarrow> db \<Rightarrow>
    user result \<times> db" where
  "add_service_user env now i q k a d =
     (let sm = aq_service_model q in
      checked (case sm of Inl e \<Rightarrow> Inl (Http_error 400 ''validation'') | Inr x \<Rightarrow> Inr x) (\<lambda>x.
      checked (ensure_flow_permission a (str_or_none (uc_flow x) \<noteq> None)) (\<lambda>_.
      checked (ensure_custom_key_permission a (str_or_none (uc_credential_key x) \<noteq> None)) (\<lambda>_.
      checked (need_service d k) (\<lambda>svc.
      checked (ensure_service_visibility d svc a) (\<lambda>_.
      checked (need_admin d (pr_username a)) (\<lambda>owner.
      (let allowed = compute_allowed_inbounds (core env) (hosts d) svc in
       if list_all (\<lambda>(_, tags). tags = []) allowed
       then (Inl (Http_error 400 ''Service does not have any active hosts''), d)
       else create_answer
         (checked (aq_model q (Some (map (\<lambda>(p, _). (p, [])) allowed, map (\<lambda>(p, tags). (p, sort tags)) allowed)))
           (\<lambda>m. checked (create_checks a m) (\<lambda>_.
                checked (ensure_custom_key_permission a (str_or_none (uc_credential_key m) \<noteq> None)) (\<lambda>_.
                keyed_create env now i m (Some owner) (Some svc) d) d) d) d)))
      d) d) d) d) d) d)"

definition add_plain_user :: "environment \<Rightarrow> instant \<Rightarrow> int \<Rightarrow> add_request \<Rightarrow> principal \<Rightarrow> db \<Rightarrow>
    user result \<times> db" where
  "add_plain_user env now i q a d = create_answer
     (checked (if aq_has_proxies q then Inr ()
         else Inl (Http_error 400 ''Each user needs at least one proxy when creating without a service'')) (\<lambda>_.
      checked (aq_model q None) (\<lambda>m.
      checked (create_checks a m) (\<lambda>_.
      checked (ensure_flow_permission a (str_or_none (uc_flow m) \<noteq> None)) (\<lambda>_.
      checked (ensure_custom_key_permission a (str_or_none (uc_credential_key m) \<noteq> None)) (\<lambda>_.
        keyed_create env now i m (get_admin d (Some (pr_username a)) None) None d) d) d) d) d) d)"

definition add_user :: "environment \<Rightarrow> instant \<Rightarrow> int \<Rightarrow> add_request \<Rightarrow> principal \<Rightarrow> db \<Rightarrow>
    user result \<times> db" where
  "add_user env now i q a d =
     (let sent = (if aq_service_id q = Some 0 then None else aq_service_id q);
          seen = (if aq_raw_read q then aq_service_id q else sent) in
      checked (ensure_user_permission a Perm_create) (\<lambda>_.
      checked (detect_auto_service seen (aq_inbounds q)) (\<lambda>auto.
        (case (case auto of Some k \<Rightarrow> Some k | None \<Rightarrow> sent) of
           Some k \<Rightarrow> add_service_user env now i q k a d
         | None \<Rightarrow> add_plain_user env now i q a d)) d) d)"

section \<open>Modifying a user\<close>

text \<open>
  \<open>choice\<close> is the field \<open>service_id\<close> of the payload. The comparison of \<open>data_limit\<close> with the cap stands
  after the \<open>raise\<close> of the branch for zero, where it is never reached.
\<close>

definition modify_checks :: "principal \<Rightarrow> user_modify \<Rightarrow> unit result" where
  "modify_checks a m =
     then_res (if ''data_limit'' \<in> set (fields_set m) then no_unlimited a (um_data_limit m) else Inr ()) (\<lambda>_.
     then_res (within_cap a (plan_limit (um_next_plan m))) (\<lambda>_.
     ensure_user_constraints a (map_option user_status_value (um_status m)) (um_expire m)
       (map_option pm_expire (um_next_plan m))))"

definition modify_detect :: "user_modify \<Rightarrow> bool \<Rightarrow> int option \<Rightarrow> int option result" where
  "modify_detect m explicit choice = detect_auto_service (if explicit then choice else None)
     (if ''inbounds'' \<in> set (fields_set m)
      then JObj (map (\<lambda>(p, tags). (proxy_value p, JArr (map JStr tags))) (um_inbounds m)) else JObj [])"

definition modify_service_of :: "environment \<Rightarrow> bool \<Rightarrow> int option \<Rightarrow> principal \<Rightarrow> db \<Rightarrow>
    (service option \<times> admin option) result" where
  "modify_service_of env service_set svc a d = (case (if service_set then svc else None) of
     None \<Rightarrow> Inr (None, None)
   | Some k \<Rightarrow> then_res (need_service d k) (\<lambda>target.
       then_res (ensure_service_visibility d target a) (\<lambda>_.
       if list_all (\<lambda>(_, tags). tags = []) (compute_allowed_inbounds (core env) (hosts d) target)
       then Inl (Http_error 400 ''Service does not have any active hosts'')
       else then_res (need_admin d (pr_username a)) (\<lambda>adm. Inr (Some target, Some adm)))))"

definition modify_user :: "environment \<Rightarrow> instant \<Rightarrow> (string \<Rightarrow> user option) \<Rightarrow> string \<Rightarrow> user_modify \<Rightarrow>
    int option \<Rightarrow> principal \<Rightarrow> db \<Rightarrow> user result \<times> db" where
  "modify_user env now cached name m choice a d =
     checked (get_validated_user cached d name a) (\<lambda>u.
     checked (modify_checks a m) (\<lambda>_.
     (let explicit = (''service_id'' \<in> set (fields_set m) \<and> choice \<noteq> None);
          m1 = (if explicit \<and> um_inbounds m \<noteq> [] then m\<lparr>um_inbounds := []\<rparr> else m) in
     checked (modify_detect m1 explicit choice) (\<lambda>auto.
     (let applied = (auto \<noteq> None \<and> \<not> explicit);
          m2 = (if applied then m1\<lparr>um_inbounds := []\<rparr> else m1);
          svc = (if applied then auto else choice);
          service_set = (''service_id'' \<in> set (fields_set m) \<or> applied) in
     checked (if svc \<noteq> None \<and> list_ex (\<lambda>(p, _). tags_of_protocol (core env) p = []) (um_proxies m2)
              then Inl (Http_error 400 ''Protocol is disabled on your server'') else Inr ()) (\<lambda>_.
     checked (if service_set \<and> svc = None \<and> \<not> privileged a
              then Inl (Http_error 403 ''Only sudo admins can set service to null.'') else Inr ()) (\<lambda>_.
     checked (modify_service_of env service_set svc a d) (\<lambda>(target, adm).
       (case update_user env now d u m2 target service_set adm of
          (r, d') \<Rightarrow> (users_limit_400 r, d'))) d) d) d)) d)) d) d"

section \<open>Other endpoints of one user\<close>

text \<open>
  \<open>enum\<close> stands for the database's answers in \<open>crud.remove_user\<close>. The report takes the owner from
  the user, and a user without one makes it raise after the user is gone.
\<close>

definition remove_user_endpoint :: "bool \<times> bool \<times> bool \<Rightarrow> (string \<Rightarrow> user option) \<Rightarrow> string \<Rightarrow> principal \<Rightarrow>
    db \<Rightarrow> unit result \<times> db" where
  "remove_user_endpoint enum cached name a d =
     checked (get_validated_user cached d name a) (\<lambda>u.
     checked (ensure_user_permission a Perm_delete) (\<lambda>_.
     (case enum of (f1, en, f2) \<Rightarrow>
        checked (remove_user f1 en f2 d u) (\<lambda>d'.
          (if admin_of d u = None then Inl (Value_error ''validation'') else Inr (), d')) d)) d) d"

definition reset_usage_of_user :: "instant \<Rightarrow> (string \<Rightarrow> user option) \<Rightarrow> string \<Rightarrow> principal \<Rightarrow> db \<Rightarrow>
    user result \<times> db" where
  "reset_usage_of_user now cached name a d =
     checked (get_validated_user cached d name a) (\<lambda>u.
     checked (ensure_user_permission a Perm_reset_usage) (\<lambda>_.
       keep_tables (users_limit_400 (reset_user_data_usage now d u)) d) d) d"

definition revoke_user_subscription :: "environment \<Rightarrow> instant \<Rightarrow> (string \<Rightarrow> user option) \<Rightarrow> string \<Rightarrow>
    principal \<Rightarrow> db \<Rightarrow> user result \<times> db" where
  "revoke_user_subscription env now cached name a d =
     checked (get_validated_user cached d name a) (\<lambda>u.
     checked (ensure_user_permission a Perm_revoke) (\<lambda>_.
       keep_tables (revoke_user_sub env now d u) d) d) d"

text \<open>\<open>reset_user_by_next\<close> answers \<open>None\<close> where it does nothing, else the row as it is afterwards.\<close>

definition active_next_plan :: "instant \<Rightarrow> (string \<Rightarrow> user option) \<Rightarrow> string \<Rightarrow> principal \<Rightarrow> db \<Rightarrow>
    user result \<times> db" where
  "active_next_plan now cached name a d =
     checked (get_validated_user cached d name a) (\<lambda>u.
     checked (ensure_user_permission a Perm_allow_next_plan) (\<lambda>_.
     checked (users_limit_400 (reset_user_by_next now d u)) (\<lambda>(applied, d').
       (let u' = snd (reset_user_by_next_obj now d u) in
        if \<not> applied \<or> next_plan_of u' = None
        then (Inl (Http_error 404 ''User doesn't have next plan''), d')
        else (Inr u', d'))) d) d) d"

definition set_owner_endpoint :: "(string \<Rightarrow> user option) \<Rightarrow> string \<Rightarrow> string \<Rightarrow> principal \<Rightarrow> db \<Rightarrow>
    unit result \<times> db" where
  "set_owner_endpoint cached name owner a d =
     checked (get_validated_user cached d name a) (\<lambda>u.
     checked (need_sudo a) (\<lambda>_.
     checked (need_admin d owner) (\<lambda>adm. (Inr (), set_owner d u adm)) d) d) d"

section \<open>Actions on many users\<close>

definition check_res :: "bool \<Rightarrow> exn \<Rightarrow> unit result" where
  "check_res b e = (if b then Inr () else Inl e)"

text \<open>
  Whose users, and the service they move to. \<open>names_admin\<close> says whether the payload has the field
  \<open>admin_username\<close>.
\<close>

definition bulk_target :: "bulk_request \<Rightarrow> bool \<Rightarrow> principal \<Rightarrow> db \<Rightarrow>
    (admin option \<times> service option) result" where
  "bulk_target q names_admin a d =
     (let moves = (br_action q = Change_service);
          need_opt = (\<lambda>k. case k of None \<Rightarrow> Inr None | Some i \<Rightarrow> map_sum id Some (need_service d i)) in
      if privileged a then
        then_res (case str_or_none (br_admin_username q) of None \<Rightarrow> Inr None
            | Some n \<Rightarrow> map_sum id Some (need_admin d n)) (\<lambda>target.
        then_res (need_opt (br_service_id q)) (\<lambda>_.
        then_res (if moves then need_opt (br_target_service_id q) else Inr None) (\<lambda>dest.
          Inr (target, dest))))
      else
        then_res (check_res (\<not> names_admin \<or> br_admin_username q = Some (pr_username a))
            (Http_error 403 ''Standard admins can only target their own users'')) (\<lambda>_.
        then_res (need_admin d (pr_username a)) (\<lambda>adm.
        then_res (case br_service_id q of None \<Rightarrow> Inr ()
            | Some i \<Rightarrow> then_res (need_service d i) (\<lambda>svc. check_res (aid adm \<in> set (admin_ids_of d svc))
                (Http_error 403 ''Service not assigned to admin''))) (\<lambda>_.
          if \<not> moves then Inr (Some adm, None)
          else case br_target_service_id q of
            None \<Rightarrow> Inl (Http_error 403 ''Standard admins must select a target service'')
          | Some k \<Rightarrow> then_res (need_service d k) (\<lambda>dest.
              then_res (check_res (aid adm \<in> set (admin_ids_of d dest))
                  (Http_error 403 ''Target service not assigned to admin'')) (\<lambda>_.
                Inr (Some adm, Some dest)))))))"

text \<open>
  Moving users commits before the users of the destination are refreshed, each in turn; both ways of
  moving, the fast one and the other, are the same update.
\<close>

definition change_service_action :: "environment \<Rightarrow> instant \<Rightarrow> bulk_request \<Rightarrow> admin option \<Rightarrow>
    service option \<Rightarrow> db \<Rightarrow> int result \<times> db" where
  "change_service_action env now q target dest d =
     (let without = (br_service_id_is_null q = Some True) in
      case dest of
        None \<Rightarrow>
          if br_target_service_id q = None
          then (case clear_users_service target (br_service_id q) without d of (n, d') \<Rightarrow> (Inr n, d'))
          else (Inl (Http_error 400 ''Target service not provided''), d)
      | Some svc \<Rightarrow>
          (case move_users_to_service svc target (br_service_id q) without d of (n, d') \<Rightarrow>
             (case outcome (refresh_service_users_by_id env now (sid svc)) d' of
                (Inl e, d'') \<Rightarrow> (users_limit_400 (Inl e), d'') | (Inr _, d'') \<Rightarrow> (Inr n, d''))))"

definition perform_users_bulk_action :: "environment \<Rightarrow> instant \<Rightarrow> bulk_request \<Rightarrow> bool \<Rightarrow> principal \<Rightarrow>
    db \<Rightarrow> int result \<times> db" where
  "perform_users_bulk_action env now q names_admin a d =
     checked (ensure_user_permission a Perm_advanced_actions) (\<lambda>_.
     checked (bulk_target q names_admin a d) (\<lambda>(target, dest).
       if br_action q = Change_service then change_service_action env now q target dest d
       else keep_tables (users_limit_400 (run_action now q target (br_service_id q)
         (br_service_id_is_null q = Some True) d)) d) d) d"

definition delete_expired_users :: "bool \<times> bool \<times> bool \<Rightarrow> instant \<Rightarrow> instant \<Rightarrow> principal \<Rightarrow> db \<Rightarrow>
    string list result \<times> db" where
  "delete_expired_users enum after before a d =
     (let us = get_expired_users_list d a after before in
      checked (check_res (us \<noteq> []) (Http_error 404 ''No expired users found in the specified date range'')) (\<lambda>_.
      checked (ensure_user_permission a Perm_delete) (\<lambda>_.
      (case enum of (f1, en, f2) \<Rightarrow>
        checked (remove_users f1 en f2 d us) (\<lambda>d'. (Inr (map username us), d')) d)) d) d)"

end
