(* ===== verification/JsonValues.thy ===== *)
theory JsonValues
  imports Permissions
begin

text \<open>
  JSON values the way the code handles them: truth of a value, \<open>get\<close> and item access on a dictionary,
  \<open>str\<close>, and \<open>json.dumps\<close>. Texts stand for their UTF-8 bytes. A dictionary is an association list in
  the order of insertion; \<open>AList.update\<close> keeps the place of a key, as \<open>dict\<close> does. Numbers are integers.
\<close>

named_theorems json_simps "reading and writing JSON values"

section \<open>Access\<close>

fun json_true :: "json \<Rightarrow> bool" where
  "json_true JNull = False"
| "json_true (JBool b) = b"
| "json_true (JInt n) = (n \<noteq> 0)"
| "json_true (JStr s) = (s \<noteq> [])"
| "json_true (JArr xs) = (xs \<noteq> [])"
| "json_true (JObj kvs) = (kvs \<noteq> [])"

text \<open>\<open>d.get(k)\<close>, \<open>d.get(k, x)\<close> and \<open>d[k]\<close>; \<open>a or b\<close>; a method of \<open>dict\<close> called on any value.\<close>

definition jget :: "json_dict \<Rightarrow> string \<Rightarrow> json" where
  "jget d k = (case map_of d k of None \<Rightarrow> JNull | Some v \<Rightarrow> v)"

definition jget_or :: "json_dict \<Rightarrow> string \<Rightarrow> json \<Rightarrow> json" where
  "jget_or d k x = (case map_of d k of None \<Rightarrow> x | Some v \<Rightarrow> v)"

definition jkey :: "json_dict \<Rightarrow> string \<Rightarrow> json result" where
  "jkey d k = (case map_of d k of None \<Rightarrow> Inl Key_error | Some v \<Rightarrow> Inr v)"

definition jor :: "json \<Rightarrow> json \<Rightarrow> json" where
  "jor a b = (if json_true a then a else b)"

definition as_dict :: "json \<Rightarrow> json_dict result" where
  "as_dict v = (case v of JObj kvs \<Rightarrow> Inr kvs | _ \<Rightarrow> Inl Attribute_error)"

definition dict_or_empty :: "json \<Rightarrow> json_dict" where
  "dict_or_empty v = (case v of JObj kvs \<Rightarrow> kvs | _ \<Rightarrow> [])"

abbreviation jset :: "string \<Rightarrow> json \<Rightarrow> json_dict \<Rightarrow> json_dict" where
  "jset k v d \<equiv> AList.update k v d"

definition jset_if :: "bool \<Rightarrow> string \<Rightarrow> json \<Rightarrow> json_dict \<Rightarrow> json_dict" where
  "jset_if b k v d = (if b then jset k v d else d)"

text \<open>\<open>x in v\<close> for a text \<open>x\<close>: a substring, an element, or a key.\<close>

definition substring :: "string \<Rightarrow> string \<Rightarrow> bool" where
  "substring x s = list_ex (\<lambda>n. starts_with x (drop n s)) [0..<Suc (length s)]"

definition text_in :: "string \<Rightarrow> json \<Rightarrow> bool result" where
  "text_in x v = (case v of
     JStr s \<Rightarrow> Inr (substring x s)
   | JArr xs \<Rightarrow> Inr (JStr x \<in> set xs)
   | JObj kvs \<Rightarrow> Inr (map_of kvs x \<noteq> None)
   | _ \<Rightarrow> Inl Type_error)"

section \<open>Texts\<close>

definition hex_digit :: "nat \<Rightarrow> char" where
  "hex_digit n = ''0123456789abcdef'' ! n"

definition repr_char :: "char \<Rightarrow> char \<Rightarrow> string" where
  "repr_char q c = (let n = of_char c :: nat in
     if c = q \<or> c = CHR 0x5C then [CHR 0x5C, c]
     else if n = 10 then [CHR 0x5C, CHR ''n'']
     else if n = 13 then [CHR 0x5C, CHR ''r'']
     else if n = 9 then [CHR 0x5C, CHR ''t'']
     else if n < 32 \<or> n = 127 then [CHR 0x5C, CHR ''x'', hex_digit (n div 16), hex_digit (n mod 16)]
     else [c])"

definition repr_text :: "string \<Rightarrow> string" where
  "repr_text s =
     (let q = (if CHR 0x27 \<in> set s \<and> CHR 0x22 \<notin> set s then CHR 0x22 else CHR 0x27)
      in [q] @ concat (map (repr_char q) s) @ [q])"

fun joined :: "string \<Rightarrow> string list \<Rightarrow> string" where
  "joined sep [] = []"
| "joined sep [x] = x"
| "joined sep (x # y # xs) = x @ sep @ joined sep (y # xs)"

fun py_repr :: "json \<Rightarrow> string" where
  "py_repr JNull = ''None''"
| "py_repr (JBool b) = (if b then ''True'' else ''False'')"
| "py_repr (JInt n) = int_text n"
| "py_repr (JStr s) = repr_text s"
| "py_repr (JArr xs) = ''['' @ joined '', '' (map py_repr xs) @ '']''"
| "py_repr (JObj kvs) = ''{'' @ joined '', '' (map (\<lambda>(k, v). repr_text k @ '': '' @ py_repr v) kvs) @ ''}''"

definition py_str :: "json \<Rightarrow> string" where
  "py_str v = (case v of JStr s \<Rightarrow> s | _ \<Rightarrow> py_repr v)"

text \<open>\<open>json.dumps\<close> escapes everything that is not printable ASCII, beyond the basic plane as a pair of
  surrogates.\<close>

definition unicode_escape :: "int \<Rightarrow> string" where
  "unicode_escape n = [CHR 0x5C, CHR ''u'', hex_digit (nat (n div 4096 mod 16)), hex_digit (nat (n div 256 mod 16)),
     hex_digit (nat (n div 16 mod 16)), hex_digit (nat (n mod 16))]"

definition dumped_point :: "int \<Rightarrow> string" where
  "dumped_point n =
     (if n = 34 \<or> n = 92 then [CHR 0x5C, char_of (nat n)]
      else if n = 10 then [CHR 0x5C, CHR ''n'']
      else if n = 13 then [CHR 0x5C, CHR ''r'']
      else if n = 9 then [CHR 0x5C, CHR ''t'']
      else if n = 12 then [CHR 0x5C, CHR ''f'']
      else if n = 8 then [CHR 0x5C, CHR ''b'']
      else if 32 \<le> n \<and> n < 127 then [char_of (nat n)]
      else if n < 65536 then unicode_escape n
      else unicode_escape (55296 + (n - 65536) div 1024) @ unicode_escape (56320 + (n - 65536) mod 1024))"

text \<open>The code points of UTF-8 bytes; a byte that does not fit stands for itself.\<close>

fun code_points :: "int list \<Rightarrow> int list" where
  "code_points (a # b # c # d # xs) =
     (if 240 \<le> a then ((a mod 8) * 262144 + (b mod 64) * 4096 + (c mod 64) * 64 + d mod 64) # code_points xs
      else if 224 \<le> a then ((a mod 16) * 4096 + (b mod 64) * 64 + c mod 64) # code_points (d # xs)
      else if 192 \<le> a then ((a mod 32) * 64 + b mod 64) # code_points (c # d # xs)
      else a # code_points (b # c # d # xs))"
| "code_points [a, b, c] =
     (if 224 \<le> a then [(a mod 16) * 4096 + (b mod 64) * 64 + c mod 64]
      else if 192 \<le> a then ((a mod 32) * 64 + b mod 64) # code_points [c]
      else a # code_points [b, c])"
| "code_points [a, b] = (if 192 \<le> a then [(a mod 32) * 64 + b mod 64] else [a, b])"
| "code_points [a] = [a]"
| "code_points [] = []"

definition dumped_text :: "string \<Rightarrow> string" where
  "dumped_text s = [CHR 0x22] @ concat (map dumped_point (code_points (map of_char s))) @ [CHR 0x22]"

text \<open>\<open>sorted_keys\<close> is the argument \<open>sort_keys\<close>, for texts by their bytes.\<close>

fun text_less :: "string \<Rightarrow> string \<Rightarrow> bool" where
  "text_less s [] = False"
| "text_less [] (c # t) = True"
| "text_less (a # s) (b # t) = ((of_char a :: nat) < of_char b \<or> a = b \<and> text_less s t)"

fun insert_key :: "string \<times> 'a \<Rightarrow> (string \<times> 'a) list \<Rightarrow> (string \<times> 'a) list" where
  "insert_key x [] = [x]"
| "insert_key x (y # ys) = (if text_less (fst y) (fst x) then y # insert_key x ys else x # y # ys)"

definition in_key_order :: "bool \<Rightarrow> (string \<times> 'a) list \<Rightarrow> (string \<times> 'a) list" where
  "in_key_order sorted_keys kvs = (if sorted_keys then foldr insert_key kvs [] else kvs)"

fun json_dumps :: "bool \<Rightarrow> json \<Rightarrow> string" where
  "json_dumps st JNull = ''null''"
| "json_dumps st (JBool b) = (if b then ''true'' else ''false'')"
| "json_dumps st (JInt n) = int_text n"
| "json_dumps st (JStr s) = dumped_text s"
| "json_dumps st (JArr xs) = ''['' @ joined '', '' (map (json_dumps st) xs) @ '']''"
| "json_dumps st (JObj kvs) = ''{'' @ joined '', ''
     (map (\<lambda>(k, t). dumped_text k @ '': '' @ t) (in_key_order st (map (\<lambda>(k, v). (k, json_dumps st v)) kvs))) @ ''}''"

section \<open>Lemmas\<close>

lemma jget_update [simp]: "jget (jset k v d) l = (if l = k then v else jget d l)"
  by (simp add: jget_def update_conv)

lemma jget_delete [simp]: "jget (AList.delete k d) l = (if l = k then JNull else jget d l)"
  by (simp add: jget_def delete_conv)

lemma update_same: "map_of d k = Some v \<Longrightarrow> AList.update k v d = d"
  by (induction d) auto

lemma delete_absent: "map_of d k = None \<Longrightarrow> AList.delete k d = d"
  by (induction d) (auto simp: AList.delete_eq)

end
