(* ===== verification/SubscriptionTokens.thy ===== *)
theory SubscriptionTokens
  imports AdminAuth
begin

text \<open>
  The subscription tokens of \<open>app/utils/jwt.py\<close>: a name and a time in URL-safe base64 with the first
  ten characters of a digest behind them. Texts stand for their UTF-8 bytes. Parameters: \<open>sha\<close> is
  SHA-256, \<open>secret\<close> the secret of the panel, \<open>decode\<close> is \<open>jwt.decode\<close> as in \<open>AdminAuth\<close>.
\<close>

text \<open>
  Lemmas on the texts of tokens: base64 and decimal numbers are read back as they were written, and a
  token of the panel is read back to its name and time.
\<close>

named_theorems token_simps "what the texts of tokens are made of"

section \<open>Base64\<close>

definition b64_chars :: string where
  "b64_chars = ''ABCDEFGHIJKLMNOPQRSTUVWXYZabcdefghijklmnopqrstuvwxyz0123456789-_''"

definition b64_char :: "nat \<Rightarrow> char" where
  "b64_char n = b64_chars ! n"

fun position_of :: "'a \<Rightarrow> 'a list \<Rightarrow> nat option" where
  "position_of x [] = None"
| "position_of x (y # ys) = (if x = y then Some 0 else map_option Suc (position_of x ys))"

text \<open>With \<open>altchars\<close> the decoder takes the standard characters as well.\<close>

definition b64_value :: "char \<Rightarrow> nat option" where
  "b64_value c = (if c = CHR ''+'' then Some 62 else if c = CHR ''/'' then Some 63
     else position_of c b64_chars)"

fun sextets :: "nat list \<Rightarrow> nat list" where
  "sextets [] = []"
| "sextets [a] = [a div 4, (a mod 4) * 16]"
| "sextets [a, b] = [a div 4, (a mod 4) * 16 + b div 16, (b mod 16) * 4]"
| "sextets (a # b # c # xs) =
     [a div 4, (a mod 4) * 16 + b div 16, (b mod 16) * 4 + c div 64, c mod 64] @ sextets xs"

fun octets :: "nat list \<Rightarrow> nat list" where
  "octets (a # b # c # d # xs) =
     [a * 4 + b div 16, (b mod 16) * 16 + c div 4, (c mod 4) * 64 + d] @ octets xs"
| "octets [a, b, c] = [a * 4 + b div 16, (b mod 16) * 16 + c div 4]"
| "octets [a, b] = [a * 4 + b div 16]"
| "octets _ = []"

definition b64encode :: "string \<Rightarrow> string" where
  "b64encode s = map b64_char (sextets (map of_char s)) @
     replicate ((3 - length s mod 3) mod 3) CHR ''=''"

fun all_some :: "'a option list \<Rightarrow> 'a list option" where
  "all_some [] = Some []"
| "all_some (None # xs) = None"
| "all_some (Some x # xs) = map_option (Cons x) (all_some xs)"

text \<open>
  \<open>b64decode\<close> with \<open>validate\<close>: only the alphabet, then padding that completes the last group; after
  full groups any padding is ignored.
\<close>

definition b64decode :: "string \<Rightarrow> string option" where
  "b64decode s =
     (let body = takeWhile (\<lambda>c. c \<noteq> CHR ''='') s; pad = dropWhile (\<lambda>c. c \<noteq> CHR ''='') s;
          n = length body mod 4
      in if set pad \<subseteq> {CHR ''=''} \<and> (body \<noteq> [] \<or> pad = []) \<and>
            (n = 0 \<or> (n = 2 \<and> length pad = 2) \<or> (n = 3 \<and> length pad = 1))
         then map_option (\<lambda>vs. map char_of (octets vs)) (all_some (map b64_value body))
         else None)"

definition rstrip_pad :: "string \<Rightarrow> string" where
  "rstrip_pad s = rev (dropWhile (\<lambda>c. c = CHR ''='') (rev s))"

definition padded :: "string \<Rightarrow> string" where
  "padded s = s @ replicate ((4 - length s mod 4) mod 4) CHR ''=''"

section \<open>Numbers and texts\<close>

fun utf8_ok :: "nat list \<Rightarrow> bool" where
  "utf8_ok [] = True"
| "utf8_ok (a # xs) =
     (if a < 128 then utf8_ok xs
      else case xs of
        [] \<Rightarrow> False
      | b # ys \<Rightarrow>
         (if \<not> (128 \<le> b \<and> b < 192) then False
          else if 194 \<le> a \<and> a < 224 then utf8_ok ys
          else case ys of
            [] \<Rightarrow> False
          | c # zs \<Rightarrow>
             (if \<not> (128 \<le> c \<and> c < 192) then False
              else if 224 \<le> a \<and> a < 240 then
                (if (a = 224 \<and> b < 160) \<or> (a = 237 \<and> 160 \<le> b) then False else utf8_ok zs)
              else case zs of
                [] \<Rightarrow> False
              | e # ws \<Rightarrow>
                 (if \<not> (128 \<le> e \<and> e < 192) then False
                  else if 240 \<le> a \<and> a < 245 then
                    (if (a = 240 \<and> b < 144) \<or> (a = 244 \<and> 144 \<le> b) then False else utf8_ok ws)
                  else False))))"

definition digit_value :: "char \<Rightarrow> nat option" where
  "digit_value c = (let n = of_char c in if 48 \<le> n \<and> n < (58 :: nat) then Some (n - 48) else None)"

fun decimal_ok :: "string \<Rightarrow> bool" where
  "decimal_ok [] = False"
| "decimal_ok [c] = (digit_value c \<noteq> None)"
| "decimal_ok (c # c' # s) = (digit_value c \<noteq> None \<and>
     (if c' = CHR ''_'' then decimal_ok s else decimal_ok (c' # s)))"

text \<open>\<open>int(s)\<close>: blanks around, a sign, digits with single underscores between them.\<close>

definition decimal :: "string \<Rightarrow> nat" where
  "decimal s = foldl (\<lambda>n c. 10 * n + (case digit_value c of None \<Rightarrow> 0 | Some d \<Rightarrow> d)) 0
     (filter (\<lambda>c. c \<noteq> CHR ''_'') s)"

definition py_int :: "string \<Rightarrow> int option" where
  "py_int s0 =
     (let s = strip s0; negative = (take 1 s = ''-'');
          ds = (if take 1 s = ''-'' \<or> take 1 s = ''+'' then drop 1 s else s)
      in if decimal_ok ds then Some (if negative then - int (decimal ds) else int (decimal ds)) else None)"

section \<open>Tokens\<close>

definition ceil_seconds :: "instant \<Rightarrow> int" where
  "ceil_seconds t = - ((- t) div usecs)"

definition token_signature :: "(string \<Rightarrow> string) \<Rightarrow> string \<Rightarrow> string \<Rightarrow> string" where
  "token_signature sha secret data = take 10 (b64encode (sha (data @ secret)))"

definition create_subscription_token :: "(string \<Rightarrow> string) \<Rightarrow> string \<Rightarrow> instant \<Rightarrow> string \<Rightarrow> string" where
  "create_subscription_token sha secret now name =
     (let data = rstrip_pad (b64encode (name @ '','' @ int_text (ceil_seconds now)))
      in data @ token_signature sha secret data)"

text \<open>\<open>datetime.fromtimestamp(n, utc)\<close> covers the years 1 to 9999.\<close>

definition from_timestamp :: "int \<Rightarrow> instant result" where
  "from_timestamp n = (if - 62135596800 \<le> n \<and> n < 253402300800 then Inr (n * usecs)
     else Inl (Value_error ''year is out of range''))"

definition jwt_prefix :: string where
  "jwt_prefix = ''eyJhbGciOiJIUzI1NiIsInR5cCI6IkpXVCJ9.''"

text \<open>
  \<open>get_subscription_payload\<close>: the name and the time, or nothing. Only \<open>PyJWTError\<close> is caught, so a
  signed text that is not a name and a number raises, and so does a token without subject.
\<close>

definition jwt_payload :: "claims option \<Rightarrow> (string \<times> instant) option result" where
  "jwt_payload p = (case p of None \<Rightarrow> Inr None
   | Some cl \<Rightarrow> if cl_access cl \<noteq> Some ''subscription'' then Inr None
       else (case cl_sub cl of None \<Rightarrow> Inl Key_error
         | Some name \<Rightarrow> (case cl_iat cl of None \<Rightarrow> Inl Key_error | Some t \<Rightarrow> Inr (Some (name, t)))))"

definition signed_payload :: "string \<Rightarrow> (string \<times> instant) option result" where
  "signed_payload text = (case split_on CHR '','' text of
     name # stamp # _ \<Rightarrow> (case py_int stamp of
       None \<Rightarrow> Inl (Value_error ''invalid literal for int()'')
     | Some n \<Rightarrow> then_res (from_timestamp n) (\<lambda>t. Inr (Some (name, t))))
   | _ \<Rightarrow> Inl Index_error)"

definition get_subscription_payload :: "(string \<Rightarrow> string) \<Rightarrow> string \<Rightarrow> (string \<Rightarrow> claims option) \<Rightarrow>
    string \<Rightarrow> (string \<times> instant) option result" where
  "get_subscription_payload sha secret decode token =
     (if length token < 15 then Inr None
      else if starts_with jwt_prefix token then jwt_payload (decode token)
      else let n = length token - 10; u_token = take n token; u_signature = drop n token in
        (case b64decode (padded u_token) of None \<Rightarrow> Inr None
         | Some text \<Rightarrow>
            if \<not> utf8_ok (map of_char text) then Inr None
            else if u_signature \<noteq> token_signature sha secret u_token then Inr None
            else signed_payload text))"

section \<open>Base64\<close>

lemma octets_sextets: "\<forall>a \<in> set xs. a < 256 \<Longrightarrow> octets (sextets xs) = xs"
proof (induction xs rule: sextets.induct)
  case (4 a b c xs)
  have "(a mod 4 * 16 + b div 16) div 16 = a mod 4" "(b mod 16 * 4 + c div 64) div 4 = b mod 16"
    "(a mod 4 * 16 + b div 16) mod 16 = b div 16" "(b mod 16 * 4 + c div 64) mod 4 = c div 64"
    using 4(2) by auto
  with 4 show ?case by simp
qed auto

lemma sextets_bound: "\<forall>a \<in> set xs. a < 256 \<Longrightarrow> n \<in> set (sextets xs) \<Longrightarrow> n < 64"
  by (induction xs rule: sextets.induct) auto

lemma length_sextets: "length (sextets xs) = (4 * length xs + 2) div 3"
  by (induction xs rule: sextets.induct) auto

lemma b64_table: "list_all (\<lambda>n. b64_value (b64_char n) = Some n \<and>
    b64_char n \<notin> {CHR ''='', CHR ''.'', CHR '','', CHR ''+'', CHR ''/''}) [0..<64]"
  by code_simp

lemma b64_value_char [token_simps]: "n < 64 \<Longrightarrow> b64_value (b64_char n) = Some n"
  and b64_char_plain: "n < 64 \<Longrightarrow> b64_char n \<notin> {CHR ''='', CHR ''.'', CHR '','', CHR ''+'', CHR ''/''}"
  using b64_table by (auto simp: list_all_iff)

definition b64_body :: "string \<Rightarrow> string" where
  "b64_body s = map b64_char (sextets (map of_char s))"

lemma codes_small: "\<forall>a \<in> set (map of_char s). (a :: nat) < 256"
  by (auto simp: nat_of_char_less_256)

lemma body_plain: "c \<in> set (b64_body s) \<Longrightarrow> c \<notin> {CHR ''='', CHR ''.'', CHR '','', CHR ''+'', CHR ''/''}"
  using sextets_bound [OF codes_small] b64_char_plain by (auto simp: b64_body_def simp del: insert_iff)

lemma rstrip_body: "rstrip_pad (b64encode s) = b64_body s"
proof -
  have r: "dropWhile (\<lambda>c. c = CHR ''='') (replicate k CHR ''='' @ xs) = dropWhile (\<lambda>c. c = CHR ''='') xs" for k xs
    by (induction k) auto
  have "dropWhile (\<lambda>c. c = CHR ''='') (rev (b64_body s)) = rev (b64_body s)"
    using body_plain [of "last (b64_body s)" s]
    by (cases "rev (b64_body s)") (auto simp: last_conv_nth hd_rev simp flip: last_rev)
  then show ?thesis by (simp add: rstrip_pad_def b64encode_def b64_body_def [symmetric] r)
qed

lemma body_values: "all_some (map b64_value (b64_body s)) = Some (sextets (map of_char s))"
proof -
  have "all_some (map b64_value (map b64_char xs)) = Some xs" if "\<forall>n \<in> set xs. n < 64" for xs
    using that by (induction xs) (auto simp: token_simps)
  then show ?thesis using sextets_bound [OF codes_small] unfolding b64_body_def by blast
qed

lemma length_body: "length (b64_body s) = (4 * length s + 2) div 3"
  by (simp add: b64_body_def length_sextets)

lemma quad_length: "((4 * n + 2) div 3) mod 4 = 0 \<or>
    (((4 * n + 2) div 3) mod 4 = 2 \<and> (4 - ((4 * n + 2) div 3) mod 4) mod 4 = 2) \<or>
    (((4 * n + 2) div 3) mod 4 = 3 \<and> (4 - ((4 * n + 2) div 3) mod 4) mod 4 = (1 :: nat))"
proof -
  have "n = 3 * (n div 3) + n mod 3" "n mod 3 < 3" by simp_all
  then obtain q r where n: "n = 3 * q + r" "r = 0 \<or> r = 1 \<or> r = 2" by (metis less_Suc_eq less_one numeral_3_eq_3 One_nat_def numeral_2_eq_2)
  have "(4 * n + 2) div 3 = 4 * q + (if r = 0 then 0 else if r = 1 then 2 else 3)" using n by auto
  then show ?thesis by auto
qed

lemma decode_body [token_simps]: "b64decode (padded (b64_body s)) = Some s"
proof -
  let ?b = "b64_body s" and ?k = "(4 - length (b64_body s) mod 4) mod 4"
  have plain: "\<forall>c \<in> set ?b. c \<noteq> CHR ''=''" using body_plain by blast
  then have tw: "takeWhile (\<lambda>c. c \<noteq> CHR ''='') (?b @ replicate ?k CHR ''='') = ?b"
    "dropWhile (\<lambda>c. c \<noteq> CHR ''='') (?b @ replicate ?k CHR ''='') = replicate ?k CHR ''=''"
    by (auto simp: takeWhile_append dropWhile_append)
  have "?b = [] \<Longrightarrow> ?k = 0" by simp
  moreover have "length ?b mod 4 = 0 \<or> (length ?b mod 4 = 2 \<and> ?k = 2) \<or> (length ?b mod 4 = 3 \<and> ?k = 1)"
    unfolding length_body by (rule quad_length)
  ultimately have "b64decode (padded ?b) = map_option (\<lambda>vs. map char_of (octets vs)) (all_some (map b64_value ?b))"
    unfolding b64decode_def padded_def Let_def tw by (auto simp: set_replicate_conv_if)
  then show ?thesis by (simp add: body_values octets_sextets [OF codes_small] comp_def)
qed

section \<open>Numbers\<close>

lemma digit_facts: "list_all (\<lambda>n. digit_value (digit_char n) = Some n \<and>
    digit_char n \<notin> {CHR ''_'', CHR '','', CHR ''-'', CHR ''+''} \<and> \<not> is_space (digit_char n) \<and>
    of_char (digit_char n) < (128 :: nat)) [0..<10]"
  by code_simp

definition digits :: "string \<Rightarrow> bool" where
  "digits s \<longleftrightarrow> s \<noteq> [] \<and> set s \<subseteq> digit_char ` {0..<10}"

lemma digit_char_facts: "c \<in> digit_char ` {0..<10} \<Longrightarrow>
    digit_value c \<noteq> None \<and> c \<notin> {CHR ''_'', CHR '','', CHR ''-'', CHR ''+''} \<and> \<not> is_space c \<and>
    of_char c < (128 :: nat)"
  using digit_facts by (auto simp: list_all_iff)

lemma digit_value_char: "n < 10 \<Longrightarrow> digit_value (digit_char n) = Some n"
  using digit_facts by (auto simp: list_all_iff)

lemma digits_nat_text: "digits (nat_text n)"
proof (induction n rule: nat_text.induct)
  case (1 n)
  then show ?case by (subst nat_text.simps) (auto simp: digits_def)
qed

lemma decimal_snoc: "c \<noteq> CHR ''_'' \<Longrightarrow> digit_value c = Some d \<Longrightarrow> decimal (s @ [c]) = 10 * decimal s + d"
  by (simp add: decimal_def)

lemma decimal_nat_text: "decimal (nat_text n) = n"
proof (induction n rule: nat_text.induct)
  case (1 n)
  have one: "digit_char k \<noteq> CHR ''_''" "digit_value (digit_char k) = Some k" if "k < 10" for k
    using that digit_char_facts [of "digit_char k"] digit_value_char by auto
  show ?case
  proof (cases "n < 10")
    case True
    then show ?thesis using one [of n] by (subst nat_text.simps) (simp add: decimal_def)
  next
    case False
    then show ?thesis using 1 one [of "n mod 10"]
      by (subst nat_text.simps) (simp add: decimal_snoc)
  qed
qed

lemma decimal_ok_digits: "digits s \<Longrightarrow> decimal_ok s"
proof (induction s rule: decimal_ok.induct)
  case (3 c c' s)
  then show ?case using digit_char_facts [of c] digit_char_facts [of c'] by (auto simp: digits_def)
qed (auto simp: digits_def digit_value_char)

lemma strip_no_space: "s \<noteq> [] \<Longrightarrow> \<not> is_space (hd s) \<Longrightarrow> \<not> is_space (last s) \<Longrightarrow> strip s = s"
proof -
  assume s: "s \<noteq> []" "\<not> is_space (hd s)" "\<not> is_space (last s)"
  have "dropWhile is_space s = s" using s by (cases s) auto
  moreover have "dropWhile is_space (rev s) = rev s" 
    using s by (cases s rule: rev_cases) auto
  ultimately show ?thesis by (simp add: strip_def)
qed

lemma int_text_parts: "\<exists>p ds. int_text i = p @ ds \<and> digits ds \<and> (p = '''' \<or> p = ''-'')"
proof (cases "i < 0")
  case True
  then have "int_text i = ''-'' @ nat_text (nat (- i))" by (simp add: int_text_def)
  with digits_nat_text show ?thesis by blast
next
  case False
  then have "int_text i = [] @ nat_text (nat i)" by (simp add: int_text_def)
  with digits_nat_text show ?thesis by blast
qed

lemma int_text_plain: "c \<in> set (int_text i) \<Longrightarrow> c \<noteq> CHR '','' \<and> of_char c < (128 :: nat) \<and> \<not> is_space c"
proof -
  assume c: "c \<in> set (int_text i)"
  obtain p ds where "int_text i = p @ ds" "digits ds" "p = '''' \<or> p = ''-''" using int_text_parts by blast
  with c have "c \<in> digit_char ` {0..<10} \<or> c = CHR ''-''" by (auto simp: digits_def)
  then show ?thesis using digit_char_facts [of c] by (auto simp: is_space_def)
qed

lemma py_int_text [token_simps]: "py_int (int_text i) = Some i"
proof -
  have ne: "int_text i \<noteq> []" using int_text_parts [of i] by (auto simp: digits_def)
  then have s: "strip (int_text i) = int_text i" using int_text_plain hd_in_set last_in_set by (blast intro: strip_no_space)
  have d: "digits (nat_text n)" "decimal (nat_text n) = n" "decimal_ok (nat_text n)"
    "nat_text n = c # r \<Longrightarrow> c \<noteq> CHR ''-'' \<and> c \<noteq> CHR ''+''" for n c r
    using digits_nat_text [of n] decimal_nat_text decimal_ok_digits digit_char_facts [of c]
    by (auto simp: digits_def)
  show ?thesis
  proof (cases "i < 0")
    case True
    then show ?thesis using d(2,3) [of "nat (- i)"] by (simp add: py_int_def s Let_def) (simp add: int_text_def)
  next
    case False
    then obtain c r where "nat_text (nat i) = c # r" using d(1) [of "nat i"] by (auto simp: digits_def neq_Nil_conv)
    with False show ?thesis using d(2,3,4) [of "nat i"] by (simp add: py_int_def s Let_def) (simp add: int_text_def)
  qed
qed

lemma utf8_ascii: "\<forall>a \<in> set xs. a < 128 \<Longrightarrow> utf8_ok xs"
  by (induction xs) auto

lemma split_on_first: "x \<notin> set w \<Longrightarrow> split_on x (w @ x # s) = w # split_on x s"
proof -
  have "split_on x s \<noteq> []" for s by (induction s) (auto split: list.splits)
  then show "x \<notin> set w \<Longrightarrow> split_on x (w @ x # s) = w # split_on x s"
    by (induction w) (auto split: list.splits)
qed

lemma split_on_none: "x \<notin> set w \<Longrightarrow> split_on x w = [w]"
  by (induction w) auto

section \<open>Tokens\<close>

lemma signature_length: "length (sha (data @ secret)) = 32 \<Longrightarrow> length (token_signature sha secret data) = 10"
  by (simp add: token_signature_def b64encode_def length_sextets)

lemma signature_plain: "CHR ''.'' \<notin> set (token_signature sha secret data)"
proof -
  have "CHR ''.'' \<notin> set (b64encode s)" for s
    using body_plain [of "CHR ''.''" s] by (auto simp: b64encode_def simp flip: b64_body_def)
  then show ?thesis by (auto simp: token_signature_def dest: in_set_takeD)
qed

definition token_data :: "string \<Rightarrow> int \<Rightarrow> string" where
  "token_data name n = b64_body (name @ '','' @ int_text n)"

lemma token_shape: "create_subscription_token sha secret now name =
    token_data name (ceil_seconds now) @ token_signature sha secret (token_data name (ceil_seconds now))"
  by (simp add: create_subscription_token_def rstrip_body token_data_def Let_def)

lemma token_read:
  assumes "\<And>x. length (sha x) = 32" and "CHR '','' \<notin> set name" and "\<forall>c \<in> set name. of_char c < (128 :: nat)" and "length name \<ge> 3"
  shows "get_subscription_payload sha secret decode (create_subscription_token sha secret now name) =
    then_res (from_timestamp (ceil_seconds now)) (\<lambda>t. Inr (Some (name, t)))"
proof -
  let ?n = "ceil_seconds now"
  let ?d = "token_data name ?n" and ?text = "name @ '','' @ int_text ?n"
  let ?sig = "token_signature sha secret ?d"
  have len: "length ?sig = 10" using signature_length assms(1) by blast
  have dl: "length ?d \<ge> 5" using assms(4) by (simp add: token_data_def length_body)
  have "CHR ''.'' \<notin> set (?d @ ?sig)" using body_plain signature_plain by (auto simp: token_data_def)
  moreover have "CHR ''.'' \<in> set jwt_prefix" by (simp add: jwt_prefix_def)
  ultimately have "\<not> starts_with jwt_prefix (?d @ ?sig)"
    unfolding starts_with_def by (metis in_set_takeD)
  moreover have "b64decode (padded ?d) = Some ?text" by (simp add: token_data_def decode_body)
  moreover have "utf8_ok (map of_char ?text)"
    using assms(3) int_text_plain by (auto intro!: utf8_ascii)
  moreover have "CHR '','' \<notin> set (int_text ?n)" using int_text_plain by blast
  then have "split_on CHR '','' (int_text ?n) = [int_text ?n]" by (rule split_on_none)
  then have "signed_payload ?text = then_res (from_timestamp ?n) (\<lambda>t. Inr (Some (name, t)))"
    using split_on_first [OF assms(2), of "int_text ?n"] by (simp add: signed_payload_def py_int_text)
  ultimately show ?thesis using len dl
    by (simp add: token_shape get_subscription_payload_def Let_def)
qed

text \<open>What a text without the prefix of a JWT must be to be accepted.\<close>

lemma token_accepted:
  assumes "get_subscription_payload sha secret decode token = Inr (Some (name, t))"
    and "\<not> starts_with jwt_prefix token"
  shows "\<exists>data text. token = data @ token_signature sha secret data \<and> b64decode (padded data) = Some text \<and>
    signed_payload text = Inr (Some (name, t))"
proof -
  let ?n = "length token - 10"
  have "drop ?n token = token_signature sha secret (take ?n token)"
    "\<exists>text. b64decode (padded (take ?n token)) = Some text \<and> signed_payload text = Inr (Some (name, t))"
    using assms by (auto simp: get_subscription_payload_def Let_def split: if_splits option.splits)
  then show ?thesis by (metis append_take_drop_id)
qed

end
