(* ===== verification/UrlText.thy ===== *)
theory UrlText
  imports JsonValues SubscriptionTokens
begin

text \<open>
  The texts of links: percent encoding as \<open>urllib.parse\<close> does it, format strings, and addresses in a
  URL (\<open>format_ip_for_url\<close> of \<open>app/utils/helpers.py\<close>). Texts stand for their UTF-8 bytes. The decoder
  is what a client does with a link.
\<close>

section \<open>Percent encoding\<close>

definition unreserved :: "char \<Rightarrow> bool" where
  "unreserved c = (let n = of_char c :: nat in
     (48 \<le> n \<and> n \<le> 57) \<or> (65 \<le> n \<and> n \<le> 90) \<or> (97 \<le> n \<and> n \<le> 122) \<or> c \<in> set ''_.-~'')"

definition upper_hex :: "nat \<Rightarrow> char" where
  "upper_hex n = ''0123456789ABCDEF'' ! n"

definition percent :: "char \<Rightarrow> string" where
  "percent c = [CHR ''%'', upper_hex (of_char c div 16), upper_hex (of_char c mod 16)]"

definition url_quote :: "string \<Rightarrow> string \<Rightarrow> string" where
  "url_quote safe s = concat (map (\<lambda>c. if unreserved c \<or> c \<in> set safe then [c] else percent c) s)"

definition quote_plus :: "string \<Rightarrow> string" where
  "quote_plus s = concat (map (\<lambda>c. if c = CHR '' '' then ''+'' else if unreserved c then [c] else percent c) s)"

definition urlencode :: "json_dict \<Rightarrow> string" where
  "urlencode kvs = joined ''&'' (map (\<lambda>(k, v). quote_plus k @ ''='' @ quote_plus (py_str v)) kvs)"

definition hex_digit_value :: "char \<Rightarrow> nat" where
  "hex_digit_value c = (let n = of_char c :: nat in if n \<le> 57 then n - 48 else n - 55)"

fun url_unquote :: "bool \<Rightarrow> string \<Rightarrow> string" where
  "url_unquote form [] = []"
| "url_unquote form (c # s) =
     (if c = CHR ''%'' \<and> 2 \<le> length s
      then char_of (16 * hex_digit_value (s ! 0) + hex_digit_value (s ! 1)) # url_unquote form (drop 2 s)
      else if form \<and> c = CHR ''+'' then CHR '' '' # url_unquote form s
      else c # url_unquote form s)"

definition cut_at :: "char \<Rightarrow> string \<Rightarrow> string \<times> string" where
  "cut_at x s = (takeWhile (\<lambda>c. c \<noteq> x) s, tl (dropWhile (\<lambda>c. c \<noteq> x) s))"

definition parse_query :: "string \<Rightarrow> (string \<times> string) list" where
  "parse_query q = map (\<lambda>p. case cut_at CHR ''='' p of (k, v) \<Rightarrow> (url_unquote True k, url_unquote True v))
     (split_on CHR ''&'' q)"

section \<open>Format strings\<close>

text \<open>
  \<open>str.format_map\<close> with plain fields; \<open>vars\<close> gives the text of a variable. \<open>rich\<close> formats what is left
  from a field with an attribute, an index, a conversion or a format specification.
\<close>

definition plain_field :: "string \<Rightarrow> bool" where
  "plain_field name = list_all (\<lambda>c. c \<notin> set '':!.[{'') name"

fun format_text :: "(string \<Rightarrow> string) \<Rightarrow> (string \<Rightarrow> string result) \<Rightarrow> string \<Rightarrow> string result" where
  "format_text vars rich [] = Inr []"
| "format_text vars rich (c # s) =
     (if c = CHR ''{'' then
        (if s = [] then Inl (Value_error ''Single '{' encountered in format string'')
         else if hd s = CHR ''{'' then map_sum id ((#) CHR ''{'') (format_text vars rich (tl s))
         else let name = takeWhile (\<lambda>c. c \<noteq> CHR ''}'') s in
           if \<not> plain_field name then rich (c # s)
           else if length name = length s then Inl (Value_error ''expected '}' before end of string'')
           else if list_all is_digit name then Inl (Value_error ''Format string contains positional fields'')
           else map_sum id (\<lambda>t. vars name @ t) (format_text vars rich (drop (Suc (length name)) s)))
      else if c = CHR ''}'' then
        (if s \<noteq> [] \<and> hd s = CHR ''}'' then map_sum id ((#) CHR ''}'') (format_text vars rich (tl s))
         else Inl (Value_error ''Single '}' encountered in format string''))
      else map_sum id ((#) c) (format_text vars rich s))"

section \<open>Addresses\<close>

text \<open>What \<open>ipaddress\<close> takes for an IPv6 address, a scope and an IPv4 tail included.\<close>

definition is_hex_char :: "char \<Rightarrow> bool" where
  "is_hex_char c = (is_digit c \<or> (let n = of_char c :: nat in (65 \<le> n \<and> n \<le> 70) \<or> (97 \<le> n \<and> n \<le> 102)))"

definition decimal_value :: "string \<Rightarrow> int" where
  "decimal_value s = foldl (\<lambda>n c. 10 * n + (int (of_char c) - 48)) 0 s"

definition octet_ok :: "string \<Rightarrow> bool" where
  "octet_ok o' \<longleftrightarrow> o' \<noteq> [] \<and> list_all is_digit o' \<and> length o' \<le> 3 \<and> (o' = ''0'' \<or> hd o' \<noteq> CHR ''0'') \<and>
     decimal_value o' \<le> 255"

definition is_ipv4 :: "string \<Rightarrow> bool" where
  "is_ipv4 s \<longleftrightarrow> length (split_on CHR ''.'' s) = 4 \<and> list_all octet_ok (split_on CHR ''.'' s)"

definition hextet_ok :: "string \<Rightarrow> bool" where
  "hextet_ok h \<longleftrightarrow> h \<noteq> [] \<and> length h \<le> 4 \<and> list_all is_hex_char h"

text \<open>The parts, where an empty one inside stands for the zeros left out, at most once.\<close>

definition ipv6_parts_ok :: "string list \<Rightarrow> bool" where
  "ipv6_parts_ok ps =
     (let inner = filter (\<lambda>i. ps ! i = []) [1..<length ps - 1]; n = length ps in
      if length inner > 1 \<or> n > 9 then False
      else case inner of
        [] \<Rightarrow> n = 8 \<and> list_all hextet_ok ps
      | i # _ \<Rightarrow>
         (let hi = take i ps; lo = drop (Suc i) ps;
              hi' = (if hd ps = [] then tl hi else hi); lo' = (if last ps = [] then butlast lo else lo)
          in (hd ps = [] \<longrightarrow> hi' = []) \<and> (last ps = [] \<longrightarrow> lo' = []) \<and> length hi' + length lo' < 8 \<and>
             list_all hextet_ok hi' \<and> list_all hextet_ok lo'))"

definition is_ipv6 :: "string \<Rightarrow> bool" where
  "is_ipv6 s =
     (let (addr, scope) = cut_at CHR ''%'' s; ps = split_on CHR '':'' addr;
          ps' = (if CHR ''.'' \<in> set (last ps) then butlast ps @ [''0'', ''0''] else ps)
      in CHR ''/'' \<notin> set s \<and> (CHR ''%'' \<in> set s \<longrightarrow> scope \<noteq> [] \<and> CHR ''%'' \<notin> set scope) \<and>
         3 \<le> length ps \<and> (CHR ''.'' \<in> set (last ps) \<longrightarrow> is_ipv4 (last ps)) \<and> ipv6_parts_ok ps')"

definition format_ip_for_url :: "string \<Rightarrow> string" where
  "format_ip_for_url ip = (if is_ipv6 ip then ''['' @ ip @ '']'' else ip)"

section \<open>Lemmas\<close>

lemma hex_round: "n < 16 \<Longrightarrow> hex_digit_value (upper_hex n) = n"
proof -
  have "\<forall>n \<in> set [0..<16]. hex_digit_value (upper_hex n) = n" by code_simp
  then show "n < 16 \<Longrightarrow> hex_digit_value (upper_hex n) = n" by simp
qed

lemma upper_hex_unreserved: "n < 16 \<Longrightarrow> unreserved (upper_hex n)"
proof -
  have "\<forall>n \<in> set [0..<16]. unreserved (upper_hex n)" by code_simp
  then show "n < 16 \<Longrightarrow> unreserved (upper_hex n)" by simp
qed

lemma percent_char: "(of_char c :: nat) div 16 < 16" "(of_char c :: nat) mod 16 < 16"
proof -
  have "(of_char c :: nat) < 256" by (rule nat_of_char_less_256)
  then show "(of_char c :: nat) div 16 < 16" by (intro less_mult_imp_div_less) simp
qed simp

lemma unquote_percent: "url_unquote form (percent c @ s) = c # url_unquote form s"
proof -
  have "16 * hex_digit_value (upper_hex (of_char c div 16)) + hex_digit_value (upper_hex (of_char c mod 16)) = (of_char c :: nat)"
    by (simp add: hex_round percent_char)
  then have "char_of (16 * hex_digit_value (upper_hex (of_char c div 16)) + hex_digit_value (upper_hex (of_char c mod 16))) = c"
    by simp
  then show ?thesis by (simp add: percent_def)
qed

lemma not_unreserved: "\<not> unreserved (CHR ''%'')" "\<not> unreserved (CHR ''+'')" "\<not> unreserved (CHR ''&'')"
  "\<not> unreserved (CHR ''='')" "\<not> unreserved (CHR ''#'')" "\<not> unreserved (CHR ''?'')" "\<not> unreserved (CHR ''@'')"
  by code_simp+

lemma unquote_quote:
  assumes "CHR ''%'' \<notin> set safe"
  shows "url_unquote False (url_quote safe s) = s"
proof (induction s)
  case (Cons c s)
  have "url_unquote False (c # t) = c # url_unquote False t" if "unreserved c \<or> c \<in> set safe" for t
    using that assms not_unreserved(1) by auto
  moreover have "url_quote safe (c # s) = (if unreserved c \<or> c \<in> set safe then [c] else percent c) @ url_quote safe s"
    by (simp add: url_quote_def)
  ultimately show ?case using Cons unquote_percent by (auto simp del: url_unquote.simps)
qed (simp add: url_quote_def)

lemma unquote_quote_plus: "url_unquote True (quote_plus s) = s"
proof (induction s)
  case (Cons c s)
  have "url_unquote True (c # t) = c # url_unquote True t" if "unreserved c" for t
    using that not_unreserved(1,2) by auto
  moreover have "quote_plus (c # s) =
      (if c = CHR '' '' then ''+'' else if unreserved c then [c] else percent c) @ quote_plus s"
    by (simp add: quote_plus_def)
  moreover have "url_unquote True (CHR ''+'' # t) = CHR '' '' # url_unquote True t" for t by simp
  ultimately show ?case using Cons unquote_percent by (auto simp del: url_unquote.simps)
qed (simp add: quote_plus_def)

lemma percent_chars: "x \<in> set (percent c) \<Longrightarrow> x = CHR ''%'' \<or> unreserved x"
  by (auto simp: percent_def upper_hex_unreserved percent_char)

lemma quoted_chars: "x \<in> set (url_quote safe s) \<Longrightarrow> x = CHR ''%'' \<or> unreserved x \<or> x \<in> set safe"
  by (auto simp: url_quote_def dest: percent_chars split: if_splits)

lemma quoted_plus_chars: "x \<in> set (quote_plus s) \<Longrightarrow> x \<in> {CHR ''%'', CHR ''+''} \<or> unreserved x"
  by (auto simp: quote_plus_def dest: percent_chars split: if_splits)

lemma cut_at_first:
  assumes "x \<notin> set s"
  shows "cut_at x (s @ x # t) = (s, t)"
proof -
  have "takeWhile (\<lambda>c. c \<noteq> x) (s @ x # t) = s" "dropWhile (\<lambda>c. c \<noteq> x) (s @ x # t) = x # t"
    using assms by (induction s) auto
  then show ?thesis by (simp add: cut_at_def)
qed

lemma split_on_joined: "\<forall>s \<in> set ss. x \<notin> set s \<Longrightarrow> ss \<noteq> [] \<Longrightarrow> split_on x (joined [x] ss) = ss"
  by (induction "[x]" ss rule: joined.induct) (simp_all add: split_on_none split_on_first)

lemma parse_urlencode:
  assumes "kvs \<noteq> []"
  shows "parse_query (urlencode kvs) = map (\<lambda>(k, v). (k, py_str v)) kvs"
proof -
  let ?parts = "map (\<lambda>(k, v). quote_plus k @ ''='' @ quote_plus (py_str v)) kvs"
  have plain: "CHR ''&'' \<notin> set (quote_plus s)" "CHR ''='' \<notin> set (quote_plus s)" for s
    using quoted_plus_chars [of _ s] not_unreserved by fastforce+
  then have "\<forall>p \<in> set ?parts. CHR ''&'' \<notin> set p" by auto
  then have split: "split_on CHR ''&'' (joined ''&'' ?parts) = ?parts"
    using split_on_joined [of ?parts "CHR ''&''"] assms by simp
  have cut: "cut_at CHR ''='' (quote_plus k @ ''='' @ quote_plus t) = (quote_plus k, quote_plus t)" for k t
    using cut_at_first [OF plain(2), of k "quote_plus t"] by simp
  have "map (\<lambda>p. case cut_at CHR ''='' p of (k, v) \<Rightarrow> (url_unquote True k, url_unquote True v)) ?parts =
      map (\<lambda>(k, v). (k, py_str v)) kvs"
    by (induction kvs) (simp_all only: list.map prod.case case_prod_beta cut unquote_quote_plus fst_conv snd_conv)
  then show ?thesis by (simp only: parse_query_def urlencode_def split)
qed

end
