(* ===== verification/UserSearch.thy ===== *)
theory UserSearch
  imports UrlText SubscriptionTokens Credentials
begin

text \<open>
  What a search of users is taken for: \<open>app/db/crud/user.py\<close> looks for a key, a UUID, the link of a
  configuration or of a subscription in the text. Sets of candidates are lists. Parameters: the checks
  that \<open>urllib\<close> makes of a network location (brackets, and characters that normalize to delimiters),
  \<open>json.loads\<close>, and the repair of bytes that are no UTF-8.
\<close>

section \<open>Decoding\<close>

text \<open>\<open>b64decode\<close> without \<open>validate\<close>: other characters are skipped, padding is looked at only where it
  can end a group.\<close>

fun lenient_sextets :: "nat list \<Rightarrow> nat \<Rightarrow> string \<Rightarrow> nat list option" where
  "lenient_sextets vs pads [] = (if length vs mod 4 = 0 then Some vs else None)"
| "lenient_sextets vs pads (c # s) =
     (if c = CHR ''='' then
        (if length vs mod 4 < 2 then lenient_sextets vs pads s
         else if 4 \<le> length vs mod 4 + Suc pads then Some vs
         else lenient_sextets vs (Suc pads) s)
      else case b64_value c of
        None \<Rightarrow> lenient_sextets vs pads s
      | Some v \<Rightarrow> lenient_sextets (vs @ [v]) 0 s)"

definition decode_b64 :: "string \<Rightarrow> string option" where
  "decode_b64 value =
     (if value = [] then None
      else let standard = map (\<lambda>c. if c = CHR ''-'' then CHR ''+'' else if c = CHR ''_'' then CHR ''/'' else c) value
        in case lenient_sextets [] 0 (padded standard) of
             None \<Rightarrow> None
           | Some vs \<Rightarrow> (if utf8_ok (octets vs) then Some (map char_of (octets vs)) else None))"

text \<open>\<open>urllib.parse.unquote\<close>: only two hexadecimal digits make an escape.\<close>

definition hex_digit_value :: "char \<Rightarrow> nat" where
  "hex_digit_value c = (let n = of_char c :: nat in if n \<le> 57 then n - 48 else if n \<le> 70 then n - 55 else n - 87)"

fun unquote_bytes :: "string \<Rightarrow> string" where
  "unquote_bytes (p # a # b # s) =
     (if p = CHR ''%'' \<and> is_hex_char a \<and> is_hex_char b
      then char_of (16 * hex_digit_value a + hex_digit_value b) # unquote_bytes s
      else p # unquote_bytes (a # b # s))"
| "unquote_bytes s = s"

definition py_unquote :: "(string \<Rightarrow> string) \<Rightarrow> string \<Rightarrow> string" where
  "py_unquote repair s = (let t = unquote_bytes s in if utf8_ok (map of_char t) then t else repair t)"

section \<open>URLs\<close>

record url_parts =
  up_scheme :: string
  up_netloc :: string
  up_path :: string

definition is_letter :: "char \<Rightarrow> bool" where
  "is_letter c = (let n = of_char c :: nat in (65 \<le> n \<and> n \<le> 90) \<or> (97 \<le> n \<and> n \<le> 122))"

definition scheme_char :: "char \<Rightarrow> bool" where
  "scheme_char c = (is_letter c \<or> is_digit c \<or> c \<in> set ''+-.'')"

definition schemes_with_parameters :: "string list" where
  "schemes_with_parameters = ['''', ''ftp'', ''hdl'', ''prospero'', ''http'', ''https'', ''shttp'', ''rtsp'', ''rtsps'',
     ''rtspu'', ''sip'', ''sips'', ''mms'', ''sftp'', ''tel'']"

text \<open>The parameters are what is behind a semicolon in the last segment.\<close>

definition without_parameters :: "string \<Rightarrow> string" where
  "without_parameters path =
     (let segment = rev (takeWhile (\<lambda>c. c \<noteq> CHR ''/'') (rev path));
          front = take (length path - length segment) path
      in front @ takeWhile (\<lambda>c. c \<noteq> CHR '';'') segment)"

definition urlparse :: "(string \<Rightarrow> bool) \<Rightarrow> string \<Rightarrow> url_parts option" where
  "urlparse netloc_ok raw =
     (let url = filter (\<lambda>c. c \<notin> {CHR 0x09, CHR 0x0A, CHR 0x0D}) (dropWhile (\<lambda>c. (of_char c :: nat) \<le> 32) raw);
          front = takeWhile (\<lambda>c. c \<noteq> CHR '':'') url;
          named = (length front < length url \<and> front \<noteq> [] \<and> is_letter (hd front) \<and> list_all scheme_char front);
          scheme = (if named then lower front else []);
          rest = (if named then drop (Suc (length front)) url else url);
          located = starts_with ''//'' rest;
          netloc = (if located then takeWhile (\<lambda>c. c \<notin> set ''/?#'') (drop 2 rest) else []);
          tail = (if located then drop (2 + length netloc) rest else rest);
          path = takeWhile (\<lambda>c. c \<noteq> CHR ''?'') (takeWhile (\<lambda>c. c \<noteq> CHR ''#'') tail)
      in if \<not> netloc_ok netloc then None
         else Some \<lparr>up_scheme = scheme, up_netloc = netloc,
           up_path = (if scheme \<in> set schemes_with_parameters then without_parameters path else path)\<rparr>)"

section \<open>Candidates\<close>

text \<open>What is behind the first \<open>://\<close>, when there is one.\<close>

fun after_scheme :: "string \<Rightarrow> string option" where
  "after_scheme [] = None"
| "after_scheme (c # s) = (if starts_with ''://'' (c # s) then Some (drop 2 s) else after_scheme s)"

definition uuid_of :: "string \<Rightarrow> string list" where
  "uuid_of s = (case parse_uuid s of None \<Rightarrow> [] | Some bs \<Rightarrow> [uuid_str bs])"

definition vmess_candidates :: "(string \<Rightarrow> json option) \<Rightarrow> string \<Rightarrow> string list" where
  "vmess_candidates parse raw =
     (case decode_b64 (fst (cut_at CHR ''#'' (case after_scheme raw of None \<Rightarrow> [] | Some s \<Rightarrow> s))) of
        None \<Rightarrow> []
      | Some [] \<Rightarrow> []
      | Some text \<Rightarrow> (case parse text of
          Some (JObj d) \<Rightarrow> (case jor (jget d ''id'') (jget d ''uuid'') of JStr s \<Rightarrow> uuid_of s | _ \<Rightarrow> [])
        | _ \<Rightarrow> []))"

text \<open>Of a shadowsocks link the method and the password may be one piece of base64.\<close>

definition ss_userinfo :: "string \<Rightarrow> string" where
  "ss_userinfo userinfo =
     (if userinfo \<noteq> [] \<and> CHR '':'' \<notin> set userinfo then
        (case decode_b64 userinfo of Some (c # s) \<Rightarrow> fst (cut_at CHR ''@'' (c # s)) | _ \<Rightarrow> userinfo)
      else userinfo)"

definition if_given :: "string \<Rightarrow> string list" where
  "if_given s = (if s = [] then [] else [s])"

definition extract_config_identifiers :: "(string \<Rightarrow> bool) \<Rightarrow> (string \<Rightarrow> json option) \<Rightarrow> string \<Rightarrow>
    string list \<times> string list" where
  "extract_config_identifiers netloc_ok parse value =
     (let raw = strip value in
      if after_scheme raw = None then ([], [])
      else case urlparse netloc_ok raw of
        None \<Rightarrow> ([], [])
      | Some url \<Rightarrow>
         (let userinfo = fst (cut_at CHR ''@'' (up_netloc url)) in
          if up_scheme url = ''vmess'' then (vmess_candidates parse raw, [])
          else if up_scheme url = ''ss'' then
            (let info = ss_userinfo userinfo in
             ([], if CHR '':'' \<in> set info then if_given (snd (cut_at CHR '':'' info)) else []))
          else if up_scheme url = ''vless'' then (if userinfo = [] then [] else uuid_of userinfo, [])
          else if up_scheme url = ''trojan'' then ([], if_given userinfo)
          else ([], [])))"

text \<open>The pattern of a UUID, found from left to right without overlaps.\<close>

definition uuid_at :: "string \<Rightarrow> bool" where
  "uuid_at s = (36 \<le> length s \<and> list_all (\<lambda>i. if i \<in> {8, 13, 18, 23} then s ! i = CHR ''-'' else is_hex_char (s ! i)) [0..<36])"

function find_uuids :: "string \<Rightarrow> string list" where
  "find_uuids s = (if s = [] then [] else if uuid_at s then take 36 s # find_uuids (drop 36 s) else find_uuids (tl s))"
  by auto
termination by (relation "measure length") auto

declare find_uuids.simps [simp del]

definition extract_config_fallback :: "string \<Rightarrow> string list \<times> string list" where
  "extract_config_fallback value =
     (let raw = strip value; ss = starts_with ''ss://'' (lower raw) in
      (concat (map uuid_of (find_uuids raw)),
       if ss \<or> starts_with ''trojan://'' (lower raw) then
         (let userinfo = fst (cut_at CHR ''@'' (case after_scheme raw of None \<Rightarrow> [] | Some s \<Rightarrow> s));
              info = (if ss \<and> CHR '':'' \<notin> set userinfo then
                 (case decode_b64 userinfo of Some (c # s) \<Rightarrow> fst (cut_at CHR ''@'' (c # s)) | _ \<Rightarrow> userinfo)
               else userinfo)
          in if_given (if CHR '':'' \<in> set info then snd (cut_at CHR '':'' info) else info))
       else []))"

definition lower_hex_char :: "char \<Rightarrow> bool" where
  "lower_hex_char c = (c \<in> set ''0123456789abcdef'')"

text \<open>The keys that the masks make of UUIDs.\<close>

definition keys_of_uuids :: "masks \<Rightarrow> string list \<Rightarrow> string list" where
  "keys_of_uuids masks us = concat (map (\<lambda>u. concat (map (\<lambda>p. case uuid_to_key masks u (Some p) of
     Inr k \<Rightarrow> [k] | Inl _ \<Rightarrow> []) [VMess, VLESS])) us)"

definition derive_search_tokens :: "masks \<Rightarrow> string \<Rightarrow> string list \<times> string list" where
  "derive_search_tokens masks value =
     (let normalized = lower (strip value); cleaned = filter (\<lambda>c. c \<noteq> CHR ''-'') normalized;
          key = (length cleaned = 32 \<and> list_all lower_hex_char cleaned);
          us = (if key then uuid_of cleaned else []) @ uuid_of normalized
      in if normalized = [] then ([], [])
         else ((if key then [cleaned] else []) @ keys_of_uuids masks us, us))"

definition looks_like_key :: "string \<Rightarrow> bool" where
  "looks_like_key value = (let cleaned = lower (filter (\<lambda>c. c \<noteq> CHR ''-'') (strip value)) in
     length cleaned = 32 \<and> list_all lower_hex_char cleaned)"

section \<open>Links of subscriptions\<close>

text \<open>The panel: how it reads tokens, and the path under which it serves subscriptions.\<close>

record search_libs =
  sl_payload :: "string \<Rightarrow> (string \<times> instant) option result"
  sl_sub_path :: string
  sl_netloc_ok :: "string \<Rightarrow> bool"
  sl_parse :: "string \<Rightarrow> json option"
  sl_repair :: "string \<Rightarrow> string"
  sl_masks :: masks

definition path_segments :: "search_libs \<Rightarrow> string \<Rightarrow> string list" where
  "path_segments sl raw =
     (let path = (if after_scheme raw = None then raw
          else case urlparse (sl_netloc_ok sl) raw of None \<Rightarrow> raw | Some url \<Rightarrow> up_path url)
      in filter (\<lambda>p. p \<noteq> []) (split_on CHR ''/'' (fst (cut_at CHR ''#'' (fst (cut_at CHR ''?'' path))))))"

text \<open>A name in the path comes before the one of a token; reading a token may raise.\<close>

definition extract_subscription_identifiers :: "search_libs \<Rightarrow> string \<Rightarrow> (string option \<times> string option) result" where
  "extract_subscription_identifiers sl value =
     (let raw = strip value; root = lower (sl_sub_path sl) in
      if raw = [] then Inr (None, None)
      else then_res (sl_payload sl raw) (\<lambda>direct.
        let token_name = map_option fst direct;
            after = drop 1 (dropWhile (\<lambda>p. lower p \<noteq> root) (path_segments sl raw))
        in case after of
             [] \<Rightarrow> Inr (token_name, None)
           | [possible] \<Rightarrow>
              (if looks_like_key possible then Inr (token_name, Some possible)
               else then_res (sl_payload sl possible) (\<lambda>p.
                 Inr (case p of Some (name, _) \<Rightarrow> Some name | None \<Rightarrow> token_name, None)))
           | name # key # _ \<Rightarrow>
              (let name' = py_unquote (sl_repair sl) name
               in Inr (if name' = [] then token_name else Some name', Some key))))"

section \<open>All candidates\<close>

record search_tokens =
  st_name :: "string option"
  st_key :: "string option"
  st_keys :: "string list"
  st_uuids :: "string list"
  st_passwords :: "string list"

definition search_tokens_of :: "search_libs \<Rightarrow> string \<Rightarrow> search_tokens result" where
  "search_tokens_of sl search =
     (let (keys, uuids) = derive_search_tokens (sl_masks sl) search;
          (us, ps) = extract_config_identifiers (sl_netloc_ok sl) (sl_parse sl) search;
          (us', ps') = extract_config_fallback search;
          all = uuids @ us @ us'
      in then_res (extract_subscription_identifiers sl search) (\<lambda>(name, key).
           Inr \<lparr>st_name = name, st_key = key, st_keys = keys @ keys_of_uuids (sl_masks sl) all, st_uuids = all,
             st_passwords = ps @ ps'\<rparr>))"

end
