(* ===== verification/NodeStore.thy ===== *)
theory NodeStore
  imports UserSearch JsonValues
begin

text \<open>
  Nodes and their rows: \<open>app/db/crud/node.py\<close>, the resets and the report of
  \<open>app/db/crud/usage.py\<close> that concern nodes, and the validation of \<open>app/models/node.py\<close>. The usage of
  users per node is in the rows of the users. Hours are those of \<open>node_usages\<close>; snapshots that
  wait in Redis are the field \<open>ns_pending\<close>. A coefficient is its text, a certificate with its key is given.
\<close>

section \<open>Rows\<close>

datatype node_status = Connected | Connecting | Node_error | Node_disabled | Node_limited

datatype geo_mode = Geo_default | Geo_custom

record node_proxy =
  px_enabled :: bool
  px_type :: "string option"
  px_host :: "string option"
  px_port :: "int option"
  px_username :: "string option"
  px_password :: "string option"

record node =
  nd_id :: int
  nd_name :: string
  nd_address :: string
  nd_port :: int
  nd_api_port :: int
  nd_version :: "string option"
  nd_status :: node_status
  nd_changed_at :: "instant option"
  nd_message :: "string option"
  nd_uplink :: int
  nd_downlink :: int
  nd_coefficient :: string
  nd_geo_mode :: geo_mode
  nd_data_limit :: "int option"
  nd_use_nobetci :: bool
  nd_nobetci_port :: "int option"
  nd_proxy :: node_proxy
  nd_certificate :: "string option"
  nd_certificate_key :: "string option"

record master_state =
  ms_id :: int
  ms_uplink :: int
  ms_downlink :: int
  ms_data_limit :: "int option"
  ms_status :: node_status
  ms_message :: "string option"
  ms_updated_at :: instant

record node_hour =
  nh_node :: "int option"
  nh_at :: instant
  nh_up :: int
  nh_down :: int

record outbound_row =
  ob_key :: int
  ob_id :: string
  ob_tag :: string
  ob_protocol :: json
  ob_address :: json
  ob_port :: json
  ob_up :: int
  ob_down :: int

record node_store =
  ns_db :: db
  ns_nodes :: "node list"
  ns_master :: "master_state option"
  ns_hours :: "node_hour list"
  ns_totals :: "int \<times> int"
  ns_outbounds :: "outbound_row list"
  ns_pending :: "node_hour list"

definition limit_message :: "string option" where
  "limit_message = Some ''Data limit reached''"

abbreviation fetch_node :: "int \<Rightarrow> node list \<Rightarrow> node option" where
  "fetch_node \<equiv> fetch_by nd_id"

interpretation node_table: row_table nd_id "fetch_by nd_id" "store_by nd_id"
  by unfold_locales (auto simp: table_laws)

definition put_node :: "node \<Rightarrow> node_store \<Rightarrow> node_store" where
  "put_node n s = s\<lparr>ns_nodes := store_by nd_id n (ns_nodes s)\<rparr>"

definition node_usage_total :: "node \<Rightarrow> int" where
  "node_usage_total n = nd_uplink n + nd_downlink n"

definition over_node_limit :: "int option \<Rightarrow> int \<Rightarrow> bool" where
  "over_node_limit limit usage = (case limit of None \<Rightarrow> False | Some l \<Rightarrow> usage \<ge> l)"

section \<open>Requests\<close>

record node_create =
  nc_name :: string
  nc_address :: string
  nc_port :: int
  nc_api_port :: int
  nc_coefficient :: string
  nc_data_limit :: "int option"
  nc_geo_mode :: geo_mode
  nc_use_nobetci :: bool
  nc_nobetci_port :: "int option"
  nc_proxy :: node_proxy
  nc_add_as_new_host :: bool
  nc_certificate :: "string option"
  nc_certificate_key :: "string option"

record node_modify =
  nm_name :: "string option"
  nm_address :: "string option"
  nm_port :: "int option"
  nm_api_port :: "int option"
  nm_status :: "node_status option"
  nm_coefficient :: "string option"
  nm_data_limit :: "int option"
  nm_use_nobetci :: "bool option"
  nm_nobetci_port :: "int option"
  nm_proxy_enabled :: "bool option"
  nm_proxy_type :: "string option"
  nm_proxy_host :: "string option"
  nm_proxy_port :: "int option"
  nm_proxy_username :: "string option"
  nm_proxy_password :: "string option"

definition validate_proxy_settings :: "bool \<Rightarrow> string option \<Rightarrow> string option \<Rightarrow> int option \<Rightarrow> unit result" where
  "validate_proxy_settings enabled kind host port =
     (if \<not> enabled then Inr ()
      else if str_or_none kind = None then Inl (Value_error ''Proxy type is required when proxy is enabled'')
      else if str_or_none host = None then Inl (Value_error ''Proxy host is required when proxy is enabled'')
      else if \<not> truthy port then Inl (Value_error ''Proxy port is required when proxy is enabled'')
      else Inr ())"

text \<open>An address: \<open>is_ip\<close> says what \<open>ip_address\<close> reads; other addresses match the pattern of domain names, where
  \<open>$\<close> lets a line feed at the end pass.\<close>

definition domain_label :: "string \<Rightarrow> bool" where
  "domain_label l = (let ends = (\<lambda>c. is_letter c \<or> is_digit c) in
     l \<noteq> [] \<and> length l \<le> 63 \<and> ends (hd l) \<and> ends (List.last l) \<and> list_all (\<lambda>c. ends c \<or> c = CHR ''-'') l)"

definition domain_name :: "string \<Rightarrow> bool" where
  "domain_name v =
     (let text = (if v \<noteq> [] \<and> List.last v = CHR 0x0A then butlast v else v); parts = split_on CHR ''.'' text in
      length parts \<ge> 2 \<and> list_all domain_label (butlast parts) \<and> length (List.last parts) \<ge> 2 \<and>
      list_all is_letter (List.last parts))"

definition validate_address :: "(string \<Rightarrow> bool) \<Rightarrow> string \<Rightarrow> unit result" where
  "validate_address is_ip v =
     (if v = [] then Inl (Value_error ''Address cannot be empty'')
      else if is_ip v \<or> domain_name v then Inr ()
      else Inl (Value_error ''Address must be a valid IP address or domain name''))"

definition valid_create :: "(string \<Rightarrow> bool) \<Rightarrow> node_create \<Rightarrow> unit result" where
  "valid_create is_ip c = then_res (validate_address is_ip (nc_address c)) (\<lambda>_.
     validate_proxy_settings (px_enabled (nc_proxy c)) (px_type (nc_proxy c)) (px_host (nc_proxy c)) (px_port (nc_proxy c)))"

definition valid_modify :: "(string \<Rightarrow> bool) \<Rightarrow> node_modify \<Rightarrow> unit result" where
  "valid_modify is_ip m = then_res (case nm_address m of None \<Rightarrow> Inr () | Some a \<Rightarrow> validate_address is_ip a) (\<lambda>_.
     validate_proxy_settings (nm_proxy_enabled m = Some True) (nm_proxy_type m) (nm_proxy_host m) (nm_proxy_port m))"

definition normalize_proxy_value :: "string option \<Rightarrow> string option" where
  "normalize_proxy_value v = (case v of None \<Rightarrow> None | Some s \<Rightarrow> str_or_none (Some (strip s)))"

section \<open>Finding\<close>

definition get_node :: "string option \<Rightarrow> int option \<Rightarrow> node_store \<Rightarrow> node option" where
  "get_node name i s = (case i of
     Some k \<Rightarrow> fetch_node k (ns_nodes s)
   | None \<Rightarrow> (case str_or_none name of
       Some n \<Rightarrow> List.find (\<lambda>x. lower (nd_name x) = lower n) (ns_nodes s)
     | None \<Rightarrow> None))"

definition get_nodes :: "node_status list \<Rightarrow> bool \<Rightarrow> node_store \<Rightarrow> node list" where
  "get_nodes statuses enabled s = filter (\<lambda>n. (statuses = [] \<or> nd_status n \<in> set statuses) \<and>
     (enabled \<longrightarrow> nd_status n \<notin> {Node_disabled, Node_limited})) (ns_nodes s)"

text \<open>The single row of the master; \<open>master_of\<close> is what a request sees that does not commit a new one.\<close>

definition new_master :: "instant \<Rightarrow> master_state" where
  "new_master now = \<lparr>ms_id = 1, ms_uplink = 0, ms_downlink = 0, ms_data_limit = None, ms_status = Connected,
     ms_message = None, ms_updated_at = now\<rparr>"

definition master_of :: "instant \<Rightarrow> node_store \<Rightarrow> master_state" where
  "master_of now s = (case ns_master s of Some m \<Rightarrow> m | None \<Rightarrow> new_master now)"

definition set_master_data_limit :: "instant \<Rightarrow> int option \<Rightarrow> node_store \<Rightarrow> master_state \<times> node_store" where
  "set_master_data_limit now limit s =
     (let l = or_none limit; m = (master_of now s)\<lparr>ms_data_limit := l\<rparr>; m' =
        (if over_node_limit l (ms_uplink m + ms_downlink m)
         then (if ms_status m \<noteq> Node_limited then m\<lparr>ms_status := Node_limited, ms_message := limit_message\<rparr> else m)
         else if ms_status m = Node_limited then m\<lparr>ms_status := Connected, ms_message := None\<rparr> else m);
        m'' = m'\<lparr>ms_updated_at := now\<rparr>
      in (m'', s\<lparr>ns_master := Some m''\<rparr>))"

record master_response =
  mr_id :: int
  mr_status :: node_status
  mr_message :: "string option"
  mr_data_limit :: "int option"
  mr_uplink :: int
  mr_downlink :: int
  mr_total_usage :: int
  mr_remaining_data :: "int option"
  mr_limit_exceeded :: bool
  mr_updated_at :: instant

definition build_master_response :: "master_state \<Rightarrow> master_response" where
  "build_master_response m = (let total = ms_uplink m + ms_downlink m in
     \<lparr>mr_id = ms_id m, mr_status = ms_status m, mr_message = ms_message m, mr_data_limit = ms_data_limit m,
      mr_uplink = ms_uplink m, mr_downlink = ms_downlink m, mr_total_usage = total,
      mr_remaining_data = map_option (\<lambda>l. max (l - total) 0) (ms_data_limit m),
      mr_limit_exceeded = over_node_limit (ms_data_limit m) total, mr_updated_at = ms_updated_at m\<rparr>)"

section \<open>Creating and changing\<close>

definition name_in_use :: "string \<Rightarrow> int \<Rightarrow> node_store \<Rightarrow> bool" where
  "name_in_use name i s = list_ex (\<lambda>n. nd_id n \<noteq> i \<and> lower (nd_name n) = lower name) (ns_nodes s)"

definition stored_proxy :: "node_proxy \<Rightarrow> node_proxy" where
  "stored_proxy p =
     (if px_enabled p
      then \<lparr>px_enabled = True, px_type = normalize_proxy_value (px_type p), px_host = normalize_proxy_value (px_host p),
        px_port = px_port p, px_username = normalize_proxy_value (px_username p),
        px_password = normalize_proxy_value (px_password p)\<rparr>
      else \<lparr>px_enabled = False, px_type = None, px_host = None, px_port = None, px_username = None, px_password = None\<rparr>)"

definition node_pair :: "string \<times> string \<Rightarrow> node_create \<Rightarrow> string \<times> string" where
  "node_pair made c = (case (str_or_none (nc_certificate c), str_or_none (nc_certificate_key c)) of
     (Some cert, Some key) \<Rightarrow> (cert, key) | _ \<Rightarrow> made)"

definition new_node :: "int \<Rightarrow> string \<times> string \<Rightarrow> instant \<Rightarrow> node_create \<Rightarrow> node" where
  "new_node i made now c = \<lparr>nd_id = i, nd_name = nc_name c, nd_address = nc_address c, nd_port = nc_port c,
     nd_api_port = nc_api_port c, nd_version = None, nd_status = Connecting, nd_changed_at = Some now, nd_message = None,
     nd_uplink = 0, nd_downlink = 0, nd_coefficient = nc_coefficient c, nd_geo_mode = nc_geo_mode c,
     nd_data_limit = nc_data_limit c, nd_use_nobetci = nc_use_nobetci c, nd_nobetci_port = or_none (nc_nobetci_port c),
     nd_proxy = stored_proxy (nc_proxy c), nd_certificate = Some (fst (node_pair made c)),
     nd_certificate_key = Some (snd (node_pair made c))\<rparr>"

definition create_node :: "int \<Rightarrow> string \<times> string \<Rightarrow> instant \<Rightarrow> node_create \<Rightarrow> node_store \<Rightarrow> node result \<times> node_store" where
  "create_node i made now c s =
     (if name_in_use (nc_name c) i s then (Inl (Integrity_error ''name''), s)
      else let n = new_node i made now c in (Inr n, s\<lparr>ns_nodes := ns_nodes s @ [n]\<rparr>))"

definition regenerate_node_certificate :: "string \<times> string \<Rightarrow> node \<Rightarrow> node_store \<Rightarrow> node \<times> node_store" where
  "regenerate_node_certificate made n s =
     (let n' = n\<lparr>nd_certificate := Some (fst made), nd_certificate_key := Some (snd made)\<rparr> in (n', put_node n' s))"

text \<open>The rows of hours and of users that refer to nodes in a set.\<close>

definition drop_usage :: "int option set \<Rightarrow> node_store \<Rightarrow> node_store" where
  "drop_usage ids s = s\<lparr>ns_hours := filter (\<lambda>h. nh_node h \<notin> ids) (ns_hours s),
     ns_db := (ns_db s)\<lparr>users := map (\<lambda>u. u\<lparr>node_usages := filter (\<lambda>x. nu_node_id x \<notin> ids) (node_usages u)\<rparr>)
       (users (ns_db s))\<rparr>\<rparr>"

definition remove_node :: "node \<Rightarrow> node_store \<Rightarrow> node_store" where
  "remove_node n s = (let s' = drop_usage {Some (nd_id n)} s in
     s'\<lparr>ns_nodes := filter (\<lambda>x. nd_id x \<noteq> nd_id n) (ns_nodes s')\<rparr>)"

definition when_given :: "'a option \<Rightarrow> ('a \<Rightarrow> 's \<Rightarrow> 's) \<Rightarrow> 's \<Rightarrow> 's" where
  "when_given x f s = (case x of None \<Rightarrow> s | Some v \<Rightarrow> f v s)"

definition modified_status :: "node_modify \<Rightarrow> node \<Rightarrow> node" where
  "modified_status m n = (case nm_status m of
     Some Node_disabled \<Rightarrow> n\<lparr>nd_status := Node_disabled, nd_version := None, nd_message := None\<rparr>
   | Some Node_limited \<Rightarrow> n\<lparr>nd_status := Node_limited, nd_message := limit_message\<rparr>
   | Some _ \<Rightarrow> n\<lparr>nd_status := Connecting\<rparr>
   | None \<Rightarrow> if nd_status n \<in> {Node_disabled, Node_limited} then n else n\<lparr>nd_status := Connecting\<rparr>)"

definition modified_nobetci :: "node_modify \<Rightarrow> node \<Rightarrow> node" where
  "modified_nobetci m n0 =
     (let n1 = when_given (nm_use_nobetci m) (\<lambda>b n. n\<lparr>nd_use_nobetci := b, nd_nobetci_port := (if b then nd_nobetci_port n else None)\<rparr>) n0
      in when_given (nm_nobetci_port m) (\<lambda>p n. n\<lparr>nd_nobetci_port := or_none (Some p), nd_use_nobetci := (nd_use_nobetci n \<or> p \<noteq> 0)\<rparr>) n1)"

definition modified_proxy :: "node_modify \<Rightarrow> node_proxy \<Rightarrow> node_proxy" where
  "modified_proxy m p0 =
     (let p = when_given (nm_proxy_enabled m) (\<lambda>b p. if b then p\<lparr>px_enabled := True\<rparr>
        else \<lparr>px_enabled = False, px_type = None, px_host = None, px_port = None, px_username = None, px_password = None\<rparr>) p0 in
      if \<not> px_enabled p then p
      else when_given (nm_proxy_password m) (\<lambda>v q. q\<lparr>px_password := normalize_proxy_value (Some v)\<rparr>)
        (when_given (nm_proxy_username m) (\<lambda>v q. q\<lparr>px_username := normalize_proxy_value (Some v)\<rparr>)
        (when_given (nm_proxy_port m) (\<lambda>v q. q\<lparr>px_port := or_none (Some v)\<rparr>)
        (when_given (nm_proxy_host m) (\<lambda>v q. q\<lparr>px_host := normalize_proxy_value (Some v)\<rparr>)
        (when_given (nm_proxy_type m) (\<lambda>v q. q\<lparr>px_type := normalize_proxy_value (Some v)\<rparr>) p)))))"

text \<open>A limit that is raised above the usage lets a limited node connect; one that is lowered is looked at
  when traffic is recorded.\<close>

definition modified_limit :: "node_modify \<Rightarrow> node \<Rightarrow> node" where
  "modified_limit m n = (case nm_data_limit m of None \<Rightarrow> n
   | Some l \<Rightarrow> (let n' = n\<lparr>nd_data_limit := Some l\<rparr> in
       if node_usage_total n' < l \<and> nm_status m = None \<and> nd_status n' = Node_limited
       then n'\<lparr>nd_status := Connecting, nd_message := None\<rparr> else n'))"

definition modified_node :: "node_modify \<Rightarrow> node \<Rightarrow> node" where
  "modified_node m n =
     (let n1 = when_given (nm_name m) (\<lambda>v x. x\<lparr>nd_name := v\<rparr>) (when_given (nm_address m) (\<lambda>v x. x\<lparr>nd_address := v\<rparr>)
          (when_given (nm_port m) (\<lambda>v x. x\<lparr>nd_port := v\<rparr>) (when_given (nm_api_port m) (\<lambda>v x. x\<lparr>nd_api_port := v\<rparr>) n)));
          n2 = when_given (nm_coefficient m) (\<lambda>v x. x\<lparr>nd_coefficient := v\<rparr>) (modified_status m n1);
          n3 = modified_nobetci m n2
      in modified_limit m (n3\<lparr>nd_proxy := modified_proxy m (nd_proxy n3)\<rparr>))"

definition update_node :: "node_modify \<Rightarrow> node \<Rightarrow> node_store \<Rightarrow> node result \<times> node_store" where
  "update_node m n s =
     (let n' = modified_node m n in
      if name_in_use (nd_name n') (nd_id n) s then (Inl (Integrity_error ''name''), s) else (Inr n', put_node n' s))"

definition update_node_status :: "instant \<Rightarrow> node_status \<Rightarrow> string option \<Rightarrow> string option \<Rightarrow> node \<Rightarrow> node_store \<Rightarrow>
    node \<times> node_store" where
  "update_node_status now st message version n s =
     (let n' = n\<lparr>nd_status := st, nd_message := message, nd_version := version, nd_changed_at := Some now\<rparr>
      in (n', put_node n' s))"

section \<open>Usage\<close>

definition reset_master_usage :: "instant \<Rightarrow> node_store \<Rightarrow> master_state \<times> node_store" where
  "reset_master_usage now s =
     (let m = master_of now s; m' = m\<lparr>ms_uplink := 0, ms_downlink := 0, ms_status := Connected, ms_message := None,
            ms_updated_at := now\<rparr>
      in (m', (drop_usage {None, Some (ms_id m)} s)\<lparr>ns_master := Some m'\<rparr>))"

definition reset_node_usage :: "node \<Rightarrow> node_store \<Rightarrow> node \<times> node_store" where
  "reset_node_usage n s =
     (let n' = n\<lparr>nd_uplink := 0, nd_downlink := 0, nd_status := Connected, nd_message := None\<rparr>
      in (n', put_node n' (drop_usage {Some (nd_id n)} s)))"

text \<open>\<open>get_nodes_usage\<close>: the master first, then the nodes, then what refers to no node.\<close>

definition node_name_or :: "int option \<Rightarrow> string" where
  "node_name_or i = (case i of None \<Rightarrow> ''Master'' | Some k \<Rightarrow> ''Node '' @ int_text k)"

type_synonym node_report = "(int option \<times> string \<times> int \<times> int) list"

definition report_hour :: "node_hour \<Rightarrow> node_report \<Rightarrow> node_report" where
  "report_hour h r = (case map_of r (nh_node h) of
     Some (name, up, down) \<Rightarrow> AList.update (nh_node h) (name, up + nh_up h, down + nh_down h) r
   | None \<Rightarrow> r @ [(nh_node h, node_name_or (nh_node h), nh_up h, nh_down h)])"

definition get_nodes_usage :: "instant \<Rightarrow> instant \<Rightarrow> node_store \<Rightarrow> node_report" where
  "get_nodes_usage start_at end_at s =
     fold report_hour (filter (\<lambda>h. start_at \<le> nh_at h \<and> nh_at h \<le> end_at) (ns_hours s))
       ((None, ''Master'', 0, 0) # map (\<lambda>n. (Some (nd_id n), nd_name n, 0, 0)) (ns_nodes s))"

end
