(* ===== verification/UsageReports.thy ===== *)
theory UsageReports
  imports NodeStore "HOL-Library.Multiset"
begin

text \<open>
  Reports of the usage per node: the queries of \<open>app/db/crud/usage.py\<close>, \<open>validate_dates\<close> of
  \<open>app/dependencies.py\<close> and the usage of a subscription (\<open>app/routers/subscription.py\<close>). A bucket, an
  hour or a day in UTC, is its first instant, where the code has its text. Groups of a query come in the
  order of their first row.
\<close>

text \<open>Lemmas on reports: the buckets of a range, and sums that stay the same however rows are grouped.\<close>

section \<open>Rows\<close>

type_synonym usage_row = "user \<times> node_usage"

definition all_usage_rows :: "db \<Rightarrow> usage_row list" where
  "all_usage_rows d = concat (map (\<lambda>u. map (Pair u) (node_usages u)) (users d))"

text \<open>Whose usage: an identifier that is zero restricts nothing, but for nodes, where it is the master.\<close>

datatype usage_scope = Of_user int | Of_admin int | Of_service int | Of_node "int option"

definition in_scope :: "usage_scope \<Rightarrow> usage_row \<Rightarrow> bool" where
  "in_scope sc r = (case sc of
     Of_user i \<Rightarrow> i \<noteq> 0 \<longrightarrow> uid (fst r) = i
   | Of_admin i \<Rightarrow> i \<noteq> 0 \<longrightarrow> admin_id (fst r) = Some i \<and> status (fst r) \<noteq> Deleted
   | Of_service i \<Rightarrow> i \<noteq> 0 \<longrightarrow> service_id (fst r) = Some i \<and> status (fst r) \<noteq> Deleted
   | Of_node None \<Rightarrow> True
   | Of_node (Some i) \<Rightarrow> nu_node_id (snd r) = (if i = 0 then None else Some i))"

definition rows_between :: "instant \<Rightarrow> instant \<Rightarrow> usage_row list \<Rightarrow> node_usage list" where
  "rows_between start_at end_at rows =
     map snd (filter (\<lambda>r. start_at \<le> nu_created_at (snd r) \<and> nu_created_at (snd r) \<le> end_at) rows)"

definition query_rows :: "db \<Rightarrow> usage_scope \<Rightarrow> instant \<Rightarrow> instant \<Rightarrow> node_usage list" where
  "query_rows d sc start_at end_at = rows_between start_at end_at (filter (in_scope sc) (all_usage_rows d))"

definition node_lookup :: "node list \<Rightarrow> (int option \<times> string) list" where
  "node_lookup ns = (None, ''Master'') # map (\<lambda>n. (Some (nd_id n), nd_name n)) ns"

definition lookup_name :: "node list \<Rightarrow> int option \<Rightarrow> string" where
  "lookup_name ns i = (case map_of (node_lookup ns) i of Some n \<Rightarrow> n | None \<Rightarrow> ''Master'')"

section \<open>Buckets\<close>

definition hourly :: "string \<Rightarrow> bool" where
  "hourly granularity = (lower granularity = ''hour'')"

definition bucket_length :: "bool \<Rightarrow> int" where
  "bucket_length hour = (if hour then 3600 * usecs else 86400 * usecs)"

definition bucket_of :: "bool \<Rightarrow> instant \<Rightarrow> instant" where
  "bucket_of hour t = t - t mod bucket_length hour"

text \<open>\<open>while cursor <= end_aligned\<close>.\<close>

function buckets_upto :: "bool \<Rightarrow> instant \<Rightarrow> instant \<Rightarrow> instant list" where
  "buckets_upto hour cursor end_at =
     (if cursor \<le> end_at then cursor # buckets_upto hour (cursor + bucket_length hour) end_at else [])"
  by pat_completeness auto
termination
  by (relation "measure (\<lambda>(hour, cursor, end_at). nat (end_at - cursor + 1))") (auto simp: bucket_length_def usecs_def)

declare buckets_upto.simps [simp del]

record usage_bucket =
  ub_at :: instant
  ub_total :: int
  ub_nodes :: "(int option \<times> int) list"

definition empty_bucket :: "instant \<Rightarrow> usage_bucket" where
  "empty_bucket t = \<lparr>ub_at = t, ub_total = 0, ub_nodes = []\<rparr>"

definition grow_bucket :: "node_usage \<Rightarrow> usage_bucket \<Rightarrow> usage_bucket" where
  "grow_bucket x b = b\<lparr>ub_total := ub_total b + nu_used_traffic x, ub_nodes := dict_add (nu_node_id x) (nu_used_traffic x) (ub_nodes b)\<rparr>"

definition count_row :: "bool \<Rightarrow> node_usage \<Rightarrow> usage_bucket list \<Rightarrow> usage_bucket list" where
  "count_row hour x bs =
     (let t = bucket_of hour (nu_created_at x) in
      if list_ex (\<lambda>b. ub_at b = t) bs then map (\<lambda>b. if ub_at b = t then grow_bucket x b else b) bs
      else bs @ [grow_bucket x (empty_bucket t)])"

definition usage_timeseries :: "bool \<Rightarrow> instant \<Rightarrow> instant \<Rightarrow> node_usage list \<Rightarrow> usage_bucket list" where
  "usage_timeseries hour start_at end_at rows =
     (if bucket_of hour start_at > bucket_of hour end_at then []
      else sort_key ub_at (fold (count_row hour) rows
        (map empty_bucket (buckets_upto hour (bucket_of hour start_at) (bucket_of hour end_at)))))"

section \<open>Sums per node and per day\<close>

definition sums_by_node :: "node_usage list \<Rightarrow> (int option \<times> int) list" where
  "sums_by_node rows = fold (\<lambda>x. dict_add (nu_node_id x) (nu_used_traffic x)) rows []"

text \<open>Sorted with the master last.\<close>

definition node_rank :: "int option \<Rightarrow> bool \<times> int" where
  "node_rank i = (case i of None \<Rightarrow> (True, -1) | Some k \<Rightarrow> (False, if k = 0 then -1 else k))"

definition usage_by_nodes :: "node list \<Rightarrow> node_usage list \<Rightarrow> (int option \<times> string \<times> int) list" where
  "usage_by_nodes ns rows = map (\<lambda>(i, v). (i, lookup_name ns i, v))
     (sort_key (\<lambda>(i, _). snd (node_rank i)) (filter (\<lambda>(i, _). \<not> fst (node_rank i)) (sums_by_node rows)) @
      filter (\<lambda>(i, _). fst (node_rank i)) (sums_by_node rows))"

definition usage_by_day :: "bool \<Rightarrow> node_usage list \<Rightarrow> (instant \<times> int) list" where
  "usage_by_day hour rows = sort_key fst (filter (\<lambda>(_, v). v \<noteq> 0)
     (fold (\<lambda>x. dict_add (bucket_of hour (nu_created_at x)) (nu_used_traffic x)) rows []))"

text \<open>The master and every node that is there; a row of another node is passed over.\<close>

definition usage_aggregated :: "node list \<Rightarrow> node_usage list \<Rightarrow> (int option \<times> string \<times> int) list" where
  "usage_aggregated ns rows = map (\<lambda>(i, name). (i, name, dict_get0 (sums_by_node rows) i)) (node_lookup ns)"

section \<open>Reports\<close>

definition get_user_usages :: "db \<Rightarrow> node list \<Rightarrow> int \<Rightarrow> instant \<Rightarrow> instant \<Rightarrow> (int option \<times> string \<times> int) list" where
  "get_user_usages d ns i start_at end_at = usage_aggregated ns (query_rows d (Of_user i) start_at end_at)"

definition get_admin_usages :: "db \<Rightarrow> node list \<Rightarrow> int \<Rightarrow> instant \<Rightarrow> instant \<Rightarrow> (int option \<times> string \<times> int) list" where
  "get_admin_usages d ns i start_at end_at = usage_aggregated ns (query_rows d (Of_admin i) start_at end_at)"

definition get_admin_daily_usages :: "db \<Rightarrow> int \<Rightarrow> instant \<Rightarrow> instant \<Rightarrow> (instant \<times> int) list" where
  "get_admin_daily_usages d i start_at end_at = usage_by_day False (query_rows d (Of_admin i) start_at end_at)"

definition get_admin_usages_by_day :: "db \<Rightarrow> int \<Rightarrow> int option \<Rightarrow> string \<Rightarrow> instant \<Rightarrow> instant \<Rightarrow> (instant \<times> int) list" where
  "get_admin_usages_by_day d i node granularity start_at end_at =
     usage_by_day (granularity = ''hour'') (rows_between start_at end_at (filter (in_scope (Of_node node))
       (filter (\<lambda>r. admin_id (fst r) = Some i \<and> status (fst r) \<noteq> Deleted) (all_usage_rows d))))"

definition get_node_usage_by_day :: "db \<Rightarrow> int \<Rightarrow> string \<Rightarrow> instant \<Rightarrow> instant \<Rightarrow> (instant \<times> int) list" where
  "get_node_usage_by_day d i granularity start_at end_at =
     usage_by_day (hourly granularity) (query_rows d (Of_node (Some i)) start_at end_at)"

text \<open>The timeline of a user: identifier zero is the master, and so is the identifier of the master's own row.\<close>

definition timeline_node :: "int \<Rightarrow> node list \<Rightarrow> int option \<times> int \<Rightarrow> int \<times> string \<times> int" where
  "timeline_node master ns = (\<lambda>(i, v). let k = (case i of None \<Rightarrow> 0 | Some k \<Rightarrow> k) in
     (if k = master then 0 else k,
      (case map_of (node_lookup ns) (Some k) of Some n \<Rightarrow> if n = [] then ''Master'' else n | None \<Rightarrow> ''Master''), v))"

definition get_user_usage_timeseries :: "db \<Rightarrow> node list \<Rightarrow> int \<Rightarrow> int \<Rightarrow> string \<Rightarrow> instant \<Rightarrow> instant \<Rightarrow>
    (instant \<times> int \<times> (int \<times> string \<times> int) list) list" where
  "get_user_usage_timeseries d ns master i granularity start_at end_at =
     map (\<lambda>b. (ub_at b, ub_total b, map (timeline_node master ns) (filter (\<lambda>(_, v). v \<noteq> 0) (ub_nodes b))))
       (usage_timeseries (hourly granularity) start_at end_at (query_rows d (Of_user i) start_at end_at))"

text \<open>The sums per node as downlinks, with all nodes: the master first for a user, by number and without
  empty ones for an admin.\<close>

definition all_node_sums :: "node list \<Rightarrow> node_usage list \<Rightarrow> (int option \<times> string \<times> int) list" where
  "all_node_sums ns rows =
     (let sums = sums_by_node rows; known = map (\<lambda>n. (Some (nd_id n), nd_name n)) ns @ [(None, ''Master'')];
          others = filter (\<lambda>(i, _). i \<notin> set (map fst known)) sums in
      map (\<lambda>(i, name). (i, name, dict_get0 sums i)) known @
      map (\<lambda>(i, v). (i, node_name_or i, v)) others)"

definition get_user_usage_by_nodes :: "db \<Rightarrow> node list \<Rightarrow> int \<Rightarrow> instant \<Rightarrow> instant \<Rightarrow> (int option \<times> string \<times> int) list" where
  "get_user_usage_by_nodes d ns i start_at end_at =
     (let all = all_node_sums ns (query_rows d (Of_user i) start_at end_at) in
      filter (\<lambda>(k, _). k = None) all @
      sort_key (\<lambda>(k, _). snd (node_rank k)) (filter (\<lambda>(k, _). k \<noteq> None) all))"

definition get_admin_usage_by_nodes :: "db \<Rightarrow> node list \<Rightarrow> int \<Rightarrow> instant \<Rightarrow> instant \<Rightarrow> (int option \<times> string \<times> int) list" where
  "get_admin_usage_by_nodes d ns i start_at end_at =
     sort_key (\<lambda>(k, _). case k of None \<Rightarrow> 0 | Some j \<Rightarrow> j) (filter (\<lambda>(_, _, v). v > 0)
       (all_node_sums ns (query_rows d (Of_admin i) start_at end_at)))"

section \<open>Ranges\<close>

text \<open>A date that is given is parsed; only the end is compared, when it is given.\<close>

definition validate_dates :: "(string \<Rightarrow> instant option) \<Rightarrow> instant \<Rightarrow> string \<Rightarrow> string \<Rightarrow> (instant \<times> instant) result" where
  "validate_dates parse now start_text end_text =
     (let bad = Inl (Http_error 400 ''Invalid date range or format'') in
      case (if start_text = [] then Some (now - 30 * 86400 * usecs) else parse start_text) of
        None \<Rightarrow> bad
      | Some s \<Rightarrow> if end_text = [] then Inr (s, now)
          else (case parse end_text of
            None \<Rightarrow> bad
          | Some e \<Rightarrow> if e < s then Inl (Http_error 400 ''Start date must be before end date'') else Inr (s, e)))"

record usage_payload =
  up_username :: string
  up_range :: "instant \<times> instant"
  up_daily :: "(instant \<times> int) list"
  up_hourly :: "(instant \<times> int) list"
  up_by_node :: "(int option \<times> string \<times> int) list"

definition build_usage_payload :: "(string \<Rightarrow> instant option) \<Rightarrow> instant \<Rightarrow> db \<Rightarrow> node list \<Rightarrow> int \<Rightarrow> user \<Rightarrow> string \<Rightarrow> string \<Rightarrow>
    usage_payload result" where
  "build_usage_payload parse now d ns master u start_text end_text =
     then_res (validate_dates parse now start_text end_text) (\<lambda>(s, e).
       let totals = (\<lambda>g. map (\<lambda>(t, v, _). (t, v)) (get_user_usage_timeseries d ns master (uid u) g s e)) in
       Inr \<lparr>up_username = username u, up_range = (s, e), up_daily = totals ''day'',
         up_hourly = (if bucket_of False s = bucket_of False e then totals ''hour'' else []),
         up_by_node = get_user_usage_by_nodes d ns (uid u) s e\<rparr>)"

section \<open>Endpoints of nodes\<close>

definition get_usage :: "(string \<Rightarrow> instant option) \<Rightarrow> instant \<Rightarrow> string \<Rightarrow> string \<Rightarrow> node_store \<Rightarrow> node_report result" where
  "get_usage parse now start_text end_text st =
     then_res (validate_dates parse now start_text end_text) (\<lambda>(s, e). Inr (get_nodes_usage s e st))"

definition get_node_usage_daily :: "(string \<Rightarrow> instant option) \<Rightarrow> instant \<Rightarrow> int \<Rightarrow> string \<Rightarrow> string \<Rightarrow> string \<Rightarrow> node_store \<Rightarrow>
    (int \<times> string \<times> (instant \<times> int) list) result" where
  "get_node_usage_daily parse now i start_text end_text granularity st =
     then_res (validate_dates parse now start_text end_text) (\<lambda>(s, e).
       let g = lower (if granularity = [] then ''day'' else granularity) in
       if g \<notin> {''day'', ''hour''} then Inl (Http_error 400 ''Invalid granularity. Use 'day' or 'hour'.'')
       else case fetch_node i (ns_nodes st) of
         None \<Rightarrow> Inl (Http_error 404 ''Node not found'')
       | Some n \<Rightarrow> Inr (i, nd_name n, get_node_usage_by_day (ns_db st) i g s e))"

section \<open>Sums\<close>

lemma sum_sorted [simp]: "sum_list (map f (sort_key g xs)) = sum_list (map f (xs :: 'a list))"
  for f :: "'a \<Rightarrow> int"
proof -
  have "image_mset f (mset (sort_key g xs)) = image_mset f (mset xs)" by simp
  then show ?thesis by (metis mset_map sum_mset_sum_list)
qed

lemma sum_parted: "sum_list (map f (filter P xs)) + sum_list (map f (filter (\<lambda>x. \<not> P x) xs)) = sum_list (map f xs)"
  for f :: "'a \<Rightarrow> int"
  by (induction xs) auto

definition traffic_of :: "node_usage list \<Rightarrow> int" where
  "traffic_of rows = sum_list (map nu_used_traffic rows)"

lemma dict_fold:
  "distinct (map fst d) \<Longrightarrow> distinct (map fst (fold (\<lambda>x. dict_add (k x) (v x)) rows d)) \<and>
     dict_total (fold (\<lambda>x. dict_add (k x) (v x)) rows d) = dict_total d + sum_list (map v rows)"
  by (induction rows arbitrary: d) (simp_all add: dict_simps)

lemma sums_total: "distinct (map fst (sums_by_node rows))" "dict_total (sums_by_node rows) = traffic_of rows"
  using dict_fold [of "[]" nu_node_id nu_used_traffic rows] by (simp_all add: sums_by_node_def traffic_of_def dict_simps)

lemma one_key_less:
  assumes "distinct (map fst d)" "k \<notin> K"
  shows "sum_list (map snd (filter (\<lambda>(i, _). i \<notin> K) d)) = sum_list (map snd (filter (\<lambda>(i, _). i \<notin> insert k K) d)) + dict_get0 d k"
  using assms
proof (induction d)
  case (Cons p d)
  obtain i v where p: "p = (i, v)" by (cases p)
  have "map_of d k = None" if "i = k" using Cons.prems(1) that by (auto simp: p map_of_eq_None_iff)
  then show ?case using Cons by (auto simp: p dict_get0_def)
qed (simp add: dict_get0_def)

lemma known_and_others:
  assumes "distinct (map fst d)" "distinct ks"
  shows "sum_list (map (dict_get0 d) ks) + sum_list (map snd (filter (\<lambda>(i, _). i \<notin> set ks) d)) = dict_total d"
  using assms(2)
proof (induction ks)
  case Nil
  have "filter (\<lambda>(i, _). i \<notin> set []) d = d" by (auto simp: filter_id_conv)
  then show ?case by (simp add: dict_total_def)
next
  case (Cons k ks)
  then show ?case using one_key_less [OF assms(1), of k "set ks"] by simp
qed

lemma all_node_sums_total:
  assumes "distinct (map nd_id ns)"
  shows "sum_list (map (\<lambda>(_, _, v). v) (all_node_sums ns rows)) = traffic_of rows"
proof -
  let ?known = "map (\<lambda>n. (Some (nd_id n), nd_name n)) ns @ [(None, ''Master'')]" and ?sums = "sums_by_node rows"
  have ks: "map fst ?known = map (Some \<circ> nd_id) ns @ [None]" by simp
  have "inj_on Some (nd_id ` set ns)" by simp
  then have "distinct (map fst ?known)" using assms unfolding ks by (auto simp: distinct_map comp_inj_on)
  from known_and_others [OF sums_total(1) this, of rows]
  have "sum_list (map (dict_get0 ?sums) (map fst ?known)) +
      sum_list (map snd (filter (\<lambda>(i, _). i \<notin> set (map fst ?known)) ?sums)) = traffic_of rows"
    by (simp only: sums_total(2))
  moreover have "sum_list (map (\<lambda>(_, _, v). v) (all_node_sums ns rows)) = sum_list (map (dict_get0 ?sums) (map fst ?known)) +
      sum_list (map snd (filter (\<lambda>(i, _). i \<notin> set (map fst ?known)) ?sums))"
    unfolding all_node_sums_def Let_def map_append sum_list_append map_map
    by (simp add: comp_def case_prod_unfold)
  ultimately show ?thesis by simp
qed

section \<open>Buckets\<close>

lemma bucket_length_pos: "bucket_length hour > 0"
  by (simp add: bucket_length_def usecs_def)

lemma bucket_of_mono: "s \<le> t \<Longrightarrow> bucket_of hour s \<le> bucket_of hour t"
proof -
  assume "s \<le> t"
  then have "s div bucket_length hour \<le> t div bucket_length hour" using bucket_length_pos by (intro zdiv_mono1) auto
  then have "s div bucket_length hour * bucket_length hour \<le> t div bucket_length hour * bucket_length hour"
    using bucket_length_pos [of hour] by (intro mult_right_mono) auto
  then show ?thesis by (simp add: bucket_of_def minus_mod_eq_div_mult)
qed

lemma bucket_of_aligned: "(bucket_of hour t - bucket_of hour s) mod bucket_length hour = 0"
  by (simp add: bucket_of_def minus_mod_eq_div_mult flip: left_diff_distrib)

lemma buckets_upto_iff:
  "t \<in> set (buckets_upto hour s e) \<longleftrightarrow> s \<le> t \<and> t \<le> e \<and> (t - s) mod bucket_length hour = 0"
proof (induction hour s e rule: buckets_upto.induct)
  case (1 hour s e)
  let ?l = "bucket_length hour"
  have l: "?l > 0" by (rule bucket_length_pos)
  have step: "(t - (s + ?l)) mod ?l = (t - s) mod ?l"
    using minus_mod_self2 [of "t - s" ?l] by (simp only: diff_diff_eq)
  have more: "s + ?l \<le> t \<Longrightarrow> s \<le> t" using l by linarith
  have far: "s + ?l \<le> t" if "?l dvd t - s" "s \<le> t" "t \<noteq> s" using zdvd_imp_le [of ?l "t - s"] that by simp
  show ?case
  proof (cases "s \<le> e")
    case True
    have "t \<in> set (buckets_upto hour s e) \<longleftrightarrow> t = s \<or> s + ?l \<le> t \<and> t \<le> e \<and> (t - s) mod ?l = 0"
      using 1 [OF True] True by (subst buckets_upto.simps) (auto simp: step)
    then show ?thesis using True far by (auto intro: more)
  next
    case False
    then show ?thesis by (subst buckets_upto.simps) auto
  qed
qed

lemma buckets_upto_sorted: "sorted_wrt (<) (buckets_upto hour s e)"
proof (induction hour s e rule: buckets_upto.induct)
  case (1 hour s e)
  then show ?case using bucket_length_pos [of hour]
    by (subst buckets_upto.simps) (auto simp: buckets_upto_iff)
qed

section \<open>Series\<close>

text \<open>A bucket is the sum of its nodes.\<close>

definition sound_bucket :: "usage_bucket \<Rightarrow> bool" where
  "sound_bucket b \<longleftrightarrow> distinct (map fst (ub_nodes b)) \<and> ub_total b = dict_total (ub_nodes b)"

lemma grow_sound: "sound_bucket b \<Longrightarrow> sound_bucket (grow_bucket x b)"
  by (simp add: sound_bucket_def grow_bucket_def dict_simps)

lemma count_row_facts:
  assumes "distinct (map ub_at bs)" "bucket_of hour (nu_created_at x) \<in> ub_at ` set bs" "\<forall>b \<in> set bs. sound_bucket b"
  shows "map ub_at (count_row hour x bs) = map ub_at bs"
    and "sum_list (map ub_total (count_row hour x bs)) = sum_list (map ub_total bs) + nu_used_traffic x"
    and "\<forall>b \<in> set (count_row hour x bs). sound_bucket b"
proof -
  let ?t = "bucket_of hour (nu_created_at x)"
  have row: "count_row hour x bs = map (\<lambda>b. if ub_at b = ?t then grow_bucket x b else b) bs"
    using assms(2) by (auto simp: count_row_def Let_def list_ex_iff)
  show "map ub_at (count_row hour x bs) = map ub_at bs" by (simp add: row grow_bucket_def)
  show "\<forall>b \<in> set (count_row hour x bs). sound_bucket b" using assms(3) grow_sound by (auto simp: row)
  show "sum_list (map ub_total (count_row hour x bs)) = sum_list (map ub_total bs) + nu_used_traffic x"
    using assms(1,2) unfolding row
  proof (induction bs)
    case (Cons b bs)
    show ?case
    proof (cases "ub_at b = ?t")
      case True
      then have "map (\<lambda>b. if ub_at b = ?t then grow_bucket x b else b) bs = bs"
        using Cons.prems(1) by (intro map_idI) (metis distinct.simps(2) image_eqI list.set_map list.simps(9))
      then show ?thesis using True by (simp add: grow_bucket_def)
    qed (use Cons in auto)
  qed simp
qed

lemma count_rows:
  assumes "distinct (map ub_at bs)" "\<forall>b \<in> set bs. sound_bucket b"
    and "\<forall>x \<in> set rows. bucket_of hour (nu_created_at x) \<in> set (map ub_at bs)"
  shows "map ub_at (fold (count_row hour) rows bs) = map ub_at bs \<and>
    sum_list (map ub_total (fold (count_row hour) rows bs)) = sum_list (map ub_total bs) + traffic_of rows \<and>
    (\<forall>b \<in> set (fold (count_row hour) rows bs). sound_bucket b)"
  using assms
proof (induction rows arbitrary: bs)
  case (Cons x rows)
  have x: "bucket_of hour (nu_created_at x) \<in> ub_at ` set bs" using Cons.prems(3) by simp
  note f = count_row_facts [OF Cons.prems(1) x Cons.prems(2)]
  have "distinct (map ub_at (count_row hour x bs))"
    "\<forall>y \<in> set rows. bucket_of hour (nu_created_at y) \<in> set (map ub_at (count_row hour x bs))"
    using Cons.prems(1,3) by (simp_all only: f(1)) simp
  from Cons.IH [OF this(1) f(3) this(2)] show ?case by (simp only: fold_Cons comp_apply f(1,2)) (simp add: traffic_of_def)
qed (simp add: traffic_of_def)

lemma timeseries_facts:
  assumes "\<forall>x \<in> set rows. s \<le> nu_created_at x \<and> nu_created_at x \<le> e" "s \<le> e"
  shows "map ub_at (usage_timeseries hour s e rows) = buckets_upto hour (bucket_of hour s) (bucket_of hour e)"
    and "sum_list (map ub_total (usage_timeseries hour s e rows)) = traffic_of rows"
    and "\<forall>b \<in> set (usage_timeseries hour s e rows). sound_bucket b"
proof -
  let ?bs = "buckets_upto hour (bucket_of hour s) (bucket_of hour e)"
  let ?empty = "map empty_bucket ?bs"
  have at: "map ub_at ?empty = ?bs" by (simp add: empty_bucket_def comp_def)
  have "sum_list (map ub_total ?empty) = 0" "\<forall>b \<in> set ?empty. sound_bucket b"
    by (simp_all add: empty_bucket_def sound_bucket_def dict_total_def comp_def)
  moreover have "distinct (map ub_at ?empty)"
    unfolding at using buckets_upto_sorted [of hour "bucket_of hour s"] strict_sorted_iff by blast
  moreover have "\<forall>x \<in> set rows. bucket_of hour (nu_created_at x) \<in> set (map ub_at ?empty)"
    unfolding at buckets_upto_iff using assms(1) by (auto simp: bucket_of_mono bucket_of_aligned)
  ultimately have f: "map ub_at (fold (count_row hour) rows ?empty) = ?bs"
      "sum_list (map ub_total (fold (count_row hour) rows ?empty)) = traffic_of rows"
      "\<forall>b \<in> set (fold (count_row hour) rows ?empty). sound_bucket b"
    using count_rows [of ?empty rows hour] at by simp_all
  have "sorted (map ub_at (fold (count_row hour) rows ?empty))"
    unfolding f(1) using buckets_upto_sorted [of hour "bucket_of hour s"] strict_sorted_iff by blast
  then have "usage_timeseries hour s e rows = fold (count_row hour) rows ?empty"
    using bucket_of_mono [OF assms(2), of hour] by (simp add: usage_timeseries_def sort_key_id_if_sorted)
  then show "map ub_at (usage_timeseries hour s e rows) = ?bs"
    "sum_list (map ub_total (usage_timeseries hour s e rows)) = traffic_of rows"
    "\<forall>b \<in> set (usage_timeseries hour s e rows). sound_bucket b" using f by simp_all
qed

lemma query_rows_between: "x \<in> set (query_rows d sc s e) \<Longrightarrow> s \<le> nu_created_at x \<and> nu_created_at x \<le> e"
  by (auto simp: query_rows_def rows_between_def)

end
