(* ===== verification/UserListing.thy ===== *)
theory UserListing
  imports UserSearch UserCrud Admins
begin

text \<open>
  Listing users: the filters, the search and the sort of \<open>app/db/crud/user.py\<close>, once as a query of the
  tables and once over the users in Redis, the counts, \<open>get_users_list_db_only\<close> of
  \<open>app/services/user_service.py\<close> and \<open>GET /users\<close>. Queries have the semantics of SQLite: \<open>LIKE\<close> and the
  user name ignore the case of ASCII letters, \<open>NULL\<close> is the smallest value; rows with equal keys stay in
  the order of the table. A user in Redis has the name of its admin beside it.
\<close>

section \<open>Requests\<close>

text \<open>An empty list stands for a filter that is not given, a single status for a list of one.\<close>

record list_query =
  lq_usernames :: "string list"
  lq_search :: string
  lq_status :: "user_status list"
  lq_admin :: "int option"
  lq_admins :: "string list"
  lq_filters :: "string list"
  lq_service :: "int option"
  lq_strategies :: "reset_strategy list"

definition active_window :: int where
  "active_window = 300 * usecs"

definition stale_window :: int where
  "stale_window = 86400 * usecs"

definition status_filters :: "(string \<times> user_status) list" where
  "status_filters = [(''expired'', Expired), (''limited'', Limited), (''disabled'', Disabled), (''on_hold'', On_hold)]"

definition normalized_filters :: "string list \<Rightarrow> string list" where
  "normalized_filters fs = map lower (filter (\<lambda>f. f \<noteq> []) fs)"

definition wanted_statuses :: "string list \<Rightarrow> user_status list" where
  "wanted_statuses fs = List.map_filter (map_of status_filters) fs"

section \<open>Queries\<close>

text \<open>\<open>col < t\<close> and \<open>col >= t\<close> of a column that may be null.\<close>

definition before :: "instant option \<Rightarrow> instant \<Rightarrow> bool" where
  "before x t = (case x of None \<Rightarrow> False | Some v \<Rightarrow> v < t)"

definition since :: "instant option \<Rightarrow> instant \<Rightarrow> bool" where
  "since x t = (case x of None \<Rightarrow> False | Some v \<Rightarrow> t \<le> v)"

definition apply_advanced_filters :: "string list \<Rightarrow> instant \<Rightarrow> user list \<Rightarrow> user list" where
  "apply_advanced_filters filters now us =
     (let fs = normalized_filters filters; given = (\<lambda>f. f \<in> set fs);
          sel = (\<lambda>b P xs. if b then filter P xs else xs)
      in sel (wanted_statuses fs \<noteq> []) (\<lambda>u. status u \<in> set (wanted_statuses fs))
        (sel (given ''sub_never_updated'') (\<lambda>u. sub_updated_at u = None)
        (sel (given ''sub_not_updated'') (\<lambda>u. sub_updated_at u = None \<or> before (sub_updated_at u) (now - stale_window))
        (sel (given ''unlimited'') (\<lambda>u. data_limit u = None \<or> data_limit u = Some 0)
        (sel (given ''limit'') (\<lambda>u. case data_limit u of None \<Rightarrow> False | Some l \<Rightarrow> l > 0)
        (sel (given ''finished'') (\<lambda>u. status u \<in> {Limited, Expired})
        (sel (given ''offline'') (\<lambda>u. online_at u = None \<or> before (online_at u) (now - stale_window))
        (sel (given ''online'') (\<lambda>u. since (online_at u) (now - active_window)) us))))))))"

text \<open>\<open>LIKE\<close>: \<open>%\<close> for any text and \<open>_\<close> for one character, of one or more bytes.\<close>

fun like :: "string \<Rightarrow> string \<Rightarrow> bool" where
  "like [] t = (t = [])"
| "like (p # ps) t =
     (if p = CHR ''%'' then list_ex (\<lambda>k. like ps (drop k t)) [0..<Suc (length t)]
      else case t of
        [] \<Rightarrow> False
      | c # s \<Rightarrow>
         (if p = CHR ''_'' then like ps (dropWhile (\<lambda>b. 128 \<le> (of_char b :: nat) \<and> (of_char b :: nat) < 192) s)
          else p = c \<and> like ps s))"

definition ilike :: "string option \<Rightarrow> string \<Rightarrow> bool" where
  "ilike x pattern = (case x of None \<Rightarrow> False | Some t \<Rightarrow> like (lower pattern) (lower t))"

definition has_value :: "string \<Rightarrow> string list \<Rightarrow> proxy \<Rightarrow> bool" where
  "has_value k vs p = (case setting_get (psettings p) k of SStr s \<Rightarrow> s \<in> set vs | _ \<Rightarrow> False)"

definition query_keys :: "search_tokens \<Rightarrow> string list" where
  "query_keys tk = st_keys tk @ (case st_key tk of None \<Rightarrow> []
     | Some k \<Rightarrow> if_given (lower (filter (\<lambda>c. c \<noteq> CHR ''-'') k)) @ [k, lower k])"

definition query_matches :: "string \<Rightarrow> search_tokens \<Rightarrow> user \<Rightarrow> bool" where
  "query_matches search tk u =
     (let pattern = ''%'' @ search @ ''%'' in
      ilike (Some (username u)) pattern \<or> ilike (user_note u) pattern \<or> ilike (credential_key u) pattern \<or>
      ilike (telegram_id u) pattern \<or> ilike (contact_number u) pattern \<or>
      (case st_name tk of None \<Rightarrow> False | Some n \<Rightarrow> n \<noteq> [] \<and> lower (username u) = lower n) \<or>
      (case credential_key u of None \<Rightarrow> False | Some k \<Rightarrow> k \<in> set (query_keys tk)) \<or>
      list_ex (has_value ''id'' (st_uuids tk)) (proxies u) \<or>
      list_ex (has_value ''password'' (st_passwords tk)) (proxies u))"

definition apply_search_filter :: "search_libs \<Rightarrow> string \<Rightarrow> user list \<Rightarrow> user list result" where
  "apply_search_filter sl search us =
     (if search = [] then Inr us
      else then_res (search_tokens_of sl search) (\<lambda>tk. Inr (filter (query_matches search tk) us)))"

definition owner_name :: "db \<Rightarrow> user \<Rightarrow> string option" where
  "owner_name d u = (case admin_id u of None \<Rightarrow> None
     | Some i \<Rightarrow> map_option admin_username (List.find (\<lambda>a. aid a = i) (admins d)))"

text \<open>The query shared by the list and the aggregations.\<close>

definition filtered_users :: "search_libs \<Rightarrow> db \<Rightarrow> instant \<Rightarrow> list_query \<Rightarrow> user list result" where
  "filtered_users sl d now q =
     then_res (apply_search_filter sl (lq_search q)
       (apply_advanced_filters (lq_filters q) now (filter (\<lambda>u. status u \<noteq> Deleted) (users d)))) (\<lambda>us.
     Inr (filter (\<lambda>u.
       (lq_usernames q \<noteq> [] \<longrightarrow> lower (username u) \<in> lower ` set (lq_usernames q)) \<and>
       (lq_status q \<noteq> [] \<longrightarrow> status u \<in> set (lq_status q)) \<and>
       (lq_service q \<noteq> None \<longrightarrow> service_id u = lq_service q) \<and>
       (lq_strategies q \<noteq> [] \<longrightarrow> data_limit_reset_strategy u \<in> set (lq_strategies q)) \<and>
       (lq_admin q \<noteq> None \<longrightarrow> admin_id u = lq_admin q) \<and>
       (lq_admins q \<noteq> [] \<longrightarrow> (case owner_name d u of None \<Rightarrow> False | Some n \<Rightarrow> n \<in> set (lq_admins q)))) us))"

section \<open>Filters over the users in Redis\<close>

type_synonym cached_users = "(user \<times> string option) list"

definition memory_keys :: "search_tokens \<Rightarrow> string list" where
  "memory_keys tk = st_keys tk @ (case st_key tk of None \<Rightarrow> []
     | Some k \<Rightarrow> if_given (lower (filter (\<lambda>c. c \<noteq> CHR ''-'') k)) @ [lower k])"

definition contains :: "string \<Rightarrow> string option \<Rightarrow> bool" where
  "contains x t = (case t of None \<Rightarrow> False | Some s \<Rightarrow> s \<noteq> [] \<and> substring (lower x) (lower s))"

text \<open>Passwords are looked at only when there is a UUID.\<close>

definition memory_matches :: "string \<Rightarrow> search_tokens \<Rightarrow> user \<Rightarrow> bool" where
  "memory_matches search tk u =
     ((case st_name tk of None \<Rightarrow> False | Some n \<Rightarrow> n \<noteq> [] \<and> username u \<noteq> [] \<and> lower (username u) = lower n) \<or>
      contains search (Some (username u)) \<or> contains search (user_note u) \<or> contains search (telegram_id u) \<or>
      contains search (contact_number u) \<or> contains search (credential_key u) \<or>
      (case credential_key u of None \<Rightarrow> False
       | Some k \<Rightarrow> k \<noteq> [] \<and> lower (filter (\<lambda>c. c \<noteq> CHR ''-'') k) \<in> set (memory_keys tk)) \<or>
      (st_uuids tk \<noteq> [] \<and> list_ex (\<lambda>p. has_value ''id'' (filter (\<lambda>s. s \<noteq> []) (st_uuids tk)) p \<or>
         has_value ''password'' (filter (\<lambda>s. s \<noteq> []) (st_passwords tk)) p) (proxies u)))"

definition memory_advanced :: "string list \<Rightarrow> instant \<Rightarrow> user \<Rightarrow> bool" where
  "memory_advanced filters now u =
     (let fs = normalized_filters filters; given = (\<lambda>f. f \<in> set fs) in
      (given ''online'' \<longrightarrow> since (online_at u) (now - active_window)) \<and>
      (given ''offline'' \<longrightarrow> (case online_at u of None \<Rightarrow> True | Some t \<Rightarrow> t < now - stale_window)) \<and>
      (given ''finished'' \<longrightarrow> status u \<in> {Limited, Expired}) \<and>
      (given ''limit'' \<longrightarrow> (case data_limit u of None \<Rightarrow> False | Some l \<Rightarrow> l \<noteq> 0 \<and> l > 0)) \<and>
      (given ''unlimited'' \<longrightarrow> (case data_limit u of None \<Rightarrow> True | Some l \<Rightarrow> l = 0)) \<and>
      (given ''sub_not_updated'' \<longrightarrow> (case sub_updated_at u of None \<Rightarrow> True | Some t \<Rightarrow> t < now - stale_window)) \<and>
      (given ''sub_never_updated'' \<longrightarrow> sub_updated_at u = None) \<and>
      (wanted_statuses fs \<noteq> [] \<longrightarrow> status u \<in> set (wanted_statuses fs)))"

definition filter_users_in_memory :: "search_libs \<Rightarrow> instant \<Rightarrow> list_query \<Rightarrow> cached_users \<Rightarrow> user list result" where
  "filter_users_in_memory sl now q cached =
     (let kept = filter (\<lambda>(u, owner).
          status u \<noteq> Deleted \<and>
          (lq_usernames q \<noteq> [] \<longrightarrow> username u \<noteq> [] \<and> lower (username u) \<in> lower ` set (lq_usernames q)) \<and>
          (lq_status q \<noteq> [] \<longrightarrow> status u \<in> set (lq_status q)) \<and>
          (case lq_service q of None \<Rightarrow> True | Some i \<Rightarrow> service_id u = Some i) \<and>
          (lq_strategies q \<noteq> [] \<longrightarrow> data_limit_reset_strategy u \<in> set (lq_strategies q)) \<and>
          (case lq_admin q of None \<Rightarrow> True | Some i \<Rightarrow> admin_id u = Some i) \<and>
          (lq_admins q \<noteq> [] \<longrightarrow> (case owner of None \<Rightarrow> False
             | Some n \<Rightarrow> n \<noteq> [] \<and> lower n \<in> lower ` set (lq_admins q))) \<and>
          memory_advanced (lq_filters q) now u) cached;
          us = map fst kept
      in if lq_search q = [] then Inr us
         else then_res (search_tokens_of sl (lq_search q)) (\<lambda>tk. Inr (filter (memory_matches (lq_search q) tk) us)))"

section \<open>Sorting and pages\<close>

datatype sort_field = By_username | By_used_traffic | By_data_limit | By_expire | By_created_at

type_synonym sort_option = "sort_field \<times> bool"

text \<open>\<open>insert_by\<close> keeps the order of equal elements, ascending or descending.\<close>

fun insert_by :: "('a \<Rightarrow> 'a \<Rightarrow> bool) \<Rightarrow> 'a \<Rightarrow> 'a list \<Rightarrow> 'a list" where
  "insert_by lt x [] = [x]"
| "insert_by lt x (y # ys) = (if lt y x then y # insert_by lt x ys else x # y # ys)"

definition stable_sort :: "('a \<Rightarrow> 'a \<Rightarrow> bool) \<Rightarrow> 'a list \<Rightarrow> 'a list" where
  "stable_sort lt xs = foldr (insert_by lt) xs []"

definition null_less :: "int option \<Rightarrow> int option \<Rightarrow> bool" where
  "null_less x y = (case y of None \<Rightarrow> False | Some b \<Rightarrow> (case x of None \<Rightarrow> True | Some a \<Rightarrow> a < b))"

fun query_less :: "sort_field \<Rightarrow> user \<Rightarrow> user \<Rightarrow> bool" where
  "query_less By_username u v = text_less (lower (username u)) (lower (username v))"
| "query_less By_used_traffic u v = (used_traffic u < used_traffic v)"
| "query_less By_data_limit u v = null_less (data_limit u) (data_limit v)"
| "query_less By_expire u v = null_less (expire u) (expire v)"
| "query_less By_created_at u v = (created_at u < created_at v)"

definition directed :: "('a \<Rightarrow> 'a \<Rightarrow> bool) \<Rightarrow> bool \<Rightarrow> 'a \<Rightarrow> 'a \<Rightarrow> bool" where
  "directed lt down x y = (if down then lt y x else lt x y)"

definition order_users :: "sort_option list \<Rightarrow> user list \<Rightarrow> user list" where
  "order_users opts us = foldr (\<lambda>(f, down). stable_sort (directed (query_less f) down)) opts us"

definition zero_if_none :: "int option \<Rightarrow> int" where
  "zero_if_none x = (case x of None \<Rightarrow> 0 | Some v \<Rightarrow> v)"

fun memory_less :: "sort_field \<Rightarrow> user \<Rightarrow> user \<Rightarrow> bool" where
  "memory_less By_data_limit u v = (zero_if_none (data_limit u) < zero_if_none (data_limit v))"
| "memory_less By_expire u v = (zero_if_none (expire u) < zero_if_none (expire v))"
| "memory_less f u v = query_less f u v"

text \<open>Times and numbers cannot be compared: a sort by expiry raises when only some users expire.\<close>

definition sort_in_memory :: "sort_option \<Rightarrow> user list \<Rightarrow> user list result" where
  "sort_in_memory opt us = (case opt of (f, down) \<Rightarrow>
     if f = By_expire \<and> list_ex (\<lambda>u. zero_if_none (expire u) = 0) us \<and> list_ex (\<lambda>u. zero_if_none (expire u) \<noteq> 0) us
     then Inl Type_error
     else Inr (stable_sort (directed (memory_less f) down) us))"

definition effective_sort :: "sort_option list \<Rightarrow> sort_option list" where
  "effective_sort opts = (if opts = [] then [(By_created_at, True)] else opts)"

text \<open>\<open>xs[n:]\<close> and \<open>xs[:n]\<close>; of a query, a negative offset is none and a negative limit no limit.\<close>

definition slice_from :: "int \<Rightarrow> 'a list \<Rightarrow> 'a list" where
  "slice_from n xs = (if 0 \<le> n then drop (nat n) xs else drop (length xs - nat (- n)) xs)"

definition slice_to :: "int \<Rightarrow> 'a list \<Rightarrow> 'a list" where
  "slice_to n xs = (if 0 \<le> n then take (nat n) xs else take (length xs - nat (- n)) xs)"

definition page_of :: "int option \<Rightarrow> int option \<Rightarrow> 'a list \<Rightarrow> 'a list" where
  "page_of offset limit xs =
     (let ys = (if zero_if_none offset > 0 then drop (nat (zero_if_none offset)) xs else xs)
      in if zero_if_none limit > 0 then take (nat (zero_if_none limit)) ys else ys)"

definition memory_page_of :: "int option \<Rightarrow> int option \<Rightarrow> 'a list \<Rightarrow> 'a list" where
  "memory_page_of offset limit xs =
     (let ys = (if zero_if_none offset \<noteq> 0 then slice_from (zero_if_none offset) xs else xs)
      in if zero_if_none limit \<noteq> 0 then slice_to (zero_if_none limit) ys else ys)"

section \<open>The list\<close>

definition get_users_query :: "search_libs \<Rightarrow> db \<Rightarrow> instant \<Rightarrow> list_query \<Rightarrow> sort_option list \<Rightarrow> int option \<Rightarrow>
    int option \<Rightarrow> (user list \<times> nat) result" where
  "get_users_query sl d now q sorts offset limit =
     then_res (filtered_users sl d now q) (\<lambda>us.
       Inr (page_of offset limit (order_users (effective_sort sorts) us), length us))"

definition get_users_memory :: "search_libs \<Rightarrow> instant \<Rightarrow> list_query \<Rightarrow> sort_option list \<Rightarrow> int option \<Rightarrow>
    int option \<Rightarrow> cached_users \<Rightarrow> (user list \<times> nat) result" where
  "get_users_memory sl now q sorts offset limit cached =
     then_res (filter_users_in_memory sl now q cached) (\<lambda>us.
     then_res (fold_res sort_in_memory (rev (effective_sort sorts)) us) (\<lambda>ordered.
       Inr (memory_page_of offset limit ordered, length ordered)))"

text \<open>\<open>get_users\<close>: what fails in Redis is asked of the tables, and what fails there is empty.\<close>

definition get_users :: "search_libs \<Rightarrow> db \<Rightarrow> cached_users option \<Rightarrow> instant \<Rightarrow> list_query \<Rightarrow> sort_option list \<Rightarrow>
    int option \<Rightarrow> int option \<Rightarrow> user list \<times> nat" where
  "get_users sl d cached now q sorts offset limit =
     (let query = (case get_users_query sl d now q sorts offset limit of Inr r \<Rightarrow> r | Inl _ \<Rightarrow> ([], 0)) in
      case cached of
        Some (c # cs) \<Rightarrow> (case get_users_memory sl now q sorts offset limit (c # cs) of Inr r \<Rightarrow> r | Inl _ \<Rightarrow> query)
      | _ \<Rightarrow> query)"

definition get_users_count :: "db \<Rightarrow> user_status option \<Rightarrow> int option \<Rightarrow> nat" where
  "get_users_count d st admin = length (filter (\<lambda>u. status u \<noteq> Deleted \<and>
     (admin \<noteq> None \<longrightarrow> admin_id u = admin) \<and> (case st of None \<Rightarrow> True | Some s \<Rightarrow> status u = s)) (users d))"

section \<open>Aggregations\<close>

definition get_users_status_breakdown :: "search_libs \<Rightarrow> db \<Rightarrow> instant \<Rightarrow> list_query \<Rightarrow> (user_status \<times> nat) list result" where
  "get_users_status_breakdown sl d now q = then_res (filtered_users sl d now q) (\<lambda>us.
     Inr (map (\<lambda>s. (s, length (filter (\<lambda>u. status u = s) us))) (remdups (map status us))))"

definition get_users_usage_sum :: "search_libs \<Rightarrow> db \<Rightarrow> instant \<Rightarrow> list_query \<Rightarrow> int result" where
  "get_users_usage_sum sl d now q = then_res (filtered_users sl d now q) (\<lambda>us.
     Inr (sum_list (map (\<lambda>u. used_traffic u + sum_list (map used_traffic_at_reset (usage_logs u))) us)))"

definition get_users_online_count :: "search_libs \<Rightarrow> db \<Rightarrow> instant \<Rightarrow> list_query \<Rightarrow> nat result" where
  "get_users_online_count sl d now q = then_res (filtered_users sl d now q) (\<lambda>us.
     Inr (length (filter (\<lambda>u. since (online_at u) (now - active_window)) us)))"

section \<open>The endpoint\<close>

text \<open>An item of the answer, with the usage that is pending in Redis; without its links.\<close>

record list_item =
  li_username :: string
  li_status :: user_status
  li_used_traffic :: int
  li_lifetime :: int
  li_expire :: "int option"
  li_data_limit :: "int option"
  li_service_id :: "int option"
  li_admin_id :: "int option"
  li_admin_username :: "string option"

definition item_of :: "db \<Rightarrow> (int \<Rightarrow> int) \<Rightarrow> user \<Rightarrow> list_item" where
  "item_of d pending u = \<lparr>li_username = username u, li_status = status u,
     li_used_traffic = used_traffic u + pending (uid u),
     li_lifetime = used_traffic u + sum_list (map used_traffic_at_reset (usage_logs u)) + pending (uid u),
     li_expire = expire u, li_data_limit = data_limit u, li_service_id = service_id u, li_admin_id = admin_id u,
     li_admin_username = owner_name d u\<rparr>"

record users_response =
  ur_items :: "list_item list"
  ur_total :: nat
  ur_active_total :: "nat option"
  ur_users_limit :: "int option"
  ur_breakdown :: "(user_status \<times> nat) list"
  ur_usage :: int
  ur_online :: nat

text \<open>
  With \<open>links\<close> the users are read as objects and a failing query gives no users; the item shows the
  admin and the links. The names that were asked for are not passed on to the aggregations.
\<close>

definition get_users_list_db_only :: "search_libs \<Rightarrow> db \<Rightarrow> (int \<Rightarrow> int) \<Rightarrow> instant \<Rightarrow> list_query \<Rightarrow> sort_option list \<Rightarrow>
    int option \<Rightarrow> int option \<Rightarrow> int option \<Rightarrow> bool \<Rightarrow> users_response result" where
  "get_users_list_db_only sl d pending now q sorts offset limit users_limit' include_links =
     (let rest = q\<lparr>lq_usernames := []\<rparr> in
      then_res (if include_links then Inr (get_users sl d None now q sorts offset limit)
          else get_users_query sl d now q sorts offset limit) (\<lambda>(us, total).
      then_res (get_users_status_breakdown sl d now rest) (\<lambda>breakdown.
      then_res (get_users_usage_sum sl d now rest) (\<lambda>usage.
      then_res (get_users_online_count sl d now rest) (\<lambda>online.
        Inr \<lparr>ur_items = map (item_of d pending) us, ur_total = total,
          ur_active_total = (if lq_admin q = None then None else Some (get_users_count d (Some Active) (lq_admin q))),
          ur_users_limit = users_limit', ur_breakdown = breakdown, ur_usage = usage, ur_online = online\<rparr>)))))"

definition sort_names :: "(string \<times> sort_option) list" where
  "sort_names = [(''username'', (By_username, False)), (''used_traffic'', (By_used_traffic, False)),
     (''data_limit'', (By_data_limit, False)), (''expire'', (By_expire, False)), (''created_at'', (By_created_at, False)),
     (''-username'', (By_username, True)), (''-used_traffic'', (By_used_traffic, True)),
     (''-data_limit'', (By_data_limit, True)), (''-expire'', (By_expire, True)), (''-created_at'', (By_created_at, True))]"

definition strip_char :: "char \<Rightarrow> string \<Rightarrow> string" where
  "strip_char x s = rev (dropWhile (\<lambda>c. c = x) (rev (dropWhile (\<lambda>c. c = x) s)))"

definition parse_sort :: "string option \<Rightarrow> sort_option list result" where
  "parse_sort s = (case s of None \<Rightarrow> Inr []
   | Some text \<Rightarrow> map_res (\<lambda>opt. case map_of sort_names opt of Some x \<Rightarrow> Inr x
       | None \<Rightarrow> Inl (Http_error 400 (''\"'' @ opt @ ''\" is not a valid sort option'')))
       (split_on CHR '','' (strip_char CHR '','' text)))"

definition list_users :: "search_libs \<Rightarrow> db \<Rightarrow> (int \<Rightarrow> int) \<Rightarrow> instant \<Rightarrow> principal \<Rightarrow> string list \<Rightarrow> string \<Rightarrow>
    string list \<Rightarrow> user_status option \<Rightarrow> string list \<Rightarrow> int option \<Rightarrow> string option \<Rightarrow> int option \<Rightarrow> int option \<Rightarrow>
    bool \<Rightarrow> users_response result" where
  "list_users sl d pending now a names search owners st filters service sort' offset limit links =
     then_res (parse_sort sort') (\<lambda>opts.
       let q = \<lparr>lq_usernames = names, lq_search = search, lq_status = (case st of None \<Rightarrow> [] | Some s \<Rightarrow> [s]),
           lq_admin = None, lq_admins = owners, lq_filters = filters, lq_service = service, lq_strategies = []\<rparr>
       in if pr_role a \<in> {Sudo, Full_access} then get_users_list_db_only sl d pending now q opts offset limit None links
          else case get_admin d (Some (pr_username a)) None of
            None \<Rightarrow> Inl (Http_error 404 ''Admin not found'')
          | Some row \<Rightarrow> get_users_list_db_only sl d pending now
              (q\<lparr>lq_admin := Some (aid row), lq_admins := [pr_username a]\<rparr>) opts offset limit (users_limit row) links)"

end
