(* ===== verification/AdminRoutes.thy ===== *)
theory AdminRoutes
  imports UserRoutes UsageReports UserListing
begin

text \<open>
  The endpoints for admins: \<open>app/routers/admin.py\<close> and \<open>app/routers/myaccount.py\<close> with the functions of
  \<open>app/services/metrics_service.py\<close> that they call. An endpoint is a function of the signed-in admin, in the
  order of its dependencies: the row of the path, the role, then the body. Reports and the cache of
  charts are left out. \<open>restart_ok\<close> says whether the core could be restarted; dates are naive or in UTC.
\<close>

section \<open>Dependencies and checks\<close>

definition named_admin :: "db \<Rightarrow> string \<Rightarrow> admin result" where
  "named_admin d name = (case get_admin d (Some name) None of
     None \<Rightarrow> Inl (Http_error 404 ''Admin not found'') | Some a \<Rightarrow> Inr a)"

definition on_admin :: "db \<Rightarrow> string \<Rightarrow> principal \<Rightarrow> (admin \<Rightarrow> 'b result \<times> db) \<Rightarrow> 'b result \<times> db" where
  "on_admin d name p f = checked (named_admin d name) (\<lambda>a. checked (check_sudo_admin (Inr (Some p))) (\<lambda>_. f a) d) d"

definition may_manage :: "(json \<Rightarrow> bool option) \<Rightarrow> (json \<Rightarrow> int option) \<Rightarrow> principal \<Rightarrow> admin \<Rightarrow> unit result" where
  "may_manage cb ci p a = then_res (principal_of cb ci a) (ensure_can_manage_admin p)"

definition may_edit_admins :: "principal \<Rightarrow> unit result" where
  "may_edit_admins p = (if has_full_access p \<or> management_allows (admin_management (pr_permissions p)) Mgmt_edit then Inr ()
     else Inl (Http_error 403 ''You're not allowed to manage other admins.''))"

text \<open>The answer: the row as it is now.\<close>

definition answer_admin :: "(json \<Rightarrow> bool option) \<Rightarrow> (json \<Rightarrow> int option) \<Rightarrow> int \<Rightarrow> db \<Rightarrow> principal result" where
  "answer_admin cb ci i d = (case fetch_admin i (admins d) of
     None \<Rightarrow> Inl Invalid_request_error | Some a \<Rightarrow> principal_of cb ci a)"

definition get_client_ip :: "string option \<Rightarrow> string option \<Rightarrow> string" where
  "get_client_ip forwarded client =
     (case str_or_none forwarded of Some f \<Rightarrow> strip (takeWhile (\<lambda>c. c \<noteq> CHR '','') f)
      | None \<Rightarrow> (case client of Some h \<Rightarrow> h | None \<Rightarrow> ''Unknown''))"

section \<open>Signing in, creating and changing\<close>

definition admin_token :: "(string \<Rightarrow> string \<Rightarrow> bool) \<Rightarrow> (string \<times> string) list \<Rightarrow> instant \<Rightarrow> db \<Rightarrow> string \<Rightarrow> string \<Rightarrow>
    claims result" where
  "admin_token verify sudoers now d name password = (case validate_admin verify sudoers d name password of
     None \<Rightarrow> Inl (Http_error 401 ''Incorrect username or password'')
   | Some (_, role) \<Rightarrow> Inr (create_admin_token name (role_value role) now))"

definition create_admin_account :: "(json \<Rightarrow> bool option) \<Rightarrow> (json \<Rightarrow> int option) \<Rightarrow> int \<Rightarrow> string \<Rightarrow> principal \<Rightarrow>
    admin_create \<Rightarrow> db \<Rightarrow> principal result \<times> db" where
  "create_admin_account cb ci fresh hash p c d =
     checked (check_sudo_admin (Inr (Some p))) (\<lambda>_.
       if ac_role c = Full_access \<and> \<not> has_full_access p
       then (Inl (Http_error 403 ''Only full access admins (or the Rebecca CLI) can create another full access admin.''), d)
       else checked (may_edit_admins p) (\<lambda>_. case create_admin cb ci fresh hash d c of
           Inl (Integrity_error _) \<Rightarrow> (Inl (Http_error 409 ''Admin already exists''), d)
         | Inl e \<Rightarrow> (Inl e, d)
         | Inr (a, d1, _) \<Rightarrow> (principal_of cb ci a, d1)) d) d"

definition modify_admin_account :: "(json \<Rightarrow> bool option) \<Rightarrow> (json \<Rightarrow> int option) \<Rightarrow> string \<Rightarrow> string \<Rightarrow> instant \<Rightarrow> bool \<Rightarrow>
    principal \<Rightarrow> string \<Rightarrow> admin_modify \<Rightarrow> db \<Rightarrow> principal result \<times> db" where
  "modify_admin_account cb ci h1 h2 now restart_ok p name m d = on_admin d name p (\<lambda>a.
     checked (principal_of cb ci a) (\<lambda>target.
     checked (if admin_username a \<noteq> pr_username p then ensure_can_manage_admin p target else Inr ()) (\<lambda>_.
       if am_role m = Some Full_access \<and> \<not> has_full_access p
       then (Inl (Http_error 403 ''Only full access admins (or the Rebecca CLI) can grant full access to others.''), d)
       else case update_admin cb ci h1 h2 now restart_ok d a m of
           (Inl e, d') \<Rightarrow> (users_limit_400 (Inl e), d')
         | (Inr _, d') \<Rightarrow> (answer_admin cb ci (aid a) d', d')) d) d)"

definition remove_admin_account :: "(json \<Rightarrow> bool option) \<Rightarrow> (json \<Rightarrow> int option) \<Rightarrow> principal \<Rightarrow> string \<Rightarrow> db \<Rightarrow>
    unit result \<times> db" where
  "remove_admin_account cb ci p name d = on_admin d name p (\<lambda>a.
     checked (may_manage cb ci p a) (\<lambda>_. (Inr (), remove_admin d a)) d)"

definition bulk_standard_permissions :: "(json \<Rightarrow> bool option) \<Rightarrow> (json \<Rightarrow> int option) \<Rightarrow> principal \<Rightarrow>
    user_permission list \<Rightarrow> string \<Rightarrow> db \<Rightarrow> int result \<times> db" where
  "bulk_standard_permissions cb ci p permissions mode d =
     checked (check_sudo_admin (Inr (Some p))) (\<lambda>_.
       if permissions = [] \<or> mode \<notin> {''disable'', ''restore''} then (Inl (Http_error 422 ''Unprocessable''), d)
       else checked (may_edit_admins p) (\<lambda>_.
         keep_tables (bulk_update_standard_admin_permissions cb ci permissions mode d) d) d) d"

section \<open>Disabling and enabling\<close>

definition disable_admin_account :: "(json \<Rightarrow> bool option) \<Rightarrow> (json \<Rightarrow> int option) \<Rightarrow> instant \<Rightarrow> principal \<Rightarrow> string \<Rightarrow>
    string \<Rightarrow> db \<Rightarrow> principal result \<times> db" where
  "disable_admin_account cb ci now p name reason d = on_admin d name p (\<lambda>a.
     if length reason < 3 \<or> length reason > 512 then (Inl (Http_error 422 ''Unprocessable''), d)
     else checked (may_manage cb ci p a) (\<lambda>_.
       if admin_status a = Admin_deleted then (Inl (Http_error 400 ''Admin already deleted''), d)
       else if admin_status a = Admin_disabled then (Inl (Http_error 400 ''Admin already disabled''), d)
       else if strip reason = [] then (Inl (Http_error 400 ''Reason is required''), d)
       else let d' = disable_admin (disable_all_active_users now (Some a) d) a (take 512 (strip reason)) in
         (answer_admin cb ci (aid a) d', d')) d)"

definition enable_admin_account :: "(json \<Rightarrow> bool option) \<Rightarrow> (json \<Rightarrow> int option) \<Rightarrow> instant \<Rightarrow> principal \<Rightarrow> string \<Rightarrow>
    db \<Rightarrow> principal result \<times> db" where
  "enable_admin_account cb ci now p name d = on_admin d name p (\<lambda>a.
     checked (may_manage cb ci p a) (\<lambda>_.
       if admin_status a = Admin_deleted then (Inl (Http_error 400 ''Admin already deleted''), d)
       else if admin_status a \<noteq> Admin_disabled then (Inl (Http_error 400 ''Admin is not disabled''), d)
       else if disabled_reason a = Some exhausted_reason
       then (Inl (Http_error 400 ''Admin is disabled because the assigned data limit has been exhausted.''), d)
       else let d' = activate_all_disabled_users now (Some a) (enable_admin d a) in
         (answer_admin cb ci (aid a) d', d')) d)"

text \<open>The users of an admin, whoever it is: only the role of the caller is checked. The core is restarted after
  the commit.\<close>

definition disable_users_of :: "instant \<Rightarrow> bool \<Rightarrow> principal \<Rightarrow> string \<Rightarrow> db \<Rightarrow> unit result \<times> db" where
  "disable_users_of now restart_ok p name d = on_admin d name p (\<lambda>a.
     (if restart_ok then Inr () else Inl Runtime_error, disable_all_active_users now (Some a) d))"

definition activate_users_of :: "instant \<Rightarrow> bool \<Rightarrow> principal \<Rightarrow> string \<Rightarrow> db \<Rightarrow> unit result \<times> db" where
  "activate_users_of now restart_ok p name d = on_admin d name p (\<lambda>a.
     (if restart_ok then Inr () else Inl Runtime_error, activate_all_disabled_users now (Some a) d))"

definition reset_admin_account :: "(json \<Rightarrow> bool option) \<Rightarrow> (json \<Rightarrow> int option) \<Rightarrow> instant \<Rightarrow> bool \<Rightarrow> principal \<Rightarrow>
    string \<Rightarrow> db \<Rightarrow> principal result \<times> db" where
  "reset_admin_account cb ci now restart_ok p name d = on_admin d name p (\<lambda>a.
     checked (if admin_username a \<noteq> pr_username p then may_manage cb ci p a else Inr ()) (\<lambda>_.
       case reset_admin_usage now restart_ok d a of
         (Inl e, d') \<Rightarrow> (Inl e, d')
       | (Inr _, d') \<Rightarrow> (answer_admin cb ci (aid a) d', d')) d)"

section \<open>Usage of an admin\<close>

definition may_see_usage :: "principal \<Rightarrow> string \<Rightarrow> unit result" where
  "may_see_usage p name = (if privileged p \<or> pr_username p = name then Inr () else Inl (Http_error 403 ''Access denied''))"

text \<open>\<open>validate_dates\<close> of \<open>app/routers/admin.py\<close>: a date without an offset is naive, the defaults are not, and the
  comparison of one with the other is not caught.\<close>

definition expand_z :: "string \<Rightarrow> string" where
  "expand_z s = concat (map (\<lambda>c. if c = CHR ''Z'' then ''+00:00'' else [c]) s)"

definition validate_admin_dates :: "(string \<Rightarrow> datetime option) \<Rightarrow> instant \<Rightarrow> string \<Rightarrow> string \<Rightarrow>
    (datetime \<times> datetime) result" where
  "validate_admin_dates parse now start_text end_text =
     (let bad = Inl (Http_error 400 ''Invalid date format. Use ISO 8601 (e.g., 2025-09-24T00:00:00)'') in
      case (if start_text = [] then Some (Aware (now - 30 * 86400 * usecs)) else parse (expand_z start_text)) of
        None \<Rightarrow> bad
      | Some s \<Rightarrow> (case (if end_text = [] then Some (Aware now) else parse (expand_z end_text)) of
          None \<Rightarrow> bad
        | Some e \<Rightarrow> then_res (dt_less e s) (\<lambda>after.
            if after then Inl (Http_error 400 ''Start date must be before end date'') else Inr (s, e))))"

fun instant_of :: "datetime \<Rightarrow> instant" where
  "instant_of (Naive t) = t"
| "instant_of (Aware t) = t"

definition get_admin_total_usage :: "admin \<Rightarrow> int" where
  "get_admin_total_usage a = users_usage a"

definition get_admin_usage :: "principal \<Rightarrow> string \<Rightarrow> db \<Rightarrow> int result" where
  "get_admin_usage p name d = then_res (named_admin d name) (\<lambda>a.
     then_res (may_see_usage p (admin_username a)) (\<lambda>_. Inr (get_admin_total_usage a)))"

definition get_admin_usage_daily :: "(string \<Rightarrow> datetime option) \<Rightarrow> instant \<Rightarrow> principal \<Rightarrow> string \<Rightarrow> string \<Rightarrow> string \<Rightarrow>
    db \<Rightarrow> (string \<times> (instant \<times> int) list) result" where
  "get_admin_usage_daily parse now p name start_text end_text d = then_res (named_admin d name) (\<lambda>a.
     then_res (may_see_usage p (admin_username a)) (\<lambda>_.
     then_res (validate_admin_dates parse now start_text end_text) (\<lambda>(s, e).
       Inr (admin_username a, get_admin_daily_usages d (aid a) (instant_of s) (instant_of e)))))"

definition chart_node :: "node list \<Rightarrow> int option \<Rightarrow> string option result" where
  "chart_node ns node = (case node of None \<Rightarrow> Inr None
     | Some i \<Rightarrow> if i = 0 then Inr (Some ''Master'')
         else (case fetch_node i ns of None \<Rightarrow> Inl (Http_error 404 ''Node not found'') | Some n \<Rightarrow> Inr (Some (nd_name n))))"

definition get_admin_usage_chart :: "(string \<Rightarrow> datetime option) \<Rightarrow> instant \<Rightarrow> principal \<Rightarrow> string \<Rightarrow> string \<Rightarrow> string \<Rightarrow>
    int option \<Rightarrow> string \<Rightarrow> node list \<Rightarrow> db \<Rightarrow> (string option \<times> (instant \<times> int) list) result" where
  "get_admin_usage_chart parse now p name start_text end_text node granularity ns d = then_res (named_admin d name) (\<lambda>a.
     then_res (may_see_usage p (admin_username a)) (\<lambda>_.
     then_res (validate_admin_dates parse now start_text end_text) (\<lambda>(s, e).
       let g = lower (if granularity = [] then ''day'' else granularity) in
       if g \<notin> {''day'', ''hour''} then Inl (Http_error 400 ''Invalid granularity. Use 'day' or 'hour'.'')
       else then_res (chart_node ns node) (\<lambda>node_name.
         Inr (node_name, get_admin_usages_by_day d (aid a) node g (instant_of s) (instant_of e))))))"

text \<open>Here the row is looked up by its exact name, deleted or not, after the check of the name of the path.\<close>

definition get_admin_node_usage :: "(string \<Rightarrow> datetime option) \<Rightarrow> instant \<Rightarrow> principal \<Rightarrow> string \<Rightarrow> string \<Rightarrow> string \<Rightarrow>
    node list \<Rightarrow> db \<Rightarrow> (int option \<times> string \<times> int) list result" where
  "get_admin_node_usage parse now p name start_text end_text ns d = then_res (may_see_usage p name) (\<lambda>_.
     case List.find (\<lambda>a. admin_username a = name) (admins d) of
       None \<Rightarrow> Inl (Http_error 404 ''Admin not found'')
     | Some a \<Rightarrow> then_res (validate_admin_dates parse now start_text end_text) (\<lambda>(s, e).
         Inr (get_admin_usage_by_nodes d ns (aid a) (instant_of s) (instant_of e))))"

section \<open>The account of the signed-in admin\<close>

definition has_self_permission :: "principal \<Rightarrow> string \<Rightarrow> bool" where
  "has_self_permission p key \<longleftrightarrow> pr_role p = Full_access \<or> map_of (self_permissions (pr_permissions p)) key = Some True"

definition own_row :: "principal \<Rightarrow> string list \<Rightarrow> db \<Rightarrow> admin result" where
  "own_row p keys d = (if list_all (has_self_permission p) (''self_myaccount'' # keys) then named_admin d (pr_username p)
     else Inl (Http_error 403 ''Forbidden''))"

definition account_range :: "(string \<Rightarrow> instant option) \<Rightarrow> instant \<Rightarrow> string \<Rightarrow> string \<Rightarrow> (instant \<times> instant) result" where
  "account_range parse now start_text end_text =
     (if start_text = [] \<and> end_text = [] then Inr (now - 7 * 86400 * usecs, now)
      else validate_dates parse now start_text end_text)"

record account_summary =
  as_data_limit :: "int option"
  as_used_traffic :: int
  as_remaining_data :: "int option"
  as_users_limit :: "int option"
  as_current_users :: int
  as_remaining_users :: "int option"
  as_daily :: "(instant \<times> int) list"
  as_nodes :: "(int option \<times> string \<times> int) list"

definition get_myaccount_summary :: "db \<Rightarrow> node list \<Rightarrow> admin \<Rightarrow> instant \<Rightarrow> instant \<Rightarrow> account_summary" where
  "get_myaccount_summary d ns a s e =
     (let used = get_admin_total_usage a; count = int (get_users_count d None (Some (aid a))) in
      \<lparr>as_data_limit = admin_data_limit a, as_used_traffic = used,
       as_remaining_data = map_option (\<lambda>l. max (l - used) 0) (admin_data_limit a),
       as_users_limit = users_limit a, as_current_users = count,
       as_remaining_users = map_option (\<lambda>l. max (l - count) 0) (users_limit a),
       as_daily = get_admin_daily_usages d (aid a) s e, as_nodes = get_admin_usage_by_nodes d ns (aid a) s e\<rparr>)"

definition get_myaccount :: "(string \<Rightarrow> instant option) \<Rightarrow> instant \<Rightarrow> principal \<Rightarrow> string \<Rightarrow> string \<Rightarrow> node list \<Rightarrow> db \<Rightarrow>
    account_summary result" where
  "get_myaccount parse now p start_text end_text ns d = then_res (own_row p [] d) (\<lambda>a.
     then_res (account_range parse now start_text end_text) (\<lambda>(s, e). Inr (get_myaccount_summary d ns a s e)))"

definition get_myaccount_nodes :: "(string \<Rightarrow> instant option) \<Rightarrow> instant \<Rightarrow> principal \<Rightarrow> string \<Rightarrow> string \<Rightarrow> node list \<Rightarrow> db \<Rightarrow>
    (int option \<times> string \<times> int) list result" where
  "get_myaccount_nodes parse now p start_text end_text ns d = then_res (own_row p [] d) (\<lambda>a.
     then_res (account_range parse now start_text end_text) (\<lambda>(s, e). Inr (get_admin_usage_by_nodes d ns (aid a) s e)))"

definition password_change :: "string \<Rightarrow> admin_modify" where
  "password_change w = \<lparr>am_password = Some w, am_role = None, am_permissions = None, am_services = None,
     am_telegram_id = None, am_subscription_domain = None, am_subscription_settings = None, am_data_limit = None,
     am_users_limit = None\<rparr>"

definition change_myaccount_password :: "(json \<Rightarrow> bool option) \<Rightarrow> (json \<Rightarrow> int option) \<Rightarrow> (string \<Rightarrow> string \<Rightarrow> bool) \<Rightarrow>
    string \<Rightarrow> string \<Rightarrow> instant \<Rightarrow> bool \<Rightarrow> principal \<Rightarrow> string \<Rightarrow> string \<Rightarrow> db \<Rightarrow> unit result \<times> db" where
  "change_myaccount_password cb ci verify h1 h2 now restart_ok p current new d =
     (if length current < 6 \<or> length new < 6 then (Inl (Http_error 422 ''Unprocessable''), d)
      else checked (own_row p [''self_change_password''] d) (\<lambda>a.
        if \<not> verify current (hashed_password a) then (Inl (Http_error 400 ''Current password is incorrect''), d)
        else update_admin cb ci h1 h2 now restart_ok d a (password_change new)) d)"

definition get_expires_at :: "instant \<Rightarrow> string \<Rightarrow> instant option result" where
  "get_expires_at now lifetime =
     (let code = lower lifetime; days = (\<lambda>n. Inr (Some (now + n * 86400 * usecs))) in
      if code = ''1m'' then days 30 else if code = ''3m'' then days 90 else if code = ''6m'' then days 180
      else if code = ''12m'' then days 365 else if code = ''forever'' then Inr None
      else Inl (Http_error 400 ''Invalid lifetime''))"

text \<open>The keys of the admin, later ones first; without a row the attribute of \<open>None\<close> is asked for.\<close>

definition mask_key :: "string \<Rightarrow> string" where
  "mask_key s = ''****'' @ drop (length s - 4) s"

definition list_api_keys :: "principal \<Rightarrow> db \<Rightarrow> (api_key \<times> string) list result" where
  "list_api_keys p d =
     (if \<not> (has_self_permission p ''self_myaccount'' \<and> has_self_permission p ''self_api_keys'')
      then Inl (Http_error 403 ''Forbidden'')
      else case get_admin d (Some (pr_username p)) None of
        None \<Rightarrow> Inl Attribute_error
      | Some a \<Rightarrow> Inr (map (\<lambda>k. (k, mask_key (key_hash k))) (rev (filter (\<lambda>k. key_admin_id k = aid a) (api_keys d)))))"

definition create_api_key :: "(string \<Rightarrow> string) \<Rightarrow> int \<Rightarrow> string \<Rightarrow> instant \<Rightarrow> principal \<Rightarrow> string \<Rightarrow> db \<Rightarrow>
    (api_key \<times> string) result \<times> db" where
  "create_api_key sha fresh random now p lifetime d =
     checked (own_row p [''self_api_keys''] d) (\<lambda>a.
     checked (get_expires_at now lifetime) (\<lambda>expires.
       case create_admin_api_key sha fresh random d a expires of (r, d') \<Rightarrow> (Inr r, d')) d) d"

definition delete_api_key :: "(string \<Rightarrow> string \<Rightarrow> bool) \<Rightarrow> principal \<Rightarrow> int \<Rightarrow> string option \<Rightarrow> db \<Rightarrow> unit result \<times> db" where
  "delete_api_key verify p i current d =
     (if current = Some [] then (Inl (Http_error 422 ''Unprocessable''), d)
      else if \<not> (has_self_permission p ''self_myaccount'' \<and> has_self_permission p ''self_api_keys'')
      then (Inl (Http_error 403 ''Forbidden''), d)
      else case current of
        None \<Rightarrow> (Inl (Http_error 400 ''Current password is required''), d)
      | Some w \<Rightarrow> checked (named_admin d (pr_username p)) (\<lambda>a.
          if \<not> verify w (hashed_password a) then (Inl (Http_error 401 ''Incorrect password''), d)
          else case delete_admin_api_key d a i of
            (True, d') \<Rightarrow> (Inr (), d') | (False, d') \<Rightarrow> (Inl (Http_error 404 ''API key not found''), d')) d)"

end
