(* ===== verification/AdminFacts.thy ===== *)
theory AdminFacts
  imports Admins Quota
begin

text \<open>
  Lemmas on the admin operations: unique names, what \<open>create_admin\<close> commits, how a manual and an
  automatic disabling differ, the usage counter and its log, the permissions that are stored and
  the checks on what they allow.
\<close>

section \<open>Names\<close>

definition live_admin_names :: "db \<Rightarrow> string list" where
  "live_admin_names d = map (\<lambda>a. lower (admin_username a))
     (filter (\<lambda>a. admin_status a \<noteq> Admin_deleted) (admins d))"

lemma create_admin_result:
  assumes "create_admin cb ci i hash d c = Inr (a, d1, d2)"
  shows "admins d1 = admins d @ [a] \<and> users d1 = users d \<and> aid a = i \<and>
    admin_status a = Admin_active \<and> admin_username a = ac_username c \<and> admin_role a = ac_role c \<and>
    admin_service_links d1 = admin_service_links d \<and> d2 = sync_admin_services d1 i (ac_services c) \<and>
    lower (ac_username c) \<notin> set (live_admin_names d)"
  using assms by (auto simp: create_admin_def then_res_Inr Let_def live_admin_names_def split: if_splits)

lemma create_admin_names:
  assumes "create_admin cb ci i hash d c = Inr (a, d1, d2)" and "distinct (live_admin_names d)"
  shows "distinct (live_admin_names d1)"
  using create_admin_result [OF assms(1)] assms(2) by (auto simp: live_admin_names_def)

lemma find_name:
  assumes "distinct (live_admin_names d)" and "a \<in> set (admins d)" and "admin_status a \<noteq> Admin_deleted"
    and "admin_username a \<noteq> ''''"
  shows "get_admin d (Some (admin_username a)) None = Some a"
proof -
  have "List.find (\<lambda>b. admin_status b \<noteq> Admin_deleted \<and> lower (admin_username b) = lower (admin_username a)) rows
      = Some a"
    if "distinct (map (\<lambda>a. lower (admin_username a)) (filter (\<lambda>a. admin_status a \<noteq> Admin_deleted) rows))"
      "a \<in> set rows" for rows
    using that assms(3) by (induction rows) (auto simp: image_iff split: if_splits)
  with assms show ?thesis by (simp add: get_admin_def live_admin_names_def)
qed

section \<open>Disabled admins\<close>

lemma assign_field_keeps: "(\<And>v r. g (f v r) = g r) \<Longrightarrow> g (assign_field x f r) = g r"
  by (simp add: assign_field_def split: option.split)

lemma fields_keep:
  "(aid (update_admin_fields h1 h2 now m a), admin_status (update_admin_fields h1 h2 now m a),
    disabled_reason (update_admin_fields h1 h2 now m a), users_usage (update_admin_fields h1 h2 now m a),
    users_limit (update_admin_fields h1 h2 now m a)) =
   (aid a, admin_status a, disabled_reason a, users_usage a, users_limit a)"
  unfolding update_admin_fields_def by (simp add: assign_field_keeps)

lemma profile_keeps:
  assumes "update_admin_profile cb ci h1 h2 now a m = Inr a1"
  shows "aid a1 = aid a \<and> admin_status a1 = admin_status a \<and> disabled_reason a1 = disabled_reason a \<and>
    users_usage a1 = users_usage a \<and> users_limit a1 = users_limit a"
proof -
  obtain a2 where a2: "a1 = update_admin_fields h1 h2 now m a2"
    and r: "(let target_role = (case am_role m of Some r \<Rightarrow> r | None \<Rightarrow> admin_role a);
          a1 = a\<lparr>admin_role := target_role\<rparr>
      in if target_role = Full_access
         then Inr (a1\<lparr>admin_permissions_json :=
                 Some (dump_permissions (role_default_permissions Full_access))\<rparr>)
         else case am_permissions m of None \<Rightarrow> Inr a1
           | Some p \<Rightarrow> then_res (normalize_permissions_for_role cb ci target_role (Some p)
                 (admin_permissions_json a)) (\<lambda>perms.
               then_res (validate_max_data_limit perms) (\<lambda>_.
               Inr (a1\<lparr>admin_permissions_json := Some (dump_permissions perms)\<rparr>)))) = Inr a2"
    using assms by (auto simp: update_admin_profile_def then_res_Inr Let_def)
  have "aid a2 = aid a" "admin_status a2 = admin_status a" "disabled_reason a2 = disabled_reason a"
    "users_usage a2 = users_usage a" "users_limit a2 = users_limit a"
    using r by (auto simp: then_res_Inr Let_def split: if_splits option.splits)
  with a2 fields_keep [of h1 h2 now m a2] show ?thesis by simp
qed

lemma check_limit_keeps:
  assumes "check_users_limit d a m = Inr a1"
  shows "aid a1 = aid a \<and> admin_status a1 = admin_status a \<and> disabled_reason a1 = disabled_reason a \<and>
    users_usage a1 = users_usage a"
  using assms by (auto simp: check_users_limit_def Let_def split: if_splits option.splits)

text \<open>An admin disabled by hand stays disabled with that reason, whatever is updated.\<close>

lemma manual_disable_kept:
  assumes "admin_status a = Admin_disabled" and "disabled_reason a \<noteq> Some exhausted_reason"
    and "fetch_admin (aid a) (admins d) = Some a"
    and "partial_update_admin cb ci h1 h2 now restart_ok d a m = (r, d')"
  shows "\<exists>b. fetch_admin (aid a) (admins d') = Some b \<and> admin_status b = Admin_disabled \<and>
    disabled_reason b = disabled_reason a"
proof (cases "then_res (update_admin_profile cb ci h1 h2 now a m) (\<lambda>a1. check_users_limit d a1 m)")
  case (Inl e)
  then show ?thesis using assms by (simp add: partial_update_admin_def)
next
  case (Inr a1)
  then have a1: "aid a1 = aid a" "admin_status a1 = Admin_disabled" "disabled_reason a1 = disabled_reason a"
    using profile_keeps check_limit_keeps assms(1) by (fastforce simp: then_res_Inr)+
  have "enforce_admin_data_limit now d a1 = (False, a1, d, False)"
    using a1 assms(2) by (simp add: enforce_admin_data_limit_def Let_def)
  moreover have "maybe_enable_admin now restart_ok d a1 = (Inr False, a1, d)"
    using a1 assms(2) by (simp add: maybe_enable_admin_def disabled_due_to_data_limit_def)
  ultimately have "d' = save_admin a1 d"
    using assms(4) Inr by (auto simp: partial_update_admin_def split: if_splits)
  then show ?thesis
    using a1 assms(3) by (simp add: save_admin_def admin_table.fetch_store)
qed

lemma activate_all_admins: "admins (activate_all_disabled_users now a d) = admins d"
  by (simp add: activate_all_disabled_users_def Let_def)

text \<open>
  \<open>reset_admin_usage\<close> moves the counter to the log, and lifts a disabling that the data limit
  caused.
\<close>

lemma reset_admin_usage_effect:
  assumes "reset_admin_usage now True d a = (r, d')" and "users_usage a \<noteq> 0"
    and "fetch_admin (aid a) (admins d) = Some a"
  shows "r = Inr () \<and> (\<exists>b. fetch_admin (aid a) (admins d') = Some b \<and> users_usage b = 0 \<and>
    admin_usage_logs b = admin_usage_logs a @ [users_usage a] \<and> lifetime_usage b = lifetime_usage a \<and>
    (if disabled_due_to_data_limit a \<and> (\<forall>l. admin_data_limit a = Some l \<longrightarrow> 0 < l)
     then admin_status b = Admin_active \<and> disabled_reason b = None
     else admin_status b = admin_status a \<and> disabled_reason b = disabled_reason a))"
proof -
  let ?a1 = "a\<lparr>admin_usage_logs := admin_usage_logs a @ [users_usage a], users_usage := 0\<rparr>"
  have due: "disabled_due_to_data_limit ?a1 = disabled_due_to_data_limit a"
    by (simp add: disabled_due_to_data_limit_def)
  have lim: "admin_usage_within_limit ?a1 \<longleftrightarrow> (\<forall>l. admin_data_limit a = Some l \<longrightarrow> 0 < l)"
    by (simp add: admin_usage_within_limit_def split: option.split)
  have st: "fetch_admin (aid a) (admins (save_admin b e)) = Some b"
    if "aid b = aid a" "map aid (admins e) = map aid (admins d)" for b e
  proof -
    have "aid a \<in> aid ` set (admins d)" using assms(3) admin_table.fetch_key by force
    then have "fetch_admin (aid a) (admins e) \<noteq> None"
      using admin_table.fetch_None that(2) by (metis list.set_map)
    then show ?thesis using that(1) by (simp add: save_admin_def admin_table.fetch_store)
  qed
  have keys: "map aid (admins (activate_all_disabled_users now (Some ?a1) d)) = map aid (admins d)"
    "map aid (admins (save_admin ?a1 (activate_all_disabled_users now (Some ?a1) d))) = map aid (admins d)"
    by (simp_all add: activate_all_admins save_admin_def map_key_store_by)
  show ?thesis
  proof (cases "disabled_due_to_data_limit a \<and> admin_usage_within_limit ?a1")
    case True
    then have "r = Inr ()" "d' = save_admin (?a1\<lparr>admin_status := Admin_active, disabled_reason := None\<rparr>)
        (save_admin ?a1 (activate_all_disabled_users now (Some ?a1) d))"
      using assms(1,2) due by (auto simp: reset_admin_usage_def maybe_enable_admin_def Let_def)
    then show ?thesis using st [OF _ keys(2)] True lim by auto
  next
    case False
    then have "r = Inr ()" "d' = save_admin ?a1 d"
      using assms(1,2) due by (auto simp: reset_admin_usage_def maybe_enable_admin_def Let_def split: if_splits)
    then show ?thesis using st [OF _ refl] False lim by auto
  qed
qed

section \<open>References to a removed admin\<close>

definition references_ok :: "db \<Rightarrow> bool" where
  "references_ok d \<longleftrightarrow> (\<forall>u \<in> set (users d). case admin_id u of None \<Rightarrow> True | Some k \<Rightarrow> k \<in> aid ` set (admins d)) \<and>
     (\<forall>l \<in> set (admin_service_links d). link_admin_id l \<in> aid ` set (admins d)) \<and>
     (\<forall>k \<in> set (api_keys d). key_admin_id k \<in> aid ` set (admins d))"

lemma remove_admin_references: "references_ok d \<Longrightarrow> references_ok (remove_admin d a)"
  unfolding references_ok_def remove_admin_def by (fastforce split: option.splits)

lemma get_admin_by_id_removed: "get_admin_by_id (remove_admin d a) (aid a) = None"
  by (auto simp: get_admin_by_id_def remove_admin_def find_None_iff)

section \<open>Stored permissions\<close>

lemma fold_update_self [simp]:
  "fold (\<lambda>(k, b). AList.update k b) xs [] = xs" if "distinct (map fst xs)"
proof -
  have "fold (\<lambda>(k, b). AList.update k b) xs ys = ys @ xs" if "distinct (map fst (ys @ xs))" for ys
    using that
  proof (induction xs arbitrary: ys)
    case (Cons x xs)
    obtain k b where x: "x = (k, b)" by force
    have "AList.update k b ys = ys @ [(k, b)]"
      using Cons.prems x by (induction ys) auto
    then show ?case using Cons x by simp
  qed simp
  from this [of "[]"] that show ?thesis by simp
qed

text \<open>What the bulk operation stores for an admin whose stored permissions are complete.\<close>

definition stored_permissions :: "admin_permissions \<Rightarrow> admin_permissions" where
  "stored_permissions p = p\<lparr>self_permissions := fold (\<lambda>(k, b). AList.update k b)
     (self_permissions p) (self_permissions (role_default_permissions Standard))\<rparr>"

lemma dump_inj: "coerces cb ci \<Longrightarrow> dump_permissions p = dump_permissions q \<Longrightarrow> p = q"
  by (metis sum.inject(2) validate_dump_permissions)

lemma bulk_row_exact:
  assumes "coerces cb ci" and "admin_permissions_json a = Some (dump_permissions p)"
  shows "bulk_permission_row cb ci perms disable a = Inr
    (let after = (stored_permissions p)\<lparr>perm_users := fold (\<lambda>x q. set_user_permission x
           (if disable then False else user_allows (perm_users (role_default_permissions Standard)) x) q)
           perms (perm_users p)\<rparr>
     in if after = stored_permissions p then None
        else Some (a\<lparr>admin_permissions_json := Some (dump_permissions after)\<rparr>))"
  using assms dump_inj [OF assms(1)]
  by (auto simp: bulk_permission_row_def normalize_permissions_for_role_def validate_dump_permissions
      merge_permissions_eq stored_permissions_def Let_def)

lemma user_allows_set:
  "user_allows (set_user_permission x b p) y = (if x = y then b else user_allows p y)"
  by (cases x; cases y) (simp_all add: set_user_permission_def)

lemma set_user_permission_limit [simp]:
  "max_data_limit_per_user (set_user_permission x b p) = max_data_limit_per_user p"
  by (cases x) (simp_all add: set_user_permission_def)

lemma user_allows_fold:
  "user_allows (fold (\<lambda>x q. set_user_permission x (f x) q) xs p) y =
     (if y \<in> set xs then f y else user_allows p y)"
  by (induction xs arbitrary: p) (auto simp: user_allows_set)

section \<open>Checks\<close>

lemma ensure_user_permission_iff:
  "ensure_user_permission a x = Inr () \<longleftrightarrow> pr_role a = Full_access \<or> user_allows (perm_users (pr_permissions a)) x"
  by (simp add: ensure_user_permission_def has_full_access_def Let_def)

lemma can_manage_iff:
  "ensure_can_manage_admin a t = Inr () \<longleftrightarrow> pr_username t = pr_username a \<or>
     (pr_role t \<noteq> Full_access \<and> (pr_role a = Full_access \<or>
       (can_edit (admin_management (pr_permissions a)) \<and>
        (pr_role t = Sudo \<longrightarrow> can_manage_sudo (admin_management (pr_permissions a))))))"
  by (auto simp: ensure_can_manage_admin_def has_full_access_def Let_def)

text \<open>With role defaults, managing another account takes a strictly higher role.\<close>

lemma default_manage_rank:
  assumes "pr_permissions a = role_default_permissions (pr_role a)" and "pr_username t \<noteq> pr_username a"
    and "ensure_can_manage_admin a t = Inr ()"
  shows "pr_role t < pr_role a"
  using assms by (cases "pr_role a"; cases "pr_role t") (auto simp: role_order can_manage_iff perm_simps)

text \<open>What a user may be given: never more than the limit of the admin.\<close>

lemma normalized_limit:
  assumes "pr_role a \<noteq> Full_access" and "max_data_limit_per_user (perm_users (pr_permissions a)) = Some mx"
    and "normalize_data_limit a (Some n) = Some l"
  shows "l = (if n = 0 \<and> user_allows (perm_users (pr_permissions a)) Perm_allow_unlimited_data then 0
    else if n = 0 then mx else min n mx)"
  using assms by (auto simp: normalize_data_limit_def has_full_access_def Let_def split: if_splits)

end
