(* ===== verification/CoreConfig.thy ===== *)
theory CoreConfig
  imports Hosts Ports
begin

text \<open>
  The host map of \<open>app/reb_node/state.py\<close>: for every service, and for no service, the enabled hosts
  of every inbound of the core's configuration, with the cache that keeps it for a quarter of an
  hour. The retries after a deadlock of the query are left out: a query that fails for good leaves
  the cache as it was.
\<close>

text \<open>
  Who may connect: \<open>XRayConfig.include_db_users\<close> of \<open>app/reb_node/config.py\<close>, which puts a client
  for every active or held user into the inbounds of the core's configuration. An inbound is what
  \<open>_resolve_inbounds\<close> records of it. \<open>host_map_ok\<close> says whether the host map can be had.
\<close>

record host_dict =
  hd_row :: proxy_host
  hd_addresses :: "string list"
  hd_snis :: "string list"
  hd_hosts :: "string list"
  hd_path :: "string option"
  hd_tls :: "host_security option"
  hd_service_ids :: "int list"

definition comma_list :: "string option \<Rightarrow> string list" where
  "comma_list s = (case str_or_none s of None \<Rightarrow> [] | Some x \<Rightarrow> map strip (split_on CHR '','' x))"

definition host_to_dict :: "proxy_host \<Rightarrow> int list \<Rightarrow> host_dict" where
  "host_to_dict h svcs = \<lparr>hd_row = h, hd_addresses = comma_list (Some (host_address h)),
     hd_snis = comma_list (host_sni h), hd_hosts = comma_list (host_host h),
     hd_path = str_or_none (host_path h),
     hd_tls = (if host_security h = Inbound_default then None else Some (host_security h)),
     hd_service_ids = svcs\<rparr>"

type_synonym host_map = "(string \<times> host_dict list) list"
type_synonym host_cache = "(int option \<times> host_map) list"

definition empty_host_map :: "string list \<Rightarrow> host_map" where
  "empty_host_map tags = map (\<lambda>t. (t, [])) tags"

section \<open>Building the map\<close>

text \<open>\<open>cache.setdefault(service_id, \<dots>)\<close> and \<open>host_map.setdefault(tag, []).append(host)\<close>.\<close>

definition add_to_map :: "host_dict \<Rightarrow> host_map \<Rightarrow> host_map" where
  "add_to_map h m = (let t = host_inbound_tag (hd_row h) in
     AList.update t ((case map_of m t of None \<Rightarrow> [] | Some hs \<Rightarrow> hs) @ [h]) m)"

definition add_for_service :: "string list \<Rightarrow> host_dict \<Rightarrow> int option \<Rightarrow> host_cache \<Rightarrow> host_cache" where
  "add_for_service tags h k cache =
     AList.update k (add_to_map h (case map_of cache k of None \<Rightarrow> empty_host_map tags | Some m \<Rightarrow> m)) cache"

definition add_host_to_cache :: "string list \<Rightarrow> db \<Rightarrow> proxy_host \<Rightarrow> host_cache \<Rightarrow> host_cache" where
  "add_host_to_cache tags d h cache =
     (if host_is_disabled h = Some True \<or> host_inbound_tag h \<notin> set tags then cache
      else let svcs = services_of_host (host_id h) d
           in fold (add_for_service tags (host_to_dict h svcs)) (map Some svcs @ [None]) cache)"

definition sort_hosts :: "host_dict list \<Rightarrow> host_dict list" where
  "sort_hosts hs = sort_key (host_sort \<circ> hd_row) (sort_key (host_id \<circ> hd_row) hs)"

text \<open>Every inbound gets an entry, and its hosts are put in order.\<close>

definition sort_map :: "string list \<Rightarrow> host_map \<Rightarrow> host_map" where
  "sort_map tags m = fold (\<lambda>t m. AList.update t (sort_hosts (case map_of m t of None \<Rightarrow> [] | Some hs \<Rightarrow> hs)) m) tags m"

definition rebuild_service_hosts :: "string list \<Rightarrow> db \<Rightarrow> host_cache" where
  "rebuild_service_hosts tags d =
     map (\<lambda>(k, m). (k, sort_map tags m))
       (fold (add_host_to_cache tags d) (hosts d) [(None, empty_host_map tags)])"

section \<open>The cache\<close>

record cache_state =
  hc_map :: host_cache
  hc_ts :: "instant option"

definition hosts_cache_ttl :: int where
  "hosts_cache_ttl = 900 * usecs"

definition rebuild_cache :: "string list \<Rightarrow> db \<Rightarrow> instant \<Rightarrow> cache_state \<Rightarrow> cache_state" where
  "rebuild_cache tags d now c = \<lparr>hc_map = rebuild_service_hosts tags d, hc_ts = Some now\<rparr>"

definition must_rebuild :: "bool \<Rightarrow> instant \<Rightarrow> cache_state \<Rightarrow> bool" where
  "must_rebuild force now c \<longleftrightarrow> force \<or> hc_map c = [] \<or>
     (case hc_ts c of None \<Rightarrow> True | Some t \<Rightarrow> now - t > hosts_cache_ttl)"

text \<open>What a reader gets for a service: one list for every inbound of the configuration.\<close>

definition map_for :: "string list \<Rightarrow> host_cache \<Rightarrow> int option \<Rightarrow> host_map" where
  "map_for tags cache k =
     (let m = (case map_of cache k of None \<Rightarrow> empty_host_map tags | Some m \<Rightarrow> m)
      in map (\<lambda>t. (t, case map_of m t of None \<Rightarrow> [] | Some hs \<Rightarrow> hs)) tags)"

definition get_service_host_map :: "string list \<Rightarrow> db \<Rightarrow> instant \<Rightarrow> int option \<Rightarrow> bool \<Rightarrow> cache_state \<Rightarrow>
    host_map \<times> cache_state" where
  "get_service_host_map tags d now k force c =
     (let c' = (if must_rebuild force now c then rebuild_cache tags d now c else c)
      in (map_for tags (hc_map c') k, c'))"

definition invalidate_service_hosts :: "cache_state \<Rightarrow> cache_state" where
  "invalidate_service_hosts c = \<lparr>hc_map = [], hc_ts = None\<rparr>"

record inbound_info =
  ib_tag :: string
  ib_network :: string
  ib_tls :: string
  ib_header_type :: string

definition flow_supported_for_inbound :: "inbound_info \<Rightarrow> bool" where
  "flow_supported_for_inbound ib \<longleftrightarrow> ib_network ib \<in> {''tcp'', ''kcp''} \<and>
     ib_tls ib \<in> {''tls'', ''reality''} \<and> ib_header_type ib \<noteq> ''http''"

section \<open>The rows\<close>

record client_row =
  cr_user_id :: int
  cr_username :: string
  cr_key :: "string option"
  cr_flow :: "string option"
  cr_type :: proxy_type
  cr_settings :: settings
  cr_excluded :: "string list option"
  cr_service_id :: "int option"

definition row_of :: "user \<Rightarrow> proxy \<Rightarrow> client_row" where
  "row_of u x = \<lparr>cr_user_id = uid u, cr_username = username u, cr_key = credential_key u,
     cr_flow = flow u, cr_type = ptype x, cr_settings = psettings x,
     cr_excluded = (if service_id u \<noteq> None \<or> pexcluded x = [] then None
       else Some (filter (\<lambda>t. t \<noteq> []) (pexcluded x))),
     cr_service_id = service_id u\<rparr>"

definition client_rows :: "db \<Rightarrow> client_row list" where
  "client_rows d =
     (let live = filter (\<lambda>u. status u \<in> {Active, On_hold}) (users d);
          rows = (\<lambda>us. concat (map (\<lambda>u. map (row_of u) (proxies u)) us))
      in rows (filter (\<lambda>u. service_id u \<noteq> None) live) @ rows (filter (\<lambda>u. service_id u = None) live))"

section \<open>The inbounds of a service\<close>

text \<open>\<open>_get_service_allowed_tags\<close>: from the host map, and from the tables where that gives nothing.\<close>

definition service_allowed_tags :: "string list \<Rightarrow> bool \<Rightarrow> db \<Rightarrow> int \<Rightarrow> string list" where
  "service_allowed_tags tags host_map_ok d i =
     (let m = (if host_map_ok then map_for tags (rebuild_service_hosts tags d) (Some i) else []);
          allowed = map fst (filter (\<lambda>(_, hs). hs \<noteq> []) m)
      in if allowed \<noteq> [] then allowed
         else remdups (filter (\<lambda>t. t \<noteq> []) (map host_inbound_tag (filter (\<lambda>h. i \<in> set (services_of_host (host_id h) d) \<and>
           host_is_disabled h \<noteq> Some True) (hosts d)))))"

definition row_admitted :: "(int \<Rightarrow> string list) \<Rightarrow> string \<Rightarrow> client_row \<Rightarrow> bool" where
  "row_admitted allowed tag r = (case cr_service_id r of
     Some i \<Rightarrow> tag \<in> set (allowed i)
   | None \<Rightarrow> (case cr_excluded r of None \<Rightarrow> True | Some ts \<Rightarrow> tag \<notin> set ts))"

section \<open>The clients\<close>

record client =
  cl_user_id :: int
  cl_username :: string
  cl_settings :: settings

text \<open>
  The credentials of a row at an inbound; a row whose credentials cannot be resolved is left out with
  a log line.
\<close>

definition row_settings :: "environment \<Rightarrow> (string \<Rightarrow> string) \<Rightarrow> string \<Rightarrow> client_row \<Rightarrow> settings result" where
  "row_settings env sha fresh r =
     then_res (from_dict (env_validate env) (cr_type r) (cr_settings r)) (\<lambda>m.
       (let fl = normalize_flow_value (str_or_none (cr_flow r)) in
        runtime_proxy_settings (env_validate env) (env_masks env) sha fresh (Settings_model m) (cr_type r)
          (cr_key r) (if cr_type r \<in> {VLESS, Trojan} then fl else None)))"

definition row_client :: "environment \<Rightarrow> (string \<Rightarrow> string) \<Rightarrow> string \<Rightarrow> inbound_info \<Rightarrow> client_row \<Rightarrow>
    client option" where
  "row_client env sha fresh ib r = (case row_settings env sha fresh r of
     Inl e \<Rightarrow> None
   | Inr st \<Rightarrow> Some \<lparr>cl_user_id = cr_user_id r, cl_username = cr_username r,
       cl_settings = (if has_setting st ''flow'' \<and> \<not> flow_supported_for_inbound ib
         then AList.delete ''flow'' st else st)\<rparr>)"

definition clients_of_inbound :: "environment \<Rightarrow> (string \<Rightarrow> string) \<Rightarrow> string \<Rightarrow> (int \<Rightarrow> string list) \<Rightarrow>
    db \<Rightarrow> proxy_type \<Rightarrow> inbound_info \<Rightarrow> client list" where
  "clients_of_inbound env sha fresh allowed d p ib =
     List.map_filter (row_client env sha fresh ib)
       (filter (\<lambda>r. cr_type r = p \<and> row_admitted allowed (ib_tag ib) r) (client_rows d))"

text \<open>
  The result: the list \<open>clients\<close> of every inbound of the copied configuration, by tag. It starts with
  the clients the configuration itself names (\<open>Inl\<close>), which \<open>get_inbound\<close> reads at the first inbound
  of the tag, and every inbound of a known protocol appends the clients of the tables (\<open>Inr\<close>), one
  protocol after the other in the order the rows bring them. \<open>known\<close> are the inbounds of the
  configuration by protocol, \<open>tags\<close> the tags the host map is built for.
\<close>

definition configured_clients :: "json_dict \<Rightarrow> string \<Rightarrow> json list" where
  "configured_clients cfg tag =
     (case List.find (\<lambda>ib. inbound_field ib ''tag'' = JStr tag) (config_inbounds cfg) of
        None \<Rightarrow> []
      | Some ib \<Rightarrow> (case inbound_field (inbound_field ib ''settings'') ''clients'' of
          JArr cs \<Rightarrow> cs | _ \<Rightarrow> []))"

definition grouped_types :: "client_row list \<Rightarrow> proxy_type list" where
  "grouped_types rows = rev (remdups (rev (map cr_type rows)))"

definition typed_inbounds :: "(proxy_type \<Rightarrow> inbound_info list) \<Rightarrow> proxy_type list \<Rightarrow>
    (proxy_type \<times> inbound_info) list" where
  "typed_inbounds known types = concat (map (\<lambda>p. map (Pair p) (known p)) types)"

definition include_db_users :: "environment \<Rightarrow> (string \<Rightarrow> string) \<Rightarrow> string \<Rightarrow>
    (proxy_type \<Rightarrow> inbound_info list) \<Rightarrow> string list \<Rightarrow> bool \<Rightarrow> json_dict \<Rightarrow> db \<Rightarrow>
    string \<Rightarrow> (json + client) list" where
  "include_db_users env sha fresh known tags host_map_ok cfg d =
     fold (\<lambda>(p, ib) lists. lists(ib_tag ib := lists (ib_tag ib) @ map Inr
         (clients_of_inbound env sha fresh (service_allowed_tags tags host_map_ok d) d p ib)))
       (typed_inbounds known (grouped_types (client_rows d)))
       (\<lambda>tag. map Inl (configured_clients cfg tag))"

end
