(* ===== verification/HostFacts.thy ===== *)
theory HostFacts
  imports UserRoutes CoreConfig
begin

text \<open>
  Lemmas on hosts and services: the integrity of their tables under every operation, what replacing
  the hosts of an inbound leaves, and which services it reports.
\<close>

named_theorems op_simps "what the transaction operations do"

section \<open>Transactions\<close>

definition op_keeps :: "(db \<Rightarrow> bool) \<Rightarrow> 'a op \<Rightarrow> bool" where
  "op_keeps P f \<longleftrightarrow> (\<forall>t. P (durable t) \<and> P (working t) \<longrightarrow>
     P (durable (snd (f t))) \<and> P (working (snd (f t))))"

lemma op_keeps_bind:
  assumes "op_keeps P f" and "\<And>x. op_keeps P (g x)"
  shows "op_keeps P (op_bind f g)"
proof -
  have "P (durable (snd (op_bind f g t))) \<and> P (working (snd (op_bind f g t)))"
    if "P (durable t)" "P (working t)" for t
  proof -
    obtain r u where f: "f t = (r, u)" by force
    then have "P (durable u) \<and> P (working u)"
      using assms(1) that unfolding op_keeps_def by (metis snd_conv)
    then show ?thesis using assms(2) f unfolding op_keeps_def op_bind_def
      by (cases r) (auto simp: split_beta)
  qed
  then show ?thesis unfolding op_keeps_def by blast
qed

lemma op_keeps_return [intro, simp]: "op_keeps P (op_return x)"
  by (simp add: op_keeps_def op_return_def)

lemma op_keeps_check [intro, simp]: "op_keeps P (op_check r)"
  by (simp add: op_keeps_def op_check_def)

lemma op_keeps_commit [intro, simp]: "op_keeps P op_commit"
  by (simp add: op_keeps_def op_commit_def)

lemma op_keeps_work: "(\<And>d. P d \<Longrightarrow> P (snd (f d))) \<Longrightarrow> op_keeps P (op_work f)"
  by (simp add: op_keeps_def op_work_def split_beta)

lemma op_keeps_read: "op_keeps P (\<lambda>t. (f t, t))"
  by (simp add: op_keeps_def)

lemma op_keeps_each: "(\<And>x. op_keeps P (f x)) \<Longrightarrow> op_keeps P (op_each f xs)"
  by (induction xs) (auto intro!: op_keeps_bind)

lemma op_keeps_each_in: "(\<And>x. x \<in> set xs \<Longrightarrow> op_keeps P (f x)) \<Longrightarrow> op_keeps P (op_each f xs)"
  by (induction xs) (auto intro!: op_keeps_bind)

lemma outcome_keeps: "op_keeps P f \<Longrightarrow> P d \<Longrightarrow> P (snd (outcome f d))"
  by (simp add: op_keeps_def outcome_def begin_txn_def split_beta)

section \<open>Integrity of the tables\<close>

definition catalog_ok :: "db \<Rightarrow> bool" where
  "catalog_ok d \<longleftrightarrow> distinct (map host_id (hosts d)) \<and>
     (\<forall>h \<in> set (hosts d). host_inbound_tag h \<in> set (inbound_tags d) \<and> host_complete h) \<and>
     distinct (map sid (services d)) \<and> distinct (map service_name (services d)) \<and>
     (\<forall>sv \<in> set (services d). links_unique sv \<and>
        link_host_id ` set (host_links sv) \<subseteq> host_id ` set (hosts d)) \<and>
     (\<forall>l \<in> set (admin_service_links d). link_service_id l \<in> sid ` set (services d)) \<and>
     (\<forall>u \<in> set (users d). \<forall>i. service_id u = Some i \<longrightarrow> i \<in> sid ` set (services d))"

text \<open>The part of it that the host operations work on.\<close>

definition hosts_ok :: "string list \<Rightarrow> proxy_host list \<Rightarrow> bool" where
  "hosts_ok tags hs \<longleftrightarrow> distinct (map host_id hs) \<and>
     (\<forall>h \<in> set hs. host_inbound_tag h \<in> set tags \<and> host_complete h)"

lemma catalog_hosts:
  assumes "catalog_ok d" and "hosts_ok (inbound_tags d') (hosts d')"
    and "services d' = services d" and "admin_service_links d' = admin_service_links d"
    and "users d' = users d" and "host_id ` set (hosts d) \<subseteq> host_id ` set (hosts d')"
  shows "catalog_ok d'"
  using assms by (simp add: catalog_ok_def hosts_ok_def) blast

lemma catalog_ok_hosts: "catalog_ok d \<Longrightarrow> hosts_ok (inbound_tags d) (hosts d)"
  by (simp add: catalog_ok_def hosts_ok_def)

lemma hosts_ok_snoc:
  assumes "hosts_ok tags hs" and "host_complete h" and "host_inbound_tag h \<in> set tags"
    and "host_id h = next_key host_id hs"
  shows "hosts_ok tags (hs @ [h])"
  using assms next_key_fresh [of host_id hs] by (auto simp: hosts_ok_def)

lemma insert_defaults_simps [simp]: "host_complete (insert_defaults h)"
  "host_inbound_tag (insert_defaults h) = host_inbound_tag h"
  by (simp_all add: insert_defaults_def host_complete_def)

lemma insert_hosts_ok:
  assumes "hosts_ok tags table" and "\<forall>h \<in> set new. host_inbound_tag h \<in> set tags"
  shows "hosts_ok tags (insert_hosts new table)"
  using assms
proof (induction new arbitrary: table)
  case (Cons h new)
  have "hosts_ok tags (table @ [(insert_defaults h)\<lparr>host_id := next_key host_id table\<rparr>])"
    using Cons.prems by (intro hosts_ok_snoc) (auto simp: host_complete_def insert_defaults_def)
  then show ?case using Cons by simp
qed simp

lemma insert_hosts_ids: "host_id ` set table \<subseteq> host_id ` set (insert_hosts new table)"
proof (induction new arbitrary: table)
  case (Cons h new)
  have "host_id ` set table
      \<subseteq> host_id ` set (table @ [(insert_defaults h)\<lparr>host_id := next_key host_id table\<rparr>])" by auto
  then show ?case using Cons [of "table @ [(insert_defaults h)\<lparr>host_id := next_key host_id table\<rparr>]"]
    by simp
qed simp

lemma default_host_simps [simp]: "host_complete (default_host i tag)"
  "host_inbound_tag (default_host i tag) = tag" "host_id (default_host i tag) = i"
  "host_is_disabled (default_host i tag) = Some False"
  by (simp_all add: default_host_def host_complete_def)

lemma create_inbound_row_ok: "catalog_ok d \<Longrightarrow> catalog_ok (create_inbound_row tag d)"
proof (rule catalog_hosts)
  assume ok: "catalog_ok d"
  then have "hosts_ok (inbound_tags d @ [tag]) (hosts d)"
    by (auto simp: catalog_ok_def hosts_ok_def)
  then show "hosts_ok (inbound_tags (create_inbound_row tag d)) (hosts (create_inbound_row tag d))"
    using hosts_ok_snoc [of "inbound_tags d @ [tag]" "hosts d" "default_host (next_key host_id (hosts d)) tag"]
    by (simp add: create_inbound_row_def)
  show "host_id ` set (hosts d) \<subseteq> host_id ` set (hosts (create_inbound_row tag d))"
    by (auto simp: create_inbound_row_def)
qed simp_all

lemma get_or_create_ok: "op_keeps catalog_ok (get_or_create tag)"
  by (simp add: op_keeps_def get_or_create_def Let_def create_inbound_row_ok)

text \<open>Dropping links, and rows without links.\<close>

lemma detach_simps [simp]:
  "hosts (snd (detach_hosts hs d)) = hosts d" "inbound_tags (snd (detach_hosts hs d)) = inbound_tags d"
  "users (snd (detach_hosts hs d)) = users d" "admins (snd (detach_hosts hs d)) = admins d"
  "admin_service_links (snd (detach_hosts hs d)) = admin_service_links d"
  "map sid (services (snd (detach_hosts hs d))) = map sid (services d)"
  "map service_name (services (snd (detach_hosts hs d))) = map service_name (services d)"
  by (simp_all add: detach_hosts_def comp_def)

lemma detach_ok: "catalog_ok d \<Longrightarrow> catalog_ok (snd (detach_hosts hs d))"
  by (fastforce simp: catalog_ok_def detach_hosts_def links_unique_def comp_def image_iff
      distinct_map_filter)

lemma detach_links: "sv \<in> set (services (snd (detach_hosts hs d))) \<Longrightarrow>
    link_host_id ` set (host_links sv) \<inter> host_id ` set hs = {}"
  by (auto simp: detach_hosts_def)

lemma delete_hosts_ok:
  assumes "catalog_ok d"
    and "\<And>sv. sv \<in> set (services d) \<Longrightarrow> link_host_id ` set (host_links sv) \<inter> host_id ` set hs = {}"
  shows "catalog_ok (delete_hosts hs d)"
proof -
  have "link_host_id ` set (host_links sv) \<subseteq> host_id ` set (hosts (delete_hosts hs d))"
    if "sv \<in> set (services d)" for sv
    using assms(2) [OF that] assms(1) that unfolding catalog_ok_def delete_hosts_def
    by (simp add: image_iff disjoint_iff subset_iff) metis
  then show ?thesis using assms(1)
    by (auto simp: catalog_ok_def delete_hosts_def distinct_map_filter)
qed

section \<open>Replacing the hosts of an inbound\<close>

lemma set_fold_store: "set (fold (store_by key) objs rows) \<subseteq> set rows \<union> set objs"
proof (induction objs arbitrary: rows)
  case (Cons r objs)
  have "set (store_by key r rows) \<subseteq> insert r (set rows)" by (auto simp: store_by_def)
  then show ?case using Cons [of "store_by key r rows"] by auto
qed simp

lemma apply_payload_simps [simp]:
  "host_id (apply_proxy_host_payload h p s) = host_id h"
  "host_inbound_tag (apply_proxy_host_payload h p s) = host_inbound_tag h"
  "host_is_disabled (apply_proxy_host_payload h p s) = Some (hp_is_disabled p)"
  by (simp_all add: apply_proxy_host_payload_def)

lemma split_payloads_rows:
  assumes "split_payloads tag d idx ps = (changed, new)"
  shows "(\<forall>h \<in> set changed. host_inbound_tag h = tag \<and> host_id h \<in> set (payload_ids ps) \<inter> host_id ` set (hosts d)) \<and>
    (\<forall>h \<in> set new. host_inbound_tag h = tag)"
  using assms
proof (induction ps arbitrary: idx changed new)
  case Nil
  then show ?case by simp
next
  case (Cons p ps)
  obtain c n where r: "split_payloads tag d (idx + 1) ps = (c, n)" by force
  show ?case
  proof (cases "case hp_id p of None \<Rightarrow> None | Some i \<Rightarrow> fetch_host i (hosts d)")
    case None
    then show ?thesis using Cons.IH [OF r] Cons.prems r
      by (auto simp: payload_ids_def draft_host_def Let_def)
  next
    case (Some h)
    then obtain i where i: "hp_id p = Some i" "fetch_host i (hosts d) = Some h"
      by (auto split: option.splits)
    then have "host_id h = i \<and> h \<in> set (hosts d)" by (simp add: fetch_by_key)
    then show ?thesis using Cons.IH [OF r] Cons.prems r Some i
      by (auto simp: payload_ids_def Let_def)
  qed
qed

lemma split_payloads_changed:
  "h \<in> set (fst (split_payloads tag d idx ps)) \<Longrightarrow> host_inbound_tag h = tag \<and>
    host_id h \<in> set (payload_ids ps) \<and> host_id h \<in> host_id ` set (hosts d)"
  using split_payloads_rows [OF prod.collapse [symmetric], of tag d idx ps] by blast

text \<open>The tables as \<open>replace_rows\<close> leaves them when the database accepts the rows.\<close>

definition deleted_rows :: "string \<Rightarrow> host_payload list \<Rightarrow> int list \<Rightarrow> db \<Rightarrow> proxy_host list" where
  "deleted_rows tag ps kept d =
     filter (\<lambda>h. host_id h \<notin> set kept) (filter (\<lambda>h. host_id h \<notin> set (payload_ids ps)) (hosts_of tag d))"

definition hidden_rows :: "string \<Rightarrow> host_payload list \<Rightarrow> int list \<Rightarrow> db \<Rightarrow> proxy_host list" where
  "hidden_rows tag ps kept d =
     filter (\<lambda>h. host_is_disabled h = Some True) (fst (split_payloads tag d 0 ps) @
       filter (\<lambda>h. host_id h \<in> set kept) (filter (\<lambda>h. host_id h \<notin> set (payload_ids ps)) (hosts_of tag d)))"

lemma detach_Nil [simp]: "detach_hosts [] d = ([], d)"
  by (simp add: detach_hosts_def)

lemma replace_rows_eq:
  fixes tag ps kept d
  defines "lost \<equiv> detach_hosts (deleted_rows tag ps kept d) d"
    and "changed \<equiv> fst (split_payloads tag d 0 ps)" and "new \<equiv> snd (split_payloads tag d 0 ps)"
  defines "hid \<equiv> detach_hosts (hidden_rows tag ps kept d) (snd lost)"
  defines "d3 \<equiv> delete_hosts (deleted_rows tag ps kept d) (snd hid)"
  defines "d4 \<equiv> d3\<lparr>hosts := insert_hosts new (fold store_host changed (hosts d3))\<rparr>"
  shows "replace_rows tag ps kept d = (if list_all host_complete changed
     then (Inr (hosts_of tag d4, remdups (fst lost @ fst hid)), d4)
     else (Inl (Integrity_error ''NOT NULL constraint failed''), d))"
proof -
  have a: "(if xs = [] then ([], e) else detach_hosts xs e) = detach_hosts xs e" for xs e by simp
  show ?thesis
    unfolding replace_rows_def Let_def a lost_def changed_def new_def hid_def d3_def d4_def
      deleted_rows_def hidden_rows_def
    by (simp only: split_beta fst_conv snd_conv prod.collapse)
qed

lemma delete_hosts_simps [simp]: "services (delete_hosts hs d) = services d"
  "users (delete_hosts hs d) = users d" "admin_service_links (delete_hosts hs d) = admin_service_links d"
  "inbound_tags (delete_hosts hs d) = inbound_tags d"
  "hosts (delete_hosts hs d) = filter (\<lambda>h. host_id h \<notin> host_id ` set hs) (hosts d)"
  by (simp_all add: delete_hosts_def)

lemma detach_shrinks: "sv \<in> set (services (snd (detach_hosts hs d))) \<Longrightarrow>
    \<exists>sv' \<in> set (services d). set (host_links sv) \<subseteq> set (host_links sv')"
  by (auto simp: detach_hosts_def)

lemma store_rows_ok:
  assumes "hosts_ok tags rows" and "\<forall>h \<in> set objs. host_inbound_tag h \<in> set tags \<and> host_complete h"
  shows "hosts_ok tags (fold store_host objs rows)"
  using assms set_fold_store [of host_id objs rows] host_table.fold_store_keys [of objs rows]
  unfolding hosts_ok_def by auto

lemma set_fold_store_ids: "host_id ` set (fold store_host objs rows) = host_id ` set rows"
  by (metis host_table.fold_store_keys list.set_map)

lemma replace_rows_ok:
  assumes "catalog_ok d" and "tag \<in> set (inbound_tags d)"
  shows "catalog_ok (snd (replace_rows tag ps kept d))"
proof -
  let ?del = "deleted_rows tag ps kept d" and ?hid = "hidden_rows tag ps kept d"
  let ?changed = "fst (split_payloads tag d 0 ps)" and ?new = "snd (split_payloads tag d 0 ps)"
  let ?d2 = "snd (detach_hosts ?hid (snd (detach_hosts ?del d)))"
  let ?d3 = "delete_hosts ?del ?d2"
  let ?d4 = "?d3\<lparr>hosts := insert_hosts ?new (fold store_host ?changed (hosts ?d3))\<rparr>"
  have "catalog_ok ?d2" using assms(1) by (intro detach_ok)
  moreover have "link_host_id ` set (host_links sv) \<inter> host_id ` set ?del = {}"
    if "sv \<in> set (services ?d2)" for sv
    using detach_shrinks [OF that] detach_links [of _ ?del d] by blast
  ultimately have d3: "catalog_ok ?d3" by (rule delete_hosts_ok)
  have rows: "(\<forall>h \<in> set ?changed. host_inbound_tag h = tag) \<and> (\<forall>h \<in> set ?new. host_inbound_tag h = tag)"
    using split_payloads_rows [of tag d 0 ps] by (metis prod.collapse)
  have "catalog_ok ?d4" if "list_all host_complete ?changed"
  proof (rule catalog_hosts [OF d3])
    have "hosts_ok (inbound_tags d) (fold store_host ?changed (hosts ?d3))"
      using catalog_ok_hosts [OF d3] that rows assms(2)
      by (intro store_rows_ok) (auto simp: list_all_iff)
    then show "hosts_ok (inbound_tags ?d4) (hosts ?d4)" using rows assms(2)
      by (auto intro!: insert_hosts_ok)
    show "host_id ` set (hosts ?d3) \<subseteq> host_id ` set (hosts ?d4)"
      using insert_hosts_ids [of "fold store_host ?changed (hosts ?d3)" ?new] set_fold_store_ids by fastforce
  qed simp_all
  then show ?thesis using assms(1) by (simp add: replace_rows_eq)
qed

lemma bulk_replace_ok: "op_keeps catalog_ok (bulk_replace_hosts tag ps kept)"
proof -
  have "catalog_ok (durable t') \<and> catalog_ok (working t')"
    if ok: "catalog_ok (durable t)" "catalog_ok (working t)"
      and r: "bulk_replace_hosts tag ps kept t = (r, t')" for t r t'
  proof -
    obtain u where g: "get_or_create tag t = (Inr (), u)"
      by (cases "get_or_create tag t") (auto simp: get_or_create_def Let_def split: if_splits)
    have u: "catalog_ok (durable u)" "catalog_ok (working u)"
      using get_or_create_ok [of tag] ok g unfolding op_keeps_def by (metis snd_conv)+
    have "tag \<in> set (inbound_tags (working u))"
      using g by (auto simp: get_or_create_def Let_def create_inbound_row_def split: if_splits)
    then have "catalog_ok (snd (replace_rows tag ps kept (working u)))"
      using u(2) by (intro replace_rows_ok)
    then show ?thesis using r g u by (auto simp: bulk_replace_hosts_def op_bind_def split_beta)
  qed
  then show ?thesis unfolding op_keeps_def by (metis prod.collapse)
qed

lemma update_hosts_simple_ok: "op_keeps catalog_ok (update_hosts_simple tag ps kept)"
  unfolding update_hosts_simple_def
  by (intro op_keeps_bind bulk_replace_ok) (auto simp: split_beta intro!: op_keeps_bind)

lemma replace_and_find_ok: "op_keeps catalog_ok (replace_and_find payload)"
  unfolding replace_and_find_def Let_def
  by (intro op_keeps_bind op_keeps_each op_keeps_read) (auto simp: split_beta intro: update_hosts_simple_ok)

section \<open>The other host operations\<close>

lemma add_host_rows_ok:
  assumes "catalog_ok d" and "tag \<in> set (inbound_tags d)"
  shows "catalog_ok (snd (add_host_rows tag p d))"
proof -
  define new where "new = apply_proxy_host_payload (draft_host tag) p
    (Some (case hp_sort p of Some s \<Rightarrow> s | None \<Rightarrow>
       (case map host_sort (hosts_of tag d) of [] \<Rightarrow> 0 | s # ss \<Rightarrow> foldr max ss s + 1)))"
  have e: "snd (add_host_rows tag p d) = d\<lparr>hosts := insert_hosts [new] (hosts d)\<rparr>"
    by (simp add: add_host_rows_def new_def Let_def)
  have "host_inbound_tag new = tag" by (simp add: new_def draft_host_def)
  then have "hosts_ok (inbound_tags d) (insert_hosts [new] (hosts d))"
    using catalog_ok_hosts [OF assms(1)] assms(2) by (intro insert_hosts_ok) auto
  then show ?thesis unfolding e
    using insert_hosts_ids [of "hosts d" "[new]"] by (intro catalog_hosts [OF assms(1)]) auto
qed

lemma get_or_create_known_tag:
  "snd (get_or_create tag t) = u \<Longrightarrow> tag \<in> set (inbound_tags (working u))"
  by (auto simp: get_or_create_def Let_def)

text \<open>What follows \<open>get_or_create\<close> may rely on the inbound being there.\<close>

lemma op_keeps_after_create:
  assumes "\<And>t. catalog_ok (durable t) \<Longrightarrow> catalog_ok (working t) \<Longrightarrow> tag \<in> set (inbound_tags (working t)) \<Longrightarrow>
    catalog_ok (durable (snd (g t))) \<and> catalog_ok (working (snd (g t)))"
  shows "op_keeps catalog_ok (op_bind (get_or_create tag) (\<lambda>_. g))"
proof -
  have "catalog_ok (durable t') \<and> catalog_ok (working t')"
    if "catalog_ok (durable t)" "catalog_ok (working t)"
      and "op_bind (get_or_create tag) (\<lambda>_. g) t = (r, t')" for t r t'
  proof -
    obtain x u where g: "get_or_create tag t = (x, u)" by force
    then have x: "x = Inr ()" by (auto simp: get_or_create_def Let_def split: if_splits)
    have "catalog_ok (durable u)" "catalog_ok (working u)"
      using get_or_create_ok [of tag] that(1,2) g unfolding op_keeps_def by (metis snd_conv)+
    then have "catalog_ok (durable (snd (g u))) \<and> catalog_ok (working (snd (g u)))"
      using get_or_create_known_tag [of tag t u] g by (intro assms) simp_all
    then show ?thesis using that(3) g x by (simp add: op_bind_def)
  qed
  then show ?thesis unfolding op_keeps_def by (metis prod.collapse)
qed

lemma add_host_ok: "op_keeps catalog_ok (add_host tag p)"
  unfolding add_host_def
  by (rule op_keeps_after_create)
    (simp add: op_bind_def op_work_def split_beta op_commit_def op_return_def add_host_rows_ok)

lemma list_hosts_ok: "op_keeps catalog_ok (list_hosts tag)"
  unfolding list_hosts_def by (rule op_keeps_after_create) simp

lemma modify_hosts_ok: "op_keeps catalog_ok (modify_hosts a known payload)"
  unfolding modify_hosts_def
  by (intro op_keeps_bind op_keeps_each op_keeps_check replace_and_find_ok list_hosts_ok) auto

text \<open>Reading the hosts of an inbound may add its row, and changes no service.\<close>

lemma list_hosts_services: "op_keeps (\<lambda>d. services d = S) (op_each list_hosts tags)"
  unfolding list_hosts_def
  by (intro op_keeps_each op_keeps_bind op_keeps_read) (simp add: op_keeps_def get_or_create_def Let_def)

lemma remove_all_hosts_ok: "op_keeps catalog_ok (remove_all_hosts tag)"
  unfolding remove_all_hosts_def
proof (rule op_keeps_work)
  fix d assume ok: "catalog_ok d"
  let ?hs = "hosts_of tag d"
  have "catalog_ok (delete_hosts ?hs (snd (detach_hosts ?hs d)))"
    by (rule delete_hosts_ok [OF detach_ok [OF ok] detach_links])
  then show "catalog_ok (snd (let hs = hosts_of tag d in if hs = [] then ([], d)
      else case detach_hosts hs d of (svcs, d') \<Rightarrow> (svcs, delete_hosts hs d')))"
    using ok by (simp add: Let_def split_beta)
qed

lemma change_hosts_ok:
  assumes "catalog_ok d" and "\<And>h. host_id (f h) = host_id h"
    and "\<And>h. host_inbound_tag (f h) = host_inbound_tag h" and "\<And>h. host_complete (f h) = host_complete h"
  shows "catalog_ok (d\<lparr>hosts := map f (hosts d)\<rparr>)"
  using assms(2-4) by (intro catalog_hosts [OF assms(1)])
    (use assms(1) in \<open>auto simp: hosts_ok_def catalog_ok_def comp_def image_iff\<close>)

lemma set_disabled_simps: "host_id (h\<lparr>host_is_disabled := b\<rparr>) = host_id h"
  "host_inbound_tag (h\<lparr>host_is_disabled := b\<rparr>) = host_inbound_tag h"
  "host_complete (h\<lparr>host_is_disabled := b\<rparr>) = host_complete h"
  by (simp_all add: host_complete_def)

lemma disable_hosts_ok: "op_keeps catalog_ok (disable_hosts tag)"
  unfolding disable_hosts_def
proof (rule op_keeps_work)
  fix d assume ok: "catalog_ok d"
  let ?d = "snd (detach_hosts (hosts_of tag d) d)"
  have "catalog_ok (?d\<lparr>hosts := map (\<lambda>h. if host_inbound_tag h = tag then h\<lparr>host_is_disabled := Some True\<rparr> else h)
      (hosts ?d)\<rparr>)"
    using ok by (intro change_hosts_ok detach_ok) (auto simp: set_disabled_simps)
  then show "catalog_ok (snd (let hs = hosts_of tag d in case detach_hosts hs d of (svcs, d') \<Rightarrow>
      (svcs, d'\<lparr>hosts := update_where (\<lambda>h. host_inbound_tag h = tag)
        (\<lambda>h. h\<lparr>host_is_disabled := Some True\<rparr>) (hosts d')\<rparr>)))"
    by (simp add: Let_def split_beta update_where_def)
qed

lemma store_host_ok:
  assumes "catalog_ok d" and "h \<in> set (hosts d)"
  shows "catalog_ok (d\<lparr>hosts := store_host (h\<lparr>host_is_disabled := b\<rparr>) (hosts d)\<rparr>)"
proof (rule catalog_hosts [OF assms(1)])
  have "hosts_ok (inbound_tags d) (fold store_host [h\<lparr>host_is_disabled := b\<rparr>] (hosts d))"
    using assms by (intro store_rows_ok catalog_ok_hosts)
      (auto simp: set_disabled_simps catalog_ok_def)
  then show "hosts_ok (inbound_tags (d\<lparr>hosts := store_host (h\<lparr>host_is_disabled := b\<rparr>) (hosts d)\<rparr>))
      (hosts (d\<lparr>hosts := store_host (h\<lparr>host_is_disabled := b\<rparr>) (hosts d)\<rparr>))" by simp
  show "host_id ` set (hosts d) \<subseteq> host_id ` set (hosts (d\<lparr>hosts := store_host (h\<lparr>host_is_disabled := b\<rparr>) (hosts d)\<rparr>))"
    using set_fold_store_ids [of "[h\<lparr>host_is_disabled := b\<rparr>]" "hosts d"] by simp
qed simp_all

lemma update_host_status_ok: "op_keeps catalog_ok (update_host_status a i b)"
  unfolding update_host_status_def
  by (intro op_keeps_bind op_keeps_check)
    (auto simp: op_keeps_def Let_def store_host_ok fetch_by_key split: option.split)

lemma delete_inbound_ok: "op_keeps catalog_ok (delete_inbound tag)"
  by (fastforce simp: op_keeps_def delete_inbound_def Let_def catalog_ok_def hosts_of_def
      filter_empty_conv)

section \<open>What a replacement leaves\<close>

lemma fetch_insert_hosts: "fetch_host i table = Some h \<Longrightarrow> fetch_host i (insert_hosts new table) = Some h"
  by (induction new arbitrary: table) (simp_all add: fetch_append)

lemma fetch_filter_key: "fetch_by key k (filter (\<lambda>r. key r \<notin> K) rows) = (if k \<in> K then None else fetch_by key k rows)"
  by (induction rows) auto

lemma changed_row:
  assumes "n < length ps" and "hp_id (ps ! n) = Some i" and "fetch_host i (hosts d) = Some h"
  shows "apply_proxy_host_payload (h\<lparr>host_inbound_tag := tag\<rparr>) (ps ! n)
      (Some (sort_or (idx + int n) (hp_sort (ps ! n))))
    \<in> set (fst (split_payloads tag d idx ps))"
  using assms(1,2)
proof (induction ps arbitrary: idx n)
  case Nil
  then show ?case by simp
next
  case (Cons p ps)
  show ?case
  proof (cases n)
    case 0
    then show ?thesis using Cons.prems assms(3) by (simp add: Let_def split_beta)
  next
    case (Suc m)
    then have "idx + 1 + int m = idx + int n" by simp
    then have "apply_proxy_host_payload (h\<lparr>host_inbound_tag := tag\<rparr>) (ps ! m)
        (Some (sort_or (idx + int n) (hp_sort (ps ! m))))
      \<in> set (fst (split_payloads tag d (idx + 1) ps))"
      using Cons.IH [of m "idx + 1"] Cons.prems Suc by (simp add: add.assoc)
    moreover have "set (fst (split_payloads tag d (idx + 1) ps)) \<subseteq> set (fst (split_payloads tag d idx (p # ps)))"
      by (auto simp: Let_def split_beta split: option.split)
    ultimately show ?thesis using Suc by auto
  qed
qed

lemma changed_ids:
  "distinct (payload_ids ps) \<Longrightarrow> distinct (map host_id (fst (split_payloads tag d idx ps)))"
proof (induction ps arbitrary: idx)
  case (Cons p ps)
  have rest: "host_id ` set (fst (split_payloads tag d (idx + 1) ps)) \<subseteq> set (payload_ids ps)"
    using split_payloads_changed by blast
  show ?case
  proof (cases "hp_id p")
    case None
    then show ?thesis using Cons by (simp add: payload_ids_def Let_def split_beta)
  next
    case (Some i)
    then have "i \<notin> set (payload_ids ps)" "distinct (payload_ids ps)"
      using Cons.prems by (simp_all add: payload_ids_def)
    then show ?thesis using Cons.IH [of "idx + 1"] Some rest
      by (auto simp: Let_def split_beta dest: fetch_by_key split: option.split)
  qed
qed (simp add: payload_ids_def)

text \<open>The end of a successful request, for an inbound that is already there.\<close>

lemma update_hosts_simple_outcome:
  assumes "tag \<in> set (inbound_tags d)"
  shows "outcome (update_hosts_simple tag ps kept) d = (case replace_rows tag ps kept d of
    (Inl e, _) \<Rightarrow> (Inl e, d) | (Inr (hs, svcs), d') \<Rightarrow> (Inr hs, d'))"
  using assms
  by (auto simp: update_hosts_simple_def bulk_replace_hosts_def outcome_def op_bind_def get_or_create_def
      begin_txn_def op_commit_def op_return_def split: prod.split sum.split)

lemma deleted_iff: "i \<in> host_id ` set (deleted_rows tag ps kept d) \<longleftrightarrow>
    (\<exists>h \<in> set (hosts d). host_id h = i \<and> host_inbound_tag h = tag \<and> i \<notin> set (payload_ids ps) \<and> i \<notin> set kept)"
  by (auto simp: deleted_rows_def hosts_of_def)

lemma replaced_rows:
  assumes tag: "tag \<in> set (inbound_tags d)"
    and res: "outcome (update_hosts_simple tag ps kept) d = (Inr hs, d')"
  shows "hs = hosts_of tag d'"
    and "hosts d' = insert_hosts (snd (split_payloads tag d 0 ps)) (fold store_host (fst (split_payloads tag d 0 ps))
      (filter (\<lambda>h. host_id h \<notin> host_id ` set (deleted_rows tag ps kept d)) (hosts d)))"
    and "services d' = services (snd (detach_hosts (hidden_rows tag ps kept d)
      (snd (detach_hosts (deleted_rows tag ps kept d) d))))"
  using res by (auto simp: update_hosts_simple_outcome [OF tag] replace_rows_eq split: if_splits)

lemma kept_row:
  assumes "tag \<in> set (inbound_tags d)" and "outcome (update_hosts_simple tag ps kept) d = (Inr hs, d')"
    and "fetch_host i (hosts d) = Some h" and "i \<notin> set (payload_ids ps)"
    and "host_inbound_tag h \<noteq> tag \<or> i \<in> set kept" and "distinct (map host_id (hosts d))"
  shows "fetch_host i (hosts d') = Some h"
proof -
  have h: "host_id h = i" "h \<in> set (hosts d)" using fetch_by_key [OF assms(3)] by simp_all
  have "h' = h" if "h' \<in> set (hosts d)" "host_id h' = i" for h'
    using that h assms(6) by (auto simp: distinct_map dest: inj_onD)
  then have "i \<notin> host_id ` set (deleted_rows tag ps kept d)"
    using assms(5) unfolding deleted_iff by auto
  moreover have "i \<notin> host_id ` set (fst (split_payloads tag d 0 ps))"
    using split_payloads_changed assms(4) by blast
  ultimately show ?thesis unfolding replaced_rows(2) [OF assms(1,2)]
    using assms(3) by (intro fetch_insert_hosts)
      (simp add: host_table.fetch_fold_store_other fetch_filter_key)
qed

lemma payload_row:
  assumes "tag \<in> set (inbound_tags d)" and "outcome (update_hosts_simple tag ps kept) d = (Inr hs, d')"
    and "n < length ps" and "hp_id (ps ! n) = Some i" and "fetch_host i (hosts d) = Some h"
    and "distinct (payload_ids ps)"
  shows "fetch_host i (hosts d') = Some (apply_proxy_host_payload (h\<lparr>host_inbound_tag := tag\<rparr>) (ps ! n)
    (Some (sort_or (int n) (hp_sort (ps ! n)))))"
proof -
  let ?row = "apply_proxy_host_payload (h\<lparr>host_inbound_tag := tag\<rparr>) (ps ! n)
    (Some (sort_or (int n) (hp_sort (ps ! n))))"
  have h: "host_id h = i" using fetch_by_key [OF assms(5)] by simp
  have row: "?row \<in> set (fst (split_payloads tag d 0 ps))"
    using changed_row [OF assms(3-5), of tag 0] by simp
  have "i \<in> set (payload_ids ps)"
    using split_payloads_changed [OF row] h by simp
  then have "i \<notin> host_id ` set (deleted_rows tag ps kept d)" unfolding deleted_iff by blast
  then have "fetch_host (host_id ?row) (filter (\<lambda>h. host_id h \<notin> host_id ` set (deleted_rows tag ps kept d)) (hosts d)) \<noteq> None"
    using assms(5) h by (simp add: fetch_filter_key)
  then have "fetch_host (host_id ?row) (fold store_host (fst (split_payloads tag d 0 ps))
      (filter (\<lambda>h. host_id h \<notin> host_id ` set (deleted_rows tag ps kept d)) (hosts d))) = Some ?row"
    using changed_ids [OF assms(6)] row by (intro host_table.fetch_fold_store) auto
  then show ?thesis unfolding replaced_rows(2) [OF assms(1,2)]
    using h by (intro fetch_insert_hosts) simp
qed

text \<open>No service keeps a link to a deleted host, or to one the payload disables.\<close>

lemma hidden_links:
  assumes "tag \<in> set (inbound_tags d)" and "outcome (update_hosts_simple tag ps kept) d = (Inr hs, d')"
    and "sv \<in> set (services d')" and "l \<in> set (host_links sv)"
  shows "link_host_id l \<notin> host_id ` set (deleted_rows tag ps kept d) \<union> host_id ` set (hidden_rows tag ps kept d)"
proof -
  let ?d1 = "snd (detach_hosts (deleted_rows tag ps kept d) d)"
  have sv: "sv \<in> set (services (snd (detach_hosts (hidden_rows tag ps kept d) ?d1)))"
    using assms(3) by (simp add: replaced_rows(3) [OF assms(1,2)])
  obtain sv' where "sv' \<in> set (services ?d1)" "set (host_links sv) \<subseteq> set (host_links sv')"
    using detach_shrinks [OF sv] by blast
  then show ?thesis using detach_links [OF sv] detach_links [of sv' _ d] assms(4) by blast
qed

end
