(* ===== verification/ServiceFacts.thy ===== *)
theory ServiceFacts
  imports HostFacts
begin

text \<open>
  Lemmas on services: the links that an assignment of hosts leaves, the integrity of the tables under
  creating, changing and deleting a service, who may see one, and what an action can reach.
\<close>

section \<open>Assigning hosts\<close>

text \<open>Where the assignments name each host once, the links are the assignments.\<close>

lemma assign_links_hosts:
  "distinct (map fst as) \<Longrightarrow> distinct (map link_host_id links) \<Longrightarrow>
   set (map link_host_id links) \<inter> set (map fst as) \<subseteq> set existing \<Longrightarrow>
   set existing \<inter> set (map fst as) \<subseteq> set (map link_host_id links) \<Longrightarrow>
   distinct (map link_host_id (assign_links existing idx as links)) \<and>
   link_host_id ` set (assign_links existing idx as links) = link_host_id ` set links \<union> fst ` set as"
proof (induction as arbitrary: idx links)
  case Nil
  then show ?case by simp
next
  case (Cons a as)
  obtain h s where a: "a = (h, s)" by force
  show ?case
  proof (cases "h \<in> set existing")
    case True
    let ?links = "update_where (\<lambda>l. link_host_id l = h) (\<lambda>l. l\<lparr>link_sort := sort_or idx s\<rparr>) links"
    have m: "map link_host_id ?links = map link_host_id links" by (simp add: update_where_def)
    then have "link_host_id ` set ?links = link_host_id ` set links" by (metis list.set_map)
    moreover have "h \<in> link_host_id ` set links" using True Cons.prems(4) a by auto
    ultimately show ?thesis using Cons.IH [of ?links "idx + 1"] Cons.prems True a m
      by auto
  next
    case False
    let ?links = "links @ [\<lparr>link_host_id = h, link_sort = sort_or idx s\<rparr>]"
    have h: "h \<notin> link_host_id ` set links" using False Cons.prems(3) a by auto
    have "h \<notin> fst ` set as" using Cons.prems(1) a by simp
    then have "distinct (map link_host_id (assign_links existing (idx + 1) as ?links)) \<and>
        link_host_id ` set (assign_links existing (idx + 1) as ?links) =
          link_host_id ` set ?links \<union> fst ` set as"
      using Cons.prems a h by (intro Cons.IH) auto
    then show ?thesis using False a by (simp add: insert_commute)
  qed
qed

lemma distinct_remdups_length: "length xs = length (remdups xs) \<longleftrightarrow> distinct xs"
  by (metis length_remdups_eq remdups_id_iff_distinct)

lemma unique_hosts: "ensure_unique_hosts hs = Inr ys \<Longrightarrow> distinct (map fst hs) \<and> ys = hs"
  using distinct_remdups_length [of "map fst hs"] by (auto simp: ensure_unique_hosts_def split: if_splits)

lemma in_store_by: "v \<in> set (store_by key r rows) \<Longrightarrow> v = r \<or> (v \<in> set rows \<and> key v \<noteq> key r)"
  by (auto simp: store_by_def split: if_splits)

lemma stored_last: "v \<in> set (fold (store_by key) objs rows) \<Longrightarrow> key v \<in> key ` set objs \<Longrightarrow> v \<in> set objs"
proof (induction objs rule: rev_induct)
  case (snoc r objs)
  then have "v = r \<or> (v \<in> set (fold (store_by key) objs rows) \<and> key v \<noteq> key r)"
    by (auto dest: in_store_by)
  then show ?case using snoc by auto
qed simp

lemma found_all:
  assumes "distinct (map key rows)" and "length (filter (\<lambda>r. key r \<in> set ids) rows) = length (remdups ids)"
  shows "set ids \<subseteq> key ` set rows"
proof -
  let ?found = "map key (filter (\<lambda>r. key r \<in> set ids) rows)"
  have "distinct ?found" using assms(1) by (rule distinct_map_filter)
  from distinct_card [OF this] have "card (set ?found) = card (set ids)"
    using assms(2) by (simp add: length_remdups_card_conv)
  moreover have "set ?found \<subseteq> set ids" by auto
  ultimately have "set ?found = set ids" by (intro card_subset_eq) simp_all
  then show ?thesis by auto
qed

lemma assigned_hosts:
  assumes ok: "catalog_ok d" and res: "assign_hosts d svc as = Inr svc'"
    and svc: "links_unique svc" and as: "distinct (map fst as)"
  shows "links_unique svc' \<and> link_host_id ` set (host_links svc') = fst ` set as \<and>
    fst ` set as \<subseteq> host_id ` set (hosts d) \<and> svc' = svc\<lparr>host_links := host_links svc'\<rparr>"
proof -
  let ?kept = "filter (\<lambda>l. link_host_id l \<in> set (map fst as)) (host_links svc)"
  let ?ids = "map link_host_id (host_links svc)"
  have e: "svc' = svc\<lparr>host_links := assign_links ?ids 0 as ?kept\<rparr>"
    and found: "length (filter (\<lambda>h. host_id h \<in> set (map fst as)) (hosts d)) = length (remdups (map fst as))"
    using res by (auto simp: assign_hosts_def Let_def split: if_splits)
  have "distinct (map link_host_id ?kept)"
    using svc by (simp add: links_unique_def distinct_map_filter)
  then have "distinct (map link_host_id (assign_links ?ids 0 as ?kept)) \<and>
      link_host_id ` set (assign_links ?ids 0 as ?kept) = link_host_id ` set ?kept \<union> fst ` set as"
    using as by (intro assign_links_hosts) auto
  moreover have "set (map fst as) \<subseteq> host_id ` set (hosts d)"
    using ok found by (intro found_all) (simp_all add: catalog_ok_def)
  ultimately show ?thesis unfolding e by (auto simp: links_unique_def)
qed

section \<open>Integrity\<close>

lemma assign_admins_links:
  assumes "assign_admins i ids d = Inr d'"
  shows "hosts d' = hosts d \<and> services d' = services d \<and> users d' = users d \<and>
    inbound_tags d' = inbound_tags d \<and> admins d' = admins d \<and>
    link_service_id ` set (admin_service_links d') \<subseteq> insert i (link_service_id ` set (admin_service_links d))"
  using assms by (auto simp: assign_admins_def Let_def split: if_splits)

lemma assign_admins_ok:
  assumes ok: "catalog_ok d" and res: "assign_admins i ids d = Inr d'"
    and i: "i \<in> sid ` set (services d)"
  shows "catalog_ok d'"
proof -
  note keeps = assign_admins_links [OF res]
  have "link_service_id ` set (admin_service_links d) \<subseteq> sid ` set (services d)"
    using ok by (auto simp: catalog_ok_def)
  with i have "insert i (link_service_id ` set (admin_service_links d)) \<subseteq> sid ` set (services d)" by simp
  with keeps have "link_service_id ` set (admin_service_links d') \<subseteq> sid ` set (services d)"
    by (meson subset_trans)
  then have "\<forall>l \<in> set (admin_service_links d'). link_service_id l \<in> sid ` set (services d)" by auto
  then show ?thesis using ok keeps by (simp add: catalog_ok_def)
qed

lemma catalog_services:
  assumes "catalog_ok d" and "hosts d' = hosts d" and "inbound_tags d' = inbound_tags d"
    and "distinct (map sid (services d'))" and "distinct (map service_name (services d'))"
    and "\<And>sv. sv \<in> set (services d') \<Longrightarrow> links_unique sv \<and>
      link_host_id ` set (host_links sv) \<subseteq> host_id ` set (hosts d)"
    and "link_service_id ` set (admin_service_links d') \<subseteq> sid ` set (services d')"
    and "\<And>u i. u \<in> set (users d') \<Longrightarrow> service_id u = Some i \<Longrightarrow> i \<in> sid ` set (services d')"
  shows "catalog_ok d'"
  using assms unfolding catalog_ok_def by auto

lemma flush_service_ok:
  assumes ok: "catalog_ok d" and res: "flush_service svc d = Inr d'"
    and links: "link_host_id ` set (host_links svc) \<subseteq> host_id ` set (hosts d)"
  shows "catalog_ok d'"
proof -
  have d': "d' = d\<lparr>services := store_service svc (services d)\<rparr>" and u: "links_unique svc"
    and free: "name_free d (sid svc) (service_name svc)"
    using res by (auto simp: flush_service_def split: if_splits)
  have ids: "sid ` set (store_service svc (services d)) = sid ` set (services d)"
    by (metis list.set_map map_key_store_by)
  have rows: "set (store_service svc (services d)) \<subseteq> insert svc (set (services d))"
    by (auto simp: store_by_def)
  have "distinct (map service_name (store_service svc rows))"
    if "distinct (map sid rows)" "distinct (map service_name rows)"
      and "\<forall>r \<in> set rows. sid r = sid svc \<or> service_name r \<noteq> service_name svc" for rows
    using that
  proof (induction rows)
    case (Cons r rows)
    have "service_name q \<notin> service_name ` set (store_service svc rows)"
      if "q = (if sid r = sid svc then svc else r)" for q
      using Cons.prems that by (auto simp: store_by_def image_iff split: if_splits)
    then show ?case using Cons by simp
  qed simp
  then have "distinct (map service_name (store_service svc (services d)))"
    using ok free by (simp add: catalog_ok_def name_free_def list_all_iff)
  moreover have "links_unique sv \<and> link_host_id ` set (host_links sv) \<subseteq> host_id ` set (hosts d)"
    if "sv \<in> set (store_service svc (services d))" for sv
    using that rows ok u links unfolding catalog_ok_def by blast
  ultimately show ?thesis unfolding d' using ok ids
    by (intro catalog_services [OF ok]) (auto simp: catalog_ok_def map_key_store_by)
qed

lemma create_service_ok:
  assumes ok: "catalog_ok d" and res: "create_service_row now p d = Inr (i, d')"
    and as: "ensure_unique_hosts (sc_hosts p) = Inr hs"
  shows "catalog_ok d'"
proof -
  let ?i = "next_key sid (services d)"
  define svc where "svc = \<lparr>sid = ?i, service_name = strip (sc_name p),
    service_description = str_or_none (sc_description p), service_created_at = now, host_links = [],
    service_used_traffic = 0, service_lifetime_used_traffic = 0, service_users_usage = 0\<rparr>"
  let ?d1 = "d\<lparr>services := services d @ [svc]\<rparr>"
  obtain svc' d2 where a: "assign_hosts ?d1 svc (sc_hosts p) = Inr svc'"
    and b: "assign_admins ?i (sc_admin_ids p) ?d1 = Inr d2" and c: "flush_service svc' d2 = Inr d'"
    and free: "name_free d ?i (service_name svc)"
    using res by (auto simp: create_service_row_def Let_def then_res_Inr svc_def split: if_splits)
  have new: "?i \<notin> sid ` set (services d)" by (rule next_key_fresh)
  have "service_name svc \<notin> service_name ` set (services d)"
    using free new by (fastforce simp: name_free_def list_all_iff image_iff)
  moreover have svc: "sid svc = ?i" "host_links svc = []" by (simp_all add: svc_def)
  ultimately have d1: "catalog_ok ?d1" using ok new
    by (auto simp: catalog_ok_def links_unique_def)
  note keeps = assign_admins_links [OF b]
  have d2: "catalog_ok d2" using d1 svc(1) by (intro assign_admins_ok [OF d1 b]) simp
  have "distinct (map fst (sc_hosts p))"
    using unique_hosts [OF as] by simp
  then have "link_host_id ` set (host_links svc') \<subseteq> host_id ` set (hosts d)"
    using assigned_hosts [OF d1 a] svc(2) by (simp add: links_unique_def)
  then show ?thesis using keeps by (intro flush_service_ok [OF d2 c]) simp
qed

lemma get_service_row:
  assumes "get_service d i = Some svc"
  shows "sid svc = i \<and> i \<in> sid ` set (services d) \<and> (\<exists>row \<in> set (services d).
    svc = row\<lparr>host_links := sort_key link_sort (host_links row)\<rparr>)"
  using assms by (auto simp: get_service_def dest!: fetch_by_key intro!: rev_image_eqI)

lemma sorted_links: "links_unique (row\<lparr>host_links := sort_key f (host_links row)\<rparr>) = links_unique row"
  by (simp add: links_unique_def distinct_map)

lemma get_service_links:
  assumes "catalog_ok d" and "get_service d i = Some svc"
  shows "links_unique svc \<and> link_host_id ` set (host_links svc) \<subseteq> host_id ` set (hosts d)"
proof -
  obtain row where "row \<in> set (services d)"
      "svc = row\<lparr>host_links := sort_key link_sort (host_links row)\<rparr>"
    using get_service_row [OF assms(2)] by blast
  then show ?thesis using assms(1) sorted_links [of link_sort row] unfolding catalog_ok_def by auto
qed

lemma update_service_ok:
  assumes ok: "catalog_ok d" and svc: "get_service d i = Some svc"
    and res: "update_service_row cfg svc m d = Inr (svc', before, after, d')"
    and as: "\<And>hs. sm_hosts m = Some hs \<Longrightarrow> ensure_unique_hosts hs = Inr hs"
  shows "catalog_ok d'"
proof -
  obtain svc1 d1 where a: "(case sm_hosts m of None \<Rightarrow> Inr svc
       | Some hs \<Rightarrow> if hs = [] then Inl (Value_error ''Service must include at least one host'')
           else assign_hosts d svc hs) = Inr svc1"
    and b: "(case sm_admin_ids m of None \<Rightarrow> Inr d | Some ids \<Rightarrow> assign_admins (sid svc) ids d) = Inr d1"
    and c: "flush_service svc' d1 = Inr d'" and links: "host_links svc' = host_links svc1"
    using res by (auto simp: update_service_row_def Let_def then_res_Inr split: option.splits)
  have i: "sid svc = i" "i \<in> sid ` set (services d)" using get_service_row [OF svc] by auto
  note l = get_service_links [OF ok svc]
  have d1: "catalog_ok d1 \<and> hosts d1 = hosts d"
    using b ok assign_admins_ok [OF ok, of "sid svc"] assign_admins_links [of "sid svc"] i
    by (auto split: option.splits)
  have "link_host_id ` set (host_links svc1) \<subseteq> host_id ` set (hosts d)"
  proof (cases "sm_hosts m")
    case None
    then show ?thesis using a l by simp
  next
    case (Some hs)
    then have "distinct (map fst hs)" using as unique_hosts [of hs hs] by simp
    then show ?thesis using Some a l assigned_hosts [OF ok, of svc hs svc1]
      by (auto split: if_splits)
  qed
  then show ?thesis using d1 links by (intro flush_service_ok [OF _ c]) auto
qed

lemma remove_service_users:
  assumes "remove_service clears svc mode target unlink d = Inr (gone, moved, d')"
  shows "users d' = users d \<and> service_users d (sid svc) = [] \<or>
    map_option sid target \<noteq> Some (sid svc) \<and> users d' = fold store_user
      (map (\<lambda>u. u\<lparr>service_id := (if clears then None else map_option sid target)\<rparr>)
        (service_users d (sid svc))) (users d) \<or>
    users d' = filter (\<lambda>u. uid u \<notin> uid ` set (service_users d (sid svc))) (users d)"
  using assms by (auto simp only: remove_service_def Let_def delete_rows_def prod.inject sum.inject sum.simps
      split: if_splits delete_mode.splits) simp_all

lemma remove_service_ok:
  assumes ok: "catalog_ok d"
    and target: "\<And>t. target = Some t \<Longrightarrow> sid t \<in> sid ` set (services d)"
    and res: "remove_service clears svc mode target unlink d = Inr (gone, moved, d')"
  shows "catalog_ok d'"
proof -
  let ?i = "sid svc"
  let ?d1 = "d\<lparr>services := filter (\<lambda>s. sid s \<noteq> ?i) (services d),
    admin_service_links := filter (\<lambda>l. link_service_id l \<noteq> ?i) (admin_service_links d)\<rparr>"
  let ?us = "service_users d ?i"
  let ?set = "\<lambda>u. u\<lparr>service_id := (if clears then None else map_option sid target)\<rparr>"
  have d': "hosts d' = hosts d \<and> inbound_tags d' = inbound_tags d \<and> services d' = services ?d1 \<and>
      admin_service_links d' = admin_service_links ?d1"
    using res by (auto simp: remove_service_def Let_def delete_rows_def split: if_splits delete_mode.splits)
  have users: "service_id u \<noteq> Some ?i \<and> (service_id u = None \<or> service_id u = map_option sid target \<or>
      u \<in> set (users d))" if "u \<in> set (users d')" for u
  proof -
    have moved: "service_id v \<noteq> Some ?i \<and> (service_id v = None \<or> service_id v = map_option sid target \<or> v \<in> set (users d))"
      if v: "v \<in> set (fold store_user (map ?set ?us) (users d))" and t: "map_option sid target \<noteq> Some ?i" for v
    proof (cases "v \<in> set (map ?set ?us)")
      case True
      then show ?thesis using t by (auto split: if_splits)
    next
      case False
      then have "v \<in> set (users d)" using v set_fold_store [of uid "map ?set ?us" "users d"] by blast
      moreover have "service_id v \<noteq> Some ?i"
      proof
        assume "service_id v = Some ?i"
        then have "v \<in> set ?us" using \<open>v \<in> set (users d)\<close> by (simp add: service_users_def)
        then have "uid v \<in> uid ` set (map ?set ?us)" by (auto simp: image_image)
        from False stored_last [OF v this] show False by (rule notE)
      qed
      ultimately show ?thesis by simp
    qed
    from remove_service_users [OF res] show ?thesis
    proof (elim disjE conjE)
      assume "users d' = users d" and "service_users d ?i = []"
      then show ?thesis using that by (simp add: service_users_def filter_empty_conv)
    next
      assume "map_option sid target \<noteq> Some ?i" and "users d' = fold store_user (map ?set ?us) (users d)"
      then show ?thesis using that moved by simp
    next
      assume "users d' = filter (\<lambda>u. uid u \<notin> uid ` set ?us) (users d)"
      then have "u \<in> set (users d)" "uid u \<notin> uid ` set ?us" using that by simp_all
      then show ?thesis unfolding service_users_def by auto
    qed
  qed
  have "i \<in> sid ` set (services ?d1)" if u: "u \<in> set (users d')" "service_id u = Some i" for u i
  proof -
    have "i \<noteq> ?i" using users [OF u(1)] u(2) by auto
    moreover have "i \<in> sid ` set (services d)"
    proof (cases "u \<in> set (users d)")
      case True
      then show ?thesis using ok u(2) unfolding catalog_ok_def by blast
    next
      case False
      then have "map_option sid target = Some i" using users [OF u(1)] u(2) by simp
      then show ?thesis using target by auto
    qed
    ultimately show ?thesis by auto
  qed
  moreover have "link_service_id ` set (admin_service_links ?d1) \<subseteq> sid ` set (services ?d1)"
    using ok by (auto simp: catalog_ok_def)
  ultimately show ?thesis using ok d'
    by (intro catalog_services [OF ok]) (auto simp: catalog_ok_def distinct_map_filter)
qed

lemma reset_service_ok:
  assumes ok: "catalog_ok d" and "get_service d i = Some svc"
  shows "catalog_ok (reset_service_usage svc d)"
proof -
  note l = get_service_links [OF assms] and r = get_service_row [OF assms(2)]
  let ?svc = "svc\<lparr>service_used_traffic := 0\<rparr>"
  obtain row where row: "row \<in> set (services d)" "service_name svc = service_name row" "sid svc = sid row"
    using r by auto
  have "sid sv = sid row" if "sv \<in> set (services d)" "service_name sv = service_name row" for sv
  proof -
    have "inj_on service_name (set (services d))" using ok by (simp add: catalog_ok_def distinct_map)
    then show ?thesis using that row(1) by (auto dest: inj_onD)
  qed
  then have "name_free d (sid svc) (service_name svc)"
    unfolding name_free_def list_all_iff row(2,3) by blast
  then have "flush_service ?svc d = Inr (d\<lparr>services := store_service ?svc (services d)\<rparr>)"
    using l by (simp add: flush_service_def links_unique_def)
  then have d1: "catalog_ok (d\<lparr>services := store_service ?svc (services d)\<rparr>)" (is "catalog_ok ?d1")
    using l by (intro flush_service_ok [OF ok]) auto
  have "link_service_id ` set (admin_service_links (reset_service_usage svc d)) =
      link_service_id ` set (admin_service_links ?d1)"
    by (simp add: reset_service_usage_def update_where_def image_Un image_image) (auto intro: rev_image_eqI)
  moreover have "link_service_id ` set (admin_service_links ?d1) \<subseteq> sid ` set (services ?d1)"
    using d1 unfolding catalog_ok_def by blast
  ultimately show ?thesis using d1
    by (intro catalog_services [OF d1]) (simp_all add: reset_service_usage_def catalog_ok_def)
qed

end
