(* ===== verification/CredentialFacts.thy ===== *)
theory CredentialFacts
  imports Credentials
begin

text \<open>
  Lemmas on the credential logic: hex and UUID text round trips, masking is an involution, and
  the contract of a key codec (locale \<open>key_codec\<close>) with its consequence for deriving a key
  from the proxies of a user.
\<close>

named_theorems hex_simps "facts on hex text"

section \<open>Hex text\<close>

lemma hex_digit_facts:
  "\<forall>c \<in> set hex_digits. is_hex c \<and> \<not> is_space c \<and> lower_char c = c \<and>
     c \<notin> {CHR ''-'', CHR ''{'', CHR ''}'', CHR ''+'', CHR ''u'', CHR ''x'', CHR ''_''}"
  by code_simp

lemma hex_value_char: "n < 16 \<Longrightarrow> hex_value (hex_char n) = Some n"
proof -
  have "\<forall>n \<in> set [0..<16]. hex_value (hex_char n) = Some n" by code_simp
  then show "n < 16 \<Longrightarrow> hex_value (hex_char n) = Some n" by simp
qed

lemma hex_char_value: "\<forall>c \<in> set hex_digits. \<exists>n < 16. hex_value c = Some n \<and> hex_char n = c"
proof -
  have "\<forall>c \<in> set hex_digits. case hex_value c of None \<Rightarrow> False | Some n \<Rightarrow> n < 16 \<and> hex_char n = c"
    by code_simp
  then show ?thesis by (fastforce split: option.splits)
qed

lemma hex_char_digit: "n < 16 \<Longrightarrow> hex_char n \<in> set hex_digits"
proof -
  have "\<forall>n \<in> set [0..<16]. hex_char n \<in> set hex_digits" by code_simp
  then show "n < 16 \<Longrightarrow> hex_char n \<in> set hex_digits" by simp
qed

lemma byte_parts: "unat (b :: byte) div 16 < 16" "unat b mod 16 < 16"
  "16 * (unat b div 16) + unat b mod 16 = unat b"
proof -
  have "unat b < 256" using unsigned_less [of b, where ?'a = nat] by simp
  then show "unat b div 16 < 16" by simp
qed simp_all

lemma bytes_of_hex_of_bytes [hex_simps]: "bytes_of_hex (hex_of_bytes bs) = Some bs"
proof (induction bs)
  case Nil
  then show ?case by (simp add: hex_of_bytes_def)
next
  case (Cons b bs)
  then show ?case
    by (simp add: hex_of_bytes_def hex_of_byte_def hex_value_char byte_parts)
qed

lemma hex_of_bytes_length [hex_simps]: "length (hex_of_bytes bs) = 2 * length bs"
  by (induction bs) (simp_all add: hex_of_bytes_def hex_of_byte_def)

lemma hex_of_bytes_digits: "set (hex_of_bytes bs) \<subseteq> set hex_digits"
  by (auto simp: hex_of_bytes_def hex_of_byte_def hex_char_digit byte_parts)

lemma hex_of_bytes_of_hex:
  "set s \<subseteq> set hex_digits \<Longrightarrow> bytes_of_hex s = Some bs \<Longrightarrow> hex_of_bytes bs = s"
proof (induction s arbitrary: bs rule: bytes_of_hex.induct)
  case 1
  then show ?case by (simp add: hex_of_bytes_def)
next
  case (2 c)
  then show ?case by simp
next
  case (3 c c' s)
  obtain a b where a: "a < 16" "hex_value c = Some a" "hex_char a = c"
    and b: "b < 16" "hex_value c' = Some b" "hex_char b = c'"
    using "3.prems"(1) hex_char_value by (metis list.set_intros subset_code(1))
  obtain bs' where bs': "bytes_of_hex s = Some bs'" "bs = word_of_nat (16 * a + b) # bs'"
    using "3.prems"(2) a b by (auto split: option.splits)
  have "hex_of_bytes bs' = s" using "3.IH" bs'(1) "3.prems"(1) by simp
  moreover have "unat (word_of_nat (16 * a + b) :: byte) = 16 * a + b"
    using a(1) b(1) unat_of_nat [of "16 * a + b", where 'a = 8] take_bit_nat_eq_self [of "16 * a + b" 8]
    by simp
  ultimately show ?case using a b bs'(2)
    by (simp add: hex_of_bytes_def hex_of_byte_def)
qed

lemma bytes_of_hex_defined:
  "set s \<subseteq> set hex_digits \<Longrightarrow> even (length s) \<Longrightarrow> \<exists>bs. bytes_of_hex s = Some bs"
proof (induction s rule: bytes_of_hex.induct)
  case (3 c c' s)
  obtain a b where "hex_value c = Some a" "hex_value c' = Some b"
    using "3.prems"(1) hex_char_value by (metis list.set_intros subset_code(1))
  with 3 show ?case by fastforce
qed auto

section \<open>UUID text\<close>

lemma remove_sub_absent: "p \<noteq> [] \<Longrightarrow> hd p \<notin> set s \<Longrightarrow> remove_sub p s = s"
proof (induction s)
  case Nil
  then show ?case by (simp add: remove_sub.simps)
next
  case (Cons c s)
  then have "\<not> starts_with p (c # s)" by (cases p) (auto simp: starts_with_def)
  with Cons show ?case by (subst remove_sub.simps) simp
qed

lemma dropWhile_none: "\<forall>c \<in> set s. \<not> P c \<Longrightarrow> dropWhile P s = s"
  by (cases s) simp_all

lemma strip_none: "\<forall>c \<in> set s. \<not> is_space c \<Longrightarrow> strip s = s"
  by (simp add: strip_def dropWhile_none)

lemma underscores_ok_hex: "s \<noteq> [] \<Longrightarrow> set s \<subseteq> set hex_digits \<Longrightarrow> underscores_ok s"
  by (induction s rule: underscores_ok.induct) (use hex_digit_facts in auto)

lemma lower_hex: "set s \<subseteq> set hex_digits \<Longrightarrow> lower s = s"
  unfolding lower_def by (rule map_idI) (use hex_digit_facts in auto)

lemma filter_hex: "set s \<subseteq> set hex_digits \<Longrightarrow> c \<notin> set hex_digits \<Longrightarrow> filter (\<lambda>x. x \<noteq> c) s = s"
  by (auto intro: filter_True)

lemma hex_digit_not:
  assumes "c \<in> set hex_digits"
  shows "\<not> is_space c" "c \<noteq> CHR ''-''" "c \<noteq> CHR ''{''" "c \<noteq> CHR ''}''" "c \<noteq> CHR ''+''"
    "c \<noteq> CHR ''u''" "c \<noteq> CHR ''x''" "c \<noteq> CHR ''_''"
  using assms hex_digit_facts by blast+

lemma take_two: "take 2 s = [a, b] \<Longrightarrow> b \<in> set s"
  by (metis in_set_takeD list.set_intros)

lemma int16_digits_hex:
  assumes "s \<noteq> []" and hex: "set s \<subseteq> set hex_digits"
  shows "int16_digits s = Some s"
proof -
  have 1: "strip s = s"
    by (rule strip_none) (use hex hex_digit_not(1) in blast)
  obtain c s' where s: "s = c # s'" using assms(1) by (cases s) auto
  have 2: "take 1 s \<noteq> ''+''"
    using hex hex_digit_not(5) by (simp add: s)
  have 3: "lower (take 2 s) = take 2 s"
    by (rule lower_hex) (meson hex in_set_takeD subset_code(1))
  have 4: "take 2 s \<noteq> ''0x''"
  proof
    assume "take 2 s = ''0x''"
    then have "CHR ''x'' \<in> set hex_digits" using take_two hex by (meson subsetD)
    then show False using hex_digit_not(7) by metis
  qed
  have 5: "filter (\<lambda>c. c \<noteq> CHR ''_'') s = s"
    by (rule filter_True) (use hex hex_digit_not(8) in blast)
  show ?thesis
    unfolding int16_digits_def Let_def 1
    by (simp only: 2 3 4 5 if_False lower_hex [OF hex] underscores_ok_hex [OF assms] if_True)
qed

lemma strip_braces_none: "CHR ''{'' \<notin> set s \<Longrightarrow> CHR ''}'' \<notin> set s \<Longrightarrow> strip_braces s = s"
  unfolding strip_braces_def Let_def by (subst (1 2) dropWhile_none) auto

lemma parse_uuid_hex:
  assumes h: "filter (\<lambda>c. c \<noteq> CHR ''-'') text = hex_of_bytes bs" and len: "length bs = 16"
    and chars: "set text \<subseteq> insert CHR ''-'' (set hex_digits)"
  shows "parse_uuid text = Some bs"
proof -
  have no: "CHR ''u'' \<notin> set text" "CHR ''{'' \<notin> set text" "CHR ''}'' \<notin> set text"
    using chars hex_digit_not by fastforce+
  have 1: "remove_sub ''urn:'' text = text" "remove_sub ''uuid:'' text = text"
    by (rule remove_sub_absent; simp add: no)+
  have l: "length (hex_of_bytes bs) = 32" by (simp add: hex_of_bytes_length len)
  have 2: "int16_digits (hex_of_bytes bs) = Some (hex_of_bytes bs)"
    by (rule int16_digits_hex [OF _ hex_of_bytes_digits]) (use l in auto)
  show ?thesis
    unfolding parse_uuid_def 1 strip_braces_none [OF no(2,3)] h Let_def
    by (simp add: l 2 bytes_of_hex_of_bytes)
qed

lemma uuid_str_chars: "set (uuid_str bs) \<subseteq> insert CHR ''-'' (set hex_digits)"
proof -
  have "set (take n (drop m (hex_of_bytes bs))) \<subseteq> set hex_digits"
    "set (drop m (hex_of_bytes bs)) \<subseteq> set hex_digits"
    "set (take n (hex_of_bytes bs)) \<subseteq> set hex_digits" for n m
    using hex_of_bytes_digits by (meson in_set_dropD in_set_takeD subsetD subsetI)+
  then show ?thesis unfolding uuid_str_def Let_def by (simp add: subset_insertI2)
qed

lemma groups_of_hex:
  "take 8 h @ take 4 (drop 8 h) @ take 4 (drop 12 h) @ take 4 (drop 16 h) @ drop 20 h = h"
proof -
  have "take 4 (drop 16 h) @ drop 20 h = drop 16 h"
    using append_take_drop_id [of 4 "drop 16 h"] by simp
  moreover have "take 4 (drop 12 h) @ drop 16 h = drop 12 h"
    using append_take_drop_id [of 4 "drop 12 h"] by simp
  moreover have "take 4 (drop 8 h) @ drop 12 h = drop 8 h"
    using append_take_drop_id [of 4 "drop 8 h"] by simp
  ultimately show ?thesis by simp
qed

lemma uuid_str_hex: "filter (\<lambda>c. c \<noteq> CHR ''-'') (uuid_str bs) = hex_of_bytes bs"
proof -
  let ?h = "hex_of_bytes bs" and ?f = "filter (\<lambda>c. c \<noteq> CHR ''-'')"
  have "?f (uuid_str bs) = ?f (take 8 ?h @ take 4 (drop 8 ?h) @ take 4 (drop 12 ?h) @
      take 4 (drop 16 ?h) @ drop 20 ?h)"
    unfolding uuid_str_def Let_def by simp
  also have "\<dots> = ?f ?h" by (simp only: groups_of_hex)
  also have "\<dots> = ?h" by (rule filter_True) (use hex_of_bytes_digits hex_digit_not(2) in blast)
  finally show ?thesis .
qed

lemma parse_uuid_str [hex_simps]: "length bs = 16 \<Longrightarrow> parse_uuid (uuid_str bs) = Some bs"
  by (rule parse_uuid_hex [OF uuid_str_hex _ uuid_str_chars])

section \<open>Masks\<close>

lemma xor_twice:
  fixes bs :: "byte list"
  shows "length bs \<le> length m \<Longrightarrow> map2 (XOR) (map2 (XOR) bs m) m = bs"
proof (induction bs arbitrary: m)
  case (Cons b bs)
  then show ?case by (cases m) (simp_all add: xor.assoc)
qed simp

text \<open>A mask is usable for UUIDs when it is absent, empty, or has at least 16 bytes.\<close>

definition usable_masks :: "masks \<Rightarrow> bool" where
  "usable_masks masks = (\<forall>p \<in> {VMess, VLESS, Trojan, Shadowsocks}.
     case masks p of None \<Rightarrow> True | Some m \<Rightarrow> m = [] \<or> 16 \<le> length m)"

lemma mask_bytes_twice:
  assumes "usable_masks masks" and "length bs = 16"
  shows "\<exists>bs'. mask_bytes masks p bs = Inr bs' \<and> length bs' = 16 \<and> mask_bytes masks p bs' = Inr bs"
proof (cases "case p of None \<Rightarrow> None | Some t \<Rightarrow> masks t")
  case None
  then show ?thesis using assms(2) by (simp add: mask_bytes_def)
next
  case (Some m)
  then obtain t where "p = Some t" "masks t = Some m" by (cases p) auto
  then have "m = [] \<or> 16 \<le> length m" using assms(1) by (cases t) (auto simp: usable_masks_def)
  then show ?thesis using Some assms(2)
    by (auto simp: mask_bytes_def apply_mask_def xor_twice)
qed

section \<open>Keys\<close>

lemma normalize_key_digits:
  "normalize_key k = Inr n \<Longrightarrow> set n \<subseteq> set hex_digits \<and> length n = 32"
  by (auto simp: normalize_key_def Let_def list_all_iff split: if_splits)

lemma normalize_key_hex:
  assumes "set n \<subseteq> set hex_digits" and "length n = 32"
  shows "normalize_key n = Inr n"
proof -
  have "filter (\<lambda>c. c \<noteq> CHR ''-'') n = n"
    by (rule filter_True) (use assms(1) hex_digit_not(2) in blast)
  moreover have "strip n = n" by (rule strip_none) (use assms(1) hex_digit_not(1) in blast)
  moreover have "list_all (\<lambda>c. c \<in> set hex_digits) n"
    using assms(1) by (auto simp: list_all_iff)
  ultimately show ?thesis
    by (simp add: normalize_key_def lower_hex [OF assms(1)] assms(2))
qed

lemma normalize_key_idem: "normalize_key k = Inr n \<Longrightarrow> normalize_key n = Inr n"
  using normalize_key_digits normalize_key_hex by blast

lemma bytes_of_hex_length: "bytes_of_hex s = Some bs \<Longrightarrow> length s = 2 * length bs"
  by (induction s arbitrary: bs rule: bytes_of_hex.induct) (auto split: option.splits)

lemma key_bytes:
  assumes "normalize_key k = Inr n"
  obtains bs where "bytes_of_hex n = Some bs" "length bs = 16" "hex_of_bytes bs = n"
proof -
  note n = normalize_key_digits [OF assms]
  then obtain bs where "bytes_of_hex n = Some bs" using bytes_of_hex_defined [of n] by auto
  then show thesis using that bytes_of_hex_length [of n bs] hex_of_bytes_of_hex [of n bs] n by auto
qed

lemma key_to_uuid_defined:
  assumes "normalize_key k = Inr n" and "usable_masks masks"
  obtains u where "key_to_uuid masks k p = Inr u" "length u = 16"
    "uuid_to_key masks (uuid_str u) p = Inr n"
proof -
  obtain bs where bs: "bytes_of_hex n = Some bs" "length bs = 16" "hex_of_bytes bs = n"
    using key_bytes [OF assms(1)] .
  obtain u where u: "mask_bytes masks p bs = Inr u" "length u = 16" "mask_bytes masks p u = Inr bs"
    using mask_bytes_twice [OF assms(2) bs(2)] by blast
  then show thesis
    using that [of u] bs assms(1) by (simp add: key_to_uuid_def uuid_to_key_def hex_simps)
qed

section \<open>The codec contract\<close>

text \<open>
  What the settings code needs of keys and ids: every accepted key has an id text, and the id text
  gives back the canonical key. \<open>usable\<close> restricts the stored configuration, here the masks.
\<close>

locale key_codec =
  fixes usable :: "'m \<Rightarrow> bool"
    and canon :: "string \<Rightarrow> string result"
    and encode :: "'m \<Rightarrow> proxy_type \<Rightarrow> string \<Rightarrow> string result"
    and decode :: "'m \<Rightarrow> proxy_type \<Rightarrow> string \<Rightarrow> string result"
  assumes codec: "usable m \<Longrightarrow> canon k = Inr n \<Longrightarrow>
      \<exists>u. encode m p k = Inr u \<and> u \<noteq> '''' \<and> decode m p u = Inr n"
    and canon_text: "canon k = Inr n \<Longrightarrow> n \<noteq> '''' \<and> canon n = Inr n"
begin

lemma encode_decode:
  assumes "usable m" "canon k = Inr n" "encode m p k = Inr u"
  shows "decode m p u = Inr n \<and> u \<noteq> ''''"
  using codec [OF assms(1,2), of p] assms(3) by auto

lemma encode_inj:
  assumes "usable m" "canon k = Inr n" "canon k' = Inr n'" "encode m p k = encode m p k'"
  shows "n = n'"
  using codec [OF assms(1,2), of p] codec [OF assms(1,3), of p] assms(4) by auto

end

definition key_to_uuid_text :: "masks \<Rightarrow> proxy_type \<Rightarrow> string \<Rightarrow> string result" where
  "key_to_uuid_text masks p k =
     (case key_to_uuid masks k (Some p) of Inl e \<Rightarrow> Inl e | Inr u \<Rightarrow> Inr (uuid_str u))"

lemma uuid_str_nonempty: "uuid_str bs \<noteq> ''''"
  by (simp add: uuid_str_def Let_def)

interpretation uuid_codec: key_codec usable_masks normalize_key key_to_uuid_text
  "\<lambda>masks p v. uuid_to_key masks v (Some p)"
proof unfold_locales
  fix masks k n p
  assume "usable_masks masks" "normalize_key k = Inr n"
  then obtain u where "key_to_uuid masks k (Some p) = Inr u"
    "uuid_to_key masks (uuid_str u) (Some p) = Inr n"
    using key_to_uuid_defined by blast
  then show "\<exists>u. key_to_uuid_text masks p k = Inr u \<and> u \<noteq> '''' \<and>
      uuid_to_key masks u (Some p) = Inr n"
    by (simp add: key_to_uuid_text_def uuid_str_nonempty)
next
  fix k n
  assume "normalize_key k = Inr n"
  then show "n \<noteq> '''' \<and> normalize_key n = Inr n"
    using normalize_key_idem normalize_key_digits by fastforce
qed

section \<open>Deriving a key\<close>

lemma setting_get_update [simp]:
  "setting_get (AList.update k v s) k' = (if k = k' then v else setting_get s k')"
  by (simp add: setting_get_def update_conv')

lemma setting_get_delete [simp]:
  "setting_get (AList.delete k s) k' = (if k = k' then SNone else setting_get s k')"
  by (simp add: setting_get_def delete_conv')

lemma derive_key_agree:
  assumes "n \<noteq> ''''" and "c = None \<or> c = Some n"
    and "\<forall>(p, s) \<in> set ps. p \<in> uuid_protocols \<longrightarrow>
      (\<exists>v. v \<noteq> '''' \<and> setting_get s ''id'' = SStr v \<and> uuid_to_key masks v (Some p) = Inr n)"
  shows "derive_key masks ps c =
    Inr (if \<exists>p \<in> fst ` set ps. p \<in> uuid_protocols then Some n else c)"
  using assms(2,3)
proof (induction ps arbitrary: c)
  case (Cons a ps)
  obtain p s where a: "a = (p, s)" by force
  show ?case
  proof (cases "p \<in> uuid_protocols")
    case False
    then show ?thesis using Cons.IH [OF Cons.prems(1)] Cons.prems(2) by (simp add: a)
  next
    case True
    then obtain v where v: "v \<noteq> ''''" "setting_get s ''id'' = SStr v"
      "uuid_to_key masks v (Some p) = Inr n"
      using Cons.prems(2) a by auto
    have "derive_key masks ps (Some n) = Inr (Some n)"
      using Cons.IH [of "Some n"] Cons.prems(2) by simp
    then show ?thesis using True v Cons.prems(1) by (auto simp: a has_setting_def)
  qed
qed simp

lemma normalize_key_nonempty: "normalize_key k = Inr n \<Longrightarrow> str_or_none (Some k) = Some k"
  by (auto simp: normalize_key_def Let_def strip_def lower_def)

lemma serialize_id:
  assumes "serialize_proxy_settings masks fu fp s p (Some k) False ag = Inr s'"
    and "normalize_key k = Inr n" and "p \<in> uuid_protocols"
  shows "\<exists>u. key_to_uuid_text masks p k = Inr u \<and> setting_get s' ''id'' = SStr u"
  using assms normalize_key_nonempty [OF assms(2)]
  by (auto simp: serialize_proxy_settings_def Let_def key_to_uuid_text_def
      split: sum.splits if_splits)

lemma serialized_ids:
  assumes "usable_masks masks" and n: "normalize_key k = Inr n"
    and "list_all2 (\<lambda>(p, s) (p', s'). p' = p \<and>
      serialize_proxy_settings masks fu fp s p (Some k) False ag = Inr s') ps ps'"
  shows "\<forall>(p, s) \<in> set ps'. p \<in> uuid_protocols \<longrightarrow>
      (\<exists>v. v \<noteq> '''' \<and> setting_get s ''id'' = SStr v \<and> uuid_to_key masks v (Some p) = Inr n)"
    and "fst ` set ps' = fst ` set ps"
proof -
  show "\<forall>(p, s) \<in> set ps'. p \<in> uuid_protocols \<longrightarrow>
      (\<exists>v. v \<noteq> '''' \<and> setting_get s ''id'' = SStr v \<and> uuid_to_key masks v (Some p) = Inr n)"
    using assms(3)
  proof (induction rule: list_all2_induct)
    case (Cons a ps b ps')
    obtain p t t' where ab: "a = (p, t)" "b = (p, t')"
      "serialize_proxy_settings masks fu fp t p (Some k) False ag = Inr t'"
      using Cons(1) by (cases a; cases b) auto
    have "\<exists>v. v \<noteq> [] \<and> setting_get t' ''id'' = SStr v \<and> uuid_to_key masks v (Some p) = Inr n"
      if "p \<in> uuid_protocols"
      using serialize_id [OF ab(3) n that] uuid_codec.encode_decode [OF assms(1) n] by metis
    with Cons(3) ab(2) show ?case by simp
  qed simp
  show "fst ` set ps' = fst ` set ps"
    using assms(3) by (induction rule: list_all2_induct) auto
qed

end
