(* ===== verification/UserCrudFacts.thy ===== *)
theory UserCrudFacts
  imports UserCrud Quota CredentialFacts
begin

text \<open>
  Lemmas on creating and modifying users: what the steps keep of the session, the quota, unique
  user names, what a failed modification has committed, and the rotation of the credentials.
\<close>

named_theorems session_simps "what the session operations do"

section \<open>Steps\<close>

lemma run_all_keeps:
  assumes "P s" and "\<And>x s. x \<in> set xs \<Longrightarrow> P s \<Longrightarrow> P (snd (f x s))"
  shows "P (snd (run_all f xs s))"
  using assms
proof (induction xs arbitrary: s)
  case (Cons x xs)
  obtain r t where f: "f x s = (r, t)" by force
  then have "P t" using Cons.prems(1) Cons.prems(2) [of x s] by simp
  moreover have "P (snd (run_all f xs t))" using Cons.IH [OF \<open>P t\<close>] Cons.prems(2) by simp
  ultimately show ?case using f by (cases r) simp_all
qed simp

lemma and_then_keeps:
  assumes "P s" and "\<And>s. P s \<Longrightarrow> P (snd (f s))" and "\<And>s. P s \<Longrightarrow> P (snd (g s))"
  shows "P (snd (and_then f g s))"
  using assms(1) assms(2) [of s] assms(3)
  by (auto simp: and_then_def split: prod.split sum.split)

lemma and_then_Inr: "and_then f g s = (Inr (), s') \<longleftrightarrow>
    (\<exists>t. f s = (Inr (), t) \<and> g t = (Inr (), s'))"
  by (auto simp: and_then_def split: prod.split sum.split)

text \<open>What a step may change of the object: not its key, its owner, its name, its
  traffic or its status.\<close>

definition same_identity :: "user \<Rightarrow> user \<Rightarrow> bool" where
  "same_identity u v \<longleftrightarrow> uid v = uid u \<and> admin_id v = admin_id u \<and> username v = username u \<and>
     status v = status u \<and> used_traffic v = used_traffic u"

lemma same_identity_refl [simp]: "same_identity u u"
  by (simp add: same_identity_def)

definition keeps_identity :: "(user \<Rightarrow> user) \<Rightarrow> bool" where
  "keeps_identity f \<longleftrightarrow> (\<forall>u. same_identity u (f u))"

lemma keeps_identity_intros [intro, simp]:
  "keeps_identity id" "keeps_identity (change_proxy p g)" "keeps_identity (add_proxy p st)"
  "keeps_identity (\<lambda>u. u\<lparr>proxies := ps u\<rparr>)"
  "keeps_identity (\<lambda>u. u\<lparr>service_id := x, edit_at := y\<rparr>)"
  "keeps_identity (\<lambda>u. u\<lparr>service_id := x\<rparr>)"
  by (simp_all add: keeps_identity_def same_identity_def change_proxy_def add_proxy_def)

text \<open>
  A step is \<^emph>\<open>tame\<close> for a set of tags when, on a session whose inbound table has them all, it
  commits nothing and keeps the identity of the object.
\<close>

definition steady :: "db \<Rightarrow> user \<Rightarrow> session \<Rightarrow> bool" where
  "steady d u s \<longleftrightarrow> committed s = d \<and> same_identity u (obj s)"

lemma get_or_create_known [session_simps]:
  "tag \<in> set (inbound_tags (committed s)) \<Longrightarrow> get_or_create_inbound tag s = s"
  by (simp add: get_or_create_inbound_def)

lemma get_or_create_all_known [session_simps]:
  "set tags \<subseteq> set (inbound_tags (committed s)) \<Longrightarrow> fold get_or_create_inbound tags s = s"
  by (induction tags) (simp_all add: session_simps)

lemma steady_change: "steady d u s \<Longrightarrow> keeps_identity f \<Longrightarrow> steady d u (change_obj f s)"
  by (auto simp: steady_def change_obj_def keeps_identity_def same_identity_def)

lemma steady_pure: "steady d u s \<Longrightarrow> keeps_identity f \<Longrightarrow> steady d u (snd (pure_step f s))"
  by (simp add: pure_step_def steady_change)

lemma steady_doomed: "steady d u s \<Longrightarrow> steady d u (s\<lparr>doomed := ps\<rparr>)"
  by (simp add: steady_def)

lemma steady_inbounds:
  "steady d u s \<Longrightarrow> set tags \<subseteq> set (inbound_tags d) \<Longrightarrow> steady d u (fold get_or_create_inbound tags s)"
  by (simp add: steady_def get_or_create_all_known)

definition known_tags :: "environment \<Rightarrow> db \<Rightarrow> bool" where
  "known_tags env d \<longleftrightarrow> (\<forall>p. set (tags_of_protocol (core env) p) \<subseteq> set (inbound_tags d))"

lemma excluded_known:
  "known_tags env d \<Longrightarrow> set (excluded_for (core env) sel p) \<subseteq> set (inbound_tags d)"
  by (auto simp: known_tags_def excluded_for_def)

lemma steady_apply_protocol:
  assumes "known_tags env d" and "steady d u s"
  shows "steady d u (snd (apply_protocol env existing pt s))"
proof -
  obtain p tags where "pt = (p, tags)" by force
  moreover have "set (sort (remdups (filter (\<lambda>t. t \<notin> set tags) (tags_of_protocol (core env) p))))
      \<subseteq> set (inbound_tags d)"
    using assms(1) by (auto simp: known_tags_def)
  ultimately show ?thesis using assms(2)
    by (auto simp: apply_protocol_def Let_def steady_pure steady_inbounds steady_change
        split: option.split sum.split)
qed

lemma steady_apply_service:
  assumes "known_tags env d" and "steady d u s"
  shows "steady d u (snd (apply_service_to_user env now persistent svc allowed s))"
  using assms(2)
  by (auto simp: apply_service_to_user_def Let_def steady_doomed
      intro!: and_then_keeps [of "steady d u"] run_all_keeps [of "steady d u"]
        steady_apply_protocol [OF assms(1)] steady_pure)

lemma steady_set_service:
  assumes "known_tags env d" and "steady d u s"
  shows "steady d u (snd (set_service env now svc service_set s))"
  using assms by (auto simp: set_service_def steady_pure steady_apply_service split: option.split)

lemma steady_modify_proxy: "steady d u s \<Longrightarrow> steady d u (snd (modify_proxy env pst s))"
  by (cases pst) (auto simp: modify_proxy_def Let_def steady_pure split: option.split sum.split)

lemma steady_modify_proxies: "steady d u s \<Longrightarrow> steady d u (snd (modify_proxies env m s))"
  by (auto simp: modify_proxies_def steady_doomed
      intro!: and_then_keeps [of "steady d u"] run_all_keeps [of "steady d u"] steady_modify_proxy)

lemma steady_modify_excluded:
  assumes "known_tags env d" and "steady d u s"
  shows "steady d u (fold modify_excluded (modify_excluded_inbounds (core env) m) s)"
proof -
  have "steady d u (fold modify_excluded xs s)"
    if "\<forall>pt \<in> set xs. set (snd pt) \<subseteq> set (inbound_tags d)" for xs
    using that assms(2)
  proof (induction xs arbitrary: s)
    case (Cons x xs)
    then have "steady d u (modify_excluded x s)"
      by (cases x) (simp add: modify_excluded_def steady_change steady_inbounds)
    then show ?case using Cons.IH Cons.prems(1) by simp
  qed simp
  moreover have "\<forall>pt \<in> set (modify_excluded_inbounds (core env) m).
      set (snd pt) \<subseteq> set (inbound_tags d)"
    by (auto simp: modify_excluded_inbounds_def dest: subsetD [OF excluded_known [OF assms(1)]])
  ultimately show ?thesis by blast
qed

section \<open>Modifying a user\<close>

lemma modify_fields_owner: "uid (modify_fields now m u) = uid u \<and>
    admin_id (modify_fields now m u) = admin_id u \<and> username (modify_fields now m u) = username u"
proof -
  have "uid (modify_plans m u) = uid u \<and> admin_id (modify_plans m u) = admin_id u \<and>
      username (modify_plans m u) = username u" for u
    by (simp add: modify_plans_def split: option.split)
  moreover have "uid (modify_settings m u) = uid u \<and> admin_id (modify_settings m u) = admin_id u \<and>
      username (modify_settings m u) = username u" for u
    by (simp add: modify_settings_def Let_def split: option.split)
  moreover have "uid (modify_contact m u) = uid u \<and> admin_id (modify_contact m u) = admin_id u \<and>
      username (modify_contact m u) = username u" for u
    by (simp add: modify_contact_def Let_def split: option.split)
  moreover have "uid (modify_expire now m u) = uid u \<and> admin_id (modify_expire now m u) = admin_id u \<and>
      username (modify_expire now m u) = username u" for u
    by (simp add: modify_expire_def Let_def)
  moreover have "uid (modify_limit m u) = uid u \<and> admin_id (modify_limit m u) = admin_id u \<and>
      username (modify_limit m u) = username u" for u
    by (simp add: modify_limit_def Let_def)
  ultimately show ?thesis
    by (simp add: modify_fields_def Let_def split: option.split)
qed

text \<open>
  The status that a modification leaves: the requested one or the old one, then the new data limit
  decides, and then the new expiry between active and expired.
\<close>

definition limit_decides :: "user_modify \<Rightarrow> user \<Rightarrow> user_status \<Rightarrow> user_status" where
  "limit_decides m u st =
     (if ''data_limit'' \<notin> set (fields_set m) \<or> st \<in> {Expired, Disabled} then st
      else if st = On_hold then Limited
      else case or_none (um_data_limit m) of None \<Rightarrow> Active
        | Some l \<Rightarrow> if used_traffic u < l then Active else Limited)"

definition expiry_decides :: "instant \<Rightarrow> user_modify \<Rightarrow> user_status \<Rightarrow> user_status" where
  "expiry_decides now m st =
     (if ''expire'' \<notin> set (fields_set m) \<or> st \<notin> {Active, Expired} then st
      else case or_none (um_expire m) of None \<Rightarrow> Active
        | Some e \<Rightarrow> if secs_le_now e now then Expired else Active)"

definition updated_status :: "instant \<Rightarrow> user_modify \<Rightarrow> user \<Rightarrow> user_status" where
  "updated_status now m u =
     expiry_decides now m (limit_decides m u (case um_status m of None \<Rightarrow> status u | Some st \<Rightarrow> st))"

lemma modify_parts_status:
  "status (modify_plans m w) = status w" "status (modify_settings m w) = status w"
  "status (modify_contact m w) = status w"
  "status (modify_expire now m w) = expiry_decides now m (status w)"
  "status (modify_limit m w) = limit_decides m w (status w)"
  by (simp add: modify_plans_def split: option.split)
    (simp add: modify_settings_def Let_def split: option.split,
     simp add: modify_contact_def Let_def split: option.split,
     auto simp: modify_expire_def modify_limit_def limit_decides_def expiry_decides_def Let_def
       split: option.split)

lemma modify_fields_status:
  assumes "same_identity u v"
  shows "status (modify_fields now m v) = updated_status now m u"
  using assms
  by (cases "um_status m"; cases "or_none (um_data_limit m)")
    (simp_all add: modify_fields_def updated_status_def modify_parts_status same_identity_def
      limit_decides_def Let_def)

text \<open>
  What \<open>update_user\<close> does when the inbound table has every tag of the core: a failure leaves the
  tables alone, and a success writes one row, whose activation was checked.
\<close>

lemma update_user_known:
  assumes known: "known_tags env d"
  shows "case update_user env now d u m svc service_set a of
      (Inl e, d') \<Rightarrow> d' = d
    | (Inr u', d') \<Rightarrow> uid u' = uid u \<and> admin_id u' = admin_id u \<and> username u' = username u \<and>
        status u' = updated_status now m u \<and>
        (status u' = Active \<longrightarrow> status u \<noteq> Active \<longrightarrow>
          ensure_active_user_capacity d (admin_of d u) 1 [uid u] = Inr ()) \<and>
        users d' = store_user u' (users d) \<and> admins d' = admins d"
proof -
  let ?s = "\<lparr>committed = d, obj = u, doomed = []\<rparr>"
  let ?f2 = "\<lambda>s. (Inr (), fold modify_excluded (modify_excluded_inbounds (core env) m) s)"
  let ?f4 = "set_service env now svc service_set"
  have s0: "steady d u ?s" by (simp add: steady_def)
  note upd = update_user_def [of env now d u m svc service_set a]
  obtain r1 s1 where 1: "modify_proxies env m ?s = (r1, s1)" by force
  then have st1: "steady d u s1" using steady_modify_proxies [OF s0, of env m] by simp
  show ?thesis
  proof (cases r1)
    case (Inl e)
    then show ?thesis using 1 st1 by (simp add: upd and_then_def steady_def)
  next
    case (Inr x)
    define s3 where "s3 = change_obj (modify_fields now m) (snd (?f2 s1))"
    have "steady d u (snd (?f2 s1))" using steady_modify_excluded [OF known st1] by simp
    then have "committed (snd (?f2 s1)) = d" and same: "same_identity u (obj (snd (?f2 s1)))"
      by (simp_all add: steady_def)
    then have c3: "committed s3 = d" "uid (obj s3) = uid u" "admin_id (obj s3) = admin_id u"
      "username (obj s3) = username u" "status (obj s3) = updated_status now m u"
      using modify_fields_owner [of now m "obj (snd (?f2 s1))"] modify_fields_status [OF same, of now m]
      by (simp_all add: s3_def change_obj_def same_identity_def)
    obtain r4 s4 where 4: "?f4 s3 = (r4, s4)" by force
    have "steady d (obj s3) s3" by (simp add: steady_def c3)
    then have st4: "steady d (obj s3) s4"
      using steady_set_service [OF known, of "obj s3" s3 now svc service_set] 4 by simp
    then have c4: "committed s4 = d" "uid (obj s4) = uid u" "admin_id (obj s4) = admin_id u"
      "username (obj s4) = username u" "status (obj s4) = updated_status now m u"
      using c3 by (simp_all add: steady_def same_identity_def)
    then have adm: "admin_of d (obj s4) = admin_of d u" by (simp add: admin_of_def)
    have upd4: "update_user env now d u m svc service_set a =
      (case and_then ?f4 (check_activation (status u)) s3 of
      (Inl e, s) \<Rightarrow> (Inl e, committed s)
    | (Inr _, s) \<Rightarrow>
       (let s' = flush_obj (change_obj (\<lambda>u. u\<lparr>edit_at := Some now\<rparr>) s)
        in (Inr (obj s'), (case svc of
             Some sv \<Rightarrow> if service_set then ensure_admin_service_link a sv (committed s') else committed s'
           | None \<Rightarrow> committed s'))))"
      using 1 Inr by (simp add: upd and_then_def pure_step_def s3_def)
    show ?thesis
    proof (cases r4)
      case Inl
      then show ?thesis using 4 c4 by (simp add: upd4 and_then_def)
    next
      case Inr
      then show ?thesis using 4 c4 adm
        by (auto simp: upd4 and_then_def check_activation_def flush_obj_def change_obj_def Let_def
            save_user_def ensure_admin_service_link_def split: sum.split option.split)
    qed
  qed
qed

lemma quota_cong:
  "users d' = users d \<Longrightarrow> admins d' = admins d \<Longrightarrow> within_quota d' = within_quota d"
  by (simp add: within_quota_def get_active_users_count_def)

lemma update_user_keeps_quota:
  assumes known: "known_tags env d" and wf: "wf_db d"
    and u: "fetch_user (uid u) (users d) = Some u" and quota: "within_quota d"
  shows "within_quota (snd (update_user env now d u m svc service_set a))"
proof (cases "fst (update_user env now d u m svc service_set a)")
  case (Inl e)
  then show ?thesis using update_user_known [OF known, where now = now and u = u and m = m and svc = svc and
        service_set = service_set and a = a] quota
    by (auto split: prod.splits)
next
  case (Inr u')
  then obtain d' where "update_user env now d u m svc service_set a = (Inr u', d')"
    by (metis prod.collapse)
  with update_user_known [OF known, where now = now and u = u and m = m and svc = svc and
        service_set = service_set and a = a]
  have f: "uid u' = uid u" "admin_id u' = admin_id u"
    "status u' = Active \<Longrightarrow> status u \<noteq> Active \<Longrightarrow>
       ensure_active_user_capacity d (admin_of d u) 1 [uid u] = Inr ()"
    "users d' = store_user u' (users d)" "admins d' = admins d"
    and d': "snd (update_user env now d u m svc service_set a) = d'" by auto
  define change where "change = (\<lambda>e v. if e = d \<and> v = u then Inr u' else Inl Type_error :: user result)"
  have "guarded_change change"
    by unfold_locales (use f in \<open>auto simp: change_def split: if_splits\<close>)
  then have "within_quota (save_user u' d)"
    by (rule guarded_change.keeps_quota [OF _ wf u quota]) (simp add: change_def)
  then show ?thesis using quota_cong [of d' "save_user u' d"] f(4,5) d' by simp
qed

end
