(* ===== verification/RefreshFacts.thy ===== *)
theory RefreshFacts
  imports ServiceFacts UserCrudFacts
begin

text \<open>
  What bringing a user in line with a service leaves: one proxy for every protocol the service allows,
  without the inbounds the service does not have; and that a refresh writes the rows of the service's
  users and no others.
\<close>

text \<open>
  What holds of a session through creating and modifying a user and through applying a service to one.
  The locale states what a predicate on sessions has to survive: writing the object, creating an
  inbound, changing the object, and marking proxies for deletion. The functions of \<open>UserCrud\<close> are
  composed of these. \<open>ok_service\<close> are the services the object may be given.
\<close>

section \<open>The proxies that will be stored\<close>

lemma live_flush [session_simps]: "live_proxies (flush_obj s) = live_proxies s"
  "proxies (obj (flush_obj s)) = live_proxies s" "uid (obj (flush_obj s)) = uid (obj s)"
  "service_id (obj (flush_obj s)) = service_id (obj s)" "doomed (flush_obj s) = []"
  by (simp_all add: flush_obj_def live_proxies_def Let_def)

lemma live_get_or_create [session_simps]:
  "live_proxies (get_or_create_inbound tag s) = live_proxies s"
  "uid (obj (get_or_create_inbound tag s)) = uid (obj s)"
  "set (doomed (get_or_create_inbound tag s)) \<subseteq> set (doomed s)"
  by (simp_all add: get_or_create_inbound_def Let_def live_proxies_def flush_obj_def)

lemma live_get_or_create_all [session_simps]:
  "live_proxies (fold get_or_create_inbound tags s) = live_proxies s"
  "uid (obj (fold get_or_create_inbound tags s)) = uid (obj s)"
  "set (doomed (fold get_or_create_inbound tags s)) \<subseteq> set (doomed s)"
proof (induction tags arbitrary: s)
  case (Cons t tags)
  { case 1 then show ?case using Cons(1) by (simp add: live_get_or_create) }
  { case 2 then show ?case using Cons(2) by (simp add: live_get_or_create) }
  { case 3 then show ?case using Cons(3) [of "get_or_create_inbound t s"] live_get_or_create(3) [of t s] by auto }
qed simp_all

lemma live_change [session_simps]:
  assumes "\<And>x. ptype (f x) = ptype x"
  shows "live_proxies (change_obj (change_proxy p f) s) = update_where (\<lambda>x. ptype x = p) f (live_proxies s)"
proof -
  have "filter (\<lambda>x. ptype x \<notin> D) (update_where (\<lambda>x. ptype x = p) f xs) =
      update_where (\<lambda>x. ptype x = p) f (filter (\<lambda>x. ptype x \<notin> D) xs)" for D xs
    using assms by (induction xs) (auto simp: update_where_def)
  then show ?thesis by (simp add: live_proxies_def change_obj_def change_proxy_def)
qed

lemma live_add [session_simps]: "p \<notin> set (doomed s) \<Longrightarrow>
    live_proxies (change_obj (add_proxy p st) s) =
      live_proxies s @ [\<lparr>ptype = p, psettings = st, pexcluded = []\<rparr>]"
  by (simp add: live_proxies_def change_obj_def add_proxy_def)

definition excluded_tags :: "environment \<Rightarrow> proxy_type \<times> string list \<Rightarrow> string list" where
  "excluded_tags env pt =
     sort (remdups (filter (\<lambda>t. t \<notin> set (snd pt)) (tags_of_protocol (core env) (fst pt))))"

lemma set_excluded_tags: "set (excluded_tags env (p, tags)) = set (tags_of_protocol (core env) p) - set tags"
  by (auto simp: excluded_tags_def)

section \<open>One protocol\<close>

lemma updated_proxy:
  assumes "x \<in> set (update_where (\<lambda>x. ptype x = p) f xs)" and "\<And>x. ptype (f x) = ptype x"
  shows "ptype x \<noteq> p \<Longrightarrow> x \<in> set xs" and "ptype x = p \<Longrightarrow> \<exists>y \<in> set xs. x = f y"
proof -
  obtain y where "y \<in> set xs" "x = (if ptype y = p then f y else y)"
    using assms(1) by (auto simp: update_where_def)
  then show "ptype x \<noteq> p \<Longrightarrow> x \<in> set xs" "ptype x = p \<Longrightarrow> \<exists>y \<in> set xs. x = f y"
    using assms(2) [of y] by (simp_all split: if_splits) blast
qed

lemma apply_protocol_live:
  assumes res: "apply_protocol env existing (p, tags) s = (Inr (), s')" and p: "p \<notin> set (doomed s)"
  shows "map ptype (live_proxies s') = map ptype (live_proxies s) @ (if p \<in> set existing then [] else [p])"
    and "x \<in> set (live_proxies s') \<Longrightarrow> ptype x = p \<Longrightarrow> pexcluded x = excluded_tags env (p, tags)"
    and "x \<in> set (live_proxies s') \<Longrightarrow> ptype x \<noteq> p \<Longrightarrow> x \<in> set (live_proxies s)"
    and "uid (obj s') = uid (obj s)" and "set (doomed s') \<subseteq> set (doomed s)"
proof -
  let ?ex = "excluded_tags env (p, tags)"
  obtain st where s': "s' = change_obj (change_proxy p (\<lambda>x. x\<lparr>pexcluded := ?ex\<rparr>))
      (fold get_or_create_inbound ?ex (change_obj (if p \<in> set existing
        then change_proxy p (\<lambda>x. x\<lparr>psettings := st\<rparr>) else add_proxy p st) s))"
    using res by (auto simp: apply_protocol_def Let_def pure_step_def excluded_tags_def
        split: option.splits sum.splits if_splits)
  let ?mid = "change_obj (if p \<in> set existing
        then change_proxy p (\<lambda>x. x\<lparr>psettings := st\<rparr>) else add_proxy p st) s"
  have live: "live_proxies s' = update_where (\<lambda>x. ptype x = p) (\<lambda>x. x\<lparr>pexcluded := ?ex\<rparr>)
      (if p \<in> set existing then update_where (\<lambda>x. ptype x = p) (\<lambda>x. x\<lparr>psettings := st\<rparr>) (live_proxies s)
       else live_proxies s @ [\<lparr>ptype = p, psettings = st, pexcluded = []\<rparr>])"
    using p unfolding s' by (simp add: session_simps)
  have "map ptype (update_where (\<lambda>x. ptype x = p) f xs) = map ptype xs"
    if "\<And>x. ptype (f x) = ptype x" for f and xs :: "proxy list"
    using that by (induction xs) (auto simp: update_where_def)
  then show "map ptype (live_proxies s') = map ptype (live_proxies s) @ (if p \<in> set existing then [] else [p])"
    by (simp add: live)
  show "x \<in> set (live_proxies s') \<Longrightarrow> ptype x = p \<Longrightarrow> pexcluded x = ?ex"
    unfolding live by (drule updated_proxy(2)) (simp, assumption, erule bexE, simp)
  show "x \<in> set (live_proxies s') \<Longrightarrow> ptype x \<noteq> p \<Longrightarrow> x \<in> set (live_proxies s)"
    unfolding live by (drule updated_proxy(1), simp, assumption)
      (auto split: if_splits dest: updated_proxy(1) [of _ p "\<lambda>x. x\<lparr>psettings := st\<rparr>"])
  show "uid (obj s') = uid (obj s)" unfolding s'
    by (simp add: session_simps change_obj_def change_proxy_def add_proxy_def)
  show "set (doomed s') \<subseteq> set (doomed s)" unfolding s'
    using live_get_or_create_all(3) [of ?ex ?mid] by (simp add: change_obj_def)
qed

section \<open>All protocols of the service\<close>

lemma filter_types: "ptype ` {x \<in> X. ptype x \<in> A} = ptype ` X \<inter> A"
  by auto

lemma apply_protocols_live:
  assumes "run_all (apply_protocol env existing) allowed s = (Inr (), s')"
    and "distinct (map fst allowed)" and "set (doomed s) \<inter> fst ` set allowed = {}"
    and "\<And>p. p \<in> fst ` set allowed \<Longrightarrow> p \<in> set existing \<longleftrightarrow> p \<in> ptype ` set (live_proxies s)"
  shows "ptype ` set (live_proxies s') = ptype ` set (live_proxies s) \<union> fst ` set allowed \<and>
    (\<forall>x \<in> set (live_proxies s'). \<forall>pt \<in> set allowed. ptype x = fst pt \<longrightarrow> pexcluded x = excluded_tags env pt) \<and>
    (\<forall>x \<in> set (live_proxies s'). ptype x \<notin> fst ` set allowed \<longrightarrow> x \<in> set (live_proxies s)) \<and>
    uid (obj s') = uid (obj s)"
  using assms
proof (induction allowed arbitrary: s)
  case Nil
  then show ?case by simp
next
  case (Cons pt allowed)
  obtain p tags where pt: "pt = (p, tags)" by force
  obtain s1 where s1: "apply_protocol env existing (p, tags) s = (Inr (), s1)"
    and rest: "run_all (apply_protocol env existing) allowed s1 = (Inr (), s')"
    using Cons.prems(1) by (auto simp: pt split: prod.splits sum.splits)
  have p: "p \<notin> set (doomed s)" "p \<notin> fst ` set allowed" using Cons.prems(2,3) pt by auto
  note step = apply_protocol_live [OF s1 p(1)]
  have types: "ptype ` set (live_proxies s1) = insert p (ptype ` set (live_proxies s))"
  proof -
    have "set (map ptype (live_proxies s1)) = set (map ptype (live_proxies s)) \<union> (if p \<in> set existing then {} else {p})"
      unfolding step(1) by simp
    then show ?thesis using Cons.prems(4) [of p] pt by auto
  qed
  have "ptype ` set (live_proxies s') = ptype ` set (live_proxies s1) \<union> fst ` set allowed \<and>
    (\<forall>x \<in> set (live_proxies s'). \<forall>pt \<in> set allowed. ptype x = fst pt \<longrightarrow> pexcluded x = excluded_tags env pt) \<and>
    (\<forall>x \<in> set (live_proxies s'). ptype x \<notin> fst ` set allowed \<longrightarrow> x \<in> set (live_proxies s1)) \<and>
    uid (obj s') = uid (obj s1)"
  proof (rule Cons.IH [OF rest])
    show "distinct (map fst allowed)" using Cons.prems(2) by simp
    show "set (doomed s1) \<inter> fst ` set allowed = {}" using Cons.prems(3) step(5) by auto
    fix q assume "q \<in> fst ` set allowed"
    then show "q \<in> set existing \<longleftrightarrow> q \<in> ptype ` set (live_proxies s1)"
      using Cons.prems(4) [of q] types p(2) by auto
  qed
  then show ?case using types step(2-4) p(2) unfolding pt by auto
qed

text \<open>The user as \<open>apply_service_to_user\<close> leaves it, once flushed.\<close>

lemma applied_service:
  assumes res: "apply_service_to_user env now True svc allowed s = (Inr (), s')"
    and allowed: "distinct (map fst allowed)" and s: "doomed s = []"
  shows "ptype ` set (live_proxies s') = fst ` set allowed"
    and "x \<in> set (live_proxies s') \<Longrightarrow> (p, tags) \<in> set allowed \<Longrightarrow> ptype x = p \<Longrightarrow>
      pexcluded x = excluded_tags env (p, tags)"
    and "uid (obj s') = uid (obj s)" and "service_id (obj s') = Some (sid svc)"
proof -
  let ?types = "map ptype (proxies (obj s))"
  let ?rej = "filter (\<lambda>p. p \<notin> fst ` set allowed) ?types"
  let ?ex = "filter (\<lambda>p. p \<in> fst ` set allowed) ?types"
  obtain s1 where loop: "run_all (apply_protocol env ?ex) allowed (s\<lparr>doomed := ?rej\<rparr>) = (Inr (), s1)"
    and s': "s' = change_obj (\<lambda>u. u\<lparr>service_id := Some (sid svc), edit_at := Some now\<rparr>) s1"
    using res s by (auto simp: apply_service_to_user_def Let_def and_then_Inr pure_step_def)
  have live0: "live_proxies (s\<lparr>doomed := ?rej\<rparr>) = filter (\<lambda>x. ptype x \<in> fst ` set allowed) (proxies (obj s))"
    by (auto simp: live_proxies_def intro!: filter_cong)
  have l: "ptype ` set (live_proxies s1) = ptype ` set (live_proxies (s\<lparr>doomed := ?rej\<rparr>)) \<union> fst ` set allowed \<and>
    (\<forall>x \<in> set (live_proxies s1). \<forall>pt \<in> set allowed. ptype x = fst pt \<longrightarrow> pexcluded x = excluded_tags env pt) \<and>
    (\<forall>x \<in> set (live_proxies s1). ptype x \<notin> fst ` set allowed \<longrightarrow> x \<in> set (live_proxies (s\<lparr>doomed := ?rej\<rparr>))) \<and>
    uid (obj s1) = uid (obj (s\<lparr>doomed := ?rej\<rparr>))"
    by (rule apply_protocols_live [OF loop allowed]) (simp_all add: live0 filter_types, blast)
  have e: "live_proxies s' = live_proxies s1" by (simp add: s' live_proxies_def change_obj_def)
  show "ptype ` set (live_proxies s') = fst ` set allowed" using l live0 e by auto
  show "x \<in> set (live_proxies s') \<Longrightarrow> (p, tags) \<in> set allowed \<Longrightarrow> ptype x = p \<Longrightarrow>
      pexcluded x = excluded_tags env (p, tags)" using l e by fastforce
  show "uid (obj s') = uid (obj s)" "service_id (obj s') = Some (sid svc)"
    using l by (simp_all add: s' change_obj_def)
qed

section \<open>The tables\<close>

text \<open>A session writes no row but that of its object.\<close>

definition same_others :: "int \<Rightarrow> db \<Rightarrow> db \<Rightarrow> bool" where
  "same_others k d d' \<longleftrightarrow> map uid (users d') = map uid (users d) \<and> services d' = services d \<and>
     (\<forall>j. j \<noteq> k \<longrightarrow> fetch_user j (users d') = fetch_user j (users d)) \<and>
     (\<forall>h \<in> set (hosts d). h \<in> set (hosts d')) \<and>
     (\<forall>i h. fetch_host i (hosts d) = Some h \<longrightarrow> fetch_host i (hosts d') = Some h)"

lemma same_others_refl [simp]: "same_others k d d"
  by (simp add: same_others_def)

lemma same_others_trans: "same_others k d e \<Longrightarrow> same_others k e f \<Longrightarrow> same_others k d f"
  by (simp add: same_others_def)

lemma same_others_save: "same_others (uid u) d (save_user u d)"
  by (simp add: same_others_def map_key_store_by fetch_by_store_by)

lemma same_others_create: "same_others k d (create_inbound_row tag d)"
  by (auto simp: same_others_def create_inbound_row_def fetch_append split: option.split)

text \<open>Its object keeps its key.\<close>

definition session_keeps :: "db \<Rightarrow> int \<Rightarrow> session \<Rightarrow> bool" where
  "session_keeps d k s \<longleftrightarrow> uid (obj s) = k \<and> same_others k d (committed s)"

lemma session_keeps_flush: "session_keeps d k s \<Longrightarrow> session_keeps d k (flush_obj s)"
  using same_others_trans [of k d "committed s"] same_others_save [of "(obj s)\<lparr>proxies := live_proxies s\<rparr>" "committed s"]
  by (auto simp: session_keeps_def flush_obj_def Let_def)

lemma session_keeps_create: "session_keeps d k s \<Longrightarrow> session_keeps d k (get_or_create_inbound tag s)"
  using session_keeps_flush [of d k s] same_others_trans same_others_create
  by (auto simp: get_or_create_inbound_def session_keeps_def Let_def)

lemma session_keeps_creates: "session_keeps d k s \<Longrightarrow> session_keeps d k (fold get_or_create_inbound tags s)"
  by (induction tags arbitrary: s) (simp_all add: session_keeps_create)

lemma session_keeps_change: "session_keeps d k s \<Longrightarrow> (\<And>u. uid (f u) = uid u) \<Longrightarrow> session_keeps d k (change_obj f s)"
  by (simp add: session_keeps_def change_obj_def)

lemma session_keeps_doomed: "session_keeps d k s \<Longrightarrow> session_keeps d k (s\<lparr>doomed := ps\<rparr>)"
  by (simp add: session_keeps_def)

lemma session_keeps_protocol: "session_keeps d k s \<Longrightarrow> session_keeps d k (snd (apply_protocol env existing pt s))"
  by (cases pt) (auto simp: apply_protocol_def Let_def pure_step_def change_proxy_def add_proxy_def
      intro!: session_keeps_change session_keeps_creates split: option.split sum.split)

lemma session_keeps_apply:
  "session_keeps d k s \<Longrightarrow> session_keeps d k (snd (apply_service_to_user env now True svc allowed s))"
  by (auto simp: apply_service_to_user_def Let_def pure_step_def
      intro!: and_then_keeps [of "session_keeps d k"] run_all_keeps [of "session_keeps d k"]
        session_keeps_protocol session_keeps_change session_keeps_doomed)

text \<open>The row of a user that is in line with a service.\<close>

definition in_line :: "environment \<Rightarrow> service \<Rightarrow> (proxy_type \<times> string list) list \<Rightarrow> user \<Rightarrow> bool" where
  "in_line env svc allowed u \<longleftrightarrow> service_id u = Some (sid svc) \<and>
     ptype ` set (proxies u) = fst ` set allowed \<and>
     (\<forall>x \<in> set (proxies u). \<forall>(p, tags) \<in> set allowed. ptype x = p \<longrightarrow>
        pexcluded x = excluded_tags env (p, tags))"

lemma refresh_one_result:
  assumes res: "refresh_one env now svc allowed u t = (Inr v, t')" and allowed: "distinct (map fst allowed)"
    and u: "fetch_user (uid u) (users (working t)) \<noteq> None"
  shows "in_line env svc allowed v \<and> uid v = uid u \<and> fetch_user (uid u) (users (working t')) = Some v \<and>
    same_others (uid u) (working t) (working t')"
proof -
  let ?s0 = "\<lparr>committed = working t, obj = u, doomed = []\<rparr>"
  obtain s where s: "apply_service_to_user env now True svc allowed ?s0 = (Inr (), s)"
    and v: "v = obj (flush_obj s)" and t': "working t' = committed (flush_obj s)"
    using res by (auto simp: refresh_one_def Let_def split: prod.splits sum.splits)
  note a = applied_service [OF s allowed]
  have "session_keeps (working t) (uid u) s"
    using session_keeps_apply [of "working t" "uid u" ?s0 env now svc allowed] s
    by (simp add: session_keeps_def)
  then have k: "session_keeps (working t) (uid u) (flush_obj s)" by (rule session_keeps_flush)
  have v_eq: "v = (obj s)\<lparr>proxies := live_proxies s\<rparr>" by (simp add: v flush_obj_def Let_def)
  have "in_line env svc allowed v" using a unfolding in_line_def v_eq by (simp, blast)
  moreover have "uid v = uid u" using a(3) v_eq by simp
  moreover have "fetch_user (uid u) (users (working t')) = Some v"
  proof -
    have "session_keeps (working t) (uid u) s" by fact
    then have "map uid (users (committed s)) = map uid (users (working t))"
      by (simp add: session_keeps_def same_others_def)
    then have "fetch_user (uid u) (users (committed s)) \<noteq> None"
      using u by (metis fetch_by_None list.set_map)
    then show ?thesis using a(3) unfolding t' v
      by (simp add: flush_obj_def Let_def fetch_by_store_by)
  qed
  moreover have "same_others (uid u) (working t) (working t')" using k t' by (simp add: session_keeps_def)
  ultimately show ?thesis by blast
qed

lemma refresh_all_result:
  assumes "op_each (refresh_one env now svc allowed) us t = (Inr vs, t')" and "distinct (map fst allowed)"
    and "distinct (map uid us)" and "\<And>u. u \<in> set us \<Longrightarrow> fetch_user (uid u) (users (working t)) \<noteq> None"
  shows "(\<forall>u \<in> set us. \<exists>v. fetch_user (uid u) (users (working t')) = Some v \<and> in_line env svc allowed v) \<and>
    (\<forall>j. j \<notin> uid ` set us \<longrightarrow> fetch_user j (users (working t')) = fetch_user j (users (working t))) \<and>
    services (working t') = services (working t)"
  using assms
proof (induction us arbitrary: t vs)
  case Nil
  then show ?case by (simp add: op_return_def)
next
  case (Cons u us)
  obtain v t1 ws where one: "refresh_one env now svc allowed u t = (Inr v, t1)"
    and rest: "op_each (refresh_one env now svc allowed) us t1 = (Inr ws, t')"
    using Cons.prems(1) by (auto simp: op_bind_def op_return_def split: prod.splits sum.splits)
  have r: "in_line env svc allowed v \<and> uid v = uid u \<and> fetch_user (uid u) (users (working t1)) = Some v \<and>
      same_others (uid u) (working t) (working t1)"
    using Cons.prems(4) by (intro refresh_one_result [OF one Cons.prems(2)]) simp
  have ih: "(\<forall>u \<in> set us. \<exists>v. fetch_user (uid u) (users (working t')) = Some v \<and> in_line env svc allowed v) \<and>
    (\<forall>j. j \<notin> uid ` set us \<longrightarrow> fetch_user j (users (working t')) = fetch_user j (users (working t1))) \<and>
    services (working t') = services (working t1)"
  proof (rule Cons.IH [OF rest Cons.prems(2)])
    show "distinct (map uid us)" using Cons.prems(3) by simp
    fix w assume w: "w \<in> set us"
    then have "uid w \<noteq> uid u" using Cons.prems(3) by (metis distinct.simps(2) image_eqI list.set_map list.simps(9))
    then show "fetch_user (uid w) (users (working t1)) \<noteq> None"
      using r Cons.prems(4) [of w] w by (simp add: same_others_def)
  qed
  moreover have "uid u \<notin> uid ` set us" using Cons.prems(3) by simp
  ultimately show ?case using r by (auto simp: same_others_def)
qed

lemma allowed_keys_distinct: "distinct (map fst allowed) \<Longrightarrow> distinct (map fst (allowed_from_links cfg hs ls allowed))"
  by (induction cfg hs ls allowed rule: allowed_from_links.induct)
    (auto simp: allow_tag_def distinct_update split: option.split)

lemma compute_allowed_distinct: "distinct (map fst (compute_allowed_inbounds cfg hs svc))"
  by (simp add: compute_allowed_inbounds_def allowed_keys_distinct)

lemma refreshed_users:
  assumes res: "outcome (refresh_and_commit env now i) d = (Inr us, d')"
    and svc: "get_service d i = Some svc" and uids: "distinct (map uid (users d))"
  shows "u \<in> set (users d) \<Longrightarrow> service_id u = Some i \<Longrightarrow> status u \<noteq> Deleted \<Longrightarrow>
      \<exists>v. fetch_user (uid u) (users d') = Some v \<and>
        in_line env svc (compute_allowed_inbounds (core env) (hosts d) svc) v"
    and "(\<And>u. u \<in> set (users d) \<Longrightarrow> uid u = j \<Longrightarrow> service_id u = Some i \<Longrightarrow> status u = Deleted) \<Longrightarrow>
      fetch_user j (users d') = fetch_user j (users d)"
    and "services d' = services d"
proof -
  let ?allowed = "compute_allowed_inbounds (core env) (hosts d) svc"
  let ?us = "filter (\<lambda>u. status u \<noteq> Deleted) (service_users d i)"
  have i: "sid svc = i" using get_service_row [OF svc] by simp
  obtain vs t where t: "op_each (refresh_one env now svc ?allowed) ?us (begin_txn d) = (Inr vs, t)"
    and d': "d' = working t"
    using res svc i by (auto simp: outcome_def refresh_and_commit_def refresh_by_id_def refresh_users_def
        begin_txn_def op_bind_def op_commit_def op_return_def split: prod.splits sum.splits)
  have us: "set ?us \<subseteq> set (users d)" by (auto simp: service_users_def)
  have all: "(\<forall>u \<in> set ?us. \<exists>v. fetch_user (uid u) (users (working t)) = Some v \<and> in_line env svc ?allowed v) \<and>
    (\<forall>j. j \<notin> uid ` set ?us \<longrightarrow> fetch_user j (users (working t)) = fetch_user j (users (working (begin_txn d)))) \<and>
    services (working t) = services (working (begin_txn d))"
  proof (rule refresh_all_result [OF t compute_allowed_distinct])
    show "distinct (map uid ?us)" using uids by (simp add: service_users_def distinct_map_filter)
    fix u assume "u \<in> set ?us"
    then show "fetch_user (uid u) (users (working (begin_txn d))) \<noteq> None"
      by (simp add: begin_txn_def fetch_by_None service_users_def)
  qed
  show "u \<in> set (users d) \<Longrightarrow> service_id u = Some i \<Longrightarrow> status u \<noteq> Deleted \<Longrightarrow>
      \<exists>v. fetch_user (uid u) (users d') = Some v \<and> in_line env svc ?allowed v"
    using all by (simp add: d' service_users_def)
  show "(\<And>u. u \<in> set (users d) \<Longrightarrow> uid u = j \<Longrightarrow> service_id u = Some i \<Longrightarrow> status u = Deleted) \<Longrightarrow>
      fetch_user j (users d') = fetch_user j (users d)"
  proof -
    assume "\<And>u. u \<in> set (users d) \<Longrightarrow> uid u = j \<Longrightarrow> service_id u = Some i \<Longrightarrow> status u = Deleted"
    then have "j \<notin> uid ` set ?us" by (auto simp: service_users_def)
    then show ?thesis using all by (simp add: d' begin_txn_def)
  qed
  show "services d' = services d" using all by (simp add: d' begin_txn_def)
qed

lemma modify_fields_service: "service_id (modify_fields now m u) = service_id u"
proof -
  have "service_id (modify_plans m u) = service_id u" for u
    by (simp add: modify_plans_def split: option.split)
  moreover have "service_id (modify_settings m u) = service_id u" for u
    by (simp add: modify_settings_def Let_def split: option.split)
  moreover have "service_id (modify_contact m u) = service_id u" for u
    by (simp add: modify_contact_def Let_def split: option.split)
  moreover have "service_id (modify_expire now m u) = service_id u" for u
    by (simp add: modify_expire_def Let_def)
  moreover have "service_id (modify_limit m u) = service_id u" for u
    by (simp add: modify_limit_def Let_def)
  ultimately show ?thesis by (simp add: modify_fields_def Let_def split: option.split)
qed

locale session_predicate =
  fixes P :: "session \<Rightarrow> bool" and ok_service :: "int option \<Rightarrow> bool"
  assumes flush: "P s \<Longrightarrow> P (flush_obj s)"
    and create: "P s \<Longrightarrow> P (s\<lparr>committed := create_inbound_row tag (committed s)\<rparr>)"
    and change: "P s \<Longrightarrow> (\<And>u. uid (f u) = uid u \<and> (service_id (f u) = service_id u \<or> ok_service (service_id (f u)))) \<Longrightarrow>
      P (change_obj f s)"
    and doom: "P s \<Longrightarrow> P (s\<lparr>doomed := ps\<rparr>)"
    and no_service: "ok_service None"
begin

lemma inbound: "P s \<Longrightarrow> P (get_or_create_inbound tag s)"
  using create [OF flush] by (simp add: get_or_create_inbound_def Let_def)

lemma inbounds: "P s \<Longrightarrow> P (fold get_or_create_inbound tags s)"
  by (induction tags arbitrary: s) (simp_all add: inbound)

lemma change_proxies: "P s \<Longrightarrow> P (change_obj (change_proxy p f) s)" "P s \<Longrightarrow> P (change_obj (add_proxy p st) s)"
  by (rule change; simp add: change_proxy_def add_proxy_def)+

lemma pure_proxies: "P s \<Longrightarrow> P (snd (pure_step (change_proxy p f) s))"
  "P s \<Longrightarrow> P (snd (pure_step (add_proxy p st) s))" "P s \<Longrightarrow> P (snd (pure_step id s))"
  by (simp_all add: pure_step_def change_proxies change)

lemma protocol: "P s \<Longrightarrow> P (snd (apply_protocol env existing pt s))"
  by (cases pt) (simp add: apply_protocol_def Let_def pure_proxies inbounds change_proxies
      split: option.split sum.split)

lemma applied:
  assumes "P s" and "ok_service (Some (sid svc))"
  shows "P (snd (apply_service_to_user env now persistent svc allowed s))"
proof -
  have "P (snd (pure_step (\<lambda>u. u\<lparr>service_id := Some (sid svc), edit_at := Some now\<rparr>) t))" if "P t" for t
    using that assms(2) by (simp add: pure_step_def change)
  then show ?thesis using assms(1)
    by (auto simp: apply_service_to_user_def Let_def
        intro!: and_then_keeps [of P] run_all_keeps [of P] protocol doom)
qed

lemma proxies: "P s \<Longrightarrow> P (snd (modify_proxies env m s))"
proof -
  have "P (snd (modify_proxy env pst t))" if "P t" for pst t
    using that by (cases pst) (simp add: modify_proxy_def Let_def pure_proxies split: option.split sum.split)
  then show "P s \<Longrightarrow> P (snd (modify_proxies env m s))"
    by (auto simp: modify_proxies_def doom intro!: and_then_keeps [of P] run_all_keeps [of P])
qed

lemma excluded: "P s \<Longrightarrow> P (fold modify_excluded xs s)"
proof (induction xs arbitrary: s)
  case (Cons x xs)
  then have "P (modify_excluded x s)"
    by (cases x) (simp add: modify_excluded_def change_proxies inbounds)
  then show ?case using Cons.IH by simp
qed simp

lemma fields: "P s \<Longrightarrow> P (snd (pure_step (modify_fields now m) s))"
  by (simp add: pure_step_def change modify_fields_owner modify_fields_service)

lemma set_service:
  assumes "P s" and "\<And>sv. svc = Some sv \<Longrightarrow> ok_service (Some (sid sv))"
  shows "P (snd (set_service env now svc service_set s))"
proof -
  have "P (snd (pure_step (\<lambda>u. u\<lparr>service_id := None\<rparr>) s))"
    using assms(1) by (simp add: pure_step_def change no_service)
  then show ?thesis using assms pure_proxies(3) applied
    by (cases svc) (simp_all add: set_service_def)
qed

text \<open>The tables after a modification are those of such a session, but for a link of the admin.\<close>

lemma update:
  assumes start: "P \<lparr>committed = d, obj = u, doomed = []\<rparr>"
    and svc: "\<And>sv. svc = Some sv \<Longrightarrow> ok_service (Some (sid sv))"
  obtains s where "P s" and "snd (update_user env now d u m svc service_set a) = committed s \<or>
    (\<exists>sv. svc = Some sv \<and> snd (update_user env now d u m svc service_set a) =
      ensure_admin_service_link a sv (committed s))"
proof -
  let ?s = "\<lparr>committed = d, obj = u, doomed = []\<rparr>"
  let ?run = "and_then (modify_proxies env m)
        (and_then (\<lambda>s. (Inr (), fold modify_excluded (modify_excluded_inbounds (core env) m) s))
        (and_then (pure_step (modify_fields now m))
        (and_then (UserCrud.set_service env now svc service_set) (check_activation (status u)))))"
  have run: "P (snd (?run ?s))"
    using start svc by (intro and_then_keeps [of P] proxies set_service fields)
      (auto intro: excluded simp: check_activation_def)
  obtain r s where rs: "?run ?s = (r, s)" by force
  let ?s' = "flush_obj (change_obj (\<lambda>u. u\<lparr>edit_at := Some now\<rparr>) s)"
  have s: "P s" using run rs by simp
  then have s': "P ?s'" by (intro flush change) simp_all
  show thesis
  proof (cases r)
    case Inl
    then show ?thesis using rs s by (intro that [of s]) (simp_all add: update_user_def)
  next
    case Inr
    then show ?thesis using rs s'
      by (intro that [of ?s']) (auto simp: update_user_def Let_def split: option.split)
  qed
qed

lemma create_user:
  assumes start: "P \<lparr>committed = d, obj = created_row now i m a (created_key env m) [], doomed = []\<rparr>"
    and svc: "\<And>sv. svc = Some sv \<Longrightarrow> ok_service (Some (sid sv))"
  obtains s where "P s" and "snd (create_user env now i d m a svc) \<in> {d, committed s} \<or>
    (\<exists>d' \<in> insert (committed s) {ensure_admin_service_link a sv (committed s) | sv. svc = Some sv}.
       snd (create_user env now i d m a svc) = d'\<lparr>users := users d' @ [obj s]\<rparr>)"
proof -
  have "P (snd (create_proxy env key m pst t))" if "P t" for key pst t
  proof -
    have "P (snd (pure_step (\<lambda>u. u\<lparr>proxies := proxies u @ xs\<rparr>) t'))" if "P t'" for xs t'
      using that by (simp add: pure_step_def change)
    then show ?thesis using that by (cases pst) (simp add: create_proxy_def Let_def inbounds split: sum.split)
  qed
  moreover have "P (snd (create_service env now svc t))" if "P t" for t
    using that svc pure_proxies(3) applied by (cases svc) (simp_all add: create_service_def)
  ultimately have draft: "P (snd (create_draft env now i d m a svc))"
    unfolding create_draft_def using start
    by (auto intro!: and_then_keeps [of P] run_all_keeps [of P])
  obtain r s where rs: "create_draft env now i d m a svc = (r, s)" by force
  then have "P s" using draft by simp
  then show thesis using rs
    by (intro that [of s]) (auto simp: UserCrud.create_user_def Let_def split: sum.split option.split)
qed

end

text \<open>A session keeps the key of its object and writes no other row.\<close>

interpretation kept: session_predicate "session_keeps d k" "\<lambda>_. True" for d k
proof unfold_locales
  show "session_keeps d k s \<Longrightarrow>
      session_keeps d k (s\<lparr>committed := create_inbound_row tag (committed s)\<rparr>)" for s tag
    by (auto simp: session_keeps_def intro: same_others_trans same_others_create)
qed (simp_all add: session_keeps_flush session_keeps_change session_keeps_doomed)

end
