(* ===== verification/UsageJob.thy ===== *)
theory UsageJob
  imports Quota Admins
begin

text \<open>
  The usage recording job: \<open>app/jobs/usage/user_usage.py\<close>, with \<open>collectors.py\<close> and \<open>utils.py\<close>
  beside it. It adds up the traffic the cores report, writes it to users, admins, services and
  links, and moves users over their data or time limit. Parameters: \<open>scale\<close> is
  \<open>int(value * coefficient)\<close>, \<open>notify\<close> says whether updating Xray and sending the reports of a
  renewed user succeed, \<open>clock\<close> is the time at which a user is processed, and the outcomes of the
  statements are given per attempt.
\<close>

section \<open>Collecting\<close>

text \<open>\<open>get_users_stats\<close>: the part of a name before the first dot is the user.\<close>

record stat =
  stat_name :: string
  stat_value :: int

definition account_of :: "string \<Rightarrow> string" where
  "account_of name = takeWhile (\<lambda>c. c \<noteq> CHR ''.'') name"

definition get_users_stats :: "stat list option \<Rightarrow> (string \<times> int) list" where
  "get_users_stats stats = (case stats of None \<Rightarrow> []
   | Some xs \<Rightarrow> fold (\<lambda>s. dict_add (account_of (stat_name s)) (stat_value s))
       (filter (\<lambda>s. stat_value s \<noteq> 0) xs) [])"

type_synonym node_id = "int option"

definition add_node_usage :: "('c \<Rightarrow> int \<Rightarrow> int) \<Rightarrow> 'c option \<Rightarrow> ('u \<times> int) list \<Rightarrow>
    ('u \<times> int) list \<Rightarrow> ('u \<times> int) list" where
  "add_node_usage scale coefficient params acc =
     fold (\<lambda>(u, v). dict_add u (case coefficient of None \<Rightarrow> v | Some c \<Rightarrow> scale c v)) params acc"

definition aggregate_user_usage :: "('c \<Rightarrow> int \<Rightarrow> int) \<Rightarrow> (node_id \<times> ('u \<times> int) list) list \<Rightarrow>
    (node_id \<Rightarrow> 'c option) \<Rightarrow> ('u \<times> int) list" where
  "aggregate_user_usage scale api_params coefficient =
     fold (\<lambda>(n, params). add_node_usage scale (coefficient n) params) api_params []"

section \<open>Aggregates\<close>

record usage_totals =
  admin_usage :: "(int \<times> int) list"
  service_usage :: "(int \<times> int) list"
  admin_service_usage :: "((int \<times> int) \<times> int) list"

definition load_user_mapping :: "db \<Rightarrow> int list \<Rightarrow> int \<Rightarrow> (int option \<times> int option) option" where
  "load_user_mapping d ids i =
     (if i \<in> set ids then map_option (\<lambda>u. (admin_id u, service_id u)) (fetch_user i (users d)) else None)"

definition collect_one :: "(int \<Rightarrow> (int option \<times> int option) option) \<Rightarrow> int \<times> int \<Rightarrow>
    usage_totals \<Rightarrow> usage_totals" where
  "collect_one mapping entry t = (case entry of (i, value) \<Rightarrow>
     (case (case mapping i of None \<Rightarrow> (None, None) | Some p \<Rightarrow> p) of (a, s) \<Rightarrow>
       (let t1 = (if truthy a then t\<lparr>admin_usage := dict_add (the a) value (admin_usage t)\<rparr> else t)
        in if truthy s then
             (let t2 = t1\<lparr>service_usage := dict_add (the s) value (service_usage t1)\<rparr>
              in if truthy a
                 then t2\<lparr>admin_service_usage := dict_add (the a, the s) value (admin_service_usage t2)\<rparr>
                 else t2)
           else t1)))"

definition collect_admin_service_usage :: "(int \<times> int) list \<Rightarrow>
    (int \<Rightarrow> (int option \<times> int option) option) \<Rightarrow> usage_totals" where
  "collect_admin_service_usage samples mapping = fold (collect_one mapping) samples
     \<lparr>admin_usage = [], service_usage = [], admin_service_usage = []\<rparr>"

section \<open>Limits and expiry\<close>

definition should_reactivate_on_hold :: "instant \<Rightarrow> user \<Rightarrow> bool" where
  "should_reactivate_on_hold now u =
     (if status u \<noteq> On_hold then False
      else let base = (case edit_at u of Some t \<Rightarrow> t | None \<Rightarrow> created_at u) in
        if (case online_at u of None \<Rightarrow> False | Some t \<Rightarrow> t \<ge> base) then True
        else (case on_hold_timeout u of None \<Rightarrow> False | Some t \<Rightarrow> t \<le> now))"

definition apply_on_hold_activation :: "instant \<Rightarrow> user \<Rightarrow> user" where
  "apply_on_hold_activation now u = u\<lparr>status := Active, last_status_change := Some now,
     expire := (case on_hold_expire_duration u of None \<Rightarrow> expire u
       | Some dur \<Rightarrow> Some (int_timestamp now + dur)),
     on_hold_expire_duration := None, on_hold_timeout := None\<rparr>"

definition over_limit :: "user \<Rightarrow> bool" where
  "over_limit u = (case data_limit u of None \<Rightarrow> False | Some l \<Rightarrow> l \<noteq> 0 \<and> used_traffic u \<ge> l)"

definition over_time :: "instant \<Rightarrow> user \<Rightarrow> bool" where
  "over_time now u = (case expire u of None \<Rightarrow> False | Some e \<Rightarrow> e \<noteq> 0 \<and> secs_le_now e now)"

definition plan_triggers :: "bool \<Rightarrow> bool \<Rightarrow> user \<Rightarrow> next_plan \<Rightarrow> bool" where
  "plan_triggers limited expired u plan =
     (if start_on_first_connect plan \<and> online_at u = None \<and> used_traffic u = 0 then False
      else trigger_on plan = ''either'' \<or> (trigger_on plan = ''data'' \<and> limited) \<or>
        (trigger_on plan = ''expire'' \<and> expired))"

text \<open>
  The session of \<open>_enforce_user_limits_and_expiry\<close>: what is committed, what its queries see (the
  flushed rows too), the objects whose changes are pending, and the two result lists. Writing back
  an object that did not change has no effect.
\<close>

record enforcement =
  ef_committed :: db
  ef_view :: db
  ef_pending :: "user list"
  ef_changed :: "int list"
  ef_activated :: "int list"

definition ef_commit :: "enforcement \<Rightarrow> enforcement" where
  "ef_commit ef = (let d = (ef_view ef)\<lparr>users := fold store_user (ef_pending ef) (users (ef_view ef))\<rparr>
     in ef\<lparr>ef_committed := d, ef_view := d, ef_pending := []\<rparr>)"

definition set_target_status :: "instant \<Rightarrow> bool \<Rightarrow> bool \<Rightarrow> user \<Rightarrow> enforcement \<Rightarrow> enforcement" where
  "set_target_status now_dt limited expired u ef =
     (case (if limited then Some Limited else if expired then Some Expired else None) of
        Some target \<Rightarrow>
          if status u \<noteq> target
          then ef\<lparr>ef_pending := ef_pending ef @ [u\<lparr>status := target, last_status_change := Some now_dt\<rparr>],
                 ef_changed := ef_changed ef @ [uid u]\<rparr>
          else ef\<lparr>ef_pending := ef_pending ef @ [u]\<rparr>
      | None \<Rightarrow> ef\<lparr>ef_pending := ef_pending ef @ [u]\<rparr>)"

text \<open>
  One user of the loop. The next plan commits the whole session; an exception after that commit
  (\<open>notify\<close>) and one before it are both swallowed, and the statuses computed before the plan was
  applied are used.
\<close>

definition enforce_limits :: "instant \<Rightarrow> instant \<Rightarrow> (user \<Rightarrow> bool) \<Rightarrow> user \<Rightarrow> enforcement \<Rightarrow>
    enforcement" where
  "enforce_limits now_dt now notify u ef =
     (let limited = over_limit u; expired = over_time now u in
      if (limited \<or> expired) \<and>
         (case next_plan_of u of None \<Rightarrow> False | Some plan \<Rightarrow> plan_triggers limited expired u plan)
      then (case reset_user_by_next_obj now_dt (ef_view ef) u of
          (Inr applied, u') \<Rightarrow>
            (let ef' = (if applied then ef_commit (ef\<lparr>ef_pending := ef_pending ef @ [u']\<rparr>) else ef)
             in if notify u' then ef'\<lparr>ef_pending := ef_pending ef' @ [u']\<rparr>
                else set_target_status now_dt limited expired u' ef')
        | (Inl _, u') \<Rightarrow> set_target_status now_dt limited expired u' ef)
      else set_target_status now_dt limited expired u ef)"

definition enforce_one :: "(int \<Rightarrow> instant) \<Rightarrow> instant \<Rightarrow> (user \<Rightarrow> bool) \<Rightarrow> user \<Rightarrow>
    enforcement \<Rightarrow> enforcement" where
  "enforce_one clock now notify u ef =
     (if should_reactivate_on_hold now u
      then enforce_limits (clock (uid u)) now notify (apply_on_hold_activation (clock (uid u)) u)
        (ef\<lparr>ef_activated := ef_activated ef @ [uid u]\<rparr>)
      else enforce_limits (clock (uid u)) now notify u ef)"

definition enforce_user_limits_and_expiry :: "(int \<Rightarrow> instant) \<Rightarrow> instant \<Rightarrow> (user \<Rightarrow> bool) \<Rightarrow>
    int list \<Rightarrow> enforcement \<Rightarrow> enforcement" where
  "enforce_user_limits_and_expiry clock now notify ids ef =
     (let ef0 = ef\<lparr>ef_changed := [], ef_activated := []\<rparr> in
      if ids = [] then ef0
      else let ef' = fold (enforce_one clock now notify)
                 (filter (\<lambda>u. uid u \<in> set ids) (users (ef_view ef0))) ef0
           in if ef_changed ef' \<noteq> [] \<or> ef_activated ef' \<noteq> [] then ef_commit ef' else ef')"

definition new_enforcement :: "db \<Rightarrow> db \<Rightarrow> enforcement" where
  "new_enforcement d v = \<lparr>ef_committed = d, ef_view = v, ef_pending = [], ef_changed = [],
     ef_activated = []\<rparr>"

definition due_now :: "instant \<Rightarrow> user \<Rightarrow> bool" where
  "due_now now u = (status u = Active \<and>
     ((case expire u of None \<Rightarrow> False | Some e \<Rightarrow> e > 0 \<and> secs_le_now e now) \<or>
      (case data_limit u of None \<Rightarrow> False | Some l \<Rightarrow> l > 0 \<and> used_traffic u \<ge> l)))"

definition get_due_active_user_ids :: "db \<Rightarrow> instant \<Rightarrow> int \<Rightarrow> int option \<Rightarrow> int list" where
  "get_due_active_user_ids d now batch_size after_id =
     (if batch_size \<le> 0 then []
      else take (nat batch_size) (sort (map uid (filter
        (\<lambda>u. due_now now u \<and> (case after_id of None \<Rightarrow> True | Some i \<Rightarrow> uid u > i)) (users d)))))"

lemma ef_commit_keys: "map uid (users (ef_view (ef_commit ef))) = map uid (users (ef_view ef))"
  by (simp add: ef_commit_def Let_def user_table.fold_store_keys)

lemma set_target_status_view [simp]:
  "ef_view (set_target_status now_dt l x u ef) = ef_view ef"
  "ef_committed (set_target_status now_dt l x u ef) = ef_committed ef"
  by (simp_all add: set_target_status_def split: option.split)

lemma enforce_one_keys:
  "map uid (users (ef_view (enforce_one clock now notify u ef))) = map uid (users (ef_view ef))"
  by (auto simp: enforce_one_def enforce_limits_def Let_def ef_commit_keys split: prod.split sum.split)

lemma enforce_keys: "map uid (users (ef_view (enforce_user_limits_and_expiry clock now notify ids ef))) =
    map uid (users (ef_view ef))"
proof -
  have "map uid (users (ef_view (fold (enforce_one clock now notify) us e))) =
      map uid (users (ef_view e))" for us e
    by (induction us arbitrary: e) (simp_all add: enforce_one_keys)
  then show ?thesis by (simp add: enforce_user_limits_and_expiry_def Let_def ef_commit_keys)
qed

lemma due_ids_in:
  assumes "i \<in> set (get_due_active_user_ids d now b last_id)"
  shows "i \<in> uid ` set (users d) \<and> (\<forall>j. last_id = Some j \<longrightarrow> j < i)"
  using assms
  by (auto simp: get_due_active_user_ids_def split: if_splits option.splits dest!: in_set_takeD)

text \<open>The loop of \<open>_enforce_due_active_users\<close>: the ids left above the last one shrink.\<close>

definition ids_above :: "int option \<Rightarrow> db \<Rightarrow> int set" where
  "ids_above i d = {k \<in> uid ` set (users d). \<forall>j. i = Some j \<longrightarrow> j < k}"

lemma ids_above_shrinks:
  assumes "get_due_active_user_ids d now b i = due" and "due \<noteq> []"
    and "map uid (users d') = map uid (users d)"
  shows "card (ids_above (Some (last due)) d') < card (ids_above i d)"
proof (rule psubset_card_mono)
  have l: "last due \<in> uid ` set (users d) \<and> (\<forall>j. i = Some j \<longrightarrow> j < last due)"
    using due_ids_in [of "last due" d now b i] assms(1,2) by simp
  have k: "uid ` set (users d') = uid ` set (users d)" using assms(3) by (metis list.set_map)
  show "finite (ids_above i d)" by (simp add: ids_above_def)
  have "last due \<in> ids_above i d" using l by (simp add: ids_above_def)
  moreover have "last due \<notin> ids_above (Some (last due)) d'" by (simp add: ids_above_def)
  moreover have "ids_above (Some (last due)) d' \<subseteq> ids_above i d"
    using l k by (auto simp: ids_above_def)
  ultimately show "ids_above (Some (last due)) d' \<subset> ids_above i d" by blast
qed

function enforce_due_loop :: "(int \<Rightarrow> instant) \<Rightarrow> instant \<Rightarrow> (user \<Rightarrow> bool) \<Rightarrow> int \<Rightarrow> int option \<Rightarrow>
    int \<Rightarrow> enforcement \<Rightarrow> int \<times> enforcement" where
  "enforce_due_loop clock now notify batch last_id count ef =
     (let due = get_due_active_user_ids (ef_view ef) now batch last_id in
      if due = [] then (count, ef)
      else let ef' = enforce_user_limits_and_expiry clock now notify due ef;
               count' = count + int (length (ef_changed ef'))
           in if int (length due) < batch then (count', ef')
              else enforce_due_loop clock now notify batch (Some (last due)) count' ef')"
  by pat_completeness auto
termination
  by (relation "measure (\<lambda>(clock, now, notify, batch, i, count, ef). card (ids_above i (ef_view ef)))")
    (simp_all add: ids_above_shrinks enforce_keys)

declare enforce_due_loop.simps [simp del]

definition enforce_due_active_users :: "(int \<Rightarrow> instant) \<Rightarrow> instant \<Rightarrow> (user \<Rightarrow> bool) \<Rightarrow> int \<Rightarrow> db \<Rightarrow>
    int \<times> db" where
  "enforce_due_active_users clock now notify batch d =
     (case enforce_due_loop clock now notify batch None 0 (new_enforcement d d) of
        (count, ef) \<Rightarrow> (count, ef_committed ef))"

section \<open>Statements\<close>

text \<open>
  \<open>safe_execute\<close>: each attempt ends as \<open>outcome\<close> says. A deadlock is retried on MySQL, a timeout
  of the connection pool everywhere, at most \<open>max_retries\<close> attempts in all.
\<close>

datatype exec_outcome = Exec_ok | Deadlock | Pool_timeout | Exec_failed

definition retried :: "bool \<Rightarrow> exec_outcome \<Rightarrow> bool" where
  "retried mysql o' = (o' = Pool_timeout \<or> (mysql \<and> o' = Deadlock))"

fun safe_attempts :: "bool \<Rightarrow> (nat \<Rightarrow> exec_outcome) \<Rightarrow> nat \<Rightarrow> nat \<Rightarrow> bool result" where
  "safe_attempts mysql outcome tries 0 = Inr False"
| "safe_attempts mysql outcome tries (Suc left) =
     (if outcome tries = Exec_ok then Inr True
      else if retried mysql (outcome tries) \<and> left > 0
      then safe_attempts mysql outcome (Suc tries) left
      else Inl Operational_error)"

definition safe_execute :: "bool \<Rightarrow> (nat \<Rightarrow> exec_outcome) \<Rightarrow> nat \<Rightarrow> (db \<Rightarrow> db) \<Rightarrow> db \<Rightarrow>
    unit result \<times> db" where
  "safe_execute mysql outcome max_retries stmt d =
     (case safe_attempts mysql outcome 0 max_retries of
        Inl e \<Rightarrow> (Inl e, d)
      | Inr done' \<Rightarrow> (Inr (), if done' then stmt d else d))"

section \<open>Writing the totals\<close>

definition add_to_users :: "instant \<Rightarrow> (int \<times> int) list \<Rightarrow> db \<Rightarrow> db" where
  "add_to_users now usage d = d\<lparr>users := fold (\<lambda>(i, v). update_where (\<lambda>u. uid u = i)
     (\<lambda>u. u\<lparr>used_traffic := used_traffic u + v, online_at := Some now\<rparr>)) usage (users d)\<rparr>"

definition add_to_admins :: "(int \<times> int) list \<Rightarrow> db \<Rightarrow> db" where
  "add_to_admins usage d = d\<lparr>admins := fold (\<lambda>(i, v). update_where (\<lambda>a. aid a = i)
     (\<lambda>a. a\<lparr>users_usage := users_usage a + v, lifetime_usage := lifetime_usage a + v\<rparr>))
     usage (admins d)\<rparr>"

definition add_to_services :: "(int \<times> int) list \<Rightarrow> db \<Rightarrow> db" where
  "add_to_services usage d = d\<lparr>services := fold (\<lambda>(i, v). update_where (\<lambda>s. sid s = i)
     (\<lambda>s. s\<lparr>service_used_traffic := service_used_traffic s + v,
            service_lifetime_used_traffic := service_lifetime_used_traffic s + v\<rparr>))
     usage (services d)\<rparr>"

definition add_to_links :: "((int \<times> int) \<times> int) list \<Rightarrow> db \<Rightarrow> db" where
  "add_to_links usage d = d\<lparr>admin_service_links := fold (\<lambda>((a, s), v).
     update_where (\<lambda>l. link_admin_id l = a \<and> link_service_id l = s)
       (\<lambda>l. l\<lparr>link_used_traffic := link_used_traffic l + v,
              link_lifetime_used_traffic := link_lifetime_used_traffic l + v\<rparr>))
     usage (admin_service_links d)\<rparr>"

text \<open>The admins that cross their limit with this usage, before the usage is written.\<close>

definition limit_events :: "(int \<times> int) list \<Rightarrow> db \<Rightarrow> (int \<times> int \<times> int) list" where
  "limit_events usage d = concat (map (\<lambda>a.
     (case admin_data_limit a of None \<Rightarrow> []
      | Some limit \<Rightarrow>
          (let new = users_usage a + dict_get0 usage (aid a) in
           if limit \<noteq> 0 \<and> users_usage a < limit \<and> limit \<le> new then [(aid a, limit, new)] else [])))
     (filter (\<lambda>a. aid a \<in> fst ` set usage) (admins d)))"

text \<open>
  Disabling the admins of the events: the pair is what is committed and what the session sees.
\<close>

definition disable_over_limit :: "instant \<Rightarrow> int \<Rightarrow> db \<times> db \<Rightarrow> db \<times> db" where
  "disable_over_limit now i cv = (case cv of (c, v) \<Rightarrow>
     (case fetch_admin i (admins v) of None \<Rightarrow> (c, v)
      | Some a \<Rightarrow> (case enforce_admin_data_limit now v a of
          (_, _, v', committed) \<Rightarrow> (if committed then v' else c, v'))))"

definition write_statements :: "bool \<Rightarrow> (nat \<Rightarrow> nat \<Rightarrow> exec_outcome) \<Rightarrow> instant \<Rightarrow> (int \<times> int) list \<Rightarrow>
    usage_totals \<Rightarrow> db \<Rightarrow> (int \<times> int \<times> int) list result \<times> db" where
  "write_statements mysql outcome now samples t d =
     (case safe_execute mysql (outcome 0) 3 (add_to_users now samples) d of
        (Inl e, d1) \<Rightarrow> (Inl e, d1)
      | (Inr _, d1) \<Rightarrow>
     (case (if admin_usage t = [] then (Inr (), d1)
            else safe_execute mysql (outcome 1) 3 (add_to_admins (admin_usage t)) d1) of
        (Inl e, d2) \<Rightarrow> (Inl e, d2)
      | (Inr _, d2) \<Rightarrow>
     (case (if service_usage t = [] then (Inr (), d2)
            else safe_execute mysql (outcome 2) 3 (add_to_services (service_usage t)) d2) of
        (Inl e, d3) \<Rightarrow> (Inl e, d3)
      | (Inr _, d3) \<Rightarrow>
     (case (if admin_service_usage t = [] then (Inr (), d3)
            else safe_execute mysql (outcome 3) 3 (add_to_links (admin_service_usage t)) d3) of
        (Inl e, d4) \<Rightarrow> (Inl e, d4)
      | (Inr _, d4) \<Rightarrow> (Inr (limit_events (admin_usage t) d1), d4)))))"

definition apply_usage_to_db :: "bool \<Rightarrow> (nat \<Rightarrow> nat \<Rightarrow> exec_outcome) \<Rightarrow> (int \<Rightarrow> instant) \<Rightarrow> instant \<Rightarrow>
    (user \<Rightarrow> bool) \<Rightarrow> (int \<times> int) list \<Rightarrow> usage_totals \<Rightarrow> db \<Rightarrow>
    (int \<times> int \<times> int) list result \<times> db" where
  "apply_usage_to_db mysql outcome clock now notify samples t d =
     (case write_statements mysql outcome now samples t d of
        (Inl e, d') \<Rightarrow> (Inl e, d')
      | (Inr events, d') \<Rightarrow>
         (let cv = fold (disable_over_limit now) (remdups (map fst events)) (d', d');
              ef = enforce_user_limits_and_expiry clock now notify
                (map fst samples) (new_enforcement (fst cv) (snd cv))
          in (Inr events, ef_committed ef)))"

text \<open>The job without Redis, up to the hourly snapshots: the tables after one run.\<close>

definition record_user_usages :: "bool \<Rightarrow> (nat \<Rightarrow> nat \<Rightarrow> exec_outcome) \<Rightarrow> (int \<Rightarrow> instant) \<Rightarrow> instant \<Rightarrow>
    (user \<Rightarrow> bool) \<Rightarrow> ('c \<Rightarrow> int \<Rightarrow> int) \<Rightarrow> (node_id \<times> (int \<times> int) list) list \<Rightarrow>
    (node_id \<Rightarrow> 'c option) \<Rightarrow> db \<Rightarrow> (int \<times> int \<times> int) list result \<times> db" where
  "record_user_usages mysql outcome clock now notify scale api_params coefficient d =
     (let d1 = snd (enforce_due_active_users clock now notify 500 d);
          samples = aggregate_user_usage scale api_params coefficient
      in if samples = [] then (Inr [], d1)
         else apply_usage_to_db mysql outcome clock now notify samples
           (collect_admin_service_usage samples (load_user_mapping d1 (map fst samples))) d1)"

section \<open>Hourly snapshots\<close>

definition hour_bucket :: "instant \<Rightarrow> instant" where
  "hour_bucket now = now - now mod (3600 * usecs)"

text \<open>
  \<open>_persist_user_stats_to_db\<close> on the rows of the users that exist: the missing rows are inserted
  with 0, then every sample is added.
\<close>

definition snapshot_row :: "node_id \<Rightarrow> instant \<Rightarrow> node_usage \<Rightarrow> bool" where
  "snapshot_row n t r = (nu_node_id r = n \<and> nu_created_at r = t)"

definition insert_snapshot :: "node_id \<Rightarrow> instant \<Rightarrow> user \<Rightarrow> user" where
  "insert_snapshot n t u = (if list_ex (snapshot_row n t) (node_usages u) then u
     else u\<lparr>node_usages := node_usages u @
       [\<lparr>nu_created_at = t, nu_node_id = n, nu_used_traffic = 0\<rparr>]\<rparr>)"

definition add_snapshot :: "node_id \<Rightarrow> instant \<Rightarrow> int \<Rightarrow> user \<Rightarrow> user" where
  "add_snapshot n t v u = u\<lparr>node_usages := update_where (snapshot_row n t)
     (\<lambda>r. r\<lparr>nu_used_traffic := nu_used_traffic r + v\<rparr>) (node_usages u)\<rparr>"

definition persist_user_stats :: "node_id \<Rightarrow> instant \<Rightarrow> int \<Rightarrow> (int \<times> int) list \<Rightarrow> db \<Rightarrow> db" where
  "persist_user_stats n t factor params d =
     (let inserted = update_where (\<lambda>u. uid u \<in> fst ` set params) (insert_snapshot n t) (users d)
      in d\<lparr>users := fold (\<lambda>(i, v). update_where (\<lambda>u. uid u = i) (add_snapshot n t (v * factor)))
           params inserted\<rparr>)"

definition record_user_stats :: "instant \<Rightarrow> node_id \<Rightarrow> int \<Rightarrow> (int \<times> int) list \<Rightarrow> db \<Rightarrow> db" where
  "record_user_stats now n factor params d =
     (if params = [] then d else persist_user_stats n (hour_bucket now) factor params d)"

end
