(* ===== verification/DueUsers.thy ===== *)
theory DueUsers
  imports UsageJob
begin

text \<open>
  The loop that moves due users: every active user that is over its data or time limit and has no
  next plan is limited or expired when \<open>_enforce_due_active_users\<close> returns, whatever the batch
  size, the other users and their plans.
\<close>

section \<open>The effective row of a key\<close>

text \<open>What a commit would make of the row with the given key.\<close>

definition effective :: "int \<Rightarrow> enforcement \<Rightarrow> user option" where
  "effective k ef = fetch_user k (fold store_user (ef_pending ef) (users (ef_view ef)))"

definition pending_ids :: "enforcement \<Rightarrow> int set" where
  "pending_ids ef = uid ` set (ef_pending ef)"

lemma ef_commit_simps [simp]:
  "ef_pending (ef_commit ef) = []" "ef_changed (ef_commit ef) = ef_changed ef"
  "ef_activated (ef_commit ef) = ef_activated ef"
  "ef_committed (ef_commit ef) = ef_view (ef_commit ef)"
  by (simp_all add: ef_commit_def Let_def)

lemma effective_commit [simp]: "effective k (ef_commit ef) = effective k ef"
  by (simp add: effective_def ef_commit_def Let_def)

lemma effective_no_pending: "k \<notin> pending_ids ef \<Longrightarrow> effective k ef = fetch_user k (users (ef_view ef))"
  by (simp add: effective_def pending_ids_def user_table.fetch_fold_store_other)

lemma effective_append:
  "effective k (ef\<lparr>ef_pending := ef_pending ef @ [u]\<rparr>) =
     (if k = uid u \<and> effective k ef \<noteq> None then Some u else effective k ef)"
  by (auto simp: effective_def user_table.fetch_store)

lemma pending_append [simp]:
  "pending_ids (ef\<lparr>ef_pending := ef_pending ef @ [u]\<rparr>) = insert (uid u) (pending_ids ef)"
  by (simp add: pending_ids_def)

lemma pending_commit [simp]: "pending_ids (ef_commit ef) = {}"
  by (simp add: pending_ids_def)

text \<open>What one step may do: it writes one key, and its commits write what was pending.\<close>

definition steps_to :: "int set \<Rightarrow> enforcement \<Rightarrow> enforcement \<Rightarrow> bool" where
  "steps_to ks ef ef' \<longleftrightarrow> (\<forall>k. k \<notin> ks \<longrightarrow> effective k ef' = effective k ef) \<and>
     pending_ids ef' \<subseteq> ks \<union> pending_ids ef \<and>
     (ef_committed ef = ef_view ef \<longrightarrow> ef_committed ef' = ef_view ef') \<and>
     map uid (users (ef_view ef')) = map uid (users (ef_view ef))"

lemma steps_to_mono: "steps_to ks ef ef' \<Longrightarrow> ks \<subseteq> ls \<Longrightarrow> steps_to ls ef ef'"
  unfolding steps_to_def by auto

lemma steps_to_refl: "steps_to ks ef ef"
  by (simp add: steps_to_def)

lemma steps_to_trans:
  "steps_to ks ef ef' \<Longrightarrow> steps_to ls ef' ef'' \<Longrightarrow> steps_to (ks \<union> ls) ef ef''"
  unfolding steps_to_def by auto

lemma steps_to_commit: "steps_to ks ef (ef_commit ef)"
  by (simp add: steps_to_def ef_commit_keys)

lemma steps_to_append: "uid u = i \<Longrightarrow> steps_to {i} ef (ef\<lparr>ef_pending := ef_pending ef @ [u]\<rparr>)"
  by (auto simp: steps_to_def effective_append)

lemma steps_to_commit_append:
  assumes "uid u = i"
  shows "steps_to {i} ef (ef_commit (ef\<lparr>ef_pending := ef_pending ef @ [u]\<rparr>))"
    and "steps_to {i} ef ((ef_commit (ef\<lparr>ef_pending := ef_pending ef @ [u]\<rparr>))\<lparr>ef_pending := [u]\<rparr>)"
proof -
  let ?c = "ef_commit (ef\<lparr>ef_pending := ef_pending ef @ [u]\<rparr>)"
  show c: "steps_to {i} ef ?c"
    using steps_to_trans [OF steps_to_append [OF assms] steps_to_commit [of "{i}"]] by simp
  show "steps_to {i} ef (?c\<lparr>ef_pending := [u]\<rparr>)"
    using steps_to_trans [OF c steps_to_append [OF assms, of ?c]] by simp
qed

lemma effective_lists [simp]:
  "effective k (ef\<lparr>ef_changed := cs\<rparr>) = effective k ef"
  "effective k (ef\<lparr>ef_activated := cs\<rparr>) = effective k ef"
  "pending_ids (ef\<lparr>ef_changed := cs\<rparr>) = pending_ids ef"
  "pending_ids (ef\<lparr>ef_activated := cs\<rparr>) = pending_ids ef"
  by (simp_all add: effective_def pending_ids_def)

lemma steps_to_lists [simp]:
  "steps_to ks ef (ef'\<lparr>ef_changed := cs\<rparr>) = steps_to ks ef ef'"
  "steps_to ks ef (ef'\<lparr>ef_activated := cs\<rparr>) = steps_to ks ef ef'"
  "steps_to ks (ef\<lparr>ef_changed := cs\<rparr>) ef' = steps_to ks ef ef'"
  "steps_to ks (ef\<lparr>ef_activated := cs\<rparr>) ef' = steps_to ks ef ef'"
  by (simp_all add: steps_to_def)

lemma set_target_steps: "uid u = i \<Longrightarrow> steps_to {i} ef (set_target_status now_dt l x u ef)"
  by (auto simp: set_target_status_def steps_to_append split: option.split)

lemma reset_obj_uid: "reset_user_by_next_obj now d u = (r, u') \<Longrightarrow> uid u' = uid u"
  by (auto simp: reset_user_by_next_obj_def Let_def split: option.splits if_splits sum.splits)

lemma activation_uid [simp]: "uid (apply_on_hold_activation now u) = uid u"
  by (simp add: apply_on_hold_activation_def)

lemma enforce_limits_steps: "uid u = i \<Longrightarrow> steps_to {i} ef (enforce_limits now_dt now notify u ef)"
proof -
  assume u: "uid u = i"
  have two: "steps_to {i} e e' \<Longrightarrow> steps_to {i} e' e'' \<Longrightarrow> steps_to {i} e e''" for e e' e''
    using steps_to_trans [of "{i}" e e' "{i}" e''] by simp
  show ?thesis
  proof (cases "reset_user_by_next_obj now_dt (ef_view ef) u")
    case (Pair r u')
    then have "uid u' = i" using reset_obj_uid u by metis
    then show ?thesis
      unfolding enforce_limits_def Let_def Pair
      by (cases r) (simp_all add: u set_target_steps steps_to_append steps_to_commit_append
          two [OF steps_to_commit_append(1) set_target_steps])
  qed
qed

lemma enforce_one_steps: "steps_to {uid u} ef (enforce_one clock now notify u ef)"
proof -
  let ?ef = "ef\<lparr>ef_activated := ef_activated ef @ [uid u]\<rparr>"
  have "steps_to {uid u} ?ef (enforce_limits (clock (uid u)) now notify
      (apply_on_hold_activation (clock (uid u)) u) ?ef)"
    by (rule enforce_limits_steps) simp
  then show ?thesis by (simp add: enforce_one_def enforce_limits_steps)
qed

lemma enforce_fold_steps:
  "steps_to (uid ` set us) ef (fold (enforce_one clock now notify) us ef)"
proof (induction us arbitrary: ef)
  case (Cons u us)
  show ?case
    using steps_to_trans [OF enforce_one_steps Cons.IH] by simp
qed (simp add: steps_to_refl)

lemma enforce_steps: "steps_to (set ids) ef (enforce_user_limits_and_expiry clock now notify ids ef)"
proof -
  let ?ef = "ef\<lparr>ef_changed := [], ef_activated := []\<rparr>"
  let ?us = "filter (\<lambda>u. uid u \<in> set ids) (users (ef_view ?ef))"
  let ?ef' = "fold (enforce_one clock now notify) ?us ?ef"
  have "uid ` set ?us \<subseteq> set ids" by auto
  then have a: "steps_to (set ids) ef ?ef'"
    using steps_to_mono [OF enforce_fold_steps [of ?us ?ef]] by simp
  then have "steps_to (set ids) ef (ef_commit ?ef')"
    using steps_to_trans [OF a steps_to_commit [of "set ids"]] by simp
  with a show ?thesis
    by (simp add: enforce_user_limits_and_expiry_def Let_def steps_to_refl)
qed

section \<open>A due user without a next plan\<close>

definition moved :: "(int \<Rightarrow> instant) \<Rightarrow> user \<Rightarrow> user" where
  "moved clock u = u\<lparr>status := (if over_limit u then Limited else Expired),
     last_status_change := Some (clock (uid u))\<rparr>"

lemma moved_uid [simp]: "uid (moved clock u) = uid u"
  by (simp add: moved_def)

lemma due_over: "due_now now u \<Longrightarrow> status u = Active \<and> (over_limit u \<or> over_time now u)"
  by (auto simp: due_now_def over_limit_def over_time_def split: option.splits)

lemma enforce_one_due:
  assumes "due_now now u" and "next_plans u = []"
  shows "enforce_one clock now notify u ef = ef\<lparr>ef_pending := ef_pending ef @ [moved clock u],
    ef_changed := ef_changed ef @ [uid u]\<rparr>"
proof -
  have "status u = Active" "over_limit u \<or> over_time now u" using due_over [OF assms(1)] by auto
  then show ?thesis using assms(2)
    by (auto simp: enforce_one_def enforce_limits_def should_reactivate_on_hold_def next_plan_of_def
        set_target_status_def moved_def Let_def)
qed

lemma fold_changed: "ef_changed ef \<noteq> [] \<Longrightarrow> ef_changed (fold (enforce_one clock now notify) us ef) \<noteq> []"
proof (induction us arbitrary: ef)
  case (Cons u us)
  have "ef_changed (set_target_status t l x v e) \<noteq> []" if "ef_changed e \<noteq> []" for t l x v e
    using that by (auto simp: set_target_status_def split: option.split)
  then have "ef_changed (enforce_limits t n w v e) \<noteq> []" if "ef_changed e \<noteq> []" for t n w v e
    using that by (auto simp: enforce_limits_def Let_def split: prod.split sum.split)
  then have "ef_changed (enforce_one clock now notify u ef) \<noteq> []"
    using Cons.prems by (simp add: enforce_one_def)
  then show ?case using Cons.IH by simp
qed simp

lemma enforce_fold_due:
  assumes "distinct (map uid us)" and "u \<in> set us" and "effective (uid u) ef \<noteq> None"
    and "due_now now u" and "next_plans u = []"
  shows "effective (uid u) (fold (enforce_one clock now notify) us ef) = Some (moved clock u) \<and>
    ef_changed (fold (enforce_one clock now notify) us ef) \<noteq> []"
  using assms(1-3)
proof (induction us arbitrary: ef)
  case (Cons v us)
  show ?case
  proof (cases "v = u")
    case True
    let ?ef = "enforce_one clock now notify u ef"
    have e: "effective (uid u) ?ef = Some (moved clock u)" "ef_changed ?ef \<noteq> []"
      using Cons.prems(3) by (simp_all add: enforce_one_due [OF assms(4,5)] effective_append)
    have "uid u \<notin> uid ` set us" using Cons.prems(1) True by simp
    then have "effective (uid u) (fold (enforce_one clock now notify) us ?ef) = effective (uid u) ?ef"
      using enforce_fold_steps [of us ?ef] by (simp add: steps_to_def)
    with e True fold_changed show ?thesis by simp
  next
    case False
    then have u: "u \<in> set us" using Cons.prems(2) by simp
    then have "uid u \<noteq> uid v" using Cons.prems(1) by (metis distinct.simps(2) image_eqI list.set_map list.simps(9))
    then have "effective (uid u) (enforce_one clock now notify v ef) \<noteq> None"
      using Cons.prems(3) enforce_one_steps [of v ef] by (simp add: steps_to_def)
    then show ?thesis using Cons.IH u Cons.prems(1) by simp
  qed
qed simp

text \<open>One batch that contains the user: the row is committed.\<close>

lemma enforce_batch_due:
  assumes dist: "distinct (map uid (users (ef_view ef)))"
    and row: "fetch_user k (users (ef_view ef)) = Some u" and eff: "effective k ef \<noteq> None"
    and due: "due_now now u" "next_plans u = []" and k: "k \<in> set ids"
    and ef': "ef' = enforce_user_limits_and_expiry clock now notify ids ef"
  shows "effective k ef' = Some (moved clock u) \<and> pending_ids ef' = {} \<and>
    ef_committed ef' = ef_view ef'"
proof -
  have u: "u \<in> set (users (ef_view ef))" "uid u = k" using row user_table.fetch_key by blast+
  let ?ef = "ef\<lparr>ef_changed := [], ef_activated := []\<rparr>"
  let ?us = "filter (\<lambda>u. uid u \<in> set ids) (users (ef_view ?ef))"
  have "effective (uid u) (fold (enforce_one clock now notify) ?us ?ef) = Some (moved clock u) \<and>
    ef_changed (fold (enforce_one clock now notify) ?us ?ef) \<noteq> []"
  proof (rule enforce_fold_due [OF _ _ _ due])
    show "distinct (map uid ?us)" using dist by (simp add: distinct_map_filter)
    show "u \<in> set ?us" using u k by simp
    show "effective (uid u) ?ef \<noteq> None" using eff u(2) by (simp add: effective_def)
  qed
  moreover have "ids \<noteq> []" using k by auto
  ultimately show ?thesis
    unfolding ef' using u(2) by (simp add: enforce_user_limits_and_expiry_def Let_def)
qed

section \<open>The loop\<close>

lemma beyond_batch:
  fixes xs :: "int list"
  assumes "sorted xs" and "x \<in> set xs" and "x \<notin> set (take n xs)"
  shows "length (take n xs) = n \<and> (\<forall>y \<in> set (take n xs). y \<le> x)"
proof -
  have xs: "xs = take n xs @ drop n xs" by simp
  then have d: "x \<in> set (drop n xs)" using assms(2,3) by (metis Un_iff set_append)
  then have "n < length xs" by (cases "n < length xs") simp_all
  moreover have "sorted (take n xs @ drop n xs)" using assms(1) by simp
  then have "\<forall>y \<in> set (take n xs). y \<le> x" using d unfolding sorted_append by blast
  ultimately show ?thesis by simp
qed

lemma due_batch:
  assumes "get_due_active_user_ids d now b i = due" and "u \<in> set (users d)" and "due_now now u"
    and "\<forall>j. i = Some j \<longrightarrow> j < uid u" and "b > 0"
  shows "uid u \<in> set due \<or> (int (length due) = b \<and> last due < uid u)"
proof (cases "uid u \<in> set due")
  case False
  let ?L = "sort (map uid (filter (\<lambda>u. due_now now u \<and>
      (case i of None \<Rightarrow> True | Some j \<Rightarrow> uid u > j)) (users d)))"
  have due: "due = take (nat b) ?L" using assms(1,5) by (simp add: get_due_active_user_ids_def)
  have "uid u \<in> set ?L" using assms(2-4) by (auto split: option.split)
  then have "length due = nat b \<and> (\<forall>y \<in> set due. y \<le> uid u)"
    using beyond_batch [of ?L "uid u" "nat b"] False unfolding due by simp
  moreover from this have "due \<noteq> []" using assms(5) by auto
  then have "last due \<in> set due" by simp
  moreover from this have "last due \<noteq> uid u" using False by metis
  ultimately show ?thesis using assms(5) by fastforce
qed simp

definition behind :: "int option \<Rightarrow> enforcement \<Rightarrow> bool" where
  "behind i ef \<longleftrightarrow> (\<forall>k \<in> pending_ids ef. \<exists>j. i = Some j \<and> k \<le> j)"

lemma sorted_last: "sorted xs \<Longrightarrow> x \<in> set xs \<Longrightarrow> x \<le> last xs"
  by (induction xs) auto

lemma due_sorted: "k \<in> set (get_due_active_user_ids d now b i) \<Longrightarrow> k \<le> last (get_due_active_user_ids d now b i)"
  by (rule sorted_last) (simp_all add: get_due_active_user_ids_def sorted_wrt_take)

lemma behind_next:
  assumes "behind i ef" and "due = get_due_active_user_ids (ef_view ef) now b i" and "due \<noteq> []"
    and "ef' = enforce_user_limits_and_expiry clock now notify due ef"
  shows "behind (Some (last due)) ef'"
proof -
  have "pending_ids ef' \<subseteq> set due \<union> pending_ids ef"
    using enforce_steps assms(4) by (simp add: steps_to_def)
  moreover have "i = Some j \<Longrightarrow> j < last due" for j
    using due_ids_in [of "last due" "ef_view ef" now b i] assms(2,3) by simp
  moreover have "k \<in> set due \<Longrightarrow> k \<le> last due" for k using due_sorted assms(2) by blast
  ultimately show ?thesis using assms(1) unfolding behind_def by fastforce
qed

text \<open>A row the loop has passed is not touched again.\<close>

lemma loop_keeps_passed:
  assumes "behind i ef" and "k \<notin> pending_ids ef" and "\<exists>j. i = Some j \<and> k \<le> j"
    and "ef_committed ef = ef_view ef"
  shows "fetch_user k (users (ef_committed (snd (enforce_due_loop clock now notify b i n ef)))) =
    fetch_user k (users (ef_committed ef))"
  using assms
proof (induction clock now notify b i n ef rule: enforce_due_loop.induct)
  case (1 clock now notify b i n ef)
  let ?due = "get_due_active_user_ids (ef_view ef) now b i"
  let ?ef = "enforce_user_limits_and_expiry clock now notify ?due ef"
  show ?case
  proof (cases "?due = []")
    case True
    then show ?thesis by (simp add: enforce_due_loop.simps)
  next
    case False
    have st: "steps_to (set ?due) ef ?ef" by (rule enforce_steps)
    have k: "k \<notin> set ?due" using due_ids_in [of k "ef_view ef" now b i] "1.prems"(3) by force
    have com: "ef_committed ?ef = ef_view ?ef" using st "1.prems"(4) by (simp add: steps_to_def)
    have pend: "k \<notin> pending_ids ?ef" using st k "1.prems"(2) by (auto simp: steps_to_def)
    have "effective k ?ef = effective k ef" using st k by (simp add: steps_to_def)
    then have same: "fetch_user k (users (ef_committed ?ef)) = fetch_user k (users (ef_committed ef))"
      using pend "1.prems"(2,4) com by (simp add: effective_no_pending)
    have above: "\<exists>j. Some (last ?due) = Some j \<and> k \<le> j"
      using "1.prems"(3) due_ids_in [of "last ?due" "ef_view ef" now b i] False by fastforce
    show ?thesis
    proof (cases "int (length ?due) < b")
      case True
      then show ?thesis using False same by (subst enforce_due_loop.simps) (simp add: Let_def)
    next
      case more: False
      have "fetch_user k (users (ef_committed (snd (enforce_due_loop clock now notify b
          (Some (last ?due)) (n + int (length (ef_changed ?ef))) ?ef)))) =
        fetch_user k (users (ef_committed ?ef))"
        by (rule "1.IH" [OF refl False refl refl more behind_next [OF "1.prems"(1) refl False refl] pend above com])
      then show ?thesis using False more same by (subst enforce_due_loop.simps) (simp add: Let_def)
    qed
  qed
qed

lemma loop_moves_due:
  assumes "behind i ef" and "ef_committed ef = ef_view ef"
    and "distinct (map uid (users (ef_view ef)))"
    and "fetch_user (uid u) (users (ef_view ef)) = Some u" and "\<forall>j. i = Some j \<longrightarrow> j < uid u"
    and "due_now now u" and "next_plans u = []" and "b > 0"
  shows "fetch_user (uid u) (users (ef_committed (snd (enforce_due_loop clock now notify b i n ef)))) =
    Some (moved clock u)"
  using assms
proof (induction clock now notify b i n ef rule: enforce_due_loop.induct)
  case (1 clock now notify b i n ef)
  let ?due = "get_due_active_user_ids (ef_view ef) now b i"
  let ?ef = "enforce_user_limits_and_expiry clock now notify ?due ef"
  let ?loop = "\<lambda>i n ef. snd (enforce_due_loop clock now notify b i n ef)"
  have st: "steps_to (set ?due) ef ?ef" by (rule enforce_steps)
  have com: "ef_committed ?ef = ef_view ?ef" using st "1.prems"(2) by (simp add: steps_to_def)
  have no: "uid u \<notin> pending_ids ef" using "1.prems"(1,5) by (auto simp: behind_def)
  have "u \<in> set (users (ef_view ef))" using "1.prems"(4) user_table.fetch_key by blast
  from due_batch [OF refl this "1.prems"(6,5,8)]
  have cases: "uid u \<in> set ?due \<or> (int (length ?due) = b \<and> last ?due < uid u)" .
  then have ne: "?due \<noteq> []" using "1.prems"(8) by auto
  have next_behind: "behind (Some (last ?due)) ?ef" by (rule behind_next [OF "1.prems"(1) refl ne refl])
  show ?case
  proof (cases "uid u \<in> set ?due")
    case True
    have "effective (uid u) ef \<noteq> None" using no "1.prems"(4) by (simp add: effective_no_pending)
    from enforce_batch_due [OF "1.prems"(3,4) this "1.prems"(6,7) True refl]
    have e: "effective (uid u) ?ef = Some (moved clock u)" "pending_ids ?ef = {}" by auto
    then have row: "fetch_user (uid u) (users (ef_committed ?ef)) = Some (moved clock u)"
      using com by (simp add: effective_no_pending)
    show ?thesis
    proof (cases "int (length ?due) < b")
      case True
      then show ?thesis using ne row by (subst enforce_due_loop.simps) (simp add: Let_def)
    next
      case more: False
      have "fetch_user (uid u) (users (ef_committed (?loop (Some (last ?due))
          (n + int (length (ef_changed ?ef))) ?ef))) = fetch_user (uid u) (users (ef_committed ?ef))"
        by (rule loop_keeps_passed [OF next_behind _ _ com]) (use e(2) due_sorted [OF True] in auto)
      then show ?thesis using ne more row by (subst enforce_due_loop.simps) (simp add: Let_def)
    qed
  next
    case False
    with cases have full: "int (length ?due) = b" "last ?due < uid u" by auto
    have pend: "uid u \<notin> pending_ids ?ef" using st no False by (auto simp: steps_to_def)
    have "effective (uid u) ?ef = effective (uid u) ef" using st False by (simp add: steps_to_def)
    then have row: "fetch_user (uid u) (users (ef_view ?ef)) = Some u"
      using pend no "1.prems"(4) by (simp add: effective_no_pending)
    have keys: "distinct (map uid (users (ef_view ?ef)))" using "1.prems"(3) by (simp add: enforce_keys)
    have "fetch_user (uid u) (users (ef_committed (?loop (Some (last ?due))
        (n + int (length (ef_changed ?ef))) ?ef))) = Some (moved clock u)"
      by (rule "1.IH" [OF refl ne refl refl _ next_behind com keys row _ "1.prems"(6-8)])
        (use full in auto)
    then show ?thesis using ne full by (subst enforce_due_loop.simps) (simp add: Let_def)
  qed
qed

lemma due_users_moved:
  assumes "wf_db d" and "fetch_user (uid u) (users d) = Some u"
    and "due_now now u" and "next_plans u = []" and "batch > 0"
  shows "fetch_user (uid u) (users (snd (enforce_due_active_users clock now notify batch d))) =
    Some (moved clock u)"
proof -
  have "fetch_user (uid u) (users (ef_committed (snd (enforce_due_loop clock now notify batch None 0
      (new_enforcement d d))))) = Some (moved clock u)"
    by (rule loop_moves_due)
      (use assms in \<open>simp_all add: wf_db_def new_enforcement_def behind_def pending_ids_def\<close>)
  then show ?thesis by (simp add: enforce_due_active_users_def case_prod_beta)
qed

end
