(* ===== verification/RouteFacts.thy ===== *)
theory RouteFacts
  imports RefreshFacts UserRoutes DueUsers
begin

text \<open>
  Whose rows the user endpoints write. \<open>spares a d d'\<close> says that the rows of \<open>d\<close> that are not of
  the admin \<open>a\<close> are still there in \<open>d'\<close>, as they were; every request of an admin without a privileged
  role but the moving of users to a service spares the others, and so does any sequence of such
  requests. \<open>spares_bare\<close> says the same of all columns but the two that the refresh of a service writes,
  and holds for the moving of users as well.
\<close>

section \<open>Own rows\<close>

definition own :: "db \<Rightarrow> principal \<Rightarrow> user \<Rightarrow> bool" where
  "own d a u = (case admin_of d u of None \<Rightarrow> False
     | Some adm \<Rightarrow> lower (admin_username adm) = lower (pr_username a))"

definition spares :: "principal \<Rightarrow> db \<Rightarrow> db \<Rightarrow> bool" where
  "spares a d d' \<longleftrightarrow> admins d' = admins d \<and> distinct (map uid (users d')) \<and>
     (\<forall>w \<in> set (users d). \<not> own d a w \<longrightarrow> w \<in> set (users d'))"

lemma own_same_admins: "admins d' = admins d \<Longrightarrow> own d' a u = own d a u"
  by (simp add: own_def admin_of_def split: option.split)

lemma spares_refl: "wf_db d \<Longrightarrow> spares a d d"
  by (simp add: spares_def wf_db_def)

lemma spares_trans: "spares a d e \<Longrightarrow> spares a e f \<Longrightarrow> spares a d f"
proof -
  assume e: "spares a d e" and f: "spares a e f"
  have "w \<in> set (users f)" if "w \<in> set (users d)" "\<not> own d a w" for w
  proof -
    have "w \<in> set (users e)" using e that by (simp add: spares_def)
    moreover have "\<not> own e a w" using e that(2) own_same_admins [of e d a w] by (simp add: spares_def)
    ultimately show ?thesis using f by (simp add: spares_def)
  qed
  then show ?thesis using e f by (simp add: spares_def)
qed

lemma spares_wf: "spares a d d' \<Longrightarrow> wf_db d \<Longrightarrow> wf_db d'"
  by (simp add: spares_def wf_db_def)

lemma own_admin:
  assumes "wf_db d" and "get_admin d (Some (pr_username a)) None = Some adm" and "admin_id u = Some (aid adm)"
  shows "own d a u"
proof -
  have "adm \<in> set (admins d)" "lower (admin_username adm) = lower (pr_username a)"
    using assms(2) by (auto simp: get_admin_def find_Some_iff split: if_splits)
  then show ?thesis using admin_of_member [OF assms(1) _ assms(3)] by (simp add: own_def)
qed

text \<open>The cache answers with rows of the table.\<close>

definition cache_of :: "db \<Rightarrow> (string \<Rightarrow> user option) \<Rightarrow> bool" where
  "cache_of d cached \<longleftrightarrow> (\<forall>n c. cached n = Some c \<longrightarrow> c \<in> set (users d))"

lemma validated_own:
  assumes "get_validated_user cached d name a = Inr u" and "\<not> privileged a"
    and "cache_of d cached"
  shows "own d a u \<and> u \<in> set (users d)"
proof
  have v: "get_user cached d name = Some u"
    "case admin_of d u of None \<Rightarrow> False | Some owner \<Rightarrow> admin_username owner = pr_username a"
    using assms(1,2) by (auto simp: get_validated_user_def privileged_def split: option.splits if_splits)
  show "own d a u" using v(2) by (simp add: own_def split: option.splits)
  show "u \<in> set (users d)" using v(1) assms(3)
    by (auto simp: cache_of_def get_user_def db_user_by_name_def find_Some_iff split: option.splits if_splits)
qed

section \<open>Writing rows\<close>

lemma spares_update_where:
  assumes "wf_db d" and "\<And>u. uid (f u) = uid u" and "\<And>u. sel u \<Longrightarrow> own d a u"
  shows "spares a d (d\<lparr>users := update_where sel f (users d)\<rparr>)"
  using assms by (auto simp: spares_def wf_db_def map_update_where set_update_where)

lemma spares_store:
  assumes wf: "distinct (map uid us)" and q: "q \<in> set us" "uid u = uid q" "own d a q"
    and w: "w \<in> set us" "\<not> own d a w"
  shows "w \<in> set (store_user u us)"
proof -
  have "w \<noteq> q" using q w by blast
  then have "uid w \<noteq> uid u" using wf q w(1) by (auto simp: distinct_map dest: inj_onD)
  then show ?thesis using w(1) by (force simp: store_by_def)
qed

lemma spares_fold_store:
  assumes "distinct (map uid us)" and "\<forall>o' \<in> set objs. \<exists>q \<in> set us. uid o' = uid q \<and> own d a q"
    and "w \<in> set us" and "\<not> own d a w"
  shows "w \<in> set (fold store_user objs us)"
  using assms
proof -
  have "uid w \<notin> uid ` set objs"
  proof
    assume "uid w \<in> uid ` set objs"
    then obtain q where "q \<in> set us" "uid w = uid q" "own d a q" using assms(2) by force
    then show False using assms(1,3,4) by (auto simp: distinct_map dest: inj_onD)
  qed
  then have "fetch_user (uid w) (fold store_user objs us) = fetch_user (uid w) us"
    by (rule user_table.fetch_fold_store_other)
  also have "\<dots> = Some w" by (rule user_table.fetch_member [OF assms(1,3)])
  finally show ?thesis using user_table.fetch_key by blast
qed

lemma spares_save:
  assumes "wf_db d" and "q \<in> set (users d)" and "uid u = uid q" and "own d a q"
  shows "spares a d (save_user u d)"
  using assms spares_store [of "users d" q u d a]
  by (auto simp: spares_def wf_db_def map_key_store_by)

lemma spares_delete:
  assumes wf: "wf_db d" and us: "\<And>u. u \<in> set us \<Longrightarrow> u \<in> set (users d) \<and> own d a u"
  shows "spares a d (delete_rows us d)"
proof -
  have "uid w \<notin> uid ` set us" if "w \<in> set (users d)" "\<not> own d a w" for w
  proof
    assume "uid w \<in> uid ` set us"
    then obtain u where "u \<in> set us" "uid w = uid u" by auto
    then have "w = u" using us wf that(1) by (auto simp: wf_db_def distinct_map dest: inj_onD)
    then show False using us \<open>u \<in> set us\<close> that(2) by blast
  qed
  then show ?thesis using wf by (auto simp: spares_def delete_rows_def wf_db_def distinct_map_filter)
qed

lemma spares_remove_user:
  assumes "wf_db d" and "u \<in> set (users d)" and "own d a u" and "remove_user f1 en f2 d u = Inr d'"
  shows "spares a d d'"
proof -
  have "spares a d (save_user (u\<lparr>status := Deleted\<rparr>) d)" by (rule spares_save) (use assms in simp_all)
  moreover have "spares a d (delete_rows [u] d)" by (rule spares_delete) (use assms in simp_all)
  ultimately show ?thesis using assms(4) spares_refl [OF assms(1)]
    by (auto simp: remove_user_def Let_def split: if_splits)
qed

lemma spares_remove_users:
  assumes wf: "wf_db d" and us: "\<And>u. u \<in> set us \<Longrightarrow> u \<in> set (users d) \<and> own d a u"
    and res: "remove_users f1 en f2 d us = Inr d'"
  shows "spares a d d'"
proof -
  have "spares a d (d\<lparr>users := fold store_user (map (\<lambda>u. u\<lparr>status := Deleted\<rparr>) us) (users d)\<rparr>)"
  proof -
    have "\<forall>x \<in> set (map (\<lambda>u. u\<lparr>status := Deleted\<rparr>) us). \<exists>q \<in> set (users d). uid x = uid q \<and> own d a q"
      using us by force
    with wf show ?thesis
      by (simp add: spares_def wf_db_def user_table.fold_store_keys spares_fold_store del: set_map)
  qed
  moreover have "spares a d (delete_rows us d)" by (rule spares_delete [OF wf us])
  ultimately show ?thesis using res spares_refl [OF wf]
    by (auto simp: remove_users_def Let_def split: if_splits)
qed

section \<open>Sessions\<close>

text \<open>A session that writes the row of its object only.\<close>

definition writes_one :: "db \<Rightarrow> int \<Rightarrow> session \<Rightarrow> bool" where
  "writes_one d k s \<longleftrightarrow> uid (obj s) = k \<and> admins (committed s) = admins d \<and>
     map uid (users (committed s)) = map uid (users d) \<and>
     (\<forall>w \<in> set (users d). uid w \<noteq> k \<longrightarrow> w \<in> set (users (committed s)))"

interpretation alone: session_predicate "writes_one d k" "\<lambda>_. True" for d k
proof unfold_locales
  show "writes_one d k (flush_obj s)" if "writes_one d k s" for s
  proof -
    have "w \<in> set (store_user ((obj s)\<lparr>proxies := live_proxies s\<rparr>) (users (committed s)))"
      if "w \<in> set (users (committed s))" "uid w \<noteq> uid (obj s)" for w
      using that by (force simp: store_by_def)
    with that show ?thesis by (simp add: writes_one_def flush_obj_def Let_def map_key_store_by)
  qed
  show "writes_one d k (s\<lparr>committed := create_inbound_row tag (committed s)\<rparr>)" if "writes_one d k s" for s tag
    using that by (simp add: writes_one_def create_inbound_row_def split: option.split)
qed (simp_all add: writes_one_def change_obj_def)

lemma link_users [simp]: "users (ensure_admin_service_link a sv d) = users d"
  "admins (ensure_admin_service_link a sv d) = admins d"
  by (simp_all add: ensure_admin_service_link_def Let_def split: option.split)

lemma writes_one_spares:
  assumes wf: "wf_db d" and s: "writes_one d (uid u) s" and u: "u \<in> set (users d)" "own d a u"
    and d': "users d' = users (committed s)" "admins d' = admins (committed s)"
  shows "spares a d d'"
proof -
  have "w \<in> set (users d')" if "w \<in> set (users d)" "\<not> own d a w" for w
  proof -
    have "w \<noteq> u" using that u by blast
    then have "uid w \<noteq> uid u" using that(1) u(1) wf by (auto simp: wf_db_def distinct_map dest: inj_onD)
    then show ?thesis using that(1) s d'(1) by (simp add: writes_one_def)
  qed
  then show ?thesis using s d' wf by (simp add: spares_def writes_one_def wf_db_def)
qed

lemma spares_update_user:
  assumes "wf_db d" and "u \<in> set (users d)" and "own d a u"
  shows "spares a d (snd (update_user env now d u m svc service_set adm))"
proof -
  have "writes_one d (uid u) \<lparr>committed = d, obj = u, doomed = []\<rparr>" by (simp add: writes_one_def)
  then obtain s where s: "writes_one d (uid u) s"
    and d': "snd (update_user env now d u m svc service_set adm) = committed s \<or>
      (\<exists>sv. svc = Some sv \<and> snd (update_user env now d u m svc service_set adm) =
        ensure_admin_service_link adm sv (committed s))"
    by (rule alone.update) simp_all
  show ?thesis by (rule writes_one_spares [OF assms(1) s assms(2,3)]) (use d' in auto)
qed

lemma spares_create_user:
  assumes wf: "wf_db d" and i: "i \<notin> uid ` set (users d)"
  shows "spares a d (snd (create_user env now i d m adm svc))"
proof -
  have "writes_one d i \<lparr>committed = d, obj = created_row now i m adm (created_key env m) [], doomed = []\<rparr>"
    by (simp add: writes_one_def created_row_def new_user_def Let_def)
  then obtain s where s: "writes_one d i s"
    and d': "snd (create_user env now i d m adm svc) \<in> {d, committed s} \<or>
    (\<exists>d' \<in> insert (committed s) {ensure_admin_service_link adm sv (committed s) | sv. svc = Some sv}.
       snd (create_user env now i d m adm svc) = d'\<lparr>users := users d' @ [obj s]\<rparr>)"
    by (rule alone.create_user) simp_all
  have c: "users d' = users (committed s) \<or> users d' = users (committed s) @ [obj s] \<Longrightarrow>
      admins d' = admins d \<Longrightarrow> spares a d d'" for d'
  proof -
    assume u: "users d' = users (committed s) \<or> users d' = users (committed s) @ [obj s]" and "admins d' = admins d"
    have keys: "map uid (users (committed s)) = map uid (users d)" "uid (obj s) = i"
      using s by (simp_all add: writes_one_def)
    have "distinct (map uid (users d) @ [i])" using wf i by (simp add: wf_db_def)
    then have "distinct (map uid (users d'))" using u keys by (elim disjE) simp_all
    moreover have "w \<in> set (users d')" if "w \<in> set (users d)" for w
    proof -
      have "uid w \<noteq> i" using i that by auto
      then have "w \<in> set (users (committed s))" using s that by (simp add: writes_one_def)
      then show ?thesis using u by auto
    qed
    ultimately show ?thesis using \<open>admins d' = admins d\<close> by (simp add: spares_def)
  qed
  have adm: "admins (committed s) = admins d" using s by (simp add: writes_one_def)
  consider "snd (create_user env now i d m adm svc) = d"
    | "snd (create_user env now i d m adm svc) = committed s"
    | d1 where "snd (create_user env now i d m adm svc) = d1\<lparr>users := users d1 @ [obj s]\<rparr>"
      "users d1 = users (committed s)" "admins d1 = admins (committed s)"
    using d' by auto
  then show ?thesis
    by cases (use adm spares_refl [OF wf, of a] in \<open>simp_all add: c\<close>)
qed

section \<open>Actions on many users\<close>

lemma spares_run_action:
  assumes wf: "wf_db d" and adm: "get_admin d (Some (pr_username a)) None = Some adm"
    and res: "run_action now q (Some adm) svc without d = Inr (n, d')"
  shows "spares a d d'"
proof -
  have mine: "own e a u" if "bulk_query (Some adm) svc without u" "admins e = admins d" for e u
    using own_admin [OF wf adm, of u] that own_same_admins [of e d a u] by (simp add: bulk_query_def)
  have upd: "spares a e (e\<lparr>users := update_where sel f (users e)\<rparr>)"
    if "wf_db e" "admins e = admins d" "\<And>u. uid (f u) = uid u" "\<And>u. sel u \<Longrightarrow> bulk_query (Some adm) svc without u"
    for e sel f
    by (rule spares_update_where) (use that mine in auto)
  have expire: "spares a d (snd (adjust_all_users_expire now delta (Some adm) svc without scope d))" for delta scope
  proof -
    let ?e = "\<lambda>sel f. d\<lparr>users := update_where sel f (users d)\<rparr>"
    have two: "spares a d (d\<lparr>users := update_where sel' f' (update_where sel f (users d))\<rparr>)"
      if "\<And>u. uid (f u) = uid u" "\<And>u. uid (f' u) = uid u" "\<And>u. sel u \<Longrightarrow> bulk_query (Some adm) svc without u"
        "\<And>u. sel' u \<Longrightarrow> bulk_query (Some adm) svc without u" for sel f sel' f'
    proof -
      have one: "spares a d (?e sel f)" by (rule upd) (use wf that in auto)
      have "spares a (?e sel f) ((?e sel f)\<lparr>users := update_where sel' f' (users (?e sel f))\<rparr>)"
        by (rule upd) (use spares_wf [OF one wf] that in auto)
      then show ?thesis using spares_trans [OF one] by simp
    qed
    show ?thesis
      by (auto simp: adjust_all_users_expire_def Let_def spares_refl [OF wf] intro!: upd two wf)
  qed
  have limit: "spares a d (snd (adjust_all_users_limit now delta (Some adm) svc without scope d))" for delta scope
    by (auto simp: adjust_all_users_limit_def Let_def spares_refl [OF wf] intro!: upd wf)
  have clean: "spares a d (snd (delete_users_by_status_age now sts k (Some adm) svc without d))" for sts k
    by (auto simp: delete_users_by_status_age_def Let_def intro!: upd wf)
  have stat: "spares a d e" if "bulk_update_user_status now t (Some adm) svc without d = Inr (k, e)" for t k e
    using that by (auto simp: bulk_update_user_status_def Let_def then_res_Inr intro!: upd wf)
  show ?thesis using res expire limit clean stat
    by (auto simp: run_action_def Let_def split: bulk_action.splits) (metis snd_conv)+
qed

section \<open>What a refresh of a service writes\<close>

text \<open>
  A row without the columns that a refresh of its service writes, the proxies and the time of the last
  edit. A user without a service is in no refresh, so its row counts whole.
\<close>

definition bare :: "user \<Rightarrow> user" where
  "bare u = (if service_id u = None then u else u\<lparr>proxies := [], edit_at := None\<rparr>)"

lemma bare_columns [simp]: "uid (bare u) = uid u" "service_id (bare u) = service_id u"
    "admin_id (bare u) = admin_id u"
  by (simp_all add: bare_def)

lemma bare_eq: "bare x = bare w \<longleftrightarrow> x\<lparr>proxies := proxies w, edit_at := edit_at w\<rparr> = w \<and> (service_id w = None \<longrightarrow> x = w)"
  by (cases x; cases w) (auto simp: bare_def)

lemma bare_proxies: "service_id u \<noteq> None \<Longrightarrow> bare (u\<lparr>proxies := ps\<rparr>) = bare u"
  by (auto simp: bare_def)

lemma bare_change_proxy: "service_id u \<noteq> None \<Longrightarrow> bare (change_proxy p f u) = bare u"
    "service_id u \<noteq> None \<Longrightarrow> bare (add_proxy p st u) = bare u"
  unfolding change_proxy_def add_proxy_def by (rule bare_proxies, assumption)+

text \<open>The tables with the bare rows \<open>B\<close>, and a session for a user of the service \<open>i\<close> among them.\<close>

definition bare_tables :: "user list \<Rightarrow> admin list \<Rightarrow> db \<Rightarrow> bool" where
  "bare_tables B A d \<longleftrightarrow> map bare (users d) = B \<and> admins d = A"

definition bare_session :: "user list \<Rightarrow> admin list \<Rightarrow> int \<Rightarrow> session \<Rightarrow> bool" where
  "bare_session B A i s \<longleftrightarrow> distinct (map uid B) \<and> service_id (obj s) = Some i \<and> bare (obj s) \<in> set B \<and>
     bare_tables B A (committed s)"

lemma map_bare_store:
  assumes "distinct (map uid us)" and "bare u \<in> bare ` set us"
  shows "map bare (store_user u us) = map bare us"
proof -
  have "bare x = bare u" if "x \<in> set us" "uid x = uid u" for x
  proof -
    obtain y where y: "y \<in> set us" "bare y = bare u" using assms(2) by force
    then have "uid y = uid x" using that(2) by (metis bare_columns(1))
    then show ?thesis using y that(1) assms(1) by (auto simp: distinct_map dest: inj_onD)
  qed
  then show ?thesis by (auto simp: store_by_def)
qed

lemma bare_session_flush: "bare_session B A i s \<Longrightarrow> bare_session B A i (flush_obj s)"
proof -
  assume s: "bare_session B A i s"
  let ?u = "(obj s)\<lparr>proxies := live_proxies s\<rparr>" and ?us = "users (committed s)"
  have B: "B = map bare ?us" using s by (simp add: bare_session_def bare_tables_def)
  have "map uid ?us = map uid B" by (simp add: B)
  then have "distinct (map uid ?us)" using s by (simp add: bare_session_def)
  moreover have u: "bare ?u = bare (obj s)" using s by (simp add: bare_session_def bare_proxies)
  moreover have "bare (obj s) \<in> bare ` set ?us" using s B by (simp add: bare_session_def)
  ultimately have "map bare (store_user ?u ?us) = map bare ?us" by (simp add: map_bare_store)
  then show ?thesis using s u by (simp add: bare_session_def bare_tables_def flush_obj_def Let_def)
qed

lemma bare_session_create: "bare_session B A i s \<Longrightarrow> bare_session B A i (get_or_create_inbound tag s)"
  using bare_session_flush [of B A i s]
  by (simp add: get_or_create_inbound_def bare_session_def bare_tables_def Let_def create_inbound_row_def
      split: option.split)

lemma bare_session_creates: "bare_session B A i s \<Longrightarrow> bare_session B A i (fold get_or_create_inbound tags s)"
  by (induction tags arbitrary: s) (simp_all add: bare_session_create)

lemma bare_session_change: "bare_session B A i s \<Longrightarrow>
    (\<And>u. service_id u = Some i \<Longrightarrow> service_id (f u) = Some i \<and> bare (f u) = bare u) \<Longrightarrow>
    bare_session B A i (change_obj f s)"
  by (simp add: bare_session_def change_obj_def)

lemma bare_session_proxies: "bare_session B A i s \<Longrightarrow> bare_session B A i (change_obj (change_proxy p f) s)"
    "bare_session B A i s \<Longrightarrow> bare_session B A i (change_obj (add_proxy p st) s)"
  by (rule bare_session_change; simp add: bare_change_proxy; simp add: change_proxy_def add_proxy_def)+

lemma bare_session_doomed: "bare_session B A i s \<Longrightarrow> bare_session B A i (s\<lparr>doomed := ps\<rparr>)"
  by (simp add: bare_session_def)

lemma bare_session_protocol: "bare_session B A i s \<Longrightarrow>
    bare_session B A i (snd (apply_protocol env existing pt s))"
  by (cases pt) (auto simp: apply_protocol_def Let_def pure_step_def
      intro!: bare_session_proxies bare_session_creates bare_session_change split: option.split sum.split)

lemma bare_session_apply: "bare_session B A (sid svc) s \<Longrightarrow>
    bare_session B A (sid svc) (snd (apply_service_to_user env now True svc allowed s))"
  by (auto simp: apply_service_to_user_def Let_def pure_step_def bare_def
      intro!: and_then_keeps [of "bare_session B A (sid svc)"] run_all_keeps [of "bare_session B A (sid svc)"]
        bare_session_protocol bare_session_doomed bare_session_change)

lemma bare_refresh_one:
  assumes "distinct (map uid B)" and "bare u \<in> set B" and "service_id u = Some (sid svc)"
  shows "op_keeps (bare_tables B A) (refresh_one env now svc allowed u)"
proof -
  have "bare_tables B A (durable t') \<and> bare_tables B A (working t')"
    if t: "bare_tables B A (durable t)" "bare_tables B A (working t)"
      and r: "refresh_one env now svc allowed u t = (r, t')" for t r t'
  proof -
    let ?s = "\<lparr>committed = working t, obj = u, doomed = []\<rparr>"
    obtain x s where s: "apply_service_to_user env now True svc allowed ?s = (x, s)" by force
    have "bare_session B A (sid svc) ?s" using t assms by (simp add: bare_session_def)
    then have "bare_session B A (sid svc) s"
      using bare_session_apply [of B A svc ?s env now allowed] s by simp
    then have "bare_tables B A (committed s)" "bare_tables B A (committed (flush_obj s))"
      using bare_session_flush [of B A "sid svc" s] by (simp_all add: bare_session_def)
    then show ?thesis using r t s by (auto simp: refresh_one_def Let_def split: sum.splits if_splits)
  qed
  then show ?thesis unfolding op_keeps_def by (metis prod.collapse)
qed

lemma bare_refresh_by_id:
  assumes B: "distinct (map uid B)"
  shows "op_keeps (bare_tables B A) (refresh_by_id env now i)"
proof -
  have "bare_tables B A (durable t') \<and> bare_tables B A (working t')"
    if t: "bare_tables B A (durable t)" "bare_tables B A (working t)"
      and r: "refresh_by_id env now i t = (r, t')" for t r t'
  proof (cases "get_service (working t) i")
    case None
    then show ?thesis using t r by (simp add: refresh_by_id_def)
  next
    case (Some svc)
    let ?us = "filter (\<lambda>u. status u \<noteq> Deleted) (service_users (working t) (sid svc))"
    let ?f = "refresh_one env now svc (compute_allowed_inbounds (core env) (hosts (working t)) svc)"
    have "bare u \<in> set B \<and> service_id u = Some (sid svc)" if "u \<in> set ?us" for u
      using that t(2) by (auto simp: service_users_def bare_tables_def)
    then have "op_keeps (bare_tables B A) (op_each ?f ?us)"
      by (intro op_keeps_each_in bare_refresh_one B) simp_all
    moreover have "op_each ?f ?us t = (r, t')" using r Some by (simp add: refresh_by_id_def refresh_users_def)
    ultimately show ?thesis using t unfolding op_keeps_def by (metis snd_conv)
  qed
  then show ?thesis unfolding op_keeps_def by (metis prod.collapse)
qed

lemma bare_refresh_service:
  assumes "distinct (map uid (users d))"
  shows "bare_tables (map bare (users d)) (admins d) (snd (outcome (refresh_service_users_by_id env now i) d))"
proof -
  have "map uid (map bare (users d)) = map uid (users d)" by simp
  then have B: "distinct (map uid (map bare (users d)))" using assms by metis
  have "op_keeps (bare_tables (map bare (users d)) (admins d)) (refresh_service_users_by_id env now i)"
    unfolding refresh_service_users_by_id_def
    by (intro op_keeps_bind bare_refresh_by_id B) (auto intro!: op_keeps_bind)
  then show ?thesis by (rule outcome_keeps) (simp add: bare_tables_def)
qed

section \<open>Rows spared but for a refresh\<close>

text \<open>The rows that are not of \<open>a\<close> are still there, in all columns but those of a refresh.\<close>

definition spares_bare :: "principal \<Rightarrow> db \<Rightarrow> db \<Rightarrow> bool" where
  "spares_bare a d d' \<longleftrightarrow> admins d' = admins d \<and> distinct (map uid (users d')) \<and>
     (\<forall>w \<in> set (users d). \<not> own d a w \<longrightarrow> bare w \<in> bare ` set (users d'))"

lemma spares_spares_bare: "spares a d d' \<Longrightarrow> spares_bare a d d'"
  by (auto simp: spares_def spares_bare_def)

lemma own_bare: "own d a (bare u) = own d a u"
  by (simp add: own_def admin_of_def)

lemma spares_bare_trans: "spares_bare a d e \<Longrightarrow> spares_bare a e f \<Longrightarrow> spares_bare a d f"
proof -
  assume e: "spares_bare a d e" and f: "spares_bare a e f"
  have "bare w \<in> bare ` set (users f)" if w: "w \<in> set (users d)" "\<not> own d a w" for w
  proof -
    obtain x where x: "x \<in> set (users e)" "bare w = bare x" using e w by (force simp: spares_bare_def)
    have "own e a x = own d a w"
      using own_same_admins [of e d a "bare x"] own_bare [of d a w] own_bare [of e a x] x(2) e
      by (simp add: spares_bare_def)
    then show ?thesis using f w(2) x by (simp add: spares_bare_def)
  qed
  then show ?thesis using e f by (simp add: spares_bare_def)
qed

lemma refresh_spares_bare:
  assumes "wf_db d"
  shows "spares_bare a d (snd (outcome (refresh_service_users_by_id env now i) d))"
proof -
  let ?e = "snd (outcome (refresh_service_users_by_id env now i) d)"
  have e: "map bare (users ?e) = map bare (users d)" "admins ?e = admins d"
    using bare_refresh_service assms by (simp_all add: bare_tables_def wf_db_def)
  have "map uid (map bare (users ?e)) = map uid (map bare (users d))" using e by simp
  then have "distinct (map uid (users ?e))" using assms by (simp add: wf_db_def comp_def)
  moreover have "bare ` set (users ?e) = bare ` set (users d)" using e(1) by (metis list.set_map)
  ultimately show ?thesis using e(2) by (auto simp: spares_bare_def)
qed

section \<open>Requests\<close>

lemma spares_checked:
  assumes "wf_db d" and "\<And>x. r = Inr x \<Longrightarrow> spares a d (snd (f x))"
  shows "spares a d (snd (checked r f d))"
  using assms spares_refl by (cases r) (simp_all add: checked_def)

lemma spares_keep_tables:
  assumes "wf_db d" and "\<And>x d'. r = Inr (x, d') \<Longrightarrow> spares a d d'"
  shows "spares a d (snd (keep_tables r d))"
  using assms spares_refl by (auto simp: keep_tables_def split: sum.split)

lemma users_limit_400_Inr: "users_limit_400 r = Inr x \<longleftrightarrow> r = Inr x"
  by (auto simp: users_limit_400_def split: sum.split exn.split)

lemma create_answer_tables: "snd (create_answer r) = snd r"
  by (auto simp: create_answer_def split: prod.split sum.split exn.split)

text \<open>
  What an admin may send to the user endpoints: the requests that write rows of their own users, and
  the bulk action that moves users to a service, which also refreshes all users of the destination,
  whosever they are.
\<close>

inductive row_request :: "principal \<Rightarrow> db \<Rightarrow> db \<Rightarrow> bool" for a where
  request_add: "i \<notin> uid ` set (users d) \<Longrightarrow> row_request a d (snd (add_user env now i q a d))"
| request_modify: "cache_of d cached \<Longrightarrow>
    row_request a d (snd (modify_user env now cached name m choice a d))"
| request_remove: "cache_of d cached \<Longrightarrow>
    row_request a d (snd (remove_user_endpoint enum cached name a d))"
| request_reset: "cache_of d cached \<Longrightarrow>
    row_request a d (snd (reset_usage_of_user now cached name a d))"
| request_revoke: "cache_of d cached \<Longrightarrow>
    row_request a d (snd (revoke_user_subscription env now cached name a d))"
| request_next_plan: "cache_of d cached \<Longrightarrow>
    row_request a d (snd (active_next_plan now cached name a d))"
| request_set_owner: "cache_of d cached \<Longrightarrow>
    row_request a d (snd (set_owner_endpoint cached name to a d))"
| request_bulk: "br_action q \<noteq> Change_service \<Longrightarrow>
    row_request a d (snd (perform_users_bulk_action env now q names_admin a d))"
| request_service_bulk: "row_request a d (snd (keep_tables (service_users_action now k q a d) d))"
| request_delete_expired: "row_request a d (snd (delete_expired_users enum after before a d))"

inductive user_request :: "principal \<Rightarrow> db \<Rightarrow> db \<Rightarrow> bool" for a where
  request_rows: "row_request a d d' \<Longrightarrow> user_request a d d'"
| request_move: "br_action q = Change_service \<Longrightarrow>
    user_request a d (snd (perform_users_bulk_action env now q names_admin a d))"

lemma spares_add_user:
  assumes wf: "wf_db d" and i: "i \<notin> uid ` set (users d)"
  shows "spares a d (snd (add_user env now i q a d))"
proof -
  have key: "spares a d (snd (keyed_create env now i m adm svc d))" for m adm svc
    unfolding keyed_create_def by (rule spares_checked [OF wf]) (auto intro: spares_create_user [OF wf i])
  have "spares a d (snd (add_service_user env now i q k a d))" for k
    unfolding add_service_user_def Let_def
    by (intro spares_checked [OF wf]) (auto simp: create_answer_tables spares_refl [OF wf] intro!: spares_checked [OF wf] key)
  moreover have "spares a d (snd (add_plain_user env now i q a d))"
    unfolding add_plain_user_def create_answer_tables by (intro spares_checked [OF wf] key)
  ultimately show ?thesis unfolding add_user_def Let_def
    by (intro spares_checked [OF wf]) (auto split: option.split)
qed

lemma spares_modify:
  assumes wf: "wf_db d" and low: "\<not> privileged a" and rows: "cache_of d cached"
  shows "spares a d (snd (modify_user env now cached name m choice a d))"
proof -
  have "spares a d (snd (case update_user env now d u m' svc s adm of (r, d') \<Rightarrow> (users_limit_400 r, d')))"
    if "get_validated_user cached d name a = Inr u" for u m' svc s adm
    using validated_own [OF that low rows] spares_update_user [OF wf] by (simp add: case_prod_beta)
  then show ?thesis unfolding modify_user_def Let_def
    by (intro spares_checked [OF wf]) (auto split del: if_split)
qed

text \<open>The endpoints that write one row, with the user's key and owner kept.\<close>

lemma spares_one_row:
  assumes wf: "wf_db d" and low: "\<not> privileged a" and rows: "cache_of d cached"
    and u: "get_validated_user cached d name a = Inr u" and u': "uid u' = uid u"
  shows "spares a d (save_user u' d)"
  using validated_own [OF u low rows] spares_save [OF wf _ u'] by blast

lemma reset_logged_uid: "reset_user_data_usage_obj now d u = Inr u' \<Longrightarrow> uid u' = uid u"
  by (auto simp: reset_user_data_usage_obj_def Let_def then_res_Inr drop_next_plan_def reset_logged_def
      split: if_splits)

lemma spares_single:
  assumes wf: "wf_db d" and low: "\<not> privileged a" and rows: "cache_of d cached"
  shows "spares a d (snd (remove_user_endpoint enum cached name a d)) \<and>
    spares a d (snd (reset_usage_of_user now cached name a d)) \<and>
    spares a d (snd (revoke_user_subscription env now cached name a d)) \<and>
    spares a d (snd (active_next_plan now cached name a d)) \<and>
    spares a d (snd (set_owner_endpoint cached name to a d))"
proof (intro conjI)
  note one = spares_one_row [OF wf low rows]
  note valid = validated_own [OF _ low rows]
  show "spares a d (snd (remove_user_endpoint enum cached name a d))"
    unfolding remove_user_endpoint_def
    by (intro spares_checked [OF wf]) (auto intro!: spares_checked [OF wf] split: prod.split
        dest: valid intro: spares_remove_user [OF wf])
  show "spares a d (snd (reset_usage_of_user now cached name a d))"
    unfolding reset_usage_of_user_def
    by (intro spares_checked [OF wf] spares_keep_tables [OF wf])
      (auto simp: users_limit_400_Inr reset_user_data_usage_def then_res_Inr intro: one reset_logged_uid)
  show "spares a d (snd (revoke_user_subscription env now cached name a d))"
    unfolding revoke_user_subscription_def
    by (intro spares_checked [OF wf] spares_keep_tables [OF wf])
      (auto simp: revoke_user_sub_def apply_key_to_existing_proxies_def Let_def then_res_Inr
        split: if_splits intro: one)
  show "spares a d (snd (active_next_plan now cached name a d))"
    unfolding active_next_plan_def
    by (intro spares_checked [OF wf])
      (auto simp: users_limit_400_Inr reset_user_by_next_def Let_def spares_refl [OF wf]
        split: prod.splits sum.splits if_splits intro: one reset_obj_uid)
  show "spares a d (snd (set_owner_endpoint cached name to a d))"
    unfolding set_owner_endpoint_def
    by (intro spares_checked [OF wf]) (use low in \<open>auto simp: need_sudo_def privileged_def split: if_splits\<close>)
qed

lemma spares_bulk:
  assumes wf: "wf_db d" and low: "\<not> privileged a" and act: "br_action q \<noteq> Change_service"
  shows "spares a d (snd (perform_users_bulk_action env now q names_admin a d))"
proof -
  have need: "need_admin d n = Inr adm \<longleftrightarrow> get_admin d (Some n) None = Some adm" for n adm
    by (simp add: need_admin_def split: option.split)
  have target: "\<exists>adm. target = Some adm \<and> get_admin d (Some (pr_username a)) None = Some adm"
    if "bulk_target q names_admin a d = Inr (target, dest)" for target dest
    using that low act by (auto simp: bulk_target_def Let_def then_res_Inr need)
  show ?thesis unfolding perform_users_bulk_action_def
    by (intro spares_checked [OF wf]) (use act in \<open>auto simp: users_limit_400_Inr dest!: target
      intro!: spares_keep_tables [OF wf] intro: spares_run_action [OF wf]\<close>)
qed

lemma spares_service_bulk:
  assumes wf: "wf_db d" and low: "\<not> privileged a"
  shows "spares a d (snd (keep_tables (service_users_action now k q a d) d))"
proof -
  have target: "\<exists>adm. target = Some adm \<and> get_admin d (Some (pr_username a)) None = Some adm"
    if "action_target svc q a d = Inr target" for svc target
    using that low by (auto simp: action_target_def privileged_def then_res_Inr need_admin_def
        split: option.splits if_splits)
  have ok: "other_error_500 r = Inr x \<Longrightarrow> r = Inr x" for r :: "(int \<times> db) result" and x
    by (auto simp: other_error_500_def split: sum.splits exn.splits)
  show ?thesis
    by (rule spares_keep_tables [OF wf]) (auto simp: service_users_action_def then_res_Inr
      dest!: target ok intro: spares_run_action [OF wf])
qed

lemma spares_delete_expired:
  assumes wf: "wf_db d" and low: "\<not> privileged a" and adm: "get_admin d (Some (pr_username a)) None = Some adm"
  shows "spares a d (snd (delete_expired_users enum after before a d))"
proof -
  let ?us = "get_expired_users_list d a after before"
  have mine: "u \<in> set (users d) \<and> own d a u" if "u \<in> set ?us" for u
    using that low adm own_admin [OF wf adm]
    by (auto simp: get_expired_users_list_def Let_def privileged_def)
  have "remove_users f1 en f2 d ?us = Inr d' \<Longrightarrow> spares a d d'" for f1 en f2 d'
    by (rule spares_remove_users [OF wf mine])
  then show ?thesis unfolding delete_expired_users_def Let_def
    by (intro spares_checked [OF wf]) (auto intro!: spares_checked [OF wf] split: prod.split)
qed

lemma row_request_spares:
  assumes "row_request a d d'" and "wf_db d" and "\<not> privileged a"
    and "get_admin d (Some (pr_username a)) None = Some adm"
  shows "spares a d d'"
  using assms
  by cases (simp_all add: spares_add_user spares_modify spares_single spares_bulk spares_service_bulk
      spares_delete_expired)

lemma row_requests_spare:
  assumes "(row_request a)\<^sup>*\<^sup>* d d'" and "wf_db d" and "\<not> privileged a"
    and "get_admin d (Some (pr_username a)) None = Some adm"
  shows "spares a d d'"
  using assms
proof (induction rule: rtranclp_induct)
  case base
  then show ?case by (simp add: spares_refl)
next
  case (step e f)
  then have e: "spares a d e" by simp
  then have "admins e = admins d" by (simp add: spares_def)
  then have "get_admin e (Some (pr_username a)) None = Some adm"
    using step.prems(3) by (simp add: get_admin_def split: if_splits)
  then have "spares a e f"
    using row_request_spares [OF step.hyps(2) spares_wf [OF e step.prems(1)] step.prems(2)] by simp
  then show ?case by (rule spares_trans [OF e])
qed

text \<open>The bulk action that moves users, of an admin without a privileged role.\<close>

lemma low_move_target:
  assumes "bulk_target q names_admin a d = Inr (target, dest)" and "\<not> privileged a"
    and "br_action q = Change_service"
  shows "\<exists>adm svc. target = Some adm \<and> dest = Some svc \<and> get_admin d (Some (pr_username a)) None = Some adm"
  using assms by (auto simp: bulk_target_def Let_def then_res_Inr need_admin_def split: option.splits)

lemma spares_move:
  assumes wf: "wf_db d" and "get_admin d (Some (pr_username a)) None = Some adm"
  shows "spares a d (snd (move_users_to_service svc (Some adm) k without d))"
  using own_admin [OF wf assms(2)]
  by (auto simp: move_users_to_service_def Let_def bulk_query_def intro!: spares_update_where [OF wf])

lemma spares_bare_move:
  assumes wf: "wf_db d" and low: "\<not> privileged a" and act: "br_action q = Change_service"
  shows "spares_bare a d (snd (perform_users_bulk_action env now q names_admin a d))"
proof -
  have refl: "spares_bare a d d" by (rule spares_spares_bare [OF spares_refl [OF wf]])
  have moved: "spares_bare a d (snd (change_service_action env now q (Some adm) (Some svc) d))"
    if adm: "get_admin d (Some (pr_username a)) None = Some adm" for adm svc
  proof -
    let ?e = "snd (move_users_to_service svc (Some adm) (br_service_id q) (br_service_id_is_null q = Some True) d)"
    have e: "spares a d ?e" by (rule spares_move [OF wf adm])
    have "snd (change_service_action env now q (Some adm) (Some svc) d) =
        snd (outcome (refresh_service_users_by_id env now (sid svc)) ?e)"
      by (simp add: change_service_action_def Let_def split: prod.split sum.split)
    then show ?thesis
      using spares_bare_trans [OF spares_spares_bare [OF e] refresh_spares_bare [OF spares_wf [OF e wf]]] by simp
  qed
  show ?thesis using low_move_target [OF _ low act, of names_admin d] moved refl act
    by (auto simp: perform_users_bulk_action_def checked_def split: sum.split)
qed

lemma user_request_spares_bare:
  assumes "user_request a d d'" and "wf_db d" and "\<not> privileged a"
    and "get_admin d (Some (pr_username a)) None = Some adm"
  shows "spares_bare a d d'"
  using assms by cases (auto intro: spares_spares_bare row_request_spares spares_bare_move)

lemma user_requests_spare_bare:
  assumes "(user_request a)\<^sup>*\<^sup>* d d'" and "wf_db d" and "\<not> privileged a"
    and "get_admin d (Some (pr_username a)) None = Some adm"
  shows "spares_bare a d d'"
  using assms
proof (induction rule: rtranclp_induct)
  case base
  then show ?case by (simp add: spares_spares_bare spares_refl)
next
  case (step e f)
  then have e: "spares_bare a d e" by simp
  then have "admins e = admins d" "wf_db e" using step.prems(1) by (simp_all add: spares_bare_def wf_db_def)
  moreover have "get_admin e (Some (pr_username a)) None = Some adm"
    using \<open>admins e = admins d\<close> step.prems(3) by (simp add: get_admin_def split: if_splits)
  ultimately have "spares_bare a e f"
    using user_request_spares_bare [OF step.hyps(2)] step.prems(2) by blast
  then show ?case by (rule spares_bare_trans [OF e])
qed

end
