(* ===== verification/Rotation.thy ===== *)
theory Rotation
  imports UserCrudFacts
begin

text \<open>
  More on creating and modifying users: a new user and the quota, unique names, what
  \<open>revoke_user_sub\<close> leaves of the old credentials, and the retries of \<open>update_user_sub\<close>.
\<close>

section \<open>Creating a user\<close>

text \<open>
  While \<open>create_user\<close> runs, the commits add inbound tags only: the object is not in the table.
\<close>

definition draft :: "db \<Rightarrow> user \<Rightarrow> session \<Rightarrow> bool" where
  "draft d u s \<longleftrightarrow> users (committed s) = users d \<and> admins (committed s) = admins d \<and>
     admin_service_links (committed s) = admin_service_links d \<and> same_identity u (obj s)"

lemma draft_change: "draft d u s \<Longrightarrow> keeps_identity f \<Longrightarrow> draft d u (change_obj f s)"
  by (auto simp: draft_def change_obj_def keeps_identity_def same_identity_def)

lemma draft_pure: "draft d u s \<Longrightarrow> keeps_identity f \<Longrightarrow> draft d u (snd (pure_step f s))"
  by (simp add: pure_step_def draft_change)

lemma draft_inbound:
  assumes "draft d u s" and "uid u \<notin> uid ` set (users d)"
  shows "draft d u (get_or_create_inbound tag s)"
  using assms
  by (auto simp: draft_def get_or_create_inbound_def flush_obj_def Let_def save_user_def
      same_identity_def store_by_fresh)

lemma draft_inbounds:
  assumes "draft d u s" and "uid u \<notin> uid ` set (users d)"
  shows "draft d u (fold get_or_create_inbound tags s)"
  using assms by (induction tags arbitrary: s) (simp_all add: draft_inbound)

lemma draft_create_proxy:
  assumes "draft d u s" and "uid u \<notin> uid ` set (users d)"
  shows "draft d u (snd (create_proxy env key m pst s))"
  using draft_inbounds [OF assms]
  by (cases pst) (auto simp: create_proxy_def Let_def draft_pure split: sum.split)

lemma draft_apply_protocol:
  assumes "draft d u s" and "uid u \<notin> uid ` set (users d)"
  shows "draft d u (snd (apply_protocol env existing pt s))"
  using assms
  by (cases pt) (auto simp: apply_protocol_def Let_def draft_pure draft_inbounds draft_change
      split: option.split sum.split)

lemma draft_doomed: "draft d u s \<Longrightarrow> draft d u (s\<lparr>doomed := ps\<rparr>)"
  by (simp add: draft_def)

lemma draft_apply_service:
  assumes "draft d u s" and "uid u \<notin> uid ` set (users d)"
  shows "draft d u (snd (apply_service_to_user env now persistent svc allowed s))"
  using assms
  by (auto simp: apply_service_to_user_def Let_def draft_doomed
      intro!: and_then_keeps [of "draft d u"] run_all_keeps [of "draft d u"]
        draft_apply_protocol draft_pure)

text \<open>What a call of \<open>create_user\<close> does to the tables.\<close>

lemma create_user_effect:
  assumes fresh: "i \<notin> uid ` set (users d)"
    and res: "create_user env now i d m a svc = (r, d')"
  shows "admins d' = admins d \<and>
    (case r of Inl e \<Rightarrow> users d' = users d
     | Inr u \<Rightarrow> users d' = users d @ [u] \<and> uid u = i \<and> admin_id u = map_option aid a \<and>
         username u = uc_username m \<and> \<not> username_taken d (uc_username m) \<and>
         status u = (case uc_status m of None \<Rightarrow> Active | Some st \<Rightarrow> st) \<and>
         (a \<noteq> None \<longrightarrow> ensure_active_user_capacity d a 1 [] = Inr ()))"
proof -
  define u0 where "u0 = created_row now i m a (created_key env m) []"
  obtain r' s where run: "create_draft env now i d m a svc = (r', s)" by force
  have u0: "uid u0 = i" "admin_id u0 = map_option aid a" "username u0 = uc_username m"
    "status u0 = (case uc_status m of None \<Rightarrow> Active | Some st \<Rightarrow> st)"
    by (simp_all add: u0_def created_row_def new_user_def)
  have "draft d u0 (snd (create_draft env now i d m a svc))"
    unfolding create_draft_def u0_def [symmetric]
  proof (rule and_then_keeps)
    show "draft d u0 \<lparr>committed = d, obj = u0, doomed = []\<rparr>" by (simp add: draft_def)
    show "draft d u0 (snd (run_all (create_proxy env (created_key env m) m) (uc_proxies m) t))"
      if "draft d u0 t" for t
      using that draft_create_proxy fresh u0(1) by (auto intro!: run_all_keeps [of "draft d u0"])
    show "draft d u0 (snd (create_service env now svc t))" if "draft d u0 t" for t
      using that draft_apply_service fresh u0(1)
      by (auto simp: create_service_def draft_pure split: option.split)
  qed
  then have s: "draft d u0 s" by (simp add: run)
  have links: "users (ensure_admin_service_link a sv c) = users c"
    "admins (ensure_admin_service_link a sv c) = admins c" for sv c
    by (simp_all add: ensure_admin_service_link_def split: option.split)
  note def = create_user_def [of env now i d m a svc, unfolded run Let_def prod.case]
  have s': "users (committed s) = users d" "admins (committed s) = admins d"
    "admin_id (obj s) = map_option aid a" "username (obj s) = uc_username m"
    "status (obj s) = (case uc_status m of None \<Rightarrow> Active | Some st \<Rightarrow> st)" "uid (obj s) = i"
    using s u0 by (simp_all add: draft_def same_identity_def)
  show ?thesis
  proof (cases r)
    case (Inl e)
    with res s' show ?thesis by (simp add: def split: if_splits sum.splits)
  next
    case (Inr u)
    with res s' links show ?thesis
      by (simp add: def split: if_splits sum.splits option.splits) auto
  qed
qed

text \<open>The quota after a user was added: the check left a free slot.\<close>

lemma create_user_keeps_quota:
  assumes wf: "wf_db d" and quota: "within_quota d" and fresh: "i \<notin> uid ` set (users d)"
    and owner: "\<forall>adm. a = Some adm \<longrightarrow> adm \<in> set (admins d)"
  shows "within_quota (snd (create_user env now i d m a svc))"
proof -
  obtain r d' where res: "create_user env now i d m a svc = (r, d')" by force
  note eff = create_user_effect [OF fresh res]
  show ?thesis
  proof (cases r)
    case (Inl e)
    then show ?thesis using eff quota quota_cong [of d' d] by (simp add: res)
  next
    case (Inr u)
    show ?thesis
      unfolding within_quota_def
    proof (intro ballI impI)
      fix b assume "b \<in> set (admins (snd (create_user env now i d m a svc)))"
        and enf: "is_user_limit_enforced (Some b)"
      then have b: "b \<in> set (admins d)" using eff by (simp add: res)
      have cnt: "get_active_users_count d' b [] = get_active_users_count d b [] +
          (if active_under (aid b) [] u then 1 else 0)"
        using eff Inr by (simp add: get_active_users_count_def count_where_def)
      have old: "get_active_users_count d b [] \<le> or_zero (users_limit b)"
        using quota b enf by (simp add: within_quota_def)
      have "get_active_users_count d' b [] \<le> or_zero (users_limit b)"
      proof (cases "active_under (aid b) [] u")
        case True
        then obtain adm where a: "a = Some adm" "aid adm = aid b"
          using eff Inr by (cases a) (simp_all add: active_under_def)
        then have "adm = b" using owner b wf by (auto simp: wf_db_def distinct_map dest: inj_onD)
        then have "ensure_active_user_capacity d (Some b) 1 [] = Inr ()"
          using a(1) eff Inr by simp
        from capacity_granted [OF this enf] cnt True show ?thesis by simp
      next
        case False
        then show ?thesis using cnt old by simp
      qed
      then show "get_active_users_count (snd (create_user env now i d m a svc)) b []
          \<le> or_zero (users_limit b)" by (simp add: res)
    qed
  qed
qed

text \<open>Live users have distinct names, whatever their case.\<close>

definition live_names :: "db \<Rightarrow> string list" where
  "live_names d = map (\<lambda>u. lower (username u)) (filter (\<lambda>u. status u \<noteq> Deleted) (users d))"

lemma username_taken_iff: "username_taken d name \<longleftrightarrow> lower name \<in> set (live_names d)"
  by (auto simp: username_taken_def live_names_def list_ex_iff image_iff)

lemma create_user_names:
  assumes "i \<notin> uid ` set (users d)" and "distinct (live_names d)"
  shows "distinct (live_names (snd (create_user env now i d m a svc)))"
proof -
  obtain r d' where res: "create_user env now i d m a svc = (r, d')" by force
  have "distinct (live_names d')"
    using create_user_effect [OF assms(1) res] assms(2)
    by (cases r) (auto simp: live_names_def username_taken_iff)
  then show ?thesis by (simp add: res)
qed

section \<open>Revoking a subscription\<close>

lemma map_res_all2: "map_res f xs = Inr ys \<longleftrightarrow> list_all2 (\<lambda>x y. f x = Inr y) xs ys"
  by (induction xs arbitrary: ys) (auto simp: then_res_Inr list_all2_Cons1)

text \<open>
  After \<open>revoke_user_sub\<close>: what a stored proxy holds of credentials is the id of the new key.
\<close>

definition rotated :: "environment \<Rightarrow> proxy \<Rightarrow> bool" where
  "rotated env x \<longleftrightarrow>
     (ptype x \<in> uuid_protocols \<longrightarrow>
       (\<exists>v. key_to_uuid_text (env_masks env) (ptype x) (fresh_key env) = Inr v \<and>
            setting_get (psettings x) ''id'' = SStr v)) \<and>
     (ptype x \<in> password_protocols \<longrightarrow> setting_get (psettings x) ''password'' = SNone)"

lemma protocols_disjoint: "p \<in> uuid_protocols \<Longrightarrow> p \<notin> password_protocols"
  by (auto simp: uuid_protocols_def password_protocols_def)

lemma serialize_rotates:
  assumes "serialize_proxy_settings masks fu fp st p (Some k) preserve True = Inr data"
    and "k \<noteq> ''''" and "p \<in> uuid_protocols \<longrightarrow> \<not> preserve \<or> \<not> has_setting st ''id''"
  shows "(p \<in> uuid_protocols \<longrightarrow> (\<exists>v. key_to_uuid_text masks p k = Inr v \<and>
      setting_get data ''id'' = SStr v)) \<and>
    (p \<in> password_protocols \<longrightarrow> setting_get data ''password'' = SNone)"
  using assms protocols_disjoint [of p]
  by (auto simp: serialize_proxy_settings_def Let_def key_to_uuid_text_def has_setting_def
      split: sum.splits if_splits)

lemma revoke_legacy_rotated:
  assumes "revoke_legacy_proxy env k x = Inr y" and "k = fresh_key env" and "k \<noteq> ''''"
  shows "rotated env y \<and> ptype y = ptype x"
proof -
  obtain st2 data where "serialize_in env st2 (ptype x) (Some k) False True = Inr data"
    "y = x\<lparr>psettings := data\<rparr>"
    using assms(1) by (auto simp: revoke_legacy_proxy_def then_res_Inr Let_def)
  with serialize_rotates [of "env_masks env" _ _ st2 "ptype x" k False data] assms(2,3)
  show ?thesis by (simp add: serialize_in_def rotated_def)
qed

lemma apply_key_rotated:
  assumes "apply_key_to_proxy env k x = Inr y" and "k = fresh_key env" and "k \<noteq> ''''"
    and "ptype x \<in> uuid_protocols \<longrightarrow> \<not> has_setting (psettings x) ''id''"
  shows "rotated env y \<and> ptype y = ptype x"
proof -
  let ?preserve = "has_setting (psettings x) ''id'' \<and> ptype x \<in> uuid_protocols"
  obtain st data where "serialize_in env st (ptype x) (Some k) ?preserve True = Inr data"
    "y = x\<lparr>psettings := data\<rparr>"
    using assms(1) by (auto simp: apply_key_to_proxy_def then_res_Inr)
  moreover have "ptype x \<in> uuid_protocols \<longrightarrow> \<not> ?preserve \<or> \<not> has_setting st ''id''"
    using assms(4) by blast
  ultimately have "(ptype x \<in> uuid_protocols \<longrightarrow> (\<exists>v. key_to_uuid_text (env_masks env) (ptype x) k = Inr v \<and>
      setting_get data ''id'' = SStr v)) \<and>
    (ptype x \<in> password_protocols \<longrightarrow> setting_get data ''password'' = SNone)"
    using serialize_rotates assms(3) unfolding serialize_in_def by blast
  with \<open>y = _\<close> assms(2)
  show ?thesis by (simp add: serialize_in_def rotated_def)
qed

lemma revoke_rotates:
  assumes key: "normalize_key (fresh_key env) = Inr (fresh_key env)"
    and res: "revoke_user_sub env now d u = Inr (u', d')"
  shows "credential_key u' = Some (fresh_key env) \<and> sub_revoked_at u' = Some now \<and>
    map ptype (proxies u') = map ptype (proxies u) \<and> (\<forall>x \<in> set (proxies u'). rotated env x) \<and>
    d' = save_user u' d"
proof -
  have ne: "fresh_key env \<noteq> ''''" using normalize_key_nonempty [OF key] by (auto split: if_splits)
  obtain f :: "proxy \<Rightarrow> proxy result" where f: "list_all2 (\<lambda>x y. f x = Inr y) (proxies u) (proxies u')"
    "\<forall>x \<in> set (proxies u). \<forall>y. f x = Inr y \<longrightarrow> rotated env y \<and> ptype y = ptype x"
    and rest: "credential_key u' = Some (fresh_key env)" "sub_revoked_at u' = Some now"
      "d' = save_user u' d"
  proof (cases "has_legacy_credentials u")
    case True
    with res obtain ps where ps: "map_res (revoke_legacy_proxy env (fresh_key env)) (proxies u) = Inr ps"
      "u' = u\<lparr>sub_revoked_at := Some now, credential_key := Some (fresh_key env), proxies := ps\<rparr>"
      "d' = save_user u' d"
      by (auto simp: revoke_user_sub_def Let_def then_res_Inr)
    then show thesis
      using that [of "revoke_legacy_proxy env (fresh_key env)"] revoke_legacy_rotated [OF _ refl ne]
      by (auto simp: map_res_all2)
  next
    case False
    with res key obtain ps where ps: "map_res (apply_key_to_proxy env (fresh_key env)) (proxies u) = Inr ps"
      "u' = u\<lparr>sub_revoked_at := Some now, credential_key := Some (fresh_key env), proxies := ps\<rparr>"
      "d' = save_user u' d"
      by (auto simp: revoke_user_sub_def Let_def then_res_Inr apply_key_to_existing_proxies_def)
    have "\<forall>x \<in> set (proxies u). ptype x \<in> uuid_protocols \<longrightarrow> \<not> has_setting (psettings x) ''id''"
      using False by (auto simp: has_legacy_credentials_def has_static_credentials_def list_ex_iff)
    with ps show thesis
      using that [of "apply_key_to_proxy env (fresh_key env)"] apply_key_rotated [OF _ refl ne]
      by (auto simp: map_res_all2)
  qed
  have "map ptype ys = map ptype xs \<and> (\<forall>y \<in> set ys. rotated env y)"
    if "list_all2 (\<lambda>x y. f x = Inr y) xs ys" "set xs \<subseteq> set (proxies u)" for xs ys
    using that by (induction rule: list_all2_induct) (use f(2) in auto)
  with f(1) rest show ?thesis by simp
qed

text \<open>The new key can be read back from what is stored.\<close>

lemma rotated_key:
  assumes "usable_masks (env_masks env)" and key: "normalize_key (fresh_key env) = Inr (fresh_key env)"
    and "\<forall>x \<in> set xs. rotated env x"
  shows "derive_key_from_proxies (env_masks env) (map (\<lambda>x. (ptype x, psettings x)) xs) =
    Inr (if \<exists>x \<in> set xs. ptype x \<in> uuid_protocols then Some (fresh_key env) else None)"
proof -
  have ne: "fresh_key env \<noteq> ''''" using normalize_key_nonempty [OF key] by (auto split: if_splits)
  have "\<exists>v. v \<noteq> '''' \<and> setting_get (psettings x) ''id'' = SStr v \<and>
      uuid_to_key (env_masks env) v (Some (ptype x)) = Inr (fresh_key env)"
    if x: "x \<in> set xs" "ptype x \<in> uuid_protocols" for x
  proof -
    obtain v where "key_to_uuid_text (env_masks env) (ptype x) (fresh_key env) = Inr v"
      "setting_get (psettings x) ''id'' = SStr v"
      using assms(3) x by (auto simp: rotated_def)
    with uuid_codec.encode_decode [OF assms(1) key] show ?thesis by blast
  qed
  then show ?thesis
    unfolding derive_key_from_proxies_def
    by (subst derive_key_agree [OF ne]) auto
qed

section \<open>Recording a subscription request\<close>

lemma update_sub_result:
  assumes "\<forall>n. fetch_user i (users (tables n)) \<noteq> None"
  shows "update_sub_attempts tables outcome now agent i a left = Inr (u', d') \<longleftrightarrow>
    (\<exists>n < left. (\<forall>k < n. outcome (a + k) = Record_changed) \<and> outcome (a + n) = Commit_ok \<and>
       u' = touch_sub now agent (the (fetch_user i (users (tables (a + n))))) \<and>
       d' = save_user u' (tables (a + n)))"
proof (induction left arbitrary: a)
  case (Suc left)
  obtain u where u: "fetch_user i (users (tables a)) = Some u" using assms by blast
  show ?case
  proof (cases "outcome a")
    case Commit_ok
    have "(\<exists>n < Suc left. (\<forall>k < n. outcome (a + k) = Record_changed) \<and> outcome (a + n) = Commit_ok \<and> P n)
      \<longleftrightarrow> P 0" for P
      using Commit_ok by (metis add_0_right commit_outcome.distinct(1) gr0I not_less_zero zero_less_Suc)
    then show ?thesis using Commit_ok u by (auto simp: Let_def)
  next
    case Record_changed
    have split: "(\<exists>n < Suc left. (\<forall>k < n. outcome (a + k) = Record_changed) \<and>
        outcome (a + n) = Commit_ok \<and> P n)
      \<longleftrightarrow> (\<exists>n < left. (\<forall>k < n. outcome (Suc a + k) = Record_changed) \<and>
        outcome (Suc a + n) = Commit_ok \<and> P (Suc n))" for P
      by (subst Ex_less_Suc2) (simp add: Record_changed All_less_Suc2)
    have "fetch_user i (users (tables (Suc a))) \<noteq> None" using assms by blast
    then have "update_sub_attempts tables outcome now agent i a (Suc left) = Inr (u', d') \<longleftrightarrow>
        update_sub_attempts tables outcome now agent i (Suc a) left = Inr (u', d')"
      using Record_changed u by (auto simp: Let_def)
    with Suc.IH [of "Suc a"] show ?thesis by (subst split) simp
  next
    case Other_operational_error
    then show ?thesis using u by (auto intro!: exI [of _ "0::nat"] gr0I)
  qed
qed simp

end
