(* ===== verification/LifecycleSteps.thy ===== *)
theory LifecycleSteps
  imports Rotation Quota
begin

text \<open>
  The operations on users as one step relation, with its reachable states. A step is a call of one
  of the guarded operations with any arguments the API can pass; the invariants are proved for
  each step and hold in every reachable state. Left out are the operations that do not keep the
  quota: the bulk changes of expiry and of data limits, which activate without a check, the two bulk
  loops that check stale counts, a change of owner, the activation of a user on hold by a job, and a
  modification that has to create an inbound.
\<close>

definition system_ok :: "db \<Rightarrow> bool" where
  "system_ok d \<longleftrightarrow> wf_db d \<and> within_quota d"

inductive user_step :: "db \<Rightarrow> db \<Rightarrow> bool" where
  create_step: "i \<notin> uid ` set (users d) \<Longrightarrow> (\<And>x. a = Some x \<Longrightarrow> x \<in> set (admins d)) \<Longrightarrow>
    user_step d (snd (create_user env now i d m a svc))"
| modify_step: "known_tags env d \<Longrightarrow> fetch_user (uid u) (users d) = Some u \<Longrightarrow>
    user_step d (snd (update_user env now d u m svc set_svc a))"
| revoke_step: "fetch_user (uid u) (users d) = Some u \<Longrightarrow>
    revoke_user_sub env now d u = Inr (u', d') \<Longrightarrow> user_step d d'"
| next_plan_step: "fetch_user (uid u) (users d) = Some u \<Longrightarrow>
    reset_user_by_next now d u = Inr (b, d') \<Longrightarrow> user_step d d'"
| reset_step: "fetch_user (uid u) (users d) = Some u \<Longrightarrow>
    reset_user_data_usage now d u = Inr (u', d') \<Longrightarrow> user_step d d'"
| limit_step: "fetch_user (uid u) (users d) = Some u \<Longrightarrow> st \<noteq> Active \<Longrightarrow>
    user_step d (update_user_status now d u st)"
| bulk_step: "(\<And>x. a = Some x \<Longrightarrow> x \<in> set (admins d)) \<Longrightarrow>
    bulk_update_user_status now target a svc without d = Inr (n, d') \<Longrightarrow> user_step d d'"
| activate_step: "a \<in> set (admins d) \<Longrightarrow> user_step d (activate_all_disabled_users now (Some a) d)"
| disable_step: "user_step d (disable_all_active_users now a d)"
| remove_step: "remove_user f1 ensured f2 d u = Inr d' \<Longrightarrow> user_step d d'"
| cleanup_step: "user_step d (snd (delete_users_by_status_age now sts n a svc without d))"

inductive reachable :: "db \<Rightarrow> db \<Rightarrow> bool" where
  start: "reachable d d"
| step: "reachable d0 d \<Longrightarrow> user_step d d' \<Longrightarrow> reachable d0 d'"

inductive_cases user_stepE: "user_step d d'"

section \<open>Writing rows\<close>

lemma quota_le:
  assumes "admins d' = admins d"
    and "\<And>a. a \<in> set (admins d) \<Longrightarrow>
      count_where (active_under (aid a) []) (users d') \<le> count_where (active_under (aid a) []) (users d)"
    and "within_quota d"
  shows "within_quota d'"
  unfolding within_quota_def
proof (intro ballI impI)
  fix a assume "a \<in> set (admins d')" and enf: "is_user_limit_enforced (Some a)"
  then have a: "a \<in> set (admins d)" using assms(1) by simp
  have "get_active_users_count d' a [] \<le> get_active_users_count d a []"
    using assms(2) [OF a] by (simp add: get_active_users_count_def)
  also have "\<dots> \<le> or_zero (users_limit a)" using assms(3) a enf by (simp add: within_quota_def)
  finally show "get_active_users_count d' a [] \<le> or_zero (users_limit a)" .
qed

text \<open>Rewriting rows without making one active, or moving it to another owner.\<close>

lemma update_where_quota:
  assumes "system_ok d" and "\<And>u. sel u \<Longrightarrow> uid (f u) = uid u"
    and "\<And>u. sel u \<Longrightarrow> status (f u) = Active \<Longrightarrow> status u = Active \<and> admin_id (f u) = admin_id u"
    and "users d' = update_where sel f (users d)" and "admins d' = admins d"
  shows "system_ok d'"
proof -
  have "map uid (update_where sel f us) = map uid us" for us
    by (induction us) (auto simp: row_simps assms(2))
  then have "wf_db d'" using assms(1,4,5) by (simp add: system_ok_def wf_db_def)
  moreover have "count_where (active_under k []) (update_where sel f us) \<le>
      count_where (active_under k []) us" for k us
    by (induction us) (use assms(3) in \<open>auto simp: row_simps active_under_def\<close>)
  then have "within_quota d'"
    using assms(1,4,5) by (rule_tac quota_le [of d' d]) (simp_all add: system_ok_def)
  ultimately show ?thesis by (simp add: system_ok_def)
qed

lemma store_is_update: "store_user v us = update_where (\<lambda>u. uid u = uid v) (\<lambda>_. v) us"
  by (simp add: store_by_def update_where_def)

lemma save_inactive:
  assumes "system_ok d" and "fetch_user (uid v) (users d) = Some u"
    and "status v = Active \<longrightarrow> status u = Active \<and> admin_id v = admin_id u"
    and "users d' = store_user v (users d)" and "admins d' = admins d"
  shows "system_ok d'"
proof -
  have dist: "distinct (map uid (users d))" using assms(1) by (simp add: system_ok_def wf_db_def)
  have "count_where (active_under k []) (store_user v (users d)) \<le>
      count_where (active_under k []) (users d)" for k
    by (rule user_table.count_store_le [OF dist assms(2)]) (use assms(3) in \<open>auto simp: active_under_def\<close>)
  then have "within_quota d'" using assms(1,4,5) by (rule_tac quota_le [of d' d]) (simp_all add: system_ok_def)
  moreover have "wf_db d'" using assms(1,4,5) by (simp add: system_ok_def wf_db_def map_key_store_by)
  ultimately show ?thesis by (simp add: system_ok_def)
qed

lemma delete_rows_ok:
  assumes "system_ok d" shows "system_ok (delete_rows us d)"
proof -
  have "wf_db (delete_rows us d)"
    using assms by (simp add: system_ok_def wf_db_def delete_rows_def distinct_map_filter)
  moreover have "count_where p (filter q xs) \<le> count_where p xs" for p :: "user \<Rightarrow> bool" and q xs
    by (induction xs) (auto simp: row_simps)
  then have "within_quota (delete_rows us d)"
    using assms by (rule_tac quota_le [of "delete_rows us d" d]) (simp_all add: system_ok_def delete_rows_def)
  ultimately show ?thesis by (simp add: system_ok_def)
qed

section \<open>Every step keeps the system in order\<close>

lemma create_user_wf:
  assumes "wf_db d" and "i \<notin> uid ` set (users d)"
  shows "wf_db (snd (create_user env now i d m a svc))"
proof -
  obtain r d' where res: "create_user env now i d m a svc = (r, d')" by force
  show ?thesis
    using create_user_effect [OF assms(2) res] assms by (cases r) (auto simp: wf_db_def res)
qed

lemma update_user_wf:
  assumes "known_tags env d" and "wf_db d"
  shows "wf_db (snd (update_user env now d u m svc set_svc a))"
  using update_user_known [OF assms(1), where now = now and u = u and m = m and svc = svc and
      service_set = set_svc and a = a] assms(2)
  by (auto simp: wf_db_def map_key_store_by split: prod.splits sum.splits)

lemma next_plan_ok:
  assumes ok: "system_ok d" and u: "fetch_user (uid u) (users d) = Some u"
    and res: "reset_user_by_next now d u = Inr (b, d')"
  shows "system_ok d'"
proof (cases b)
  case False
  then show ?thesis using res ok by (auto simp: reset_user_by_next_def split: prod.splits sum.splits if_splits)
next
  case True
  then obtain u' where "reset_user_by_next_obj now d u = (Inr True, u')" "d' = save_user u' d"
    using res by (auto simp: reset_user_by_next_def split: prod.splits sum.splits if_splits)
  then have "next_plan_change now d u = Inr u'" "d' = save_user u' d" by (simp_all add: next_plan_change_def)
  with ok u show ?thesis using next_plan.keeps_quota by (auto simp: system_ok_def)
qed

lemma revoke_keeps:
  assumes "revoke_user_sub env now d u = Inr (u', d')"
  shows "uid u' = uid u \<and> status u' = status u \<and> admin_id u' = admin_id u \<and> d' = save_user u' d"
  using assms by (auto simp: revoke_user_sub_def Let_def then_res_Inr apply_key_to_existing_proxies_def
      split: if_splits)

lemma remove_user_ok:
  assumes "system_ok d" and "remove_user f1 ensured f2 d u = Inr d'"
  shows "system_ok d'"
proof -
  have "system_ok (save_user (u\<lparr>status := Deleted\<rparr>) d)"
    by (rule update_where_quota [OF assms(1), of "\<lambda>v. uid v = uid u" "\<lambda>_. u\<lparr>status := Deleted\<rparr>"])
      (simp_all add: store_is_update)
  then show ?thesis
    using assms delete_rows_ok by (auto simp: remove_user_def Let_def split: if_splits)
qed

theorem user_step_ok:
  assumes "user_step d d'" and "system_ok d"
  shows "system_ok d'"
  using assms
proof (induction rule: user_step.induct)
  case (create_step i d a env now m svc)
  then show ?case
    using create_user_keeps_quota create_user_wf by (simp add: system_ok_def)
next
  case (modify_step env d u now m svc set_svc a)
  then show ?case using update_user_keeps_quota update_user_wf by (simp add: system_ok_def)
next
  case (revoke_step u d env now u' d')
  show ?case
    by (rule save_inactive [OF revoke_step(3), of u' u])
      (use revoke_keeps [OF revoke_step(2)] revoke_step(1) in simp_all)
next
  case (next_plan_step u d now b d')
  then show ?case using next_plan_ok by blast
next
  case (reset_step u d now u' d')
  then show ?case
    using usage_reset.keeps_quota [of d u now u']
    by (auto simp: system_ok_def reset_user_data_usage_def then_res_Inr)
next
  case (limit_step u d st now)
  show ?case
    by (rule save_inactive [OF limit_step(3), of "u\<lparr>status := st, last_status_change := Some now\<rparr>" u])
      (use limit_step(1,2) in \<open>simp_all add: update_user_status_def\<close>)
next
  case (bulk_step a d now target svc without n d')
  moreover have "map uid (users d') = map uid (users d) \<and> admins d' = admins d"
    using bulk_step(2) by (auto simp: bulk_update_user_status_def Let_def then_res_Inr update_where_def)
  ultimately show ?case using bulk_status_keeps_quota [of d a] by (simp add: system_ok_def wf_db_def)
next
  case (activate_step a d now)
  then show ?case using activate_all_keeps_quota [of d a now]
    by (simp add: system_ok_def wf_db_def activate_all_disabled_users_def Let_def
        user_table.fold_store_keys)
next
  case (disable_step d now a)
  show ?case
    by (rule update_where_quota [OF disable_step]) (auto simp: disable_all_active_users_def)
next
  case (remove_step f1 ensured f2 d u d')
  then show ?case using remove_user_ok by blast
next
  case (cleanup_step d now sts n a svc without)
  show ?case
    by (rule update_where_quota [OF cleanup_step]) (auto simp: delete_users_by_status_age_def Let_def)
qed

lemma reachable_ok: "reachable d0 d \<Longrightarrow> system_ok d0 \<Longrightarrow> system_ok d"
  by (induction rule: reachable.induct) (auto intro: user_step_ok)

end
