(* ===== verification/ReviewJob.thy ===== *)
theory ReviewJob
  imports UsageJob DueUsers
begin

text \<open>
  The review job, \<open>app/jobs/review_users.py\<close>, and the periodic traffic reset,
  \<open>app/jobs/reset_user_data_usage.py\<close>. The review works through the active users and then
  through the users on hold, one batch per run; where it stopped is kept in Redis. An exception
  of the runtime or of a report that the code does not catch ends the run.
\<close>

text \<open>
  Lemmas on the periodic jobs: what a review half does to the rows of its batch, when it makes
  progress and when it cannot, that both jobs end a hold on the same condition, and what a refused
  periodic reset leaves behind.
\<close>

section \<open>The review\<close>

text \<open>
  The outside of a run: the time it started, the time and the outcome for each user, whether the
  run is over its time after a user, the traffic pending in Redis with the last time the user was
  seen, a value that replaces the traffic, and the offset of the local time zone, which
  \<open>datetime.timestamp\<close> applies to a naive value.
\<close>

record review_env =
  rv_now :: instant
  rv_clock :: "int \<Rightarrow> instant"
  rv_late :: "int \<Rightarrow> bool"
  rv_pending :: "int \<Rightarrow> int \<times> instant option"
  rv_override :: "int \<Rightarrow> int option"
  rv_runtime_ok :: "user \<Rightarrow> bool"
  rv_tz :: int
  rv_batch :: nat
  rv_redis :: bool

record review_state =
  rs_db :: db
  rs_active_id :: "int option"
  rs_hold_id :: "int option"

definition get_user_used_traffic :: "review_env \<Rightarrow> user \<Rightarrow> int" where
  "get_user_used_traffic env u = (case rv_override env (uid u) of
     Some v \<Rightarrow> v | None \<Rightarrow> used_traffic u + fst (rv_pending env (uid u)))"

definition is_user_limited :: "review_env \<Rightarrow> user \<Rightarrow> bool" where
  "is_user_limited env u = (case data_limit u of None \<Rightarrow> False
     | Some l \<Rightarrow> l \<noteq> 0 \<and> get_user_used_traffic env u \<ge> l)"

definition batch_users_by_status :: "review_env \<Rightarrow> db \<Rightarrow> user_status \<Rightarrow> int option \<Rightarrow> user list" where
  "batch_users_by_status env d st after_id = take (rv_batch env) (sort_key uid (filter
     (\<lambda>u. status u \<noteq> Deleted \<and> status u = st \<and>
        (case after_id of None \<Rightarrow> True | Some i \<Rightarrow> uid u > i)) (users d)))"

text \<open>
  \<open>reset_user_by_next_report\<close>: where the plan has to wait, \<open>reset_user_by_next\<close> returns \<open>None\<close>
  and the report cannot be built.
\<close>

definition reset_user_by_next_report :: "review_env \<Rightarrow> db \<Rightarrow> user \<Rightarrow> exn option \<times> db" where
  "reset_user_by_next_report env d u = (case reset_user_by_next (rv_clock env (uid u)) d u of
     Inl e \<Rightarrow> (Some e, d)
   | Inr (applied, d') \<Rightarrow>
       if \<not> applied then (Some (Value_error ''UserResponse''), d')
       else if rv_runtime_ok env u then (None, d') else (Some Runtime_error, d'))"

definition review_active :: "review_env \<Rightarrow> user \<Rightarrow> db \<Rightarrow> exn option \<times> db" where
  "review_active env u d =
     (let limited = is_user_limited env u; expired = over_time (rv_now env) u in
      if (limited \<or> expired) \<and> (case next_plan_of u of None \<Rightarrow> False
            | Some plan \<Rightarrow> fire_on_either plan \<or> (limited \<and> expired))
      then reset_user_by_next_report env d u
      else if limited then (None, update_user_status (rv_clock env (uid u)) d u Limited)
      else if expired then (None, update_user_status (rv_clock env (uid u)) d u Expired)
      else (None, d))"

definition naive_timestamp :: "review_env \<Rightarrow> instant \<Rightarrow> instant" where
  "naive_timestamp env t = t - rv_tz env"

definition effective_online :: "review_env \<Rightarrow> user \<Rightarrow> instant option" where
  "effective_online env u = (case snd (rv_pending env (uid u)) of
     None \<Rightarrow> online_at u
   | Some p \<Rightarrow> (case online_at u of None \<Rightarrow> Some p
       | Some t \<Rightarrow> if p > t then Some p else Some t))"

definition hold_is_over :: "review_env \<Rightarrow> user \<Rightarrow> bool" where
  "hold_is_over env u =
     (let base = naive_timestamp env (case edit_at u of Some t \<Rightarrow> t | None \<Rightarrow> created_at u) in
      (case effective_online env u of None \<Rightarrow> False | Some t \<Rightarrow> base \<le> naive_timestamp env t) \<or>
      (case on_hold_timeout u of None \<Rightarrow> False | Some t \<Rightarrow> naive_timestamp env t \<le> rv_now env))"

definition review_on_hold :: "review_env \<Rightarrow> user \<Rightarrow> db \<Rightarrow> exn option \<times> db" where
  "review_on_hold env u d =
     (if \<not> hold_is_over env u then (None, d)
      else let t = rv_clock env (uid u);
               u' = u\<lparr>status := Active, last_status_change := Some t\<rparr>;
               d' = update_user_status t d u Active
           in case start_user_expire t d' u' of
                Inl e \<Rightarrow> (Some e, d')
              | Inr d'' \<Rightarrow> if rv_runtime_ok env u then (None, d'') else (Some Runtime_error, d''))"

fun review_loop :: "(user \<Rightarrow> db \<Rightarrow> exn option \<times> db) \<Rightarrow> (int \<Rightarrow> bool) \<Rightarrow> user list \<Rightarrow> int option \<Rightarrow> db \<Rightarrow>
    exn option \<times> int option \<times> db" where
  "review_loop step late [] last_id d = (None, last_id, d)"
| "review_loop step late (u # us) last_id d = (case step u d of
     (Some e, d') \<Rightarrow> (Some e, last_id, d')
   | (None, d') \<Rightarrow> if late (uid u) then (None, Some (uid u), d')
       else review_loop step late us (Some (uid u)) d')"

text \<open>
  One half of a run: load the position, review a batch, store the position. Without Redis there
  is no position to load.
\<close>

definition review_half :: "review_env \<Rightarrow> (user \<Rightarrow> db \<Rightarrow> exn option \<times> db) \<Rightarrow> user_status \<Rightarrow> int option \<Rightarrow>
    db \<Rightarrow> exn option \<times> int option \<times> db" where
  "review_half env step st stored d =
     (let last_id = (if rv_redis env then stored else None);
          batch = batch_users_by_status env d st last_id
      in if batch = [] then (None, if rv_redis env then Some 0 else stored, d)
         else case review_loop step (rv_late env) batch last_id d of
           (Some e, _, d') \<Rightarrow> (Some e, stored, d')
         | (None, i, d') \<Rightarrow> (None, if rv_redis env \<and> i \<noteq> None then i else stored, d'))"

text \<open>\<open>over\<close> says whether the run is over its time after the first half.\<close>

definition review :: "review_env \<Rightarrow> bool \<Rightarrow> review_state \<Rightarrow> exn option \<times> review_state" where
  "review env over s =
     (case review_half env (review_active env) Active (rs_active_id s) (rs_db s) of
        (Some e, _, d) \<Rightarrow> (Some e, s\<lparr>rs_db := d\<rparr>)
      | (None, i, d) \<Rightarrow>
         (let s1 = s\<lparr>rs_db := d, rs_active_id := i\<rparr> in
          if over then (None, s1)
          else case review_half env (review_on_hold env) On_hold (rs_hold_id s1) d of
            (Some e, _, d') \<Rightarrow> (Some e, s1\<lparr>rs_db := d'\<rparr>)
          | (None, j, d') \<Rightarrow> (None, s1\<lparr>rs_db := d', rs_hold_id := j\<rparr>)))"

section \<open>The periodic reset\<close>

definition strategy_days :: "reset_strategy \<Rightarrow> int option" where
  "strategy_days st = (case st of No_reset \<Rightarrow> None | Day \<Rightarrow> Some 1 | Week \<Rightarrow> Some 7
     | Month \<Rightarrow> Some 30 | Year \<Rightarrow> Some 365)"

definition reset_due :: "instant \<Rightarrow> user \<Rightarrow> bool" where
  "reset_due now u = (case strategy_days (data_limit_reset_strategy u) of None \<Rightarrow> False
     | Some n \<Rightarrow> now - last_traffic_reset_time u \<ge> n * 86400 * usecs)"

text \<open>
  The session of the job: the committed tables and the objects whose changes are pending. A refused
  reset is caught and leaves its object changed, and the next commit writes it.
\<close>

record reset_session =
  rj_db :: db
  rj_pending :: "user list"

definition periodic_reset_one :: "(int \<Rightarrow> instant) \<Rightarrow> instant \<Rightarrow> user \<Rightarrow> reset_session \<Rightarrow> reset_session" where
  "periodic_reset_one clock now u s =
     (if \<not> reset_due now u then s
      else case reset_user_data_usage_obj (clock (uid u)) (rj_db s) u of
        Inl _ \<Rightarrow> s\<lparr>rj_pending := rj_pending s @ [reset_logged (clock (uid u)) u]\<rparr>
      | Inr u' \<Rightarrow> \<lparr>rj_db = (rj_db s)\<lparr>users := fold store_user (rj_pending s @ [u']) (users (rj_db s))\<rparr>,
          rj_pending = []\<rparr>)"

definition periodic_reset :: "(int \<Rightarrow> instant) \<Rightarrow> instant \<Rightarrow> db \<Rightarrow> db" where
  "periodic_reset clock now d = rj_db (fold (periodic_reset_one clock now)
     (filter (\<lambda>u. status u \<in> {Active, Limited} \<and> data_limit_reset_strategy u \<noteq> No_reset) (users d))
     \<lparr>rj_db = d, rj_pending = []\<rparr>)"

section \<open>Ending a hold\<close>

lemma hold_conditions_agree:
  assumes "status u = On_hold" and "snd (rv_pending env (uid u)) = None" and "rv_tz env = 0"
  shows "hold_is_over env u = should_reactivate_on_hold (rv_now env) u"
  using assms
  by (simp add: hold_is_over_def should_reactivate_on_hold_def naive_timestamp_def
      effective_online_def Let_def split: option.split)

section \<open>Steps that write their own row\<close>

locale row_step =
  fixes step :: "user \<Rightarrow> db \<Rightarrow> exn option \<times> db"
  assumes own_row: "step u d = (r, d') \<Longrightarrow> k \<noteq> uid u \<Longrightarrow>
      fetch_user k (users d') = fetch_user k (users d)"
begin

lemma loop_other: "review_loop step late us i d = (r, j, d') \<Longrightarrow> k \<notin> uid ` set us \<Longrightarrow>
    fetch_user k (users d') = fetch_user k (users d)"
proof (induction us arbitrary: i d)
  case (Cons u us)
  obtain r1 d1 where 1: "step u d = (r1, d1)" by force
  have "fetch_user k (users d1) = fetch_user k (users d)"
    using own_row [OF 1] Cons.prems(2) by simp
  then show ?case using Cons 1 by (auto split: option.splits if_splits)
qed simp

text \<open>A loop that neither raises nor runs late ends at its last user, every row stepped.\<close>

lemma loop_end: "review_loop step late us i d = (None, j, d') \<Longrightarrow> \<forall>u \<in> set us. \<not> late (uid u) \<Longrightarrow>
    j = (if us = [] then i else Some (uid (last us)))"
proof (induction us arbitrary: i d)
  case (Cons u us)
  then obtain d1 where "review_loop step late us (Some (uid u)) d1 = (None, j, d')"
    by (auto split: prod.splits option.splits)
  then show ?case using Cons.IH Cons.prems(2) by auto
qed simp

lemma loop_row:
  assumes "review_loop step late us i d = (None, j, d')" and "\<forall>u \<in> set us. \<not> late (uid u)"
    and "distinct (map uid us)" and "u \<in> set us"
    and "\<And>e e'. step u e = (None, e') \<Longrightarrow> fetch_user (uid u) (users e) = fetch_user (uid u) (users d) \<Longrightarrow>
       P (fetch_user (uid u) (users e'))"
  shows "P (fetch_user (uid u) (users d'))"
  using assms
proof (induction us arbitrary: i d)
  case (Cons v us)
  obtain d1 where 1: "step v d = (None, d1)" "review_loop step late us (Some (uid v)) d1 = (None, j, d')"
    using Cons.prems(1,2) by (auto split: prod.splits option.splits)
  show ?case
  proof (cases "v = u")
    case True
    then have "uid u \<notin> uid ` set us" using Cons.prems(3) by simp
    then have "fetch_user (uid u) (users d') = fetch_user (uid u) (users d1)"
      using loop_other [OF 1(2)] by blast
    then show ?thesis using Cons.prems(5) [of d d1] 1(1) True by simp
  next
    case False
    then have u: "u \<in> set us" using Cons.prems(4) by simp
    then have "uid u \<in> uid ` set us" by blast
    then have "uid u \<noteq> uid v" using Cons.prems(3) by (metis distinct.simps(2) list.set_map list.simps(9))
    then have same: "fetch_user (uid u) (users d1) = fetch_user (uid u) (users d)"
      using own_row [OF 1(1)] by simp
    show ?thesis
      by (rule Cons.IH [OF 1(2)]) (use Cons.prems u same in auto)
  qed
qed simp

end

lemma store_other [simp]: "k \<noteq> uid u \<Longrightarrow> fetch_user k (store_user u rows) = fetch_user k rows"
  by (simp add: user_table.fetch_store_other)

lemma update_status_other [simp]:
  "k \<noteq> uid u \<Longrightarrow> fetch_user k (users (update_user_status t d u st)) = fetch_user k (users d)"
  by (simp add: update_user_status_def)

lemma reset_by_next_other:
  assumes "reset_user_by_next t d u = Inr (b, d')" and "k \<noteq> uid u"
  shows "fetch_user k (users d') = fetch_user k (users d)"
proof -
  obtain r u' where r: "reset_user_by_next_obj t d u = (r, u')" by force
  then have "uid u' = uid u" by (rule reset_obj_uid)
  with assms r show ?thesis
    by (auto simp: reset_user_by_next_def split: sum.splits if_splits)
qed

interpretation review_active: row_step "review_active env" for env
proof
  fix u d r d' k assume "review_active env u d = (r, d')" "k \<noteq> uid u"
  then show "fetch_user k (users d') = fetch_user k (users d)"
    by (auto simp: review_active_def reset_user_by_next_report_def Let_def reset_by_next_other
        split: if_splits sum.splits prod.splits option.splits)
qed

lemma start_expire_other:
  "start_user_expire t d u = Inr d' \<Longrightarrow> k \<noteq> uid u \<Longrightarrow> fetch_user k (users d') = fetch_user k (users d)"
  by (auto simp: start_user_expire_def split: option.splits)

interpretation review_on_hold: row_step "review_on_hold env" for env
proof
  fix u d r d' k assume "review_on_hold env u d = (r, d')" "k \<noteq> uid u"
  then show "fetch_user k (users d') = fetch_user k (users d)"
    using start_expire_other [of "rv_clock env (uid u)" "update_user_status (rv_clock env (uid u)) d u Active"
        "u\<lparr>status := Active, last_status_change := Some (rv_clock env (uid u))\<rparr>" _ k]
    by (auto simp: review_on_hold_def Let_def split: if_splits sum.splits)
qed

section \<open>Progress\<close>

lemma batch_props:
  assumes "wf_db d"
  shows "distinct (map uid (batch_users_by_status env d st i))"
    and "u \<in> set (batch_users_by_status env d st i) \<Longrightarrow>
      fetch_user (uid u) (users d) = Some u \<and> status u = st"
proof -
  have dist: "distinct (map uid (users d))" using assms by (simp add: wf_db_def)
  let ?L = "sort_key uid (filter (\<lambda>u. status u \<noteq> Deleted \<and> status u = st \<and>
        (case i of None \<Rightarrow> True | Some i \<Rightarrow> uid u > i)) (users d))"
  have "distinct (map uid ?L)" using dist by (simp add: distinct_uid_sort distinct_map_filter)
  then show "distinct (map uid (batch_users_by_status env d st i))"
    by (simp add: batch_users_by_status_def flip: take_map)
  show "u \<in> set (batch_users_by_status env d st i) \<Longrightarrow>
      fetch_user (uid u) (users d) = Some u \<and> status u = st"
    using user_table.fetch_member [OF dist, of u]
    by (auto simp: batch_users_by_status_def dest!: in_set_takeD)
qed

text \<open>
  A half that is not cut short moves every user over a limit of its batch that has no next plan,
  and stores its last user as the position.
\<close>

definition review_target :: "review_env \<Rightarrow> user \<Rightarrow> user_status" where
  "review_target env u = (if is_user_limited env u then Limited
     else if over_time (rv_now env) u then Expired else Active)"

lemma active_half_moves:
  assumes wf: "wf_db d"
    and res: "review_half env (review_active env) Active stored d = (None, i, d')"
    and u: "u \<in> set (batch_users_by_status env d Active (if rv_redis env then stored else None))"
    and no_plan: "next_plans u = []"
    and in_time: "\<forall>v \<in> set (batch_users_by_status env d Active (if rv_redis env then stored else None)).
      \<not> rv_late env (uid v)"
  shows "\<exists>v. fetch_user (uid u) (users d') = Some v \<and> status v = review_target env u"
    and "rv_redis env \<longrightarrow> i = Some (uid (last (batch_users_by_status env d Active stored)))"
proof -
  let ?b = "batch_users_by_status env d Active (if rv_redis env then stored else None)"
  obtain j where l: "review_loop (review_active env) (rv_late env) ?b
      (if rv_redis env then stored else None) d = (None, j, d')"
    and i: "i = (if rv_redis env \<and> j \<noteq> None then j else stored)"
    using res u by (auto simp: review_half_def Let_def split: if_splits prod.splits option.splits)
  have row: "fetch_user (uid u) (users d) = Some u" "status u = Active"
    using batch_props(2) [OF wf u] by auto
  show "\<exists>v. fetch_user (uid u) (users d') = Some v \<and> status v = review_target env u"
  proof (rule review_active.loop_row [OF l in_time batch_props(1) [OF wf] u])
    fix e e' assume s: "review_active env u e = (None, e')"
      and same: "fetch_user (uid u) (users e) = fetch_user (uid u) (users d)"
    have "fetch_user (uid u) (users e) \<noteq> None" using same row by simp
    with s same row no_plan
    show "\<exists>v. fetch_user (uid u) (users e') = Some v \<and> status v = review_target env u"
      by (auto simp: review_active_def Let_def next_plan_of_def review_target_def update_user_status_def
          user_table.fetch_store split: if_splits)
  qed
  have "j = Some (uid (last ?b))" using review_active.loop_end [OF l in_time] u by (auto split: if_splits)
  with i show "rv_redis env \<longrightarrow> i = Some (uid (last (batch_users_by_status env d Active stored)))"
    by auto
qed

text \<open>
  Without Redis every run starts again at the smallest id: when no user of the first batch is over
  a limit, the half does nothing at all, so it never comes to the users after the batch.
\<close>

lemma active_half_idle:
  assumes "\<not> rv_redis env"
    and "\<forall>u \<in> set (batch_users_by_status env d Active None). \<not> is_user_limited env u \<and>
      \<not> over_time (rv_now env) u"
  shows "review_half env (review_active env) Active stored d = (None, stored, d)"
proof -
  have "fst (review_loop (review_active env) (rv_late env) us i d) = None \<and>
      snd (snd (review_loop (review_active env) (rv_late env) us i d)) = d"
    if "\<forall>u \<in> set us. \<not> is_user_limited env u \<and> \<not> over_time (rv_now env) u" for us i
    using that by (induction us arbitrary: i) (auto simp: review_active_def Let_def)
  from this [OF assms(2), of None] assms(1) show ?thesis
    by (auto simp: review_half_def Let_def split: prod.split option.split)
qed

text \<open>
  An active user whose time is over and whose plan waits for a first connection ends the run, and
  every later one: nothing is written, not even the position.
\<close>

lemma review_blocked:
  assumes "batch_users_by_status env (rs_db s) Active (if rv_redis env then rs_active_id s else None) = u # us"
    and "next_plan_of u = Some plan" and "start_on_first_connect plan" and "fire_on_either plan"
    and "online_at u = None" and "used_traffic u = 0" and "over_time (rv_now env) u"
  shows "review env over s = (Some (Value_error ''UserResponse''), s)"
proof -
  have "review_active env u (rs_db s) = (Some (Value_error ''UserResponse''), rs_db s)"
    using assms(2-7)
    by (simp add: review_active_def Let_def reset_user_by_next_report_def reset_user_by_next_def
        reset_user_by_next_obj_def)
  then show ?thesis using assms(1) by (simp add: review_def review_half_def Let_def)
qed

section \<open>The periodic reset\<close>

text \<open>A refused reset is written by the next user's: the counter is cleared, the status is not.\<close>

lemma refused_reset_written:
  assumes "rj_pending s = []" and "reset_due now u" and "reset_due now w" and "uid w \<noteq> uid u"
    and "fetch_user (uid u) (users (rj_db s)) \<noteq> None"
    and "reset_user_data_usage_obj (clock (uid u)) (rj_db s) u = Inl e"
    and "reset_user_data_usage_obj (clock (uid w)) (rj_db s) w = Inr w'" and "uid w' = uid w"
  shows "fetch_user (uid u) (users (rj_db
      (periodic_reset_one clock now w (periodic_reset_one clock now u s)))) =
    Some (reset_logged (clock (uid u)) u)"
  using assms by (simp add: periodic_reset_one_def user_table.fetch_store reset_logged_def)

end
