(* ===== verification/UsageJobFacts.thy ===== *)
theory UsageJobFacts
  imports UsageJob
begin

text \<open>
  Lemmas on the usage job: the totals are conserved from the samples to the tables, the due users
  are found and moved, and the retries of a statement.
\<close>

section \<open>Sums\<close>

lemma dict_get0_fold_add:
  "dict_get0 (fold (\<lambda>(k, v). dict_add k (f v)) xs acc) k =
     dict_get0 acc k + sum_list (map (\<lambda>(k', v). if k' = k then f v else 0) xs)"
  by (induction xs arbitrary: acc) (auto simp: dict_simps)

lemma dict_distinct_fold_add:
  "distinct (map fst acc) \<Longrightarrow> distinct (map fst (fold (\<lambda>(k, v). dict_add k (f v)) xs acc))"
  by (induction xs arbitrary: acc) (auto simp: dict_simps)

lemma dict_total_fold_add:
  "distinct (map fst acc) \<Longrightarrow> dict_total (fold (\<lambda>(k, v). dict_add k (f v)) xs acc) =
     dict_total acc + sum_list (map (f \<circ> snd) xs)"
  by (induction xs arbitrary: acc) (auto simp: dict_simps dict_distinct_add)

definition scaled :: "('c \<Rightarrow> int \<Rightarrow> int) \<Rightarrow> 'c option \<Rightarrow> int \<Rightarrow> int" where
  "scaled scale c v = (case c of None \<Rightarrow> v | Some k \<Rightarrow> scale k v)"

lemma add_node_usage_alt:
  "add_node_usage scale c params acc = fold (\<lambda>(u, v). dict_add u (scaled scale c v)) params acc"
  by (simp add: add_node_usage_def scaled_def)

text \<open>What the nodes report, node by node, is what the aggregate adds up to.\<close>

lemma aggregate_get0:
  "dict_get0 (aggregate_user_usage scale api coefficient) u =
     sum_list (map (\<lambda>(n, params). sum_list (map (\<lambda>(u', v).
       if u' = u then scaled scale (coefficient n) v else 0) params)) api)"
proof -
  have "dict_get0 (fold (\<lambda>(n, params). add_node_usage scale (coefficient n) params) api acc) u =
      dict_get0 acc u + sum_list (map (\<lambda>(n, params). sum_list (map (\<lambda>(u', v).
       if u' = u then scaled scale (coefficient n) v else 0) params)) api)" for acc
    by (induction api arbitrary: acc) (auto simp: add_node_usage_alt dict_get0_fold_add)
  then show ?thesis by (simp add: aggregate_user_usage_def dict_simps)
qed

lemma aggregate_distinct: "distinct (map fst (aggregate_user_usage scale api coefficient))"
proof -
  have "distinct (map fst acc) \<Longrightarrow>
      distinct (map fst (fold (\<lambda>(n, params). add_node_usage scale (coefficient n) params) api acc))" for acc
    by (induction api arbitrary: acc) (auto simp: add_node_usage_alt dict_distinct_fold_add)
  then show ?thesis by (simp add: aggregate_user_usage_def)
qed

lemma aggregate_total:
  "dict_total (aggregate_user_usage scale api coefficient) =
     sum_list (map (\<lambda>(n, params). sum_list (map (scaled scale (coefficient n) \<circ> snd) params)) api)"
proof -
  have "distinct (map fst acc) \<Longrightarrow>
      dict_total (fold (\<lambda>(n, params). add_node_usage scale (coefficient n) params) api acc) =
      dict_total acc + sum_list (map (\<lambda>(n, params).
        sum_list (map (scaled scale (coefficient n) \<circ> snd) params)) api)" for acc
    by (induction api arbitrary: acc)
      (auto simp: add_node_usage_alt dict_total_fold_add dict_distinct_fold_add)
  then show ?thesis by (simp add: aggregate_user_usage_def dict_simps)
qed

text \<open>Who a sample counts for.\<close>

definition owner_in :: "(int \<Rightarrow> (int option \<times> int option) option) \<Rightarrow> int \<Rightarrow> int option" where
  "owner_in mapping i = (case mapping i of None \<Rightarrow> None | Some (a, _) \<Rightarrow> or_none a)"

definition service_in :: "(int \<Rightarrow> (int option \<times> int option) option) \<Rightarrow> int \<Rightarrow> int option" where
  "service_in mapping i = (case mapping i of None \<Rightarrow> None | Some (_, s) \<Rightarrow> or_none s)"

definition sum_where :: "(int \<Rightarrow> bool) \<Rightarrow> (int \<times> int) list \<Rightarrow> int" where
  "sum_where sel samples = sum_list (map (\<lambda>(i, v). if sel i then v else 0) samples)"

lemma sum_where_simps [simp]: "sum_where sel [] = 0"
  "sum_where sel ((i, v) # samples) = (if sel i then v else 0) + sum_where sel samples"
  by (simp_all add: sum_where_def)

lemma collect_one_effect:
  "dict_get0 (admin_usage (collect_one mapping (i, v) t)) a =
     dict_get0 (admin_usage t) a + (if owner_in mapping i = Some a then v else 0)"
  "dict_get0 (service_usage (collect_one mapping (i, v) t)) s =
     dict_get0 (service_usage t) s + (if service_in mapping i = Some s then v else 0)"
  "dict_get0 (admin_service_usage (collect_one mapping (i, v) t)) (a, s) =
     dict_get0 (admin_service_usage t) (a, s) +
       (if owner_in mapping i = Some a \<and> service_in mapping i = Some s then v else 0)"
  by (auto simp: collect_one_def Let_def dict_simps owner_in_def service_in_def or_none_def truthy_def
      split: option.splits)

lemma collect_totals:
  "dict_get0 (admin_usage (collect_admin_service_usage samples mapping)) a =
     sum_where (\<lambda>i. owner_in mapping i = Some a) samples"
  "dict_get0 (service_usage (collect_admin_service_usage samples mapping)) s =
     sum_where (\<lambda>i. service_in mapping i = Some s) samples"
  "dict_get0 (admin_service_usage (collect_admin_service_usage samples mapping)) (a, s) =
     sum_where (\<lambda>i. owner_in mapping i = Some a \<and> service_in mapping i = Some s) samples"
proof -
  have "dict_get0 (admin_usage (fold (collect_one mapping) samples t)) a =
      dict_get0 (admin_usage t) a + sum_where (\<lambda>i. owner_in mapping i = Some a) samples"
    "dict_get0 (service_usage (fold (collect_one mapping) samples t)) s =
      dict_get0 (service_usage t) s + sum_where (\<lambda>i. service_in mapping i = Some s) samples"
    "dict_get0 (admin_service_usage (fold (collect_one mapping) samples t)) (a, s) =
      dict_get0 (admin_service_usage t) (a, s) +
        sum_where (\<lambda>i. owner_in mapping i = Some a \<and> service_in mapping i = Some s) samples" for t
    by (induction samples arbitrary: t) (auto simp: collect_one_effect)
  then show "dict_get0 (admin_usage (collect_admin_service_usage samples mapping)) a =
     sum_where (\<lambda>i. owner_in mapping i = Some a) samples"
    "dict_get0 (service_usage (collect_admin_service_usage samples mapping)) s =
       sum_where (\<lambda>i. service_in mapping i = Some s) samples"
    "dict_get0 (admin_service_usage (collect_admin_service_usage samples mapping)) (a, s) =
       sum_where (\<lambda>i. owner_in mapping i = Some a \<and> service_in mapping i = Some s) samples"
    by (simp_all add: collect_admin_service_usage_def dict_simps)
qed

section \<open>Statements\<close>

lemma safe_attempts_Inr: "safe_attempts mysql outcome n left = Inr b \<Longrightarrow> left > 0 \<Longrightarrow> b"
  by (induction left arbitrary: n) (auto split: if_splits)

lemma safe_attempts_ok:
  assumes "k < left" and "outcome (n + k) = Exec_ok" and "\<forall>j < k. retried mysql (outcome (n + j))"
  shows "safe_attempts mysql outcome n left = Inr True"
  using assms
proof (induction left arbitrary: n k)
  case (Suc left)
  show ?case
  proof (cases k)
    case 0
    then show ?thesis using Suc.prems by simp
  next
    case (Suc k')
    have "retried mysql (outcome n)" using Suc.prems(3) Suc by (metis add_0_right zero_less_Suc)
    moreover have "safe_attempts mysql outcome (Suc n) left = Inr True"
      using Suc.IH [of k' "Suc n"] Suc.prems Suc by (metis Suc_less_eq add_Suc_shift)
    moreover have "left > 0" using Suc.prems(1) Suc by simp
    ultimately show ?thesis by simp
  qed
qed simp

lemma safe_execute_Inr:
  "safe_execute mysql outcome 3 stmt d = (Inr x, d') \<Longrightarrow> d' = stmt d"
  using safe_attempts_Inr [of mysql outcome 0 3]
  by (auto simp: safe_execute_def split: sum.splits if_splits)

lemma add_nothing [simp]: "add_to_admins [] d = d" "add_to_services [] d = d" "add_to_links [] d = d"
  by (simp_all add: add_to_admins_def add_to_services_def add_to_links_def)

definition written :: "instant \<Rightarrow> (int \<times> int) list \<Rightarrow> usage_totals \<Rightarrow> db \<Rightarrow> db" where
  "written now samples t d = add_to_links (admin_service_usage t) (add_to_services (service_usage t)
     (add_to_admins (admin_usage t) (add_to_users now samples d)))"

lemma write_statements_Inr:
  assumes "write_statements mysql outcome now samples t d = (Inr events, d')"
  shows "d' = written now samples t d \<and> events = limit_events (admin_usage t) (add_to_users now samples d)"
  using assms unfolding write_statements_def written_def
  by (auto split: prod.splits sum.splits if_splits dest!: safe_execute_Inr)

text \<open>An executemany of updates by key changes every row by the values given for its key.\<close>

lemma fold_update_by_key:
  assumes "\<And>v r. key (upd v r) = key r"
  shows "fold (\<lambda>(i, v). update_where (\<lambda>r. key r = i) (upd v)) xs rows =
    map (\<lambda>r. fold (\<lambda>(i, v) r. if key r = i then upd v r else r) xs r) rows"
proof (induction xs arbitrary: rows)
  case (Cons x xs)
  obtain i v where "x = (i, v)" by force
  then show ?case using Cons [of "update_where (\<lambda>r. key r = i) (upd v) rows"] assms
    by (auto simp: update_where_def)
qed simp

lemma fold_key_fields:
  fixes upd :: "int \<Rightarrow> 'r \<Rightarrow> 'r"
  assumes "\<And>v r. key (upd v r) = key r" and "\<And>v r. g (upd v r) = g r"
    and "\<And>v r. f (upd v r) = f r + v"
  shows "key (fold (\<lambda>(i, v) r. if key r = i then upd v r else r) xs r) = key r"
    and "g (fold (\<lambda>(i, v) r. if key r = i then upd v r else r) xs r) = g r"
    and "f (fold (\<lambda>(i, v) r. if key r = i then upd v r else r) xs r) =
      f r + sum_where (\<lambda>i. i = key r) xs"
  by (induction xs arbitrary: r) (use assms in \<open>auto simp: sum_where_def\<close>)

text \<open>The traffic of the users that count for an admin.\<close>

definition traffic_where :: "(user \<Rightarrow> bool) \<Rightarrow> db \<Rightarrow> int" where
  "traffic_where sel d = sum_list (map (\<lambda>u. if sel u then used_traffic u else 0) (users d))"

lemma sum_update_by_key:
  assumes "distinct (map uid us)"
  shows "sum_list (map (\<lambda>u. if sel u then sum_where (\<lambda>i. i = uid u) xs else 0) us) =
    sum_where (\<lambda>i. \<exists>u \<in> set us. uid u = i \<and> sel u) xs"
proof (induction xs)
  case Nil
  show ?case by (induction us) simp_all
next
  case (Cons x xs)
  obtain i v where x: "x = (i, v)" by force
  have one: "sum_list (map (\<lambda>u. if sel u \<and> uid u = i then v else 0) us) =
      (if \<exists>u \<in> set us. uid u = i \<and> sel u then v else 0)"
    using assms by (induction us) (auto simp: image_iff)
  have "sum_list (map (\<lambda>u. if sel u then sum_where (\<lambda>i. i = uid u) (x # xs) else 0) us) =
      sum_list (map (\<lambda>u. (if sel u \<and> uid u = i then v else 0) +
        (if sel u then sum_where (\<lambda>i. i = uid u) xs else 0)) us)"
    by (rule arg_cong [of _ _ sum_list]) (auto simp: x)
  also have "\<dots> = (if \<exists>u \<in> set us. uid u = i \<and> sel u then v else 0) +
      sum_where (\<lambda>i. \<exists>u \<in> set us. uid u = i \<and> sel u) xs"
    by (simp add: sum_list_addf one Cons)
  finally show ?case by (simp add: x)
qed

lemma traffic_add_to_users:
  assumes "distinct (map uid (users d))"
    and sel: "\<And>u v t. sel (u\<lparr>used_traffic := v, online_at := t\<rparr>) = sel u"
  shows "traffic_where sel (add_to_users now samples d) = traffic_where sel d +
    sum_where (\<lambda>i. \<exists>u \<in> set (users d). uid u = i \<and> sel u) samples"
proof -
  let ?upd = "\<lambda>v (u :: user). u\<lparr>used_traffic := used_traffic u + v, online_at := Some now\<rparr>"
  have r: "uid (?upd v u) = uid u" "sel (?upd v u) = sel u" "used_traffic (?upd v u) = used_traffic u + v" for v u
    by (simp_all add: sel)
  note flds = fold_key_fields [of uid ?upd sel used_traffic samples, OF r]
  have "users (add_to_users now samples d) =
      map (fold (\<lambda>(i, v) u. if uid u = i then ?upd v u else u) samples) (users d)"
    using fold_update_by_key [of uid ?upd, OF r(1)] by (simp add: add_to_users_def)
  then have "traffic_where sel (add_to_users now samples d) =
      sum_list (map (\<lambda>u. if sel u then used_traffic u + sum_where (\<lambda>i. i = uid u) samples else 0) (users d))"
    by (simp add: traffic_where_def comp_def flds cong: if_cong)
  also have "\<dots> = sum_list (map (\<lambda>u. (if sel u then used_traffic u else 0) +
      (if sel u then sum_where (\<lambda>i. i = uid u) samples else 0)) (users d))"
    by (rule arg_cong [of _ _ sum_list]) auto
  finally show ?thesis
    by (simp add: sum_list_addf traffic_where_def sum_update_by_key [OF assms(1)])
qed

lemma dict_sum_where:
  "distinct (map fst xs) \<Longrightarrow> sum_where (\<lambda>i. i = k) xs = dict_get0 xs k"
proof (induction xs)
  case (Cons x xs)
  obtain i v where x: "x = (i, v)" by force
  have "sum_where (\<lambda>i. i = k) xs = 0" if "k \<notin> fst ` set xs"
    using that by (induction xs) (auto simp: sum_where_def)
  then show ?case using Cons by (auto simp: x dict_get0_def)
qed (simp add: dict_get0_def)

text \<open>The counter of an admin.\<close>

lemma admin_written:
  assumes "distinct (map fst usage)" and "distinct (map aid (admins d))"
    and "fetch_admin k (admins d) = Some a"
  shows "\<exists>a'. fetch_admin k (admins (add_to_admins usage d)) = Some a' \<and>
    users_usage a' = users_usage a + dict_get0 usage k \<and>
    lifetime_usage a' = lifetime_usage a + dict_get0 usage k \<and>
    admin_data_limit a' = admin_data_limit a \<and> admin_status a' = admin_status a"
proof -
  let ?upd = "\<lambda>v (a :: admin). a\<lparr>users_usage := users_usage a + v, lifetime_usage := lifetime_usage a + v\<rparr>"
  have r: "aid (?upd v a) = aid a" "(admin_data_limit (?upd v a), admin_status (?upd v a)) =
      (admin_data_limit a, admin_status a)" "users_usage (?upd v a) = users_usage a + v"
    "lifetime_usage (?upd v a) = lifetime_usage a + v" for v a
    by simp_all
  note f1 = fold_key_fields [of aid ?upd "\<lambda>a. (admin_data_limit a, admin_status a)" users_usage usage,
      OF r(1,2,3)]
  note f2 = fold_key_fields [of aid ?upd "\<lambda>a. (admin_data_limit a, admin_status a)" lifetime_usage usage,
      OF r(1,2,4)]
  let ?g = "fold (\<lambda>(i, v) a. if aid a = i then ?upd v a else a) usage"
  have m: "admins (add_to_admins usage d) = map ?g (admins d)"
    using fold_update_by_key [of aid ?upd, OF r(1)] by (simp add: add_to_admins_def)
  have "fetch_admin k (map ?g rows) = map_option ?g (fetch_admin k rows)" for rows
    by (induction rows) (simp_all add: f1)
  then have "fetch_admin k (admins (add_to_admins usage d)) = Some (?g a)"
    using assms(3) m by simp
  moreover have "aid a = k" using assms(3) admin_table.fetch_key by blast
  ultimately show ?thesis
    using f1(2) [of a] f1(3) [of a] f2(3) [of a] dict_sum_where [OF assms(1), of k] by simp
qed

lemma collect_distinct:
  "distinct (map fst (admin_usage (collect_admin_service_usage samples mapping)))"
proof -
  have "distinct (map fst (admin_usage t)) \<Longrightarrow>
      distinct (map fst (admin_usage (fold (collect_one mapping) samples t)))" for t
    by (induction samples arbitrary: t)
      (auto simp: collect_one_def Let_def dict_distinct_add split: prod.splits option.splits)
  then show ?thesis by (simp add: collect_admin_service_usage_def)
qed

text \<open>
  Conservation: the counter of an admin grows by what the counters of its users grow.
\<close>

definition owned_by :: "int \<Rightarrow> user \<Rightarrow> bool" where
  "owned_by k u = (admin_id u = Some k)"

lemma or_none_Some: "k \<noteq> 0 \<Longrightarrow> or_none x = Some k \<longleftrightarrow> x = Some k"
  by (cases x) auto

lemma owner_loaded:
  assumes "wf_db d" and "k \<noteq> 0" and "i \<in> set ids"
  shows "owner_in (load_user_mapping d ids) i = Some k \<longleftrightarrow> (\<exists>u \<in> set (users d). uid u = i \<and> owned_by k u)"
proof -
  have "owner_in (load_user_mapping d ids) i =
      (case fetch_user i (users d) of None \<Rightarrow> None | Some u \<Rightarrow> or_none (admin_id u))"
    using assms(3) by (simp add: owner_in_def load_user_mapping_def split: option.split)
  then have *: "owner_in (load_user_mapping d ids) i = Some k \<longleftrightarrow>
      (\<exists>u. fetch_user i (users d) = Some u \<and> admin_id u = Some k)"
    using assms(2) by (auto simp: or_none_Some split: option.split)
  have "distinct (map uid (users d))" using assms(1) by (simp add: wf_db_def)
  then have "fetch_user i (users d) = Some u \<longleftrightarrow> u \<in> set (users d) \<and> uid u = i" for u
    using user_table.fetch_member user_table.fetch_key by blast
  with * show ?thesis by (auto simp: owned_by_def)
qed

lemma sum_where_cong:
  "(\<And>i. i \<in> fst ` set xs \<Longrightarrow> p i = q i) \<Longrightarrow> sum_where p xs = sum_where q xs"
  by (induction xs) (auto simp: sum_where_def)

lemma written_conserves:
  assumes wf: "wf_db d" and k: "k \<noteq> 0" and a: "fetch_admin k (admins d) = Some a"
    and t: "t = collect_admin_service_usage samples (load_user_mapping d (map fst samples))"
  shows "\<exists>a'. fetch_admin k (admins (written now samples t d)) = Some a' \<and>
    users_usage a' - users_usage a =
      traffic_where (owned_by k) (written now samples t d) - traffic_where (owned_by k) d \<and>
    lifetime_usage a' - lifetime_usage a = users_usage a' - users_usage a"
proof -
  have dist: "distinct (map uid (users d))" "distinct (map aid (admins (add_to_users now samples d)))"
    using wf by (simp_all add: wf_db_def add_to_users_def)
  obtain a' where a': "fetch_admin k (admins (add_to_admins (admin_usage t) (add_to_users now samples d))) = Some a'"
    "users_usage a' = users_usage a + dict_get0 (admin_usage t) k"
    "lifetime_usage a' = lifetime_usage a + dict_get0 (admin_usage t) k"
    using admin_written [of "admin_usage t" "add_to_users now samples d" k a] dist(2) a collect_distinct
    unfolding t by (auto simp: add_to_users_def)
  have "traffic_where (owned_by k) (add_to_users now samples d) = traffic_where (owned_by k) d +
      sum_where (\<lambda>i. \<exists>u \<in> set (users d). uid u = i \<and> owned_by k u) samples"
    by (rule traffic_add_to_users [OF dist(1)]) (simp add: owned_by_def)
  also have "sum_where (\<lambda>i. \<exists>u \<in> set (users d). uid u = i \<and> owned_by k u) samples =
      dict_get0 (admin_usage t) k"
    unfolding t collect_totals
    by (rule sum_where_cong) (use owner_loaded [OF wf k] in force)
  finally have "traffic_where (owned_by k) (add_to_users now samples d) =
      traffic_where (owned_by k) d + dict_get0 (admin_usage t) k" .
  moreover have "admins (written now samples t d) =
      admins (add_to_admins (admin_usage t) (add_to_users now samples d))"
    "users (written now samples t d) = users (add_to_users now samples d)"
    by (simp_all add: written_def add_to_links_def add_to_services_def add_to_admins_def)
  ultimately show ?thesis using a' by (simp add: traffic_where_def)
qed

end
