(* ===== verification/Samples.thy ===== *)
theory Samples
  imports LifecycleSteps DueUsers ReviewJob UsageJobFacts AdminFacts AdminAuth
begin

text \<open>
  Concrete rows, environments and databases at which the properties of the root theory are applied.
\<close>

definition ann :: user where
  "ann = (new_user 1 ''ann'' 0)\<lparr>admin_id := Some 1\<rparr>"

definition bob :: user where
  "bob = (new_user 2 ''bob'' 0)\<lparr>admin_id := Some 1, data_limit := Some 10, used_traffic := 10\<rparr>"

definition keeper :: admin where
  "keeper = (new_admin 1 ''keeper'' ''h'')\<lparr>users_limit := Some 3\<rparr>"

definition sample_db :: db where
  "sample_db = \<lparr>users = [ann, bob], admins = [keeper], services = [], admin_service_links = [],
     api_keys = [], inbound_tags = [], hosts = []\<rparr>"

definition sample_key :: string where
  "sample_key = replicate 32 CHR ''a''"

definition sample_env :: environment where
  "sample_env = \<lparr>core = \<lparr>protocol_of_tag = (\<lambda>_. None), tags_of_protocol = (\<lambda>_. [])\<rparr>,
     env_masks = (\<lambda>_. None), env_validate = (\<lambda>p s. Some s), fresh_uuid = (\<lambda>_. ''u''),
     fresh_password = (\<lambda>_. ''p''), fresh_key = sample_key\<rparr>"

definition sample_create :: user_create where
  "sample_create = \<lparr>uc_username = ''Eve'', uc_credential_key = None, uc_proxies = [(VMess, [])],
     uc_flow = None, uc_status = None, uc_data_limit = None, uc_expire = None, uc_strategy = No_reset,
     uc_inbounds = [], uc_note = None, uc_telegram_id = None, uc_contact_number = None,
     uc_on_hold_expire_duration = None, uc_on_hold_timeout = None, uc_ip_limit = 0,
     uc_auto_delete_in_days = None, uc_next_plan = None, uc_next_plans = None\<rparr>"

definition sample_modify :: user_modify where
  "sample_modify = \<lparr>fields_set = [], um_proxies = [], um_flow = None, um_status = None,
     um_data_limit = None, um_expire = None, um_strategy = None, um_inbounds = [], um_note = None,
     um_telegram_id = None, um_contact_number = None, um_on_hold_expire_duration = None,
     um_on_hold_timeout = None, um_ip_limit = 0, um_next_plan = None, um_next_plans = None\<rparr>"

definition sample_plan :: next_plan where
  "sample_plan = \<lparr>np_data_limit = 5, np_expire = None, add_remaining_traffic = False,
     fire_on_either = True, increase_data_limit = False, start_on_first_connect = False,
     trigger_on = ''either'', position = 0\<rparr>"

definition sample_review :: review_env where
  "sample_review = \<lparr>rv_now = 0, rv_clock = (\<lambda>_. 0), rv_late = (\<lambda>_. False),
     rv_pending = (\<lambda>_. (0, None)), rv_override = (\<lambda>_. None), rv_runtime_ok = (\<lambda>_. True),
     rv_tz = 0, rv_batch = 10, rv_redis = False\<rparr>"

definition sample_service :: service where
  "sample_service = \<lparr>sid = 4, service_name = ''gold'', service_description = None,
     service_created_at = 0, host_links = [], service_used_traffic = 0,
     service_lifetime_used_traffic = 0, service_users_usage = 0\<rparr>"

text \<open>Coercions that accept a value of the type only.\<close>

definition sample_cb :: "json \<Rightarrow> bool option" where
  "sample_cb j = (case j of JBool b \<Rightarrow> Some b | _ \<Rightarrow> None)"

definition sample_ci :: "json \<Rightarrow> int option" where
  "sample_ci j = (case j of JInt n \<Rightarrow> Some n | _ \<Rightarrow> None)"

definition sample_admin_create :: admin_create where
  "sample_admin_create = \<lparr>ac_username = ''helper'', ac_role = Standard,
     ac_permissions = role_default_permissions Standard, ac_telegram_id = None,
     ac_subscription_domain = None, ac_subscription_settings = None, ac_data_limit = None,
     ac_users_limit = None, ac_services = Some [4]\<rparr>"

definition sample_admin_modify :: admin_modify where
  "sample_admin_modify = \<lparr>am_password = None, am_role = None, am_permissions = None,
     am_services = None, am_telegram_id = None, am_subscription_domain = None,
     am_subscription_settings = None, am_data_limit = Some (Some 100), am_users_limit = None\<rparr>"

lemma sample_wf: "wf_db sample_db"
  by (simp add: wf_db_def sample_db_def ann_def bob_def keeper_def new_user_def new_admin_def)

lemma sample_ok: "system_ok sample_db"
  unfolding system_ok_def
  by (simp add: sample_wf) (simp add: within_quota_def get_active_users_count_def sample_db_def ann_def
      bob_def keeper_def new_user_def new_admin_def active_under_def row_simps)

lemma sample_rows [simp]:
  "users sample_db = [ann, bob]" "admins sample_db = [keeper]" "inbound_tags sample_db = []"
  "services sample_db = []" "admin_service_links sample_db = []" "api_keys sample_db = []"
  "uid ann = 1" "uid bob = 2" "aid keeper = 1" "status ann = Active" "status bob = Active"
  "next_plans ann = []" "next_plans bob = []" "admin_id ann = Some 1" "admin_id bob = Some 1"
  by (simp_all add: sample_db_def ann_def bob_def keeper_def new_user_def new_admin_def)

lemma sample_coerces: "coerces sample_cb sample_ci"
  by (simp add: coerces_def sample_cb_def sample_ci_def)

lemma sample_limits:
  "\<not> over_time (rv_now sample_review) ann" "rv_late sample_review = (\<lambda>_. False)"
  "rv_redis sample_review = False" "is_user_limited sample_review bob"
  "\<not> is_user_limited sample_review ann"
  by (simp_all add: over_time_def is_user_limited_def get_user_used_traffic_def sample_review_def
      ann_def bob_def new_user_def)

lemma sample_known: "known_tags sample_env sample_db"
  by (simp add: known_tags_def sample_env_def)

lemma sample_key_ok: "normalize_key sample_key = Inr sample_key"
  by code_simp

lemma sample_masks: "usable_masks (env_masks sample_env)" "fresh_key sample_env = sample_key"
  by (simp_all add: usable_masks_def sample_env_def)

end
