(* ===== verification/AdminRouteProperties.thy ===== *)
theory AdminRouteProperties
  imports AdminRoutes AdminFacts RouteFacts Samples
begin

text \<open>
  Properties of the endpoints for admins: full access accounts under every sequence of requests of an admin
  without full access, and what a sudo admin may do to its own account.
\<close>

section \<open>Rows of admins with full access\<close>

definition full_rows :: "db \<Rightarrow> admin list" where
  "full_rows d = filter (\<lambda>a. admin_role a = Full_access) (admins d)"

text \<open>A change that leaves the rows with full access, and the keys of all rows or fewer of them.\<close>

definition keeps_full :: "db \<Rightarrow> db \<Rightarrow> bool" where
  "keeps_full d d' \<longleftrightarrow> full_rows d' = full_rows d \<and> distinct (map aid (admins d'))"

definition other_row :: "int \<Rightarrow> db \<Rightarrow> bool" where
  "other_row i d \<longleftrightarrow> (\<forall>a \<in> set (admins d). aid a = i \<longrightarrow> admin_role a \<noteq> Full_access)"

lemma keeps_refl: "distinct (map aid (admins d)) \<Longrightarrow> keeps_full d d"
  by (simp add: keeps_full_def)

lemma keeps_same: "admins d' = admins d \<Longrightarrow> distinct (map aid (admins d)) \<Longrightarrow> keeps_full d d'"
  by (simp add: keeps_full_def full_rows_def)

lemma keeps_trans: "keeps_full d d' \<Longrightarrow> keeps_full d' d'' \<Longrightarrow> keeps_full d d''"
  by (simp add: keeps_full_def)

lemma save_other:
  assumes "other_row (aid a) d" "admin_role a \<noteq> Full_access" "distinct (map aid (admins d))"
  shows "keeps_full d (save_admin a d)" and "other_row i d \<Longrightarrow> other_row i (save_admin a d)"
proof -
  have "filter (\<lambda>a. admin_role a = Full_access) (store_admin a rows) = filter (\<lambda>a. admin_role a = Full_access) rows"
    if "\<forall>b \<in> set rows. aid b = aid a \<longrightarrow> admin_role b \<noteq> Full_access" for rows
    using that assms(2) by (induction rows) auto
  then show "keeps_full d (save_admin a d)"
    using assms by (simp add: keeps_full_def full_rows_def other_row_def save_admin_def map_key_store_by)
  show "other_row i d \<Longrightarrow> other_row i (save_admin a d)"
    using assms(2) by (auto simp: other_row_def save_admin_def store_by_def)
qed

lemma other_row_same: "admins d' = admins d \<Longrightarrow> other_row i d' = other_row i d"
  by (simp add: other_row_def)

lemma disable_all_admins: "admins (disable_all_active_users now a d) = admins d"
  by (simp add: disable_all_active_users_def)

lemma sync_admins: "admins (sync_admin_services d i ids) = admins d"
  by (simp add: sync_admin_services_def Let_def split: option.split)

lemma status_keeps:
  assumes "other_row (aid a) d" "distinct (map aid (admins d))"
  shows "keeps_full d (disable_admin d a reason)" "keeps_full d (enable_admin d a)"
proof -
  have "filter (\<lambda>a. admin_role a = Full_access) (update_where (\<lambda>q. aid q = i) f rows) =
      filter (\<lambda>a. admin_role a = Full_access) rows \<and> map aid (update_where (\<lambda>q. aid q = i) f rows) = map aid rows"
    if "\<forall>b \<in> set rows. aid b = i \<longrightarrow> admin_role b \<noteq> Full_access" "\<And>q. admin_role (f q) = admin_role q" "\<And>q. aid (f q) = aid q"
    for rows i f using that by (induction rows) (auto simp: update_where_def)
  note r = this [of "admins d" "aid a"]
  show "keeps_full d (disable_admin d a reason)" "keeps_full d (enable_admin d a)"
    using assms r [of "\<lambda>q. q\<lparr>admin_status := Admin_disabled, disabled_reason := Some reason\<rparr>"]
      r [of "\<lambda>q. q\<lparr>admin_status := Admin_active, disabled_reason := None\<rparr>"]
    by (simp_all add: keeps_full_def full_rows_def disable_admin_def enable_admin_def other_row_def)
qed

lemma remove_keeps:
  assumes "other_row (aid a) d" "distinct (map aid (admins d))"
  shows "keeps_full d (remove_admin d a)"
  using assms by (auto simp: keeps_full_def full_rows_def remove_admin_def other_row_def distinct_map_filter
      intro!: filter_cong)

lemma maybe_enable_keeps:
  assumes "maybe_enable_admin now ok d a = (r, a', d')" "other_row (aid a) d" "admin_role a \<noteq> Full_access"
    "distinct (map aid (admins d))"
  shows "keeps_full d d' \<and> other_row (aid a') d' \<and> admin_role a' \<noteq> Full_access \<and> aid a' = aid a"
proof -
  have s: "admins (activate_all_disabled_users now x d) = admins d" for x by (rule activate_all_admins)
  have o: "other_row (aid a) (activate_all_disabled_users now (Some a) d)" using assms(2) other_row_same [OF s] by blast
  have t: "distinct (map aid (admins (activate_all_disabled_users now (Some a) d)))" using assms(4) s by simp
  show ?thesis
    using assms(1-3) save_other(1) [OF o assms(3) t] save_other(2) [OF o assms(3) t o] keeps_trans [OF keeps_same [OF s assms(4)]] keeps_refl [OF assms(4)]
    by (auto simp: maybe_enable_admin_def Let_def split: if_splits)
qed

lemma enforce_keeps:
  assumes "enforce_admin_data_limit now d a = (b, a', d', c)" "other_row (aid a) d" "admin_role a \<noteq> Full_access"
    "distinct (map aid (admins d))"
  shows "keeps_full d d' \<and> other_row (aid a') d' \<and> admin_role a' \<noteq> Full_access \<and> aid a' = aid a"
proof -
  let ?a = "a\<lparr>admin_status := Admin_disabled, disabled_reason := Some exhausted_reason\<rparr>"
  have "keeps_full d (save_admin ?a d)" "other_row (aid a) (save_admin ?a d)"
    using save_other(1) [of ?a d] save_other(2) [of ?a d "aid a"] assms(2-4) by simp_all
  moreover have "keeps_full x (disable_all_active_users now y x)" if "distinct (map aid (admins x))" for x y
    using that by (intro keeps_same) (simp_all add: disable_all_admins)
  ultimately show ?thesis using assms keeps_refl [OF assms(4)]
    by (auto simp: enforce_admin_data_limit_def Let_def other_row_def disable_all_admins keeps_full_def
        split: if_splits)
qed

lemma profile_role:
  assumes "update_admin_profile cb ci h1 h2 now a m = Inr a1"
  shows "admin_role a1 = (case am_role m of Some r \<Rightarrow> r | None \<Rightarrow> admin_role a)"
proof -
  have "admin_role (update_admin_fields h1 h2 now m x) = admin_role x" for x
    unfolding update_admin_fields_def by (simp add: assign_field_keeps)
  then show ?thesis using assms
    by (auto simp: update_admin_profile_def then_res_Inr Let_def split: if_splits option.splits)
qed

lemma update_keeps:
  assumes upd: "update_admin cb ci h1 h2 now ok d a m = (r, d')" and o: "other_row (aid a) d"
    and a: "admin_role a \<noteq> Full_access" and m: "am_role m \<noteq> Some Full_access" and d: "distinct (map aid (admins d))"
  shows "keeps_full d d'"
proof -
  have "keeps_full d d1" if p: "partial_update_admin cb ci h1 h2 now ok d a m = (r1, d1)" for r1 d1
  proof (cases "then_res (update_admin_profile cb ci h1 h2 now a m) (\<lambda>a1. check_users_limit d a1 m)")
    case (Inl e)
    then show ?thesis using p keeps_refl [OF d] by (simp add: partial_update_admin_def)
  next
    case (Inr a1)
    have "admin_role a1 \<noteq> Full_access" "aid a1 = aid a"
      using Inr profile_role profile_keeps a m
      by (auto simp: then_res_Inr check_users_limit_def Let_def split: option.splits if_splits)
    then have a1: "admin_role a1 \<noteq> Full_access" "other_row (aid a1) d" using o by simp_all
    obtain a2 d2 where e: "(if am_data_limit m \<noteq> None then (case enforce_admin_data_limit now d a1 of (_, a', d', _) \<Rightarrow> (a', d'))
        else (a1, d)) = (a2, d2)" by (rule prod.exhaust)
    obtain b a' d' c where en: "enforce_admin_data_limit now d a1 = (b, a', d', c)" by (rule prod_cases4)
    have two: "keeps_full d d2 \<and> other_row (aid a2) d2 \<and> admin_role a2 \<noteq> Full_access"
      using e a1 enforce_keeps [OF en a1(2,1) d] keeps_refl [OF d] by (cases "am_data_limit m = None") (auto simp: en)
    then have d2: "distinct (map aid (admins d2))" by (simp add: keeps_full_def)
    obtain r3 a3 d3 where t: "maybe_enable_admin now ok d2 a2 = (r3, a3, d3)" by (rule prod_cases3)
    note three = maybe_enable_keeps [OF t _ _ d2]
    have d3: "distinct (map aid (admins d3))" using three two by (simp add: keeps_full_def)
    have "d1 = d3 \<or> d1 = save_admin a3 d3"
      using p Inr e t by (auto simp: partial_update_admin_def split: sum.splits)
    then show ?thesis using two three save_other [of a3 d3] d3 keeps_trans by metis
  qed
  moreover obtain r1 d1 where "partial_update_admin cb ci h1 h2 now ok d a m = (r1, d1)" by (rule prod.exhaust)
  ultimately show ?thesis using upd
    by (cases r1) (auto simp: update_admin_def sync_admins keeps_full_def full_rows_def)
qed

section \<open>Requests\<close>

text \<open>The requests of one admin that write; the keys of new rows are fresh, as the database gives them.\<close>

inductive admin_request :: "(json \<Rightarrow> bool option) \<Rightarrow> (json \<Rightarrow> int option) \<Rightarrow> principal \<Rightarrow> db \<Rightarrow> db \<Rightarrow> bool" for cb ci p where
  creates: "i \<notin> aid ` set (admins d) \<Longrightarrow> admin_request cb ci p d (snd (create_admin_account cb ci i hash p c d))"
| modifies: "admin_request cb ci p d (snd (modify_admin_account cb ci h1 h2 now ok p name m d))"
| removes: "admin_request cb ci p d (snd (remove_admin_account cb ci p name d))"
| bulk: "admin_request cb ci p d (snd (bulk_standard_permissions cb ci p perms mode d))"
| disables: "admin_request cb ci p d (snd (disable_admin_account cb ci now p name reason d))"
| enables: "admin_request cb ci p d (snd (enable_admin_account cb ci now p name d))"
| disables_users: "admin_request cb ci p d (snd (disable_users_of now ok p name d))"
| activates_users: "admin_request cb ci p d (snd (activate_users_of now ok p name d))"
| resets: "admin_request cb ci p d (snd (reset_admin_account cb ci now ok p name d))"
| password: "admin_request cb ci p d (snd (change_myaccount_password cb ci verify h1 h2 now ok p current new d))"
| new_key: "admin_request cb ci p d (snd (create_api_key sha i random now p lifetime d))"
| key_removed: "admin_request cb ci p d (snd (delete_api_key verify p i current d))"

inductive admin_requests :: "(json \<Rightarrow> bool option) \<Rightarrow> (json \<Rightarrow> int option) \<Rightarrow> principal \<Rightarrow> db \<Rightarrow> db \<Rightarrow> bool" for cb ci p where
  none: "admin_requests cb ci p d d"
| more: "admin_requests cb ci p d d1 \<Longrightarrow> admin_request cb ci p d1 d2 \<Longrightarrow> admin_requests cb ci p d d2"

text \<open>No account with full access has the name of the caller, in any case of letters.\<close>

definition not_its_name :: "principal \<Rightarrow> db \<Rightarrow> bool" where
  "not_its_name p d \<longleftrightarrow> (\<forall>a \<in> set (full_rows d). lower (admin_username a) \<noteq> lower (pr_username p))"

lemma keeps_checked:
  assumes "distinct (map aid (admins d))" "\<And>x. r = Inr x \<Longrightarrow> keeps_full d (snd (f x))"
  shows "keeps_full d (snd (checked r f d))"
  using assms keeps_refl by (cases r) (simp_all add: checked_def)

lemma keeps_on_admin:
  assumes "distinct (map aid (admins d))" "\<And>a. a \<in> set (admins d) \<Longrightarrow> keeps_full d (snd (f a))"
  shows "keeps_full d (snd (on_admin d name p f))"
  unfolding on_admin_def
  by (intro keeps_checked [OF assms(1)] assms(2))
    (auto simp: named_admin_def dest: get_admin_live split: option.splits)

text \<open>A row that the caller may write has no full access.\<close>

lemma managed_row:
  assumes p: "pr_role p \<noteq> Full_access" and n: "not_its_name p d" and d: "distinct (map aid (admins d))" and a: "a \<in> set (admins d)"
  shows "admin_username a = pr_username p \<Longrightarrow> admin_role a \<noteq> Full_access \<and> other_row (aid a) d"
    and "principal_of cb ci a = Inr t \<Longrightarrow> ensure_can_manage_admin p t = Inr () \<Longrightarrow> admin_role a \<noteq> Full_access \<and> other_row (aid a) d"
    and "may_manage cb ci p a = Inr () \<Longrightarrow> admin_role a \<noteq> Full_access \<and> other_row (aid a) d"
proof -
  have row: "admin_role a \<noteq> Full_access \<Longrightarrow> admin_role a \<noteq> Full_access \<and> other_row (aid a) d"
    using d a by (auto simp: other_row_def distinct_map dest: inj_onD)
  show own: "admin_username a = pr_username p \<Longrightarrow> admin_role a \<noteq> Full_access \<and> other_row (aid a) d"
    using n a by (intro row) (auto simp: not_its_name_def full_rows_def)
  have "admin_role a \<noteq> Full_access" if "principal_of cb ci a = Inr t" "ensure_can_manage_admin p t = Inr ()" for t
    using principal_of_row [OF that(1)] own that(2) p
    by (cases "admin_username a = pr_username p") (auto simp: ensure_can_manage_admin_def has_full_access_def Let_def split: if_splits)
  then show t: "principal_of cb ci a = Inr t \<Longrightarrow> ensure_can_manage_admin p t = Inr () \<Longrightarrow> admin_role a \<noteq> Full_access \<and> other_row (aid a) d" for t
    using row by blast
  show "may_manage cb ci p a = Inr () \<Longrightarrow> admin_role a \<noteq> Full_access \<and> other_row (aid a) d"
    using t by (auto simp: may_manage_def then_res_Inr)
qed

lemma bulk_keeps:
  assumes "bulk_update_standard_admin_permissions cb ci perms mode d = Inr (n, d')" "distinct (map aid (admins d))"
  shows "keeps_full d d'"
proof (cases "perms = []")
  case False
  define targets where "targets = filter (\<lambda>a. admin_status a \<noteq> Admin_deleted \<and> admin_role a = Standard) (admins d)"
  define step where "step = (\<lambda>a acc. then_res (bulk_permission_row cb ci perms (mode = ''disable'') a)
            (\<lambda>r. Inr (case r of None \<Rightarrow> acc | Some a' \<Rightarrow> acc @ [a'])))"
  obtain changed where c: "fold_res step targets [] = Inr changed" "d' = d\<lparr>admins := fold store_admin changed (admins d)\<rparr>"
    using assms(1) False
    by (auto simp: bulk_update_standard_admin_permissions_def Let_def targets_def step_def then_res_Inr split: if_splits)
  have row: "aid b = aid a \<and> admin_role b = admin_role a"
    if "bulk_permission_row cb ci perms x a = Inr (Some b)" for a b x
    using that by (auto simp: bulk_permission_row_def then_res_Inr Let_def split: if_splits)
  have "\<forall>b \<in> set changed. \<exists>a \<in> set targets. aid b = aid a \<and> admin_role b = Standard"
  proof (rule fold_res_invariant [OF c(1), where P = "\<lambda>acc. \<forall>b \<in> set acc. \<exists>a \<in> set targets. aid b = aid a \<and> admin_role b = Standard"])
    fix a acc acc'
    assume a: "a \<in> set targets" and acc: "\<forall>b \<in> set acc. \<exists>a \<in> set targets. aid b = aid a \<and> admin_role b = Standard"
      and st: "step a acc = Inr acc'"
    obtain r where r: "bulk_permission_row cb ci perms (mode = ''disable'') a = Inr r" "acc' = (case r of None \<Rightarrow> acc | Some a' \<Rightarrow> acc @ [a'])"
      using st by (auto simp: step_def then_res_Inr)
    show "\<forall>b \<in> set acc'. \<exists>a \<in> set targets. aid b = aid a \<and> admin_role b = Standard"
    proof (cases r)
      case (Some b)
      have "aid b = aid a \<and> admin_role b = admin_role a" using r(1) unfolding Some by (rule row)
      then show ?thesis using acc a r(2) Some by (auto simp: targets_def)
    qed (use acc r(2) in simp)
  qed simp
  then have standard: "other_row (aid b) d \<and> admin_role b \<noteq> Full_access" if "b \<in> set changed" for b
    using that assms(2) by (fastforce simp: targets_def other_row_def distinct_map dest: inj_onD)
  have "keeps_full e (e\<lparr>admins := fold store_admin bs (admins e)\<rparr>)"
    if "\<forall>b \<in> set bs. other_row (aid b) e \<and> admin_role b \<noteq> Full_access" "distinct (map aid (admins e))" for bs and e :: db
    using that
  proof (induction bs arbitrary: e)
    case (Cons b bs)
    have b: "other_row (aid b) e" "admin_role b \<noteq> Full_access" using Cons.prems(1) by auto
    note k = save_other(1) [OF b Cons.prems(2)] save_other(2) [OF b Cons.prems(2)]
    have "keeps_full (save_admin b e) ((save_admin b e)\<lparr>admins := fold store_admin bs (admins (save_admin b e))\<rparr>)"
      using Cons.prems(1) k by (intro Cons.IH) (auto simp: keeps_full_def)
    then show ?case using keeps_trans [OF k(1)] by (simp add: save_admin_def)
  qed (simp add: keeps_refl)
  then show ?thesis using standard assms(2) c(2) by blast
qed (use assms in \<open>auto simp: bulk_update_standard_admin_permissions_def keeps_refl split: if_splits\<close>)

lemma request_keeps:
  assumes r: "admin_request cb ci p d d'" and p: "pr_role p \<noteq> Full_access" and n: "not_its_name p d" and d: "distinct (map aid (admins d))"
  shows "keeps_full d d'"
  using r
proof cases
  case (creates i hash c)
  have "keeps_full d d1" if c: "create_admin cb ci i hash d c = Inr (a, d1, d2)" "ac_role c \<noteq> Full_access" for a d1 d2
    using create_admin_result [OF c(1)] c(2) d creates(2) by (simp add: keeps_full_def full_rows_def)
  then show ?thesis unfolding creates create_admin_account_def
    using p keeps_refl [OF d] by (intro keeps_checked [OF d])
      (auto simp: has_full_access_def split: sum.splits exn.splits intro!: keeps_checked [OF d])
next
  case (modifies h1 h2 now ok name m)
  have "keeps_full d (snd (case update_admin cb ci h1 h2 now ok d a m of (Inl e, d') \<Rightarrow> (users_limit_400 (Inl e), d')
      | (Inr _, d') \<Rightarrow> (answer_admin cb ci (aid a) d', d')))" if "other_row (aid a) d" "admin_role a \<noteq> Full_access" "am_role m \<noteq> Some Full_access" for a
    using update_keeps [OF _ that d] by (auto split: prod.splits sum.splits)
  then show ?thesis unfolding modifies modify_admin_account_def
    using p managed_row(1,2) [OF p n d] keeps_refl [OF d]
    by (intro keeps_on_admin [OF d] keeps_checked [OF d]) (auto simp: has_full_access_def split: if_splits)
next
  case (removes name)
  show ?thesis unfolding removes remove_admin_account_def
    using managed_row(3) [OF p n d] remove_keeps [OF _ d] by (intro keeps_on_admin [OF d] keeps_checked [OF d]) auto
next
  case (bulk perms mode)
  show ?thesis unfolding bulk bulk_standard_permissions_def using bulk_keeps [OF _ d] keeps_refl [OF d]
    by (intro keeps_checked [OF d]) (auto simp: keep_tables_def split: sum.split intro!: keeps_checked [OF d])
next
  case (disables now name reason)
  have k: "keeps_full d (disable_admin (disable_all_active_users now (Some a) d) a t)" if "other_row (aid a) d" for a t
    using status_keeps(1) [of a "disable_all_active_users now (Some a) d"] that d
    by (simp add: keeps_full_def full_rows_def other_row_def disable_all_admins)
  show ?thesis unfolding disables disable_admin_account_def
    using managed_row(3) [OF p n d] k keeps_refl [OF d]
    by (intro keeps_on_admin [OF d]) (auto simp: Let_def intro!: keeps_checked [OF d])
next
  case (enables now name)
  have k: "keeps_full d (activate_all_disabled_users now (Some a) (enable_admin d a))" if "other_row (aid a) d" for a
    using status_keeps(2) [OF that d] by (simp add: keeps_full_def full_rows_def activate_all_admins)
  show ?thesis unfolding enables enable_admin_account_def
    using managed_row(3) [OF p n d] k keeps_refl [OF d]
    by (intro keeps_on_admin [OF d]) (auto simp: Let_def intro!: keeps_checked [OF d])
next
  case (disables_users now ok name)
  show ?thesis unfolding disables_users disable_users_of_def
    using keeps_same [OF disable_all_admins d] by (intro keeps_on_admin [OF d]) simp
next
  case (activates_users now ok name)
  show ?thesis unfolding activates_users activate_users_of_def
    using keeps_same [OF activate_all_admins d] by (intro keeps_on_admin [OF d]) simp
next
  case (resets now ok name)
  have k: "keeps_full d (snd (case reset_admin_usage now ok d a of (Inl e, d') \<Rightarrow> (Inl e, d')
      | (Inr _, d') \<Rightarrow> (answer_admin cb ci (aid a) d', d')))" if "other_row (aid a) d" "admin_role a \<noteq> Full_access" for a
  proof -
    let ?a = "a\<lparr>admin_usage_logs := admin_usage_logs a @ [users_usage a], users_usage := 0\<rparr>"
    obtain r a2 d1 where m: "maybe_enable_admin now ok d ?a = (r, a2, d1)" by (rule prod_cases3)
    have "other_row (aid ?a) d" "admin_role ?a \<noteq> Full_access" using that by simp_all
    then have k1: "keeps_full d d1" "other_row (aid a2) d1" "admin_role a2 \<noteq> Full_access"
      using maybe_enable_keeps [OF m _ _ d] by blast+
    then have "keeps_full d1 (save_admin a2 d1)" by (intro save_other(1)) (simp_all add: keeps_full_def)
    from keeps_trans [OF k1(1) this] show ?thesis using m k1(1) keeps_refl [OF d]
      by (auto simp: reset_admin_usage_def Let_def split: sum.splits)
  qed
  show ?thesis unfolding resets reset_admin_account_def
    using managed_row(1,3) [OF p n d] k by (intro keeps_on_admin [OF d] keeps_checked [OF d]) (auto split: if_splits)
next
  case (password verify h1 h2 now ok current new)
  have k: "keeps_full d (snd (update_admin cb ci h1 h2 now ok d a (password_change new)))"
    if o: "own_row p ks d = Inr a" for a ks
  proof -
    have a: "a \<in> set (admins d)" "lower (admin_username a) = lower (pr_username p)"
      using o by (auto simp: own_row_def named_admin_def get_admin_def find_Some_iff dest: nth_mem split: if_splits option.splits)
    then have "admin_role a \<noteq> Full_access" using n by (auto simp: not_its_name_def full_rows_def)
    moreover from this have "other_row (aid a) d" using a(1) d by (auto simp: other_row_def distinct_map dest: inj_onD)
    ultimately show ?thesis using update_keeps [of cb ci h1 h2 now ok d a "password_change new"] d
      by (cases "update_admin cb ci h1 h2 now ok d a (password_change new)") (simp add: password_change_def)
  qed
  show ?thesis unfolding password change_myaccount_password_def using keeps_refl [OF d] k
    by (auto intro!: keeps_checked [OF d])
next
  case (new_key sha i random now lifetime)
  show ?thesis unfolding new_key create_api_key_def create_admin_api_key_def Let_def
    using d by (intro keeps_checked [OF d]) (simp add: keeps_full_def full_rows_def)
next
  case (key_removed verify i current)
  have "keeps_full d (snd (delete_admin_api_key d a i))" for a
    using keeps_same [of "snd (delete_admin_api_key d a i)" d] d by (auto simp: delete_admin_api_key_def keeps_full_def full_rows_def split: option.split)
  then show ?thesis unfolding key_removed delete_api_key_def using keeps_refl [OF d]
    by (auto split: option.split prod.split bool.split intro!: keeps_checked [OF d] simp: prod_eq_iff) 
qed

section \<open>Properties\<close>

text \<open>
  C3. Whatever an admin without full access asks of the endpoints for admins, in whatever order: the rows of
  the admins with full access stay as they are, and no other row gets full access.
\<close>

theorem full_access_untouched:
  assumes "admin_requests cb ci p d d'" "pr_role p \<noteq> Full_access" "distinct (map aid (admins d))"
    and "\<forall>a \<in> set (admins d). admin_role a = Full_access \<longrightarrow> lower (admin_username a) \<noteq> lower (pr_username p)"
  shows "filter (\<lambda>a. admin_role a = Full_access) (admins d') = filter (\<lambda>a. admin_role a = Full_access) (admins d)"
proof -
  have "keeps_full d d'"
    using assms(1,3,4)
  proof induction
    case (none d)
    then show ?case by (intro keeps_refl)
  next
    case (more d d1 d2)
    note k = more.IH [OF more.prems]
    have "not_its_name p d1" "distinct (map aid (admins d1))"
      using k more.prems(2) by (auto simp: keeps_full_def not_its_name_def full_rows_def)
    then show ?case using keeps_trans [OF k request_keeps [OF more.hyps(2) assms(2)]] by blast
  qed
  then show ?thesis by (simp add: keeps_full_def full_rows_def)
qed

text \<open>An owner with full access and a sudo admin, with the permissions that roles have by default.\<close>

definition owner_row :: admin where
  "owner_row = (new_admin 2 ''owner'' ''h'')\<lparr>admin_role := Full_access\<rparr>"

definition sudo_row :: admin where
  "sudo_row = (new_admin 3 ''sue'' ''h'')\<lparr>admin_role := Sudo,
     admin_permissions_json := Some (dump_permissions (role_default_permissions Sudo))\<rparr>"

definition sue :: principal where
  "sue = \<lparr>pr_id = Some 3, pr_username = ''sue'', pr_role = Sudo, pr_permissions = role_default_permissions Sudo,
     pr_status = Admin_active, pr_disabled_reason = None\<rparr>"

definition staff_db :: db where
  "staff_db = sample_db\<lparr>admins := [keeper, owner_row, sudo_row]\<rparr>"

theorem full_access_untouched_witness:
  "filter (\<lambda>a. admin_role a = Full_access) (admins (snd (remove_admin_account sample_cb sample_ci sue ''owner''
     (snd (disable_users_of 5 True sue ''owner'' staff_db))))) = [owner_row]"
proof -
  have r: "admin_requests sample_cb sample_ci sue staff_db (snd (remove_admin_account sample_cb sample_ci sue ''owner''
     (snd (disable_users_of 5 True sue ''owner'' staff_db))))"
    by (rule admin_requests.more [OF admin_requests.more [OF admin_requests.none admin_request.disables_users] admin_request.removes])
  have "lower ''owner'' \<noteq> lower ''sue''" by code_simp
  then show ?thesis
    using full_access_untouched [OF r]
    by (simp add: sue_def staff_db_def owner_row_def sudo_row_def keeper_def new_admin_def)
qed

text \<open>
  C40. A sudo admin gives itself any permission over other admins: changing its own account asks for no
  permission, and the permissions of the request are stored for it.
\<close>

theorem sudo_promotes_itself:
  assumes "coerces cb ci" "get_admin d (Some name) None = Some a" "admin_role a = Sudo" "admin_status a = Admin_active"
    and "admin_permissions_json a = Some (dump_permissions present)" "pr_username p = admin_username a" "pr_role p = Sudo"
    and "fetch_admin (aid a) (admins d) = Some a"
    and "m = (password_change w)\<lparr>am_password := None, am_permissions := Some wanted\<rparr>"
    and "\<not> (allow_unlimited_data (perm_users wanted) \<and> max_data_limit_per_user (perm_users wanted) \<noteq> None)"
  shows "\<exists>x d'. modify_admin_account cb ci h1 h2 now ok p name m d = (Inr x, d') \<and>
    pr_username x = pr_username p \<and> admin_management (pr_permissions x) = admin_management wanted \<and>
    perm_users (pr_permissions x) = perm_users wanted"
proof -
  have stored: "build_permissions cb ci Sudo (Some (dump_permissions q)) = Inr (q\<lparr>self_permissions :=
      fold (\<lambda>(k, b). AList.update k b) (self_permissions q) (self_permissions (role_default_permissions Sudo))\<rparr>)" for q
    using merge_permissions_eq [OF assms(1), of "role_default_permissions Sudo" q]
    by (simp add: build_permissions_def merge_permissions_def dump_permissions_def)
  obtain base where norm: "normalize_permissions_for_role cb ci Sudo (Some wanted) (Some (dump_permissions present)) =
      Inr (wanted\<lparr>self_permissions := base\<rparr>)"
    by (simp add: normalize_permissions_for_role_def validate_dump_permissions [OF assms(1)] merge_permissions_eq [OF assms(1)])
  let ?a = "a\<lparr>admin_permissions_json := Some (dump_permissions (wanted\<lparr>self_permissions := base\<rparr>))\<rparr>"
  have "update_admin_profile cb ci h1 h2 now a m = Inr ?a"
    using assms(3,5,10) norm
    by (simp add: update_admin_profile_def assms(9) password_change_def validate_max_data_limit_def update_admin_fields_def
        assign_field_def Let_def)
  then have "update_admin cb ci h1 h2 now ok d a m = (Inr (), save_admin ?a d)"
    using assms(4) by (simp add: update_admin_def partial_update_admin_def check_users_limit_def assms(9) password_change_def
        maybe_enable_admin_def disabled_due_to_data_limit_def sync_admin_services_def)
  moreover have "principal_of cb ci a = Inr t \<Longrightarrow> True" for t by simp
  moreover obtain t where "principal_of cb ci a = Inr t" using stored [of present] assms(3,5) by (simp add: principal_of_def)
  moreover have "fetch_admin (aid a) (admins (save_admin ?a d)) = Some ?a"
    using assms(8) by (simp add: save_admin_def admin_table.fetch_store)
  ultimately show ?thesis
    using assms(2,3,6,7) stored [of "wanted\<lparr>self_permissions := base\<rparr>"]
    by (simp add: modify_admin_account_def on_admin_def named_admin_def checked_def check_sudo_admin_def get_current_def
        assms(9) password_change_def answer_admin_def principal_of_def)
qed

theorem sudo_promotes_itself_witness:
  "\<exists>x d'. modify_admin_account sample_cb sample_ci ''a'' ''b'' 5 True sue ''sue''
      ((password_change [])\<lparr>am_password := None, am_permissions := Some (role_default_permissions Full_access)\<rparr>) staff_db = (Inr x, d') \<and>
    can_manage_sudo (admin_management (pr_permissions x)) \<and> \<not> can_manage_sudo (admin_management (pr_permissions sue))"
proof -
  have "lower ''owner'' \<noteq> lower ''sue''" "lower ''keeper'' \<noteq> lower ''sue''" by code_simp+
  then have "get_admin staff_db (Some ''sue'') None = Some sudo_row"
    by (simp add: get_admin_def staff_db_def owner_row_def sudo_row_def keeper_def new_admin_def)
  moreover have "fetch_admin (aid sudo_row) (admins staff_db) = Some sudo_row"
    by (simp add: staff_db_def owner_row_def sudo_row_def keeper_def new_admin_def fetch_by_def)
  ultimately show ?thesis
    using sudo_promotes_itself [OF sample_coerces, where d = staff_db and name = "''sue''" and a = sudo_row and
        present = "role_default_permissions Sudo" and p = sue and w = "[]" and wanted = "role_default_permissions Full_access" and
        m = "(password_change [])\<lparr>am_password := None, am_permissions := Some (role_default_permissions Full_access)\<rparr>" and
        ?h1.0 = "''a''" and ?h2.0 = "''b''" and now = 5 and ok = True]
    by (auto simp: sudo_row_def sue_def new_admin_def role_default_permissions_def)
qed

end
