(* ===== verification/RuntimeUsers.thy ===== *)
theory RuntimeUsers
  imports CoreConfig
begin

text \<open>
  Users of a core that runs: \<open>add_user\<close>, \<open>remove_user\<close> and \<open>update_user\<close> of
  \<open>app/reb_node/operations.py\<close>, the inbounds of a user (\<open>User.inbounds\<close> of \<open>app/db/models.py\<close>), the
  credentials of a response (\<open>app/models/user.py\<close>) and the accounts of \<open>xray_api/types/account.py\<close>.
  Every change of an inbound is made by a thread of its own, which calls the API of a core; what the core
  does is given. The inbounds of the configuration come with their protocols, in its order.
\<close>

section \<open>The inbounds and proxies of a user\<close>

type_synonym core_inbounds = "(proxy_type \<times> inbound_info) list"

definition inbounds_of_protocol :: "core_inbounds \<Rightarrow> proxy_type \<Rightarrow> inbound_info list" where
  "inbounds_of_protocol ibs p = map snd (filter (\<lambda>(q, _). q = p) ibs)"

definition find_inbound :: "core_inbounds \<Rightarrow> string \<Rightarrow> inbound_info option" where
  "find_inbound ibs t = map_of (rev (map (\<lambda>(_, ib). (ib_tag ib, ib)) ibs)) t"

definition core_tags :: "core_inbounds \<Rightarrow> string list" where
  "core_tags ibs = remdups (map (\<lambda>(_, ib). ib_tag ib) ibs)"

text \<open>The tags of a service: the hosts that are linked to it, else the host map, else the tables.\<close>

definition linked_tags :: "db \<Rightarrow> int \<Rightarrow> string list" where
  "linked_tags d i = filter (\<lambda>t. t \<noteq> []) (map host_inbound_tag
     (filter (\<lambda>h. i \<in> set (services_of_host (host_id h) d) \<and> host_is_disabled h \<noteq> Some True) (hosts d)))"

definition user_inbounds :: "core_inbounds \<Rightarrow> bool \<Rightarrow> db \<Rightarrow> user \<Rightarrow> (proxy_type \<times> string list) list" where
  "user_inbounds ibs host_map_ok d u =
     (let admits = (case service_id u of
          Some i \<Rightarrow> (let linked = linked_tags d i;
              allowed = (if linked \<noteq> [] then linked else service_allowed_tags (core_tags ibs) host_map_ok d i)
            in (\<lambda>x t. t \<in> set allowed))
        | None \<Rightarrow> (\<lambda>x t. t \<notin> set (pexcluded x)))
      in fold (\<lambda>x. AList.update (ptype x) (filter (admits x) (map ib_tag (inbounds_of_protocol ibs (ptype x)))))
        (proxies u) [])"

text \<open>\<open>validate_proxies\<close> and \<open>populate_proxy_credentials\<close> of a response.\<close>

definition populated :: "environment \<Rightarrow> (string \<Rightarrow> string) \<Rightarrow> string option \<Rightarrow> proxy_type \<times> settings \<Rightarrow>
    (proxy_type \<times> settings) result" where
  "populated env sha key = (\<lambda>(p, m).
     if (p \<in> uuid_protocols \<and> \<not> has_setting m ''id'') \<or> (p \<in> password_protocols \<and> \<not> has_setting m ''password'')
     then then_res (apply_credentials_to_settings (env_masks env) sha m p key) (\<lambda>m'. Inr (p, m')) else Inr (p, m))"

definition response_proxies :: "environment \<Rightarrow> (string \<Rightarrow> string) \<Rightarrow> user \<Rightarrow> (proxy_type \<times> settings) list result" where
  "response_proxies env sha u =
     (let rows = fold (\<lambda>x. AList.update (ptype x) (psettings x)) (proxies u) [] in
      then_res (map_res (\<lambda>(p, s). then_res (from_dict (env_validate env) p s) (\<lambda>m. Inr (p, m))) rows) (\<lambda>ps.
        if str_or_none (credential_key u) = None then Inr ps
        else map_res (populated env sha (credential_key u)) ps))"

section \<open>Accounts\<close>

record account =
  ac_email :: string
  ac_type :: proxy_type
  ac_id :: "string option"
  ac_password :: "string option"
  ac_flow :: string
  ac_method :: "string option"
  ac_iv_check :: bool

definition shadowsocks_methods :: "string set" where
  "shadowsocks_methods = {''aes-128-gcm'', ''aes-256-gcm'', ''chacha20-ietf-poly1305'', ''xchacha20-ietf-poly1305'',
     ''2022-blake3-aes-128-gcm'', ''2022-blake3-aes-256-gcm'', ''2022-blake3-chacha20-poly1305''}"

definition account_flow :: "settings \<Rightarrow> string option" where
  "account_flow st = (case map_of st ''flow'' of
     None \<Rightarrow> Some [] | Some (SStr f) \<Rightarrow> (if f \<in> {[], ''xtls-rprx-vision''} then Some f else None) | Some _ \<Rightarrow> None)"

definition account_id :: "settings \<Rightarrow> string option" where
  "account_id st = (case setting_get st ''id'' of SStr s \<Rightarrow> map_option uuid_str (parse_uuid s) | _ \<Rightarrow> None)"

definition account_password :: "settings \<Rightarrow> string option" where
  "account_password st = (case setting_get st ''password'' of SStr s \<Rightarrow> Some s | _ \<Rightarrow> None)"

definition account_method :: "settings \<Rightarrow> string option" where
  "account_method st = (case map_of st ''method'' of
     None \<Rightarrow> Some chacha20_poly1305 | Some (SStr m) \<Rightarrow> (if m \<in> shadowsocks_methods then Some m else None) | Some _ \<Rightarrow> None)"

definition account_iv_check :: "settings \<Rightarrow> bool option" where
  "account_iv_check st = (case map_of st ''iv_check'' of None \<Rightarrow> Some False | Some (SBool b) \<Rightarrow> Some b | Some _ \<Rightarrow> None)"

text \<open>\<open>proxy_type.account_model(email=email, **settings)\<close>, or no account when a field is not valid.\<close>

definition account_model :: "proxy_type \<Rightarrow> string \<Rightarrow> settings \<Rightarrow> account option" where
  "account_model p email st =
     (let base = \<lparr>ac_email = email, ac_type = p, ac_id = None, ac_password = None, ac_flow = [], ac_method = None,
            ac_iv_check = False\<rparr> in
      case p of
        VMess \<Rightarrow> map_option (\<lambda>i. base\<lparr>ac_id := Some i\<rparr>) (account_id st)
      | VLESS \<Rightarrow> Option.bind (account_id st) (\<lambda>i. map_option (\<lambda>f. base\<lparr>ac_id := Some i, ac_flow := f\<rparr>) (account_flow st))
      | Trojan \<Rightarrow> Option.bind (account_password st) (\<lambda>w.
          map_option (\<lambda>f. base\<lparr>ac_password := Some w, ac_flow := f\<rparr>) (account_flow st))
      | Shadowsocks \<Rightarrow> Option.bind (account_password st) (\<lambda>w. Option.bind (account_method st) (\<lambda>m.
          map_option (\<lambda>b. base\<lparr>ac_password := Some w, ac_method := Some m, ac_iv_check := b\<rparr>) (account_iv_check st))))"

definition user_email :: "user \<Rightarrow> string" where
  "user_email u = int_text (uid u) @ ''.'' @ username u"

definition is_valid_uuid :: "setting \<Rightarrow> bool" where
  "is_valid_uuid v = (case v of SStr s \<Rightarrow> s \<noteq> [] \<and> lower s \<noteq> ''null'' \<and> parse_uuid s \<noteq> None | _ \<Rightarrow> False)"

text \<open>One account, or none; \<open>ib\<close> is the inbound when the configuration has it.\<close>

definition build_runtime_accounts :: "environment \<Rightarrow> (string \<Rightarrow> string) \<Rightarrow> string \<Rightarrow> user \<Rightarrow> proxy_type \<Rightarrow> settings \<Rightarrow>
    inbound_info option \<Rightarrow> account list" where
  "build_runtime_accounts env sha fresh u p m ib =
     (let fl = normalize_flow_value (flow u) in
      case runtime_proxy_settings (env_validate env) (env_masks env) sha fresh (Settings_model m) p (credential_key u)
        (if p \<in> {VLESS, Trojan} then fl else None) of
        Inl e \<Rightarrow> []
      | Inr st0 \<Rightarrow> (let st = (if has_setting st0 ''flow'' \<and> \<not> (case ib of None \<Rightarrow> False | Some i \<Rightarrow> flow_supported_for_inbound i)
            then AList.delete ''flow'' st0 else st0) in
          if p \<in> uuid_protocols \<and> \<not> is_valid_uuid (setting_get st ''id'') then []
          else case account_model p (user_email u) st of
            Some a \<Rightarrow> [a]
          | None \<Rightarrow> if setting_get st ''flow'' = SNone then []
              else (case account_model p (user_email u) (AList.delete ''flow'' st) of Some a \<Rightarrow> [a] | None \<Rightarrow> [])))"

section \<open>Threads\<close>

text \<open>A thread that removes has so many attempts left; one that adds has removed before or not.\<close>

datatype core_thread = Removing nat string string | Adding bool string account

text \<open>The accounts that a user gets, with their inbounds; a tag that the configuration does not have makes it be
  read again.\<close>

fun place_accounts :: "(user \<Rightarrow> proxy_type \<Rightarrow> settings \<Rightarrow> inbound_info option \<Rightarrow> account list) \<Rightarrow> user \<Rightarrow>
    (proxy_type \<times> settings) list \<Rightarrow> core_inbounds \<Rightarrow> (proxy_type \<times> string) list \<Rightarrow> core_inbounds \<Rightarrow> (string \<times> account) list" where
  "place_accounts build u ps reloaded [] ibs = []"
| "place_accounts build u ps reloaded ((p, t) # rest) ibs =
     (let ibs' = (if find_inbound ibs t = None then reloaded else ibs) in
      (case map_of ps p of None \<Rightarrow> [] | Some m \<Rightarrow> map (Pair t) (build u p m (find_inbound ibs' t))) @
      place_accounts build u ps reloaded rest ibs')"

definition placed_accounts :: "environment \<Rightarrow> (string \<Rightarrow> string) \<Rightarrow> string \<Rightarrow> core_inbounds \<Rightarrow> core_inbounds \<Rightarrow> bool \<Rightarrow>
    db \<Rightarrow> user \<Rightarrow> (string \<times> account) list result" where
  "placed_accounts env sha fresh ibs reloaded host_map_ok d u =
     then_res (response_proxies env sha u) (\<lambda>ps. Inr (place_accounts (build_runtime_accounts env sha fresh) u ps reloaded
       (concat (map (\<lambda>(p, ts). map (Pair p) ts) (user_inbounds ibs host_map_ok d u))) ibs))"

text \<open>The threads, each with its core: the master and the nodes that are connected.\<close>

definition removing :: "'k list \<Rightarrow> core_inbounds \<Rightarrow> user \<Rightarrow> ('k \<times> core_thread) list" where
  "removing cores ibs u = concat (map (\<lambda>t. map (\<lambda>k. (k, Removing 2 t (user_email u))) cores) (core_tags ibs))"

definition adding :: "'k list \<Rightarrow> (string \<times> account) list \<Rightarrow> ('k \<times> core_thread) list" where
  "adding cores placed = concat (map (\<lambda>(t, a). map (\<lambda>k. (k, Adding False t a)) cores) placed)"

definition runtime_add_user :: "environment \<Rightarrow> (string \<Rightarrow> string) \<Rightarrow> string \<Rightarrow> 'k list \<Rightarrow> core_inbounds \<Rightarrow> core_inbounds \<Rightarrow>
    bool \<Rightarrow> db \<Rightarrow> user \<Rightarrow> ('k \<times> core_thread) list result" where
  "runtime_add_user env sha fresh cores ibs reloaded host_map_ok d u =
     then_res (placed_accounts env sha fresh ibs reloaded host_map_ok d u) (\<lambda>placed. Inr (adding cores placed))"

definition runtime_remove_user :: "'k list \<Rightarrow> core_inbounds \<Rightarrow> user \<Rightarrow> ('k \<times> core_thread) list" where
  "runtime_remove_user cores ibs u = removing cores ibs u"

definition runtime_update_user :: "environment \<Rightarrow> (string \<Rightarrow> string) \<Rightarrow> string \<Rightarrow> 'k list \<Rightarrow> core_inbounds \<Rightarrow> core_inbounds \<Rightarrow>
    bool \<Rightarrow> db \<Rightarrow> user \<Rightarrow> ('k \<times> core_thread) list result" where
  "runtime_update_user env sha fresh cores ibs reloaded host_map_ok d u =
     then_res (placed_accounts env sha fresh ibs reloaded host_map_ok d u) (\<lambda>placed.
       Inr (removing cores ibs u @ adding cores placed))"

section \<open>The API of a core\<close>

datatype api_answer = Api_ok | Email_not_found | Email_exists | No_connection | Api_error

record 'c core_api =
  api_remove :: "string \<Rightarrow> string \<Rightarrow> 'c \<Rightarrow> api_answer \<times> 'c"
  api_add :: "string \<Rightarrow> account \<Rightarrow> 'c \<Rightarrow> api_answer \<times> 'c"

text \<open>One call of a thread, and what is left of the thread.\<close>

fun thread_step :: "'c core_api \<Rightarrow> core_thread \<Rightarrow> 'c \<Rightarrow> core_thread list \<times> 'c" where
  "thread_step api (Removing n t email) c =
     (if n = 0 then ([], c)
      else case api_remove api t email c of (answer, c') \<Rightarrow>
        ((if answer \<in> {Email_not_found, No_connection} then [] else [Removing (n - 1) t email]), c'))"
| "thread_step api (Adding removed t a) c =
     (if removed then ([], snd (api_add api t a c)) else ([Adding True t a], snd (api_remove api t (ac_email a) c)))"

text \<open>The threads of one core, in any order.\<close>

inductive core_run :: "'c core_api \<Rightarrow> core_thread list \<Rightarrow> 'c \<Rightarrow> core_thread list \<Rightarrow> 'c \<Rightarrow> bool" where
  rest: "core_run api ths c ths c"
| call: "core_run api ths c (xs @ th # ys) c1 \<Longrightarrow> thread_step api th c1 = (left, c2) \<Longrightarrow>
    core_run api ths c (xs @ left @ ys) c2"

text \<open>A thread from its first call to its last, and threads that run one after the other.\<close>

fun removal_attempts :: "'c core_api \<Rightarrow> nat \<Rightarrow> string \<Rightarrow> string \<Rightarrow> 'c \<Rightarrow> 'c" where
  "removal_attempts api 0 t email c = c"
| "removal_attempts api (Suc n) t email c = (case api_remove api t email c of (answer, c') \<Rightarrow>
     if answer \<in> {Email_not_found, No_connection} then c' else removal_attempts api n t email c')"

fun thread_to_end :: "'c core_api \<Rightarrow> core_thread \<Rightarrow> 'c \<Rightarrow> 'c" where
  "thread_to_end api (Removing n t email) c = removal_attempts api n t email c"
| "thread_to_end api (Adding removed t a) c =
     snd (api_add api t a (if removed then c else snd (api_remove api t (ac_email a) c)))"

definition in_turn :: "'c core_api \<Rightarrow> core_thread list \<Rightarrow> 'c \<Rightarrow> 'c" where
  "in_turn api ths c = fold (thread_to_end api) ths c"

definition threads_at :: "'k \<Rightarrow> ('k \<times> core_thread) list \<Rightarrow> core_thread list" where
  "threads_at k ths = map snd (filter (\<lambda>(j, _). j = k) ths)"

end
