(* ===== verification/CoreFacts.thy ===== *)
theory CoreFacts
  imports RefreshFacts "HOL-Library.Multiset"
begin

text \<open>
  Lemmas on the host map and on the clients of an inbound: the map holds for a service exactly its
  enabled hosts, in order, and a client is there exactly for an admitted row whose credentials
  resolve.
\<close>

section \<open>The host map\<close>

text \<open>What a map holds under a tag, and a cache for a service.\<close>

definition hosts_at :: "host_map \<Rightarrow> string \<Rightarrow> host_dict list" where
  "hosts_at m t = (case map_of m t of None \<Rightarrow> [] | Some hs \<Rightarrow> hs)"

definition cached_at :: "host_cache \<Rightarrow> int option \<Rightarrow> string \<Rightarrow> host_dict list" where
  "cached_at cache k t = (case map_of cache k of None \<Rightarrow> [] | Some m \<Rightarrow> hosts_at m t)"

lemma map_of_graph: "map_of (map (\<lambda>t. (t, f t)) ts) t = (if t \<in> set ts then Some (f t) else None)"
  by (induction ts) auto

lemma hosts_at_empty [simp]: "hosts_at (empty_host_map tags) t = []"
  by (simp add: hosts_at_def empty_host_map_def map_of_graph)

lemma hosts_at_add: "hosts_at (add_to_map h m) t =
    hosts_at m t @ (if host_inbound_tag (hd_row h) = t then [h] else [])"
  by (simp add: hosts_at_def add_to_map_def Let_def update_conv)

lemma cached_at_add: "cached_at (add_for_service tags h k cache) j t =
    cached_at cache j t @ (if j = k \<and> host_inbound_tag (hd_row h) = t then [h] else [])"
  by (auto simp: cached_at_def add_for_service_def update_conv hosts_at_add split: option.split)

lemma cached_at_add_all: "distinct ks \<Longrightarrow> cached_at (fold (add_for_service tags h) ks cache) j t =
    cached_at cache j t @ (if j \<in> set ks \<and> host_inbound_tag (hd_row h) = t then [h] else [])"
  by (induction ks arbitrary: cache) (auto simp: cached_at_add)

definition listed :: "string list \<Rightarrow> db \<Rightarrow> int option \<Rightarrow> string \<Rightarrow> proxy_host \<Rightarrow> bool" where
  "listed tags d k t h \<longleftrightarrow> host_is_disabled h \<noteq> Some True \<and> host_inbound_tag h = t \<and> t \<in> set tags \<and>
     (case k of None \<Rightarrow> True | Some i \<Rightarrow> i \<in> set (services_of_host (host_id h) d))"

definition dict_of :: "db \<Rightarrow> proxy_host \<Rightarrow> host_dict" where
  "dict_of d h = host_to_dict h (services_of_host (host_id h) d)"

lemma hd_row_dict [simp]: "hd_row (dict_of d h) = h"
  by (simp add: dict_of_def host_to_dict_def)

lemma cached_at_host:
  assumes "distinct (map sid (services d))"
  shows "cached_at (add_host_to_cache tags d h cache) k t =
    cached_at cache k t @ (if listed tags d k t h then [dict_of d h] else [])"
proof -
  have "distinct (services_of_host (host_id h) d)"
    using assms by (simp add: services_of_host_def distinct_map_filter)
  then have "distinct (map Some (services_of_host (host_id h) d) @ [None])" by (simp add: distinct_map)
  from cached_at_add_all [OF this, of tags "dict_of d h" cache k t] show ?thesis
    by (cases k) (auto simp: add_host_to_cache_def Let_def listed_def dict_of_def host_to_dict_def)
qed

lemma cached_at_hosts:
  assumes "distinct (map sid (services d))"
  shows "cached_at (fold (add_host_to_cache tags d) hs cache) k t =
    cached_at cache k t @ map (dict_of d) (filter (listed tags d k t) hs)"
  by (induction hs arbitrary: cache) (simp_all add: cached_at_host [OF assms])

lemma hosts_at_sort:
  "distinct tags \<Longrightarrow> hosts_at (sort_map tags m) t = (if t \<in> set tags then sort_hosts (hosts_at m t) else hosts_at m t)"
proof (induction tags arbitrary: m)
  case Nil
  then show ?case by (simp add: sort_map_def)
next
  case (Cons s tags)
  let ?m = "AList.update s (sort_hosts (hosts_at m s)) m"
  have "sort_map (s # tags) m = sort_map tags ?m" by (simp add: sort_map_def hosts_at_def)
  moreover have "hosts_at ?m t = (if t = s then sort_hosts (hosts_at m s) else hosts_at m t)"
    by (simp add: hosts_at_def update_conv)
  ultimately show ?case using Cons by auto
qed

lemma map_of_map_snd: "map_of (map (\<lambda>(k, m). (k, f m)) xs) k = map_option f (map_of xs k)"
  by (induction xs) auto

lemma sort_hosts_Nil [simp]: "sort_hosts [] = []"
  by (simp add: sort_hosts_def)

text \<open>The map a reader gets.\<close>

lemma rebuilt_map:
  assumes "distinct (map sid (services d))" and "distinct tags" and t: "t \<in> set tags"
  shows "hosts_at (map_for tags (rebuild_service_hosts tags d) k) t =
    sort_hosts (map (dict_of d) (filter (listed tags d k t) (hosts d)))"
proof -
  let ?raw = "fold (add_host_to_cache tags d) (hosts d) [(None, empty_host_map tags)]"
  have raw: "cached_at ?raw k t = map (dict_of d) (filter (listed tags d k t) (hosts d))"
    by (simp add: cached_at_hosts [OF assms(1)]) (simp add: cached_at_def)
  have "hosts_at (map_for tags c k) t = (case map_of c k of None \<Rightarrow> [] | Some m \<Rightarrow> hosts_at m t)" for c
    using t by (auto simp: map_for_def hosts_at_def map_of_graph Let_def empty_host_map_def
        split: option.split)
  then have "hosts_at (map_for tags (rebuild_service_hosts tags d) k) t =
      (case map_of ?raw k of None \<Rightarrow> [] | Some m \<Rightarrow> sort_hosts (hosts_at m t))"
    by (simp add: rebuild_service_hosts_def map_of_map_snd hosts_at_sort assms t split: option.split)
  also have "\<dots> = sort_hosts (cached_at ?raw k t)" by (simp add: cached_at_def split: option.split)
  finally show ?thesis by (simp add: raw)
qed

lemma sort_hosts_perm: "mset (sort_hosts hs) = mset hs"
  by (simp add: sort_hosts_def)

lemma sort_hosts_empty: "sort_hosts hs = [] \<longleftrightarrow> hs = []"
  using sort_hosts_perm [of hs] by (metis mset_zero_iff)

section \<open>The inbounds of a service\<close>

text \<open>The tables themselves: the service has an enabled host in the inbound.\<close>

definition offers :: "db \<Rightarrow> int \<Rightarrow> string \<Rightarrow> bool" where
  "offers d i t \<longleftrightarrow> (\<exists>h \<in> set (hosts d). host_is_disabled h \<noteq> Some True \<and> host_inbound_tag h = t \<and>
     i \<in> set (services_of_host (host_id h) d))"

lemma mapped_tags:
  assumes "distinct (map sid (services d))" and "distinct tags"
  shows "set (map fst (filter (\<lambda>(_, hs). hs \<noteq> []) (map_for tags (rebuild_service_hosts tags d) (Some i)))) =
    {t \<in> set tags. offers d i t}"
proof -
  let ?m = "map_for tags (rebuild_service_hosts tags d) (Some i)"
  have m: "?m = map (\<lambda>t. (t, hosts_at ?m t)) tags"
    by (simp add: map_for_def hosts_at_def map_of_graph Let_def)
  have "hosts_at ?m t \<noteq> [] \<longleftrightarrow> offers d i t" if "t \<in> set tags" for t
    using that rebuilt_map [OF assms that, of "Some i"]
    by (auto simp: sort_hosts_empty filter_empty_conv offers_def listed_def)
  then have "{t \<in> set tags. hosts_at ?m t \<noteq> []} = {t \<in> set tags. offers d i t}" by auto
  moreover have pairs: "set (map fst (filter (\<lambda>(_, hs). hs \<noteq> []) (map (\<lambda>t. (t, f t)) tags))) =
      {t \<in> set tags. f t \<noteq> []}" for f :: "string \<Rightarrow> host_dict list"
    by force
  have "set (map fst (filter (\<lambda>(_, hs). hs \<noteq> []) ?m)) = {t \<in> set tags. hosts_at ?m t \<noteq> []}"
    by (subst m) (rule pairs)
  ultimately show ?thesis by simp
qed

lemma allowed_tags:
  assumes "distinct (map sid (services d))" and "distinct tags" and "t \<in> set tags" and "t \<noteq> []"
  shows "t \<in> set (service_allowed_tags tags ok d i) \<longleftrightarrow> offers d i t"
proof -
  let ?m = "if ok then map_for tags (rebuild_service_hosts tags d) (Some i) else []"
  let ?allowed = "map fst (filter (\<lambda>(_, hs). hs \<noteq> []) ?m)"
  have fallback: "t \<in> set (remdups (filter (\<lambda>t. t \<noteq> []) (map host_inbound_tag
      (filter (\<lambda>h. i \<in> set (services_of_host (host_id h) d) \<and> host_is_disabled h \<noteq> Some True) (hosts d))))) \<longleftrightarrow>
      offers d i t"
    using assms(4) by (auto simp: offers_def)
  show ?thesis
  proof (cases "?allowed = []")
    case True
    then show ?thesis using fallback by (simp add: service_allowed_tags_def Let_def)
  next
    case False
    then have ok by (cases ok) auto
    then have "t \<in> set ?allowed \<longleftrightarrow> offers d i t"
      using mapped_tags [OF assms(1,2), of i] assms(3) by auto
    then show ?thesis using False by (simp add: service_allowed_tags_def Let_def)
  qed
qed

text \<open>What a user of the service may use, read off the links of the service.\<close>

lemma allow_tag_lookup: "map_of (allow_tag p tag allowed) q =
    (if q = p then Some (List.insert tag (case map_of allowed p of None \<Rightarrow> [] | Some ts \<Rightarrow> ts)) else map_of allowed q)"
  by (simp add: allow_tag_def update_conv)

definition allows :: "(proxy_type \<times> string list) list \<Rightarrow> proxy_type \<Rightarrow> string \<Rightarrow> bool" where
  "allows allowed p t \<longleftrightarrow> (case map_of allowed p of None \<Rightarrow> False | Some ts \<Rightarrow> t \<in> set ts)"

lemma allows_insert: "allows (allow_tag p tag allowed) q t \<longleftrightarrow> (q = p \<and> t = tag) \<or> allows allowed q t"
  by (auto simp: allows_def allow_tag_lookup split: option.split)

definition link_offers :: "core_config \<Rightarrow> proxy_host list \<Rightarrow> proxy_type \<Rightarrow> string \<Rightarrow> host_link \<Rightarrow> bool" where
  "link_offers cfg hs p t l \<longleftrightarrow> (\<exists>h. fetch_host (link_host_id l) hs = Some h \<and> host_is_disabled h \<noteq> Some True \<and>
     host_inbound_tag h = t \<and> (\<exists>pr. protocol_of_tag cfg t = Some pr \<and> proxy_type_of pr = Some p))"

lemma allows_links: "allows (allowed_from_links cfg hs ls allowed) p t \<longleftrightarrow>
    allows allowed p t \<or> (\<exists>l \<in> set ls. link_offers cfg hs p t l)"
proof (induction ls arbitrary: allowed)
  case (Cons l ls)
  show ?case
  proof (cases "fetch_host (link_host_id l) hs")
    case None
    then show ?thesis using Cons by (simp add: link_offers_def)
  next
    case (Some h)
    show ?thesis
    proof (cases "host_is_disabled h = Some True")
      case True
      then show ?thesis using Cons Some by (auto simp: link_offers_def)
    next
      case False
      then show ?thesis using Cons Some
        by (auto simp: link_offers_def allows_insert split: option.split)
    qed
  qed
qed simp

lemma proxy_type_of_value [simp]: "proxy_type_of (proxy_value p) = Some p"
  by (cases p) (simp_all add: proxy_type_of_def)

lemma computed_allows:
  assumes ok: "catalog_ok d" and svc: "get_service d i = Some svc"
    and t: "protocol_of_tag cfg t = Some (proxy_value p)"
  shows "allows (compute_allowed_inbounds cfg (hosts d) svc) p t \<longleftrightarrow> offers d i t"
proof -
  obtain row where row: "row \<in> set (services d)" "sid row = i" "set (host_links svc) = set (host_links row)"
    using get_service_row [OF svc] by force
  have ids: "distinct (map host_id (hosts d))" and sids: "distinct (map sid (services d))"
    using ok by (simp_all add: catalog_ok_def)
  have host: "fetch_host k (hosts d) = Some h \<longleftrightarrow> h \<in> set (hosts d) \<and> host_id h = k" for k h
    using fetch_by_key host_table.fetch_member [OF ids] by metis
  have linked: "i \<in> set (services_of_host k d) \<longleftrightarrow> k \<in> link_host_id ` set (host_links row)" for k
  proof -
    have "sv = row" if "sv \<in> set (services d)" "sid sv = i" for sv
      using that row(1,2) sids by (metis distinct_map inj_onD)
    then have "{sv \<in> set (services d). sid sv = i} = {row}" using row(1,2) by blast
    moreover have "i \<in> set (services_of_host k d) \<longleftrightarrow>
        (\<exists>sv \<in> {sv \<in> set (services d). sid sv = i}. k \<in> link_host_id ` set (host_links sv))"
      by (auto simp: services_of_host_def list_ex_iff)
    ultimately show ?thesis by simp
  qed
  have "allows (compute_allowed_inbounds cfg (hosts d) svc) p t \<longleftrightarrow>
      (\<exists>l \<in> set (host_links row). link_offers cfg (hosts d) p t l)"
    by (simp add: compute_allowed_inbounds_def allows_links row(3)) (simp add: allows_def)
  also have "\<dots> \<longleftrightarrow> offers d i t"
    using t by (auto simp: link_offers_def host offers_def linked)
  finally show ?thesis .
qed

text \<open>A user in line with its service is kept out of exactly the inbounds the service does not offer.\<close>

lemma in_line_excluded:
  assumes line: "in_line env svc allowed u" and x: "x \<in> set (proxies u)" and allowed: "distinct (map fst allowed)"
    and t: "t \<in> set (tags_of_protocol (core env) (ptype x))"
  shows "t \<notin> set (pexcluded x) \<longleftrightarrow> allows allowed (ptype x) t"
proof -
  have "ptype x \<in> fst ` set allowed" using line x by (auto simp: in_line_def)
  then obtain tags where tags: "(ptype x, tags) \<in> set allowed" by force
  then have "pexcluded x = excluded_tags env (ptype x, tags)" using line x by (auto simp: in_line_def)
  then show ?thesis using t tags allowed by (auto simp: set_excluded_tags allows_def)
qed

section \<open>The clients of an inbound\<close>

text \<open>The tables' answer to whether a user may connect to an inbound with one of its proxies.\<close>

definition may_connect :: "db \<Rightarrow> string \<Rightarrow> user \<Rightarrow> proxy \<Rightarrow> bool" where
  "may_connect d t u x \<longleftrightarrow> status u \<in> {Active, On_hold} \<and>
     (case service_id u of Some i \<Rightarrow> offers d i t | None \<Rightarrow> t \<notin> set (pexcluded x))"

lemma in_map_filter: "y \<in> set (List.map_filter f xs) \<longleftrightarrow> (\<exists>x \<in> set xs. f x = Some y)"
  by (induction xs) (auto simp: map_filter_simps split: option.split)

lemma client_rows_iff: "r \<in> set (client_rows d) \<longleftrightarrow>
    (\<exists>u \<in> set (users d). status u \<in> {Active, On_hold} \<and> (\<exists>x \<in> set (proxies u). r = row_of u x))"
  by (simp del: not_None_eq add: client_rows_def Let_def image_iff) blast

lemma row_of_simps [simp]: "cr_type (row_of u x) = ptype x" "cr_user_id (row_of u x) = uid u"
  "cr_username (row_of u x) = username u" "cr_service_id (row_of u x) = service_id u"
  by (simp_all add: row_of_def)

lemma admitted_row:
  assumes "t \<noteq> []" and "\<And>i. t \<in> set (allowed i) \<longleftrightarrow> offers d i t"
  shows "row_admitted allowed t (row_of u x) \<longleftrightarrow>
    (case service_id u of Some i \<Rightarrow> offers d i t | None \<Rightarrow> t \<notin> set (pexcluded x))"
  using assms by (auto simp: row_admitted_def row_of_def split: option.split)

lemma clients_iff:
  assumes "ib_tag ib \<noteq> []" and "\<And>i. ib_tag ib \<in> set (allowed i) \<longleftrightarrow> offers d i (ib_tag ib)"
  shows "c \<in> set (clients_of_inbound env sha fresh allowed d p ib) \<longleftrightarrow>
    (\<exists>u \<in> set (users d). \<exists>x \<in> set (proxies u). ptype x = p \<and> may_connect d (ib_tag ib) u x \<and>
       row_client env sha fresh ib (row_of u x) = Some c)"
proof -
  have "c \<in> set (clients_of_inbound env sha fresh allowed d p ib) \<longleftrightarrow>
      (\<exists>r. r \<in> set (client_rows d) \<and> cr_type r = p \<and> row_admitted allowed (ib_tag ib) r \<and>
        row_client env sha fresh ib r = Some c)"
    by (auto simp: clients_of_inbound_def in_map_filter)
  also have "\<dots> \<longleftrightarrow> (\<exists>u \<in> set (users d). \<exists>x \<in> set (proxies u). status u \<in> {Active, On_hold} \<and>
      cr_type (row_of u x) = p \<and> row_admitted allowed (ib_tag ib) (row_of u x) \<and>
      row_client env sha fresh ib (row_of u x) = Some c)"
    unfolding client_rows_iff by blast
  also have "\<dots> \<longleftrightarrow> (\<exists>u \<in> set (users d). \<exists>x \<in> set (proxies u). ptype x = p \<and>
      may_connect d (ib_tag ib) u x \<and> row_client env sha fresh ib (row_of u x) = Some c)"
    unfolding admitted_row [OF assms] may_connect_def row_of_simps(1) by blast
  finally show ?thesis .
qed

lemma appended_lists: "fold (\<lambda>(p, ib) m. m(ib_tag ib := m (ib_tag ib) @ map Inr (cl p ib))) ps m t =
    m t @ map Inr (concat (map (\<lambda>(p, ib). cl p ib) (filter (\<lambda>(p, ib). ib_tag ib = t) ps)))"
  by (induction ps arbitrary: m) auto

lemma in_concat_pairs: "c \<in> set (concat (map (\<lambda>(q, jb). f q jb) xs)) \<longleftrightarrow>
    (\<exists>q jb. (q, jb) \<in> set xs \<and> c \<in> set (f q jb))"
  by force

lemma typed_inbounds_iff: "(p, ib) \<in> set (typed_inbounds known types) \<longleftrightarrow> p \<in> set types \<and> ib \<in> set (known p)"
  by (auto simp: typed_inbounds_def)

lemma clients_typed:
  assumes "c \<in> set (clients_of_inbound env sha fresh allowed d p ib)"
  shows "p \<in> set (grouped_types (client_rows d))"
  using assms by (auto simp: clients_of_inbound_def in_map_filter grouped_types_def)

text \<open>The list at a tag that only the inbound \<open>ib\<close> of the protocol \<open>p\<close> has.\<close>

lemma include_db_users_at:
  assumes known: "ib \<in> set (known p)"
    and alone: "\<And>q jb. jb \<in> set (known q) \<Longrightarrow> ib_tag jb = ib_tag ib \<Longrightarrow> q = p \<and> jb = ib"
  shows "\<exists>cs. include_db_users env sha fresh known tags ok cfg d (ib_tag ib) =
      map Inl (configured_clients cfg (ib_tag ib)) @ map Inr cs \<and>
    set cs = set (clients_of_inbound env sha fresh (service_allowed_tags tags ok d) d p ib)"
proof -
  let ?cl = "clients_of_inbound env sha fresh (service_allowed_tags tags ok d) d"
  let ?ps = "filter (\<lambda>(q, jb). ib_tag jb = ib_tag ib) (typed_inbounds known (grouped_types (client_rows d)))"
  let ?cs = "concat (map (\<lambda>(q, jb). ?cl q jb) ?ps)"
  have ps: "(q, jb) \<in> set ?ps \<longleftrightarrow> q = p \<and> jb = ib \<and> p \<in> set (grouped_types (client_rows d))" for q jb
    using known alone [of jb q] by (auto simp: typed_inbounds_iff)
  have "c \<in> set ?cs \<longleftrightarrow> c \<in> set (?cl p ib)" for c
  proof -
    have "c \<in> set ?cs \<longleftrightarrow> (\<exists>q jb. (q, jb) \<in> set ?ps \<and> c \<in> set (?cl q jb))"
      by (rule in_concat_pairs)
    also have "\<dots> \<longleftrightarrow> p \<in> set (grouped_types (client_rows d)) \<and> c \<in> set (?cl p ib)"
      unfolding ps by blast
    also have "\<dots> \<longleftrightarrow> c \<in> set (?cl p ib)" using clients_typed by blast
    finally show ?thesis .
  qed
  then have "set ?cs = set (?cl p ib)" by blast
  then show ?thesis unfolding include_db_users_def appended_lists by blast
qed

lemma row_client_id: "row_client env sha fresh ib r = Some c \<Longrightarrow>
    cl_user_id c = cr_user_id r \<and> cl_username c = cr_username r"
  by (auto simp: row_client_def split: sum.splits)

text \<open>A client is offered the flow only at an inbound that supports it.\<close>

lemma client_flow: "row_client env sha fresh ib r = Some c \<Longrightarrow>
    has_setting (cl_settings c) ''flow'' \<Longrightarrow> flow_supported_for_inbound ib"
  by (auto simp: row_client_def has_setting_def setting_get_def delete_conv' split: sum.splits if_splits)


end
