(* ===== verification/RuntimeUserFacts.thy ===== *)
theory RuntimeUserFacts
  imports RuntimeUsers CoreFacts CredentialFacts Rotation
begin

text \<open>
  Lemmas on users of a running core: the account that is built is the client of a configuration that is
  made anew, and the threads of a change in every order.
\<close>

section \<open>Credentials\<close>

lemma uuid_char: "c \<in> set (uuid_str bs) \<Longrightarrow> \<not> is_space c \<and> c \<noteq> CHR ''n''"
  using uuid_str_chars [of bs] by (auto simp: hex_digits_def is_space_def)

lemma uuid_valid: "length bs = 16 \<Longrightarrow> is_valid_uuid (SStr (uuid_str bs))"
proof -
  assume "length bs = 16"
  moreover have "lower (uuid_str bs) \<noteq> ''null''"
  proof
    assume "lower (uuid_str bs) = ''null''"
    then have "CHR ''n'' \<in> lower_char ` set (uuid_str bs)" by (metis list.set_intros(1) list.set_map lower_def)
    then show False using uuid_str_chars [of bs] by (auto simp: hex_digits_def lower_char_def)
  qed
  ultimately show ?thesis by (simp add: is_valid_uuid_def uuid_str_nonempty parse_uuid_str)
qed

lemma sanitize_uuid_str: "length bs = 16 \<Longrightarrow> sanitize_uuid (SStr (uuid_str bs)) = Some (uuid_str bs)"
proof -
  assume "length bs = 16"
  moreover have "strip (uuid_str bs) = uuid_str bs" using uuid_char by (intro strip_none) blast
  ultimately show ?thesis by (simp add: sanitize_uuid_def parse_uuid_str)
qed

lemma strip_length: "length (strip x) \<le> length x"
proof -
  have "length (dropWhile is_space (rev (dropWhile is_space x))) \<le> length (rev (dropWhile is_space x))"
    by (rule length_dropWhile_le)
  also have "\<dots> \<le> length x" by (simp add: length_dropWhile_le)
  finally show ?thesis by (simp add: strip_def)
qed

lemma int16_length:
  assumes "int16_digits s0 = Some ds"
  shows "length ds \<le> length s0"
proof -
  define s1 where "s1 = (if take 1 (strip s0) = ''+'' then drop 1 (strip s0) else strip s0)"
  define s2 where "s2 = (if lower (take 2 s1) = ''0x''
      then (if take 1 (drop 2 s1) = ''_'' then drop 3 s1 else drop 2 s1) else s1)"
  have ds: "ds = lower (filter (\<lambda>c. c \<noteq> CHR ''_'') s2)"
    using assms unfolding int16_digits_def Let_def s1_def [symmetric] s2_def [symmetric] by (simp split: if_splits)
  have "length ds \<le> length s2" by (simp add: ds lower_def)
  also have "\<dots> \<le> length s1" by (simp add: s2_def)
  also have "\<dots> \<le> length (strip s0)" by (simp add: s1_def)
  also have "\<dots> \<le> length s0" by (rule strip_length)
  finally show ?thesis .
qed

lemma parse_uuid_length:
  assumes "parse_uuid s = Some bs"
  shows "length bs = 16"
proof -
  let ?h = "filter (\<lambda>c. c \<noteq> CHR ''-'') (strip_braces (remove_sub ''uuid:'' (remove_sub ''urn:'' s)))"
  obtain ds where ds: "length ?h = 32" "int16_digits ?h = Some ds"
    "bytes_of_hex (replicate (32 - length ds) CHR ''0'' @ ds) = Some bs"
    using assms by (auto simp: parse_uuid_def Let_def split: if_splits option.splits)
  show ?thesis using bytes_of_hex_length [OF ds(3)] int16_length [OF ds(2)] ds(1) by simp
qed

lemma sanitized_id: "sanitize_uuid v = Some i \<Longrightarrow> \<exists>bs. length bs = 16 \<and> i = uuid_str bs"
  by (auto simp: sanitize_uuid_def dest: parse_uuid_length split: setting.splits option.splits)

lemma key_uuid_length: "usable_masks masks \<Longrightarrow> key_to_uuid masks k p = Inr u \<Longrightarrow> length u = 16"
proof -
  assume a: "usable_masks masks" "key_to_uuid masks k p = Inr u"
  then obtain n where "normalize_key k = Inr n" by (auto simp: key_to_uuid_def split: sum.splits)
  then show "length u = 16" using key_to_uuid_defined [OF _ a(1), of k n p] a(2) by (metis sum.inject(2))
qed

lemma server_flow: "normalize_flow_for_server f = Some g \<Longrightarrow> g = ''xtls-rprx-vision''"
  by (auto simp: normalize_flow_for_server_def normalize_flow_value_def Let_def ends_with_def split: option.splits if_splits)

text \<open>The parts of \<open>runtime_proxy_settings\<close>.\<close>

definition iv_named :: "settings \<Rightarrow> settings" where
  "iv_named m = (case map_of m ''ivCheck'' of
     Some v \<Rightarrow> if map_of m ''iv_check'' = None then AList.update ''iv_check'' v m else m | None \<Rightarrow> m)"

definition asked_flow :: "string option \<Rightarrow> settings \<Rightarrow> string option" where
  "asked_flow fl m = (case fl of Some f \<Rightarrow> Some f
     | None \<Rightarrow> (case setting_get m ''flow'' of SStr f \<Rightarrow> Some f | _ \<Rightarrow> None))"

definition normal_key :: "string option \<Rightarrow> string option result" where
  "normal_key key = (case str_or_none key of None \<Rightarrow> Inr None
     | Some k \<Rightarrow> (case normalize_key k of Inl e \<Rightarrow> Inl e | Inr n \<Rightarrow> Inr (Some n)))"

definition with_id :: "masks \<Rightarrow> proxy_type \<Rightarrow> string option \<Rightarrow> settings \<Rightarrow> settings result" where
  "with_id masks p nk data =
     (if p \<in> uuid_protocols then
        (case sanitize_uuid (if has_setting data ''id'' then setting_get data ''id'' else setting_get data ''uuid'') of
           Some i \<Rightarrow> Inr (AList.update ''id'' (SStr i) data)
         | None \<Rightarrow> (case nk of
             Some n \<Rightarrow> (case key_to_uuid masks n (Some p) of Inl e \<Rightarrow> Inl e
               | Inr u \<Rightarrow> Inr (AList.update ''id'' (SStr (uuid_str u)) data))
           | None \<Rightarrow> Inl (Value_error ''UUID is required'')))
      else Inr data)"

definition with_password :: "(string \<Rightarrow> string) \<Rightarrow> string \<Rightarrow> proxy_type \<Rightarrow> string option \<Rightarrow> settings \<Rightarrow> settings result" where
  "with_password sha fresh p nk d = (if p \<in> password_protocols then runtime_password sha fresh p nk d else Inr d)"

definition completed :: "proxy_type \<Rightarrow> string option \<Rightarrow> settings \<Rightarrow> settings" where
  "completed p f d = (let d3 = (if p = Shadowsocks then set_default ''iv_check'' (SBool False)
       (set_default ''method'' (SStr chacha20_poly1305) d) else d) in
     case normalize_flow_for_server f of Some f \<Rightarrow> AList.update ''flow'' (SStr f) d3 | None \<Rightarrow> d3)"

lemma runtime_parts:
  "runtime_proxy_settings validate masks sha fresh (Settings_model m) p key fl =
    then_res (normal_key key) (\<lambda>nk. then_res (with_id masks p nk (AList.delete ''flow'' (iv_named m))) (\<lambda>d.
    then_res (with_password sha fresh p nk d) (\<lambda>d. Inr (completed p (asked_flow fl (iv_named m)) d))))"
  unfolding runtime_proxy_settings_def Let_def settings_arg.case then_res_def normal_key_def [symmetric]
    iv_named_def [symmetric] asked_flow_def [symmetric] with_id_def [symmetric] with_password_def [symmetric]
    completed_def Let_def
  by (rule refl)

lemma flow_kept:
  "with_id masks p nk d = Inr d' \<Longrightarrow> map_of d' ''flow'' = map_of d ''flow''"
  "with_password sha fresh p nk d = Inr d' \<Longrightarrow> map_of d' ''flow'' = map_of d ''flow''"
  "with_password sha fresh p nk d = Inr d' \<Longrightarrow> map_of d' ''id'' = map_of d ''id''"
  by (auto simp: with_id_def with_password_def runtime_password_def set_default_def update_conv'
      split: if_splits option.splits sum.splits)

lemma completed_keeps: "map_of (completed p f d) ''id'' = map_of d ''id''"
  "map_of d ''flow'' = None \<Longrightarrow> map_of (completed p f d) ''flow'' = map_option SStr (normalize_flow_for_server f)"
  by (auto simp: completed_def Let_def set_default_def update_conv' split: option.split)

text \<open>What settings at run time have: an identifier that is one, and at most the one flow.\<close>

lemma runtime_settings_facts:
  assumes "runtime_proxy_settings validate masks sha fresh (Settings_model m) p key fl = Inr st" "usable_masks masks"
  shows "map_of st ''flow'' \<in> {None, Some (SStr ''xtls-rprx-vision'')}"
    and "p \<in> uuid_protocols \<Longrightarrow> \<exists>bs. length bs = 16 \<and> setting_get st ''id'' = SStr (uuid_str bs)"
proof -
  obtain nk d d' where r: "with_id masks p nk (AList.delete ''flow'' (iv_named m)) = Inr d" "with_password sha fresh p nk d = Inr d'"
    "st = completed p (asked_flow fl (iv_named m)) d'"
    using assms(1) by (auto simp: runtime_parts then_res_def split: sum.splits)
  have "map_of d' ''flow'' = None" using flow_kept(1) [OF r(1)] flow_kept(2) [OF r(2)] by (simp add: delete_conv')
  then show "map_of st ''flow'' \<in> {None, Some (SStr ''xtls-rprx-vision'')}"
    using completed_keeps(2) [of d' p] server_flow
    by (cases "normalize_flow_for_server (asked_flow fl (iv_named m))") (auto simp: r(3))
  assume "p \<in> uuid_protocols"
  then have "\<exists>bs. length bs = 16 \<and> d = AList.update ''id'' (SStr (uuid_str bs)) (AList.delete ''flow'' (iv_named m))"
    using r(1) unfolding with_id_def
    by (simp split: option.splits sum.splits) (blast dest: sanitized_id key_uuid_length [OF assms(2)])+
  then obtain bs where "length bs = 16" "map_of d ''id'' = Some (SStr (uuid_str bs))" by (auto simp: update_conv')
  then show "\<exists>bs. length bs = 16 \<and> setting_get st ''id'' = SStr (uuid_str bs)"
    using flow_kept(3) [OF r(2)] by (auto simp: r(3) setting_get_def completed_keeps(1))
qed

text \<open>What validated settings have: the fields of their model under their names.\<close>

definition model_fields :: "settings \<Rightarrow> bool" where
  "model_fields m \<longleftrightarrow> map_of m ''ivCheck'' = None \<and> map_of m ''uuid'' = None \<and> map_of m ''method'' \<noteq> Some SNone"

lemma delete_update: "k \<noteq> k' \<Longrightarrow> AList.delete k (AList.update k' v xs) = AList.update k' v (AList.delete k xs)"
  by (induction xs) auto

lemma same_without_flow:
  assumes "iv_named m = m" "iv_named m' = m'" "setting_get m' ''flow'' = setting_get m ''flow''"
    and "\<And>nk f. normal_key key = Inr nk \<Longrightarrow>
       then_res (with_id masks p nk (AList.delete ''flow'' m')) (\<lambda>d. then_res (with_password sha fresh p nk d) (\<lambda>d. Inr (completed p f d))) =
       then_res (with_id masks p nk (AList.delete ''flow'' m)) (\<lambda>d. then_res (with_password sha fresh p nk d) (\<lambda>d. Inr (completed p f d)))"
  shows "runtime_proxy_settings validate masks sha fresh (Settings_model m') p key fl =
    runtime_proxy_settings validate masks sha fresh (Settings_model m) p key fl"
proof -
  have "asked_flow fl m' = asked_flow fl m" using assms(3) by (cases fl) (simp_all add: asked_flow_def)
  then show ?thesis using assms(4) by (cases "normal_key key") (simp_all add: runtime_parts assms(1,2))
qed

lemma populated_runtime:
  assumes m: "model_fields m" and masks: "usable_masks (env_masks env)" and pop: "populated env sha (Some key) (p, m) = Inr (p', m')"
    and key: "key \<noteq> []"
  shows "p' = p" "runtime_proxy_settings validate (env_masks env) sha fresh (Settings_model m') p (Some key) fl =
    runtime_proxy_settings validate (env_masks env) sha fresh (Settings_model m) p (Some key) fl"
proof -
  show "p' = p" using pop by (auto simp: populated_def then_res_def split: if_splits sum.splits)
  show "runtime_proxy_settings validate (env_masks env) sha fresh (Settings_model m') p (Some key) fl =
    runtime_proxy_settings validate (env_masks env) sha fresh (Settings_model m) p (Some key) fl"
  proof (cases "(p \<in> uuid_protocols \<and> \<not> has_setting m ''id'') \<or> (p \<in> password_protocols \<and> \<not> has_setting m ''password'')")
    case False
    then show ?thesis using pop by (auto simp: populated_def)
  next
    case True
    then have ap: "apply_credentials_to_settings (env_masks env) sha m p (Some key) = Inr m'"
      using pop by (auto simp: populated_def then_res_def split: sum.splits)
    obtain n where n: "normalize_key key = Inr n" using ap key by (auto simp: apply_credentials_to_settings_def split: sum.splits)
    have nk: "normal_key (Some key) = Inr (Some n)" using n key by (simp add: normal_key_def)
    have iv: "iv_named m = m" using m by (simp add: iv_named_def model_fields_def)
    show ?thesis
    proof (cases "p \<in> uuid_protocols")
      case uuid: True
      then obtain u where u: "key_to_uuid (env_masks env) n (Some p) = Inr u" "m' = AList.update ''id'' (SStr (uuid_str u)) m"
        using ap n key by (auto simp: apply_credentials_to_settings_def uuid_protocols_def password_protocols_def split: sum.splits)
      have "length u = 16" by (rule key_uuid_length [OF masks u(1)])
      then have w': "with_id (env_masks env) p (Some n) (AList.delete ''flow'' m') =
          Inr (AList.update ''id'' (SStr (uuid_str u)) (AList.delete ''flow'' m))"
        using uuid by (simp add: with_id_def u(2) delete_update has_setting_def uuid_str_nonempty sanitize_uuid_str)
      have "\<not> has_setting m ''id''" using True uuid by (auto simp: uuid_protocols_def password_protocols_def)
      then have w: "with_id (env_masks env) p (Some n) (AList.delete ''flow'' m) =
          Inr (AList.update ''id'' (SStr (uuid_str u)) (AList.delete ''flow'' m))"
        using uuid m by (simp add: with_id_def has_setting_def u(1) sanitize_uuid_def model_fields_def)
          (simp add: setting_get_def u(1))
      show ?thesis using nk w w' m by (intro same_without_flow [OF iv]) (auto simp: u(2) iv_named_def model_fields_def update_conv')
    next
      case password: False
      then have p: "p \<in> password_protocols" "\<not> has_setting m ''password''" using True by auto
      define d where "d pw = AList.update ''password'' (SStr pw) (AList.delete ''flow'' m)" for pw
      have meth: "setting_get m ''method'' = SNone \<longleftrightarrow> map_of m ''method'' = None"
        using m by (auto simp: setting_get_def model_fields_def split: option.split)
      obtain pw where pw: "key_to_password sha n (proxy_value p) = Inr pw"
        using ap n key password p(1) by (auto simp: apply_credentials_to_settings_def split: sum.splits)
      have m': "m' = (if p = Shadowsocks \<and> map_of m ''method'' = None
          then AList.update ''method'' (SStr chacha20_poly1305) (AList.update ''password'' (SStr pw) m) else AList.update ''password'' (SStr pw) m)"
        using ap n key password p(1) pw by (simp add: apply_credentials_to_settings_def Let_def meth split: if_splits)
      have w: "with_password sha fresh p (Some n) (AList.delete ''flow'' m) = Inr (d pw)"
        using p pw by (simp add: with_password_def runtime_password_def has_setting_def d_def)
      have d': "AList.delete ''flow'' m' = (if p = Shadowsocks \<and> map_of m ''method'' = None
          then AList.update ''method'' (SStr chacha20_poly1305) (d pw) else d pw)"
        by (simp add: m' d_def delete_update)
      have "map_of (AList.delete ''flow'' m') ''password'' = Some (SStr pw)" by (simp add: d' d_def update_conv')
      then have w': "with_password sha fresh p (Some n) (AList.delete ''flow'' m') = Inr (AList.delete ''flow'' m')"
        using p pw by (simp add: with_password_def runtime_password_def update_triv)
      have "map_of (d pw) ''method'' = map_of m ''method''" by (simp add: d_def update_conv' delete_conv')
      then have c: "completed p f (AList.delete ''flow'' m') = completed p f (d pw)" for f
        by (auto simp: d' completed_def set_default_def update_conv')
      have "iv_named m' = m'" using m by (auto simp: m' iv_named_def model_fields_def update_conv')
      then show ?thesis using nk w w' password
        by (intro same_without_flow [OF iv]) (auto simp: with_id_def c, simp add: m')
    qed
  qed
qed

section \<open>Accounts\<close>

lemma account_parts_delete:
  "account_id (AList.delete ''flow'' st) = account_id st" "account_password (AList.delete ''flow'' st) = account_password st"
  "account_method (AList.delete ''flow'' st) = account_method st" "account_iv_check (AList.delete ''flow'' st) = account_iv_check st"
  by (simp_all add: account_id_def account_password_def account_method_def account_iv_check_def delete_conv')

lemma account_without_flow:
  assumes "account_model p e st = None" "map_of st ''flow'' \<in> {None, Some (SStr ''xtls-rprx-vision'')}"
  shows "account_model p e (AList.delete ''flow'' st) = None"
proof -
  have "account_flow st \<noteq> None" using assms(2) by (auto simp: account_flow_def)
  then show ?thesis using assms(1)
    by (cases p) (auto simp: account_model_def Let_def account_parts_delete bind_eq_None_conv)
qed

lemma flow_value_none: "normalize_flow_value (str_or_none f) = normalize_flow_value f"
  by (cases f) (simp_all add: normalize_flow_value_def str_or_none_def lower_def strip_def)

text \<open>The proxies that a response has: those of the rows, with credentials where they are missing.\<close>

definition response_settings :: "environment \<Rightarrow> (string \<Rightarrow> string) \<Rightarrow> user \<Rightarrow> proxy_type \<Rightarrow> settings \<Rightarrow> settings \<Rightarrow> bool" where
  "response_settings env sha u p m m' \<longleftrightarrow>
     (if str_or_none (credential_key u) = None then m' = m else populated env sha (credential_key u) (p, m) = Inr (p, m'))"

lemma response_runtime:
  assumes "model_fields m" "usable_masks (env_masks env)" "response_settings env sha u p m m'"
  shows "runtime_proxy_settings validate (env_masks env) sha fresh (Settings_model m') p (credential_key u) fl =
    runtime_proxy_settings validate (env_masks env) sha fresh (Settings_model m) p (credential_key u) fl"
proof (cases "credential_key u")
  case (Some key)
  then show ?thesis using populated_runtime(2) [OF assms(1,2), of sha key p p m'] assms(3)
    by (cases "key = []") (simp_all add: response_settings_def)
qed (use assms(3) in \<open>simp add: response_settings_def\<close>)

lemma built_account:
  assumes "from_dict (env_validate env) (ptype x) (psettings x) = Inr m" "model_fields m" "usable_masks (env_masks env)"
    and "response_settings env sha u (ptype x) m m'"
  shows "build_runtime_accounts env sha fresh u (ptype x) m' (Some ib) = (case row_client env sha fresh ib (row_of u x) of
      None \<Rightarrow> []
    | Some cl \<Rightarrow> (case account_model (ptype x) (user_email u) (cl_settings cl) of None \<Rightarrow> [] | Some a \<Rightarrow> [a]))"
proof -
  let ?p = "ptype x"
  let ?r = "runtime_proxy_settings (env_validate env) (env_masks env) sha fresh (Settings_model m) ?p (credential_key u)
    (if ?p \<in> {VLESS, Trojan} then normalize_flow_value (flow u) else None)"
  have row: "row_settings env sha fresh (row_of u x) = ?r"
    using assms(1) by (simp add: row_settings_def row_of_def flow_value_none)
  have same: "runtime_proxy_settings (env_validate env) (env_masks env) sha fresh (Settings_model m') ?p (credential_key u) fl =
      runtime_proxy_settings (env_validate env) (env_masks env) sha fresh (Settings_model m) ?p (credential_key u) fl" for fl
    by (rule response_runtime [OF assms(2-4)])
  show ?thesis
  proof (cases ?r)
    case (Inl e)
    then show ?thesis by (simp add: build_runtime_accounts_def row_client_def row Let_def same)
  next
    case (Inr st0)
    define st where "st = (if has_setting st0 ''flow'' \<and> \<not> flow_supported_for_inbound ib then AList.delete ''flow'' st0 else st0)"
    note f = runtime_settings_facts [OF Inr assms(3)]
    have flow: "map_of st ''flow'' \<in> {None, Some (SStr ''xtls-rprx-vision'')}" using f(1) by (auto simp: st_def delete_conv')
    have "is_valid_uuid (setting_get st ''id'')" if "?p \<in> uuid_protocols"
      using f(2) [OF that] uuid_valid by (auto simp: st_def)
    then have v: "(?p \<in> uuid_protocols \<and> \<not> is_valid_uuid (setting_get st ''id'')) = False" by blast
    have b: "build_runtime_accounts env sha fresh u ?p m' (Some ib) = (case account_model ?p (user_email u) st of
        Some a \<Rightarrow> [a] | None \<Rightarrow> if setting_get st ''flow'' = SNone then []
          else (case account_model ?p (user_email u) (AList.delete ''flow'' st) of Some a \<Rightarrow> [a] | None \<Rightarrow> []))"
      unfolding build_runtime_accounts_def Let_def same Inr sum.case option.case st_def [symmetric] by (simp only: v if_False)
    have c: "row_client env sha fresh ib (row_of u x) = Some \<lparr>cl_user_id = uid u, cl_username = username u, cl_settings = st\<rparr>"
      unfolding row_client_def row Inr sum.case st_def [symmetric] row_of_simps ..
    show ?thesis unfolding b c using account_without_flow [OF _ flow, of ?p "user_email u"]
      by (simp split: option.split)
  qed
qed

section \<open>Who gets an account where\<close>

lemma update_new: "k \<notin> fst ` set d \<Longrightarrow> AList.update k v d = d @ [(k, v)]"
  by (induction d) auto

lemma fold_update_map:
  assumes "distinct (map k xs)" "k ` set xs \<inter> fst ` set d = {}"
  shows "fold (\<lambda>x. AList.update (k x) (v x)) xs d = d @ map (\<lambda>x. (k x, v x)) xs"
  using assms
proof (induction xs arbitrary: d)
  case (Cons x xs)
  then have "AList.update (k x) (v x) d = d @ [(k x, v x)]" by (intro update_new) auto
  moreover have "k ` set xs \<inter> fst ` set (d @ [(k x, v x)]) = {}" using Cons.prems by auto
  ultimately show ?case using Cons by simp
qed simp

lemma linked_offers: "t \<in> set (linked_tags d i) \<longleftrightarrow> t \<noteq> [] \<and> offers d i t"
  by (auto simp: linked_tags_def offers_def)

definition admitted :: "db \<Rightarrow> user \<Rightarrow> proxy \<Rightarrow> string \<Rightarrow> bool" where
  "admitted d u x t \<longleftrightarrow> (case service_id u of Some i \<Rightarrow> offers d i t | None \<Rightarrow> t \<notin> set (pexcluded x))"

text \<open>Configurations whose tags are all different and have a name.\<close>

definition named_tags :: "core_inbounds \<Rightarrow> bool" where
  "named_tags ibs \<longleftrightarrow> distinct (map (\<lambda>(_, ib). ib_tag ib) ibs) \<and> [] \<notin> set (map (\<lambda>(_, ib). ib_tag ib) ibs)"

lemma core_tags_iff: "t \<in> set (core_tags ibs) \<longleftrightarrow> (\<exists>p ib. (p, ib) \<in> set ibs \<and> ib_tag ib = t)"
  by (force simp: core_tags_def)

lemma find_inbound_iff:
  assumes "named_tags ibs"
  shows "find_inbound ibs t = Some ib \<longleftrightarrow> (\<exists>p. (p, ib) \<in> set ibs) \<and> ib_tag ib = t"
proof -
  have d: "distinct (map fst (map (\<lambda>(_, ib). (ib_tag ib, ib)) ibs))"
    using assms by (simp add: named_tags_def comp_def case_prod_unfold)
  have "find_inbound ibs t = Some ib \<longleftrightarrow> (t, ib) \<in> set (map (\<lambda>(_, ib). (ib_tag ib, ib)) ibs)"
    using d by (simp add: find_inbound_def map_of_eq_Some_iff rev_map [symmetric] del: map_map set_map)
  then show ?thesis by force
qed

lemma user_inbounds_rows:
  assumes "catalog_ok d" "named_tags ibs" "distinct (map ptype (proxies u))"
  shows "user_inbounds ibs ok d u =
    map (\<lambda>x. (ptype x, filter (admitted d u x) (map ib_tag (inbounds_of_protocol ibs (ptype x))))) (proxies u)"
proof -
  have tags: "distinct (core_tags ibs)" by (simp add: core_tags_def)
  have sids: "distinct (map sid (services d))" using assms(1) by (simp add: catalog_ok_def)
  define admits where "admits = (case service_id u of
      Some i \<Rightarrow> (let linked = linked_tags d i;
          allowed = (if linked \<noteq> [] then linked else service_allowed_tags (core_tags ibs) ok d i)
        in (\<lambda>(x :: proxy) t. t \<in> set allowed))
    | None \<Rightarrow> (\<lambda>x t. t \<notin> set (pexcluded x)))"
  have same: "admits x t = admitted d u x t" if "t \<in> set (map ib_tag (inbounds_of_protocol ibs q))" for x t q
  proof -
    have t: "t \<in> set (core_tags ibs)" "t \<noteq> []"
      using that assms(2) by (force simp: core_tags_iff inbounds_of_protocol_def named_tags_def)+
    show ?thesis
      using allowed_tags [OF sids tags t, of ok] t(2)
      by (auto simp: admits_def admitted_def Let_def linked_offers split: option.split)
  qed
  have u: "user_inbounds ibs ok d u = fold (\<lambda>x. AList.update (ptype x)
      (filter (admits x) (map ib_tag (inbounds_of_protocol ibs (ptype x))))) (proxies u) []"
    by (cases "service_id u") (simp_all add: user_inbounds_def admits_def Let_def)
  have "filter (admits x) (map ib_tag (inbounds_of_protocol ibs q)) = filter (admitted d u x) (map ib_tag (inbounds_of_protocol ibs q))"
    for x q using same by (intro filter_cong refl)
  then show ?thesis unfolding u by (simp add: fold_update_map [OF assms(3)])
qed

lemma response_rows:
  assumes "response_proxies env sha u = Inr ps" "distinct (map ptype (proxies u))"
  shows "list_all2 (\<lambda>x (p, m'). p = ptype x \<and> (\<exists>m. from_dict (env_validate env) p (psettings x) = Inr m \<and>
    response_settings env sha u p m m')) (proxies u) ps"
proof -
  have rows: "fold (\<lambda>x. AList.update (ptype x) (psettings x)) (proxies u) [] = map (\<lambda>x. (ptype x, psettings x)) (proxies u)"
    by (simp add: fold_update_map [OF assms(2)])
  obtain ps0 where ps0: "map_res (\<lambda>(p, s). then_res (from_dict (env_validate env) p s) (\<lambda>m. Inr (p, m)))
      (map (\<lambda>x. (ptype x, psettings x)) (proxies u)) = Inr ps0"
    and ps: "(if str_or_none (credential_key u) = None then Inr ps0 else map_res (populated env sha (credential_key u)) ps0) = Inr ps"
    using assms(1) unfolding response_proxies_def Let_def rows by (auto simp: then_res_def split: sum.splits)
  have first: "list_all2 (\<lambda>x (p, m). p = ptype x \<and> from_dict (env_validate env) p (psettings x) = Inr m) (proxies u) ps0"
    using ps0 unfolding map_res_all2 list.rel_map
    by (rule list.rel_mono_strong) (auto simp: then_res_def split: sum.splits)
  have second: "list_all2 (\<lambda>(p, m) (p', m'). p' = p \<and> response_settings env sha u p m m') ps0 ps"
  proof (cases "str_or_none (credential_key u)")
    case None
    then show ?thesis using ps by (auto simp: response_settings_def list_all2_same)
  next
    case (Some k)
    have "list_all2 (\<lambda>y z. populated env sha (credential_key u) y = Inr z) ps0 ps"
      using ps Some by (simp add: map_res_all2)
    then show ?thesis
      by (rule list.rel_mono_strong) (auto simp: response_settings_def Some populated_def then_res_def split: if_splits sum.splits)
  qed
  show ?thesis using list_all2_trans [OF _ first second, of "\<lambda>x (p, m'). p = ptype x \<and>
      (\<exists>m. from_dict (env_validate env) p (psettings x) = Inr m \<and> response_settings env sha u p m m')"] by auto
qed

lemma place_known:
  assumes "\<And>p t. (p, t) \<in> set pts \<Longrightarrow> find_inbound ibs t \<noteq> None"
  shows "place_accounts build u ps reloaded pts ibs = concat (map (\<lambda>(p, t). case map_of ps p of None \<Rightarrow> []
    | Some m \<Rightarrow> map (Pair t) (build u p m (find_inbound ibs t))) pts)"
  using assms
proof (induction pts)
  case (Cons y pts)
  obtain p t where y: "y = (p, t)" by (cases y)
  have "find_inbound ibs t \<noteq> None" using Cons.prems [of p t] by (simp add: y)
  moreover have "place_accounts build u ps reloaded pts ibs = concat (map (\<lambda>(p, t). case map_of ps p of None \<Rightarrow> []
    | Some m \<Rightarrow> map (Pair t) (build u p m (find_inbound ibs t))) pts)"
    by (rule Cons.IH) (use Cons.prems in auto)
  ultimately show ?case by (auto simp: y Let_def)
qed simp

text \<open>The account of a user in a configuration that is made anew.\<close>

definition configured_account :: "environment \<Rightarrow> (string \<Rightarrow> string) \<Rightarrow> string \<Rightarrow> core_inbounds \<Rightarrow> bool \<Rightarrow> db \<Rightarrow>
    proxy_type \<Rightarrow> inbound_info \<Rightarrow> user \<Rightarrow> account option" where
  "configured_account env sha fresh ibs ok d p ib u =
     Option.bind (List.find (\<lambda>c. cl_user_id c = uid u)
         (clients_of_inbound env sha fresh (service_allowed_tags (core_tags ibs) ok d) d p ib))
       (\<lambda>c. account_model p (user_email u) (cl_settings c))"

lemma found_client:
  assumes "\<And>y. y \<in> set xs \<and> P y \<longleftrightarrow> Q y" "\<And>y y'. Q y \<Longrightarrow> Q y' \<Longrightarrow> y = y'"
  shows "List.find P xs = Some c \<longleftrightarrow> Q c"
proof
  assume "List.find P xs = Some c"
  then have "c \<in> set xs \<and> P c" by (auto simp: find_Some_iff)
  then show "Q c" using assms(1) by blast
next
  assume q: "Q c"
  obtain y where "List.find P xs = Some y" using assms(1) [of c] q by (cases "List.find P xs") (auto simp: find_None_iff)
  moreover have "y \<in> set xs \<and> P y" using calculation by (auto simp: find_Some_iff)
  moreover have "Q y" using assms(1) calculation(2) by blast
  ultimately show "List.find P xs = Some c" using assms(2) q by blast
qed

text \<open>A user that may connect, in tables and a configuration that are in order.\<close>

definition live_user :: "environment \<Rightarrow> core_inbounds \<Rightarrow> db \<Rightarrow> user \<Rightarrow> bool" where
  "live_user env ibs d u \<longleftrightarrow> catalog_ok d \<and> distinct (map uid (users d)) \<and> named_tags ibs \<and> u \<in> set (users d) \<and>
     status u \<in> {Active, On_hold} \<and> distinct (map ptype (proxies u)) \<and> usable_masks (env_masks env) \<and>
     (\<forall>x \<in> set (proxies u). \<forall>m. from_dict (env_validate env) (ptype x) (psettings x) = Inr m \<longrightarrow> model_fields m)"

lemma inbound_tag:
  assumes "live_user env ibs d u" "(p, ib) \<in> set ibs"
  shows "ib_tag ib \<noteq> []" "ib_tag ib \<in> set (core_tags ibs)"
    "ib_tag ib \<in> set (service_allowed_tags (core_tags ibs) ok d i) \<longleftrightarrow> offers d i (ib_tag ib)"
proof -
  show ne: "ib_tag ib \<noteq> []" and mem: "ib_tag ib \<in> set (core_tags ibs)"
    using assms by (force simp: live_user_def named_tags_def core_tags_iff)+
  have "distinct (map sid (services d))" "distinct (core_tags ibs)"
    using assms(1) by (simp_all add: live_user_def catalog_ok_def core_tags_def)
  then show "ib_tag ib \<in> set (service_allowed_tags (core_tags ibs) ok d i) \<longleftrightarrow> offers d i (ib_tag ib)"
    by (rule allowed_tags [OF _ _ mem ne])
qed

lemma one_proxy: "live_user env ibs d u \<Longrightarrow> x \<in> set (proxies u) \<Longrightarrow> y \<in> set (proxies u) \<Longrightarrow> ptype x = ptype y \<Longrightarrow> x = y"
  by (auto simp: live_user_def distinct_map dest: inj_onD)

lemma configured_iff:
  assumes live: "live_user env ibs d u" and ib: "(p, ib) \<in> set ibs"
  shows "configured_account env sha fresh ibs ok d p ib u = Some a \<longleftrightarrow> (\<exists>x \<in> set (proxies u). ptype x = p \<and>
    admitted d u x (ib_tag ib) \<and> (\<exists>cl. row_client env sha fresh ib (row_of u x) = Some cl \<and>
      account_model p (user_email u) (cl_settings cl) = Some a))"
proof -
  let ?cs = "clients_of_inbound env sha fresh (service_allowed_tags (core_tags ibs) ok d) d p ib"
  let ?Q = "\<lambda>c. \<exists>x \<in> set (proxies u). ptype x = p \<and> admitted d u x (ib_tag ib) \<and> row_client env sha fresh ib (row_of u x) = Some c"
  have one_user: "v = u" if "v \<in> set (users d)" "uid v = uid u" for v
    using live that by (auto simp: live_user_def distinct_map dest: inj_onD)
  have "c \<in> set ?cs \<and> cl_user_id c = uid u \<longleftrightarrow> ?Q c" for c
  proof
    assume c: "c \<in> set ?cs \<and> cl_user_id c = uid u"
    then obtain v x where v: "v \<in> set (users d)" "x \<in> set (proxies v)" "ptype x = p" "may_connect d (ib_tag ib) v x"
      "row_client env sha fresh ib (row_of v x) = Some c"
      unfolding clients_iff [OF inbound_tag(1,3) [OF live ib]] by blast
    have "v = u" using one_user [OF v(1)] row_client_id [OF v(5)] c by simp
    then show "?Q c" using v(2-5) by (auto simp: may_connect_def admitted_def)
  next
    assume "?Q c"
    then obtain x where x: "x \<in> set (proxies u)" "ptype x = p" "admitted d u x (ib_tag ib)"
      "row_client env sha fresh ib (row_of u x) = Some c" by blast
    then have "may_connect d (ib_tag ib) u x" using live by (simp add: may_connect_def admitted_def live_user_def)
    then show "c \<in> set ?cs \<and> cl_user_id c = uid u"
      unfolding clients_iff [OF inbound_tag(1,3) [OF live ib]]
      using x live row_client_id [OF x(4)] by (auto simp: live_user_def)
  qed
  moreover have "c = c'" if "?Q c" "?Q c'" for c c'
  proof -
    obtain x where x: "x \<in> set (proxies u)" "ptype x = p" "row_client env sha fresh ib (row_of u x) = Some c"
      using \<open>?Q c\<close> by blast
    obtain y where y: "y \<in> set (proxies u)" "ptype y = p" "row_client env sha fresh ib (row_of u y) = Some c'"
      using \<open>?Q c'\<close> by blast
    show ?thesis using one_proxy [OF live x(1) y(1)] x y by simp
  qed
  ultimately have "List.find (\<lambda>c. cl_user_id c = uid u) ?cs = Some c \<longleftrightarrow> ?Q c" for c by (rule found_client)
  then show ?thesis by (auto simp: configured_account_def bind_eq_Some_conv)
qed

lemma related: "list_all2 P xs ys \<Longrightarrow> x \<in> set xs \<Longrightarrow> \<exists>y \<in> set ys. P x y"
  by (induction rule: list_all2_induct) auto

text \<open>The accounts that are placed are those of such a configuration.\<close>

lemma placed_iff:
  assumes live: "live_user env ibs d u" and placed: "placed_accounts env sha fresh ibs reloaded ok d u = Inr placed"
  shows "(t, a) \<in> set placed \<longleftrightarrow>
    (\<exists>p ib. (p, ib) \<in> set ibs \<and> ib_tag ib = t \<and> configured_account env sha fresh ibs ok d p ib u = Some a)"
proof -
  have named: "named_tags ibs" and cat: "catalog_ok d" and dist: "distinct (map ptype (proxies u))"
    and masks: "usable_masks (env_masks env)"
    using live by (simp_all add: live_user_def)
  obtain ps where ps: "response_proxies env sha u = Inr ps"
    and pl: "placed = place_accounts (build_runtime_accounts env sha fresh) u ps reloaded
       (concat (map (\<lambda>(p, ts). map (Pair p) ts) (user_inbounds ibs ok d u))) ibs"
    using placed by (auto simp: placed_accounts_def then_res_def split: sum.splits)
  let ?pts = "concat (map (\<lambda>(p, ts). map (Pair p) ts) (user_inbounds ibs ok d u))"
  have pts: "(p, s) \<in> set ?pts \<longleftrightarrow> (\<exists>x \<in> set (proxies u). ptype x = p \<and> admitted d u x s \<and>
      (\<exists>ib. (p, ib) \<in> set ibs \<and> ib_tag ib = s))" for p s
    unfolding user_inbounds_rows [OF cat named dist] by (force simp: inbounds_of_protocol_def)
  have known: "find_inbound ibs s \<noteq> None" if "(p, s) \<in> set ?pts" for p s
    using that find_inbound_iff [OF named, of s] unfolding pts by blast
  note rows = response_rows [OF ps dist]
  have keys: "map fst ps = map ptype (proxies u)"
    using rows by (induction rule: list_all2_induct) auto
  have setting: "\<exists>m m'. from_dict (env_validate env) (ptype x) (psettings x) = Inr m \<and> response_settings env sha u (ptype x) m m' \<and>
      map_of ps (ptype x) = Some m'" if x: "x \<in> set (proxies u)" for x
  proof -
    obtain y where y: "y \<in> set ps" "fst y = ptype x" "\<exists>m. from_dict (env_validate env) (ptype x) (psettings x) = Inr m \<and>
        response_settings env sha u (ptype x) m (snd y)"
      using related [OF rows x] by auto
    have "distinct (map fst ps)" using keys dist by simp
    then have "map_of ps (ptype x) = Some (snd y)" using y(1,2) by (metis map_of_is_SomeI prod.collapse)
    then show ?thesis using y(3) by blast
  qed
  have build: "(case map_of ps (ptype x) of None \<Rightarrow> [] | Some m \<Rightarrow> map (Pair (ib_tag ib)) (build_runtime_accounts env sha fresh u (ptype x) m
      (find_inbound ibs (ib_tag ib)))) = (case row_client env sha fresh ib (row_of u x) of None \<Rightarrow> []
      | Some cl \<Rightarrow> (case account_model (ptype x) (user_email u) (cl_settings cl) of None \<Rightarrow> [] | Some a \<Rightarrow> [(ib_tag ib, a)]))"
    if x: "x \<in> set (proxies u)" and ib: "(ptype x, ib) \<in> set ibs" for x ib
  proof -
    obtain m m' where m: "from_dict (env_validate env) (ptype x) (psettings x) = Inr m"
      "response_settings env sha u (ptype x) m m'" "map_of ps (ptype x) = Some m'" using setting [OF x] by blast
    have "model_fields m" using live x m(1) unfolding live_user_def by blast
    moreover have "find_inbound ibs (ib_tag ib) = Some ib" using find_inbound_iff [OF named] ib by blast
    ultimately show ?thesis using built_account [OF m(1) _ masks m(2)] m(3) by (simp split: option.split)
  qed
  have "(t, a) \<in> set placed \<longleftrightarrow> (\<exists>x \<in> set (proxies u). \<exists>ib. (ptype x, ib) \<in> set ibs \<and> ib_tag ib = t \<and> admitted d u x t \<and>
      (\<exists>cl. row_client env sha fresh ib (row_of u x) = Some cl \<and> account_model (ptype x) (user_email u) (cl_settings cl) = Some a))"
  proof -
    have entry: "(t, a) \<in> set (case r of None \<Rightarrow> [] | Some cl \<Rightarrow> (case f cl of None \<Rightarrow> [] | Some a \<Rightarrow> [(s, a)])) \<longleftrightarrow>
        s = t \<and> (\<exists>cl. r = Some cl \<and> f cl = Some a)" for r :: "client option" and f and s :: string
      by (auto split: option.split)
    have split: "y \<in> set (concat (map (\<lambda>(p, s). f p s) xs)) \<longleftrightarrow> (\<exists>p s. (p, s) \<in> set xs \<and> y \<in> set (f p s))"
      for y :: "string \<times> account" and f :: "proxy_type \<Rightarrow> string \<Rightarrow> (string \<times> account) list" and xs by auto
    have "(t, a) \<in> set placed \<longleftrightarrow> (\<exists>p s. (p, s) \<in> set ?pts \<and> (t, a) \<in> set (case map_of ps p of None \<Rightarrow> []
        | Some m \<Rightarrow> map (Pair s) (build_runtime_accounts env sha fresh u p m (find_inbound ibs s))))"
      unfolding pl by (subst place_known [OF known], assumption) (rule split)
    also have "\<dots> \<longleftrightarrow> (\<exists>x \<in> set (proxies u). \<exists>ib. (ptype x, ib) \<in> set ibs \<and> admitted d u x (ib_tag ib) \<and>
        (t, a) \<in> set (case row_client env sha fresh ib (row_of u x) of None \<Rightarrow> []
          | Some cl \<Rightarrow> (case account_model (ptype x) (user_email u) (cl_settings cl) of None \<Rightarrow> [] | Some a \<Rightarrow> [(ib_tag ib, a)])))"
      (is "?L \<longleftrightarrow> ?R")
    proof
      assume ?L
      then obtain x ib where x: "x \<in> set (proxies u)" "(ptype x, ib) \<in> set ibs" "admitted d u x (ib_tag ib)"
        and a: "(t, a) \<in> set (case map_of ps (ptype x) of None \<Rightarrow> []
          | Some m \<Rightarrow> map (Pair (ib_tag ib)) (build_runtime_accounts env sha fresh u (ptype x) m (find_inbound ibs (ib_tag ib))))"
        unfolding pts by blast
      show ?R using x a unfolding build [OF x(1,2)] by blast
    next
      assume ?R
      then obtain x ib where x: "x \<in> set (proxies u)" "(ptype x, ib) \<in> set ibs" "admitted d u x (ib_tag ib)"
        and a: "(t, a) \<in> set (case row_client env sha fresh ib (row_of u x) of None \<Rightarrow> []
          | Some cl \<Rightarrow> (case account_model (ptype x) (user_email u) (cl_settings cl) of None \<Rightarrow> [] | Some a \<Rightarrow> [(ib_tag ib, a)]))"
        by blast
      show ?L using x a unfolding build [OF x(1,2), symmetric] pts by blast
    qed
    also have "\<dots> \<longleftrightarrow> (\<exists>x \<in> set (proxies u). \<exists>ib. (ptype x, ib) \<in> set ibs \<and> ib_tag ib = t \<and> admitted d u x t \<and>
      (\<exists>cl. row_client env sha fresh ib (row_of u x) = Some cl \<and> account_model (ptype x) (user_email u) (cl_settings cl) = Some a))"
      unfolding entry by blast
    finally show ?thesis .
  qed
  then show ?thesis using configured_iff [OF live] by blast
qed

lemma account_email: "account_model p e st = Some a \<Longrightarrow> ac_email a = e"
  by (cases p) (auto simp: account_model_def Let_def bind_eq_Some_conv)

lemma placed_facts:
  assumes "live_user env ibs d u" "placed_accounts env sha fresh ibs reloaded ok d u = Inr placed"
  shows "(t, a) \<in> set placed \<Longrightarrow> (t, b) \<in> set placed \<Longrightarrow> a = b"
    and "(t, a) \<in> set placed \<Longrightarrow> ac_email a = user_email u \<and> t \<in> set (core_tags ibs)"
    and "(p, ib) \<in> set ibs \<Longrightarrow> (ib_tag ib, a) \<in> set placed \<longleftrightarrow> configured_account env sha fresh ibs ok d p ib u = Some a"
proof -
  have named: "named_tags ibs" using assms(1) by (simp add: live_user_def)
  have one: "p = q \<and> ib = jb" if "(p, ib) \<in> set ibs" "(q, jb) \<in> set ibs" "ib_tag ib = ib_tag jb" for p q ib jb
  proof -
    have "inj_on (\<lambda>(_, ib). ib_tag ib) (set ibs)" using named by (simp add: named_tags_def distinct_map)
    from inj_onD [OF this, of "(p, ib)" "(q, jb)"] show ?thesis using that by simp
  qed
  note i = placed_iff [OF assms]
  show "(t, a) \<in> set placed \<Longrightarrow> (t, b) \<in> set placed \<Longrightarrow> a = b" unfolding i using one by (metis option.inject)
  show "(t, a) \<in> set placed \<Longrightarrow> ac_email a = user_email u \<and> t \<in> set (core_tags ibs)"
    unfolding i using inbound_tag(2) [OF assms(1)] by (auto simp: configured_account_def bind_eq_Some_conv dest: account_email)
  show "(p, ib) \<in> set ibs \<Longrightarrow> (ib_tag ib, a) \<in> set placed \<longleftrightarrow> configured_account env sha fresh ibs ok d p ib u = Some a"
    unfolding i using one by blast
qed

section \<open>Threads\<close>

text \<open>What a core does that is reached: a user is removed, and added when its address is not there yet.\<close>

definition keeps_users :: "'c core_api \<Rightarrow> ('c \<Rightarrow> string \<Rightarrow> string \<Rightarrow> account option) \<Rightarrow> string set \<Rightarrow> bool" where
  "keeps_users api held tags \<longleftrightarrow>
     (\<forall>c t e s f. t \<in> tags \<longrightarrow> held (snd (api_remove api t e c)) s f = (if s = t \<and> f = e then None else held c s f)) \<and>
     (\<forall>c t a s f. t \<in> tags \<longrightarrow> held (snd (api_add api t a c)) s f =
        (if s = t \<and> f = ac_email a \<and> held c s f = None then Some a else held c s f))"

lemma held_remove: "keeps_users api held tags \<Longrightarrow> t \<in> tags \<Longrightarrow>
    held (snd (api_remove api t e c)) s f = (if s = t \<and> f = e then None else held c s f)"
  by (simp add: keeps_users_def)

lemma held_add: "keeps_users api held tags \<Longrightarrow> t \<in> tags \<Longrightarrow>
    held (snd (api_add api t a c)) s f = (if s = t \<and> f = ac_email a \<and> held c s f = None then Some a else held c s f)"
  by (simp add: keeps_users_def)

lemma core_run_trans: "core_run api ths1 c1 ths2 c2 \<Longrightarrow> core_run api ths0 c0 ths1 c1 \<Longrightarrow> core_run api ths0 c0 ths2 c2"
  by (induction rule: core_run.induct) (auto intro: core_run.call)

lemma one_call: "thread_step api th c = (left, c') \<Longrightarrow> core_run api (xs @ th # ys) c (xs @ left @ ys) c'"
  using core_run.call [OF core_run.rest] .

text \<open>Running to the end is a run of single calls, whatever other threads wait meanwhile.\<close>

lemma run_removing: "core_run api (xs @ Removing n t e # ys) c (xs @ ys) (removal_attempts api n t e c)"
proof (induction n arbitrary: c)
  case 0
  then show ?case using one_call [of api "Removing 0 t e" c "[]" c xs ys] by simp
next
  case (Suc n)
  obtain answer c1 where a: "api_remove api t e c = (answer, c1)" by (rule prod.exhaust)
  show ?case
  proof (cases "answer \<in> {Email_not_found, No_connection}")
    case True
    then show ?thesis using one_call [of api "Removing (Suc n) t e" c "[]" c1 xs ys] a by simp
  next
    case False
    then have "core_run api (xs @ Removing (Suc n) t e # ys) c (xs @ Removing n t e # ys) c1"
      using one_call [of api "Removing (Suc n) t e" c "[Removing n t e]" c1 xs ys] a by simp
    then have "core_run api (xs @ Removing (Suc n) t e # ys) c (xs @ ys) (removal_attempts api n t e c1)"
      by (rule core_run_trans [OF Suc])
    then show ?thesis using a False by simp
  qed
qed

lemma run_to_end: "core_run api (xs @ th # ys) c (xs @ ys) (thread_to_end api th c)"
proof (cases th)
  case (Removing n t e)
  then show ?thesis by (simp add: run_removing)
next
  case (Adding removed t a)
  let ?c1 = "if removed then c else snd (api_remove api t (ac_email a) c)"
  have "core_run api (xs @ Adding removed t a # ys) c (xs @ Adding True t a # ys) ?c1"
    using one_call [of api "Adding False t a" c "[Adding True t a]" ?c1 xs ys] core_run.rest by (cases removed) simp_all
  moreover have "core_run api (xs @ Adding True t a # ys) ?c1 (xs @ ys) (snd (api_add api t a ?c1))"
    using one_call [of api "Adding True t a" ?c1 "[]" _ xs ys] by simp
  ultimately show ?thesis using Adding core_run_trans by fastforce
qed

lemma run_in_turn: "core_run api (xs @ ths @ ys) c (xs @ ys) (in_turn api ths c)"
proof (induction ths arbitrary: c)
  case Nil
  then show ?case by (simp add: in_turn_def core_run.rest)
next
  case (Cons th ths)
  have "core_run api (xs @ th # ths @ ys) c (xs @ ths @ ys) (thread_to_end api th c)" by (rule run_to_end)
  then show ?case using core_run_trans [OF Cons [of "thread_to_end api th c"]] by (simp add: in_turn_def)
qed

lemma in_turn_append: "in_turn api (ths @ ths') c = in_turn api ths' (in_turn api ths c)"
  by (simp add: in_turn_def)

text \<open>What a core holds after them.\<close>

lemma held_removing:
  assumes laws: "keeps_users api held tags" and t: "t \<in> tags"
  shows "held (thread_to_end api (Removing n t e) c) s f = (if n \<noteq> 0 \<and> s = t \<and> f = e then None else held c s f)"
proof (induction n arbitrary: c)
  case (Suc n)
  have "held (snd (api_remove api t e c)) s f = (if s = t \<and> f = e then None else held c s f)"
    by (rule held_remove [OF laws t])
  then show ?case using Suc [of "snd (api_remove api t e c)"] by (auto split: prod.split)
qed simp

lemma held_adding:
  assumes laws: "keeps_users api held tags" and t: "t \<in> tags"
  shows "held (thread_to_end api (Adding False t a) c) s f = (if s = t \<and> f = ac_email a then Some a else held c s f)"
  by (simp add: held_remove [OF laws t] held_add [OF laws t])

lemma held_removals:
  assumes laws: "keeps_users api held tags" and ts: "set ts \<subseteq> tags"
  shows "held (in_turn api (map (\<lambda>t. Removing 2 t e) ts) c) s f = (if s \<in> set ts \<and> f = e then None else held c s f)"
  using ts
proof (induction ts arbitrary: c)
  case (Cons t ts)
  then show ?case using held_removing [OF laws, of t 2 e c s f] by (auto simp: in_turn_def)
qed (simp add: in_turn_def)

lemma held_additions:
  assumes laws: "keeps_users api held tags" and l: "\<And>t a. (t, a) \<in> set l \<Longrightarrow> t \<in> tags \<and> ac_email a = e"
  shows "held (in_turn api (map (\<lambda>(t, a). Adding False t a) l) c) s f =
    (if f = e then (case map_of (rev l) s of None \<Rightarrow> held c s f | Some a \<Rightarrow> Some a) else held c s f)"
  using l
proof (induction l arbitrary: c)
  case (Cons y l)
  obtain t a where y: "y = (t, a)" by (cases y)
  have t: "t \<in> tags" "ac_email a = e" using Cons.prems [of t a] by (simp_all add: y)
  let ?c1 = "thread_to_end api (Adding False t a) c"
  have c1: "held ?c1 s f = (if s = t \<and> f = e then Some a else held c s f)"
    using held_adding [OF laws t(1), of a c s f] t(2) by simp
  have "held (in_turn api (map (\<lambda>(t, a). Adding False t a) (y # l)) c) s f =
      held (in_turn api (map (\<lambda>(t, a). Adding False t a) l) ?c1) s f"
    by (simp add: in_turn_def y)
  also have "\<dots> = (if f = e then (case map_of (rev l) s of None \<Rightarrow> held ?c1 s f | Some a \<Rightarrow> Some a) else held ?c1 s f)"
    by (rule Cons.IH) (use Cons.prems in auto)
  finally show ?case using c1 by (auto simp: y map_add_def split: option.split)
qed (simp add: in_turn_def)

lemma held_by_list:
  assumes "\<And>t a b. (t, a) \<in> set l \<Longrightarrow> (t, b) \<in> set l \<Longrightarrow> a = b"
  shows "map_of (rev l) t = Some a \<longleftrightarrow> (t, a) \<in> set l"
proof
  assume "map_of (rev l) t = Some a"
  then show "(t, a) \<in> set l" using map_of_SomeD by fastforce
next
  assume a: "(t, a) \<in> set l"
  then obtain b where "map_of (rev l) t = Some b" by (metis map_of_eq_None_iff not_None_eq image_eqI fst_conv set_rev)
  then show "map_of (rev l) t = Some a" using assms [of t a b] a map_of_SomeD [of "rev l" t b] by simp
qed

text \<open>The threads that a change starts at one core.\<close>

lemma at_core: "distinct ks \<Longrightarrow> k \<in> set ks \<Longrightarrow> map snd (filter (\<lambda>(j, _). j = k) (map (\<lambda>j. (j, th)) ks)) = [th]"
  by (induction ks) (auto simp: filter_empty_conv)

lemma threads_split: "threads_at k (xs @ ys) = threads_at k xs @ threads_at k ys"
  by (simp add: threads_at_def)

lemma removing_at:
  assumes "distinct ks" "k \<in> set ks"
  shows "threads_at k (concat (map (\<lambda>x. map (\<lambda>j. (j, f x)) ks) xs)) = map f xs"
proof (induction xs)
  case (Cons x xs)
  then show ?case using at_core [OF assms, of "f x"] by (simp add: threads_split) (simp add: threads_at_def)
qed (simp add: threads_at_def)

lemma update_threads:
  assumes "runtime_update_user env sha fresh cores ibs reloaded ok d u = Inr ths" "distinct cores" "k \<in> set cores"
  shows "\<exists>placed. placed_accounts env sha fresh ibs reloaded ok d u = Inr placed \<and>
    threads_at k ths = map (\<lambda>t. Removing 2 t (user_email u)) (core_tags ibs) @ map (\<lambda>(t, a). Adding False t a) placed"
proof -
  obtain placed where p: "placed_accounts env sha fresh ibs reloaded ok d u = Inr placed"
    "ths = removing cores ibs u @ adding cores placed"
    using assms(1) by (auto simp: runtime_update_user_def then_res_def split: sum.splits)
  then show ?thesis
    using removing_at [OF assms(2,3), of "\<lambda>t. Removing 2 t (user_email u)" "core_tags ibs"]
      removing_at [OF assms(2,3), of "\<lambda>(t, a). Adding False t a" placed]
    by (simp add: threads_split removing_def adding_def case_prod_unfold)
qed

text \<open>In any order: what a core holds of the user has been placed, or the threads that remove it have not begun.\<close>

definition safe_threads :: "('c \<Rightarrow> string \<Rightarrow> string \<Rightarrow> account option) \<Rightarrow> string set \<Rightarrow> string \<Rightarrow> (string \<times> account) set \<Rightarrow>
    core_thread list \<Rightarrow> 'c \<Rightarrow> bool" where
  "safe_threads held tags e placed ths c \<longleftrightarrow>
     (\<forall>t \<in> tags. (\<forall>a. held c t e = Some a \<longrightarrow> (t, a) \<in> placed) \<or> Removing 2 t e \<in> set ths) \<and>
     (\<forall>th \<in> set ths. case th of Removing n t f \<Rightarrow> f = e \<and> t \<in> tags | Adding b t a \<Rightarrow> (t, a) \<in> placed)"

lemma safe_step:
  assumes laws: "keeps_users api held tags" and placed: "\<And>t a. (t, a) \<in> placed \<Longrightarrow> t \<in> tags \<and> ac_email a = e"
    and safe: "safe_threads held tags e placed (xs @ th # ys) c" and st: "thread_step api th c = (left, c')"
  shows "safe_threads held tags e placed (xs @ left @ ys) c' \<and> (\<forall>t f. f \<noteq> e \<longrightarrow> held c' t f = held c t f)"
proof (cases th)
  case (Removing n t f)
  then have f: "f = e" "t \<in> tags" using safe by (auto simp: safe_threads_def)
  show ?thesis
  proof (cases "n = 0")
    case True
    then show ?thesis using st safe by (auto simp: Removing safe_threads_def)
  next
    case False
    then have c': "c' = snd (api_remove api t e c)" "set left \<subseteq> {Removing (n - 1) t e}"
      using st by (auto simp: Removing f split: prod.splits if_splits)
    have h: "held c' s g = (if s = t \<and> g = e then None else held c s g)" for s g
      unfolding c'(1) by (rule held_remove [OF laws f(2)])
    show ?thesis using safe c'(2) f by (auto simp: safe_threads_def h Removing)
  qed
next
  case (Adding b t a)
  then have p: "(t, a) \<in> placed" using safe by (auto simp: safe_threads_def)
  then have t: "t \<in> tags" "ac_email a = e" using placed by auto
  show ?thesis
  proof (cases b)
    case True
    then have c': "c' = snd (api_add api t a c)" "left = []" using st by (simp_all add: Adding)
    have h: "held c' s g = (if s = t \<and> g = e \<and> held c s g = None then Some a else held c s g)" for s g
      unfolding c'(1) held_add [OF laws t(1)] t(2) ..
    show ?thesis using safe p by (auto simp: safe_threads_def h Adding c'(2))
  next
    case False
    then have c': "c' = snd (api_remove api t e c)" "left = [Adding True t a]" using st t(2) by (simp_all add: Adding)
    have h: "held c' s g = (if s = t \<and> g = e then None else held c s g)" for s g
      unfolding c'(1) by (rule held_remove [OF laws t(1)])
    show ?thesis using safe p by (auto simp: safe_threads_def h Adding c'(2))
  qed
qed

lemma safe_run:
  assumes laws: "keeps_users api held tags" and placed: "\<And>t a. (t, a) \<in> placed \<Longrightarrow> t \<in> tags \<and> ac_email a = e"
    and run: "core_run api ths c ths' c'" and safe: "safe_threads held tags e placed ths c"
  shows "safe_threads held tags e placed ths' c' \<and> (\<forall>t f. f \<noteq> e \<longrightarrow> held c' t f = held c t f)"
  using run safe laws
proof (induction rule: core_run.induct)
  case (call api ths c xs th ys c1 left c2)
  have ih: "safe_threads held tags e placed (xs @ th # ys) c1" "\<forall>t f. f \<noteq> e \<longrightarrow> held c1 t f = held c t f"
    using call.IH [OF call.prems] by blast+
  from safe_step [OF call.prems(2) placed ih(1) call.hyps(2)] ih(2) show ?case by simp
qed simp

end
