(* ===== verification/ShopSamples.thy ===== *)
theory ShopSamples
  imports CoreFacts Samples
begin

text \<open>
  A small shop, with a service, its host and a user, at which the properties of services, hosts and
  endpoints are applied.
\<close>

definition shop_env :: environment where
  "shop_env = sample_env\<lparr>core := \<lparr>
     protocol_of_tag = (\<lambda>t. if t \<in> {''in1'', ''in2''} then Some ''vless'' else None),
     tags_of_protocol = (\<lambda>p. if p = VLESS then [''in1'', ''in2''] else [])\<rparr>\<rparr>"

definition gold :: service where
  "gold = sample_service\<lparr>host_links := [\<lparr>link_host_id = 1, link_sort = 0\<rparr>]\<rparr>"

definition cara :: user where
  "cara = (new_user 7 ''cara'' 0)\<lparr>admin_id := Some 1, service_id := Some 4, credential_key := Some sample_key\<rparr>"

definition shop :: db where
  "shop = sample_db\<lparr>users := [cara], services := [gold], inbound_tags := [''in1'', ''in2''],
     hosts := [default_host 1 ''in1'', default_host 2 ''in2'']\<rparr>"

definition owner :: principal where
  "owner = \<lparr>pr_id = Some 1, pr_username = ''keeper'', pr_role = Sudo,
     pr_permissions = role_default_permissions Sudo, pr_status = Admin_active, pr_disabled_reason = None\<rparr>"

definition plain_payload :: "int option \<Rightarrow> host_payload" where
  "plain_payload i = \<lparr>hp_id = i, hp_remark = ''r'', hp_address = ''a'', hp_port = None, hp_sort = None,
     hp_sni = None, hp_host = None, hp_path = None, hp_security = Inbound_default, hp_alpn = None,
     hp_fingerprint = None, hp_allowinsecure = None, hp_is_disabled = False, hp_mux_enable = Some False,
     hp_fragment_setting = None, hp_noise_setting = None, hp_random_user_agent = Some False,
     hp_use_sni_as_host = Some False\<rparr>"

lemma shop_simps [simp]: "hosts shop = [default_host 1 ''in1'', default_host 2 ''in2'']"
  "services shop = [gold]" "users shop = [cara]" "inbound_tags shop = [''in1'', ''in2'']"
  "admin_service_links shop = []" "sid gold = 4" "uid cara = 7" "service_id cara = Some 4"
  "status cara = Active" "host_links gold = [\<lparr>link_host_id = 1, link_sort = 0\<rparr>]" "proxies cara = []"
  "admins shop = [keeper]"
  by (simp_all add: shop_def gold_def cara_def sample_service_def new_user_def)

lemma shop_ok: "catalog_ok shop"
  by (simp add: catalog_ok_def links_unique_def)

end
