(* ===== verification/CoreProperties.thy ===== *)
theory CoreProperties
  imports ShopSamples
begin

text \<open>
  Properties of the host map and of the clients in the core's configuration: what a reader of the map
  gets and how old it may be, and who may connect to an inbound.
\<close>

section \<open>The order of hosts\<close>

definition in_order :: "('a \<Rightarrow> int) \<Rightarrow> ('a \<Rightarrow> int) \<Rightarrow> 'a \<Rightarrow> 'a \<Rightarrow> bool" where
  "in_order f g x y \<longleftrightarrow> f x < f y \<or> (f x = f y \<and> g x \<le> g y)"

lemma insort_in_order:
  "sorted_wrt (in_order f g) ys \<Longrightarrow> (\<And>y. y \<in> set ys \<Longrightarrow> g x \<le> g y) \<Longrightarrow>
    sorted_wrt (in_order f g) (insort_key f x ys)"
  by (induction ys) (auto simp: in_order_def set_insort_key)

lemma sort_twice: "sorted_wrt (in_order f g) (sort_key f (sort_key g xs))"
proof -
  have "sorted_wrt (in_order f g) (sort_key f zs)" if "sorted_wrt (\<lambda>x y. g x \<le> g y) zs" for zs
    using that by (induction zs) (auto intro!: insort_in_order)
  moreover have "sorted_wrt (\<lambda>x y. g x \<le> g y) (sort_key g xs)"
    using sorted_sort_key [of g xs] by (simp add: sorted_map)
  ultimately show ?thesis by blast
qed

section \<open>The host map\<close>

text \<open>A cache that was filled from \<open>d0\<close> at \<open>t0\<close>.\<close>

definition filled :: "string list \<Rightarrow> db \<Rightarrow> instant \<Rightarrow> cache_state" where
  "filled tags d0 t0 = \<lparr>hc_map = rebuild_service_hosts tags d0, hc_ts = Some t0\<rparr>"

lemma update_not_empty [simp]: "AList.update k v xs \<noteq> []"
  by (cases xs) auto

lemma rebuilt_not_empty: "rebuild_service_hosts tags d \<noteq> []"
proof -
  have service: "fold (add_for_service tags h) ks c \<noteq> []" if "c \<noteq> []" for h ks and c :: host_cache
    using that by (induction ks arbitrary: c) (simp_all add: add_for_service_def)
  have host: "add_host_to_cache tags d h c \<noteq> []" if "c \<noteq> []" for h and c :: host_cache
    using that service [OF that, of "host_to_dict h (services_of_host (host_id h) d)"
        "map Some (services_of_host (host_id h) d) @ [None]"]
    by (simp add: add_host_to_cache_def Let_def)
  have "fold (add_host_to_cache tags d) hs c \<noteq> []" if "c \<noteq> []" for hs and c :: host_cache
    using that by (induction hs arbitrary: c) (simp_all add: host)
  then show ?thesis by (simp add: rebuild_service_hosts_def)
qed

text \<open>
  C12. What a reader of the host map gets under a tag: the enabled hosts of the inbound, of the service
  when one is asked for, in the order of their place and their key, as the tables had them at most a
  quarter of an hour ago; just now when it is forced or after an invalidation.
\<close>

theorem host_map_fresh_and_exact:
  assumes res: "get_service_host_map tags d now k force c = (m, c')"
    and c: "c = filled tags d_old t_old \<or> c = invalidate_service_hosts c0" and tags: "distinct tags"
    and ok: "distinct (map sid (services d))" "distinct (map sid (services d_old))" and t: "t \<in> set tags"
  shows "\<exists>d1 t1. c' = filled tags d1 t1 \<and> now - t1 \<le> 900 * usecs \<and>
    (d1 = d \<and> t1 = now \<or> d1 = d_old \<and> t1 = t_old \<and> \<not> force \<and> c = filled tags d_old t_old) \<and>
    mset (map hd_row (hosts_at m t)) = mset (filter (\<lambda>h. host_is_disabled h \<noteq> Some True \<and> host_inbound_tag h = t \<and>
      (case k of None \<Rightarrow> True | Some i \<Rightarrow> i \<in> set (services_of_host (host_id h) d1))) (hosts d1)) \<and>
    sorted_wrt (in_order (host_sort \<circ> hd_row) (host_id \<circ> hd_row)) (hosts_at m t)"
proof -
  have exact: "mset (map hd_row (hosts_at (map_for tags (rebuild_service_hosts tags d1) k) t)) =
      mset (filter (\<lambda>h. host_is_disabled h \<noteq> Some True \<and> host_inbound_tag h = t \<and>
        (case k of None \<Rightarrow> True | Some i \<Rightarrow> i \<in> set (services_of_host (host_id h) d1))) (hosts d1)) \<and>
      sorted_wrt (in_order (host_sort \<circ> hd_row) (host_id \<circ> hd_row))
        (hosts_at (map_for tags (rebuild_service_hosts tags d1) k) t)"
    if "distinct (map sid (services d1))" for d1
  proof -
    have "mset (map hd_row (sort_hosts (map (dict_of d1) hs))) = mset hs" for hs
      by (simp add: sort_hosts_perm image_mset.compositionality comp_def)
    moreover have "listed tags d1 k t = (\<lambda>h. host_is_disabled h \<noteq> Some True \<and> host_inbound_tag h = t \<and>
        (case k of None \<Rightarrow> True | Some i \<Rightarrow> i \<in> set (services_of_host (host_id h) d1)))"
      using t by (simp add: listed_def fun_eq_iff)
    ultimately show ?thesis unfolding rebuilt_map [OF that tags t]
      by (simp only:) (simp add: sort_hosts_def sort_twice)
  qed
  show ?thesis
  proof (cases "must_rebuild force now c")
    case True
    then have "m = map_for tags (rebuild_service_hosts tags d) k" "c' = filled tags d now"
      using res by (simp_all add: get_service_host_map_def rebuild_cache_def filled_def)
    then show ?thesis using exact [OF ok(1)] by (intro exI [of _ d] exI [of _ now]) (simp add: usecs_def)
  next
    case False
    then have c0: "c = filled tags d_old t_old" using c by (auto simp: must_rebuild_def invalidate_service_hosts_def)
    then have "m = map_for tags (rebuild_service_hosts tags d_old) k" "c' = c"
      using res False by (simp_all add: get_service_host_map_def filled_def)
    moreover have "now - t_old \<le> 900 * usecs" "\<not> force"
      using False c0 by (simp_all add: must_rebuild_def filled_def hosts_cache_ttl_def)
    ultimately show ?thesis using exact [OF ok(2)] c0
      by (intro exI [of _ d_old] exI [of _ t_old]) simp
  qed
qed

lemma host_map_fresh_and_exact_witness:
  "mset (map hd_row (hosts_at (fst (get_service_host_map [''in1''] shop 50 (Some 4) False
     (filled [''in1''] shop 9))) ''in1'')) = {#default_host 1 ''in1''#}"
proof -
  let ?c = "filled [''in1''] shop 9"
  obtain m c' where m: "get_service_host_map [''in1''] shop 50 (Some 4) False ?c = (m, c')" by force
  have s: "services_of_host 1 shop = [4]" by (simp add: services_of_host_def)
  from host_map_fresh_and_exact [where d_old = shop and t_old = 9 and t = "''in1''", OF m] show ?thesis
    by (auto simp: m s)
qed

section \<open>Who may connect\<close>

text \<open>
  C5. The clients of an inbound in the core's configuration, when no other inbound has its tag: first the
  clients the configuration names itself, as they are there, then exactly the active and held users with
  a proxy of the protocol whose credentials resolve, that belong to a service offering the inbound, or
  to no service and are not excluded from it; whether or not the host map could be had.
\<close>

theorem clients_exact:
  assumes ok: "catalog_ok d" and tags: "distinct tags" and known: "ib \<in> set (known p)"
    and alone: "\<And>q jb. jb \<in> set (known q) \<Longrightarrow> ib_tag jb = ib_tag ib \<Longrightarrow> q = p \<and> jb = ib"
    and t: "ib_tag ib \<in> set tags" "ib_tag ib \<noteq> []"
  shows "\<exists>cs. include_db_users env sha fresh known tags host_map_ok cfg d (ib_tag ib) =
      map Inl (configured_clients cfg (ib_tag ib)) @ map Inr cs \<and>
    (\<forall>c. c \<in> set cs \<longleftrightarrow> (\<exists>u \<in> set (users d). \<exists>x \<in> set (proxies u). ptype x = p \<and>
      status u \<in> {Active, On_hold} \<and>
      (case service_id u of Some i \<Rightarrow> offers d i (ib_tag ib) | None \<Rightarrow> ib_tag ib \<notin> set (pexcluded x)) \<and>
      row_client env sha fresh ib (row_of u x) = Some c))"
proof -
  let ?cs = "clients_of_inbound env sha fresh (service_allowed_tags tags host_map_ok d) d p ib"
  obtain cs where mem: "include_db_users env sha fresh known tags host_map_ok cfg d (ib_tag ib) =
      map Inl (configured_clients cfg (ib_tag ib)) @ map Inr cs" and cs: "set cs = set ?cs"
    using include_db_users_at [where known = known, OF known alone] by blast
  have "distinct (map sid (services d))" using ok by (simp add: catalog_ok_def)
  then have "ib_tag ib \<in> set (service_allowed_tags tags host_map_ok d i) \<longleftrightarrow> offers d i (ib_tag ib)" for i
    by (rule allowed_tags [OF _ tags t])
  from clients_iff [OF t(2) this]
  have iff: "c \<in> set ?cs \<longleftrightarrow> (\<exists>u \<in> set (users d). \<exists>x \<in> set (proxies u). ptype x = p \<and>
      may_connect d (ib_tag ib) u x \<and> row_client env sha fresh ib (row_of u x) = Some c)" for c .
  show ?thesis
    by (rule exI [of _ cs], rule conjI [OF mem], rule allI)
      (simp only: cs iff may_connect_def conj_assoc)
qed

definition open_inbound :: inbound_info where
  "open_inbound = \<lparr>ib_tag = ''in1'', ib_network = ''tcp'', ib_tls = ''none'', ib_header_type = ''''\<rparr>"

definition wired :: user where
  "wired = cara\<lparr>proxies := [\<lparr>ptype = VLESS, psettings = [(''id'', SStr ''u'')], pexcluded = []\<rparr>]\<rparr>"


lemma wired_client: "map_option cl_user_id (row_client shop_env id ''u'' open_inbound
    (row_of wired \<lparr>ptype = VLESS, psettings = [(''id'', SStr ''u'')], pexcluded = []\<rparr>)) = Some 7"
  by code_simp

definition manual_config :: json_dict where
  "manual_config = [(''inbounds'', JArr [JObj [(''tag'', JStr ''in1''),
     (''settings'', JObj [(''clients'', JArr [JStr ''by hand''])])]])]"

abbreviation one_inbound :: "proxy_type \<Rightarrow> inbound_info list" where
  "one_inbound p \<equiv> (if p = VLESS then [open_inbound] else [])"

lemma clients_exact_witness:
  "\<exists>cs. include_db_users shop_env id ''u'' one_inbound [''in1''] False manual_config
      (shop\<lparr>users := [wired]\<rparr>) ''in1'' = Inl (JStr ''by hand'') # map Inr cs \<and> cl_user_id ` set cs = {7}"
proof -
  let ?d = "shop\<lparr>users := [wired]\<rparr>" and ?x = "\<lparr>ptype = VLESS, psettings = [(''id'', SStr ''u'')], pexcluded = []\<rparr>"
  have w: "proxies wired = [?x]" "service_id wired = Some 4" "status wired = Active"
    by (simp_all add: wired_def)
  have ok: "catalog_ok ?d" using shop_ok by (simp add: catalog_ok_def w)
  have t: "ib_tag open_inbound = ''in1''" by (simp add: open_inbound_def)
  have offers: "offers ?d 4 ''in1''" by (simp add: offers_def services_of_host_def)
  have conf: "configured_clients manual_config ''in1'' = [JStr ''by hand'']" by code_simp
  have one: "open_inbound \<in> set (one_inbound VLESS)" by simp
  have alone: "q = VLESS \<and> jb = open_inbound" if "jb \<in> set (one_inbound q)" for q jb
    using that by (auto split: if_splits)
  have "\<exists>cs. include_db_users shop_env id ''u'' one_inbound [''in1''] False manual_config ?d (ib_tag open_inbound) =
      map Inl (configured_clients manual_config (ib_tag open_inbound)) @ map Inr cs \<and>
    (\<forall>c. c \<in> set cs \<longleftrightarrow> (\<exists>u \<in> set (users ?d). \<exists>x \<in> set (proxies u). ptype x = VLESS \<and>
      status u \<in> {Active, On_hold} \<and>
      (case service_id u of Some i \<Rightarrow> offers ?d i (ib_tag open_inbound)
        | None \<Rightarrow> ib_tag open_inbound \<notin> set (pexcluded x)) \<and>
      row_client shop_env id ''u'' open_inbound (row_of u x) = Some c))"
    using one by (intro clients_exact [OF ok, where known = one_inbound and p = VLESS] alone) (simp_all add: t)
  then obtain cs where cs: "include_db_users shop_env id ''u'' one_inbound [''in1''] False manual_config ?d ''in1'' =
      Inl (JStr ''by hand'') # map Inr cs"
    and iff: "\<forall>c. c \<in> set cs \<longleftrightarrow> row_client shop_env id ''u'' open_inbound (row_of wired ?x) = Some c"
    unfolding t conf by (simp add: w offers) blast
  obtain c where "row_client shop_env id ''u'' open_inbound (row_of wired ?x) = Some c" "cl_user_id c = 7"
    using wired_client by auto
  then have "set cs = {c}" using iff by auto
  then show ?thesis using cs \<open>cl_user_id c = 7\<close> by (intro exI [of _ cs]) simp
qed

end
