(* ===== verification/RuntimeUserProperties.thy ===== *)
theory RuntimeUserProperties
  imports RuntimeUserFacts CoreProperties
begin

text \<open>
  Properties of users of a running core: the threads of a change, made one after the other, leave what a
  configuration made anew would have; no order leaves an account that the tables no longer give, but an
  order can lose one that they give.
\<close>

section \<open>The threads of a change\<close>

text \<open>The threads that \<open>update_user\<close> starts at a core, all of them removals and additions of one user.\<close>

lemma threads_of_update:
  assumes live: "live_user env ibs d u" and upd: "runtime_update_user env sha fresh cores ibs reloaded ok d u = Inr ths"
    and cores: "distinct cores" "k \<in> set cores"
  obtains placed where
    "threads_at k ths = map (\<lambda>t. Removing 2 t (user_email u)) (core_tags ibs) @ map (\<lambda>(t, a). Adding False t a) placed"
    and "\<And>t a. (t, a) \<in> set placed \<Longrightarrow> t \<in> set (core_tags ibs) \<and> ac_email a = user_email u"
    and "\<And>p ib. (p, ib) \<in> set ibs \<Longrightarrow> map_of (rev placed) (ib_tag ib) = configured_account env sha fresh ibs ok d p ib u"
    and "\<And>p ib a. (p, ib) \<in> set ibs \<Longrightarrow> (ib_tag ib, a) \<in> set placed \<Longrightarrow>
      configured_account env sha fresh ibs ok d p ib u = Some a"
proof -
  obtain placed where placed: "placed_accounts env sha fresh ibs reloaded ok d u = Inr placed"
    and ths: "threads_at k ths =
      map (\<lambda>t. Removing 2 t (user_email u)) (core_tags ibs) @ map (\<lambda>(t, a). Adding False t a) placed"
    using update_threads [OF upd cores] by blast
  note facts = placed_facts [OF live placed]
  have "map_of (rev placed) (ib_tag ib) = configured_account env sha fresh ibs ok d p ib u" if "(p, ib) \<in> set ibs" for p ib
  proof -
    have "map_of (rev placed) (ib_tag ib) = Some a \<longleftrightarrow> configured_account env sha fresh ibs ok d p ib u = Some a" for a
      using held_by_list [of placed, OF facts(1)] facts(3) [OF that] by simp
    then show ?thesis by (metis not_None_eq)
  qed
  moreover have "t \<in> set (core_tags ibs) \<and> ac_email a = user_email u" if "(t, a) \<in> set placed" for t a
    using facts(2) [OF that] by simp
  ultimately show thesis using that [OF ths] facts(3) by blast
qed

text \<open>The outcome of the threads in the order in which they were started, or the additions first.\<close>

lemma removals_then_additions:
  assumes laws: "keeps_users api held tags" and ts: "set ts \<subseteq> tags"
    and l: "\<And>t a. (t, a) \<in> set l \<Longrightarrow> t \<in> tags \<and> ac_email a = e"
  shows "held (in_turn api (map (\<lambda>t. Removing 2 t e) ts @ map (\<lambda>(t, a). Adding False t a) l) c) s f =
    (if f = e then (case map_of (rev l) s of Some a \<Rightarrow> Some a
      | None \<Rightarrow> if s \<in> set ts then None else held c s f) else held c s f)"
proof -
  let ?c1 = "in_turn api (map (\<lambda>t. Removing 2 t e) ts) c"
  have "held (in_turn api (map (\<lambda>(t, a). Adding False t a) l) ?c1) s f =
      (if f = e then (case map_of (rev l) s of None \<Rightarrow> held ?c1 s f | Some a \<Rightarrow> Some a) else held ?c1 s f)"
    using laws l by (rule held_additions)
  then show ?thesis unfolding in_turn_append held_removals [OF laws ts] by (auto split: option.split)
qed

lemma additions_then_removals:
  assumes laws: "keeps_users api held tags" and ts: "set ts \<subseteq> tags"
  shows "\<exists>c'. core_run api (map (\<lambda>t. Removing 2 t e) ts @ map (\<lambda>(t, a). Adding False t a) l) c [] c' \<and>
    (\<forall>t \<in> set ts. held c' t e = None)"
proof -
  let ?r = "map (\<lambda>t. Removing 2 t e) ts" and ?a = "map (\<lambda>(t, a). Adding False t a) l"
  have "core_run api (?r @ ?a) c ?r (in_turn api ?a c)"
    using run_in_turn [of api ?r ?a "[]" c] by simp
  moreover have "core_run api ?r (in_turn api ?a c) [] (in_turn api ?r (in_turn api ?a c))"
    using run_in_turn [of api "[]" ?r "[]"] by simp
  ultimately show ?thesis using held_removals [OF laws ts] by (auto intro: core_run_trans)
qed

section \<open>A shop with one core\<close>

text \<open>A core as its documentation describes it: accounts under a tag and an address.\<close>

definition plain_core :: "(string \<Rightarrow> string \<Rightarrow> account option) core_api" where
  "plain_core = \<lparr>
     api_remove = (\<lambda>t e c. if c t e = None then (Email_not_found, c) else (Api_ok, c(t := (c t)(e := None)))),
     api_add = (\<lambda>t a c. if c t (ac_email a) \<noteq> None then (Email_exists, c)
       else (Api_ok, c(t := (c t)(ac_email a := Some a))))\<rparr>"

lemma plain_core_laws: "keeps_users plain_core id tags"
  by (simp add: keeps_users_def plain_core_def)

definition wired_inbounds :: core_inbounds where
  "wired_inbounds = [(VLESS, open_inbound)]"

definition wired_shop :: db where
  "wired_shop = shop\<lparr>users := [wired]\<rparr>"

lemma wired_simps [simp]: "set wired_inbounds = {(VLESS, open_inbound)}" "ib_tag open_inbound = ''in1''"
  "core_tags wired_inbounds = [''in1'']"
  by (simp_all add: wired_inbounds_def open_inbound_def core_tags_def)

lemma wired_live: "live_user shop_env wired_inbounds wired_shop wired"
proof -
  have ok: "catalog_ok wired_shop" using shop_ok by (simp add: catalog_ok_def wired_shop_def wired_def)
  show ?thesis using ok sample_masks(1)
    by (simp add: live_user_def wired_shop_def wired_def named_tags_def wired_inbounds_def open_inbound_def
        from_dict_def model_fields_def shop_env_def sample_env_def cara_def new_user_def)
qed

lemma wired_threads: "\<exists>ths. runtime_update_user shop_env id ''u'' [()] wired_inbounds [] False wired_shop wired = Inr ths \<and>
    length ths = 2"
proof -
  have "(case runtime_update_user shop_env id ''u'' [()] wired_inbounds [] False wired_shop wired of
      Inr ths \<Rightarrow> length ths = 2 | Inl _ \<Rightarrow> False)" by code_simp
  then show ?thesis by (simp split: sum.splits)
qed

text \<open>An account that the tables do not give.\<close>

definition old_account :: account where
  "old_account = \<lparr>ac_email = ''7.cara'', ac_type = Trojan, ac_id = None, ac_password = Some ''p'', ac_flow = [],
     ac_method = None, ac_iv_check = False\<rparr>"

lemma wired_account: "configured_account shop_env id ''u'' wired_inbounds False wired_shop VLESS open_inbound wired \<notin>
    {None, Some old_account}"
  by code_simp

lemma wired_email: "user_email wired = ''7.cara''"
  by code_simp

section \<open>A change of a user\<close>

text \<open>
  C6. The threads that a change of a live user starts, at every core that they reach, each finished before
  the next begins in the order in which they are started: they leave in each inbound exactly the account
  that a configuration made anew from the tables gives the user, and what the core holds of other users
  as it was. This is one of the orders in which their calls can be made.
\<close>

theorem running_core_follows_tables:
  assumes live: "live_user env ibs d u"
    and upd: "runtime_update_user env sha fresh cores ibs reloaded ok d u = Inr ths"
    and cores: "distinct cores" "k \<in> set cores" and api: "keeps_users api held (set (core_tags ibs))"
    and last: "c' = in_turn api (threads_at k ths) c"
  shows "core_run api (threads_at k ths) c [] c' \<and>
    (\<forall>(p, ib) \<in> set ibs. held c' (ib_tag ib) (user_email u) = configured_account env sha fresh ibs ok d p ib u) \<and>
    (\<forall>t e. e \<noteq> user_email u \<longrightarrow> held c' t e = held c t e)"
proof -
  obtain placed where ths: "threads_at k ths =
      map (\<lambda>t. Removing 2 t (user_email u)) (core_tags ibs) @ map (\<lambda>(t, a). Adding False t a) placed"
    and l: "\<And>t a. (t, a) \<in> set placed \<Longrightarrow> t \<in> set (core_tags ibs) \<and> ac_email a = user_email u"
    and conf: "\<And>p ib. (p, ib) \<in> set ibs \<Longrightarrow> map_of (rev placed) (ib_tag ib) = configured_account env sha fresh ibs ok d p ib u"
    using threads_of_update [OF live upd cores] by metis
  have c': "held c' s f = (if f = user_email u then (case map_of (rev placed) s of Some a \<Rightarrow> Some a
      | None \<Rightarrow> if s \<in> set (core_tags ibs) then None else held c s f) else held c s f)" for s f
    unfolding last ths by (rule removals_then_additions [OF api order_refl l])
  have "held c' (ib_tag ib) (user_email u) = configured_account env sha fresh ibs ok d p ib u" if "(p, ib) \<in> set ibs" for p ib
    using conf [OF that] inbound_tag(2) [OF live that] by (simp add: c' split: option.split)
  moreover have "held c' t e = held c t e" if "e \<noteq> user_email u" for t e using that by (simp add: c')
  moreover have "core_run api (threads_at k ths) c [] c'"
    using run_in_turn [of api "[]" "threads_at k ths" "[]" c] last by simp
  ultimately show ?thesis by blast
qed

theorem running_core_follows_tables_witness:
  "\<exists>ths a. runtime_update_user shop_env id ''u'' [()] wired_inbounds [] False wired_shop wired = Inr ths \<and>
    in_turn plain_core (threads_at () ths) (\<lambda>_ _. Some old_account) ''in1'' ''7.cara'' = Some a \<and> a \<noteq> old_account \<and>
    in_turn plain_core (threads_at () ths) (\<lambda>_ _. Some old_account) ''in1'' ''8.dora'' = Some old_account"
proof -
  obtain ths where ths: "runtime_update_user shop_env id ''u'' [()] wired_inbounds [] False wired_shop wired = Inr ths"
    using wired_threads by blast
  obtain a where "configured_account shop_env id ''u'' wired_inbounds False wired_shop VLESS open_inbound wired = Some a"
    "a \<noteq> old_account" using wired_account by auto
  then show ?thesis
    using running_core_follows_tables [OF wired_live ths _ _ plain_core_laws refl, of "()" "\<lambda>_ _. Some old_account"] ths
    by (auto simp: wired_email)
qed

text \<open>
  C7. In whatever order the threads of a change make their calls: when all have ended, an inbound holds of
  the user the account that the tables give, or none, and other users are as they were. No account that
  was there before and that the tables no longer give outlives the change.
\<close>

theorem no_order_keeps_an_old_account:
  assumes live: "live_user env ibs d u"
    and upd: "runtime_update_user env sha fresh cores ibs reloaded ok d u = Inr ths"
    and cores: "distinct cores" "k \<in> set cores" and api: "keeps_users api held (set (core_tags ibs))"
    and run: "core_run api (threads_at k ths) c [] c'"
  shows "(\<forall>(p, ib) \<in> set ibs. held c' (ib_tag ib) (user_email u) \<in> {None, configured_account env sha fresh ibs ok d p ib u}) \<and>
    (\<forall>t e. e \<noteq> user_email u \<longrightarrow> held c' t e = held c t e)"
proof -
  obtain placed where ths: "threads_at k ths =
      map (\<lambda>t. Removing 2 t (user_email u)) (core_tags ibs) @ map (\<lambda>(t, a). Adding False t a) placed"
    and l: "\<And>t a. (t, a) \<in> set placed \<Longrightarrow> t \<in> set (core_tags ibs) \<and> ac_email a = user_email u"
    and conf: "\<And>p ib a. (p, ib) \<in> set ibs \<Longrightarrow> (ib_tag ib, a) \<in> set placed \<Longrightarrow>
      configured_account env sha fresh ibs ok d p ib u = Some a"
    using threads_of_update [OF live upd cores] by metis
  have start: "safe_threads held (set (core_tags ibs)) (user_email u) (set placed) (threads_at k ths) c"
    using l by (auto simp: ths safe_threads_def)
  have safe: "safe_threads held (set (core_tags ibs)) (user_email u) (set placed) [] c'"
    and rest: "\<forall>t e. e \<noteq> user_email u \<longrightarrow> held c' t e = held c t e"
    using safe_run [OF api l run start] by blast+
  have "held c' (ib_tag ib) (user_email u) \<in> {None, configured_account env sha fresh ibs ok d p ib u}" if "(p, ib) \<in> set ibs" for p ib
    using safe inbound_tag(2) [OF live that] conf [OF that]
    by (cases "held c' (ib_tag ib) (user_email u)") (auto simp: safe_threads_def)
  then show ?thesis using rest by auto
qed

theorem no_order_keeps_an_old_account_witness:
  "\<exists>ths. runtime_update_user shop_env id ''u'' [()] wired_inbounds [] False wired_shop wired = Inr ths \<and>
    (\<exists>c'. core_run plain_core (threads_at () ths) (\<lambda>_ _. Some old_account) [] c' \<and> c' ''in1'' ''7.cara'' \<noteq> Some old_account)"
proof -
  obtain ths where ths: "runtime_update_user shop_env id ''u'' [()] wired_inbounds [] False wired_shop wired = Inr ths"
    using wired_threads by blast
  obtain c' where run: "core_run plain_core (threads_at () ths) (\<lambda>_ _. Some old_account) [] c'"
    using run_in_turn [of plain_core "[]" "threads_at () ths" "[]"] by auto
  have "configured_account shop_env id ''u'' wired_inbounds False wired_shop VLESS open_inbound wired \<noteq> Some old_account"
    using wired_account by simp
  then show ?thesis
    using no_order_keeps_an_old_account [OF wired_live ths _ _ plain_core_laws run] ths run
    by (intro exI [of _ ths] conjI exI [of _ c']) (auto simp: wired_email)
qed

text \<open>
  C38. The threads of one change are not ordered: when those that add are faster than those that remove,
  the user is in no inbound of the core at the end, although the tables let it connect.
\<close>

theorem order_can_lose_an_account:
  assumes live: "live_user env ibs d u"
    and upd: "runtime_update_user env sha fresh cores ibs reloaded ok d u = Inr ths"
    and cores: "distinct cores" "k \<in> set cores" and api: "keeps_users api held (set (core_tags ibs))"
  shows "\<exists>c'. core_run api (threads_at k ths) c [] c' \<and> (\<forall>t \<in> set (core_tags ibs). held c' t (user_email u) = None)"
proof -
  obtain placed where ths: "threads_at k ths =
      map (\<lambda>t. Removing 2 t (user_email u)) (core_tags ibs) @ map (\<lambda>(t, a). Adding False t a) placed"
    and l: "\<And>t a. (t, a) \<in> set placed \<Longrightarrow> t \<in> set (core_tags ibs) \<and> ac_email a = user_email u"
    using threads_of_update [OF live upd cores] by metis
  show ?thesis unfolding ths by (rule additions_then_removals [OF api order_refl])
qed

theorem order_can_lose_an_account_witness:
  "\<exists>ths c'. runtime_update_user shop_env id ''u'' [()] wired_inbounds [] False wired_shop wired = Inr ths \<and>
    core_run plain_core (threads_at () ths) (\<lambda>_ _. None) [] c' \<and> c' ''in1'' ''7.cara'' = None"
proof -
  obtain ths where ths: "runtime_update_user shop_env id ''u'' [()] wired_inbounds [] False wired_shop wired = Inr ths"
    using wired_threads by blast
  show ?thesis
    using order_can_lose_an_account [OF wired_live ths _ _ plain_core_laws, of "()" "\<lambda>_ _. None"] ths
    by (auto simp: wired_email)
qed

end
