(* ===== verification/NodeJobs.thy ===== *)
theory NodeJobs
  imports NodeStore UsageJob
begin

text \<open>
  The jobs that record the traffic of nodes and outbounds: \<open>get_outbounds_stats\<close> of
  \<open>app/jobs/usage/collectors.py\<close>, \<open>node_usage.py\<close>, \<open>outbound_traffic.py\<close>, \<open>app/utils/outbound.py\<close> and
  the snapshots of nodes that wait in Redis (\<open>app/jobs/sync_redis_to_db.py\<close>). What the API of a core
  answers is given: statistics, or \<open>None\<close> for an \<open>XrayError\<close>. Cores are asked one after the other.
\<close>

section \<open>Asking the cores\<close>

record link_stat =
  lk_name :: string
  lk_link :: string
  lk_value :: int

text \<open>Tag, bytes up, bytes down.\<close>

type_synonym traffic = "(string \<times> int \<times> int) list"

definition add_stat :: "link_stat \<Rightarrow> traffic \<Rightarrow> traffic" where
  "add_stat st d = (case (case map_of d (lk_name st) of Some t \<Rightarrow> t | None \<Rightarrow> (0, 0)) of (up, down) \<Rightarrow>
     AList.update (lk_name st)
       (if lk_link st = ''uplink'' then (up + lk_value st, down)
        else if lk_link st = ''downlink'' then (up, down + lk_value st) else (up, down)) d)"

definition stats_by_tag :: "link_stat list \<Rightarrow> traffic" where
  "stats_by_tag stats = fold add_stat (filter (\<lambda>st. lk_value st \<noteq> 0 \<and> lk_name st \<noteq> ''api'') stats) []"

text \<open>The answers are kept for ten seconds, and used again, however old, when the API fails.\<close>

type_synonym stats_cache = "(string \<times> instant \<times> traffic) list"

definition stats_ttl :: int where
  "stats_ttl = 10 * usecs"

definition get_outbounds_stats :: "instant \<Rightarrow> string \<Rightarrow> link_stat list option \<Rightarrow> stats_cache \<Rightarrow> traffic \<times> stats_cache" where
  "get_outbounds_stats now key answer cache =
     (case map_of cache key of
        Some (t, p) \<Rightarrow>
          (if now - t < stats_ttl then (p, cache)
           else case answer of
             Some stats \<Rightarrow> (stats_by_tag stats, AList.update key (now, stats_by_tag stats) cache)
           | None \<Rightarrow> (p, cache))
      | None \<Rightarrow> (case answer of
          Some stats \<Rightarrow> (stats_by_tag stats, AList.update key (now, stats_by_tag stats) cache)
        | None \<Rightarrow> ([], cache)))"

text \<open>The cores that are asked: the number of the node, none for the master, with the address of the API.\<close>

record core_answer =
  ca_node :: "int option"
  ca_key :: string
  ca_answer :: "link_stat list option"

fun ask_cores :: "instant \<Rightarrow> core_answer list \<Rightarrow> stats_cache \<Rightarrow> (int option \<times> traffic) list \<times> stats_cache" where
  "ask_cores now [] cache = ([], cache)"
| "ask_cores now (c # cs) cache =
     (case get_outbounds_stats now (ca_key c) (ca_answer c) cache of (t, cache1) \<Rightarrow>
      case ask_cores now cs cache1 of (ts, cache2) \<Rightarrow> ((ca_node c, t) # ts, cache2))"

definition traffic_up :: "traffic \<Rightarrow> int" where
  "traffic_up t = sum_list (map (\<lambda>(_, up, _). up) t)"

definition traffic_down :: "traffic \<Rightarrow> int" where
  "traffic_down t = sum_list (map (\<lambda>(_, _, down). down) t)"

section \<open>Limits\<close>

datatype limit_event = Limit_reached int | Limit_cleared int

definition update_node_limits :: "instant \<Rightarrow> int \<Rightarrow> int \<Rightarrow> node \<Rightarrow> node \<times> limit_event option" where
  "update_node_limits now up down n =
     (let n' = n\<lparr>nd_uplink := nd_uplink n + up, nd_downlink := nd_downlink n + down\<rparr> in
      if over_node_limit (nd_data_limit n') (node_usage_total n')
      then (if nd_status n' \<noteq> Node_limited
        then (n'\<lparr>nd_status := Node_limited, nd_message := limit_message, nd_version := None, nd_changed_at := Some now\<rparr>,
          Some (Limit_reached (nd_id n)))
        else (n', None))
      else if nd_status n' = Node_limited
      then (n'\<lparr>nd_status := Connecting, nd_message := None, nd_version := None, nd_changed_at := Some now\<rparr>,
        Some (Limit_cleared (nd_id n)))
      else (n', None))"

definition update_master_limits :: "instant \<Rightarrow> int \<Rightarrow> int \<Rightarrow> master_state \<Rightarrow> master_state" where
  "update_master_limits now up down m =
     (let m' = m\<lparr>ms_uplink := ms_uplink m + up, ms_downlink := ms_downlink m + down\<rparr> in
      if over_node_limit (ms_data_limit m') (ms_uplink m' + ms_downlink m')
      then (if ms_status m' \<noteq> Node_limited
        then m'\<lparr>ms_status := Node_limited, ms_message := limit_message, ms_updated_at := now\<rparr> else m')
      else if ms_status m' = Node_limited then m'\<lparr>ms_status := Connected, ms_message := None, ms_updated_at := now\<rparr>
      else m')"

section \<open>Recording the traffic of a node\<close>

text \<open>The row of the hour is added when it is not there, and every tag is added to it.\<close>

definition same_hour :: "int option \<Rightarrow> instant \<Rightarrow> node_hour \<Rightarrow> bool" where
  "same_hour i t h \<longleftrightarrow> nh_node h = i \<and> nh_at h = t"

definition add_hour :: "int option \<Rightarrow> instant \<Rightarrow> traffic \<Rightarrow> node_hour list \<Rightarrow> node_hour list" where
  "add_hour i t params hours =
     (let hs = (if list_ex (same_hour i t) hours then hours
          else hours @ [\<lparr>nh_node = i, nh_at = t, nh_up = 0, nh_down = 0\<rparr>])
      in fold (\<lambda>(_, up, down). update_where (same_hour i t) (\<lambda>h. h\<lparr>nh_up := nh_up h + up, nh_down := nh_down h + down\<rparr>))
        params hs)"

definition apply_limits :: "instant \<Rightarrow> int option \<Rightarrow> int \<Rightarrow> int \<Rightarrow> node_store \<Rightarrow> node_store \<times> limit_event option" where
  "apply_limits now i up down s =
     (if up = 0 \<and> down = 0 then (s, None)
      else case i of
        None \<Rightarrow> (s\<lparr>ns_master := Some (update_master_limits now up down (master_of now s))\<rparr>, None)
      | Some k \<Rightarrow> (case fetch_node k (ns_nodes s) of
          None \<Rightarrow> (s, None)
        | Some n \<Rightarrow> (case update_node_limits now up down n of (n', event) \<Rightarrow> (put_node n' s, event))))"

definition record_node_stats :: "bool \<Rightarrow> instant \<Rightarrow> traffic \<Rightarrow> int option \<Rightarrow> node_store \<Rightarrow> node_store \<times> limit_event option" where
  "record_node_stats redis now params i s =
     (if params = [] then (s, None)
      else let up = traffic_up params; down = traffic_down params; t = hour_bucket now;
        s1 = (if redis then s\<lparr>ns_pending := ns_pending s @ [\<lparr>nh_node = i, nh_at = t, nh_up = up, nh_down = down\<rparr>]\<rparr>
          else s\<lparr>ns_hours := add_hour i t params (ns_hours s)\<rparr>)
      in apply_limits now i up down s1)"

fun record_all :: "bool \<Rightarrow> instant \<Rightarrow> (int option \<times> traffic) list \<Rightarrow> node_store \<Rightarrow> node_store \<times> limit_event list" where
  "record_all redis now [] s = (s, [])"
| "record_all redis now ((i, params) # rest) s =
     (case record_node_stats redis now params i s of (s1, e) \<Rightarrow>
      case record_all redis now rest s1 of (s2, es) \<Rightarrow> (s2, (case e of None \<Rightarrow> es | Some x \<Rightarrow> x # es)))"

definition record_node_usages :: "bool \<Rightarrow> bool \<Rightarrow> instant \<Rightarrow> core_answer list \<Rightarrow> stats_cache \<times> node_store \<Rightarrow>
    (stats_cache \<times> node_store) \<times> limit_event list" where
  "record_node_usages redis disabled now cores = (\<lambda>(cache, s).
     case ask_cores now cores cache of (params, cache') \<Rightarrow>
       (let up = sum_list (map (traffic_up \<circ> snd) params); down = sum_list (map (traffic_down \<circ> snd) params) in
        if up = 0 \<and> down = 0 then ((cache', s), [])
        else let s1 = s\<lparr>ns_totals := (fst (ns_totals s) + up, snd (ns_totals s) + down)\<rparr> in
          if disabled then ((cache', s1), [])
          else (case record_all redis now params s1 of (s2, events) \<Rightarrow> ((cache', s2), events))))"

text \<open>The snapshots in Redis are added to the rows of their hours.\<close>

definition store_snapshot :: "node_hour \<Rightarrow> node_hour list \<Rightarrow> node_hour list" where
  "store_snapshot h hours =
     (if list_ex (same_hour (nh_node h) (nh_at h)) hours
      then update_where (same_hour (nh_node h) (nh_at h)) (\<lambda>x. x\<lparr>nh_up := nh_up x + nh_up h, nh_down := nh_down x + nh_down h\<rparr>) hours
      else hours @ [h])"

definition sync_node_snapshots :: "node_store \<Rightarrow> node_store" where
  "sync_node_snapshots s = s\<lparr>ns_hours := fold store_snapshot (ns_pending s) (ns_hours s), ns_pending := []\<rparr>"

section \<open>Outbounds\<close>

text \<open>\<open>outbound_signature\<close>: JSON with sorted keys, no blanks, and text as it is but for quotes, backslashes
  and control characters. The identifier is the start of its digest.\<close>

definition raw_char :: "char \<Rightarrow> string" where
  "raw_char c = (let n = of_char c :: int in if n < 32 \<or> n = 34 \<or> n = 92 then dumped_point n else [c])"

definition raw_text :: "string \<Rightarrow> string" where
  "raw_text s = [CHR 0x22] @ concat (map raw_char s) @ [CHR 0x22]"

fun compact_dumps :: "json \<Rightarrow> string" where
  "compact_dumps (JStr s) = raw_text s"
| "compact_dumps (JArr xs) = ''['' @ joined '','' (map compact_dumps xs) @ '']''"
| "compact_dumps (JObj kvs) = ''{'' @ joined '',''
     (map (\<lambda>(k, t). raw_text k @ '':'' @ t) (in_key_order True (map (\<lambda>(k, v). (k, compact_dumps v)) kvs))) @ ''}''"
| "compact_dumps v = json_dumps True v"

definition outbound_signature :: "json_dict \<Rightarrow> string" where
  "outbound_signature config = compact_dumps (JObj (AList.delete ''tag'' config))"

definition generate_outbound_id :: "(string \<Rightarrow> string) \<Rightarrow> json_dict \<Rightarrow> string" where
  "generate_outbound_id sha config = take 16 (sha (outbound_signature config))"

text \<open>\<open>x[0].get(k)\<close> of a list that is there.\<close>

definition first_server :: "json \<Rightarrow> (json \<times> json) result" where
  "first_server v = (if \<not> json_true v then Inr (JNull, JNull) else case v of
     JArr (JObj d # _) \<Rightarrow> Inr (jget d ''address'', jget d ''port'')
   | JObj _ \<Rightarrow> Inl Key_error
   | JArr _ \<Rightarrow> Inl Attribute_error
   | JStr _ \<Rightarrow> Inl Attribute_error
   | _ \<Rightarrow> Inl Type_error)"

definition extract_outbound_metadata :: "json_dict \<Rightarrow> (json \<times> json \<times> json) result" where
  "extract_outbound_metadata config =
     (let protocol = jget config ''protocol''; settings = jor (jget config ''settings'') (JObj []);
          servers = (\<lambda>k. then_res (as_dict settings) (\<lambda>d. then_res (first_server (jget d k)) (\<lambda>(a, p). Inr (protocol, a, p)))) in
      if protocol \<in> {JStr ''vmess'', JStr ''vless''} then servers ''vnext''
      else if protocol \<in> {JStr ''trojan'', JStr ''shadowsocks'', JStr ''socks'', JStr ''http''} then servers ''servers''
      else case protocol of JArr _ \<Rightarrow> Inl Type_error | JObj _ \<Rightarrow> Inl Type_error | _ \<Rightarrow> Inr (protocol, JNull, JNull))"

definition merge_traffic :: "traffic list \<Rightarrow> traffic" where
  "merge_traffic ts = fold (\<lambda>(tag, up, down) d. case (case map_of d tag of Some t \<Rightarrow> t | None \<Rightarrow> (0, 0)) of (u0, d0) \<Rightarrow>
     AList.update tag (u0 + up, d0 + down) d) (filter (\<lambda>(tag, _). tag \<noteq> []) (concat ts)) []"

definition configs_by_tag :: "json list \<Rightarrow> (string \<times> json_dict) list" where
  "configs_by_tag outbounds = fold (\<lambda>v d. case v of
     JObj c \<Rightarrow> (case jget_or c ''tag'' (JStr []) of JStr t \<Rightarrow> AList.update t c d | _ \<Rightarrow> d) | _ \<Rightarrow> d) outbounds []"

definition keep_unless_null :: "json \<Rightarrow> json \<Rightarrow> json" where
  "keep_unless_null new old = (if new = JNull then old else new)"

text \<open>The rows that a tag changes or adds; the key of a new row is set when it is written.\<close>

definition changed_outbound :: "(string \<Rightarrow> string) \<Rightarrow> json_dict option \<Rightarrow> int \<Rightarrow> int \<Rightarrow> outbound_row \<Rightarrow> outbound_row result" where
  "changed_outbound sha config up down r =
     (let r' = r\<lparr>ob_up := ob_up r + up, ob_down := ob_down r + down\<rparr> in
      case config of
        None \<Rightarrow> Inr r'
      | Some c \<Rightarrow> then_res (extract_outbound_metadata c) (\<lambda>(protocol, address, port).
          Inr (r'\<lparr>ob_protocol := keep_unless_null protocol (ob_protocol r), ob_address := keep_unless_null address (ob_address r),
            ob_port := keep_unless_null port (ob_port r), ob_id := generate_outbound_id sha c\<rparr>)))"

definition added_outbound :: "(string \<Rightarrow> string) \<Rightarrow> json_dict option \<Rightarrow> string \<Rightarrow> int \<Rightarrow> int \<Rightarrow> outbound_row result" where
  "added_outbound sha config tag up down =
     (case config of
        None \<Rightarrow> Inr \<lparr>ob_key = 0, ob_id = ''tag_'' @ tag, ob_tag = tag, ob_protocol = JNull, ob_address = JNull,
          ob_port = JNull, ob_up = up, ob_down = down\<rparr>
      | Some c \<Rightarrow> then_res (extract_outbound_metadata c) (\<lambda>(protocol, address, port).
          let i = generate_outbound_id sha c in
          Inr \<lparr>ob_key = 0, ob_id = (if i = [] then ''tag_'' @ tag else i), ob_tag = tag, ob_protocol = protocol,
            ob_address = address, ob_port = port, ob_up = up, ob_down = down\<rparr>))"

text \<open>A commit updates changed rows in the order of their keys, then adds the new ones; a statement that would
  repeat an identifier fails.\<close>

definition write_outbound :: "outbound_row \<Rightarrow> outbound_row list \<Rightarrow> outbound_row list result" where
  "write_outbound r rows =
     (if list_ex (\<lambda>q. ob_key q \<noteq> ob_key r \<and> ob_id q = ob_id r) rows then Inl (Integrity_error ''outbound_id'')
      else Inr (store_by ob_key r rows))"

definition insert_outbound :: "outbound_row \<Rightarrow> outbound_row list \<Rightarrow> outbound_row list result" where
  "insert_outbound r rows =
     (if list_ex (\<lambda>q. ob_id q = ob_id r) rows then Inl (Integrity_error ''outbound_id'')
      else Inr (rows @ [r\<lparr>ob_key := next_key ob_key rows\<rparr>]))"

definition traffic_changes :: "(string \<Rightarrow> string) \<Rightarrow> (string \<times> json_dict) list \<Rightarrow> traffic \<Rightarrow> outbound_row list \<Rightarrow>
    (outbound_row list \<times> outbound_row list) result" where
  "traffic_changes sha configs stats rows = fold_res (\<lambda>(tag, up, down) (changed, added).
     if up = 0 \<and> down = 0 then Inr (changed, added)
     else case List.find (\<lambda>r. ob_tag r = tag) rows of
       Some r \<Rightarrow> then_res (changed_outbound sha (map_of configs tag) up down r) (\<lambda>r'. Inr (changed @ [r'], added))
     | None \<Rightarrow> then_res (added_outbound sha (map_of configs tag) tag up down) (\<lambda>r'. Inr (changed, added @ [r'])))
     stats ([], [])"

definition save_outbounds :: "(string \<Rightarrow> string) \<Rightarrow> (string \<times> json_dict) list \<Rightarrow> traffic \<Rightarrow> outbound_row list \<Rightarrow>
    outbound_row list result" where
  "save_outbounds sha configs stats rows =
     then_res (traffic_changes sha configs stats rows) (\<lambda>(changed, added).
     then_res (fold_res write_outbound (sort_key ob_key changed) rows) (fold_res insert_outbound added))"

text \<open>The job; every exception is logged and nothing is saved then.\<close>

definition record_outbound_traffic :: "(string \<Rightarrow> string) \<Rightarrow> json list \<Rightarrow> instant \<Rightarrow> core_answer list \<Rightarrow>
    stats_cache \<times> node_store \<Rightarrow> stats_cache \<times> node_store" where
  "record_outbound_traffic sha outbounds now cores = (\<lambda>(cache, s).
     case ask_cores now cores cache of (params, cache') \<Rightarrow>
       (case save_outbounds sha (configs_by_tag outbounds) (merge_traffic (map snd params)) (ns_outbounds s) of
          Inl _ \<Rightarrow> (cache', s)
        | Inr rows \<Rightarrow> (cache', s\<lparr>ns_outbounds := rows\<rparr>)))"

end
