(* ===== verification/NodeRuntime.thy ===== *)
theory NodeRuntime
  imports NodeJobs
begin

text \<open>
  Connections to nodes: \<open>app/reb_node/operations.py\<close> as far as it concerns nodes, the health check of
  \<open>app/jobs/0_xray_core.py\<close> and the endpoints of \<open>app/routers/node.py\<close> that change a node. A connection
  is an object, which a thread keeps when the registry has lost it; a thread that connects reads the node,
  marks it and finishes in steps of their own, between which everything else may happen. What a core
  answers is given.
\<close>

section \<open>State\<close>

record connection =
  cn_connected :: bool
  cn_started :: bool

record connect_thread =
  th_node :: int
  th_object :: nat
  th_version :: "string option"

record runtime =
  rt_store :: node_store
  rt_registry :: "(int \<times> nat) list"
  rt_objects :: "connection list"
  rt_checked :: "connect_thread list"
  rt_marked :: "connect_thread list"
  rt_connecting :: "int list"
  rt_errors :: "(int \<times> string \<times> instant) list"
  rt_attempts :: "(int \<times> instant) list"

definition closed :: connection where
  "closed = \<lparr>cn_connected = False, cn_started = False\<rparr>"

definition connection_of :: "runtime \<Rightarrow> int \<Rightarrow> connection option" where
  "connection_of rt i = map_option (\<lambda>k. rt_objects rt ! k) (map_of (rt_registry rt) i)"

definition set_connection :: "nat \<Rightarrow> connection \<Rightarrow> runtime \<Rightarrow> runtime" where
  "set_connection k c rt = rt\<lparr>rt_objects := (rt_objects rt)[k := c]\<rparr>"

definition node_row :: "runtime \<Rightarrow> int \<Rightarrow> node option" where
  "node_row rt i = fetch_node i (ns_nodes (rt_store rt))"

section \<open>The registry\<close>

definition unregister :: "int \<Rightarrow> runtime \<Rightarrow> runtime" where
  "unregister i rt = (case map_of (rt_registry rt) i of
     None \<Rightarrow> rt
   | Some k \<Rightarrow> (set_connection k closed rt)\<lparr>rt_registry := AList.delete i (rt_registry rt)\<rparr>)"

definition register :: "int \<Rightarrow> runtime \<Rightarrow> nat \<times> runtime" where
  "register i rt = (let rt' = unregister i rt; k = length (rt_objects rt') in
     (k, rt'\<lparr>rt_objects := rt_objects rt' @ [closed], rt_registry := rt_registry rt' @ [(i, k)]\<rparr>))"

section \<open>Statuses\<close>

definition set_status :: "instant \<Rightarrow> node_status \<Rightarrow> string option \<Rightarrow> string option \<Rightarrow> node \<Rightarrow> runtime \<Rightarrow> runtime" where
  "set_status now st message version n rt =
     rt\<lparr>rt_store := snd (update_node_status now st message version n (rt_store rt))\<rparr>"

definition change_node_status :: "instant \<Rightarrow> int \<Rightarrow> node_status \<Rightarrow> string option \<Rightarrow> runtime \<Rightarrow> runtime" where
  "change_node_status now i st version rt = (case node_row rt i of
     None \<Rightarrow> rt
   | Some n \<Rightarrow> if nd_status n = Node_disabled then unregister i rt else set_status now st None version n rt)"

definition error_text :: "string \<Rightarrow> string" where
  "error_text e = take 1024 (strip (if e = [] then ''Unknown node error'' else e))"

definition register_node_runtime_error :: "instant \<Rightarrow> int \<Rightarrow> string \<Rightarrow> runtime \<Rightarrow> runtime" where
  "register_node_runtime_error now i e rt =
     (let msg = error_text e; rt1 = (case node_row rt i of
          None \<Rightarrow> rt
        | Some n \<Rightarrow> if nd_status n \<in> {Node_disabled, Node_limited} then rt
            else set_status now Node_error (Some msg) (nd_version n) n rt) in
      case map_of (rt_errors rt1) i of
        Some (last_text, t) \<Rightarrow> (if last_text = msg \<and> now - t < 60 * usecs then rt1
          else rt1\<lparr>rt_errors := AList.update i (msg, now) (rt_errors rt1)\<rparr>)
      | None \<Rightarrow> rt1\<lparr>rt_errors := AList.update i (msg, now) (rt_errors rt1)\<rparr>)"

section \<open>Connecting\<close>

text \<open>The first part of \<open>_connect_node_impl\<close>: read the node and find or make its connection.\<close>

definition connect_check :: "bool \<Rightarrow> int \<Rightarrow> runtime \<Rightarrow> runtime" where
  "connect_check force i rt =
     (if \<not> force \<and> i \<in> set (rt_connecting rt) then rt
      else case node_row rt i of
        None \<Rightarrow> rt
      | Some n \<Rightarrow> if nd_status n \<in> {Node_disabled, Node_limited} then rt
          else let rt1 = (if force then (unregister i rt)\<lparr>rt_connecting := removeAll i (rt_connecting rt)\<rparr> else rt);
            (k, rt2) = (case map_of (rt_registry rt1) i of
               Some k \<Rightarrow> if \<not> force \<and> cn_connected (rt_objects rt1 ! k) then (k, rt1) else register i rt1
             | None \<Rightarrow> register i rt1)
          in rt2\<lparr>rt_checked := rt_checked rt2 @ [\<lparr>th_node = i, th_object = k, th_version = nd_version n\<rparr>]\<rparr>)"

text \<open>The second: it is connecting now.\<close>

definition connect_mark :: "instant \<Rightarrow> connect_thread \<Rightarrow> runtime \<Rightarrow> runtime" where
  "connect_mark now th rt =
     (let rt1 = rt\<lparr>rt_checked := remove1 th (rt_checked rt), rt_marked := rt_marked rt @ [th],
            rt_connecting := List.insert (th_node th) (rt_connecting rt)\<rparr>
      in change_node_status now (th_node th) Connecting None rt1)"

text \<open>The last: the core has started, or it has not, and is asked whether it runs all the same.\<close>

datatype core_outcome = Core_started string | Core_failed string connection "string option"

definition connect_done :: "instant \<Rightarrow> core_outcome \<Rightarrow> connect_thread \<Rightarrow> runtime \<Rightarrow> runtime" where
  "connect_done now result th rt =
     (let rt1 = rt\<lparr>rt_marked := remove1 th (rt_marked rt), rt_connecting := removeAll (th_node th) (rt_connecting rt)\<rparr> in
      case result of
        Core_started version \<Rightarrow> change_node_status now (th_node th) Connected (Some version)
          (set_connection (th_object th) \<lparr>cn_connected = True, cn_started = True\<rparr> rt1)
      | Core_failed e c version \<Rightarrow>
          (let rt2 = set_connection (th_object th) c rt1 in
           if cn_connected c \<and> cn_started c
           then change_node_status now (th_node th) Connected (case version of None \<Rightarrow> th_version th | Some v \<Rightarrow> Some v) rt2
           else register_node_runtime_error now (th_node th) e rt2))"

text \<open>\<open>restart_node\<close>; the answer is the outcome of the restart with the version, if that can be read.\<close>

definition restart_node :: "instant \<Rightarrow> (string + string option) \<Rightarrow> int \<Rightarrow> runtime \<Rightarrow> runtime" where
  "restart_node now answer i rt = (case node_row rt i of
     None \<Rightarrow> rt
   | Some n \<Rightarrow> if nd_status n = Node_limited then rt
       else let (k, rt1) = (case map_of (rt_registry rt) i of Some k \<Rightarrow> (k, rt) | None \<Rightarrow> register i rt) in
         if \<not> cn_connected (rt_objects rt1 ! k) then connect_check False i rt1
         else case answer of
           Inr (Some version) \<Rightarrow> change_node_status now i Connected (Some version) rt1
         | Inr None \<Rightarrow> rt1
         | Inl e \<Rightarrow> set_connection k closed (register_node_runtime_error now i e rt1))"

section \<open>The health check\<close>

text \<open>One node of the loop: its health, whether its API answers and how a restart would end are given, and the
  statuses as they were read before the loop.\<close>

record health_answer =
  ha_connection :: connection
  ha_api :: bool
  ha_restart :: "string + string option"

definition health_error :: "node_status option \<Rightarrow> connection \<Rightarrow> string option" where
  "health_error st c =
     (if st = Some Connected \<and> \<not> cn_connected c then Some ''Health check failed: node is disconnected''
      else if st = Some Connected \<and> cn_connected c \<and> \<not> cn_started c then Some ''Health check failed: node core is not started''
      else None)"

definition confirm_connected :: "instant \<Rightarrow> int \<Rightarrow> runtime \<Rightarrow> runtime" where
  "confirm_connected now i rt = (case node_row rt i of
     None \<Rightarrow> rt
   | Some n \<Rightarrow> if nd_status n \<in> {Node_disabled, Node_limited, Connected} then rt
       else set_status now Connected None (nd_version n) n rt)"

definition health_check_node :: "instant \<Rightarrow> int \<Rightarrow> (int \<times> node_status) list \<Rightarrow> health_answer \<Rightarrow> int \<Rightarrow> runtime \<Rightarrow> runtime" where
  "health_check_node now cooldown statuses answer i rt =
     (let c = ha_connection answer; st = map_of statuses i;
          rt1 = (case map_of (rt_registry rt) i of None \<Rightarrow> rt | Some k \<Rightarrow> set_connection k c rt);
          rt2 = (case health_error st c of None \<Rightarrow> rt1 | Some e \<Rightarrow> register_node_runtime_error now i e rt1);
          calm = (\<lambda>r. r\<lparr>rt_attempts := AList.delete i (rt_attempts r)\<rparr>) in
      if st \<in> {Some Node_disabled, Some Node_limited} then calm rt2
      else if st = Some Node_error \<and> \<not> (cn_connected c \<and> cn_started c)
      then (if now - (case map_of (rt_attempts rt2) i of None \<Rightarrow> 0 | Some t \<Rightarrow> t) \<ge> cooldown
        then connect_check True i (rt2\<lparr>rt_attempts := AList.update i now (rt_attempts rt2)\<rparr>) else rt2)
      else let rt3 = calm rt2; rt4 = (if \<not> cn_connected c then rt3
          else if cn_started c \<and> ha_api answer then confirm_connected now i rt3
          else restart_node now (ha_restart answer) i rt3)
        in if cn_connected c then rt4 else connect_check False i rt4)"

definition core_health_check :: "instant \<Rightarrow> int \<Rightarrow> (int \<Rightarrow> health_answer) \<Rightarrow> runtime \<Rightarrow> runtime" where
  "core_health_check now cooldown answers rt =
     (let statuses = map (\<lambda>n. (nd_id n, nd_status n)) (ns_nodes (rt_store rt)) in
      fold (\<lambda>i. health_check_node now cooldown statuses (answers i) i) (map fst (rt_registry rt)) rt)"

definition start_nodes :: "instant \<Rightarrow> runtime \<Rightarrow> runtime" where
  "start_nodes now rt =
     (let ns = get_nodes [] True (rt_store rt);
          rt1 = fold (set_status now Connecting None None) ns rt
      in fold (\<lambda>n. connect_check False (nd_id n)) ns rt1)"

section \<open>Endpoints\<close>

text \<open>The tasks of an endpoint run after its answer, in order; here they follow at once.\<close>

definition add_node :: "(string \<Rightarrow> bool) \<Rightarrow> int \<Rightarrow> string \<times> string \<Rightarrow> instant \<Rightarrow> node_create \<Rightarrow> runtime \<Rightarrow> node result \<times> runtime" where
  "add_node is_ip i made now c rt = (case valid_create is_ip c of
     Inl e \<Rightarrow> (Inl e, rt)
   | Inr _ \<Rightarrow> (case create_node i made now c (rt_store rt) of
       (Inl e, _) \<Rightarrow> (Inl (Http_error 409 (''Node '' @ [CHR 0x22] @ nc_name c @ [CHR 0x22] @ '' already exists'')), rt)
     | (Inr n, s) \<Rightarrow> (Inr n, connect_check False (nd_id n) (rt\<lparr>rt_store := s\<rparr>))))"

definition modify_node :: "(string \<Rightarrow> bool) \<Rightarrow> int \<Rightarrow> node_modify \<Rightarrow> runtime \<Rightarrow> node result \<times> runtime" where
  "modify_node is_ip i m rt = (case valid_modify is_ip m of
     Inl e \<Rightarrow> (Inl e, rt)
   | Inr _ \<Rightarrow> (case node_row rt i of
       None \<Rightarrow> (Inl (Http_error 404 ''Node not found''), rt)
     | Some n \<Rightarrow> (case update_node m n (rt_store rt) of
         (Inl e, _) \<Rightarrow> (Inl e, rt)
       | (Inr n', s) \<Rightarrow> (let rt1 = unregister i (rt\<lparr>rt_store := s\<rparr>) in
           (Inr n', if nd_status n' \<in> {Node_disabled, Node_limited} then rt1 else connect_check False i rt1)))))"

definition reset_usage_of_node :: "int \<Rightarrow> runtime \<Rightarrow> node result \<times> runtime" where
  "reset_usage_of_node i rt = (case node_row rt i of
     None \<Rightarrow> (Inl (Http_error 404 ''Node not found''), rt)
   | Some n \<Rightarrow> (case reset_node_usage n (rt_store rt) of (n', s) \<Rightarrow>
       (Inr n', connect_check False i (rt\<lparr>rt_store := s\<rparr>))))"

definition reconnect_node :: "int \<Rightarrow> runtime \<Rightarrow> unit result \<times> runtime" where
  "reconnect_node i rt = (case node_row rt i of
     None \<Rightarrow> (Inl (Http_error 404 ''Node not found''), rt)
   | Some n \<Rightarrow> if nd_status n \<in> {Node_disabled, Node_limited} then (Inl (Http_error 400 ''Node is disabled or limited''), rt)
       else (Inr (), connect_check True i rt))"

definition delete_node :: "int \<Rightarrow> runtime \<Rightarrow> unit result \<times> runtime" where
  "delete_node i rt = (case node_row rt i of
     None \<Rightarrow> (Inl (Http_error 404 ''Node not found''), rt)
   | Some n \<Rightarrow> (Inr (), unregister i (rt\<lparr>rt_store := remove_node n (rt_store rt)\<rparr>)))"

text \<open>What the usage job does to connections after it has recorded a node.\<close>

definition after_limits :: "limit_event option \<Rightarrow> runtime \<Rightarrow> runtime" where
  "after_limits e rt = (case e of
     None \<Rightarrow> rt | Some (Limit_reached i) \<Rightarrow> unregister i rt | Some (Limit_cleared i) \<Rightarrow> connect_check False i rt)"

definition record_traffic :: "bool \<Rightarrow> instant \<Rightarrow> traffic \<Rightarrow> int option \<Rightarrow> runtime \<Rightarrow> runtime" where
  "record_traffic redis now params i rt = (case record_node_stats redis now params i (rt_store rt) of
     (s, e) \<Rightarrow> after_limits e (rt\<lparr>rt_store := s\<rparr>))"

section \<open>Steps\<close>

text \<open>What goes on without a request: threads, the health check and restarts.\<close>

inductive background :: "runtime \<Rightarrow> runtime \<Rightarrow> bool" where
  start_thread: "background rt (connect_check force i rt)"
| mark_thread: "th \<in> set (rt_checked rt) \<Longrightarrow> background rt (connect_mark now th rt)"
| end_thread: "th \<in> set (rt_marked rt) \<Longrightarrow> background rt (connect_done now result th rt)"
| restart: "background rt (restart_node now answer i rt)"
| failure: "background rt (register_node_runtime_error now i e rt)"
| health: "background rt (health_check_node now cooldown statuses answer' i rt)"

inductive background_run :: "runtime \<Rightarrow> runtime \<Rightarrow> bool" where
  here: "background_run rt rt"
| further: "background_run rt rt1 \<Longrightarrow> background rt1 rt2 \<Longrightarrow> background_run rt rt2"

end
