(* ===== verification/NodeFacts.thy ===== *)
theory NodeFacts
  imports NodeRuntime UsageReports
begin

text \<open>
  Lemmas on nodes: sums of hours under every operation, limits, identifiers of outbounds, and totals of
  reports.
\<close>

section \<open>Hours\<close>

definition hour_sum :: "(node_hour \<Rightarrow> int) \<Rightarrow> int option \<Rightarrow> node_hour list \<Rightarrow> int" where
  "hour_sum f i hs = sum_list (map f (filter (\<lambda>h. nh_node h = i) hs))"

definition hour_keys :: "node_hour list \<Rightarrow> (int option \<times> instant) list" where
  "hour_keys hs = map (\<lambda>h. (nh_node h, nh_at h)) hs"

lemma hour_sum_simps [simp]:
  "hour_sum f i [] = 0"
  "hour_sum f i (h # hs) = (if nh_node h = i then f h else 0) + hour_sum f i hs"
  "hour_sum f i (hs @ hs') = hour_sum f i hs + hour_sum f i hs'"
  by (simp_all add: hour_sum_def)

lemma hour_sum_filter:
  "hour_sum f i (filter (\<lambda>h. nh_node h \<notin> ids) hs) = (if i \<in> ids then 0 else hour_sum f i hs)"
  by (induction hs) auto

lemma hour_sum_other: "hour_sum f i (filter (\<lambda>h. nh_node h \<noteq> k) hs) = (if i = k then 0 else hour_sum f i hs)"
  by (induction hs) auto

lemma hour_sum_none: "i \<notin> nh_node ` set hs \<Longrightarrow> hour_sum f i hs = 0"
  by (induction hs) auto

abbreviation grow_hour :: "int \<Rightarrow> int \<Rightarrow> node_hour \<Rightarrow> node_hour" where
  "grow_hour up down h \<equiv> h\<lparr>nh_up := nh_up h + up, nh_down := nh_down h + down\<rparr>"

lemma same_hour_key: "same_hour i t h \<longleftrightarrow> (nh_node h, nh_at h) = (i, t)"
  by (auto simp: same_hour_def)

lemma grow_none: "(i, t) \<notin> set (hour_keys hs) \<Longrightarrow> update_where (same_hour i t) f hs = hs"
  by (induction hs) (auto simp: hour_keys_def same_hour_def row_simps)

lemma grow_one:
  assumes "distinct (hour_keys hs)" and "(i, t) \<in> set (hour_keys hs)"
  shows "hour_sum nh_up j (update_where (same_hour i t) (grow_hour up down) hs) = hour_sum nh_up j hs + (if j = i then up else 0) \<and>
    hour_sum nh_down j (update_where (same_hour i t) (grow_hour up down) hs) = hour_sum nh_down j hs + (if j = i then down else 0)"
  using assms
proof (induction hs)
  case (Cons h hs)
  have rest: "distinct (hour_keys hs)" and head: "(nh_node h, nh_at h) \<notin> set (hour_keys hs)"
    using Cons.prems(1) by (simp_all add: hour_keys_def)
  show ?case
  proof (cases "same_hour i t h")
    case True
    then have k: "nh_node h = i" "nh_at h = t" by (simp_all add: same_hour_def)
    then have "update_where (same_hour i t) (grow_hour up down) hs = hs" using head by (intro grow_none) simp
    then show ?thesis using True k by (simp add: row_simps)
  next
    case False
    then have "(i, t) \<in> set (hour_keys hs)" using Cons.prems(2) by (auto simp: hour_keys_def same_hour_def)
    then show ?thesis using False Cons.IH [OF rest] by (simp add: row_simps)
  qed
qed (simp add: hour_keys_def)

lemma grow_keys: "hour_keys (update_where (same_hour i t) (grow_hour up down) hs) = hour_keys hs"
  by (simp add: hour_keys_def row_simps)

lemma grow_all:
  assumes "distinct (hour_keys hs)" and "(i, t) \<in> set (hour_keys hs)"
  shows "let hs' = fold (\<lambda>(_, up, down). update_where (same_hour i t) (grow_hour up down)) params hs in
    hour_keys hs' = hour_keys hs \<and> hour_sum nh_up j hs' = hour_sum nh_up j hs + (if j = i then traffic_up params else 0) \<and>
    hour_sum nh_down j hs' = hour_sum nh_down j hs + (if j = i then traffic_down params else 0)"
  using assms
proof (induction params arbitrary: hs)
  case (Cons p params)
  obtain tag up down where p: "p = (tag, up, down)" by (cases p)
  let ?hs = "update_where (same_hour i t) (grow_hour up down) hs"
  have "distinct (hour_keys ?hs)" "(i, t) \<in> set (hour_keys ?hs)" using Cons.prems by (simp_all add: grow_keys)
  from Cons.IH [OF this] show ?case using grow_one [OF Cons.prems]
    by (simp add: p Let_def grow_keys traffic_up_def traffic_down_def)
qed (simp add: traffic_up_def traffic_down_def)

lemma has_hour: "list_ex (same_hour i t) hs \<longleftrightarrow> (i, t) \<in> set (hour_keys hs)"
  by (auto simp: list_ex_iff hour_keys_def same_hour_def)

lemma add_hour_facts:
  assumes "distinct (hour_keys hs)"
  shows "distinct (hour_keys (add_hour i t params hs))"
    and "hour_sum nh_up j (add_hour i t params hs) = hour_sum nh_up j hs + (if j = i then traffic_up params else 0)"
    and "hour_sum nh_down j (add_hour i t params hs) = hour_sum nh_down j hs + (if j = i then traffic_down params else 0)"
proof -
  let ?hs = "if list_ex (same_hour i t) hs then hs else hs @ [\<lparr>nh_node = i, nh_at = t, nh_up = 0, nh_down = 0\<rparr>]"
  have d: "distinct (hour_keys ?hs)" "(i, t) \<in> set (hour_keys ?hs)"
    using assms by (auto simp: has_hour) (auto simp: hour_keys_def)
  have s: "hour_sum nh_up j ?hs = hour_sum nh_up j hs" "hour_sum nh_down j ?hs = hour_sum nh_down j hs" by simp_all
  show "distinct (hour_keys (add_hour i t params hs))"
    and "hour_sum nh_up j (add_hour i t params hs) = hour_sum nh_up j hs + (if j = i then traffic_up params else 0)"
    and "hour_sum nh_down j (add_hour i t params hs) = hour_sum nh_down j hs + (if j = i then traffic_down params else 0)"
    using grow_all [OF d, of params j] d(1) s unfolding add_hour_def Let_def by metis+
qed

section \<open>Balanced tables\<close>

text \<open>The counters of every node are the sums of its hours.\<close>

definition balanced :: "node_store \<Rightarrow> bool" where
  "balanced s \<longleftrightarrow> distinct (map nd_id (ns_nodes s)) \<and> distinct (hour_keys (ns_hours s)) \<and>
     (\<forall>n \<in> set (ns_nodes s). nd_uplink n = hour_sum nh_up (Some (nd_id n)) (ns_hours s) \<and>
        nd_downlink n = hour_sum nh_down (Some (nd_id n)) (ns_hours s))"

lemma balanced_put:
  assumes "balanced s" "ns_nodes s' = store_by nd_id n (ns_nodes s)" "distinct (hour_keys (ns_hours s'))"
    and "nd_uplink n = hour_sum nh_up (Some (nd_id n)) (ns_hours s')" "nd_downlink n = hour_sum nh_down (Some (nd_id n)) (ns_hours s')"
    and "\<And>j f. j \<noteq> nd_id n \<Longrightarrow> f \<in> {nh_up, nh_down} \<Longrightarrow> hour_sum f (Some j) (ns_hours s') = hour_sum f (Some j) (ns_hours s)"
  shows "balanced s'"
proof -
  have "distinct (map nd_id (ns_nodes s'))" using assms(1,2) by (simp add: balanced_def node_table.store_distinct)
  moreover have "nd_uplink q = hour_sum nh_up (Some (nd_id q)) (ns_hours s') \<and>
      nd_downlink q = hour_sum nh_down (Some (nd_id q)) (ns_hours s')" if "q \<in> set (ns_nodes s')" for q
  proof -
    obtain p where p: "p \<in> set (ns_nodes s)" "q = (if nd_id p = nd_id n then n else p)"
      using \<open>q \<in> set (ns_nodes s')\<close> unfolding assms(2) store_by_def by auto
    show ?thesis
    proof (cases "nd_id p = nd_id n")
      case False
      then show ?thesis using p assms(1) assms(6) [of "nd_id p" nh_up] assms(6) [of "nd_id p" nh_down]
        by (simp add: balanced_def)
    qed (use p assms(4,5) in simp)
  qed
  ultimately show ?thesis using assms(3) by (simp add: balanced_def)
qed

lemma balanced_same:
  assumes "balanced s" "n \<in> set (ns_nodes s)" "nd_id n' = nd_id n" "nd_uplink n' = nd_uplink n" "nd_downlink n' = nd_downlink n"
  shows "balanced (put_node n' s)"
proof (rule balanced_put [OF assms(1)])
  show "ns_nodes (put_node n' s) = store_by nd_id n' (ns_nodes s)" by (simp add: put_node_def)
  show "distinct (hour_keys (ns_hours (put_node n' s)))" using assms(1) by (simp add: put_node_def balanced_def)
  show "nd_uplink n' = hour_sum nh_up (Some (nd_id n')) (ns_hours (put_node n' s))"
    "nd_downlink n' = hour_sum nh_down (Some (nd_id n')) (ns_hours (put_node n' s))"
    using assms by (simp_all add: put_node_def balanced_def)
qed (simp add: put_node_def)

text \<open>A modification keeps the key and the counters.\<close>

definition counters :: "node \<Rightarrow> int \<times> int \<times> int" where
  "counters n = (nd_id n, nd_uplink n, nd_downlink n)"

lemma given_keeps: "(\<And>v s. f (g v s) = f s) \<Longrightarrow> f (when_given x g s) = f s"
  by (simp add: when_given_def split: option.split)

lemma parts_keep:
  "counters (modified_status m n) = counters n" "counters (modified_nobetci m n) = counters n"
  "counters (modified_limit m n) = counters n"
proof -
  show "counters (modified_status m n) = counters n"
    by (simp add: modified_status_def counters_def split: option.split node_status.split)
  show "counters (modified_nobetci m n) = counters n"
    by (simp add: modified_nobetci_def counters_def when_given_def Let_def split: option.split)
  show "counters (modified_limit m n) = counters n"
    by (simp add: modified_limit_def counters_def Let_def split: option.split)
qed

lemma modified_keeps: "counters (modified_node m n) = counters n"
proof -
  have p: "counters (x\<lparr>nd_proxy := p\<rparr>) = counters x" for x p by (simp add: counters_def)
  have v: "counters (when_given (nm_coefficient m) (\<lambda>v x. x\<lparr>nd_coefficient := v\<rparr>) x) = counters x"
    "counters (when_given (nm_name m) (\<lambda>v x. x\<lparr>nd_name := v\<rparr>) x) = counters x"
    "counters (when_given (nm_address m) (\<lambda>v x. x\<lparr>nd_address := v\<rparr>) x) = counters x"
    "counters (when_given (nm_port m) (\<lambda>v x. x\<lparr>nd_port := v\<rparr>) x) = counters x"
    "counters (when_given (nm_api_port m) (\<lambda>v x. x\<lparr>nd_api_port := v\<rparr>) x) = counters x" for x
    by (rule given_keeps, simp add: counters_def)+
  show ?thesis unfolding modified_node_def Let_def parts_keep p v ..
qed

lemma limits_keep:
  assumes "update_node_limits now up down n = (n', e)"
  shows "nd_id n' = nd_id n" "nd_uplink n' = nd_uplink n + up" "nd_downlink n' = nd_downlink n + down"
  using assms by (auto simp: update_node_limits_def Let_def split: if_splits)

lemma drop_usage_hours: "ns_hours (drop_usage ids s) = filter (\<lambda>h. nh_node h \<notin> ids) (ns_hours s)"
  "ns_nodes (drop_usage ids s) = ns_nodes s"
  by (simp_all add: drop_usage_def)

lemma distinct_dropped: "distinct (hour_keys hs) \<Longrightarrow> distinct (hour_keys (filter P hs))"
  by (auto simp: hour_keys_def distinct_map inj_on_def)

lemma balanced_record:
  assumes "balanced s"
  shows "balanced (fst (record_node_stats False now params i s))"
proof (cases "params = []")
  case False
  let ?up = "traffic_up params" and ?down = "traffic_down params"
  let ?s1 = "s\<lparr>ns_hours := add_hour i (hour_bucket now) params (ns_hours s)\<rparr>"
  have d: "distinct (hour_keys (ns_hours s))" using assms by (simp add: balanced_def)
  have r: "fst (record_node_stats False now params i s) = fst (apply_limits now i ?up ?down ?s1)"
    using False by (simp add: record_node_stats_def Let_def)
  note h = add_hour_facts [OF d, where i = i and t = "hour_bucket now" and params = params]
  have same: "balanced s'" if "ns_nodes s' = ns_nodes s" "ns_hours s' = ns_hours ?s1"
    "\<And>k. i = Some k \<Longrightarrow> k \<notin> nd_id ` set (ns_nodes s) \<or> (?up = 0 \<and> ?down = 0)" for s'
    using assms that h unfolding balanced_def by auto
  show ?thesis
  proof (cases "?up = 0 \<and> ?down = 0")
    case True
    then show ?thesis unfolding r by (intro same) (simp_all add: apply_limits_def)
  next
    case nonzero: False
    show ?thesis
    proof (cases i)
      case None
      then show ?thesis unfolding r using nonzero by (intro same) (simp_all add: apply_limits_def)
    next
      case (Some k)
      show ?thesis
      proof (cases "fetch_node k (ns_nodes s)")
        case None
        then have "k \<notin> nd_id ` set (ns_nodes s)" by (simp add: node_table.fetch_None)
        then show ?thesis unfolding r using nonzero Some None by (intro same) (simp_all add: apply_limits_def)
      next
        case n: (Some n)
        obtain n' e where n': "update_node_limits now ?up ?down n = (n', e)" by (cases "update_node_limits now ?up ?down n")
        have "nd_id n = k" "n \<in> set (ns_nodes s)" using node_table.fetch_key [OF n] by simp_all
        then have "balanced (put_node n' ?s1)"
          using assms h limits_keep [OF n'] Some
          by (intro balanced_put [OF assms, where n = n']) (auto simp: put_node_def balanced_def)
        moreover have "fst (apply_limits now i ?up ?down ?s1) = put_node n' ?s1"
          using nonzero Some n n' by (auto simp: apply_limits_def)
        ultimately show ?thesis unfolding r by simp
      qed
    qed
  qed
qed (simp add: record_node_stats_def assms)

lemma balanced_all: "balanced s \<Longrightarrow> balanced (fst (record_all False now params s))"
proof (induction params arbitrary: s)
  case (Cons p params)
  obtain i t where p: "p = (i, t)" by (cases p)
  obtain s1 e where s1: "record_node_stats False now t i s = (s1, e)" by (cases "record_node_stats False now t i s")
  obtain s2 es where s2: "record_all False now params s1 = (s2, es)" by (cases "record_all False now params s1")
  have "balanced s1" using balanced_record [OF Cons.prems, of now t i] s1 by simp
  from Cons.IH [OF this] show ?case by (simp add: p s1 s2)
qed simp

lemma balanced_job: "balanced s \<Longrightarrow> balanced (snd (fst (record_node_usages False disabled now cores (cache, s))))"
proof -
  assume b: "balanced s"
  obtain params cache' where a: "ask_cores now cores cache = (params, cache')" by (cases "ask_cores now cores cache")
  have t: "balanced (s\<lparr>ns_totals := t\<rparr>)" for t using b by (simp add: balanced_def)
  have r: "balanced s2" if "record_all False now params (s\<lparr>ns_totals := t\<rparr>) = (s2, es)" for s2 es t
    using balanced_all [OF t, of now params] that by (metis fst_conv)
  show ?thesis using b t r by (auto simp: record_node_usages_def a Let_def split: prod.split)
qed

lemma balanced_create:
  assumes "balanced s" "i \<notin> nd_id ` set (ns_nodes s)" "Some i \<notin> nh_node ` set (ns_hours s)"
  shows "balanced (snd (create_node i made now c s))"
  using assms hour_sum_none [OF assms(3)] by (auto simp: create_node_def balanced_def new_node_def Let_def)

lemma balanced_update: "balanced s \<Longrightarrow> n \<in> set (ns_nodes s) \<Longrightarrow> balanced (snd (update_node m n s))"
  using modified_keeps [of m n] by (auto simp: update_node_def Let_def counters_def intro: balanced_same)

lemma balanced_reset:
  assumes "balanced s" "n \<in> set (ns_nodes s)"
  shows "balanced (snd (reset_node_usage n s))"
proof -
  let ?n = "n\<lparr>nd_uplink := 0, nd_downlink := 0, nd_status := Connected, nd_message := None\<rparr>"
  have "balanced (put_node ?n (drop_usage {Some (nd_id n)} s))"
  proof (rule balanced_put [OF assms(1)])
    show "ns_nodes (put_node ?n (drop_usage {Some (nd_id n)} s)) = store_by nd_id ?n (ns_nodes s)"
      by (simp add: put_node_def drop_usage_hours)
    show "distinct (hour_keys (ns_hours (put_node ?n (drop_usage {Some (nd_id n)} s))))"
      using assms(1) by (simp add: put_node_def drop_usage_hours balanced_def distinct_dropped)
  qed (simp_all add: put_node_def drop_usage_hours hour_sum_other)
  then show ?thesis by (simp add: reset_node_usage_def Let_def)
qed

lemma balanced_dropped:
  assumes "balanced s" "set ns \<subseteq> set (ns_nodes s)" "distinct (map nd_id ns)" "\<forall>n \<in> set ns. Some (nd_id n) \<notin> ids"
    and "ns_nodes s' = ns" "ns_hours s' = filter (\<lambda>h. nh_node h \<notin> ids) (ns_hours s)"
  shows "balanced s'"
  using assms by (auto simp: balanced_def hour_sum_filter distinct_dropped)

lemma balanced_remove: "balanced s \<Longrightarrow> balanced (remove_node n s)"
  by (rule balanced_dropped [where ids = "{Some (nd_id n)}"])
    (auto simp: remove_node_def Let_def drop_usage_def balanced_def distinct_map inj_on_def)

lemma balanced_master:
  assumes "balanced s" "ms_id (master_of now s) \<notin> nd_id ` set (ns_nodes s)"
  shows "balanced (snd (reset_master_usage now s))"
proof (rule balanced_dropped [OF assms(1) order.refl, where ids = "{None, Some (ms_id (master_of now s))}"])
  show "\<forall>n \<in> set (ns_nodes s). Some (nd_id n) \<notin> {None, Some (ms_id (master_of now s))}"
    using assms(2) by (metis (no_types, lifting) imageI insertE option.distinct(1) option.inject singletonD)
qed (use assms(1) in \<open>simp_all add: balanced_def reset_master_usage_def Let_def drop_usage_def\<close>)

text \<open>The tables under requests and jobs, with Redis off.\<close>

inductive node_reach :: "node_store \<Rightarrow> bool" where
  empty: "ns_nodes s = [] \<Longrightarrow> ns_hours s = [] \<Longrightarrow> node_reach s"
| create: "node_reach s \<Longrightarrow> i \<notin> nd_id ` set (ns_nodes s) \<Longrightarrow> Some i \<notin> nh_node ` set (ns_hours s) \<Longrightarrow>
    node_reach (snd (create_node i made now c s))"
| update: "node_reach s \<Longrightarrow> n \<in> set (ns_nodes s) \<Longrightarrow> node_reach (snd (update_node m n s))"
| status: "node_reach s \<Longrightarrow> n \<in> set (ns_nodes s) \<Longrightarrow> node_reach (snd (update_node_status now st message version n s))"
| certificate: "node_reach s \<Longrightarrow> n \<in> set (ns_nodes s) \<Longrightarrow> node_reach (snd (regenerate_node_certificate made n s))"
| remove: "node_reach s \<Longrightarrow> node_reach (remove_node n s)"
| reset: "node_reach s \<Longrightarrow> n \<in> set (ns_nodes s) \<Longrightarrow> node_reach (snd (reset_node_usage n s))"
| master_limit: "node_reach s \<Longrightarrow> node_reach (snd (set_master_data_limit now limit s))"
| master_reset: "node_reach s \<Longrightarrow> ms_id (master_of now s) \<notin> nd_id ` set (ns_nodes s) \<Longrightarrow>
    node_reach (snd (reset_master_usage now s))"
| usage: "node_reach s \<Longrightarrow> node_reach (snd (fst (record_node_usages False disabled now cores (cache, s))))"
| outbounds: "node_reach s \<Longrightarrow> node_reach (snd (record_outbound_traffic sha configs now cores (cache, s)))"

lemma reached_balanced: "node_reach s \<Longrightarrow> balanced s"
proof (induction rule: node_reach.induct)
  case (outbounds s sha configs now cores cache)
  then show ?case by (auto simp: record_outbound_traffic_def balanced_def split: prod.split sum.split)
next
  case (status s n now st message version)
  then show ?case by (auto simp: update_node_status_def Let_def intro: balanced_same)
next
  case (certificate s n made)
  then show ?case by (auto simp: regenerate_node_certificate_def Let_def intro: balanced_same)
next
  case (master_limit s now limit)
  then show ?case by (simp add: set_master_data_limit_def Let_def balanced_def)
qed (simp_all add: balanced_create balanced_update balanced_remove balanced_reset balanced_master balanced_job,
    simp add: balanced_def hour_keys_def)

end
