(* ===== verification/RuntimeFacts.thy ===== *)
theory RuntimeFacts
  imports NodeFacts
begin

text \<open>
  Lemmas on connections: which steps leave the row of a node alone, the registry under every step, and
  what threads do to a node that was limited or disabled while they connected.
\<close>

named_theorems connection_simps

section \<open>Rows under operations on connections\<close>

lemma row_same [connection_simps]:
  "node_row (set_connection k c rt) i = node_row rt i"
  "node_row (unregister j rt) i = node_row rt i"
  "node_row (snd (register j rt)) i = node_row rt i"
  "node_row (rt\<lparr>rt_registry := r\<rparr>) i = node_row rt i"
  "node_row (rt\<lparr>rt_checked := ths\<rparr>) i = node_row rt i"
  "node_row (rt\<lparr>rt_marked := ths\<rparr>) i = node_row rt i"
  "node_row (rt\<lparr>rt_connecting := ids\<rparr>) i = node_row rt i"
  "node_row (rt\<lparr>rt_errors := es\<rparr>) i = node_row rt i"
  "node_row (rt\<lparr>rt_attempts := ats\<rparr>) i = node_row rt i"
  by (simp_all add: node_row_def set_connection_def unregister_def register_def Let_def split: option.split)

lemma row_set_status:
  assumes "node_row rt i = Some n"
  shows "node_row (set_status now st message version n rt) j =
    (if j = i then Some (n\<lparr>nd_status := st, nd_message := message, nd_version := version, nd_changed_at := Some now\<rparr>)
     else node_row rt j)"
proof -
  have "nd_id n = i" using assms node_table.fetch_key unfolding node_row_def by blast
  then show ?thesis using assms
    by (auto simp: node_row_def set_status_def update_node_status_def Let_def put_node_def node_table.fetch_store)
qed

lemma connect_check_row [connection_simps]: "node_row (connect_check force i rt) j = node_row rt j"
proof -
  have "node_row rt2 j = node_row rt j" if "register i rt1 = (k, rt2)" "node_row rt1 j = node_row rt j" for k rt1 rt2
    using row_same(3) [of i rt1 j] that by simp
  then show ?thesis
    by (auto simp: connect_check_def Let_def connection_simps split: option.split prod.split if_splits)
qed

section \<open>Disabled nodes\<close>

definition disabled_row :: "int \<Rightarrow> node \<Rightarrow> runtime \<Rightarrow> bool" where
  "disabled_row i n rt \<longleftrightarrow> node_row rt i = Some n \<and> nd_status n = Node_disabled"

lemma disabled_change: "disabled_row i n rt \<Longrightarrow> disabled_row i n (change_node_status now j st version rt)"
  by (auto simp: disabled_row_def change_node_status_def connection_simps row_set_status split: option.split)

lemma disabled_error: "disabled_row i n rt \<Longrightarrow> disabled_row i n (register_node_runtime_error now j e rt)"
  by (auto simp: disabled_row_def register_node_runtime_error_def Let_def connection_simps row_set_status split: option.split)

lemma disabled_confirm: "disabled_row i n rt \<Longrightarrow> disabled_row i n (confirm_connected now j rt)"
  by (auto simp: disabled_row_def confirm_connected_def row_set_status split: option.split)

lemmas disabled_steps = disabled_change disabled_error disabled_confirm

lemma disabled_mark: "disabled_row i n rt \<Longrightarrow> disabled_row i n (connect_mark now th rt)"
  unfolding connect_mark_def Let_def by (rule disabled_change) (simp add: disabled_row_def node_row_def)

lemma disabled_done:
  assumes "disabled_row i n rt"
  shows "disabled_row i n (connect_done now result th rt)"
proof -
  let ?rt1 = "rt\<lparr>rt_marked := remove1 th (rt_marked rt), rt_connecting := removeAll (th_node th) (rt_connecting rt)\<rparr>"
  have "disabled_row i n (set_connection k c ?rt1)" for k c
    using assms by (simp add: disabled_row_def connection_simps)
  then show ?thesis
    by (auto simp: connect_done_def Let_def split: core_outcome.split intro: disabled_steps)
qed

lemma disabled_restart:
  assumes "disabled_row i n rt"
  shows "disabled_row i n (restart_node now answer j rt)"
proof (cases "node_row rt j")
  case (Some m)
  obtain k rt1 where k: "(case map_of (rt_registry rt) j of Some k \<Rightarrow> (k, rt) | None \<Rightarrow> register j rt) = (k, rt1)"
    by (rule prod.exhaust)
  have "node_row (snd (case map_of (rt_registry rt) j of Some k \<Rightarrow> (k, rt) | None \<Rightarrow> register j rt)) i = node_row rt i"
    by (simp add: row_same split: option.split)
  then have "node_row rt1 i = node_row rt i" by (simp only: k snd_conv)
  then have d: "disabled_row i n rt1" using assms by (simp add: disabled_row_def)
  have c: "disabled_row i n (set_connection k closed r)" if "disabled_row i n r" for r
    using that by (simp add: disabled_row_def connection_simps)
  have e: "disabled_row i n (connect_check False j rt1)" using d by (simp add: disabled_row_def connection_simps)
  show ?thesis
  proof (cases "nd_status m = Node_limited \<or> \<not> cn_connected (rt_objects rt1 ! k)")
    case True
    then show ?thesis using Some assms e by (auto simp: restart_node_def k)
  next
    case False
    then show ?thesis using Some d c
      by (simp add: restart_node_def k disabled_steps split: sum.split option.split)
  qed
qed (simp add: restart_node_def assms)

lemma disabled_health:
  assumes "disabled_row i n rt"
  shows "disabled_row i n (health_check_node now cooldown statuses answer j rt)"
proof -
  let ?c = "ha_connection answer"
  define rt1 where "rt1 = (case map_of (rt_registry rt) j of None \<Rightarrow> rt | Some k \<Rightarrow> set_connection k ?c rt)"
  define rt2 where "rt2 = (case health_error (map_of statuses j) ?c of None \<Rightarrow> rt1
    | Some e \<Rightarrow> register_node_runtime_error now j e rt1)"
  have "disabled_row i n rt1" using assms unfolding rt1_def by (simp add: disabled_row_def connection_simps split: option.split)
  then have d: "disabled_row i n rt2" unfolding rt2_def by (simp add: disabled_error split: option.split)
  have a: "disabled_row i n (r\<lparr>rt_attempts := x\<rparr>)" if "disabled_row i n r" for r x
    using that by (simp add: disabled_row_def connection_simps)
  have k: "disabled_row i n (connect_check f j r)" if "disabled_row i n r" for f r
    using that by (simp add: disabled_row_def connection_simps)
  show ?thesis
    unfolding health_check_node_def Let_def rt1_def [symmetric] rt2_def [symmetric]
    using d by (auto intro!: a k disabled_confirm disabled_restart)
qed

lemma disabled_background: "background rt rt' \<Longrightarrow> disabled_row i n rt \<Longrightarrow> disabled_row i n rt'"
proof (induction rule: background.induct)
  case (start_thread rt force j)
  then show ?case by (simp add: disabled_row_def connection_simps)
qed (auto intro: disabled_mark disabled_done disabled_restart disabled_error disabled_health)

lemma disabled_run: "background_run rt rt' \<Longrightarrow> disabled_row i n rt \<Longrightarrow> disabled_row i n rt'"
  by (induction rule: background_run.induct) (auto intro: disabled_background)

section \<open>The registry\<close>

text \<open>The nodes of the registry: each has a row, and none is at its limit.\<close>

definition served :: "runtime \<Rightarrow> int \<Rightarrow> bool" where
  "served rt i \<longleftrightarrow> (\<exists>n. node_row rt i = Some n \<and> nd_status n \<noteq> Node_limited)"

abbreviation registered :: "runtime \<Rightarrow> int set" where
  "registered rt \<equiv> fst ` set (rt_registry rt)"

definition registry_served :: "runtime \<Rightarrow> bool" where
  "registry_served rt \<longleftrightarrow> (\<forall>i \<in> registered rt. served rt i)"

lemma served_keep:
  assumes "registry_served rt" and "registered rt' \<subseteq> registered rt \<union> {i. served rt' i}"
    and "\<And>i. i \<in> registered rt' \<Longrightarrow> served rt i \<Longrightarrow> served rt' i"
  shows "registry_served rt'"
  using assms unfolding registry_served_def by blast

lemma served_rows: "node_row rt' i = node_row rt i \<Longrightarrow> served rt' i = served rt i"
  by (simp add: served_def)

lemma unregister_registry: "rt_registry (unregister i rt) = AList.delete i (rt_registry rt)"
proof (cases "map_of (rt_registry rt) i")
  case None
  then have "i \<notin> fst ` set (rt_registry rt)" by (simp add: map_of_eq_None_iff)
  then have "AList.delete i (rt_registry rt) = rt_registry rt"
    by (force simp: AList.delete_eq filter_id_conv)
  then show ?thesis by (simp add: unregister_def None)
qed (simp add: unregister_def)

lemma registered_unregister [simp]: "registered (unregister i rt) = registered rt - {i}"
  by (force simp: unregister_registry AList.delete_eq)

lemma registered_simps [simp]:
  "registered (snd (register i rt)) = insert i (registered rt)"
  "registered (set_connection k c rt) = registered rt"
  "registered (set_status now st message version n rt) = registered rt"
  by (simp_all add: register_def Let_def set_connection_def set_status_def)

lemma served_set_status:
  "node_row rt i = Some n \<Longrightarrow> st \<noteq> Node_limited \<Longrightarrow> served rt j \<Longrightarrow> served (set_status now st message version n rt) j"
  by (auto simp: served_def row_set_status)

lemma served_same:
  assumes "registry_served rt" and "\<And>i. node_row rt' i = node_row rt i" and "registered rt' \<subseteq> registered rt"
  shows "registry_served rt'"
  using assms by (intro served_keep [OF assms(1)]) (auto simp: served_def)

lemma served_unregister: "registry_served rt \<Longrightarrow> registry_served (unregister i rt)"
  by (erule served_same) (auto simp: row_same)

lemma served_connection: "registry_served rt \<Longrightarrow> registry_served (set_connection k c rt)"
  by (erule served_same) (auto simp: row_same)

lemma served_status: "registry_served rt \<Longrightarrow> node_row rt i = Some n \<Longrightarrow> st \<noteq> Node_limited \<Longrightarrow>
    registry_served (set_status now st message version n rt)"
  by (erule served_keep) (auto intro: served_set_status)

lemma served_change: "registry_served rt \<Longrightarrow> st \<noteq> Node_limited \<Longrightarrow>
    registry_served (change_node_status now i st version rt)"
  by (auto simp: change_node_status_def served_status served_unregister split: option.split)

lemma served_error: "registry_served rt \<Longrightarrow> registry_served (register_node_runtime_error now i e rt)"
proof -
  assume rt: "registry_served rt"
  have e: "registry_served (r\<lparr>rt_errors := x\<rparr>)" if "registry_served r" for r x
    using that by (rule served_same) (simp_all add: row_same)
  show ?thesis using rt unfolding register_node_runtime_error_def Let_def
    by (auto simp: served_status intro!: e split: option.split)
qed

lemma served_register: "registry_served rt \<Longrightarrow> served rt i \<Longrightarrow> registry_served (snd (register i rt))"
  by (erule served_keep) (auto simp: served_def row_same)

lemma served_connect_check:
  assumes "registry_served rt"
  shows "registry_served (connect_check force i rt)"
proof (cases "(\<not> force \<and> i \<in> set (rt_connecting rt)) \<or> \<not> served rt i")
  case True
  then show ?thesis using assms by (auto simp: connect_check_def served_def split: option.split)
next
  case False
  define rt1 where "rt1 = (if force then (unregister i rt)\<lparr>rt_connecting := removeAll i (rt_connecting rt)\<rparr> else rt)"
  define found where "found = (case map_of (rt_registry rt1) i of
      Some k \<Rightarrow> if \<not> force \<and> cn_connected (rt_objects rt1 ! k) then (k, rt1) else register i rt1
    | None \<Rightarrow> register i rt1)"
  have "registry_served ((unregister i rt)\<lparr>rt_connecting := ids\<rparr>)" for ids
    by (rule served_same [OF served_unregister [OF assms, of i]]) (simp_all add: row_same)
  then have s1: "registry_served rt1" using assms by (simp add: rt1_def)
  have "node_row rt1 i = node_row rt i" by (simp add: rt1_def row_same)
  then have "served rt1 i" using False by (simp add: served_def)
  then have "registry_served (snd (register i rt1))" by (rule served_register [OF s1])
  moreover have "found = register i rt1 \<or> (\<exists>k. found = (k, rt1))"
    by (auto simp: found_def split: option.split)
  ultimately have "registry_served (snd found)" using s1 by auto
  moreover obtain k rt2 where f: "found = (k, rt2)" by (rule prod.exhaust)
  ultimately have "registry_served rt2" by simp
  then have "registry_served (rt2\<lparr>rt_checked := ths\<rparr>)" for ths
    by (rule served_same) (simp_all add: row_same)
  then show ?thesis using assms
    unfolding connect_check_def Let_def rt1_def [symmetric] found_def [symmetric] f prod.case
    by (simp split: option.split)
qed

lemma served_mark: "registry_served rt \<Longrightarrow> registry_served (connect_mark now th rt)"
  unfolding connect_mark_def Let_def
  by (rule served_change) (auto intro!: served_same [of rt] simp: node_row_def)

lemma served_done:
  assumes "registry_served rt"
  shows "registry_served (connect_done now result th rt)"
proof -
  have "registry_served (rt\<lparr>rt_marked := ths, rt_connecting := ids\<rparr>)" for ths ids
    using assms by (rule served_same) (simp_all add: node_row_def)
  then show ?thesis
    by (auto simp: connect_done_def Let_def split: core_outcome.split
        intro!: served_change served_error served_connection)
qed

lemma served_restart:
  assumes "registry_served rt"
  shows "registry_served (restart_node now answer i rt)"
proof (cases "served rt i")
  case False
  then show ?thesis using assms by (auto simp: restart_node_def served_def split: option.split)
next
  case True
  define found where "found = (case map_of (rt_registry rt) i of Some k \<Rightarrow> (k, rt) | None \<Rightarrow> register i rt)"
  obtain k rt1 where f: "found = (k, rt1)" by (rule prod.exhaust)
  have "registry_served (snd found)"
    using assms served_register [OF assms True] by (simp add: found_def split: option.split)
  then have "registry_served rt1" by (simp add: f)
  then show ?thesis using assms unfolding restart_node_def found_def [symmetric] f Let_def prod.case
    by (auto intro!: served_connect_check served_change served_connection served_error
        split: option.split sum.split)
qed

lemma served_confirm: "registry_served rt \<Longrightarrow> registry_served (confirm_connected now i rt)"
  by (auto simp: confirm_connected_def served_status split: option.split)

lemma served_health:
  assumes "registry_served rt"
  shows "registry_served (health_check_node now cooldown statuses answer i rt)"
proof -
  let ?c = "ha_connection answer"
  define rt1 where "rt1 = (case map_of (rt_registry rt) i of None \<Rightarrow> rt | Some k \<Rightarrow> set_connection k ?c rt)"
  define rt2 where "rt2 = (case health_error (map_of statuses i) ?c of None \<Rightarrow> rt1
    | Some e \<Rightarrow> register_node_runtime_error now i e rt1)"
  have "registry_served rt1" using assms by (simp add: rt1_def served_connection split: option.split)
  then have s: "registry_served rt2" by (simp add: rt2_def served_error split: option.split)
  have a: "registry_served (r\<lparr>rt_attempts := x\<rparr>)" if "registry_served r" for r x
    using that by (rule served_same) (simp_all add: row_same)
  show ?thesis using s
    unfolding health_check_node_def Let_def rt1_def [symmetric] rt2_def [symmetric]
    by (auto intro!: a served_connect_check served_confirm served_restart)
qed

lemma served_background: "background rt rt' \<Longrightarrow> registry_served rt \<Longrightarrow> registry_served rt'"
  by (induction rule: background.induct)
    (auto intro: served_connect_check served_mark served_done served_restart served_error served_health)

text \<open>Requests and the recording of traffic, beside what goes on without them.\<close>

inductive runtime_step :: "runtime \<Rightarrow> runtime \<Rightarrow> bool" where
  without: "background rt rt' \<Longrightarrow> runtime_step rt rt'"
| adding: "runtime_step rt (snd (add_node is_ip i made now c rt))"
| modifying: "runtime_step rt (snd (modify_node is_ip i m rt))"
| resetting: "runtime_step rt (snd (reset_usage_of_node i rt))"
| reconnecting: "runtime_step rt (snd (reconnect_node i rt))"
| deleting: "runtime_step rt (snd (delete_node i rt))"
| recording: "runtime_step rt (record_traffic redis now params i rt)"

inductive runtime_reach :: "runtime \<Rightarrow> bool" where
  fresh: "rt_registry rt = [] \<Longrightarrow> rt_checked rt = [] \<Longrightarrow> rt_marked rt = [] \<Longrightarrow> runtime_reach rt"
| started: "runtime_reach rt \<Longrightarrow> runtime_reach (start_nodes now rt)"
| stepped: "runtime_reach rt \<Longrightarrow> runtime_step rt rt' \<Longrightarrow> runtime_reach rt'"

text \<open>A change of the store that leaves the rows of all nodes but one as they are.\<close>

lemma served_store:
  assumes "registry_served rt" and "\<And>j. j \<noteq> i \<Longrightarrow> fetch_node j (ns_nodes (rt_store rt)) \<noteq> None \<Longrightarrow>
      fetch_node j (ns_nodes s) = fetch_node j (ns_nodes (rt_store rt))"
  shows "registry_served (unregister i (rt\<lparr>rt_store := s\<rparr>))"
  using assms(1)
proof (rule served_keep)
  show "served (unregister i (rt\<lparr>rt_store := s\<rparr>)) j"
    if "j \<in> registered (unregister i (rt\<lparr>rt_store := s\<rparr>))" "served rt j" for j
    using assms(2) [of j] that by (auto simp: served_def row_same) (auto simp: node_row_def)
qed auto

lemma served_store_all:
  assumes "registry_served rt" and "\<And>j n. fetch_node j (ns_nodes (rt_store rt)) = Some n \<Longrightarrow> nd_status n \<noteq> Node_limited \<Longrightarrow>
      \<exists>n'. fetch_node j (ns_nodes s) = Some n' \<and> nd_status n' \<noteq> Node_limited"
  shows "registry_served (rt\<lparr>rt_store := s\<rparr>)"
  using assms(1)
proof (rule served_keep)
  show "served (rt\<lparr>rt_store := s\<rparr>) j" if "served rt j" for j
    using assms(2) [of j] that by (auto simp: served_def node_row_def)
qed simp

lemma limits_applied:
  assumes "apply_limits now i up down s = (s', e)"
  shows "(ns_nodes s' = ns_nodes s \<and> e = None) \<or> (\<exists>k n n'. fetch_node k (ns_nodes s) = Some n \<and>
    update_node_limits now up down n = (n', e) \<and> ns_nodes s' = store_by nd_id n' (ns_nodes s))"
proof (cases "i = None \<or> (up = 0 \<and> down = 0) \<or> fetch_node (the i) (ns_nodes s) = None")
  case True
  then show ?thesis using assms by (auto simp: apply_limits_def split: option.splits if_splits)
next
  case False
  then obtain k n where n: "i = Some k" "fetch_node k (ns_nodes s) = Some n" by auto
  obtain n' e' where u: "update_node_limits now up down n = (n', e')" by (rule prod.exhaust)
  have "s' = put_node n' s" "e = e'" using assms False n u by (auto simp: apply_limits_def split: if_splits)
  then show ?thesis using n u unfolding put_node_def by auto
qed

lemma traffic_recorded:
  assumes "record_node_stats redis now params i s = (s', e)"
  shows "(ns_nodes s' = ns_nodes s \<and> e = None) \<or> (\<exists>k n n'. fetch_node k (ns_nodes s) = Some n \<and>
    update_node_limits now (traffic_up params) (traffic_down params) n = (n', e) \<and>
    ns_nodes s' = store_by nd_id n' (ns_nodes s))"
proof (cases "params = []")
  case False
  then show ?thesis using assms limits_applied
    by (cases redis) (fastforce simp: record_node_stats_def Let_def)+
qed (use assms in \<open>simp add: record_node_stats_def\<close>)

lemma served_recording:
  assumes "registry_served rt"
  shows "registry_served (record_traffic redis now params i rt)"
proof -
  obtain s e where se: "record_node_stats redis now params i (rt_store rt) = (s, e)" by (rule prod.exhaust)
  show ?thesis
  proof (cases "\<exists>k n n'. fetch_node k (ns_nodes (rt_store rt)) = Some n \<and>
      update_node_limits now (traffic_up params) (traffic_down params) n = (n', e) \<and>
      ns_nodes s = store_by nd_id n' (ns_nodes (rt_store rt))")
    case False
    then have "ns_nodes s = ns_nodes (rt_store rt) \<and> e = None" using traffic_recorded [OF se] by blast
    then show ?thesis using assms
      by (auto simp: record_traffic_def se after_limits_def intro!: served_store_all)
  next
    case True
    then obtain k n n' where n: "fetch_node k (ns_nodes (rt_store rt)) = Some n"
      and u: "update_node_limits now (traffic_up params) (traffic_down params) n = (n', e)"
      and s: "ns_nodes s = store_by nd_id n' (ns_nodes (rt_store rt))" by blast
    have k: "nd_id n = k" "nd_id n' = k"
      using node_table.fetch_key [OF n] u by (auto simp: update_node_limits_def Let_def split: if_splits)
    have rows: "fetch_node j (ns_nodes s) = (if j = k then Some n' else fetch_node j (ns_nodes (rt_store rt)))" for j
      using n k by (simp add: s node_table.fetch_store)
    have "e = Some (Limit_reached k) \<or> ((\<exists>n. e = None \<or> e = Some (Limit_cleared n)) \<and>
        (nd_status n \<noteq> Node_limited \<longrightarrow> nd_status n' \<noteq> Node_limited))"
      using u k(1) by (auto simp: update_node_limits_def Let_def split: if_splits)
    then show ?thesis
    proof
      assume "e = Some (Limit_reached k)"
      moreover have "registry_served (unregister k (rt\<lparr>rt_store := s\<rparr>))"
        using assms rows by (intro served_store) simp_all
      ultimately show ?thesis by (simp add: record_traffic_def se after_limits_def)
    next
      assume e: "(\<exists>n. e = None \<or> e = Some (Limit_cleared n)) \<and> (nd_status n \<noteq> Node_limited \<longrightarrow> nd_status n' \<noteq> Node_limited)"
      have "registry_served (rt\<lparr>rt_store := s\<rparr>)"
        using assms rows e n by (intro served_store_all) auto
      then show ?thesis using e by (auto simp: record_traffic_def se after_limits_def intro: served_connect_check)
    qed
  qed
qed

lemma served_requests:
  assumes "registry_served rt"
  shows "registry_served (snd (add_node is_ip i made now c rt))" "registry_served (snd (modify_node is_ip i m rt))"
    "registry_served (snd (reset_usage_of_node i rt))" "registry_served (snd (reconnect_node i rt))"
    "registry_served (snd (delete_node i rt))"
proof -
  have "registry_served (rt\<lparr>rt_store := s\<rparr>)" if "create_node i made now c (rt_store rt) = (Inr n, s)" for n s
    using that assms by (auto simp: create_node_def Let_def fetch_append split: if_splits intro!: served_store_all)
  then show "registry_served (snd (add_node is_ip i made now c rt))"
    using assms by (auto simp: add_node_def served_connect_check split: sum.split prod.split)
  have "registry_served (unregister i (rt\<lparr>rt_store := s\<rparr>))"
    if n: "node_row rt i = Some n" and u: "update_node m n (rt_store rt) = (Inr n', s)" for n n' s
  proof -
    have "nd_id n = i" using n node_table.fetch_key unfolding node_row_def by blast
    then have "nd_id (modified_node m n) = i" using modified_keeps [of m n] by (simp add: counters_def)
    then show ?thesis using assms u
      by (intro served_store) (auto simp: update_node_def Let_def put_node_def node_table.fetch_store split: if_splits)
  qed
  then show "registry_served (snd (modify_node is_ip i m rt))"
    using assms by (auto simp: modify_node_def Let_def served_connect_check split: sum.split option.split prod.split)
  have "registry_served (rt\<lparr>rt_store := snd (reset_node_usage n (rt_store rt))\<rparr>)" if n: "node_row rt i = Some n" for n
    using assms n
    by (intro served_store_all) (auto simp: reset_node_usage_def Let_def put_node_def drop_usage_def node_table.fetch_store
      node_row_def)
  then show "registry_served (snd (reset_usage_of_node i rt))"
    using assms by (auto simp: reset_usage_of_node_def served_connect_check split: option.split prod.split)
  show "registry_served (snd (reconnect_node i rt))"
    using assms by (auto simp: reconnect_node_def served_connect_check split: option.split)
  have "registry_served (unregister i (rt\<lparr>rt_store := remove_node n (rt_store rt)\<rparr>))" if n: "node_row rt i = Some n" for n
  proof -
    have "nd_id n = i" using n node_table.fetch_key unfolding node_row_def by blast
    moreover have "fetch_node j (filter (\<lambda>x. nd_id x \<noteq> i) ns) = fetch_node j ns" if "j \<noteq> i" for j ns
      using that by (induction ns) (simp_all add: fetch_by_def)
    ultimately show ?thesis using assms
      by (intro served_store) (auto simp: remove_node_def Let_def drop_usage_def)
  qed
  then show "registry_served (snd (delete_node i rt))"
    using assms by (auto simp: delete_node_def split: option.split)
qed

lemma served_step: "runtime_step rt rt' \<Longrightarrow> registry_served rt \<Longrightarrow> registry_served rt'"
  by (induction rule: runtime_step.induct) (auto intro: served_background served_requests served_recording)

lemma served_start: "registry_served rt \<Longrightarrow> registry_served (start_nodes now rt)"
proof -
  assume rt: "registry_served rt"
  have status: "registry_served (set_status now Connecting None None n r)" if "registry_served r" for n r
    using that
  proof (rule served_keep)
    show "served (set_status now Connecting None None n r) j" if "served r j" for j
      using that by (auto simp: served_def node_row_def set_status_def update_node_status_def Let_def put_node_def
          node_table.fetch_store)
  qed simp
  have statuses: "registry_served (fold (set_status now Connecting None None) ns r)" if "registry_served r" for ns r
    using that by (induction ns arbitrary: r) (simp_all add: status)
  have checks: "registry_served (fold (\<lambda>n. connect_check False (nd_id n)) ns r)" if "registry_served r" for ns r
    using that by (induction ns arbitrary: r) (simp_all add: served_connect_check)
  show ?thesis unfolding start_nodes_def Let_def by (intro checks statuses rt)
qed

lemma reached_served: "runtime_reach rt \<Longrightarrow> registry_served rt"
proof (induction rule: runtime_reach.induct)
  case (stepped rt rt')
  show ?case by (rule served_step [OF stepped.hyps(2) stepped.IH])
qed (simp_all add: served_start, simp add: registry_served_def)


end
