(* ===== verification/OutboundFacts.thy ===== *)
theory OutboundFacts
  imports NodeJobs UsageReports
begin

text \<open>Lemmas on the rows of outbounds: what a run of the job writes carries exactly the traffic that was collected.\<close>

interpretation outbound_table: row_table ob_key "fetch_by ob_key" "store_by ob_key"
  by unfold_locales (auto simp: table_laws)

section \<open>Sums of traffic\<close>

text \<open>A direction: the counter of a row with the part of a statistic that is added to it.\<close>

definition direction :: "(outbound_row \<Rightarrow> int) \<Rightarrow> (int \<times> int \<Rightarrow> int) \<Rightarrow> bool" where
  "direction w part \<longleftrightarrow> (w, part) = (ob_up, fst) \<or> (w, part) = (ob_down, snd)"

definition part_sum :: "(int \<times> int \<Rightarrow> int) \<Rightarrow> traffic \<Rightarrow> int" where
  "part_sum part t = sum_list (map (part \<circ> snd) t)"

lemma part_sums: "part_sum fst t = traffic_up t" "part_sum snd t = traffic_down t"
  by (simp_all add: part_sum_def traffic_up_def traffic_down_def comp_def case_prod_unfold)

lemma part_sum_simps [simp]: "part_sum part [] = 0" "part_sum part (x # t) = part (snd x) + part_sum part t"
  "part_sum part (t @ t') = part_sum part t + part_sum part t'"
  by (simp_all add: part_sum_def)

lemma part_sum_update:
  assumes "distinct (map fst d)"
  shows "part_sum part (AList.update k v d) = part_sum part d + part v - (case map_of d k of Some x \<Rightarrow> part x | None \<Rightarrow> 0)"
  using assms by (induction d) (auto simp: map_of_eq_None_iff split: option.split)

lemma merge_facts:
  "distinct (map fst (merge_traffic ts))"
  "direction w part \<Longrightarrow> part_sum part (merge_traffic ts) = part_sum part (filter (\<lambda>(tag, _). tag \<noteq> []) (concat ts))"
proof -
  let ?add = "\<lambda>(tag, up, down) d. case (case map_of d tag of Some t \<Rightarrow> t | None \<Rightarrow> (0, 0)) of (u0, d0) \<Rightarrow>
     AList.update tag (u0 + up, d0 + down) d"
  have "distinct (map fst (fold ?add xs d)) \<and> (direction w part \<longrightarrow> part_sum part (fold ?add xs d) = part_sum part d + part_sum part xs)"
    if "distinct (map fst d)" for xs d
    using that
  proof (induction xs arbitrary: d)
    case (Cons x xs)
    obtain tag up down where x: "x = (tag, up, down)" by (cases x)
    obtain u0 d0 where t: "(case map_of d tag of Some t \<Rightarrow> t | None \<Rightarrow> (0, 0)) = (u0, d0)" by (rule prod.exhaust)
    have "distinct (map fst (AList.update tag (u0 + up, d0 + down) d))" using Cons.prems by (rule distinct_update)
    moreover have "part_sum part (AList.update tag (u0 + up, d0 + down) d) = part_sum part d + part (up, down)" if "direction w part"
      using part_sum_update [OF Cons.prems] t that by (auto simp: direction_def split: option.splits)
    ultimately show ?case using Cons.IH by (auto simp: x t)
  qed simp
  from this [of "[]"] show "distinct (map fst (merge_traffic ts))"
    "direction w part \<Longrightarrow> part_sum part (merge_traffic ts) = part_sum part (filter (\<lambda>(tag, _). tag \<noteq> []) (concat ts))"
    by (simp_all add: merge_traffic_def)
qed

section \<open>Rows\<close>

text \<open>What a changed row adds to the row it replaces.\<close>

definition gain :: "(outbound_row \<Rightarrow> int) \<Rightarrow> outbound_row list \<Rightarrow> outbound_row \<Rightarrow> int" where
  "gain w rows r = w r - w (the (fetch_by ob_key (ob_key r) rows))"

lemma stored_sum:
  assumes "distinct (map ob_key rows)" "ob_key r \<in> ob_key ` set rows"
  shows "sum_list (map w (store_by ob_key r rows)) = sum_list (map w rows) + gain w rows r"
  using assms
proof (induction rows)
  case (Cons q rows)
  show ?case
  proof (cases "ob_key q = ob_key r")
    case True
    then have "ob_key r \<notin> ob_key ` set rows" using Cons.prems(1) by simp
    then have "store_by ob_key r rows = rows" unfolding store_by_def by (intro map_idI) (metis imageI)
    then show ?thesis using True by (simp add: gain_def store_by_def fetch_by_def)
  next
    case False
    then show ?thesis using Cons by (simp add: gain_def store_by_def fetch_by_def)
  qed
qed simp

lemma written_sum:
  assumes "fold_res write_outbound xs rows = Inr rows'" "distinct (map ob_key rows)" "distinct (map ob_key xs)"
    and "ob_key ` set xs \<subseteq> ob_key ` set rows"
  shows "map ob_key rows' = map ob_key rows \<and> sum_list (map w rows') = sum_list (map w rows) + sum_list (map (gain w rows) xs)"
  using assms
proof (induction xs arbitrary: rows)
  case (Cons x xs)
  let ?rows = "store_by ob_key x rows"
  have "write_outbound x rows = Inr ?rows" using Cons.prems(1) by (cases "write_outbound x rows") (auto simp: write_outbound_def split: if_splits)
  then have rest: "fold_res write_outbound xs ?rows = Inr rows'" using Cons.prems(1) by simp
  have keys: "map ob_key ?rows = map ob_key rows" by (rule outbound_table.store_keys)
  then have "ob_key ` set ?rows = ob_key ` set rows" by (metis list.set_map)
  moreover have "sum_list (map (gain w ?rows) xs) = sum_list (map (gain w rows) xs)"
    using Cons.prems(3) by (intro arg_cong [where f = sum_list] map_cong refl) (simp add: gain_def outbound_table.fetch_store image_iff, metis)
  ultimately show ?case using Cons.IH [OF rest] Cons.prems stored_sum [OF Cons.prems(2), of x w] by (simp add: keys)
qed simp

lemma inserted_sum:
  assumes "fold_res insert_outbound xs rows = Inr rows'" "distinct (map ob_key rows)" "direction w part"
  shows "distinct (map ob_key rows') \<and> sum_list (map w rows') = sum_list (map w rows) + sum_list (map w xs)"
  using assms
proof (induction xs arbitrary: rows)
  case (Cons x xs)
  let ?rows = "rows @ [x\<lparr>ob_key := next_key ob_key rows\<rparr>]"
  have "insert_outbound x rows = Inr ?rows" using Cons.prems(1) by (cases "insert_outbound x rows") (auto simp: insert_outbound_def split: if_splits)
  then have rest: "fold_res insert_outbound xs ?rows = Inr rows'" using Cons.prems(1) by simp
  have "distinct (map ob_key ?rows)" using Cons.prems(2) next_key_fresh [of ob_key rows] by simp
  moreover have "w (x\<lparr>ob_key := k\<rparr>) = w x" for k using Cons.prems(3) by (auto simp: direction_def)
  ultimately show ?case using Cons.IH [OF rest] Cons.prems(3) by simp
qed simp

section \<open>Changes\<close>

lemma changed_facts:
  assumes "changed_outbound sha config up down r = Inr r'"
  shows "ob_key r' = ob_key r" "ob_tag r' = ob_tag r" "direction w part \<Longrightarrow> w r' = w r + part (up, down)"
  using assms by (auto simp: changed_outbound_def then_res_def direction_def Let_def split: option.splits sum.splits)

lemma added_facts:
  assumes "added_outbound sha config tag up down = Inr r'"
  shows "direction w part \<Longrightarrow> w r' = part (up, down)"
  using assms by (auto simp: added_outbound_def then_res_def direction_def Let_def split: option.splits sum.splits)

text \<open>The rows that are changed are rows of the table with different tags.\<close>

definition changes_of :: "outbound_row list \<Rightarrow> traffic \<Rightarrow> outbound_row list \<Rightarrow> bool" where
  "changes_of rows stats cs \<longleftrightarrow> distinct (map ob_tag cs) \<and> ob_tag ` set cs \<subseteq> fst ` set stats \<and>
     (\<forall>c \<in> set cs. \<exists>r \<in> set rows. ob_key r = ob_key c \<and> ob_tag r = ob_tag c)"

lemma changes_of_keys:
  assumes "changes_of rows stats cs" "distinct (map ob_key rows)"
  shows "distinct (map ob_key cs)" "ob_key ` set cs \<subseteq> ob_key ` set rows"
proof -
  have "inj_on ob_key (set cs)"
  proof (rule inj_onI)
    fix c c' assume c: "c \<in> set cs" "c' \<in> set cs" "ob_key c = ob_key c'"
    have found: "\<exists>r \<in> set rows. ob_key r = ob_key b \<and> ob_tag r = ob_tag b" if "b \<in> set cs" for b
      using assms(1) that unfolding changes_of_def by blast
    obtain r where r: "r \<in> set rows" "ob_key r = ob_key c" "ob_tag r = ob_tag c" using found [OF c(1)] by blast
    obtain r' where r': "r' \<in> set rows" "ob_key r' = ob_key c'" "ob_tag r' = ob_tag c'" using found [OF c(2)] by blast
    have "inj_on ob_key (set rows)" using assms(2) by (simp add: distinct_map)
    then have "r = r'" by (rule inj_onD) (simp_all add: r r' c(3))
    moreover have "inj_on ob_tag (set cs)" using assms(1) by (simp add: changes_of_def distinct_map)
    ultimately show "c = c'" using c(1,2) r(3) r'(3) by (auto dest: inj_onD)
  qed
  then show "distinct (map ob_key cs)" using assms(1) by (simp add: changes_of_def distinct_map)
  show "ob_key ` set cs \<subseteq> ob_key ` set rows"
  proof (rule image_subsetI)
    fix c assume "c \<in> set cs"
    then obtain r where "r \<in> set rows" "ob_key r = ob_key c" using assms(1) unfolding changes_of_def by blast
    then show "ob_key c \<in> ob_key ` set rows" by (metis imageI)
  qed
qed

lemma changes_of_simps:
  "changes_of rows stats []"
  "changes_of rows stats cs \<Longrightarrow> changes_of rows (x # stats) cs"
  "changes_of rows stats cs \<Longrightarrow> fst x \<notin> fst ` set stats \<Longrightarrow> r \<in> set rows \<Longrightarrow> ob_key c = ob_key r \<Longrightarrow> ob_tag c = ob_tag r \<Longrightarrow>
     ob_tag r = fst x \<Longrightarrow> changes_of rows (x # stats) (c # cs)"
  by (auto simp: changes_of_def)

abbreviation tag_change where
  "tag_change sha configs rows \<equiv> \<lambda>(tag, up, down) (changed, added).
     if up = 0 \<and> down = 0 then Inr (changed, added)
     else case List.find (\<lambda>r. ob_tag r = tag) rows of
       Some r \<Rightarrow> then_res (changed_outbound sha (map_of configs tag) up down r) (\<lambda>r'. Inr (changed @ [r'], added))
     | None \<Rightarrow> then_res (added_outbound sha (map_of configs tag) tag up down) (\<lambda>r'. Inr (changed, added @ [r']))"

lemma traffic_changes_facts:
  assumes "fold_res (tag_change sha configs rows) stats (c0, a0) = Inr (c, a)"
    and "distinct (map fst stats)" "distinct (map ob_key rows)" "direction w part"
  shows "\<exists>cs as. c = c0 @ cs \<and> a = a0 @ as \<and> changes_of rows stats cs \<and>
    sum_list (map (gain w rows) cs) + sum_list (map w as) = part_sum part stats"
  using assms(1,2)
proof (induction stats arbitrary: c0 a0)
  case Nil
  then show ?case by (simp add: changes_of_simps)
next
  case (Cons x stats)
  obtain tag up down where x: "x = (tag, up, down)" by (cases x)
  have d: "distinct (map fst stats)" "tag \<notin> fst ` set stats" using Cons.prems(2) by (simp_all add: x)
  show ?case
  proof (cases "up = 0 \<and> down = 0")
    case True
    then have "part (up, down) = 0" using assms(4) by (auto simp: direction_def)
    then show ?thesis using Cons.IH [of c0 a0] Cons.prems(1) d(1) True by (auto simp: x intro!: changes_of_simps(2))
  next
    case nonzero: False
    show ?thesis
    proof (cases "List.find (\<lambda>r. ob_tag r = tag) rows")
      case None
      then obtain r' where r': "added_outbound sha (map_of configs tag) tag up down = Inr r'"
        and rest: "fold_res (tag_change sha configs rows) stats (c0, a0 @ [r']) = Inr (c, a)"
        using Cons.prems(1) nonzero by (auto simp: x then_res_def split: sum.splits)
      obtain cs as where f: "c = c0 @ cs" "a = (a0 @ [r']) @ as" "changes_of rows stats cs"
        "sum_list (map (gain w rows) cs) + sum_list (map w as) = part_sum part stats"
        using Cons.IH [OF rest d(1)] by blast
      show ?thesis using f added_facts [OF r' assms(4)]
        by (intro exI [of _ cs] exI [of _ "r' # as"]) (simp add: x changes_of_simps(2))
    next
      case (Some r)
      then obtain r' where r': "changed_outbound sha (map_of configs tag) up down r = Inr r'"
        and rest: "fold_res (tag_change sha configs rows) stats (c0 @ [r'], a0) = Inr (c, a)"
        using Cons.prems(1) nonzero by (auto simp: x then_res_def split: sum.splits)
      obtain cs as where f: "c = (c0 @ [r']) @ cs" "a = a0 @ as" "changes_of rows stats cs"
        "sum_list (map (gain w rows) cs) + sum_list (map w as) = part_sum part stats"
        using Cons.IH [OF rest d(1)] by blast
      have r: "r \<in> set rows" "ob_tag r = tag" using Some by (auto simp: find_Some_iff)
      note c = changed_facts [OF r']
      have "gain w rows r' = part (up, down)"
        using outbound_table.fetch_member [OF assms(3) r(1)] c(1) c(3) [OF assms(4)] by (simp add: gain_def)
      moreover have "changes_of rows (x # stats) (r' # cs)"
        using changes_of_simps(3) [OF f(3), of x r r'] d(2) r c(1,2) by (simp add: x)
      ultimately show ?thesis using f by (intro exI [of _ "r' # cs"] exI [of _ as]) (simp add: x)
    qed
  qed
qed

lemma saved_sum:
  assumes "save_outbounds sha configs stats rows = Inr rows'" "distinct (map fst stats)" "distinct (map ob_key rows)"
    and "direction w part"
  shows "distinct (map ob_key rows') \<and> sum_list (map w rows') = sum_list (map w rows) + part_sum part stats"
proof -
  obtain changed added rows1 where r: "traffic_changes sha configs stats rows = Inr (changed, added)"
    "fold_res write_outbound (sort_key ob_key changed) rows = Inr rows1" "fold_res insert_outbound added rows1 = Inr rows'"
    using assms(1) by (auto simp: save_outbounds_def then_res_def split: sum.splits)
  then have c: "changes_of rows stats changed" "sum_list (map (gain w rows) changed) + sum_list (map w added) = part_sum part stats"
    using traffic_changes_facts [OF _ assms(2-4), of sha configs "[]" "[]" changed added] by (auto simp: traffic_changes_def)
  note k = changes_of_keys [OF c(1) assms(3)]
  have "distinct (map ob_key (sort_key ob_key changed))" "ob_key ` set (sort_key ob_key changed) \<subseteq> ob_key ` set rows"
    using k by (simp_all add: distinct_map)
  note w = written_sum [OF r(2) assms(3) this, of w]
  have "distinct (map ob_key rows1)" using w assms(3) by simp
  from inserted_sum [OF r(3) this assms(4)] show ?thesis using w c(2) by simp
qed

end
