(* ===== verification/NodeProperties.thy ===== *)
theory NodeProperties
  imports NodeFacts RuntimeFacts OutboundFacts Samples
begin

text \<open>
  Properties of nodes: their counters and limits, what happens to traffic when an API fails or an outbound
  gets a new tag, their connections, and the reports of usage.
\<close>

section \<open>Samples\<close>

definition no_proxy :: node_proxy where
  "no_proxy = \<lparr>px_enabled = False, px_type = None, px_host = None, px_port = None, px_username = None, px_password = None\<rparr>"

definition sample_node_request :: node_create where
  "sample_node_request = \<lparr>nc_name = ''n'', nc_address = ''a'', nc_port = 1, nc_api_port = 2, nc_coefficient = ''1'',
     nc_data_limit = Some 5, nc_geo_mode = Geo_default, nc_use_nobetci = False, nc_nobetci_port = None, nc_proxy = no_proxy,
     nc_add_as_new_host = False, nc_certificate = None, nc_certificate_key = None\<rparr>"

definition sample_node :: "int \<Rightarrow> node" where
  "sample_node i = new_node i (''c'', ''k'') 0 sample_node_request"

definition empty_store :: node_store where
  "empty_store = \<lparr>ns_db = sample_db, ns_nodes = [], ns_master = None, ns_hours = [], ns_totals = (0, 0), ns_outbounds = [],
     ns_pending = []\<rparr>"

definition sample_store :: "int \<Rightarrow> node_store" where
  "sample_store i = snd (create_node i (''c'', ''k'') 0 sample_node_request empty_store)"

definition sample_answer :: "int \<Rightarrow> core_answer" where
  "sample_answer i = \<lparr>ca_node = Some i, ca_key = ''api'', ca_answer = Some [\<lparr>lk_name = ''t'', lk_link = ''uplink'', lk_value = 3\<rparr>]\<rparr>"

definition used_store :: "int \<Rightarrow> node_store" where
  "used_store i = snd (fst (record_node_usages False False 0 [sample_answer i] ([], sample_store i)))"

lemma sample_store_eq: "sample_store i = empty_store\<lparr>ns_nodes := [sample_node i]\<rparr>"
  by (simp add: sample_store_def create_node_def sample_node_def name_in_use_def empty_store_def Let_def)

lemma used_store_eq: "used_store i = empty_store\<lparr>ns_nodes := [(sample_node i)\<lparr>nd_uplink := 3\<rparr>], ns_totals := (3, 0),
    ns_hours := [\<lparr>nh_node = Some i, nh_at = 0, nh_up = 3, nh_down = 0\<rparr>]\<rparr>"
  by (simp add: used_store_def sample_answer_def record_node_usages_def get_outbounds_stats_def stats_by_tag_def
      add_stat_def traffic_up_def traffic_down_def record_node_stats_def apply_limits_def update_node_limits_def
      add_hour_def same_hour_def hour_bucket_def sample_store_eq empty_store_def sample_node_def new_node_def fetch_by_def
      put_node_def store_by_def over_node_limit_def node_usage_total_def sample_node_request_def no_proxy_def row_simps Let_def)

lemma sample_reach: "node_reach (used_store i)"
  unfolding used_store_def sample_store_def
  by (intro node_reach.usage node_reach.create node_reach.empty) (simp_all add: empty_store_def)

section \<open>Counters and limits\<close>

text \<open>C10. Whatever requests and jobs do to nodes, the counters of a node are the sums over its hours, as long as
  Redis is off and the usage of the master is not reset while a node has the number of the master's row.\<close>

theorem node_counters_balanced:
  assumes "node_reach s" "n \<in> set (ns_nodes s)"
  shows "nd_uplink n = hour_sum nh_up (Some (nd_id n)) (ns_hours s) \<and>
    nd_downlink n = hour_sum nh_down (Some (nd_id n)) (ns_hours s)"
  using reached_balanced [OF assms(1)] assms(2) by (simp add: balanced_def)

theorem node_counters_balanced_witness:
  "hour_sum nh_up (Some 2) (ns_hours (used_store 2)) = 3 \<and> map nd_uplink (ns_nodes (used_store 2)) = [3]"
  using node_counters_balanced [OF sample_reach, of "(sample_node 2)\<lparr>nd_uplink := 3\<rparr>" 2]
  by (simp add: used_store_eq sample_node_def new_node_def empty_store_def)

text \<open>Resetting the usage of the master deletes the hours and the usage of users of the node that has the
  number of the master's row, the first node usually, and leaves the counters of that node.\<close>

theorem master_reset_takes_node:
  assumes "n \<in> set (ns_nodes s)" "nd_id n = ms_id (master_of now s)"
  shows "ns_nodes (snd (reset_master_usage now s)) = ns_nodes s \<and>
    hour_sum f (Some (nd_id n)) (ns_hours (snd (reset_master_usage now s))) = 0 \<and>
    map (\<lambda>u. filter (\<lambda>x. nu_node_id x = Some (nd_id n)) (node_usages u)) (users (ns_db (snd (reset_master_usage now s)))) =
      map (\<lambda>u. []) (users (ns_db s))"
  using hour_sum_filter [of f "Some (nd_id n)" "{None, Some (nd_id n)}" "ns_hours s"] assms(2)
  by (simp add: reset_master_usage_def Let_def drop_usage_def)

theorem master_reset_takes_node_witness:
  "map nd_uplink (ns_nodes (snd (reset_master_usage 9 (used_store 1)))) = [3] \<and>
   hour_sum nh_up (Some 1) (ns_hours (snd (reset_master_usage 9 (used_store 1)))) = 0 \<and>
   hour_sum nh_up (Some 1) (ns_hours (used_store 1)) = 3"
  using master_reset_takes_node [of "(sample_node 1)\<lparr>nd_uplink := 3\<rparr>" "used_store 1" 9 nh_up]
  by (simp add: used_store_eq sample_node_def new_node_def empty_store_def master_of_def new_master_def)

text \<open>C36. When traffic of a node is recorded its counters grow by it, the node is limited exactly when they reach
  its limit, and the connections hear of it exactly when that is new.\<close>

theorem limits_kept:
  assumes "fetch_node k (ns_nodes s) = Some n" "traffic_up params \<noteq> 0 \<or> traffic_down params \<noteq> 0"
  shows "\<exists>n'. fst (record_node_stats True now params (Some k) s) =
      s\<lparr>ns_pending := ns_pending s @ [\<lparr>nh_node = Some k, nh_at = hour_bucket now, nh_up = traffic_up params,
          nh_down = traffic_down params\<rparr>], ns_nodes := store_by nd_id n' (ns_nodes s)\<rparr> \<and>
    fst (record_node_stats False now params (Some k) s) =
      s\<lparr>ns_hours := add_hour (Some k) (hour_bucket now) params (ns_hours s), ns_nodes := store_by nd_id n' (ns_nodes s)\<rparr> \<and>
    nd_id n' = k \<and> nd_uplink n' = nd_uplink n + traffic_up params \<and> nd_downlink n' = nd_downlink n + traffic_down params \<and>
    (nd_status n' = Node_limited \<longleftrightarrow> over_node_limit (nd_data_limit n) (node_usage_total n')) \<and>
    snd (record_node_stats redis now params (Some k) s) =
      (if nd_status n' = Node_limited \<and> nd_status n \<noteq> Node_limited then Some (Limit_reached k)
       else if nd_status n' \<noteq> Node_limited \<and> nd_status n = Node_limited then Some (Limit_cleared k) else None)"
proof -
  obtain n' e where u: "update_node_limits now (traffic_up params) (traffic_down params) n = (n', e)" by (rule prod.exhaust)
  have k: "nd_id n = k" using node_table.fetch_key [OF assms(1)] by simp
  have p: "params \<noteq> []" using assms(2) by (auto simp: traffic_up_def traffic_down_def)
  have r: "record_node_stats b now params (Some k) s = (put_node n' (if b then
      s\<lparr>ns_pending := ns_pending s @ [\<lparr>nh_node = Some k, nh_at = hour_bucket now, nh_up = traffic_up params,
          nh_down = traffic_down params\<rparr>]\<rparr>
      else s\<lparr>ns_hours := add_hour (Some k) (hour_bucket now) params (ns_hours s)\<rparr>), e)" for b
    using p assms u by (auto simp: record_node_stats_def apply_limits_def Let_def)
  have "(nd_status n' = Node_limited \<longleftrightarrow> over_node_limit (nd_data_limit n) (node_usage_total n')) \<and>
      e = (if nd_status n' = Node_limited \<and> nd_status n \<noteq> Node_limited then Some (Limit_reached k)
       else if nd_status n' \<noteq> Node_limited \<and> nd_status n = Node_limited then Some (Limit_cleared k) else None)"
    using u k by (auto simp: update_node_limits_def Let_def node_usage_total_def split: if_splits)
  then show ?thesis unfolding r using limits_keep [OF u] k by (intro exI [of _ n']) (simp add: put_node_def)
qed

theorem limits_kept_witness:
  "snd (record_node_stats False 0 [(''t'', 4, 1)] (Some 2) (sample_store 2)) = Some (Limit_reached 2)"
  using limits_kept [of 2 "sample_store 2" "sample_node 2" "[(''t'', 4, 1)]" 0 False]
  by (auto simp: sample_store_eq sample_node_def new_node_def sample_node_request_def traffic_up_def traffic_down_def
      over_node_limit_def node_usage_total_def fetch_by_def)

section \<open>Jobs that record traffic\<close>

text \<open>A node whose API fails again and again is recorded with the statistics it gave last, each time again.\<close>

theorem stale_answer_counted_again:
  assumes "map_of cache key = Some (t, p)" "cores = [\<lparr>ca_node = i, ca_key = key, ca_answer = None\<rparr>]"
    and "run = fold (\<lambda>now x. fst (record_node_usages redis disabled now cores x)) nows (cache, s)"
  shows "fst run = cache \<and>
    ns_totals (snd run) = (fst (ns_totals s) + int (length nows) * traffic_up p, snd (ns_totals s) + int (length nows) * traffic_down p)"
  unfolding assms(3)
proof (induction nows arbitrary: s)
  case (Cons now nows)
  have totals: "ns_totals (fst (record_node_stats redis now p i r)) = ns_totals r" for r
    by (auto simp: record_node_stats_def apply_limits_def Let_def put_node_def split: option.split prod.split)
  have "fst (fst (record_node_usages redis disabled now cores (cache, s))) = cache"
    using assms(1) by (simp add: record_node_usages_def assms(2) get_outbounds_stats_def Let_def split: prod.split)
  moreover have "ns_totals (snd (fst (record_node_usages redis disabled now cores (cache, s)))) =
      (fst (ns_totals s) + traffic_up p, snd (ns_totals s) + traffic_down p)"
    using assms(1) totals [of "s\<lparr>ns_totals := x\<rparr>" for x]
    by (auto simp: record_node_usages_def assms(2) get_outbounds_stats_def Let_def prod_eq_iff split: prod.split)
  ultimately obtain s1 where s1: "fst (record_node_usages redis disabled now cores (cache, s)) = (cache, s1)"
    "ns_totals s1 = (fst (ns_totals s) + traffic_up p, snd (ns_totals s) + traffic_down p)" by (metis prod.collapse)
  show ?case using Cons.IH [of s1] s1 by (simp add: algebra_simps)
qed simp

theorem stale_answer_counted_again_witness:
  "ns_totals (snd (fold (\<lambda>now x. fst (record_node_usages False False now
     [\<lparr>ca_node = Some 2, ca_key = ''api'', ca_answer = None\<rparr>] x)) [20 * usecs, 40 * usecs] ([(''api'', 0, [(''t'', 3, 0)])], used_store 2))) = (9, 0)"
  using stale_answer_counted_again [OF _ refl refl, of "[(''api'', 0, [(''t'', 3, 0)])]" "''api''" 0 "[(''t'', 3, 0)]" False False
      "Some 2" "[20 * usecs, 40 * usecs]" "used_store 2"]
  by (simp add: traffic_up_def traffic_down_def used_store_eq empty_store_def)

text \<open>C37. A run of the job for outbounds records nothing, or adds to the rows of outbounds exactly the traffic that
  was collected under a tag, in both directions.\<close>

theorem outbound_traffic_recorded:
  assumes "distinct (map ob_key (ns_outbounds s))" "ask_cores now cores cache = (params, cache')"
    and "s' = snd (record_outbound_traffic sha outbounds now cores (cache, s))"
    and "tagged = filter (\<lambda>(tag, _). tag \<noteq> []) (concat (map snd params))"
  shows "s' = s \<or> distinct (map ob_key (ns_outbounds s')) \<and>
    sum_list (map ob_up (ns_outbounds s')) = sum_list (map ob_up (ns_outbounds s)) + traffic_up tagged \<and>
    sum_list (map ob_down (ns_outbounds s')) = sum_list (map ob_down (ns_outbounds s)) + traffic_down tagged"
proof (cases "save_outbounds sha (configs_by_tag outbounds) (merge_traffic (map snd params)) (ns_outbounds s)")
  case (Inr rows)
  then have s': "s' = s\<lparr>ns_outbounds := rows\<rparr>" using assms(2,3) by (simp add: record_outbound_traffic_def)
  have d: "direction ob_up fst" "direction ob_down snd" by (simp_all add: direction_def)
  show ?thesis using saved_sum [OF Inr merge_facts(1) assms(1) d(1)] saved_sum [OF Inr merge_facts(1) assms(1) d(2)]
      merge_facts(2) [OF d(1)] merge_facts(2) [OF d(2)] by (simp add: s' assms(4) part_sums)
qed (use assms(2,3) in \<open>simp add: record_outbound_traffic_def\<close>)

definition old_outbound :: outbound_row where
  "old_outbound = \<lparr>ob_key = 1, ob_id = ''x'', ob_tag = ''t'', ob_protocol = JNull, ob_address = JNull, ob_port = JNull,
     ob_up = 5, ob_down = 0\<rparr>"

definition outbound_store :: node_store where
  "outbound_store = empty_store\<lparr>ns_outbounds := [old_outbound]\<rparr>"

lemma sample_ask: "ask_cores 0 [sample_answer 2] [] = ([(Some 2, [(''t'', 3, 0)])], [(''api'', 0, [(''t'', 3, 0)])])"
  by (simp add: sample_answer_def get_outbounds_stats_def stats_by_tag_def add_stat_def)

theorem outbound_traffic_recorded_witness:
  "map ob_up (ns_outbounds (snd (record_outbound_traffic id [] 0 [sample_answer 2] ([], outbound_store)))) = [8]"
proof -
  have "ns_outbounds (snd (record_outbound_traffic id [] 0 [sample_answer 2] ([], outbound_store))) = [old_outbound\<lparr>ob_up := 8\<rparr>]"
    by (simp add: record_outbound_traffic_def sample_ask save_outbounds_def traffic_changes_def merge_traffic_def
        outbound_store_def empty_store_def old_outbound_def changed_outbound_def write_outbound_def store_by_def configs_by_tag_def
        del: ask_cores.simps)
  moreover have "distinct (map ob_key (ns_outbounds outbound_store))" by (simp add: outbound_store_def)
  ultimately show ?thesis
    using outbound_traffic_recorded [OF _ sample_ask refl refl, of outbound_store id "[]"]
    by (auto simp: outbound_store_def old_outbound_def traffic_up_def)
qed

text \<open>When the configuration of an outbound that has a row appears under a new tag, nothing is recorded for any
  run in which only that tag has traffic: the identifier of the row would be there twice.\<close>

theorem outbound_rename_blocks:
  assumes "ask_cores now cores cache = (params, cache')" "merge_traffic (map snd params) = [(tag, up, down)]"
    and "up \<noteq> 0 \<or> down \<noteq> 0" "map_of (configs_by_tag outbounds) tag = Some c"
    and "r \<in> set (ns_outbounds s)" "ob_id r = generate_outbound_id sha c" "ob_id r \<noteq> []"
    and "List.find (\<lambda>q. ob_tag q = tag) (ns_outbounds s) = None"
  shows "record_outbound_traffic sha outbounds now cores (cache, s) = (cache', s)"
proof -
  have "\<exists>e. save_outbounds sha (configs_by_tag outbounds) [(tag, up, down)] (ns_outbounds s) = Inl e"
    using assms(3-8)
    by (cases "extract_outbound_metadata c")
      (auto simp: save_outbounds_def traffic_changes_def added_outbound_def Let_def insert_outbound_def list_ex_iff)
  then show ?thesis using assms(1,2) by (auto simp: record_outbound_traffic_def)
qed

theorem outbound_rename_blocks_witness:
  "record_outbound_traffic (\<lambda>_. ''x'') [JObj [(''tag'', JStr ''t''), (''protocol'', JStr ''freedom'')]] 0 [sample_answer 2]
     ([], outbound_store\<lparr>ns_outbounds := [old_outbound\<lparr>ob_tag := ''old''\<rparr>]\<rparr>) =
   ([(''api'', 0, [(''t'', 3, 0)])], outbound_store\<lparr>ns_outbounds := [old_outbound\<lparr>ob_tag := ''old''\<rparr>]\<rparr>)"
  by (rule outbound_rename_blocks [OF sample_ask, where r = "old_outbound\<lparr>ob_tag := ''old''\<rparr>" and up = 3 and down = 0
        and c = "[(''tag'', JStr ''t''), (''protocol'', JStr ''freedom'')]" and tag = "''t''"])
    (simp_all add: merge_traffic_def configs_by_tag_def jget_or_def generate_outbound_id_def old_outbound_def)

section \<open>Connections\<close>

text \<open>C9. Nothing that goes on without a request, no thread that is still connecting, no health check and no restart,
  changes the row of a node that is disabled.\<close>

theorem disabled_stays:
  assumes "background_run rt rt'" "node_row rt i = Some n" "nd_status n = Node_disabled"
  shows "node_row rt' i = Some n"
  using disabled_run [OF assms(1), of i n] assms(2,3) by (simp add: disabled_row_def)

definition sample_runtime :: "node_status \<Rightarrow> runtime" where
  "sample_runtime st = \<lparr>rt_store = empty_store\<lparr>ns_nodes := [(sample_node 2)\<lparr>nd_status := st\<rparr>]\<rparr>, rt_registry = [(2, 0)],
     rt_objects = [closed], rt_checked = [], rt_marked = [\<lparr>th_node = 2, th_object = 0, th_version = None\<rparr>],
     rt_connecting = [2], rt_errors = [], rt_attempts = []\<rparr>"

theorem disabled_stays_witness:
  "node_row (connect_done 5 (Core_started ''v'') \<lparr>th_node = 2, th_object = 0, th_version = None\<rparr> (sample_runtime Node_disabled)) 2
     = Some ((sample_node 2)\<lparr>nd_status := Node_disabled\<rparr>)"
proof (rule disabled_stays)
  show "background_run (sample_runtime Node_disabled)
      (connect_done 5 (Core_started ''v'') \<lparr>th_node = 2, th_object = 0, th_version = None\<rparr> (sample_runtime Node_disabled))"
    by (rule background_run.further [OF background_run.here], rule background.end_thread) (simp add: sample_runtime_def)
qed (simp_all add: sample_runtime_def node_row_def fetch_by_def sample_node_def new_node_def)




text \<open>C39. A node that reaches its limit while a thread still connects to it is connected when the thread has finished:
  its row says so though its usage is over the limit, and the core that was started has a connection that the registry
  does not have.\<close>

theorem limit_lost_while_connecting:
  assumes "node_row rt i = Some n" "nd_status n = Connecting" "th_node th = i" "th_object th < length (rt_objects rt)"
    and "traffic_up params \<noteq> 0 \<or> traffic_down params \<noteq> 0"
    and "over_node_limit (nd_data_limit n) (node_usage_total n + traffic_up params + traffic_down params)"
    and "rt' = connect_done later (Core_started version) th (record_traffic redis now params (Some i) rt)"
  shows "(\<exists>n'. node_row rt' i = Some n' \<and> nd_status n' = Connected \<and> over_node_limit (nd_data_limit n') (node_usage_total n')) \<and>
    cn_started (rt_objects rt' ! th_object th) \<and> i \<notin> fst ` set (rt_registry rt')"
proof -
  obtain n1 where u: "update_node_limits now (traffic_up params) (traffic_down params) n = (n1, Some (Limit_reached (nd_id n)))"
    and n1: "nd_id n1 = nd_id n" "nd_status n1 = Node_limited" "nd_data_limit n1 = nd_data_limit n"
      "node_usage_total n1 = node_usage_total n + traffic_up params + traffic_down params"
    using assms(2,6) by (auto simp: update_node_limits_def Let_def node_usage_total_def algebra_simps)
  have i: "nd_id n = i" using node_table.fetch_key assms(1) unfolding node_row_def by blast
  have p: "params \<noteq> []" using assms(5) by (auto simp: traffic_up_def traffic_down_def)
  define s where "s = fst (record_node_stats redis now params (Some i) (rt_store rt))"
  have "fetch_node i (ns_nodes (rt_store rt)) = Some n" using assms(1) by (simp add: node_row_def)
  then have s: "record_node_stats redis now params (Some i) (rt_store rt) = (s, Some (Limit_reached i))"
    and nodes: "ns_nodes s = store_by nd_id n1 (ns_nodes (rt_store rt))"
    using assms(5) p u i by (auto simp: s_def record_node_stats_def apply_limits_def Let_def put_node_def)
  define rt1 where "rt1 = record_traffic redis now params (Some i) rt"
  have rt1: "rt1 = unregister i (rt\<lparr>rt_store := s\<rparr>)" by (simp add: rt1_def record_traffic_def s after_limits_def)
  have row: "node_row rt1 i = Some n1"
    using assms(1) n1(1) i by (simp add: rt1 connection_simps) (simp add: node_row_def nodes node_table.fetch_store)
  have reg: "i \<notin> fst ` set (rt_registry rt1)" by (auto simp: rt1 unregister_registry AList.delete_eq)
  have len: "length (rt_objects rt1) = length (rt_objects rt)"
    by (simp add: rt1 unregister_def set_connection_def split: option.split)
  define rt2 where "rt2 = set_connection (th_object th) \<lparr>cn_connected = True, cn_started = True\<rparr>
    (rt1\<lparr>rt_marked := remove1 th (rt_marked rt1), rt_connecting := removeAll i (rt_connecting rt1)\<rparr>)"
  have row2: "node_row rt2 i = Some n1" using row by (simp add: rt2_def connection_simps)
  have rt': "rt' = set_status later Connected None (Some version) n1 rt2"
    unfolding assms(7) rt1_def [symmetric]
    by (simp add: connect_done_def Let_def assms(3) rt2_def [symmetric] change_node_status_def row2 n1(2))
  have same: "rt_objects rt' = rt_objects rt2" "rt_registry rt' = rt_registry rt1"
    by (simp_all add: rt' set_status_def rt2_def set_connection_def)
  have "cn_started (rt_objects rt2 ! th_object th)" using assms(4) len by (simp add: rt2_def set_connection_def)
  moreover have "over_node_limit (nd_data_limit n1) (node_usage_total n1)" using assms(6) n1(3,4) by simp
  ultimately show ?thesis unfolding same using row_set_status [OF row2, of later Connected None "Some version" i] reg
    by (simp add: rt' node_usage_total_def)
qed

theorem limit_lost_while_connecting_witness:
  "map nd_status (ns_nodes (rt_store (connect_done 5 (Core_started ''v'') \<lparr>th_node = 2, th_object = 0, th_version = None\<rparr>
     (record_traffic False 0 [(''t'', 4, 1)] (Some 2) (sample_runtime Connecting))))) = [Connected]"
proof -
  let ?rt = "connect_done 5 (Core_started ''v'') \<lparr>th_node = 2, th_object = 0, th_version = None\<rparr>
     (record_traffic False 0 [(''t'', 4, 1)] (Some 2) (sample_runtime Connecting))"
  have "\<exists>n'. node_row ?rt 2 = Some n' \<and> nd_status n' = Connected"
    using limit_lost_while_connecting [OF _ _ _ _ _ _ refl, of "sample_runtime Connecting" 2 "(sample_node 2)\<lparr>nd_status := Connecting\<rparr>"
        "\<lparr>th_node = 2, th_object = 0, th_version = None\<rparr>" "[(''t'', 4, 1)]" 5 "''v''" False 0]
    by (auto simp: sample_runtime_def node_row_def fetch_by_def sample_node_def new_node_def sample_node_request_def
        traffic_up_def traffic_down_def over_node_limit_def node_usage_total_def)
  moreover have "map nd_id (ns_nodes (rt_store ?rt)) = [2]"
    by (simp add: connect_done_def record_traffic_def record_node_stats_def apply_limits_def Let_def sample_runtime_def
        traffic_up_def traffic_down_def fetch_by_def sample_node_def new_node_def change_node_status_def node_row_def
        update_node_limits_def put_node_def store_by_def over_node_limit_def node_usage_total_def sample_node_request_def
        after_limits_def unregister_def set_connection_def set_status_def update_node_status_def)
  ultimately show ?thesis
    by (cases "ns_nodes (rt_store ?rt)") (auto simp: node_row_def fetch_by_def split: if_splits)
qed

section \<open>Reports\<close>

text \<open>C11. The reports of the usage of a user agree: the timeline has one bucket for every hour or day of the range, in
  order, each the sum of its nodes, and timeline and sums per node add up to the traffic of the rows in the range.\<close>

theorem usage_reports_agree:
  assumes "s \<le> e" "distinct (map nd_id ns)" "ts = get_user_usage_timeseries d ns master i g s e"
  shows "map fst ts = buckets_upto (hourly g) (bucket_of (hourly g) s) (bucket_of (hourly g) e) \<and>
    map (\<lambda>(_, total, _). total) ts = map (\<lambda>(_, _, parts). sum_list (map (\<lambda>(_, _, v). v) parts)) ts \<and>
    sum_list (map (\<lambda>(_, total, _). total) ts) = traffic_of (query_rows d (Of_user i) s e) \<and>
    sum_list (map (\<lambda>(_, _, v). v) (get_user_usage_by_nodes d ns i s e)) = traffic_of (query_rows d (Of_user i) s e)"
proof -
  let ?rows = "query_rows d (Of_user i) s e"
  let ?bs = "usage_timeseries (hourly g) s e ?rows"
  have between: "\<forall>x \<in> set ?rows. s \<le> nu_created_at x \<and> nu_created_at x \<le> e" by (blast dest: query_rows_between)
  note f = timeseries_facts [OF between assms(1), of "hourly g"]
  have parts: "sum_list (map (\<lambda>(_, _, v). v) (map (timeline_node master ns) (filter (\<lambda>(_, v). v \<noteq> 0) xs))) = dict_total xs" for xs
    by (induction xs) (auto simp: dict_total_def timeline_node_def Let_def)
  have ts: "ts = map (\<lambda>b. (ub_at b, ub_total b, map (timeline_node master ns) (filter (\<lambda>(_, v). v \<noteq> 0) (ub_nodes b)))) ?bs"
    by (simp add: assms(3) get_user_usage_timeseries_def)
  have "map (\<lambda>(_, total, _). total) ts = map (\<lambda>(_, _, parts). sum_list (map (\<lambda>(_, _, v). v) parts)) ts"
    using f(3) unfolding ts map_map by (intro map_cong refl) (simp add: sound_bucket_def parts del: map_map)
  moreover have "map fst ts = map ub_at ?bs" "map (\<lambda>(_, total, _). total) ts = map ub_total ?bs" by (simp_all add: ts comp_def)
  moreover have "sum_list (map (\<lambda>(_, _, v). v) (get_user_usage_by_nodes d ns i s e)) = traffic_of ?rows"
    using all_node_sums_total [OF assms(2), of ?rows]
      sum_parted [of "\<lambda>(_, _, v). v" "\<lambda>(k, _). k = None" "all_node_sums ns ?rows"]
    by (simp add: get_user_usage_by_nodes_def Let_def case_prod_unfold)
  ultimately show ?thesis using f(1,2) by (metis (no_types))
qed

definition sample_usage :: db where
  "sample_usage = sample_db\<lparr>users := [ann\<lparr>node_usages := [\<lparr>nu_created_at = 0, nu_node_id = None, nu_used_traffic = 3\<rparr>]\<rparr>]\<rparr>"

theorem usage_reports_agree_witness:
  "map fst (get_user_usage_timeseries sample_usage [] 1 (uid ann) ''day'' 0 0) = [0] \<and>
   sum_list (map (\<lambda>(_, total, _). total) (get_user_usage_timeseries sample_usage [] 1 (uid ann) ''day'' 0 0)) = 3 \<and>
   sum_list (map (\<lambda>(_, _, v). v) (get_user_usage_by_nodes sample_usage [] (uid ann) 0 0)) = 3"
proof -
  have "query_rows sample_usage (Of_user (uid ann)) 0 0 = [\<lparr>nu_created_at = 0, nu_node_id = None, nu_used_traffic = 3\<rparr>]"
    by (simp add: sample_usage_def query_rows_def rows_between_def in_scope_def all_usage_rows_def ann_def)
  moreover have "bucket_of b 0 = 0" for b by (simp add: bucket_of_def)
  moreover have "buckets_upto b 0 0 = [0]" for b
    using bucket_length_pos [of b] by (subst buckets_upto.simps, subst buckets_upto.simps) simp
  ultimately show ?thesis
    using usage_reports_agree [OF order.refl _ refl, of "[]" sample_usage 1 "uid ann" "''day''" 0]
    by (simp add: traffic_of_def)
qed

end
