(* ===== verification/ShareLinks.thy ===== *)
theory ShareLinks
  imports UrlText SubscriptionTokens UserCrud
begin

text \<open>
  The links of a subscription: \<open>V2rayShareLink\<close> of \<open>app/subscription/v2ray.py\<close> and
  \<open>app/subscription/funcs.py\<close>. \<open>ib\<close> are the settings of an inbound with those of a host in them;
  what the methods get as arguments is read from it. Two methods differ only in the order of keys.
\<close>

section \<open>Paths of gRPC\<close>

definition rsplit_last :: "char \<Rightarrow> string \<Rightarrow> string \<times> string" where
  "rsplit_last x s = (let r = rev s in
     (rev (tl (dropWhile (\<lambda>c. c \<noteq> x) r)), rev (takeWhile (\<lambda>c. c \<noteq> x) r)))"

definition get_grpc_gun :: "string \<Rightarrow> string" where
  "get_grpc_gun path =
     (if \<not> starts_with ''/'' path then path
      else case rsplit_last CHR ''/'' path of (service, rest) \<Rightarrow>
        (let stream = hd (split_on CHR ''|'' rest) in
         if stream = ''Tun'' then tl service else service @ ''/'' @ stream))"

definition get_grpc_multi :: "string \<Rightarrow> string result" where
  "get_grpc_multi path =
     (if \<not> starts_with ''/'' path then Inr path
      else case rsplit_last CHR ''/'' path of (service, rest) \<Rightarrow>
        (case split_on CHR ''|'' rest of
           _ # stream # _ \<Rightarrow> Inr (service @ ''/'' @ stream)
         | _ \<Rightarrow> Inl Index_error))"

definition link_path :: "json_dict \<Rightarrow> string result" where
  "link_path ib =
     (if jget ib ''network'' \<in> {JStr ''grpc'', JStr ''gun''} then
        (case jget ib ''path'' of
           JStr old \<Rightarrow>
             then_res (if json_true (jget_or ib ''multiMode'' (JBool False)) then get_grpc_multi old
               else Inr (get_grpc_gun old)) (\<lambda>path.
             Inr (if starts_with ''/'' old then url_quote (''-_.!~*()'' @ [CHR 0x27]) path else path))
         | _ \<Rightarrow> Inl Attribute_error)
      else Inr (py_str (jget ib ''path'')))"

section \<open>Payloads\<close>

definition setting_text :: "setting \<Rightarrow> string" where
  "setting_text v = (case v of SStr s \<Rightarrow> s | SNone \<Rightarrow> ''None'' | SBool b \<Rightarrow> if b then ''True'' else ''False'')"

definition setting_key :: "settings \<Rightarrow> string \<Rightarrow> setting result" where
  "setting_key st k = (case map_of st k of None \<Rightarrow> Inl Key_error | Some v \<Rightarrow> Inr v)"

definition given :: "string \<Rightarrow> json_dict \<Rightarrow> json_dict" where
  "given k ib = (if jget ib k = JNull then [] else [(k, jget ib k)])"

text \<open>\<open>keepAlivePeriod > 0\<close> of a value that is no number raises.\<close>

definition keep_alive :: "json_dict \<Rightarrow> json_dict result" where
  "keep_alive ib = (case jget ib ''keepAlivePeriod'' of
     JNull \<Rightarrow> Inr []
   | JInt n \<Rightarrow> Inr (if n > 0 then [(''keepAlivePeriod'', JInt n)] else [])
   | JBool b \<Rightarrow> Inr (if b then [(''keepAlivePeriod'', JBool b)] else [])
   | _ \<Rightarrow> Inl Type_error)"

definition xhttp_extra :: "bool \<Rightarrow> json_dict \<Rightarrow> json_dict result" where
  "xhttp_extra xmux_first ib = then_res (keep_alive ib) (\<lambda>ka.
     let xmux = (if json_true (jget ib ''xmux'') then [(''xmux'', jget ib ''xmux'')] else []) in
     Inr (given ''scMaxEachPostBytes'' ib @ given ''scMaxConcurrentPosts'' ib @ given ''scMinPostsIntervalMs'' ib @
       given ''xPaddingBytes'' ib @ given ''noGRPCHeader'' ib @ (if xmux_first then xmux @ ka else ka @ xmux)))"

text \<open>The entries that depend on the security; the first argument says whether \<open>fragment\<close> is one of them.\<close>

definition security_payload :: "json_dict \<Rightarrow> json_dict" where
  "security_payload ib =
     (let tls = jget ib ''tls''; entry = (\<lambda>k. if json_true (jget ib k) then [(k, jget ib k)] else []);
          names = [(''sni'', jget_or ib ''sni'' (JStr [])), (''fp'', jget_or ib ''fp'' (JStr []))] in
      if tls = JStr ''tls'' then names @ entry ''alpn'' @
        (if json_true (jget ib ''fragment_setting'') then [(''fragment'', jget ib ''fragment_setting'')] else []) @
        (if json_true (jget ib ''ais'') then [(''allowInsecure'', JInt 1)] else [])
      else if tls = JStr ''reality'' then names @
        [(''pbk'', jget_or ib ''pbk'' (JStr [])), (''sid'', jget_or ib ''sid'' (JStr []))] @ entry ''spx''
      else [])"

definition grpc_mode :: "json_dict \<Rightarrow> json" where
  "grpc_mode ib = JStr (if json_true (jget_or ib ''multiMode'' (JBool False)) then ''multi'' else ''gun'')"

definition heartbeat :: "json_dict \<Rightarrow> json_dict" where
  "heartbeat ib = (if json_true (jget ib ''heartbeatPeriod'') then [(''heartbeatPeriod'', jget ib ''heartbeatPeriod'')] else [])"

text \<open>Of VLESS and Trojan: the entries of the transport.\<close>

definition transport_payload :: "json_dict \<Rightarrow> string \<Rightarrow> json_dict result" where
  "transport_payload ib path =
     (let net = jget ib ''network''; host = jget ib ''host'' in
      if net = JStr ''grpc''
      then Inr [(''serviceName'', JStr path), (''authority'', host), (''mode'', grpc_mode ib)]
      else if net = JStr ''quic'' then Inr [(''key'', JStr path), (''quicSecurity'', host)]
      else if net \<in> {JStr ''splithttp'', JStr ''xhttp''} then
        then_res (xhttp_extra False ib) (\<lambda>extra.
          Inr ([(''path'', JStr path), (''host'', host)] @ given ''mode'' ib @
            (if extra = [] then [] else [(''extra'', JStr (json_dumps False (JObj extra)))])))
      else if net = JStr ''kcp'' then Inr [(''seed'', JStr path), (''host'', host)]
      else if net = JStr ''ws'' then Inr ([(''path'', JStr path), (''host'', host)] @ heartbeat ib)
      else Inr [(''path'', JStr path), (''host'', host)])"

definition flow_allowed :: "json_dict \<Rightarrow> bool" where
  "flow_allowed ib \<longleftrightarrow> jget ib ''tls'' \<in> {JStr ''tls'', JStr ''reality''} \<and>
     jget ib ''network'' \<in> {JStr ''tcp'', JStr ''raw'', JStr ''kcp''} \<and> jget ib ''header_type'' \<noteq> JStr ''http''"

definition flow_payload :: "json_dict \<Rightarrow> settings \<Rightarrow> json_dict" where
  "flow_payload ib st = (case map_of st ''flow'' of
     Some (SStr f) \<Rightarrow> (if f \<noteq> [] \<and> flow_allowed ib then [(''flow'', JStr f)] else [])
   | Some (SBool b) \<Rightarrow> (if b \<and> flow_allowed ib then [(''flow'', JBool b)] else [])
   | _ \<Rightarrow> [])"

definition share_payload :: "json_dict \<Rightarrow> settings \<Rightarrow> json_dict \<Rightarrow> string \<Rightarrow> json_dict result" where
  "share_payload ib st encryption path = then_res (transport_payload ib path) (\<lambda>transport.
     Inr ([(''security'', jget ib ''tls''), (''type'', jget ib ''network''), (''headerType'', jget ib ''header_type'')] @
       flow_payload ib st @ encryption @ transport @ security_payload ib))"

text \<open>Assignments of a VMess payload, where \<open>mode\<close> of an HTTP transport replaces \<open>type\<close>.\<close>

definition vmess_payload :: "json_dict \<Rightarrow> setting \<Rightarrow> string \<Rightarrow> string \<Rightarrow> string \<Rightarrow> json_dict result" where
  "vmess_payload ib i address remark path =
     (let net = jget ib ''network'';
          base = [(''add'', JStr address), (''aid'', JStr ''0''), (''host'', jget ib ''host''), (''id'', JStr (setting_text i)),
            (''net'', net), (''path'', JStr path), (''port'', jget ib ''port''), (''ps'', JStr remark), (''scy'', JStr ''auto''),
            (''tls'', jget ib ''tls''), (''type'', jget ib ''header_type''), (''v'', JStr ''2'')];
          fs = (if json_true (jget ib ''fragment_setting'') then [(''fragment'', jget ib ''fragment_setting'')] else []);
          p1 = fold (\<lambda>(k, v). jset k v) (fs @ security_payload ib) base in
      if net = JStr ''grpc'' then Inr (jset ''mode'' (grpc_mode ib) p1)
      else if net \<in> {JStr ''splithttp'', JStr ''xhttp''} then
        then_res (xhttp_extra True ib) (\<lambda>extra.
          (let p2 = jset_if (jget ib ''mode'' \<noteq> JNull) ''type'' (jget ib ''mode'') p1
           in Inr (jset_if (extra \<noteq> []) ''extra'' (JObj extra) p2)))
      else if net = JStr ''ws'' then Inr (fold (\<lambda>(k, v). jset k v) (heartbeat ib) p1)
      else Inr p1)"

section \<open>Links\<close>

text \<open>Base64 with the standard alphabet.\<close>

definition b64_standard :: "string \<Rightarrow> string" where
  "b64_standard s = map (\<lambda>c. if c = CHR ''-'' then CHR ''+'' else if c = CHR ''_'' then CHR ''/'' else c) (b64encode s)"

definition vmess_link :: "json_dict \<Rightarrow> string \<Rightarrow> string \<Rightarrow> settings \<Rightarrow> string \<Rightarrow> string result" where
  "vmess_link ib remark address st path =
     then_res (setting_key st ''id'') (\<lambda>i.
     then_res (vmess_payload ib i address remark path) (\<lambda>payload.
       Inr (''vmess://'' @ b64_standard (json_dumps True (JObj payload)))))"

definition address_part :: "json_dict \<Rightarrow> string \<Rightarrow> string" where
  "address_part ib address = format_ip_for_url address @ '':'' @ py_str (jget ib ''port'')"

definition vless_link :: "json_dict \<Rightarrow> string \<Rightarrow> string \<Rightarrow> settings \<Rightarrow> string \<Rightarrow> string result" where
  "vless_link ib remark address st path =
     then_res (setting_key st ''id'') (\<lambda>i.
     then_res (share_payload ib st [(''encryption'', jor (jget ib ''encryption'') (JStr ''none''))] path) (\<lambda>payload.
       Inr (''vless://'' @ setting_text i @ ''@'' @ address_part ib address @ ''?'' @ urlencode payload @
         ''#'' @ url_quote ''/'' remark)))"

definition trojan_link :: "json_dict \<Rightarrow> string \<Rightarrow> string \<Rightarrow> settings \<Rightarrow> string \<Rightarrow> string result" where
  "trojan_link ib remark address st path =
     then_res (setting_key st ''password'') (\<lambda>pw.
     then_res (share_payload ib st [] path) (\<lambda>payload.
       case pw of
         SStr p \<Rightarrow> Inr (''trojan://'' @ url_quote '':'' p @ ''@'' @ address_part ib address @ ''?'' @ urlencode payload @
           ''#'' @ url_quote ''/'' remark)
       | _ \<Rightarrow> Inl Type_error))"

definition shadowsocks_link :: "json_dict \<Rightarrow> string \<Rightarrow> string \<Rightarrow> settings \<Rightarrow> string result" where
  "shadowsocks_link ib remark address st =
     then_res (setting_key st ''password'') (\<lambda>pw.
     then_res (setting_key st ''method'') (\<lambda>method.
       Inr (''ss://'' @ b64_standard (setting_text method @ '':'' @ setting_text pw) @ ''@'' @ address_part ib address @
         ''#'' @ url_quote ''/'' remark)))"

text \<open>\<open>add\<close>: one link, or none for another protocol; the path is computed first.\<close>

definition add_link :: "string \<Rightarrow> string \<Rightarrow> json_dict \<Rightarrow> settings \<Rightarrow> string list \<Rightarrow> string list result" where
  "add_link remark address ib st links = then_res (link_path ib) (\<lambda>path.
     let one = (\<lambda>r. then_res r (\<lambda>l. Inr (links @ [l]))); protocol = jget ib ''protocol'' in
     if protocol = JStr ''vmess'' then one (vmess_link ib remark address st path)
     else if protocol = JStr ''vless'' then one (vless_link ib remark address st path)
     else if protocol = JStr ''trojan'' then one (trojan_link ib remark address st path)
     else if protocol = JStr ''shadowsocks'' then one (shadowsocks_link ib remark address st)
     else Inr links)"

definition render_links :: "string \<Rightarrow> bool \<Rightarrow> string list \<Rightarrow> string list" where
  "render_links external reverse links =
     (let all = links @ (if external = [] then [] else [external]) in if reverse then rev all else all)"

end
