(* ===== verification/JsonDocument.thy ===== *)
theory JsonDocument
  imports ShareLinks
begin

text \<open>
  The JSON document of a subscription: \<open>V2rayJsonConfig\<close> of \<open>app/subscription/v2ray.py\<close>, and the parts
  that the documents for other clients share. What templates and files of user agents hold is a record;
  \<open>r\<close> is a draw of \<open>random.choice\<close>. An entry of a template that is no object raises.
\<close>

section \<open>Shared parts\<close>

record templates =
  tp_v2ray :: json_dict
  tp_v2ray_settings :: json_dict
  tp_singbox :: json_dict
  tp_singbox_settings :: json_dict
  tp_clash_settings :: json_dict
  tp_clash :: "json_dict list \<Rightarrow> string list \<Rightarrow> string result"
  tp_mux :: json_dict
  tp_agents :: json_dict
  tp_grpc_agents :: json_dict

definition agent_list :: "json_dict \<Rightarrow> json list" where
  "agent_list d = (case jget d ''list'' of JArr xs \<Rightarrow> xs | _ \<Rightarrow> [])"

definition choice :: "nat \<Rightarrow> 'a list \<Rightarrow> 'a result" where
  "choice r xs = (if xs = [] then Inl Index_error else Inr (xs ! (r mod length xs)))"

text \<open>Assignments to a dictionary, one after the other: \<open>d[k] = v\<close>, \<open>d[k][l] = v\<close>, a key that is added
  when it is not there.\<close>

type_synonym edit = "json_dict \<Rightarrow> json_dict result"

definition edits :: "edit list \<Rightarrow> edit" where
  "edits fs d = fold_res (\<lambda>f. f) fs d"

definition only :: "bool \<Rightarrow> edit \<Rightarrow> edit" where
  "only b f d = (if b then f d else Inr d)"

definition assign :: "string \<Rightarrow> json \<Rightarrow> edit" where
  "assign k v d = Inr (jset k v d)"

definition default_to :: "string \<Rightarrow> json \<Rightarrow> edit" where
  "default_to k v d = Inr (if map_of d k = None then jset k v d else d)"

definition edit_in :: "string \<Rightarrow> edit \<Rightarrow> edit" where
  "edit_in k f d = then_res (jkey d k) (\<lambda>x. case x of
     JObj kvs \<Rightarrow> map_sum id (\<lambda>kvs'. jset k (JObj kvs') d) (f kvs)
   | _ \<Rightarrow> Inl Type_error)"

definition with_choice :: "nat \<Rightarrow> json list \<Rightarrow> (json \<Rightarrow> edit) \<Rightarrow> edit" where
  "with_choice r xs f d = then_res (choice r xs) (\<lambda>x. f x d)"

definition template_entry :: "json_dict \<Rightarrow> string \<Rightarrow> json_dict \<Rightarrow> json_dict result" where
  "template_entry st k dflt = (case map_of st k of
     None \<Rightarrow> Inr dflt | Some (JObj kvs) \<Rightarrow> Inr kvs | Some _ \<Rightarrow> Inl Type_error)"

definition wants_agent :: "json_dict \<Rightarrow> bool" where
  "wants_agent ib = json_true (jget ib ''random_user_agent'')"

definition setting_json :: "setting \<Rightarrow> json" where
  "setting_json v = (case v of SStr s \<Rightarrow> JStr s | SNone \<Rightarrow> JNull | SBool b \<Rightarrow> JBool b)"

definition credential :: "settings \<Rightarrow> string \<Rightarrow> json result" where
  "credential st k = map_sum id setting_json (setting_key st k)"

definition json_flow :: "settings \<Rightarrow> json" where
  "json_flow st = (case map_of st ''flow'' of None \<Rightarrow> JStr [] | Some v \<Rightarrow> setting_json v)"

text \<open>Of several ports in a text, one.\<close>

definition one_port :: "nat \<Rightarrow> json \<Rightarrow> json result" where
  "one_port r v = (case v of
     JStr s \<Rightarrow> then_res (choice r (split_on CHR '','' s)) (\<lambda>p. case py_int p of
       Some n \<Rightarrow> Inr (JInt n) | None \<Rightarrow> Inl (Value_error ''invalid literal for int()''))
   | _ \<Rightarrow> Inr v)"

definition alpn_list :: "json_dict \<Rightarrow> json result" where
  "alpn_list ib = (case jget ib ''alpn'' of
     JStr s \<Rightarrow> Inr (if s = [] then JNull else JArr (map JStr (split_on CHR '','' s)))
   | v \<Rightarrow> if json_true v then Inl Attribute_error else Inr JNull)"

definition is_list :: "json \<Rightarrow> bool" where
  "is_list v = (case v of JArr _ \<Rightarrow> True | _ \<Rightarrow> False)"

definition json_list :: "json \<Rightarrow> json" where
  "json_list v = (if is_list v then v else JArr [v])"

section \<open>Security\<close>

definition v2_tls_config :: "json_dict \<Rightarrow> json \<Rightarrow> json_dict" where
  "v2_tls_config ib alpn =
     (let ais = jget_or ib ''ais'' (JStr []); fp = jget_or ib ''fp'' (JStr []) in
      (if jget ib ''sni'' = JNull then [] else [(''serverName'', jget ib ''sni'')]) @
      [(''allowInsecure'', if json_true ais then ais else JBool False)] @
      (if json_true fp then [(''fingerprint'', fp)] else []) @
      (if json_true alpn then [(''alpn'', json_list alpn)] else []) @ [(''show'', JBool False)])"

definition v2_reality_config :: "json_dict \<Rightarrow> json_dict" where
  "v2_reality_config ib =
     (let entry = (\<lambda>k name. if json_true (jget ib k) then [(name, jget ib k)] else []) in
      (if jget ib ''sni'' = JNull then [] else [(''serverName'', jget ib ''sni'')]) @ entry ''fp'' ''fingerprint'' @
      [(''show'', JBool False)] @ entry ''pbk'' ''publicKey'' @ entry ''sid'' ''shortId'' @ entry ''spx'' ''spiderX'')"

section \<open>Transports\<close>

definition v2_ws_config :: "json_dict \<Rightarrow> json list \<Rightarrow> nat \<Rightarrow> string \<Rightarrow> json_dict \<Rightarrow> json_dict result" where
  "v2_ws_config st agents r path ib =
     (let host = jget ib ''host''; beat = jget_or ib ''heartbeatPeriod'' (JInt 0) in
      then_res (template_entry st ''wsSettings'' []) (edits
        [default_to ''headers'' (JObj []), only (path \<noteq> []) (assign ''path'' (JStr path)),
         only (json_true host) (assign ''host'' host),
         only (wants_agent ib) (with_choice r agents (\<lambda>a. edit_in ''headers'' (assign ''User-Agent'' a))),
         only (json_true beat) (assign ''heartbeatPeriod'' beat)]))"

definition v2_httpupgrade_config :: "json_dict \<Rightarrow> json list \<Rightarrow> nat \<Rightarrow> string \<Rightarrow> json_dict \<Rightarrow> json_dict result" where
  "v2_httpupgrade_config st agents r path ib =
     (let host = jget ib ''host'' in
      then_res (template_entry st ''httpupgradeSettings'' []) (edits
        [default_to ''headers'' (JObj []), only (path \<noteq> []) (assign ''path'' (JStr path)),
         only (json_true host) (assign ''host'' host),
         only (wants_agent ib) (with_choice r agents (\<lambda>a. edit_in ''headers'' (assign ''User-Agent'' a)))]))"

definition positive :: "json \<Rightarrow> bool result" where
  "positive v = (case v of JInt n \<Rightarrow> Inr (n > 0) | JBool b \<Rightarrow> Inr b | _ \<Rightarrow> Inl Type_error)"

definition v2_splithttp_config :: "json_dict \<Rightarrow> json list \<Rightarrow> nat \<Rightarrow> string \<Rightarrow> json_dict \<Rightarrow> json_dict result" where
  "v2_splithttp_config st agents r path ib =
     (let host = jget ib ''host''; xmux = jget_or ib ''xmux'' (JObj []); alive = jget_or ib ''keepAlivePeriod'' (JInt 0) in
      then_res (template_entry st ''splithttpSettings'' []) (edits
        [assign ''mode'' (jget_or ib ''mode'' (JStr ''auto'')), only (path \<noteq> []) (assign ''path'' (JStr path)),
         only (json_true host) (assign ''host'' host),
         only (wants_agent ib) (with_choice r agents (\<lambda>a. edit_in ''headers'' (assign ''User-Agent'' a))),
         default_to ''scMaxEachPostBytes'' (jget_or ib ''scMaxEachPostBytes'' (JInt 1000000)),
         default_to ''scMaxConcurrentPosts'' (jget_or ib ''scMaxConcurrentPosts'' (JInt 100)),
         default_to ''scMinPostsIntervalMs'' (jget_or ib ''scMinPostsIntervalMs'' (JInt 30)),
         default_to ''xPaddingBytes'' (jget_or ib ''xPaddingBytes'' (JStr ''100-1000'')),
         assign ''noGRPCHeader'' (jget_or ib ''noGRPCHeader'' (JBool False)),
         only (json_true xmux) (assign ''xmux'' xmux),
         (\<lambda>d. then_res (positive alive) (\<lambda>b. only b (assign ''keepAlivePeriod'' alive) d))]))"

definition v2_grpc_config :: "json_dict \<Rightarrow> json list \<Rightarrow> nat \<Rightarrow> string \<Rightarrow> json_dict \<Rightarrow> json_dict result" where
  "v2_grpc_config st agents r path ib =
     (let host = jget ib ''host'' in
      then_res (template_entry st ''grpcSettings'' [(''idle_timeout'', JInt 60), (''health_check_timeout'', JInt 20),
          (''permit_without_stream'', JBool False), (''initial_windows_size'', JInt 35538)]) (edits
        [assign ''multiMode'' (jget_or ib ''multiMode'' (JBool False)),
         only (path \<noteq> []) (assign ''serviceName'' (JStr path)), only (json_true host) (assign ''authority'' host),
         only (wants_agent ib) (with_choice r agents (assign ''user_agent''))]))"

definition tcp_http_default :: json_dict where
  "tcp_http_default = [(''header'', JObj [(''request'', JObj [(''headers'', JObj
       [(''Accept-Encoding'', JArr [JStr ''gzip'', JStr ''deflate'']), (''Connection'', JArr [JStr ''keep-alive'']),
        (''Pragma'', JStr ''no-cache'')]), (''method'', JStr ''GET''), (''version'', JStr ''1.1'')])])]"

definition v2_tcp_config :: "json_dict \<Rightarrow> json list \<Rightarrow> nat \<Rightarrow> string \<Rightarrow> json_dict \<Rightarrow> json_dict result" where
  "v2_tcp_config st agents r path ib =
     (let host = jget ib ''host''; headers = jget ib ''header_type''; rnd = wants_agent ib;
          request = (\<lambda>f. edit_in ''header'' (edit_in ''request'' f)) in
      then_res (if headers = JStr ''http'' then template_entry st ''tcphttpSettings'' tcp_http_default
          else case map_of st ''tcpSettings'' of Some _ \<Rightarrow> template_entry st ''tcpSettings'' []
            | None \<Rightarrow> template_entry st ''rawSettings'' [(''header'', JObj [(''type'', JStr ''none'')])]) (edits
        [default_to ''header'' (JObj []), only (json_true headers) (edit_in ''header'' (assign ''type'' headers)),
         only (path \<noteq> [] \<or> json_true host \<or> rnd) (edit_in ''header'' (default_to ''request'' (JObj []))),
         only (rnd \<or> json_true host) (request (default_to ''headers'' (JObj []))),
         only (path \<noteq> []) (request (assign ''path'' (JArr [JStr path]))),
         only (json_true host) (request (edit_in ''headers'' (assign ''Host'' (JArr [host])))),
         only rnd (with_choice r agents (\<lambda>a. request (edit_in ''headers'' (assign ''User-Agent'' (JArr [a])))))]))"

text \<open>With the network \<open>http\<close> the entry of the template itself is changed.\<close>

definition http_settings_key :: "json \<Rightarrow> string" where
  "http_settings_key net = (if net = JStr ''h2'' then ''h2Settings'' else if net = JStr ''h3'' then ''h3Settings''
     else ''httpSettings'')"

definition v2_http_config :: "json_dict \<Rightarrow> json list \<Rightarrow> nat \<Rightarrow> string \<Rightarrow> json_dict \<Rightarrow> json_dict result" where
  "v2_http_config st agents r path ib =
     (let host = jget ib ''host'' in
      then_res (template_entry st (http_settings_key (jget ib ''network'')) [(''header'', JObj [])]) (edits
        [default_to ''header'' (JObj []), assign ''path'' (JStr path),
         assign ''host'' (JArr (if json_true host then [host] else [])),
         only (wants_agent ib) (with_choice r agents (\<lambda>a. edit_in ''headers'' (assign ''User-Agent'' (JArr [a]))))]))"

definition v2_quic_config :: "json_dict \<Rightarrow> string \<Rightarrow> json_dict \<Rightarrow> json_dict result" where
  "v2_quic_config st path ib =
     (let host = jget ib ''host''; headers = jget ib ''header_type''; plain = JObj [(''type'', JStr ''none'')] in
      then_res (template_entry st ''quicSettings'' [(''security'', JStr ''none''), (''header'', plain), (''key'', JStr [])]) (edits
        [default_to ''header'' plain, only (path \<noteq> []) (assign ''key'' (JStr path)),
         only (json_true host) (assign ''security'' host),
         only (json_true headers) (edit_in ''header'' (assign ''type'' headers))]))"

definition v2_kcp_config :: "json_dict \<Rightarrow> string \<Rightarrow> json_dict \<Rightarrow> json_dict result" where
  "v2_kcp_config st path ib =
     (let host = jget ib ''host''; headers = jget ib ''header_type''; plain = JObj [(''type'', JStr ''none'')] in
      then_res (template_entry st ''kcpSettings'' [(''header'', plain), (''mtu'', JInt 1350), (''tti'', JInt 50),
          (''uplinkCapacity'', JInt 12), (''downlinkCapacity'', JInt 100), (''congestion'', JBool False),
          (''readBufferSize'', JInt 2), (''writeBufferSize'', JInt 2)]) (edits
        [default_to ''header'' plain, only (path \<noteq> []) (assign ''seed'' (JStr path)),
         only (json_true headers) (edit_in ''header'' (assign ''type'' headers)),
         only (json_true host) (edit_in ''header'' (assign ''domain'' host))]))"

definition v2_network_config :: "templates \<Rightarrow> json_dict \<Rightarrow> nat \<Rightarrow> string \<Rightarrow> json_dict \<Rightarrow> json_dict result" where
  "v2_network_config tp st r path ib =
     (let net = jget ib ''network''; agents = agent_list (tp_agents tp) in
      if net = JStr ''ws'' then v2_ws_config st agents r path ib
      else if net = JStr ''grpc'' then v2_grpc_config st (agent_list (tp_grpc_agents tp)) r path ib
      else if net \<in> {JStr ''h3'', JStr ''h2'', JStr ''http''} then v2_http_config st agents r path ib
      else if net = JStr ''kcp'' then v2_kcp_config st path ib
      else if net \<in> {JStr ''tcp'', JStr ''raw''} \<and> jget ib ''tls'' \<noteq> JStr ''reality'' then v2_tcp_config st agents r path ib
      else if net = JStr ''quic'' then v2_quic_config st path ib
      else if net = JStr ''httpupgrade'' then v2_httpupgrade_config st agents r path ib
      else if net \<in> {JStr ''splithttp'', JStr ''xhttp''} then v2_splithttp_config st agents r path ib
      else Inr [])"

definition v2_stream_setting :: "json_dict \<Rightarrow> json_dict \<Rightarrow> json \<Rightarrow> string \<Rightarrow> json_dict" where
  "v2_stream_setting ib network alpn dialer =
     (let net = jget ib ''network''; tls = jget ib ''tls'';
          security = (if tls = JStr ''tls'' then JObj (v2_tls_config ib alpn)
            else if tls = JStr ''reality'' then JObj (v2_reality_config ib) else JNull) in
      fold (\<lambda>(k, v). jset k v)
        ((if json_true tls \<and> tls \<noteq> JStr ''none''
          then [(''security'', tls), (py_str tls @ ''Settings'', security)] else []) @
         (if json_true net \<and> network \<noteq> [] then [(py_str net @ ''Settings'', JObj network)] else []) @
         (if dialer = [] then [] else [(''sockopt'', JObj [(''dialerProxy'', JStr dialer),
            (''tcpKeepAliveIdle'', JInt 100), (''tcpNoDelay'', JBool True)])]))
        [(''network'', net)])"

section \<open>Outbounds\<close>

definition contact :: json where
  "contact = JStr ''https://rebeccapanel.github.io/rebecca/''"

definition vnext :: "json_dict \<Rightarrow> string \<Rightarrow> json \<Rightarrow> json" where
  "vnext user address port = JObj [(''vnext'', JArr [JObj [(''address'', JStr address), (''port'', port),
     (''users'', JArr [JObj user])]])]"

definition servers :: "json_dict \<Rightarrow> string \<Rightarrow> json \<Rightarrow> json_dict \<Rightarrow> json" where
  "servers rest address port password = JObj [(''servers'', JArr [JObj ([(''address'', JStr address), (''port'', port)] @
     password @ [(''email'', contact)] @ rest)])]"

definition v2_flow :: "json_dict \<Rightarrow> settings \<Rightarrow> json" where
  "v2_flow ib st =
     (if jget ib ''network'' \<in> {JStr ''tcp'', JStr ''raw'', JStr ''kcp''} \<and> jget ib ''header_type'' \<noteq> JStr ''http'' \<and>
         jget ib ''tls'' \<in> {JStr ''tls'', JStr ''reality''}
      then json_flow st else JNull)"

definition iv_check :: "settings \<Rightarrow> json" where
  "iv_check st = (let read = (\<lambda>k. case map_of st k of None \<Rightarrow> JNull | Some v \<Rightarrow> setting_json v)
     in jor (read ''iv_check'') (jor (read ''ivCheck'') (JBool False)))"

definition v2_protocol_settings :: "json_dict \<Rightarrow> settings \<Rightarrow> string \<Rightarrow> json \<Rightarrow> json_dict result" where
  "v2_protocol_settings ib st address port =
     (let protocol = jget ib ''protocol''; entry = (\<lambda>s. [(''settings'', s)]) in
      if protocol = JStr ''vmess'' then then_res (credential st ''id'') (\<lambda>i.
        Inr (entry (vnext [(''id'', i), (''alterId'', JInt 0), (''email'', contact), (''security'', JStr ''auto'')] address port)))
      else if protocol = JStr ''vless'' then then_res (credential st ''id'') (\<lambda>i.
        Inr (entry (vnext [(''id'', i), (''encryption'', jor (jget ib ''encryption'') (JStr ''none'')), (''email'', contact),
          (''alterId'', JInt 0), (''flow'', v2_flow ib st)] address port)))
      else if protocol = JStr ''trojan'' then then_res (credential st ''password'') (\<lambda>p.
        Inr (entry (servers [] address port [(''password'', p)])))
      else if protocol = JStr ''shadowsocks'' then then_res (credential st ''password'') (\<lambda>p.
        then_res (credential st ''method'') (\<lambda>m.
        Inr (entry (servers [(''method'', m), (''uot'', JBool False), (''ivCheck'', iv_check st)] address port
          [(''password'', p)]))))
      else Inr [])"

section \<open>Fragments and noises\<close>

definition make_fragment :: "string \<Rightarrow> json result" where
  "make_fragment s = (case split_on CHR '','' s of
     [len, interval, packets] \<Rightarrow> Inr (JObj [(''packets'', JStr packets), (''length'', JStr len), (''interval'', JStr interval)])
   | _ \<Rightarrow> Inl (Value_error ''not enough values to unpack''))"

definition make_noises :: "string \<Rightarrow> json list" where
  "make_noises s = List.map_filter (\<lambda>n. case split_on CHR '','' n of
     [tp, delay] \<Rightarrow> (case split_on CHR '':'' tp of
       [kind, packet] \<Rightarrow> Some (JObj [(''type'', JStr kind), (''packet'', JStr packet), (''delay'', JStr delay)])
     | _ \<Rightarrow> None)
   | _ \<Rightarrow> None) (split_on CHR ''&'' s)"

definition make_dialer_outbound :: "json \<Rightarrow> json \<Rightarrow> json_dict list result" where
  "make_dialer_outbound fragment noise =
     then_res (case fragment of JStr s \<Rightarrow> if s = [] then Inr [] else map_sum id (\<lambda>f. [(''fragment'', f)]) (make_fragment s)
       | v \<Rightarrow> if json_true v then Inl Attribute_error else Inr []) (\<lambda>fs.
     then_res (case noise of JStr s \<Rightarrow> Inr (if s = [] then [] else [(''noises'', JArr (make_noises s))])
       | v \<Rightarrow> if json_true v then Inl Attribute_error else Inr []) (\<lambda>ns.
     Inr (if fs @ ns = [] then [] else [[(''tag'', JStr ''fragment''), (''protocol'', JStr ''freedom''),
       (''settings'', JObj (fs @ ns @ [(''domainStrategy'', JStr ''AsIs'')])),
       (''streamSettings'', JObj [(''sockopt'', JObj [(''tcpKeepAliveIdle'', JInt 100), (''tcpNoDelay'', JBool True)])])]])))"

section \<open>The document\<close>

text \<open>A configuration that holds the entry \<open>httpSettings\<close> of the template itself is marked.\<close>

record v2_document =
  vd_settings :: json_dict
  vd_configs :: "(bool \<times> json_dict) list"

definition new_v2_document :: "templates \<Rightarrow> v2_document" where
  "new_v2_document tp = \<lparr>vd_settings = tp_v2ray_settings tp, vd_configs = []\<rparr>"

definition shares_http :: "json_dict \<Rightarrow> json_dict \<Rightarrow> bool" where
  "shares_http st ib \<longleftrightarrow> jget ib ''network'' = JStr ''http'' \<and> map_of st ''httpSettings'' \<noteq> None"

definition client_path :: "json_dict \<Rightarrow> string result" where
  "client_path ib = (case jget ib ''path'' of
     JStr p \<Rightarrow> if jget ib ''network'' \<in> {JStr ''grpc'', JStr ''gun''}
       then (if json_true (jget_or ib ''multiMode'' (JBool False)) then get_grpc_multi p else Inr (get_grpc_gun p))
       else Inr p
   | _ \<Rightarrow> Inl Attribute_error)"

definition v2_add_config :: "templates \<Rightarrow> string \<Rightarrow> json_dict list \<Rightarrow> json_dict result" where
  "v2_add_config tp remark outbounds =
     then_res (jkey (tp_v2ray tp) ''outbounds'') (\<lambda>rest. case rest of
       JArr os \<Rightarrow> Inr (jset ''outbounds'' (JArr (map JObj outbounds @ os)) (jset ''remarks'' (JStr remark) (tp_v2ray tp)))
     | _ \<Rightarrow> Inl Type_error)"

definition v2_mux :: "templates \<Rightarrow> json_dict \<Rightarrow> json_dict \<Rightarrow> json_dict result" where
  "v2_mux tp ib outbound =
     then_res (jkey (tp_mux tp) ''v2ray'') (\<lambda>mux.
       if json_true (jget ib ''mux_enable'')
       then (case mux of JObj kvs \<Rightarrow> Inr (jset ''mux'' (JObj (jset ''enabled'' (JBool True) kvs)) outbound) | _ \<Rightarrow> Inl Type_error)
       else Inr outbound)"

definition v2_outbounds :: "templates \<Rightarrow> json_dict \<Rightarrow> nat \<times> nat \<Rightarrow> string \<Rightarrow> json_dict \<Rightarrow> settings \<Rightarrow>
    (json_dict list \<times> json_dict) result" where
  "v2_outbounds tp template r address ib st =
     then_res (one_port (fst r) (jget ib ''port'')) (\<lambda>port.
     then_res (client_path ib) (\<lambda>path.
     then_res (v2_protocol_settings ib st address port) (\<lambda>proto.
     then_res (make_dialer_outbound (jget ib ''fragment_setting'') (jget ib ''noise_setting'')) (\<lambda>dialer.
     then_res (alpn_list ib) (\<lambda>alpn.
     then_res (v2_network_config tp template (snd r) path ib) (\<lambda>network.
     then_res (v2_mux tp ib ([(''tag'', JStr ''proxy''), (''protocol'', jget ib ''protocol'')] @ proto @
         [(''streamSettings'', JObj (v2_stream_setting ib network alpn (if dialer = [] then [] else ''fragment'')))])) (\<lambda>out.
       Inr (out # dialer, network))))))))"

definition v2_add :: "templates \<Rightarrow> nat \<times> nat \<Rightarrow> string \<Rightarrow> string \<Rightarrow> json_dict \<Rightarrow> settings \<Rightarrow> v2_document \<Rightarrow> v2_document result" where
  "v2_add tp r remark address ib st doc =
     then_res (v2_outbounds tp (vd_settings doc) r address ib st) (\<lambda>(outbounds, network).
     then_res (v2_add_config tp remark outbounds) (\<lambda>config.
       let shared = shares_http (vd_settings doc) ib in
       Inr \<lparr>vd_settings = jset_if shared ''httpSettings'' (JObj network) (vd_settings doc),
         vd_configs = vd_configs doc @ [(shared, config)]\<rparr>))"

text \<open>At the end a marked configuration shows what the shared entry has become.\<close>

definition put_shared :: "json \<Rightarrow> json_dict \<Rightarrow> json_dict" where
  "put_shared v config = (case jget config ''outbounds'' of
     JArr (JObj out # rest) \<Rightarrow> (case jget out ''streamSettings'' of
       JObj ss \<Rightarrow> jset ''outbounds'' (JArr (JObj (jset ''streamSettings'' (JObj (jset ''httpSettings'' v ss)) out) # rest)) config
     | _ \<Rightarrow> config)
   | _ \<Rightarrow> config)"

definition v2_configs :: "v2_document \<Rightarrow> json_dict list" where
  "v2_configs doc = map (\<lambda>(shared, c). if shared then put_shared (jget (vd_settings doc) ''httpSettings'') c else c)
     (vd_configs doc)"

text \<open>\<open>json.dumps\<close> with an indentation.\<close>

definition line :: "nat \<Rightarrow> nat \<Rightarrow> string" where
  "line step depth = CHR 0x0A # replicate (step * depth) CHR '' ''"

definition boxed :: "nat \<Rightarrow> nat \<Rightarrow> string \<Rightarrow> string \<Rightarrow> string list \<Rightarrow> string" where
  "boxed step depth l r xs =
     (if xs = [] then l @ r else l @ line step (Suc depth) @ joined ('','' @ line step (Suc depth)) xs @ line step depth @ r)"

fun dumps_indented :: "nat \<Rightarrow> nat \<Rightarrow> json \<Rightarrow> string" where
  "dumps_indented step depth (JArr xs) = boxed step depth ''['' '']'' (map (dumps_indented step (Suc depth)) xs)"
| "dumps_indented step depth (JObj kvs) = boxed step depth ''{'' ''}''
     (map (\<lambda>(k, v). dumped_text k @ '': '' @ dumps_indented step (Suc depth) v) kvs)"
| "dumps_indented step depth v = json_dumps False v"

definition v2_render :: "bool \<Rightarrow> v2_document \<Rightarrow> string" where
  "v2_render reverse doc = dumps_indented 4 0 (JArr (map JObj (if reverse then rev (v2_configs doc) else v2_configs doc)))"

end
