(* ===== verification/ClientDocuments.thy ===== *)
theory ClientDocuments
  imports JsonDocument
begin

text \<open>
  The documents for the clients sing-box, Clash, Clash Meta and Outline: \<open>app/subscription/singbox.py\<close>,
  \<open>clash.py\<close> and \<open>outline.py\<close>. The template of Clash is a function of the proxies and their names.
\<close>

section \<open>Names and early data\<close>

text \<open>
  \<open>_remark_validation\<close>: a remark that is taken gets a number behind it. The loop has no bound in the
  code, so it is a function that may have no value.
\<close>

definition numbered :: "string \<Rightarrow> nat \<Rightarrow> string" where
  "numbered remark c = remark @ '' ('' @ nat_text c @ '')''"

partial_function (option) next_remark :: "string list \<Rightarrow> string \<Rightarrow> nat \<Rightarrow> string option" where
  "next_remark taken remark c =
     (if numbered remark c \<notin> set taken then Some (numbered remark c) else next_remark taken remark (Suc c))"

declare next_remark.simps [code]

definition remark_validation :: "string list \<Rightarrow> string \<Rightarrow> string option" where
  "remark_validation taken remark = (if remark \<notin> set taken then Some remark else next_remark taken remark 2)"

fun cut_text :: "string \<Rightarrow> string \<Rightarrow> (string \<times> string) option" where
  "cut_text sep [] = (if sep = [] then Some ([], []) else None)"
| "cut_text sep (c # s) = (if starts_with sep (c # s) then Some ([], drop (length sep) (c # s))
     else map_option (\<lambda>(a, b). (c # a, b)) (cut_text sep s))"

definition early_data :: "string \<Rightarrow> (string \<times> int option) result" where
  "early_data path = (case cut_text ''?ed='' path of
     None \<Rightarrow> Inr (path, None)
   | Some (p, n) \<Rightarrow>
       (if cut_text ''?ed='' n \<noteq> None \<or> CHR ''/'' \<in> set n then Inl (Value_error ''too many values to unpack'')
        else case py_int n of None \<Rightarrow> Inl (Value_error ''invalid literal for int()'') | Some i \<Rightarrow> Inr (p, Some i)))"

definition early_header :: json where
  "early_header = JStr ''Sec-WebSocket-Protocol''"

section \<open>sing-box\<close>

definition sb_tls_config :: "json_dict \<Rightarrow> json \<Rightarrow> json_dict" where
  "sb_tls_config ib alpn =
     (let tls = jget ib ''tls''; entry = (\<lambda>k name. if json_true (jget ib k) then [(name, jget ib k)] else []) in
      [(''enabled'', JBool True)] @
      (if jget ib ''sni'' = JNull then [] else [(''server_name'', jget ib ''sni'')]) @
      (if tls = JStr ''tls'' then entry ''ais'' ''insecure'' else []) @
      (if tls = JStr ''reality''
       then [(''reality'', JObj ([(''enabled'', JBool True)] @ entry ''pbk'' ''public_key'' @ entry ''sid'' ''short_id''))] else []) @
      (if json_true (jget ib ''fp'')
       then [(''utls'', JObj [(''enabled'', JBool True), (''fingerprint'', jget ib ''fp'')])] else []) @
      (if json_true alpn then [(''alpn'', json_list alpn)] else []))"

definition sb_http_config :: "json_dict \<Rightarrow> json list \<Rightarrow> nat \<Rightarrow> string \<Rightarrow> json_dict \<Rightarrow> json_dict result" where
  "sb_http_config st agents r path ib =
     (let host = jget ib ''host'' in
      then_res (template_entry st ''httpSettings'' [(''idle_timeout'', JStr ''15s''), (''ping_timeout'', JStr ''15s''),
          (''method'', JStr ''GET''), (''headers'', JObj [])]) (edits
        [default_to ''headers'' (JObj []), assign ''host'' (JArr []), only (path \<noteq> []) (assign ''path'' (JStr path)),
         only (json_true host) (assign ''host'' (JArr [host])),
         only (wants_agent ib) (with_choice r agents (\<lambda>a. edit_in ''headers'' (assign ''User-Agent'' a)))]))"

definition sb_ws_config :: "json_dict \<Rightarrow> json list \<Rightarrow> nat \<Rightarrow> string \<Rightarrow> int option \<Rightarrow> json_dict \<Rightarrow> json_dict result" where
  "sb_ws_config st agents r path early ib =
     (let host = jget ib ''host'' in
      then_res (template_entry st ''wsSettings'' [(''headers'', JObj [])]) (edits
        ([default_to ''headers'' (JObj []), only (path \<noteq> []) (assign ''path'' (JStr path)),
          only (json_true host) (edit_in ''headers'' (assign ''Host'' host)),
          only (wants_agent ib) (with_choice r agents (\<lambda>a. edit_in ''headers'' (assign ''User-Agent'' a)))] @
         (case early of None \<Rightarrow> []
          | Some n \<Rightarrow> [assign ''max_early_data'' (JInt n), assign ''early_data_header_name'' early_header]))))"

definition sb_grpc_config :: "json_dict \<Rightarrow> string \<Rightarrow> json_dict result" where
  "sb_grpc_config st path =
     then_res (template_entry st ''grpcSettings'' []) (only (path \<noteq> []) (assign ''service_name'' (JStr path)))"

definition sb_httpupgrade_config :: "json_dict \<Rightarrow> json list \<Rightarrow> nat \<Rightarrow> string \<Rightarrow> json_dict \<Rightarrow> json_dict result" where
  "sb_httpupgrade_config st agents r path ib =
     then_res (template_entry st ''httpupgradeSettings'' [(''headers'', JObj [])]) (edits
       [default_to ''headers'' (JObj []), assign ''host'' (jget ib ''host''), only (path \<noteq> []) (assign ''path'' (JStr path)),
        only (wants_agent ib) (with_choice r agents (\<lambda>a. edit_in ''headers'' (assign ''User-Agent'' a)))])"

definition sb_transport_config :: "templates \<Rightarrow> nat \<Rightarrow> string \<Rightarrow> string \<Rightarrow> int option \<Rightarrow> json_dict \<Rightarrow> json_dict result" where
  "sb_transport_config tp r net path early ib =
     (let st = tp_singbox_settings tp; agents = agent_list (tp_agents tp) in
      then_res (if net = ''http'' then sb_http_config st agents r path ib
          else if net = ''ws'' then sb_ws_config st agents r path early ib
          else if net = ''grpc'' then sb_grpc_config st path
          else if net = ''httpupgrade'' then sb_httpupgrade_config st agents r path ib
          else Inr []) (assign ''type'' (JStr net)))"

text \<open>The network and the ALPN that sing-box gets; the condition on TLS of the flow holds always.\<close>

definition sb_network :: "json_dict \<Rightarrow> json \<Rightarrow> json \<times> json" where
  "sb_network ib alpn =
     (let net = jget ib ''network'' in
      if net = JStr ''h2'' then (JStr ''http'', JStr ''h2'')
      else if net = JStr ''h3'' then (JStr ''http'', JStr ''h3'')
      else if net \<in> {JStr ''tcp'', JStr ''raw''} \<and> jget ib ''header_type'' = JStr ''http'' then (JStr ''http'', alpn)
      else (net, alpn))"

definition sb_flow :: "json_dict \<Rightarrow> settings \<Rightarrow> json_dict" where
  "sb_flow ib st =
     (let fl = json_flow st; tls = jget ib ''tls'' in
      if jget ib ''network'' \<in> {JStr ''tcp'', JStr ''raw'', JStr ''kcp''} \<and> jget ib ''header_type'' \<noteq> JStr ''http'' \<and>
         (json_true tls \<or> tls \<noteq> JStr ''none'') \<and> json_true fl
      then [(''flow'', fl)] else [])"

definition sb_multiplex :: "templates \<Rightarrow> json_dict \<Rightarrow> json result" where
  "sb_multiplex tp ib = then_res (jkey (tp_mux tp) ''sing-box'') (\<lambda>mux. case mux of
     JObj kvs \<Rightarrow> then_res (jkey kvs ''enabled'') (\<lambda>e.
       Inr (JObj (jset_if (json_true e) ''enabled'' (jget_or ib ''mux_enable'' (JBool False)) kvs)))
   | _ \<Rightarrow> Inl Type_error)"

definition sb_make_outbound :: "templates \<Rightarrow> nat \<times> nat \<Rightarrow> string \<Rightarrow> string \<Rightarrow> string \<Rightarrow> json_dict \<Rightarrow> settings \<Rightarrow>
    json_dict result" where
  "sb_make_outbound tp r remark address path ib st =
     then_res (alpn_list ib) (\<lambda>alpn0.
     then_res (one_port (fst r) (jget ib ''port'')) (\<lambda>port.
       let (net, alpn) = sb_network ib alpn0; tls = jget ib ''tls'' in
     then_res (case net of
         JStr n \<Rightarrow> if n \<in> {''http'', ''ws'', ''quic'', ''grpc'', ''httpupgrade''}
           then then_res (early_data path) (\<lambda>(p, early).
             map_sum id (\<lambda>t. [(''transport'', JObj t)]) (sb_transport_config tp (snd r) n p early ib))
           else Inr []
       | _ \<Rightarrow> Inr []) (\<lambda>transport.
     then_res (sb_multiplex tp ib) (\<lambda>mux.
       Inr ([(''type'', jget ib ''protocol''), (''tag'', JStr remark), (''server'', JStr address), (''server_port'', port)] @
         sb_flow ib st @ transport @
         (if tls \<in> {JStr ''tls'', JStr ''reality''} then [(''tls'', JObj (sb_tls_config ib alpn))] else []) @
         [(''multiplex'', mux)])))))"

definition client_credentials :: "json_dict \<Rightarrow> settings \<Rightarrow> string \<Rightarrow> json_dict result" where
  "client_credentials ib st method_key =
     (let protocol = jget ib ''protocol'' in
      if protocol \<in> {JStr ''vmess'', JStr ''vless''} then map_sum id (\<lambda>i. [(''uuid'', i)]) (credential st ''id'')
      else if protocol = JStr ''trojan'' then map_sum id (\<lambda>p. [(''password'', p)]) (credential st ''password'')
      else if protocol = JStr ''shadowsocks'' then then_res (credential st ''password'') (\<lambda>p.
        map_sum id (\<lambda>m. [(''password'', p), (method_key, m)]) (credential st ''method''))
      else Inr [])"

record sb_document =
  sd_outbounds :: "json_dict list"
  sd_remarks :: "string list"

text \<open>\<open>add\<close>; \<open>None\<close> when the numbering of the remark does not end.\<close>

definition unsupported :: "json_dict \<Rightarrow> bool" where
  "unsupported ib \<longleftrightarrow> jget ib ''network'' \<in> {JStr ''kcp'', JStr ''splithttp'', JStr ''xhttp''}"

definition odd_quic :: "json_dict \<Rightarrow> bool" where
  "odd_quic ib \<longleftrightarrow> jget ib ''network'' = JStr ''quic'' \<and> jget ib ''header_type'' \<noteq> JStr ''none''"

definition gun_path :: "json_dict \<Rightarrow> string result" where
  "gun_path ib = (case jget ib ''path'' of
     JStr p \<Rightarrow> Inr (if jget ib ''network'' \<in> {JStr ''grpc'', JStr ''gun''} then get_grpc_gun p else p)
   | _ \<Rightarrow> Inl Attribute_error)"

definition sb_add :: "templates \<Rightarrow> nat \<times> nat \<Rightarrow> string \<Rightarrow> string \<Rightarrow> json_dict \<Rightarrow> settings \<Rightarrow> sb_document \<Rightarrow>
    sb_document result option" where
  "sb_add tp r remark0 address ib st doc =
     (if unsupported ib \<or> odd_quic ib then Some (Inr doc)
      else map_option (\<lambda>remark.
        then_res (gun_path ib) (\<lambda>path.
        then_res (sb_make_outbound tp r remark address path ib st) (\<lambda>out.
        then_res (client_credentials ib st ''method'') (\<lambda>cred.
          Inr \<lparr>sd_outbounds = sd_outbounds doc @ [out @ cred], sd_remarks = sd_remarks doc @ [remark]\<rparr>))))
        (remark_validation (sd_remarks doc) remark0))"

text \<open>\<open>render\<close>: the groups of the template get the tags of all proxies, and selectors the tests too.\<close>

definition proxy_kinds :: "json list" where
  "proxy_kinds = [JStr ''vmess'', JStr ''vless'', JStr ''trojan'', JStr ''shadowsocks'']"

definition tags_of_kinds :: "json list \<Rightarrow> json_dict list \<Rightarrow> json list result" where
  "tags_of_kinds kinds outs = map_sum id concat (map_res (\<lambda>out. then_res (jkey out ''type'') (\<lambda>t.
     if t \<in> set kinds then map_sum id (\<lambda>x. [x]) (jkey out ''tag'') else Inr [])) outs)"

definition fill_groups :: "json list \<Rightarrow> json list \<Rightarrow> json_dict \<Rightarrow> json_dict" where
  "fill_groups tests selected out =
     (if jget out ''type'' = JStr ''urltest'' then jset ''outbounds'' (JArr tests) out
      else if jget out ''type'' = JStr ''selector'' then jset ''outbounds'' (JArr selected) out
      else out)"

definition sb_all_outbounds :: "templates \<Rightarrow> sb_document \<Rightarrow> json_dict list result" where
  "sb_all_outbounds tp doc = then_res (jkey (tp_singbox tp) ''outbounds'') (\<lambda>v. case v of
     JArr os \<Rightarrow> then_res (map_res (\<lambda>x. case x of JObj kvs \<Rightarrow> Inr kvs | _ \<Rightarrow> Inl Type_error) os) (\<lambda>base.
       let outs = base @ sd_outbounds doc in
       then_res (tags_of_kinds proxy_kinds outs) (\<lambda>tests.
       then_res (tags_of_kinds (proxy_kinds @ [JStr ''urltest'']) outs) (\<lambda>selected.
         Inr (map (fill_groups tests selected) outs))))
   | _ \<Rightarrow> Inl Type_error)"

definition sb_render :: "templates \<Rightarrow> bool \<Rightarrow> sb_document \<Rightarrow> string result" where
  "sb_render tp reverse doc = then_res (sb_all_outbounds tp doc) (\<lambda>outs.
     Inr (dumps_indented 4 0 (JObj (jset ''outbounds'' (JArr (map JObj (if reverse then rev outs else outs))) (tp_singbox tp)))))"

section \<open>Clash\<close>

definition cl_http_config :: "json_dict \<Rightarrow> json list \<Rightarrow> nat \<Rightarrow> string \<Rightarrow> json_dict \<Rightarrow> json_dict result" where
  "cl_http_config st agents r path ib =
     (let host = jget ib ''host'' in
      then_res (template_entry st ''http-opts'' [(''headers'', JObj [])]) (edits
        [only (path \<noteq> []) (assign ''path'' (JArr [JStr path])), only (json_true host) (assign ''Host'' host),
         only (wants_agent ib) (default_to ''headers'' (JObj [])),
         only (wants_agent ib) (with_choice r agents (\<lambda>a. edit_in ''header'' (assign ''User-Agent'' a)))]))"

definition cl_ws_config :: "json_dict \<Rightarrow> json list \<Rightarrow> nat \<Rightarrow> string \<Rightarrow> int option \<Rightarrow> bool \<Rightarrow> json_dict \<Rightarrow> json_dict result" where
  "cl_ws_config st agents r path early upgrade ib =
     (let host = jget ib ''host'' in
      then_res (template_entry st ''ws-opts'' []) (edits
        [only (json_true host \<or> wants_agent ib) (default_to ''headers'' (JObj [])),
         only (path \<noteq> []) (assign ''path'' (JStr path)),
         only (json_true host) (edit_in ''headers'' (assign ''Host'' host)),
         only (wants_agent ib) (with_choice r agents (\<lambda>a. edit_in ''headers'' (assign ''User-Agent'' a))),
         only (early \<noteq> None \<and> early \<noteq> Some 0 \<and> \<not> upgrade) (edits
           [assign ''max-early-data'' (JInt (case early of None \<Rightarrow> 0 | Some n \<Rightarrow> n)),
            assign ''early-data-header-name'' early_header]),
         only upgrade (edits [assign ''v2ray-http-upgrade'' (JBool True),
           assign ''v2ray-http-upgrade-fast-open'' (JBool True)])]))"

definition cl_grpc_config :: "json_dict \<Rightarrow> string \<Rightarrow> json_dict result" where
  "cl_grpc_config st path =
     then_res (template_entry st ''grpc-opts'' []) (only (path \<noteq> []) (assign ''grpc-service-name'' (JStr path)))"

definition cl_h2_config :: "json_dict \<Rightarrow> string \<Rightarrow> json_dict \<Rightarrow> json_dict result" where
  "cl_h2_config st path ib =
     (let host = jget ib ''host'' in
      then_res (template_entry st ''h2-opts'' []) (edits
        [only (path \<noteq> []) (assign ''path'' (JStr path)), only (json_true host) (assign ''host'' (JArr [host]))]))"

definition cl_tcp_config :: "json_dict \<Rightarrow> string \<Rightarrow> json_dict \<Rightarrow> json_dict result" where
  "cl_tcp_config st path ib =
     (let host = jget ib ''host'' in
      then_res (template_entry st ''tcp-opts'' []) (edits
        [only (path \<noteq> []) (assign ''path'' (JArr [JStr path])),
         only (json_true host) (default_to ''headers'' (JObj [])),
         only (json_true host) (edit_in ''headers'' (assign ''Host'' host))]))"

definition cl_network :: "json_dict \<Rightarrow> json" where
  "cl_network ib =
     (let net = jget ib ''network''; n = (if net \<in> {JStr ''http'', JStr ''h2'', JStr ''h3''} then JStr ''h2'' else net) in
      if n \<in> {JStr ''tcp'', JStr ''raw''} \<and> jget ib ''header_type'' = JStr ''http'' then JStr ''http''
      else if n = JStr ''httpupgrade'' then JStr ''ws'' else n)"

definition cl_options :: "templates \<Rightarrow> nat \<Rightarrow> string \<Rightarrow> int option \<Rightarrow> json_dict \<Rightarrow> json_dict result" where
  "cl_options tp r path early ib =
     (let net = cl_network ib; st = tp_clash_settings tp; agents = agent_list (tp_agents tp) in
      if net = JStr ''http'' then cl_http_config st agents r path ib
      else if net = JStr ''ws'' then cl_ws_config st agents r path early (jget ib ''network'' = JStr ''httpupgrade'') ib
      else if net \<in> {JStr ''grpc'', JStr ''gun''} then cl_grpc_config st path
      else if net = JStr ''h2'' then cl_h2_config st path ib
      else if net \<in> {JStr ''tcp'', JStr ''raw''} then cl_tcp_config st path ib
      else Inr [])"

definition cl_alpn :: "json_dict \<Rightarrow> json_dict result" where
  "cl_alpn ib = map_sum id (\<lambda>a. if json_true a then [(''alpn'', a)] else []) (alpn_list ib)"

definition cl_make_node :: "templates \<Rightarrow> nat \<Rightarrow> bool \<Rightarrow> string \<Rightarrow> string \<Rightarrow> json_dict \<Rightarrow> json_dict result" where
  "cl_make_node tp r tls remark address ib =
     then_res (gun_path ib) (\<lambda>path0.
     let protocol = jget ib ''protocol''; net = cl_network ib;
       kind = (if protocol = JStr ''shadowsocks'' then JStr ''ss'' else protocol);
       node = [(''name'', JStr remark), (''type'', kind), (''server'', JStr address), (''port'', jget ib ''port''),
         (''network'', net), (''udp'', JBool True)] in
     then_res (early_data path0) (\<lambda>(path, early).
       if kind = JStr ''ss'' then Inr node
       else
     then_res (if tls then cl_alpn ib else Inr []) (\<lambda>alpn.
     then_res (cl_options tp r path early ib) (\<lambda>options.
     then_res (jkey (tp_mux tp) ''clash'') (\<lambda>mux.
       let ais = jget_or ib ''ais'' (JBool False) in
       Inr (fold (\<lambda>(k, v). jset k v)
         ((if tls then [(''tls'', JBool True), (if kind = JStr ''trojan'' then ''sni'' else ''servername'', jget ib ''sni'')] @
             alpn @ (if json_true ais then [(''skip-cert-verify'', ais)] else []) else []) @
          [(py_str net @ ''-opts'', JObj options)] @
          (if json_true (jget ib ''mux_enable'') then [(''smux'', mux)] else [])) node))))))"

record cl_document =
  cd_proxies :: "json_dict list"
  cd_remarks :: "string list"

text \<open>The entries of the user; \<open>None\<close> for a protocol that Clash does not have.\<close>

definition cl_user :: "bool \<Rightarrow> json_dict \<Rightarrow> settings \<Rightarrow> json_dict option result" where
  "cl_user meta ib st =
     (let protocol = jget ib ''protocol'' in
      if protocol = JStr ''vmess'' then map_sum id (\<lambda>i.
        Some [(''uuid'', i), (''alterId'', JInt 0), (''cipher'', JStr ''auto'')]) (credential st ''id'')
      else if protocol = JStr ''vless'' \<and> meta then map_sum id (\<lambda>i. Some ([(''uuid'', i)] @
        (if jget ib ''network'' \<in> {JStr ''tcp'', JStr ''raw'', JStr ''kcp''} \<and> jget ib ''header_type'' \<noteq> JStr ''http'' \<and>
            jget ib ''tls'' \<noteq> JStr ''none''
         then [(''flow'', json_flow st)] else []))) (credential st ''id'')
      else if protocol = JStr ''trojan'' then map_sum id (\<lambda>p. Some [(''password'', p)]) (credential st ''password'')
      else if protocol = JStr ''shadowsocks'' then then_res (credential st ''password'') (\<lambda>p.
        map_sum id (\<lambda>m. Some [(''password'', p), (''cipher'', m)]) (credential st ''method''))
      else Inr None)"

definition cl_tls :: "bool \<Rightarrow> json_dict \<Rightarrow> bool" where
  "cl_tls meta ib = (if meta then jget ib ''tls'' \<in> {JStr ''tls'', JStr ''reality''} else jget ib ''tls'' = JStr ''tls'')"

definition meta_entries :: "bool \<Rightarrow> json_dict \<Rightarrow> json_dict" where
  "meta_entries meta ib = (if \<not> meta then [] else
     (if json_true (jget ib ''fp'') then [(''client-fingerprint'', jget ib ''fp'')] else []) @
     (if json_true (jget ib ''pbk'')
      then [(''reality-opts'', JObj [(''public-key'', jget ib ''pbk''), (''short-id'', jget_or ib ''sid'' (JStr []))])] else []))"

definition cl_add :: "templates \<Rightarrow> bool \<Rightarrow> nat \<times> nat \<Rightarrow> string \<Rightarrow> string \<Rightarrow> json_dict \<Rightarrow> settings \<Rightarrow> cl_document \<Rightarrow>
    cl_document result option" where
  "cl_add tp meta r remark0 address ib st doc =
     (if unsupported ib \<or> meta \<and> odd_quic ib then Some (Inr doc)
      else map_option (\<lambda>remark.
        then_res (cl_make_node tp (snd r) (cl_tls meta ib) remark address ib) (\<lambda>node.
        then_res (cl_user meta ib st) (\<lambda>user. case user of
          None \<Rightarrow> Inr doc
        | Some us \<Rightarrow> Inr \<lparr>cd_proxies = cd_proxies doc @
              [fold (\<lambda>(k, v). jset k v) (meta_entries meta ib @ us) node],
            cd_remarks = cd_remarks doc @ [remark]\<rparr>)))
        (remark_validation (cd_remarks doc) remark0))"

definition cl_render :: "templates \<Rightarrow> bool \<Rightarrow> cl_document \<Rightarrow> string result" where
  "cl_render tp reverse doc = tp_clash tp (if reverse then rev (cd_proxies doc) else cd_proxies doc) (cd_remarks doc)"

section \<open>Outline\<close>

text \<open>One object, which every further server replaces.\<close>

definition ol_add :: "string \<Rightarrow> string \<Rightarrow> json_dict \<Rightarrow> settings \<Rightarrow> json_dict \<Rightarrow> json_dict result" where
  "ol_add remark address ib st doc =
     (if jget ib ''protocol'' \<noteq> JStr ''shadowsocks'' then Inr doc
      else then_res (credential st ''password'') (\<lambda>p.
        map_sum id (\<lambda>m. fold (\<lambda>(k, v). jset k v) [(''method'', m), (''password'', p), (''server'', JStr address),
          (''server_port'', jget ib ''port''), (''tag'', JStr remark)] doc) (credential st ''method'')))"

definition ol_render :: "bool \<Rightarrow> json_dict \<Rightarrow> string" where
  "ol_render reverse doc = dumps_indented 0 0 (JObj (if reverse then rev doc else doc))"

end
