(* ===== verification/XrayConfig.thy ===== *)
theory XrayConfig
  imports JsonValues UserCrud
begin

text \<open>
  Defaults and migrations of the core's configuration: \<open>app/utils/xray_defaults.py\<close> and the helpers
  at the head of \<open>app/reb_node/config.py\<close>. \<open>by_name\<close> is the answer to the question whether the
  installed core is new enough for \<open>verifyPeerCertByName\<close>. \<open>merge_dicts\<close> is the recursion
  \<open>merge_dict\<close> of \<open>Permissions\<close>.
\<close>

text \<open>
  The core's configuration: \<open>XRayConfig\<close> of \<open>app/reb_node/config.py\<close>, from the parsed JSON to the
  inbounds as links and clients use them. A value of the wrong type raises what the method called on
  it raises. Parameters: the names in a certificate, from a file and from its text, and the public key
  of a Reality key; both are computed by libraries.
\<close>

section \<open>Names of the peer certificate\<close>

text \<open>Of a list, the first element whose text is not blank.\<close>

definition first_non_empty_string :: "json \<Rightarrow> string" where
  "first_non_empty_string v = (case v of
     JArr xs \<Rightarrow> (case filter (\<lambda>s. s \<noteq> []) (map (strip \<circ> py_str) xs) of [] \<Rightarrow> [] | s # _ \<Rightarrow> s)
   | JNull \<Rightarrow> []
   | _ \<Rightarrow> strip (py_str v))"

definition normalize_name_list :: "json \<Rightarrow> string list" where
  "normalize_name_list v = (case v of
     JStr s \<Rightarrow> (if strip s = [] then [] else [strip s])
   | JArr xs \<Rightarrow> filter (\<lambda>s. s \<noteq> []) (map (strip \<circ> py_str) xs)
   | _ \<Rightarrow> [])"

definition normalize_tls_verify :: "bool \<Rightarrow> json_dict \<Rightarrow> json_dict" where
  "normalize_tls_verify by_name tls =
     (let name0 = first_non_empty_string (jget tls ''verifyPeerCertByName'');
          names0 = normalize_name_list (jget tls ''verifyPeerCertInNames'');
          name = (if name0 = [] \<and> names0 \<noteq> [] then hd names0 else name0);
          names = (if names0 = [] \<and> name \<noteq> [] then [name] else names0) in
      if by_name then AList.delete ''verifyPeerCertInNames''
        (if name \<noteq> [] then jset ''verifyPeerCertByName'' (JStr name) tls
         else AList.delete ''verifyPeerCertByName'' tls)
      else AList.delete ''verifyPeerCertByName''
        (if names \<noteq> [] then jset ''verifyPeerCertInNames'' (JArr (map JStr names)) tls
         else AList.delete ''verifyPeerCertInNames'' tls))"

section \<open>The log\<close>

text \<open>\<open>int()\<close> of a text is the parameter \<open>to_int\<close>; of a truth value it is 0 or 1.\<close>

definition log_cleanup_options :: "int list" where
  "log_cleanup_options = [0, 3600, 10800, 21600, 86400]"

definition normalize_log_cleanup_interval :: "(string \<Rightarrow> int option) \<Rightarrow> json \<Rightarrow> int" where
  "normalize_log_cleanup_interval to_int v =
     (let parsed = (case v of
            JStr s \<Rightarrow> if strip s = [] then Some 0 else to_int (strip s)
          | JInt n \<Rightarrow> Some n
          | JBool b \<Rightarrow> Some (if b then 1 else 0)
          | _ \<Rightarrow> None)
      in case parsed of Some n \<Rightarrow> if n \<in> set log_cleanup_options then n else 0 | None \<Rightarrow> 0)"

definition set_absent :: "string \<Rightarrow> json \<Rightarrow> json_dict \<Rightarrow> json_dict" where
  "set_absent k v d = (if map_of d k = None then jset k v d else d)"

definition apply_log_paths :: "(string \<Rightarrow> int option) \<Rightarrow> json_dict \<Rightarrow> json_dict" where
  "apply_log_paths to_int cfg =
     (let log0 = dict_or_empty (jget cfg ''log'');
          log1 = set_absent ''error'' (JStr []) (set_absent ''access'' (JStr []) log0);
          interval = (\<lambda>k l. jset k (JInt (normalize_log_cleanup_interval to_int (jget l k))) l)
      in jset ''log'' (JObj (interval ''errorCleanupInterval'' (interval ''accessCleanupInterval'' log1))) cfg)"

section \<open>Certificates\<close>

text \<open>\<open>_normalize_certificate_fields\<close> renames in place; the new key is the last.\<close>

definition rename_key :: "string list \<Rightarrow> string \<Rightarrow> json_dict \<Rightarrow> json_dict" where
  "rename_key olds new d =
     (if map_of d new \<noteq> None then d
      else case filter (\<lambda>k. map_of d k \<noteq> None) olds of
        [] \<Rightarrow> d
      | k # _ \<Rightarrow> AList.delete k d @ [(new, jget d k)])"

definition normalize_certificate_fields :: "json_dict \<Rightarrow> json_dict" where
  "normalize_certificate_fields c =
     rename_key [''keyfile''] ''keyFile'' (rename_key [''certFile'', ''certfile''] ''certificateFile'' c)"

section \<open>Versions\<close>

text \<open>Versions are compared part by part after padding with zeros; \<open>to_int\<close> is \<open>int()\<close> of a part.\<close>

fun parts_at_least :: "int list \<Rightarrow> int list \<Rightarrow> bool" where
  "parts_at_least [] [] = True"
| "parts_at_least [] (b # bs) = (0 > b \<or> b = 0 \<and> parts_at_least [] bs)"
| "parts_at_least (a # as) [] = (a > 0 \<or> a = 0 \<and> parts_at_least as [])"
| "parts_at_least (a # as) (b # bs) = (a > b \<or> a = b \<and> parts_at_least as bs)"

fun parsed_parts :: "(string \<Rightarrow> int option) \<Rightarrow> string list \<Rightarrow> int list option" where
  "parsed_parts to_int [] = Some []"
| "parsed_parts to_int (x # xs) = (case (to_int x, parsed_parts to_int xs) of
     (Some n, Some ns) \<Rightarrow> Some (n # ns) | _ \<Rightarrow> None)"

definition is_xray_version_at_least :: "(string \<Rightarrow> int option) \<Rightarrow> string option \<Rightarrow> string \<Rightarrow> bool" where
  "is_xray_version_at_least to_int current target =
     (case str_or_none current of None \<Rightarrow> True | Some cur \<Rightarrow>
       if target = [] then True
       else case (parsed_parts to_int (split_on CHR ''.'' cur), parsed_parts to_int (split_on CHR ''.'' target)) of
         (Some c, Some t) \<Rightarrow> parts_at_least c t | _ \<Rightarrow> True)"

section \<open>Lemmas\<close>

lemma strip_strip [simp]: "strip (strip s) = strip s"
proof -
  have d: "dropWhile P (dropWhile P xs) = dropWhile P xs" for P :: "char \<Rightarrow> bool" and xs
    by (induction xs) simp_all
  have idem: "dropWhile is_space (rev (dropWhile is_space (rev xs))) = rev (dropWhile is_space (rev xs))"
    if "dropWhile is_space xs = xs" for xs
  proof (cases "rev (dropWhile is_space (rev xs))")
    case (Cons y ys)
    have "rev (dropWhile is_space (rev xs)) @ rev (takeWhile is_space (rev xs)) = xs"
      by (metis rev_append rev_rev_ident takeWhile_dropWhile_id)
    then have "xs = y # ys @ rev (takeWhile is_space (rev xs))" using Cons by simp
    then have "\<not> is_space y" using that by (metis dropWhile.simps(2) dropWhile_eq_self_iff hd_Cons_tl list.sel(1) list.simps(3))
    then show ?thesis using Cons by simp
  next
    case Nil
    then show ?thesis by (simp only: dropWhile.simps)
  qed
  have "dropWhile is_space (dropWhile is_space s) = dropWhile is_space s" by (rule d)
  from idem [OF this] show ?thesis unfolding strip_def by (simp add: d)
qed

lemma strip_Nil [simp]: "strip [] = []"
  by (simp add: strip_def)

lemma name_list_stripped: "s \<in> set (normalize_name_list v) \<Longrightarrow> strip s = s \<and> s \<noteq> []"
  by (auto simp: normalize_name_list_def split: json.splits if_splits)

lemma first_name_stripped: "strip (first_non_empty_string v) = first_non_empty_string v"
proof (cases v)
  case (JArr xs)
  show ?thesis
  proof (cases "filter (\<lambda>s. s \<noteq> []) (map (strip \<circ> py_str) xs)")
    case (Cons s ss)
    then have "s \<in> set (map (strip \<circ> py_str) xs)" by (metis filter_is_subset list.set_intros(1) subsetD)
    then have "strip s = s" by auto
    then show ?thesis using JArr Cons by (simp only: first_non_empty_string_def json.case list.case)
  qed (simp only: JArr first_non_empty_string_def json.case list.case strip_Nil)
qed (simp_all only: first_non_empty_string_def json.case strip_strip strip_Nil)

lemma names_of_texts:
  assumes "\<And>s. s \<in> set xs \<Longrightarrow> strip s = s \<and> s \<noteq> []"
  shows "normalize_name_list (JArr (map JStr xs)) = xs"
  using assms by (induction xs) (auto simp: normalize_name_list_def py_str_def)

lemma normalized_by_name:
  assumes "map_of t ''verifyPeerCertInNames'' = None" and "strip n = n"
    and "map_of t ''verifyPeerCertByName'' = (if n \<noteq> [] then Some (JStr n) else None)"
  shows "normalize_tls_verify True t = t"
  using assms by (simp add: normalize_tls_verify_def jget_def first_non_empty_string_def normalize_name_list_def
      py_str_def update_same delete_absent split: if_splits)

lemma normalized_in_names:
  assumes "map_of t ''verifyPeerCertByName'' = None" and "\<And>s. s \<in> set xs \<Longrightarrow> strip s = s \<and> s \<noteq> []"
    and "map_of t ''verifyPeerCertInNames'' = (if xs \<noteq> [] then Some (JArr (map JStr xs)) else None)"
  shows "normalize_tls_verify False t = t"
proof -
  have "normalize_name_list (jget t ''verifyPeerCertInNames'') = xs"
    using names_of_texts [OF assms(2)] assms(3) by (simp add: jget_def normalize_name_list_def)
  moreover have "first_non_empty_string (jget t ''verifyPeerCertByName'') = []"
    using assms(1) by (simp add: jget_def first_non_empty_string_def)
  ultimately show ?thesis using assms(1,3)
    by (simp add: normalize_tls_verify_def update_same delete_absent split: if_splits)
qed

text \<open>Normalising twice is normalising once.\<close>

lemma normalize_tls_verify_idem: "normalize_tls_verify b (normalize_tls_verify b tls) = normalize_tls_verify b tls"
proof -
  obtain l f where l: "normalize_name_list (jget tls ''verifyPeerCertInNames'') = l"
    and f: "first_non_empty_string (jget tls ''verifyPeerCertByName'') = f" by blast
  define n where "n = (if f = [] \<and> l \<noteq> [] then hd l else f)"
  define xs where "xs = (if l = [] \<and> n \<noteq> [] then [n] else l)"
  have l_ok: "s \<in> set l \<Longrightarrow> strip s = s \<and> s \<noteq> []" for s using name_list_stripped l by blast
  have "strip f = f" using first_name_stripped f by blast
  then have n: "strip n = n" using l_ok [of "hd l"] by (simp add: n_def)
  have xs: "s \<in> set xs \<Longrightarrow> strip s = s \<and> s \<noteq> []" for s using l_ok n by (auto simp: xs_def split: if_splits)
  have eq: "normalize_tls_verify b tls = (if b then AList.delete ''verifyPeerCertInNames''
        (if n \<noteq> [] then jset ''verifyPeerCertByName'' (JStr n) tls else AList.delete ''verifyPeerCertByName'' tls)
      else AList.delete ''verifyPeerCertByName''
        (if xs \<noteq> [] then jset ''verifyPeerCertInNames'' (JArr (map JStr xs)) tls
         else AList.delete ''verifyPeerCertInNames'' tls))"
    unfolding normalize_tls_verify_def Let_def l f by (simp only: n_def [symmetric] xs_def [symmetric])
  show ?thesis
  proof (cases b)
    case True
    have "normalize_tls_verify True (normalize_tls_verify b tls) = normalize_tls_verify b tls"
      by (rule normalized_by_name [OF _ n]) (simp_all only: eq, simp_all add: True delete_conv update_conv)
    then show ?thesis using True by simp
  next
    case False
    have "normalize_tls_verify False (normalize_tls_verify b tls) = normalize_tls_verify b tls"
      by (rule normalized_in_names [OF _ xs]) (simp_all only: eq, simp_all add: False delete_conv update_conv)
    then show ?thesis using False by simp
  qed
qed

definition iterated :: "json \<Rightarrow> json list result" where
  "iterated v = (case v of
     JArr xs \<Rightarrow> Inr xs
   | JObj kvs \<Rightarrow> Inr (map (JStr \<circ> fst) kvs)
   | JStr s \<Rightarrow> Inr (map (\<lambda>c. JStr [c]) s)
   | _ \<Rightarrow> Inl Type_error)"

definition each_res :: "('a \<Rightarrow> unit result) \<Rightarrow> 'a list \<Rightarrow> unit result" where
  "each_res f xs = fold_res (\<lambda>x _. f x) xs ()"

section \<open>Validation\<close>

definition inbound_tag_ok :: "json \<Rightarrow> unit result" where
  "inbound_tag_ok v = then_res (as_dict v) (\<lambda>d.
     if \<not> json_true (jget d ''tag'') then Inl (Value_error ''all inbounds must have a unique tag'')
     else then_res (text_in '','' (jget d ''tag'')) (\<lambda>b.
       if b then Inl (Value_error (''character '' @ [CHR 0xC2, CHR 0xAB, CHR '','', CHR 0xC2, CHR 0xBB] @
         '' is not allowed in inbound tag'')) else Inr ()))"

definition outbound_tag_ok :: "json \<Rightarrow> unit result" where
  "outbound_tag_ok v = then_res (as_dict v) (\<lambda>d.
     if \<not> json_true (jget d ''tag'') then Inl (Value_error ''all outbounds must have a unique tag'') else Inr ())"

definition validate_config :: "json_dict \<Rightarrow> unit result" where
  "validate_config cfg =
     (if \<not> json_true (jget cfg ''inbounds'') then Inl (Value_error ''config doesn't have inbounds'')
      else if \<not> json_true (jget cfg ''outbounds'') then Inl (Value_error ''config doesn't have outbounds'')
      else then_res (iterated (jget cfg ''inbounds'')) (\<lambda>ins.
           then_res (each_res inbound_tag_ok ins) (\<lambda>_.
           then_res (iterated (jget cfg ''outbounds'')) (\<lambda>outs. each_res outbound_tag_ok outs))))"

section \<open>Deprecated settings\<close>

definition migrate_ws :: "json_dict \<Rightarrow> json_dict result" where
  "migrate_ws s = (let ws = jget_or s ''wsSettings'' (JObj []) in
     if \<not> json_true ws then Inr s
     else then_res (as_dict ws) (\<lambda>w. let headers = jget_or w ''headers'' (JObj []) in
       if \<not> json_true headers then Inr s
       else then_res (text_in ''Host'' headers) (\<lambda>b.
         if \<not> b then Inr s
         else case headers of
           JObj hs \<Rightarrow>
             (let w1 = (if json_true (jget w ''host'') then w else jset ''host'' (jget hs ''Host'') w);
                  hs' = AList.delete ''Host'' hs;
                  w2 = (if hs' = [] then AList.delete ''headers'' w1 else jset ''headers'' (JObj hs') w1)
              in Inr (jset ''wsSettings'' (JObj w2) s))
         | _ \<Rightarrow> Inl Type_error)))"

definition migrate_tcp :: "json_dict \<Rightarrow> json_dict result" where
  "migrate_tcp s = (let tcp = jget_or s ''tcpSettings'' (JObj []) in
     if \<not> json_true tcp then Inr s
     else then_res (as_dict tcp) (\<lambda>t. let header = jget_or t ''header'' (JObj []) in
       if \<not> json_true header then Inr s
       else then_res (as_dict header) (\<lambda>h.
         let request = (if jget h ''type'' = JStr ''http'' then jget_or h ''request'' (JObj []) else JNull) in
         if \<not> json_true request then Inr s
         else then_res (as_dict request) (\<lambda>r. let headers = jget_or r ''headers'' (JObj []) in
           if \<not> json_true headers then Inr s
           else then_res (text_in ''Host'' headers) (\<lambda>b.
             if \<not> b then Inr s
             else case headers of
               JObj hs \<Rightarrow> (case jget hs ''Host'' of
                  JStr x \<Rightarrow> Inr (jset ''tcpSettings'' (JObj (jset ''header'' (JObj (jset ''request''
                    (JObj (jset ''headers'' (JObj (jset ''Host'' (JArr [JStr x]) hs)) r)) h)) t)) s)
                | _ \<Rightarrow> Inr s)
             | _ \<Rightarrow> Inl Type_error)))))"

definition migrate_tls :: "bool \<Rightarrow> json_dict \<Rightarrow> json_dict" where
  "migrate_tls by_name s = (case jget s ''tlsSettings'' of
     JObj tls \<Rightarrow> jset ''tlsSettings'' (JObj (normalize_tls_verify by_name tls)) s | _ \<Rightarrow> s)"

definition migrate_stream :: "bool \<Rightarrow> json \<Rightarrow> json result" where
  "migrate_stream by_name stream =
     (if \<not> json_true stream then Inr stream
      else then_res (as_dict stream) (\<lambda>s.
           then_res (if jget s ''network'' = JStr ''ws'' then migrate_ws s
              else if jget s ''network'' \<in> {JStr ''tcp'', JStr ''raw''} then migrate_tcp s else Inr s) (\<lambda>s'.
           Inr (JObj (migrate_tls by_name s')))))"

definition migrate_bound :: "bool \<Rightarrow> json \<Rightarrow> json result" where
  "migrate_bound by_name v = then_res (as_dict v) (\<lambda>d.
     case map_of d ''streamSettings'' of
       None \<Rightarrow> Inr (JObj d)
     | Some st \<Rightarrow> then_res (migrate_stream by_name st) (\<lambda>st'. Inr (JObj (jset ''streamSettings'' st' d))))"

definition migrate_list :: "bool \<Rightarrow> string \<Rightarrow> json_dict \<Rightarrow> json_dict result" where
  "migrate_list by_name k cfg = (case map_of cfg k of
     None \<Rightarrow> Inr cfg
   | Some (JArr xs) \<Rightarrow> then_res (map_res (migrate_bound by_name) xs) (\<lambda>ys. Inr (jset k (JArr ys) cfg))
   | Some v \<Rightarrow> then_res (iterated v) (\<lambda>xs. if xs = [] then Inr cfg else Inl Attribute_error))"

definition migrate_deprecated_configs :: "bool \<Rightarrow> json_dict \<Rightarrow> json_dict result" where
  "migrate_deprecated_configs by_name cfg =
     then_res (migrate_list by_name ''inbounds'' cfg) (\<lambda>cfg'. migrate_list by_name ''outbounds'' cfg')"

section \<open>Security settings of an inbound\<close>

text \<open>What the certificates of a stream say about names.\<close>

record cert_names =
  names_in_file :: "string \<Rightarrow> string list result"
  names_in_text :: "string \<Rightarrow> string list result"

definition text_of_lines :: "json list \<Rightarrow> string result" where
  "text_of_lines xs = then_res (map_res (\<lambda>v. case v of JStr s \<Rightarrow> Inr s | _ \<Rightarrow> Inl Type_error) xs)
     (\<lambda>ls. Inr (joined [CHR 0x0A] ls))"

definition certificate_names :: "cert_names \<Rightarrow> json \<Rightarrow> string list result" where
  "certificate_names cn v = (case v of
     JObj c0 \<Rightarrow>
       (let c = normalize_certificate_fields c0 in
        then_res (case jget c ''certificateFile'' of
            JStr p \<Rightarrow> if strip p = [] then Inr [] else names_in_file cn p | _ \<Rightarrow> Inr []) (\<lambda>ns.
        then_res (if \<not> json_true (jget c ''certificate'') then Inr []
          else case jget c ''certificate'' of
            JArr xs \<Rightarrow> then_res (text_of_lines xs) (names_in_text cn)
          | JStr s \<Rightarrow> names_in_text cn s
          | _ \<Rightarrow> Inl Type_error) (\<lambda>ms. Inr (ns @ ms))))
   | _ \<Rightarrow> Inr [])"

definition tls_of_inbound :: "cert_names \<Rightarrow> json_dict \<Rightarrow> json_dict \<Rightarrow> json_dict \<Rightarrow> json_dict result" where
  "tls_of_inbound cn tls meta st0 =
     (let fp = jor (jget meta ''fingerprint'') (jget tls ''fingerprint'');
          ai = (if jget meta ''allowInsecure'' = JNull then jget tls ''allowInsecure'' else jget meta ''allowInsecure'');
          alpn = (case jget tls ''alpn'' of
             JArr xs \<Rightarrow> strip (joined '','' (map py_str (filter json_true xs)))
           | JStr s \<Rightarrow> strip s | _ \<Rightarrow> []);
          st1 = jset_if (json_true fp) ''fp'' fp (jset ''tls'' (JStr ''tls'') st0);
          st2 = jset_if (ai \<noteq> JNull) ''allowinsecure'' (JBool (json_true ai))
                 (jset_if (ai \<noteq> JNull) ''ais'' (JBool (json_true ai)) st1);
          st3 = jset_if (alpn \<noteq> []) ''alpn'' (JStr alpn) st2
      in then_res (iterated (jget_or tls ''certificates'' (JArr []))) (\<lambda>cs.
         then_res (map_res (certificate_names cn) cs) (\<lambda>nss.
           (let names = concat nss in
            if names \<noteq> [] then Inr (jset ''sni'' (JArr (map JStr names)) st3)
            else Inr (case jor (jget tls ''serverName'') (jget tls ''sni'') of
              JStr s \<Rightarrow> jset_if (strip s \<noteq> []) ''sni'' (JArr [JStr (strip s)]) st3 | _ \<Rightarrow> st3)))))"

definition reality_public_key :: "(string \<Rightarrow> string result) \<Rightarrow> json \<Rightarrow> json_dict \<Rightarrow> json_dict \<Rightarrow> json result" where
  "reality_public_key pubkey tag tls meta =
     (if json_true (jget meta ''publicKey'') then Inr (jget meta ''publicKey'')
      else case map_of tls ''publicKey'' of
        Some v \<Rightarrow> Inr v
      | None \<Rightarrow>
         if \<not> json_true (jget tls ''privateKey'')
         then Inl (Value_error (''You need to provide privateKey in realitySettings of '' @ py_str tag))
         else case jget tls ''privateKey'' of
           JStr s \<Rightarrow> (case pubkey s of
              Inr k \<Rightarrow> Inr (JStr k)
            | Inl (Value_error m) \<Rightarrow> Inl (Value_error (''Invalid privateKey in realitySettings of '' @ py_str tag @ '': '' @ m))
            | Inl e \<Rightarrow> Inl e)
         | _ \<Rightarrow> Inl Attribute_error)"

definition text_list :: "json \<Rightarrow> json list" where
  "text_list v = (case v of JStr s \<Rightarrow> (if s = [] then [] else [JStr s]) | JArr xs \<Rightarrow> xs | _ \<Rightarrow> [])"

definition reality_of_inbound :: "(string \<Rightarrow> string result) \<Rightarrow> json \<Rightarrow> json_dict \<Rightarrow> json_dict \<Rightarrow> json_dict \<Rightarrow>
    json_dict result" where
  "reality_of_inbound pubkey tag tls meta st0 =
     (let fp = jor (jor (jget meta ''fingerprint'') (jget tls ''fingerprint'')) (JStr ''chrome'');
          st1 = jset ''sni'' (JArr (text_list (jget tls ''serverNames'')))
                 (jset ''tls'' (JStr ''reality'') (jset ''fp'' fp st0));
          sids = filter (\<lambda>v. case v of JStr s \<Rightarrow> strip s \<noteq> [] | _ \<Rightarrow> False) (text_list (jget tls ''shortIds''));
          spx = jor (jor (jor (jget meta ''spiderX'') (jget tls ''SpiderX''))
                 (jget_or tls ''spiderX'' (JStr []))) (JStr [])
      in then_res (reality_public_key pubkey tag tls meta) (\<lambda>pbk.
           Inr (jset ''spx'' spx (jset ''sids'' (JArr sids) (jset ''pbk'' pbk st1)))))"

section \<open>Transport settings of an inbound\<close>

definition is_text :: "json \<Rightarrow> bool" where
  "is_text v = (case v of JStr s \<Rightarrow> True | _ \<Rightarrow> False)"

definition is_array :: "json \<Rightarrow> bool" where
  "is_array v = (case v of JArr xs \<Rightarrow> True | _ \<Rightarrow> False)"

definition tcp_transport :: "json \<Rightarrow> json_dict \<Rightarrow> json_dict \<Rightarrow> json_dict result" where
  "tcp_transport tag ns st =
     then_res (as_dict (jget_or ns ''header'' (JObj []))) (\<lambda>header.
     then_res (as_dict (jget_or header ''request'' (JObj []))) (\<lambda>request.
     then_res (as_dict (jget_or request ''headers'' (JObj []))) (\<lambda>headers.
       let path = jget request ''path''; host = jget headers ''Host'';
           st1 = jset ''header_type'' (jget_or header ''type'' (JStr [])) st;
           st2 = (case path of JArr (p # _) \<Rightarrow> jset ''path'' p st1 | _ \<Rightarrow> st1);
           st3 = (case host of JArr (h # hs) \<Rightarrow> jset ''host'' host st2 | _ \<Rightarrow> st2)
       in if is_text path \<or> is_text host
          then Inl (Value_error (''Settings of '' @ py_str tag @ '' for path and host must be list, not str''))
          else Inr st3)))"

definition ws_transport :: "json \<Rightarrow> json_dict \<Rightarrow> json_dict \<Rightarrow> json_dict result" where
  "ws_transport tag ns st =
     then_res (if json_true (jget ns ''host'') then Inr (jget ns ''host'')
       else then_res (as_dict (jget_or ns ''headers'' (JObj []))) (\<lambda>h. Inr (jget h ''Host''))) (\<lambda>host.
       let path = jget_or ns ''path'' (JStr []);
           st1 = jset ''header_type'' (JStr []) st;
           st2 = jset_if (is_text path) ''path'' path st1;
           st3 = jset_if (is_text host) ''host'' (JArr [host]) st2
       in if is_array path \<or> is_array host
          then Inl (Value_error (''Settings of '' @ py_str tag @ '' for path and host must be str, not list''))
          else Inr (jset ''heartbeatPeriod'' (jget_or ns ''heartbeatPeriod'' (JInt 0)) st3))"

definition xhttp_options :: "string list" where
  "xhttp_options = [''scMaxEachPostBytes'', ''scMaxConcurrentPosts'', ''scMinPostsIntervalMs'', ''xPaddingBytes'',
     ''xmux'', ''mode'', ''noGRPCHeader'', ''keepAlivePeriod'']"

definition xhttp_transport :: "json_dict \<Rightarrow> json_dict \<Rightarrow> json_dict" where
  "xhttp_transport ns st =
     (let host = jget_or ns ''host'' (JStr []) in
      fold (\<lambda>k. jset_if (map_of ns k \<noteq> None \<and> (k = ''xmux'' \<longrightarrow> jget ns k \<noteq> JNull)) k (jget ns k)) xhttp_options
        (jset ''host'' (JArr (if json_true host then [host] else []))
          (jset ''path'' (jget_or ns ''path'' (JStr [])) st)))"

definition other_transport :: "json_dict \<Rightarrow> json_dict \<Rightarrow> json_dict" where
  "other_transport ns st =
     (let host = jor (jget ns ''host'') (jget ns ''Host'');
          st1 = jset ''path'' (jget_or ns ''path'' (JStr [])) st
      in case host of
           JStr (c # s) \<Rightarrow> jset ''host'' host st1
         | JArr (h # _) \<Rightarrow> jset ''host'' h st1
         | _ \<Rightarrow> st1)"

definition kcp_transport :: "json_dict \<Rightarrow> json_dict \<Rightarrow> json_dict result" where
  "kcp_transport ns st = then_res (as_dict (jget_or ns ''header'' (JObj []))) (\<lambda>header.
     Inr (jset ''path'' (jget_or ns ''seed'' (JStr [])) (jset ''host'' (jget_or header ''domain'' (JStr []))
       (jset ''header_type'' (jget_or header ''type'' (JStr [])) st))))"

definition quic_transport :: "json_dict \<Rightarrow> json_dict \<Rightarrow> json_dict result" where
  "quic_transport ns st = then_res (as_dict (jget_or ns ''header'' (JObj []))) (\<lambda>header.
     Inr (jset ''host'' (JArr [jget_or ns ''security'' (JStr [])]) (jset ''path'' (jget_or ns ''key'' (JStr []))
       (jset ''header_type'' (jget_or header ''type'' (JStr [])) st))))"

definition grpc_transport :: "json_dict \<Rightarrow> json_dict \<Rightarrow> json_dict" where
  "grpc_transport ns st = jset ''multiMode'' (jget_or ns ''multiMode'' (JBool False))
     (jset ''host'' (JArr [jget_or ns ''authority'' (JStr [])])
       (jset ''path'' (jget_or ns ''serviceName'' (JStr [])) (jset ''header_type'' (JStr []) st)))"

definition http_transport :: "json_dict \<Rightarrow> json_dict \<Rightarrow> json_dict" where
  "http_transport ns st = jset ''path'' (jget_or ns ''path'' (JStr []))
     (jset ''host'' (jor (jget ns ''host'') (jget_or ns ''Host'' (JStr []))) st)"

text \<open>\<open>stream\<close> is read again for the transports of HTTP, which keep their settings under one name.\<close>

definition transport_of_inbound :: "json \<Rightarrow> json_dict \<Rightarrow> json \<Rightarrow> json_dict \<Rightarrow> json_dict result" where
  "transport_of_inbound tag stream net st =
     (let kind = (case net of JStr n \<Rightarrow> n | _ \<Rightarrow> []);
          section = (if kind \<in> {''http'', ''h2'', ''h3''} then ''httpSettings'' else py_str net @ ''Settings'')
      in then_res (as_dict (jget_or stream section (JObj []))) (\<lambda>ns.
         if kind \<in> {''tcp'', ''raw''} then tcp_transport tag ns st
         else if kind = ''ws'' then ws_transport tag ns st
         else if kind \<in> {''grpc'', ''gun''} then Inr (grpc_transport ns st)
         else if kind = ''quic'' then quic_transport ns st
         else if kind = ''httpupgrade'' then Inr (jset ''host'' (JArr [jget_or ns ''host'' (JStr [])])
           (jset ''path'' (jget_or ns ''path'' (JStr [])) st))
         else if kind \<in> {''splithttp'', ''xhttp''} then Inr (xhttp_transport ns st)
         else if kind = ''kcp'' then kcp_transport ns st
         else if kind \<in> {''http'', ''h2'', ''h3''} then Inr (http_transport ns st)
         else Inr (other_transport ns st)))"

section \<open>The inbounds\<close>

record xray_libs =
  xl_names :: cert_names
  xl_public_key :: "string \<Rightarrow> string result"
  xl_excluded :: "string list"
  xl_fallback_tag :: string

definition base_settings :: "json \<Rightarrow> string \<Rightarrow> json_dict" where
  "base_settings tag p = [(''tag'', tag), (''protocol'', JStr p), (''port'', JNull), (''network'', JStr ''tcp''),
     (''tls'', JStr ''none''), (''sni'', JArr []), (''host'', JArr []), (''path'', JStr []),
     (''header_type'', JStr []), (''is_fallback'', JBool False)]"

definition with_encryption :: "json_dict \<Rightarrow> string \<Rightarrow> json_dict \<Rightarrow> json_dict" where
  "with_encryption d p st =
     (let enc = (case jget (dict_or_empty (jget d ''settings'')) ''encryption'' of JStr s \<Rightarrow> JStr (strip s) | v \<Rightarrow> v)
      in jset_if (p = ''vless'' \<and> json_true enc) ''encryption'' enc st)"

definition with_port :: "json_dict \<Rightarrow> json_dict option \<Rightarrow> json_dict \<Rightarrow> json_dict result" where
  "with_port d fallback st = (case map_of d ''port'' of
     Some v \<Rightarrow> Inr (jset ''port'' v st)
   | None \<Rightarrow> (case fallback of
       None \<Rightarrow> Inr st
     | Some fb \<Rightarrow> (case map_of fb ''port'' of
         Some v \<Rightarrow> Inr (jset ''is_fallback'' (JBool True) (jset ''port'' v st))
       | None \<Rightarrow> Inl (Value_error ''fallbacks inbound doesn't have port''))))"

text \<open>The security of a stream and its settings; a fallback takes those of the fallback inbound.\<close>

definition own_security :: "json_dict \<Rightarrow> json \<times> json_dict" where
  "own_security s = (let sec = jget s ''security'' in
     (sec, if json_true sec then dict_or_empty (jget_or s (py_str sec @ ''Settings'') (JObj [])) else []))"

definition fallback_security :: "json_dict \<Rightarrow> (json \<times> json_dict) result" where
  "fallback_security fb = then_res (as_dict (jget_or fb ''streamSettings'' (JObj []))) (\<lambda>s.
     let sec = jget s ''security'' in Inr (sec, dict_or_empty (jget_or s (py_str sec @ ''Settings'') (JObj []))))"

definition with_stream :: "xray_libs \<Rightarrow> json \<Rightarrow> json_dict \<Rightarrow> json_dict option \<Rightarrow> json_dict \<Rightarrow>
    json_dict result" where
  "with_stream xl tag stream fallback st =
     (let net = jget_or stream ''network'' (JStr ''tcp'') in
      then_res (case fallback of None \<Rightarrow> Inr (own_security stream) | Some fb \<Rightarrow> fallback_security fb) (\<lambda>(sec, tls).
        let meta = dict_or_empty (jget tls ''settings''); st0 = jset ''network'' net st in
        then_res (if sec = JStr ''tls'' then tls_of_inbound (xl_names xl) tls meta st0
            else if sec = JStr ''reality'' then reality_of_inbound (xl_public_key xl) tag tls meta st0
            else Inr st0)
          (transport_of_inbound tag stream net)))"

text \<open>
  \<open>clients\<close> become a list, and the certificates that were read keep the names their fields were given,
  in the inbound or in the fallback inbound.
\<close>

definition with_clients :: "json_dict \<Rightarrow> json_dict result" where
  "with_clients d =
     (let d1 = (if json_true (jget d ''settings'') then d else jset ''settings'' (JObj []) d) in
      then_res (as_dict (jget d1 ''settings'')) (\<lambda>st.
        Inr (if json_true (jget st ''clients'') then d1
             else jset ''settings'' (JObj (jset ''clients'' (JArr []) st)) d1)))"

definition renamed_certificates :: "json_dict \<Rightarrow> json_dict" where
  "renamed_certificates d = (case jget d ''streamSettings'' of
     JObj s \<Rightarrow> (case jget s ''tlsSettings'' of
       JObj tls \<Rightarrow> (case jget tls ''certificates'' of
         JArr cs \<Rightarrow> jset ''streamSettings'' (JObj (jset ''tlsSettings'' (JObj (jset ''certificates''
           (JArr (map (\<lambda>c. case c of JObj kvs \<Rightarrow> JObj (normalize_certificate_fields kvs) | _ \<Rightarrow> c) cs)) tls)) s)) d
       | _ \<Rightarrow> d) | _ \<Rightarrow> d) | _ \<Rightarrow> d)"

definition stream_security :: "json_dict \<Rightarrow> json" where
  "stream_security d = jget (dict_or_empty (jget d ''streamSettings'')) ''security''"

fun index_where :: "('a \<Rightarrow> bool) \<Rightarrow> 'a list \<Rightarrow> nat option" where
  "index_where P [] = None"
| "index_where P (x # xs) = (if P x then Some 0 else map_option Suc (index_where P xs))"

definition tagged :: "string \<Rightarrow> json \<Rightarrow> bool" where
  "tagged tag v = (jget (dict_or_empty v) ''tag'' = JStr tag)"

text \<open>One round of the loop: nothing for an inbound of another protocol or an excluded tag.\<close>

definition resolve_inbound :: "xray_libs \<Rightarrow> nat option \<Rightarrow> nat \<Rightarrow> json list \<times> json_dict list \<Rightarrow>
    (json list \<times> json_dict list) result" where
  "resolve_inbound xl fbi j = (\<lambda>(ins, acc).
     let d = dict_or_empty (ins ! j); tag = jget d ''tag''; fb = map_option (\<lambda>i. dict_or_empty (ins ! i)) fbi in
     then_res (jkey d ''protocol'') (\<lambda>protocol.
       case protocol of
         JArr xs \<Rightarrow> Inl Type_error
       | JObj kvs \<Rightarrow> Inl Type_error
       | JStr p \<Rightarrow>
          if proxy_type_of p = None \<or> tag \<in> JStr ` set (xl_excluded xl) then Inr (ins, acc)
          else then_res (with_clients d) (\<lambda>d1.
            let ins1 = ins[j := JObj d1]; stream = jget d1 ''streamSettings'';
                uses_fb = (map_of d1 ''port'' = None \<and> fb \<noteq> None); k = (if uses_fb then the fbi else j) in
            then_res (with_port d1 fb (with_encryption d1 p (base_settings tag p))) (\<lambda>st.
            then_res (if \<not> json_true stream then Inr (st, ins1)
              else then_res (as_dict stream) (\<lambda>s.
                then_res (with_stream xl tag s (if uses_fb then map_option (\<lambda>i. dict_or_empty (ins1 ! i)) fbi else None) st)
                  (\<lambda>st'. Inr (st', if stream_security (dict_or_empty (ins1 ! k)) = JStr ''tls''
                     then ins1[k := JObj (renamed_certificates (dict_or_empty (ins1 ! k)))] else ins1)))) (\<lambda>(st', ins').
            if is_text tag then Inr (ins', acc @ [st']) else Inl Type_error)))
       | _ \<Rightarrow> Inr (ins, acc)))"

definition resolve_inbounds :: "xray_libs \<Rightarrow> json list \<Rightarrow> (json list \<times> json_dict list) result" where
  "resolve_inbounds xl ins =
     fold_res (resolve_inbound xl (index_where (tagged (xl_fallback_tag xl)) ins)) [0..<length ins] (ins, [])"

text \<open>The two indexes: the last inbound of a tag, and the inbounds of a protocol in order.\<close>

definition text_of :: "json \<Rightarrow> string" where
  "text_of v = (case v of JStr s \<Rightarrow> s | _ \<Rightarrow> [])"

definition inbounds_by_tag :: "json_dict list \<Rightarrow> (string \<times> json_dict) list" where
  "inbounds_by_tag sts = fold (\<lambda>st. AList.update (text_of (jget st ''tag'')) st) sts []"

definition inbounds_by_protocol :: "json_dict list \<Rightarrow> (string \<times> json_dict list) list" where
  "inbounds_by_protocol sts = fold (\<lambda>st m. let p = text_of (jget st ''protocol'') in
     AList.update p ((case map_of m p of None \<Rightarrow> [] | Some xs \<Rightarrow> xs) @ [st]) m) sts []"

section \<open>The API\<close>

definition forced_policies :: json_dict where
  "forced_policies = [(''levels'', JObj [(''0'', JObj [(''statsUserUplink'', JBool True), (''statsUserDownlink'', JBool True)])]),
     (''system'', JObj [(''statsInboundDownlink'', JBool False), (''statsInboundUplink'', JBool False),
       (''statsOutboundDownlink'', JBool True), (''statsOutboundUplink'', JBool True)])]"

text \<open>\<open>parse\<close> is \<open>json.loads\<close>; a policy that is no object in the end raises when it is merged.\<close>

definition with_policy :: "(string \<Rightarrow> json option) \<Rightarrow> json_dict \<Rightarrow> json_dict result" where
  "with_policy parse cfg =
     (let current = (case jget cfg ''policy'' of
          JObj kvs \<Rightarrow> JObj kvs
        | JStr s \<Rightarrow> (case parse s of Some v \<Rightarrow> v | None \<Rightarrow> JObj [])
        | _ \<Rightarrow> JObj [])
      in if \<not> json_true current then Inr (jset ''policy'' (JObj forced_policies) cfg)
         else case current of
           JObj kvs \<Rightarrow> Inr (jset ''policy'' (JObj (merge_dict kvs forced_policies)) cfg)
         | _ \<Rightarrow> Inl Type_error)"

definition api_inbound :: "string \<Rightarrow> int \<Rightarrow> json" where
  "api_inbound host port = JObj [(''listen'', JStr host), (''port'', JInt port), (''protocol'', JStr ''dokodemo-door''),
     (''settings'', JObj [(''address'', JStr host)]), (''tag'', JStr ''API_INBOUND'')]"

definition api_updated :: "string \<Rightarrow> int \<Rightarrow> json_dict \<Rightarrow> json_dict" where
  "api_updated host port d =
     (let listen = (case jget d ''listen'' of JObj l \<Rightarrow> JObj (jset ''address'' (JStr host) l) | _ \<Rightarrow> JStr host);
          settings = (case jget d ''settings'' of JObj s \<Rightarrow> JObj (jset ''address'' (JStr host) s)
             | _ \<Rightarrow> JObj [(''address'', JStr host)])
      in jset ''settings'' settings (jset ''port'' (JInt port) (jset ''listen'' listen d)))"

definition with_api_inbound :: "string \<Rightarrow> int \<Rightarrow> json list \<Rightarrow> json list" where
  "with_api_inbound host port ins = (case index_where (tagged ''API_INBOUND'') ins of
     Some i \<Rightarrow> ins[i := JObj (api_updated host port (dict_or_empty (ins ! i)))]
   | None \<Rightarrow> api_inbound host port # ins)"

definition api_rule :: json where
  "api_rule = JObj [(''inboundTag'', JArr [JStr ''API_INBOUND'']), (''outboundTag'', JStr ''API''), (''type'', JStr ''field'')]"

fun has_api_rule :: "json list \<Rightarrow> bool result" where
  "has_api_rule [] = Inr False"
| "has_api_rule (r # rs) = (case r of
     JObj d \<Rightarrow>
       if jget d ''type'' = JStr ''field'' \<and> jget d ''outboundTag'' = JStr ''API''
       then then_res (text_in ''API_INBOUND'' (jor (jget d ''inboundTag'') (JArr [])))
              (\<lambda>b. if b then Inr True else has_api_rule rs)
       else has_api_rule rs
   | _ \<Rightarrow> has_api_rule rs)"

definition with_api_rule :: "json_dict \<Rightarrow> json_dict result" where
  "with_api_rule cfg =
     (let routing = (case jget cfg ''routing'' of
          JObj r \<Rightarrow> (case jget r ''rules'' of JArr rs \<Rightarrow> r | _ \<Rightarrow> [(''rules'', JArr [])])
        | _ \<Rightarrow> [(''rules'', JArr [])]);
          rules = (case jget routing ''rules'' of JArr rs \<Rightarrow> rs | _ \<Rightarrow> [])
      in then_res (has_api_rule rules) (\<lambda>b.
           Inr (jset ''routing'' (JObj (jset ''rules'' (JArr (if b then rules else api_rule # rules)) routing)) cfg)))"

definition apply_api :: "(string \<Rightarrow> json option) \<Rightarrow> string \<Rightarrow> int \<Rightarrow> json list \<Rightarrow> json_dict \<Rightarrow> json_dict result" where
  "apply_api parse host port ins cfg0 =
     (let cfg1 = jset ''stats'' (JObj []) (jset ''api'' (JObj [(''services'', JArr [JStr ''HandlerService'',
            JStr ''StatsService'', JStr ''LoggerService'']), (''tag'', JStr ''API'')]) cfg0)
      in then_res (with_policy parse cfg1) (\<lambda>cfg2.
           with_api_rule (jset ''inbounds'' (JArr (with_api_inbound host port ins)) cfg2)))"

section \<open>The whole construction\<close>

record xray_config =
  xc_dict :: json_dict
  xc_inbounds :: "json_dict list"

definition make_xray_config :: "xray_libs \<Rightarrow> (string \<Rightarrow> int option) \<Rightarrow> (string \<Rightarrow> json option) \<Rightarrow> bool \<Rightarrow>
    string \<Rightarrow> int \<Rightarrow> json_dict \<Rightarrow> xray_config result" where
  "make_xray_config xl to_int parse by_name host port raw =
     (let cfg = apply_log_paths to_int raw in
      then_res (validate_config cfg) (\<lambda>_.
      then_res (migrate_deprecated_configs by_name cfg) (\<lambda>cfg1.
      (let ins = (case jget cfg1 ''inbounds'' of JArr xs \<Rightarrow> xs | _ \<Rightarrow> []) in
      then_res (resolve_inbounds xl ins) (\<lambda>(ins', sts).
      then_res (apply_api parse host port ins' cfg1) (\<lambda>cfg2. Inr \<lparr>xc_dict = cfg2, xc_inbounds = sts\<rparr>))))))"

end
