(* ===== verification/XrayFacts.thy ===== *)
theory XrayFacts
  imports XrayConfig Quota
begin

text \<open>
  Facts about the core's configuration: migrating twice is migrating once, every resolved inbound has
  the settings that links and clients read, and what \<open>_apply_api\<close> leaves.
\<close>

section \<open>Migration\<close>

lemma jget_or_update [simp]: "jget_or (jset k v d) l x = (if l = k then v else jget_or d l x)"
  by (simp add: jget_or_def update_conv)

lemma jget_or_delete [simp]: "jget_or (AList.delete k d) l x = (if l = k then x else jget_or d l x)"
  by (simp add: jget_or_def delete_conv)

lemma map_of_jset [simp]: "map_of (jset k v d) l = (if l = k then Some v else map_of d l)"
  by (simp add: update_conv)

lemma map_of_delete [simp]: "map_of (AList.delete k d) l = (if l = k then None else map_of d l)"
  by (simp add: delete_conv)

lemma json_true_jset [simp]: "json_true (JObj (jset k v d))"
  by (cases d) (auto split: if_splits)

lemma jset_nonempty [simp]: "jset k v d \<noteq> []"
  by (cases d) auto

lemma migrate_ws_network: "migrate_ws s = Inr s' \<Longrightarrow> k \<noteq> ''wsSettings'' \<Longrightarrow> jget s' k = jget s k"
  by (auto simp: migrate_ws_def Let_def then_res_def split: if_splits sum.splits json.splits)

lemma migrate_tcp_network: "migrate_tcp s = Inr s' \<Longrightarrow> k \<noteq> ''tcpSettings'' \<Longrightarrow> jget s' k = jget s k"
  by (auto simp: migrate_tcp_def Let_def then_res_def split: if_splits sum.splits json.splits)

text \<open>Transport settings that the migration leaves as they are.\<close>

definition ws_clean :: "json \<Rightarrow> bool" where
  "ws_clean ws \<longleftrightarrow> \<not> json_true ws \<or> (\<exists>w. ws = JObj w \<and> (let h = jget_or w ''headers'' (JObj []) in
     \<not> json_true h \<or> text_in ''Host'' h = Inr False))"

definition tcp_clean :: "json \<Rightarrow> bool" where
  "tcp_clean tcp \<longleftrightarrow> \<not> json_true tcp \<or> (\<exists>t. tcp = JObj t \<and> (let header = jget_or t ''header'' (JObj []) in
     \<not> json_true header \<or> (\<exists>h. header = JObj h \<and>
       (let request = (if jget h ''type'' = JStr ''http'' then jget_or h ''request'' (JObj []) else JNull) in
       \<not> json_true request \<or> (\<exists>r. request = JObj r \<and> (let headers = jget_or r ''headers'' (JObj []) in
         \<not> json_true headers \<or> text_in ''Host'' headers = Inr False \<or>
         (\<exists>hs. headers = JObj hs \<and> \<not> is_text (jget hs ''Host''))))))))"

lemma ws_clean_fixed: "ws_clean (jget_or s ''wsSettings'' (JObj [])) \<Longrightarrow> migrate_ws s = Inr s"
  by (auto simp: ws_clean_def migrate_ws_def Let_def as_dict_def)

lemma migrate_ws_clean:
  assumes "migrate_ws s = Inr s'"
  shows "ws_clean (jget_or s' ''wsSettings'' (JObj []))"
proof -
  have "(s' = s \<and> ws_clean (jget_or s ''wsSettings'' (JObj []))) \<or> (\<exists>w hs. s' = jset ''wsSettings'' (JObj
      (if AList.delete ''Host'' hs = [] then AList.delete ''headers'' w else jset ''headers'' (JObj (AList.delete ''Host'' hs)) w)) s)"
    using assms by (auto simp: migrate_ws_def ws_clean_def Let_def then_res_def as_dict_def
        split: if_splits sum.splits json.splits)
  then show ?thesis by (elim disjE exE) (simp_all add: ws_clean_def text_in_def Let_def)
qed

lemma tcp_clean_fixed:
  assumes "tcp_clean (jget_or s ''tcpSettings'' (JObj []))"
  shows "migrate_tcp s = Inr s"
proof -
  have "(case jget hs ''Host'' of JStr x \<Rightarrow> Inr (f x) | _ \<Rightarrow> Inr s) = Inr s" if "\<not> is_text (jget hs ''Host'')" for hs f
    using that by (simp add: is_text_def split: json.splits)
  then show ?thesis using assms
    unfolding tcp_clean_def Let_def migrate_tcp_def
    by (elim disjE exE conjE) (simp_all add: as_dict_def text_in_def is_text_def split: json.splits)
qed

lemma migrate_tcp_cases:
  assumes "migrate_tcp s = Inr s'"
  obtains "s' = s" "tcp_clean (jget_or s ''tcpSettings'' (JObj []))"
  | t h r hs x where "s' = jset ''tcpSettings'' (JObj (jset ''header'' (JObj (jset ''request''
      (JObj (jset ''headers'' (JObj (jset ''Host'' (JArr [JStr x]) hs)) r)) h)) t)) s"
proof (cases "tcp_clean (jget_or s ''tcpSettings'' (JObj []))")
  case True
  then show ?thesis using that(1) assms tcp_clean_fixed by simp
next
  case False
  note dirty = False [unfolded tcp_clean_def Let_def, simplified]
  note run = assms [unfolded migrate_tcp_def Let_def]
  have "json_true (jget_or s ''tcpSettings'' (JObj []))" using dirty by simp
  then obtain t where t: "jget_or s ''tcpSettings'' (JObj []) = JObj t" "t \<noteq> []"
    using run by (cases "jget_or s ''tcpSettings'' (JObj [])") (simp_all add: as_dict_def)
  have "json_true (jget_or t ''header'' (JObj []))" using dirty t by simp
  then obtain h where h: "jget_or t ''header'' (JObj []) = JObj h" "h \<noteq> []"
    using run t by (cases "jget_or t ''header'' (JObj [])") (simp_all add: as_dict_def)
  let ?req = "if jget h ''type'' = JStr ''http'' then jget_or h ''request'' (JObj []) else JNull"
  have "json_true ?req" using dirty t h by simp
  then obtain r where r: "?req = JObj r" "r \<noteq> []"
    using run t h by (cases ?req) (simp_all add: as_dict_def)
  have ht: "json_true (jget_or r ''headers'' (JObj []))" using dirty t h r by simp
  have "text_in ''Host'' (jget_or r ''headers'' (JObj [])) \<noteq> Inr False" using dirty t h r by simp
  then obtain hs where hs: "jget_or r ''headers'' (JObj []) = JObj hs" "map_of hs ''Host'' \<noteq> None" "hs \<noteq> []"
    using run t h r ht by (cases "jget_or r ''headers'' (JObj [])")
      (auto simp: as_dict_def text_in_def split: if_splits)
  have "is_text (jget hs ''Host'')" using dirty t h r hs by simp
  then obtain x where "jget hs ''Host'' = JStr x" by (auto simp: is_text_def split: json.splits)
  then have "s' = jset ''tcpSettings'' (JObj (jset ''header'' (JObj (jset ''request''
      (JObj (jset ''headers'' (JObj (jset ''Host'' (JArr [JStr x]) hs)) r)) h)) t)) s"
    using run t h r hs by (simp add: as_dict_def text_in_def)
  then show ?thesis by (rule that(2))
qed

lemma migrate_tcp_clean:
  assumes "migrate_tcp s = Inr s'"
  shows "tcp_clean (jget_or s' ''tcpSettings'' (JObj []))"
  using assms
proof (cases rule: migrate_tcp_cases)
  case (2 t h r hs x)
  then show ?thesis by (simp add: tcp_clean_def Let_def is_text_def)
qed simp

definition stream_clean :: "bool \<Rightarrow> json \<Rightarrow> bool" where
  "stream_clean b v \<longleftrightarrow> \<not> json_true v \<or> (\<exists>s. v = JObj s \<and>
     (jget s ''network'' = JStr ''ws'' \<longrightarrow> ws_clean (jget_or s ''wsSettings'' (JObj []))) \<and>
     (jget s ''network'' \<in> {JStr ''tcp'', JStr ''raw''} \<longrightarrow> tcp_clean (jget_or s ''tcpSettings'' (JObj []))) \<and>
     (\<forall>tls. jget s ''tlsSettings'' = JObj tls \<longrightarrow> normalize_tls_verify b tls = tls))"

lemma stream_clean_fixed:
  assumes "stream_clean b v"
  shows "migrate_stream b v = Inr v"
proof (cases "json_true v")
  case True
  then obtain s where v: "v = JObj s"
    and ws: "jget s ''network'' = JStr ''ws'' \<Longrightarrow> migrate_ws s = Inr s"
    and tcp: "jget s ''network'' \<in> {JStr ''tcp'', JStr ''raw''} \<Longrightarrow> migrate_tcp s = Inr s"
    and tls: "\<And>tls. jget s ''tlsSettings'' = JObj tls \<Longrightarrow> normalize_tls_verify b tls = tls"
    using assms ws_clean_fixed tcp_clean_fixed unfolding stream_clean_def by blast
  have "jset ''tlsSettings'' (JObj tls) s = s" if "jget s ''tlsSettings'' = JObj tls" for tls
    using that by (intro update_same) (simp add: jget_def split: option.splits)
  then have "migrate_tls b s = s" using tls by (simp add: migrate_tls_def split: json.split)
  then show ?thesis using ws tcp True by (auto simp: migrate_stream_def v as_dict_def)
qed (simp add: migrate_stream_def)

lemma migrate_stream_clean:
  assumes "migrate_stream b v = Inr v'"
  shows "stream_clean b v'"
proof (cases "json_true v")
  case False
  then show ?thesis using assms by (simp add: migrate_stream_def stream_clean_def)
next
  case True
  then obtain s s' where v': "v' = JObj (migrate_tls b s')"
    and run: "(if jget s ''network'' = JStr ''ws'' then migrate_ws s
              else if jget s ''network'' \<in> {JStr ''tcp'', JStr ''raw''} then migrate_tcp s else Inr s) = Inr s'"
    using assms by (auto simp: migrate_stream_def as_dict_def then_res_Inr split: json.splits)
  have net: "jget s' ''network'' = jget s ''network''"
    using run migrate_ws_network [of s s' "''network''"] migrate_tcp_network [of s s' "''network''"]
    by (auto split: if_splits)
  have keep: "jget (migrate_tls b s') k = jget s' k \<and> jget_or (migrate_tls b s') k x = jget_or s' k x"
    if "k \<noteq> ''tlsSettings''" for k x
    using that by (simp add: migrate_tls_def split: json.split)
  have "normalize_tls_verify b tls = tls" if "jget (migrate_tls b s') ''tlsSettings'' = JObj tls" for tls
    using that normalize_tls_verify_idem by (auto simp: migrate_tls_def split: json.splits)
  moreover have "jget s ''network'' = JStr ''ws'' \<Longrightarrow> ws_clean (jget_or s' ''wsSettings'' (JObj []))"
    using run migrate_ws_clean by simp
  moreover have "jget s ''network'' \<in> {JStr ''tcp'', JStr ''raw''} \<Longrightarrow> tcp_clean (jget_or s' ''tcpSettings'' (JObj []))"
    using run migrate_tcp_clean by (auto split: if_splits)
  ultimately show ?thesis using net keep unfolding stream_clean_def v' by simp
qed

lemma map_res_Inr: "map_res f xs = Inr ys \<longleftrightarrow> list_all2 (\<lambda>x y. f x = Inr y) xs ys"
  by (induction xs arbitrary: ys) (auto simp: then_res_Inr list_all2_Cons1)

text \<open>Inbounds and outbounds that the migration leaves as they are.\<close>

definition bound_clean :: "bool \<Rightarrow> json \<Rightarrow> bool" where
  "bound_clean b v \<longleftrightarrow> (\<exists>d. v = JObj d \<and> (\<forall>st. map_of d ''streamSettings'' = Some st \<longrightarrow> stream_clean b st))"

definition list_clean :: "bool \<Rightarrow> json option \<Rightarrow> bool" where
  "list_clean b v \<longleftrightarrow> (case v of None \<Rightarrow> True | Some (JArr xs) \<Rightarrow> \<forall>x \<in> set xs. bound_clean b x
     | Some w \<Rightarrow> iterated w = Inr [])"

lemma bound_clean_fixed: "bound_clean b v \<Longrightarrow> migrate_bound b v = Inr v"
  by (auto simp: bound_clean_def migrate_bound_def as_dict_def stream_clean_fixed update_same split: option.split)

lemma migrate_bound_clean:
  assumes "migrate_bound b v = Inr v'"
  shows "bound_clean b v'"
proof -
  obtain d where d: "v = JObj d" using assms by (cases v) (simp_all add: migrate_bound_def as_dict_def)
  show ?thesis
  proof (cases "map_of d ''streamSettings''")
    case None
    then show ?thesis using assms by (auto simp: d migrate_bound_def as_dict_def bound_clean_def)
  next
    case (Some st)
    then obtain st' where "migrate_stream b st = Inr st'" "v' = JObj (jset ''streamSettings'' st' d)"
      using assms by (auto simp: d migrate_bound_def as_dict_def then_res_Inr)
    then show ?thesis using migrate_stream_clean by (simp add: bound_clean_def)
  qed
qed

lemma map_res_same: "(\<And>x. x \<in> set xs \<Longrightarrow> f x = Inr x) \<Longrightarrow> map_res f xs = Inr xs"
  by (induction xs) simp_all

lemma list_clean_fixed:
  assumes "list_clean b (map_of cfg k)"
  shows "migrate_list b k cfg = Inr cfg"
proof (cases "map_of cfg k")
  case (Some v)
  show ?thesis
  proof (cases "\<exists>xs. v = JArr xs")
    case True
    then show ?thesis using assms Some map_res_same [of _ "migrate_bound b"] bound_clean_fixed
      by (auto simp: migrate_list_def list_clean_def update_same)
  next
    case False
    then show ?thesis using assms Some by (cases v) (simp_all add: migrate_list_def list_clean_def)
  qed
qed (simp add: migrate_list_def)

lemma migrate_list_clean:
  assumes "migrate_list b k cfg = Inr cfg'"
  shows "list_clean b (map_of cfg' k) \<and> (\<forall>l. l \<noteq> k \<longrightarrow> map_of cfg' l = map_of cfg l)"
proof (cases "map_of cfg k")
  case None
  then show ?thesis using assms by (simp add: migrate_list_def list_clean_def)
next
  case (Some v)
  show ?thesis
  proof (cases "\<exists>xs. v = JArr xs")
    case True
    then obtain xs ys where ys: "map_res (migrate_bound b) xs = Inr ys" and cfg': "cfg' = jset k (JArr ys) cfg"
      using assms Some by (auto simp: migrate_list_def then_res_Inr)
    have "list_all2 (\<lambda>x y. migrate_bound b x = Inr y) xs ys" using ys by (simp only: map_res_Inr)
    then have "\<forall>y \<in> set ys. bound_clean b y"
      by (induction rule: list_all2_induct) (auto dest: migrate_bound_clean)
    then show ?thesis by (simp add: cfg' list_clean_def)
  next
    case False
    then have "cfg' = cfg \<and> iterated v = Inr []" using assms Some
      by (cases v) (auto simp: migrate_list_def then_res_Inr split: if_splits)
    then show ?thesis using Some False by (cases v) (simp_all add: list_clean_def)
  qed
qed

definition config_clean :: "bool \<Rightarrow> json_dict \<Rightarrow> bool" where
  "config_clean b cfg \<longleftrightarrow> list_clean b (map_of cfg ''inbounds'') \<and> list_clean b (map_of cfg ''outbounds'')"

lemma config_clean_fixed: "config_clean b cfg \<Longrightarrow> migrate_deprecated_configs b cfg = Inr cfg"
  by (simp add: config_clean_def migrate_deprecated_configs_def list_clean_fixed)

lemma migrate_clean:
  assumes "migrate_deprecated_configs b cfg = Inr cfg'"
  shows "config_clean b cfg' \<and> (\<forall>l. l \<notin> {''inbounds'', ''outbounds''} \<longrightarrow> map_of cfg' l = map_of cfg l)"
proof -
  obtain c where c: "migrate_list b ''inbounds'' cfg = Inr c" "migrate_list b ''outbounds'' c = Inr cfg'"
    using assms by (auto simp: migrate_deprecated_configs_def then_res_Inr)
  show ?thesis using migrate_list_clean [OF c(1)] migrate_list_clean [OF c(2)] by (simp add: config_clean_def)
qed

section \<open>The construction keeps the migration\<close>

lemma normalized_other_key:
  assumes "normalize_tls_verify b tls = tls" and "k \<notin> {''verifyPeerCertByName'', ''verifyPeerCertInNames''}"
  shows "normalize_tls_verify b (jset k v tls) = jset k v tls"
proof -
  have same: "jget (jset k v tls) ''verifyPeerCertByName'' = jget tls ''verifyPeerCertByName''"
    "jget (jset k v tls) ''verifyPeerCertInNames'' = jget tls ''verifyPeerCertInNames''"
    using assms(2) by auto
  obtain n xs where b: "\<And>t. jget t ''verifyPeerCertByName'' = jget tls ''verifyPeerCertByName'' \<Longrightarrow>
      jget t ''verifyPeerCertInNames'' = jget tls ''verifyPeerCertInNames'' \<Longrightarrow>
      normalize_tls_verify b t = (if b then AList.delete ''verifyPeerCertInNames''
        (if n \<noteq> [] then jset ''verifyPeerCertByName'' (JStr n) t else AList.delete ''verifyPeerCertByName'' t)
      else AList.delete ''verifyPeerCertByName''
        (if xs \<noteq> [] then jset ''verifyPeerCertInNames'' (JArr (map JStr xs)) t
         else AList.delete ''verifyPeerCertInNames'' t))"
    by (simp only: normalize_tls_verify_def Let_def)
  have t: "(if b then AList.delete ''verifyPeerCertInNames''
        (if n \<noteq> [] then jset ''verifyPeerCertByName'' (JStr n) tls else AList.delete ''verifyPeerCertByName'' tls)
      else AList.delete ''verifyPeerCertByName''
        (if xs \<noteq> [] then jset ''verifyPeerCertInNames'' (JArr (map JStr xs)) tls
         else AList.delete ''verifyPeerCertInNames'' tls)) = tls"
    using b [of tls] assms(1) by simp
  define u where "u = jset k v tls"
  have u: "map_of u ''verifyPeerCertByName'' = map_of tls ''verifyPeerCertByName''"
    "map_of u ''verifyPeerCertInNames'' = map_of tls ''verifyPeerCertInNames''"
    using assms(2) by (auto simp: u_def)
  then have bu: "normalize_tls_verify b u = (if b then AList.delete ''verifyPeerCertInNames''
        (if n \<noteq> [] then jset ''verifyPeerCertByName'' (JStr n) u else AList.delete ''verifyPeerCertByName'' u)
      else AList.delete ''verifyPeerCertByName''
        (if xs \<noteq> [] then jset ''verifyPeerCertInNames'' (JArr (map JStr xs)) u
         else AList.delete ''verifyPeerCertInNames'' u))"
    using b [of u] by (simp add: jget_def)
  have "normalize_tls_verify b u = u"
  proof (cases b)
    case True
    have "map_of tls ''verifyPeerCertInNames'' = None"
      by (subst t [symmetric]) (simp add: True)
    moreover have "map_of tls ''verifyPeerCertByName'' = (if n \<noteq> [] then Some (JStr n) else None)"
      by (subst t [symmetric]) (simp add: True)
    ultimately show ?thesis using bu u True by (simp add: update_same delete_absent split: if_splits)
  next
    case False
    have "map_of tls ''verifyPeerCertByName'' = None"
      by (subst t [symmetric]) (simp add: False)
    moreover have "map_of tls ''verifyPeerCertInNames'' = (if xs \<noteq> [] then Some (JArr (map JStr xs)) else None)"
      by (subst t [symmetric]) (simp add: False)
    ultimately show ?thesis using bu u False by (simp add: update_same delete_absent split: if_splits)
  qed
  then show ?thesis by (simp add: u_def)
qed

lemma renamed_clean: "bound_clean b (JObj d) \<Longrightarrow> bound_clean b (JObj (renamed_certificates d))"
proof -
  assume d: "bound_clean b (JObj d)"
  have "stream_clean b (JObj (jset ''tlsSettings'' (JObj (jset ''certificates'' cs tls)) s))"
    if "stream_clean b (JObj s)" "jget s ''tlsSettings'' = JObj tls" for s tls cs
  proof -
    have "s \<noteq> []" using that(2) by (auto simp: jget_def)
    then show ?thesis using that normalized_other_key [of b tls "''certificates''" cs]
      by (simp add: stream_clean_def)
  qed
  moreover have "map_of d ''streamSettings'' = Some (JObj s)" if "jget d ''streamSettings'' = JObj s" for s
    using that by (simp add: jget_def split: option.splits)
  ultimately show ?thesis using d
    by (auto simp: bound_clean_def renamed_certificates_def split: json.split)
qed

lemma with_clients_clean: "with_clients d = Inr d' \<Longrightarrow> bound_clean b (JObj d) \<Longrightarrow> bound_clean b (JObj d')"
  by (auto simp: with_clients_def Let_def then_res_Inr bound_clean_def split: if_splits)

lemma with_clients_keeps: "with_clients d = Inr d' \<Longrightarrow> k \<noteq> ''settings'' \<Longrightarrow> jget d' k = jget d k"
  by (auto simp: with_clients_def Let_def then_res_Inr split: if_splits)

lemma renamed_keeps: "k \<noteq> ''streamSettings'' \<Longrightarrow> jget (renamed_certificates d) k = jget d k"
  by (simp add: renamed_certificates_def split: json.split)

section \<open>Resolved inbounds\<close>

text \<open>Settings grow: keys are added, the tag and the protocol stay.\<close>

definition grown :: "json_dict \<Rightarrow> json_dict \<Rightarrow> bool" where
  "grown st st' \<longleftrightarrow> (\<forall>k. map_of st k \<noteq> None \<longrightarrow> map_of st' k \<noteq> None) \<and>
     jget st' ''tag'' = jget st ''tag'' \<and> jget st' ''protocol'' = jget st ''protocol''"

named_theorems grow "steps that make the settings of an inbound grow"

lemma grown_refl [grow]: "grown st st"
  by (simp add: grown_def)

lemma grown_trans: "grown st st' \<Longrightarrow> grown st' st'' \<Longrightarrow> grown st st''"
  by (simp add: grown_def)

lemma grown_jset [grow]: "grown st st' \<Longrightarrow> k \<noteq> ''tag'' \<Longrightarrow> k \<noteq> ''protocol'' \<Longrightarrow> grown st (jset k v st')"
  by (simp add: grown_def)

lemma grown_jset_if [grow]: "grown st st' \<Longrightarrow> k \<noteq> ''tag'' \<Longrightarrow> k \<noteq> ''protocol'' \<Longrightarrow> grown st (jset_if c k v st')"
  by (simp add: jset_if_def grown_jset)

lemma grown_fold_if:
  "grown st st' \<Longrightarrow> ''tag'' \<notin> set ks \<Longrightarrow> ''protocol'' \<notin> set ks \<Longrightarrow>
   grown st (fold (\<lambda>k. jset_if (c k) k (f k)) ks st')"
proof (induction ks arbitrary: st')
  case (Cons k ks)
  have "grown st (jset_if (c k) k (f k) st')"
    by (rule grown_jset_if [OF Cons.prems(1)]) (use Cons.prems in auto)
  then show ?case using Cons.IH Cons.prems by simp
qed simp

lemma grown_first [grow]:
  assumes "grown st st'" and "k \<noteq> ''tag''" and "k \<noteq> ''protocol''"
  shows "grown st (case v of JArr (x # xs) \<Rightarrow> jset k (f x xs) st' | _ \<Rightarrow> st')"
  using assms by (simp add: grown_jset split: json.split list.split)

lemma tcp_grown:
  assumes "tcp_transport tag ns st = Inr st'"
  shows "grown st st'"
proof -
  have "grown st (case v of JArr (x # xs) \<Rightarrow> jset ''host'' w st2 | _ \<Rightarrow> st2)"
    if "st2 = (case u of JArr (x # xs) \<Rightarrow> jset ''path'' x (jset ''header_type'' t st) | _ \<Rightarrow> jset ''header_type'' t st)"
    for u v w t st2
    unfolding that by (rule grown_first, rule grown_first, rule grown_jset, rule grown_refl) simp_all
  then show ?thesis using assms unfolding tcp_transport_def Let_def by (auto simp: then_res_Inr split: if_splits)
qed

lemma ws_grown:
  assumes "ws_transport tag ns st = Inr st'"
  shows "grown st st'"
proof -
  have g: "grown st (jset ''heartbeatPeriod'' h (jset_if c ''host'' x (jset_if c' ''path'' y (jset ''header_type'' z st))))"
    for h c x c' y z
    by (intro grown_jset grown_jset_if grown_refl) simp_all
  obtain host where "(if is_array (jget_or ns ''path'' (JStr [])) \<or> is_array host
      then Inl (Value_error (''Settings of '' @ py_str tag @ '' for path and host must be str, not list''))
      else Inr (jset ''heartbeatPeriod'' (jget_or ns ''heartbeatPeriod'' (JInt 0))
        (jset_if (is_text host) ''host'' (JArr [host]) (jset_if (is_text (jget_or ns ''path'' (JStr []))) ''path''
          (jget_or ns ''path'' (JStr [])) (jset ''header_type'' (JStr []) st))))) = Inr st'"
    using assms unfolding ws_transport_def Let_def then_res_Inr by blast
  then show ?thesis using g by (metis Inr_inject Inl_Inr_False)
qed

lemma transport_grown:
  assumes "transport_of_inbound tag stream net st = Inr st'"
  shows "grown st st'"
proof -
  have "grown st (grpc_transport ns st)" "grown st (http_transport ns st)" "grown st (other_transport ns st)" for ns
    by (auto simp: grpc_transport_def http_transport_def other_transport_def Let_def
        split: json.split list.split intro!: grow)
  moreover have "grown st (xhttp_transport ns st)" for ns
    by (auto simp: xhttp_transport_def Let_def xhttp_options_def intro!: grow grown_fold_if)
  moreover have "kcp_transport ns st = Inr st' \<Longrightarrow> grown st st'" "quic_transport ns st = Inr st' \<Longrightarrow> grown st st'" for ns
    by (auto simp: kcp_transport_def quic_transport_def then_res_Inr intro!: grow)
  moreover have "grown st (jset ''host'' h (jset ''path'' p st))" for h p by (auto intro!: grow)
  ultimately show ?thesis using assms tcp_grown ws_grown
    by (auto simp: transport_of_inbound_def Let_def then_res_Inr split: if_splits)
qed

lemma tls_grown: "tls_of_inbound cn tls meta st = Inr st' \<Longrightarrow> grown st st'"
  by (auto simp: tls_of_inbound_def Let_def then_res_Inr split: if_splits json.splits intro!: grow)

lemma reality_grown: "reality_of_inbound pk tag tls meta st = Inr st' \<Longrightarrow> grown st st'"
  by (auto simp: reality_of_inbound_def Let_def then_res_Inr intro!: grow)

lemma stream_grown:
  assumes "with_stream xl tag stream fb st = Inr st'"
  shows "grown st st'"
proof -
  have n: "grown st (jset ''network'' net st)" for net by (auto intro!: grow)
  obtain net sec tls meta st1 where
    sec: "(if sec = JStr ''tls'' then tls_of_inbound (xl_names xl) tls meta (jset ''network'' net st)
            else if sec = JStr ''reality'' then reality_of_inbound (xl_public_key xl) tag tls meta (jset ''network'' net st)
            else Inr (jset ''network'' net st)) = Inr st1"
    and st': "transport_of_inbound tag stream net st1 = Inr st'"
  proof -
    let ?net = "jget_or stream ''network'' (JStr ''tcp'')"
    obtain y where y: "(case fb of None \<Rightarrow> Inr (own_security stream) | Some fb \<Rightarrow> fallback_security fb) = Inr y"
      and r: "(\<lambda>(sec, tls). then_res (if sec = JStr ''tls'' then tls_of_inbound (xl_names xl) tls
            (dict_or_empty (jget tls ''settings'')) (jset ''network'' ?net st)
          else if sec = JStr ''reality'' then reality_of_inbound (xl_public_key xl) tag tls
            (dict_or_empty (jget tls ''settings'')) (jset ''network'' ?net st)
          else Inr (jset ''network'' ?net st)) (transport_of_inbound tag stream ?net)) y = Inr st'"
      using assms unfolding with_stream_def Let_def then_res_Inr by blast
    show thesis
    proof (cases y)
      case (Pair sec tls)
      then show thesis using r that [of sec tls "dict_or_empty (jget tls ''settings'')" ?net]
        unfolding Pair prod.case then_res_Inr by blast
    qed
  qed
  have "grown (jset ''network'' net st) st1"
  proof (cases "sec = JStr ''tls''")
    case True
    then show ?thesis using sec tls_grown by simp
  next
    case False
    then show ?thesis using sec reality_grown grown_refl by (cases "sec = JStr ''reality''") auto
  qed
  then show ?thesis using grown_trans [OF grown_trans [OF n]] transport_grown [OF st'] by blast
qed

lemma port_grown: "with_port d fb st = Inr st' \<Longrightarrow> grown st st'"
  by (auto simp: with_port_def split: option.splits intro!: grow)

lemma encryption_grown: "grown st (with_encryption d p st)"
  by (auto simp: with_encryption_def Let_def intro!: grow)

section \<open>The loop over the inbounds\<close>

definition ident :: "json \<Rightarrow> json \<times> json" where
  "ident v = (jget (dict_or_empty v) ''tag'', jget (dict_or_empty v) ''protocol'')"

definition settings_ident :: "json_dict \<Rightarrow> json \<times> json" where
  "settings_ident st = (jget st ''tag'', jget st ''protocol'')"

text \<open>The inbounds that are resolved, and what is read of their settings later.\<close>

definition qualifies :: "xray_libs \<Rightarrow> json \<times> json \<Rightarrow> bool" where
  "qualifies xl i = (case i of (tag, JStr p) \<Rightarrow> proxy_type_of p \<noteq> None \<and> tag \<notin> JStr ` set (xl_excluded xl)
     | _ \<Rightarrow> False)"

definition read_settings :: "string list" where
  "read_settings = [''tag'', ''protocol'', ''port'', ''network'', ''tls'', ''sni'', ''host'', ''path'', ''header_type'']"

definition complete :: "json_dict \<Rightarrow> bool" where
  "complete st \<longleftrightarrow> (\<forall>k \<in> set read_settings. map_of st k \<noteq> None) \<and> is_text (jget st ''tag'') \<and>
     (\<exists>p. jget st ''protocol'' = JStr p \<and> proxy_type_of p \<noteq> None)"

lemma base_grown:
  assumes "grown (base_settings tag p) st" and "is_text tag" and "proxy_type_of p \<noteq> None"
  shows "complete st \<and> settings_ident st = (tag, JStr p)"
proof -
  have "map_of st k \<noteq> None" if "k \<in> set read_settings" for k
  proof -
    have "map_of (base_settings tag p) k \<noteq> None"
      using that by (auto simp: read_settings_def base_settings_def)
    then show ?thesis using assms(1) by (simp add: grown_def)
  qed
  moreover have "jget st ''tag'' = tag" "jget st ''protocol'' = JStr p"
    using assms(1) by (simp_all add: grown_def base_settings_def jget_def)
  ultimately show ?thesis using assms(2,3) by (simp add: complete_def settings_ident_def)
qed

text \<open>What a round keeps of the list of inbounds.\<close>

definition same_inbounds :: "bool \<Rightarrow> json list \<Rightarrow> json list \<Rightarrow> bool" where
  "same_inbounds b ins ins' \<longleftrightarrow> map ident ins' = map ident ins \<and>
     ((\<forall>v \<in> set ins. bound_clean b v) \<longrightarrow> (\<forall>v \<in> set ins'. bound_clean b v))"

lemma same_inbounds_refl: "same_inbounds b ins ins"
  by (simp add: same_inbounds_def)

lemma same_inbounds_trans: "same_inbounds b xs ys \<Longrightarrow> same_inbounds b ys zs \<Longrightarrow> same_inbounds b xs zs"
  by (simp add: same_inbounds_def)

lemma same_inbounds_update:
  assumes "k < length ins" and "ident (JObj d) = ident (ins ! k)"
    and "bound_clean b (ins ! k) \<Longrightarrow> bound_clean b (JObj d)"
  shows "same_inbounds b ins (ins[k := JObj d])"
proof -
  have "map ident (ins[k := JObj d]) = map ident ins"
    using assms(1,2) by (metis list_update_id map_update nth_map)
  moreover have "bound_clean b v" if "\<forall>v \<in> set ins. bound_clean b v" "v \<in> set (ins[k := JObj d])" for v
    using that assms(1,3) set_update_subset_insert [of ins k "JObj d"] by auto
  ultimately show ?thesis by (simp add: same_inbounds_def)
qed

lemma clean_dict: "bound_clean b v \<Longrightarrow> v = JObj (dict_or_empty v)"
  by (auto simp: bound_clean_def dict_or_empty_def)

lemma resolve_inbound_cases:
  assumes res: "resolve_inbound xl fbi j (ins, acc) = Inr (ins', acc')" and j: "j < length ins"
    and fbi: "\<And>i. fbi = Some i \<Longrightarrow> i < length ins"
  shows "same_inbounds b ins ins' \<and> (if qualifies xl (ident (ins ! j))
     then \<exists>st. acc' = acc @ [st] \<and> complete st \<and> settings_ident st = ident (ins ! j) else acc' = acc)"
proof -
  let ?d = "dict_or_empty (ins ! j)"
  obtain protocol where p: "map_of ?d ''protocol'' = Some protocol"
    using res by (auto simp: resolve_inbound_def Let_def jkey_def split: option.splits)
  have jp: "jget ?d ''protocol'' = protocol" using p by (simp add: jget_def)
  note run = res [unfolded resolve_inbound_def Let_def jkey_def prod.case p option.case then_res_simps]
  have skip: ?thesis if "ins' = ins" "acc' = acc" "\<not> qualifies xl (ident (ins ! j))"
    using that same_inbounds_refl by simp
  have nq: "\<exists>p. protocol = JStr p" if "qualifies xl (ident (ins ! j))"
    using that by (auto simp: qualifies_def ident_def jp split: json.splits)
  show ?thesis
  proof (cases protocol)
    case (JStr p)
    show ?thesis
    proof (cases "proxy_type_of p = None \<or> jget ?d ''tag'' \<in> JStr ` set (xl_excluded xl)")
      case True
      then have "\<not> qualifies xl (ident (ins ! j))"
        by (auto simp: qualifies_def ident_def jp JStr)
      moreover have "ins' = ins" "acc' = acc" using run True by (simp_all add: JStr)
      ultimately show ?thesis by (intro skip)
    next
      case False
      then have q: "qualifies xl (ident (ins ! j))" by (simp add: qualifies_def ident_def jp JStr)
      let ?fb = "map_option (\<lambda>i. dict_or_empty (ins ! i)) fbi"
      obtain d1 where d1: "with_clients ?d = Inr d1" using run False by (auto simp: JStr then_res_Inr)
      let ?ins1 = "ins[j := JObj d1]"
      let ?k = "if map_of d1 ''port'' = None \<and> ?fb \<noteq> None then the fbi else j"
      obtain st st' where st: "with_port d1 ?fb (with_encryption d1 p (base_settings (jget ?d ''tag'') p)) = Inr st"
        and st': "grown st st'" and ins': "ins' = ?ins1 \<or> ins' = ?ins1[?k := JObj (renamed_certificates (dict_or_empty (?ins1 ! ?k)))]"
        and tag: "is_text (jget ?d ''tag'')" and acc': "acc' = acc @ [st']"
        using run False unfolding JStr json.case d1 then_res_simps
        by (auto simp: then_res_Inr grown_refl split: if_splits dest: stream_grown)
      have "grown (base_settings (jget ?d ''tag'') p) st'"
        using grown_trans [OF grown_trans [OF encryption_grown port_grown [OF st]] st'] .
      then have ok: "complete st' \<and> settings_ident st' = ident (ins ! j)"
        using base_grown [OF _ tag] False by (simp add: ident_def jp JStr)
      have one: "same_inbounds b ins ?ins1"
        by (rule same_inbounds_update [OF j])
          (use d1 with_clients_keeps [OF d1] with_clients_clean [OF d1] clean_dict in \<open>auto simp: ident_def dict_or_empty_def\<close>)
      have k: "?k < length ?ins1" using j fbi by auto
      have two: "same_inbounds b ?ins1 (?ins1[?k := JObj (renamed_certificates (dict_or_empty (?ins1 ! ?k)))])"
        by (rule same_inbounds_update [OF k])
          (use renamed_clean clean_dict in \<open>auto simp: ident_def dict_or_empty_def renamed_keeps\<close>)
      have "same_inbounds b ins ins'"
        using ins' one same_inbounds_trans [OF one two] by (elim disjE) (simp_all only:)
      then show ?thesis using acc' ok q by simp
    qed
  qed (use run skip nq in auto)
qed

lemma resolve_from:
  assumes "fold_res (resolve_inbound xl fbi) js (ins, acc) = Inr (ins', acc')"
    and "\<forall>j \<in> set js. j < length ins" and "\<And>i. fbi = Some i \<Longrightarrow> i < length ins" and "list_all complete acc"
  shows "same_inbounds b ins ins' \<and> list_all complete acc' \<and>
    map settings_ident acc' = map settings_ident acc @ filter (qualifies xl) (map (\<lambda>j. ident (ins ! j)) js)"
  using assms
proof (induction js arbitrary: ins acc)
  case Nil
  then show ?case by (simp add: same_inbounds_refl)
next
  case (Cons j js)
  obtain ins1 acc1 where one: "resolve_inbound xl fbi j (ins, acc) = Inr (ins1, acc1)"
    and rest: "fold_res (resolve_inbound xl fbi) js (ins1, acc1) = Inr (ins', acc')"
    using Cons.prems(1) by (auto split: sum.splits)
  have j: "j < length ins" using Cons.prems(2) by simp
  note c = resolve_inbound_cases [OF one j Cons.prems(3), where b = b]
  have len: "length ins1 = length ins" using c unfolding same_inbounds_def by (metis length_map)
  have id: "ident (ins1 ! i) = ident (ins ! i)" if "i < length ins" for i
    using c that len unfolding same_inbounds_def by (metis nth_map)
  have acc1: "list_all complete acc1 \<and> map settings_ident acc1 = map settings_ident acc @ filter (qualifies xl) [ident (ins ! j)]"
    using c Cons.prems(4) by (auto split: if_splits)
  have "same_inbounds b ins1 ins' \<and> list_all complete acc' \<and>
      map settings_ident acc' = map settings_ident acc1 @ filter (qualifies xl) (map (\<lambda>j. ident (ins1 ! j)) js)"
    by (rule Cons.IH [OF rest]) (use Cons.prems len acc1 in auto)
  moreover have "map (\<lambda>j. ident (ins1 ! j)) js = map (\<lambda>j. ident (ins ! j)) js"
    using id Cons.prems(2) by simp
  ultimately show ?case using acc1 same_inbounds_trans c by (auto split: if_splits)
qed

lemma index_where_less: "index_where P xs = Some i \<Longrightarrow> i < length xs \<and> P (xs ! i)"
  by (induction xs arbitrary: i) (auto split: if_splits)

lemma index_where_None: "index_where P xs = None \<longleftrightarrow> (\<forall>x \<in> set xs. \<not> P x)"
  by (induction xs) auto

lemma resolved_inbounds:
  assumes "resolve_inbounds xl ins = Inr (ins', sts)"
  shows "same_inbounds b ins ins' \<and> list_all complete sts \<and>
    map settings_ident sts = filter (qualifies xl) (map ident ins)"
proof -
  have "map (\<lambda>j. ident (ins ! j)) [0..<length ins] = map ident ins"
    by (rule nth_equalityI) simp_all
  then show ?thesis
    using resolve_from [OF assms [unfolded resolve_inbounds_def], where b = b] index_where_less by auto
qed

section \<open>Indexes\<close>

lemma by_tag_fold:
  "map_of (fold (\<lambda>st. AList.update (text_of (jget st ''tag'')) st) sts m) t =
    (case filter (\<lambda>st. text_of (jget st ''tag'') = t) (rev sts) of [] \<Rightarrow> map_of m t | st # _ \<Rightarrow> Some st)"
  by (induction sts arbitrary: m) (auto simp: update_conv split: list.split)

lemma by_tag_found:
  assumes "map_of (inbounds_by_tag sts) t = Some st"
  shows "st \<in> set sts \<and> text_of (jget st ''tag'') = t"
proof -
  let ?f = "filter (\<lambda>st. text_of (jget st ''tag'') = t) (rev sts)"
  have "?f \<noteq> [] \<and> hd ?f = st" using assms
    by (auto simp: inbounds_by_tag_def by_tag_fold split: list.splits)
  then have "st \<in> set ?f" by (metis list.set_sel(1))
  then show ?thesis by simp
qed

lemma by_tag_none: "map_of (inbounds_by_tag sts) t = None \<longleftrightarrow> t \<notin> (\<lambda>st. text_of (jget st ''tag'')) ` set sts"
proof -
  have "filter (\<lambda>st. text_of (jget st ''tag'') = t) (rev sts) = [] \<longleftrightarrow> t \<notin> (\<lambda>st. text_of (jget st ''tag'')) ` set sts"
    by (auto simp: filter_empty_conv)
  then show ?thesis by (auto simp: inbounds_by_tag_def by_tag_fold split: list.split)
qed

section \<open>The API\<close>

lemma tagged_api: "tagged ''API_INBOUND'' (api_inbound host port)"
  by (simp add: tagged_def api_inbound_def dict_or_empty_def jget_def)

lemma api_inbound_listed:
  "\<exists>v \<in> set (with_api_inbound host port ins). tagged ''API_INBOUND'' v \<and> jget (dict_or_empty v) ''port'' = JInt port"
proof (cases "index_where (tagged ''API_INBOUND'') ins")
  case None
  then show ?thesis using tagged_api [of host port]
    by (simp add: with_api_inbound_def) (simp add: api_inbound_def dict_or_empty_def jget_def)
next
  case (Some i)
  let ?v = "JObj (api_updated host port (dict_or_empty (ins ! i)))"
  have i: "i < length ins" "tagged ''API_INBOUND'' (ins ! i)" using index_where_less [OF Some] by auto
  have "?v \<in> set (with_api_inbound host port ins)"
    using i(1) by (simp add: with_api_inbound_def Some set_update_memI)
  moreover have "tagged ''API_INBOUND'' ?v \<and> jget (dict_or_empty ?v) ''port'' = JInt port"
    using i(2) by (simp add: tagged_def dict_or_empty_def api_updated_def Let_def)
  ultimately show ?thesis by blast
qed

lemma api_inbounds_clean:
  assumes "\<forall>v \<in> set ins. bound_clean b v"
  shows "\<forall>v \<in> set (with_api_inbound host port ins). bound_clean b v"
proof (cases "index_where (tagged ''API_INBOUND'') ins")
  case None
  then show ?thesis using assms by (simp add: with_api_inbound_def bound_clean_def api_inbound_def)
next
  case (Some i)
  then have "i < length ins" using index_where_less by blast
  then have "bound_clean b (ins ! i)" using assms by simp
  then have "bound_clean b (JObj (api_updated host port (dict_or_empty (ins ! i))))"
    by (auto simp: bound_clean_def dict_or_empty_def api_updated_def Let_def)
  then show ?thesis using assms set_update_subset_insert [of ins i]
    by (auto simp: with_api_inbound_def Some)
qed

definition routes_api :: "json \<Rightarrow> bool" where
  "routes_api r \<longleftrightarrow> jget (dict_or_empty r) ''type'' = JStr ''field'' \<and> jget (dict_or_empty r) ''outboundTag'' = JStr ''API'' \<and>
     text_in ''API_INBOUND'' (jor (jget (dict_or_empty r) ''inboundTag'') (JArr [])) = Inr True"

lemma api_rule_found: "has_api_rule rs = Inr True \<Longrightarrow> \<exists>r \<in> set rs. routes_api r"
proof (induction rs)
  case (Cons r rs)
  show ?case
  proof (cases r)
    case (JObj d)
    then show ?thesis using Cons by (auto simp: routes_api_def dict_or_empty_def then_res_Inr split: if_splits)
  qed (use Cons in auto)
qed simp

lemma api_rule_routed:
  assumes "with_api_rule cfg = Inr cfg'"
  shows "\<exists>routing rules. map_of cfg' ''routing'' = Some (JObj routing) \<and> map_of routing ''rules'' = Some (JArr rules) \<and>
      (\<exists>r \<in> set rules. routes_api r)"
    and "k \<noteq> ''routing'' \<Longrightarrow> map_of cfg' k = map_of cfg k"
proof -
  have api: "routes_api api_rule"
    by (simp add: routes_api_def api_rule_def dict_or_empty_def jget_def jor_def text_in_def)
  obtain rules routing c where b: "has_api_rule rules = Inr c"
    and cfg': "cfg' = jset ''routing'' (JObj (jset ''rules'' (JArr (if c then rules else api_rule # rules)) routing)) cfg"
    using assms unfolding with_api_rule_def Let_def then_res_Inr by blast
  show "\<exists>routing rules. map_of cfg' ''routing'' = Some (JObj routing) \<and> map_of routing ''rules'' = Some (JArr rules) \<and>
      (\<exists>r \<in> set rules. routes_api r)"
    using api_rule_found [of rules] b api unfolding cfg' by (cases c) simp_all
  show "k \<noteq> ''routing'' \<Longrightarrow> map_of cfg' k = map_of cfg k" unfolding cfg' by simp
qed

lemma policy_other: "with_policy parse cfg = Inr cfg' \<Longrightarrow> k \<noteq> ''policy'' \<Longrightarrow> map_of cfg' k = map_of cfg k"
  by (auto simp: with_policy_def Let_def split: if_splits json.splits)

lemma applied_api:
  assumes "apply_api parse host port ins cfg = Inr cfg'"
  shows "map_of cfg' ''inbounds'' = Some (JArr (with_api_inbound host port ins))"
    and "map_of cfg' ''outbounds'' = map_of cfg ''outbounds''"
    and "\<exists>routing rules. map_of cfg' ''routing'' = Some (JObj routing) \<and> map_of routing ''rules'' = Some (JArr rules) \<and>
      (\<exists>r \<in> set rules. routes_api r)"
proof -
  obtain cfg1 cfg2 where c: "with_policy parse cfg1 = Inr cfg2"
      "with_api_rule (jset ''inbounds'' (JArr (with_api_inbound host port ins)) cfg2) = Inr cfg'"
    and k: "\<And>k. k \<notin> {''api'', ''stats''} \<Longrightarrow> map_of cfg1 k = map_of cfg k"
    using assms by (auto simp: apply_api_def Let_def then_res_Inr)
  note r = api_rule_routed [OF c(2)]
  show "map_of cfg' ''inbounds'' = Some (JArr (with_api_inbound host port ins))" using r(2) by simp
  show "map_of cfg' ''outbounds'' = map_of cfg ''outbounds''"
    using r(2) policy_other [OF c(1)] k by simp
  show "\<exists>routing rules. map_of cfg' ''routing'' = Some (JObj routing) \<and> map_of routing ''rules'' = Some (JArr rules) \<and>
      (\<exists>r \<in> set rules. routes_api r)" by (rule r(1))
qed

section \<open>The whole construction\<close>

lemma migrate_bound_ident: "migrate_bound b v = Inr v' \<Longrightarrow> ident v' = ident v"
  by (cases v) (auto simp: migrate_bound_def as_dict_def then_res_Inr ident_def dict_or_empty_def split: option.splits)

lemma migrated_idents:
  assumes "migrate_list b k cfg = Inr cfg'" and "map_of cfg k = Some (JArr xs)"
  shows "\<exists>ys. map_of cfg' k = Some (JArr ys) \<and> map ident ys = map ident xs"
proof -
  obtain ys where ys: "map_res (migrate_bound b) xs = Inr ys" "cfg' = jset k (JArr ys) cfg"
    using assms by (auto simp: migrate_list_def then_res_Inr)
  have "list_all2 (\<lambda>x y. migrate_bound b x = Inr y) xs ys" using ys(1) by (simp only: map_res_Inr)
  then have "map ident ys = map ident xs" by (induction rule: list_all2_induct) (auto dest: migrate_bound_ident)
  then show ?thesis using ys(2) by simp
qed

lemma validated_lists:
  assumes "validate_config cfg = Inr ()"
  shows "\<exists>xs. map_of cfg ''inbounds'' = Some (JArr xs) \<and> xs \<noteq> []"
proof -
  have t: "json_true (jget cfg ''inbounds'')" and ins: "\<exists>ins. iterated (jget cfg ''inbounds'') = Inr ins \<and> each_res inbound_tag_ok ins = Inr ()"
    using assms by (auto simp: validate_config_def then_res_Inr split: if_splits)
  have bad: "each_res inbound_tag_ok (JStr s # vs) \<noteq> Inr ()" for s vs
    by (simp add: each_res_def inbound_tag_ok_def as_dict_def)
  show ?thesis
  proof (cases "jget cfg ''inbounds''")
    case (JStr s)
    then show ?thesis using t ins bad by (cases s) (auto simp: iterated_def)
  next
    case (JObj kvs)
    then show ?thesis using t ins bad by (cases kvs) (auto simp: iterated_def)
  next
    case (JArr xs)
    then show ?thesis using t by (auto simp: jget_def split: option.splits)
  qed (use t ins in \<open>auto simp: iterated_def\<close>)
qed

lemma made_xray_config:
  assumes "make_xray_config xl to_int parse by_name host port raw = Inr xc"
  obtains xs ys ins cfg1 where "map_of raw ''inbounds'' = Some (JArr xs)" and "map ident ys = map ident xs"
    and "\<forall>v \<in> set ys. bound_clean by_name v" and "list_clean by_name (map_of cfg1 ''outbounds'')"
    and "resolve_inbounds xl ys = Inr (ins, xc_inbounds xc)"
    and "apply_api parse host port ins cfg1 = Inr (xc_dict xc)"
proof -
  let ?cfg = "apply_log_paths to_int raw"
  obtain cfg1 ins where v: "validate_config ?cfg = Inr ()" and m: "migrate_deprecated_configs by_name ?cfg = Inr cfg1"
    and r: "resolve_inbounds xl (case jget cfg1 ''inbounds'' of JArr xs \<Rightarrow> xs | _ \<Rightarrow> []) = Inr (ins, xc_inbounds xc)"
    and a: "apply_api parse host port ins cfg1 = Inr (xc_dict xc)"
    using assms by (auto simp: make_xray_config_def Let_def then_res_Inr)
  obtain xs where xs: "map_of ?cfg ''inbounds'' = Some (JArr xs)" using validated_lists [OF v] by blast
  obtain c where c: "migrate_list by_name ''inbounds'' ?cfg = Inr c" "migrate_list by_name ''outbounds'' c = Inr cfg1"
    using m by (auto simp: migrate_deprecated_configs_def then_res_Inr)
  obtain ys where ys: "map_of c ''inbounds'' = Some (JArr ys)" "map ident ys = map ident xs"
    using migrated_idents [OF c(1) xs] by blast
  have cfg1: "map_of cfg1 ''inbounds'' = Some (JArr ys)" using migrate_list_clean [OF c(2)] ys(1) by simp
  have clean: "config_clean by_name cfg1" using migrate_clean [OF m] by simp
  show thesis
  proof (rule that [OF _ ys(2) _ _ _ a])
    show "map_of raw ''inbounds'' = Some (JArr xs)" using xs by (simp add: apply_log_paths_def Let_def)
    show "\<forall>v \<in> set ys. bound_clean by_name v" "list_clean by_name (map_of cfg1 ''outbounds'')"
      using clean cfg1 by (simp_all add: config_clean_def list_clean_def)
    show "resolve_inbounds xl ys = Inr (ins, xc_inbounds xc)" using r cfg1 by (simp add: jget_def)
  qed
qed

end
