(* ===== verification/SubscriptionLinks.thy ===== *)
theory SubscriptionLinks
  imports ShareLinks CoreConfig XrayFacts "HOL-Library.Product_Lexorder"
begin

text \<open>
  From a user to the links: \<open>process_inbounds_and_tags\<close> and \<open>generate_v2ray_links\<close> of
  \<open>app/subscription/share.py\<close>. \<open>fresh\<close> is what reading the configuration and the host map again
  gives, which happens once at most; a host map of \<open>None\<close> could not be had. The variables of the
  remark are a function of their names.
\<close>

section \<open>What is known of inbounds and hosts\<close>

record link_state =
  ls_by_tag :: "(string \<times> json_dict) list"
  ls_map :: host_map
  ls_refreshed :: bool

record fresh_state =
  fs_by_tag :: "(string \<times> json_dict) list"
  fs_map :: "host_map option"

text \<open>A user of a service keeps the old map where the new one is empty.\<close>

definition refresh_state :: "fresh_state \<Rightarrow> bool \<Rightarrow> link_state \<Rightarrow> link_state" where
  "refresh_state fresh has_service s =
     (if ls_refreshed s then s
      else \<lparr>ls_by_tag = fs_by_tag fresh,
        ls_map = (case fs_map fresh of None \<Rightarrow> ls_map s
          | Some m \<Rightarrow> if has_service \<and> m = [] then ls_map s else m),
        ls_refreshed = True\<rparr>)"

definition hosts_in :: "host_map \<Rightarrow> string \<Rightarrow> host_dict list" where
  "hosts_in m t = (case map_of m t of None \<Rightarrow> [] | Some hs \<Rightarrow> hs)"

text \<open>The settings of an inbound, after a refresh where there are none; empty settings count as none.\<close>

definition inbound_of :: "fresh_state \<Rightarrow> bool \<Rightarrow> string \<Rightarrow> link_state \<Rightarrow> json_dict option \<times> link_state" where
  "inbound_of fresh has_service t s =
     (let found = (\<lambda>s. case map_of (ls_by_tag s) t of Some ib \<Rightarrow> if ib = [] then None else Some ib | None \<Rightarrow> None) in
      case found s of
        Some ib \<Rightarrow> (Some ib, s)
      | None \<Rightarrow> (let s' = refresh_state fresh has_service s in (found s', s')))"

definition first_state :: "fresh_state \<Rightarrow> bool \<Rightarrow> link_state \<Rightarrow> link_state" where
  "first_state fresh has_service s =
     (if list_ex (\<lambda>(_, hs). hs \<noteq> []) (ls_map s) then s else refresh_state fresh has_service s)"

section \<open>The inbounds of a user\<close>

type_synonym user_inbounds = "(proxy_type \<times> string list) list"

text \<open>The tags are a set in the code; \<open>order\<close> is the order in which it is gone through.\<close>

definition tags_with_hosts :: "link_state \<Rightarrow> string list" where
  "tags_with_hosts s = map fst (filter (\<lambda>(_, hs). hs \<noteq> []) (ls_map s))"

definition add_tag :: "string \<Rightarrow> json_dict \<Rightarrow> user_inbounds \<Rightarrow> user_inbounds" where
  "add_tag t ib = map (\<lambda>(p, ts). (p, if jget ib ''protocol'' = JStr (proxy_value p) then ts @ [t] else ts))"

fun place_tags :: "fresh_state \<Rightarrow> string list \<Rightarrow> user_inbounds \<Rightarrow> link_state \<Rightarrow> user_inbounds \<times> link_state" where
  "place_tags fresh [] inb s = (inb, s)"
| "place_tags fresh (t # ts) inb s =
     (case inbound_of fresh True t s of
        (None, s') \<Rightarrow> place_tags fresh ts inb s'
      | (Some ib, s') \<Rightarrow> place_tags fresh ts (if json_true (jget ib ''protocol'') then add_tag t ib inb else inb) s')"

definition service_inbounds :: "(string list \<Rightarrow> string list) \<Rightarrow> fresh_state \<Rightarrow> user_inbounds \<Rightarrow> proxy_type list \<Rightarrow>
    link_state \<Rightarrow> user_inbounds \<times> link_state" where
  "service_inbounds order fresh inbounds ps s =
     (let requested = concat (map snd inbounds);
          s' = (if set requested \<subseteq> set (tags_with_hosts s) then s else refresh_state fresh True s)
      in place_tags fresh (order (tags_with_hosts s')) (map (\<lambda>p. (p, [])) ps) s')"

section \<open>Hosts in order\<close>

record link_entry =
  le_protocol :: proxy_type
  le_tag :: string
  le_inbound :: json_dict
  le_host :: host_dict
  le_index :: "nat option"
  le_position :: nat

definition host_entries :: "proxy_type \<Rightarrow> string \<Rightarrow> json_dict \<Rightarrow> link_state \<Rightarrow> link_entry list" where
  "host_entries p t ib s =
     (let hs = sort_hosts (hosts_in (ls_map s) t) in
      map (\<lambda>(i, h). \<lparr>le_protocol = p, le_tag = t, le_inbound = ib, le_host = h,
          le_index = index_where (\<lambda>(k, _). k = t) (ls_by_tag s), le_position = i\<rparr>)
        (filter (\<lambda>(_, h). host_is_disabled (hd_row h) \<noteq> Some True) (zip [0..<length hs] hs)))"

fun tag_entries :: "fresh_state \<Rightarrow> bool \<Rightarrow> proxy_type \<Rightarrow> string list \<Rightarrow> link_state \<Rightarrow> link_entry list \<times> link_state" where
  "tag_entries fresh svc p [] s = ([], s)"
| "tag_entries fresh svc p (t # ts) s =
     (case inbound_of fresh svc t s of
        (None, s') \<Rightarrow> tag_entries fresh svc p ts s'
      | (Some ib, s') \<Rightarrow> (case tag_entries fresh svc p ts s' of (es, s'') \<Rightarrow> (host_entries p t ib s' @ es, s'')))"

text \<open>A protocol without settings is passed over.\<close>

fun all_entries :: "fresh_state \<Rightarrow> bool \<Rightarrow> (proxy_type \<Rightarrow> bool) \<Rightarrow> user_inbounds \<Rightarrow> link_state \<Rightarrow>
    link_entry list \<times> link_state" where
  "all_entries fresh svc has [] s = ([], s)"
| "all_entries fresh svc has ((p, ts) # rest) s =
     (if \<not> has p then all_entries fresh svc has rest s
      else case tag_entries fresh svc p ts s of
        (es, s') \<Rightarrow> (case all_entries fresh svc has rest s' of (es', s'') \<Rightarrow> (es @ es', s'')))"

text \<open>The sort: place of the host, place of its inbound, place in the inbound; a missing inbound is last.\<close>

definition entry_key :: "(int \<times> int) list \<Rightarrow> link_entry \<Rightarrow> int \<times> nat \<times> nat \<times> nat" where
  "entry_key orders e =
     ((case map_of orders (host_id (hd_row (le_host e))) of Some k \<Rightarrow> k | None \<Rightarrow> host_sort (hd_row (le_host e))),
      (case le_index e of Some i \<Rightarrow> (0, i, le_position e) | None \<Rightarrow> (1, 0, le_position e)))"

definition sort_entries :: "(int \<times> int) list \<Rightarrow> link_entry list \<Rightarrow> link_entry list" where
  "sort_entries orders es = sort_key (entry_key orders) es"

section \<open>One link\<close>

text \<open>The first of a list, with the wildcard replaced by eight characters of the name.\<close>

definition wildcard_salt :: "string \<Rightarrow> string" where
  "wildcard_salt name = take 8 name @ replicate (8 - length name) CHR ''0''"

definition without_wildcard :: "string \<Rightarrow> string \<Rightarrow> string" where
  "without_wildcard name s = concat (map (\<lambda>c. if c = CHR ''*'' then wildcard_salt name else [c]) s)"

text \<open>The first entry of a setting: of a list its first element, of a text its first character.\<close>

definition first_of :: "json \<Rightarrow> string result" where
  "first_of v = (case v of
     JArr (JStr s # _) \<Rightarrow> Inr s
   | JArr (_ # _) \<Rightarrow> Inl Type_error
   | JStr (c # _) \<Rightarrow> Inr [c]
   | JInt n \<Rightarrow> if n = 0 then Inr [] else Inl Type_error
   | JBool b \<Rightarrow> if b then Inl Type_error else Inr []
   | JObj (_ # _) \<Rightarrow> Inl Key_error
   | _ \<Rightarrow> Inr [])"

definition host_or_inbound :: "string \<Rightarrow> string list \<Rightarrow> json \<Rightarrow> string result" where
  "host_or_inbound name xs v = map_sum id (without_wildcard name)
     (case xs of x # _ \<Rightarrow> Inr x | [] \<Rightarrow> first_of v)"

record link_context =
  lc_vars :: "string \<Rightarrow> string"
  lc_rich :: "string \<Rightarrow> string result"

definition enum_value :: "string \<Rightarrow> string" where
  "enum_value s = (if s = ''none'' then [] else s)"

definition json_of_text :: "string option \<Rightarrow> json" where
  "json_of_text x = (case x of None \<Rightarrow> JNull | Some s \<Rightarrow> JStr s)"

definition json_of_bool :: "bool option \<Rightarrow> json" where
  "json_of_bool x = (case x of None \<Rightarrow> JNull | Some b \<Rightarrow> JBool b)"

definition security_text :: "host_security \<Rightarrow> string" where
  "security_text x = (case x of Security_tls \<Rightarrow> ''tls'' | Security_none \<Rightarrow> ''none'' | Inbound_default \<Rightarrow> ''inbound_default'')"

definition link_vars :: "link_context \<Rightarrow> link_entry \<Rightarrow> string \<Rightarrow> string" where
  "link_vars lc e k = (if k = ''PROTOCOL'' then
       (case le_protocol e of VMess \<Rightarrow> ''VMess'' | VLESS \<Rightarrow> ''VLESS'' | Trojan \<Rightarrow> ''Trojan'' | Shadowsocks \<Rightarrow> ''Shadowsocks'')
     else if k = ''TRANSPORT'' then py_str (jget (le_inbound e) ''network'') else lc_vars lc k)"

text \<open>\<open>host_inbound\<close>: the settings of the inbound with those of the host.\<close>

definition merged_settings :: "link_context \<Rightarrow> link_entry \<Rightarrow> json_dict result" where
  "merged_settings lc e =
     (let ib = le_inbound e; h = hd_row (le_host e); name = lc_vars lc ''USERNAME'';
          fmt = format_text (link_vars lc e) (lc_rich lc);
          own = (\<lambda>v k d. if json_true v then v else jget_or ib k d) in
      then_res (host_or_inbound name (hd_snis (le_host e)) (jget ib ''sni'')) (\<lambda>sni.
      then_res (first_of (jget ib ''sids'')) (\<lambda>sid.
      then_res (host_or_inbound name (hd_hosts (le_host e)) (jget ib ''host'')) (\<lambda>req_host.
      then_res (case hd_path (le_host e) of Some p \<Rightarrow> fmt p
        | None \<Rightarrow> (case jget_or ib ''path'' (JStr []) of JStr p \<Rightarrow> fmt p | _ \<Rightarrow> Inl Attribute_error)) (\<lambda>path.
      Inr (fold (\<lambda>(k, v). jset k v)
        [(''port'', own (case host_port h of None \<Rightarrow> JNull | Some n \<Rightarrow> JInt n) ''port'' JNull),
         (''sni'', JStr sni),
         (''host'', JStr (if host_use_sni_as_host h = Some True \<and> sni \<noteq> [] then sni else req_host)),
         (''tls'', case hd_tls (le_host e) of None \<Rightarrow> jget ib ''tls'' | Some x \<Rightarrow> JStr (security_text x)),
         (''alpn'', if enum_value (host_alpn h) = [] then JNull else JStr (host_alpn h)),
         (''path'', JStr path),
         (''fp'', own (JStr (enum_value (host_fingerprint h))) ''fp'' (JStr [])),
         (''ais'', own (json_of_bool (host_allowinsecure h)) ''allowinsecure'' (JStr [])),
         (''mux_enable'', json_of_bool (host_mux_enable h)),
         (''fragment_setting'', json_of_text (host_fragment_setting h)),
         (''noise_setting'', json_of_text (host_noise_setting h)),
         (''random_user_agent'', json_of_bool (host_random_user_agent h)),
         (''sid'', JStr sid)] ib))))))"

text \<open>
  The credentials: a key of the user, and the flow where the user has one; without it the flow is
  taken off again.
\<close>

record link_user =
  lu_key :: "string option"
  lu_flow :: "string option"
  lu_proxies :: "(proxy_type \<times> settings) list"
  lu_service :: "int option"
  lu_inbounds :: user_inbounds
  lu_orders :: "(int \<times> int) list"

definition link_settings :: "environment \<Rightarrow> (string \<Rightarrow> string) \<Rightarrow> string \<Rightarrow> link_user \<Rightarrow> proxy_type \<Rightarrow> settings \<Rightarrow>
    settings result" where
  "link_settings env sha password u p st =
     (let fl = str_or_none (lu_flow u) in
      map_sum id (\<lambda>st'. if fl = None then AList.delete ''flow'' st' else st')
        (runtime_proxy_settings (env_validate env) (env_masks env) sha password (Settings_model st) p
          (lu_key u) fl))"

definition link_of_entry :: "environment \<Rightarrow> (string \<Rightarrow> string) \<Rightarrow> string \<Rightarrow> link_context \<Rightarrow> link_user \<Rightarrow>
    link_entry \<Rightarrow> string list \<Rightarrow> string list result" where
  "link_of_entry env sha password lc u e links =
     (let fmt = format_text (link_vars lc e) (lc_rich lc);
          address = without_wildcard (lc_vars lc ''USERNAME'') (case hd_addresses (le_host e) of [] \<Rightarrow> [] | x # _ \<Rightarrow> x) in
      then_res (merged_settings lc e) (\<lambda>ib.
      then_res (link_settings env sha password u (le_protocol e)
        (case map_of (lu_proxies u) (le_protocol e) of Some st \<Rightarrow> st | None \<Rightarrow> [])) (\<lambda>st.
      then_res (fmt (host_remark (hd_row (le_host e)))) (\<lambda>remark.
      then_res (fmt address) (\<lambda>address'. add_link remark address' ib st links)))))"

section \<open>All links\<close>

definition entries_of_user :: "(string list \<Rightarrow> string list) \<Rightarrow> fresh_state \<Rightarrow> link_user \<Rightarrow> link_state \<Rightarrow>
    link_entry list" where
  "entries_of_user order fresh u s0 =
     (let svc = (lu_service u \<noteq> None);
          s1 = first_state fresh svc s0;
          (inb, s2) = (if svc then service_inbounds order fresh (lu_inbounds u) (map fst (lu_proxies u)) s1
             else (lu_inbounds u, s1));
          has = (\<lambda>p. map_of (lu_proxies u) p \<noteq> None)
      in sort_entries (lu_orders u) (fst (all_entries fresh svc has inb s2)))"

definition generate_v2ray_links :: "(string list \<Rightarrow> string list) \<Rightarrow> environment \<Rightarrow> (string \<Rightarrow> string) \<Rightarrow> string \<Rightarrow>
    link_context \<Rightarrow> string \<Rightarrow> bool \<Rightarrow> fresh_state \<Rightarrow> link_user \<Rightarrow> link_state \<Rightarrow> string list result" where
  "generate_v2ray_links order env sha password lc external reverse fresh u s =
     map_sum id (render_links external reverse)
       (fold_res (link_of_entry env sha password lc u) (entries_of_user order fresh u s) [])"

end
