(* ===== verification/Subscriptions.thy ===== *)
theory Subscriptions
  imports ClientDocuments SubscriptionLinks
begin

text \<open>
  From a user to a document: the variables of remarks, \<open>process_inbounds_and_tags\<close> for every kind of
  document and \<open>generate_subscription\<close> of \<open>app/subscription/share.py\<close>, and the format a client gets
  (\<open>app/routers/subscription.py\<close>). Sizes and dates are texts of a record of functions; the clock is
  read once. \<open>None\<close> stands for a document whose making does not end.
\<close>

section \<open>Variables of a remark\<close>

definition unlimited_text :: string where
  "unlimited_text = [CHR 0xE2, CHR 0x88, CHR 0x9E]"

definition format_time_left :: "int \<Rightarrow> string" where
  "format_time_left seconds_left =
     (if seconds_left \<le> 0 then unlimited_text
      else let minutes0 = seconds_left div 60; seconds = seconds_left mod 60; hours0 = minutes0 div 60;
        minutes = minutes0 mod 60; days0 = hours0 div 24; hours = hours0 mod 24; months = days0 div 30;
        rest = days0 mod 30; short = (months = 0 \<and> rest = 0);
        part = (\<lambda>b n unit. if n \<noteq> 0 \<and> b then [int_text n @ unit] else [])
      in joined '' '' (part True months ''m'' @ part True rest ''d'' @ part (rest < 7) hours ''h'' @
           part short minutes ''m'' @ part short seconds ''s''))"

record text_functions =
  tf_size :: "int \<Rightarrow> string"
  tf_date :: "int \<Rightarrow> string"
  tf_jalali :: "int \<Rightarrow> string"
  tf_server_ip :: string
  tf_server_ipv6 :: string
  tf_status_emoji :: "user_status \<Rightarrow> string"
  tf_status_text :: "user_status \<Rightarrow> string"

text \<open>Days left, time left, date and date of the Iranian calendar.\<close>

definition expiry_texts :: "text_functions \<Rightarrow> instant \<Rightarrow> user \<Rightarrow> string \<times> string \<times> string \<times> string" where
  "expiry_texts tf now u =
     (let never = (unlimited_text, unlimited_text, unlimited_text, unlimited_text) in
      if status u \<noteq> On_hold then
        (case expire u of
           Some e \<Rightarrow> (if e < 0 then never
             else if now < e * usecs
             then (int_text ((e * usecs - now) div (86400 * usecs) + 1), format_time_left (e - int_timestamp now), tf_date tf e, tf_jalali tf e)
             else (''0'', ''0'', tf_date tf e, tf_jalali tf e))
         | None \<Rightarrow> never)
      else
        (case on_hold_expire_duration u of
           Some s \<Rightarrow> (if s < 0 then never else (int_text (s div 86400), format_time_left s, ''-'', ''-''))
         | None \<Rightarrow> never))"

definition limit_texts :: "text_functions \<Rightarrow> user \<Rightarrow> string \<times> string" where
  "limit_texts tf u = (case data_limit u of
     Some l \<Rightarrow> if l = 0 then (unlimited_text, unlimited_text)
       else (tf_size tf l, tf_size tf (max 0 (l - used_traffic u)))
   | None \<Rightarrow> (unlimited_text, unlimited_text))"

definition setup_format_variables :: "text_functions \<Rightarrow> instant \<Rightarrow> user \<Rightarrow> string \<Rightarrow> string" where
  "setup_format_variables tf now u name =
     (case expiry_texts tf now u of (in_days, in_words, date, jalali) \<Rightarrow> case limit_texts tf u of (limit, left) \<Rightarrow>
        (case map_of [(''SERVER_IP'', tf_server_ip tf), (''SERVER_IPV6'', tf_server_ipv6 tf), (''USERNAME'', username u),
            (''DATA_USAGE'', tf_size tf (used_traffic u)), (''DATA_LIMIT'', limit), (''DATA_LEFT'', left),
            (''REMAINING_DATA'', left), (''DAYS_LEFT'', in_days), (''EXPIRE_DATE'', date),
            (''JALALI_EXPIRE_DATE'', jalali), (''TIME_LEFT'', in_words), (''STATUS_EMOJI'', tf_status_emoji tf (status u)),
            (''STATUS_TEXT'', tf_status_text tf (status u))] name of
           Some t \<Rightarrow> t | None \<Rightarrow> ''<missing>''))"

section \<open>The entries of a document\<close>

text \<open>What \<open>add\<close> gets for an entry: remark, address, settings of the inbound and of the user.\<close>

type_synonym entry_parts = "string \<times> string \<times> json_dict \<times> settings"

record request_context =
  rc_order :: "string list \<Rightarrow> string list"
  rc_env :: environment
  rc_sha :: "string \<Rightarrow> string"
  rc_password :: string
  rc_link :: link_context
  rc_external :: string
  rc_templates :: templates
  rc_draws :: "nat \<Rightarrow> nat \<times> nat"
  rc_fresh :: fresh_state
  rc_state :: link_state

definition parts_of_entry :: "request_context \<Rightarrow> link_user \<Rightarrow> link_entry \<Rightarrow> entry_parts result" where
  "parts_of_entry rc u e =
     (let lc = rc_link rc; fmt = format_text (link_vars lc e) (lc_rich lc);
          address = without_wildcard (lc_vars lc ''USERNAME'') (case hd_addresses (le_host e) of [] \<Rightarrow> [] | x # _ \<Rightarrow> x) in
      then_res (merged_settings lc e) (\<lambda>ib.
      then_res (link_settings (rc_env rc) (rc_sha rc) (rc_password rc) u (le_protocol e)
        (case map_of (lu_proxies u) (le_protocol e) of Some st \<Rightarrow> st | None \<Rightarrow> [])) (\<lambda>st.
      then_res (fmt (host_remark (hd_row (le_host e)))) (\<lambda>remark.
      then_res (fmt address) (\<lambda>address'. Inr (remark, address', ib, st))))))"

fun document_fold :: "(link_entry \<Rightarrow> entry_parts result) \<Rightarrow> (nat \<Rightarrow> entry_parts \<Rightarrow> 's \<Rightarrow> 's result option) \<Rightarrow>
    nat \<Rightarrow> link_entry list \<Rightarrow> 's \<Rightarrow> 's result option" where
  "document_fold parts add i [] s = Some (Inr s)"
| "document_fold parts add i (e # es) s = (case parts e of
     Inl x \<Rightarrow> Some (Inl x)
   | Inr p \<Rightarrow> (case add i p s of
       None \<Rightarrow> None
     | Some (Inl x) \<Rightarrow> Some (Inl x)
     | Some (Inr s') \<Rightarrow> document_fold parts add (Suc i) es s'))"

definition document_of :: "request_context \<Rightarrow> link_user \<Rightarrow> (nat \<times> nat \<Rightarrow> entry_parts \<Rightarrow> 's \<Rightarrow> 's result option) \<Rightarrow>
    's \<Rightarrow> 's result option" where
  "document_of rc u add s0 = document_fold (parts_of_entry rc u) (\<lambda>i. add (rc_draws rc i)) 0
     (entries_of_user (rc_order rc) (rc_fresh rc) u (rc_state rc)) s0"

definition finish :: "('s \<Rightarrow> string result) \<Rightarrow> 's result option \<Rightarrow> string result option" where
  "finish render x = map_option (\<lambda>r. then_res r render) x"

section \<open>generate_subscription\<close>

definition clash_document :: "request_context \<Rightarrow> bool \<Rightarrow> link_user \<Rightarrow> cl_document result option" where
  "clash_document rc is_meta u =
     document_of rc u (\<lambda>r (remark, address, ib, st). cl_add (rc_templates rc) is_meta r remark address ib st)
       \<lparr>cd_proxies = [], cd_remarks = []\<rparr>"

definition singbox_document :: "request_context \<Rightarrow> link_user \<Rightarrow> sb_document result option" where
  "singbox_document rc u =
     document_of rc u (\<lambda>r (remark, address, ib, st). sb_add (rc_templates rc) r remark address ib st)
       \<lparr>sd_outbounds = [], sd_remarks = []\<rparr>"

definition generate_clash_subscription :: "request_context \<Rightarrow> bool \<Rightarrow> bool \<Rightarrow> link_user \<Rightarrow> string result option" where
  "generate_clash_subscription rc is_meta reverse u =
     finish (cl_render (rc_templates rc) reverse) (clash_document rc is_meta u)"

definition generate_singbox_subscription :: "request_context \<Rightarrow> bool \<Rightarrow> link_user \<Rightarrow> string result option" where
  "generate_singbox_subscription rc reverse u =
     finish (sb_render (rc_templates rc) reverse) (singbox_document rc u)"

definition generate_outline_subscription :: "request_context \<Rightarrow> bool \<Rightarrow> link_user \<Rightarrow> string result option" where
  "generate_outline_subscription rc reverse u =
     finish (\<lambda>doc. Inr (ol_render reverse doc))
       (document_of rc u (\<lambda>r (remark, address, ib, st) doc. Some (ol_add remark address ib st doc)) [])"

definition generate_v2ray_json_subscription :: "request_context \<Rightarrow> bool \<Rightarrow> link_user \<Rightarrow> string result option" where
  "generate_v2ray_json_subscription rc reverse u =
     finish (\<lambda>doc. Inr (v2_render reverse doc))
       (document_of rc u (\<lambda>r (remark, address, ib, st) doc. Some (v2_add (rc_templates rc) r remark address ib st doc))
         (new_v2_document (rc_templates rc)))"

definition generate_subscription :: "request_context \<Rightarrow> string \<Rightarrow> bool \<Rightarrow> bool \<Rightarrow> link_user \<Rightarrow> string result option" where
  "generate_subscription rc config_format as_base64 reverse u =
     (let config =
        (if config_format = ''v2ray'' then Some (map_sum id (joined [CHR 0x0A])
             (generate_v2ray_links (rc_order rc) (rc_env rc) (rc_sha rc) (rc_password rc) (rc_link rc) (rc_external rc)
                reverse (rc_fresh rc) u (rc_state rc)))
         else if config_format = ''clash-meta'' then generate_clash_subscription rc True reverse u
         else if config_format = ''clash'' then generate_clash_subscription rc False reverse u
         else if config_format = ''sing-box'' then generate_singbox_subscription rc reverse u
         else if config_format = ''outline'' then generate_outline_subscription rc reverse u
         else if config_format = ''v2ray-json'' then generate_v2ray_json_subscription rc reverse u
         else Some (Inl (Value_error ''Unsupported format'')))
      in map_option (map_sum id (if as_base64 then b64_standard else id)) config)"

section \<open>The format for a client\<close>

text \<open>Patterns at the start of the user agent: each place is a set of characters.\<close>

fun prefix_matches :: "string list \<Rightarrow> string \<Rightarrow> bool" where
  "prefix_matches [] s = True"
| "prefix_matches (p # ps) [] = False"
| "prefix_matches (p # ps) (c # s) = (c \<in> set p \<and> prefix_matches ps s)"

definition literal :: "string \<Rightarrow> string list" where
  "literal s = map (\<lambda>c. [c]) s"

definition any_case :: "string \<Rightarrow> string list" where
  "any_case s = map (\<lambda>c. [c, (let n = of_char c :: nat in if 97 \<le> n \<and> n \<le> 122 then char_of (n - 32) else c)]) s"

definition meta_agent :: "string \<Rightarrow> bool" where
  "meta_agent ua = list_ex (\<lambda>p. prefix_matches p ua)
     [''Cc'' # literal ''lash-verge'', (''Cc'' # literal ''lash'') @ (''Mm'' # literal ''eta''),
      (''Cc'' # literal ''lash'') @ (''-.'' # ''Mm'' # literal ''eta''),
      any_case ''flc'' @ literal ''lash'', ''Mm'' # literal ''ihomo'']"

definition clash_agent :: "string \<Rightarrow> bool" where
  "clash_agent ua = list_ex (\<lambda>p. prefix_matches p ua) [''Cc'' # literal ''lash'', ''Ss'' # literal ''tash'']"

definition singbox_agent :: "string \<Rightarrow> bool" where
  "singbox_agent ua = list_ex (\<lambda>p. prefix_matches p ua)
     [literal ''SFA'', literal ''SFI'', literal ''SFM'', literal ''SFT'', ''Kk'' # literal ''aring'',
      (''Hh'' # literal ''iddify'') @ (''Nn'' # literal ''ext'')]"

definition outline_agent :: "string \<Rightarrow> bool" where
  "outline_agent ua = list_ex (\<lambda>p. prefix_matches p ua)
     (map literal [''SS'', ''SSR'', ''SSD'', ''SSS'', ''Outline'', ''Shadowsocks'', ''SSconf''])"

text \<open>The numbers of a version with \<open>n\<close> parts at the start of a text.\<close>

fun version_numbers :: "nat \<Rightarrow> string \<Rightarrow> int list option" where
  "version_numbers 0 s = None"
| "version_numbers (Suc n) s =
     (let ds = takeWhile is_digit s; rest = dropWhile is_digit s in
      if ds = [] then None
      else if n = 0 then Some [decimal_value ds]
      else if rest \<noteq> [] \<and> hd rest = CHR ''.''
      then map_option (\<lambda>vs. decimal_value ds # vs) (version_numbers n (tl rest))
      else None)"

definition agent_version :: "string list \<Rightarrow> nat \<Rightarrow> string \<Rightarrow> int list option" where
  "agent_version pattern n ua = (if prefix_matches pattern ua then version_numbers n (drop (length pattern) ua) else None)"

text \<open>Versions of the same number of parts are compared from the left.\<close>

fun version_at_least :: "int list \<Rightarrow> int list \<Rightarrow> bool" where
  "version_at_least (x # xs) (y # ys) = (x > y \<or> x = y \<and> version_at_least xs ys)"
| "version_at_least _ [] = True"
| "version_at_least [] (y # ys) = False"

record json_flags =
  jf_default :: bool
  jf_v2rayn :: bool
  jf_v2rayng :: bool
  jf_happ :: bool
  jf_streisand :: bool

definition plain_links :: "string \<times> bool \<times> string" where
  "plain_links = (''v2ray'', True, ''text/plain'')"

definition json_document :: "string \<times> bool \<times> string" where
  "json_document = (''v2ray-json'', False, ''application/json'')"

definition client_format :: "json_flags \<Rightarrow> string \<Rightarrow> string \<times> bool \<times> string" where
  "client_format jf ua =
     (if meta_agent ua then (''clash-meta'', False, ''text/yaml'')
      else if clash_agent ua then (''clash'', False, ''text/yaml'')
      else if singbox_agent ua then (''sing-box'', False, ''application/json'')
      else if outline_agent ua then (''outline'', False, ''application/json'')
      else case (if jf_default jf \<or> jf_v2rayn jf then agent_version (literal ''v2rayN/'') 2 ua else None) of
        Some v \<Rightarrow> if version_at_least v [6, 40] then json_document else plain_links
      | None \<Rightarrow>
      if (jf_default jf \<or> jf_v2rayng jf) \<and> agent_version (any_case ''v2rayng'' @ literal ''/'') 2 ua \<noteq> None then json_document
      else case (if jf_default jf \<or> jf_happ jf then agent_version (literal ''Happ/'') 3 ua else None) of
        Some v \<Rightarrow> if version_at_least v [1, 63, 1] then json_document else plain_links
      | None \<Rightarrow>
      if (jf_default jf \<or> jf_streisand jf) \<and> prefix_matches (literal ''Streisand'') ua then json_document
      else plain_links)"

text \<open>The kinds of client a link may name.\<close>

definition client_config :: "string \<Rightarrow> (string \<times> bool \<times> string) option" where
  "client_config kind = map_of
     [(''clash-meta'', (''clash-meta'', False, ''text/yaml'')), (''sing-box'', (''sing-box'', False, ''application/json'')),
      (''clash'', (''clash'', False, ''text/yaml'')), (''v2ray'', plain_links),
      (''outline'', (''outline'', False, ''application/json'')), (''v2ray-json'', json_document)] kind"

end
