(* ===== verification/ListingFacts.thy ===== *)
theory ListingFacts
  imports UserListing CredentialFacts ShareLinks "HOL-Library.Multiset"
begin

text \<open>
  Facts about searching and listing users: when the two filters agree, what the filters of one admin
  depend on, and what a share link is taken for in the search.
\<close>

text \<open>
  What the search makes of a share link: the UUID in it is found, and with it the key of the user.
\<close>

named_theorems listing "filters of the user list"

section \<open>\<open>LIKE\<close> without wildcards\<close>

definition plain_text :: "string \<Rightarrow> bool" where
  "plain_text s \<longleftrightarrow> CHR ''%'' \<notin> set s \<and> CHR ''_'' \<notin> set s"

lemma like_rest: "like ''%'' t"
  by (auto simp: list_ex_iff intro: bexI [of _ "length t"])

lemma like_prefix: "plain_text s \<Longrightarrow> like (s @ ''%'') t \<longleftrightarrow> starts_with s t"
proof (induction s arbitrary: t)
  case Nil
  then show ?case using like_rest by (simp add: starts_with_def del: like.simps)
next
  case (Cons c s)
  then have "plain_text s" "c \<noteq> CHR ''%''" "c \<noteq> CHR ''_''" by (auto simp: plain_text_def)
  then show ?case using Cons.IH by (cases t) (auto simp: starts_with_def)
qed

lemma like_contains: "plain_text s \<Longrightarrow> like (''%'' @ s @ ''%'') t \<longleftrightarrow> substring s t"
  by (simp add: substring_def like_prefix del: upt_Suc)

lemma lower_append [simp]: "lower (s @ t) = lower s @ lower t" "lower [] = []"
  by (simp_all add: lower_def)

lemma lower_percent: "lower ''%'' = ''%''"
  by code_simp

lemma lower_char_same:
  assumes "(of_char x :: nat) \<notin> {65..90}" and "(of_char x :: nat) \<notin> {97..122}"
  shows "lower_char c = x \<longleftrightarrow> c = x"
proof -
  have "of_char (lower_char c) = (of_char x :: nat) \<longleftrightarrow> of_char c = (of_char x :: nat)"
    using assms by (auto simp: of_char_lower_char Let_def)
  then show ?thesis by (simp only: of_char_eq_iff)
qed

lemma lower_char_plain: "lower_char c = CHR ''%'' \<longleftrightarrow> c = CHR ''%''" "lower_char c = CHR ''_'' \<longleftrightarrow> c = CHR ''_''"
  by (simp_all add: lower_char_same)

lemma plain_lower [simp]: "plain_text (lower s) \<longleftrightarrow> plain_text s"
proof -
  have "x \<in> set (lower s) \<longleftrightarrow> x \<in> set s" if "\<And>c. lower_char c = x \<longleftrightarrow> c = x" for x
    using that by (simp add: lower_def image_iff eq_commute [of x])
  then show ?thesis using lower_char_plain by (simp add: plain_text_def)
qed

lemma substring_empty: "substring s [] \<longleftrightarrow> s = []"
  by (auto simp: substring_def starts_with_def)

lemma ilike_contains:
  assumes "plain_text search" and "search \<noteq> []"
  shows "ilike x (''%'' @ search @ ''%'') \<longleftrightarrow> contains search x"
proof (cases x)
  case (Some t)
  have "lower search \<noteq> []" using assms(2) by (simp add: lower_def)
  then have "t = [] \<Longrightarrow> \<not> substring (lower search) (lower t)" by (simp add: substring_empty)
  moreover have "lower (''%'' @ search @ ''%'') = ''%'' @ lower search @ ''%''" by (simp only: lower_append lower_percent)
  ultimately show ?thesis using assms(1) like_contains [of "lower search" "lower t"]
    by (auto simp only: ilike_def contains_def Some option.case plain_lower)
qed (simp add: ilike_def contains_def)

section \<open>The two filters of a user\<close>

text \<open>What the rows of an installation satisfy: names are not empty, keys are in their canonical form.\<close>

definition canonical_key :: "string \<Rightarrow> bool" where
  "canonical_key k \<longleftrightarrow> k \<noteq> [] \<and> CHR ''-'' \<notin> set k \<and> lower k = k"

definition usual_row :: "user \<Rightarrow> bool" where
  "usual_row u \<longleftrightarrow> username u \<noteq> [] \<and> (\<forall>k. credential_key u = Some k \<longrightarrow> canonical_key k) \<and>
     (\<forall>l. data_limit u = Some l \<longrightarrow> 0 < l) \<and> expire u \<noteq> Some 0"

lemma canonical_cleaned:
  assumes "canonical_key k"
  shows "lower (filter (\<lambda>c. c \<noteq> CHR ''-'') k) = k"
proof -
  have "filter (\<lambda>c. c \<noteq> CHR ''-'') k = k" using assms by (intro filter_True) (auto simp: canonical_key_def)
  then show ?thesis using assms by (simp add: canonical_key_def)
qed

lemma keys_agree:
  assumes "canonical_key k"
  shows "k \<in> set (query_keys tk) \<longleftrightarrow> k \<in> set (memory_keys tk)"
  using assms by (auto simp: query_keys_def memory_keys_def canonical_key_def split: option.split)

lemma uuid_of_given [simp]: "[] \<notin> set (uuid_of t)"
  by (cases "parse_uuid t") (simp_all add: uuid_of_def uuid_str_nonempty [symmetric])

lemma tokens_uuids:
  assumes "search_tokens_of sl search = Inr tk"
  shows "[] \<notin> set (st_uuids tk)"
proof -
  obtain ks us us1 ps1 us2 ps2 where t: "derive_search_tokens (sl_masks sl) search = (ks, us)"
    "extract_config_identifiers (sl_netloc_ok sl) (sl_parse sl) search = (us1, ps1)"
    "extract_config_fallback search = (us2, ps2)" by (metis surj_pair)
  have "st_uuids tk = us @ us1 @ us2" using assms t by (auto simp: search_tokens_of_def then_res_Inr Let_def)
  moreover have "[] \<notin> set us" using t(1) by (auto simp: derive_search_tokens_def Let_def split: if_splits)
  moreover have "[] \<notin> set (vmess_candidates p r)" for p r
    by (auto simp: vmess_candidates_def split: option.splits list.splits json.splits)
  then have "[] \<notin> set us1" using t(2)
    by (auto simp: extract_config_identifiers_def Let_def split: if_splits option.splits)
  moreover have "[] \<notin> set us2" using t(3) by (auto simp: extract_config_fallback_def Let_def)
  ultimately show ?thesis by auto
qed

lemma matches_agree:
  assumes "plain_text search" and "search \<noteq> []" and u: "usual_row u"
    and tk: "search_tokens_of sl search = Inr tk" and pw: "st_passwords tk = []"
  shows "memory_matches search tk u \<longleftrightarrow> query_matches search tk u"
proof -
  have ids: "filter (\<lambda>s. s \<noteq> []) (st_uuids tk) = st_uuids tk"
    using tokens_uuids [OF tk] by (intro filter_True) auto
  have none: "\<not> has_value k [] p" for k p by (auto simp: has_value_def split: setting.splits)
  have proxies: "(st_uuids tk \<noteq> [] \<and> list_ex (\<lambda>p. has_value ''id'' (st_uuids tk) p \<or> has_value ''password'' [] p) (proxies u)) \<longleftrightarrow>
      list_ex (has_value ''id'' (st_uuids tk)) (proxies u)"
    using none by (cases "st_uuids tk") (auto simp: list_ex_iff)
  have key: "(case credential_key u of None \<Rightarrow> False
       | Some k \<Rightarrow> k \<noteq> [] \<and> lower (filter (\<lambda>c. c \<noteq> CHR ''-'') k) \<in> set (memory_keys tk)) \<longleftrightarrow>
      (case credential_key u of None \<Rightarrow> False | Some k \<Rightarrow> k \<in> set (query_keys tk))"
    using u by (auto simp: usual_row_def canonical_cleaned keys_agree canonical_key_def split: option.split)
  have name: "(case st_name tk of None \<Rightarrow> False | Some n \<Rightarrow> n \<noteq> [] \<and> username u \<noteq> [] \<and> lower (username u) = lower n) \<longleftrightarrow>
      (case st_name tk of None \<Rightarrow> False | Some n \<Rightarrow> n \<noteq> [] \<and> lower (username u) = lower n)"
    using u by (simp add: usual_row_def split: option.split)
  have nopw: "\<not> list_ex (has_value ''password'' []) (proxies u)" using none by (simp add: list_ex_iff)
  show ?thesis unfolding memory_matches_def query_matches_def Let_def
      ilike_contains [OF assms(1,2)] key name pw ids filter.simps proxies
    using nopw by blast
qed

lemma advanced_filters [listing]:
  "apply_advanced_filters fs now us = filter (memory_advanced fs now) us"
proof -
  have sel: "(if b then filter P xs else xs) = filter (\<lambda>u. b \<longrightarrow> P u) xs" for b and P :: "user \<Rightarrow> bool" and xs by simp
  have o1: "x = None \<or> before x t \<longleftrightarrow> (case x of None \<Rightarrow> True | Some v \<Rightarrow> v < t)" for x t
    by (simp add: before_def split: option.split)
  have o2: "x = None \<or> x = Some 0 \<longleftrightarrow> (case x of None \<Rightarrow> True | Some l \<Rightarrow> l = (0::int))" for x
    by (simp split: option.split)
  have o3: "(case x of None \<Rightarrow> False | Some l \<Rightarrow> l > 0) \<longleftrightarrow> (case x of None \<Rightarrow> False | Some l \<Rightarrow> l \<noteq> 0 \<and> l > (0::int))" for x
    by (simp split: option.split) auto
  show ?thesis unfolding apply_advanced_filters_def Let_def sel filter_filter
    by (rule filter_cong [OF refl], simp only: memory_advanced_def Let_def o1 o2 o3, blast)
qed

section \<open>Sorts\<close>

lemma insert_by_perm [simp]: "mset (insert_by lt x xs) = add_mset x (mset xs)"
  by (induction xs) simp_all

lemma stable_sort_perm [simp]: "mset (stable_sort lt xs) = mset xs"
  by (induction xs) (simp_all add: stable_sort_def)

lemma stable_sort_set [simp]: "set (stable_sort lt xs) = set xs"
  by (metis set_mset_mset stable_sort_perm)

lemma insert_by_cong: "(\<And>y. y \<in> set ys \<Longrightarrow> lt y x = lt' y x) \<Longrightarrow> insert_by lt x ys = insert_by lt' x ys"
  by (induction ys) auto

lemma stable_sort_cong:
  assumes "\<And>x y. x \<in> set xs \<Longrightarrow> y \<in> set xs \<Longrightarrow> lt x y = lt' x y"
  shows "stable_sort lt xs = stable_sort lt' xs"
  using assms
proof (induction xs)
  case (Cons x xs)
  then have "insert_by lt x (stable_sort lt xs) = insert_by lt' x (stable_sort lt xs)"
    by (intro insert_by_cong) simp
  moreover have "stable_sort lt (x # xs) = insert_by lt x (stable_sort lt xs)" for lt :: "'a \<Rightarrow> 'a \<Rightarrow> bool"
    by (simp add: stable_sort_def)
  ultimately show ?case using Cons by simp
qed (simp add: stable_sort_def)

lemma order_users_perm [simp]: "mset (order_users opts us) = mset us"
  by (induction opts) (simp_all add: order_users_def case_prod_beta)

lemma order_users_set [simp]: "set (order_users opts us) = set us"
  by (metis order_users_perm set_mset_mset)

lemma order_users_length [simp]: "length (order_users opts us) = length us"
  by (metis order_users_perm size_mset)

lemma memory_sort_agrees:
  assumes "sort_in_memory opt us = Inr ys" and usual: "\<And>u. u \<in> set us \<Longrightarrow> usual_row u"
  shows "ys = order_users [opt] us"
proof -
  obtain f down where opt: "opt = (f, down)" by force
  have ys: "ys = stable_sort (directed (memory_less f) down) us"
    using assms(1) by (simp add: sort_in_memory_def opt split: if_splits)
  have "memory_less f u v = query_less f u v" if "u \<in> set us" "v \<in> set us" for u v
  proof (cases f)
    case By_data_limit
    then show ?thesis using usual [OF that(1)] usual [OF that(2)]
      by (cases "data_limit u"; cases "data_limit v") (auto simp: usual_row_def null_less_def zero_if_none_def)
  next
    case By_expire
    then have "(zero_if_none (expire u) = 0) = (zero_if_none (expire v) = 0)"
      using assms(1) that by (auto simp: sort_in_memory_def opt list_ex_iff split: if_splits)
    then show ?thesis using By_expire usual [OF that(1)] usual [OF that(2)]
      by (cases "expire u"; cases "expire v") (auto simp: usual_row_def null_less_def zero_if_none_def)
  qed simp_all
  then have "stable_sort (directed (memory_less f) down) us = stable_sort (directed (query_less f) down) us"
    by (intro stable_sort_cong) (simp add: directed_def)
  then show ?thesis by (simp add: ys order_users_def opt)
qed

lemma fold_res_snoc: "fold_res f (xs @ [x]) s = then_res (fold_res f xs s) (\<lambda>s'. f x s')"
  by (induction xs arbitrary: s) (auto split: sum.splits)

lemma memory_sorts_agree:
  assumes "fold_res sort_in_memory (rev opts) us = Inr ys" and "\<And>u. u \<in> set us \<Longrightarrow> usual_row u"
  shows "ys = order_users opts us"
  using assms
proof (induction opts arbitrary: ys)
  case (Cons opt opts)
  then obtain zs where zs: "fold_res sort_in_memory (rev opts) us = Inr zs" "sort_in_memory opt zs = Inr ys"
    by (auto simp: fold_res_snoc then_res_Inr)
  have zs': "zs = order_users opts us" by (rule Cons.IH [OF zs(1) Cons.prems(2)])
  then have "ys = order_users [opt] (order_users opts us)"
    using memory_sort_agrees [OF zs(2)] Cons.prems(2) by simp
  then show ?case by (simp add: order_users_def)
qed (simp add: order_users_def)

lemma pages_agree:
  "0 \<le> zero_if_none offset \<Longrightarrow> 0 \<le> zero_if_none limit \<Longrightarrow> memory_page_of offset limit xs = page_of offset limit xs"
  by (simp add: memory_page_of_def page_of_def Let_def slice_from_def slice_to_def)

section \<open>The filters as one\<close>

definition search_test :: "search_libs \<Rightarrow> string \<Rightarrow> (user \<Rightarrow> bool) result" where
  "search_test sl search = (if search = [] then Inr (\<lambda>_. True)
     else then_res (search_tokens_of sl search) (\<lambda>tk. Inr (query_matches search tk)))"

definition admits :: "db \<Rightarrow> instant \<Rightarrow> list_query \<Rightarrow> user \<Rightarrow> bool" where
  "admits d now q u \<longleftrightarrow> status u \<noteq> Deleted \<and> memory_advanced (lq_filters q) now u \<and>
     (lq_usernames q \<noteq> [] \<longrightarrow> lower (username u) \<in> lower ` set (lq_usernames q)) \<and>
     (lq_status q \<noteq> [] \<longrightarrow> status u \<in> set (lq_status q)) \<and>
     (lq_service q \<noteq> None \<longrightarrow> service_id u = lq_service q) \<and>
     (lq_strategies q \<noteq> [] \<longrightarrow> data_limit_reset_strategy u \<in> set (lq_strategies q)) \<and>
     (lq_admin q \<noteq> None \<longrightarrow> admin_id u = lq_admin q) \<and>
     (lq_admins q \<noteq> [] \<longrightarrow> (case owner_name d u of None \<Rightarrow> False | Some n \<Rightarrow> n \<in> set (lq_admins q)))"

lemma filtered_form [listing]:
  "filtered_users sl d now q =
    then_res (search_test sl (lq_search q)) (\<lambda>t. Inr (filter (\<lambda>u. t u \<and> admits d now q u) (users d)))"
proof (cases "lq_search q = []")
  case True
  then show ?thesis
    by (simp add: filtered_users_def apply_search_filter_def search_test_def advanced_filters admits_def conj_ac cong: filter_cong)
next
  case False
  then show ?thesis
    by (cases "search_tokens_of sl (lq_search q)")
      (simp_all add: filtered_users_def apply_search_filter_def search_test_def advanced_filters admits_def conj_ac cong: filter_cong)
qed

lemma restricted_owner [simp]: "owner_name (d\<lparr>users := us\<rparr>) = owner_name d"
  by (simp add: owner_name_def fun_eq_iff split: option.split)

lemma filtered_restricted:
  assumes "lq_admin q = Some i"
  shows "filtered_users sl (d\<lparr>users := filter (\<lambda>u. admin_id u = Some i) (users d)\<rparr>) now q = filtered_users sl d now q"
proof -
  have "filter (\<lambda>u. t u \<and> admits (d\<lparr>users := us\<rparr>) now q u) (filter (\<lambda>u. admin_id u = Some i) (users d)) =
      filter (\<lambda>u. t u \<and> admits d now q u) (users d)" for t us
    unfolding filter_filter using assms by (intro filter_cong) (auto simp: admits_def)
  then show ?thesis by (simp add: filtered_form del: filter_filter)
qed

text \<open>The users in Redis as they are when it is up to date.\<close>

definition cached_rows :: "db \<Rightarrow> cached_users" where
  "cached_rows d = map (\<lambda>u. (u, owner_name d u)) (users d)"

lemma filter_graph: "(\<And>u. u \<in> set us \<Longrightarrow> P (u, f u) = Q u) \<Longrightarrow>
    map fst (filter P (map (\<lambda>u. (u, f u)) us)) = filter Q us"
  by (induction us) simp_all

text \<open>Names of admins are asked for the way they are spelled.\<close>

definition spelled :: "db \<Rightarrow> list_query \<Rightarrow> bool" where
  "spelled d q \<longleftrightarrow> (\<forall>a \<in> set (admins d). admin_username a \<noteq> [] \<and>
     (\<forall>m \<in> set (lq_admins q). lower m = lower (admin_username a) \<longrightarrow> m = admin_username a))"

lemma owner_spelled: "spelled d q \<Longrightarrow> owner_name d u = Some n \<Longrightarrow>
    n \<noteq> [] \<and> (\<forall>m \<in> set (lq_admins q). lower m = lower n \<longrightarrow> m = n)"
  by (auto simp: spelled_def owner_name_def find_Some_iff split: option.splits dest: nth_mem)

lemma memory_filter_agrees:
  assumes usual: "\<forall>u \<in> set (users d). usual_row u" and names: "spelled d q"
    and search: "plain_text (lq_search q)"
    and pw: "\<And>tk. search_tokens_of sl (lq_search q) = Inr tk \<Longrightarrow> st_passwords tk = []"
  shows "filter_users_in_memory sl now q (cached_rows d) = filtered_users sl d now q"
proof -
  let ?P = "\<lambda>(u, owner). status u \<noteq> Deleted \<and>
          (lq_usernames q \<noteq> [] \<longrightarrow> username u \<noteq> [] \<and> lower (username u) \<in> lower ` set (lq_usernames q)) \<and>
          (lq_status q \<noteq> [] \<longrightarrow> status u \<in> set (lq_status q)) \<and>
          (case lq_service q of None \<Rightarrow> True | Some i \<Rightarrow> service_id u = Some i) \<and>
          (lq_strategies q \<noteq> [] \<longrightarrow> data_limit_reset_strategy u \<in> set (lq_strategies q)) \<and>
          (case lq_admin q of None \<Rightarrow> True | Some i \<Rightarrow> admin_id u = Some i) \<and>
          (lq_admins q \<noteq> [] \<longrightarrow> (case owner of None \<Rightarrow> False
             | Some n \<Rightarrow> n \<noteq> [] \<and> lower n \<in> lower ` set (lq_admins q))) \<and>
          memory_advanced (lq_filters q) now u"
  have one: "?P (u, owner_name d u) \<longleftrightarrow> admits d now q u" if "u \<in> set (users d)" for u
  proof -
    have "(case owner_name d u of None \<Rightarrow> False | Some n \<Rightarrow> n \<noteq> [] \<and> lower n \<in> lower ` set (lq_admins q)) \<longleftrightarrow>
        (case owner_name d u of None \<Rightarrow> False | Some n \<Rightarrow> n \<in> set (lq_admins q))"
    proof (cases "owner_name d u")
      case (Some n)
      then have "n \<in> set (lq_admins q)" if "m \<in> set (lq_admins q)" "lower n = lower m" for m
        using owner_spelled [OF names Some] that by metis
      then show ?thesis using owner_spelled [OF names Some] Some by auto
    qed simp
    moreover have "username u \<noteq> []" using usual that by (auto simp: usual_row_def)
    ultimately show ?thesis by (simp add: admits_def split: option.split) blast
  qed
  have kept: "map fst (filter ?P (cached_rows d)) = filter (admits d now q) (users d)"
    unfolding cached_rows_def using one by (rule filter_graph)
  show ?thesis
  proof (cases "lq_search q = []")
    case True
    then show ?thesis
      by (simp only: filter_users_in_memory_def Let_def kept filtered_form search_test_def if_True then_res_simps simp_thms)
  next
    case False
    have "filter (memory_matches (lq_search q) tk) (filter (admits d now q) (users d)) =
        filter (\<lambda>u. query_matches (lq_search q) tk u \<and> admits d now q u) (users d)"
      if "search_tokens_of sl (lq_search q) = Inr tk" for tk
      unfolding filter_filter using matches_agree [OF search False _ that pw [OF that]] usual
      by (intro filter_cong) auto
    then show ?thesis using False
      by (cases "search_tokens_of sl (lq_search q)")
        (simp_all only: filter_users_in_memory_def Let_def kept filtered_form search_test_def if_False then_res_simps)
  qed
qed

section \<open>UUIDs in a text\<close>

lemma uuid_at_start: "uuid_at s \<Longrightarrow> is_hex_char (s ! 0) \<and> is_hex_char (s ! 1)"
  by (simp add: uuid_at_def list_all_iff)

lemma find_step: "\<not> uuid_at (c # s) \<Longrightarrow> find_uuids (c # s) = find_uuids s"
  by (subst find_uuids.simps) simp

lemma find_here: "uuid_at s \<Longrightarrow> find_uuids s = take 36 s # find_uuids (drop 36 s)"
  by (subst find_uuids.simps) (auto simp: uuid_at_def)

lemma not_hex: "\<not> is_hex_char (CHR ''v'')" "\<not> is_hex_char (CHR ''l'')" "\<not> is_hex_char (CHR ''s'')"
  "\<not> is_hex_char (CHR '':'')" "\<not> is_hex_char (CHR ''/'')"
  by code_simp+

lemma find_behind_scheme: "find_uuids (''vless://'' @ s) = find_uuids s"
proof -
  have skip: "find_uuids (c # t) = find_uuids t" if "\<not> is_hex_char c \<or> (t \<noteq> [] \<and> \<not> is_hex_char (hd t))" for c t
    using that uuid_at_start [of "c # t"] by (intro find_step) (auto simp: hd_conv_nth)
  show ?thesis by (simp add: skip not_hex)
qed

lemma hex_digits_hex: "c \<in> set hex_digits \<Longrightarrow> is_hex_char c"
proof -
  have "list_all is_hex_char hex_digits" by code_simp
  then show "c \<in> set hex_digits \<Longrightarrow> is_hex_char c" by (simp add: list_all_iff)
qed

lemma uuid_at_text:
  assumes "length bs = 16"
  shows "uuid_at (uuid_str bs @ t)" and "length (uuid_str bs) = 36"
proof -
  let ?h = "hex_of_bytes bs" and ?ok = "list_all is_hex_char"
  have h: "length ?h = 32" using assms by (simp add: hex_of_bytes_length)
  have ok: "?ok ?h" using hex_of_bytes_digits hex_digits_hex by (auto simp: list_all_iff)
  have nth: "is_hex_char (xs ! i)" if "?ok xs" "i < length xs" for xs i using that by (simp add: list_all_length)
  have shape: "uuid_str bs @ t = take 8 (drop 0 ?h) @ [CHR ''-''] @ take 4 (drop 8 ?h) @ [CHR ''-''] @ take 4 (drop 12 ?h) @
      [CHR ''-''] @ take 4 (drop 16 ?h) @ [CHR ''-''] @ drop 20 ?h @ t"
    by (simp add: uuid_str_def Let_def)
  have "if i \<in> {8, 13, 18, 23} then (uuid_str bs @ t) ! i = CHR ''-'' else is_hex_char ((uuid_str bs @ t) ! i)" if "i < 36" for i
    unfolding shape using that h ok
    by (auto simp: nth_append nth_Cons' intro!: nth)
  moreover have len: "length (uuid_str bs) = 36" using h by (simp add: uuid_str_def Let_def)
  ultimately show "uuid_at (uuid_str bs @ t)" by (simp add: uuid_at_def list_all_iff)
  show "length (uuid_str bs) = 36" by (rule len)
qed

lemma find_uuid_behind_scheme:
  "length bs = 16 \<Longrightarrow> uuid_str bs \<in> set (find_uuids (''vless://'' @ uuid_str bs @ t))"
  by (simp only: find_behind_scheme find_here [OF uuid_at_text(1)]) (simp add: uuid_at_text)

section \<open>Blanks around a text\<close>

lemma strip_keeps:
  assumes "p \<noteq> []" and "\<not> is_space (hd p)" and "\<not> is_space (last p)"
  shows "\<exists>t'. strip (p @ t) = p @ t'"
proof -
  have "dropWhile is_space (p @ t) = p @ t" using assms(1,2) by (cases p) simp_all
  moreover have "\<exists>r. dropWhile is_space (rev t @ rev p) = r @ rev p"
  proof -
    have "dropWhile is_space (rev p) = rev p"
      using assms(1,3) by (metis dropWhile_eq_self_iff hd_rev)
    then show ?thesis by (metis append_Nil dropWhile_append dropWhile_append3)
  qed
  ultimately show ?thesis by (metis rev_append rev_rev_ident strip_def)
qed

section \<open>Tokens of a link\<close>

lemma link_tokens:
  assumes bs: "length bs = 16" and tk: "search_tokens_of sl (''vless://'' @ uuid_str bs @ ''@'' @ rest) = Inr tk"
  shows "uuid_str bs \<in> set (st_uuids tk)"
    and "uuid_to_key (sl_masks sl) (uuid_str bs) (Some VLESS) = Inr k \<Longrightarrow> k \<in> set (st_keys tk)"
proof -
  let ?link = "''vless://'' @ uuid_str bs @ ''@'' @ rest"
  obtain t where "strip ((''vless://'' @ uuid_str bs @ ''@'') @ rest) = (''vless://'' @ uuid_str bs @ ''@'') @ t"
    using strip_keeps [of "''vless://'' @ uuid_str bs @ ''@''" rest] by (auto simp: is_space_def)
  then have strip: "strip ?link = ''vless://'' @ uuid_str bs @ ''@'' @ t" by simp
  have "uuid_of (uuid_str bs) = [uuid_str bs]" by (simp add: uuid_of_def parse_uuid_str [OF bs])
  then have found: "uuid_str bs \<in> set (fst (extract_config_fallback ?link))"
    using find_uuid_behind_scheme [OF bs, of "''@'' @ t"]
    unfolding extract_config_fallback_def Let_def strip by (auto simp del: append_Cons intro!: bexI)
  obtain ks us us1 ps1 us2 ps2 where t: "derive_search_tokens (sl_masks sl) ?link = (ks, us)"
    "extract_config_identifiers (sl_netloc_ok sl) (sl_parse sl) ?link = (us1, ps1)"
    "extract_config_fallback ?link = (us2, ps2)" by (metis surj_pair)
  have all: "st_uuids tk = us @ us1 @ us2" "st_keys tk = ks @ keys_of_uuids (sl_masks sl) (us @ us1 @ us2)"
    using tk unfolding search_tokens_of_def t by (auto simp: then_res_Inr Let_def)
  show "uuid_str bs \<in> set (st_uuids tk)" using found t(3) all(1) by simp
  then show "k \<in> set (st_keys tk)" if "uuid_to_key (sl_masks sl) (uuid_str bs) (Some VLESS) = Inr k"
    using that all by (force simp: keys_of_uuids_def)
qed

end
