(* ===== verification/DocumentFacts.thy ===== *)
theory DocumentFacts
  imports Subscriptions ListingFacts
begin

text \<open>
  Lemmas on the documents of a subscription: numbering of remarks ends, folds over the entries, what an
  entry becomes in the documents of sing-box and Clash, groups, and the shared settings of HTTP.
\<close>

section \<open>Numbers behind remarks\<close>

lemma numbered_inj [simp]: "numbered remark a = numbered remark b \<longleftrightarrow> a = b"
proof
  assume "numbered remark a = numbered remark b"
  then have "nat_text a = nat_text b" by (simp add: numbered_def)
  then show "a = b" by (metis decimal_nat_text)
qed simp

lemma map_sum_Inr: "map_sum id f r = Inr y \<longleftrightarrow> (\<exists>x. r = Inr x \<and> y = f x)"
  by (cases r) auto

lemma free_number: "\<exists>k \<in> {c..c + length taken}. numbered remark k \<notin> set taken"
proof (rule ccontr)
  assume "\<not> ?thesis"
  then have "numbered remark ` {c..c + length taken} \<subseteq> set taken" by auto
  then have "card (numbered remark ` {c..c + length taken}) \<le> card (set taken)" by (intro card_mono) auto
  moreover have "card (numbered remark ` {c..c + length taken}) = Suc (length taken)"
    by (subst card_image) (auto simp: inj_on_def)
  ultimately show False using card_length [of taken] by simp
qed

lemma next_remark_ends:
  assumes "c \<le> k" and "numbered remark k \<notin> set taken"
  shows "\<exists>j. c \<le> j \<and> j \<le> k \<and> next_remark taken remark c = Some (numbered remark j) \<and> numbered remark j \<notin> set taken"
  using assms(1)
proof (induction "k - c" arbitrary: c rule: less_induct)
  case less
  show ?case
  proof (cases "numbered remark c \<in> set taken")
    case False
    then show ?thesis using less.prems by (intro exI [of _ c]) (simp add: next_remark.simps)
  next
    case True
    then have "c < k" using assms(2) less.prems by (metis nat_less_le)
    then obtain j where "Suc c \<le> j" "j \<le> k" "next_remark taken remark (Suc c) = Some (numbered remark j)"
      "numbered remark j \<notin> set taken" using less.hyps [of "Suc c"] by (meson Suc_leI diff_less_mono2 lessI)
    then show ?thesis using True by (intro exI [of _ j]) (simp add: next_remark.simps [of taken remark c])
  qed
qed

lemma remark_validation_free: "\<exists>name. remark_validation taken remark = Some name \<and> name \<notin> set taken"
proof -
  obtain k where "k \<in> {2..2 + length taken}" "numbered remark k \<notin> set taken" using free_number by blast
  then show ?thesis using next_remark_ends [of 2 k remark taken] by (auto simp: remark_validation_def)
qed

lemma remark_validation_Some: "remark_validation taken remark = Some name \<Longrightarrow> name \<notin> set taken"
  using remark_validation_free [of taken remark] by auto

lemma add_defined: "sb_add tp r remark address ib st doc \<noteq> None" "cl_add tp meta r remark address ib st cdoc \<noteq> None"
  using remark_validation_free by (fastforce simp: sb_add_def cl_add_def)+

section \<open>Folds over entries\<close>

lemma document_fold_defined:
  assumes "\<And>i p s. add i p s \<noteq> None"
  shows "document_fold parts add i es s \<noteq> None"
proof (induction es arbitrary: i s)
  case (Cons e es)
  show ?case
  proof (cases "parts e")
    case (Inr p)
    then show ?thesis using assms [of i p s] Cons by (cases "add i p s") (auto split: sum.split)
  qed simp
qed simp

lemma document_fold_step:
  "document_fold parts add i (e # es) s = Some (Inr s') \<longleftrightarrow>
     (\<exists>p s1. parts e = Inr p \<and> add i p s = Some (Inr s1) \<and> document_fold parts add (Suc i) es s1 = Some (Inr s'))"
  by (auto split: sum.splits option.splits)

text \<open>A document whose \<open>add\<close> puts at most one item behind the others has the items of the entries in order.\<close>

lemma document_fold_items:
  assumes "document_fold parts add i es s = Some (Inr s')" and "good s"
    and step: "\<And>i p s s'. add i p s = Some (Inr s') \<Longrightarrow> good s \<Longrightarrow>
      good s' \<and> (if kept p then \<exists>x. items s' = items s @ [x] \<and> shown x p else items s' = items s)"
  shows "good s' \<and> (\<exists>ps xs. map_res parts es = Inr ps \<and> items s' = items s @ xs \<and> list_all2 shown xs (filter kept ps))"
  using assms(1,2)
proof (induction es arbitrary: i s)
  case (Cons e es)
  then obtain p s1 where p: "parts e = Inr p" and s1: "add i p s = Some (Inr s1)"
    and rest: "document_fold parts add (Suc i) es s1 = Some (Inr s')" unfolding document_fold_step by blast
  obtain ps xs where ih: "good s'" "map_res parts es = Inr ps" "items s' = items s1 @ xs" "list_all2 shown xs (filter kept ps)"
    using Cons.IH [OF rest] step [OF s1 Cons.prems(2)] by blast
  show ?case
  proof (cases "kept p")
    case True
    then obtain x where "items s1 = items s @ [x]" "shown x p" using step [OF s1 Cons.prems(2)] by auto
    then show ?thesis using ih p True by (intro conjI exI [of _ "p # ps"] exI [of _ "x # xs"]) simp_all
  next
    case False
    then have "items s1 = items s" using step [OF s1 Cons.prems(2)] by simp
    then show ?thesis using ih p False by (intro conjI exI [of _ "p # ps"] exI [of _ xs]) simp_all
  qed
qed simp

section \<open>What an entry becomes\<close>

definition has_uuid :: "json_dict \<Rightarrow> bool" where
  "has_uuid ib \<longleftrightarrow> jget ib ''protocol'' \<in> {JStr ''vmess'', JStr ''vless''}"

definition known_protocol :: "json_dict \<Rightarrow> bool" where
  "known_protocol ib \<longleftrightarrow> jget ib ''protocol'' \<in> set proxy_kinds"

text \<open>An item for an entry: server, port, name of the protocol and the credential of the user.\<close>

definition carries :: "(json \<Rightarrow> json) \<Rightarrow> string \<Rightarrow> json_dict \<Rightarrow> entry_parts \<Rightarrow> bool" where
  "carries kind port_key out = (\<lambda>(remark, address, ib, st).
     jget out ''server'' = JStr address \<and> jget out ''type'' = kind (jget ib ''protocol'') \<and>
     (case jget ib ''port'' of JInt n \<Rightarrow> jget out port_key = JInt n | _ \<Rightarrow> True) \<and>
     (known_protocol ib \<longrightarrow> Inr (jget out (if has_uuid ib then ''uuid'' else ''password'')) =
        credential st (if has_uuid ib then ''id'' else ''password'')))"

lemma jget_append: "jget (xs @ ys) k = (if k \<in> fst ` set xs then jget xs k else jget ys k)"
  by (induction xs) (auto simp: jget_def)

lemma jget_Cons: "jget ((k, v) # d) l = (if l = k then v else jget d l)"
  by (simp add: jget_def)

lemma jget_none: "k \<notin> fst ` set d \<Longrightarrow> jget d k = JNull"
  by (induction d) (auto simp: jget_def)

lemma sb_outbound_form:
  assumes "sb_make_outbound tp r remark address path ib st = Inr out"
  obtains port rest where "one_port (fst r) (jget ib ''port'') = Inr port"
    and "out = [(''type'', jget ib ''protocol''), (''tag'', JStr remark), (''server'', JStr address), (''server_port'', port)] @ rest"
    and "fst ` set rest \<subseteq> {''flow'', ''transport'', ''tls'', ''multiplex''}"
proof -
  obtain alpn0 net alpn port transport mux where a: "one_port (fst r) (jget ib ''port'') = Inr port"
    and t: "(case net of JStr n \<Rightarrow> if n \<in> {''http'', ''ws'', ''quic'', ''grpc'', ''httpupgrade''}
           then then_res (early_data path) (\<lambda>(p, early).
             map_sum id (\<lambda>t. [(''transport'', JObj t)]) (sb_transport_config tp (snd r) n p early ib))
           else Inr [] | _ \<Rightarrow> Inr []) = Inr transport"
    and out: "out = [(''type'', jget ib ''protocol''), (''tag'', JStr remark), (''server'', JStr address), (''server_port'', port)] @
         sb_flow ib st @ transport @
         (if jget ib ''tls'' \<in> {JStr ''tls'', JStr ''reality''} then [(''tls'', JObj (sb_tls_config ib alpn))] else []) @
         [(''multiplex'', mux)]"
    using assms unfolding sb_make_outbound_def then_res_Inr Let_def case_prod_beta by (auto simp: then_res_Inr)
  have "fst ` set transport \<subseteq> {''transport''}"
  proof (cases "\<exists>n. net = JStr n \<and> n \<in> {''http'', ''ws'', ''quic'', ''grpc'', ''httpupgrade''}")
    case True
    then show ?thesis using t by (auto simp: then_res_Inr map_sum_Inr)
  next
    case False
    then show ?thesis using t by (cases net) auto
  qed
  then have "fst ` set (sb_flow ib st @ transport @
         (if jget ib ''tls'' \<in> {JStr ''tls'', JStr ''reality''} then [(''tls'', JObj (sb_tls_config ib alpn))] else []) @
         [(''multiplex'', mux)]) \<subseteq> {''flow'', ''transport'', ''tls'', ''multiplex''}"
    by (auto simp: sb_flow_def Let_def split: if_splits)
  then show ?thesis using that [OF a] out by blast
qed

text \<open>The documents keep the tag or name of every item different from those of the others.\<close>

definition sb_good :: "sb_document \<Rightarrow> bool" where
  "sb_good doc \<longleftrightarrow> distinct (sd_remarks doc) \<and> map (\<lambda>x. jget x ''tag'') (sd_outbounds doc) = map JStr (sd_remarks doc)"

lemma credentials_keys:
  assumes "client_credentials ib st ''method'' = Inr cred"
  shows "fst ` set cred \<subseteq> {''uuid'', ''password'', ''method''}"
    and "known_protocol ib \<Longrightarrow> Inr (jget cred (if has_uuid ib then ''uuid'' else ''password'')) =
      credential st (if has_uuid ib then ''id'' else ''password'')"
  using assms by (auto simp: client_credentials_def has_uuid_def known_protocol_def proxy_kinds_def then_res_Inr map_sum_Inr
      jget_Cons Let_def split: if_splits)

lemma sb_add_step:
  assumes add: "sb_add tp r remark address ib st doc = Some (Inr doc')" and good: "sb_good doc"
  shows "sb_good doc' \<and> (if \<not> unsupported ib \<and> \<not> odd_quic ib
    then \<exists>x. sd_outbounds doc' = sd_outbounds doc @ [x] \<and> carries id ''server_port'' x (remark, address, ib, st)
    else sd_outbounds doc' = sd_outbounds doc)"
proof (cases "unsupported ib \<or> odd_quic ib")
  case True
  then show ?thesis using add good by (auto simp: sb_add_def)
next
  case False
  then obtain name path out cred where name: "remark_validation (sd_remarks doc) remark = Some name"
    and out: "sb_make_outbound tp r name address path ib st = Inr out"
    and cred: "client_credentials ib st ''method'' = Inr cred"
    and doc': "doc' = \<lparr>sd_outbounds = sd_outbounds doc @ [out @ cred], sd_remarks = sd_remarks doc @ [name]\<rparr>"
    using add by (auto simp: sb_add_def then_res_Inr)
  obtain port rest where port: "one_port (fst r) (jget ib ''port'') = Inr port"
    and form: "out = [(''type'', jget ib ''protocol''), (''tag'', JStr name), (''server'', JStr address), (''server_port'', port)] @ rest"
    and keys: "fst ` set rest \<subseteq> {''flow'', ''transport'', ''tls'', ''multiplex''}" by (rule sb_outbound_form [OF out])
  have base: "jget (out @ cred) ''type'' = jget ib ''protocol''" "jget (out @ cred) ''tag'' = JStr name"
    "jget (out @ cred) ''server'' = JStr address" "jget (out @ cred) ''server_port'' = port"
    by (simp_all add: form jget_Cons)
  have "''uuid'' \<notin> fst ` set rest" "''password'' \<notin> fst ` set rest" using keys by auto
  then have "jget (out @ cred) ''uuid'' = jget cred ''uuid''" "jget (out @ cred) ''password'' = jget cred ''password''"
    by (simp_all add: form jget_Cons jget_append)
  then have "carries id ''server_port'' (out @ cred) (remark, address, ib, st)"
    using credentials_keys(2) [OF cred] port
    by (auto simp: carries_def base one_port_def split: json.splits)
  moreover have "sb_good doc'" using good remark_validation_Some [OF name] by (simp add: sb_good_def doc' base)
  ultimately show ?thesis using False doc' by simp
qed

section \<open>The same for Clash\<close>

definition cl_good :: "cl_document \<Rightarrow> bool" where
  "cl_good doc \<longleftrightarrow> distinct (cd_remarks doc) \<and> map (\<lambda>x. jget x ''name'') (cd_proxies doc) = map JStr (cd_remarks doc)"

definition cl_kind :: "json \<Rightarrow> json" where
  "cl_kind p = (if p = JStr ''shadowsocks'' then JStr ''ss'' else p)"

definition cl_known :: "bool \<Rightarrow> json_dict \<Rightarrow> bool" where
  "cl_known meta ib \<longleftrightarrow> \<not> unsupported ib \<and> \<not> (meta \<and> odd_quic ib) \<and> known_protocol ib \<and>
     (jget ib ''protocol'' = JStr ''vless'' \<longrightarrow> meta)"

lemma jget_fold_other: "k \<notin> fst ` set kvs \<Longrightarrow> jget (fold (\<lambda>(k, v). jset k v) kvs d) k = jget d k"
  by (induction kvs arbitrary: d) (auto split: prod.splits)

lemma jget_fold_last: "k \<notin> fst ` set ys \<Longrightarrow> jget (fold (\<lambda>(k, v). jset k v) (xs @ (k, v) # ys) d) k = v"
  by (simp add: jget_fold_other)

lemma options_key: "last k \<noteq> CHR ''s'' \<Longrightarrow> k \<noteq> s @ ''-opts''"
  by auto

lemma cl_node_form:
  assumes "cl_make_node tp r tls remark address ib = Inr node"
  shows "jget node ''name'' = JStr remark \<and> jget node ''type'' = cl_kind (jget ib ''protocol'') \<and>
    jget node ''server'' = JStr address \<and> jget node ''port'' = jget ib ''port''"
proof -
  have keys: "fst ` set ((if tls then [(''tls'', JBool True), (if k = JStr ''trojan'' then ''sni'' else ''servername'', jget ib ''sni'')] @
             alpn @ ais else []) @ [(py_str net @ ''-opts'', JObj options)] @ mux) \<inter>
      {''name'', ''type'', ''server'', ''port''} = {}"
    if "fst ` set alpn \<subseteq> {''alpn''}" "fst ` set ais \<subseteq> {''skip-cert-verify''}" "fst ` set mux \<subseteq> {''smux''}"
    for alpn ais net options mux and k :: json
    using that options_key [of "''name''"] options_key [of "''type''"] options_key [of "''server''"] options_key [of "''port''"]
    by auto
  have alpn: "fst ` set alpn \<subseteq> {''alpn''}" if "(if tls then cl_alpn ib else Inr []) = Inr alpn" for alpn
    using that by (auto simp: cl_alpn_def map_sum_Inr split: if_splits)
  from assms show ?thesis
  proof (cases "jget ib ''protocol'' = JStr ''shadowsocks''")
    case True
    then show ?thesis using assms by (auto simp: cl_make_node_def then_res_Inr Let_def jget_Cons cl_kind_def)
  next
    case False
    let ?node = "[(''name'', JStr remark), (''type'', jget ib ''protocol''), (''server'', JStr address), (''port'', jget ib ''port''),
         (''network'', cl_network ib), (''udp'', JBool True)]"
    let ?ais = "if json_true (jget_or ib ''ais'' (JBool False)) then [(''skip-cert-verify'', jget_or ib ''ais'' (JBool False))] else []"
    show ?thesis
    proof (cases "jget ib ''protocol'' = JStr ''ss''")
      case True
      then show ?thesis using assms by (auto simp: cl_make_node_def then_res_Inr Let_def jget_Cons cl_kind_def)
    next
      case no_ss: False
      obtain alpn options mux where a: "(if tls then cl_alpn ib else Inr []) = Inr alpn"
        and node: "node = fold (\<lambda>(k, v). jset k v) ((if tls then [(''tls'', JBool True),
             (if jget ib ''protocol'' = JStr ''trojan'' then ''sni'' else ''servername'', jget ib ''sni'')] @ alpn @ ?ais else []) @
             [(py_str (cl_network ib) @ ''-opts'', JObj options)] @
             (if json_true (jget ib ''mux_enable'') then [(''smux'', mux)] else [])) ?node"
        using assms unfolding cl_make_node_def Let_def if_not_P [OF False] if_not_P [OF no_ss] then_res_Inr case_prod_beta
        by auto
      have "fst ` set ((if tls then [(''tls'', JBool True),
             (if jget ib ''protocol'' = JStr ''trojan'' then ''sni'' else ''servername'', jget ib ''sni'')] @ alpn @ ?ais else []) @
             [(py_str (cl_network ib) @ ''-opts'', JObj options)] @
             (if json_true (jget ib ''mux_enable'') then [(''smux'', mux)] else [])) \<inter> {''name'', ''type'', ''server'', ''port''} = {}"
        by (rule keys [OF alpn [OF a]]) auto
      then have other: "jget node k = jget ?node k" if "k \<in> {''name'', ''type'', ''server'', ''port''}" for k
        unfolding node using that by (intro jget_fold_other) blast
      show ?thesis using False by (simp add: other jget_Cons cl_kind_def)
    qed
  qed
qed

lemma cl_user_keys:
  assumes "cl_user meta ib st = Inr (Some us)"
  shows "fst ` set us \<subseteq> {''uuid'', ''alterId'', ''cipher'', ''flow'', ''password''}"
    and "known_protocol ib \<and> (jget ib ''protocol'' = JStr ''vless'' \<longrightarrow> meta)"
    and "\<exists>v ys. us = (if has_uuid ib then ''uuid'' else ''password'', v) # ys \<and>
      (if has_uuid ib then ''uuid'' else ''password'') \<notin> fst ` set ys \<and>
      credential st (if has_uuid ib then ''id'' else ''password'') = Inr v"
  using assms by (auto simp: cl_user_def has_uuid_def known_protocol_def proxy_kinds_def then_res_Inr map_sum_Inr Let_def
      split: if_splits)

lemma cl_user_none:
  assumes "cl_user meta ib st = Inr None"
  shows "\<not> (known_protocol ib \<and> (jget ib ''protocol'' = JStr ''vless'' \<longrightarrow> meta))"
  using assms by (auto simp: cl_user_def known_protocol_def proxy_kinds_def then_res_Inr map_sum_Inr Let_def split: if_splits)

lemma cl_add_step:
  assumes add: "cl_add tp meta r remark address ib st doc = Some (Inr doc')" and good: "cl_good doc"
  shows "cl_good doc' \<and> (if cl_known meta ib
    then \<exists>x. cd_proxies doc' = cd_proxies doc @ [x] \<and> carries cl_kind ''port'' x (remark, address, ib, st)
    else cd_proxies doc' = cd_proxies doc)"
proof (cases "unsupported ib \<or> meta \<and> odd_quic ib")
  case True
  then show ?thesis using add good by (auto simp: cl_add_def cl_known_def)
next
  case False
  obtain name node user where name: "remark_validation (cd_remarks doc) remark = Some name"
    and node: "cl_make_node tp (snd r) (cl_tls meta ib) name address ib = Inr node" and user: "cl_user meta ib st = Inr user"
    and doc': "(case user of None \<Rightarrow> Inr doc
        | Some us \<Rightarrow> Inr \<lparr>cd_proxies = cd_proxies doc @
              [fold (\<lambda>(k, v). jset k v) (meta_entries meta ib @ us) node],
            cd_remarks = cd_remarks doc @ [name]\<rparr>) = (Inr doc' :: cl_document result)"
    using add unfolding cl_add_def if_not_P [OF False] map_option_eq_Some then_res_Inr by blast
  show ?thesis
  proof (cases user)
    case None
    then have "\<not> cl_known meta ib" using cl_user_none [of meta ib st] user by (auto simp: cl_known_def)
    then show ?thesis using None doc' good by simp
  next
    case (Some us)
    let ?m = "meta_entries meta ib" and ?c = "if has_uuid ib then ''uuid'' else ''password''"
    obtain x where x: "x = fold (\<lambda>(k, v). jset k v) (?m @ us) node" by blast
    have u: "cl_user meta ib st = Inr (Some us)" using user Some by simp
    obtain v ys where us: "us = (?c, v) # ys" "?c \<notin> fst ` set ys"
      and v: "credential st (if has_uuid ib then ''id'' else ''password'') = Inr v" using cl_user_keys(3) [OF u] by blast
    have "fst ` set (?m @ us) \<inter> {''name'', ''type'', ''server'', ''port''} = {}"
      using cl_user_keys(1) [OF u] by (auto simp: meta_entries_def)
    then have other: "jget x k = jget node k" if "k \<in> {''name'', ''type'', ''server'', ''port''}" for k
      unfolding x using that by (intro jget_fold_other) blast
    have base: "jget x ''name'' = JStr name" "jget x ''type'' = cl_kind (jget ib ''protocol'')"
      "jget x ''server'' = JStr address" "jget x ''port'' = jget ib ''port''"
      using cl_node_form [OF node] by (simp_all add: other)
    have "jget x ?c = v" unfolding x us(1) append_Cons [symmetric] using us(2) by (rule jget_fold_last)
    then have "carries cl_kind ''port'' x (remark, address, ib, st)"
      using v by (auto simp: carries_def base split: json.splits)
    moreover have d: "doc' = \<lparr>cd_proxies = cd_proxies doc @ [x], cd_remarks = cd_remarks doc @ [name]\<rparr>"
      using doc' Some by (simp add: x)
    moreover have "cl_good doc'" using good remark_validation_Some [OF name] by (simp add: cl_good_def d base)
    moreover have "cl_known meta ib" using False cl_user_keys(2) [OF u] by (simp add: cl_known_def)
    ultimately show ?thesis by auto
  qed
qed

section \<open>Whole documents\<close>

lemma document_of_defined: "(\<And>r p s. add r p s \<noteq> None) \<Longrightarrow> document_of rc u add s \<noteq> None"
  unfolding document_of_def by (rule document_fold_defined)

lemma documents_defined: "clash_document rc meta u \<noteq> None" "singbox_document rc u \<noteq> None"
  unfolding clash_document_def singbox_document_def
  by (rule document_of_defined; use add_defined in \<open>auto split: prod.split\<close>)+

definition user_entries :: "request_context \<Rightarrow> link_user \<Rightarrow> link_entry list" where
  "user_entries rc u = entries_of_user (rc_order rc) (rc_fresh rc) u (rc_state rc)"

lemma singbox_items:
  assumes "singbox_document rc u = Some (Inr doc)"
  shows "sb_good doc \<and> (\<exists>ps. map_res (parts_of_entry rc u) (user_entries rc u) = Inr ps \<and>
    list_all2 (carries id ''server_port'') (sd_outbounds doc) (filter (\<lambda>(_, _, ib, _). \<not> unsupported ib \<and> \<not> odd_quic ib) ps))"
proof -
  have "sb_good doc \<and> (\<exists>ps xs. map_res (parts_of_entry rc u) (user_entries rc u) = Inr ps \<and>
      sd_outbounds doc = sd_outbounds \<lparr>sd_outbounds = [], sd_remarks = []\<rparr> @ xs \<and>
      list_all2 (carries id ''server_port'') xs (filter (\<lambda>(_, _, ib, _). \<not> unsupported ib \<and> \<not> odd_quic ib) ps))"
  proof (rule document_fold_items [OF assms [unfolded singbox_document_def document_of_def, folded user_entries_def]],
      goal_cases)
    case (2 i p s s')
    obtain remark address ib st where p: "p = (remark, address, ib, st)" by (cases p)
    show ?case using sb_add_step 2 unfolding p prod.case by blast
  qed (simp add: sb_good_def)
  then show ?thesis by simp
qed

lemma clash_items:
  assumes "clash_document rc meta u = Some (Inr doc)"
  shows "cl_good doc \<and> (\<exists>ps. map_res (parts_of_entry rc u) (user_entries rc u) = Inr ps \<and>
    list_all2 (carries cl_kind ''port'') (cd_proxies doc) (filter (\<lambda>(_, _, ib, _). cl_known meta ib) ps))"
proof -
  have "cl_good doc \<and> (\<exists>ps xs. map_res (parts_of_entry rc u) (user_entries rc u) = Inr ps \<and>
      cd_proxies doc = cd_proxies \<lparr>cd_proxies = [], cd_remarks = []\<rparr> @ xs \<and>
      list_all2 (carries cl_kind ''port'') xs (filter (\<lambda>(_, _, ib, _). cl_known meta ib) ps))"
  proof (rule document_fold_items [OF assms [unfolded clash_document_def document_of_def, folded user_entries_def]],
      goal_cases)
    case (2 i p s s')
    obtain remark address ib st where p: "p = (remark, address, ib, st)" by (cases p)
    show ?case using cl_add_step 2 unfolding p prod.case by blast
  qed (simp add: cl_good_def)
  then show ?thesis by simp
qed

text \<open>An entry that cannot be added leaves no document.\<close>

lemma document_fold_fails:
  assumes "e \<in> set es" and "\<And>p i s s'. parts e = Inr p \<Longrightarrow> add i p s \<noteq> Some (Inr s')"
  shows "document_fold parts add i es s \<noteq> Some (Inr s')"
  using assms(1)
proof (induction es arbitrary: i s)
  case (Cons x xs)
  then show ?case using assms(2) by (cases "x = e") (auto simp: document_fold_step simp del: document_fold.simps(2))
qed simp

section \<open>Edits\<close>

lemma jget_edits [simp]:
  "assign k v d = Inr d' \<Longrightarrow> jget d' l = (if l = k then v else jget d l)"
  "default_to k v d = Inr d' \<Longrightarrow> l \<noteq> k \<Longrightarrow> jget d' l = jget d l"
  "edit_in k f d = Inr d' \<Longrightarrow> l \<noteq> k \<Longrightarrow> jget d' l = jget d l"
proof -
  show "edit_in k f d = Inr d' \<Longrightarrow> l \<noteq> k \<Longrightarrow> jget d' l = jget d l"
    unfolding edit_in_def then_res_Inr by (elim exE conjE, rename_tac x, case_tac x) (auto simp: map_sum_Inr)
qed (auto simp: assign_def default_to_def)

lemma edits_Cons: "edits (f # fs) d = then_res (f d) (edits fs)"
  by (cases "f d") (simp_all add: edits_def)

lemma edits_Nil [simp]: "edits [] d = Inr d"
  by (simp add: edits_def)

lemma edit_in_missing: "map_of d k = None \<Longrightarrow> edit_in k f d = Inl Key_error"
  by (simp add: edit_in_def jkey_def)

lemma http_config_path:
  assumes "v2_http_config st agents r path ib = Inr d"
  shows "jget d ''path'' = JStr path"
proof -
  obtain d0 d1 d2 d3 where 1: "default_to ''header'' (JObj []) d0 = Inr d1" and 2: "assign ''path'' (JStr path) d1 = Inr d2"
    and 3: "assign ''host'' (JArr (if json_true (jget ib ''host'') then [jget ib ''host''] else [])) d2 = Inr d3"
    and 4: "only (wants_agent ib) (with_choice r agents (\<lambda>a. edit_in ''headers'' (assign ''User-Agent'' (JArr [a])))) d3 = Inr d"
    using assms unfolding v2_http_config_def Let_def edits_Cons then_res_Inr edits_Nil by auto
  have "jget d ''path'' = jget d3 ''path''"
    using 4 by (auto simp: only_def with_choice_def then_res_Inr split: if_splits)
  then show ?thesis using 2 3 by simp
qed

end
