(* ===== verification/DocumentProperties.thy ===== *)
theory DocumentProperties
  imports DocumentFacts Samples
begin

text \<open>
  Properties of the documents of a subscription: every request for one ends, the proxies in a document
  are the hosts of the user with the credentials of the user and names of their own, groups name what
  is there; and what goes wrong with the HTTP transport.
\<close>

section \<open>Samples\<close>

definition sample_templates :: templates where
  "sample_templates = \<lparr>tp_v2ray = [(''outbounds'', JArr [])], tp_v2ray_settings = [(''httpSettings'', JObj [(''headers'', JObj [])])],
     tp_singbox = [(''outbounds'', JArr [JObj [(''type'', JStr ''selector''), (''tag'', JStr ''proxy'')]])],
     tp_singbox_settings = [], tp_clash_settings = [], tp_clash = (\<lambda>ps ns. Inr (joined '', '' ns)),
     tp_mux = [(''v2ray'', JObj []), (''sing-box'', JObj [(''enabled'', JBool False)]), (''clash'', JObj [])],
     tp_agents = [(''list'', JArr [JStr ''agent''])], tp_grpc_agents = []\<rparr>"

definition plain_inbound :: json_dict where
  "plain_inbound = [(''tag'', JStr ''t''), (''protocol'', JStr ''trojan''), (''port'', JInt 1), (''network'', JStr ''tcp''),
     (''tls'', JStr ''none''), (''sni'', JArr []), (''host'', JArr []), (''path'', JStr []), (''header_type'', JStr ''http'')]"

definition named_host :: "int \<Rightarrow> string \<Rightarrow> host_dict" where
  "named_host i address = host_to_dict ((default_host i ''t'')\<lparr>host_remark := ''r'', host_address := address\<rparr>) []"

text \<open>Two hosts with the same remark, the first of which asks for a random user agent when \<open>agent\<close> says so.\<close>

definition two_hosts :: "bool \<Rightarrow> link_state" where
  "two_hosts agent = \<lparr>ls_by_tag = [(''t'', plain_inbound)],
     ls_map = [(''t'', [(named_host 1 ''a'')\<lparr>hd_row := (hd_row (named_host 1 ''a''))\<lparr>host_random_user_agent := Some agent\<rparr>\<rparr>,
        named_host 2 ''b''])], ls_refreshed = False\<rparr>"

definition two_host_request :: "bool \<Rightarrow> request_context" where
  "two_host_request agent = \<lparr>rc_order = id, rc_env = sample_env, rc_sha = id, rc_password = ''p'',
     rc_link = \<lparr>lc_vars = id, lc_rich = Inr\<rparr>, rc_external = [], rc_templates = sample_templates,
     rc_draws = (\<lambda>_. (0, 0)), rc_fresh = \<lparr>fs_by_tag = [], fs_map = None\<rparr>, rc_state = two_hosts agent\<rparr>"

definition trojan_user :: link_user where
  "trojan_user = \<lparr>lu_key = None, lu_flow = None, lu_proxies = [(Trojan, [(''password'', SStr ''w'')])],
     lu_service = None, lu_inbounds = [(Trojan, [''t''])], lu_orders = []\<rparr>"

section \<open>Making a document ends\<close>

text \<open>C17. Every request for a subscription is answered: for every kind of document, every user, whatever hosts,
  remarks and templates there are, the document is made or an exception is raised, though the loop that
  puts numbers behind equal remarks has no bound.\<close>

theorem subscriptions_are_made: "\<exists>r. generate_subscription rc config_format as_base64 reverse u = Some r"
proof -
  have "document_of rc u (\<lambda>r (remark, address, ib, st) doc. Some (ol_add remark address ib st doc)) [] \<noteq> None"
    "document_of rc u (\<lambda>r (remark, address, ib, st) doc. Some (v2_add (rc_templates rc) r remark address ib st doc))
       (new_v2_document (rc_templates rc)) \<noteq> None"
    by (rule document_of_defined; simp split: prod.split)+
  then show ?thesis
    using documents_defined
    by (simp add: generate_subscription_def generate_clash_subscription_def generate_singbox_subscription_def
        generate_outline_subscription_def generate_v2ray_json_subscription_def finish_def)
qed

section \<open>What a document offers\<close>

text \<open>C15. A document for sing-box has one outbound for each host of the user that sing-box supports, in the order
  of the links, with the address, the port, the protocol and the credential of the user; the tags
  of these outbounds are different from each other. The template that they are put into has outbounds of its
  own, whose tags may be among them.\<close>

theorem singbox_document_exact:
  assumes "singbox_document rc u = Some (Inr doc)"
  shows "\<exists>ps. map_res (parts_of_entry rc u) (user_entries rc u) = Inr ps \<and>
    list_all2 (carries id ''server_port'') (sd_outbounds doc) (filter (\<lambda>(_, _, ib, _). \<not> unsupported ib \<and> \<not> odd_quic ib) ps) \<and>
    distinct (map (\<lambda>x. jget x ''tag'') (sd_outbounds doc))"
proof -
  have "distinct (map JStr (sd_remarks doc))" if "distinct (sd_remarks doc)"
    using that by (simp add: distinct_map inj_on_def)
  then show ?thesis using singbox_items [OF assms] by (auto simp: sb_good_def)
qed

lemma two_hosts_singbox:
  "map_option (map_sum id (\<lambda>d. (sd_remarks d, map (\<lambda>x. jget x ''server'') (sd_outbounds d))))
     (singbox_document (two_host_request False) trojan_user) = Some (Inr ([''r'', ''r (2)''], [JStr ''a'', JStr ''b'']))"
  by code_simp

lemma singbox_document_exact_witness:
  "\<exists>doc ps. singbox_document (two_host_request False) trojan_user = Some (Inr doc) \<and>
     map (\<lambda>x. jget x ''server'') (sd_outbounds doc) = [JStr ''a'', JStr ''b''] \<and>
     list_all2 (carries id ''server_port'') (sd_outbounds doc) (filter (\<lambda>(_, _, ib, _). \<not> unsupported ib \<and> \<not> odd_quic ib) ps) \<and>
     distinct (map (\<lambda>x. jget x ''tag'') (sd_outbounds doc))"
proof -
  obtain doc where doc: "singbox_document (two_host_request False) trojan_user = Some (Inr doc)"
    and servers: "map (\<lambda>x. jget x ''server'') (sd_outbounds doc) = [JStr ''a'', JStr ''b'']"
    using two_hosts_singbox by (auto simp: map_sum_Inr)
  obtain ps where "list_all2 (carries id ''server_port'') (sd_outbounds doc) (filter (\<lambda>(_, _, ib, _). \<not> unsupported ib \<and> \<not> odd_quic ib) ps) \<and>
      distinct (map (\<lambda>x. jget x ''tag'') (sd_outbounds doc))"
    using singbox_document_exact [OF doc] by blast
  then show ?thesis using doc servers by (intro exI [of _ doc] exI [of _ ps] conjI) simp_all
qed

text \<open>C16. The documents of Clash and Clash Meta likewise: the hosts with a protocol and a transport that the
  client has, with the address, the port and the credential of the user, under names of their own, which
  are the names that the template gets for its groups.\<close>

theorem clash_document_exact:
  assumes "clash_document rc meta u = Some (Inr doc)"
  shows "\<exists>ps. map_res (parts_of_entry rc u) (user_entries rc u) = Inr ps \<and>
    list_all2 (carries cl_kind ''port'') (cd_proxies doc) (filter (\<lambda>(_, _, ib, _). cl_known meta ib) ps) \<and>
    map (\<lambda>x. jget x ''name'') (cd_proxies doc) = map JStr (cd_remarks doc) \<and> distinct (cd_remarks doc)"
  using clash_items [OF assms] by (auto simp: cl_good_def)

lemma two_hosts_clash:
  "map_option (map_sum id cd_remarks) (clash_document (two_host_request False) True trojan_user) =
     Some (Inr [''r'', ''r (2)''])"
  by code_simp

lemma clash_document_exact_witness:
  "\<exists>doc ps. clash_document (two_host_request False) True trojan_user = Some (Inr doc) \<and>
     list_all2 (carries cl_kind ''port'') (cd_proxies doc) (filter (\<lambda>(_, _, ib, _). cl_known True ib) ps) \<and>
     map (\<lambda>x. jget x ''name'') (cd_proxies doc) = [JStr ''r'', JStr ''r (2)'']"
proof -
  obtain doc where doc: "clash_document (two_host_request False) True trojan_user = Some (Inr doc)"
    and names: "cd_remarks doc = [''r'', ''r (2)'']" using two_hosts_clash by (auto simp: map_sum_Inr)
  from clash_document_exact [OF doc] show ?thesis using doc names by auto
qed

section \<open>A random user agent\<close>

text \<open>A host at an inbound with the HTTP header over TCP that asks for a random user agent leaves its users
  without a Clash document: the code sets the agent in an entry \<open>header\<close>, which neither the default
  nor, unless somebody wrote it there, the template has; the entry is called \<open>headers\<close>.\<close>

theorem clash_agent_fails:
  assumes entry: "e \<in> set (user_entries rc u)" "parts_of_entry rc u e = Inr (remark, address, ib, st)"
    and ib: "jget ib ''network'' \<in> {JStr ''tcp'', JStr ''raw''}" "jget ib ''header_type'' = JStr ''http''" "wants_agent ib"
      "jget ib ''protocol'' \<notin> {JStr ''shadowsocks'', JStr ''ss''}"
    and template: "template_entry (tp_clash_settings (rc_templates rc)) ''http-opts'' [(''headers'', JObj [])] = Inr opts"
      "map_of opts ''header'' = None"
  shows "clash_document rc meta u \<noteq> Some (Inr doc)"
proof -
  let ?st = "tp_clash_settings (rc_templates rc)"
  have net: "cl_network ib = JStr ''http''" using ib(1,2) by (auto simp: cl_network_def)
  have none: "cl_http_config ?st agents r path ib \<noteq> Inr opts'" for agents r path opts'
  proof
    assume "cl_http_config ?st agents r path ib = Inr opts'"
    then obtain d1 d2 d3 where 1: "only (path \<noteq> []) (assign ''path'' (JArr [JStr path])) opts = Inr d1"
      and 2: "only (json_true (jget ib ''host'')) (assign ''Host'' (jget ib ''host'')) d1 = Inr d2"
      and 3: "default_to ''headers'' (JObj []) d2 = Inr d3"
      and 4: "with_choice r agents (\<lambda>a. edit_in ''header'' (assign ''User-Agent'' a)) d3 = Inr opts'"
      using ib(3) unfolding cl_http_config_def template(1) Let_def edits_Cons then_res_Inr edits_Nil
      by (auto simp: only_def [of True])
    have "map_of d3 ''header'' = None"
      using template(2) 1 2 3 by (auto simp: only_def assign_def default_to_def update_conv' split: if_splits)
    then show False using 4 by (auto simp: with_choice_def then_res_Inr edit_in_missing)
  qed
  have "cl_make_node tp r tls name address ib \<noteq> Inr node" if "tp = rc_templates rc" for tp r tls name node
    using none that ib(4) net unfolding cl_make_node_def Let_def then_res_Inr
    by (auto simp: cl_options_def then_res_Inr split: if_splits prod.splits)
  then have no_node: "then_res (cl_make_node (rc_templates rc) r tls name address ib) f \<noteq> Inr doc'" for r tls name f and doc' :: cl_document
    by (auto simp: then_res_Inr)
  have "\<not> unsupported ib" "\<not> odd_quic ib" using ib(1) by (auto simp: unsupported_def odd_quic_def)
  then have never: "cl_add (rc_templates rc) meta r remark address ib st doc \<noteq> Some (Inr doc')" for r doc doc'
    using no_node by (auto simp: cl_add_def)
  show ?thesis unfolding clash_document_def document_of_def user_entries_def [symmetric]
  proof (rule document_fold_fails [OF entry(1)])
    fix p i s s' assume "parts_of_entry rc u e = Inr p"
    then have p: "p = (remark, address, ib, st)" by (simp add: entry(2))
    show "(case p of (remark, address, ib, st) \<Rightarrow> cl_add (rc_templates rc) meta (rc_draws rc i) remark address ib st) s \<noteq> Some (Inr s')"
      unfolding p prod.case by (rule never)
  qed
qed

lemma two_hosts_parts:
  "(case user_entries (two_host_request True) trojan_user of
      [e, _] \<Rightarrow> (case parts_of_entry (two_host_request True) trojan_user e of
         Inr (_, _, ib, _) \<Rightarrow> jget ib ''network'' = JStr ''tcp'' \<and> jget ib ''header_type'' = JStr ''http'' \<and> wants_agent ib \<and>
           jget ib ''protocol'' = JStr ''trojan''
       | _ \<Rightarrow> False)
    | _ \<Rightarrow> False)"
  by code_simp

lemma clash_agent_fails_witness:
  "\<exists>e. clash_document (two_host_request True) True trojan_user = Some (Inl e)"
proof -
  let ?rc = "two_host_request True"
  obtain e1 e2 remark address ib st where e: "user_entries ?rc trojan_user = [e1, e2]"
    and p: "parts_of_entry ?rc trojan_user e1 = Inr (remark, address, ib, st)"
    and ib: "jget ib ''network'' = JStr ''tcp''" "jget ib ''header_type'' = JStr ''http''" "wants_agent ib"
      "jget ib ''protocol'' = JStr ''trojan''"
    using two_hosts_parts by (auto split: list.splits sum.splits)
  have t: "template_entry (tp_clash_settings (rc_templates ?rc)) ''http-opts'' [(''headers'', JObj [])] = Inr [(''headers'', JObj [])]"
    by (simp add: template_entry_def two_host_request_def sample_templates_def)
  have "clash_document ?rc True trojan_user \<noteq> Some (Inr doc)" for doc
    by (rule clash_agent_fails [OF _ p _ _ _ _ t]) (simp_all add: e ib)
  then show ?thesis using documents_defined(1) [of ?rc True trojan_user]
    by (metis not_None_eq old.sum.exhaust)
qed

section \<open>Groups\<close>

text \<open>In the outbounds of a sing-box document every group, a selector or a test, lists all proxies of the user,
  and only tags of outbounds that are in the document.\<close>

theorem singbox_groups_exact:
  assumes outs: "sb_all_outbounds tp doc = Inr outs" and kinds: "list_all (\<lambda>x. jget x ''type'' \<in> set proxy_kinds) (sd_outbounds doc)"
    and group: "out \<in> set outs" "jget out ''type'' \<in> {JStr ''urltest'', JStr ''selector''}"
  shows "\<exists>tags. jget out ''outbounds'' = JArr tags \<and>
    set (map (\<lambda>x. jget x ''tag'') (sd_outbounds doc)) \<subseteq> set tags \<and> set tags \<subseteq> (\<lambda>x. jget x ''tag'') ` set outs"
proof -
  obtain v where v: "(case v of JArr os \<Rightarrow> then_res (map_res (\<lambda>x. case x of JObj kvs \<Rightarrow> Inr kvs | _ \<Rightarrow> Inl Type_error) os) (\<lambda>base.
       then_res (tags_of_kinds proxy_kinds (base @ sd_outbounds doc)) (\<lambda>tests.
       then_res (tags_of_kinds (proxy_kinds @ [JStr ''urltest'']) (base @ sd_outbounds doc)) (\<lambda>selected.
         Inr (map (fill_groups tests selected) (base @ sd_outbounds doc))))) | _ \<Rightarrow> Inl Type_error) = Inr outs"
    using outs unfolding sb_all_outbounds_def then_res_Inr Let_def by blast
  then obtain base tests selected where tests: "tags_of_kinds proxy_kinds (base @ sd_outbounds doc) = Inr tests"
    and selected: "tags_of_kinds (proxy_kinds @ [JStr ''urltest'']) (base @ sd_outbounds doc) = Inr selected"
    and form: "outs = map (fill_groups tests selected) (base @ sd_outbounds doc)"
    by (cases v) (auto simp: then_res_Inr simp del: map_append)
  have tag: "jget (fill_groups tests selected x) ''tag'' = jget x ''tag''" "jget (fill_groups tests selected x) ''type'' = jget x ''type''" for x
    by (simp_all add: fill_groups_def)
  have all: "set tags = (\<lambda>x. jget x ''tag'') ` {x \<in> set xs. jget x ''type'' \<in> set ks}" if "tags_of_kinds ks xs = Inr tags" for ks xs tags
    using that
  proof (induction xs arbitrary: tags)
    case (Cons x xs)
    obtain t ts rest where x: "jkey x ''type'' = Inr t" and ts: "(if t \<in> set ks then map_sum id (\<lambda>x. [x]) (jkey x ''tag'') else Inr []) = Inr ts"
      and rest: "tags_of_kinds ks xs = Inr rest" and tags: "tags = ts @ rest"
      using Cons.prems by (auto simp: tags_of_kinds_def map_sum_Inr then_res_Inr split: sum.splits)
    have "jget x ''type'' = t" using x by (auto simp: jkey_def jget_def split: option.splits)
    moreover have "set ts = (if t \<in> set ks then {jget x ''tag''} else {})"
      using ts by (auto simp: map_sum_Inr jkey_def jget_def split: option.splits if_splits)
    ultimately show ?case using Cons.IH [OF rest] tags by auto
  qed (simp add: tags_of_kinds_def)
  have own: "(\<lambda>x. jget x ''tag'') ` set (sd_outbounds doc) \<subseteq> set tests" "set tests \<subseteq> set selected"
    using kinds unfolding all [OF tests] all [OF selected] by (auto simp: list_all_iff)
  have there: "set selected \<subseteq> (\<lambda>x. jget x ''tag'') ` set outs"
    unfolding all [OF selected] form set_map image_image tag by blast
  obtain x where x: "x \<in> set (base @ sd_outbounds doc)" "out = fill_groups tests selected x" using group(1) form by auto
  then have "jget out ''outbounds'' \<in> {JArr tests, JArr selected}"
    using group(2) by (auto simp: fill_groups_def)
  then show ?thesis using own there by (auto 4 4)
qed

definition one_outbound :: sb_document where
  "one_outbound = \<lparr>sd_outbounds = [[(''type'', JStr ''trojan''), (''tag'', JStr ''r'')]], sd_remarks = [''r'']\<rparr>"

lemma singbox_groups_exact_witness:
  "\<exists>outs out tags. sb_all_outbounds sample_templates one_outbound = Inr outs \<and> out \<in> set outs \<and>
     jget out ''tag'' = JStr ''proxy'' \<and> jget out ''outbounds'' = JArr tags \<and> JStr ''r'' \<in> set tags"
proof -
  let ?group = "[(''type'', JStr ''selector''), (''tag'', JStr ''proxy''), (''outbounds'', JArr [JStr ''r''])]"
  have outs: "sb_all_outbounds sample_templates one_outbound = Inr [?group, [(''type'', JStr ''trojan''), (''tag'', JStr ''r'')]]"
    by code_simp
  have "\<exists>tags. jget ?group ''outbounds'' = JArr tags \<and>
      set (map (\<lambda>x. jget x ''tag'') (sd_outbounds one_outbound)) \<subseteq> set tags \<and>
      set tags \<subseteq> (\<lambda>x. jget x ''tag'') ` set [?group, [(''type'', JStr ''trojan''), (''tag'', JStr ''r'')]]"
    by (rule singbox_groups_exact [OF outs]) (simp_all add: one_outbound_def proxy_kinds_def jget_def)
  then show ?thesis using outs
    by (intro exI [of _ "[?group, [(''type'', JStr ''trojan''), (''tag'', JStr ''r'')]]"] exI [of _ ?group])
      (auto simp: one_outbound_def jget_def)
qed

section \<open>The HTTP transport in JSON documents\<close>

definition http_path_of :: "json_dict \<Rightarrow> json" where
  "http_path_of config = (case jget config ''outbounds'' of
     JArr (JObj out # _) \<Rightarrow> (case jget out ''streamSettings'' of
       JObj ss \<Rightarrow> (case jget ss ''httpSettings'' of JObj h \<Rightarrow> jget h ''path'' | _ \<Rightarrow> JNull) | _ \<Rightarrow> JNull)
   | _ \<Rightarrow> JNull)"

lemma v2_outbounds_form:
  assumes "v2_outbounds tp st r address ib s = Inr (outs, network)"
  obtains out dialer ss where "outs = out # dialer" and "jget out ''streamSettings'' = JObj ss"
proof -
  obtain port proto ss dialer out where proto: "v2_protocol_settings ib s address port = Inr proto" and outs: "outs = out # dialer"
    and out: "v2_mux tp ib ([(''tag'', JStr ''proxy''), (''protocol'', jget ib ''protocol'')] @ proto @
         [(''streamSettings'', JObj ss)]) = Inr out"
    using assms unfolding v2_outbounds_def then_res_Inr by blast
  have "''streamSettings'' \<notin> fst ` set proto"
    using proto by (auto simp: v2_protocol_settings_def then_res_Inr Let_def split: if_splits)
  then have "jget out ''streamSettings'' = JObj ss"
    using out by (auto simp: v2_mux_def then_res_Inr jget_append jget_Cons split: if_splits json.splits)
  then show ?thesis using that outs by blast
qed

text \<open>Two hosts with the network \<open>http\<close>, the second added later: the configuration of the first shows the
  path of the second, because both hold the entry of the template, which is not copied.\<close>

theorem http_hosts_share_a_path:
  assumes one: "v2_add tp r remark address ib st doc = Inr doc1" and two: "v2_add tp r' remark' address' ib' st' doc1 = Inr doc2"
    and http: "jget ib ''network'' = JStr ''http''" "jget ib' ''network'' = JStr ''http''"
    and template: "map_of (vd_settings doc) ''httpSettings'' \<noteq> None"
    and path: "client_path ib' = Inr path"
  shows "http_path_of (v2_configs doc2 ! length (vd_configs doc)) = JStr path"
proof -
  have shared: "shares_http (vd_settings doc) ib" using http(1) template by (simp add: shares_http_def)
  obtain outs net config where a: "v2_outbounds tp (vd_settings doc) r address ib st = Inr (outs, net)"
    and c: "v2_add_config tp remark outs = Inr config"
    and doc1: "doc1 = \<lparr>vd_settings = jset ''httpSettings'' (JObj net) (vd_settings doc), vd_configs = vd_configs doc @ [(True, config)]\<rparr>"
    using one shared unfolding v2_add_def then_res_Inr by (auto simp: then_res_Inr jset_if_def)
  have shared': "shares_http (vd_settings doc1) ib'" using http(2) by (simp add: shares_http_def doc1 update_conv)
  obtain outs' net' config' where a': "v2_outbounds tp (vd_settings doc1) r' address' ib' st' = Inr (outs', net')"
    and doc2: "doc2 = \<lparr>vd_settings = jset ''httpSettings'' (JObj net') (vd_settings doc1), vd_configs = vd_configs doc1 @ [(True, config')]\<rparr>"
    using two shared' unfolding v2_add_def then_res_Inr by (auto simp: then_res_Inr jset_if_def)
  obtain out dialer ss where outs: "outs = out # dialer" "jget out ''streamSettings'' = JObj ss" by (rule v2_outbounds_form [OF a])
  obtain os where config: "config = jset ''outbounds'' (JArr (map JObj outs @ os)) (jset ''remarks'' (JStr remark) (tp_v2ray tp))"
    using c unfolding v2_add_config_def then_res_Inr by (elim exE conjE, rename_tac v, case_tac v) auto
  have "v2_network_config tp (vd_settings doc1) (snd r') path ib' = Inr net'"
    using a' path unfolding v2_outbounds_def then_res_Inr by auto
  then have "jget net' ''path'' = JStr path" using http(2) by (auto simp: v2_network_config_def Let_def dest: http_config_path)
  then have "http_path_of (put_shared (JObj net') config) = JStr path"
    by (simp add: config outs put_shared_def http_path_of_def)
  moreover have "v2_configs doc2 ! length (vd_configs doc) = put_shared (JObj net') config"
    by (simp add: v2_configs_def doc2 doc1 nth_append)
  ultimately show ?thesis by simp
qed

definition http_settings :: "string \<Rightarrow> json_dict" where
  "http_settings p = [(''protocol'', JStr ''trojan''), (''port'', JInt 1), (''network'', JStr ''http''), (''tls'', JStr ''none''),
     (''sni'', JStr []), (''host'', JStr []), (''path'', JStr p), (''header_type'', JStr []), (''fragment_setting'', JNull),
     (''noise_setting'', JNull)]"

lemma http_hosts_share_a_path_witness:
  "map_sum id (\<lambda>doc. map http_path_of (v2_configs doc))
     (then_res (v2_add sample_templates (0, 0) ''r'' ''a'' (http_settings ''/one'') [(''password'', SStr ''w'')] (new_v2_document sample_templates))
        (v2_add sample_templates (0, 0) ''r'' ''a'' (http_settings ''/two'') [(''password'', SStr ''w'')])) =
     Inr [JStr ''/two'', JStr ''/two'']"
proof -
  let ?st = "[(''password'', SStr ''w'')]" and ?doc = "new_v2_document sample_templates"
  have "case then_res (v2_add sample_templates (0, 0) ''r'' ''a'' (http_settings ''/one'') ?st ?doc)
        (v2_add sample_templates (0, 0) ''r'' ''a'' (http_settings ''/two'') ?st) of
      Inr doc \<Rightarrow> length (v2_configs doc) = 2 \<and> http_path_of (v2_configs doc ! 1) = JStr ''/two'' | Inl _ \<Rightarrow> False"
    by code_simp
  then obtain doc1 doc2 where one: "v2_add sample_templates (0, 0) ''r'' ''a'' (http_settings ''/one'') ?st ?doc = Inr doc1"
    and two: "v2_add sample_templates (0, 0) ''r'' ''a'' (http_settings ''/two'') ?st doc1 = Inr doc2"
    and last: "length (v2_configs doc2) = 2" "http_path_of (v2_configs doc2 ! 1) = JStr ''/two''"
    by (auto split: sum.splits simp: then_res_Inr)
  have "http_path_of (v2_configs doc2 ! length (vd_configs ?doc)) = JStr ''/two''"
    by (rule http_hosts_share_a_path [OF one two]) (simp_all add: http_settings_def jget_def new_v2_document_def
        sample_templates_def client_path_def)
  then have "http_path_of (v2_configs doc2 ! 0) = JStr ''/two''" by (simp add: new_v2_document_def)
  moreover obtain c1 c2 where "v2_configs doc2 = [c1, c2]"
    using last(1) by (auto simp: numeral_2_eq_2 length_Suc_conv)
  ultimately show ?thesis using last(2) by (simp add: one two)
qed

end
