(* ===== verification/Redis.thy ===== *)
theory Redis
  imports AdminAuth Credentials
begin

text \<open>
  The part of Redis that the panel uses for users, from \<open>app/redis/cache.py\<close> and
  \<open>app/redis/subscription.py\<close>: cached users, users marked to be written back, pending usage, and the
  names and keys of subscriptions. \<open>None\<close> for the server is a server that cannot be reached, which
  every function answers by doing nothing. Keys that expire are not removed by the operations here.
\<close>

named_theorems redis_simps "what the operations leave in Redis"

section \<open>State\<close>

text \<open>
  A pending list has its newest entry first. \<open>rd_pending\<close> is in the order in which the keys are
  scanned.
\<close>

type_synonym pending_entry = "int \<times> instant option"

record redis =
  rd_user_keys :: "string \<rightharpoonup> user"
  rd_id_keys :: "int \<rightharpoonup> user"
  rd_sync_keys :: "int \<rightharpoonup> user"
  rd_sync_set :: "int list"
  rd_user_list :: "user list option"
  rd_pending :: "(int \<times> pending_entry list) list"
  rd_total :: "int \<rightharpoonup> int"
  rd_online :: "int \<rightharpoonup> instant"
  rd_admin_pending :: "(int \<times> int list) list"
  rd_service_pending :: "(int \<times> int list) list"
  rd_sub_names :: "string list"
  rd_sub_keys :: "string \<rightharpoonup> string"

definition empty_redis :: redis where
  "empty_redis = \<lparr>rd_user_keys = Map.empty, rd_id_keys = Map.empty, rd_sync_keys = Map.empty,
     rd_sync_set = [], rd_user_list = None, rd_pending = [], rd_total = Map.empty,
     rd_online = Map.empty, rd_admin_pending = [], rd_service_pending = [], rd_sub_names = [],
     rd_sub_keys = Map.empty\<rparr>"

section \<open>Cached users\<close>

text \<open>A user as \<open>_serialize_user\<close> and \<open>_deserialize_user\<close> leave it: the other columns are lost.\<close>

definition cached_row :: "user \<Rightarrow> user" where
  "cached_row u = u\<lparr>sub_last_user_agent := None, telegram_id := None, contact_number := None,
     usage_logs := [], node_usages := []\<rparr>"

definition update_user_list :: "user \<Rightarrow> user list option \<Rightarrow> user list option" where
  "update_user_list u entries = (case entries of None \<Rightarrow> Some [cached_row u]
   | Some us \<Rightarrow> Some (filter (\<lambda>e. \<not> (uid e = uid u \<or>
       (username e \<noteq> '''' \<and> lower (username e) = lower (username u)))) us @ [cached_row u]))"

definition cache_user :: "user \<Rightarrow> bool \<Rightarrow> redis option \<Rightarrow> redis option" where
  "cache_user u mark_for_sync rd = map_option (\<lambda>r.
     (let r1 = r\<lparr>rd_id_keys := (rd_id_keys r)(uid u \<mapsto> cached_row u),
            rd_user_keys := (rd_user_keys r)(lower (username u) \<mapsto> cached_row u)\<rparr>;
          r2 = (if mark_for_sync \<and> uid u \<noteq> 0
                then r1\<lparr>rd_sync_keys := (rd_sync_keys r1)(uid u \<mapsto> cached_row u),
                       rd_sync_set := List.insert (uid u) (rd_sync_set r1)\<rparr> else r1)
      in r2\<lparr>rd_user_list := update_user_list u (rd_user_list r2)\<rparr>)) rd"

text \<open>\<open>invalidate_user_cache\<close>: dropping the list keys removes the aggregated list as well.\<close>

definition invalidate_user_cache :: "string option \<Rightarrow> int option \<Rightarrow> redis option \<Rightarrow> redis option" where
  "invalidate_user_cache name i rd = map_option (\<lambda>r.
     (let r1 = (if truthy i
            then r\<lparr>rd_sync_set := removeAll (the i) (rd_sync_set r),
                   rd_sync_keys := (rd_sync_keys r)(the i := None),
                   rd_id_keys := (rd_id_keys r)(the i := None)\<rparr> else r);
          r2 = (case str_or_none name of None \<Rightarrow> r1
            | Some n \<Rightarrow> r1\<lparr>rd_user_keys := (rd_user_keys r1)(lower n := None)\<rparr>)
      in r2\<lparr>rd_user_list := None\<rparr>)) rd"

definition clear_user_sync_pending :: "int \<Rightarrow> redis \<Rightarrow> redis" where
  "clear_user_sync_pending i r = r\<lparr>rd_sync_set := removeAll i (rd_sync_set r),
     rd_sync_keys := (rd_sync_keys r)(i := None)\<rparr>"

section \<open>Pending usage\<close>

definition pending_of :: "redis \<Rightarrow> int \<Rightarrow> pending_entry list" where
  "pending_of r i = (case map_of (rd_pending r) i of None \<Rightarrow> [] | Some es \<Rightarrow> es)"

definition cache_user_usage_update :: "int \<Rightarrow> int \<Rightarrow> instant option \<Rightarrow> redis \<Rightarrow> redis" where
  "cache_user_usage_update i delta online r = r\<lparr>
     rd_pending := AList.update i ((delta, online) # pending_of r i) (rd_pending r),
     rd_total := (rd_total r)(i \<mapsto> (case rd_total r i of None \<Rightarrow> 0 | Some t \<Rightarrow> t) + delta),
     rd_online := (case online of None \<Rightarrow> rd_online r | Some t \<Rightarrow> (rd_online r)(i \<mapsto> t))\<rparr>"

text \<open>
  \<open>get_pending_usage_updates\<close> pops from the old end of the lists until \<open>n\<close> entries are taken; a
  list that becomes empty is no key any more.
\<close>

fun pop_pending :: "nat \<Rightarrow> (int \<times> pending_entry list) list \<Rightarrow>
    (int \<times> pending_entry) list \<times> (int \<times> pending_entry list) list" where
  "pop_pending n [] = ([], [])"
| "pop_pending n ((i, es) # rest) =
     (let k = min n (length es); kept = take (length es - k) es;
          (ps, rest') = pop_pending (n - k) rest
      in (map (Pair i) (take k (rev es)) @ ps, if kept = [] then rest' else (i, kept) # rest'))"

definition get_pending_usage_updates :: "nat \<Rightarrow> redis \<Rightarrow> (int \<times> pending_entry) list \<times> redis" where
  "get_pending_usage_updates n r = (case pop_pending n (rd_pending r) of
     (ps, rest) \<Rightarrow> (ps, r\<lparr>rd_pending := rest\<rparr>))"

text \<open>
  \<open>get_user_pending_usage_state\<close>: the counter if there is one, else the sum of the list, which is
  stored as the counter.
\<close>

definition get_user_pending_usage_state :: "int \<Rightarrow> redis \<Rightarrow> (int \<times> instant option) \<times> redis" where
  "get_user_pending_usage_state i r = (case rd_total r i of
     Some t \<Rightarrow> ((t, rd_online r i), r)
   | None \<Rightarrow>
      (let total' = sum_list (map fst (pending_of r i));
           online = (case rd_online r i of Some t \<Rightarrow> Some t
             | None \<Rightarrow> (case filter (\<lambda>e. snd e \<noteq> None) (pending_of r i) of
                  [] \<Rightarrow> None | e # _ \<Rightarrow> snd e))
       in ((total', online), r\<lparr>rd_total := (rd_total r)(i \<mapsto> total')\<rparr>)))"

definition clear_user_pending_usage :: "int list \<Rightarrow> redis \<Rightarrow> redis" where
  "clear_user_pending_usage ids r = r\<lparr>
     rd_pending := filter (\<lambda>(i, _). i \<notin> set ids) (rd_pending r),
     rd_total := (rd_total r) |` (- set ids), rd_online := (rd_online r) |` (- set ids)\<rparr>"

section \<open>Reading a cached user\<close>

definition merge_online :: "instant option \<Rightarrow> user \<Rightarrow> user" where
  "merge_online online u = (case online of None \<Rightarrow> u
     | Some p \<Rightarrow> (case online_at u of None \<Rightarrow> u\<lparr>online_at := Some p\<rparr>
         | Some o' \<Rightarrow> if p > o' then u\<lparr>online_at := Some p\<rparr> else u))"

text \<open>
  \<open>get_cached_user\<close> by name: the cached user with its pending usage; else, when there is a database,
  the first row of that name, whatever its status. \<open>User.lifetime_used_traffic\<close> is a property without
  a setter, so adding pending usage to it raises \<open>AttributeError\<close>.
\<close>

definition any_user_by_name :: "db \<Rightarrow> string \<Rightarrow> user option" where
  "any_user_by_name d name = List.find (\<lambda>u. lower (username u) = lower name) (users d)"

definition get_cached_user :: "string \<Rightarrow> db option \<Rightarrow> redis option \<Rightarrow>
    user option result \<times> redis option" where
  "get_cached_user name database rd = (case rd of None \<Rightarrow> (Inr None, None)
   | Some r \<Rightarrow>
      (case (if name = '''' then None else rd_user_keys r (lower name)) of
         Some u \<Rightarrow> (case get_user_pending_usage_state (uid u) r of
            ((t, online), r') \<Rightarrow>
              (if t \<noteq> 0 then Inl Attribute_error else Inr (Some (merge_online online u)), Some r'))
       | None \<Rightarrow> (case database of None \<Rightarrow> (Inr None, rd)
          | Some d \<Rightarrow> (case (if name = '''' then None else any_user_by_name d name) of
               None \<Rightarrow> (Inr None, rd)
             | Some u \<Rightarrow> (Inr (Some u), cache_user u True rd)))))"

text \<open>
  \<open>crud.get_user\<close> by name, with what it caches: \<open>AdminAuth.get_user\<close> over the answer of the cache,
  an exception of the cache counting as no answer.
\<close>

definition cache_answer :: "user option result \<Rightarrow> user option" where
  "cache_answer c = (case c of Inl _ \<Rightarrow> None | Inr x \<Rightarrow> x)"

definition crud_get_user :: "db \<Rightarrow> string \<Rightarrow> redis option \<Rightarrow> user option \<times> redis option" where
  "crud_get_user d name rd = (case get_cached_user name (Some d) rd of (c, rd1) \<Rightarrow>
     (case get_user (\<lambda>_. cache_answer c) d name of
        None \<Rightarrow> (None, rd1)
      | Some u \<Rightarrow> (Some u, if db_user_by_name d name = None then rd1 else cache_user u True rd1)))"

section \<open>Subscriptions\<close>

definition cache_user_subscription :: "string \<Rightarrow> string option \<Rightarrow> redis option \<Rightarrow> redis option" where
  "cache_user_subscription name key rd = map_option (\<lambda>r.
     (let r1 = r\<lparr>rd_sub_names := List.insert (lower name) (rd_sub_names r)\<rparr>
      in case str_or_none key of None \<Rightarrow> r1
         | Some k \<Rightarrow> (case normalize_key k of Inl _ \<Rightarrow> r1
             | Inr n \<Rightarrow> r1\<lparr>rd_sub_keys := (rd_sub_keys r1)(n \<mapsto> lower name)\<rparr>))) rd"

definition check_username_exists :: "string \<Rightarrow> redis option \<Rightarrow> bool option" where
  "check_username_exists name rd = (case rd of None \<Rightarrow> None
     | Some r \<Rightarrow> if lower name \<in> set (rd_sub_names r) then Some True else None)"

text \<open>\<open>subscription.invalidate_user_cache\<close>.\<close>

definition invalidate_subscription :: "string \<Rightarrow> string option \<Rightarrow> redis option \<Rightarrow> redis option" where
  "invalidate_subscription name key rd = map_option (\<lambda>r.
     (let r1 = r\<lparr>rd_sub_names := removeAll (lower name) (rd_sub_names r)\<rparr>
      in case str_or_none key of None \<Rightarrow> r1
         | Some k \<Rightarrow> (case normalize_key k of Inl _ \<Rightarrow> r1
             | Inr n \<Rightarrow> r1\<lparr>rd_sub_keys := (rd_sub_keys r1)(n := None)\<rparr>))) rd"

text \<open>The warm-up stores what \<open>cache_user_subscription\<close> would, for every user that is not deleted.\<close>

definition warmup_subscription_cache :: "db \<Rightarrow> redis option \<Rightarrow> redis option" where
  "warmup_subscription_cache d rd =
     fold (\<lambda>u. if username u = '''' then id else cache_user_subscription (username u) (credential_key u))
       (filter (\<lambda>u. status u \<noteq> Deleted) (users d)) rd"

definition get_username_by_key :: "string \<Rightarrow> redis option \<Rightarrow> string option" where
  "get_username_by_key key rd = (case rd of None \<Rightarrow> None
     | Some r \<Rightarrow> (case normalize_key key of Inl _ \<Rightarrow> None | Inr n \<Rightarrow> str_or_none (rd_sub_keys r n)))"

end
