(* ===== verification/SubscriptionAuth.thy ===== *)
theory SubscriptionAuth
  imports SubscriptionTokens Redis
begin

text \<open>
  Who a subscription link belongs to: \<open>app/redis/adapter.py\<close> and the identifiers of
  \<open>app/routers/subscription.py\<close>. The first argument \<open>payload\<close> stands for
  \<open>get_subscription_payload\<close> with its secret; \<open>None\<close> for Redis is a server that is switched off or
  not reachable. Each function returns the user or the exception, and what it leaves in Redis.
\<close>

text \<open>
  Lemmas on the identification of subscriptions: the server switched off, the live row deciding
  whatever Redis holds, keys compared in their normal form, and the texts of tokens as identifiers.
\<close>

named_theorems auth_simps "subscription validation on its branches"

definition not_found :: "'a result" where
  "not_found = Inl (Http_error 404 ''Not Found'')"

text \<open>A token made before the row, or before the last revocation, is refused.\<close>

definition stamp_ok :: "instant \<Rightarrow> user \<Rightarrow> bool" where
  "stamp_ok t u = (created_at u \<le> t \<and> (case sub_revoked_at u of None \<Rightarrow> True | Some r \<Rightarrow> r \<le> t))"

definition refresh_caches :: "user \<Rightarrow> redis option \<Rightarrow> redis option" where
  "refresh_caches u rd = cache_user u True (cache_user_subscription (username u) (credential_key u) rd)"

definition fill_caches :: "user \<Rightarrow> redis option \<Rightarrow> redis option" where
  "fill_caches u rd = cache_user_subscription (username u) (credential_key u) (cache_user u True rd)"

definition fresh_or :: "user \<Rightarrow> user option \<Rightarrow> user" where
  "fresh_or c found = (case found of None \<Rightarrow> c | Some u \<Rightarrow> u)"

section \<open>By token\<close>

definition token_from_db :: "db \<Rightarrow> string \<Rightarrow> instant \<Rightarrow> redis option \<Rightarrow> user result \<times> redis option" where
  "token_from_db d name t rd = (case crud_get_user d name rd of
     (None, rd1) \<Rightarrow> (not_found, rd1)
   | (Some u, rd1) \<Rightarrow> if stamp_ok t u then (Inr u, fill_caches u rd1) else (not_found, rd1))"

definition validate_subscription_by_token :: "(string \<Rightarrow> (string \<times> instant) option result) \<Rightarrow> db \<Rightarrow>
    string \<Rightarrow> redis option \<Rightarrow> user result \<times> redis option" where
  "validate_subscription_by_token payload d token rd = (case payload token of
     Inl e \<Rightarrow> (Inl e, rd)
   | Inr None \<Rightarrow> (not_found, rd)
   | Inr (Some (name, t)) \<Rightarrow> (case get_cached_user name None rd of
        (Inr (Some c), rd1) \<Rightarrow> (case crud_get_user d name rd1 of (found, rd2) \<Rightarrow>
           (let u = fresh_or c found
            in if stamp_ok t u then (Inr u, refresh_caches u rd2) else (not_found, rd2)))
      | (_, rd1) \<Rightarrow> token_from_db d name t rd1))"

section \<open>By name and key\<close>

definition user_key :: "user \<Rightarrow> string result" where
  "user_key u = (case credential_key u of None \<Rightarrow> Inl Attribute_error | Some k \<Rightarrow> normalize_key k)"

definition keyed_user_by_name :: "db \<Rightarrow> string \<Rightarrow> user option" where
  "keyed_user_by_name d name =
     List.find (\<lambda>u. lower (username u) = lower name \<and> credential_key u \<noteq> None) (users d)"

definition key_from_db :: "db \<Rightarrow> string \<Rightarrow> string \<Rightarrow> redis option \<Rightarrow> user result \<times> redis option" where
  "key_from_db d name n rd = (case crud_get_user d name rd of (found, rd1) \<Rightarrow>
     (case (case found of Some u \<Rightarrow> Some u | None \<Rightarrow> keyed_user_by_name d name) of
        None \<Rightarrow> (not_found, rd1)
      | Some u \<Rightarrow> if str_or_none (credential_key u) = None then (not_found, rd1)
          else (case user_key u of
             Inl e \<Rightarrow> (Inl e, rd1)
           | Inr m \<Rightarrow> if m \<noteq> n then (not_found, rd1) else (Inr u, fill_caches u rd1))))"

text \<open>
  A key that Redis knows under another name is refused. A cached user decides only when the key
  matches; a key that does not parse, or differs, leaves the decision to the database.
\<close>

definition validate_subscription_by_key :: "db \<Rightarrow> string \<Rightarrow> string \<Rightarrow> redis option \<Rightarrow>
    user result \<times> redis option" where
  "validate_subscription_by_key d name key rd = (case normalize_key key of
     Inl _ \<Rightarrow> (Inl (Http_error 400 ''Invalid credential key''), rd)
   | Inr n \<Rightarrow>
      if (case get_username_by_key key rd of None \<Rightarrow> False | Some cn \<Rightarrow> lower cn \<noteq> lower name)
      then (not_found, rd)
      else (case get_cached_user name None rd of
        (Inr (Some c), rd1) \<Rightarrow>
          (if str_or_none (credential_key c) = None then key_from_db d name n rd1
           else (case crud_get_user d name rd1 of (found, rd2) \<Rightarrow>
             (let u = fresh_or c found
              in if user_key u = Inr n then (Inr u, refresh_caches u rd2) else key_from_db d name n rd2)))
      | (_, rd1) \<Rightarrow> key_from_db d name n rd1))"

section \<open>By key alone\<close>

definition stored_key_is :: "string \<Rightarrow> user \<Rightarrow> bool" where
  "stored_key_is n u = (case credential_key u of None \<Rightarrow> False
     | Some k \<Rightarrow> filter (\<lambda>c. c \<noteq> CHR ''-'') (lower k) = n)"

definition key_only_from_db :: "db \<Rightarrow> string \<Rightarrow> redis option \<Rightarrow> user result \<times> redis option" where
  "key_only_from_db d n rd = (case List.find (stored_key_is n) (users d) of
     None \<Rightarrow> (not_found, rd)
   | Some u \<Rightarrow> (Inr u, fill_caches u rd))"

definition validate_subscription_by_key_only :: "db \<Rightarrow> string \<Rightarrow> redis option \<Rightarrow>
    user result \<times> redis option" where
  "validate_subscription_by_key_only d key rd = (case normalize_key key of
     Inl _ \<Rightarrow> (Inl (Http_error 400 ''Invalid credential key''), rd)
   | Inr n \<Rightarrow> (case get_username_by_key key rd of
        None \<Rightarrow> key_only_from_db d n rd
      | Some cn \<Rightarrow> (case get_cached_user cn None rd of
           (Inr (Some c), rd1) \<Rightarrow>
             (if str_or_none (credential_key c) = None then key_only_from_db d n rd1
              else (case crud_get_user d cn rd1 of (found, rd2) \<Rightarrow>
                (let u = fresh_or c found
                 in if user_key u = Inr n then (Inr u, refresh_caches u rd2)
                    else key_only_from_db d n rd2)))
         | (_, rd1) \<Rightarrow> key_only_from_db d n rd1)))"

section \<open>Identifiers\<close>

text \<open>\<open>_candidate_identifiers\<close>: the text itself, and what stands behind the last separator of each kind.\<close>

definition after_last :: "char \<Rightarrow> string \<Rightarrow> string" where
  "after_last c s = strip (rev (takeWhile (\<lambda>x. x \<noteq> c) (rev s)))"

definition candidate_identifiers :: "string \<Rightarrow> string list" where
  "candidate_identifiers identifier =
     (let raw = strip identifier
      in if raw = '''' then []
         else fold (\<lambda>sep out. let tail = after_last sep raw in
             if sep \<in> set raw \<and> tail \<noteq> '''' \<and> tail \<notin> set out then out @ [tail] else out)
           [CHR ''+'', CHR '':'', CHR ''|'', CHR '' ''] [raw])"

definition is_credential_key :: "string \<Rightarrow> bool" where
  "is_credential_key value =
     (let cleaned = strip (filter (\<lambda>c. c \<noteq> CHR ''-'') value)
      in length cleaned = 32 \<and> list_all (\<lambda>c. lower_char c \<in> set hex_digits) cleaned)"

text \<open>
  \<open>_get_user_by_identifier\<close>: a candidate that is not found, as a token or as a key, is passed over;
  any other exception ends the search.
\<close>

definition passed_over :: "exn \<Rightarrow> bool" where
  "passed_over e = (case e of Http_error n _ \<Rightarrow> n = 400 \<or> n = 404 | _ \<Rightarrow> False)"

fun try_candidates :: "(string \<Rightarrow> (string \<times> instant) option result) \<Rightarrow> db \<Rightarrow> exn option \<Rightarrow>
    string list \<Rightarrow> redis option \<Rightarrow> user result \<times> redis option" where
  "try_candidates payload d err [] rd = (case err of Some e \<Rightarrow> (Inl e, rd) | None \<Rightarrow> (not_found, rd))"
| "try_candidates payload d err (c # cs) rd =
     (case validate_subscription_by_token payload d c rd of
        (Inr u, rd1) \<Rightarrow> (Inr u, rd1)
      | (Inl e, rd1) \<Rightarrow>
         if \<not> passed_over e then (Inl e, rd1)
         else if \<not> is_credential_key c then try_candidates payload d (Some e) cs rd1
         else (case validate_subscription_by_key_only d c rd1 of
            (Inr u, rd2) \<Rightarrow> (Inr u, rd2)
          | (Inl e', rd2) \<Rightarrow> if \<not> passed_over e' then (Inl e', rd2)
              else try_candidates payload d (Some e) cs rd2))"

definition get_user_by_identifier :: "(string \<Rightarrow> (string \<times> instant) option result) \<Rightarrow> db \<Rightarrow> string \<Rightarrow>
    redis option \<Rightarrow> user result \<times> redis option" where
  "get_user_by_identifier payload d identifier rd =
     try_candidates payload d None (candidate_identifiers identifier) rd"

section \<open>Redis switched off\<close>

lemma off_simps [auth_simps]:
  "get_cached_user name dd None = (Inr None, None)"
  "cache_user u m None = None"
  "cache_user_subscription name key None = None"
  "get_username_by_key k None = None"
  "fill_caches u None = None" "refresh_caches u None = None"
  by (simp_all add: get_cached_user_def cache_user_def cache_user_subscription_def
      get_username_by_key_def fill_caches_def refresh_caches_def)

lemma crud_get_user_off [auth_simps]:
  "crud_get_user d name None = (if name = '''' then None else db_user_by_name d name, None)"
  by (simp add: crud_get_user_def auth_simps get_user_def cache_answer_def split: option.splits)

lemma fst_if_pair: "fst (if b then (x, y) else (x', y')) = (if b then x else x')"
  by simp

lemma not_found_neq [simp]: "not_found \<noteq> Inr u" "Inr u \<noteq> not_found"
  by (simp_all add: not_found_def)

lemma token_off: "fst (validate_subscription_by_token payload d token None) =
    (case payload token of Inl e \<Rightarrow> Inl e | Inr None \<Rightarrow> not_found
     | Inr (Some (name, t)) \<Rightarrow> (case (if name = '''' then None else db_user_by_name d name) of
          None \<Rightarrow> not_found | Some u \<Rightarrow> if stamp_ok t u then Inr u else not_found))"
  by (simp add: validate_subscription_by_token_def token_from_db_def auth_simps
      split: sum.split option.split)

section \<open>The live row decides\<close>

lemma crud_get_user_live:
  assumes "db_user_by_name d name = Some u" "name \<noteq> ''''"
  shows "fst (crud_get_user d name rd) = Some u"
proof -
  obtain c rd1 where "get_cached_user name (Some d) rd = (c, rd1)" by fastforce
  then show ?thesis using assms
    by (simp add: crud_get_user_def get_user_def split: option.split)
qed

lemma token_from_db_live:
  assumes "db_user_by_name d name = Some u" "name \<noteq> ''''"
  shows "fst (token_from_db d name t rd) = (if stamp_ok t u then Inr u else not_found)"
proof -
  obtain rd1 where "crud_get_user d name rd = (Some u, rd1)"
    using crud_get_user_live [OF assms] by (metis prod.collapse)
  then show ?thesis by (simp add: token_from_db_def)
qed

lemma token_live:
  assumes "payload token = Inr (Some (name, t))" "db_user_by_name d name = Some u" "name \<noteq> ''''"
  shows "fst (validate_subscription_by_token payload d token rd) =
    (if stamp_ok t u then Inr u else not_found)"
proof -
  obtain c rd1 where g: "get_cached_user name None rd = (c, rd1)" by fastforce
  obtain rd2 where f: "crud_get_user d name rd1 = (Some u, rd2)"
    using crud_get_user_live [OF assms(2,3)] by (metis prod.collapse)
  show ?thesis using assms(1) f token_from_db_live [OF assms(2,3), of t rd1]
    by (auto simp: validate_subscription_by_token_def g fresh_or_def split: sum.split option.split)
qed

section \<open>Keys\<close>

lemma is_space_lower [simp]: "is_space (lower_char c) = is_space c"
  using of_char_lower_char [of c] by (auto simp: is_space_def Let_def split: if_splits)

lemma dash_lower [simp]: "lower_char c = CHR ''-'' \<longleftrightarrow> c = CHR ''-''"
proof
  assume h: "lower_char c = CHR ''-''"
  have "(of_char (lower_char c) :: nat) = 45" unfolding h by simp
  then have "(of_char c :: nat) = of_char (CHR ''-'')"
    by (auto simp: of_char_lower_char Let_def split: if_splits)
  then show "c = CHR ''-''" using of_char_eq_iff by blast
qed (simp add: lower_char_def)

lemma filter_dash_lower: "filter (\<lambda>c. c \<noteq> CHR ''-'') (lower k) = lower (filter (\<lambda>c. c \<noteq> CHR ''-'') k)"
  by (simp add: lower_def filter_map comp_def)

lemma no_dropWhile: "(\<And>c. c \<in> set s \<Longrightarrow> \<not> P c) \<Longrightarrow> dropWhile P s = s"
  by (cases s) auto

lemma strip_plain: "(\<And>c. c \<in> set s \<Longrightarrow> \<not> is_space c) \<Longrightarrow> strip s = s"
  using no_dropWhile [of s] no_dropWhile [of "rev s"] by (simp add: strip_def)

lemma hex_not_space: "c \<in> set hex_digits \<Longrightarrow> \<not> is_space c"
  by (auto simp: hex_digits_def is_space_def)

lemma normal_form_hex:
  assumes "normalize_key k = Inr n"
  shows "length n = 32 \<and> list_all (\<lambda>c. c \<in> set hex_digits) n"
  using assms by (auto simp: normalize_key_def Let_def split: if_splits)

lemma stored_key_normal:
  assumes "stored_key_is n u" "normalize_key k = Inr n"
  shows "user_key u = Inr n"
proof -
  obtain s where s: "credential_key u = Some s" "lower (filter (\<lambda>c. c \<noteq> CHR ''-'') s) = n"
    using assms(1) by (auto simp: stored_key_is_def filter_dash_lower split: option.splits)
  let ?f = "filter (\<lambda>c. c \<noteq> CHR ''-'') s"
  have n: "length n = 32" "list_all (\<lambda>c. c \<in> set hex_digits) n" using normal_form_hex [OF assms(2)] by auto
  have "\<not> is_space c" if "c \<in> set ?f" for c
  proof -
    have "lower_char c \<in> set n" using that s(2) by (auto simp: lower_def)
    then have "lower_char c \<in> set hex_digits" using n(2) by (auto simp: list_all_iff)
    then show ?thesis using hex_not_space [of "lower_char c"] by simp
  qed
  then have "strip ?f = ?f" by (rule strip_plain)
  then show ?thesis using s n by (simp add: user_key_def normalize_key_def)
qed

lemma key_only_sound:
  assumes "fst (key_only_from_db d n rd) = Inr u" "normalize_key k = Inr n"
  shows "user_key u = Inr n"
  using assms stored_key_normal
  by (auto simp: key_only_from_db_def find_Some_iff split: option.splits)

lemma key_from_db_sound: "fst (key_from_db d name n rd) = Inr u \<Longrightarrow> user_key u = Inr n"
  by (auto simp: key_from_db_def split: prod.splits option.splits sum.splits if_splits)

section \<open>Names in the cache\<close>

text \<open>Cached users stand under their own names, and every step keeps it so.\<close>

definition names_agree :: "redis option \<Rightarrow> bool" where
  "names_agree rd = (\<forall>r. rd = Some r \<longrightarrow> (\<forall>k u. rd_user_keys r k = Some u \<longrightarrow> lower (username u) = k))"

lemma names_agree_empty: "names_agree (Some empty_redis)"
  by (simp add: names_agree_def empty_redis_def)

lemma cached_row_name [simp]: "username (cached_row u) = username u" "uid (cached_row u) = uid u"
  by (simp_all add: cached_row_def)

lemma names_agree_cache_user [intro]: "names_agree rd \<Longrightarrow> names_agree (cache_user u m rd)"
  by (cases rd) (auto simp: names_agree_def cache_user_def Let_def)

lemma names_agree_subscription [intro]:
  "names_agree rd \<Longrightarrow> names_agree (cache_user_subscription name key rd)"
  by (cases rd) (auto simp: names_agree_def cache_user_subscription_def Let_def
      split: option.split sum.split)

lemma pending_state_keys:
  "get_user_pending_usage_state i r = (p, r') \<Longrightarrow> rd_user_keys r' = rd_user_keys r"
  by (auto simp: get_user_pending_usage_state_def Let_def split: option.splits)

lemma names_agree_get_cached [intro]:
  assumes "names_agree rd" shows "names_agree (snd (get_cached_user name dd rd))"
proof (cases rd)
  case None then show ?thesis by (simp add: auth_simps names_agree_def)
next
  case (Some r)
  then show ?thesis using assms names_agree_cache_user [OF assms]
    by (auto simp: get_cached_user_def names_agree_def split: option.split prod.split
        dest: pending_state_keys)
qed

lemma names_agree_get_user [intro]:
  assumes "names_agree rd" shows "names_agree (snd (crud_get_user d name rd))"
proof -
  obtain c rd1 where "get_cached_user name (Some d) rd = (c, rd1)" by fastforce
  then have "names_agree rd1" using names_agree_get_cached [OF assms] by (metis snd_conv)
  then show ?thesis using \<open>get_cached_user name (Some d) rd = (c, rd1)\<close>
    by (auto simp: crud_get_user_def split: option.split)
qed

text \<open>What a look-up by name returns has that name.\<close>

lemma get_cached_name:
  assumes "names_agree rd" "get_cached_user name dd rd = (Inr (Some u), rd1)"
  shows "lower (username u) = lower name"
  using assms
  by (cases rd) (auto simp: get_cached_user_def auth_simps names_agree_def merge_online_def any_user_by_name_def
      find_Some_iff split: option.splits prod.splits if_splits)

lemma crud_get_user_name:
  assumes "names_agree rd" "crud_get_user d name rd = (Some u, rd1)"
  shows "lower (username u) = lower name"
proof -
  obtain c rd2 where g: "get_cached_user name (Some d) rd = (c, rd2)" by fastforce
  have "lower (username x) = lower name" if "cache_answer c = Some x" for x
    using that get_cached_name [OF assms(1), of name "Some d" x rd2] g
    by (auto simp: cache_answer_def split: sum.splits)
  then show ?thesis using assms(2) g
    by (auto simp: crud_get_user_def get_user_def db_user_by_name_def find_Some_iff
        split: option.splits if_splits)
qed

lemma key_from_db_name:
  assumes "names_agree rd" "fst (key_from_db d name n rd) = Inr u"
  shows "lower (username u) = lower name"
proof -
  obtain found rd1 where g: "crud_get_user d name rd = (found, rd1)" by fastforce
  have "lower (username x) = lower name" if "found = Some x" for x
    using crud_get_user_name [OF assms(1)] g that by simp
  then show ?thesis using assms(2) g
    by (auto simp: key_from_db_def keyed_user_by_name_def find_Some_iff
        split: option.splits sum.splits if_splits)
qed

lemma by_key_name:
  assumes "names_agree rd" "fst (validate_subscription_by_key d name key rd) = Inr u"
  shows "lower (username u) = lower name"
proof -
  obtain c rd1 where g: "get_cached_user name None rd = (c, rd1)" by fastforce
  obtain found rd2 where f: "crud_get_user d name rd1 = (found, rd2)" by fastforce
  have a: "names_agree rd1" using names_agree_get_cached [OF assms(1)] g by (metis snd_conv)
  have b: "names_agree rd2" using names_agree_get_user [OF a] f by (metis snd_conv)
  have n: "lower (username (fresh_or x found)) = lower name" if "c = Inr (Some x)" for x
    using that get_cached_name [OF assms(1), of name None x rd1] crud_get_user_name [OF a, of d name] f g
    by (auto simp: fresh_or_def split: option.splits)
  show ?thesis using assms(2) n key_from_db_name [OF a] key_from_db_name [OF b]
    by (auto simp: validate_subscription_by_key_def g f Let_def
        split: sum.splits option.splits if_splits)
qed

section \<open>Tokens as identifiers\<close>

lemma link_chars_table: "list_all (\<lambda>c. \<not> is_space c \<and> c \<notin> {CHR ''+'', CHR '':'', CHR ''|'', CHR '' ''})
    (CHR ''='' # map b64_char [0..<64])"
  by code_simp

lemma encoded_chars: "c \<in> set (b64encode s) \<Longrightarrow> c \<in> set (CHR ''='' # map b64_char [0..<64])"
  using sextets_bound [OF codes_small, of _ s] by (auto simp: b64encode_def)

lemma token_chars:
  assumes "c \<in> set (create_subscription_token sha secret now name)"
  shows "\<not> is_space c \<and> c \<notin> {CHR ''+'', CHR '':'', CHR ''|'', CHR '' ''}"
proof -
  have "c \<in> set (b64encode s) \<Longrightarrow> c \<in> set (CHR ''='' # map b64_char [0..<64])" for s
    by (rule encoded_chars)
  moreover have "\<exists>s. c \<in> set (b64encode s)"
    using assms unfolding create_subscription_token_def Let_def token_signature_def rstrip_pad_def
    by (auto dest!: in_set_takeD set_dropWhileD)
  ultimately have "c \<in> set (CHR ''='' # map b64_char [0..<64])" by blast
  with link_chars_table show ?thesis unfolding list_all_iff by blast
qed

lemma candidates_plain:
  assumes "s \<noteq> ''''" "\<And>c. c \<in> set s \<Longrightarrow> \<not> is_space c \<and> c \<notin> {CHR ''+'', CHR '':'', CHR ''|'', CHR '' ''}"
  shows "candidate_identifiers s = [s]"
proof -
  have "strip s = s" using assms(2) by (blast intro: strip_plain)
  moreover have "CHR ''+'' \<notin> set s" "CHR '':'' \<notin> set s" "CHR ''|'' \<notin> set s" "CHR '' '' \<notin> set s"
    using assms(2) by blast+
  ultimately show ?thesis using assms(1) by (simp add: candidate_identifiers_def)
qed

lemma token_candidates:
  assumes "length name \<ge> 1"
  shows "candidate_identifiers (create_subscription_token sha secret now name) =
    [create_subscription_token sha secret now name]"
proof (rule candidates_plain)
  have "length (token_data name (ceil_seconds now)) > 0" using assms by (simp add: token_data_def length_body)
  then show "create_subscription_token sha secret now name \<noteq> ''''" by (auto simp: token_shape)
qed (rule token_chars)

text \<open>A token of the panel for a live row: its time against the row decides.\<close>

lemma made_token_live:
  assumes "\<And>x. length (sha x) = 32"
    and "CHR '','' \<notin> set (username u) \<and> (\<forall>c \<in> set (username u). of_char c < (128 :: nat)) \<and> length (username u) \<ge> 3"
    and "db_user_by_name d (username u) = Some u"
    and "0 \<le> now" and "ceil_seconds now < 253402300800"
  shows "fst (validate_subscription_by_token (get_subscription_payload sha secret decode) d
      (create_subscription_token sha secret now (username u)) rd) =
    (if stamp_ok (ceil_seconds now * usecs) u then Inr u else not_found)"
proof -
  have "0 \<le> ceil_seconds now" using assms(4) by (simp add: ceil_seconds_def usecs_def)
  then have "from_timestamp (ceil_seconds now) = Inr (ceil_seconds now * usecs)"
    using assms(5) by (simp add: from_timestamp_def)
  then have p: "get_subscription_payload sha secret decode (create_subscription_token sha secret now (username u)) =
      Inr (Some (username u, ceil_seconds now * usecs))"
    using token_read [of sha "username u" secret decode now] assms(1,2) by simp
  show ?thesis using token_live [where payload = "get_subscription_payload sha secret decode", OF p assms(3)]
      assms(2) by force
qed

end
