(* ===== verification/SubscriptionRoutes.thy ===== *)
theory SubscriptionRoutes
  imports UserListing Subscriptions SubscriptionAuth
begin

text \<open>
  Settings of subscriptions and the links built from them: \<open>app/services/subscription_settings.py\<close>
  (without certificates and template files) and \<open>app/utils/subscription_links.py\<close>. Settings are a
  dictionary by the names of the fields, as the code sets them; \<open>parse\<close> stands for \<open>json.loads\<close>. The
  row of the table is a dictionary too, and the overrides of an admin.
\<close>

text \<open>
  Requests for subscriptions: the routes of \<open>app/routers/subscription.py\<close> in the order in which they are
  tried, the aliases of \<open>app/routers/subscription_alias.py\<close>, and who is answered with what. A path is
  the list of its segments, the last of which is empty for a slash at the end.
\<close>

section \<open>Normalization\<close>

definition text_or_empty :: "json \<Rightarrow> string" where
  "text_or_empty v = (case v of JStr s \<Rightarrow> s | _ \<Rightarrow> [])"

text \<open>A method of texts called on any value.\<close>

definition as_text :: "json \<Rightarrow> string result" where
  "as_text v = (case v of JStr s \<Rightarrow> Inr s | _ \<Rightarrow> Inl Attribute_error)"

definition normalize_prefix :: "string \<Rightarrow> string" where
  "normalize_prefix p = (let s = strip p in if ends_with ''/'' s then butlast s else s)"

definition ensure_scheme :: "string \<Rightarrow> string" where
  "ensure_scheme v = (if v = [] then []
     else if starts_with ''http://'' v \<or> starts_with ''https://'' v then v else ''https://'' @ v)"

definition normalize_path :: "string \<Rightarrow> string" where
  "normalize_path v = (let raw = strip_char CHR ''/'' (strip v) in if raw = [] then ''sub'' else raw)"

definition normalize_support_url :: "json \<Rightarrow> string" where
  "normalize_support_url v = (if v = JNull then [] else ensure_scheme (strip (py_str v)))"

definition port_number :: "json \<Rightarrow> int option" where
  "port_number v = (case v of JInt n \<Rightarrow> Some n | JBool b \<Rightarrow> Some (if b then 1 else 0) | JStr s \<Rightarrow> py_int s | _ \<Rightarrow> None)"

definition accept_port :: "json \<Rightarrow> int list \<Rightarrow> int list" where
  "accept_port v ports = (case port_number v of
     None \<Rightarrow> ports
   | Some p \<Rightarrow> if 1 \<le> p \<and> p \<le> 65535 \<and> p \<notin> set ports then ports @ [p] else ports)"

definition normalize_ports :: "(string \<Rightarrow> json option) \<Rightarrow> json \<Rightarrow> int list" where
  "normalize_ports parse raw =
     (let parts = (\<lambda>t. JArr (map JStr (filter (\<lambda>v. v \<noteq> []) (map strip (split_on CHR '','' t)))));
          values = (case raw of
            JStr s \<Rightarrow> (if strip s = [] then JArr [] else case parse (strip s) of Some v \<Rightarrow> v | None \<Rightarrow> parts (strip s))
          | v \<Rightarrow> v)
      in case values of JArr vs \<Rightarrow> fold accept_port vs [] | _ \<Rightarrow> [])"

text \<open>\<open>s.replace(sep, '')\<close>: \<open>k\<close> characters are left to be skipped.\<close>

fun erase :: "string \<Rightarrow> nat \<Rightarrow> string \<Rightarrow> string" where
  "erase sep k [] = []"
| "erase sep k (c # s) =
     (if k > 0 then erase sep (k - 1) s
      else if starts_with sep (c # s) then erase sep (length sep - 1) s
      else c # erase sep 0 s)"

fun squeeze_slashes :: "string \<Rightarrow> string" where
  "squeeze_slashes (c # c' # s) =
     (if c = CHR ''/'' \<and> c' = CHR ''/'' then squeeze_slashes (c' # s) else c # squeeze_slashes (c' # s))"
| "squeeze_slashes s = s"

definition sanitize_alias :: "json \<Rightarrow> string" where
  "sanitize_alias v =
     (let cleaned = strip (py_str (jor v (JStr []))) in
      if cleaned = [] then []
      else strip (squeeze_slashes (erase ''{key}'' 0 (erase ''{token}'' 0 (erase ''{identifier}'' 0 cleaned)))))"

definition sanitized_list :: "json list \<Rightarrow> string list" where
  "sanitized_list vs = filter (\<lambda>a. a \<noteq> []) (map sanitize_alias vs)"

definition normalize_aliases :: "(string \<Rightarrow> json option) \<Rightarrow> json \<Rightarrow> string list" where
  "normalize_aliases parse raw = (case raw of
     JStr s \<Rightarrow> (if strip s = [] then [] else case parse (strip s) of
         Some (JArr vs) \<Rightarrow> sanitized_list vs
       | Some _ \<Rightarrow> []
       | None \<Rightarrow> sanitized_list [JStr (strip s)])
   | JArr vs \<Rightarrow> sanitized_list vs
   | _ \<Rightarrow> [])"

section \<open>The stored settings\<close>

definition template_defaults :: json_dict where
  "template_defaults =
     [(''clash_subscription_template'', JStr ''clash/default.yml''), (''clash_settings_template'', JStr ''clash/settings.yml''),
      (''subscription_page_template'', JStr ''subscription/index.html''), (''home_page_template'', JStr ''home/index.html''),
      (''v2ray_subscription_template'', JStr ''v2ray/default.json''), (''v2ray_settings_template'', JStr ''v2ray/settings.json''),
      (''singbox_subscription_template'', JStr ''singbox/default.json''),
      (''singbox_settings_template'', JStr ''singbox/settings.json''), (''mux_template'', JStr ''mux/default.json'')]"

definition json_flag_names :: "string list" where
  "json_flag_names = [''use_custom_json_default'', ''use_custom_json_for_v2rayn'', ''use_custom_json_for_v2rayng'',
     ''use_custom_json_for_streisand'', ''use_custom_json_for_happ'']"

definition default_support_url :: string where
  "default_support_url = ''https://t.me/''"

definition fallback_defaults :: json_dict where
  "fallback_defaults =
     [(''subscription_url_prefix'', JStr []), (''subscription_profile_title'', JStr ''Subscription''),
      (''subscription_support_url'', JStr default_support_url), (''subscription_update_interval'', JStr ''12''),
      (''custom_templates_directory'', JNull)] @ template_defaults @ map (\<lambda>k. (k, JBool False)) json_flag_names @
     [(''subscription_path'', JStr ''sub''), (''subscription_aliases'', JArr []), (''subscription_ports'', JArr [])]"

text \<open>\<open>_serialize\<close>: what a row gives, or the defaults without one.\<close>

definition serialize_settings :: "(string \<Rightarrow> json option) \<Rightarrow> json_dict option \<Rightarrow> json_dict" where
  "serialize_settings parse row = (case row of
     None \<Rightarrow> fallback_defaults
   | Some r \<Rightarrow>
      [(''subscription_url_prefix'', JStr (normalize_prefix (text_or_empty (jget r ''subscription_url_prefix'')))),
       (''subscription_profile_title'', jor (jget r ''subscription_profile_title'') (JStr ''Subscription'')),
       (''subscription_support_url'',
         JStr (normalize_support_url (jor (jget r ''subscription_support_url'') (JStr default_support_url)))),
       (''subscription_update_interval'', jor (jget r ''subscription_update_interval'') (JStr ''12'')),
       (''custom_templates_directory'', jget r ''custom_templates_directory'')] @
      map (\<lambda>(k, v). (k, jor (jget r k) v)) template_defaults @
      map (\<lambda>k. (k, JBool (json_true (jget r k)))) json_flag_names @
      [(''subscription_path'', JStr (normalize_path (text_or_empty (jget_or r ''subscription_path'' (JStr ''sub''))))),
       (''subscription_aliases'', JArr (map JStr (normalize_aliases parse (jget r ''subscription_aliases'')))),
       (''subscription_ports'', JArr (map JInt (normalize_ports parse (jget r ''subscription_ports''))))])"

text \<open>The row \<open>_ensure_record\<close> adds when there is none: aliases and ports are JSON texts in it.\<close>

definition new_settings_row :: json_dict where
  "new_settings_row = jset ''subscription_aliases'' (JStr ''[]'') (jset ''subscription_ports'' (JStr ''[]'') fallback_defaults)"

definition ensure_record :: "json_dict option \<Rightarrow> json_dict" where
  "ensure_record row = (case row of Some r \<Rightarrow> r | None \<Rightarrow> new_settings_row)"

text \<open>\<open>get_settings\<close> returns the settings and the row it leaves.\<close>

definition get_settings :: "(string \<Rightarrow> json option) \<Rightarrow> bool \<Rightarrow> json_dict option \<Rightarrow> json_dict \<times> json_dict option" where
  "get_settings parse ensure row =
     (let row' = (if ensure then Some (ensure_record row) else row) in (serialize_settings parse row', row'))"

text \<open>\<open>update_settings\<close>: a value for a column is normalized by the name of the column.\<close>

definition stripped_json :: "json \<Rightarrow> json" where
  "stripped_json v = (case v of JStr s \<Rightarrow> JStr (strip s) | _ \<Rightarrow> v)"

definition is_flag :: "string \<Rightarrow> bool" where
  "is_flag k = starts_with ''use_custom_json'' k"

definition common_value :: "string \<Rightarrow> json \<Rightarrow> json result" where
  "common_value k v =
     then_res (if k = ''subscription_url_prefix''
       then (if v = JNull then Inr (JStr []) else map_sum id (\<lambda>s. JStr (normalize_prefix s)) (as_text v)) else Inr v) (\<lambda>v1.
     let v2 = (if k = ''subscription_support_url'' then JStr (normalize_support_url v1) else v1);
         v3 = (if k \<in> {''subscription_profile_title'', ''subscription_update_interval''} \<and> v2 \<noteq> JNull
           then JStr (strip (py_str v2)) else v2)
     in Inr v3)"

definition flagged :: "string \<Rightarrow> json \<Rightarrow> json" where
  "flagged k v = (if is_flag k then JBool (json_true v) else v)"

definition column_value :: "(string \<Rightarrow> json option) \<Rightarrow> string \<Rightarrow> json \<Rightarrow> json result" where
  "column_value parse k v = then_res (common_value k v) (\<lambda>v1.
     let v2 = flagged k (stripped_json v1); listing = (if v2 = JNull then JArr [] else v2) in
     if k = ''subscription_aliases'' then (case listing of
         JArr vs \<Rightarrow> Inr (JStr (json_dumps False (JArr (map JStr (sanitized_list vs)))))
       | _ \<Rightarrow> Inl (Value_error ''subscription_aliases must be a list''))
     else if k = ''subscription_ports'' then (case listing of
         JArr vs \<Rightarrow> Inr (JStr (json_dumps False (JArr (map JInt (normalize_ports parse (JArr vs))))))
       | _ \<Rightarrow> Inl (Value_error ''subscription_ports must be a list''))
     else Inr v2)"

definition update_settings :: "(string \<Rightarrow> json option) \<Rightarrow> json_dict \<Rightarrow> json_dict option \<Rightarrow> json_dict result \<times> json_dict option" where
  "update_settings parse payload row =
     (let r0 = ensure_record row in
      case fold_res (\<lambda>(k, v) r. if map_of r k = None then Inr r
          else then_res (column_value parse k v) (\<lambda>v'. Inr (jset k v' r))) payload r0 of
        Inl e \<Rightarrow> (Inl e, Some r0)
      | Inr r \<Rightarrow> (Inr (serialize_settings parse (Some r)), Some r))"

section \<open>The settings for an admin\<close>

text \<open>An override that is \<open>None\<close> or an empty text is passed over, and one of no known field.\<close>

definition override_value :: "string \<Rightarrow> json \<Rightarrow> json result" where
  "override_value k v = then_res (common_value k v) (\<lambda>v1.
     let v2 = (if k = ''subscription_path'' then JStr (normalize_path (normalize_path (py_str v1))) else v1)
     in Inr (flagged k (stripped_json v2)))"

definition apply_override :: "string \<times> json \<Rightarrow> json_dict \<Rightarrow> json_dict result" where
  "apply_override = (\<lambda>(k, v) d.
     if v = JNull \<or> v = JStr [] \<or> map_of d k = None then Inr d
     else then_res (override_value k v) (\<lambda>v'. Inr (jset k v' d)))"

definition get_effective_settings :: "json_dict \<Rightarrow> string option \<Rightarrow> json_dict \<Rightarrow> json_dict result" where
  "get_effective_settings base domain overrides =
     then_res (fold_res apply_override overrides
       (base @ [(''subscription_domain'', case str_or_none domain of None \<Rightarrow> JNull | Some s \<Rightarrow> JStr (strip s))])) (\<lambda>d.
     then_res (if json_true (jget d ''subscription_domain'')
       then map_sum id (\<lambda>s. normalize_prefix (ensure_scheme s)) (as_text (jget d ''subscription_domain''))
       else map_sum id normalize_prefix (as_text (jget d ''subscription_url_prefix''))) (\<lambda>p.
     Inr (jset ''subscription_support_url'' (JStr (normalize_support_url (jget d ''subscription_support_url'')))
       (jset ''subscription_url_prefix'' (JStr p) d))))"

section \<open>Bases of links\<close>

text \<open>\<open>urlsplit\<close> of a prefix and what \<open>urlunsplit\<close> makes with another port.\<close>

record split_url =
  su_scheme :: string
  su_netloc :: string
  su_path :: string
  su_query :: string
  su_fragment :: string

definition url_split :: "string \<Rightarrow> split_url" where
  "url_split raw =
     (let url = filter (\<lambda>c. c \<notin> {CHR 0x09, CHR 0x0A, CHR 0x0D}) (dropWhile (\<lambda>c. (of_char c :: nat) \<le> 32) raw);
          front = takeWhile (\<lambda>c. c \<noteq> CHR '':'') url;
          named = (length front < length url \<and> front \<noteq> [] \<and> is_letter (hd front) \<and> list_all scheme_char front);
          rest = (if named then drop (Suc (length front)) url else url);
          located = starts_with ''//'' rest;
          netloc = (if located then takeWhile (\<lambda>c. c \<notin> set ''/?#'') (drop 2 rest) else []);
          after = (if located then drop (2 + length netloc) rest else rest);
          (before_hash, fragment) = cut_at CHR ''#'' after;
          (path, query) = cut_at CHR ''?'' before_hash
      in \<lparr>su_scheme = (if named then lower front else []), su_netloc = netloc, su_path = path, su_query = query,
          su_fragment = fragment\<rparr>)"

definition userinfo_of :: "string \<Rightarrow> string option \<times> string" where
  "userinfo_of netloc = (if CHR ''@'' \<in> set netloc then
       (case rsplit_last CHR ''@'' netloc of (info, host) \<Rightarrow> (Some info, host))
     else (None, netloc))"

definition hostname_of :: "string \<Rightarrow> string" where
  "hostname_of netloc =
     (let host = snd (userinfo_of netloc);
          name = (if CHR ''['' \<in> set host then fst (cut_at CHR '']'' (snd (cut_at CHR ''['' host)))
            else fst (cut_at CHR '':'' host))
      in (if CHR ''%'' \<in> set name then (case cut_at CHR ''%'' name of (h, zone) \<Rightarrow> lower h @ ''%'' @ zone) else lower name))"

definition login_of :: "string \<Rightarrow> string" where
  "login_of netloc = (case fst (userinfo_of netloc) of
     None \<Rightarrow> []
   | Some info \<Rightarrow> (case cut_at CHR '':'' info of (name, password) \<Rightarrow>
       (if name = [] then [] else name @ (if password = [] then [] else '':'' @ password) @ ''@'')))"

definition rstrip_slash :: "string \<Rightarrow> string" where
  "rstrip_slash s = rev (dropWhile (\<lambda>c. c = CHR ''/'') (rev s))"

definition base_with_port :: "string \<Rightarrow> int \<Rightarrow> string" where
  "base_with_port prefix p =
     (let u = url_split prefix;
          path = (if su_path u \<noteq> [] \<and> hd (su_path u) \<noteq> CHR ''/'' then ''/'' @ su_path u else su_path u)
      in rstrip_slash ((if su_scheme u = [] then [] else su_scheme u @ '':'') @ ''//'' @ login_of (su_netloc u) @
           hostname_of (su_netloc u) @ '':'' @ int_text p @ path @ (if su_query u = [] then [] else ''?'' @ su_query u) @
           (if su_fragment u = [] then [] else ''#'' @ su_fragment u)))"

definition replace_star :: "string \<Rightarrow> string \<Rightarrow> string" where
  "replace_star salt s = concat (map (\<lambda>c. if c = CHR ''*'' then salt else [c]) s)"

definition build_subscription_bases :: "(string \<Rightarrow> json option) \<Rightarrow> string \<Rightarrow> json_dict \<Rightarrow> string list result" where
  "build_subscription_bases parse salt d =
     then_res (if json_true (jget d ''subscription_url_prefix'') then as_text (jget d ''subscription_url_prefix'') else Inr []) (\<lambda>p0.
     then_res (if json_true (jget d ''subscription_path'') then as_text (jget d ''subscription_path'') else Inr ''sub'') (\<lambda>path0.
       let prefix = (if salt = [] then p0 else replace_star salt p0); path = strip_char CHR ''/'' path0;
         first = rstrip_slash prefix @ ''/'' @ path;
         ports = normalize_ports parse (jget d ''subscription_ports'');
         add = (\<lambda>p bases. let alt = base_with_port prefix p @ ''/'' @ path in if alt \<in> set bases then bases else bases @ [alt]) in
       Inr (if prefix = [] then [''/'' @ path]
         else if ports \<noteq> [] \<and> starts_with ''http'' prefix then fold add ports [first] else [first])))"

section \<open>The links of a user\<close>

text \<open>The label of a port: what is behind the last colon, up to a slash.\<close>

definition port_label :: "string \<Rightarrow> string" where
  "port_label base = fst (cut_at CHR ''/'' (snd (rsplit_last CHR '':'' base)))"

definition key_links :: "string \<Rightarrow> user \<Rightarrow> (string \<times> string) list" where
  "key_links base u = (case str_or_none (credential_key u) of
     None \<Rightarrow> []
   | Some k \<Rightarrow> [(''username-key'', base @ ''/'' @ username u @ ''/'' @ k), (''key'', base @ ''/'' @ k)])"

definition extra_links :: "string \<Rightarrow> user \<Rightarrow> string \<Rightarrow> (string \<times> string) list" where
  "extra_links token u base =
     (case str_or_none (credential_key u) of None \<Rightarrow> [] | Some k \<Rightarrow> [(''key@'' @ port_label base, base @ ''/'' @ k)]) @
     [(''token@'' @ port_label base, base @ ''/'' @ token)]"

text \<open>Anything that fails on the way to the bases leaves the plain one.\<close>

definition build_subscription_links :: "string list result \<Rightarrow> string \<Rightarrow> string \<Rightarrow> user \<Rightarrow> (string \<times> string) list" where
  "build_subscription_links bases token preferred u =
     (let bs = (case bases of Inr (b # bs) \<Rightarrow> b # bs | _ \<Rightarrow> [''/sub'']);
          links = fold (\<lambda>(k, v). AList.update k v)
            (key_links (hd bs) u @ [(''token'', hd bs @ ''/'' @ token)] @ concat (map (extra_links token u) (tl bs))) [];
          link = (\<lambda>k. case map_of links k of Some v \<Rightarrow> v | None \<Rightarrow> hd bs @ ''/'' @ token);
          primary = (if str_or_none (credential_key u) = None then link ''token''
            else if preferred = ''key'' then link ''key''
            else if preferred = ''username-key'' then link ''username-key'' else link ''token'')
      in (''primary'', primary) # links)"

section \<open>Routes under /sub\<close>

datatype segment = Var | Lit string

datatype endpoint =
    User_subscription | User_subscription_info | User_get_usage | Subscription_by_key | Subscription_info_by_key
  | Get_usage_by_key | Client_type_by_key | Client_type_by_identifier

definition sub_routes :: "(segment list \<times> endpoint) list" where
  "sub_routes =
     [([Var], User_subscription), ([Var, Lit ''''], User_subscription), ([Var, Lit ''info''], User_subscription_info), ([Var, Lit ''usage''], User_get_usage),
      ([Var, Var], Subscription_by_key), ([Var, Var, Lit ''''], Subscription_by_key), ([Var, Var, Lit ''info''], Subscription_info_by_key),
      ([Var, Var, Lit ''usage''], Get_usage_by_key), ([Var, Var, Var], Client_type_by_key),
      ([Var, Var], Client_type_by_identifier)]"

fun segments_match :: "segment list \<Rightarrow> string list \<Rightarrow> bool" where
  "segments_match [] [] = True"
| "segments_match (Var # ps) (x # xs) = (x \<noteq> [] \<and> segments_match ps xs)"
| "segments_match (Lit l # ps) (x # xs) = (x = l \<and> segments_match ps xs)"
| "segments_match _ _ = False"

definition sub_route :: "string list \<Rightarrow> endpoint option" where
  "sub_route segments = map_option snd (List.find (\<lambda>(ps, _). segments_match ps segments) sub_routes)"

section \<open>Aliases\<close>

text \<open>A request: the path and the parameters of the query, of which the last one counts.\<close>

record request =
  rq_path :: string
  rq_query :: "(string \<times> string) list"

definition query_value :: "request \<Rightarrow> string \<Rightarrow> string option" where
  "query_value rq k = (case map_of (rev (rq_query rq)) k of None \<Rightarrow> None | Some v \<Rightarrow> str_or_none (Some v))"

definition first_segment :: "string \<Rightarrow> string option" where
  "first_segment tail = (let t = strip_char CHR ''/'' tail in
     if t = [] then None else Some (fst (cut_at CHR ''/'' t)))"

definition placeholders :: "string list" where
  "placeholders = [''{identifier}'', ''{token}'', ''{key}'']"

text \<open>
  One place in the alias for the identifier; the pattern ends with an optional slash. Two places would
  be two groups of one name, which \<open>re\<close> refuses. Braces of any other kind stand for themselves.
\<close>

definition match_between :: "string \<Rightarrow> string \<Rightarrow> string \<Rightarrow> string option" where
  "match_between front back path =
     (let fits = (\<lambda>b. starts_with front path \<and> ends_with b path \<and> length front + length b < length path \<and>
            CHR ''/'' \<notin> set (drop (length front) (take (length path - length b) path)));
          middle = (\<lambda>b. drop (length front) (take (length path - length b) path))
      in if fits back then Some (middle back)
         else if fits (back @ ''/'') then Some (middle (back @ ''/'')) else None)"

definition templated_match :: "string \<Rightarrow> string \<Rightarrow> string option result" where
  "templated_match alias_path path =
     (case List.map_filter (\<lambda>p. map_option (\<lambda>(a, b). (a, b)) (cut_text p alias_path)) placeholders of
        [] \<Rightarrow> Inr None
      | [(a, b)] \<Rightarrow> if list_ex (\<lambda>p. cut_text p b \<noteq> None) placeholders then Inl (Value_error ''redefinition of group name'')
          else Inr (match_between a b path)
      | _ \<Rightarrow> Inl (Value_error ''redefinition of group name''))"

definition match_path_alias :: "string \<Rightarrow> string \<Rightarrow> string option result" where
  "match_path_alias alias path =
     (let alias_path = strip (su_path (url_split alias));
          prefix = (if ends_with ''/'' alias_path then alias_path else alias_path @ ''/'') in
      if alias_path = [] then Inr None
      else if CHR ''{'' \<in> set alias_path then templated_match alias_path path
      else if \<not> starts_with prefix path then Inr None
      else Inr (first_segment (drop (length prefix) path)))"

text \<open>\<open>parse_qs\<close> keeps blank values; the first value of a name counts.\<close>

definition plus_to_space :: "string \<Rightarrow> string" where
  "plus_to_space s = map (\<lambda>c. if c = CHR ''+'' then CHR '' '' else c) s"

definition parse_qs :: "(string \<Rightarrow> string) \<Rightarrow> string \<Rightarrow> (string \<times> string) list" where
  "parse_qs repair query =
     (let unq = (\<lambda>s. py_unquote repair (plus_to_space s));
          pairs = map (\<lambda>p. case cut_at CHR ''='' p of (k, v) \<Rightarrow> (unq k, unq v))
            (filter (\<lambda>p. p \<noteq> []) (split_on CHR ''&'' query))
      in fold (\<lambda>(k, v) d. if map_of d k = None then d @ [(k, v)] else d) pairs [])"

fun match_parameters :: "request \<Rightarrow> (string \<times> string) list \<Rightarrow> string option" where
  "match_parameters rq [] = (case query_value rq ''token'' of Some v \<Rightarrow> Some v | None \<Rightarrow>
     (case query_value rq ''key'' of Some v \<Rightarrow> Some v | None \<Rightarrow> query_value rq ''identifier''))"
| "match_parameters rq ((k, expected) # rest) =
     (if expected \<in> set placeholders \<or> expected = [] then query_value rq k
      else if map_of (rev (rq_query rq)) k \<noteq> Some expected then None
      else match_parameters rq rest)"

definition match_query_alias :: "(string \<Rightarrow> string) \<Rightarrow> string \<Rightarrow> request \<Rightarrow> string option" where
  "match_query_alias repair alias rq =
     (let u = url_split alias in
      if su_query u = [] \<or> rstrip_slash (rq_path rq) \<noteq> rstrip_slash (su_path u) then None
      else match_parameters rq (parse_qs repair (su_query u)))"

fun match_aliases :: "(string \<Rightarrow> string) \<Rightarrow> request \<Rightarrow> string list \<Rightarrow> string option result" where
  "match_aliases repair rq [] = Inr None"
| "match_aliases repair rq (a # as) =
     (let alias = strip a in
      if alias = [] then match_aliases repair rq as
      else case match_query_alias repair alias rq of
        Some i \<Rightarrow> Inr (Some i)
      | None \<Rightarrow> then_res (match_path_alias alias (rq_path rq)) (\<lambda>m. case m of
          Some i \<Rightarrow> Inr (Some i)
        | None \<Rightarrow> match_aliases repair rq as))"

definition under_prefix :: "string \<Rightarrow> string \<Rightarrow> string option" where
  "under_prefix prefix path = (if starts_with prefix path then first_segment (drop (length prefix) path) else None)"

definition resolve_identifier_from_aliases :: "(string \<Rightarrow> string) \<Rightarrow> request \<Rightarrow> string list \<Rightarrow> string \<Rightarrow> string option result" where
  "resolve_identifier_from_aliases repair rq aliases primary_path =
     (case under_prefix ''/sub/'' (rq_path rq) of
        Some i \<Rightarrow> Inr (Some i)
      | None \<Rightarrow> (case under_prefix (''/'' @ strip_char CHR ''/'' (if primary_path = [] then ''sub'' else primary_path) @ ''/'') (rq_path rq) of
          Some i \<Rightarrow> Inr (Some i)
        | None \<Rightarrow> match_aliases repair rq aliases))"

section \<open>Who is answered\<close>

text \<open>
  The user of a request, what it leaves in Redis, and for which client; \<open>None\<close> for the client means by
  the user agent. \<open>payload\<close> reads tokens.
\<close>

datatype answer_kind = By_agent | Named_client string | Info | Usage

definition with_kind :: "answer_kind \<Rightarrow> user result \<times> redis option \<Rightarrow> (user \<times> answer_kind) result \<times> redis option" where
  "with_kind k r = (map_sum id (\<lambda>u. (u, k)) (fst r), snd r)"

definition known_client :: "string \<Rightarrow> user result \<times> redis option \<Rightarrow> (user \<times> answer_kind) result \<times> redis option" where
  "known_client t r = (case fst r of
     Inl e \<Rightarrow> (Inl e, snd r)
   | Inr u \<Rightarrow> if client_config t = None then (Inl (Http_error 404 ''Unsupported client type''), snd r)
       else (Inr (u, Named_client t), snd r))"

definition serve_sub :: "(string \<Rightarrow> (string \<times> instant) option result) \<Rightarrow> db \<Rightarrow> string list \<Rightarrow> redis option \<Rightarrow>
    (user \<times> answer_kind) result \<times> redis option" where
  "serve_sub payload d segs rd = (case (sub_route segs, segs) of
     (Some User_subscription, i # _) \<Rightarrow> with_kind By_agent (get_user_by_identifier payload d i rd)
   | (Some User_subscription_info, i # _) \<Rightarrow> with_kind Info (get_user_by_identifier payload d i rd)
   | (Some User_get_usage, i # _) \<Rightarrow> with_kind Usage (get_user_by_identifier payload d i rd)
   | (Some Subscription_by_key, n # k # _) \<Rightarrow> with_kind By_agent (validate_subscription_by_key d n k rd)
   | (Some Subscription_info_by_key, n # k # _) \<Rightarrow> with_kind Info (validate_subscription_by_key d n k rd)
   | (Some Get_usage_by_key, n # k # _) \<Rightarrow> with_kind Usage (validate_subscription_by_key d n k rd)
   | (Some Client_type_by_key, [n, k, t]) \<Rightarrow> known_client t (validate_subscription_by_key d n k rd)
   | (Some Client_type_by_identifier, [i, t]) \<Rightarrow> known_client t (get_user_by_identifier payload d i rd)
   | _ \<Rightarrow> (Inl (Http_error 404 ''Not Found''), rd))"

text \<open>\<open>/api/v1/client/subscribe\<close> with a query or a segment, and every other path.\<close>

definition resolve_identifier :: "request \<Rightarrow> string result" where
  "resolve_identifier rq = (case query_value rq ''token'' of Some v \<Rightarrow> Inr v | None \<Rightarrow>
     (case query_value rq ''key'' of Some v \<Rightarrow> Inr v | None \<Rightarrow>
     (case query_value rq ''identifier'' of Some v \<Rightarrow> Inr v
      | None \<Rightarrow> Inl (Http_error 400 ''Provide token, key, or identifier''))))"

definition subscribe_query_style :: "(string \<Rightarrow> (string \<times> instant) option result) \<Rightarrow> db \<Rightarrow> request \<Rightarrow> redis option \<Rightarrow>
    (user \<times> answer_kind) result \<times> redis option" where
  "subscribe_query_style payload d rq rd = (case resolve_identifier rq of
     Inl e \<Rightarrow> (Inl e, rd) | Inr i \<Rightarrow> with_kind By_agent (get_user_by_identifier payload d i rd))"

definition subscribe_custom_alias :: "(string \<Rightarrow> string) \<Rightarrow> (string \<Rightarrow> (string \<times> instant) option result) \<Rightarrow> db \<Rightarrow>
    json_dict \<Rightarrow> request \<Rightarrow> redis option \<Rightarrow> (user \<times> answer_kind) result \<times> redis option" where
  "subscribe_custom_alias repair payload d settings rq rd =
     (let aliases = (case jget settings ''subscription_aliases'' of JArr vs \<Rightarrow> map text_or_empty vs | _ \<Rightarrow> []) in
      case resolve_identifier_from_aliases repair rq aliases (text_or_empty (jget settings ''subscription_path'')) of
        Inl e \<Rightarrow> (Inl e, rd)
      | Inr None \<Rightarrow> (Inl (Http_error 404 ''Not Found''), rd)
      | Inr (Some i) \<Rightarrow> with_kind By_agent (get_user_by_identifier payload d i rd))"

text \<open>The whole: \<open>/sub\<close> first, then the paths of other clients, then aliases.\<close>

definition path_parts :: "string \<Rightarrow> string list" where
  "path_parts path = split_on CHR ''/'' (if starts_with ''/'' path then tl path else path)"

definition serve_request :: "(string \<Rightarrow> string) \<Rightarrow> (string \<Rightarrow> (string \<times> instant) option result) \<Rightarrow> db \<Rightarrow> json_dict \<Rightarrow>
    request \<Rightarrow> redis option \<Rightarrow> (user \<times> answer_kind) result \<times> redis option" where
  "serve_request repair payload d settings rq rd =
     (let parts = path_parts (rq_path rq) in
      if parts \<noteq> [] \<and> hd parts = ''sub'' \<and> sub_route (tl parts) \<noteq> None then serve_sub payload d (tl parts) rd
      else if parts = [''api'', ''v1'', ''client'', ''subscribe''] then subscribe_query_style payload d rq rd
      else if take 4 parts = [''api'', ''v1'', ''client'', ''subscribe''] \<and> length parts = 5 \<and> last parts \<noteq> []
      then with_kind By_agent (get_user_by_identifier payload d (last parts) rd)
      else subscribe_custom_alias repair payload d settings rq rd)"

end
