(* ===== verification/RequestRouting.thy ===== *)
theory RequestRouting
  imports SubscriptionRoutes SubscriptionAuth UserSchema Samples
begin

text \<open>
  Properties of requests for subscriptions: the links that the panel makes are answered for their user,
  and which of its links are not.
\<close>

section \<open>Paths\<close>

lemma path_parts_sub:
  assumes "CHR ''/'' \<notin> set x"
  shows "path_parts (''/sub/'' @ x) = [''sub'', x]" and "CHR ''/'' \<notin> set y \<Longrightarrow> path_parts (''/sub/'' @ x @ ''/'' @ y) = [''sub'', x, y]"
  using split_on_first [of "CHR ''/''" "''sub''" x] split_on_first [of "CHR ''/''" "''sub''" "x @ ''/'' @ y"]
    split_on_first [OF assms, of y] split_on_none [OF assms] split_on_none [of "CHR ''/''" y]
  by (simp_all add: path_parts_def starts_with_def)

lemma one_segment: "x \<noteq> [] \<Longrightarrow> sub_route [x] = Some User_subscription"
  by (simp add: sub_route_def sub_routes_def)

lemma two_segments:
  "\<lbrakk>x \<noteq> []; y \<notin> {[], ''info'', ''usage''}\<rbrakk> \<Longrightarrow> sub_route [x, y] = Some Subscription_by_key"
  by (simp add: sub_route_def sub_routes_def)

lemma serve_identifier:
  assumes "x \<noteq> []" "CHR ''/'' \<notin> set x"
  shows "serve_request repair payload d settings \<lparr>rq_path = ''/sub/'' @ x, rq_query = []\<rparr> rd =
    with_kind By_agent (get_user_by_identifier payload d x rd)"
  using path_parts_sub(1) [OF assms(2)] one_segment [OF assms(1)]
  by (simp add: serve_request_def serve_sub_def)

lemma serve_named_key:
  assumes "x \<noteq> []" "CHR ''/'' \<notin> set x" "y \<notin> {[], ''info'', ''usage''}" "CHR ''/'' \<notin> set y"
  shows "serve_request repair payload d settings \<lparr>rq_path = ''/sub/'' @ x @ ''/'' @ y, rq_query = []\<rparr> rd =
    with_kind By_agent (validate_subscription_by_key d x y rd)"
  using path_parts_sub(2) [OF assms(2,4)] two_segments [OF assms(1,3)]
  by (simp add: serve_request_def serve_sub_def)

section \<open>Clients named in a link\<close>

lemma client_names: "client_config t \<noteq> None \<Longrightarrow> t \<in> set [''clash-meta'', ''sing-box'', ''clash'', ''v2ray'', ''outline'', ''v2ray-json'']"
  by (auto simp: client_config_def split: if_splits)

lemma clients_are_no_keys:
  "list_all (\<lambda>t. (case normalize_key t of Inl _ \<Rightarrow> True | Inr _ \<Rightarrow> False) \<and> t \<notin> {[], ''info'', ''usage''} \<and> CHR ''/'' \<notin> set t)
     [''clash-meta'', ''sing-box'', ''clash'', ''v2ray'', ''outline'', ''v2ray-json'']"
  by code_simp

text \<open>A link that names the client behind a token or a key is refused: the route that takes a name and a key is
  tried before the one for identifier and client, so that the name of the client is read as a key, which
  it is not.\<close>

theorem client_of_token_refused:
  assumes client: "client_config t \<noteq> None" and i: "i \<noteq> []" "CHR ''/'' \<notin> set i"
  shows "serve_request repair payload d settings \<lparr>rq_path = ''/sub/'' @ i @ ''/'' @ t, rq_query = []\<rparr> rd =
    (Inl (Http_error 400 ''Invalid credential key''), rd)"
proof -
  have "(case normalize_key t of Inl _ \<Rightarrow> True | Inr _ \<Rightarrow> False) \<and> t \<notin> {[], ''info'', ''usage''} \<and> CHR ''/'' \<notin> set t"
    using client_names [OF client] clients_are_no_keys unfolding list_all_iff by blast
  then have t: "t \<notin> {[], ''info'', ''usage''}" "CHR ''/'' \<notin> set t" and "\<exists>e. normalize_key t = Inl e"
    by (auto split: sum.splits)
  then show ?thesis unfolding serve_named_key [OF i t] by (auto simp: validate_subscription_by_key_def with_kind_def)
qed

lemma client_of_token_refused_witness:
  "serve_request id (\<lambda>_. Inr None) sample_db [] \<lparr>rq_path = ''/sub/'' @ ''token'' @ ''/'' @ ''clash'', rq_query = []\<rparr> None =
     (Inl (Http_error 400 ''Invalid credential key''), None)"
  by (rule client_of_token_refused) (simp_all add: client_config_def)

section \<open>The links of a user\<close>

lemma name_chars:
  assumes "list_all name_char n"
  shows "CHR ''/'' \<notin> set n" and "c \<in> set n \<Longrightarrow> \<not> is_space c \<and> c \<notin> {CHR ''+'', CHR '':'', CHR ''|'', CHR '' ''}"
  using assms by (auto simp: list_all_iff name_char_def is_word_def is_space_def Let_def)

lemma hex_chars: "list_all (\<lambda>c. \<not> is_space c \<and> c \<notin> {CHR ''+'', CHR '':'', CHR ''|'', CHR '' '', CHR ''/''} \<and> lower_char c = c \<and>
    c \<noteq> CHR ''-'') hex_digits"
  by code_simp

lemma key_chars:
  assumes "normalize_key k = Inr k" "c \<in> set k"
  shows "\<not> is_space c \<and> c \<notin> {CHR ''+'', CHR '':'', CHR ''|'', CHR '' '', CHR ''/''} \<and> lower_char c = c \<and> c \<noteq> CHR ''-'' \<and>
    c \<in> set hex_digits"
  using normal_form_hex [OF assms(1)] assms(2) hex_chars by (auto simp: list_all_iff)

lemma key_no_dash:
  assumes "normalize_key k = Inr k"
  shows "lower k = k" "filter (\<lambda>c. c \<noteq> CHR ''-'') k = k" "strip k = k"
  using key_chars [OF assms] strip_plain [of k] by (auto simp: lower_def filter_id_conv intro!: map_idI)

lemma key_is_key:
  assumes "normalize_key k = Inr k"
  shows "is_credential_key k" "candidate_identifiers k = [k]" "k \<notin> {[], ''info'', ''usage''}" "CHR ''/'' \<notin> set k"
proof -
  have "list_all (\<lambda>c. lower_char c \<in> set hex_digits) k" using key_chars [OF assms] by (auto simp: list_all_iff)
  then show "is_credential_key k"
    using normal_form_hex [OF assms] by (simp add: is_credential_key_def key_no_dash [OF assms])
  have "length k = 32" using normal_form_hex [OF assms] by simp
  then show "k \<notin> {[], ''info'', ''usage''}" by auto
  then show "candidate_identifiers k = [k]" using key_chars [OF assms] by (intro candidates_plain) auto
  show "CHR ''/'' \<notin> set k" using key_chars [OF assms] by auto
qed

lemma key_user_found:
  assumes u: "u \<in> set (users d)" "credential_key u = Some k" and k: "normalize_key k = Inr k"
    and unique: "\<forall>v \<in> set (users d). stored_key_is k v \<longrightarrow> v = u"
  shows "List.find (stored_key_is k) (users d) = Some u"
proof -
  have "stored_key_is k u" by (simp add: stored_key_is_def u(2) key_no_dash [OF k])
  then have "List.find (stored_key_is k) (users d) \<noteq> None" using u(1) by (auto simp: find_None_iff)
  then show ?thesis using unique by (auto simp: find_Some_iff)
qed

lemma by_key_off:
  assumes "db_user_by_name d (username u) = Some u" "credential_key u = Some k" "normalize_key k = Inr k" "username u \<noteq> []"
  shows "fst (validate_subscription_by_key d (username u) k None) = Inr u"
proof -
  have "str_or_none (Some k) \<noteq> None" using key_is_key(3) [OF assms(3)] by simp
  then show ?thesis using assms
    by (simp add: validate_subscription_by_key_def key_from_db_def auth_simps user_key_def)
qed

lemma identifier_key_off:
  assumes "List.find (stored_key_is k) (users d) = Some u" "normalize_key k = Inr k" "payload k = Inr None"
  shows "fst (get_user_by_identifier payload d k None) = Inr u"
  using assms key_is_key [OF assms(2)]
  by (simp add: get_user_by_identifier_def validate_subscription_by_token_def not_found_def passed_over_def
      validate_subscription_by_key_only_def key_only_from_db_def auth_simps)

lemma token_no_slash: "CHR ''/'' \<notin> set (create_subscription_token sha secret now name)"
proof
  assume "CHR ''/'' \<in> set (create_subscription_token sha secret now name)"
  then have "\<exists>s. CHR ''/'' \<in> set (b64encode s)"
    unfolding create_subscription_token_def Let_def token_signature_def rstrip_pad_def
    by (auto dest!: in_set_takeD set_dropWhileD)
  moreover have "list_all (\<lambda>c. c \<noteq> CHR ''/'') (CHR ''='' # map b64_char [0..<64])" by code_simp
  ultimately show False using encoded_chars unfolding list_all_iff by blast
qed

lemma plain_links_of_user:
  assumes "credential_key u = Some k" "k \<noteq> []"
  shows "set (build_subscription_links (Inr [''/sub'']) token preferred u) \<subseteq>
    {x. snd x \<in> {''/sub/'' @ username u @ ''/'' @ k, ''/sub/'' @ k, ''/sub/'' @ token}}"
  using assms by (auto simp: build_subscription_links_def key_links_def Let_def split: if_splits)

text \<open>C18. Every link the panel makes for a user with a key, under the default path and with Redis off, is answered for
  that user: with its name and key, with its key alone, with its token, and the primary one whatever is
  preferred. The name must be made of the characters that are allowed in names, the key canonical and no
  other user's, and not by chance a token.\<close>

theorem default_links_resolve:
  assumes sha: "\<And>x. length (sha x) = 32"
    and name: "list_all name_char (username u)" "3 \<le> length (username u)"
    and row: "db_user_by_name d (username u) = Some u" "u \<in> set (users d)"
    and now: "0 \<le> now" "ceil_seconds now < 253402300800" "stamp_ok now u"
    and key: "credential_key u = Some k" "normalize_key k = Inr k" "\<forall>v \<in> set (users d). stored_key_is k v \<longrightarrow> v = u"
      "get_subscription_payload sha secret decode k = Inr None"
    and link: "(kind, link) \<in> set (build_subscription_links (Inr [''/sub'']) (create_subscription_token sha secret now (username u)) preferred u)"
  shows "fst (serve_request repair (get_subscription_payload sha secret decode) d settings \<lparr>rq_path = link, rq_query = []\<rparr> None) =
    Inr (u, By_agent)"
proof -
  let ?p = "get_subscription_payload sha secret decode" and ?t = "create_subscription_token sha secret now (username u)"
  have n: "username u \<noteq> []" "CHR ''/'' \<notin> set (username u)" using name name_chars by auto
  have ascii: "CHR '','' \<notin> set (username u) \<and> (\<forall>c \<in> set (username u). of_char c < (128 :: nat)) \<and> length (username u) \<ge> 3"
    using name name_char_plain by (auto simp: list_all_iff)
  have "now \<le> ceil_seconds now * usecs" by (simp add: ceil_seconds_def usecs_def)
  then have stamp: "stamp_ok (ceil_seconds now * usecs) u" using now(3) by (auto simp: stamp_ok_def split: option.splits)
  have token: "fst (validate_subscription_by_token ?p d ?t None) = Inr u"
    using made_token_live [OF sha ascii row(1) now(1,2)] stamp by simp
  have c: "candidate_identifiers ?t = [?t]" using name(2) by (intro token_candidates) simp
  moreover have "candidate_identifiers [] = []" by (simp add: candidate_identifiers_def strip_def)
  ultimately have t: "?t \<noteq> []" by force
  obtain rd where "validate_subscription_by_token ?p d ?t None = (Inr u, rd)" using token by (metis prod.collapse)
  then have "fst (get_user_by_identifier ?p d ?t None) = Inr u" by (simp add: get_user_by_identifier_def c)
  then have 1: "fst (serve_request repair ?p d settings \<lparr>rq_path = ''/sub/'' @ ?t, rq_query = []\<rparr> None) = Inr (u, By_agent)"
    unfolding serve_identifier [OF t token_no_slash] by (simp add: with_kind_def split: sum.splits prod.splits)
  have k: "k \<notin> {[], ''info'', ''usage''}" "CHR ''/'' \<notin> set k" using key_is_key [OF key(2)] by auto
  then have "k \<noteq> []" by simp
  have 2: "fst (serve_request repair ?p d settings \<lparr>rq_path = ''/sub/'' @ k, rq_query = []\<rparr> None) = Inr (u, By_agent)"
    using identifier_key_off [of k d u ?p, OF key_user_found [OF row(2) key(1-3)] key(2,4)]
    unfolding serve_identifier [OF \<open>k \<noteq> []\<close> k(2)] by (simp add: with_kind_def split: sum.splits prod.splits)
  have 3: "fst (serve_request repair ?p d settings \<lparr>rq_path = ''/sub/'' @ username u @ ''/'' @ k, rq_query = []\<rparr> None) = Inr (u, By_agent)"
    using by_key_off [OF row(1) key(1,2) n(1)] unfolding serve_named_key [OF n k]
    by (simp add: with_kind_def split: sum.splits prod.splits)
  have "link \<in> {''/sub/'' @ username u @ ''/'' @ k, ''/sub/'' @ k, ''/sub/'' @ ?t}"
    using subsetD [OF plain_links_of_user [OF key(1) \<open>k \<noteq> []\<close>] link] by simp
  then show ?thesis using 1 2 3 by blast
qed

lemma default_links_resolve_witness:
  "fst (serve_request id (get_subscription_payload (\<lambda>_. replicate 32 CHR ''A'') ''s'' (\<lambda>_. None))
      (sample_db\<lparr>users := [ann\<lparr>credential_key := Some sample_key\<rparr>]\<rparr>) []
      \<lparr>rq_path = ''/sub/'' @ sample_key, rq_query = []\<rparr> None) = Inr (ann\<lparr>credential_key := Some sample_key\<rparr>, By_agent)"
proof -
  let ?u = "ann\<lparr>credential_key := Some sample_key\<rparr>" and ?sha = "\<lambda>_ :: string. replicate 32 CHR ''A''"
  let ?d = "sample_db\<lparr>users := [?u]\<rparr>"
  have n: "username ?u = ''ann''" "created_at ?u = 0" "sub_revoked_at ?u = None" "status ?u = Active"
    by (simp_all add: ann_def new_user_def)
  have c: "ceil_seconds 5100000 = 6" by (simp add: ceil_seconds_def usecs_def)
  have key: "get_subscription_payload ?sha ''s'' (\<lambda>_. None) sample_key = Inr None" by code_simp
  have name: "list_all name_char ''ann''" by code_simp
  have link: "(''key'', ''/sub/'' @ sample_key) \<in>
      set (build_subscription_links (Inr [''/sub'']) (create_subscription_token ?sha ''s'' 5100000 (username ?u)) [] ?u)"
    by (simp add: build_subscription_links_def key_links_def sample_key_def)
  show ?thesis
    by (rule default_links_resolve [where now = 5100000 and kind = "''key''" and preferred = "[]", OF _ _ _ _ _ _ _ _ _ _ _ _ link])
      (use name key sample_key_ok in \<open>simp_all add: n c stamp_ok_def db_user_by_name_def\<close>)
qed

section \<open>Other paths\<close>

lemma strip_char_ends: "s \<noteq> [] \<Longrightarrow> hd s \<noteq> c \<Longrightarrow> last s \<noteq> c \<Longrightarrow> strip_char c s = s"
proof -
  assume "s \<noteq> []" "hd s \<noteq> c" "last s \<noteq> c"
  then have "dropWhile (\<lambda>x. x = c) s = s" "dropWhile (\<lambda>x. x = c) (rev s) = rev s"
    by (simp_all add: dropWhile_eq_self_iff hd_rev)
  then show ?thesis by (simp add: strip_char_def)
qed

text \<open>With another path than \<open>sub\<close> the link with the name and the key of a user answers 404: the route for other
  paths takes the name alone for the identifier. So does the path that an admin chose for its users.\<close>

theorem named_link_of_other_path_fails:
  assumes path: "jget settings ''subscription_path'' = JStr p" "CHR ''/'' \<notin> set p" "p \<notin> {[], ''sub'', ''api''}"
    and name: "list_all name_char n" "n \<noteq> []" "payload n = Inr None" "\<not> is_credential_key n"
    and key: "k \<noteq> []" "CHR ''/'' \<notin> set k"
  shows "fst (serve_request repair payload d settings \<lparr>rq_path = ''/'' @ p @ ''/'' @ n @ ''/'' @ k, rq_query = []\<rparr> rd) =
    Inl (Http_error 404 ''Not Found'')"
proof -
  let ?path = "''/'' @ p @ ''/'' @ n @ ''/'' @ k"
  have ns: "CHR ''/'' \<notin> set n" using name_chars(1) [OF name(1)] .
  have parts: "path_parts ?path = [p, n, k]"
    using split_on_first [OF path(2), of "n @ ''/'' @ k"] split_on_first [OF ns, of k] split_on_none [OF key(2)]
    by (simp add: path_parts_def starts_with_def)
  have not_sub: "\<not> starts_with ''/sub/'' ?path"
  proof
    assume "starts_with ''/sub/'' ?path"
    then obtain rest where "?path = ''/sub/'' @ rest" by (metis append_take_drop_id starts_with_def)
    then have "path_parts ?path = ''sub'' # split_on CHR ''/'' rest"
      using split_on_first [of "CHR ''/''" "''sub''" rest] by (simp add: path_parts_def starts_with_def)
    then show False using parts path(3) by simp
  qed
  have p: "p \<noteq> []" using path(3) by simp
  have "strip_char CHR ''/'' p = p"
    using strip_char_ends [OF p] hd_in_set [OF p] last_in_set [OF p] path(2) by metis
  moreover have "starts_with (''/'' @ p @ ''/'') ?path" by (simp add: starts_with_def)
  moreover have "first_segment (n @ ''/'' @ k) = Some n"
  proof -
    have "strip_char CHR ''/'' (n @ ''/'' @ k) = n @ ''/'' @ k"
    proof (rule strip_char_ends)
      show "hd (n @ ''/'' @ k) \<noteq> CHR ''/''" using ns hd_in_set [OF name(2)] name(2) by (metis hd_append)
      show "last (n @ ''/'' @ k) \<noteq> CHR ''/''" using key last_in_set [OF key(1)] by (metis append_is_Nil_conv last_appendR)
    qed simp
    then show ?thesis using cut_at_first [OF ns, of k] by (simp add: first_segment_def)
  qed
  ultimately have "resolve_identifier_from_aliases repair \<lparr>rq_path = ?path, rq_query = []\<rparr> aliases p = Inr (Some n)" for aliases
    using path(3) not_sub by (simp add: resolve_identifier_from_aliases_def under_prefix_def)
  moreover have "get_user_by_identifier payload d n rd = (not_found, rd)"
    using candidates_plain [OF name(2) name_chars(2) [OF name(1)]] name(3,4)
    by (simp add: get_user_by_identifier_def validate_subscription_by_token_def not_found_def passed_over_def)
  moreover have "serve_request repair payload d settings \<lparr>rq_path = ?path, rq_query = []\<rparr> rd =
      subscribe_custom_alias repair payload d settings \<lparr>rq_path = ?path, rq_query = []\<rparr> rd"
    using path(3) parts by (simp add: serve_request_def)
  ultimately show ?thesis
    by (simp add: subscribe_custom_alias_def path(1) text_or_empty_def Let_def with_kind_def not_found_def)
qed

lemma named_link_of_other_path_fails_witness:
  "fst (serve_request id (\<lambda>_. Inr None) (sample_db\<lparr>users := [ann\<lparr>credential_key := Some sample_key\<rparr>]\<rparr>)
      [(''subscription_path'', JStr ''vip'')]
      \<lparr>rq_path = ''/'' @ ''vip'' @ ''/'' @ ''ann'' @ ''/'' @ sample_key, rq_query = []\<rparr> None) = Inl (Http_error 404 ''Not Found'')"
proof -
  have "list_all name_char ''ann''" "\<not> is_credential_key ''ann''" by code_simp+
  then show ?thesis
    by (intro named_link_of_other_path_fails) (simp_all add: jget_def sample_key_def)
qed

end
