(* ===== verification/ListingProperties.thy ===== *)
theory ListingProperties
  imports ListingFacts Samples
begin

text \<open>
  Properties of the user list: the users in Redis give what the tables give, an admin sees nothing of
  the users of others, the link of a user finds the user, and pages and totals fit together.
\<close>

section \<open>Samples\<close>

definition plain_search :: search_libs where
  "plain_search = \<lparr>sl_payload = (\<lambda>_. Inr None), sl_sub_path = ''sub'', sl_netloc_ok = (\<lambda>_. True),
     sl_parse = (\<lambda>_. None), sl_repair = id, sl_masks = (\<lambda>_. None)\<rparr>"

definition search_for :: "string \<Rightarrow> list_query" where
  "search_for s = \<lparr>lq_usernames = [], lq_search = s, lq_status = [], lq_admin = None, lq_admins = [], lq_filters = [],
     lq_service = None, lq_strategies = []\<rparr>"

section \<open>Redis and tables\<close>

text \<open>C22. While the users in Redis are those of the tables, in their order, a list taken from Redis is the list
  that the query gives, with its count: for every filter, every sort and every page, for searches that
  are no pattern and no password. A sort that Python cannot do falls back to the query. Rows must be the
  way the application writes them: names not empty, keys canonical, no limit and no expiry of zero, and
  admins must be asked for the way they are spelled.\<close>

theorem redis_list_agrees:
  assumes usual: "\<forall>u \<in> set (users d). usual_row u" and names: "spelled d q"
    and search: "plain_text (lq_search q)"
      "\<And>tk. search_tokens_of sl (lq_search q) = Inr tk \<Longrightarrow> st_passwords tk = []"
    and pages: "0 \<le> zero_if_none offset" "0 \<le> zero_if_none limit"
  shows "get_users sl d (Some (cached_rows d)) now q opts offset limit = get_users sl d None now q opts offset limit"
proof (cases "get_users_memory sl now q opts offset limit (cached_rows d)")
  case (Inl e)
  then show ?thesis by (cases "cached_rows d") (simp_all add: get_users_def Let_def)
next
  case (Inr r)
  have agree: "filter_users_in_memory sl now q (cached_rows d) = filtered_users sl d now q"
    using memory_filter_agrees [OF usual names search(1)] search(2) by blast
  obtain us ys where us: "filtered_users sl d now q = Inr us"
    and ys: "fold_res sort_in_memory (rev (effective_sort opts)) us = Inr ys"
    and r: "r = (memory_page_of offset limit ys, length ys)"
    using Inr unfolding get_users_memory_def agree then_res_Inr by auto
  have "u \<in> set (users d)" if "u \<in> set us" for u using us that by (auto simp: filtered_form then_res_Inr)
  then have "ys = order_users (effective_sort opts) us" using memory_sorts_agree [OF ys] usual by blast
  then have "get_users_query sl d now q opts offset limit = Inr r"
    by (simp add: get_users_query_def us r pages_agree [OF pages])
  then show ?thesis using Inr by (cases "cached_rows d") (simp_all add: get_users_def Let_def)
qed

lemma redis_list_agrees_witness:
  "map_prod (map uid) id (get_users plain_search sample_db (Some (cached_rows sample_db)) 0 (search_for ''A'')
     [(By_expire, True)] (Some 0) (Some 1)) = ([1], 1)"
proof -
  let ?q = "search_for ''A''"
  have usual: "\<forall>u \<in> set (users sample_db). usual_row u"
    by (simp add: usual_row_def ann_def bob_def new_user_def sample_db_def)
  have tokens: "map_sum id st_passwords (search_tokens_of plain_search ''A'') = Inr []" by code_simp
  have "spelled sample_db ?q" by (simp add: spelled_def search_for_def sample_db_def keeper_def new_admin_def)
  moreover have "plain_text (lq_search ?q)" by (simp add: plain_text_def search_for_def)
  moreover have "st_passwords tk = []" if "search_tokens_of plain_search (lq_search ?q) = Inr tk" for tk
    using tokens that by (simp add: search_for_def)
  moreover have "0 \<le> zero_if_none (Some 0)" "0 \<le> zero_if_none (Some 1)" by (simp_all add: zero_if_none_def)
  ultimately have "get_users plain_search sample_db (Some (cached_rows sample_db)) 0 ?q [(By_expire, True)] (Some 0) (Some 1) =
      get_users plain_search sample_db None 0 ?q [(By_expire, True)] (Some 0) (Some 1)"
    by (rule redis_list_agrees [OF usual])
  moreover have "map_prod (map uid) id (get_users plain_search sample_db None 0 ?q [(By_expire, True)] (Some 0) (Some 1)) = ([1], 1)"
    by code_simp
  ultimately show ?thesis by (simp only:)
qed

section \<open>Who sees whom\<close>

text \<open>C21. The answer to \<open>GET /users\<close> for an admin without a privileged role, the users on the page with all
  totals, counts and errors, is the one it gets when the users of everybody else are deleted from the
  tables: whatever the admin asks for, nothing of their users shows.\<close>

theorem others_do_not_matter:
  assumes role: "pr_role a \<notin> {Sudo, Full_access}" and row: "get_admin d (Some (pr_username a)) None = Some row"
  shows "list_users sl (d\<lparr>users := filter (\<lambda>u. admin_id u = Some (aid row)) (users d)\<rparr>) pending now a names search owners st
      filters service sort' offset limit links =
    list_users sl d pending now a names search owners st filters service sort' offset limit links"
proof -
  let ?d = "d\<lparr>users := filter (\<lambda>u. admin_id u = Some (aid row)) (users d)\<rparr>"
  have admin: "get_admin ?d (Some (pr_username a)) None = Some row"
    using row by (simp add: get_admin_def split: if_splits)
  have count: "get_users_count ?d st (Some (aid row)) = get_users_count d st (Some (aid row))" for st
    by (simp add: get_users_count_def) (metis (mono_tags, lifting) filter_cong)
  have item: "item_of ?d pending = item_of d pending" by (simp add: item_of_def fun_eq_iff)
  have list: "get_users_list_db_only sl ?d pending now q opts offset limit l links =
      get_users_list_db_only sl d pending now q opts offset limit l links"
    if "lq_admin q = Some (aid row)" for q opts l
  proof -
    have rest: "lq_admin (q\<lparr>lq_usernames := []\<rparr>) = Some (aid row)" using that by simp
    show ?thesis
      by (simp only: get_users_list_db_only_def Let_def get_users_status_breakdown_def get_users_usage_sum_def
          get_users_online_count_def get_users_def get_users_query_def filtered_restricted [OF that]
          filtered_restricted [OF rest] item that count)
  qed
  show ?thesis unfolding list_users_def row admin option.case using role
    by (cases "parse_sort sort'") (simp_all add: list)
qed

lemma others_do_not_matter_witness:
  "list_users plain_search (sample_db\<lparr>users := [ann, (new_user 3 ''zoe'' 0)\<lparr>admin_id := Some 2\<rparr>]\<rparr>) (\<lambda>_. 0) 0
     \<lparr>pr_id = Some 1, pr_username = ''keeper'', pr_role = Standard, pr_permissions = role_default_permissions Standard,
      pr_status = Admin_active, pr_disabled_reason = None\<rparr> [] ''zoe'' [] None [] None None None None False =
   list_users plain_search (sample_db\<lparr>users := [ann]\<rparr>) (\<lambda>_. 0) 0
     \<lparr>pr_id = Some 1, pr_username = ''keeper'', pr_role = Standard, pr_permissions = role_default_permissions Standard,
      pr_status = Admin_active, pr_disabled_reason = None\<rparr> [] ''zoe'' [] None [] None None None None False"
proof -
  let ?zoe = "(new_user 3 ''zoe'' 0)\<lparr>admin_id := Some 2\<rparr>" and ?d = "sample_db\<lparr>users := [ann, (new_user 3 ''zoe'' 0)\<lparr>admin_id := Some 2\<rparr>]\<rparr>"
  let ?a = "\<lparr>pr_id = Some 1, pr_username = ''keeper'', pr_role = Standard, pr_permissions = role_default_permissions Standard,
      pr_status = Admin_active, pr_disabled_reason = None\<rparr>"
  have row: "get_admin ?d (Some (pr_username ?a)) None = Some keeper" by code_simp
  have own: "filter (\<lambda>u. admin_id u = Some (aid keeper)) (users ?d) = [ann]"
    by (simp add: ann_def keeper_def new_admin_def new_user_def)
  have "pr_role ?a \<notin> {Sudo, Full_access}" by simp
  from others_do_not_matter [OF this row, unfolded own] show ?thesis by simp
qed

section \<open>Finding a user by its link\<close>

text \<open>An admin pastes the VLESS link of a user into the search: the user is in the answer, whatever
  address, remark and parameters the link has, though the stored settings need not hold the identifier
  of the link. The identifier in it is found in the text, and the masks make the key of the user of it.\<close>

theorem vless_link_found:
  assumes u: "u \<in> set (users d)" "status u \<noteq> Deleted" "credential_key u = Some k"
    and key: "normalize_key k = Inr k" "usable_masks (sl_masks sl)"
    and st: "apply_credentials_to_settings (sl_masks sl) sha s VLESS (Some k) = Inr st"
    and link: "vless_link ib remark address st path = Inr link"
    and found: "filtered_users sl d now (search_for link) = Inr us"
  shows "u \<in> set us"
proof -
  obtain bs where bs: "key_to_uuid (sl_masks sl) k (Some VLESS) = Inr bs" "length bs = 16"
    "uuid_to_key (sl_masks sl) (uuid_str bs) (Some VLESS) = Inr k"
    by (rule key_to_uuid_defined [OF key])
  have "str_or_none (Some k) = Some k" by (rule normalize_key_nonempty [OF key(1)])
  then have "st = AList.update ''id'' (SStr (uuid_str bs)) s"
    using st bs(1) key(1) by (simp add: apply_credentials_to_settings_def uuid_protocols_def password_protocols_def)
  then have "setting_key st ''id'' = Inr (SStr (uuid_str bs))" by (simp add: setting_key_def update_conv)
  then obtain rest where l: "link = ''vless://'' @ uuid_str bs @ ''@'' @ rest"
    using link by (auto simp: vless_link_def then_res_Inr setting_text_def)
  then have "lq_search (search_for link) \<noteq> []" by (simp add: search_for_def)
  then obtain tk where tk: "search_tokens_of sl link = Inr tk"
    and us: "us = filter (\<lambda>u. query_matches link tk u \<and> admits d now (search_for link) u) (users d)"
    using found by (auto simp: filtered_form search_test_def then_res_Inr search_for_def)
  have "k \<in> set (query_keys tk)"
    using link_tokens(2) [OF bs(2) tk [unfolded l] bs(3)] by (simp add: query_keys_def)
  then have "query_matches link tk u" by (simp add: query_matches_def u(3))
  moreover have "admits d now (search_for link) u"
    using u(2) by (simp add: admits_def search_for_def memory_advanced_def normalized_filters_def wanted_statuses_def map_filter_simps)
  ultimately show ?thesis using u(1) us by simp
qed

definition nora :: user where
  "nora = (new_user 5 ''dora'' 0)\<lparr>credential_key := Some sample_key\<rparr>"

definition dora_link :: "string result" where
  "dora_link = then_res (apply_credentials_to_settings (\<lambda>_. None) id [] VLESS (Some sample_key)) (\<lambda>st.
     vless_link [(''network'', JStr ''tcp''), (''tls'', JStr ''none''), (''header_type'', JStr []), (''host'', JStr []),
       (''port'', JInt 443)] ''r'' ''10.0.0.1'' st [])"

lemma vless_link_found_witness:
  "map_sum id (\<lambda>us. nora \<in> set us) (then_res dora_link (\<lambda>l.
     filtered_users plain_search (sample_db\<lparr>users := [ann, nora]\<rparr>) 0 (search_for l))) = Inr True"
proof -
  let ?d = "sample_db\<lparr>users := [ann, nora]\<rparr>"
  have "case dora_link of Inr l \<Rightarrow> (case filtered_users plain_search ?d 0 (search_for l) of Inr _ \<Rightarrow> True | Inl _ \<Rightarrow> False)
      | Inl _ \<Rightarrow> False" by code_simp
  then obtain l us where l: "dora_link = Inr l" and us: "filtered_users plain_search ?d 0 (search_for l) = Inr us"
    by (auto split: sum.splits)
  obtain st where st: "apply_credentials_to_settings (\<lambda>_. None) id [] VLESS (Some sample_key) = Inr st"
    and link: "vless_link [(''network'', JStr ''tcp''), (''tls'', JStr ''none''), (''header_type'', JStr []), (''host'', JStr []),
       (''port'', JInt 443)] ''r'' ''10.0.0.1'' st [] = Inr l"
    using l unfolding dora_link_def then_res_Inr by blast
  have "nora \<in> set us"
    by (rule vless_link_found [where sha = id and s = "[]", OF _ _ _ sample_key_ok _ _ link us])
      (simp_all add: nora_def new_user_def plain_search_def usable_masks_def st)
  then show ?thesis by (simp add: l us)
qed

section \<open>Pages and totals\<close>

text \<open>The pages of the list, taken one after the other with the same size, are the whole list cut in
  pieces: no user is left out or shown twice, every page has the same total, which is the length of the
  whole list, and the whole list has the users that the filters admit, each once.\<close>

theorem list_pages:
  assumes n: "0 < n" and enough: "int amount \<le> int m * n"
    and all: "get_users_query sl d now q opts None None = Inr (whole, amount)"
    and each: "\<And>k. k < m \<Longrightarrow> get_users_query sl d now q opts (Some (int k * n)) (Some n) = Inr (page k, amounts k)"
  shows "concat (map page [0..<m]) = whole \<and> amount = length whole \<and> list_all (\<lambda>k. amounts k = amount) [0..<m] \<and>
    map_sum id mset (filtered_users sl d now q) = Inr (mset whole)"
proof -
  obtain us where us: "filtered_users sl d now q = Inr us"
    and whole: "whole = order_users (effective_sort opts) us" and amount: "amount = length us"
    using all by (auto simp: get_users_query_def then_res_Inr page_of_def zero_if_none_def)
  have page: "page k = take (nat n) (drop (k * nat n) whole) \<and> amounts k = amount" if "k < m" for k
    using each [OF that] n by (auto simp: get_users_query_def us page_of_def zero_if_none_def whole amount nat_mult_distrib Let_def
        zero_less_mult_iff split: if_splits)
  have pieces: "concat (map (\<lambda>k. take (nat n) (drop (k * nat n) xs)) [0..<j]) = take (j * nat n) xs" for j and xs :: "user list"
  proof (induction j)
    case (Suc j)
    have "take (j * nat n + nat n) xs = take (j * nat n) xs @ take (nat n) (drop (j * nat n) xs)" by (rule take_add)
    then show ?case using Suc by (simp add: add.commute)
  qed simp
  have "map page [0..<m] = map (\<lambda>k. take (nat n) (drop (k * nat n) whole)) [0..<m]"
    using page by (intro map_cong) auto
  then have "concat (map page [0..<m]) = take (m * nat n) whole" by (simp only: pieces)
  moreover have "int (length whole) \<le> int (m * nat n)" using enough n by (simp add: whole amount)
  then have "length whole \<le> m * nat n" by (simp only: of_nat_le_iff)
  ultimately show ?thesis using page by (simp add: whole amount us list_all_iff)
qed

lemma list_pages_witness:
  "\<exists>p0 p1. concat [p0, p1] = [ann, bob] \<and>
     get_users_query plain_search sample_db 0 (search_for []) [(By_username, False)] (Some 0) (Some 1) = Inr (p0, 2) \<and>
     get_users_query plain_search sample_db 0 (search_for []) [(By_username, False)] (Some 1) (Some 1) = Inr (p1, 2)"
proof -
  let ?get = "get_users_query plain_search sample_db 0 (search_for []) [(By_username, False)]"
  have f: "filtered_users plain_search sample_db 0 (search_for []) = Inr [ann, bob]"
    by (simp add: filtered_form search_test_def search_for_def admits_def memory_advanced_def normalized_filters_def
        wanted_statuses_def map_filter_simps sample_db_def ann_def bob_def new_user_def)
  have o: "order_users [(By_username, False)] [ann, bob] = [ann, bob]" by code_simp
  have all: "?get None None = Inr ([ann, bob], 2)"
    by (simp add: get_users_query_def f o effective_sort_def page_of_def zero_if_none_def)
  have each: "\<exists>r. ?get (Some (int k * 1)) (Some 1) = Inr r" for k by (simp add: get_users_query_def f)
  then obtain r where r: "\<And>k. ?get (Some (int k * 1)) (Some 1) = Inr (r k)" by metis
  have "concat (map (fst \<circ> r) [0..<2]) = [ann, bob] \<and> (2 :: nat) = length [ann, bob] \<and>
      list_all (\<lambda>k. (snd \<circ> r) k = 2) [0..<2] \<and>
      map_sum id mset (filtered_users plain_search sample_db 0 (search_for [])) = Inr (mset [ann, bob])"
    by (rule list_pages [OF _ _ all, of 1]) (simp_all add: r [simplified])
  then show ?thesis using r [of 0] r [of 1]
    by (intro exI [of _ "fst (r 0)"] exI [of _ "fst (r 1)"]) (auto simp: numeral_2_eq_2 prod_eq_iff)
qed

end
