(* ===== verification/CatalogFacts.thy ===== *)
theory CatalogFacts
  imports RefreshFacts
begin

text \<open>
  The references between hosts, services and users under every request: sessions that change a user,
  refreshes, the endpoints, and the step relation over all of them.
\<close>

section \<open>Integrity under operations on users\<close>

text \<open>
  \<open>S\<close> are the keys of the services, which no operation on a user changes. A session keeps the
  integrity of the tables when the service of its object is one of them.
\<close>

definition sound_tables :: "int list \<Rightarrow> db \<Rightarrow> bool" where
  "sound_tables S d \<longleftrightarrow> catalog_ok d \<and> map sid (services d) = S"

definition sound_session :: "int list \<Rightarrow> session \<Rightarrow> bool" where
  "sound_session S s \<longleftrightarrow> sound_tables S (committed s) \<and>
     (\<forall>i. service_id (obj s) = Some i \<longrightarrow> i \<in> set S)"

lemma sound_save:
  assumes d: "sound_tables S d" and u: "\<And>i. service_id u = Some i \<Longrightarrow> i \<in> set S"
  shows "sound_tables S (save_user u d)"
proof -
  have S: "set S = sid ` set (services d)" using d by (auto simp: sound_tables_def)
  have "set (store_user u (users d)) \<subseteq> insert u (set (users d))" by (auto simp: store_by_def)
  moreover have "i \<in> sid ` set (services d)" if "v \<in> set (users d)" "service_id v = Some i" for v i
    using d that by (simp add: sound_tables_def catalog_ok_def)
  ultimately have "i \<in> sid ` set (services (save_user u d))"
    if "v \<in> set (users (save_user u d))" "service_id v = Some i" for v i
    using that u S by (metis insertE save_user_simps(1,3) subsetD)
  moreover have "catalog_ok d" using d by (simp add: sound_tables_def)
  ultimately have "catalog_ok (save_user u d)"
    by (intro catalog_services [OF \<open>catalog_ok d\<close>]) (simp_all add: catalog_ok_def image_subset_iff)
  then show ?thesis using d by (simp add: sound_tables_def)
qed

lemma sound_create: "sound_tables S d \<Longrightarrow> sound_tables S (create_inbound_row tag d)"
  by (simp add: sound_tables_def create_inbound_row_ok)

lemma sound_flush: "sound_session S s \<Longrightarrow> sound_session S (flush_obj s)"
  by (auto simp: sound_session_def flush_obj_def Let_def intro: sound_save)

interpretation sound: session_predicate "sound_session S" "\<lambda>x. \<forall>i. x = Some i \<longrightarrow> i \<in> set S" for S
proof unfold_locales
  show "sound_session S (change_obj f s)" if "sound_session S s"
    and "\<And>u. uid (f u) = uid u \<and> (service_id (f u) = service_id u \<or>
      (\<forall>i. service_id (f u) = Some i \<longrightarrow> i \<in> set S))" for s f
    using that(1) that(2) [of "obj s"] by (auto simp: sound_session_def change_obj_def)
qed (simp_all add: sound_flush, simp_all add: sound_session_def sound_create)

text \<open>A refresh of a service.\<close>

lemma sound_refresh_one:
  assumes "sid svc \<in> set S" and "service_id u = Some (sid svc)"
  shows "op_keeps (sound_tables S) (refresh_one env now svc allowed u)"
proof -
  have "sound_tables S (durable t') \<and> sound_tables S (working t')"
    if t: "sound_tables S (durable t)" "sound_tables S (working t)"
      and r: "refresh_one env now svc allowed u t = (r, t')" for t r t'
  proof -
    let ?s = "\<lparr>committed = working t, obj = u, doomed = []\<rparr>"
    obtain x s where s: "apply_service_to_user env now True svc allowed ?s = (x, s)" by force
    have "sound_session S ?s" using t assms by (simp add: sound_session_def)
    then have "sound_session S s"
      using sound.applied [of S ?s svc env now True allowed] assms(1) s by simp
    then have "sound_tables S (committed s)" "sound_tables S (committed (flush_obj s))"
      using sound_flush [of S s] by (simp_all add: sound_session_def)
    then show ?thesis using r t s
      by (auto simp: refresh_one_def Let_def split: sum.splits if_splits)
  qed
  then show ?thesis unfolding op_keeps_def by (metis prod.collapse)
qed

lemma sound_refresh_by_id: "op_keeps (sound_tables S) (refresh_by_id env now i)"
proof -
  have "sound_tables S (durable t') \<and> sound_tables S (working t')"
    if t: "sound_tables S (durable t)" "sound_tables S (working t)"
      and r: "refresh_by_id env now i t = (r, t')" for t r t'
  proof (cases "get_service (working t) i")
    case None
    then show ?thesis using t r by (simp add: refresh_by_id_def)
  next
    case (Some svc)
    let ?us = "filter (\<lambda>u. status u \<noteq> Deleted) (service_users (working t) (sid svc))"
    let ?f = "refresh_one env now svc (compute_allowed_inbounds (core env) (hosts (working t)) svc)"
    have "sid svc \<in> set S" using get_service_row [OF Some] t(2) by (auto simp: sound_tables_def)
    then have "op_keeps (sound_tables S) (op_each ?f ?us)"
      by (intro op_keeps_each_in sound_refresh_one) (auto simp: service_users_def)
    moreover have "op_each ?f ?us t = (r, t')" using r Some by (simp add: refresh_by_id_def refresh_users_def)
    ultimately show ?thesis using t unfolding op_keeps_def by (metis snd_conv)
  qed
  then show ?thesis unfolding op_keeps_def by (metis prod.collapse)
qed

lemma sound_refresh_and_commit: "op_keeps (sound_tables S) (refresh_and_commit env now i)"
proof -
  have "op_keeps (sound_tables S) (op_bind (refresh_by_id env now i)
      (\<lambda>us. op_bind op_commit (\<lambda>_. op_return us)))"
    by (intro op_keeps_bind sound_refresh_by_id) auto
  then show ?thesis unfolding op_keeps_def refresh_and_commit_def by (auto split: option.split)
qed

lemma refresh_ok:
  assumes "catalog_ok d"
  shows "catalog_ok (service_users_refresh env now ids d)"
proof -
  have "sound_tables (map sid (services d))
      (snd (outcome (op_each (refresh_and_commit env now) (sort (remdups ids))) d))"
    by (rule outcome_keeps [OF op_keeps_each [OF sound_refresh_and_commit]])
      (simp add: sound_tables_def assms)
  then show ?thesis by (simp add: service_users_refresh_def sound_tables_def)
qed

text \<open>Creating and modifying a user.\<close>

lemma catalog_admin_link:
  "catalog_ok d \<Longrightarrow> sid sv \<in> sid ` set (services d) \<Longrightarrow> catalog_ok (ensure_admin_service_link a sv d)"
  by (auto simp: ensure_admin_service_link_def catalog_ok_def split: option.split)

lemma sound_keys:
  assumes "sound_session (map sid (services d)) s"
  shows "catalog_ok (committed s) \<and> sid ` set (services (committed s)) = sid ` set (services d) \<and>
    (\<forall>k. service_id (obj s) = Some k \<longrightarrow> k \<in> sid ` set (services d))"
proof -
  have "map sid (services (committed s)) = map sid (services d)"
    using assms by (simp add: sound_session_def sound_tables_def)
  then have "set (map sid (services (committed s))) = set (map sid (services d))" by (rule arg_cong)
  then show ?thesis using assms by (simp add: sound_session_def sound_tables_def)
qed

lemma update_user_ok:
  assumes ok: "catalog_ok d" and u: "\<And>i. service_id u = Some i \<Longrightarrow> i \<in> sid ` set (services d)"
    and svc: "\<And>sv. svc = Some sv \<Longrightarrow> sid sv \<in> sid ` set (services d)"
  shows "catalog_ok (snd (update_user env now d u m svc service_set a))"
proof -
  let ?S = "map sid (services d)"
  have start: "sound_session ?S \<lparr>committed = d, obj = u, doomed = []\<rparr>"
    using ok u by (simp add: sound_session_def sound_tables_def)
  obtain s where s: "sound_session ?S s"
    and d': "snd (update_user env now d u m svc service_set a) = committed s \<or>
      (\<exists>sv. svc = Some sv \<and> snd (update_user env now d u m svc service_set a) =
        ensure_admin_service_link a sv (committed s))"
    by (rule sound.update [OF start, of svc]) (use svc in auto)
  have ids: "catalog_ok (committed s)" "sid ` set (services (committed s)) = sid ` set (services d)"
    using sound_keys [OF s] by auto
  have "catalog_ok (ensure_admin_service_link a sv (committed s))" if "svc = Some sv" for sv
    using ids svc [OF that] by (intro catalog_admin_link) simp_all
  then show ?thesis using d' ids(1) by auto
qed

lemma catalog_users:
  assumes "catalog_ok d" and "\<And>u i. u \<in> set us \<Longrightarrow> service_id u = Some i \<Longrightarrow> i \<in> sid ` set (services d)"
  shows "catalog_ok (d\<lparr>users := us\<rparr>)"
  using assms by (simp add: catalog_ok_def)

lemma create_user_ok:
  assumes ok: "catalog_ok d" and svc: "\<And>sv. svc = Some sv \<Longrightarrow> sid sv \<in> sid ` set (services d)"
  shows "catalog_ok (snd (create_user env now i d m a svc))"
proof -
  let ?S = "map sid (services d)"
  have "service_id (created_row now i m a (created_key env m) []) = None"
    by (simp add: created_row_def new_user_def)
  then have start: "sound_session ?S \<lparr>committed = d, obj = created_row now i m a (created_key env m) [], doomed = []\<rparr>"
    using ok by (simp add: sound_session_def sound_tables_def)
  obtain s where s: "sound_session ?S s"
    and d': "snd (create_user env now i d m a svc) \<in> {d, committed s} \<or>
      (\<exists>d' \<in> insert (committed s) {ensure_admin_service_link a sv (committed s) | sv. svc = Some sv}.
         snd (create_user env now i d m a svc) = d'\<lparr>users := users d' @ [obj s]\<rparr>)"
    by (rule sound.create_user [OF start, of svc]) (use svc in auto)
  have ids: "catalog_ok (committed s)" "sid ` set (services (committed s)) = sid ` set (services d)"
      "\<And>k. service_id (obj s) = Some k \<Longrightarrow> k \<in> sid ` set (services d)"
    using sound_keys [OF s] by auto
  have "catalog_ok (d'\<lparr>users := users d' @ [obj s]\<rparr>)"
    if "d' \<in> insert (committed s) {ensure_admin_service_link a sv (committed s) | sv. svc = Some sv}" for d'
  proof -
    have "catalog_ok (ensure_admin_service_link a sv (committed s)) \<and>
        services (ensure_admin_service_link a sv (committed s)) = services (committed s)" if "svc = Some sv" for sv
      using ids(1,2) svc [OF that]
      by (intro conjI catalog_admin_link) (simp_all add: ensure_admin_service_link_def split: option.split)
    then have "catalog_ok d'" "services d' = services (committed s)" using that ids(1) by auto
    moreover from this have "i \<in> sid ` set (services d')"
      if "u \<in> set (users d')" "service_id u = Some i" for u i
      using that by (simp add: catalog_ok_def)
    moreover have "i \<in> sid ` set (services d')" if "service_id (obj s) = Some i" for i
      using ids(3) [OF that] ids(2) \<open>services d' = services (committed s)\<close> by (simp only:)
    ultimately show ?thesis by (intro catalog_users) (simp_all only: set_append set_simps Un_iff insert_iff, blast)
  qed
  then have added: "catalog_ok (snd (create_user env now i d m a svc))"
    if "\<exists>d' \<in> insert (committed s) {ensure_admin_service_link a sv (committed s) | sv. svc = Some sv}.
         snd (create_user env now i d m a svc) = d'\<lparr>users := users d' @ [obj s]\<rparr>"
    using that by (elim bexE) (simp only:)
  from d' show ?thesis
  proof (elim disjE)
    assume "snd (create_user env now i d m a svc) \<in> {d, committed s}"
    then show ?thesis using ok ids(1) by (elim insertE emptyE) simp_all
  qed (rule added)
qed

text \<open>Moving users between services.\<close>

lemma move_users_ok:
  assumes "catalog_ok d" and "sid t \<in> sid ` set (services d)"
  shows "catalog_ok (snd (move_users_to_service t a svc without d))"
  using assms unfolding move_users_to_service_def Let_def snd_conv
  by (intro catalog_users) (auto simp: update_where_def catalog_ok_def split: if_splits)

lemma clear_users_ok: "catalog_ok d \<Longrightarrow> catalog_ok (snd (clear_users_service a svc without d))"
  unfolding clear_users_service_def Let_def snd_conv
  by (intro catalog_users) (auto simp: update_where_def catalog_ok_def split: if_splits)

lemma change_service_ok:
  assumes ok: "catalog_ok d" and dest: "\<And>sv. dest = Some sv \<Longrightarrow> sid sv \<in> sid ` set (services d)"
  shows "catalog_ok (snd (change_service_action env now q target dest d))"
proof (cases dest)
  case None
  then show ?thesis using ok
    clear_users_ok [OF ok, of target "br_service_id q" "br_service_id_is_null q = Some True"]
    by (simp add: change_service_action_def split_beta)
next
  case (Some sv)
  let ?d = "snd (move_users_to_service sv target (br_service_id q) (br_service_id_is_null q = Some True) d)"
  have "catalog_ok ?d" using move_users_ok [OF ok dest [OF Some]] .
  then have "sound_tables (map sid (services ?d)) ?d" by (simp add: sound_tables_def)
  have keeps: "op_keeps (sound_tables S) (refresh_service_users_by_id env now (sid sv))" for S
    unfolding refresh_service_users_by_id_def
    by (intro op_keeps_bind sound_refresh_by_id) (auto intro!: op_keeps_bind)
  have "sound_tables (map sid (services ?d))
      (snd (outcome (refresh_service_users_by_id env now (sid sv)) ?d))"
    by (rule outcome_keeps [OF keeps \<open>sound_tables (map sid (services ?d)) ?d\<close>])
  then show ?thesis using Some
    by (simp add: change_service_action_def sound_tables_def split_beta Let_def split: sum.split)
qed

section \<open>Integrity in every reachable state\<close>

text \<open>
  One request, or one background task. A payload has passed its validators; a user that is modified is
  a row of the table, and the services of a request are looked up in the same transaction.
\<close>

inductive catalog_step :: "environment \<Rightarrow> db \<Rightarrow> db \<Rightarrow> bool" for env where
  add_host_step: "catalog_step env d (snd (outcome (add_host tag p) d))"
| list_hosts_step: "catalog_step env d (snd (outcome (list_hosts tag) d))"
| modify_hosts_step: "catalog_step env d (snd (outcome (modify_hosts a known payload) d))"
| host_status_step: "catalog_step env d (snd (outcome (update_host_status a i b) d))"
| remove_hosts_step:
    "catalog_step env d (snd (outcome (op_bind (remove_all_hosts tag) (\<lambda>_. op_commit)) d))"
| disable_hosts_step:
    "catalog_step env d (snd (outcome (op_bind (disable_hosts tag) (\<lambda>_. op_commit)) d))"
| delete_inbound_step:
    "catalog_step env d (snd (outcome (op_bind (delete_inbound tag) (\<lambda>_. op_commit)) d))"
| refresh_step: "catalog_step env d (service_users_refresh env now ids d)"
| create_service_step:
    "ensure_unique_hosts (sc_hosts p) = Inr hs \<Longrightarrow> create_service_endpoint now p a d = Inr (i, d') \<Longrightarrow>
     catalog_step env d d'"
| modify_service_step:
    "(\<And>hs. sm_hosts m = Some hs \<Longrightarrow> ensure_unique_hosts hs = Inr hs) \<Longrightarrow>
     modify_service env now i m a d = Inr d' \<Longrightarrow> catalog_step env d d'"
| delete_service_step:
    "delete_service clears i q a d = Inr (gone, shifted, d') \<Longrightarrow> catalog_step env d d'"
| reset_service_step: "reset_usage_endpoint i a d = Inr d' \<Longrightarrow> catalog_step env d d'"
| create_auto_step:
    "catalog_step env d (snd (snd (create_auto_inbound accepts draws api_port i a cfg d)))"
| delete_auto_step: "catalog_step env d (snd (snd (delete_auto_inbound accepts i a cfg d)))"
| create_user_step:
    "svc = None \<or> (\<exists>i. get_service d i = svc) \<Longrightarrow>
     catalog_step env d (snd (create_user env now i d m adm svc))"
| update_user_step:
    "u \<in> set (users d) \<Longrightarrow> svc = None \<or> (\<exists>i. get_service d i = svc) \<Longrightarrow>
     catalog_step env d (snd (update_user env now d u um svc service_set adm))"
| change_service_step:
    "svc = None \<or> (\<exists>i. get_service d i = svc) \<Longrightarrow>
     catalog_step env d (snd (change_service_action env now q target svc d))"

lemma looked_up_service:
  assumes "svc = None \<or> (\<exists>i. get_service d i = svc)" and "svc = Some sv"
  shows "sid sv \<in> sid ` set (services d)"
  using assms get_service_row by auto

lemma need_service_row: "need_service d i = Inr svc \<Longrightarrow> get_service d i = Some svc"
  by (simp add: need_service_def split: option.splits)

lemma value_error_400_Inr [simp]: "value_error_400 r = Inr x \<longleftrightarrow> r = Inr x"
  by (auto simp: value_error_400_def split: sum.split exn.split)

lemma keeps_commit: "op_keeps catalog_ok f \<Longrightarrow> op_keeps catalog_ok (op_bind f (\<lambda>_. op_commit))"
  by (intro op_keeps_bind) auto

lemma delete_service_ok:
  assumes ok: "catalog_ok d" and res: "delete_service clears i q a d = Inr (gone, shifted, d')"
  shows "catalog_ok d'"
proof -
  obtain svc target where t: "(case sd_target_service_id q of
         Some k \<Rightarrow> if sd_mode q = Transfer_users then
             (if k = sid svc then Inl (Http_error 400 ''Target service must be different'')
              else case get_service d k of
                None \<Rightarrow> Inl (Http_error 404 ''Target service not found'') | Some t \<Rightarrow> Inr (Some t))
           else Inr None
       | None \<Rightarrow> Inr None) = Inr target"
    and r: "remove_service clears svc (sd_mode q) target (sd_unlink_admins q) d = Inr (gone, shifted, d')"
    using res by (auto simp: delete_service_def then_res_Inr)
  have "sid s \<in> sid ` set (services d)" if "target = Some s" for s
    using t that get_service_row by (auto split: option.splits if_splits)
  then show ?thesis by (rule remove_service_ok [OF ok _ r])
qed

lemma modify_service_ok:
  assumes ok: "catalog_ok d" and hs: "\<And>hs. sm_hosts m = Some hs \<Longrightarrow> ensure_unique_hosts hs = Inr hs"
    and res: "modify_service env now i m a d = Inr d'"
  shows "catalog_ok d'"
proof -
  obtain svc svc' b af d1 where s: "need_service d i = Inr svc"
    and u: "update_service_row (core env) svc m d = Inr (svc', b, af, d1)"
    and d': "d' = (if sm_hosts m \<noteq> None then service_users_refresh env now [i] d1 else d1)"
    using res by (auto simp: modify_service_def then_res_Inr)
  have "catalog_ok d1" using update_service_ok [OF ok need_service_row [OF s] u hs] .
  then show ?thesis using refresh_ok unfolding d' by simp
qed

lemma auto_inbound_ok:
  assumes "catalog_ok d"
  shows "catalog_ok (snd (snd (create_auto_inbound accepts draws api_port i a cfg d)))"
    and "catalog_ok (snd (snd (delete_auto_inbound accepts i a cfg d)))"
  using assms outcome_keeps [OF get_or_create_ok, of d]
    outcome_keeps [OF keeps_commit [OF delete_inbound_ok], of d]
  by (auto simp: create_auto_inbound_def delete_auto_inbound_def Let_def split_beta split: sum.split)

lemma catalog_step_ok: "catalog_step env d d' \<Longrightarrow> catalog_ok d \<Longrightarrow> catalog_ok d'"
proof (induction rule: catalog_step.induct)
  case (create_service_step p hs now a d i d')
  then show ?case by (auto simp: create_service_endpoint_def then_res_Inr intro: create_service_ok)
next
  case (reset_service_step i a d d')
  then show ?case
    by (auto simp: reset_usage_endpoint_def then_res_Inr dest!: need_service_row intro: reset_service_ok)
next
  case (update_user_step u d svc now um service_set adm)
  then show ?case
    by (intro update_user_ok looked_up_service [of svc d]) (auto simp: catalog_ok_def)
next
  case (create_user_step svc d now i m adm)
  then show ?case by (intro create_user_ok looked_up_service [of svc d])
next
  case (change_service_step svc d now q target)
  then show ?case by (intro change_service_ok looked_up_service [of svc d])
qed (auto intro: outcome_keeps [OF add_host_ok] outcome_keeps [OF list_hosts_ok]
    outcome_keeps [OF modify_hosts_ok] outcome_keeps [OF update_host_status_ok]
    outcome_keeps [OF keeps_commit [OF remove_all_hosts_ok]]
    outcome_keeps [OF keeps_commit [OF disable_hosts_ok]]
    outcome_keeps [OF keeps_commit [OF delete_inbound_ok]]
    refresh_ok modify_service_ok delete_service_ok auto_inbound_ok)

end
