(* ===== verification/CatalogProperties.thy ===== *)
theory CatalogProperties
  imports CatalogFacts ShopSamples
begin

text \<open>
  Properties of hosts, services and their users: the references between the tables hold whatever
  operations run, what replacing the hosts of an inbound leaves, what a refresh does to the users of
  a service, and how services are created and removed.
\<close>

section \<open>References\<close>

text \<open>C2. In every state that requests reach from tables in order: hosts refer to inbounds, links to hosts and
  services, users to services that are there; no two hosts have
  the same key, no two services the same key or name, and a service links a host once.\<close>

theorem references_in_every_reachable_state:
  assumes "catalog_ok d" and "(catalog_step env)\<^sup>*\<^sup>* d d'"
  shows "catalog_ok d'"
  using assms(2,1) by (induction rule: rtranclp_induct) (auto intro: catalog_step_ok)

lemma references_in_every_reachable_state_witness:
  "catalog_ok (snd (outcome (add_host ''in3'' (plain_payload None))
     (snd (outcome (list_hosts ''in4'') shop))))"
  by (rule references_in_every_reachable_state [OF shop_ok, of shop_env])
    (rule rtranclp.rtrancl_into_rtrancl [OF rtranclp.rtrancl_into_rtrancl [OF rtranclp.rtrancl_refl]],
     rule list_hosts_step, rule add_host_step)

section \<open>Replacing hosts\<close>

text \<open>
  Replacing the hosts of an inbound writes every named row with its payload and its place, keeps the
  rows that are named elsewhere or belong to another inbound, and leaves no service linked to a host
  that was deleted or disabled.
\<close>

theorem hosts_replaced:
  assumes tag: "tag \<in> set (inbound_tags d)" and res: "outcome (update_hosts_simple tag ps kept) d = (Inr hs, d')"
    and ids: "distinct (map host_id (hosts d))" "distinct (payload_ids ps)"
  shows "(\<forall>n < length ps. \<forall>i h. hp_id (ps ! n) = Some i \<longrightarrow> fetch_host i (hosts d) = Some h \<longrightarrow>
      fetch_host i (hosts d') = Some (apply_proxy_host_payload (h\<lparr>host_inbound_tag := tag\<rparr>) (ps ! n)
        (Some (sort_or (int n) (hp_sort (ps ! n)))))) \<and>
    (\<forall>i h. fetch_host i (hosts d) = Some h \<longrightarrow> i \<notin> set (payload_ids ps) \<longrightarrow>
      host_inbound_tag h \<noteq> tag \<or> i \<in> set kept \<longrightarrow> fetch_host i (hosts d') = Some h) \<and>
    (\<forall>sv \<in> set (services d'). \<forall>l \<in> set (host_links sv). \<forall>h \<in> set (hosts d).
      host_id h = link_host_id l \<and> host_inbound_tag h = tag \<and> host_id h \<notin> set (payload_ids ps) \<longrightarrow>
      host_id h \<in> set kept \<and> host_is_disabled h \<noteq> Some True)"
proof (intro conjI allI ballI impI)
  show "fetch_host i (hosts d') = Some (apply_proxy_host_payload (h\<lparr>host_inbound_tag := tag\<rparr>) (ps ! n)
        (Some (sort_or (int n) (hp_sort (ps ! n)))))"
    if "n < length ps" "hp_id (ps ! n) = Some i" "fetch_host i (hosts d) = Some h" for n i h
    by (rule payload_row [OF tag res that ids(2)])
  show "fetch_host i (hosts d') = Some h"
    if "fetch_host i (hosts d) = Some h" "i \<notin> set (payload_ids ps)" "host_inbound_tag h \<noteq> tag \<or> i \<in> set kept" for i h
    by (rule kept_row [OF tag res that ids(1)])
next
  fix sv l h
  assume l: "sv \<in> set (services d')" "l \<in> set (host_links sv)" and h: "h \<in> set (hosts d)"
    and eq: "host_id h = link_host_id l \<and> host_inbound_tag h = tag \<and> host_id h \<notin> set (payload_ids ps)"
  note free = hidden_links [OF tag res l]
  show kept: "host_id h \<in> set kept" using free h eq deleted_iff [of "host_id h" tag ps kept d] by auto
  show "host_is_disabled h \<noteq> Some True"
  proof
    assume "host_is_disabled h = Some True"
    then have "h \<in> set (hidden_rows tag ps kept d)"
      using h eq kept by (auto simp: hidden_rows_def hosts_of_def)
    then have "host_id h \<in> host_id ` set (hidden_rows tag ps kept d)" by (rule imageI)
    then show False using free eq by simp
  qed
qed

definition replaced_shop :: db where
  "replaced_shop = snd (outcome (update_hosts_simple ''in1'' [plain_payload (Some 2)] []) shop)"

lemma replaced_shop_eq: "outcome (update_hosts_simple ''in1'' [plain_payload (Some 2)] []) shop =
    (Inr (hosts replaced_shop), replaced_shop)"
  by code_simp

lemma hosts_replaced_witness:
  "fetch_host 2 (hosts replaced_shop) = Some (apply_proxy_host_payload
     ((default_host 2 ''in2'')\<lparr>host_inbound_tag := ''in1''\<rparr>) (plain_payload (Some 2)) (Some 0)) \<and>
   fetch_host 1 (hosts replaced_shop) = None \<and> map host_links (services replaced_shop) = [[]]"
proof -
  have "fetch_host 2 (hosts replaced_shop) = Some (apply_proxy_host_payload
     ((default_host 2 ''in2'')\<lparr>host_inbound_tag := ''in1''\<rparr>) (plain_payload (Some 2)) (Some 0))"
    using hosts_replaced [OF _ replaced_shop_eq]
    by (simp add: payload_ids_def plain_payload_def sort_or_def)
  moreover have "fetch_host 1 (hosts replaced_shop) = None \<and> map host_links (services replaced_shop) = [[]]"
    by code_simp
  ultimately show ?thesis by blast
qed

section \<open>Which services a replacement refreshes\<close>

lemma modify_one_inbound:
  assumes res: "outcome (modify_hosts a known [(tag, ps)]) d = (Inr (ids, answer), d')"
  obtains hs e where "outcome (update_hosts_simple tag ps (payload_ids ps)) d = (Inr hs, e)"
    and "ids = services_of_inbounds [tag] e" and "services d' = services e"
proof -
  let ?t = "begin_txn d"
  have checks: "ensure_hosts_permission a = Inr ()" "tag \<in> set known"
    using res by (auto simp: modify_hosts_def outcome_def op_bind_def op_check_def split: sum.splits if_splits)
  obtain x t where u: "update_hosts_simple tag ps (payload_ids ps) ?t = (x, t)" by force
  have r: "replace_and_find [(tag, ps)] ?t =
      (case x of Inl e \<Rightarrow> (Inl e, t) | Inr _ \<Rightarrow> (Inr (services_of_inbounds [tag] (working t)), t))"
    using u by (simp add: replace_and_find_def op_bind_def op_return_def split: sum.split)
  have "\<exists>hs. x = Inr hs"
    using res checks r by (cases x) (auto simp: modify_hosts_def outcome_def op_bind_def op_check_def)
  then obtain hs where x: "x = Inr hs" by blast
  have w: "durable t = working t"
    using u x by (auto simp: update_hosts_simple_def op_bind_def op_commit_def op_return_def
        split: prod.splits sum.splits)
  let ?l = "op_each list_hosts known t"
  have "ids = services_of_inbounds [tag] (working t) \<and> d' = durable (snd ?l)"
    using res checks r x by (auto simp: modify_hosts_def outcome_def op_bind_def op_check_def op_return_def
        split: prod.splits sum.splits)
  moreover have "services (durable (snd ?l)) = services (working t)"
    using list_hosts_services [of "services (working t)" known] w unfolding op_keeps_def by metis
  ultimately show thesis using u x w by (intro that [of hs "working t"]) (simp_all add: outcome_def)
qed

lemma payload_hidden:
  assumes "p \<in> set ps" and "hp_id p = Some i" and "hp_is_disabled p" and "fetch_host i (hosts d) = Some h"
  shows "i \<in> host_id ` set (hidden_rows tag ps kept d)"
proof -
  obtain n where n: "n < length ps" "ps ! n = p" using assms(1) by (meson in_set_conv_nth)
  let ?row = "apply_proxy_host_payload (h\<lparr>host_inbound_tag := tag\<rparr>) p (Some (sort_or (int n) (hp_sort p)))"
  have "?row \<in> set (fst (split_payloads tag d 0 ps))"
    using changed_row [of n ps i d h tag 0] n assms(2,4) by simp
  moreover have "host_is_disabled ?row = Some True" using assms(3) by simp
  ultimately have "?row \<in> set (hidden_rows tag ps kept d)" by (simp add: hidden_rows_def)
  moreover have "host_id ?row = i" using fetch_by_key [OF assms(4)] by simp
  ultimately show ?thesis by (metis imageI)
qed

text \<open>
  A service all of whose hosts a request disables loses its links for good, and is not among the
  services whose users the request has brought in line: these are looked up by the links that are left.
\<close>

theorem hidden_service_not_refreshed:
  assumes ok: "catalog_ok d" and tag: "tag \<in> set (inbound_tags d)"
    and res: "outcome (modify_hosts a known [(tag, ps)]) d = (Inr (ids, answer), d')"
    and sv: "sv \<in> set (services d)"
    and hidden: "\<forall>l \<in> set (host_links sv). \<exists>p \<in> set ps. hp_id p = Some (link_host_id l) \<and> hp_is_disabled p"
  shows "sid sv \<notin> set ids \<and> (\<exists>sv' \<in> set (services d'). sid sv' = sid sv \<and> host_links sv' = [])"
proof -
  obtain hs e where u: "outcome (update_hosts_simple tag ps (payload_ids ps)) d = (Inr hs, e)"
    and ids: "ids = services_of_inbounds [tag] e" and e: "services d' = services e"
    by (rule modify_one_inbound [OF res])
  let ?hid = "hidden_rows tag ps (payload_ids ps) d" and ?del = "deleted_rows tag ps (payload_ids ps) d"
  let ?strip = "\<lambda>hs sv. sv\<lparr>host_links := filter (\<lambda>l. link_host_id l \<notin> host_id ` set hs) (host_links sv)\<rparr>"
  have sv': "services d' = map (?strip ?hid) (map (?strip ?del) (services d))"
    using replaced_rows(3) [OF tag u] e by (simp add: detach_hosts_def)
  have sids: "map sid (services d') = map sid (services d)" by (simp add: sv')
  have "link_host_id l \<in> host_id ` set ?hid" if l: "l \<in> set (host_links sv)" for l
  proof -
    have "link_host_id ` set (host_links sv) \<subseteq> host_id ` set (hosts d)"
      using ok sv by (simp add: catalog_ok_def)
    then have "link_host_id l \<in> host_id ` set (hosts d)" using l by blast
    then obtain h where "fetch_host (link_host_id l) (hosts d) = Some h"
      by (metis fetch_by_None not_None_eq)
    then show ?thesis using hidden l payload_hidden by blast
  qed
  then have empty: "host_links (?strip ?hid (?strip ?del sv)) = []" by (simp add: filter_empty_conv)
  have mem: "?strip ?hid (?strip ?del sv) \<in> set (services d')" using sv by (auto simp: sv')
  have "inj_on sid (set (services d'))" using ok sids by (metis catalog_ok_def distinct_map)
  then have "w = ?strip ?hid (?strip ?del sv)" if "w \<in> set (services d')" "sid w = sid sv" for w
    using that by (intro inj_onD [OF \<open>inj_on sid (set (services d'))\<close> _ that(1) mem]) simp
  then have "host_links w = []" if "w \<in> set (services d')" "sid w = sid sv" for w
    using that empty by metis
  then have "sid sv \<notin> set ids" by (fastforce simp: ids e [symmetric] services_of_inbounds_def)
  then show ?thesis using mem empty by (intro conjI bexI [OF _ mem]) simp_all
qed

definition hiding_payload :: host_payload where
  "hiding_payload = (plain_payload (Some 1))\<lparr>hp_is_disabled := True\<rparr>"

abbreviation hiding_shop :: "(int list \<times> (string \<times> proxy_host list) list) result \<times> db" where
  "hiding_shop \<equiv> outcome (modify_hosts owner [''in1''] [(''in1'', [hiding_payload])]) shop"

lemma hidden_service_not_refreshed_witness:
  "map_sum id fst (fst hiding_shop) = Inr [] \<and>
   (\<exists>sv' \<in> set (services (snd hiding_shop)). sid sv' = 4 \<and> host_links sv' = [])"
proof -
  have ids: "map_sum id fst (fst hiding_shop) = Inr []" by code_simp
  then obtain answer where "fst hiding_shop = Inr ([], answer)" by (cases "fst hiding_shop") auto
  then have "hiding_shop = (Inr ([], answer), snd hiding_shop)" by (metis prod.collapse)
  from hidden_service_not_refreshed [OF shop_ok _ this, of gold] ids show ?thesis
    by (simp add: hiding_payload_def plain_payload_def)
qed

section \<open>Refreshing the users of a service\<close>

lemma allow_tag_keys: "fst ` set (allow_tag p tag allowed) = insert p (fst ` set allowed)"
  by (simp add: allow_tag_def dom_update [of p _ allowed])

lemma allowed_keys: "fst ` set (allowed_from_links cfg hs ls allowed) =
    fst ` set allowed \<union> {p. \<exists>t. \<exists>l \<in> set ls. link_offers cfg hs p t l}"
proof (induction ls arbitrary: allowed)
  case (Cons l ls)
  show ?case
  proof (cases "fetch_host (link_host_id l) hs")
    case None
    then show ?thesis using Cons by (simp add: link_offers_def)
  next
    case (Some h)
    then show ?thesis using Cons
      by (cases "host_is_disabled h = Some True")
        (auto simp: link_offers_def allow_tag_keys split: option.split)
  qed
qed simp

lemma proxy_type_of_inv: "proxy_type_of pr = Some p \<longleftrightarrow> pr = proxy_value p"
proof
  show "proxy_type_of pr = Some p \<Longrightarrow> pr = proxy_value p"
    by (simp only: proxy_type_of_def List.find.simps option.inject option.distinct split: if_splits)
qed simp

lemma linked_hosts:
  assumes ok: "catalog_ok d" and svc: "get_service d i = Some svc"
  shows "(\<exists>l \<in> set (host_links svc). link_offers cfg (hosts d) p t l) \<longleftrightarrow>
    offers d i t \<and> protocol_of_tag cfg t = Some (proxy_value p)"
proof -
  have "(\<exists>l \<in> set (host_links svc). link_offers cfg (hosts d) p t l) \<longleftrightarrow>
      allows (compute_allowed_inbounds cfg (hosts d) svc) p t"
    by (simp add: compute_allowed_inbounds_def allows_links) (simp add: allows_def)
  then show ?thesis using computed_allows [OF ok svc, of cfg t p]
    by (auto simp: link_offers_def proxy_type_of_inv)
qed

text \<open>
  C23. The refresh of a service leaves every user of it, deleted ones apart, with one kind of proxy for
  every protocol the service offers, excluded from exactly the inbounds that the service does not
  offer, and writes no other user.
\<close>

theorem refresh_brings_in_line:
  assumes ok: "catalog_ok d" and uids: "distinct (map uid (users d))"
    and res: "outcome (refresh_and_commit env now i) d = (Inr us, d')" and svc: "get_service d i = Some svc"
    and cfg: "\<forall>p. \<forall>t \<in> set (tags_of_protocol (core env) p). protocol_of_tag (core env) t = Some (proxy_value p)"
    and u: "u \<in> set (users d)"
  shows "if service_id u = Some i \<and> status u \<noteq> Deleted
    then \<exists>v. fetch_user (uid u) (users d') = Some v \<and> service_id v = Some i \<and>
      ptype ` set (proxies v) =
        {p. \<exists>t. offers d i t \<and> protocol_of_tag (core env) t = Some (proxy_value p)} \<and>
      (\<forall>x \<in> set (proxies v). \<forall>t \<in> set (tags_of_protocol (core env) (ptype x)).
        t \<notin> set (pexcluded x) \<longleftrightarrow> offers d i t)
    else fetch_user (uid u) (users d') = Some u"
proof (cases "service_id u = Some i \<and> status u \<noteq> Deleted")
  case True
  let ?allowed = "compute_allowed_inbounds (core env) (hosts d) svc"
  obtain v where v: "fetch_user (uid u) (users d') = Some v" "in_line env svc ?allowed v"
    using refreshed_users(1) [OF res svc uids u] True by blast
  have i: "sid svc = i" using get_service_row [OF svc] by simp
  have "ptype ` set (proxies v) = {p. \<exists>t. offers d i t \<and> protocol_of_tag (core env) t = Some (proxy_value p)}"
    using v(2) linked_hosts [OF ok svc, of "core env"]
    by (simp add: in_line_def compute_allowed_inbounds_def allowed_keys)
  moreover have "t \<notin> set (pexcluded x) \<longleftrightarrow> offers d i t"
    if "x \<in> set (proxies v)" "t \<in> set (tags_of_protocol (core env) (ptype x))" for x t
    using in_line_excluded [OF v(2) that(1) compute_allowed_distinct that(2)]
      computed_allows [OF ok svc] cfg that(2) by blast
  moreover have "service_id v = Some i" using v(2) i by (simp add: in_line_def)
  ultimately show ?thesis using True v(1) by simp
next
  case False
  have "w = u" if "w \<in> set (users d)" "uid w = uid u" for w
    using that u uids by (auto simp: distinct_map dest: inj_onD)
  then have "fetch_user (uid u) (users d') = fetch_user (uid u) (users d)"
    using False by (intro refreshed_users(2) [OF res svc uids]) blast
  also have "\<dots> = Some u" by (rule user_table.fetch_member [OF uids u])
  finally show ?thesis using False by (simp only: if_False simp_thms)
qed

lemma shop_refresh: "outcome (refresh_and_commit shop_env 5 4) shop =
    (Inr (users (snd (outcome (refresh_and_commit shop_env 5 4) shop))),
     snd (outcome (refresh_and_commit shop_env 5 4) shop))"
  by code_simp

lemma refresh_brings_in_line_witness:
  "map ptype (proxies (hd (users (snd (outcome (refresh_and_commit shop_env 5 4) shop))))) = [VLESS] \<and>
   (\<exists>v. fetch_user 7 (users (snd (outcome (refresh_and_commit shop_env 5 4) shop))) = Some v \<and>
     service_id v = Some 4 \<and> ptype ` set (proxies v) =
       {p. \<exists>t. offers shop 4 t \<and> protocol_of_tag (core shop_env) t = Some (proxy_value p)})"
proof
  show "map ptype (proxies (hd (users (snd (outcome (refresh_and_commit shop_env 5 4) shop))))) = [VLESS]"
    by code_simp
  have cfg: "\<forall>p. \<forall>t \<in> set (tags_of_protocol (core shop_env) p).
      protocol_of_tag (core shop_env) t = Some (proxy_value p)"
    by (simp add: shop_env_def)
  have svc: "get_service shop 4 = Some gold" by code_simp
  from refresh_brings_in_line [OF shop_ok _ shop_refresh svc cfg, of cara]
  show "\<exists>v. fetch_user 7 (users (snd (outcome (refresh_and_commit shop_env 5 4) shop))) = Some v \<and>
     service_id v = Some 4 \<and> ptype ` set (proxies v) =
       {p. \<exists>t. offers shop 4 t \<and> protocol_of_tag (core shop_env) t = Some (proxy_value p)}"
    by simp blast
qed

section \<open>Creating and removing services\<close>

lemma assign_links_fresh:
  "assign_links [] idx as links = links @
     map (\<lambda>(n, h, s). \<lparr>link_host_id = h, link_sort = sort_or (idx + int n) s\<rparr>) (List.enumerate 0 as)"
proof (induction as arbitrary: idx links)
  case (Cons a as)
  obtain h s where a: "a = (h, s)" by force
  have "map (\<lambda>(n, h, s). \<lparr>link_host_id = h, link_sort = sort_or (idx + 1 + int n) s\<rparr>) (List.enumerate 0 as) =
      map (\<lambda>(n, h, s). \<lparr>link_host_id = h, link_sort = sort_or (idx + int n) s\<rparr>) (List.enumerate (Suc 0) as)"
    by (simp add: enumerate_Suc_eq comp_def split_beta add_ac)
  then show ?case by (simp add: Cons a)
qed simp

lemma all_found:
  assumes "distinct (map key rows)" and "set ids \<subseteq> key ` set rows"
  shows "length (filter (\<lambda>r. key r \<in> set ids) rows) = length (remdups ids)"
proof -
  let ?found = "map key (filter (\<lambda>r. key r \<in> set ids) rows)"
  have "distinct ?found" using assms(1) by (rule distinct_map_filter)
  then have "length ?found = card (set ?found)" by (simp only: distinct_card)
  also have "set ?found = set ids" using assms(2) by auto
  finally show ?thesis by (simp add: length_remdups_card_conv)
qed

lemma found_iff: "distinct (map key rows) \<Longrightarrow>
    length (filter (\<lambda>r. key r \<in> set ids) rows) = length (remdups ids) \<longleftrightarrow> set ids \<subseteq> key ` set rows"
  using all_found [of key rows ids] found_all [of key rows ids] by blast

lemma live_found_iff:
  assumes "distinct (map key rows)"
  shows "length (filter (\<lambda>r. key r \<in> set ids \<and> ok r) rows) = length (remdups ids) \<longleftrightarrow>
    set ids \<subseteq> key ` set (filter ok rows)"
  using found_iff [of key "filter ok rows" ids] distinct_map_filter [OF assms, of ok]
  by (simp add: conj_commute)

definition created_service :: "instant \<Rightarrow> service_create \<Rightarrow> int \<Rightarrow> service" where
  "created_service now p i = \<lparr>sid = i, service_name = strip (sc_name p),
     service_description = str_or_none (sc_description p), service_created_at = now,
     host_links = map (\<lambda>(n, h, s). \<lparr>link_host_id = h, link_sort = sort_or (int n) s\<rparr>)
       (List.enumerate 0 (sc_hosts p)),
     service_used_traffic = 0, service_lifetime_used_traffic = 0, service_users_usage = 0\<rparr>"

definition fresh_link :: "int \<Rightarrow> admin \<Rightarrow> admin_service_link" where
  "fresh_link i a = \<lparr>link_admin_id = aid a, link_service_id = i, link_used_traffic = 0,
     link_lifetime_used_traffic = 0\<rparr>"

lemma assign_admins_fresh:
  assumes aids: "distinct (map aid (admins d))" and i: "i \<notin> link_service_id ` set (admin_service_links d)"
  shows "assign_admins i ids d =
    (if set ids \<subseteq> aid ` set (filter (\<lambda>a. admin_status a \<noteq> Admin_deleted) (admins d))
     then Inr (d\<lparr>admin_service_links := admin_service_links d @ map (fresh_link i)
       (filter (\<lambda>a. aid a \<in> set ids \<and> admin_status a \<noteq> Admin_deleted) (admins d))\<rparr>)
     else Inl (Value_error ''One or more admins could not be found''))"
proof -
  have "filter (\<lambda>l. link_service_id l \<noteq> i \<or> link_admin_id l \<in> set ids) (admin_service_links d) =
      admin_service_links d"
    using i by (intro filter_True) auto
  moreover have "admin_links_of d i = []" using i by (auto simp: admin_links_of_def filter_empty_conv)
  ultimately show ?thesis
    using live_found_iff [OF aids, of ids "\<lambda>a. admin_status a \<noteq> Admin_deleted"]
    by (simp add: assign_admins_def Let_def fresh_link_def)
qed

lemma created_service_simps [simp]: "sid (created_service now p i) = i"
  "service_name (created_service now p i) = strip (sc_name p)"
  by (simp_all add: created_service_def)

lemma store_by_append: "store_by key r (xs @ ys) = store_by key r xs @ store_by key r ys"
  by (simp add: store_by_def)

text \<open>
  Creating a service: the answer on every input, and the rows of a success, which are the service with
  its hosts in the order and at the places of the request, and one fresh link per admin.
\<close>

theorem service_created:
  assumes ok: "catalog_ok d" and aids: "distinct (map aid (admins d))"
    and unique: "ensure_unique_hosts (sc_hosts p) = Inr hs" and i: "i = next_key sid (services d)"
  shows "create_service_row now p d =
    (if sc_hosts p = [] then Inl (Value_error ''Service must include at least one host'')
     else if strip (sc_name p) \<in> service_name ` set (services d)
     then Inl (Integrity_error ''UNIQUE constraint failed'')
     else if \<not> fst ` set (sc_hosts p) \<subseteq> host_id ` set (hosts d)
     then Inl (Value_error ''One or more hosts could not be found'')
     else if \<not> set (sc_admin_ids p) \<subseteq> aid ` set (filter (\<lambda>a. admin_status a \<noteq> Admin_deleted) (admins d))
     then Inl (Value_error ''One or more admins could not be found'')
     else Inr (i, d\<lparr>services := services d @ [created_service now p i],
       admin_service_links := admin_service_links d @ map (fresh_link i)
         (filter (\<lambda>a. aid a \<in> set (sc_admin_ids p) \<and> admin_status a \<noteq> Admin_deleted) (admins d))\<rparr>))"
proof -
  let ?svc = "created_service now p i" and ?bare = "(created_service now p i)\<lparr>host_links := []\<rparr>"
  let ?d1 = "d\<lparr>services := services d @ [?bare]\<rparr>"
  have new: "i \<notin> sid ` set (services d)" unfolding i by (rule next_key_fresh)
  have name: "name_free d i (strip (sc_name p)) \<longleftrightarrow> strip (sc_name p) \<notin> service_name ` set (services d)"
    using new by (fastforce simp: name_free_def list_all_iff image_iff)
  have "i \<notin> link_service_id ` set (admin_service_links ?d1)"
    using ok new by (auto simp: catalog_ok_def)
  from assign_admins_fresh [OF _ this, of "sc_admin_ids p"] aids
  have admins: "assign_admins i (sc_admin_ids p) ?d1 =
    (if set (sc_admin_ids p) \<subseteq> aid ` set (filter (\<lambda>a. admin_status a \<noteq> Admin_deleted) (admins d))
     then Inr (?d1\<lparr>admin_service_links := admin_service_links d @ map (fresh_link i)
       (filter (\<lambda>a. aid a \<in> set (sc_admin_ids p) \<and> admin_status a \<noteq> Admin_deleted) (admins d))\<rparr>)
     else Inl (Value_error ''One or more admins could not be found''))" by simp
  have hids: "distinct (map host_id (hosts d))" using ok by (simp add: catalog_ok_def)
  have hosts: "assign_hosts ?d1 ?bare (sc_hosts p) =
    (if fst ` set (sc_hosts p) \<subseteq> host_id ` set (hosts d) then Inr ?svc
     else Inl (Value_error ''One or more hosts could not be found''))"
    using found_iff [OF hids, of "map fst (sc_hosts p)"]
    by (simp add: assign_hosts_def Let_def assign_links_fresh created_service_def)
  have links: "links_unique ?svc"
    using unique_hosts [OF unique] by (simp add: links_unique_def created_service_def comp_def split_beta
        flip: map_map [of fst snd, unfolded comp_def])
  have store: "store_service ?svc (services d @ [?bare]) = services d @ [?svc]"
    using store_by_fresh [of sid ?svc "services d"] new by (simp add: store_by_append)
  have free: "name_free d' i (strip (sc_name p)) = name_free d i (strip (sc_name p))"
    if "services d' = services d @ [?bare]" for d'
    using that by (simp add: name_free_def created_service_def)
  have "flush_service ?svc d' = Inr (d'\<lparr>services := services d @ [?svc]\<rparr>)"
    if "services d' = services d @ [?bare]" "name_free d i (strip (sc_name p))" for d'
    using that links store free [OF that(1)] by (simp add: flush_service_def created_service_def)
  moreover have "?bare = \<lparr>sid = i, service_name = strip (sc_name p),
      service_description = str_or_none (sc_description p), service_created_at = now, host_links = [],
      service_used_traffic = 0, service_lifetime_used_traffic = 0, service_users_usage = 0\<rparr>"
    by (simp add: created_service_def)
  ultimately show ?thesis using name hosts admins
    by (simp add: create_service_row_def Let_def then_res_def flip: i)
qed

definition silver :: service_create where
  "silver = \<lparr>sc_name = '' silver'', sc_description = None, sc_hosts = [(2, None), (1, Some 9)],
     sc_admin_ids = [1]\<rparr>"

lemma service_created_witness:
  "create_service_row 3 silver shop = Inr (5, shop\<lparr>services := [gold, \<lparr>sid = 5,
     service_name = ''silver'', service_description = None, service_created_at = 3,
     host_links = [\<lparr>link_host_id = 2, link_sort = 0\<rparr>, \<lparr>link_host_id = 1, link_sort = 9\<rparr>],
     service_used_traffic = 0, service_lifetime_used_traffic = 0, service_users_usage = 0\<rparr>],
     admin_service_links := [fresh_link 5 keeper]\<rparr>)"
proof -
  have u: "ensure_unique_hosts (sc_hosts silver) = Inr (sc_hosts silver)" by code_simp
  have s: "sc_hosts silver = [(2, None), (1, Some 9)]" "sc_admin_ids silver = [1]"
    "sc_description silver = None" "strip (sc_name silver) = ''silver''" "service_name gold = ''gold''"
    "next_key sid [gold] = 5" "admin_status keeper = Admin_active"
    by code_simp+
  show ?thesis using service_created [OF shop_ok _ u refl, of 3]
    by (simp add: s created_service_def sort_or_def str_or_none_def)
qed

text \<open>
  Removing a service: its users move or go, depending on the mode, and nobody else changes; no row
  refers to it any more. If the ORM clears the foreign keys of the loaded users at the flush, the
  transferred users are left without a service whatever the target.
\<close>

theorem service_removed:
  assumes uids: "distinct (map uid (users d))" and svc: "get_service d i = Some svc"
    and res: "remove_service clears svc mode target unlink d = Inr (gone, shifted, d')"
    and u: "u \<in> set (users d)"
  shows "fetch_user (uid u) (users d') = (if service_id u \<noteq> Some i then Some u else
      case mode of Delete_users \<Rightarrow> None
      | Transfer_users \<Rightarrow> Some (u\<lparr>service_id := (if clears then None else map_option sid target)\<rparr>)) \<and>
    i \<notin> sid ` set (services d') \<and> i \<notin> link_service_id ` set (admin_service_links d') \<and>
    (admin_links_of d i = [] \<or> unlink)"
proof -
  let ?us = "service_users d i"
  let ?set = "\<lambda>u. u\<lparr>service_id := (if clears then None else map_option sid target)\<rparr>"
  have i: "sid svc = i" using get_service_row [OF svc] by simp
  have fetch: "fetch_user (uid u) (users d) = Some u" by (rule user_table.fetch_member [OF uids u])
  have mem: "uid u \<in> uid ` set ?us \<longleftrightarrow> service_id u = Some i"
  proof -
    have "w = u" if "w \<in> set (users d)" "uid w = uid u" for w
      using that u uids by (auto simp: distinct_map dest: inj_onD)
    then show ?thesis using u by (auto simp: service_users_def intro!: rev_image_eqI)
  qed
  have rest: "services d' = filter (\<lambda>s. sid s \<noteq> i) (services d) \<and>
      admin_service_links d' = filter (\<lambda>l. link_service_id l \<noteq> i) (admin_service_links d) \<and>
      (admin_links_of d i = [] \<or> unlink)"
    using res i by (auto simp: remove_service_def Let_def delete_rows_def split: if_splits delete_mode.splits)
  have us: "users d' = (if ?us = [] then users d else case mode of
      Delete_users \<Rightarrow> filter (\<lambda>w. uid w \<notin> uid ` set ?us) (users d)
    | Transfer_users \<Rightarrow> fold store_user (map ?set ?us) (users d))"
    using res i by (auto simp: remove_service_def Let_def delete_rows_def split: if_splits delete_mode.splits)
  have "fetch_user (uid u) (fold store_user (map ?set ?us) (users d)) =
      Some (if service_id u = Some i then ?set u else u)"
  proof (cases "service_id u = Some i")
    case True
    then have "?set u \<in> set (map ?set ?us)" using u by (simp add: service_users_def)
    moreover have "distinct (map uid (map ?set ?us))"
      using uids by (simp add: service_users_def comp_def distinct_map_filter)
    ultimately have "fetch_user (uid (?set u)) (fold store_user (map ?set ?us) (users d)) = Some (?set u)"
      using fetch by (intro user_table.fetch_fold_store) simp_all
    then show ?thesis using True by simp
  next
    case False
    then have "uid u \<notin> uid ` set (map ?set ?us)" using mem by (simp add: image_image)
    then show ?thesis using False fetch by (simp add: user_table.fetch_fold_store_other)
  qed
  moreover have "?us \<noteq> []" if "service_id u = Some i" using that u by (auto simp: service_users_def filter_empty_conv)
  ultimately have "fetch_user (uid u) (users d') = (if service_id u \<noteq> Some i then Some u else
      case mode of Delete_users \<Rightarrow> None | Transfer_users \<Rightarrow> Some (?set u))"
    using mem fetch us by (cases mode) (auto simp: fetch_filter_key)
  then show ?thesis using rest by auto
qed

lemma service_removed_witness:
  "fetch_user 7 (users (shop\<lparr>services := [], users := [cara\<lparr>service_id := None\<rparr>]\<rparr>)) =
     Some (cara\<lparr>service_id := None\<rparr>) \<and>
   remove_service True gold Transfer_users (Some (gold\<lparr>sid := 9\<rparr>)) False shop =
     Inr ([], [cara\<lparr>service_id := None\<rparr>], shop\<lparr>services := [], users := [cara\<lparr>service_id := None\<rparr>]\<rparr>)"
proof -
  have "remove_service True gold Transfer_users (Some (gold\<lparr>sid := 9\<rparr>)) False shop =
     Inr ([], [cara\<lparr>service_id := None\<rparr>], shop\<lparr>services := [], users := [cara\<lparr>service_id := None\<rparr>]\<rparr>)"
    by (simp add: remove_service_def Let_def admin_links_of_def service_users_def)
  moreover have "get_service shop 4 = Some gold" by code_simp
  from service_removed [OF _ this calculation, of cara]
  have "fetch_user 7 (users (shop\<lparr>services := [], users := [cara\<lparr>service_id := None\<rparr>]\<rparr>)) =
     Some (cara\<lparr>service_id := None\<rparr>)" by simp
  ultimately show ?thesis by blast
qed

end
