(* ===== verification/RouteProperties.thy ===== *)
theory RouteProperties
  imports RouteFacts ShopSamples
begin

text \<open>
  Properties of the user and service endpoints: an admin without a privileged role writes no row of
  another admin, except through the refresh of a service, an automatic inbound gets a port nobody uses, and the endpoint that applies a next
  plan answers that there is none when it has applied the last.
\<close>

section \<open>Tenants\<close>

definition clerk :: principal where
  "clerk = owner\<lparr>pr_role := Standard\<rparr>"

definition dora :: user where
  "dora = (new_user 8 ''dora'' 0)\<lparr>admin_id := Some 2, service_id := Some 4\<rparr>"

definition two_tenants :: db where
  "two_tenants = shop\<lparr>users := [ann, dora], admins := [keeper, new_admin 2 ''mia'' ''h''],
     admin_service_links := [\<lparr>link_admin_id = 1, link_service_id = 4, link_used_traffic = 0,
       link_lifetime_used_traffic = 0\<rparr>]\<rparr>"

definition disable_all :: bulk_request where
  "disable_all = \<lparr>br_action = Disable_users, br_days = None, br_gigabytes = None, br_statuses = None,
     br_scope = None, br_service_id = None, br_target_service_id = None, br_service_id_is_null = None,
     br_admin_username = None\<rparr>"

definition move_all :: bulk_request where
  "move_all = disable_all\<lparr>br_action := Change_service, br_target_service_id := Some 4\<rparr>"

lemma tenants_ok: "wf_db two_tenants" "\<not> privileged clerk"
  "get_admin two_tenants (Some (pr_username clerk)) None = Some keeper"
  by (simp_all add: wf_db_def two_tenants_def dora_def keeper_def new_user_def new_admin_def
      privileged_def clerk_def owner_def get_admin_def)

text \<open>
  C4. Whatever requests an admin without a privileged role sends to the user endpoints, creations,
  modifications, removals, resets, revocations, plans and bulk actions, every user of another admin, or
  of none, stays in the table in every column but its proxies and the time of its last edit; it stays as
  it was in these too when it has no service, and when none of the requests was the bulk action that
  moves users to a service. That action refreshes all users of its destination, also those of others.
\<close>

theorem only_own_users_written:
  assumes "(user_request a)\<^sup>*\<^sup>* d d'" and "wf_db d" and "\<not> privileged a"
    and "get_admin d (Some (pr_username a)) None = Some adm"
    and "w \<in> set (users d)" and "\<not> own d a w"
  shows "\<exists>x. fetch_user (uid w) (users d') = Some x \<and> x\<lparr>proxies := proxies w, edit_at := edit_at w\<rparr> = w \<and>
    (service_id w = None \<or> (row_request a)\<^sup>*\<^sup>* d d' \<longrightarrow> x = w)"
proof -
  have "spares_bare a d d'" by (rule user_requests_spare_bare [OF assms(1-4)])
  then obtain x where x: "x \<in> set (users d')" "bare w = bare x" and d': "distinct (map uid (users d'))"
    using assms(5,6) by (force simp: spares_bare_def)
  have "uid x = uid w" using x(2) by (metis bare_columns(1))
  then have fetch: "fetch_user (uid w) (users d') = Some x"
    using user_table.fetch_member [OF d' x(1)] by simp
  have "x = w" if "(row_request a)\<^sup>*\<^sup>* d d'"
  proof -
    have "w \<in> set (users d')"
      using row_requests_spare [OF that assms(2-4)] assms(5,6) by (auto simp: spares_def)
    then show ?thesis using user_table.fetch_member [OF d', of w] fetch by simp
  qed
  then show ?thesis using fetch bare_eq [of x w] x(2) by auto
qed

abbreviation clerk_bulk :: "bulk_request \<Rightarrow> db" where
  "clerk_bulk q \<equiv> snd (perform_users_bulk_action shop_env 0 q False clerk two_tenants)"

lemma only_own_users_written_witness:
  "fetch_user 8 (users (clerk_bulk disable_all)) = Some dora \<and>
   map status (users (clerk_bulk disable_all)) = [Disabled, Active] \<and>
   (\<exists>x. fetch_user 8 (users (clerk_bulk move_all)) = Some x \<and> x\<lparr>proxies := [], edit_at := None\<rparr> = dora) \<and>
   map service_id (users (clerk_bulk move_all)) = [Some 4, Some 4] \<and>
   map (length o proxies) (users (clerk_bulk move_all)) = [1, 1]"
proof -
  have own: "dora \<in> set (users two_tenants)" "\<not> own two_tenants clerk dora"
    by (simp add: two_tenants_def) code_simp
  have rows: "(row_request clerk)\<^sup>*\<^sup>* two_tenants (clerk_bulk disable_all)"
    by (intro r_into_rtranclp request_bulk) (simp add: disable_all_def)
  have "(user_request clerk)\<^sup>*\<^sup>* two_tenants (clerk_bulk disable_all)"
    by (intro r_into_rtranclp request_rows request_bulk) (simp add: disable_all_def)
  then have "fetch_user (uid dora) (users (clerk_bulk disable_all)) = Some dora"
    using only_own_users_written [OF _ tenants_ok own] rows by blast
  then have 1: "fetch_user 8 (users (clerk_bulk disable_all)) = Some dora" by (simp add: dora_def new_user_def)
  have "(user_request clerk)\<^sup>*\<^sup>* two_tenants (clerk_bulk move_all)"
    by (intro r_into_rtranclp request_move) (simp add: move_all_def)
  then obtain x where "fetch_user (uid dora) (users (clerk_bulk move_all)) = Some x"
      "x\<lparr>proxies := proxies dora, edit_at := edit_at dora\<rparr> = dora"
    using only_own_users_written [OF _ tenants_ok own] by blast
  then have 2: "\<exists>x. fetch_user 8 (users (clerk_bulk move_all)) = Some x \<and> x\<lparr>proxies := [], edit_at := None\<rparr> = dora"
    by (simp add: dora_def new_user_def)
  have "map status (users (clerk_bulk disable_all)) = [Disabled, Active]" by code_simp
  moreover have "map service_id (users (clerk_bulk move_all)) = [Some 4, Some 4]" by code_simp
  moreover have "map (length o proxies) (users (clerk_bulk move_all)) = [1, 1]" by code_simp
  ultimately show ?thesis using 1 2 by blast
qed

section \<open>Automatic inbounds\<close>

lemma new_inbound_listed: "tag \<in> set (inbound_tags (snd (outcome (get_or_create tag) d)))"
  by (simp add: outcome_def get_or_create_def begin_txn_def create_inbound_row_def Let_def split: option.split)

lemma auto_inbound_made:
  assumes "create_auto_inbound accepts draws api i a cfg d = (Inr (tag, port), cfg', d')"
  shows "tag = auto_inbound_tag i" and "\<not> has_inbound tag cfg"
    and "pick_available_port draws api cfg 10000 60000 = Inr port"
    and "cfg' = set_inbounds (config_inbounds cfg @ [auto_inbound tag port]) cfg"
    and "d' = snd (outcome (get_or_create tag) d)" and "pr_role a \<in> {Sudo, Full_access}"
  using assms by (auto simp: create_auto_inbound_def Let_def apply_config_def need_sudo_def
      split: sum.splits if_splits dest!: then_res_Inr [THEN iffD1])

lemma config_set_inbounds [simp]: "config_inbounds (set_inbounds xs cfg) = xs"
  by (simp add: config_inbounds_def set_inbounds_def update_conv)

text \<open>
  C24. An automatic inbound is added by a privileged admin only, under the tag of the service, which no
  inbound had; its port is from 10000 to 60000, none of the ports and ranges of the configuration and
  not the port of the API; the inbounds there were are kept in order, and the table has the tag.
\<close>

theorem auto_inbound_port:
  assumes "create_auto_inbound accepts draws api i a cfg d = (Inr (tag, port), cfg', d')"
    and "\<forall>p \<in> set draws. 10000 \<le> p \<and> p \<le> 60000"
  shows "privileged a \<and> tag = auto_inbound_tag i \<and> \<not> has_inbound tag cfg \<and> 10000 \<le> port \<and> port \<le> 60000 \<and>
    \<not> is_port_used port (extract_used_ports api cfg) \<and> api \<noteq> Some port \<and>
    config_inbounds cfg' = config_inbounds cfg @ [auto_inbound tag port] \<and> tag \<in> set (inbound_tags d')"
proof -
  note made = auto_inbound_made [OF assms(1)]
  note port = picked_port [OF made(3)]
  have "api \<noteq> Some port" using port(1) api_port_used by blast
  moreover have "10000 \<le> port \<and> port \<le> 60000" using port(2) assms(2) by blast
  ultimately show ?thesis using made port(1) new_inbound_listed by (simp add: privileged_def)
qed

definition busy_config :: json_dict where
  "busy_config = [(''inbounds'', JArr [JObj [(''tag'', JStr ''a''), (''port'', JStr ''10000-10001, 443'')],
     JObj [(''tag'', JStr ''b''), (''port'', JInt 10003)]])]"

lemma auto_inbound_port_witness:
  "fst (create_auto_inbound (\<lambda>_. Inr ()) [10000, 10003, 10002, 10004] (Some 10002) 4 owner busy_config shop) =
     Inr (''setservice-4'', 10004) \<and> \<not> is_port_used 10004 (extract_used_ports (Some 10002) busy_config)"
proof -
  let ?made = "create_auto_inbound (\<lambda>_. Inr ()) [10000, 10003, 10002, 10004] (Some 10002) 4 owner busy_config shop"
  have res: "fst ?made = Inr (''setservice-4'', 10004)" by code_simp
  then have made: "?made = (Inr (''setservice-4'', 10004), fst (snd ?made), snd (snd ?made))"
    by (simp add: prod_eq_iff)
  have "\<not> is_port_used 10004 (extract_used_ports (Some 10002) busy_config)"
    using auto_inbound_port [OF made] by simp
  with res show ?thesis by simp
qed

section \<open>The last plan\<close>

text \<open>
  When the plan a user has is the last, the endpoint that applies it answers 404, as if there were
  none, after the plan has been applied and committed: the user is active, its usage is zero and the
  plan is gone.
\<close>

theorem last_plan_answers_404:
  assumes u: "get_validated_user cached d name a = Inr u" and a: "ensure_user_permission a Perm_allow_next_plan = Inr ()"
    and plan: "next_plans u = [p]" and res: "reset_user_by_next now d u = Inr (True, d')"
    and row: "fetch_user (uid u) (users d) = Some u"
  shows "active_next_plan now cached name a d = (Inl (Http_error 404 ''User doesn't have next plan''), d') \<and>
    (\<exists>u'. fetch_user (uid u) (users d') = Some u' \<and> next_plans u' = [] \<and> status u' = Active \<and>
      used_traffic u' = 0 \<and> data_limit u' = Some (plan_data_limit p u))"
proof -
  obtain u' where obj: "reset_user_by_next_obj now d u = (Inr True, u')" and d': "d' = save_user u' d"
    using res by (auto simp: reset_user_by_next_def split: prod.splits sum.splits if_splits)
  then have u': "uid u' = uid u \<and> next_plans u' = [] \<and> status u' = Active \<and> used_traffic u' = 0 \<and>
      data_limit u' = Some (plan_data_limit p u)"
    using plan by (auto simp: reset_user_by_next_obj_def next_plan_of_def Let_def split: if_splits sum.splits)
  have "active_next_plan now cached name a d = (Inl (Http_error 404 ''User doesn't have next plan''), d')"
    using u a res obj u' by (simp add: active_next_plan_def checked_def users_limit_400_def next_plan_of_def)
  moreover have "fetch_user (uid u) (users d') = Some u'"
    using u' row user_table.fetch_store_same [of u' "users d"] by (simp add: d')
  ultimately show ?thesis using u' by blast
qed

definition planned_shop :: db where
  "planned_shop = shop\<lparr>users := [cara\<lparr>next_plans := [sample_plan], used_traffic := 9, status := Limited\<rparr>]\<rparr>"

lemma last_plan_answers_404_witness:
  "fst (active_next_plan 5 (\<lambda>_. None) ''cara'' owner planned_shop) =
     Inl (Http_error 404 ''User doesn't have next plan'') \<and>
   map used_traffic (users (snd (active_next_plan 5 (\<lambda>_. None) ''cara'' owner planned_shop))) = [0]"
proof -
  let ?u = "cara\<lparr>next_plans := [sample_plan], used_traffic := 9, status := Limited\<rparr>"
  let ?d = "case reset_user_by_next 5 planned_shop ?u of Inr (b, d') \<Rightarrow> d'"
  have "get_validated_user (\<lambda>_. None) planned_shop ''cara'' owner = Inr ?u"
    by (simp add: get_validated_user_def get_user_def db_user_by_name_def planned_shop_def owner_def cara_def new_user_def)
  moreover have "ensure_user_permission owner Perm_allow_next_plan = Inr ()" by code_simp
  moreover have "reset_user_by_next 5 planned_shop ?u = Inr (True, ?d)"
    by (simp add: reset_user_by_next_def reset_user_by_next_obj_def next_plan_of_def sample_plan_def
      ensure_active_user_capacity_def is_user_limit_enforced_def admin_of_def cara_def new_user_def planned_shop_def
      keeper_def new_admin_def get_active_users_count_def active_under_def row_simps Let_def)
  moreover have "fetch_user (uid ?u) (users planned_shop) = Some ?u"
    by (simp add: planned_shop_def cara_def new_user_def)
  ultimately have "active_next_plan 5 (\<lambda>_. None) ''cara'' owner planned_shop =
      (Inl (Http_error 404 ''User doesn't have next plan''), ?d) \<and>
    (\<exists>u'. fetch_user (uid ?u) (users ?d) = Some u' \<and> next_plans u' = [] \<and> status u' = Active \<and>
      used_traffic u' = 0 \<and> data_limit u' = Some (plan_data_limit sample_plan ?u))"
    by (intro last_plan_answers_404) simp_all
  moreover have "map used_traffic (users (snd (active_next_plan 5 (\<lambda>_. None) ''cara'' owner planned_shop))) = [0]"
    by code_simp
  ultimately show ?thesis by simp
qed

end
