(* ===== verification/XrayProperties.thy ===== *)
theory XrayProperties
  imports XrayFacts
begin

text \<open>
  Properties of the core's configuration: what \<open>XRayConfig\<close> guarantees about the configuration and the
  inbounds it builds, at a small configuration with a WebSocket inbound.
\<close>

definition plain_libs :: xray_libs where
  "plain_libs = \<lparr>xl_names = \<lparr>names_in_file = (\<lambda>_. Inr []), names_in_text = (\<lambda>_. Inr [])\<rparr>,
     xl_public_key = (\<lambda>s. Inr (rev s)), xl_excluded = [''hidden''], xl_fallback_tag = []\<rparr>"

definition array_of :: "json \<Rightarrow> json list" where
  "array_of v = (case v of JArr xs \<Rightarrow> xs | _ \<Rightarrow> [])"

definition small_config :: json_dict where
  "small_config = [
     (''inbounds'', JArr [
        JObj [(''tag'', JStr ''in1''), (''protocol'', JStr ''vless''), (''port'', JInt 443),
          (''streamSettings'', JObj [(''network'', JStr ''ws''),
             (''wsSettings'', JObj [(''headers'', JObj [(''Host'', JStr ''a.example'')])])])],
        JObj [(''tag'', JStr ''hidden''), (''protocol'', JStr ''vless''), (''port'', JInt 444)],
        JObj [(''tag'', JStr ''door''), (''protocol'', JStr ''dokodemo-door''), (''port'', JInt 445)],
        JObj [(''tag'', JStr ''in2''), (''protocol'', JStr ''trojan''), (''port'', JInt 446)]]),
     (''outbounds'', JArr [JObj [(''tag'', JStr ''DIRECT'')]])]"

lemma small_config_accepted:
  "case make_xray_config plain_libs (\<lambda>_. None) (\<lambda>_. None) True ''127.0.0.1'' 8080 small_config of
     Inr xc \<Rightarrow> map settings_ident (xc_inbounds xc) = [(JStr ''in1'', JStr ''vless''), (JStr ''in2'', JStr ''trojan'')]
   | Inl _ \<Rightarrow> False"
  by code_simp

lemma small_config_made:
  obtains xc where "make_xray_config plain_libs (\<lambda>_. None) (\<lambda>_. None) True ''127.0.0.1'' 8080 small_config = Inr xc"
    and "map settings_ident (xc_inbounds xc) = [(JStr ''in1'', JStr ''vless''), (JStr ''in2'', JStr ''trojan'')]"
  using small_config_accepted by (auto split: sum.splits)

section \<open>Migration\<close>

text \<open>C20. The configuration that is built needs no migration: once built, read again and migrated, it is
  the same configuration. The API inbound, the empty client lists and the renamed certificate fields
  that the construction adds bring none of the deprecated settings back.\<close>

theorem construction_is_migrated:
  assumes "make_xray_config xl to_int parse by_name host port raw = Inr xc"
  shows "migrate_deprecated_configs by_name (xc_dict xc) = Inr (xc_dict xc)"
  using assms
proof (rule made_xray_config)
  fix xs ys ins cfg1
  assume ys: "\<forall>v \<in> set ys. bound_clean by_name v" and out: "list_clean by_name (map_of cfg1 ''outbounds'')"
    and res: "resolve_inbounds xl ys = Inr (ins, xc_inbounds xc)" and api: "apply_api parse host port ins cfg1 = Inr (xc_dict xc)"
  have "\<forall>v \<in> set ins. bound_clean by_name v"
    using resolved_inbounds [OF res] ys by (simp add: same_inbounds_def)
  then have "list_clean by_name (map_of (xc_dict xc) ''inbounds'')"
    using api_inbounds_clean by (simp add: list_clean_def applied_api(1) [OF api])
  moreover have "list_clean by_name (map_of (xc_dict xc) ''outbounds'')"
    using out by (simp only: applied_api(2) [OF api])
  ultimately show ?thesis by (intro config_clean_fixed) (simp add: config_clean_def)
qed

theorem construction_is_migrated_witness:
  "\<exists>xc. make_xray_config plain_libs (\<lambda>_. None) (\<lambda>_. None) True ''127.0.0.1'' 8080 small_config = Inr xc \<and>
     migrate_deprecated_configs True small_config \<noteq> Inr small_config \<and>
     migrate_deprecated_configs True (xc_dict xc) = Inr (xc_dict xc)"
proof -
  have "migrate_deprecated_configs True small_config \<noteq> Inr small_config" by code_simp
  then show ?thesis using small_config_made construction_is_migrated by metis
qed

section \<open>The resolved inbounds\<close>

text \<open>C19. The inbounds that the panel works with are exactly those of the configuration with one of the
  four protocols and a tag that is not excluded, each once and in the order of the configuration, and
  each has every setting that links and clients read (tag, protocol, port, network, security, names,
  host, path and header type), whatever its transport and whether or not it takes port and security
  from the fallback inbound.\<close>

theorem inbounds_resolved:
  assumes "make_xray_config xl to_int parse by_name host port raw = Inr xc"
  shows "list_all complete (xc_inbounds xc) \<and>
    map settings_ident (xc_inbounds xc) = filter (qualifies xl) (map ident (array_of (jget raw ''inbounds'')))"
  using assms
proof (rule made_xray_config)
  fix xs ys ins cfg1
  assume "map_of raw ''inbounds'' = Some (JArr xs)" "map ident ys = map ident xs"
    and res: "resolve_inbounds xl ys = Inr (ins, xc_inbounds xc)"
  then show ?thesis using resolved_inbounds [OF res] by (simp add: array_of_def jget_def)
qed

theorem inbounds_resolved_witness:
  "\<exists>xc. make_xray_config plain_libs (\<lambda>_. None) (\<lambda>_. None) True ''127.0.0.1'' 8080 small_config = Inr xc \<and>
     list_all complete (xc_inbounds xc) \<and>
     map settings_ident (xc_inbounds xc) = [(JStr ''in1'', JStr ''vless''), (JStr ''in2'', JStr ''trojan'')]"
  using small_config_made inbounds_resolved by metis

section \<open>The API\<close>

text \<open>The panel reaches the core: an inbound with the API's tag on the API's port, and a rule that
  routes it to the API.\<close>

definition api_reachable :: "int \<Rightarrow> json_dict \<Rightarrow> bool" where
  "api_reachable port cfg \<longleftrightarrow>
     list_ex (\<lambda>v. tagged ''API_INBOUND'' v \<and> jget (dict_or_empty v) ''port'' = JInt port) (array_of (jget cfg ''inbounds'')) \<and>
     list_ex routes_api (array_of (jget (dict_or_empty (jget cfg ''routing'')) ''rules''))"

text \<open>Whatever the configuration says of inbounds, routing and policy, when it is accepted the panel
  reaches the core through it: there is an inbound with the API's tag on the API's port and a rule that
  routes it to the API, taken over or added.\<close>

theorem core_api_reachable:
  assumes "make_xray_config xl to_int parse by_name host port raw = Inr xc"
  shows "api_reachable port (xc_dict xc)"
  using assms
proof (rule made_xray_config)
  fix xs ys ins cfg1
  assume api: "apply_api parse host port ins cfg1 = Inr (xc_dict xc)"
  obtain routing rules where r: "map_of (xc_dict xc) ''routing'' = Some (JObj routing)"
    "map_of routing ''rules'' = Some (JArr rules)" "\<exists>r \<in> set rules. routes_api r"
    using applied_api(3) [OF api] by blast
  then show ?thesis using api_inbound_listed [of host port ins]
    by (auto simp: api_reachable_def array_of_def jget_def applied_api(1) [OF api] dict_or_empty_def list_ex_iff)
qed

theorem core_api_reachable_witness:
  "\<exists>xc. make_xray_config plain_libs (\<lambda>_. None) (\<lambda>_. None) True ''127.0.0.1'' 8080 small_config = Inr xc \<and>
     \<not> api_reachable 8080 small_config \<and> api_reachable 8080 (xc_dict xc)"
proof -
  have "\<not> api_reachable 8080 small_config" by code_simp
  then show ?thesis using small_config_made core_api_reachable by metis
qed

end
