(* ===== verification/LinkFacts.thy ===== *)
theory LinkFacts
  imports SubscriptionLinks CoreFacts
begin

text \<open>
  Facts about links: what a client reads back from one, and which inbounds and hosts the links of a
  user of a service come from while nothing changes under the request.
\<close>

section \<open>What a client reads in a link\<close>

record share_link =
  sl_user :: string
  sl_address :: string
  sl_payload :: "(string \<times> string) list"
  sl_remark :: string

definition read_share_link :: "string \<Rightarrow> share_link" where
  "read_share_link s =
     (case cut_at CHR ''@'' (drop 3 (dropWhile (\<lambda>c. c \<noteq> CHR '':'') s)) of (user, r1) \<Rightarrow>
      case cut_at CHR ''?'' r1 of (address, r2) \<Rightarrow>
      case cut_at CHR ''#'' r2 of (query, remark) \<Rightarrow>
        \<lparr>sl_user = url_unquote False user, sl_address = address, sl_payload = parse_query query,
         sl_remark = url_unquote False remark\<rparr>)"

definition payload_texts :: "json_dict \<Rightarrow> (string \<times> string) list" where
  "payload_texts = map (\<lambda>(k, v). (k, py_str v))"

lemma joined_chars: "x \<in> set (joined sep ss) \<Longrightarrow> x \<in> set sep \<or> (\<exists>s \<in> set ss. x \<in> set s)"
  by (induction sep ss rule: joined.induct) auto

lemma urlencode_chars:
  assumes "x \<in> set (urlencode kvs)"
  shows "x \<in> set ''%+&='' \<or> unreserved x"
proof -
  have "x \<in> set ''&'' \<or> (\<exists>s \<in> set (map (\<lambda>(k, v). quote_plus k @ ''='' @ quote_plus (py_str v)) kvs). x \<in> set s)"
    using assms joined_chars unfolding urlencode_def by blast
  then show ?thesis by (auto dest!: quoted_plus_chars)
qed

lemma urlencode_no_fragment: "CHR ''#'' \<notin> set (urlencode kvs)"
  using urlencode_chars [of "CHR ''#''" kvs] not_unreserved by auto

lemma read_link:
  assumes scheme: "CHR '':'' \<notin> set scheme" and user: "CHR ''@'' \<notin> set user" "url_unquote False user = u"
    and address: "CHR ''?'' \<notin> set address" and kvs: "kvs \<noteq> []"
  shows "read_share_link (scheme @ ''://'' @ user @ ''@'' @ address @ ''?'' @ urlencode kvs @ ''#'' @ url_quote ''/'' remark) =
    \<lparr>sl_user = u, sl_address = address, sl_payload = payload_texts kvs, sl_remark = remark\<rparr>"
proof -
  have "dropWhile (\<lambda>c. c \<noteq> CHR '':'') (scheme @ CHR '':'' # t) = CHR '':'' # t" for t
    using scheme by (induction scheme) auto
  then have "drop 3 (dropWhile (\<lambda>c. c \<noteq> CHR '':'') (scheme @ ''://'' @ t)) = t" for t
    by (simp add: eval_nat_numeral)
  moreover have "cut_at CHR ''@'' (user @ ''@'' @ t) = (user, t)" for t
    using cut_at_first [OF user(1), of t] by simp
  moreover have "cut_at CHR ''?'' (address @ ''?'' @ t) = (address, t)" for t
    using cut_at_first [OF address, of t] by simp
  moreover have "cut_at CHR ''#'' (urlencode kvs @ ''#'' @ t) = (urlencode kvs, t)" for t
    using cut_at_first [OF urlencode_no_fragment, of kvs t] by simp
  moreover have "url_unquote False (url_quote ''/'' remark) = remark" by (rule unquote_quote) simp
  moreover have "parse_query (urlencode kvs) = payload_texts kvs"
    using parse_urlencode [OF kvs] by (simp add: payload_texts_def)
  ultimately show ?thesis by (simp only: read_share_link_def prod.case user(2))
qed

lemma unquote_plain: "list_all unreserved s \<Longrightarrow> url_unquote False s = s"
  by (induction s) (use not_unreserved(1) in auto)

lemma plain_no_at: "list_all unreserved s \<Longrightarrow> CHR ''@'' \<notin> set s"
  using not_unreserved(7) by (auto simp: list_all_iff)

lemma quoted_no_at: "CHR ''@'' \<notin> set (url_quote '':'' s)"
  using quoted_chars [of "CHR ''@''" "'':''" s] not_unreserved(7) by auto

lemma share_payload_nonempty: "share_payload ib st enc path = Inr payload \<Longrightarrow> payload \<noteq> []"
  by (auto simp: share_payload_def then_res_Inr)

section \<open>Inbounds and hosts under a request\<close>

text \<open>What is known is what reading it again would give.\<close>

definition current :: "fresh_state \<Rightarrow> link_state \<Rightarrow> bool" where
  "current fresh s \<longleftrightarrow> ls_by_tag s = fs_by_tag fresh \<and> fs_map fresh = Some (ls_map s)"

definition same_tables :: "link_state \<Rightarrow> link_state \<Rightarrow> bool" where
  "same_tables s s' \<longleftrightarrow> ls_by_tag s' = ls_by_tag s \<and> ls_map s' = ls_map s"

lemma same_tables_refl [simp]: "same_tables s s"
  by (simp add: same_tables_def)

lemma same_tables_trans: "same_tables s s' \<Longrightarrow> same_tables s' s'' \<Longrightarrow> same_tables s s''"
  by (simp add: same_tables_def)

lemma same_current: "same_tables s s' \<Longrightarrow> current fresh s \<Longrightarrow> current fresh s'"
  by (simp add: same_tables_def current_def)

lemma refresh_same: "current fresh s \<Longrightarrow> same_tables s (refresh_state fresh svc s)"
  by (simp add: current_def same_tables_def refresh_state_def)

definition inbound_at :: "(string \<times> json_dict) list \<Rightarrow> string \<Rightarrow> json_dict option" where
  "inbound_at bt t = (case map_of bt t of Some ib \<Rightarrow> if ib = [] then None else Some ib | None \<Rightarrow> None)"

lemma inbound_of_current:
  assumes "current fresh s"
  shows "fst (inbound_of fresh svc t s) = inbound_at (ls_by_tag s) t \<and> same_tables s (snd (inbound_of fresh svc t s))"
  using refresh_same [OF assms, of svc]
  by (simp add: inbound_of_def inbound_at_def Let_def same_tables_def split: option.split)

text \<open>The inbound of the tag has the protocol.\<close>

definition speaks :: "(string \<times> json_dict) list \<Rightarrow> proxy_type \<Rightarrow> string \<Rightarrow> bool" where
  "speaks bt p t \<longleftrightarrow> (case inbound_at bt t of None \<Rightarrow> False | Some ib \<Rightarrow> jget ib ''protocol'' = JStr (proxy_value p))"

lemma proxy_value_given [simp]: "proxy_value p \<noteq> []"
  by (cases p) simp_all

lemma place_tags_current:
  assumes "current fresh s"
  shows "fst (place_tags fresh ts inb s) = map (\<lambda>(p, xs). (p, xs @ filter (speaks (ls_by_tag s) p) ts)) inb \<and>
    same_tables s (snd (place_tags fresh ts inb s))"
  using assms
proof (induction ts arbitrary: inb s)
  case Nil
  then show ?case by (simp add: case_prod_beta)
next
  case (Cons t ts)
  obtain x s' where x: "inbound_of fresh True t s = (x, s')" by force
  have at: "x = inbound_at (ls_by_tag s) t" "same_tables s s'"
    using inbound_of_current [OF Cons.prems, of True t] by (simp_all add: x)
  note IH = Cons.IH [OF same_current [OF at(2) Cons.prems]]
  have bt: "ls_by_tag s' = ls_by_tag s" using at(2) by (simp add: same_tables_def)
  show ?case
  proof (cases x)
    case None
    then have "\<not> speaks (ls_by_tag s) p t" for p using at(1) by (simp add: speaks_def)
    then show ?thesis using IH [of inb] same_tables_trans [OF at(2)] by (simp add: x None bt case_prod_beta)
  next
    case (Some ib)
    let ?inb = "if json_true (jget ib ''protocol'') then add_tag t ib inb else inb"
    have "speaks (ls_by_tag s) p t \<longleftrightarrow> jget ib ''protocol'' = JStr (proxy_value p)" for p
      unfolding speaks_def at(1) [symmetric] Some by simp
    then have "?inb = map (\<lambda>(p, xs). (p, xs @ (if speaks (ls_by_tag s) p t then [t] else []))) inb"
      by (auto simp: add_tag_def intro!: map_idI [symmetric])
    then have "map (\<lambda>(p, xs). (p, xs @ filter (speaks (ls_by_tag s) p) ts)) ?inb =
        map (\<lambda>(p, xs). (p, xs @ filter (speaks (ls_by_tag s) p) (t # ts))) inb"
      by (auto simp: case_prod_beta)
    then show ?thesis using IH [of ?inb] same_tables_trans [OF at(2)] by (simp add: x Some bt)
  qed
qed

definition entries_at :: "link_state \<Rightarrow> proxy_type \<Rightarrow> string \<Rightarrow> link_entry list" where
  "entries_at s p t = (case inbound_at (ls_by_tag s) t of None \<Rightarrow> [] | Some ib \<Rightarrow> host_entries p t ib s)"

lemma entries_at_same: "same_tables s s' \<Longrightarrow> entries_at s' = entries_at s"
  by (simp add: fun_eq_iff entries_at_def host_entries_def same_tables_def split: option.split)

lemma tag_entries_current:
  assumes "current fresh s"
  shows "fst (tag_entries fresh svc p ts s) = concat (map (entries_at s p) ts) \<and>
    same_tables s (snd (tag_entries fresh svc p ts s))"
  using assms
proof (induction ts arbitrary: s)
  case (Cons t ts)
  obtain x s' where x: "inbound_of fresh svc t s = (x, s')" by force
  have at: "x = inbound_at (ls_by_tag s) t" "same_tables s s'"
    using inbound_of_current [OF Cons.prems, of svc t] by (simp_all add: x)
  note IH = Cons.IH [OF same_current [OF at(2) Cons.prems]]
  have "host_entries p t ib s' = host_entries p t ib s" for ib
    using at(2) by (simp add: host_entries_def same_tables_def)
  then show ?case using IH same_tables_trans [OF at(2)] entries_at_same [OF at(2)]
    by (auto simp: x entries_at_def at(1) [symmetric] case_prod_beta split: option.split)
qed simp

lemma all_entries_current:
  assumes "current fresh s"
  shows "fst (all_entries fresh svc has inb s) =
    concat (map (\<lambda>(p, ts). if has p then concat (map (entries_at s p) ts) else []) inb) \<and>
    same_tables s (snd (all_entries fresh svc has inb s))"
  using assms
proof (induction inb arbitrary: s)
  case (Cons x inb)
  obtain p ts where x: "x = (p, ts)" by force
  obtain es s' where es: "tag_entries fresh svc p ts s = (es, s')" by force
  have at: "es = concat (map (entries_at s p) ts)" "same_tables s s'"
    using tag_entries_current [OF Cons.prems, of svc p ts] by (simp_all add: es)
  show ?case using Cons.IH [OF Cons.prems] Cons.IH [OF same_current [OF at(2) Cons.prems], unfolded entries_at_same [OF at(2)]]
      same_tables_trans [OF at(2)]
    by (simp add: x es at(1) case_prod_beta)
qed simp

text \<open>The links of a user of a service come from the inbounds with hosts, by protocol.\<close>

definition service_entries :: "string list \<Rightarrow> link_user \<Rightarrow> link_state \<Rightarrow> link_entry list" where
  "service_entries ts u s = concat (map (\<lambda>p. concat (map (entries_at s p) (filter (speaks (ls_by_tag s) p) ts)))
     (map fst (lu_proxies u)))"

lemma entries_of_current:
  assumes "current fresh s" and "lu_service u \<noteq> None"
  shows "entries_of_user order fresh u s =
    sort_key (entry_key (lu_orders u)) (service_entries (order (tags_with_hosts s)) u s)"
proof -
  let ?ps = "map fst (lu_proxies u)" and ?has = "\<lambda>p. map_of (lu_proxies u) p \<noteq> None"
  define s1 where "s1 = first_state fresh True s"
  have s1: "same_tables s s1" using refresh_same [OF assms(1)] by (simp add: s1_def first_state_def)
  define s2 where "s2 = (if set (concat (map snd (lu_inbounds u))) \<subseteq> set (tags_with_hosts s1) then s1
    else refresh_state fresh True s1)"
  have s2: "same_tables s s2"
    using same_tables_trans [OF s1 refresh_same [OF same_current [OF s1 assms(1)]]] s1 by (simp add: s2_def)
  have tags: "tags_with_hosts s2 = tags_with_hosts s" using s2 by (simp add: tags_with_hosts_def same_tables_def)
  obtain inb s3 where p: "place_tags fresh (order (tags_with_hosts s2)) (map (\<lambda>p. (p, [])) ?ps) s2 = (inb, s3)" by force
  have placed: "inb = map (\<lambda>p. (p, filter (speaks (ls_by_tag s) p) (order (tags_with_hosts s)))) ?ps" "same_tables s2 s3"
    using place_tags_current [OF same_current [OF s2 assms(1)], of "order (tags_with_hosts s2)" "map (\<lambda>p. (p, [])) ?ps",
        unfolded p fst_conv snd_conv] s2
    by (simp_all add: tags same_tables_def comp_def)
  have s3: "same_tables s s3" by (rule same_tables_trans [OF s2 placed(2)])
  have "fst (all_entries fresh True ?has inb s3) =
      concat (map (\<lambda>(p, ts). if ?has p then concat (map (entries_at s p) ts) else []) inb)"
    using all_entries_current [OF same_current [OF s3 assms(1)], unfolded entries_at_same [OF s3]] by simp
  also have "\<dots> = concat (map (\<lambda>p. if ?has p then concat (map (entries_at s p) (filter (speaks (ls_by_tag s) p)
      (order (tags_with_hosts s)))) else []) ?ps)"
    by (simp add: placed(1) comp_def)
  also have "\<dots> = service_entries (order (tags_with_hosts s)) u s"
    unfolding service_entries_def by (rule arg_cong [where f = concat], rule map_cong [OF refl])
      (auto simp: map_of_eq_None_iff)
  finally have es: "fst (all_entries fresh True ?has inb s3) = service_entries (order (tags_with_hosts s)) u s" .
  have "service_inbounds order fresh (lu_inbounds u) ?ps s1 = (inb, s3)"
    by (simp only: service_inbounds_def Let_def s2_def [symmetric] p)
  then show ?thesis using assms(2) es
    by (simp add: entries_of_user_def Let_def s1_def [symmetric] sort_entries_def del: not_None_eq)
qed

section \<open>Hosts of a service\<close>

lemma host_rows: "map (\<lambda>e. (le_protocol e, hd_row (le_host e))) (host_entries p t ib s) =
    map (Pair p) (filter (\<lambda>h. host_is_disabled h \<noteq> Some True) (map hd_row (sort_hosts (hosts_in (ls_map s) t))))"
proof -
  have rows: "map (\<lambda>x. (p, hd_row (snd x))) (filter (\<lambda>(_, h). host_is_disabled (hd_row h) \<noteq> Some True) (zip ns hs)) =
      map (Pair p) (filter (\<lambda>h. host_is_disabled h \<noteq> Some True) (map hd_row hs))"
    if "length ns = length hs" for ns :: "nat list" and hs :: "host_dict list"
    using that by (induction ns hs rule: list_induct2) simp_all
  show ?thesis
    using rows [of "[0..<length (sort_hosts (hosts_in (ls_map s) t))]" "sort_hosts (hosts_in (ls_map s) t)"]
    by (simp add: host_entries_def Let_def comp_def case_prod_beta)
qed

lemma mset_concat_map: "mset (concat (map f xs)) = (\<Sum>x\<in>#mset xs. mset (f x))"
  by (induction xs) simp_all

lemma mset_grouped:
  assumes "distinct ts"
  shows "mset (concat (map (\<lambda>t. filter (\<lambda>h. Q h \<and> f h = t) hs) ts)) = mset (filter (\<lambda>h. Q h \<and> f h \<in> set ts) hs)"
  using assms
proof (induction ts)
  case (Cons t ts)
  have "mset (filter (\<lambda>h. Q h \<and> f h = t) hs) + mset (filter (\<lambda>h. Q h \<and> f h \<in> set ts) hs) =
      mset (filter (\<lambda>h. Q h \<and> f h \<in> set (t # ts)) hs)"
    using Cons.prems by (induction hs) auto
  then show ?case using Cons by simp
qed simp

text \<open>The rows of the entries: the hosts of the service, at the inbounds of the protocol.\<close>

definition shown :: "string list \<Rightarrow> db \<Rightarrow> int \<Rightarrow> (string \<times> json_dict) list \<Rightarrow> proxy_type \<Rightarrow> proxy_host \<Rightarrow> bool" where
  "shown tags d i bt p h \<longleftrightarrow> host_is_disabled h \<noteq> Some True \<and> host_inbound_tag h \<in> set tags \<and>
     i \<in> set (services_of_host (host_id h) d) \<and> speaks bt p (host_inbound_tag h)"

lemma hosts_in_at: "hosts_in = hosts_at"
  by (simp add: fun_eq_iff hosts_in_def hosts_at_def)

lemma service_map:
  assumes "distinct (map sid (services d))" "distinct tags" and m: "ls_map s = map_for tags (rebuild_service_hosts tags d) (Some i)"
  shows "t \<in> set tags \<Longrightarrow> mset (map hd_row (hosts_in (ls_map s) t)) = mset (filter (listed tags d (Some i) t) (hosts d))"
    and "distinct (tags_with_hosts s)" and "set (tags_with_hosts s) = {t \<in> set tags. offers d i t}"
proof -
  show "mset (map hd_row (hosts_in (ls_map s) t)) = mset (filter (listed tags d (Some i) t) (hosts d))" if "t \<in> set tags"
    by (simp add: m hosts_in_at rebuilt_map [OF assms(1,2) that] sort_hosts_perm image_mset.compositionality comp_def)
  have "map fst (ls_map s) = tags" by (simp add: m map_for_def Let_def comp_def)
  then show "distinct (tags_with_hosts s)" using assms(2) by (metis distinct_map_filter tags_with_hosts_def)
  show "set (tags_with_hosts s) = {t \<in> set tags. offers d i t}"
    using mapped_tags [OF assms(1,2), of i] by (simp only: tags_with_hosts_def m)
qed

lemma protocol_rows:
  assumes ok: "distinct (map sid (services d))" "distinct tags" "ls_map s = map_for tags (rebuild_service_hosts tags d) (Some i)"
    and ts: "mset ts = mset (tags_with_hosts s)"
  shows "mset (map (\<lambda>e. (le_protocol e, hd_row (le_host e))) (concat (map (entries_at s p) (filter (speaks (ls_by_tag s) p) ts)))) =
    mset (map (Pair p) (filter (shown tags d i (ls_by_tag s) p) (hosts d)))"
proof -
  let ?row = "\<lambda>e. (le_protocol e, hd_row (le_host e))" and ?ts = "filter (speaks (ls_by_tag s) p) ts"
  let ?Q = "\<lambda>h. host_is_disabled h \<noteq> Some True \<and> i \<in> set (services_of_host (host_id h) d)"
  have set_ts: "set ts = {t \<in> set tags. offers d i t}"
    using service_map(3) [OF ok] mset_eq_setD [OF ts] by simp
  have "distinct ts" using service_map(2) [OF ok] ts by (metis mset_eq_imp_distinct_iff)
  then have dist: "distinct ?ts" by simp
  have one: "mset (map ?row (entries_at s p t)) = mset (map (Pair p) (filter (\<lambda>h. ?Q h \<and> host_inbound_tag h = t) (hosts d)))"
    if "t \<in> set ?ts" for t
  proof -
    have t: "t \<in> set tags" "speaks (ls_by_tag s) p t" using that set_ts by auto
    then obtain ib where ib: "inbound_at (ls_by_tag s) t = Some ib" by (auto simp: speaks_def split: option.splits)
    have "mset (filter (\<lambda>h. host_is_disabled h \<noteq> Some True) (map hd_row (sort_hosts (hosts_in (ls_map s) t)))) =
        mset (filter (\<lambda>h. host_is_disabled h \<noteq> Some True) (filter (listed tags d (Some i) t) (hosts d)))"
      using service_map(1) [OF ok t(1)] sort_hosts_perm [of "hosts_in (ls_map s) t"]
      by (metis mset_filter mset_map)
    moreover have "filter (\<lambda>h. host_is_disabled h \<noteq> Some True) (filter (listed tags d (Some i) t) (hosts d)) =
        filter (\<lambda>h. ?Q h \<and> host_inbound_tag h = t) (hosts d)"
      using t(1) by (auto simp: listed_def intro: filter_cong)
    ultimately show ?thesis unfolding entries_at_def ib option.case host_rows by (metis mset_map)
  qed
  have "mset (map ?row (concat (map (entries_at s p) ?ts))) = (\<Sum>t\<in>#mset ?ts. mset (map ?row (entries_at s p t)))"
    by (simp only: map_concat map_map mset_concat_map comp_def)
  also have "\<dots> = (\<Sum>t\<in>#mset ?ts. mset (map (Pair p) (filter (\<lambda>h. ?Q h \<and> host_inbound_tag h = t) (hosts d))))"
    using one by (intro arg_cong [where f = sum_mset] image_mset_cong) simp
  also have "\<dots> = mset (map (Pair p) (concat (map (\<lambda>t. filter (\<lambda>h. ?Q h \<and> host_inbound_tag h = t) (hosts d)) ?ts)))"
    by (simp only: map_concat map_map mset_concat_map comp_def)
  also have "\<dots> = mset (map (Pair p) (filter (\<lambda>h. ?Q h \<and> host_inbound_tag h \<in> set ?ts) (hosts d)))"
    unfolding mset_map [of "Pair p"] mset_grouped [OF dist] by simp
  also have "filter (\<lambda>h. ?Q h \<and> host_inbound_tag h \<in> set ?ts) (hosts d) = filter (shown tags d i (ls_by_tag s) p) (hosts d)"
    using set_ts by (auto simp: shown_def offers_def intro!: filter_cong)
  finally show ?thesis .
qed

section \<open>One order\<close>

lemma index_where_lookup: "map_of bt t = Some v \<Longrightarrow>
    \<exists>j. index_where (\<lambda>(k, _). k = t) bt = Some j \<and> j < length bt \<and> fst (bt ! j) = t"
  by (induction bt) (auto split: if_splits)

definition placed_entry :: "link_state \<Rightarrow> link_entry \<Rightarrow> bool" where
  "placed_entry s e \<longleftrightarrow> (\<exists>j. le_index e = Some j \<and> fst (ls_by_tag s ! j) = le_tag e) \<and>
     speaks (ls_by_tag s) (le_protocol e) (le_tag e) \<and> inbound_at (ls_by_tag s) (le_tag e) = Some (le_inbound e) \<and>
     le_host e = sort_hosts (hosts_in (ls_map s) (le_tag e)) ! le_position e"

lemma host_entry_placed:
  assumes "e \<in> set (host_entries p t ib s)" and "inbound_at (ls_by_tag s) t = Some ib" and "speaks (ls_by_tag s) p t"
  shows "placed_entry s e"
proof -
  obtain j where "index_where (\<lambda>(k, _). k = t) (ls_by_tag s) = Some j" "fst (ls_by_tag s ! j) = t"
    using assms(2) index_where_lookup [of "ls_by_tag s" t] by (auto simp: inbound_at_def split: option.splits)
  then show ?thesis using assms by (auto simp: host_entries_def Let_def placed_entry_def set_zip)
qed

lemma service_entries_placed: "e \<in> set (service_entries ts u s) \<Longrightarrow> placed_entry s e"
  by (auto simp: service_entries_def entries_at_def split: option.splits intro: host_entry_placed)

lemma proxy_value_inject: "proxy_value p = proxy_value q \<longleftrightarrow> p = q"
  by (cases p; cases q) simp_all

lemma placed_key:
  assumes e: "placed_entry s e" and f: "placed_entry s f" and key: "entry_key os e = entry_key os f"
  shows "e = f"
proof -
  have pos: "le_position e = le_position f" and idx: "le_index e = le_index f"
    using e f key by (auto simp: entry_key_def placed_entry_def)
  then have tag: "le_tag e = le_tag f" using e f by (auto simp: placed_entry_def)
  then have ib: "le_inbound e = le_inbound f" using e f by (simp add: placed_entry_def)
  have "proxy_value (le_protocol e) = proxy_value (le_protocol f)"
    using e f by (auto simp: placed_entry_def speaks_def tag)
  then show ?thesis using e f pos idx tag ib
    by (intro link_entry.equality) (auto simp: placed_entry_def proxy_value_inject)
qed

lemma service_entries_perm: "mset ts = mset ts' \<Longrightarrow> mset (service_entries ts u s) = mset (service_entries ts' u s)"
  by (simp only: service_entries_def mset_concat_map mset_filter)

lemma sorted_service_entries:
  assumes "mset ts = mset ts'"
  shows "sort_key (entry_key os) (service_entries ts u s) = sort_key (entry_key os) (service_entries ts' u s)"
proof (rule sort_key_inj_key_eq)
  show "mset (service_entries ts u s) = mset (sort_key (entry_key os) (service_entries ts' u s))"
    using service_entries_perm [OF assms] by simp
  show "inj_on (entry_key os) (set (service_entries ts u s))"
    using placed_key service_entries_placed by (intro inj_onI) blast
qed simp

end
