(* ===== verification/LinkProperties.thy ===== *)
theory LinkProperties
  imports LinkFacts ShopSamples
begin

text \<open>
  Properties of the links of a subscription: a client reads back what was put in, the links of a user
  of a service are exactly the hosts shown to it, in an order that does not depend on how a set is
  gone through, and where a link and the core disagree.
\<close>

section \<open>Samples\<close>

definition tcp_settings :: "string \<Rightarrow> string \<Rightarrow> json_dict" where
  "tcp_settings t p = [(''tag'', JStr t), (''protocol'', JStr p), (''port'', JInt 443), (''network'', JStr ''tcp''),
     (''tls'', JStr ''tls''), (''sni'', JArr [JStr ''*.example'']), (''host'', JArr []), (''path'', JStr []),
     (''header_type'', JStr []), (''is_fallback'', JBool False)]"

definition wide_shop :: db where
  "wide_shop = shop\<lparr>services := [gold\<lparr>host_links := [\<lparr>link_host_id = 1, link_sort = 0\<rparr>, \<lparr>link_host_id = 2, link_sort = 1\<rparr>]\<rparr>]\<rparr>"

definition shop_links :: link_state where
  "shop_links = \<lparr>ls_by_tag = [(''in1'', tcp_settings ''in1'' ''vless''), (''in2'', tcp_settings ''in2'' ''trojan'')],
     ls_map = map_for [''in1'', ''in2''] (rebuild_service_hosts [''in1'', ''in2''] wide_shop) (Some 4), ls_refreshed = False\<rparr>"

definition shop_fresh :: fresh_state where
  "shop_fresh = \<lparr>fs_by_tag = ls_by_tag shop_links, fs_map = Some (ls_map shop_links)\<rparr>"

definition cara_links :: link_user where
  "cara_links = \<lparr>lu_key = None, lu_flow = None,
     lu_proxies = [(VLESS, [(''id'', SStr ''7c0f'')]), (Trojan, [(''password'', SStr ''p@:w/d'')])],
     lu_service = Some 4, lu_inbounds = [(VLESS, [''in1'']), (Trojan, [''in2''])], lu_orders = [(1, 5), (2, 3)]\<rparr>"

lemma shop_links_current: "current shop_fresh shop_links"
  by (simp add: current_def shop_fresh_def)

lemma wide_shop_simps [simp]: "hosts wide_shop = [default_host 1 ''in1'', default_host 2 ''in2'']"
  "services_of_host 1 wide_shop = [4]" "services_of_host 2 wide_shop = [4]" "distinct (map sid (services wide_shop))"
  using shop_simps(6) by (simp_all add: wide_shop_def services_of_host_def)

section \<open>Reading a link back\<close>

definition share_encryption :: "json_dict \<Rightarrow> json_dict" where
  "share_encryption ib = (if jget ib ''protocol'' = JStr ''vless''
     then [(''encryption'', jor (jget ib ''encryption'') (JStr ''none''))] else [])"

definition share_credential :: "json_dict \<Rightarrow> settings \<Rightarrow> string" where
  "share_credential ib st =
     setting_text (setting_get st (if jget ib ''protocol'' = JStr ''vless'' then ''id'' else ''password''))"

lemma setting_text_case: "(case v of SStr p \<Rightarrow> f p | _ \<Rightarrow> Inl e) = Inr l \<longleftrightarrow> (\<exists>p. v = SStr p \<and> f p = Inr l)"
  by (cases v) auto

text \<open>C14. The link of VLESS or Trojan that is added: a client that takes it apart at the first \<open>@\<close>, \<open>?\<close>
  and \<open>#\<close> and undoes the encoding gets the identifier or the password, the address, the parameters in
  order and the remark, whatever characters password, parameters and remark have. The identifier must
  be plain, as every UUID is, and the address free of a question mark.\<close>

theorem links_read_back:
  assumes add: "add_link remark address ib st links = Inr links'"
    and protocol: "jget ib ''protocol'' \<in> {JStr ''vless'', JStr ''trojan''}"
    and address: "CHR ''?'' \<notin> set (address_part ib address)"
    and plain: "jget ib ''protocol'' = JStr ''vless'' \<Longrightarrow> list_all unreserved (share_credential ib st)"
  shows "\<exists>path payload l. link_path ib = Inr path \<and>
    share_payload ib st (share_encryption ib) path = Inr payload \<and> links' = links @ [l] \<and>
    read_share_link l = \<lparr>sl_user = share_credential ib st, sl_address = address_part ib address,
      sl_payload = payload_texts payload, sl_remark = remark\<rparr>"
proof (cases "jget ib ''protocol'' = JStr ''vless''")
  case True
  obtain path i payload where p: "link_path ib = Inr path" "share_payload ib st (share_encryption ib) path = Inr payload"
    and i: "setting_key st ''id'' = Inr i"
    and l: "links' = links @ [''vless'' @ ''://'' @ setting_text i @ ''@'' @ address_part ib address @ ''?'' @
      urlencode payload @ ''#'' @ url_quote ''/'' remark]"
    using add True by (auto simp: add_link_def vless_link_def share_encryption_def then_res_Inr Let_def)
  have u: "share_credential ib st = setting_text i"
    using i True by (auto simp: share_credential_def setting_get_def setting_key_def split: option.splits)
  have "list_all unreserved (setting_text i)" using plain [OF True] by (simp only: u)
  from read_link [OF _ plain_no_at [OF this] unquote_plain [OF this] address share_payload_nonempty [OF p(2)], of "''vless''" remark]
  show ?thesis using p l unfolding u by simp
next
  case False
  then have trojan: "jget ib ''protocol'' = JStr ''trojan''" using protocol by simp
  obtain path pw payload where p: "link_path ib = Inr path" "share_payload ib st (share_encryption ib) path = Inr payload"
    and i: "setting_key st ''password'' = Inr (SStr pw)"
    and l: "links' = links @ [''trojan'' @ ''://'' @ url_quote '':'' pw @ ''@'' @ address_part ib address @ ''?'' @
      urlencode payload @ ''#'' @ url_quote ''/'' remark]"
    using add trojan by (auto simp: add_link_def trojan_link_def share_encryption_def then_res_Inr Let_def setting_text_case)
  have u: "share_credential ib st = pw"
    using i trojan by (auto simp: share_credential_def setting_get_def setting_key_def setting_text_def split: option.splits)
  have "url_unquote False (url_quote '':'' pw) = pw" by (rule unquote_quote) simp
  from read_link [OF _ quoted_no_at this address share_payload_nonempty [OF p(2)], of "''trojan''" remark]
  show ?thesis using p l unfolding u by simp
qed

lemma links_read_back_witness:
  "map_sum id (map sl_user \<circ> map read_share_link)
     (add_link ''a b#1'' ''10.0.0.1'' (jset ''sni'' (JStr ''x&y'') (tcp_settings ''in2'' ''trojan''))
       [(''password'', SStr ''p@:w/d'')] []) = Inr [''p@:w/d'']"
proof -
  let ?ib = "jset ''sni'' (JStr ''x&y'') (tcp_settings ''in2'' ''trojan'')" and ?st = "[(''password'', SStr ''p@:w/d'')]"
  have run: "(case add_link ''a b#1'' ''10.0.0.1'' ?ib ?st [] of Inr _ \<Rightarrow> True | Inl _ \<Rightarrow> False)" by code_simp
  have q: "CHR ''?'' \<notin> set (address_part ?ib ''10.0.0.1'')" by code_simp
  have p: "jget ?ib ''protocol'' = JStr ''trojan''" by code_simp
  have c: "share_credential ?ib ?st = ''p@:w/d''" by code_simp
  obtain ls where ls: "add_link ''a b#1'' ''10.0.0.1'' ?ib ?st [] = Inr ls" using run by (auto split: sum.splits)
  have no: "jget ?ib ''protocol'' \<noteq> JStr ''vless''" by code_simp
  have "jget ?ib ''protocol'' \<in> {JStr ''vless'', JStr ''trojan''}" using p by blast
  from links_read_back [OF ls this q] obtain l where "ls = [l]" "sl_user (read_share_link l) = share_credential ?ib ?st"
    using no by auto
  then show ?thesis by (simp only: ls c map_sum.simps comp_def list.map)
qed

section \<open>Which hosts are linked\<close>

text \<open>C13. Every user of a service gets, for each protocol it has, exactly one link per enabled host of
  the service at an inbound of that protocol, in the order of the host's place, then of the inbounds in
  the configuration, then within the inbound; provided that what is cached of inbounds and hosts is what
  the tables give. What the user's own list of inbounds says does not matter.\<close>

theorem links_exact:
  assumes cur: "current fresh s" and svc: "lu_service u = Some i"
    and m: "ls_map s = map_for tags (rebuild_service_hosts tags d) (Some i)"
    and ok: "distinct (map sid (services d))" "distinct tags"
    and order: "mset (order (tags_with_hosts s)) = mset (tags_with_hosts s)"
  shows "mset (map (\<lambda>e. (le_protocol e, hd_row (le_host e))) (entries_of_user order fresh u s)) =
      mset (concat (map (\<lambda>p. map (Pair p) (filter (\<lambda>h. host_is_disabled h \<noteq> Some True \<and> host_inbound_tag h \<in> set tags \<and>
        i \<in> set (services_of_host (host_id h) d) \<and> speaks (ls_by_tag s) p (host_inbound_tag h)) (hosts d)))
        (map fst (lu_proxies u)))) \<and>
    sorted (map (entry_key (lu_orders u)) (entries_of_user order fresh u s))"
proof -
  let ?es = "service_entries (order (tags_with_hosts s)) u s" and ?row = "\<lambda>e. (le_protocol e, hd_row (le_host e))"
  have es: "entries_of_user order fresh u s = sort_key (entry_key (lu_orders u)) ?es"
    by (rule entries_of_current [OF cur]) (simp add: svc)
  let ?at = "\<lambda>p. concat (map (entries_at s p) (filter (speaks (ls_by_tag s) p) (order (tags_with_hosts s))))"
  have "map ?row ?es = concat (map (\<lambda>p. map ?row (?at p)) (map fst (lu_proxies u)))"
    by (simp add: service_entries_def map_concat comp_def)
  then have "mset (map ?row ?es) = (\<Sum>p\<in>#mset (map fst (lu_proxies u)). mset (map ?row (?at p)))"
    by (simp only: mset_concat_map)
  also have "\<dots> = (\<Sum>p\<in>#mset (map fst (lu_proxies u)). mset (map (Pair p) (filter (shown tags d i (ls_by_tag s) p) (hosts d))))"
    by (simp only: protocol_rows [OF ok m order])
  also have "\<dots> = mset (concat (map (\<lambda>p. map (Pair p) (filter (shown tags d i (ls_by_tag s) p) (hosts d))) (map fst (lu_proxies u))))"
    by (simp only: mset_concat_map)
  finally show ?thesis unfolding es shown_def by simp
qed

lemma links_exact_witness:
  "mset (map (\<lambda>e. (le_protocol e, host_id (hd_row (le_host e)))) (entries_of_user rev shop_fresh cara_links shop_links)) =
     {#(VLESS, 1), (Trojan, 2)#}"
proof -
  let ?es = "entries_of_user rev shop_fresh cara_links shop_links"
  have speaks: "speaks (ls_by_tag shop_links) VLESS ''in1''" "\<not> speaks (ls_by_tag shop_links) VLESS ''in2''"
    "speaks (ls_by_tag shop_links) Trojan ''in2''" "\<not> speaks (ls_by_tag shop_links) Trojan ''in1''"
    by (simp_all add: speaks_def inbound_at_def shop_links_def tcp_settings_def jget_def)
  have "mset (map (\<lambda>e. (le_protocol e, hd_row (le_host e))) ?es) = {#(VLESS, default_host 1 ''in1''), (Trojan, default_host 2 ''in2'')#}"
    using links_exact [OF shop_links_current, of cara_links 4 "[''in1'', ''in2'']" wide_shop rev] speaks
    by (simp add: cara_links_def shop_links_def)
  then have "image_mset (map_prod id host_id) (mset (map (\<lambda>e. (le_protocol e, hd_row (le_host e))) ?es)) =
      {#(VLESS, 1), (Trojan, 2)#}" by simp
  then show ?thesis by (simp add: image_mset.compositionality comp_def)
qed

text \<open>The inbounds with hosts are kept in a set. The document is the same, byte for byte, whatever the
  order in which the set is gone through: the key of the sort tells any two links apart.\<close>

theorem links_order_determined:
  assumes cur: "current fresh s" and svc: "lu_service u \<noteq> None"
    and order: "mset (order (tags_with_hosts s)) = mset (order' (tags_with_hosts s))"
  shows "generate_v2ray_links order env sha password lc external reverse fresh u s =
    generate_v2ray_links order' env sha password lc external reverse fresh u s"
  by (simp only: generate_v2ray_links_def entries_of_current [OF cur svc] sorted_service_entries [OF order])

lemma links_order_determined_witness:
  "generate_v2ray_links rev sample_env id ''p'' \<lparr>lc_vars = id, lc_rich = Inr\<rparr> [] False shop_fresh cara_links shop_links =
     generate_v2ray_links id sample_env id ''p'' \<lparr>lc_vars = id, lc_rich = Inr\<rparr> [] False shop_fresh cara_links shop_links"
  by (rule links_order_determined [OF shop_links_current]) (simp_all add: cara_links_def)

section \<open>The flow\<close>

definition info_of :: "json_dict \<Rightarrow> inbound_info" where
  "info_of ib = \<lparr>ib_tag = text_of (jget ib ''tag''), ib_network = text_of (jget ib ''network''),
     ib_tls = text_of (jget ib ''tls''), ib_header_type = text_of (jget ib ''header_type'')\<rparr>"

text \<open>Elsewhere links and core agree.\<close>

lemma flow_agrees:
  assumes "jget ib ''network'' \<noteq> JStr ''raw''"
  shows "flow_allowed ib \<longleftrightarrow> flow_supported_for_inbound (info_of ib)"
  using assms by (auto simp: flow_allowed_def flow_supported_for_inbound_def info_of_def text_of_def split: json.splits)

text \<open>At an inbound with the network \<open>raw\<close>, a synonym of \<open>tcp\<close>, the core's client of a user with a flow
  has no flow while its link asks for it, so that the core refuses the connection.\<close>

theorem raw_flow_refused:
  assumes raw: "jget ib ''network'' = JStr ''raw''" "jget ib ''tls'' \<in> {JStr ''tls'', JStr ''reality''}"
      "jget ib ''header_type'' \<noteq> JStr ''http''"
    and client: "row_client env sha fresh (info_of ib) r = Some c"
    and link: "share_payload ib st encryption path = Inr payload" "map_of st ''flow'' = Some (SStr f)" "f \<noteq> []"
  shows "\<not> has_setting (cl_settings c) ''flow'' \<and> map_of payload ''flow'' = Some (JStr f)"
proof -
  have "\<not> flow_supported_for_inbound (info_of ib)"
    by (simp add: flow_supported_for_inbound_def info_of_def raw(1) text_of_def)
  then have "\<not> has_setting (cl_settings c) ''flow''" using client_flow [OF client] by blast
  moreover have "flow_allowed ib" using raw by (simp add: flow_allowed_def)
  then have "map_of payload ''flow'' = Some (JStr f)"
    using link by (auto simp: share_payload_def flow_payload_def then_res_Inr)
  ultimately show ?thesis by blast
qed

definition raw_settings :: json_dict where
  "raw_settings = jset ''network'' (JStr ''raw'') (tcp_settings ''in1'' ''vless'')"

definition flow_row :: client_row where
  "flow_row = (row_of cara \<lparr>ptype = VLESS, psettings = [(''id'', SStr ''u'')], pexcluded = []\<rparr>)
     \<lparr>cr_flow := Some ''xtls-rprx-vision''\<rparr>"

lemma flow_row_clients:
  "map_option (\<lambda>c. has_setting (cl_settings c) ''flow'') (row_client shop_env id ''u'' (info_of raw_settings) flow_row) = Some False"
  "map_option (\<lambda>c. has_setting (cl_settings c) ''flow'') (row_client shop_env id ''u'' (info_of (tcp_settings ''in1'' ''vless'')) flow_row) = Some True"
  by code_simp+

lemma raw_flow_refused_witness:
  "\<exists>c payload. row_client shop_env id ''u'' (info_of raw_settings) flow_row = Some c \<and>
     share_payload raw_settings [(''id'', SStr ''u''), (''flow'', SStr ''xtls-rprx-vision'')] [] [] = Inr payload \<and>
     \<not> has_setting (cl_settings c) ''flow'' \<and> map_of payload ''flow'' = Some (JStr ''xtls-rprx-vision'')"
proof -
  let ?st = "[(''id'', SStr ''u''), (''flow'', SStr ''xtls-rprx-vision'')]"
  obtain c where c: "row_client shop_env id ''u'' (info_of raw_settings) flow_row = Some c" using flow_row_clients(1) by auto
  have "case share_payload raw_settings ?st [] [] of Inr _ \<Rightarrow> True | Inl _ \<Rightarrow> False" by code_simp
  then obtain payload where p: "share_payload raw_settings ?st [] [] = Inr payload" by (auto split: sum.splits)
  have "jget raw_settings ''network'' = JStr ''raw''" "jget raw_settings ''tls'' = JStr ''tls''"
    "jget raw_settings ''header_type'' \<noteq> JStr ''http''" by code_simp+
  then show ?thesis using raw_flow_refused [OF _ _ _ c p] c p by simp
qed

end
