(* ===== verification/UserProperties.thy ===== *)
theory UserProperties
  imports Samples
begin

text \<open>
  The properties of the operations on one user and on many, and of the credentials; each is followed
  by its witness, which applies it to the concrete rows of \<open>Samples\<close>.
\<close>

section \<open>Users\<close>

text \<open>C25. When every inbound tag of the core is in the inbound table: a failed modification changes nothing,
  and a successful one writes exactly one row and activates it only when the quota check passed. A tag
  that is missing there is created with a commit in the middle of the modification, which keeps what
  was changed until then also when it fails later.\<close>

theorem update_user_atomic:
  assumes "known_tags env d"
  shows "case update_user env now d u m svc service_set a of
      (Inl e, d') \<Rightarrow> d' = d
    | (Inr u', d') \<Rightarrow> uid u' = uid u \<and> admin_id u' = admin_id u \<and>
        (status u' = Active \<longrightarrow> status u \<noteq> Active \<longrightarrow>
          ensure_active_user_capacity d (admin_of d u) 1 [uid u] = Inr ()) \<and>
        users d' = store_user u' (users d) \<and> admins d' = admins d"
  using update_user_known [OF assms, where now = now and u = u and m = m and svc = svc and
      service_set = service_set and a = a]
  by (auto split: prod.splits sum.splits)

lemma update_user_atomic_witness:
  "\<exists>u' d'. update_user sample_env 7 sample_db ann (sample_modify\<lparr>fields_set := [''data_limit'']\<rparr>) None False None =
      (Inr u', d') \<and> users d' = [u', bob] \<and> admins d' = [keeper]"
proof -
  let ?m = "sample_modify\<lparr>fields_set := [''data_limit'']\<rparr>"
  obtain u' d' where r: "update_user sample_env 7 sample_db ann ?m None False None = (Inr u', d')"
    by (cases "update_user sample_env 7 sample_db ann ?m None False None",
        cases "fst (update_user sample_env 7 sample_db ann ?m None False None)")
      (auto simp: update_user_def and_then_def modify_proxies_def modify_excluded_inbounds_def pure_step_def
        set_service_def check_activation_def modify_parts_status modify_fields_def sample_modify_def
        change_obj_def expiry_decides_def limit_decides_def Let_def split: if_splits)
  with update_user_atomic [OF sample_known, where now = 7 and u = ann and m = ?m and svc = None and
      service_set = False and a = None]
  have "uid u' = uid ann" "users d' = store_user u' (users sample_db)" "admins d' = admins sample_db"
    by auto
  with r show ?thesis by simp
qed

text \<open>C26. The status of a modified user: the requested status, or the old one; then a data limit in the request
  makes it active below the limit and limited at it, unless it is expired or disabled, and limited
  in any case when it is on hold; then an expiry in the request decides between active and expired.\<close>

theorem modified_user_status:
  assumes "known_tags env d" and "update_user env now d u m svc service_set a = (Inr u', d')"
  shows "username u' = username u \<and> admin_id u' = admin_id u \<and>
    status u' = (let st0 = (case um_status m of None \<Rightarrow> status u | Some st \<Rightarrow> st);
      st1 = (if ''data_limit'' \<notin> set (fields_set m) \<or> st0 \<in> {Expired, Disabled} then st0
        else if st0 = On_hold then Limited
        else case or_none (um_data_limit m) of None \<Rightarrow> Active
          | Some l \<Rightarrow> if used_traffic u < l then Active else Limited)
      in if ''expire'' \<notin> set (fields_set m) \<or> st1 \<notin> {Active, Expired} then st1
        else case or_none (um_expire m) of None \<Rightarrow> Active
          | Some e \<Rightarrow> if secs_le_now e now then Expired else Active)"
  using update_user_known [OF assms(1), where now = now and u = u and m = m and svc = svc and
      service_set = service_set and a = a] assms(2)
  by (simp add: updated_status_def expiry_decides_def limit_decides_def Let_def)

lemma modified_user_status_witness:
  "\<exists>u' d'. update_user sample_env 7 (sample_db\<lparr>users := [ann\<lparr>status := On_hold\<rparr>, bob]\<rparr>) (ann\<lparr>status := On_hold\<rparr>)
      (sample_modify\<lparr>fields_set := [''data_limit''], um_data_limit := Some 99\<rparr>) None False None = (Inr u', d') \<and>
     status u' = Limited"
proof -
  let ?d = "sample_db\<lparr>users := [ann\<lparr>status := On_hold\<rparr>, bob]\<rparr>" and ?u = "ann\<lparr>status := On_hold\<rparr>"
    and ?m = "sample_modify\<lparr>fields_set := [''data_limit''], um_data_limit := Some 99\<rparr>"
  have k: "known_tags sample_env ?d" by (simp add: known_tags_def sample_env_def)
  obtain u' d' where r: "update_user sample_env 7 ?d ?u ?m None False None = (Inr u', d')"
    by (cases "update_user sample_env 7 ?d ?u ?m None False None", cases "fst (update_user sample_env 7 ?d ?u ?m None False None)")
      (auto simp: update_user_def and_then_def modify_proxies_def modify_excluded_inbounds_def pure_step_def
        set_service_def check_activation_def modify_parts_status modify_fields_def sample_modify_def
        change_obj_def expiry_decides_def limit_decides_def Let_def split: if_splits)
  from modified_user_status [OF k r] r show ?thesis by (simp add: sample_modify_def)
qed

text \<open>C28. What \<open>create_user\<close> does: a refused call changes no user; an accepted one appends one row with
  the new key, the given owner and name, the requested status (active by default), and only when the
  name was free and the owner had a free slot.\<close>

theorem create_user_spec:
  assumes "i \<notin> uid ` set (users d)" and "create_user env now i d m a svc = (r, d')"
  shows "admins d' = admins d \<and>
    (case r of Inl e \<Rightarrow> users d' = users d
     | Inr u \<Rightarrow> users d' = users d @ [u] \<and> uid u = i \<and> admin_id u = map_option aid a \<and>
         username u = uc_username m \<and> \<not> username_taken d (uc_username m) \<and>
         status u = (case uc_status m of None \<Rightarrow> Active | Some st \<Rightarrow> st) \<and>
         (a \<noteq> None \<longrightarrow> ensure_active_user_capacity d a 1 [] = Inr ()))"
  using assms by (rule create_user_effect)

definition full_keeper :: admin where
  "full_keeper = keeper\<lparr>users_limit := Some 2\<rparr>"

abbreviation create_eve :: "admin \<Rightarrow> user result \<times> db" where
  "create_eve a \<equiv> create_user sample_env 7 3 (sample_db\<lparr>admins := [a]\<rparr>) sample_create (Some a) None"

lemma create_user_spec_witness:
  "(\<exists>u. fst (create_eve keeper) = Inr u \<and> users (snd (create_eve keeper)) = [ann, bob, u] \<and>
     username u = ''Eve'' \<and> admin_id u = Some 1 \<and> status u = Active) \<and>
   (\<exists>e. fst (create_eve full_keeper) = Inl e \<and> users (snd (create_eve full_keeper)) = [ann, bob])"
proof -
  have new: "(3 :: int) \<notin> uid ` set (users (sample_db\<lparr>admins := [a]\<rparr>))" for a by simp
  have "\<not> isl (fst (create_eve keeper))" by code_simp
  then obtain u where u: "fst (create_eve keeper) = Inr u" by (cases "fst (create_eve keeper)") simp_all
  have "isl (fst (create_eve full_keeper))" by code_simp
  then obtain e where e: "fst (create_eve full_keeper) = Inl e" by (cases "fst (create_eve full_keeper)") simp_all
  show ?thesis
    using create_user_spec [OF new surjective_pairing, of sample_env 7 keeper sample_create "Some keeper" None]
      create_user_spec [OF new surjective_pairing, of sample_env 7 full_keeper sample_create "Some full_keeper" None] u e
    by (simp add: sample_create_def keeper_def new_admin_def)
qed

text \<open>Names are unique, whatever their case: creating a user keeps the names of the users that are not
  deleted pairwise distinct.\<close>

theorem live_names_stay_distinct:
  assumes "i \<notin> uid ` set (users d)" and "distinct (live_names d)"
  shows "distinct (live_names (snd (create_user env now i d m a svc)))"
  using assms by (rule create_user_names)

lemma live_names_stay_distinct_witness:
  "distinct (live_names (snd (create_user sample_env 7 3 sample_db sample_create (Some keeper) None)))"
  by (rule live_names_stay_distinct) (simp, code_simp)

text \<open>A next plan: it clears the counters and activates the user, the total ever used is kept by the
  log entry, the plan is consumed and the rest renumbered, and the new limit is the plan's on top of
  the old limit, or the plan's with or without what was left.\<close>

theorem next_plan_applied:
  assumes "reset_user_by_next_obj now d u = (Inr True, u')" and "next_plans u = plan # rest"
  shows "used_traffic u' = 0 \<and> node_usages u' = [] \<and> status u' = Active \<and>
    lifetime_used_traffic u' = lifetime_used_traffic u \<and> length (next_plans u') = length rest \<and>
    data_limit u' = Some (if increase_data_limit plan then or_zero (data_limit u) + np_data_limit plan
      else np_data_limit plan +
        (if add_remaining_traffic plan then 0 else max (or_zero (data_limit u) - used_traffic u) 0))"
proof -
  have "data_limit u' = Some (plan_data_limit plan u)"
    using assms by (auto simp: reset_user_by_next_obj_def next_plan_of_def Let_def split: if_splits sum.splits)
  with reset_by_next_effect [OF assms(1)] assms(2) show ?thesis
    by (simp add: plan_data_limit_def Let_def)
qed

lemma next_plan_applied_witness:
  "\<exists>u'. reset_user_by_next_obj 7 sample_db (bob\<lparr>next_plans := [sample_plan]\<rparr>) = (Inr True, u') \<and>
     lifetime_used_traffic u' = 10 \<and> data_limit u' = Some 5"
proof -
  let ?u = "bob\<lparr>next_plans := [sample_plan]\<rparr>"
  obtain u' where r: "reset_user_by_next_obj 7 sample_db ?u = (Inr True, u')"
    by (simp add: reset_user_by_next_obj_def next_plan_of_def sample_plan_def Let_def)
  have "next_plans ?u = sample_plan # []" by simp
  from next_plan_applied [OF r this] r show ?thesis
    by (simp add: lifetime_used_traffic_def bob_def new_user_def sample_plan_def)
qed

text \<open>A reset of one user's traffic keeps the total ever used, empties the counters and drops every next
  plan; the user becomes active unless expired or disabled, and keeps limit and expiry.\<close>

theorem usage_reset_spec:
  assumes "reset_user_data_usage now d u = Inr (u', d')"
  shows "used_traffic u' = 0 \<and> node_usages u' = [] \<and> next_plans u' = [] \<and>
    lifetime_used_traffic u' = lifetime_used_traffic u \<and>
    status u' = (if status u \<in> {Expired, Disabled} then status u else Active) \<and>
    data_limit u' = data_limit u \<and> expire u' = expire u \<and> d' = save_user u' d"
  using assms reset_obj_effect [of now d u u'] by (auto simp: reset_user_data_usage_def then_res_Inr)

lemma usage_reset_spec_witness:
  "\<exists>u' d'. reset_user_data_usage 7 sample_db bob = Inr (u', d') \<and> lifetime_used_traffic u' = 10 \<and>
     used_traffic u' = 0 \<and> status u' = Active"
proof -
  obtain u' d' where r: "reset_user_data_usage 7 sample_db bob = Inr (u', d')"
    by (simp add: reset_user_data_usage_def reset_user_data_usage_obj_def Let_def)
  from usage_reset_spec [OF r] r show ?thesis
    by (auto simp: lifetime_used_traffic_def bob_def new_user_def)
qed

text \<open>C31. Revoking a subscription replaces every stored credential: afterwards each VMess and VLESS proxy
  holds the id of the new key, no Trojan or Shadowsocks proxy holds a password, the protocols are
  the same, and the new key is stored. The id that is stored is derived from the key; the comments of the
  function say that it is left out and derived at run time only.\<close>

theorem revoke_replaces_credentials:
  assumes "normalize_key (fresh_key env) = Inr (fresh_key env)"
    and "revoke_user_sub env now d u = Inr (u', d')"
  shows "credential_key u' = Some (fresh_key env) \<and> sub_revoked_at u' = Some now \<and>
    map ptype (proxies u') = map ptype (proxies u) \<and>
    (\<forall>x \<in> set (proxies u').
      (ptype x \<in> uuid_protocols \<longrightarrow> (\<exists>v. key_to_uuid_text (env_masks env) (ptype x) (fresh_key env) = Inr v \<and>
         setting_get (psettings x) ''id'' = SStr v)) \<and>
      (ptype x \<in> password_protocols \<longrightarrow> setting_get (psettings x) ''password'' = SNone)) \<and>
    d' = save_user u' d"
  using revoke_rotates [OF assms] by (simp add: rotated_def)

definition zoe :: user where
  "zoe = ann\<lparr>proxies := [\<lparr>ptype = VLESS, psettings = [(''id'', SStr ''old'')], pexcluded = []\<rparr>,
     \<lparr>ptype = Trojan, psettings = [(''password'', SStr ''old'')], pexcluded = []\<rparr>]\<rparr>"

abbreviation revoke_zoe :: "(user \<times> db) result" where
  "revoke_zoe \<equiv> revoke_user_sub sample_env 7 (sample_db\<lparr>users := [zoe]\<rparr>) zoe"

lemma revoke_replaces_credentials_witness:
  "\<exists>u' d' x y v. revoke_zoe = Inr (u', d') \<and> credential_key u' = Some sample_key \<and>
     proxies u' = [x, y] \<and> ptype x = VLESS \<and> ptype y = Trojan \<and>
     setting_get (psettings x) ''id'' = SStr v \<and> v \<noteq> ''old'' \<and>
     setting_get (psettings y) ''password'' = SNone"
proof -
  have "\<not> isl revoke_zoe" by code_simp
  then obtain u' d' where r: "revoke_zoe = Inr (u', d')" by (cases revoke_zoe) auto
  have "normalize_key (fresh_key sample_env) = Inr (fresh_key sample_env)"
    by (simp add: sample_masks sample_key_ok)
  note all = revoke_replaces_credentials [OF this r]
  have "map ptype (proxies u') = [VLESS, Trojan]" using all by (simp add: zoe_def)
  then obtain x y where xy: "proxies u' = [x, y]" "ptype x = VLESS" "ptype y = Trojan" by auto
  have "key_to_uuid_text (env_masks sample_env) VLESS sample_key \<noteq> Inr ''old''" by code_simp
  then have "\<exists>v. setting_get (psettings x) ''id'' = SStr v \<and> v \<noteq> ''old''"
    using all xy by (auto simp: sample_masks uuid_protocols_def)
  moreover have "setting_get (psettings y) ''password'' = SNone"
    using all xy by (simp add: password_protocols_def)
  moreover have "credential_key u' = Some sample_key" using all by (simp add: sample_masks)
  ultimately show ?thesis using r xy by blast
qed

text \<open>The retries of \<open>update_user_sub\<close>: while the row exists, the call succeeds exactly when one of the
  first three commits goes through and every commit before it failed because the record had
  changed; it then writes the two subscription columns on the row as that attempt found it.\<close>

theorem update_user_sub_retries:
  assumes "uid u \<noteq> 0" and "\<forall>n. fetch_user (uid u) (users (tables n)) \<noteq> None"
  shows "update_user_sub tables outcome now u agent = Inr (u', d') \<longleftrightarrow>
    (\<exists>n < 3. (\<forall>k < n. outcome k = Record_changed) \<and> outcome n = Commit_ok \<and>
       u' = (the (fetch_user (uid u) (users (tables n))))
         \<lparr>sub_updated_at := Some now, sub_last_user_agent := Some agent\<rparr> \<and>
       d' = save_user u' (tables n))"
  using update_sub_result [OF assms(2), of outcome now agent 0 3 u' d'] assms(1)
  by (simp add: update_user_sub_def touch_sub_def)

lemma update_user_sub_retries_witness:
  "\<exists>u' d'. update_user_sub (\<lambda>_. sample_db) (\<lambda>n. if n < 2 then Record_changed else Commit_ok) 7 ann ''v2''
     = Inr (u', d')"
proof -
  let ?u = "ann\<lparr>sub_updated_at := Some 7, sub_last_user_agent := Some ''v2''\<rparr>"
  have "uid ann \<noteq> 0" "\<forall>n :: nat. fetch_user (uid ann) (users ((\<lambda>_. sample_db) n)) \<noteq> None" by simp_all
  from update_user_sub_retries [OF this, of "\<lambda>n. if n < 2 then Record_changed else Commit_ok" 7 "''v2''"
      ?u "save_user ?u sample_db"]
  show ?thesis by (auto intro!: exI [of _ "2 :: nat"])
qed

section \<open>Bulk operations\<close>

text \<open>The cleanup of expired users never deletes anyone: whenever a user is a candidate the comparison of
  its time with the clock raises, and otherwise there is nothing to delete.\<close>

theorem autodelete_never_deletes:
  "autodelete_expired_users fails1 ensured fails2 now dflt include_limited d =
     (if \<exists>u \<in> set (users d). autodelete_candidate dflt include_limited u then Inl Type_error else Inr ([], d))"
proof (cases "filter (autodelete_candidate dflt include_limited) (users d)")
  case Nil
  then have "\<not> (\<exists>u \<in> set (users d). autodelete_candidate dflt include_limited u)"
    by (simp add: filter_empty_conv)
  with Nil show ?thesis by (simp add: autodelete_expired_users_def)
next
  case (Cons u us)
  then have "u \<in> set (filter (autodelete_candidate dflt include_limited) (users d))" by simp
  then have "\<exists>u \<in> set (users d). autodelete_candidate dflt include_limited u" by auto
  with Cons show ?thesis
    by (simp add: autodelete_expired_users_def autodelete_due_def split: option.split)
qed

text \<open>The bulk operations leave deleted users alone: the rows of the deleted users are the same before and
  after a bulk change of expiry, limits, service, status, or a disabling of all users.\<close>

theorem bulk_operations_skip_deleted:
  "filter (\<lambda>u. status u = Deleted) (users (snd (adjust_all_users_expire now delta a svc without scope d))) =
     filter (\<lambda>u. status u = Deleted) (users d) \<and>
   filter (\<lambda>u. status u = Deleted) (users (snd (adjust_all_users_limit now delta a svc without scope d))) =
     filter (\<lambda>u. status u = Deleted) (users d) \<and>
   filter (\<lambda>u. status u = Deleted) (users (snd (move_users_to_service target a svc without d))) =
     filter (\<lambda>u. status u = Deleted) (users d) \<and>
   filter (\<lambda>u. status u = Deleted) (users (snd (clear_users_service a svc without d))) =
     filter (\<lambda>u. status u = Deleted) (users d) \<and>
   filter (\<lambda>u. status u = Deleted) (users (disable_all_active_users now a d)) =
     filter (\<lambda>u. status u = Deleted) (users d)"
proof -
  have keep: "filter (\<lambda>u. status u = Deleted) (update_where sel f us) = filter (\<lambda>u. status u = Deleted) us"
    if "\<And>u. sel u \<Longrightarrow> status u \<noteq> Deleted \<and> status (f u) \<noteq> Deleted" for sel f us
    using that by (induction us) (auto simp: row_simps)
  have twice: "filter (\<lambda>u. status u = Deleted) (update_where sel f (update_where sel' f' us)) =
      filter (\<lambda>u. status u = Deleted) us"
    if "\<And>u. sel u \<Longrightarrow> status u \<noteq> Deleted \<and> status (f u) \<noteq> Deleted"
      "\<And>u. sel' u \<Longrightarrow> status u \<noteq> Deleted \<and> status (f' u) \<noteq> Deleted" for sel f sel' f' us
    using keep [of sel f] keep [of sel' f'] that by simp
  have expire: "shifted_expire_status now e u \<noteq> Deleted" if "status u \<noteq> Deleted" for e u
    using that by (simp add: shifted_expire_status_def)
  have limit: "adjusted_limit_status delta u \<noteq> Deleted" for u
    by (simp add: adjusted_limit_status_def)
  show ?thesis
    by (intro conjI)
      (auto simp: adjust_all_users_expire_def adjust_all_users_limit_def move_users_to_service_def
        clear_users_service_def disable_all_active_users_def bulk_query_def Let_def expire limit
        split: if_splits prod.splits intro!: keep twice)
qed

text \<open>Taking more from a data limit than there is lifts the limit: the user ends with limit zero, which
  means none, and active whatever it has used.\<close>

theorem overdrawn_limit_is_unlimited:
  assumes "distinct (map uid (users d))" and "u \<in> set (users d)" and "bulk_query a svc without u"
    and "status u = Active" and "data_limit u = Some l" and "0 < l" and "delta \<le> - l"
  shows "fetch_user (uid u) (users (snd (adjust_all_users_limit now delta a svc without None d))) =
    Some (u\<lparr>data_limit := Some 0\<rparr>)"
proof -
  have row: "fetch_user (uid u) (users d) = Some u" using user_table.fetch_member [OF assms(1,2)] .
  have "fetch_user k (update_where sel f us) =
      map_option (\<lambda>u. if sel u then f u else u) (fetch_user k us)"
    if "\<And>u. uid (f u) = uid u" for k sel f us
    using that by (induction us) (auto simp: row_simps)
  then show ?thesis using assms(3-7) row
    by (simp add: adjust_all_users_limit_def adjusted_limit_def adjusted_limit_status_def
        resolve_status_scope_def Let_def)
qed

lemma overdrawn_limit_is_unlimited_witness:
  "fetch_user 2 (users (snd (adjust_all_users_limit 7 (-20) None None False None sample_db))) =
     Some (bob\<lparr>data_limit := Some 0\<rparr>)"
  using overdrawn_limit_is_unlimited [of sample_db bob None None False 10 "-20" 7]
  by (simp add: bulk_query_def bob_def new_user_def)

section \<open>Credentials\<close>

text \<open>A key survives the way through its UUID: with usable masks every accepted key has a UUID for every
  protocol, and parsing the text of that UUID gives the key back in canonical form.\<close>

theorem key_round_trip:
  assumes "usable_masks masks" and "normalize_key k = Inr n"
  shows "\<exists>u. key_to_uuid masks k p = Inr u \<and> length u = 16 \<and> uuid_to_key masks (uuid_str u) p = Inr n"
  using key_to_uuid_defined [OF assms(2,1)] by metis

lemma key_round_trip_witness:
  "\<exists>u. key_to_uuid (\<lambda>_. Some (replicate 16 255)) (replicate 32 CHR ''A'') (Some VMess) = Inr u \<and>
     length u = 16 \<and> uuid_to_key (\<lambda>_. Some (replicate 16 255)) (uuid_str u) (Some VMess) = Inr sample_key"
  by (rule key_round_trip) (simp add: usable_masks_def, code_simp)

text \<open>C33. Deriving a key from stored proxies inverts storing them: if every proxy was serialized with the key
  \<open>k\<close>, the VMess and VLESS ids agree and give \<open>k\<close> in canonical form; without such a proxy there is
  no key to derive.\<close>

theorem derive_inverts_serialize:
  assumes "usable_masks masks" and "normalize_key k = Inr n"
    and "list_all2 (\<lambda>(p, s) (p', s'). p' = p \<and>
      serialize_proxy_settings masks fu fp s p (Some k) False ag = Inr s') ps ps'"
  shows "derive_key_from_proxies masks ps' =
    Inr (if \<exists>p \<in> fst ` set ps. p \<in> uuid_protocols then Some n else None)"
  unfolding derive_key_from_proxies_def
  using derive_key_agree [OF _ _ serialized_ids(1) [OF assms]] serialized_ids(2) [OF assms]
    uuid_codec.canon_text [OF assms(2)] by simp

lemma derive_inverts_serialize_witness:
  "\<exists>s1 s2. serialize_proxy_settings (\<lambda>_. None) ''u'' ''p'' [] VMess (Some sample_key) False True = Inr s1 \<and>
     serialize_proxy_settings (\<lambda>_. None) ''u'' ''p'' [] Trojan (Some sample_key) False True = Inr s2 \<and>
     derive_key_from_proxies (\<lambda>_. None) [(VMess, s1), (Trojan, s2)] = Inr (Some sample_key)"
proof -
  have m: "usable_masks (\<lambda>_. None)" by (simp add: usable_masks_def)
  obtain u where "key_to_uuid (\<lambda>_. None) sample_key (Some VMess) = Inr u"
    using key_to_uuid_defined [OF sample_key_ok m] by blast
  then obtain s1 where 1: "serialize_proxy_settings (\<lambda>_. None) ''u'' ''p'' [] VMess (Some sample_key) False True = Inr s1"
    by (simp add: serialize_proxy_settings_def uuid_protocols_def sample_key_def Let_def)
  obtain s2 where 2: "serialize_proxy_settings (\<lambda>_. None) ''u'' ''p'' [] Trojan (Some sample_key) False True = Inr s2"
    by (simp add: serialize_proxy_settings_def uuid_protocols_def sample_key_def Let_def)
  have "list_all2 (\<lambda>(p, s) (p', s'). p' = p \<and>
      serialize_proxy_settings (\<lambda>_. None) ''u'' ''p'' s p (Some sample_key) False True = Inr s')
      [(VMess, []), (Trojan, [])] [(VMess, s1), (Trojan, s2)]"
    using 1 2 by simp
  from derive_inverts_serialize [OF m sample_key_ok this] 1 2 show ?thesis
    by (simp add: uuid_protocols_def)
qed

text \<open>After a revocation the new key can be read back from the stored proxies, as soon as one of them is a
  VMess or VLESS proxy.\<close>

theorem revoked_key_recovered:
  assumes "usable_masks (env_masks env)" and "normalize_key (fresh_key env) = Inr (fresh_key env)"
    and "revoke_user_sub env now d u = Inr (u', d')"
  shows "derive_key_from_proxies (env_masks env) (map (\<lambda>x. (ptype x, psettings x)) (proxies u')) =
    Inr (if \<exists>x \<in> set (proxies u). ptype x \<in> uuid_protocols then Some (fresh_key env) else None)"
proof -
  have r: "map ptype (proxies u') = map ptype (proxies u)" "\<forall>x \<in> set (proxies u'). rotated env x"
    using revoke_rotates [OF assms(2,3)] by auto
  then have "ptype ` set (proxies u') = ptype ` set (proxies u)" by (metis list.set_map)
  then have "(\<exists>x \<in> set (proxies u'). ptype x \<in> uuid_protocols) \<longleftrightarrow>
      (\<exists>x \<in> set (proxies u). ptype x \<in> uuid_protocols)" by (metis (no_types, lifting) image_iff)
  with rotated_key [OF assms(1,2) r(2)] show ?thesis by simp
qed

lemma revoked_key_recovered_witness:
  "\<exists>u' d'. revoke_user_sub sample_env 7 sample_db ann = Inr (u', d') \<and>
     derive_key_from_proxies (env_masks sample_env) (map (\<lambda>x. (ptype x, psettings x)) (proxies u')) = Inr None"
proof -
  obtain u' d' where r: "revoke_user_sub sample_env 7 sample_db ann = Inr (u', d')"
    by (simp add: revoke_user_sub_def has_legacy_credentials_def has_static_credentials_def
        apply_key_to_existing_proxies_def sample_masks sample_key_ok ann_def new_user_def Let_def)
  have "normalize_key (fresh_key sample_env) = Inr (fresh_key sample_env)"
    by (simp add: sample_masks sample_key_ok)
  from revoked_key_recovered [OF sample_masks(1) this r] r show ?thesis
    by (simp add: ann_def new_user_def)
qed

end
