(* ===== verification/PendingUsage.thy ===== *)
theory PendingUsage
  imports Redis UsageJob
begin

text \<open>
  Usage on its way through Redis: the job that caches it, the backup files of
  \<open>app/redis/pending_backup.py\<close> and their restoration at a start, and the synchronisation with the
  tables in \<open>app/services/usage_service.py\<close> and \<open>app/jobs/sync_redis_to_db.py\<close>. The hourly snapshots
  that take the same way are left out. The outcomes of the transactions are parameters, as in
  \<open>UsageJob\<close>; the commits of the enforcement behind a batch are taken to succeed.
\<close>

named_theorems pending_simps "what the steps do to pending usage"

section \<open>Backups\<close>

text \<open>A file that is missing is the empty list. Entries with the id 0 are skipped.\<close>

record backups =
  bk_users :: "(int \<times> pending_entry) list"
  bk_admins :: "(int \<times> int) list"
  bk_services :: "(int \<times> int) list"

definition no_backups :: backups where
  "no_backups = \<lparr>bk_users = [], bk_admins = [], bk_services = []\<rparr>"

definition later :: "instant option \<Rightarrow> instant option \<Rightarrow> instant option" where
  "later old new = (case new of None \<Rightarrow> old
     | Some a \<Rightarrow> (case old of None \<Rightarrow> Some a | Some b \<Rightarrow> if a > b then Some a else Some b))"

definition merge_update :: "int \<times> pending_entry \<Rightarrow> (int \<times> pending_entry) list \<Rightarrow>
    (int \<times> pending_entry) list" where
  "merge_update e m = (case e of (i, v, t) \<Rightarrow>
     if i = 0 then m
     else (case map_of m i of None \<Rightarrow> m @ [(i, v, t)]
       | Some (v0, t0) \<Rightarrow> AList.update i (v0 + v, later t0 t) m))"

definition save_user_usage_backup :: "(int \<times> pending_entry) list \<Rightarrow> backups \<Rightarrow> backups" where
  "save_user_usage_backup updates bk = (if updates = [] then bk
     else bk\<lparr>bk_users := fold merge_update updates (fold merge_update (bk_users bk) [])\<rparr>)"

definition save_admin_usage_backup :: "(int \<times> int) list \<Rightarrow> backups \<Rightarrow> backups" where
  "save_admin_usage_backup updates bk =
     bk\<lparr>bk_admins := fold (\<lambda>(i, v). dict_add i v) updates (bk_admins bk)\<rparr>"

definition save_service_usage_backup :: "(int \<times> int) list \<Rightarrow> backups \<Rightarrow> backups" where
  "save_service_usage_backup updates bk =
     bk\<lparr>bk_services := fold (\<lambda>(i, v). dict_add i v) updates (bk_services bk)\<rparr>"

definition push_pending :: "int \<Rightarrow> 'v \<Rightarrow> (int \<times> 'v list) list \<Rightarrow> (int \<times> 'v list) list" where
  "push_pending i v d = AList.update i (v # (case map_of d i of None \<Rightarrow> [] | Some vs \<Rightarrow> vs)) d"

text \<open>\<open>restore_all_backups_to_redis\<close> for the three usage files; the files stay.\<close>

definition restore_update :: "int \<times> pending_entry \<Rightarrow> redis \<Rightarrow> redis" where
  "restore_update e r = (case e of (i, v, t) \<Rightarrow> if i = 0 then r else cache_user_usage_update i v t r)"

definition restore_usage_backups :: "backups \<Rightarrow> redis \<Rightarrow> redis" where
  "restore_usage_backups bk r =
     (let r1 = fold restore_update (bk_users bk) r;
          r2 = r1\<lparr>rd_admin_pending := fold (\<lambda>(i, v). push_pending i v) (bk_admins bk) (rd_admin_pending r1)\<rparr>
      in r2\<lparr>rd_service_pending := fold (\<lambda>(i, v). push_pending i v) (bk_services bk) (rd_service_pending r2)\<rparr>)"

section \<open>The usage job with Redis\<close>

definition cache_usage_updates :: "instant \<Rightarrow> (int \<times> int) list \<Rightarrow> usage_totals \<Rightarrow>
    redis option \<times> backups \<Rightarrow> redis option \<times> backups" where
  "cache_usage_updates now samples t s = (case s of (rd, bk) \<Rightarrow>
     (map_option (fold (\<lambda>(i, v). cache_user_usage_update i v (Some now)) samples) rd,
      save_service_usage_backup (service_usage t) (save_admin_usage_backup (admin_usage t)
        (save_user_usage_backup (map (\<lambda>(i, v). (i, v, Some now)) samples) bk))))"

text \<open>
  The part of \<open>record_user_usages\<close> behind the aggregation when Redis answers: cache, write through,
  clear. When writing raises, the pending usage stays.
\<close>

definition record_with_redis :: "bool \<Rightarrow> (nat \<Rightarrow> nat \<Rightarrow> exec_outcome) \<Rightarrow> (int \<Rightarrow> instant) \<Rightarrow> instant \<Rightarrow>
    (user \<Rightarrow> bool) \<Rightarrow> (int \<times> int) list \<Rightarrow> db \<times> redis option \<times> backups \<Rightarrow>
    db \<times> redis option \<times> backups" where
  "record_with_redis mysql outcome clock now notify samples s = (case s of (d, rd, bk) \<Rightarrow>
     (let t = collect_admin_service_usage samples (load_user_mapping d (map fst samples));
          (rd1, bk1) = cache_usage_updates now samples t (rd, bk)
      in case apply_usage_to_db mysql outcome clock now notify samples t d of
           (Inl e, d') \<Rightarrow> (d', rd1, bk1)
         | (Inr _, d') \<Rightarrow> (d', map_option (clear_user_pending_usage (map fst samples)) rd1, bk1)))"

section \<open>Pending usage to the tables\<close>

definition positive_updates :: "(int \<times> pending_entry) list \<Rightarrow> (int \<times> int) list" where
  "positive_updates batch = concat (map (\<lambda>(i, v, t). if v > 0 then [(i, v)] else []) batch)"

definition add_update :: "instant \<Rightarrow> int \<times> pending_entry \<Rightarrow> user list \<Rightarrow> user list" where
  "add_update now e us = (case e of (i, v, t) \<Rightarrow> if v > 0
     then update_where (\<lambda>u. uid u = i) (\<lambda>u. u\<lparr>used_traffic := used_traffic u + v,
            online_at := Some (case t of None \<Rightarrow> now | Some a \<Rightarrow> a)\<rparr>) us
     else us)"

definition write_batch :: "instant \<Rightarrow> (int \<times> pending_entry) list \<Rightarrow> db \<Rightarrow> db" where
  "write_batch now batch d =
     (let d1 = d\<lparr>users := fold (add_update now) batch (users d)\<rparr>
      in add_to_admins (admin_usage (collect_admin_service_usage (positive_updates batch)
           (load_user_mapping d1 (map fst batch)))) d1)"

text \<open>A deadlock is tried again, at most three times in all; anything else ends the run.\<close>

fun batch_attempts :: "(nat \<Rightarrow> exec_outcome) \<Rightarrow> nat \<Rightarrow> nat \<Rightarrow> bool" where
  "batch_attempts outcome tries 0 = False"
| "batch_attempts outcome tries (Suc left) =
     (if outcome tries = Exec_ok then True
      else if outcome tries = Deadlock \<and> left > 0 then batch_attempts outcome (Suc tries) left
      else False)"

definition refresh_cached :: "user \<Rightarrow> redis option \<Rightarrow> redis option" where
  "refresh_cached u rd = cache_user u True (invalidate_user_cache (Some (username u)) (Some (uid u)) rd)"

text \<open>
  \<open>_enforce_user_limits_after_sync\<close>: the rules of the usage job on the users of the batch in the order
  of their ids, then the caches of the users that changed.
\<close>

definition enforce_after_sync :: "(int \<Rightarrow> instant) \<Rightarrow> instant \<Rightarrow> (user \<Rightarrow> bool) \<Rightarrow> int list \<Rightarrow>
    db \<times> redis option \<Rightarrow> db \<times> redis option" where
  "enforce_after_sync clock now notify ids s = (case s of (d, rd) \<Rightarrow>
     (let ef = fold (enforce_one clock now notify)
             (sort_key uid (filter (\<lambda>u. uid u \<in> set ids) (users d))) (new_enforcement d d)
      in if ef_changed ef = [] \<and> ef_activated ef = [] then (ef_committed ef, rd)
         else let d' = ef_committed (ef_commit ef);
                  rows = ef_changed ef @ filter (\<lambda>i. i \<notin> set (ef_changed ef)) (ef_activated ef)
              in (d', fold (\<lambda>i. case fetch_user i (users d') of None \<Rightarrow> id | Some u \<Rightarrow> refresh_cached u)
                   rows rd)))"

fun chunks :: "nat \<Rightarrow> 'a list \<Rightarrow> 'a list list" where
  "chunks n xs = (if n = 0 \<or> xs = [] then [] else take n xs # chunks n (drop n xs))"

declare chunks.simps [simp del]

fun sync_batches :: "(nat \<Rightarrow> nat \<Rightarrow> exec_outcome) \<Rightarrow> (int \<Rightarrow> instant) \<Rightarrow> instant \<Rightarrow> (user \<Rightarrow> bool) \<Rightarrow>
    nat \<Rightarrow> (int \<times> pending_entry) list list \<Rightarrow> nat \<Rightarrow> db \<times> redis option \<Rightarrow>
    bool \<times> nat \<times> db \<times> redis option" where
  "sync_batches outcome clock now notify k [] n s = (True, n, s)"
| "sync_batches outcome clock now notify k (b # bs) n s =
     (if positive_updates b = [] then sync_batches outcome clock now notify (Suc k) bs n s
      else if \<not> batch_attempts (outcome k) 0 3 then (False, n, s)
      else sync_batches outcome clock now notify (Suc k) bs (n + length (positive_updates b))
        (enforce_after_sync clock now notify (map fst b) (write_batch now b (fst s), snd s)))"

text \<open>\<open>_sync_admin_usage_updates\<close> and \<open>_sync_service_usage_updates\<close>: what was taken is lost when the
  transaction fails.\<close>

definition pending_sums :: "(int \<times> int list) list \<Rightarrow> (int \<times> int) list" where
  "pending_sums d = map (\<lambda>(i, vs). (i, sum_list vs)) (filter (\<lambda>(i, vs). vs \<noteq> []) d)"

definition sync_admin_usage :: "bool \<Rightarrow> db \<times> redis \<Rightarrow> bool \<times> db \<times> redis" where
  "sync_admin_usage ok s = (case s of (d, r) \<Rightarrow>
     (let sums = pending_sums (rd_admin_pending r); r' = r\<lparr>rd_admin_pending := []\<rparr>
      in if sums = [] \<or> \<not> ok then (False, d, r') else (True, add_to_admins sums d, r')))"

definition sync_service_usage :: "bool \<Rightarrow> db \<times> redis \<Rightarrow> bool \<times> db \<times> redis" where
  "sync_service_usage ok s = (case s of (d, r) \<Rightarrow>
     (let sums = pending_sums (rd_service_pending r); r' = r\<lparr>rd_service_pending := []\<rparr>
      in if sums = [] \<or> \<not> ok then (False, d, r')
         else (True, d\<lparr>services := fold (\<lambda>(i, v). update_where (\<lambda>s. sid s = i)
             (\<lambda>s. s\<lparr>service_users_usage := service_users_usage s + v\<rparr>)) sums (services d)\<rparr>, r')))"

definition clear_pending_totals :: "int list \<Rightarrow> redis \<Rightarrow> redis" where
  "clear_pending_totals ids r = r\<lparr>rd_total := (rd_total r) |` (- set ids),
     rd_online := (rd_online r) |` (- set ids)\<rparr>"

text \<open>What follows the batches when all of them went through.\<close>

definition finish_sync :: "bool \<Rightarrow> bool \<Rightarrow> int list \<Rightarrow> nat \<Rightarrow> db \<times> redis \<times> backups \<Rightarrow>
    db \<times> redis option \<times> backups" where
  "finish_sync admin_ok service_ok ids n s = (case s of (d, r, bk) \<Rightarrow>
     (let bk1 = (if n > 0 then bk\<lparr>bk_users := []\<rparr> else bk);
          (a, d1, r1) = sync_admin_usage admin_ok (d, clear_pending_totals ids r);
          bk2 = (if a then bk1\<lparr>bk_admins := []\<rparr> else bk1);
          (b, d2, r2) = sync_service_usage service_ok (d1, r1)
      in (d2, Some r2, if b then bk2\<lparr>bk_services := []\<rparr> else bk2)))"

definition group_updates :: "(int \<times> pending_entry) list \<Rightarrow> (int \<times> pending_entry) list" where
  "group_updates ps = fold merge_update ps []"

definition sync_usage_updates_to_db :: "(nat \<Rightarrow> nat \<Rightarrow> exec_outcome) \<Rightarrow> bool \<Rightarrow> bool \<Rightarrow>
    (int \<Rightarrow> instant) \<Rightarrow> instant \<Rightarrow> (user \<Rightarrow> bool) \<Rightarrow> db \<times> redis option \<times> backups \<Rightarrow>
    db \<times> redis option \<times> backups" where
  "sync_usage_updates_to_db outcome admin_ok service_ok clock now notify s = (case s of (d, rd, bk) \<Rightarrow>
     (case rd of None \<Rightarrow> s
      | Some r \<Rightarrow>
         (case get_pending_usage_updates 10000 r of (ps, r1) \<Rightarrow>
            (let ups = group_updates ps
             in if ups = [] then (d, Some r1, bk)
                else (case sync_batches outcome clock now notify 0 (chunks 20 (sort_key fst ups)) 0 (d, Some r1) of
                   (True, n, d', Some r') \<Rightarrow> finish_sync admin_ok service_ok (map fst ups) n (d', r', bk)
                 | (_, n, d', rd') \<Rightarrow> (d', rd', bk))))))"

section \<open>Cached users to the tables\<close>

text \<open>
  \<open>sync_user_changes_to_db\<close>: a marked user's cached columns replace the row's. \<open>ok\<close> says for which
  users a transaction goes through within its three attempts; the others stay marked. The exception
  of setting \<open>lifetime_used_traffic\<close> is swallowed.
\<close>

definition write_back :: "instant \<Rightarrow> user \<Rightarrow> user \<Rightarrow> user" where
  "write_back now c u = u\<lparr>used_traffic := used_traffic c,
     online_at := (case online_at c of None \<Rightarrow> online_at u | Some t \<Rightarrow> Some t),
     sub_updated_at := (case sub_updated_at c of None \<Rightarrow> sub_updated_at u | Some t \<Rightarrow> Some t),
     last_status_change := (if status u \<noteq> status c then Some now else last_status_change u),
     status := status c, expire := expire c, data_limit := data_limit c\<rparr>"

definition sync_one_user :: "(int \<Rightarrow> bool) \<Rightarrow> instant \<Rightarrow> int \<Rightarrow> db \<times> redis \<Rightarrow> db \<times> redis" where
  "sync_one_user ok now i s = (case s of (d, r) \<Rightarrow>
     (case rd_sync_keys r i of None \<Rightarrow> (d, clear_user_sync_pending i r)
      | Some c \<Rightarrow> (case fetch_user i (users d) of None \<Rightarrow> (d, clear_user_sync_pending i r)
          | Some u \<Rightarrow> if ok i then (save_user (write_back now c u) d, clear_user_sync_pending i r)
              else (d, r))))"

definition sync_user_changes_to_db :: "(int \<Rightarrow> bool) \<Rightarrow> instant \<Rightarrow> db \<times> redis option \<Rightarrow> db \<times> redis option" where
  "sync_user_changes_to_db ok now s = (case s of (d, rd) \<Rightarrow>
     (case rd of None \<Rightarrow> (d, None)
      | Some r \<Rightarrow> (case fold (sync_one_user ok now) (rd_sync_set r) (d, r) of (d', r') \<Rightarrow> (d', Some r'))))"

text \<open>\<open>sync_all_to_db\<close>: first the usage, then the cached users.\<close>

definition sync_all_to_db :: "(nat \<Rightarrow> nat \<Rightarrow> exec_outcome) \<Rightarrow> bool \<Rightarrow> bool \<Rightarrow> (int \<Rightarrow> bool) \<Rightarrow>
    (int \<Rightarrow> instant) \<Rightarrow> instant \<Rightarrow> (user \<Rightarrow> bool) \<Rightarrow> db \<times> redis option \<times> backups \<Rightarrow>
    db \<times> redis option \<times> backups" where
  "sync_all_to_db outcome admin_ok service_ok ok clock now notify s =
     (case sync_usage_updates_to_db outcome admin_ok service_ok clock now notify s of
        (d, rd, bk) \<Rightarrow> (case sync_user_changes_to_db ok now (d, rd) of (d', rd') \<Rightarrow> (d', rd', bk)))"

end
