(* ===== verification/PendingUsageFacts.thy ===== *)
theory PendingUsageFacts
  imports PendingUsage UsageJobFacts "HOL-Library.Multiset"
begin

text \<open>
  Lemmas on pending usage: taking entries from Redis and grouping them keeps every user's sum, the rules
  of enforcement keep the total a user ever used, and a batch adds to each user what was pending.
\<close>

section \<open>Sums of updates\<close>

definition usage_of :: "int \<Rightarrow> (int \<times> pending_entry) list \<Rightarrow> int" where
  "usage_of i ps = sum_list (map (\<lambda>(k, v, t). if k = i then v else 0) ps)"

definition queued :: "int \<Rightarrow> (int \<times> pending_entry list) list \<Rightarrow> int" where
  "queued i d = sum_list (map (\<lambda>(k, es). if k = i then sum_list (map fst es) else 0) d)"

lemma usage_of_simps [pending_simps]: "usage_of i [] = 0"
  "usage_of i ((k, v, t) # ps) = (if k = i then v else 0) + usage_of i ps"
  "usage_of i (ps @ qs) = usage_of i ps + usage_of i qs"
  by (simp_all add: usage_of_def)

lemma queued_simps [pending_simps]: "queued i [] = 0"
  "queued i ((k, es) # d) = (if k = i then sum_list (map fst es) else 0) + queued i d"
  by (simp_all add: queued_def)

lemma usage_of_entries: "usage_of i (map (Pair k) es) = (if k = i then sum_list (map fst es) else 0)"
  by (induction es) (auto simp: usage_of_def)

lemma sum_list_split: "sum_list (take n xs) + sum_list (drop n xs) = (sum_list xs :: int)"
  by (metis append_take_drop_id sum_list_append)

lemma pop_conserves: "pop_pending n d = (ps, rest) \<Longrightarrow> usage_of i ps + queued i rest = queued i d"
proof (induction n d arbitrary: ps rest rule: pop_pending.induct)
  case (2 n k es d)
  let ?k = "min n (length es)"
  obtain qs q where p: "pop_pending (n - ?k) d = (qs, q)" by fastforce
  have ih: "usage_of i qs + queued i q = queued i d" using 2(1) [OF refl refl] p by simp
  have "rev (take ?k (rev es)) = drop (length es - ?k) es" by (simp add: take_rev)
  then have "sum_list (map fst (take ?k (rev es))) = sum_list (map fst (drop (length es - ?k) es))"
    by (metis rev_map sum_list_rev)
  then have "sum_list (map fst (take ?k (rev es))) + sum_list (map fst (take (length es - ?k) es)) =
      sum_list (map fst es)"
    using sum_list_split [of "length es - ?k" "map fst es"] by (simp add: take_map drop_map)
  then show ?case using 2(2) p ih
    by (auto simp: Let_def pending_simps usage_of_entries split: if_splits)
qed (simp add: pending_simps)

lemma pop_nonneg:
  assumes "pop_pending n d = (ps, rest)" "\<forall>p \<in> set d. \<forall>e \<in> set (snd p). fst e \<ge> 0"
  shows "\<forall>e \<in> set ps. fst (snd e) \<ge> 0"
  using assms
proof (induction n d arbitrary: ps rest rule: pop_pending.induct)
  case (2 n k es d)
  let ?k = "min n (length es)"
  obtain qs q where p: "pop_pending (n - ?k) d = (qs, q)" by fastforce
  then have "\<forall>e \<in> set qs. fst (snd e) \<ge> 0" using 2(1) [OF refl refl] 2(3) by simp
  moreover have "\<forall>e \<in> set (take ?k (rev es)). fst e \<ge> 0"
    using 2(3) by (auto dest!: in_set_takeD)
  moreover have "ps = map (Pair k) (take ?k (rev es)) @ qs" using 2(2) p by (simp add: Let_def)
  ultimately show ?case by auto
qed simp

section \<open>Grouping\<close>

lemma map_of_usage: "distinct (map fst m) \<Longrightarrow>
    usage_of i m = (case map_of m i of None \<Rightarrow> 0 | Some (v, t) \<Rightarrow> v)"
proof (induction m)
  case (Cons e m)
  obtain k v t where "e = (k, v, t)" by (metis prod_cases3)
  moreover have "map_of m i = None" if "k = i" using Cons.prems calculation that
    by (auto simp: map_of_eq_None_iff)
  ultimately show ?case using Cons by (auto simp: pending_simps)
qed (simp add: pending_simps)

lemma merge_update_keys:
  "distinct (map fst m) \<Longrightarrow> distinct (map fst (merge_update e m))"
  by (cases e) (auto simp: merge_update_def map_of_eq_None_iff distinct_update split: option.split)

lemma merge_update_usage:
  assumes "distinct (map fst m)"
  shows "usage_of i (merge_update (k, v, t) m) = usage_of i m + (if k = i \<and> k \<noteq> 0 then v else 0)"
proof (cases "map_of m k")
  case None
  then show ?thesis by (auto simp: merge_update_def pending_simps)
next
  case (Some p)
  then show ?thesis using assms merge_update_keys [OF assms, of "(k, v, t)"]
    by (cases p) (auto simp: map_of_usage merge_update_def update_conv' split: if_splits)
qed

lemma group_usage: "usage_of i (group_updates ps) = (if i = 0 then 0 else usage_of i ps)"
  and group_keys: "distinct (map fst (group_updates ps))"
  and group_nonzero: "0 \<notin> fst ` set (group_updates ps)"
proof -
  have *: "distinct (map fst (fold merge_update ps m)) \<and>
      usage_of i (fold merge_update ps m) = usage_of i m + (if i = 0 then 0 else usage_of i ps)"
    if "distinct (map fst m)" for m i
    using that
  proof (induction ps arbitrary: m)
    case (Cons e ps)
    then show ?case using merge_update_keys [of m e] merge_update_usage [of m i "fst e" "fst (snd e)" "snd (snd e)"]
      by (cases e) (auto simp: pending_simps)
  qed (simp add: pending_simps)
  show "usage_of i (group_updates ps) = (if i = 0 then 0 else usage_of i ps)" "distinct (map fst (group_updates ps))"
    using * [of "[]"] by (simp_all add: group_updates_def pending_simps)
  have "0 \<notin> fst ` set (fold merge_update ps m)" if "0 \<notin> fst ` set m" for m
    using that
  proof (induction ps arbitrary: m)
    case (Cons e ps)
    have "0 \<notin> fst ` set (merge_update e m)" using Cons.prems
      by (cases e) (auto simp: merge_update_def dom_update split: option.split)
    then show ?case using Cons.IH by simp
  qed simp
  then show "0 \<notin> fst ` set (group_updates ps)" by (simp add: group_updates_def)
qed

lemma set_update: "set (AList.update k q m) \<subseteq> insert (k, q) (set m)"
  by (induction m) auto

lemma merge_nonneg_one:
  assumes "fst (snd e) \<ge> (0 :: int)" "\<forall>x \<in> set m. fst (snd x) \<ge> 0"
  shows "\<forall>x \<in> set (merge_update e m). fst (snd x) \<ge> 0"
proof
  obtain k v t where e: "e = (k, v, t)" by (metis prod_cases3)
  fix x assume x: "x \<in> set (merge_update e m)"
  show "fst (snd x) \<ge> 0"
  proof (cases "map_of m k")
    case None
    then have "x \<in> set m \<or> x = e" using x by (auto simp: e merge_update_def split: if_splits)
    then show ?thesis using assms by blast
  next
    case (Some p)
    have "fst (snd (k, p)) \<ge> 0" using assms(2) map_of_SomeD [OF Some] by (rule bspec)
    then have p: "fst p + v \<ge> 0" using assms(1) e by simp
    have "x \<in> set m \<or> x = (k, fst p + v, later (snd p) t)"
      using x Some set_update [of k "(fst p + v, later (snd p) t)" m]
      by (cases p) (auto simp: e merge_update_def split: if_splits)
    then show ?thesis using assms(2) p by (elim disjE) simp_all
  qed
qed

lemma merge_nonneg: "\<forall>e \<in> set ps. fst (snd e) \<ge> 0 \<Longrightarrow> \<forall>e \<in> set m. fst (snd e) \<ge> 0 \<Longrightarrow>
    \<forall>e \<in> set (fold merge_update ps m). fst (snd e) \<ge> (0 :: int)"
proof (induction ps arbitrary: m)
  case (Cons e ps)
  then have "\<forall>x \<in> set (merge_update e m). fst (snd x) \<ge> 0" by (intro merge_nonneg_one) auto
  then show ?case using Cons by simp
qed simp

lemma group_nonneg: "\<forall>e \<in> set ps. fst (snd e) \<ge> 0 \<Longrightarrow> \<forall>e \<in> set (group_updates ps). fst (snd e) \<ge> 0"
  unfolding group_updates_def by (rule merge_nonneg) simp_all

lemma chunks_concat: "n > 0 \<Longrightarrow> concat (chunks n xs) = xs"
proof (induction n xs rule: chunks.induct)
  case (1 n xs)
  then show ?case by (subst chunks.simps) auto
qed

section \<open>Enforcement keeps what was ever used\<close>

definition life :: "user list \<Rightarrow> int \<Rightarrow> int option" where
  "life us i = map_option lifetime_used_traffic (fetch_user i us)"

text \<open>A user whose plan is applied without asking the quota, so that the application is not refused.\<close>

definition unrefused :: "user \<Rightarrow> bool" where
  "unrefused u \<longleftrightarrow> (next_plans u \<noteq> [] \<longrightarrow> status u = Active)"

text \<open>What a session may do to the rows: those of \<open>I\<close> keep their total, the others stay as they are.\<close>

definition kept :: "(int \<Rightarrow> int option) \<Rightarrow> (int \<Rightarrow> user option) \<Rightarrow> int set \<Rightarrow> int \<Rightarrow> user option \<Rightarrow> bool" where
  "kept L F I i x = (if i \<in> I then map_option lifetime_used_traffic x = L i else x = F i)"

definition session_kept :: "(int \<Rightarrow> user option \<Rightarrow> bool) \<Rightarrow> int list \<Rightarrow> enforcement \<Rightarrow> bool" where
  "session_kept Q ids ef \<longleftrightarrow> map uid (users (ef_view ef)) = ids \<and> map uid (users (ef_committed ef)) = ids \<and>
     (\<forall>i. Q i (fetch_user i (users (ef_view ef)))) \<and> (\<forall>i. Q i (fetch_user i (users (ef_committed ef)))) \<and>
     (\<forall>w \<in> set (ef_pending ef). Q (uid w) (Some w))"

lemma kept_fold_store:
  assumes "\<forall>i. Q i (fetch_user i us)" "\<forall>w \<in> set ws. Q (uid w) (Some w)"
  shows "Q i (fetch_user i (fold store_user ws us))"
  using assms
proof (induction ws arbitrary: us)
  case (Cons w ws)
  have "Q i (fetch_user i (store_user w us))" for i
    using Cons.prems by (simp add: user_table.fetch_store)
  then show ?case using Cons by simp
qed simp

lemma session_commit: "session_kept Q ids ef \<Longrightarrow> session_kept Q ids (ef_commit ef)"
  using kept_fold_store [of Q "users (ef_view ef)" "ef_pending ef"]
  by (simp add: session_kept_def ef_commit_def Let_def user_table.fold_store_keys)

lemma session_append:
  "session_kept Q ids ef \<Longrightarrow> Q (uid w) (Some w) \<Longrightarrow> session_kept Q ids (ef\<lparr>ef_pending := ef_pending ef @ [w]\<rparr>)"
  by (auto simp: session_kept_def)

lemma session_target:
  assumes "session_kept Q ids ef" "Q (uid u) (Some u)"
    "\<And>st t. Q (uid u) (Some (u\<lparr>status := st, last_status_change := t\<rparr>))"
  shows "session_kept Q ids (set_target_status now l x u ef)"
  using assms by (auto simp: set_target_status_def session_kept_def split: option.split)

lemma reset_next_life:
  assumes "reset_user_by_next_obj now d u = (r, u')" "unrefused u"
  shows "uid u' = uid u \<and> lifetime_used_traffic u' = lifetime_used_traffic u"
  using assms by (auto simp: reset_user_by_next_obj_def next_plan_of_def unrefused_def Let_def
      lifetime_used_traffic_def split: list.splits if_splits sum.splits)

lemma session_limits:
  assumes s: "session_kept (kept L F I) ids ef" and u: "uid u \<in> I" "L (uid u) = Some (lifetime_used_traffic u)"
    "unrefused u"
  shows "session_kept (kept L F I) ids (enforce_limits now_dt now notify u ef)"
proof -
  have q: "kept L F I (uid v) (Some v)" "kept L F I (uid v) (Some (v\<lparr>status := st, last_status_change := t\<rparr>))"
    if "uid v = uid u" "lifetime_used_traffic v = lifetime_used_traffic u" for v st t
    using that u by (auto simp: kept_def lifetime_used_traffic_def)
  obtain r u' where r: "reset_user_by_next_obj now_dt (ef_view ef) u = (r, u')" by fastforce
  note v = reset_next_life [OF r u(3)]
  have c: "session_kept (kept L F I) ids (ef_commit (ef\<lparr>ef_pending := ef_pending ef @ [u']\<rparr>))"
    using v q by (intro session_commit session_append s) auto
  show ?thesis using v q
    by (auto simp: enforce_limits_def Let_def r split: sum.split option.split
        intro!: session_target session_append s c)
qed

lemma session_one:
  assumes "session_kept (kept L F I) ids ef" "uid u \<in> I" "L (uid u) = Some (lifetime_used_traffic u)" "unrefused u"
  shows "session_kept (kept L F I) ids (enforce_one clock now notify u ef)"
proof -
  have "session_kept (kept L F I) ids (ef\<lparr>ef_activated := as\<rparr>)" for as
    using assms(1) by (simp add: session_kept_def)
  moreover have "uid (apply_on_hold_activation t u) = uid u" "unrefused (apply_on_hold_activation t u)"
    "lifetime_used_traffic (apply_on_hold_activation t u) = lifetime_used_traffic u" for t
    by (simp_all add: apply_on_hold_activation_def unrefused_def lifetime_used_traffic_def)
  ultimately show ?thesis using assms by (auto simp: enforce_one_def intro!: session_limits)
qed

lemma refresh_pending: "\<exists>r'. refresh_cached u (Some r) = Some r' \<and> rd_pending r' = rd_pending r"
  by (auto simp: refresh_cached_def cache_user_def invalidate_user_cache_def Let_def split: option.split)

lemma refresh_rows_pending:
  "\<exists>r'. fold (\<lambda>i. case fetch_user i us of None \<Rightarrow> id | Some u \<Rightarrow> refresh_cached u) rows (Some r) = Some r' \<and>
     rd_pending r' = rd_pending r"
proof (induction rows arbitrary: r)
  case (Cons i rows)
  obtain r1 where "(case fetch_user i us of None \<Rightarrow> id | Some u \<Rightarrow> refresh_cached u) (Some r) = Some r1"
    "rd_pending r1 = rd_pending r"
    using refresh_pending by (cases "fetch_user i us") auto
  then show ?case using Cons [of r1] by simp
qed simp

lemma enforce_after_sync_kept:
  assumes "distinct (map uid (users d))" and "\<forall>u \<in> set (users d). uid u \<in> set ids \<longrightarrow> unrefused u"
    and "enforce_after_sync clock now notify ids (d, Some r) = (d', rd')"
  shows "map uid (users d') = map uid (users d)" "life (users d') i = life (users d) i"
    "i \<notin> set ids \<Longrightarrow> fetch_user i (users d') = fetch_user i (users d)"
    "\<exists>r'. rd' = Some r' \<and> rd_pending r' = rd_pending r"
proof -
  let ?Q = "kept (life (users d)) (\<lambda>i. fetch_user i (users d)) (set ids)"
  let ?us = "sort_key uid (filter (\<lambda>u. uid u \<in> set ids) (users d))"
  let ?ef = "fold (enforce_one clock now notify) ?us (new_enforcement d d)"
  have fold: "session_kept ?Q (map uid (users d)) (fold (enforce_one clock now notify) us ef)"
    if "session_kept ?Q (map uid (users d)) ef" "set us \<subseteq> set ?us" for us ef
    using that
  proof (induction us arbitrary: ef)
    case (Cons u us)
    then have "u \<in> set (users d)" "uid u \<in> set ids" by auto
    moreover from this have "life (users d) (uid u) = Some (lifetime_used_traffic u)"
      using user_table.fetch_member [OF assms(1)] by (simp add: life_def)
    ultimately have "session_kept ?Q (map uid (users d)) (enforce_one clock now notify u ef)"
      using Cons.prems(1) assms(2) by (intro session_one) blast+
    then show ?case using Cons by simp
  qed simp
  have "session_kept ?Q (map uid (users d)) (new_enforcement d d)"
    by (simp add: session_kept_def new_enforcement_def kept_def life_def)
  then have s: "session_kept ?Q (map uid (users d)) ?ef" using fold by blast
  have "d' = ef_committed ?ef \<or> d' = ef_committed (ef_commit ?ef)"
    using assms(3) by (auto simp: enforce_after_sync_def Let_def split: if_splits)
  then have k: "map uid (users d') = map uid (users d) \<and> (\<forall>i. ?Q i (fetch_user i (users d')))"
    using s session_commit [OF s] by (auto simp: session_kept_def)
  then show "map uid (users d') = map uid (users d)" by blast
  from k have q: "?Q i (fetch_user i (users d'))" by blast
  show "life (users d') i = life (users d) i" using q by (auto simp: kept_def life_def split: if_splits)
  show "i \<notin> set ids \<Longrightarrow> fetch_user i (users d') = fetch_user i (users d)" using q by (simp add: kept_def)
  show "\<exists>r'. rd' = Some r' \<and> rd_pending r' = rd_pending r"
    using assms(3) refresh_rows_pending [of _ _ r]
    by (auto simp: enforce_after_sync_def Let_def simp del: fold_append split: if_splits)
qed

section \<open>Batches\<close>

lemma fetch_update_where: "(\<And>u. uid (upd u) = uid u) \<Longrightarrow>
    fetch_user i (update_where (\<lambda>u. uid u = k) upd us) =
      map_option (\<lambda>u. if k = i then upd u else u) (fetch_user i us)"
  by (induction us) (auto simp: row_simps)

lemma add_update_row:
  "fetch_user i (add_update now (k, v, t) us) = map_option (\<lambda>u. if k = i \<and> v > 0
     then u\<lparr>used_traffic := used_traffic u + v, online_at := Some (case t of None \<Rightarrow> now | Some a \<Rightarrow> a)\<rparr> else u)
   (fetch_user i us)"
  by (simp add: add_update_def fetch_update_where option.map_ident)

lemma add_update_keys: "map uid (add_update now e us) = map uid us"
  by (cases e) (simp add: add_update_def row_simps)

lemma add_updates_row:
  assumes "\<forall>e \<in> set batch. fst (snd e) \<ge> 0"
  shows "life (fold (add_update now) batch us) i = map_option (\<lambda>x. x + usage_of i batch) (life us i)"
    "map_option (\<lambda>u. (status u, next_plans u)) (fetch_user i (fold (add_update now) batch us)) =
      map_option (\<lambda>u. (status u, next_plans u)) (fetch_user i us)"
    "map uid (fold (add_update now) batch us) = map uid us"
    "i \<notin> fst ` set batch \<Longrightarrow> fetch_user i (fold (add_update now) batch us) = fetch_user i us"
  using assms
proof (induction batch arbitrary: us)
  case (Cons e batch)
  obtain k v t where e: "e = (k, v, t)" by (metis prod_cases3)
  {
    case 1
    have "life (add_update now e us) i = map_option (\<lambda>x. x + (if k = i then v else 0)) (life us i)"
      using 1 e by (auto simp: life_def add_update_row lifetime_used_traffic_def option.map_comp comp_def
          intro!: option.map_cong0)
    then show ?case using Cons.IH(1) [of "add_update now e us"] 1 e
      by (auto simp: pending_simps option.map_comp comp_def intro!: option.map_cong0)
  next
    case 2
    then show ?case using Cons.IH(2) [of "add_update now e us"] e
      by (auto simp: add_update_row option.map_comp comp_def intro!: option.map_cong0)
  next
    case 3
    then show ?case using Cons.IH(3) by (simp add: add_update_keys)
  next
    case 4
    then show ?case using Cons.IH(4) [of "add_update now e us"] e
      by (simp add: add_update_row option.map_ident)
  }
qed (simp_all add: pending_simps option.map_ident)

lemma users_add_to_admins [simp]: "users (add_to_admins t d) = users d"
  by (simp add: add_to_admins_def)

lemma users_write_batch: "users (write_batch now b d) = fold (add_update now) b (users d)"
  by (simp add: write_batch_def Let_def)

lemma unrefused_of: "map_option (\<lambda>u. (status u, next_plans u)) x = map_option (\<lambda>u. (status u, next_plans u)) y \<Longrightarrow>
    (\<forall>u. x = Some u \<longrightarrow> unrefused u) = (\<forall>u. y = Some u \<longrightarrow> unrefused u)"
  by (cases x; cases y) (auto simp: unrefused_def)

lemma rows_by_key: "distinct (map uid us) \<Longrightarrow>
    (\<forall>u \<in> set us. uid u \<in> I \<longrightarrow> P u) \<longleftrightarrow> (\<forall>i \<in> I. \<forall>u. fetch_user i us = Some u \<longrightarrow> P u)"
  by (metis user_table.fetch_key user_table.fetch_member)

lemma no_positive: "positive_updates b = [] \<Longrightarrow> \<forall>e \<in> set b. fst (snd e) \<ge> 0 \<Longrightarrow> usage_of i b = 0"
proof (induction b)
  case (Cons e b)
  then show ?case by (cases e) (auto simp: positive_updates_def pending_simps split: if_splits)
qed (simp add: pending_simps)

lemma sync_batches_adds:
  assumes "distinct (map uid (users d))" and "distinct (map fst (concat bs))"
    and "\<forall>e \<in> set (concat bs). fst (snd e) \<ge> 0"
    and "\<forall>k. batch_attempts (outcome k) 0 3"
    and "\<forall>i \<in> fst ` set (concat bs). \<forall>u. fetch_user i (users d) = Some u \<longrightarrow> unrefused u"
  shows "\<exists>n' d' r'. sync_batches outcome clock now notify k bs n (d, Some r) = (True, n', d', Some r') \<and>
    map uid (users d') = map uid (users d) \<and> rd_pending r' = rd_pending r \<and>
    (\<forall>i. life (users d') i = map_option (\<lambda>x. x + usage_of i (concat bs)) (life (users d) i))"
  using assms
proof (induction bs arbitrary: k n d r)
  case (Cons b bs)
  show ?case
  proof (cases "positive_updates b = []")
    case True
    then have "sync_batches outcome clock now notify k (b # bs) n (d, Some r) =
        sync_batches outcome clock now notify (Suc k) bs n (d, Some r)" by simp
    moreover have "usage_of i (concat (b # bs)) = usage_of i (concat bs)" for i
      using no_positive [OF True] Cons.prems(3) by (simp add: pending_simps)
    moreover have "distinct (map fst (concat bs))" "\<forall>e \<in> set (concat bs). fst (snd e) \<ge> 0"
      "\<forall>i \<in> fst ` set (concat bs). \<forall>u. fetch_user i (users d) = Some u \<longrightarrow> unrefused u"
      using Cons.prems(2,3,5) by (simp_all add: ball_Un)
    ultimately show ?thesis using Cons.IH [of d "Suc k" n r] Cons.prems(1,4) by presburger
  next
    case False
    let ?d = "write_batch now b d"
    obtain d1 rd1 where e: "enforce_after_sync clock now notify (map fst b) (?d, Some r) = (d1, rd1)" by fastforce
    note w = add_updates_row [where batch = b and now = now and us = "users d", folded users_write_batch]
    have nb: "\<forall>e \<in> set b. fst (snd e) \<ge> 0" using Cons.prems(3) by simp
    have ids: "map uid (users ?d) = map uid (users d)" using w(3) nb by blast
    have un: "\<forall>u \<in> set (users ?d). uid u \<in> set (map fst b) \<longrightarrow> unrefused u"
    proof -
      have "\<forall>i \<in> set (map fst b). \<forall>u. fetch_user i (users ?d) = Some u \<longrightarrow> unrefused u"
        using Cons.prems(5) unrefused_of [OF w(2)] nb by auto
      then show ?thesis using rows_by_key [of "users ?d" "set (map fst b)" unrefused] ids Cons.prems(1) by metis
    qed
    have dis: "distinct (map uid (users ?d))" using ids Cons.prems(1) by simp
    note f = enforce_after_sync_kept [OF dis un e]
    obtain r1 where r1: "rd1 = Some r1" "rd_pending r1 = rd_pending r" using f(4) by blast
    have keep: "fetch_user i (users d1) = fetch_user i (users d)" if "i \<in> fst ` set (concat bs)" for i
    proof -
      have "i \<notin> fst ` set b" using that Cons.prems(2) by auto
      then show ?thesis using f(3) w(4) nb by simp
    qed
    have l: "life (users d1) i = map_option (\<lambda>x. x + usage_of i b) (life (users d) i)" for i
      using f(2) w(1) nb by simp
    have "distinct (map uid (users d1))" using f(1) dis by simp
    moreover have "\<forall>i \<in> fst ` set (concat bs). \<forall>u. fetch_user i (users d1) = Some u \<longrightarrow> unrefused u"
      using keep Cons.prems(5) by (simp add: ball_Un)
    moreover have "distinct (map fst (concat bs))" "\<forall>e \<in> set (concat bs). fst (snd e) \<ge> 0"
      using Cons.prems(2,3) by simp_all
    ultimately obtain n' d' r' where g: "sync_batches outcome clock now notify (Suc k) bs (n + length (positive_updates b)) (d1, Some r1) =
        (True, n', d', Some r')" "map uid (users d') = map uid (users d1)" "rd_pending r' = rd_pending r1"
      "\<forall>i. life (users d') i = map_option (\<lambda>x. x + usage_of i (concat bs)) (life (users d1) i)"
      using Cons.IH [of d1 "Suc k" "n + length (positive_updates b)" r1] Cons.prems(4) by blast
    have "\<forall>i. life (users d') i = map_option (\<lambda>x. x + usage_of i (concat (b # bs))) (life (users d) i)"
      using g(4) l by (simp add: pending_simps option.map_comp comp_def add.assoc)
    moreover have "sync_batches outcome clock now notify k (b # bs) n (d, Some r) = (True, n', d', Some r')"
      using False Cons.prems(4) e r1(1) g(1) by simp
    moreover have "map uid (users d') = map uid (users d)" "rd_pending r' = rd_pending r"
      using g(2,3) f(1) ids r1(2) by simp_all
    ultimately show ?thesis by blast
  qed
qed (simp add: pending_simps option.map_ident)

section \<open>A run of the synchronisation\<close>

lemma users_sync_admin: "sync_admin_usage ok (d, r) = (b, d', r') \<Longrightarrow> users d' = users d \<and> rd_pending r' = rd_pending r"
  by (auto simp: sync_admin_usage_def Let_def split: if_splits)

lemma users_sync_service: "sync_service_usage ok (d, r) = (b, d', r') \<Longrightarrow>
    users d' = users d \<and> rd_pending r' = rd_pending r"
  by (auto simp: sync_service_usage_def Let_def split: if_splits)

lemma finish_sync_users: "finish_sync aok sok ids n (d, r, bk) = (d', rd', bk') \<Longrightarrow>
    users d' = users d \<and> (\<exists>r'. rd' = Some r' \<and> rd_pending r' = rd_pending r)"
  by (auto simp: finish_sync_def Let_def clear_pending_totals_def split: prod.splits
      dest!: users_sync_admin users_sync_service)

lemma sync_adds_popped:
  assumes "distinct (map uid (users d))" and "\<forall>p \<in> set (rd_pending r). \<forall>e \<in> set (snd p). fst e \<ge> 0"
    and "\<forall>k. batch_attempts (outcome k) 0 3" and "\<forall>u \<in> set (users d). unrefused u"
    and "sync_usage_updates_to_db outcome aok sok clock now notify (d, Some r, bk) = (d', rd', bk')"
  shows "\<exists>r'. rd' = Some r' \<and> (i \<noteq> 0 \<longrightarrow> life (users d') i =
    map_option (\<lambda>x. x + (queued i (rd_pending r) - queued i (rd_pending r'))) (life (users d) i))"
proof -
  obtain ps rest where p: "pop_pending 10000 (rd_pending r) = (ps, rest)" by fastforce
  let ?r1 = "r\<lparr>rd_pending := rest\<rparr>" and ?ups = "group_updates ps"
  have g: "get_pending_usage_updates 10000 r = (ps, ?r1)" by (simp add: get_pending_usage_updates_def p)
  have q: "queued i (rd_pending r) - queued i rest = usage_of i ps" using pop_conserves [OF p, of i] by simp
  have nn: "\<forall>e \<in> set ?ups. fst (snd e) \<ge> 0" by (rule group_nonneg [OF pop_nonneg [OF p assms(2)]])
  show ?thesis
  proof (cases "?ups = []")
    case True
    then have "i \<noteq> 0 \<Longrightarrow> usage_of i ps = 0" using group_usage [of i ps] by (simp add: pending_simps)
    then show ?thesis using True assms(5) g q
      by (auto simp: sync_usage_updates_to_db_def Let_def option.map_ident)
  next
    case False
    let ?bs = "chunks 20 (sort_key fst ?ups)"
    have c: "concat ?bs = sort_key fst ?ups" by (simp add: chunks_concat)
    have "distinct (map fst (concat ?bs))" using group_keys [of ps] by (simp add: c distinct_map)
    moreover have "\<forall>e \<in> set (concat ?bs). fst (snd e) \<ge> 0" using nn by (simp add: c)
    moreover have "\<forall>i \<in> fst ` set (concat ?bs). \<forall>u. fetch_user i (users d) = Some u \<longrightarrow> unrefused u"
      using assms(4) user_table.fetch_key by blast
    ultimately obtain n' d2 r2 where b: "sync_batches outcome clock now notify 0 ?bs 0 (d, Some ?r1) = (True, n', d2, Some r2)"
      "rd_pending r2 = rest" "\<forall>i. life (users d2) i = map_option (\<lambda>x. x + usage_of i (concat ?bs)) (life (users d) i)"
      using sync_batches_adds [OF assms(1) _ _ assms(3), of ?bs clock now notify 0 0 ?r1] by auto
    have u: "usage_of i (concat ?bs) = usage_of i ?ups" unfolding c usage_of_def
      by (metis (no_types) mset_map mset_sort sum_mset_sum_list)
    have "finish_sync aok sok (map fst ?ups) n' (d2, r2, bk) = (d', rd', bk')"
      using assms(5) False g b(1) by (simp add: sync_usage_updates_to_db_def Let_def)
    from finish_sync_users [OF this] obtain r' where "users d' = users d2" "rd' = Some r'" "rd_pending r' = rest"
      using b(2) by auto
    then show ?thesis using b(3) u group_usage [of i ps] q by auto
  qed
qed

section \<open>Backups that outlive their usage\<close>

lemma nothing_pending: "rd_pending r = [] \<Longrightarrow>
    sync_usage_updates_to_db outcome aok sok clock now notify (d, Some r, bk) = (d, Some (r\<lparr>rd_pending := []\<rparr>), bk)"
  by (simp add: sync_usage_updates_to_db_def get_pending_usage_updates_def group_updates_def)

lemma cached_updates: "rd_pending (fold (\<lambda>(i, v). cache_user_usage_update i v t) samples r) =
    fold (\<lambda>(i, v) d. push_pending i (v, t) d) samples (rd_pending r)"
  by (induction samples arbitrary: r)
    (auto simp: cache_user_usage_update_def push_pending_def pending_of_def)

lemma push_key: "fst ` set (push_pending i e d) = insert i (fst ` set d)"
  by (simp add: push_pending_def dom_update)

lemma push_keys: "fst ` set (fold (\<lambda>(i, v) d. push_pending i (v, t) d) samples d) =
    fst ` set d \<union> fst ` set samples"
  by (induction samples arbitrary: d) (simp_all add: push_key case_prod_beta)

lemma queued_push: "distinct (map fst d) \<Longrightarrow>
    queued i (push_pending k e d) = queued i d + (if k = i then fst e else 0) \<and> distinct (map fst (push_pending k e d))"
proof -
  have "queued i d = (case map_of d i of None \<Rightarrow> 0 | Some es \<Rightarrow> sum_list (map fst es))" if "distinct (map fst d)"
    for d :: "(int \<times> pending_entry list) list"
    using that
  proof (induction d)
    case (Cons p d)
    moreover have "map_of d i = None" if "fst p = i" using Cons.prems that by (auto simp: map_of_eq_None_iff)
    ultimately show ?case by (cases p) (auto simp: pending_simps)
  qed (simp add: pending_simps)
  then show "distinct (map fst d) \<Longrightarrow> queued i (push_pending k e d) = queued i d + (if k = i then fst e else 0) \<and>
      distinct (map fst (push_pending k e d))"
    by (auto simp: push_pending_def distinct_update update_conv' split: option.split)
qed

lemma restored_pending:
  assumes "distinct (map fst (rd_pending r))"
  shows "queued i (rd_pending (fold restore_update es r)) =
      queued i (rd_pending r) + (if i = 0 then 0 else usage_of i es) \<and>
    distinct (map fst (rd_pending (fold restore_update es r)))"
  using assms
proof (induction es arbitrary: r)
  case (Cons e es)
  obtain k v t where e: "e = (k, v, t)" by (metis prod_cases3)
  have "rd_pending (restore_update e r) = (if k = 0 then rd_pending r else push_pending k (v, t) (rd_pending r))"
    by (simp add: e restore_update_def cache_user_usage_update_def push_pending_def pending_of_def)
  then show ?case using Cons.IH [of "restore_update e r"] Cons.prems queued_push [of "rd_pending r" i k "(v, t)"] e
    by (auto simp: pending_simps)
qed (simp add: pending_simps)

lemma restore_pending_eq: "rd_pending (restore_usage_backups bk r) = rd_pending (fold restore_update (bk_users bk) r)"
  by (simp add: restore_usage_backups_def Let_def)

section \<open>Stale cached users\<close>

lemma users_sync_one: "fetch_user i (users (fst (sync_one_user ok now k (d, r)))) =
    (case rd_sync_keys r k of None \<Rightarrow> fetch_user i (users d)
     | Some c \<Rightarrow> if i = k \<and> ok k then map_option (write_back now c) (fetch_user i (users d)) else fetch_user i (users d))"
proof -
  have "fetch_user k (users d) = Some u \<Longrightarrow> uid (write_back now c u) = k" for u c
    by (auto simp: write_back_def dest: user_table.fetch_key)
  then show ?thesis
    by (auto simp: sync_one_user_def user_table.fetch_store split: option.split)
qed

lemma sync_one_keys: "j \<noteq> k \<Longrightarrow> rd_sync_keys (snd (sync_one_user ok now k (d, r))) j = rd_sync_keys r j"
  by (auto simp: sync_one_user_def clear_user_sync_pending_def split: option.split)

lemma sync_changes_row:
  assumes "distinct ks" "rd_sync_keys r i = Some c"
  shows "fetch_user i (users (fst (fold (sync_one_user ok now) ks (d, r)))) =
    (if i \<in> set ks \<and> ok i then map_option (write_back now c) (fetch_user i (users d)) else fetch_user i (users d))"
  using assms
proof (induction ks arbitrary: d r)
  case (Cons k ks)
  obtain d1 r1 where s: "sync_one_user ok now k (d, r) = (d1, r1)" by fastforce
  have other: "fetch_user i (users (fst (fold (sync_one_user ok now) ks (d1, r1)))) = fetch_user i (users d1)"
    if "i \<notin> set ks" for d1 r1
    using that
  proof (induction ks arbitrary: d1 r1)
    case (Cons k ks)
    obtain d2 r2 where "sync_one_user ok now k (d1, r1) = (d2, r2)" by fastforce
    then show ?case using Cons users_sync_one [of i ok now k d1 r1] by (auto split: option.splits)
  qed simp
  show ?case
  proof (cases "k = i")
    case True
    then show ?thesis using Cons.prems s other [of d1 r1] users_sync_one [of i ok now k d r] by simp
  next
    case False
    then show ?thesis using Cons.prems Cons.IH [of r1 d1] s users_sync_one [of i ok now k d r]
        sync_one_keys [of i k ok now d r] by (auto split: option.splits)
  qed
qed simp

end
