(* ===== verification/JobProperties.thy ===== *)
theory JobProperties
  imports Samples PendingUsageFacts
begin

text \<open>The properties of the periodic jobs: the review and the traffic reset.\<close>

text \<open>
  The properties of usage and users on their way through Redis: what the synchronisation conserves, and
  where the same usage is counted twice or written over.
\<close>

section \<open>The periodic jobs\<close>

text \<open>A run of the review half over the active users that raises nothing and is not cut short moves every
  user of its batch that has no next plan: to limited over the data limit, else to expired past the
  expiry, else it stays active.\<close>

theorem review_moves_batch:
  assumes "wf_db d"
    and "review_half env (review_active env) Active stored d = (None, i, d')"
    and "u \<in> set (batch_users_by_status env d Active (if rv_redis env then stored else None))"
    and "next_plans u = []"
    and "\<forall>v \<in> set (batch_users_by_status env d Active (if rv_redis env then stored else None)).
      \<not> rv_late env (uid v)"
  shows "\<exists>v. fetch_user (uid u) (users d') = Some v \<and>
    status v = (if is_user_limited env u then Limited else if over_time (rv_now env) u then Expired else Active)"
  using active_half_moves(1) [OF assms] by (simp add: review_target_def)

lemma review_moves_batch_witness:
  "\<exists>i d' v. review_half sample_review (review_active sample_review) Active None sample_db = (None, i, d') \<and>
     fetch_user 2 (users d') = Some v \<and> status v = Limited"
proof -
  have b: "batch_users_by_status sample_review sample_db Active
      (if rv_redis sample_review then None else None) = [ann, bob]"
    by (simp add: batch_users_by_status_def sample_review_def)
  obtain i d' where r: "review_half sample_review (review_active sample_review) Active None sample_db = (None, i, d')"
    using b by (simp add: review_half_def review_active_def next_plan_of_def Let_def sample_limits)
  have n: "next_plans bob = []" by simp
  have m: "bob \<in> set (batch_users_by_status sample_review sample_db Active
      (if rv_redis sample_review then None else None))" using b by simp
  with review_moves_batch [OF sample_wf r m n] r show ?thesis by (simp add: sample_limits)
qed

text \<open>Without Redis the review keeps no position: if no user of the first batch is over a limit, the half
  over the active users does nothing, however many users after the batch are.\<close>

theorem review_without_redis_stays:
  assumes "\<not> rv_redis env"
    and "\<forall>u \<in> set (batch_users_by_status env d Active None). \<not> is_user_limited env u \<and>
      \<not> over_time (rv_now env) u"
  shows "review_half env (review_active env) Active stored d = (None, stored, d)"
  using assms by (rule active_half_idle)

lemma review_without_redis_stays_witness:
  "is_user_limited (sample_review\<lparr>rv_batch := 1\<rparr>) bob \<and>
   review_half (sample_review\<lparr>rv_batch := 1\<rparr>) (review_active (sample_review\<lparr>rv_batch := 1\<rparr>)) Active None sample_db =
     (None, None, sample_db)"
proof
  let ?env = "sample_review\<lparr>rv_batch := 1\<rparr>"
  show "is_user_limited ?env bob"
    by (simp add: is_user_limited_def get_user_used_traffic_def sample_review_def bob_def new_user_def)
  have "batch_users_by_status ?env sample_db Active None = [ann]"
    by (simp add: batch_users_by_status_def sample_review_def)
  then show "review_half ?env (review_active ?env) Active None sample_db = (None, None, sample_db)"
    by (intro review_without_redis_stays)
      (simp_all add: sample_review_def is_user_limited_def over_time_def ann_def new_user_def)
qed

text \<open>An active user whose time is over and whose next plan waits for a first connection, at the head of
  the batch, stops the whole review: the run raises, changes nothing, not even the position, and so
  does every later run.\<close>

theorem review_blocked_by_waiting_plan:
  assumes "batch_users_by_status env (rs_db s) Active (if rv_redis env then rs_active_id s else None) = u # us"
    and "next_plan_of u = Some plan" and "start_on_first_connect plan" and "fire_on_either plan"
    and "online_at u = None" and "used_traffic u = 0" and "over_time (rv_now env) u"
  shows "review env over s = (Some (Value_error ''UserResponse''), s)"
  using assms by (rule review_blocked)

lemma review_blocked_by_waiting_plan_witness:
  "review (sample_review\<lparr>rv_now := 9 * usecs\<rparr>) False
     \<lparr>rs_db = sample_db\<lparr>users := [ann\<lparr>expire := Some 5, next_plans := [sample_plan\<lparr>start_on_first_connect := True\<rparr>]\<rparr>, bob]\<rparr>,
       rs_active_id = None, rs_hold_id = None\<rparr> =
   (Some (Value_error ''UserResponse''),
    \<lparr>rs_db = sample_db\<lparr>users := [ann\<lparr>expire := Some 5, next_plans := [sample_plan\<lparr>start_on_first_connect := True\<rparr>]\<rparr>, bob]\<rparr>,
       rs_active_id = None, rs_hold_id = None\<rparr>)"
  by (rule review_blocked_by_waiting_plan [where u = "ann\<lparr>expire := Some 5,
        next_plans := [sample_plan\<lparr>start_on_first_connect := True\<rparr>]\<rparr>" and us = "[bob]" and
        plan = "sample_plan\<lparr>start_on_first_connect := True\<rparr>"])
    (simp_all add: batch_users_by_status_def sample_review_def next_plan_of_def sample_plan_def ann_def
      bob_def new_user_def over_time_def secs_le_now_def usecs_def)

text \<open>The two jobs that end a hold agree: with no traffic pending in Redis and the local time zone UTC,
  the review and the usage job end the hold of a user on the same condition.\<close>

theorem hold_ends_alike:
  assumes "status u = On_hold" and "snd (rv_pending env (uid u)) = None" and "rv_tz env = 0"
  shows "hold_is_over env u = should_reactivate_on_hold (rv_now env) u"
  using assms by (rule hold_conditions_agree)

lemma hold_ends_alike_witness:
  "hold_is_over sample_review (ann\<lparr>status := On_hold, online_at := Some 3\<rparr>) \<and>
   should_reactivate_on_hold 0 (ann\<lparr>status := On_hold, online_at := Some 3\<rparr>)"
proof -
  let ?u = "ann\<lparr>status := On_hold, online_at := Some 3\<rparr>"
  have "hold_is_over sample_review ?u = should_reactivate_on_hold (rv_now sample_review) ?u"
    by (rule hold_ends_alike) (simp_all add: sample_review_def)
  moreover have "hold_is_over sample_review ?u"
    by (simp add: hold_is_over_def effective_online_def naive_timestamp_def sample_review_def ann_def new_user_def)
  ultimately show ?thesis by (simp add: sample_review_def)
qed

text \<open>A refused periodic reset is half written: when the quota refuses the reset of one user, the reset of
  the next user commits the first one with a cleared counter, a log entry and its old status.\<close>

theorem refused_reset_is_written:
  assumes "rj_pending s = []" and "reset_due now u" and "reset_due now w" and "uid w \<noteq> uid u"
    and "fetch_user (uid u) (users (rj_db s)) \<noteq> None"
    and "reset_user_data_usage_obj (clock (uid u)) (rj_db s) u = Inl e"
    and "reset_user_data_usage_obj (clock (uid w)) (rj_db s) w = Inr w'" and "uid w' = uid w"
  shows "fetch_user (uid u) (users (rj_db
      (periodic_reset_one clock now w (periodic_reset_one clock now u s)))) =
    Some (u\<lparr>usage_logs := usage_logs u @ [\<lparr>used_traffic_at_reset = used_traffic u, reset_at = clock (uid u)\<rparr>],
            used_traffic := 0, node_usages := []\<rparr>)"
  using refused_reset_written [OF assms] by (simp add: reset_logged_def)

lemma refused_reset_is_written_witness:
  "let u = bob\<lparr>status := Limited, data_limit_reset_strategy := Day\<rparr>;
       w = ann\<lparr>data_limit_reset_strategy := Day\<rparr>;
       s = \<lparr>rj_db = sample_db\<lparr>users := [u, w], admins := [keeper\<lparr>users_limit := Some 1\<rparr>]\<rparr>, rj_pending = []\<rparr>
   in fetch_user 2 (users (rj_db (periodic_reset_one (\<lambda>_. 5) (days 2) w (periodic_reset_one (\<lambda>_. 5) (days 2) u s)))) =
      Some (u\<lparr>usage_logs := [\<lparr>used_traffic_at_reset = 10, reset_at = 5\<rparr>], used_traffic := 0\<rparr>)"
proof -
  let ?u = "bob\<lparr>status := Limited, data_limit_reset_strategy := Day\<rparr>"
    and ?w = "ann\<lparr>data_limit_reset_strategy := Day\<rparr>"
  let ?s = "\<lparr>rj_db = sample_db\<lparr>users := [?u, ?w], admins := [keeper\<lparr>users_limit := Some 1\<rparr>]\<rparr>, rj_pending = []\<rparr>"
  have c: "ensure_active_user_capacity (rj_db ?s) (Some (keeper\<lparr>users_limit := Some 1\<rparr>)) 1 [2] =
      Inl (Users_limit_reached 1 1 False)"
    by (simp add: ensure_active_user_capacity_def get_active_users_count_def active_under_def row_simps
        cycle_simps)
  have e: "reset_user_data_usage_obj 5 (rj_db ?s) ?u = Inl (Users_limit_reached 1 1 False)"
    using c by (simp add: reset_user_data_usage_obj_def admin_of_def)
  obtain w' where w: "reset_user_data_usage_obj 5 (rj_db ?s) ?w = Inr w'" "uid w' = uid ?w"
    by (simp add: reset_user_data_usage_obj_def drop_next_plan_def next_plan_of_def reset_logged_def)
  have due: "reset_due (days 2) ?u" "reset_due (days 2) ?w"
    by (simp_all add: reset_due_def strategy_days_def last_traffic_reset_time_def days_def usecs_def
        ann_def bob_def new_user_def)
  from refused_reset_is_written [where s = ?s and clock = "\<lambda>_. 5", OF _ due _ _ e w] show ?thesis
    by (simp add: Let_def bob_def new_user_def)
qed

section \<open>Conservation\<close>

text \<open>C27. The synchronisation conserves usage to the byte, when its transactions go through and every user with
  a next plan is active: what a user ever used by the tables, together with what is still pending in
  Redis, is the same before and after a run, however many entries are taken, batched and grouped, and
  also when the run resets the user by a next plan. A batch whose transaction fails is lost, and a
  plan that the quota refuses, which can happen to a user that is not active, adds to what the user
  ever used; this is shown below.\<close>

theorem sync_conserves_usage:
  assumes "wf_db d" and "\<forall>p \<in> set (rd_pending r). \<forall>e \<in> set (snd p). fst e \<ge> 0"
    and "\<forall>k. batch_attempts (outcome k) 0 3"
    and "\<forall>u \<in> set (users d). next_plans u \<noteq> [] \<longrightarrow> status u = Active"
    and "sync_usage_updates_to_db outcome aok sok clock now notify (d, Some r, bk) = (d', rd', bk')"
    and "fetch_user i (users d) = Some u" and "i \<noteq> 0"
  shows "\<exists>u' r'. fetch_user i (users d') = Some u' \<and> rd' = Some r' \<and>
    lifetime_used_traffic u' + queued i (rd_pending r') = lifetime_used_traffic u + queued i (rd_pending r)"
proof -
  have "distinct (map uid (users d))" "\<forall>u \<in> set (users d). unrefused u"
    using assms(1,4) by (simp_all add: wf_db_def unrefused_def)
  from sync_adds_popped [OF this(1) assms(2,3) this(2) assms(5), of i] obtain r' where "rd' = Some r'"
    "life (users d') i = Some (lifetime_used_traffic u + (queued i (rd_pending r) - queued i (rd_pending r')))"
    using assms(6,7) by (auto simp: life_def)
  then show ?thesis by (auto simp: life_def)
qed

lemma sync_conserves_usage_witness:
  "\<exists>d' rd' bk' u' r'. sync_usage_updates_to_db (\<lambda>_ _. Exec_ok) True True (\<lambda>_. 9) 9 (\<lambda>_. True)
      (sample_db, Some (cache_user_usage_update 2 5 (Some 8) empty_redis), no_backups) = (d', rd', bk') \<and>
    fetch_user 2 (users d') = Some u' \<and> rd' = Some r' \<and>
    lifetime_used_traffic u' + queued 2 (rd_pending r') = 15"
proof -
  let ?r = "cache_user_usage_update 2 5 (Some 8) empty_redis"
  let ?s = "sync_usage_updates_to_db (\<lambda>_ _. Exec_ok) True True (\<lambda>_. 9) 9 (\<lambda>_. True) (sample_db, Some ?r, no_backups)"
  obtain d' rd' bk' where s: "?s = (d', rd', bk')" by (metis prod_cases3)
  have p: "rd_pending ?r = [(2, [(5, Some 8)])]"
    by (simp add: cache_user_usage_update_def empty_redis_def pending_of_def)
  have l: "lifetime_used_traffic bob = 10" "fetch_user 2 (users sample_db) = Some bob"
    by (simp_all add: lifetime_used_traffic_def bob_def new_user_def)
  show ?thesis
    using sync_conserves_usage [OF sample_wf _ _ _ s l(2)] p l(1)
    by (simp add: s pending_simps numeral_3_eq_3)
qed

text \<open>A next plan that the quota refuses: the log of the reset is there and the counter is not cleared, so
  that the total ever used counts what the user has used twice. The synchronisation goes on with the
  changed object and commits it.\<close>

theorem refused_plan_invents_usage:
  assumes "reset_user_by_next_obj now d u = (Inl e, u')"
  shows "used_traffic u' = used_traffic u \<and> lifetime_used_traffic u' = lifetime_used_traffic u + used_traffic u"
  using assms by (auto simp: reset_user_by_next_obj_def lifetime_used_traffic_def Let_def
      split: option.splits if_splits sum.splits)

definition crowded :: db where
  "crowded = sample_db\<lparr>users := [ann, bob\<lparr>status := Limited, next_plans := [sample_plan]\<rparr>],
     admins := [keeper\<lparr>users_limit := Some 1\<rparr>]\<rparr>"

lemma refused_plan_invents_usage_witness:
  "\<exists>e u'. reset_user_by_next_obj 9 crowded (bob\<lparr>status := Limited, next_plans := [sample_plan]\<rparr>) = (Inl e, u') \<and>
    lifetime_used_traffic u' = 20"
proof -
  let ?u = "bob\<lparr>status := Limited, next_plans := [sample_plan]\<rparr>"
  have "isl (fst (reset_user_by_next_obj 9 crowded ?u))" by code_simp
  then obtain e u' where r: "reset_user_by_next_obj 9 crowded ?u = (Inl e, u')"
    by (cases "reset_user_by_next_obj 9 crowded ?u") (auto simp: isl_def)
  from refused_plan_invents_usage [OF r] r show ?thesis
    by (simp add: lifetime_used_traffic_def bob_def new_user_def)
qed

section \<open>Counted twice\<close>

text \<open>A restart counts usage again: the job with Redis saves its samples to the backup file, writes them
  to the tables and clears them from Redis, so a later synchronisation finds nothing pending and
  leaves the file; at the next start the file is restored, every user's samples are pending
  again, and the synchronisation adds them to the tables that already have them.\<close>

theorem restart_repeats_usage:
  assumes "record_with_redis mysql outcome clock now notify samples (d, Some r, no_backups) = (d1, rd1, bk1)"
    and "fst (apply_usage_to_db mysql outcome clock now notify samples
      (collect_admin_service_usage samples (load_user_mapping d (map fst samples))) d) = Inr events"
    and "rd_pending r = []" and "rd_pending r2 = []" and "i \<noteq> 0"
  shows "\<exists>r1. rd1 = Some r1 \<and>
      sync_usage_updates_to_db o1 aok sok clock1 now1 notify1 (d1, rd1, bk1) = (d1, Some (r1\<lparr>rd_pending := []\<rparr>), bk1) \<and>
      queued i (rd_pending (restore_usage_backups bk1 r2)) =
        sum_list (map (\<lambda>(k, v). if k = i then v else 0) samples)"
proof -
  let ?c = "fold (\<lambda>(i, v). cache_user_usage_update i v (Some now)) samples r"
  let ?r1 = "clear_user_pending_usage (map fst samples) ?c"
  have rd: "rd1 = Some ?r1" and bk: "bk_users bk1 = group_updates (map (\<lambda>(i, v). (i, v, Some now)) samples)"
    using assms(1,2)
    by (auto simp: record_with_redis_def cache_usage_updates_def Let_def save_user_usage_backup_def no_backups_def
        save_admin_usage_backup_def save_service_usage_backup_def group_updates_def split: prod.splits sum.splits)
  have "fst ` set (rd_pending ?c) \<subseteq> fst ` set samples"
    using push_keys [of "Some now" samples "[]"] by (simp add: cached_updates assms(3))
  then have "fst p \<in> fst ` set samples" if "p \<in> set (rd_pending ?c)" for p using that by blast
  then have "rd_pending ?r1 = []" by (auto simp: clear_user_pending_usage_def filter_empty_conv)
  moreover have "queued i (rd_pending (restore_usage_backups bk1 r2)) = usage_of i (bk_users bk1)"
    using restored_pending [of r2 i "bk_users bk1"] assms(4,5) by (simp add: restore_pending_eq pending_simps)
  moreover have "usage_of i (bk_users bk1) = sum_list (map (\<lambda>(k, v). if k = i then v else 0) samples)"
    unfolding bk group_usage using assms(5) by (induction samples) (auto simp: pending_simps)
  ultimately show ?thesis using rd nothing_pending [of ?r1] by simp
qed

lemma restart_repeats_usage_witness:
  "\<exists>d1 rd1 bk1. record_with_redis False (\<lambda>_ _. Exec_ok) (\<lambda>_. 9) 9 (\<lambda>_. True) [(1, 7)]
      (sample_db, Some empty_redis, no_backups) = (d1, rd1, bk1) \<and>
    queued 1 (rd_pending (restore_usage_backups bk1 empty_redis)) = 7"
proof -
  let ?run = "record_with_redis False (\<lambda>_ _. Exec_ok) (\<lambda>_. 9) 9 (\<lambda>_. True) [(1, 7)] (sample_db, Some empty_redis, no_backups)"
  obtain d1 rd1 bk1 where s: "?run = (d1, rd1, bk1)" by (metis prod_cases3)
  have e: "rd_pending empty_redis = []" by (simp add: empty_redis_def)
  have w: "\<exists>x. fst (apply_usage_to_db False (\<lambda>_ _. Exec_ok) (\<lambda>_. 9) 9 (\<lambda>_. True) [(1, 7)]
      (collect_admin_service_usage [(1, 7)] (load_user_mapping sample_db (map fst [(1, 7 :: int)]))) sample_db) = Inr x"
    by (simp add: apply_usage_to_db_def write_statements_def safe_execute_def numeral_3_eq_3 Let_def)
  then obtain ev where "fst (apply_usage_to_db False (\<lambda>_ _. Exec_ok) (\<lambda>_. 9) 9 (\<lambda>_. True) [(1, 7)]
      (collect_admin_service_usage [(1, 7)] (load_user_mapping sample_db (map fst [(1, 7 :: int)]))) sample_db) = Inr ev" ..
  from restart_repeats_usage [OF s this e e, of 1 "\<lambda>_ _. Exec_ok" True True "\<lambda>_. 9" 9 "\<lambda>_. True"] s
  show ?thesis by auto
qed

section \<open>Written over\<close>

text \<open>A cached copy overwrites what happened since: reading a user through the cache marks the copy to be
  written back, and whatever the row has become by the next synchronisation of users, traffic
  counted, limited or expired, limit changed, its usage, status, expiry and limit are set back to
  those of the copy.\<close>

theorem stale_copy_wins:
  assumes "cache_user u True (Some r0) = Some r" and "distinct (rd_sync_set r0)" and "uid u \<noteq> 0"
    and "fetch_user (uid u) (users d) = Some v" and "ok (uid u)"
  shows "\<exists>w. fetch_user (uid u) (users (fst (sync_user_changes_to_db ok now (d, Some r)))) = Some w \<and>
    used_traffic w = used_traffic u \<and> status w = status u \<and> expire w = expire u \<and> data_limit w = data_limit u"
proof -
  have r: "rd_sync_keys r (uid u) = Some (cached_row u)" "distinct (rd_sync_set r)" "uid u \<in> set (rd_sync_set r)"
    using assms(1-3) by (auto simp: cache_user_def Let_def)
  have "fetch_user (uid u) (users (fst (sync_user_changes_to_db ok now (d, Some r)))) =
      Some (write_back now (cached_row u) v)"
    using sync_changes_row [OF r(2,1), of ok now d] r(3) assms(4,5)
    by (simp add: sync_user_changes_to_db_def case_prod_beta)
  then show ?thesis by (simp add: write_back_def cached_row_def)
qed

lemma stale_copy_wins_witness:
  "\<exists>w. fetch_user 2 (users (fst (sync_user_changes_to_db (\<lambda>_. True) 9
      (save_user (bob\<lparr>status := Limited\<rparr>) (add_to_users 8 [(2, 5)] sample_db),
       cache_user bob True (Some empty_redis))))) = Some w \<and> used_traffic w = 10 \<and> status w = Active"
proof -
  let ?d = "save_user (bob\<lparr>status := Limited\<rparr>) (add_to_users 8 [(2, 5)] sample_db)"
  obtain r where r: "cache_user bob True (Some empty_redis) = Some r" by (simp add: cache_user_def)
  have "fetch_user (uid bob) (users ?d) = Some (bob\<lparr>status := Limited\<rparr>)"
    by (simp add: add_to_users_def row_simps)
  moreover have "distinct (rd_sync_set empty_redis)" by (simp add: empty_redis_def)
  moreover have "used_traffic bob = 10" by (simp add: bob_def)
  ultimately show ?thesis using stale_copy_wins [OF r, of ?d "bob\<lparr>status := Limited\<rparr>" "\<lambda>_. True" 9] r by auto
qed

end
