(* ===== verification/AdminProperties.thy ===== *)
theory AdminProperties
  imports Samples
begin

text \<open>
  The properties of the admin accounts: creating, updating and removing them, their permissions, and
  whom a request acts for.
\<close>

section \<open>Admins\<close>

text \<open>What \<open>create_admin\<close> commits: one new active row under a name that no live account had, so that
  names stay unique whatever their case; and no service link, since the links are added after the
  commit.\<close>

theorem create_admin_commits:
  assumes "create_admin cb ci i hash d c = Inr (a, d1, d2)" and "distinct (live_admin_names d)"
  shows "admins d1 = admins d @ [a] \<and> users d1 = users d \<and> aid a = i \<and> admin_status a = Admin_active \<and>
    admin_username a = ac_username c \<and> admin_role a = ac_role c \<and>
    distinct (live_admin_names d1) \<and>
    admin_service_links d1 = admin_service_links d \<and> d2 = sync_admin_services d1 i (ac_services c)"
  using create_admin_result [OF assms(1)] create_admin_names [OF assms] by simp

lemma create_admin_commits_witness:
  "\<exists>a d1 d2. create_admin sample_cb sample_ci 2 ''h''
      (sample_db\<lparr>services := [sample_service]\<rparr>) sample_admin_create = Inr (a, d1, d2) \<and>
     admins d1 = [keeper, a] \<and> admin_service_links d1 = [] \<and>
     map link_service_id (admin_service_links d2) = [4]"
proof -
  let ?d = "sample_db\<lparr>services := [sample_service]\<rparr>"
  have n: "lower ''keeper'' \<noteq> lower ''helper''" by code_simp
  have p: "normalize_permissions_for_role sample_cb sample_ci Standard (Some (role_default_permissions Standard)) None =
      Inr (stored_permissions (role_default_permissions Standard))"
    by (simp add: normalize_permissions_for_role_def merge_permissions_eq [OF sample_coerces] stored_permissions_def)
  have "validate_max_data_limit (stored_permissions (role_default_permissions Standard)) = Inr ()"
    by (simp add: validate_max_data_limit_def stored_permissions_def perm_simps)
  then obtain a d1 d2 where r: "create_admin sample_cb sample_ci 2 ''h'' ?d sample_admin_create = Inr (a, d1, d2)"
    using n p by (simp add: create_admin_def sample_admin_create_def keeper_def new_admin_def Let_def)
  have "distinct (live_admin_names ?d)" by (simp add: live_admin_names_def)
  from create_admin_commits [OF r this] r show ?thesis
    by (auto simp: sync_admin_services_def sample_admin_create_def sample_service_def create_admin_def
        then_res_Inr Let_def split: if_splits)
qed

text \<open>An account is found by its name: with unique names, looking up the name of a live account, in any
  case, gives that account.\<close>

theorem admin_found_by_name:
  assumes "distinct (live_admin_names d)" and "a \<in> set (admins d)" and "admin_status a \<noteq> Admin_deleted"
    and "lower name = lower (admin_username a)" and "name \<noteq> ''''"
  shows "get_admin d (Some name) None = Some a"
proof -
  have "admin_username a \<noteq> ''''" using assms(4,5) by (auto simp: lower_def)
  from find_name [OF assms(1-3) this] show ?thesis using assms(4,5) \<open>admin_username a \<noteq> ''''\<close>
    by (simp add: get_admin_def)
qed

lemma admin_found_by_name_witness: "get_admin sample_db (Some ''KEEPER'') None = Some keeper"
proof (rule admin_found_by_name)
  show "lower ''KEEPER'' = lower (admin_username keeper)" by (simp add: keeper_def new_admin_def) code_simp
qed (simp_all add: live_admin_names_def keeper_def new_admin_def)

text \<open>An account disabled by hand stays disabled, with its reason, through every update, whether or not
  the update raises its data limit.\<close>

theorem manual_disable_survives_updates:
  assumes "admin_status a = Admin_disabled" and "disabled_reason a \<noteq> Some exhausted_reason"
    and "fetch_admin (aid a) (admins d) = Some a"
    and "partial_update_admin cb ci h1 h2 now restart_ok d a m = (r, d')"
  shows "\<exists>b. fetch_admin (aid a) (admins d') = Some b \<and> admin_status b = Admin_disabled \<and>
    disabled_reason b = disabled_reason a"
  using assms by (rule manual_disable_kept)

lemma manual_disable_survives_updates_witness:
  "\<exists>b. fetch_admin 1 (admins (snd (partial_update_admin sample_cb sample_ci ''x'' ''y'' 7 True
      (sample_db\<lparr>admins := [keeper\<lparr>admin_status := Admin_disabled, disabled_reason := Some ''rules''\<rparr>]\<rparr>)
      (keeper\<lparr>admin_status := Admin_disabled, disabled_reason := Some ''rules''\<rparr>) sample_admin_modify))) = Some b \<and>
     admin_status b = Admin_disabled \<and> disabled_reason b = Some ''rules''"
proof -
  let ?a = "keeper\<lparr>admin_status := Admin_disabled, disabled_reason := Some ''rules''\<rparr>"
  obtain r d' where r: "partial_update_admin sample_cb sample_ci ''x'' ''y'' 7 True
      (sample_db\<lparr>admins := [?a]\<rparr>) ?a sample_admin_modify = (r, d')" by force
  have "admin_status ?a = Admin_disabled" "disabled_reason ?a \<noteq> Some exhausted_reason"
    "fetch_admin (aid ?a) (admins (sample_db\<lparr>admins := [?a]\<rparr>)) = Some ?a"
    by (simp_all add: exhausted_reason_def)
  from manual_disable_survives_updates [OF this r] r show ?thesis by simp
qed

text \<open>Resetting the usage of an account moves its counter to the log, keeps the lifetime total, and makes
  the account active again exactly when the data limit had disabled it and the limit is not zero.\<close>

theorem admin_usage_reset:
  assumes "reset_admin_usage now True d a = (r, d')" and "users_usage a \<noteq> 0"
    and "fetch_admin (aid a) (admins d) = Some a"
  shows "r = Inr () \<and> (\<exists>b. fetch_admin (aid a) (admins d') = Some b \<and> users_usage b = 0 \<and>
    admin_usage_logs b = admin_usage_logs a @ [users_usage a] \<and> lifetime_usage b = lifetime_usage a \<and>
    (if disabled_due_to_data_limit a \<and> (\<forall>l. admin_data_limit a = Some l \<longrightarrow> 0 < l)
     then admin_status b = Admin_active \<and> disabled_reason b = None
     else admin_status b = admin_status a \<and> disabled_reason b = disabled_reason a))"
  using assms by (rule reset_admin_usage_effect)

lemma admin_usage_reset_witness:
  "\<exists>b. fetch_admin 1 (admins (snd (reset_admin_usage 7 True (sample_db\<lparr>admins := [keeper\<lparr>users_usage := 8,
      admin_data_limit := Some 8, admin_status := Admin_disabled, disabled_reason := Some exhausted_reason\<rparr>]\<rparr>)
      (keeper\<lparr>users_usage := 8, admin_data_limit := Some 8, admin_status := Admin_disabled,
        disabled_reason := Some exhausted_reason\<rparr>)))) = Some b \<and>
    users_usage b = 0 \<and> admin_usage_logs b = [8] \<and> admin_status b = Admin_active"
proof -
  let ?a = "keeper\<lparr>users_usage := 8, admin_data_limit := Some 8, admin_status := Admin_disabled,
      disabled_reason := Some exhausted_reason\<rparr>"
  obtain r d' where r: "reset_admin_usage 7 True (sample_db\<lparr>admins := [?a]\<rparr>) ?a = (r, d')" by force
  have "users_usage ?a \<noteq> 0" "fetch_admin (aid ?a) (admins (sample_db\<lparr>admins := [?a]\<rparr>)) = Some ?a"
    by simp_all
  from admin_usage_reset [OF r this] r show ?thesis
    by (auto simp: disabled_due_to_data_limit_def keeper_def new_admin_def)
qed

text \<open>Removing an account leaves nothing behind that refers to it: no user, service link or API key of the
  database names a missing account, and the account is not found any more.\<close>

theorem admin_removed_with_references:
  assumes "references_ok d"
  shows "references_ok (remove_admin d a) \<and> get_admin_by_id (remove_admin d a) (aid a) = None"
  using remove_admin_references [OF assms] get_admin_by_id_removed by simp

lemma admin_removed_with_references_witness:
  "references_ok (remove_admin sample_db keeper) \<and> users (remove_admin sample_db keeper) = []"
proof -
  have "references_ok sample_db" by (simp add: references_ok_def)
  from admin_removed_with_references [OF this, of keeper] show ?thesis by (simp add: remove_admin_def)
qed

section \<open>Permissions\<close>

text \<open>The bulk change of permissions is exact: for a stored complete model, every listed permission is off
  after \<open>disable\<close> and at the default of the standard role after \<open>restore\<close>, every other permission,
  the data limit and the other sections are as before, and a row that does not change is not written.\<close>

theorem bulk_permissions_exact:
  assumes "coerces cb ci" and "admin_permissions_json a = Some (dump_permissions p)"
  shows "\<exists>after. bulk_permission_row cb ci perms disable a = Inr
      (if after = stored_permissions p then None
       else Some (a\<lparr>admin_permissions_json := Some (dump_permissions after)\<rparr>)) \<and>
    (\<forall>x. user_allows (perm_users after) x =
      (if x \<in> set perms then \<not> disable \<and> user_allows (perm_users (role_default_permissions Standard)) x
       else user_allows (perm_users p) x)) \<and>
    admin_management after = admin_management p \<and> sections after = sections p \<and>
    self_permissions after = self_permissions (stored_permissions p)"
  by (rule exI, rule conjI, rule bulk_row_exact [OF assms, unfolded Let_def])
    (auto simp: user_allows_fold stored_permissions_def)

lemma bulk_permissions_exact_witness:
  "\<exists>b. bulk_permission_row sample_cb sample_ci [Perm_delete] True
      (keeper\<lparr>admin_permissions_json := Some (dump_permissions (role_default_permissions Standard))\<rparr>) = Inr b"
proof -
  from bulk_permissions_exact [OF sample_coerces, of "keeper\<lparr>admin_permissions_json :=
      Some (dump_permissions (role_default_permissions Standard))\<rparr>" "role_default_permissions Standard"
      "[Perm_delete]" True]
  show ?thesis by auto
qed

text \<open>With the default permissions of its role, an account can manage another account only if the role of
  that account is strictly lower.\<close>

theorem managing_needs_higher_role:
  assumes "pr_permissions a = role_default_permissions (pr_role a)" and "pr_username t \<noteq> pr_username a"
  shows "ensure_can_manage_admin a t = Inr () \<longleftrightarrow> pr_role t < pr_role a"
  using assms by (cases "pr_role a"; cases "pr_role t") (auto simp: role_order can_manage_iff perm_simps)

lemma managing_needs_higher_role_witness:
  "ensure_can_manage_admin (sudoer_principal ''root'' Sudo) (sudoer_principal ''op'' Standard) = Inr () \<and>
   ensure_can_manage_admin (sudoer_principal ''root'' Sudo) (sudoer_principal ''boss'' Full_access) \<noteq> Inr ()"
  using managing_needs_higher_role [of "sudoer_principal ''root'' Sudo" "sudoer_principal ''op'' Standard"]
    managing_needs_higher_role [of "sudoer_principal ''root'' Sudo" "sudoer_principal ''boss'' Full_access"]
  by (simp add: sudoer_principal_def role_order)

section \<open>Who a request acts for\<close>

text \<open>A token carries its account: reading the claims of a new token gives back the name, the role and
  the time it was made, for every role but reseller, whose tokens are refused.\<close>

theorem admin_token_round_trip:
  assumes "name \<noteq> ''''"
  shows "get_admin_payload (Some (create_admin_token name (role_value r) now)) =
    (if r = Reseller then None
     else Some \<lparr>pl_username = name, pl_role = role_value r, pl_created_at = Some (Aware now)\<rparr>)"
  using assms by (rule token_round_trip)

lemma admin_token_round_trip_witness:
  "get_admin_payload (Some (create_admin_token ''op'' (role_value Reseller) 7)) = None \<and>
   get_admin_payload (Some (create_admin_token ''op'' (role_value Sudo) 7)) \<noteq> None"
proof -
  have "(''op'' :: string) \<noteq> ''''" by simp
  from admin_token_round_trip [OF this, of Reseller 7] admin_token_round_trip [OF this, of Sudo 7]
  show ?thesis by simp
qed

text \<open>C35. Who passes the check of an active account is a row of the database that is not deleted, and acts with
  the id, name, role and status of that row and with the permissions that its role and its column give;
  if the row is disabled, its role is sudo or full access. Or it is a name of the configuration, with a
  valid token, acting with the permissions of the role that the token names.\<close>

theorem active_principal_sound:
  assumes "require_active (fst (authenticate cb ci sha decode sudoers now d token)) = Inr p"
  shows "(\<exists>a \<in> set (admins d). admin_status a \<noteq> Admin_deleted \<and> pr_id p = Some (aid a) \<and>
      pr_role p = admin_role a \<and> pr_username p = admin_username a \<and> pr_status p = admin_status a \<and>
      build_permissions cb ci (admin_role a) (admin_permissions_json a) = Inr (pr_permissions p) \<and>
      (admin_status a = Admin_disabled \<longrightarrow> admin_role a \<in> {Sudo, Full_access})) \<or>
    (\<exists>pl. get_admin_payload (decode token) = Some pl \<and> map_of sudoers (pl_username pl) \<noteq> None \<and>
      p = sudoer_principal (pl_username pl) (case role_of (pl_role pl) of Some r \<Rightarrow> r | None \<Rightarrow> Standard))"
proof -
  obtain r d' where r: "authenticate cb ci sha decode sudoers now d token = (r, d')" by force
  with require_active_sound [of r p] assms have p: "r = Inr (Some p)"
    "pr_status p = Admin_disabled \<longrightarrow> pr_role p \<in> {Sudo, Full_access}" by simp_all
  have "\<exists>a \<in> set (admins d). admin_status a \<noteq> Admin_deleted \<and> pr_id p = Some (aid a) \<and>
      pr_role p = admin_role a \<and> pr_username p = admin_username a \<and> pr_status p = admin_status a \<and>
      build_permissions cb ci (admin_role a) (admin_permissions_json a) = Inr (pr_permissions p) \<and>
      (admin_status a = Admin_disabled \<longrightarrow> admin_role a \<in> {Sudo, Full_access})"
    if "a \<in> set (admins d)" "admin_status a \<noteq> Admin_deleted" "principal_of cb ci a = Inr p" for a
    using that principal_of_row [OF that(3)] p(2) by (intro bexI [of _ a]) auto
  then show ?thesis using authenticate_sound [of cb ci sha decode sudoers now d token p d'] r p(1) by blast
qed

lemma active_principal_sound_witness:
  "\<exists>p. require_active (fst (authenticate sample_cb sample_ci id
      (\<lambda>_. Some (create_admin_token ''keeper'' ''standard'' 7)) [] 9 sample_db ''t'')) = Inr p \<and>
     pr_id p = Some 1 \<and> pr_permissions p = role_default_permissions Standard"
proof -
  have k: "get_admin sample_db (Some ''keeper'') None = Some keeper"
    by (simp add: get_admin_def keeper_def new_admin_def)
  have "get_admin_payload (Some (create_admin_token ''keeper'' (role_value Standard) 7)) =
      Some \<lparr>pl_username = ''keeper'', pl_role = ''standard'', pl_created_at = Some (Aware 7)\<rparr>"
    by (subst token_round_trip) simp_all
  moreover have "build_permissions sample_cb sample_ci Standard (Some []) = Inr (role_default_permissions Standard)"
    by (simp add: build_permissions_def)
  ultimately obtain p where p: "require_active (fst (authenticate sample_cb sample_ci id
      (\<lambda>_. Some (create_admin_token ''keeper'' ''standard'' 7)) [] 9 sample_db ''t'')) = Inr p"
    using k by (auto simp: authenticate_def token_outdated_def principal_of_def require_active_def
        get_current_def keeper_def new_admin_def Let_def)
  have "\<not> isl (build_permissions sample_cb sample_ci Standard None) \<and>
      projr (build_permissions sample_cb sample_ci Standard None) = role_default_permissions Standard"
    by code_simp
  from active_principal_sound [OF p] p show ?thesis by (auto simp: keeper_def new_admin_def build_permissions_def)
qed

text \<open>Changing the password ends the old tokens: a token made before the reset, or one without a time,
  is refused for a stored account, and one made at the reset or later is accepted.\<close>

theorem reset_ends_old_tokens:
  assumes "get_admin_payload (decode token) = Some pl" and "map_of sudoers (pl_username pl) = None"
    and "get_admin d (Some (pl_username pl)) None = Some a" and "password_reset_at a = Some t"
    and "pl_created_at pl = map_option Aware made"
  shows "authenticate cb ci sha decode sudoers now d token =
    (if (case made of None \<Rightarrow> True | Some c \<Rightarrow> c < t) then (Inr None, d)
     else (then_res (principal_of cb ci a) (\<lambda>p. Inr (Some p)), d))"
  using assms by (cases made) (simp_all add: authenticate_def token_outdated_def Let_def)

lemma reset_ends_old_tokens_witness:
  "authenticate sample_cb sample_ci id (\<lambda>_. Some (create_admin_token ''keeper'' ''standard'' 7)) [] 9
     (sample_db\<lparr>admins := [keeper\<lparr>password_reset_at := Some 8\<rparr>]\<rparr>) ''t'' =
     (Inr None, sample_db\<lparr>admins := [keeper\<lparr>password_reset_at := Some 8\<rparr>]\<rparr>)"
proof -
  have p: "get_admin_payload (Some (create_admin_token ''keeper'' ''standard'' 7)) =
      Some \<lparr>pl_username = ''keeper'', pl_role = ''standard'', pl_created_at = Some (Aware 7)\<rparr>"
    using token_round_trip [of "''keeper''" Standard 7] by simp
  show ?thesis
    using reset_ends_old_tokens [where decode = "\<lambda>_. Some (create_admin_token ''keeper'' ''standard'' 7)" and
        token = "''t''" and sudoers = "[]" and d = "sample_db\<lparr>admins := [keeper\<lparr>password_reset_at := Some 8\<rparr>]\<rparr>" and
        a = "keeper\<lparr>password_reset_at := Some 8\<rparr>" and t = 8 and made = "Some 7", OF p]
    by (simp add: get_admin_def keeper_def new_admin_def)
qed

text \<open>An API key with an expiry cannot be used at all: the comparison of the stored time, which has no
  time zone, with the clock raises, before the expiry as after it.\<close>

theorem expiring_key_raises:
  assumes "get_admin_payload (decode token) = None" and "get_admin_api_key_by_token sha d token = Some k"
    and "key_expires_at k \<noteq> None"
  shows "authenticate cb ci sha decode sudoers now d token = (Inl Type_error, d)"
  using assms by (auto simp: authenticate_def admin_by_api_key_def)

lemma expiring_key_raises_witness:
  "authenticate sample_cb sample_ci id (\<lambda>_. None) [] 9
     (snd (create_admin_api_key id 1 ''x'' sample_db keeper (Some 1000))) ''rk_x'' =
     (Inl Type_error, snd (create_admin_api_key id 1 ''x'' sample_db keeper (Some 1000)))"
  by (rule expiring_key_raises [where k = "\<lparr>key_id = 1, key_admin_id = 1, key_hash = ''rk_x'',
        key_expires_at = Some 1000, key_last_used_at = None\<rparr>"])
    (simp_all add: get_admin_payload_def get_admin_api_key_by_token_def create_admin_api_key_def Let_def)

end
