(* ===== verification/SubscriptionProperties.thy ===== *)
theory SubscriptionProperties
  imports Samples SubscriptionAuth UserSchema
begin

text \<open>
  The properties of subscription links: who is found by a token or a key, with Redis and without, and
  what revocation and deletion mean for the links in circulation.
\<close>

text \<open>The properties of the user requests: which names, inbounds and bulk actions are accepted.\<close>

section \<open>Tokens\<close>

text \<open>C30. A link finds its user, with Redis or without: the token that the panel makes for a user that
  is not deleted is read back, and is accepted exactly when its time, rounded up to a second, is not
  before the creation of the user or the last revocation. A token made earlier in the second of the
  revocation survives it.\<close>

theorem own_token_validates:
  assumes "\<And>x. length (sha x) = 32"
    and "CHR '','' \<notin> set (username u) \<and> (\<forall>c \<in> set (username u). of_char c < (128 :: nat)) \<and> length (username u) \<ge> 3"
    and "db_user_by_name d (username u) = Some u"
    and "0 \<le> now" and "ceil_seconds now < 253402300800"
  shows "fst (validate_subscription_by_token (get_subscription_payload sha secret decode) d
      (create_subscription_token sha secret now (username u)) rd) =
    (if created_at u \<le> ceil_seconds now * usecs \<and>
        (case sub_revoked_at u of None \<Rightarrow> True | Some r \<Rightarrow> r \<le> ceil_seconds now * usecs)
     then Inr u else not_found)"
  using made_token_live [OF assms] by (simp add: stamp_ok_def)

lemma own_token_validates_witness:
  "fst (validate_subscription_by_token (get_subscription_payload (\<lambda>_. replicate 32 CHR ''A'') ''s'' (\<lambda>_. None))
      (sample_db\<lparr>users := [ann\<lparr>sub_revoked_at := Some 5500000\<rparr>]\<rparr>)
      (create_subscription_token (\<lambda>_. replicate 32 CHR ''A'') ''s'' 5100000 ''ann'') (Some empty_redis)) =
    Inr (ann\<lparr>sub_revoked_at := Some 5500000\<rparr>)"
proof -
  let ?u = "ann\<lparr>sub_revoked_at := Some 5500000\<rparr>"
  have n: "username ?u = ''ann''" "created_at ?u = 0" "sub_revoked_at ?u = Some 5500000" "status ?u = Active"
    by (simp_all add: ann_def new_user_def)
  have c: "ceil_seconds 5100000 = 6" by (simp add: ceil_seconds_def usecs_def)
  show ?thesis
    using own_token_validates [of "\<lambda>_. replicate 32 CHR ''A''" ?u "sample_db\<lparr>users := [?u]\<rparr>" 5100000 "''s''"
        "\<lambda>_. None" "Some empty_redis"] by (simp add: n c usecs_def db_user_by_name_def)
qed

text \<open>Redis does not change who is found: for a name of a user that is not deleted, validation by
  token answers the same for every content of Redis as with the server switched off.\<close>

theorem redis_keeps_token_answer:
  assumes "payload token = Inr (Some (name, t))" and "name \<noteq> ''''" and "db_user_by_name d name = Some u"
  shows "fst (validate_subscription_by_token payload d token rd) =
      fst (validate_subscription_by_token payload d token None) \<and>
    (fst (validate_subscription_by_token payload d token rd) = Inr u \<longleftrightarrow> stamp_ok t u)"
  using token_live [of payload token name t d u] assms by auto

lemma redis_keeps_token_answer_witness:
  "fst (validate_subscription_by_token (\<lambda>_. Inr (Some (''ANN'', 1))) sample_db ''x''
      (cache_user (ann\<lparr>sub_revoked_at := Some 7\<rparr>) True (Some empty_redis))) = Inr ann"
proof -
  have "db_user_by_name sample_db ''ANN'' = Some ann" "stamp_ok 1 ann"
    by (simp_all add: db_user_by_name_def stamp_ok_def ann_def new_user_def) code_simp
  then show ?thesis
    using redis_keeps_token_answer [of "\<lambda>_. Inr (Some (''ANN'', 1))" "''x''" "''ANN''" 1 sample_db ann] by simp
qed

text \<open>A deleted user's link works again with Redis: for a name whose only row is deleted, and that
  is not cached any more, the token is refused without Redis and accepted with it, since the look-up
  in the database behind the cache does not ask for the status. The key alone is accepted in both cases.\<close>

theorem deleted_user_served:
  assumes "payload token = Inr (Some (name, t))" and "name \<noteq> ''''"
    and "any_user_by_name d name = Some u" and "db_user_by_name d name = None" and "stamp_ok t u"
    and "rd_user_keys r (lower name) = None"
  shows "fst (validate_subscription_by_token payload d token (Some r)) = Inr u \<and>
    fst (validate_subscription_by_token payload d token None) = not_found"
  using assms
  by (simp add: token_off) (simp add: validate_subscription_by_token_def get_cached_user_def
      token_from_db_def crud_get_user_def get_user_def cache_answer_def)

lemma deleted_user_served_witness:
  "\<exists>d. remove_user False True False sample_db ann = Inr d \<and>
     fst (validate_subscription_by_token (\<lambda>_. Inr (Some (''ann'', 1))) d ''x'' (Some empty_redis)) =
       Inr (ann\<lparr>status := Deleted\<rparr>) \<and>
     fst (validate_subscription_by_token (\<lambda>_. Inr (Some (''ann'', 1))) d ''x'' None) = not_found"
proof -
  let ?d = "save_user (ann\<lparr>status := Deleted\<rparr>) sample_db"
  have n: "lower ''bob'' \<noteq> lower ''ann''" by code_simp
  have u: "username ann = ''ann''" "username bob = ''bob''" "created_at ann = 0" "sub_revoked_at ann = None"
    by (simp_all add: ann_def bob_def new_user_def)
  have d: "users ?d = [ann\<lparr>status := Deleted\<rparr>, bob]" by (simp add: save_user_def)
  have "any_user_by_name ?d ''ann'' = Some (ann\<lparr>status := Deleted\<rparr>)" "db_user_by_name ?d ''ann'' = None"
    "stamp_ok 1 (ann\<lparr>status := Deleted\<rparr>)" "rd_user_keys empty_redis (lower ''ann'') = None"
    using n by (simp_all add: any_user_by_name_def db_user_by_name_def d u stamp_ok_def empty_redis_def)
  then have "fst (validate_subscription_by_token (\<lambda>_. Inr (Some (''ann'', 1))) ?d ''x'' (Some empty_redis)) =
      Inr (ann\<lparr>status := Deleted\<rparr>) \<and>
    fst (validate_subscription_by_token (\<lambda>_. Inr (Some (''ann'', 1))) ?d ''x'' None) = not_found"
    using deleted_user_served [of "\<lambda>_. Inr (Some (''ann'', 1))" "''x''" "''ann''" 1 ?d
        "ann\<lparr>status := Deleted\<rparr>" empty_redis] by simp
  moreover have "remove_user False True False sample_db ann = Inr ?d" by (simp add: remove_user_def)
  ultimately show ?thesis by blast
qed

section \<open>Keys\<close>

text \<open>C32. A key opens only its own user's subscription: whatever Redis holds, the user that validation by
  name and key, or by key alone, returns stores a key with the same normal form as the one presented;
  and by name the user has that name, as long as cached users stand under their own names.\<close>

theorem key_opens_its_user:
  assumes "names_agree rd" and "fst (validate_subscription_by_key d name key rd) = Inr u \<or>
      fst (validate_subscription_by_key_only d key rd) = Inr u"
  shows "(\<exists>n. normalize_key key = Inr n \<and> user_key u = Inr n) \<and>
    (fst (validate_subscription_by_key d name key rd) = Inr u \<longrightarrow> lower (username u) = lower name)"
proof (cases "normalize_key key")
  case (Inl e)
  then show ?thesis using assms
    by (auto simp: validate_subscription_by_key_def validate_subscription_by_key_only_def)
next
  case (Inr n)
  note sound = key_from_db_sound key_only_sound [OF _ Inr]
  have "fst (validate_subscription_by_key d name key rd) = Inr u \<Longrightarrow> user_key u = Inr n"
    using Inr by (auto simp: validate_subscription_by_key_def Let_def dest: sound
        split: if_splits prod.splits sum.splits option.splits)
  moreover have "fst (validate_subscription_by_key_only d key rd) = Inr u \<Longrightarrow> user_key u = Inr n"
    using Inr by (auto simp: validate_subscription_by_key_only_def Let_def dest: sound
        split: if_splits prod.splits sum.splits option.splits)
  ultimately show ?thesis using assms Inr by_key_name [OF assms(1)] by blast
qed

lemma key_opens_its_user_witness:
  "\<exists>n. normalize_key sample_key = Inr n \<and> user_key (ann\<lparr>credential_key := Some sample_key, status := Deleted\<rparr>) = Inr n"
proof -
  let ?u = "ann\<lparr>credential_key := Some sample_key, status := Deleted\<rparr>"
  let ?d = "sample_db\<lparr>users := [?u]\<rparr>"
  have "stored_key_is sample_key ?u" by (simp add: stored_key_is_def) code_simp
  then have "fst (validate_subscription_by_key_only ?d sample_key None) = Inr ?u"
    by (simp add: validate_subscription_by_key_only_def sample_key_ok auth_simps key_only_from_db_def)
  then show ?thesis using key_opens_its_user [of None ?d "''ann''" sample_key ?u]
    by (simp add: names_agree_def)
qed

section \<open>Identifiers\<close>

text \<open>The path of a link: for every name that the pattern of the requests accepts, the token the panel
  makes is one candidate of the identifier, whatever separators identifiers may hold, and resolves to its
  user, with Redis or without, when it is not older than the user and the last revocation.\<close>

theorem subscription_link_resolves:
  assumes "\<And>x. length (sha x) = 32"
    and "re_match username_regexp (username u)"
    and "db_user_by_name d (username u) = Some u"
    and "0 \<le> now" and "ceil_seconds now < 253402300800" and "stamp_ok now u"
  shows "fst (get_user_by_identifier (get_subscription_payload sha secret decode) d
      (create_subscription_token sha secret now (username u)) rd) = Inr u"
proof -
  let ?p = "get_subscription_payload sha secret decode" and ?t = "create_subscription_token sha secret now (username u)"
  have name: "CHR '','' \<notin> set (username u) \<and> (\<forall>c \<in> set (username u). of_char c < (128 :: nat)) \<and> length (username u) \<ge> 3"
    using accepted_name assms(2) by (simp add: regexp_is_username_ok)
  have "now \<le> ceil_seconds now * usecs" by (simp add: ceil_seconds_def usecs_def)
  then have "stamp_ok (ceil_seconds now * usecs) u" using assms(6) by (auto simp: stamp_ok_def split: option.splits)
  then have "fst (validate_subscription_by_token ?p d ?t rd) = Inr u"
    using made_token_live [OF assms(1) _ assms(3-5)] name by simp
  then obtain rd' where "validate_subscription_by_token ?p d ?t rd = (Inr u, rd')" by (metis prod.collapse)
  moreover have "candidate_identifiers ?t = [?t]" using name by (intro token_candidates) linarith
  ultimately show ?thesis by (simp add: get_user_by_identifier_def)
qed

lemma subscription_link_resolves_witness:
  "fst (get_user_by_identifier (get_subscription_payload (\<lambda>_. replicate 32 CHR ''A'') ''s'' (\<lambda>_. None)) sample_db
      (create_subscription_token (\<lambda>_. replicate 32 CHR ''A'') ''s'' 5100000 ''ann'') (Some empty_redis)) = Inr ann"
proof -
  have n: "username ann = ''ann''" "created_at ann = 0" "sub_revoked_at ann = None"
    by (simp_all add: ann_def new_user_def)
  have c: "ceil_seconds 5100000 = 6" by (simp add: ceil_seconds_def usecs_def)
  have "re_match username_regexp ''ann''" by (simp add: regexp_is_username_ok) code_simp
  then show ?thesis
    using subscription_link_resolves [of "\<lambda>_. replicate 32 CHR ''A''" ann sample_db 5100000 "''s''"
        "\<lambda>_. None" "Some empty_redis"] by (simp add: n c stamp_ok_def db_user_by_name_def)
qed

section \<open>Names\<close>

text \<open>The pattern of names in plain terms: a name is accepted when, without one newline at its end, it
  consists of letters, digits and the characters underscore, minus, at and dot, and begins with
  between 3 and 32 letters, digits and underscores before anything else. So the bound of 32 is not one on the
  length: names of any length are accepted, and so is a newline at the end.\<close>

theorem username_pattern:
  "(re_match username_regexp s \<longleftrightarrow> validate_username s = Inr s) \<and>
   (re_match username_regexp s \<longleftrightarrow>
      (let b = without_newline s; run = length (takeWhile is_word b)
       in list_all name_char b \<and> 3 \<le> run \<and> run \<le> 32)) \<and>
   re_match username_regexp (''abc-'' @ replicate n CHR ''a'') \<and> re_match username_regexp (''abc'' @ [CHR 0x0A])"
proof -
  have "username_ok (''abc'' @ [CHR 0x0A])"
    by (simp add: username_ok_def without_newline_def name_char_def is_word_def)
  then show ?thesis using long_name [of n]
    by (simp add: regexp_is_username_ok validate_username_def username_ok_def)
qed

section \<open>Inbounds\<close>

text \<open>Inbounds without an enabled host are accepted: a request for a new user that names only known tags
  is accepted with exactly these tags, whatever the hosts behind them, since the exception for a tag
  whose hosts are all disabled is raised inside the handler that swallows every exception.\<close>

theorem disabled_inbounds_accepted:
  assumes "\<And>p. p \<in> set ps \<Longrightarrow> \<exists>ts. map_of inb p = Some ts \<and> ts \<noteq> [] \<and> list_all known ts"
  shows "validate_create_inbounds known tags host_map ps inb = Inr (filter (\<lambda>(p, _). p \<in> set ps) inb)"
proof -
  let ?i = "filter (\<lambda>(p, _). p \<in> set ps) inb"
  have "\<exists>ts. map_of ?i p = Some ts \<and> ts \<noteq> [] \<and> list_all known ts" if "p \<in> set ps" for p
  proof -
    have "map_of ?i p = map_of inb p" using that by (induction inb) auto
    then show ?thesis using assms [OF that] by simp
  qed
  then have "complete_inbounds known tags host_map qs ?i = Inr ?i" if "set qs \<subseteq> set ps" for qs
    using that
  proof (induction qs)
    case (Cons p qs)
    then obtain t ts where "map_of ?i p = Some (t # ts)" "list_all known (t # ts)"
      by (metis insert_subset list.simps(15) neq_Nil_conv)
    then show ?case using Cons check_tags_known [of known host_map "t # ts"] by simp
  qed simp
  then show ?thesis by (simp add: validate_create_inbounds_def)
qed

lemma disabled_inbounds_accepted_witness:
  "host_check (Some [''in'' \<mapsto> [True]]) ''in'' = Inl (Value_error ''Inbound has no enabled hosts'') \<and>
   validate_create_inbounds (\<lambda>t. t = ''in'') (\<lambda>_. []) (Some [''in'' \<mapsto> [True]]) [VMess] [(VMess, [''in''])] =
     Inr [(VMess, [''in''])]"
  using disabled_inbounds_accepted [of "[VMess]" "[(VMess, [''in''])]" "\<lambda>t. t = ''in''" "\<lambda>_. []" "Some [''in'' \<mapsto> [True]]"]
  by (simp add: host_check_def)

section \<open>Bulk actions\<close>

text \<open>What an accepted bulk action guarantees to the operations behind it: the number of days is positive
  where the action needs it, a clean-up works on expired and limited users only, and a scope has no
  duplicate and exactly the requested statuses but the deleted one.\<close>

theorem bulk_action_validated:
  assumes "validate_action q = Inr q'"
  shows "(br_action q \<in> {Extend_expire, Reduce_expire, Cleanup_status} \<longrightarrow> (\<exists>n > 0. br_days q' = Some n)) \<and>
    (br_action q = Cleanup_status \<longrightarrow> (\<exists>ss. br_statuses q' = Some ss \<and> ss \<noteq> [] \<and> set ss \<subseteq> {Expired, Limited})) \<and>
    (\<forall>sc. br_scope q = Some sc \<and> sc \<noteq> [] \<longrightarrow>
      (\<exists>ss. br_scope q' = Some ss \<and> ss \<noteq> [] \<and> distinct ss \<and> set ss = set sc - {Deleted}))"
  using validated_action [OF assms] by simp

lemma bulk_action_validated_witness:
  "\<exists>q' ss. validate_action \<lparr>br_action = Extend_expire, br_days = Some 3, br_gigabytes = None, br_statuses = None,
      br_scope = Some [Active, Deleted, Active], br_service_id = None, br_target_service_id = None,
      br_service_id_is_null = None, br_admin_username = None\<rparr> = Inr q' \<and> br_scope q' = Some ss \<and> ss = [Active]"
proof -
  let ?q = "\<lparr>br_action = Extend_expire, br_days = Some 3, br_gigabytes = None, br_statuses = None,
      br_scope = Some [Active, Deleted, Active], br_service_id = None, br_target_service_id = None,
      br_service_id_is_null = None, br_admin_username = None\<rparr>"
  have "\<exists>q'. validate_action ?q = Inr q'" by (simp add: validate_action_def)
  then obtain q' where q: "validate_action ?q = Inr q'" ..
  from bulk_action_validated [OF q] obtain ss where ss: "br_scope q' = Some ss" "distinct ss" "set ss = {Active}" by auto
  have "length ss = Suc 0" using distinct_card [OF ss(2)] ss(3) by simp
  then obtain x where "ss = [x]" by (auto simp: length_Suc_conv)
  then have "ss = [Active]" using ss(3) by simp
  with q ss show ?thesis by blast
qed

end
