(* ===== verification/Spec2Isabelle.thy ===== *)
theory Spec2Isabelle
  imports AdminRouteProperties RuntimeUserProperties NodeProperties DocumentProperties RequestRouting ListingProperties CatalogProperties CoreProperties RouteProperties XrayProperties LinkProperties UserProperties JobProperties AdminProperties SubscriptionProperties
begin

text \<open>
  Rebecca is a panel for Xray: a FastAPI application (\<open>app/\<close>) over an SQLAlchemy database with an
  optional Redis cache, that sells subscriptions. Admins own users; a user has a data limit, an
  expiry, a queue of next plans and proxies whose credentials derive from one key; services offer hosts of
  inbounds; nodes and the master run cores, which report traffic; jobs add that traffic to users, admins,
  services and nodes, and move what is over a limit. Subscribers fetch documents with their links.

  \<^bold>\<open>How the parts interact.\<close> The routers authenticate the caller (\<open>Admin.get_admin\<close> and the
  dependencies), check its permissions and call the repository functions in \<open>app/db/crud\<close>, which
  change rows of a session and commit. The repository computes the stored credentials with
  \<open>app/utils/credentials.py\<close>. The jobs run beside the requests, on their own sessions, and call the
  same repository functions. Changes of users and nodes go on to the cores that run, in threads. Everything
  meets in the tables, so the state of most of the model is the record \<open>db\<close> of the tables, and an operation
  is a function from the tables (and a clock, where it reads one) to a result and tables. An exception is
  \<open>Inl\<close> with a value of the type \<open>exn\<close>. What is not committed is lost, and what an operation commits before
  it fails is part of its result.

  \<^bold>\<open>Foundations.\<close>

  \<^item> \<open>Prelude\<close>: times in microseconds, Python's truth of values, strings and dictionaries as they are
    used here, rows counted and updated.
  \<^item> \<open>Entities\<close>, \<open>Database\<close>: the rows of \<open>app/db/models.py\<close> as records, the enumerations of
    \<open>app/models\<close>, the tables, and reading and writing a row by its key (the locale \<open>row_table\<close>).
  \<^item> \<open>Permissions\<close>: the permission models of \<open>app/models/admin.py\<close>, with dumping, merging and
    validating them, the defaults of the roles and the checks. \<open>JsonValues\<close>: JSON the way the code handles it.
  \<^item> \<open>Samples\<close>, \<open>ShopSamples\<close>: concrete rows and environments for the witnesses.

  \<^bold>\<open>Users and admins.\<close>

  \<^item> \<open>Lifecycle\<close>: the quota on active users, the transitions of one user and the bulk operations of
    \<open>app/db/crud/user.py\<close>. \<open>Quota\<close>: the invariant \<open>within_quota\<close> and the locale \<open>guarded_change\<close>, the
    contract of an operation that checks before it activates, interpreted by each of them; and the resets of
    \<open>app/db/crud/usage.py\<close>.
  \<^item> \<open>Credentials\<close>, \<open>CredentialFacts\<close>: \<open>app/utils/credentials.py\<close>; UUIDs are lists of 16 bytes
    (\<open>8 word\<close>), and the locale \<open>key_codec\<close> states when keys and UUIDs translate into each other.
  \<^item> \<open>UserCrud\<close>, \<open>UserCrudFacts\<close>, \<open>Rotation\<close>: \<open>create_user\<close>, \<open>update_user\<close>, \<open>revoke_user_sub\<close> and
    \<open>update_user_sub\<close>, with the application of a service (\<open>app/db/crud/other.py\<close>). They run on a session
    of committed tables and one changed object, because \<open>get_or_create_inbound\<close> commits in the middle.
    \<open>LifecycleSteps\<close>: the guarded operations as a step relation and its reachable states.
  \<^item> \<open>UserSchema\<close>: the validators of \<open>app/models/user.py\<close>; the pattern of names is a term of a small
    language of regular expressions with its matching relation.
  \<^item> \<open>Admins\<close>, \<open>AdminFacts\<close>, \<open>AdminAuth\<close>: \<open>app/db/crud/admin.py\<close>, \<open>app/utils/jwt.py\<close> for admin tokens,
    \<open>Admin.get_admin\<close> and \<open>app/dependencies.py\<close>. \<open>AdminRoutes\<close>: the endpoints of \<open>app/routers/admin.py\<close> and
    \<open>app/routers/myaccount.py\<close>.
  \<^item> \<open>UserSearch\<close>, \<open>UserListing\<close>, \<open>ListingFacts\<close>: the list of users with its filters, its search and its
    two ways, over the tables and over the users in Redis.

  \<^bold>\<open>Services, hosts and the configuration.\<close>

  \<^item> \<open>Hosts\<close>, \<open>Services\<close>, \<open>Ports\<close>: the repositories of inbounds, hosts and services
    (\<open>app/db/crud/proxy.py\<close>, \<open>app/db/crud/other.py\<close>), the users of a service, the endpoints of
    \<open>app/routers/service.py\<close> and the choice of a free port. \<open>UserRoutes\<close>: \<open>app/routers/user.py\<close>.
  \<^item> \<open>CoreConfig\<close>: the map of hosts of \<open>app/reb_node/state.py\<close> with its cache, and who is a client of an
    inbound. \<open>XrayConfig\<close>, \<open>XrayFacts\<close>: \<open>app/reb_node/config.py\<close> and \<open>app/utils/xray_defaults.py\<close>, the
    configuration with its migrations and its resolved inbounds.
  \<^item> \<open>HostFacts\<close>, \<open>ServiceFacts\<close>, \<open>RefreshFacts\<close>, \<open>CatalogFacts\<close>, \<open>CoreFacts\<close>, \<open>RouteFacts\<close>: the lemmas; the
    locale \<open>session_predicate\<close> is the contract of what a session that changes a user keeps, \<open>spares\<close> says whose
    rows a request leaves alone.

  \<^bold>\<open>Subscriptions.\<close>

  \<^item> \<open>SubscriptionTokens\<close>: the tokens of \<open>app/utils/jwt.py\<close> down to base64, decimal numbers and UTF-8.
    \<open>SubscriptionAuth\<close>: \<open>app/redis/adapter.py\<close> and the identifiers of \<open>app/routers/subscription.py\<close>.
  \<^item> \<open>UrlText\<close>, \<open>ShareLinks\<close>, \<open>SubscriptionLinks\<close>, \<open>LinkFacts\<close>: percent encoding, the links of
    \<open>app/subscription/v2ray.py\<close> and which hosts they come from (\<open>app/subscription/share.py\<close>).
  \<^item> \<open>JsonDocument\<close>, \<open>ClientDocuments\<close>, \<open>Subscriptions\<close>, \<open>DocumentFacts\<close>: the documents for Xray, sing-box,
    Clash, Clash Meta and Outline, and the format that a client gets.
  \<^item> \<open>SubscriptionRoutes\<close>, \<open>RequestRouting\<close>: the settings of subscriptions, the links built from them, the
    routes in the order in which they are tried, and whether the links that the panel makes are answered.

  \<^bold>\<open>Usage, jobs and nodes.\<close>

  \<^item> \<open>UsageJob\<close>, \<open>UsageJobFacts\<close>, \<open>DueUsers\<close>: \<open>app/jobs/usage/user_usage.py\<close> with its collectors and the
    retries of \<open>safe_execute\<close>. \<open>ReviewJob\<close>: \<open>app/jobs/review_users.py\<close> and
    \<open>app/jobs/reset_user_data_usage.py\<close>; the locale \<open>row_step\<close> is the contract of the steps that write their
    own row only.
  \<^item> \<open>Redis\<close>: what \<open>app/redis/cache.py\<close> and \<open>app/redis/subscription.py\<close> keep of users, as one record.
    \<open>PendingUsage\<close>, \<open>PendingUsageFacts\<close>: the usage job with Redis, \<open>app/redis/pending_backup.py\<close>,
    \<open>app/services/usage_service.py\<close> and \<open>app/jobs/sync_redis_to_db.py\<close>.
  \<^item> \<open>NodeStore\<close>, \<open>NodeJobs\<close>: the rows of nodes and of the master (\<open>app/db/crud/node.py\<close>) and the jobs that
    record the traffic of nodes and outbounds. \<open>NodeRuntime\<close>: the connections of
    \<open>app/reb_node/operations.py\<close>, with connecting as three steps of a thread between which everything else
    may happen. \<open>UsageReports\<close>: the reports of \<open>app/db/crud/usage.py\<close>. \<open>NodeFacts\<close>, \<open>RuntimeFacts\<close>,
    \<open>OutboundFacts\<close>: the lemmas.
  \<^item> \<open>RuntimeUsers\<close>, \<open>RuntimeUserFacts\<close>: the users of a core that runs; what one change starts is a list of
    threads, and a run takes the calls of the threads in any order; \<open>in_turn\<close> is the run that ends each
    thread before it begins the next.

  \<^bold>\<open>Properties\<close> are in the theories whose names end in \<open>Properties\<close>, in \<open>RequestRouting\<close> and here, and are
  numbered in the order of their importance; this theory has those that span several components.

  \<^bold>\<open>What the lemmas show.\<close> Invariants: well-formed tables, the quota, the references between rows and the
  nodes that the registry of connections has, in every reachable state; counters of nodes against their hours. Safety: whose rows a
  request can write, which accounts a change leaves at a core whatever the order of its threads, accounts with
  full access, disabled nodes. Functional behaviour: what each operation leaves of a row, on every branch.
  Refinement and equivalence: a service refresh against its abstract contract, the clients of an inbound,
  the links and documents of a user against their specifications, the list in Redis against the list in the
  tables, a core after a change against a configuration made anew, the totals of jobs and reports against sums.
  Conservation: the synchronisation keeps the sum of stored and pending usage, the job for outbounds adds
  exactly what was collected. Round trips: keys, UUIDs and stored proxies, tokens, links, requests for the
  links that the panel makes. Termination and progress: the making of documents ends, the loop over due users
  returns and leaves none, retries succeed within the bound. Several theorems record what the code does where
  it does not do what it means to: a bulk extension that breaks the quota, a renewal undone by a failed
  report, a refused reset that is half written, traffic that is counted again when an API fails, an outbound
  that is not recorded after it was renamed, a limit that is lost while a node connects, an account that a race
  of threads loses, a sudo admin that promotes itself.

  \<^bold>\<open>Bounds and fuel.\<close> No definition has fuel that the code does not have. Loops that are not structural:
  that over the due users, whose position grows with every batch (the measure is the number of ids after it),
  \<open>str.replace\<close> in the parsing of UUIDs and the search of UUIDs in a text (the length), the buckets of a
  timeline (what is left of the range). The numbering of names in documents is a loop that might not end, so it
  is a \<open>partial_function (option)\<close>, and that it ends is a theorem. The retries are bounded by the code: three
  attempts, and two for the removal of a user from a core. A run of the synchronisation takes 10000 entries at
  most, in batches of 20 users, as the code does; the theorem on conservation holds for any number.

  \<^bold>\<open>Parameters.\<close> Code outside the repository is an argument: the clock, random keys, UUIDs and
  passwords (\<open>environment\<close>), the masks of the panel, the validation of proxy settings and of
  permissions by pydantic (\<open>cb\<close> and \<open>ci\<close> are its coercions to \<open>bool\<close> and \<open>int\<close>), the Xray core, its API and
  what it answers, the decoding of tokens and the digests, the outcome of each commit, whether updating
  the runtime and sending reports succeed, what Redis answers, templates and their rendering, the names in
  certificates. What a property needs of them is a premise with a name: \<open>keeps_users\<close> for the API of a core,
  \<open>usable_masks\<close> for the masks, \<open>coerces\<close> for pydantic. Redis is an optional record: \<open>None\<close> is a server that
  is switched off or not reachable; keys do not expire inside the model. SQL statements are taken as the
  standard has them, the right-hand sides of an \<open>UPDATE\<close> read the old row; where databases differ, in \<open>LIKE\<close> and
  in the order of \<open>NULL\<close>, as SQLite has them. Transactions do not interleave inside an operation, except in
  \<open>update_user_sub\<close>, whose attempts see what others committed, and in the threads of connections and cores.

  \<^bold>\<open>Not modelled\<close>. Input and output: the process of the core and the client of the service on a node
  (\<open>app/reb_node/core.py\<close>, \<open>app/reb_node/node.py\<close>), certificates, files of templates, the reading of logs
  (\<open>app/services/access_insights.py\<close>), Telegram, WARP, statistics of the machine, the dashboard and the command
  line. Glue: the routers of the core, of settings and of user templates, the caching around the user
  repository in \<open>app/services/user_service.py\<close>, the list of admins with its usage columns, the reports of
  services over ranges. Migrations run once, and the protocol code is generated.
\<close>

section \<open>The state of the system\<close>

text \<open>C1. The quota holds in every reachable state: starting from well-formed tables in which no admin
  has more active users than its limit, no sequence of guarded operations (creating, modifying,
  revoking, next plans, resets, status changes, bulk changes, reactivation, removal, cleanup)
  reaches tables that break this or hand out a key twice.\<close>

theorem quota_in_every_reachable_state:
  assumes "reachable d0 d" and "wf_db d0" and "within_quota d0"
  shows "wf_db d \<and> (\<forall>a \<in> set (admins d). is_user_limit_enforced (Some a) \<longrightarrow>
    get_active_users_count d a [] \<le> or_zero (users_limit a))"
  using reachable_ok [OF assms(1)] assms(2,3) by (simp add: system_ok_def within_quota_def)

lemma quota_in_every_reachable_state_witness:
  "wf_db (disable_all_active_users 5 None sample_db) \<and>
   get_active_users_count (disable_all_active_users 5 None sample_db) keeper [] \<le> 3"
proof -
  have r: "reachable sample_db (disable_all_active_users 5 None sample_db)"
    by (rule reachable.step [OF reachable.start disable_step])
  have "wf_db sample_db" "within_quota sample_db" using sample_ok by (simp_all add: system_ok_def)
  moreover have "admins (disable_all_active_users 5 None sample_db) = [keeper]"
    by (simp add: disable_all_active_users_def)
  moreover have "is_user_limit_enforced (Some keeper)" "or_zero (users_limit keeper) = 3"
    by (simp_all add: cycle_simps keeper_def new_admin_def)
  ultimately show ?thesis using quota_in_every_reachable_state [OF r] by simp
qed

text \<open>A bulk extension of the expiry can break the quota: it makes expired users active without a check.\<close>

theorem bulk_extension_breaks_quota:
  "\<exists>d. wf_db d \<and> within_quota d \<and>
     \<not> within_quota (snd (adjust_all_users_expire (200 * usecs) 86400 None None False (Some [Inl Expired]) d))"
proof -
  let ?d = "sample_db\<lparr>users := [ann, bob\<lparr>status := Expired, expire := Some 100\<rparr>],
      admins := [keeper\<lparr>users_limit := Some 1\<rparr>]\<rparr>"
  have "wf_db ?d" by (simp add: wf_db_def)
  moreover have "within_quota ?d"
    by (simp add: within_quota_def get_active_users_count_def active_under_def row_simps)
  moreover have "\<not> within_quota (snd (adjust_all_users_expire (200 * usecs) 86400 None None False (Some [Inl Expired]) ?d))"
    by (simp add: within_quota_def get_active_users_count_def active_under_def row_simps
        adjust_all_users_expire_def resolve_status_scope_def bulk_query_def shifted_expire_status_def
        secs_le_now_def usecs_def cycle_simps Let_def map_filter_simps)
  ultimately show ?thesis by blast
qed

section \<open>The usage job\<close>

text \<open>C29. Traffic is conserved from the samples to the tables: when the statements of one run go through, the
  counters of an admin grow by exactly what the counters of its users grow.\<close>

theorem usage_conserved:
  assumes "wf_db d" and "k \<noteq> 0" and "fetch_admin k (admins d) = Some a"
    and "write_statements mysql answers now samples
      (collect_admin_service_usage samples (load_user_mapping d (map fst samples))) d = (Inr events, d')"
  shows "\<exists>a'. fetch_admin k (admins d') = Some a' \<and>
    users_usage a' - users_usage a =
      sum_list (map used_traffic (filter (\<lambda>u. admin_id u = Some k) (users d'))) -
      sum_list (map used_traffic (filter (\<lambda>u. admin_id u = Some k) (users d))) \<and>
    lifetime_usage a' - lifetime_usage a = users_usage a' - users_usage a"
proof -
  have "traffic_where (owned_by k) e =
      sum_list (map used_traffic (filter (\<lambda>u. admin_id u = Some k) (users e)))" for e
    by (simp add: traffic_where_def owned_by_def sum_list_map_filter')
  with written_conserves [OF assms(1-3) refl] write_statements_Inr [OF assms(4)] show ?thesis by auto
qed

lemma usage_conserved_witness:
  "\<exists>(d' :: db) a'. fetch_admin 1 (admins d') = Some a' \<and> users_usage a' = 5 \<and>
     sum_list (map used_traffic (filter (\<lambda>u. admin_id u = Some 1) (users d'))) = 15"
proof -
  let ?s = "[(1 :: int, 2 :: int), (2, 3)]"
  let ?t = "collect_admin_service_usage ?s (load_user_mapping sample_db (map fst ?s))"
  have t: "?t = \<lparr>admin_usage = [(1, 5)], service_usage = [], admin_service_usage = []\<rparr>"
    by code_simp
  let ?d' = "add_to_admins [(1, 5)] (add_to_users 7 ?s sample_db)"
  obtain events where w: "write_statements False (\<lambda>_ _. Exec_ok) 7 ?s ?t sample_db = (Inr events, ?d')"
    unfolding t by (simp add: write_statements_def safe_execute_def numeral_3_eq_3)
  have a: "fetch_admin 1 (admins sample_db) = Some keeper" by simp
  have u: "sum_list (map used_traffic (filter (\<lambda>u. admin_id u = Some 1) (users ?d'))) = 15"
    "sum_list (map used_traffic (filter (\<lambda>u. admin_id u = Some 1) (users sample_db))) = 10"
    by (simp_all add: add_to_admins_def add_to_users_def row_simps ann_def bob_def new_user_def)
  have "users_usage keeper = 0" by (simp add: keeper_def new_admin_def)
  with usage_conserved [OF sample_wf _ a w] u obtain a' where
    "fetch_admin 1 (admins ?d') = Some a'" "users_usage a' = 5" by auto
  with u(1) show ?thesis by blast
qed

text \<open>Nothing the nodes report is lost or counted twice on the way to the totals: the samples of a user add
  up to the scaled reports of all nodes, and the totals of an admin, a service and a link are the sums
  over the samples of the users that count for them.\<close>

theorem usage_totals_exact:
  "dict_get0 (aggregate_user_usage scale api coefficient) u =
     sum_list (map (\<lambda>(n, params). sum_list (map (\<lambda>(u', v).
       if u' = u then (case coefficient n of None \<Rightarrow> v | Some c \<Rightarrow> scale c v) else 0) params)) api) \<and>
   dict_get0 (admin_usage (collect_admin_service_usage samples mapping)) a =
     sum_where (\<lambda>i. owner_in mapping i = Some a) samples \<and>
   dict_get0 (service_usage (collect_admin_service_usage samples mapping)) s =
     sum_where (\<lambda>i. service_in mapping i = Some s) samples \<and>
   dict_get0 (admin_service_usage (collect_admin_service_usage samples mapping)) (a, s) =
     sum_where (\<lambda>i. owner_in mapping i = Some a \<and> service_in mapping i = Some s) samples"
  unfolding aggregate_get0 collect_totals scaled_def by simp

text \<open>C34. No due user is left behind: when the loop over the due users returns, every active user over its data
  or time limit that has no next plan is committed as limited or expired, for every batch size and
  whatever the other users and the outcome of their plans.\<close>

theorem due_users_are_moved:
  assumes "wf_db d" and "fetch_user (uid u) (users d) = Some u" and "due_now now u"
    and "next_plans u = []" and "batch > 0"
  shows "fetch_user (uid u) (users (snd (enforce_due_active_users clock now notify batch d))) =
    Some (u\<lparr>status := (if over_limit u then Limited else Expired),
            last_status_change := Some (clock (uid u))\<rparr>)"
  using due_users_moved [OF assms] by (simp add: moved_def)

lemma due_users_are_moved_witness:
  "fetch_user 2 (users (snd (enforce_due_active_users (\<lambda>_. 9) 9 (\<lambda>_. True) 1 sample_db))) =
     Some (bob\<lparr>status := Limited, last_status_change := Some 9\<rparr>)"
proof -
  have "fetch_user (uid bob) (users sample_db) = Some bob" "due_now 9 bob" "next_plans bob = []"
    by (simp_all add: due_now_def bob_def new_user_def)
  from due_users_are_moved [OF sample_wf this, of 1 "\<lambda>_. 9" "\<lambda>_. True"] show ?thesis
    by (simp add: over_limit_def bob_def new_user_def)
qed

text \<open>The retry of a statement: it is executed when an attempt succeeds before the attempts are used up and
  every failure before it may be retried, and a call that returns has executed it.\<close>

theorem safe_execute_retries:
  assumes "k < max_retries" and "answers k = Exec_ok" and "\<forall>j < k. retried mysql (answers j)"
  shows "safe_execute mysql answers max_retries stmt d = (Inr (), stmt d)"
  using safe_attempts_ok [of k max_retries answers 0 mysql] assms by (simp add: safe_execute_def)

lemma safe_execute_retries_witness:
  "safe_execute True (\<lambda>n. if n = 0 then Deadlock else Exec_ok) 3 (add_to_users 1 [(1, 5)]) sample_db =
     (Inr (), add_to_users 1 [(1, 5)] sample_db)"
  by (rule safe_execute_retries [of 1]) (simp_all add: retried_def)

text \<open>A renewal whose notification fails does not last: once the plan was committed, an exception of the
  runtime or of a report makes the job mark the user limited again, with the fresh limit unused.\<close>

theorem renewed_user_limited_again:
  assumes "over_limit u" and "next_plan_of u = Some plan" and "plan_triggers True (over_time now u) u plan"
    and "reset_user_by_next_obj t (ef_view ef) u = (Inr True, u')" and "\<not> notify u'"
  shows "ef_changed (enforce_limits t now notify u ef) = ef_changed ef @ [uid u] \<and>
    ef_pending (enforce_limits t now notify u ef) =
      [u'\<lparr>status := Limited, last_status_change := Some t\<rparr>] \<and> used_traffic u' = 0"
proof -
  have "status u' = Active" "uid u' = uid u" "used_traffic u' = 0"
    using reset_by_next_effect [OF assms(4)] reset_obj_uid [OF assms(4)] by simp_all
  then show ?thesis using assms by (simp add: enforce_limits_def set_target_status_def Let_def)
qed

lemma renewed_user_limited_again_witness:
  "\<exists>u'. reset_user_by_next_obj 7 sample_db (bob\<lparr>next_plans := [sample_plan]\<rparr>) = (Inr True, u') \<and>
     ef_pending (enforce_limits 7 7 (\<lambda>_. False) (bob\<lparr>next_plans := [sample_plan]\<rparr>)
       (new_enforcement sample_db sample_db)) = [u'\<lparr>status := Limited, last_status_change := Some 7\<rparr>]"
proof -
  let ?u = "bob\<lparr>next_plans := [sample_plan]\<rparr>" and ?ef = "new_enforcement sample_db sample_db"
  obtain u' where r: "reset_user_by_next_obj 7 (ef_view ?ef) ?u = (Inr True, u')"
    by (simp add: new_enforcement_def reset_user_by_next_obj_def next_plan_of_def sample_plan_def Let_def)
  have o: "over_limit ?u" "next_plan_of ?u = Some sample_plan"
    "plan_triggers True (over_time 7 ?u) ?u sample_plan"
    by (simp_all add: over_limit_def next_plan_of_def plan_triggers_def sample_plan_def bob_def new_user_def)
  from renewed_user_limited_again [OF o r, of "\<lambda>_. False"] r show ?thesis by (simp add: new_enforcement_def)
qed

end
